(* ===== verification/Prelude.thy ===== *)
theory Prelude
  imports Main "HOL-Library.Word" "HOL-Library.Monad_Syntax"
begin

text \<open>
  Shared vocabulary of the development. Every C integer of the modelled code is an
  \<open>int\<close>; each conversion the C code makes to a fixed-width type is one of the
  functions below (\<open>u8\<close>, \<open>u16\<close>, \<open>u32\<close>, \<open>u64\<close> reduce
  modulo the type's size, \<open>s8\<close>, \<open>s16\<close>, \<open>s32\<close>, \<open>s64\<close> read
  the same bits as two's complement), so wrap-around is visible where the source can
  have it. A left shift is a multiplication by a power of two, a right shift is the
  flooring division (the arithmetic shift of the compilers the project supports).
  An array is an \<open>int list\<close>.

  The collection \<open>c_int\<close> holds the facts that evaluate or remove conversions.
\<close>

unbundle bit_operations_syntax

named_theorems c_int

section \<open>Fixed-width conversions\<close>

definition u8 :: "int \<Rightarrow> int" where "u8 x = x mod 256"
definition u16 :: "int \<Rightarrow> int" where "u16 x = x mod 65536"
definition u32 :: "int \<Rightarrow> int" where "u32 x = x mod 4294967296"
definition u64 :: "int \<Rightarrow> int" where "u64 x = x mod 18446744073709551616"

definition s8 :: "int \<Rightarrow> int" where "s8 x = (x + 128) mod 256 - 128"
definition s16 :: "int \<Rightarrow> int" where "s16 x = (x + 32768) mod 65536 - 32768"
definition s32 :: "int \<Rightarrow> int" where "s32 x = (x + 2147483648) mod 4294967296 - 2147483648"
definition s64 :: "int \<Rightarrow> int" where
  "s64 x = (x + 9223372036854775808) mod 18446744073709551616 - 9223372036854775808"

definition shl :: "int \<Rightarrow> nat \<Rightarrow> int" where "shl x n = x * 2 ^ n"
definition shr :: "int \<Rightarrow> nat \<Rightarrow> int" where "shr x n = x div 2 ^ n"

definition b2i :: "bool \<Rightarrow> int" where "b2i b = (if b then 1 else 0)"

lemma u8_id [c_int]: "0 \<le> x \<Longrightarrow> x < 256 \<Longrightarrow> u8 x = x" by (simp add: u8_def)
lemma u16_id [c_int]: "0 \<le> x \<Longrightarrow> x < 65536 \<Longrightarrow> u16 x = x" by (simp add: u16_def)
lemma u32_id [c_int]: "0 \<le> x \<Longrightarrow> x < 4294967296 \<Longrightarrow> u32 x = x" by (simp add: u32_def)
lemma u64_id [c_int]: "0 \<le> x \<Longrightarrow> x < 18446744073709551616 \<Longrightarrow> u64 x = x"
  by (simp add: u64_def)
lemma s8_id [c_int]: "-128 \<le> x \<Longrightarrow> x < 128 \<Longrightarrow> s8 x = x" by (simp add: s8_def)
lemma s16_id [c_int]: "-32768 \<le> x \<Longrightarrow> x < 32768 \<Longrightarrow> s16 x = x" by (simp add: s16_def)
lemma s32_id [c_int]: "-2147483648 \<le> x \<Longrightarrow> x < 2147483648 \<Longrightarrow> s32 x = x"
  by (simp add: s32_def)

lemma u8_ge [simp]: "0 \<le> u8 x" and u8_lt [simp]: "u8 x < 256" by (simp_all add: u8_def)
lemma u16_ge [simp]: "0 \<le> u16 x" and u16_lt [simp]: "u16 x < 65536" by (simp_all add: u16_def)
lemma u32_ge [simp]: "0 \<le> u32 x" and u32_lt [simp]: "u32 x < 4294967296"
  by (simp_all add: u32_def)
lemma u64_ge [simp]: "0 \<le> u64 x" and u64_lt [simp]: "u64 x < 18446744073709551616"
  by (simp_all add: u64_def)

lemma s8_ge [simp]: "-128 \<le> s8 x" and s8_le [simp]: "s8 x \<le> 127"
  using pos_mod_bound [of 256 "x + 128"] pos_mod_sign [of 256 "x + 128"]
  unfolding s8_def by linarith+
lemma s16_ge [simp]: "-32768 \<le> s16 x" and s16_le [simp]: "s16 x \<le> 32767"
  using pos_mod_bound [of 65536 "x + 32768"] pos_mod_sign [of 65536 "x + 32768"]
  unfolding s16_def by linarith+

lemma s32_u32 [simp]: "s32 (u32 x) = s32 x"
  by (simp add: s32_def u32_def mod_add_left_eq)

lemma s32_wrap: "s32 (x + 4294967296) = s32 x"
proof -
  have "x + 4294967296 + 2147483648 = (x + 2147483648) + 4294967296" by simp
  then show ?thesis unfolding s32_def by (simp only: mod_add_self2)
qed

lemma b2i_simps [simp]: "b2i True = 1" "b2i False = 0" by (simp_all add: b2i_def)
lemma b2i_ge [simp]: "0 \<le> b2i b" and b2i_le [simp]: "b2i b \<le> 1" by (simp_all add: b2i_def)
lemma b2i_eq_iff [simp]: "b2i a = b2i b \<longleftrightarrow> a = b" by (auto simp: b2i_def)
lemma b2i_eq_0 [simp]: "b2i b = 0 \<longleftrightarrow> \<not> b" and b2i_eq_1 [simp]: "b2i b = 1 \<longleftrightarrow> b"
  by (auto simp: b2i_def)

lemma shl_0 [simp]: "shl x 0 = x" by (simp add: shl_def)
lemma shr_0 [simp]: "shr x 0 = x" by (simp add: shr_def)
lemma shr_nonneg [simp]: "0 \<le> x \<Longrightarrow> 0 \<le> shr x n" by (simp add: shr_def pos_imp_zdiv_nonneg_iff)
lemma shr_eq_drop_bit: "shr x n = drop_bit n x" by (simp add: shr_def drop_bit_eq_div)
lemma shl_eq_push_bit: "shl x n = push_bit n x" by (simp add: shl_def push_bit_eq_mult)

section \<open>Bitwise operations as arithmetic\<close>

lemma and_1_mod_2 [c_int]: "x AND 1 = x mod (2::int)"
  by (simp add: and_one_eq)

lemma and_mask_mod: "x AND (2 ^ n - 1) = x mod (2 ^ n :: int)"
  by (simp add: take_bit_eq_mask mask_eq_exp_minus_1 flip: take_bit_eq_mod)

lemma and_not_mask_div: "x AND NOT (2 ^ n - 1) = x div 2 ^ n * (2 ^ n :: int)"
proof -
  have "x AND NOT (mask n) = push_bit n (drop_bit n x)"
    by (rule bit_eqI) (auto simp: bit_simps)
  then show ?thesis by (simp add: push_bit_eq_mult drop_bit_eq_div mask_eq_exp_minus_1)
qed

lemma or_disjoint_add:
  fixes x y :: int
  assumes "0 \<le> x" and "x < 2 ^ n"
  shows "x OR (y * 2 ^ n) = x + y * 2 ^ n"
proof -
  have "x AND push_bit n y = 0"
  proof (rule bit_eqI)
    fix k
    have "x = take_bit n x" using assms by (simp add: take_bit_int_eq_self)
    then have "bit x k \<longleftrightarrow> k < n \<and> bit x k" by (metis bit_take_bit_iff)
    then show "bit (x AND push_bit n y) k = bit (0::int) k"
      by (auto simp: bit_and_iff bit_push_bit_iff)
  qed
  then have "x OR push_bit n y = x + push_bit n y" by (simp add: disjunctive_add_eq_or)
  then show ?thesis by (simp add: push_bit_eq_mult)
qed

lemma or_disjoint_add':
  fixes x y :: int
  assumes "0 \<le> x" and "x < 2 ^ n"
  shows "(y * 2 ^ n) OR x = y * 2 ^ n + x"
  using or_disjoint_add [OF assms, of y] by (simp add: or.commute add.commute)

lemma mod_pow_split:
  fixes x :: int
  shows "x mod 2 ^ Suc n = (x div 2 ^ n mod 2) * 2 ^ n + x mod 2 ^ n"
proof -
  have "x mod (2 ^ n * 2) = 2 ^ n * (x div 2 ^ n mod 2) + x mod 2 ^ n"
    by (rule zmod_zmult2_eq) simp
  then show ?thesis by (simp add: mult.commute)
qed

lemma bit_int_div: "bit (v::int) n \<longleftrightarrow> odd (v div 2 ^ n)"
  by (simp add: bit_iff_odd)

lemma b2i_bit: "b2i (bit (v::int) n) = v div 2 ^ n mod 2"
  by (simp add: b2i_def bit_int_div mod_2_eq_odd)

lemma le_div_int_iff: "0 < b \<Longrightarrow> (y::int) \<le> x div b \<longleftrightarrow> y * b \<le> x"
proof
  assume b: "0 < b" and "y \<le> x div b"
  then have "y * b \<le> x div b * b" by (simp add: mult_right_mono)
  also have "\<dots> \<le> x" using minus_mod_eq_div_mult [of x b] pos_mod_sign [OF b, of x] by linarith
  finally show "y * b \<le> x" .
next
  assume b: "0 < b" and "y * b \<le> x"
  then have "y * b div b \<le> x div b" by (intro zdiv_mono1)
  then show "y \<le> x div b" using b by simp
qed

lemma div_less_int_iff: "0 < b \<Longrightarrow> (x::int) div b < y \<longleftrightarrow> x < y * b"
  using le_div_int_iff [of b y x] by linarith

section \<open>Most significant bit (\<open>aom_ports/bitops.h\<close>)\<close>

text \<open>\<open>get_msb\<close> is \<open>31 ^ __builtin_clz(n)\<close>, the index of the highest set bit.\<close>

fun get_msb :: "int \<Rightarrow> nat" where
  "get_msb n = (if n \<le> 1 then 0 else Suc (get_msb (n div 2)))"

declare get_msb.simps [simp del]

lemma get_msb_bounds:
  "0 < n \<Longrightarrow> 2 ^ get_msb n \<le> n \<and> n < 2 ^ Suc (get_msb n)"
proof (induction n rule: get_msb.induct)
  case (1 n)
  show ?case
  proof (cases "n \<le> 1")
    case True
    with 1 have "n = 1" by simp
    then show ?thesis by (simp add: get_msb.simps)
  next
    case False
    then have "0 < n div 2" by simp
    from "1.IH" [OF False this]
    have "2 ^ get_msb (n div 2) \<le> n div 2" and "n div 2 < 2 ^ Suc (get_msb (n div 2))" by auto
    moreover have "get_msb n = Suc (get_msb (n div 2))" using False by (subst get_msb.simps) simp
    ultimately show ?thesis by simp linarith
  qed
qed

lemma get_msb_le: "0 < n \<Longrightarrow> 2 ^ get_msb n \<le> n"
  and get_msb_lt: "0 < n \<Longrightarrow> n < 2 * 2 ^ get_msb n"
  using get_msb_bounds [of n] by simp_all

lemma get_msb_unique: "2 ^ k \<le> n \<Longrightarrow> n < 2 * 2 ^ k \<Longrightarrow> get_msb n = k"
proof -
  assume a: "2 ^ k \<le> n" "n < 2 * 2 ^ k"
  have n: "0 < n" using a(1) by (meson less_le_trans zero_less_numeral zero_less_power)
  have "(2::int) ^ get_msb n < 2 ^ Suc k" and "(2::int) ^ k < 2 ^ Suc (get_msb n)"
    using a get_msb_bounds [OF n] by simp_all
  then have "get_msb n < Suc k" and "k < Suc (get_msb n)"
    by (simp_all add: power_strict_increasing_iff del: power_Suc)
  then show ?thesis by simp
qed

section \<open>Clamping (\<open>aom_dsp/aom_dsp_common.h\<close>)\<close>

definition clamp :: "int \<Rightarrow> int \<Rightarrow> int \<Rightarrow> int" where
  "clamp value low high = (if value < low then low else if value > high then high else value)"

lemma clamp_ge: "low \<le> high \<Longrightarrow> low \<le> clamp v low high"
  and clamp_le: "low \<le> high \<Longrightarrow> clamp v low high \<le> high"
  by (auto simp: clamp_def)

lemma clamp_id [c_int]: "low \<le> v \<Longrightarrow> v \<le> high \<Longrightarrow> clamp v low high = v"
  by (auto simp: clamp_def)

section \<open>Memory from the C library\<close>

text \<open>
  Whether a request for a number of bytes is granted, and the value of the bytes an
  allocation does not define.
\<close>

record allocator =
  alloc_ok :: "int \<Rightarrow> bool"
  alloc_junk :: int

text \<open>\<open>realloc\<close> keeps the old bytes; what follows them is indeterminate.\<close>

definition realloc_bytes :: "allocator \<Rightarrow> int list \<Rightarrow> int \<Rightarrow> int list option" where
  "realloc_bytes al buf n =
     (if alloc_ok al n
      then Some (take (nat n) buf @ replicate (nat n - length buf) (alloc_junk al)) else None)"

definition memcpy_at :: "int list \<Rightarrow> nat \<Rightarrow> int list \<Rightarrow> int list option" where
  "memcpy_at out offs src =
     (if offs + length src \<le> length out then Some (take offs out @ src @ drop (offs + length src) out)
      else None)"

text \<open>An allocator that grants every request.\<close>

definition sample_alloc :: allocator where
  "sample_alloc = \<lparr>alloc_ok = \<lambda>_. True, alloc_junk = 0\<rparr>"

end
