(* ===== verification/Leb128.thy ===== *)
theory Leb128
  imports Prelude
begin

text \<open>
  \<open>aom/src/aom_integer.c\<close>: the unsigned LEB128 code that carries every OBU size.
  The unsigned C values are natural numbers. A byte buffer together with its
  \<open>available\<close> count is the list of the bytes that may be accessed, and \<open>None\<close>
  is a NULL pointer; an out-parameter is returned as the value stored through it,
  \<open>None\<close> when nothing was stored.
\<close>

section \<open>Model\<close>

definition kMaximumLeb128Size :: nat where "kMaximumLeb128Size = 8"
definition kLeb128ByteMask :: nat where "kLeb128ByteMask = 127"
definition kMaximumLeb128Value :: nat where "kMaximumLeb128Value = 4294967295"

fun uleb_size_loop :: "nat \<Rightarrow> nat \<Rightarrow> nat" where
  "uleb_size_loop sz value =
     (if value div 128 \<noteq> 0 then uleb_size_loop (Suc sz) (value div 128) else Suc sz)"

declare uleb_size_loop.simps [simp del]

definition aom_uleb_size_in_bytes :: "nat \<Rightarrow> nat" where
  "aom_uleb_size_in_bytes value = uleb_size_loop 0 value"

text \<open>The decoding loop: result code, the value accumulated so far, the length stored.\<close>

function uleb_decode_loop ::
  "nat list \<Rightarrow> nat \<Rightarrow> nat \<Rightarrow> bool \<Rightarrow> int \<times> nat option \<times> nat option" where
  "uleb_decode_loop buffer i value lenp =
     (if i < kMaximumLeb128Size \<and> i < length buffer then
        (let decoded_byte = buffer ! i AND kLeb128ByteMask;
             value = value OR push_bit (i * 7) decoded_byte
         in if drop_bit 7 (buffer ! i) = 0 then
              (if value > 4294967295 then -1 else 0, Some value, if lenp then Some (i + 1) else None)
            else uleb_decode_loop buffer (Suc i) value lenp)
      else (-1, Some value, None))"
  by pat_completeness auto
termination
  by (relation "measure (\<lambda>(buffer, i, value, lenp). length buffer - i)") auto

declare uleb_decode_loop.simps [simp del]

definition aom_uleb_decode ::
  "nat list option \<Rightarrow> bool \<Rightarrow> bool \<Rightarrow> int \<times> nat option \<times> nat option" where
  "aom_uleb_decode buffer valuep lenp =
     (case buffer of
        Some b \<Rightarrow> if valuep then uleb_decode_loop b 0 0 lenp else (-1, None, None)
      | None \<Rightarrow> (-1, None, None))"

fun uleb_encode_loop :: "nat \<Rightarrow> nat \<Rightarrow> nat \<Rightarrow> nat list \<Rightarrow> nat list" where
  "uleb_encode_loop 0 i value coded_value = coded_value"
| "uleb_encode_loop (Suc k) i value coded_value =
     (let byte = value AND 127; value = drop_bit 7 value;
          byte = (if value \<noteq> 0 then byte OR 128 else byte)
      in uleb_encode_loop k (Suc i) value (coded_value[i := byte]))"

text \<open>The result code, the buffer afterwards and the size stored through \<open>coded_size\<close>.\<close>

definition aom_uleb_encode ::
  "nat \<Rightarrow> nat \<Rightarrow> nat list option \<Rightarrow> bool \<Rightarrow> int \<times> nat list option \<times> nat option" where
  "aom_uleb_encode value available coded_value coded_sizep =
     (let leb_size = aom_uleb_size_in_bytes value in
      case coded_value of
        None \<Rightarrow> (-1, None, None)
      | Some buf \<Rightarrow>
          if value > kMaximumLeb128Value \<or> leb_size > kMaximumLeb128Size \<or>
             leb_size > available \<or> \<not> coded_sizep
          then (-1, Some buf, None)
          else (0, Some (uleb_encode_loop leb_size 0 value buf), Some leb_size))"

fun uleb_fixed_loop :: "nat \<Rightarrow> nat \<Rightarrow> nat \<Rightarrow> nat \<Rightarrow> nat list \<Rightarrow> nat list" where
  "uleb_fixed_loop 0 i pad_to_size value coded_value = coded_value"
| "uleb_fixed_loop (Suc k) i pad_to_size value coded_value =
     (let byte = value AND 127; value = drop_bit 7 value;
          byte = (if i < pad_to_size - 1 then byte OR 128 else byte)
      in uleb_fixed_loop k (Suc i) pad_to_size value (coded_value[i := byte]))"

definition aom_uleb_encode_fixed_size ::
  "nat \<Rightarrow> nat \<Rightarrow> nat \<Rightarrow> nat list option \<Rightarrow> bool \<Rightarrow> int \<times> nat list option \<times> nat option" where
  "aom_uleb_encode_fixed_size value available pad_to_size coded_value coded_sizep =
     (case coded_value of
        None \<Rightarrow> (-1, None, None)
      | Some buf \<Rightarrow>
          if value > kMaximumLeb128Value \<or> \<not> coded_sizep \<or> available < pad_to_size \<or>
             pad_to_size > kMaximumLeb128Size
          then (-1, Some buf, None)
          else if value \<ge> 2 ^ (7 * pad_to_size) then (-1, Some buf, None)
          else (0, Some (uleb_fixed_loop pad_to_size 0 pad_to_size value buf), Some pad_to_size))"

section \<open>Supporting lemmas\<close>

lemma nat_and_127: "(x::nat) AND 127 = x mod 128"
  using take_bit_eq_mask [of 7 x] by (simp add: take_bit_eq_mod mask_eq_exp_minus_1)

lemma nat_or_push: "(x::nat) < 2 ^ n \<Longrightarrow> x OR push_bit n y = x + y * 2 ^ n"
proof -
  assume x: "x < 2 ^ n"
  have "x AND push_bit n y = 0"
  proof (rule bit_eqI)
    fix k
    have "x = take_bit n x" using x by (simp add: take_bit_nat_eq_self)
    then have "bit x k \<longleftrightarrow> k < n \<and> bit x k" by (metis bit_take_bit_iff)
    then show "bit (x AND push_bit n y) k = bit (0::nat) k"
      by (auto simp: bit_and_iff bit_push_bit_iff)
  qed
  then show ?thesis by (simp add: disjunctive_add_eq_or push_bit_eq_mult)
qed

lemma nat_or_128: "(x::nat) < 128 \<Longrightarrow> x OR 128 = x + 128"
  using nat_or_push [of x 7 1] by (simp add: push_bit_eq_mult)

lemma uleb_size_loop_add: "uleb_size_loop k v = k + uleb_size_loop 0 v"
proof (induction v arbitrary: k rule: less_induct)
  case (less v)
  show ?case
  proof (cases "v div 128 = 0")
    case True
    then show ?thesis by (simp add: uleb_size_loop.simps [of _ v])
  next
    case False
    then have "v div 128 < v" by (cases "v = 0") auto
    from less [OF this, of "Suc k"] less [OF this, of "Suc 0"] False show ?thesis
      by (simp add: uleb_size_loop.simps [of _ v])
  qed
qed

lemma aom_uleb_size_rec:
  "aom_uleb_size_in_bytes v = (if v < 128 then 1 else Suc (aom_uleb_size_in_bytes (v div 128)))"
  using uleb_size_loop_add [of "Suc 0" "v div 128"]
  by (simp add: aom_uleb_size_in_bytes_def uleb_size_loop.simps [of _ v] div_eq_0_iff)

text \<open>Little-endian base-128 digits, and the continuation bits on all but the last.\<close>

fun digits128 :: "nat \<Rightarrow> nat \<Rightarrow> nat list" where
  "digits128 0 v = []"
| "digits128 (Suc k) v = v mod 128 # digits128 k (v div 128)"

fun continued :: "nat list \<Rightarrow> nat list" where
  "continued [] = []"
| "continued [d] = [d]"
| "continued (d # e # ds) = (d + 128) # continued (e # ds)"

fun value128 :: "nat list \<Rightarrow> nat" where
  "value128 [] = 0"
| "value128 (d # ds) = d + 128 * value128 ds"

lemma length_digits128 [simp]: "length (digits128 k v) = k"
  by (induction k arbitrary: v) auto

lemma length_continued [simp]: "length (continued ds) = length ds"
  by (induction ds rule: continued.induct) auto

lemma digits128_lt: "d \<in> set (digits128 k v) \<Longrightarrow> d < 128"
  by (induction k arbitrary: v) auto

lemma value_digits128: "v < 128 ^ k \<Longrightarrow> value128 (digits128 k v) = v"
proof (induction k arbitrary: v)
  case (Suc k)
  then have "v div 128 < 128 ^ k" by (simp add: less_mult_imp_div_less mult.commute)
  with Suc.IH show ?case by simp
qed simp

lemma size_least: "v < 128 ^ aom_uleb_size_in_bytes v"
proof (induction v rule: less_induct)
  case (less v)
  show ?case
  proof (cases "v < 128")
    case True
    then show ?thesis by (simp add: aom_uleb_size_rec [of v])
  next
    case False
    then have "v div 128 < v" by simp
    from less [OF this] False show ?thesis by (simp add: aom_uleb_size_rec [of v]) 
  qed
qed

lemma size_minimal: "v < 128 ^ n \<Longrightarrow> 0 < n \<Longrightarrow> aom_uleb_size_in_bytes v \<le> n"
proof (induction n arbitrary: v)
  case (Suc n)
  show ?case
  proof (cases "v < 128")
    case True
    then show ?thesis by (simp add: aom_uleb_size_rec [of v])
  next
    case False
    have "v div 128 < 128 ^ n"
      using Suc.prems by (intro less_mult_imp_div_less) (simp add: mult.commute)
    moreover have "n \<noteq> 0" using Suc.prems False by (cases n) auto
    ultimately show ?thesis using Suc.IH [of "v div 128"] False by (simp add: aom_uleb_size_rec [of v])
  qed
qed simp

lemma list_update_take_drop:
  "i + Suc k \<le> length b \<Longrightarrow>
   take (Suc i) (b[i := x]) @ ys @ drop (Suc i + k) (b[i := x]) = take i b @ x # ys @ drop (Suc i + k) b"
  by (simp add: take_Suc_conv_app_nth)

lemma uleb_encode_loop_bytes:
  "k = aom_uleb_size_in_bytes v \<Longrightarrow> i + k \<le> length b \<Longrightarrow>
   uleb_encode_loop k i v b = take i b @ continued (digits128 k v) @ drop (i + k) b"
proof (induction k arbitrary: i v b)
  case 0
  then show ?case by (simp add: aom_uleb_size_rec [of v] split: if_splits)
next
  case (Suc k)
  show ?case
  proof (cases "v < 128")
    case True
    with Suc.prems(1) have "k = 0" by (simp add: aom_uleb_size_rec [of v])
    with True Suc.prems(2) show ?thesis
      by (simp add: drop_bit_eq_div nat_and_127 upd_conv_take_nth_drop)
  next
    case False
    then have k: "k = aom_uleb_size_in_bytes (v div 128)"
      using Suc.prems by (simp add: aom_uleb_size_rec [of v])
    then have "0 < k" by (simp add: aom_uleb_size_rec [of "v div 128"])
    then obtain k' where k': "k = Suc k'" using gr0_implies_Suc by blast
    let ?x = "v mod 128 + 128"
    have "uleb_encode_loop (Suc k) i v b = uleb_encode_loop k (Suc i) (v div 128) (b[i := ?x])"
      using False by (simp add: Let_def drop_bit_eq_div nat_and_127 nat_or_128 div_eq_0_iff)
    also have "\<dots> = take (Suc i) (b[i := ?x]) @ continued (digits128 k (v div 128)) @ drop (Suc i + k) (b[i := ?x])"
      using Suc.IH [OF k, of "Suc i" "b[i := ?x]"] Suc.prems by simp
    also have "\<dots> = take i b @ ?x # continued (digits128 k (v div 128)) @ drop (Suc i + k) b"
      using Suc.prems by (intro list_update_take_drop) simp
    finally show ?thesis using k' by simp
  qed
qed

lemma uleb_fixed_loop_bytes:
  "i + k = n \<Longrightarrow> n \<le> length b \<Longrightarrow>
   uleb_fixed_loop k i n v b = take i b @ continued (digits128 k v) @ drop (i + k) b"
proof (induction k arbitrary: i v b)
  case 0
  then show ?case by simp
next
  case (Suc k)
  let ?x = "if k = 0 then v mod 128 else v mod 128 + 128"
  have "uleb_fixed_loop (Suc k) i n v b = uleb_fixed_loop k (Suc i) n (v div 128) (b[i := ?x])"
    using Suc.prems by (auto simp: drop_bit_eq_div nat_and_127 nat_or_128)
  also have "\<dots> = take (Suc i) (b[i := ?x]) @ continued (digits128 k (v div 128)) @ drop (Suc i + k) (b[i := ?x])"
    using Suc.IH [of "Suc i" "b[i := ?x]"] Suc.prems by simp
  also have "\<dots> = take i b @ ?x # continued (digits128 k (v div 128)) @ drop (Suc i + k) b"
    using Suc.prems by (intro list_update_take_drop) simp
  finally show ?case by (cases k) auto
qed

text \<open>Decoding a run of continued digits adds their value at the current position.\<close>

lemma uleb_decode_loop_digits:
  assumes "ds \<noteq> []" and "\<And>d. d \<in> set ds \<Longrightarrow> d < 128" and "length pre + length ds \<le> 8"
    and "acc < 2 ^ (7 * length pre)"
  shows "uleb_decode_loop (pre @ continued ds @ rest) (length pre) acc True =
    (if acc + value128 ds * 2 ^ (7 * length pre) > 4294967295 then -1 else 0,
     Some (acc + value128 ds * 2 ^ (7 * length pre)), Some (length pre + length ds))"
  using assms
proof (induction ds arbitrary: pre acc rule: continued.induct)
  case (2 d)
  then show ?case
    by (subst uleb_decode_loop.simps)
      (simp add: kMaximumLeb128Size_def kLeb128ByteMask_def nth_append nat_and_127
        nat_or_push [of acc] drop_bit_eq_div mult.commute)
next
  case (3 d e ds)
  let ?n = "length pre"
  let ?acc = "acc + d * 2 ^ (7 * ?n)"
  have d: "d < 128" using "3.prems"(2) [of d] by simp
  have "?acc < 2 ^ (7 * ?n) + d * 2 ^ (7 * ?n)" using "3.prems"(4) by simp
  also have "\<dots> \<le> 128 * 2 ^ (7 * ?n)" using mult_le_mono1 [of "Suc d" 128 "2 ^ (7 * ?n)"] d by simp
  finally have acc: "?acc < 2 ^ (7 * length (pre @ [d + 128]))" by (simp add: power_add)
  have "uleb_decode_loop (pre @ continued (d # e # ds) @ rest) ?n acc True
      = uleb_decode_loop ((pre @ [d + 128]) @ continued (e # ds) @ rest) (length (pre @ [d + 128])) ?acc True"
    using "3.prems"(3,4) d
    by (subst uleb_decode_loop.simps)
      (simp add: Let_def div_add1_eq kMaximumLeb128Size_def kLeb128ByteMask_def nth_append nat_and_127
        nat_or_push [of acc] drop_bit_eq_div mult.commute)
  also note "3.IH" [OF _ _ _ acc]
  finally show ?case
    using "3.prems" by (simp add: power_add algebra_simps)
qed simp

lemma uleb_decode_continued:
  assumes "v \<le> 4294967295" and "v < 128 ^ n" and "0 < n" and "n \<le> 8"
  shows "aom_uleb_decode (Some (continued (digits128 n v) @ rest)) True True = (0, Some v, Some n)"
proof -
  have "digits128 n v \<noteq> []" using assms(3) by (cases n) auto
  with uleb_decode_loop_digits [of "digits128 n v" "[]" 0 rest] assms show ?thesis
    by (simp add: aom_uleb_decode_def digits128_lt value_digits128)
qed

lemma uint32_size: "v \<le> 4294967295 \<Longrightarrow> aom_uleb_size_in_bytes v \<le> 5"
  by (rule size_minimal) auto

lemma uint32_size_pos: "0 < aom_uleb_size_in_bytes v"
  by (simp add: aom_uleb_size_rec [of v])

section \<open>Properties\<close>

text \<open>
  C38. What \<open>aom_uleb_encode\<close> writes, \<open>aom_uleb_decode\<close> reads back: for every
  value up to UINT32_MAX and every buffer with enough room, encoding succeeds, and
  decoding the buffer (whatever follows the code in it) returns the value and the
  number of bytes written, which is the fewest that hold the value in base 128.
\<close>

theorem uleb_roundtrip:
  assumes "v \<le> 4294967295" and "aom_uleb_size_in_bytes v \<le> available"
    and "available \<le> length buf"
  shows "\<exists>buf' n. aom_uleb_encode v available (Some buf) True = (0, Some buf', Some n) \<and>
    aom_uleb_decode (Some buf') True True = (0, Some v, Some n) \<and>
    length buf' = length buf \<and> drop n buf' = drop n buf \<and>
    v < 128 ^ n \<and> (\<forall>m > 0. v < 128 ^ m \<longrightarrow> n \<le> m)"
proof -
  let ?n = "aom_uleb_size_in_bytes v"
  let ?b = "uleb_encode_loop ?n 0 v buf"
  have n: "?n \<le> 8" "?n \<le> length buf" using uint32_size [OF assms(1)] assms by simp_all
  have b: "?b = continued (digits128 ?n v) @ drop ?n buf"
    using uleb_encode_loop_bytes [of ?n v 0 buf] n by simp
  have "aom_uleb_encode v available (Some buf) True = (0, Some ?b, Some ?n)"
    using assms n by (simp add: aom_uleb_encode_def Let_def kMaximumLeb128Value_def kMaximumLeb128Size_def)
  moreover have "aom_uleb_decode (Some ?b) True True = (0, Some v, Some ?n)"
    unfolding b using assms n by (intro uleb_decode_continued size_least uint32_size_pos)
  ultimately show ?thesis
    using n b size_least size_minimal by (intro exI [of _ ?b] exI [of _ ?n]) simp
qed

theorem uleb_roundtrip_witness:
  "\<exists>buf' n. aom_uleb_encode 300 4 (Some [7, 7, 7, 7]) True = (0, Some buf', Some n) \<and>
    aom_uleb_decode (Some buf') True True = (0, Some 300, Some n) \<and>
    length buf' = length [7, 7, 7, 7 :: nat] \<and> drop n buf' = drop n [7, 7, 7, 7] \<and>
    (300::nat) < 128 ^ n \<and> (\<forall>m > 0. (300::nat) < 128 ^ m \<longrightarrow> n \<le> m)"
  using uleb_roundtrip [of 300 4 "[7, 7, 7, 7]"]
  by (simp add: aom_uleb_size_in_bytes_def uleb_size_loop.simps)

text \<open>
  The padded form round-trips too: \<open>aom_uleb_encode_fixed_size\<close> with any width
  up to eight bytes that holds the value is read back by \<open>aom_uleb_decode\<close> with the
  full padded length, so a size field reserved before its value is known can be filled
  in later.
\<close>

theorem uleb_fixed_roundtrip:
  assumes "v \<le> 4294967295" and "v < 2 ^ (7 * n)" and "0 < n" and "n \<le> 8"
    and "n \<le> available" and "available \<le> length buf"
  shows "\<exists>buf'. aom_uleb_encode_fixed_size v available n (Some buf) True = (0, Some buf', Some n) \<and>
    aom_uleb_decode (Some buf') True True = (0, Some v, Some n) \<and>
    length buf' = length buf \<and> drop n buf' = drop n buf"
proof -
  let ?b = "uleb_fixed_loop n 0 n v buf"
  have b: "?b = continued (digits128 n v) @ drop n buf"
    using uleb_fixed_loop_bytes [of 0 n n buf v] assms by simp
  have "aom_uleb_encode_fixed_size v available n (Some buf) True = (0, Some ?b, Some n)"
    using assms
    by (simp add: aom_uleb_encode_fixed_size_def kMaximumLeb128Value_def kMaximumLeb128Size_def)
  moreover have "aom_uleb_decode (Some ?b) True True = (0, Some v, Some n)"
    unfolding b using assms by (intro uleb_decode_continued) (simp_all add: power_mult)
  ultimately show ?thesis using b assms by simp
qed

theorem uleb_fixed_roundtrip_witness:
  "\<exists>buf'. aom_uleb_encode_fixed_size 5 4 4 (Some [0, 0, 0, 0, 9]) True = (0, Some buf', Some 4) \<and>
    aom_uleb_decode (Some buf') True True = (0, Some 5, Some 4) \<and>
    length buf' = length [0, 0, 0, 0, 9 :: nat] \<and> drop 4 buf' = [9]"
  using uleb_fixed_roundtrip [of 5 4 4 "[0, 0, 0, 0, 9]"] by simp

end
