(* ===== verification/Bit_Codes.thy ===== *)
theory Bit_Codes
  imports Prelude
begin

text \<open>
  The variable-length codes of the AV1 headers as lists of bits, and the two contracts the
  code readers and code writers of libaom share. libaom writes each of these codes twice,
  once over raw bit buffers (\<open>bitreader_buffer.c\<close>, \<open>bitwriter_buffer.c\<close>) and
  once over the range coder (\<open>binary_codes_reader.c\<close>, \<open>binary_codes_writer.c\<close>).
  The locale \<open>code_reader\<close> says what the first bit-level operation of a reader
  promises and how the reader's routines are built from it, the locale
  \<open>code_writer\<close> the same of a writer; each routine is proved against the bit-list
  code once, inside the locale.
\<close>

section \<open>Recentring (\<open>aom_dsp/recenter.h\<close>)\<close>

definition inv_recenter_nonneg :: "int \<Rightarrow> int \<Rightarrow> int" where
  "inv_recenter_nonneg r v =
     u16 (if v > shl r 1 then v else if v AND 1 = 0 then shr v 1 + r else r - shr (v + 1) 1)"

definition inv_recenter_finite_nonneg :: "int \<Rightarrow> int \<Rightarrow> int \<Rightarrow> int" where
  "inv_recenter_finite_nonneg n r v =
     (if shl r 1 \<le> n then inv_recenter_nonneg r v
      else u16 (n - 1 - inv_recenter_nonneg (u16 (n - 1 - r)) v))"

definition recenter_nonneg :: "int \<Rightarrow> int \<Rightarrow> int" where
  "recenter_nonneg r v =
     u16 (if v > shl r 1 then v else if v \<ge> r then shl (v - r) 1 else shl (r - v) 1 - 1)"

definition recenter_finite_nonneg :: "int \<Rightarrow> int \<Rightarrow> int \<Rightarrow> int" where
  "recenter_finite_nonneg n r v =
     (if shl r 1 \<le> n then recenter_nonneg r v
      else recenter_nonneg (u16 (n - 1 - r)) (u16 (n - 1 - v)))"

lemma recenter_nonneg_eq:
  assumes "0 \<le> r" "0 \<le> v" "v < 65536" "r < 32768"
  shows "recenter_nonneg r v = (if v > 2 * r then v else if v \<ge> r then 2 * (v - r) else 2 * (r - v) - 1)"
  using assms by (auto simp: recenter_nonneg_def shl_def u16_def)

lemma inv_recenter_nonneg_recenter:
  assumes "0 \<le> r" "0 \<le> v" "v < 65536" "r < 32768"
  shows "inv_recenter_nonneg r (recenter_nonneg r v) = v"
proof -
  consider "v > 2 * r" | "r \<le> v" "v \<le> 2 * r" | "v < r" by linarith
  then show ?thesis
  proof cases
    case 1
    then show ?thesis using assms
      by (simp add: recenter_nonneg_eq inv_recenter_nonneg_def shl_def c_int)
  next
    case 2
    then have "recenter_nonneg r v = 2 * (v - r)" using assms by (simp add: recenter_nonneg_eq)
    with 2 assms show ?thesis by (simp add: inv_recenter_nonneg_def shl_def shr_def c_int)
  next
    case 3
    then have *: "recenter_nonneg r v = 2 * (r - v) - 1" using assms by (simp add: recenter_nonneg_eq)
    have "(2 * (r - v) - 1) mod 2 = 1" and "(2 * (r - v) - 1 + 1) div 2 = r - v" by presburger+
    with 3 assms show ?thesis by (simp add: * inv_recenter_nonneg_def shl_def shr_def c_int)
  qed
qed

lemma recenter_finite_range:
  assumes "0 \<le> r" "r < n" "0 \<le> v" "v < n" "n < 65536"
  shows "0 \<le> recenter_finite_nonneg n r v" and "recenter_finite_nonneg n r v < n"
  using assms
  by (auto simp: recenter_finite_nonneg_def recenter_nonneg_eq shl_def u16_id)

lemma recenter_finite_inverse:
  assumes "0 \<le> r" "r < n" "0 \<le> v" "v < n" "n < 65536"
  shows "inv_recenter_finite_nonneg n r (recenter_finite_nonneg n r v) = v"
proof (cases "2 * r \<le> n")
  case True
  then show ?thesis using assms
    by (simp add: inv_recenter_finite_nonneg_def recenter_finite_nonneg_def shl_def
        inv_recenter_nonneg_recenter)
next
  case False
  then have "inv_recenter_nonneg (n - 1 - r) (recenter_nonneg (n - 1 - r) (n - 1 - v)) = n - 1 - v"
    using assms by (intro inv_recenter_nonneg_recenter) auto
  then show ?thesis using assms False
    by (simp add: inv_recenter_finite_nonneg_def recenter_finite_nonneg_def shl_def u16_id)
qed

section \<open>The codes as bit lists\<close>

text \<open>The low \<open>n\<close> bits of \<open>v\<close>, most significant first.\<close>

fun lit_bits :: "nat \<Rightarrow> int \<Rightarrow> bool list" where
  "lit_bits 0 v = []"
| "lit_bits (Suc n) v = bit v n # lit_bits n v"

definition uvlc_bits :: "int \<Rightarrow> bool list" where
  "uvlc_bits v = (let z = get_msb (v + 1) in lit_bits z 0 @ lit_bits (Suc z) (v + 1))"

text \<open>The quasi-uniform code of \<open>v\<close> in \<open>[0, n)\<close>: short codes for the first values.\<close>

definition quniform_bits :: "int \<Rightarrow> int \<Rightarrow> bool list" where
  "quniform_bits n v =
     (if n \<le> 1 then []
      else let l = get_msb n + 1; m = 2 ^ l - n in
        if v < m then lit_bits (l - 1) v
        else lit_bits (l - 1) (m + (v - m) div 2) @ [odd (v - m)])"

text \<open>The finite subexponential code: blocks of doubling size, then a quasi-uniform tail.\<close>

function subexpfin_bits :: "int \<Rightarrow> nat \<Rightarrow> nat \<Rightarrow> int \<Rightarrow> int \<Rightarrow> bool list" where
  "subexpfin_bits n k i mk v =
     (let b = (if i \<noteq> 0 then k + i - 1 else k); a = 2 ^ b in
      if n \<le> mk + 3 * a then quniform_bits (n - mk) (v - mk)
      else if v \<ge> mk + a then True # subexpfin_bits n k (Suc i) (mk + a) v
      else False # lit_bits b (v - mk))"
  by pat_completeness auto
termination
proof (relation "measure (\<lambda>(n, k, i, mk, v). nat (n - mk))", goal_cases)
  case (2 n k i mk v b a)
  have "0 < a" unfolding 2(2) by simp
  with 2(3) have "nat (n - (mk + a)) < nat (n - mk)" by linarith
  then show ?case by simp
qed simp

declare subexpfin_bits.simps [simp del]

lemma length_lit_bits [simp]: "length (lit_bits n v) = n"
  by (induction n) auto

lemma lit_bits_zero: "lit_bits n 0 = replicate n False"
  by (induction n) auto

lemma subexpfin_block: "\<not> n \<le> mk + 3 * 2 ^ b \<Longrightarrow> 0 \<le> mk \<Longrightarrow> n < 65536 \<Longrightarrow> b \<le> 14" for n mk :: int
  using power_increasing [of 15 b "2::int"] by (cases "15 \<le> b") auto

section \<open>Contract of a code reader\<close>

text \<open>
  \<open>delivers s bs\<close> says that the next bits the reader in state \<open>s\<close> returns are
  \<open>bs\<close>. The remaining assumptions are the equations of the reader's own routines, for 16-bit
  alphabets and blocks of at most \<open>2 ^ 16\<close> values: outside these a shift or a sum may leave
  C's \<open>int\<close>, and a reader may be undefined there (\<open>None\<close>).
\<close>

locale code_reader =
  fixes delivers :: "'s \<Rightarrow> bool list \<Rightarrow> bool"
    and read_bit :: "'s \<Rightarrow> int \<times> 's"
    and literal_loop :: "nat \<Rightarrow> int \<Rightarrow> 's \<Rightarrow> int \<times> 's"
    and quniform :: "'s \<Rightarrow> int \<Rightarrow> (int \<times> 's) option"
    and subexpfin_loop :: "'s \<Rightarrow> int \<Rightarrow> nat \<Rightarrow> nat \<Rightarrow> int \<Rightarrow> (int \<times> 's) option"
  assumes delivers_bit: "delivers s (b # bs) \<Longrightarrow> \<exists>s'. read_bit s = (b2i b, s') \<and> delivers s' bs"
    and literal_0: "literal_loop 0 value s = (value, s)"
    and literal_Suc: "literal_loop (Suc j) value s =
      (let (b, s') = read_bit s in literal_loop j (value OR shl b j) s')"
    and quniform_eq: "n < 65536 \<Longrightarrow> quniform s n =
      Some (if n \<le> 1 then (0, s)
       else let l = get_msb n + 1; m = 2 ^ l - n; (v, s') = literal_loop (l - 1) 0 s in
         if v < m then (u16 v, s')
         else let (b, s'') = read_bit s' in (u16 (shl v 1 - m + b), s''))"
    and subexpfin_eq: "n < 65536 \<Longrightarrow> 0 \<le> mk \<Longrightarrow> mk < n \<Longrightarrow> (if i \<noteq> 0 then k + i - 1 else k) \<le> 16 \<Longrightarrow>
      subexpfin_loop s n k i mk =
      (let b = (if i \<noteq> 0 then k + i - 1 else k); a = 2 ^ b in
       if n \<le> mk + 3 * a then map_option (\<lambda>(v, s'). (u16 (v + mk), s')) (quniform s (u16 (n - mk)))
       else let (t, s') = read_bit s in
         if t = 0 then (let (v, s'') = literal_loop b 0 s' in Some (u16 (v + mk), s''))
         else subexpfin_loop s' n k (Suc i) (mk + a))"
begin

lemma literal_reads:
  "delivers s (lit_bits n v @ bs) \<Longrightarrow> 0 \<le> A \<Longrightarrow>
   \<exists>s'. literal_loop n (A * 2 ^ n) s = (A * 2 ^ n + v mod 2 ^ n, s') \<and> delivers s' bs"
proof (induction n arbitrary: A s)
  case 0
  then show ?case by (simp add: literal_0)
next
  case (Suc n)
  let ?b = "b2i (bit v n)"
  obtain s1 where s1: "read_bit s = (?b, s1)" "delivers s1 (lit_bits n v @ bs)"
    using delivers_bit [of s "bit v n" "lit_bits n v @ bs"] Suc.prems by auto
  have "(A * 2 ^ Suc n) OR (?b * 2 ^ n) = A * 2 ^ Suc n + ?b * 2 ^ n"
    by (rule or_disjoint_add') (auto simp: b2i_def)
  then have "literal_loop (Suc n) (A * 2 ^ Suc n) s = literal_loop n ((2 * A + ?b) * 2 ^ n) s1"
    by (simp add: literal_Suc s1 shl_def algebra_simps)
  moreover obtain s2 where "literal_loop n ((2 * A + ?b) * 2 ^ n) s1
      = ((2 * A + ?b) * 2 ^ n + v mod 2 ^ n, s2)" "delivers s2 bs"
    using Suc.IH [OF s1(2), of "2 * A + ?b"] Suc.prems by auto
  moreover have "v mod 2 ^ Suc n = ?b * 2 ^ n + v mod 2 ^ n"
    by (simp only: mod_pow_split b2i_bit)
  ultimately show ?case by (auto simp: algebra_simps)
qed

lemma literal_reads0:
  "delivers s (lit_bits n v @ bs) \<Longrightarrow> \<exists>s'. literal_loop n 0 s = (v mod 2 ^ n, s') \<and> delivers s' bs"
  using literal_reads [of s n v bs 0] by simp

lemma quniform_reads:
  assumes "delivers s (quniform_bits n v @ bs)" and "0 \<le> v" and "v < n" and "n < 65536"
  shows "\<exists>s'. quniform s n = Some (v, s') \<and> delivers s' bs"
proof (cases "n \<le> 1")
  case True
  then show ?thesis using assms by (auto simp: quniform_eq [OF assms(4)] quniform_bits_def)
next
  case False
  define l where "l = get_msb n"
  define m where "m = 2 ^ Suc l - n"
  have l: "2 ^ l \<le> n" "n < 2 * 2 ^ l" using get_msb_bounds [of n] False by (simp_all add: l_def)
  show ?thesis
  proof (cases "v < m")
    case True
    then have "delivers s (lit_bits l v @ bs)"
      using assms(1) False by (simp add: quniform_bits_def Let_def l_def m_def)
    from literal_reads0 [OF this] obtain s' where
      s': "literal_loop l 0 s = (v mod 2 ^ l, s')" "delivers s' bs" by blast
    have "v mod 2 ^ l = v" using True l assms by (simp add: m_def)
    with s' True False assms show ?thesis
      by (auto simp: quniform_eq [OF assms(4)] l_def m_def u16_id)
  next
    case v: False
    let ?w = "m + (v - m) div 2"
    let ?o = "odd (v - m)"
    have "delivers s (lit_bits l ?w @ ?o # bs)"
      using assms(1) False v by (simp add: quniform_bits_def Let_def l_def m_def)
    from literal_reads0 [OF this] obtain s1 where
      s1: "literal_loop l 0 s = (?w mod 2 ^ l, s1)" "delivers s1 (?o # bs)" by blast
    from delivers_bit [OF s1(2)] obtain s2 where
      s2: "read_bit s1 = (b2i ?o, s2)" "delivers s2 bs" by blast
    have m0: "0 < m" using l by (simp add: m_def)
    have "2 * ?w \<le> 2 * m + (v - m)" using v m0 by simp
    also have "\<dots> < m + n" using assms by simp
    also have "\<dots> = 2 * 2 ^ l" by (simp add: m_def)
    finally have "?w < 2 ^ l" by simp
    then have w: "?w mod 2 ^ l = ?w" using v m0 by simp
    have val: "shl ?w 1 - m + b2i ?o = v" unfolding b2i_def shl_def power_one_right by presburger
    have "quniform s n = Some (let (v, s') = literal_loop l 0 s in
        if v < m then (u16 v, s') else let (b, s'') = read_bit s' in (u16 (shl v 1 - m + b), s''))"
      using False unfolding quniform_eq [OF assms(4), of s] Let_def l_def m_def Suc_eq_plus1 by simp
    also have "\<dots> = Some (u16 (shl ?w 1 - m + b2i ?o), s2)" using v by (simp only: s1 w s2 Let_def prod.case) simp
    also have "\<dots> = Some (v, s2)" using assms by (simp only: val u16_id)
    finally show ?thesis using s2 by blast
  qed
qed

lemma subexpfin_reads:
  assumes "delivers s (subexpfin_bits n k i mk v @ bs)"
    and "0 \<le> mk" and "mk \<le> v" and "v < n" and "n < 65536" and "(if i \<noteq> 0 then k + i - 1 else k) \<le> 16"
  shows "\<exists>s'. subexpfin_loop s n k i mk = Some (v, s') \<and> delivers s' bs"
  using assms
proof (induction n k i mk v arbitrary: s rule: subexpfin_bits.induct)
  case (1 n k i mk v)
  define b where "b = (if i \<noteq> 0 then k + i - 1 else k)"
  define a :: int where "a = 2 ^ b"
  have a: "0 < a" by (simp add: a_def)
  have bits: "subexpfin_bits n k i mk v =
      (if n \<le> mk + 3 * a then quniform_bits (n - mk) (v - mk)
       else if v \<ge> mk + a then True # subexpfin_bits n k (Suc i) (mk + a) v
       else False # lit_bits b (v - mk))"
    by (subst subexpfin_bits.simps) (simp only: Let_def a_def b_def)
  have eq: "subexpfin_loop s n k i mk =
      (if n \<le> mk + 3 * a then map_option (\<lambda>(v, s'). (u16 (v + mk), s')) (quniform s (u16 (n - mk)))
       else let (t, s') = read_bit s in
         if t = 0 then (let (v, s'') = literal_loop b 0 s' in Some (u16 (v + mk), s''))
         else subexpfin_loop s' n k (Suc i) (mk + a))"
    unfolding a_def b_def
    by (rule trans [OF subexpfin_eq]) (use "1.prems" in \<open>simp_all only: Let_def\<close>)
  consider "n \<le> mk + 3 * a" | "\<not> n \<le> mk + 3 * a" "v \<ge> mk + a" | "\<not> n \<le> mk + 3 * a" "v < mk + a"
    by linarith
  then show ?case
  proof cases
    case c: 1
    then obtain s' where "quniform s (n - mk) = Some (v - mk, s')" "delivers s' bs"
      using quniform_reads [of s "n - mk" "v - mk" bs] "1.prems" bits by auto
    with c "1.prems" show ?thesis by (simp add: eq u16_id)
  next
    case c: 2
    then obtain s1 where s1: "read_bit s = (1, s1)" "delivers s1 (subexpfin_bits n k (Suc i) (mk + a) v @ bs)"
      using delivers_bit [of s True] "1.prems" bits by auto
    have "b \<le> 14" using subexpfin_block [of n mk b] c(1) "1.prems" by (simp add: a_def)
    then have "k + i \<le> 16" by (auto simp: b_def split: if_splits)
    then have "\<exists>s'. subexpfin_loop s1 n k (Suc i) (mk + a) = Some (v, s') \<and> delivers s' bs"
      using "1.IH" [OF b_def a_def] c s1(2) "1.prems" a by simp
    with c s1 show ?thesis by (simp add: eq)
  next
    case c: 3
    then obtain s1 where s1: "read_bit s = (0, s1)" "delivers s1 (lit_bits b (v - mk) @ bs)"
      using delivers_bit [of s False] "1.prems" bits by auto
    obtain s2 where s2: "literal_loop b 0 s1 = ((v - mk) mod 2 ^ b, s2)" "delivers s2 bs"
      using literal_reads0 [OF s1(2)] by auto
    have "(v - mk) mod 2 ^ b = v - mk" using c "1.prems" by (simp add: a_def)
    with c s1 s2 "1.prems" show ?thesis by (simp add: eq u16_id)
  qed
qed

end

section \<open>Contract of a code writer\<close>

text \<open>Writing one bit after the other; a write may fail (\<open>None\<close>).\<close>

fun write_bits :: "('s \<Rightarrow> int \<Rightarrow> 's option) \<Rightarrow> 's \<Rightarrow> bool list \<Rightarrow> 's option" where
  "write_bits w s [] = Some s"
| "write_bits w s (b # bs) = Option.bind (w s (b2i b)) (\<lambda>s'. write_bits w s' bs)"

lemma write_bits_append:
  "write_bits w s (xs @ ys) = Option.bind (write_bits w s xs) (\<lambda>s'. write_bits w s' ys)"
  by (induction xs arbitrary: s) (auto split: Option.bind_splits)

locale code_writer =
  fixes write_bit :: "'s \<Rightarrow> int \<Rightarrow> 's option"
    and literal :: "'s \<Rightarrow> int \<Rightarrow> nat \<Rightarrow> 's option"
    and quniform :: "'s \<Rightarrow> int \<Rightarrow> int \<Rightarrow> 's option"
    and subexpfin_loop :: "'s \<Rightarrow> int \<Rightarrow> nat \<Rightarrow> int \<Rightarrow> nat \<Rightarrow> int \<Rightarrow> 's option"
  assumes literal_0: "literal s data 0 = Some s"
    and literal_Suc: "literal s data (Suc j) =
      Option.bind (write_bit s (shr data j AND 1)) (\<lambda>s'. literal s' data j)"
    and quniform_eq: "n < 65536 \<Longrightarrow> 0 \<le> v \<Longrightarrow> v < 65536 \<Longrightarrow> quniform s n v =
      (if n \<le> 1 then Some s
       else let l = get_msb n + 1; m = 2 ^ l - n in
         if v < m then literal s v (l - 1)
         else Option.bind (literal s (m + shr (v - m) 1) (l - 1)) (\<lambda>s'. write_bit s' ((v - m) AND 1)))"
    and subexpfin_eq: "n < 65536 \<Longrightarrow> 0 \<le> mk \<Longrightarrow> mk \<le> v \<Longrightarrow> v < n \<Longrightarrow> (if i \<noteq> 0 then k + i - 1 else k) \<le> 16 \<Longrightarrow>
      subexpfin_loop s n k v i mk =
      (let b = (if i \<noteq> 0 then k + i - 1 else k); a = 2 ^ b in
       if n \<le> mk + 3 * a then quniform s (u16 (n - mk)) (u16 (v - mk))
       else let t = v \<ge> mk + a in
         Option.bind (write_bit s (b2i t))
           (\<lambda>s'. if t then subexpfin_loop s' n k v (Suc i) (mk + a) else literal s' (v - mk) b))"
begin

lemma literal_writes: "literal s data n = write_bits write_bit s (lit_bits n data)"
  by (induction n arbitrary: s) (simp_all add: literal_0 literal_Suc shr_def and_1_mod_2 b2i_bit)

lemma quniform_writes:
  assumes "n < 65536" "0 \<le> v" "v < 65536"
  shows "quniform s n v = write_bits write_bit s (quniform_bits n v)"
proof -
  have "(v - m) AND 1 = b2i (odd (v - m))" for m
    by (simp add: and_1_mod_2 b2i_def mod_2_eq_odd)
  then show ?thesis
    by (simp add: quniform_eq [OF assms] quniform_bits_def Let_def literal_writes shr_def write_bits_append)
qed

lemma subexpfin_writes:
  "0 \<le> mk \<Longrightarrow> mk \<le> v \<Longrightarrow> v < n \<Longrightarrow> n < 65536 \<Longrightarrow> (if i \<noteq> 0 then k + i - 1 else k) \<le> 16 \<Longrightarrow>
   subexpfin_loop s n k v i mk = write_bits write_bit s (subexpfin_bits n k i mk v)"
proof (induction n k i mk v arbitrary: s rule: subexpfin_bits.induct)
  case (1 n k i mk v)
  define b where "b = (if i \<noteq> 0 then k + i - 1 else k)"
  define a :: int where "a = 2 ^ b"
  have a: "0 < a" by (simp add: a_def)
  have IH: "subexpfin_loop s n k v (Suc i) (mk + a)
      = write_bits write_bit s (subexpfin_bits n k (Suc i) (mk + a) v)"
    if "\<not> n \<le> mk + 3 * a" "v \<ge> mk + a" for s
  proof -
    have "b \<le> 14" using subexpfin_block [of n mk b] that(1) "1.prems" by (simp add: a_def)
    then have "k + i \<le> 16" by (auto simp: b_def split: if_splits)
    then show ?thesis using "1.IH" [OF b_def a_def that] "1.prems" that a by simp
  qed
  have bits: "subexpfin_bits n k i mk v =
      (if n \<le> mk + 3 * a then quniform_bits (n - mk) (v - mk)
       else if v \<ge> mk + a then True # subexpfin_bits n k (Suc i) (mk + a) v
       else False # lit_bits b (v - mk))"
    by (subst subexpfin_bits.simps) (simp only: Let_def a_def b_def)
  have eq: "subexpfin_loop s n k v i mk =
      (if n \<le> mk + 3 * a then quniform s (u16 (n - mk)) (u16 (v - mk))
       else Option.bind (write_bit s (b2i (v \<ge> mk + a)))
           (\<lambda>s'. if v \<ge> mk + a then subexpfin_loop s' n k v (Suc i) (mk + a) else literal s' (v - mk) b))"
    unfolding a_def b_def
    by (rule trans [OF subexpfin_eq]) (use "1.prems" in \<open>simp_all only: Let_def\<close>)
  show ?case
    using "1.prems" IH by (simp add: bits eq quniform_writes literal_writes u16_id)
qed

end

end
