(* ===== verification/Bit_Buffer.thy ===== *)
theory Bit_Buffer
  imports Bit_Codes "HOL-Library.Sublist"
begin

text \<open>
  \<open>aom_dsp/bitreader_buffer.c\<close> and \<open>aom_dsp/bitwriter_buffer.c\<close>: the raw bit
  reader and bit writer of the OBU and frame headers. A read past the end returns 0, leaves
  the position and calls the error handler, if there is one (\<open>rb_errors\<close> counts the
  calls). The writer has no bounds check: a store outside the buffer is undefined
  behaviour in C and \<open>None\<close> here.
\<close>

section \<open>Model of the reader\<close>

record aom_read_bit_buffer =
  rb_bit_buffer :: "int list"
  rb_bit_offset :: int
  rb_error_handler :: bool
  rb_errors :: nat

definition aom_rb_bytes_read :: "aom_read_bit_buffer \<Rightarrow> int" where
  "aom_rb_bytes_read rb = shr (u32 (rb_bit_offset rb + 7)) 3"

definition aom_rb_read_bit :: "aom_read_bit_buffer \<Rightarrow> int \<times> aom_read_bit_buffer" where
  "aom_rb_read_bit rb =
     (let off = rb_bit_offset rb; p = shr off 3; q = 7 - (off AND 7) in
      if p < int (length (rb_bit_buffer rb)) then
        (shr (rb_bit_buffer rb ! nat p) (nat q) AND 1, rb\<lparr>rb_bit_offset := u32 (off + 1)\<rparr>)
      else (0, if rb_error_handler rb then rb\<lparr>rb_errors := Suc (rb_errors rb)\<rparr> else rb))"

text \<open>The loop of both literal readers: \<open>value |= read_bit << bit\<close>, bit counting down.\<close>

fun rb_literal_loop :: "nat \<Rightarrow> int \<Rightarrow> aom_read_bit_buffer \<Rightarrow> int \<times> aom_read_bit_buffer" where
  "rb_literal_loop 0 value rb = (value, rb)"
| "rb_literal_loop (Suc j) value rb =
     (let (b, rb') = aom_rb_read_bit rb in rb_literal_loop j (value OR shl b j) rb')"

definition aom_rb_read_literal :: "aom_read_bit_buffer \<Rightarrow> nat \<Rightarrow> int \<times> aom_read_bit_buffer" where
  "aom_rb_read_literal rb bits = rb_literal_loop bits 0 rb"

definition aom_rb_read_unsigned_literal ::
  "aom_read_bit_buffer \<Rightarrow> nat \<Rightarrow> int \<times> aom_read_bit_buffer" where
  "aom_rb_read_unsigned_literal rb bits = rb_literal_loop bits 0 rb"

definition aom_rb_read_inv_signed_literal ::
  "aom_read_bit_buffer \<Rightarrow> nat \<Rightarrow> int \<times> aom_read_bit_buffer" where
  "aom_rb_read_inv_signed_literal rb bits =
     (let nbits = 32 - bits - 1;
          (v, rb') = aom_rb_read_literal rb (bits + 1);
          value = u32 (shl v nbits)
      in (shr (s32 value) nbits, rb'))"

function rb_uvlc_zeros :: "nat \<Rightarrow> aom_read_bit_buffer \<Rightarrow> nat \<times> aom_read_bit_buffer" where
  "rb_uvlc_zeros leading_zeros rb =
     (if leading_zeros < 32 then
        let (b, rb') = aom_rb_read_bit rb in
        if b = 0 then rb_uvlc_zeros (Suc leading_zeros) rb' else (leading_zeros, rb')
      else (leading_zeros, rb))"
  by pat_completeness auto
termination
  by (relation "measure (\<lambda>(z, rb). 32 - z)") auto

declare rb_uvlc_zeros.simps [simp del]

definition aom_rb_read_uvlc :: "aom_read_bit_buffer \<Rightarrow> int \<times> aom_read_bit_buffer" where
  "aom_rb_read_uvlc rb =
     (let (leading_zeros, rb1) = rb_uvlc_zeros 0 rb in
      if leading_zeros = 32 then (4294967295, rb1)
      else let base = u32 (shl 1 leading_zeros) - 1;
               (value, rb2) = aom_rb_read_literal rb1 leading_zeros
           in (u32 (base + value), rb2))"

definition aom_rb_read_primitive_quniform ::
  "aom_read_bit_buffer \<Rightarrow> int \<Rightarrow> int \<times> aom_read_bit_buffer" where
  "aom_rb_read_primitive_quniform rb n =
     (if n \<le> 1 then (0, rb)
      else let l = get_msb n + 1; m = 2 ^ l - n; (v, rb1) = aom_rb_read_literal rb (l - 1) in
        if v < m then (u16 v, rb1)
        else let (b, rb2) = aom_rb_read_bit rb1 in (u16 (shl v 1 - m + b), rb2))"

text \<open>The body of the \<open>while (1)\<close> loop, from \<open>i\<close> and \<open>mk\<close>.\<close>

function rb_subexpfin_loop ::
  "aom_read_bit_buffer \<Rightarrow> int \<Rightarrow> nat \<Rightarrow> nat \<Rightarrow> int \<Rightarrow> int \<times> aom_read_bit_buffer" where
  "rb_subexpfin_loop rb n k i mk =
     (let b = (if i \<noteq> 0 then k + i - 1 else k); a = 2 ^ b in
      if n \<le> mk + 3 * a
      then (let (v, rb1) = aom_rb_read_primitive_quniform rb (u16 (n - mk)) in (u16 (v + mk), rb1))
      else let (t, rb1) = aom_rb_read_bit rb in
        if t = 0 then (let (v, rb2) = aom_rb_read_literal rb1 b in (u16 (v + mk), rb2))
        else rb_subexpfin_loop rb1 n k (Suc i) (mk + a))"
  by pat_completeness auto
termination
proof (relation "measure (\<lambda>(rb, n, k, i, mk). nat (n - mk))", goal_cases)
  case (2 rb n k i mk b a)
  have "0 < a" unfolding 2(2) by simp
  with 2(3) have "nat (n - (mk + a)) < nat (n - mk)" by linarith
  then show ?case by simp
qed simp

declare rb_subexpfin_loop.simps [simp del]

definition aom_rb_read_primitive_subexpfin ::
  "aom_read_bit_buffer \<Rightarrow> int \<Rightarrow> nat \<Rightarrow> int \<times> aom_read_bit_buffer" where
  "aom_rb_read_primitive_subexpfin rb n k = rb_subexpfin_loop rb n k 0 0"

definition aom_rb_read_primitive_refsubexpfin ::
  "aom_read_bit_buffer \<Rightarrow> int \<Rightarrow> nat \<Rightarrow> int \<Rightarrow> int \<times> aom_read_bit_buffer" where
  "aom_rb_read_primitive_refsubexpfin rb n k ref =
     (let (v, rb1) = aom_rb_read_primitive_subexpfin rb n k in (inv_recenter_finite_nonneg n ref v, rb1))"

definition aom_rb_read_signed_primitive_refsubexpfin ::
  "aom_read_bit_buffer \<Rightarrow> int \<Rightarrow> nat \<Rightarrow> int \<Rightarrow> int \<times> aom_read_bit_buffer" where
  "aom_rb_read_signed_primitive_refsubexpfin rb n k ref =
     (let ref = s16 (ref + n - 1); scaled_n = u16 (shl n 1 - 1);
          (v, rb1) = aom_rb_read_primitive_refsubexpfin rb scaled_n k (u16 ref)
      in (s16 (v - n + 1), rb1))"

section \<open>Model of the writer\<close>

record aom_write_bit_buffer =
  wb_bit_buffer :: "int list"
  wb_bit_offset :: int

definition aom_wb_is_byte_aligned :: "aom_write_bit_buffer \<Rightarrow> bool" where
  "aom_wb_is_byte_aligned wb = (wb_bit_offset wb mod 8 = 0)"

definition aom_wb_bytes_written :: "aom_write_bit_buffer \<Rightarrow> int" where
  "aom_wb_bytes_written wb = u32 (wb_bit_offset wb div 8 + b2i (wb_bit_offset wb mod 8 > 0))"

text \<open>A store into the output memory, undefined outside it.\<close>

definition wb_store :: "aom_write_bit_buffer \<Rightarrow> int \<Rightarrow> int \<Rightarrow> aom_write_bit_buffer option" where
  "wb_store wb p x =
     (if 0 \<le> p \<and> p < int (length (wb_bit_buffer wb))
      then Some (wb\<lparr>wb_bit_buffer := (wb_bit_buffer wb)[nat p := u8 x]\<rparr>) else None)"

definition overwrite_bit :: "aom_write_bit_buffer \<Rightarrow> int \<Rightarrow> aom_write_bit_buffer option" where
  "overwrite_bit wb bt =
     (let off = wb_bit_offset wb; p = off div 8; q = nat (8 - 1 - off mod 8) in
      do {
        wb1 \<leftarrow> wb_store wb p ((wb_bit_buffer wb ! nat p) AND NOT (shl 1 q));
        wb2 \<leftarrow> wb_store wb1 p ((wb_bit_buffer wb1 ! nat p) OR shl bt q);
        Some (wb2\<lparr>wb_bit_offset := u32 (off + 1)\<rparr>)
      })"

definition aom_wb_write_bit :: "aom_write_bit_buffer \<Rightarrow> int \<Rightarrow> aom_write_bit_buffer option" where
  "aom_wb_write_bit wb bt =
     (let off = wb_bit_offset wb; p = off div 8; q = nat (8 - 1 - off mod 8) in
      if q = 8 - 1 then
        do { wb1 \<leftarrow> wb_store wb p (shl bt q); Some (wb1\<lparr>wb_bit_offset := u32 (off + 1)\<rparr>) }
      else
        do {
          wb1 \<leftarrow> wb_store wb p ((wb_bit_buffer wb ! nat p) AND NOT (shl 1 q));
          wb2 \<leftarrow> wb_store wb1 p ((wb_bit_buffer wb1 ! nat p) OR shl bt q);
          Some (wb2\<lparr>wb_bit_offset := u32 (off + 1)\<rparr>)
        })"

fun aom_wb_write_literal :: "aom_write_bit_buffer \<Rightarrow> int \<Rightarrow> nat \<Rightarrow> aom_write_bit_buffer option" where
  "aom_wb_write_literal wb data 0 = Some wb"
| "aom_wb_write_literal wb data (Suc j) =
     do { wb1 \<leftarrow> aom_wb_write_bit wb (shr data j AND 1); aom_wb_write_literal wb1 data j }"

fun aom_wb_write_unsigned_literal ::
  "aom_write_bit_buffer \<Rightarrow> int \<Rightarrow> nat \<Rightarrow> aom_write_bit_buffer option" where
  "aom_wb_write_unsigned_literal wb data 0 = Some wb"
| "aom_wb_write_unsigned_literal wb data (Suc j) =
     do { wb1 \<leftarrow> aom_wb_write_bit wb (shr data j AND 1); aom_wb_write_unsigned_literal wb1 data j }"

fun aom_wb_overwrite_literal ::
  "aom_write_bit_buffer \<Rightarrow> int \<Rightarrow> nat \<Rightarrow> aom_write_bit_buffer option" where
  "aom_wb_overwrite_literal wb data 0 = Some wb"
| "aom_wb_overwrite_literal wb data (Suc j) =
     do { wb1 \<leftarrow> overwrite_bit wb (shr data j AND 1); aom_wb_overwrite_literal wb1 data j }"

definition aom_wb_write_inv_signed_literal ::
  "aom_write_bit_buffer \<Rightarrow> int \<Rightarrow> nat \<Rightarrow> aom_write_bit_buffer option" where
  "aom_wb_write_inv_signed_literal wb data bits = aom_wb_write_literal wb data (bits + 1)"

definition aom_wb_write_uvlc :: "aom_write_bit_buffer \<Rightarrow> int \<Rightarrow> aom_write_bit_buffer option" where
  "aom_wb_write_uvlc wb v =
     (let v = u32 (v + 1); leading_zeroes = get_msb v in
      do {
        wb1 \<leftarrow> aom_wb_write_literal wb 0 leading_zeroes;
        aom_wb_write_unsigned_literal wb1 v (leading_zeroes + 1)
      })"

definition wb_write_primitive_quniform ::
  "aom_write_bit_buffer \<Rightarrow> int \<Rightarrow> int \<Rightarrow> aom_write_bit_buffer option" where
  "wb_write_primitive_quniform wb n v =
     (if n \<le> 1 then Some wb
      else let l = get_msb n + 1; m = 2 ^ l - n in
        if v < m then aom_wb_write_literal wb v (l - 1)
        else do {
          wb1 \<leftarrow> aom_wb_write_literal wb (m + shr (v - m) 1) (l - 1);
          aom_wb_write_bit wb1 ((v - m) AND 1)
        })"

function wb_subexpfin_loop ::
  "aom_write_bit_buffer \<Rightarrow> int \<Rightarrow> nat \<Rightarrow> int \<Rightarrow> nat \<Rightarrow> int \<Rightarrow> aom_write_bit_buffer option" where
  "wb_subexpfin_loop wb n k v i mk =
     (let b = (if i \<noteq> 0 then k + i - 1 else k); a = 2 ^ b in
      if n \<le> mk + 3 * a then wb_write_primitive_quniform wb (u16 (n - mk)) (u16 (v - mk))
      else let t = v \<ge> mk + a in
        do {
          wb1 \<leftarrow> aom_wb_write_bit wb (b2i t);
          if t then wb_subexpfin_loop wb1 n k v (Suc i) (mk + a) else aom_wb_write_literal wb1 (v - mk) b
        })"
  by pat_completeness auto
termination
proof (relation "measure (\<lambda>(wb, n, k, v, i, mk). nat (n - mk))", goal_cases)
  case (2 wb n k v i mk b a)
  have "0 < a" unfolding 2(2) by simp
  with 2(3) have "nat (n - (mk + a)) < nat (n - mk)" by linarith
  then show ?case by simp
qed simp

declare wb_subexpfin_loop.simps [simp del]

definition wb_write_primitive_subexpfin ::
  "aom_write_bit_buffer \<Rightarrow> int \<Rightarrow> nat \<Rightarrow> int \<Rightarrow> aom_write_bit_buffer option" where
  "wb_write_primitive_subexpfin wb n k v = wb_subexpfin_loop wb n k v 0 0"

definition wb_write_primitive_refsubexpfin ::
  "aom_write_bit_buffer \<Rightarrow> int \<Rightarrow> nat \<Rightarrow> int \<Rightarrow> int \<Rightarrow> aom_write_bit_buffer option" where
  "wb_write_primitive_refsubexpfin wb n k ref v =
     wb_write_primitive_subexpfin wb n k (recenter_finite_nonneg n ref v)"

definition aom_wb_write_signed_primitive_refsubexpfin ::
  "aom_write_bit_buffer \<Rightarrow> int \<Rightarrow> nat \<Rightarrow> int \<Rightarrow> int \<Rightarrow> aom_write_bit_buffer option" where
  "aom_wb_write_signed_primitive_refsubexpfin wb n k ref v =
     (let ref = s16 (ref + n - 1); v = s16 (v + n - 1); scaled_n = u16 (shl n 1 - 1) in
      wb_write_primitive_refsubexpfin wb scaled_n k (u16 ref) (u16 v))"

section \<open>The bits of a buffer\<close>

definition buffer_bits :: "int list \<Rightarrow> bool list" where
  "buffer_bits buf = map (\<lambda>t. bit (buf ! (t div 8)) (7 - t mod 8)) [0..<8 * length buf]"

lemma length_buffer_bits [simp]: "length (buffer_bits buf) = 8 * length buf"
  by (simp add: buffer_bits_def)

lemma nth_buffer_bits:
  "t < 8 * length buf \<Longrightarrow> buffer_bits buf ! t = bit (buf ! (t div 8)) (7 - t mod 8)"
  by (simp add: buffer_bits_def)

lemma and_7_mod_8: "x AND 7 = x mod (8::int)"
  using and_mask_mod [of x 3] by simp

lemma shr_and_1: "shr x n AND 1 = b2i (bit x n)"
  by (simp add: shr_def and_1_mod_2 b2i_bit)

section \<open>The reader keeps its contract\<close>

text \<open>
  The reader delivers exactly the bits from its position up to bit \<open>T\<close> of the buffer; its
  buffer, handler and error count are the parameters, so none of them changes on the way.
\<close>

definition rb_delivers ::
  "int list \<Rightarrow> bool \<Rightarrow> nat \<Rightarrow> nat \<Rightarrow> aom_read_bit_buffer \<Rightarrow> bool list \<Rightarrow> bool" where
  "rb_delivers buf h e T rb bs \<longleftrightarrow>
     (\<exists>off. rb = \<lparr>rb_bit_buffer = buf, rb_bit_offset = int off, rb_error_handler = h, rb_errors = e\<rparr> \<and>
       off \<le> T \<and> T \<le> 8 * length buf \<and> 8 * length buf < 2 ^ 32 \<and>
       bs = drop off (take T (buffer_bits buf)))"

lemma aom_rb_read_bit_in_range:
  assumes "off < 8 * length buf" and "8 * length buf < 2 ^ 32"
  shows "aom_rb_read_bit \<lparr>rb_bit_buffer = buf, rb_bit_offset = int off, rb_error_handler = h, rb_errors = e\<rparr>
    = (b2i (buffer_bits buf ! off),
       \<lparr>rb_bit_buffer = buf, rb_bit_offset = int (Suc off), rb_error_handler = h, rb_errors = e\<rparr>)"
proof -
  have "nat (7 - int off mod 8) = 7 - off mod 8" by (simp add: nat_diff_distrib nat_mod_distrib)
  moreover have "shr (int off) 3 = int (off div 8)" by (simp add: shr_def zdiv_int)
  moreover have "off div 8 < length buf" using assms by simp
  ultimately show ?thesis
    using assms
    by (simp add: aom_rb_read_bit_def and_7_mod_8 shr_and_1 nth_buffer_bits u32_id)
qed

lemma rb_delivers_bit:
  assumes "rb_delivers buf h e T rb (b # bs)"
  shows "\<exists>rb'. aom_rb_read_bit rb = (b2i b, rb') \<and> rb_delivers buf h e T rb' bs"
proof -
  from assms obtain off where
    rb: "rb = \<lparr>rb_bit_buffer = buf, rb_bit_offset = int off, rb_error_handler = h, rb_errors = e\<rparr>"
    and off: "off \<le> T" "T \<le> 8 * length buf" "8 * length buf < 2 ^ 32"
    and bs: "b # bs = drop off (take T (buffer_bits buf))"
    by (auto simp: rb_delivers_def)
  have lt: "off < T" using bs off by (metis drop_all length_take list.distinct(1) min.absorb2
      length_buffer_bits not_le)
  then have "drop off (take T (buffer_bits buf))
      = buffer_bits buf ! off # drop (Suc off) (take T (buffer_bits buf))"
    using off Cons_nth_drop_Suc [of off "take T (buffer_bits buf)"] by simp
  with bs have b: "b = buffer_bits buf ! off" and bs': "bs = drop (Suc off) (take T (buffer_bits buf))"
    by simp_all
  have "rb_delivers buf h e T
      \<lparr>rb_bit_buffer = buf, rb_bit_offset = int (Suc off), rb_error_handler = h, rb_errors = e\<rparr> bs"
    unfolding rb_delivers_def using off lt bs' by (intro exI [of _ "Suc off"]) simp
  with lt off show ?thesis by (simp add: rb b aom_rb_read_bit_in_range)
qed

interpretation rb: code_reader "rb_delivers buf h e T" aom_rb_read_bit rb_literal_loop
  "\<lambda>rb n. Some (aom_rb_read_primitive_quniform rb n)" "\<lambda>rb n k i mk. Some (rb_subexpfin_loop rb n k i mk)"
  for buf h e T
proof (unfold_locales, goal_cases)
  case (1 s b bs)
  then show ?case by (rule rb_delivers_bit)
next
  case (4 n s)
  then show ?case by (simp only: aom_rb_read_primitive_quniform_def aom_rb_read_literal_def)
next
  case (5 n mk i k s)
  then show ?case
    by (subst rb_subexpfin_loop.simps) (simp add: aom_rb_read_literal_def Let_def split: prod.splits)
qed simp_all

lemma rb_uvlc_zeros_reads:
  "rb_delivers buf h e T rb (replicate m False @ True # bs) \<Longrightarrow> z + m < 32 \<Longrightarrow>
   \<exists>rb'. rb_uvlc_zeros z rb = (z + m, rb') \<and> rb_delivers buf h e T rb' bs"
proof (induction m arbitrary: z rb)
  case 0
  then obtain rb' where "aom_rb_read_bit rb = (1, rb')" "rb_delivers buf h e T rb' bs"
    using rb_delivers_bit [of buf h e T rb True bs] by auto
  with 0 show ?case by (subst rb_uvlc_zeros.simps) auto
next
  case (Suc m)
  then obtain rb' where rb': "aom_rb_read_bit rb = (0, rb')"
    "rb_delivers buf h e T rb' (replicate m False @ True # bs)"
    using rb_delivers_bit [of buf h e T rb False "replicate m False @ True # bs"] by auto
  from Suc.IH [OF this(2), of "Suc z"] Suc.prems(2) obtain rb'' where
    "rb_uvlc_zeros (Suc z) rb' = (z + Suc m, rb'')" "rb_delivers buf h e T rb'' bs" by auto
  with rb' Suc.prems show ?case by (subst rb_uvlc_zeros.simps) auto
qed

section \<open>The writer keeps its contract\<close>

definition wb_ok :: "aom_write_bit_buffer \<Rightarrow> bool" where
  "wb_ok wb \<longleftrightarrow> 0 \<le> wb_bit_offset wb \<and> wb_bit_offset wb \<le> 8 * int (length (wb_bit_buffer wb)) \<and>
     8 * int (length (wb_bit_buffer wb)) < 2 ^ 31"

definition wb_bits :: "aom_write_bit_buffer \<Rightarrow> bool list" where
  "wb_bits wb = take (nat (wb_bit_offset wb)) (buffer_bits (wb_bit_buffer wb))"

interpretation wb: code_writer aom_wb_write_bit aom_wb_write_literal wb_write_primitive_quniform
  wb_subexpfin_loop
proof (unfold_locales, goal_cases)
  case (3 n v s)
  then show ?case by (simp only: wb_write_primitive_quniform_def)
next
  case (4 n mk v i k s)
  show ?case by (rule wb_subexpfin_loop.simps)
qed (simp_all only: aom_wb_write_literal.simps)

lemma aom_wb_write_unsigned_literal_eq:
  "aom_wb_write_unsigned_literal wb data n = aom_wb_write_literal wb data n"
  by (induction n arbitrary: wb) auto

lemma bit_u8: "bit (u8 x) k \<longleftrightarrow> k < 8 \<and> bit x k"
  using bit_take_bit_iff [of 8 x k] by (simp add: u8_def take_bit_eq_mod)

lemma bit_shl_b2i: "bit (shl (b2i b) q) k \<longleftrightarrow> k = q \<and> b"
proof -
  have "bit (b2i b) (k - q) \<longleftrightarrow> k \<le> q \<and> b" by (simp add: b2i_def bit_1_iff)
  then show ?thesis unfolding shl_eq_push_bit bit_push_bit_iff_int by linarith
qed

text \<open>Both store sequences leave the bits before the position and set the bit at it.\<close>

lemma bits_after_store:
  assumes "off < 8 * length buf"
    and "\<And>j. j < off mod 8 \<Longrightarrow> bit x (7 - j) = bit (buf ! (off div 8)) (7 - j)"
    and "bit x (7 - off mod 8) = b"
  shows "take (Suc off) (buffer_bits (buf[off div 8 := x])) = take off (buffer_bits buf) @ [b]"
proof (rule nth_equalityI)
  fix t
  assume "t < length (take (Suc off) (buffer_bits (buf[off div 8 := x])))"
  with assms(1) have t: "t \<le> off" "t < 8 * length buf" by simp_all
  have "t mod 8 < off mod 8" if "t < off" "t div 8 = off div 8"
    using that by (metis div_mult_mod_eq nat_add_left_cancel_less)
  moreover have "off div 8 < length buf" using assms(1) by simp
  ultimately show "take (Suc off) (buffer_bits (buf[off div 8 := x])) ! t
      = (take off (buffer_bits buf) @ [b]) ! t"
    using t assms by (cases "t = off") (auto simp: nth_append nth_buffer_bits nth_list_update)
qed (use assms(1) in simp)

lemma aom_wb_write_bit_appends:
  assumes ok: "wb_ok wb" and room: "wb_bit_offset wb < 8 * int (length (wb_bit_buffer wb))"
  shows "\<exists>wb'. aom_wb_write_bit wb (b2i b) = Some wb' \<and> wb_ok wb' \<and>
    wb_bit_offset wb' = wb_bit_offset wb + 1 \<and>
    length (wb_bit_buffer wb') = length (wb_bit_buffer wb) \<and> wb_bits wb' = wb_bits wb @ [b]"
proof -
  define buf where "buf = wb_bit_buffer wb"
  obtain off where off: "wb_bit_offset wb = int off"
    using ok zero_le_imp_eq_int by (auto simp: wb_ok_def)
  have lt: "off < 8 * length buf" and p: "off div 8 < length buf" and small: "int off + 1 < 2 ^ 32"
    using room ok by (auto simp: off buf_def wb_ok_def)
  define q where "q = 7 - off mod 8"
  have q: "nat (8 - 1 - int off mod 8) = q" "nat (7 - int off mod 8) = q"
    by (simp_all add: q_def nat_diff_distrib nat_mod_distrib)
  have pd: "int off div 8 = int (off div 8)" by (simp add: zdiv_int)
  define x where "x = (if q = 7 then u8 (shl (b2i b) q)
    else u8 (u8 ((buf ! (off div 8)) AND NOT (shl 1 q)) OR shl (b2i b) q))"
  have "aom_wb_write_bit wb (b2i b) =
      Some (wb\<lparr>wb_bit_buffer := buf[off div 8 := x], wb_bit_offset := u32 (int off + 1)\<rparr>)"
    using p by (simp add: aom_wb_write_bit_def wb_store_def Let_def off q pd x_def flip: buf_def)
  moreover have "take (Suc off) (buffer_bits (buf[off div 8 := x])) = take off (buffer_bits buf) @ [b]"
  proof (rule bits_after_store [OF lt])
    fix j
    assume j: "j < off mod 8"
    then have "7 - j \<noteq> q" and "q \<noteq> 7" and "7 - j < 8" by (auto simp: q_def)
    moreover have "bit (shl 1 q) (7 - j) \<longleftrightarrow> 7 - j = q" using bit_shl_b2i [of True q "7 - j"] by simp
    ultimately show "bit x (7 - j) = bit (buf ! (off div 8)) (7 - j)"
      by (simp add: x_def bit_u8 bit_shl_b2i bit_or_iff bit_and_iff bit_not_iff)
  next
    have "bit (shl 1 q) q" using bit_shl_b2i [of True q q] by simp
    moreover have "q < 8" by (simp add: q_def)
    ultimately show "bit x (7 - off mod 8) = b"
      by (simp add: x_def bit_u8 bit_shl_b2i bit_or_iff bit_and_iff bit_not_iff flip: q_def)
  qed
  moreover have "u32 (int off + 1) = int (Suc off)" using small by (simp add: u32_id)
  ultimately show ?thesis
    using ok lt unfolding wb_ok_def wb_bits_def off buf_def [symmetric]
    by (simp add: nat_add_distrib)
qed

lemma write_bits_appends:
  "wb_ok wb \<Longrightarrow> wb_bit_offset wb + int (length bs) \<le> 8 * int (length (wb_bit_buffer wb)) \<Longrightarrow>
   \<exists>wb'. write_bits aom_wb_write_bit wb bs = Some wb' \<and> wb_ok wb' \<and>
    wb_bit_offset wb' = wb_bit_offset wb + int (length bs) \<and>
    length (wb_bit_buffer wb') = length (wb_bit_buffer wb) \<and> wb_bits wb' = wb_bits wb @ bs"
proof (induction bs arbitrary: wb)
  case (Cons b bs)
  then obtain wb1 where wb1: "aom_wb_write_bit wb (b2i b) = Some wb1" "wb_ok wb1"
    "wb_bit_offset wb1 = wb_bit_offset wb + 1"
    "length (wb_bit_buffer wb1) = length (wb_bit_buffer wb)" "wb_bits wb1 = wb_bits wb @ [b]"
    using aom_wb_write_bit_appends [of wb b] by auto
  with Cons.IH [of wb1] Cons.prems show ?case by auto
qed simp

section \<open>Header fields\<close>

text \<open>
  The kinds of header field the bit buffers carry, what writing and reading one calls, and
  the values each can hold. \<open>field_bits\<close> is the code of a value as a bit list.
\<close>

datatype field =
    Literal nat
  | Unsigned_Literal nat
  | Inv_Signed_Literal nat
  | Uvlc
  | Signed_Refsubexpfin int nat int

fun write_field :: "aom_write_bit_buffer \<Rightarrow> field \<Rightarrow> int \<Rightarrow> aom_write_bit_buffer option" where
  "write_field wb (Literal n) v = aom_wb_write_literal wb v n"
| "write_field wb (Unsigned_Literal n) v = aom_wb_write_unsigned_literal wb v n"
| "write_field wb (Inv_Signed_Literal n) v = aom_wb_write_inv_signed_literal wb v n"
| "write_field wb Uvlc v = aom_wb_write_uvlc wb v"
| "write_field wb (Signed_Refsubexpfin n k ref) v = aom_wb_write_signed_primitive_refsubexpfin wb n k ref v"

fun read_field :: "aom_read_bit_buffer \<Rightarrow> field \<Rightarrow> int \<times> aom_read_bit_buffer" where
  "read_field rb (Literal n) = aom_rb_read_literal rb n"
| "read_field rb (Unsigned_Literal n) = aom_rb_read_unsigned_literal rb n"
| "read_field rb (Inv_Signed_Literal n) = aom_rb_read_inv_signed_literal rb n"
| "read_field rb Uvlc = aom_rb_read_uvlc rb"
| "read_field rb (Signed_Refsubexpfin n k ref) = aom_rb_read_signed_primitive_refsubexpfin rb n k ref"

fun field_ok :: "field \<Rightarrow> int \<Rightarrow> bool" where
  "field_ok (Literal n) v \<longleftrightarrow> n \<le> 31 \<and> 0 \<le> v \<and> v < 2 ^ n"
| "field_ok (Unsigned_Literal n) v \<longleftrightarrow> n \<le> 32 \<and> 0 \<le> v \<and> v < 2 ^ n"
| "field_ok (Inv_Signed_Literal n) v \<longleftrightarrow> n \<le> 30 \<and> - (2 ^ n) \<le> v \<and> v < 2 ^ n"
| "field_ok Uvlc v \<longleftrightarrow> 0 \<le> v \<and> v < 4294967295"
| "field_ok (Signed_Refsubexpfin n k ref) v \<longleftrightarrow>
     1 \<le> n \<and> n \<le> 16384 \<and> k \<le> 16 \<and> - n < ref \<and> ref < n \<and> - n < v \<and> v < n"

fun field_bits :: "field \<Rightarrow> int \<Rightarrow> bool list" where
  "field_bits (Literal n) v = lit_bits n v"
| "field_bits (Unsigned_Literal n) v = lit_bits n v"
| "field_bits (Inv_Signed_Literal n) v = lit_bits (Suc n) v"
| "field_bits Uvlc v = uvlc_bits v"
| "field_bits (Signed_Refsubexpfin n k ref) v =
     subexpfin_bits (2 * n - 1) k 0 0 (recenter_finite_nonneg (2 * n - 1) (ref + n - 1) (v + n - 1))"

lemma write_field_bits:
  assumes "field_ok f v"
  shows "write_field wb f v = write_bits aom_wb_write_bit wb (field_bits f v)"
proof (cases f)
  case Uvlc
  with assms show ?thesis
    by (simp add: aom_wb_write_uvlc_def aom_wb_write_unsigned_literal_eq uvlc_bits_def Let_def u32_id
        wb.literal_writes write_bits_append del: lit_bits.simps)
next
  case (Signed_Refsubexpfin n k ref)
  with assms recenter_finite_range [of "ref + n - 1" "2 * n - 1" "v + n - 1"] show ?thesis
    by (simp add: aom_wb_write_signed_primitive_refsubexpfin_def wb_write_primitive_refsubexpfin_def
        wb_write_primitive_subexpfin_def wb.subexpfin_writes s16_id u16_id shl_def Let_def mult.commute)
qed (simp_all add: aom_wb_write_unsigned_literal_eq aom_wb_write_inv_signed_literal_def
    wb.literal_writes del: aom_wb_write_literal.simps lit_bits.simps)

lemma sign_extend:
  assumes "n \<le> 30" "- (2 ^ n) \<le> v" "v < 2 ^ n"
  shows "shr (s32 (u32 (shl (v mod 2 ^ Suc n) (31 - n)))) (31 - n) = v"
proof -
  define N where "N = 31 - n"
  have N: "(2::int) ^ n * 2 ^ N = 2147483648"
    using assms(1) by (simp add: N_def flip: power_add)
  have lo: "- 2147483648 \<le> v * 2 ^ N" and hi: "v * 2 ^ N < 2147483648"
    using mult_right_mono [OF assms(2), of "2 ^ N"] mult_strict_right_mono [OF assms(3), of "2 ^ N"] N
    by simp_all
  have "s32 (u32 (shl (v mod 2 ^ Suc n) N)) = v * 2 ^ N"
  proof (cases "0 \<le> v")
    case True
    then have "v mod 2 ^ Suc n = v" using assms(3) by simp
    with True lo hi show ?thesis by (simp add: shl_def u32_id s32_id)
  next
    case False
    have "0 \<le> v + 2 ^ n" and "0 < (2::int) ^ n" using assms(2) by simp_all
    then have "(v + 2 ^ Suc n) mod 2 ^ Suc n = v + 2 ^ Suc n"
      using False by (intro mod_pos_pos_trivial) simp_all
    then have "v mod 2 ^ Suc n = v + 2 ^ Suc n" by (simp only: mod_add_self2)
    then have "shl (v mod 2 ^ Suc n) N = v * 2 ^ N + 4294967296"
      using N by (simp add: shl_def algebra_simps)
    with lo hi show ?thesis by (simp add: s32_wrap s32_id)
  qed
  then show ?thesis by (simp add: shr_def N_def)
qed

lemma read_field_bits:
  assumes ok: "field_ok f v" and d: "rb_delivers buf h e T rb (field_bits f v @ bs)"
  shows "\<exists>rb'. read_field rb f = (v, rb') \<and> rb_delivers buf h e T rb' bs"
proof (cases f)
  case (Literal n)
  then show ?thesis
    using rb.literal_reads0 [of buf h e T rb n v bs] assms by (simp add: aom_rb_read_literal_def)
next
  case (Unsigned_Literal n)
  then show ?thesis
    using rb.literal_reads0 [of buf h e T rb n v bs] assms
    by (simp add: aom_rb_read_unsigned_literal_def)
next
  case (Inv_Signed_Literal n)
  then obtain rb' where "rb_literal_loop (Suc n) 0 rb = (v mod 2 ^ Suc n, rb')"
    "rb_delivers buf h e T rb' bs"
    using rb.literal_reads0 [of buf h e T rb "Suc n" v bs] d by (auto simp del: lit_bits.simps)
  with Inv_Signed_Literal ok sign_extend [of n v] show ?thesis
    by (simp add: aom_rb_read_inv_signed_literal_def aom_rb_read_literal_def Let_def
        del: rb_literal_loop.simps power_Suc)
next
  case Uvlc
  define z where "z = get_msb (v + 1)"
  have v: "0 < v + 1" using ok Uvlc by simp
  have z: "2 ^ z \<le> v + 1" "v + 1 < 2 * 2 ^ z"
    using get_msb_bounds [OF v] by (simp_all add: z_def)
  have "(2::int) ^ z < 2 ^ 32" using z ok Uvlc by simp
  then have z32: "z < 32" by (simp only: power_strict_increasing_iff one_less_numeral_iff semiring_norm)
  have div: "(v + 1) div 2 ^ z = 1" using z by (intro int_div_pos_eq [of _ _ _ "v + 1 - 2 ^ z"]) auto
  have "uvlc_bits v = replicate z False @ True # lit_bits z (v + 1)"
    by (simp add: uvlc_bits_def Let_def lit_bits_zero bit_int_div div flip: z_def)
  with d Uvlc obtain rb1 where rb1: "rb_uvlc_zeros 0 rb = (z, rb1)"
    "rb_delivers buf h e T rb1 (lit_bits z (v + 1) @ bs)"
    using rb_uvlc_zeros_reads [of buf h e T rb z "lit_bits z (v + 1) @ bs" 0] z32 by auto
  from rb.literal_reads0 [OF this(2)] obtain rb2 where rb2:
    "rb_literal_loop z 0 rb1 = ((v + 1) mod 2 ^ z, rb2)" "rb_delivers buf h e T rb2 bs" by blast
  have "(v + 1) mod 2 ^ z = v + 1 - 2 ^ z"
    using div minus_div_mult_eq_mod [of "v + 1" "2 ^ z"] by simp
  with rb1 rb2 z z32 ok Uvlc \<open>2 ^ z < 2 ^ 32\<close> show ?thesis
    by (simp add: aom_rb_read_uvlc_def aom_rb_read_literal_def shl_def u32_id)
next
  case (Signed_Refsubexpfin n k ref)
  define w where "w = recenter_finite_nonneg (2 * n - 1) (ref + n - 1) (v + n - 1)"
  have inv: "inv_recenter_finite_nonneg (2 * n - 1) (ref + n - 1) w = v + n - 1"
    unfolding w_def using ok Signed_Refsubexpfin by (intro recenter_finite_inverse) auto
  have w: "0 \<le> w" "w < 2 * n - 1"
    unfolding w_def using ok Signed_Refsubexpfin by (intro recenter_finite_range; auto)+
  with rb.subexpfin_reads [of buf h e T rb "2 * n - 1" k 0 0 w bs] d ok Signed_Refsubexpfin
  obtain rb' where "rb_subexpfin_loop rb (2 * n - 1) k 0 0 = (w, rb')" "rb_delivers buf h e T rb' bs"
    by (auto simp: w_def)
  with Signed_Refsubexpfin ok inv show ?thesis
    by (simp add: aom_rb_read_signed_primitive_refsubexpfin_def aom_rb_read_primitive_refsubexpfin_def
        aom_rb_read_primitive_subexpfin_def Let_def shl_def s16_id u16_id mult.commute)
qed

fun write_fields :: "aom_write_bit_buffer \<Rightarrow> (field \<times> int) list \<Rightarrow> aom_write_bit_buffer option" where
  "write_fields wb [] = Some wb"
| "write_fields wb ((f, v) # fs) = do { wb1 \<leftarrow> write_field wb f v; write_fields wb1 fs }"

fun read_fields :: "aom_read_bit_buffer \<Rightarrow> field list \<Rightarrow> int list \<times> aom_read_bit_buffer" where
  "read_fields rb [] = ([], rb)"
| "read_fields rb (f # fs) =
     (let (v, rb1) = read_field rb f; (vs, rb2) = read_fields rb1 fs in (v # vs, rb2))"

definition fields_bits :: "(field \<times> int) list \<Rightarrow> bool list" where
  "fields_bits fs = concat (map (\<lambda>(f, v). field_bits f v) fs)"

lemma write_fields_bits:
  "list_all (\<lambda>(f, v). field_ok f v) fs \<Longrightarrow>
   write_fields wb fs = write_bits aom_wb_write_bit wb (fields_bits fs)"
proof (induction fs arbitrary: wb)
  case (Cons a fs)
  then show ?case
    by (cases a) (simp add: fields_bits_def write_bits_append write_field_bits)
qed (simp add: fields_bits_def)

lemma read_fields_bits:
  "list_all (\<lambda>(f, v). field_ok f v) fs \<Longrightarrow> rb_delivers buf h e T rb (fields_bits fs) \<Longrightarrow>
   \<exists>rb'. read_fields rb (map fst fs) = (map snd fs, rb') \<and> rb_delivers buf h e T rb' []"
proof (induction fs arbitrary: rb)
  case (Cons a fs)
  obtain f v where a: "a = (f, v)" by force
  from Cons.prems obtain rb1 where rb1: "read_field rb f = (v, rb1)"
    "rb_delivers buf h e T rb1 (fields_bits fs)"
    using read_field_bits [of f v buf h e T rb "fields_bits fs"] by (auto simp: fields_bits_def a)
  with Cons.IH [OF _ this(2)] Cons.prems show ?case by (auto simp: a)
qed (auto simp: fields_bits_def)

section \<open>Properties\<close>

text \<open>
  C20. Header fields round-trip through the bit buffers: writing any sequence of literals,
  signed literals, uvlc and reference-subexponential codes with values in range into a
  buffer with room for their codes succeeds, and a reader placed where the writing began
  reads the same values back, ends where the writer ended, and reports no error.
\<close>

theorem header_fields_roundtrip:
  assumes "list_all (\<lambda>(f, v). field_ok f v) fs" and "wb_ok wb"
    and "wb_bit_offset wb + int (length (fields_bits fs)) \<le> 8 * int (length (wb_bit_buffer wb))"
  shows "\<exists>wb'. write_fields wb fs = Some wb' \<and> wb_ok wb' \<and> wb_bits wb' = wb_bits wb @ fields_bits fs \<and>
    read_fields \<lparr>rb_bit_buffer = wb_bit_buffer wb', rb_bit_offset = wb_bit_offset wb,
        rb_error_handler = h, rb_errors = e\<rparr> (map fst fs)
      = (map snd fs, \<lparr>rb_bit_buffer = wb_bit_buffer wb', rb_bit_offset = wb_bit_offset wb',
        rb_error_handler = h, rb_errors = e\<rparr>)"
proof -
  from write_bits_appends [OF assms(2,3)] obtain wb' where
    wr: "write_fields wb fs = Some wb'" and ok': "wb_ok wb'"
    and off': "wb_bit_offset wb' = wb_bit_offset wb + int (length (fields_bits fs))"
    and len': "length (wb_bit_buffer wb') = length (wb_bit_buffer wb)"
    and bits': "wb_bits wb' = wb_bits wb @ fields_bits fs"
    using write_fields_bits [OF assms(1)] by auto
  obtain o1 o2 where o: "wb_bit_offset wb = int o1" "wb_bit_offset wb' = int o2"
    using assms(2) ok' zero_le_imp_eq_int unfolding wb_ok_def by metis
  let ?rb = "\<lambda>off. \<lparr>rb_bit_buffer = wb_bit_buffer wb', rb_bit_offset = int off,
      rb_error_handler = h, rb_errors = e\<rparr>"
  have "length (wb_bits wb) = o1"
    using assms(2) by (simp add: wb_bits_def wb_ok_def o)
  then have bits: "fields_bits fs = drop o1 (take o2 (buffer_bits (wb_bit_buffer wb')))"
    using bits' by (simp add: wb_bits_def [of wb'] o)
  have "o1 \<le> o2" "o2 \<le> 8 * length (wb_bit_buffer wb')" "8 * length (wb_bit_buffer wb') < 2 ^ 32"
    using ok' off' o by (simp_all add: wb_ok_def)
  with bits have "rb_delivers (wb_bit_buffer wb') h e o2 (?rb o1) (fields_bits fs)"
    unfolding rb_delivers_def by blast
  from read_fields_bits [OF assms(1) this] obtain rb' where
    rd: "read_fields (?rb o1) (map fst fs) = (map snd fs, rb')"
    and "rb_delivers (wb_bit_buffer wb') h e o2 rb' []" by blast
  then have "rb' = ?rb o2" using ok' by (auto simp: rb_delivers_def wb_ok_def o)
  with wr ok' bits' rd o show ?thesis by auto
qed

definition sample_fields :: "(field \<times> int) list" where
  "sample_fields = [(Literal 3, 5), (Uvlc, 6), (Inv_Signed_Literal 6, -17), (Signed_Refsubexpfin 64 3 10, -40)]"

theorem header_fields_roundtrip_witness:
  "\<exists>wb'. write_fields \<lparr>wb_bit_buffer = replicate 8 0, wb_bit_offset = 0\<rparr> sample_fields = Some wb' \<and>
    fst (read_fields \<lparr>rb_bit_buffer = wb_bit_buffer wb', rb_bit_offset = 0,
        rb_error_handler = True, rb_errors = 0\<rparr> (map fst sample_fields)) = [5, 6, -17, -40]"
proof -
  have "list_all (\<lambda>(f, v). field_ok f v) sample_fields" by (simp add: sample_fields_def)
  moreover have "wb_ok \<lparr>wb_bit_buffer = replicate 8 0, wb_bit_offset = 0\<rparr>" by (simp add: wb_ok_def)
  moreover have "length (fields_bits sample_fields) \<le> 64"
    by code_simp
  moreover have "map snd sample_fields = [5, 6, -17, -40]" by (simp add: sample_fields_def)
  ultimately show ?thesis
    using header_fields_roundtrip [of sample_fields "\<lparr>wb_bit_buffer = replicate 8 0, wb_bit_offset = 0\<rparr>" True 0]
    by auto
qed

end
