(* ===== verification/Range_Coder.thy ===== *)
theory Range_Coder
  imports Prelude
begin

text \<open>
  \<open>aom_dsp/entenc.c\<close>, \<open>aom_dsp/entdec.c\<close>, \<open>aom_dsp/entcode.c\<close> and the inline
  helpers of \<open>entenc.h\<close>: the range coder every AV1 tile is written and read with.
  The encoder keeps a 64-bit window \<open>low\<close> and flushes whole bytes with a carry that
  may run back through bytes already written; the decoder keeps a 32-bit window
  \<open>dif\<close>. Allocation goes through \<open>allocator\<close>: whether a request succeeds, and
  the value of the bytes an allocation does not define. A read or store outside the
  output buffer is undefined in C and \<open>None\<close> here.
\<close>

section \<open>Constants and the encoder context\<close>

definition EC_PROB_SHIFT :: nat where "EC_PROB_SHIFT = 6"
definition EC_MIN_PROB :: int where "EC_MIN_PROB = 4"
definition CDF_PROB_TOP :: int where "CDF_PROB_TOP = 32768"
definition OD_EC_WINDOW_SIZE :: int where "OD_EC_WINDOW_SIZE = 32"
definition OD_EC_LOTS_OF_BITS :: int where "OD_EC_LOTS_OF_BITS = 16384"
definition OD_BITRES :: nat where "OD_BITRES = 3"

definition OD_ILOG_NZ :: "int \<Rightarrow> int" where "OD_ILOG_NZ x = 1 + int (get_msb x)"
definition OD_ICDF :: "int \<Rightarrow> int" where "OD_ICDF x = CDF_PROB_TOP - x"

record od_ec_enc =
  enc_buf :: "int list"
  enc_storage :: int
  enc_offs :: int
  enc_low :: int
  enc_rng :: int
  enc_cnt :: int
  enc_error :: int

text \<open>
  \<open>propagate_carry_bwd\<close>: add one to the byte at \<open>offs\<close> and go on to the byte before
  while it wraps; running off the front of the buffer is an access out of bounds.
\<close>

fun propagate_carry_bwd :: "int list \<Rightarrow> nat \<Rightarrow> int list option" where
  "propagate_carry_bwd buf offs =
     (if offs < length buf then
        let sum = u16 (buf ! offs + 1); buf = buf[offs := u8 sum]; carry = shr sum 8 in
        if carry \<noteq> 0 then (case offs of 0 \<Rightarrow> None | Suc n \<Rightarrow> propagate_carry_bwd buf n) else Some buf
      else None)"

declare propagate_carry_bwd.simps [simp del]

text \<open>The eight bytes of a 64-bit register in big-endian order, as \<open>HToBE64\<close> lays them out.\<close>

definition be64_bytes :: "int \<Rightarrow> int list" where
  "be64_bytes x = map (\<lambda>i. shr x (8 * (7 - i)) mod 256) [0..<8]"

text \<open>\<open>write_enc_data_to_out_buf\<close> returns the buffer and the new \<open>enc->offs\<close>.\<close>

definition write_enc_data_to_out_buf ::
  "int list \<Rightarrow> int \<Rightarrow> int \<Rightarrow> int \<Rightarrow> int \<Rightarrow> (int list \<times> int) option" where
  "write_enc_data_to_out_buf out offs output carry num_bytes_ready =
     do {
       let reg = u64 (shl output (nat (shl (8 - num_bytes_ready) 3)));
       out1 \<leftarrow> memcpy_at out (nat offs) (be64_bytes reg);
       out2 \<leftarrow> (if carry \<noteq> 0
                 then (if offs > 0 then propagate_carry_bwd out1 (nat (offs - 1)) else None)
                 else Some out1);
       Some (out2, u32 (offs + num_bytes_ready))
     }"

definition od_ec_enc_normalize ::
  "allocator \<Rightarrow> od_ec_enc \<Rightarrow> int \<Rightarrow> int \<Rightarrow> od_ec_enc option" where
  "od_ec_enc_normalize al enc low rng =
     (if enc_error enc \<noteq> 0 then Some enc
      else
        let c = enc_cnt enc; d = 16 - OD_ILOG_NZ rng; s = c + d in
        if s \<ge> 40 then
          let storage = enc_storage enc; offs = enc_offs enc;
              storage1 = (if u32 (offs + 8) > storage then u32 (2 * storage + 8) else storage);
              out = (if u32 (offs + 8) > storage then realloc_bytes al (enc_buf enc) storage1
                     else Some (enc_buf enc)) in
          case out of
            None \<Rightarrow> Some (enc\<lparr>enc_error := -1\<rparr>)
          | Some out \<Rightarrow>
              let num_bytes_ready = u8 (shr s 3 + 1);
                  c = c + 24 - shl num_bytes_ready 3;
                  output = shr low (nat c);
                  low = low AND (u64 (shl 1 (nat c)) - 1);
                  mask = u64 (shl 1 (nat (shl num_bytes_ready 3)));
                  carry = output AND mask;
                  mask = mask - 1;
                  output = output AND mask in
              do {
                (out, offs) \<leftarrow> write_enc_data_to_out_buf out offs output carry num_bytes_ready;
                let s = c + d - 24;
                Some (enc\<lparr>enc_buf := out, enc_storage := storage1, enc_offs := offs,
                  enc_low := u64 (shl low (nat d)), enc_rng := u16 (shl rng (nat d)), enc_cnt := s16 s\<rparr>)
              }
        else Some (enc\<lparr>enc_low := u64 (shl low (nat d)), enc_rng := u16 (shl rng (nat d)), enc_cnt := s16 s\<rparr>))"

definition od_ec_enc_reset :: "od_ec_enc \<Rightarrow> od_ec_enc" where
  "od_ec_enc_reset enc =
     enc\<lparr>enc_offs := 0, enc_low := 0, enc_rng := 32768, enc_cnt := -9, enc_error := 0\<rparr>"

definition od_ec_enc_init :: "allocator \<Rightarrow> od_ec_enc \<Rightarrow> int \<Rightarrow> od_ec_enc" where
  "od_ec_enc_init al enc sz =
     (let enc = od_ec_enc_reset enc in
      if alloc_ok al sz
      then enc\<lparr>enc_buf := replicate (nat sz) (alloc_junk al), enc_storage := sz\<rparr>
      else if sz > 0 then enc\<lparr>enc_buf := [], enc_storage := 0, enc_error := -1\<rparr>
      else enc\<lparr>enc_buf := [], enc_storage := sz\<rparr>)"

text \<open>\<open>od_ec_enc_clear\<close> frees the buffer and leaves the rest of the context alone.\<close>

definition od_ec_enc_clear :: "od_ec_enc \<Rightarrow> od_ec_enc" where
  "od_ec_enc_clear enc = enc\<lparr>enc_buf := []\<rparr>"

text \<open>The scaled probability \<open>((r >> 8) * (f >> EC_PROB_SHIFT) >> (7 - EC_PROB_SHIFT))\<close>.\<close>

definition od_ec_scale :: "int \<Rightarrow> int \<Rightarrow> int" where
  "od_ec_scale r f = shr (u32 (shr r 8 * shr f EC_PROB_SHIFT)) (7 - EC_PROB_SHIFT)"

definition od_ec_encode_q15 ::
  "allocator \<Rightarrow> od_ec_enc \<Rightarrow> int \<Rightarrow> int \<Rightarrow> int \<Rightarrow> int \<Rightarrow> od_ec_enc option" where
  "od_ec_encode_q15 al enc fl fh s nsyms =
     (let l = enc_low enc; r = enc_rng enc; N = nsyms - 1 in
      if fl < CDF_PROB_TOP then
        let u = u32 (od_ec_scale r fl + EC_MIN_PROB * (N - (s - 1)));
            v = u32 (od_ec_scale r fh + EC_MIN_PROB * (N - (s + 0))) in
        od_ec_enc_normalize al enc (u64 (l + u32 (r - u))) (u32 (u - v))
      else
        od_ec_enc_normalize al enc l (u32 (r - (od_ec_scale r fh + EC_MIN_PROB * (N - (s + 0))))))"

definition od_ec_encode_bool_q15 ::
  "allocator \<Rightarrow> od_ec_enc \<Rightarrow> int \<Rightarrow> int \<Rightarrow> od_ec_enc option" where
  "od_ec_encode_bool_q15 al enc val f =
     (let l = enc_low enc; r = enc_rng enc;
          v = od_ec_scale r f;
          v = u32 (v + EC_MIN_PROB);
          l = (if val \<noteq> 0 then u64 (l + u32 (r - v)) else l);
          r = (if val \<noteq> 0 then v else u32 (r - v))
      in od_ec_enc_normalize al enc l r)"

definition od_ec_encode_cdf_q15 ::
  "allocator \<Rightarrow> od_ec_enc \<Rightarrow> nat \<Rightarrow> int list \<Rightarrow> nat \<Rightarrow> od_ec_enc option" where
  "od_ec_encode_cdf_q15 al enc s icdf nsyms =
     od_ec_encode_q15 al enc (if s > 0 then icdf ! (s - 1) else OD_ICDF 0) (icdf ! s) (int s) (int nsyms)"

text \<open>The output loop of \<open>od_ec_enc_done\<close>, on \<open>out\<close>, \<open>offs\<close>, \<open>e\<close>, \<open>c\<close>, \<open>s\<close> and \<open>n\<close>.\<close>

function enc_done_loop ::
  "int list \<Rightarrow> int \<Rightarrow> int \<Rightarrow> int \<Rightarrow> int \<Rightarrow> int \<Rightarrow> (int list \<times> int) option" where
  "enc_done_loop out offs e c s n =
     do {
       let val = u16 (shr e (nat (c + 16)));
       out1 \<leftarrow> memcpy_at out (nat offs) [u8 (val AND 255)];
       out2 \<leftarrow> (if val AND 256 \<noteq> 0
                 then (if offs > 0 then propagate_carry_bwd out1 (nat (offs - 1)) else None)
                 else Some out1);
       let offs = u32 (offs + 1);
       let e = e AND n;
       let s = s - 8;
       let c = c - 8;
       let n = shr n 8;
       if s > 0 then enc_done_loop out2 offs e c s n else Some (out2, offs)
     }"
  by pat_completeness auto
termination
  by (relation "measure (\<lambda>(out, offs, e, c, s, n). nat s)") auto

declare enc_done_loop.simps [simp del]

text \<open>
  \<open>od_ec_enc_done\<close>: the context afterwards, and the returned buffer with its length
  (\<open>None\<close> for the NULL of an encoding error).
\<close>

definition od_ec_enc_done ::
  "allocator \<Rightarrow> od_ec_enc \<Rightarrow> (od_ec_enc \<times> (int list \<times> int) option) option" where
  "od_ec_enc_done al enc =
     (if enc_error enc \<noteq> 0 then Some (enc, None)
      else
        let l = enc_low enc; c = enc_cnt enc;
            m = 16383;
            e = (u64 (l + m) AND NOT m) OR (m + 1);
            s = 10 + c;
            offs = enc_offs enc;
            s_bits = shr (s + 7) 3;
            b = max s_bits 0;
            storage = enc_storage enc;
            storage1 = (if u32 (offs + b) > storage then u32 (offs + b) else storage);
            out = (if u32 (offs + b) > storage then realloc_bytes al (enc_buf enc) storage1
                   else Some (enc_buf enc)) in
        case out of
          None \<Rightarrow> Some (enc\<lparr>enc_error := -1\<rparr>, None)
        | Some out \<Rightarrow>
            if s > 0 then
              do {
                (out2, offs2) \<leftarrow> enc_done_loop out offs e c s (u64 (shl 1 (nat (c + 16))) - 1);
                Some (enc\<lparr>enc_buf := out2, enc_storage := storage1\<rparr>, Some (out2, offs2))
              }
            else Some (enc\<lparr>enc_buf := out, enc_storage := storage1\<rparr>, Some (out, offs)))"

definition od_ec_enc_tell :: "od_ec_enc \<Rightarrow> int" where
  "od_ec_enc_tell enc = s32 (enc_cnt enc + 10 + u32 (enc_offs enc * 8))"

section \<open>Fractional bit counts\<close>

fun tell_frac_loop :: "nat \<Rightarrow> int \<Rightarrow> int \<Rightarrow> int" where
  "tell_frac_loop 0 rng l = l"
| "tell_frac_loop (Suc i) rng l =
     (let rng = shr (u32 (rng * rng)) 15;
          b = shr rng 16;
          l = shl l 1 OR b;
          rng = shr rng (nat b)
      in tell_frac_loop i rng l)"

definition od_ec_tell_frac :: "int \<Rightarrow> int \<Rightarrow> int" where
  "od_ec_tell_frac nbits_total rng =
     (let nbits = u32 (shl nbits_total OD_BITRES) in u32 (nbits - tell_frac_loop OD_BITRES rng 0))"

definition od_ec_enc_tell_frac :: "od_ec_enc \<Rightarrow> int" where
  "od_ec_enc_tell_frac enc = od_ec_tell_frac (u32 (od_ec_enc_tell enc)) (enc_rng enc)"

section \<open>The decoder\<close>

record od_ec_dec =
  dec_buf :: "int list"
  dec_tell_offs :: int
  dec_bptr :: nat
  dec_dif :: int
  dec_rng :: int
  dec_cnt :: int

text \<open>
  The refill loop. \<open>bptr\<close> counts the bytes read from \<open>buf\<close>; \<open>end\<close> is the length of
  the buffer.
\<close>

function refill_loop :: "int list \<Rightarrow> int \<Rightarrow> int \<Rightarrow> nat \<Rightarrow> int \<Rightarrow> int \<times> nat \<times> int" where
  "refill_loop buf s dif bptr cnt =
     (if s \<ge> 0 \<and> bptr < length buf
      then refill_loop buf (s - 8) (dif XOR u32 (shl (buf ! bptr) (nat s))) (Suc bptr) (s16 (cnt + 8))
      else (dif, bptr, cnt))"
  by pat_completeness auto
termination
  by (relation "measure (\<lambda>(buf, s, dif, bptr, cnt). length buf - bptr)") auto

declare refill_loop.simps [simp del]

definition od_ec_dec_refill :: "od_ec_dec \<Rightarrow> od_ec_dec" where
  "od_ec_dec_refill dec =
     (let s = OD_EC_WINDOW_SIZE - 9 - (dec_cnt dec + 15);
          (dif, bptr, cnt) = refill_loop (dec_buf dec) s (dec_dif dec) (dec_bptr dec) (dec_cnt dec)
      in if bptr \<ge> length (dec_buf dec)
         then dec\<lparr>dec_tell_offs := s32 (dec_tell_offs dec + (OD_EC_LOTS_OF_BITS - cnt)),
                  dec_dif := dif, dec_cnt := OD_EC_LOTS_OF_BITS, dec_bptr := bptr\<rparr>
         else dec\<lparr>dec_dif := dif, dec_cnt := cnt, dec_bptr := bptr\<rparr>)"

definition od_ec_dec_normalize :: "od_ec_dec \<Rightarrow> int \<Rightarrow> int \<Rightarrow> int \<Rightarrow> int \<times> od_ec_dec" where
  "od_ec_dec_normalize dec dif rng ret =
     (let d = 16 - OD_ILOG_NZ rng;
          dec = dec\<lparr>dec_cnt := s16 (dec_cnt dec - d),
                    dec_dif := u32 (u32 (shl (u32 (dif + 1)) (nat d)) - 1),
                    dec_rng := u16 (shl rng (nat d))\<rparr>
      in (ret, if dec_cnt dec < 0 then od_ec_dec_refill dec else dec))"

definition od_ec_dec_init :: "int list \<Rightarrow> od_ec_dec" where
  "od_ec_dec_init buf =
     od_ec_dec_refill
       \<lparr>dec_buf = buf, dec_tell_offs = 10 - (OD_EC_WINDOW_SIZE - 8), dec_bptr = 0,
        dec_dif = u32 (shl 1 (nat (OD_EC_WINDOW_SIZE - 1))) - 1, dec_rng = 32768, dec_cnt = -15\<rparr>"

definition od_ec_decode_bool_q15 :: "od_ec_dec \<Rightarrow> int \<Rightarrow> int \<times> od_ec_dec" where
  "od_ec_decode_bool_q15 dec f =
     (let dif = dec_dif dec; r = dec_rng dec;
          v = od_ec_scale r f;
          v = u32 (v + EC_MIN_PROB);
          vw = u32 (shl v (nat (OD_EC_WINDOW_SIZE - 16)))
      in if dif \<ge> vw then od_ec_dec_normalize dec (u32 (dif - vw)) (u32 (r - v)) 0
         else od_ec_dec_normalize dec dif v 1)"

text \<open>
  The search for the symbol: \<open>u\<close>, \<open>v\<close> and \<open>ret\<close> when the loop leaves. \<open>fuel\<close>
  bounds the number of rounds by the length of the table; reading past the table is \<open>None\<close>.
\<close>

fun decode_cdf_loop ::
  "nat \<Rightarrow> int list \<Rightarrow> int \<Rightarrow> int \<Rightarrow> int \<Rightarrow> int \<Rightarrow> nat \<Rightarrow> (int \<times> int \<times> nat) option" where
  "decode_cdf_loop 0 icdf N r c v ret = None"
| "decode_cdf_loop (Suc fuel) icdf N r c v ret =
     (let u = v; v = u32 (od_ec_scale r (icdf ! ret) + EC_MIN_PROB * (N - int ret)) in
      if c < v then decode_cdf_loop fuel icdf N r c v (Suc ret) else Some (u, v, ret))"

definition od_ec_decode_cdf_q15 ::
  "od_ec_dec \<Rightarrow> int list \<Rightarrow> nat \<Rightarrow> (int \<times> od_ec_dec) option" where
  "od_ec_decode_cdf_q15 dec icdf nsyms =
     (let dif = dec_dif dec; r = dec_rng dec; N = int nsyms - 1;
          c = shr dif (nat (OD_EC_WINDOW_SIZE - 16)) in
      do {
        (u, v, ret) \<leftarrow> decode_cdf_loop (length icdf) icdf N r c r 0;
        let r = u32 (u - v);
        let dif = u32 (dif - u32 (shl v (nat (OD_EC_WINDOW_SIZE - 16))));
        Some (od_ec_dec_normalize dec dif r (int ret))
      })"

definition od_ec_dec_tell :: "od_ec_dec \<Rightarrow> int" where
  "od_ec_dec_tell dec = s32 (int (dec_bptr dec) * 8 - dec_cnt dec + dec_tell_offs dec)"

definition od_ec_dec_tell_frac :: "od_ec_dec \<Rightarrow> int" where
  "od_ec_dec_tell_frac dec = od_ec_tell_frac (u32 (od_ec_dec_tell dec)) (dec_rng dec)"

end
