(* ===== verification/Range_Coder_Encoder.thy ===== *)
theory Range_Coder_Encoder
  imports Range_Coder
begin

text \<open>
  Correctness of the range encoder. The encoder's bytes, window and counter stand for one
  exact interval: \<open>E\<close>, the bytes written so far as a number followed by the window, is
  its low end at a precision of \<open>15 + D\<close> bits, and the range is its width. Every
  encoding step moves that interval as exact arithmetic would (no bit of the window is
  lost, no store leaves the buffer, a carry never runs off the front), and the bytes
  \<open>od_ec_enc_done\<close> leaves name a point of the final interval.
\<close>

section \<open>Byte strings as numbers\<close>

definition is_bytes :: "int list \<Rightarrow> bool" where
  "is_bytes bs \<longleftrightarrow> (\<forall>b \<in> set bs. 0 \<le> b \<and> b < 256)"

definition bval :: "int list \<Rightarrow> int" where
  "bval bs = foldl (\<lambda>a b. a * 256 + b) 0 bs"

lemma bval_Nil [simp]: "bval [] = 0"
  by (simp add: bval_def)

lemma bval_snoc [simp]: "bval (xs @ [x]) = bval xs * 256 + x"
  by (simp add: bval_def)

lemma bval_append: "bval (xs @ ys) = bval xs * 256 ^ length ys + bval ys"
proof (induction ys rule: rev_induct)
  case (snoc y ys)
  have "bval (xs @ ys @ [y]) = bval ((xs @ ys) @ [y])" by simp
  also have "\<dots> = (bval xs * 256 ^ length ys + bval ys) * 256 + y"
    by (simp only: bval_snoc snoc.IH)
  finally show ?case by (simp add: algebra_simps)
qed simp

lemma is_bytes_append [simp]: "is_bytes (xs @ ys) \<longleftrightarrow> is_bytes xs \<and> is_bytes ys"
  by (auto simp: is_bytes_def)

lemma is_bytes_Nil [simp]: "is_bytes []" by (simp add: is_bytes_def)

lemma is_bytes_single [simp]: "is_bytes [x] \<longleftrightarrow> 0 \<le> x \<and> x < 256"
  by (simp add: is_bytes_def)

lemma bval_bounds: "is_bytes bs \<Longrightarrow> 0 \<le> bval bs \<and> bval bs < 256 ^ length bs"
proof (induction bs rule: rev_induct)
  case (snoc x xs)
  then have "0 \<le> bval xs" "bval xs + 1 \<le> 256 ^ length xs" and x: "0 \<le> x" "x < 256" by auto
  then have "bval xs * 256 + x < 256 * 256 ^ length xs" by linarith
  with snoc x \<open>0 \<le> bval xs\<close> show ?case by simp
qed simp

lemmas bval_nonneg = bval_bounds [THEN conjunct1]
  and bval_less = bval_bounds [THEN conjunct2]

section \<open>Carry propagation\<close>

text \<open>Adding one to the number the first \<open>n + 1\<close> bytes hold.\<close>

lemma propagate_carry_adds:
  assumes "n < length buf" and "is_bytes (take (Suc n) buf)"
    and "bval (take (Suc n) buf) + 1 < 256 ^ Suc n"
  shows "\<exists>buf'. propagate_carry_bwd buf n = Some buf' \<and> length buf' = length buf \<and>
    drop (Suc n) buf' = drop (Suc n) buf \<and> is_bytes (take (Suc n) buf') \<and>
    bval (take (Suc n) buf') = bval (take (Suc n) buf) + 1"
  using assms
proof (induction n arbitrary: buf)
  case 0
  define x where "x = buf ! 0"
  have "take (Suc 0) buf = [x]" using 0 by (simp add: x_def take_Suc_conv_app_nth)
  with 0 have x: "0 \<le> x" "x + 1 < 256"
    using bval_snoc [of "[]" x] by (simp_all del: bval_snoc)
  then have "propagate_carry_bwd buf 0 = Some (buf[0 := x + 1])"
    using 0 by (subst propagate_carry_bwd.simps) (simp add: Let_def x_def u16_id u8_id shr_def)
  moreover have "take (Suc 0) (buf[0 := x + 1]) = [x + 1]"
    using 0 by (simp add: take_Suc_conv_app_nth)
  ultimately show ?case
    using 0 x \<open>take (Suc 0) buf = [x]\<close> bval_snoc [of "[]"] by (simp del: bval_snoc)
next
  case (Suc n)
  define x where "x = buf ! Suc n"
  have tk: "take (Suc (Suc n)) buf = take (Suc n) buf @ [x]"
    using Suc.prems(1) by (simp add: x_def take_Suc_conv_app_nth)
  with Suc.prems(2) have x: "0 \<le> x" "x < 256" and isb: "is_bytes (take (Suc n) buf)" by simp_all
  show ?case
  proof (cases "x = 255")
    case False
    with x have x1: "x + 1 < 256" by simp
    then have "propagate_carry_bwd buf (Suc n) = Some (buf[Suc n := x + 1])"
      using Suc.prems(1) x by (subst propagate_carry_bwd.simps) (simp add: Let_def x_def u16_id u8_id shr_def)
    moreover have "take (Suc (Suc n)) (buf[Suc n := x + 1]) = take (Suc n) buf @ [x + 1]"
      using Suc.prems(1) by (simp add: take_Suc_conv_app_nth [of "Suc n"])
    ultimately show ?thesis using tk x x1 isb by simp
  next
    case True
    let ?b = "buf[Suc n := 0]"
    have step: "propagate_carry_bwd buf (Suc n) = propagate_carry_bwd ?b n"
      using Suc.prems(1) True
      by (subst propagate_carry_bwd.simps) (simp add: Let_def x_def u16_def u8_def shr_def)
    have tb: "take (Suc n) ?b = take (Suc n) buf" by simp
    have "bval (take (Suc n) buf) * 256 + 255 + 1 < 256 * 256 ^ Suc n"
      using Suc.prems(3) by (simp add: tk True)
    then have "bval (take (Suc n) ?b) + 1 < 256 ^ Suc n" by (simp add: tb)
    with Suc.IH [of ?b] Suc.prems(1) tb isb obtain b' where
      b': "propagate_carry_bwd ?b n = Some b'" "length b' = length buf"
      "drop (Suc n) b' = drop (Suc n) ?b" "is_bytes (take (Suc n) b')"
      "bval (take (Suc n) b') = bval (take (Suc n) buf) + 1" by auto
    have nth: "b' ! Suc n = 0"
      using arg_cong [OF b'(3), of "\<lambda>l. l ! 0"] b'(2) Suc.prems(1) by simp
    have "take (Suc (Suc n)) b' = take (Suc n) b' @ [0]"
      using Suc.prems(1) b'(2) nth by (simp add: take_Suc_conv_app_nth [of "Suc n"])
    moreover have "drop (Suc (Suc n)) b' = drop (Suc (Suc n)) buf"
      using arg_cong [OF b'(3), of "drop 1"] by (simp add: drop_drop)
    ultimately show ?thesis using step b' tk True by simp
  qed
qed

section \<open>Writing whole bytes\<close>

lemma length_be64 [simp]: "length (be64_bytes x) = 8"
  by (simp add: be64_bytes_def)

lemma is_bytes_be64: "is_bytes (take n (be64_bytes x))"
proof -
  have "is_bytes (be64_bytes x)" by (auto simp: is_bytes_def be64_bytes_def)
  then show ?thesis using set_take_subset [of n "be64_bytes x"] by (auto simp: is_bytes_def)
qed

lemma bval_take_be64:
  assumes "0 \<le> x" "x < 2 ^ 64"
  shows "n \<le> 8 \<Longrightarrow> bval (take n (be64_bytes x)) = x div 256 ^ (8 - n)"
proof (induction n)
  case 0
  then show ?case using assms by simp
next
  case (Suc n)
  define y where "y = x div 256 ^ (7 - n)"
  have "256 ^ (8 - n) = 256 ^ (7 - n) * (256 :: int)"
    using Suc.prems power_Suc2 [of "256 :: int" "7 - n"] Suc_diff_le [of n 7] by simp
  then have y: "x div 256 ^ (8 - n) = y div 256" by (simp add: y_def zdiv_zmult2_eq)
  have "2 ^ (8 * (7 - n)) = (256 :: int) ^ (7 - n)" by (simp add: power_mult)
  then have "be64_bytes x ! n = y mod 256" using Suc.prems by (simp add: be64_bytes_def shr_def y_def)
  then have "take (Suc n) (be64_bytes x) = take n (be64_bytes x) @ [y mod 256]"
    using Suc.prems by (simp add: take_Suc_conv_app_nth)
  then have "bval (take (Suc n) (be64_bytes x)) = y div 256 * 256 + y mod 256"
    using Suc y by simp
  then show ?case using Suc.prems by (simp add: y_def)
qed

text \<open>One byte or several stored at \<open>off\<close>, then the carry added to the bytes before.\<close>

lemma store_and_carry:
  assumes "length src \<le> length out - off" and "off \<le> length out" and "is_bytes (take off out)"
    and "n \<le> length src" and "is_bytes (take n src)"
    and carry: "cy \<Longrightarrow> bval (take off out) + 1 < 256 ^ off"
  shows "\<exists>out1 out2. memcpy_at out off src = Some out1 \<and>
    (if cy then (if int off > 0 then propagate_carry_bwd out1 (nat (int off - 1)) else None)
     else Some out1) = Some out2 \<and> length out2 = length out \<and>
    is_bytes (take (off + n) out2) \<and>
    bval (take (off + n) out2) = (bval (take off out) + b2i cy) * 256 ^ n + bval (take n src)"
proof -
  define out1 where "out1 = take off out @ src @ drop (off + length src) out"
  have m: "memcpy_at out off src = Some out1" using assms by (simp add: memcpy_at_def out1_def)
  have len1: "length out1 = length out" using assms by (simp add: out1_def)
  have t1: "take off out1 = take off out" and d1: "take n (drop off out1) = take n src"
    using assms by (simp_all add: out1_def)
  have split: "take (off + n) b = take off b @ take n (drop off b)" for b :: "int list"
    by (simp add: take_add)
  show ?thesis
  proof (cases cy)
    case False
    have "bval (take (off + n) out1) = bval (take off out) * 256 ^ n + bval (take n src)"
      using assms len1 by (simp add: split t1 d1 bval_append)
    with False m len1 assms show ?thesis by (simp add: split t1 d1)
  next
    case True
    with carry obtain p where p: "off = Suc p"
      by (cases off) auto
    from propagate_carry_adds [of p out1] True carry assms t1 len1 p obtain out2 where
      out2: "propagate_carry_bwd out1 p = Some out2" "length out2 = length out"
      "drop off out2 = drop off out1" "is_bytes (take off out2)"
      "bval (take off out2) = bval (take off out) + 1" by auto
    have d2: "take n (drop off out2) = take n src" using out2(3) d1 by simp
    have "bval (take (off + n) out2) = (bval (take off out) + 1) * 256 ^ n + bval (take n src)"
      using assms by (simp add: split d2 bval_append out2(2,5))
    moreover have "is_bytes (take (off + n) out2)" using assms out2(4) by (simp add: split d2)
    ultimately show ?thesis using True m p out2 by simp
  qed
qed

lemma write_enc_data_correct:
  assumes "off + 8 \<le> length out" and "is_bytes (take off out)" and "n \<le> 8"
    and "0 \<le> output" and "output < 256 ^ n" and "off < 2 ^ 31"
    and "carry \<noteq> 0 \<Longrightarrow> bval (take off out) + 1 < 256 ^ off"
  shows "\<exists>out'. write_enc_data_to_out_buf out (int off) output carry (int n) = Some (out', int (off + n)) \<and>
    length out' = length out \<and> is_bytes (take (off + n) out') \<and>
    bval (take (off + n) out') = (bval (take off out) + b2i (carry \<noteq> 0)) * 256 ^ n + output"
proof -
  define reg where "reg = output * 256 ^ (8 - n)"
  have p: "(256::int) ^ n * 256 ^ (8 - n) = 2 ^ 64"
    using assms(3) by (simp flip: power_add)
  have reg: "0 \<le> reg" "reg < 2 ^ 64"
    using assms(4,5) mult_strict_right_mono [of "output" "256 ^ n" "256 ^ (8 - n)"] p
    by (simp_all add: reg_def)
  have "nat (shl (8 - int n) 3) = 8 * (8 - n)" using assms(3) by (simp add: shl_def)
  then have "shl output (nat (shl (8 - int n) 3)) = reg"
    by (simp add: shl_def reg_def power_mult)
  then have u: "u64 (shl output (nat (shl (8 - int n) 3))) = reg" using reg by (simp add: u64_id)
  have "bval (take n (be64_bytes reg)) = output"
    using bval_take_be64 [OF reg assms(3)] by (simp add: reg_def)
  then show ?thesis
    using store_and_carry [of "be64_bytes reg" out off n "carry \<noteq> 0"] assms is_bytes_be64 u
    by (fastforce simp: write_enc_data_to_out_buf_def u32_id split: if_splits)
qed

section \<open>Renormalisation amount\<close>

definition renorm :: "int \<Rightarrow> nat" where "renorm r = 15 - get_msb r"

lemma renorm_props:
  assumes "0 < r" "r < 65536"
  shows "16 - OD_ILOG_NZ r = int (renorm r)" and "renorm r \<le> 15"
    and "32768 \<le> r * 2 ^ renorm r" and "r * 2 ^ renorm r < 65536"
proof -
  define g where "g = get_msb r"
  have g: "2 ^ g \<le> r" "r < 2 * 2 ^ g" using get_msb_bounds [OF assms(1)] by (simp_all add: g_def)
  then have "(2::int) ^ g < 2 ^ 16" using assms(2) by simp
  then have "g < 16" by (simp only: power_strict_increasing_iff one_less_numeral_iff semiring_norm)
  then have g15: "g \<le> 15" by simp
  then have p: "2 * (2::int) ^ g * 2 ^ renorm r = 65536" by (simp add: renorm_def flip: g_def power_add)
  show "16 - OD_ILOG_NZ r = int (renorm r)" using g15 by (simp add: OD_ILOG_NZ_def renorm_def g_def)
  show "renorm r \<le> 15" by (simp add: renorm_def)
  show "32768 \<le> r * 2 ^ renorm r" using mult_right_mono [OF g(1), of "2 ^ renorm r"] p by fastforce
  show "r * 2 ^ renorm r < 65536" using mult_strict_right_mono [OF g(2), of "2 ^ renorm r"] p by (simp only: zero_less_power zero_less_numeral simp_thms)
qed

section \<open>The encoder stands for an exact interval\<close>

definition enc_inv :: "od_ec_enc \<Rightarrow> int \<Rightarrow> nat \<Rightarrow> bool" where
  "enc_inv enc E D \<longleftrightarrow>
     (\<exists>off k. enc_error enc = 0 \<and> enc_offs enc = int off \<and> enc_cnt enc = int k - 24 \<and>
       15 \<le> k \<and> k \<le> 63 \<and> D + 15 = 8 * off + k \<and>
       off \<le> length (enc_buf enc) \<and> enc_storage enc = int (length (enc_buf enc)) \<and>
       length (enc_buf enc) < 2 ^ 30 \<and> is_bytes (take off (enc_buf enc)) \<and>
       32768 \<le> enc_rng enc \<and> enc_rng enc < 65536 \<and> 0 \<le> enc_low enc \<and>
       enc_low enc + enc_rng enc \<le> 2 ^ Suc k \<and>
       E = bval (take off (enc_buf enc)) * 2 ^ k + enc_low enc \<and> E + enc_rng enc \<le> 2 ^ (15 + D))"

lemma enc_invI:
  assumes "enc_error enc = 0" "enc_offs enc = int off" "enc_cnt enc = int k - 24"
    "15 \<le> k" "k \<le> 63" "D + 15 = 8 * off + k"
    "off \<le> length (enc_buf enc)" "enc_storage enc = int (length (enc_buf enc))"
    "length (enc_buf enc) < 2 ^ 30" "is_bytes (take off (enc_buf enc))"
    "32768 \<le> enc_rng enc" "enc_rng enc < 65536" "0 \<le> enc_low enc"
    "enc_low enc + enc_rng enc \<le> 2 ^ Suc k"
    "E = bval (take off (enc_buf enc)) * 2 ^ k + enc_low enc" "E + enc_rng enc \<le> 2 ^ (15 + D)"
  shows "enc_inv enc E D"
  using assms unfolding enc_inv_def by blast

lemma enc_inv_low:
  assumes "enc_inv enc E D"
  shows "32768 \<le> enc_rng enc" "enc_rng enc < 65536" "0 \<le> enc_low enc"
    "enc_low enc + enc_rng enc \<le> 2 ^ 64" "E + enc_rng enc \<le> 2 ^ (15 + D)"
proof -
  from assms obtain k where "k \<le> 63" "enc_low enc + enc_rng enc \<le> 2 ^ Suc k"
    unfolding enc_inv_def by blast
  moreover have "(2::int) ^ Suc k \<le> 2 ^ 64" using \<open>k \<le> 63\<close> by (intro power_increasing) simp_all
  ultimately show "enc_low enc + enc_rng enc \<le> 2 ^ 64" by simp
qed (use assms in \<open>auto simp: enc_inv_def\<close>)

lemma enc_init_inv:
  assumes "alloc_ok al sz" "0 \<le> sz" "sz < 2 ^ 30"
  shows "enc_inv (od_ec_enc_init al enc sz) 0 0" and "enc_rng (od_ec_enc_init al enc sz) = 32768"
proof -
  show "enc_inv (od_ec_enc_init al enc sz) 0 0"
    by (rule enc_invI [where off = 0 and k = 15])
      (use assms in \<open>simp_all add: od_ec_enc_init_def od_ec_enc_reset_def\<close>)
  show "enc_rng (od_ec_enc_init al enc sz) = 32768"
    using assms by (simp add: od_ec_enc_init_def od_ec_enc_reset_def)
qed

lemma realloc_grow:
  assumes "alloc_ok al n" "int (length buf) \<le> n"
  shows "\<exists>buf'. realloc_bytes al buf n = Some buf' \<and> length buf' = nat n \<and>
    (\<forall>off \<le> length buf. take off buf' = take off buf)"
  using assms by (auto simp: realloc_bytes_def)

text \<open>The window before a flush, split at the bits that leave it.\<close>

lemma flush_split:
  fixes low :: int
  assumes "0 \<le> low" "low < 2 ^ Suc (c + n)"
  defines "out \<equiv> low div 2 ^ c"
  shows "low = (b2i (out AND 2 ^ n \<noteq> 0) * 2 ^ n + out mod 2 ^ n) * 2 ^ c + low mod 2 ^ c"
    and "out AND 2 ^ n \<noteq> 0 \<Longrightarrow> 2 ^ (c + n) \<le> low"
proof -
  have "low < 2 ^ c * 2 ^ Suc n" using assms by (simp add: power_add)
  then have lt: "out < 2 * 2 ^ n" unfolding out_def
    by (subst div_less_int_iff) (simp_all add: mult_ac)
  have out0: "0 \<le> out" using assms by (simp add: out_def pos_imp_zdiv_nonneg_iff)
  have cy: "b2i (out AND 2 ^ n \<noteq> 0) = out div 2 ^ n mod 2"
    by (simp add: and_exp_eq_0_iff_not_bit b2i_bit)
  have "out div 2 ^ n < 2" using lt by (subst div_less_int_iff) simp_all
  then have cy': "b2i (out AND 2 ^ n \<noteq> 0) = out div 2 ^ n"
    using out0 by (simp add: cy pos_imp_zdiv_nonneg_iff)
  then have "b2i (out AND 2 ^ n \<noteq> 0) * 2 ^ n + out mod 2 ^ n = out" by (simp only: div_mult_mod_eq)
  then show "low = (b2i (out AND 2 ^ n \<noteq> 0) * 2 ^ n + out mod 2 ^ n) * 2 ^ c + low mod 2 ^ c"
    by (simp only: out_def div_mult_mod_eq)
  assume "out AND 2 ^ n \<noteq> 0"
  then have "out div 2 ^ n = 1" using cy' by simp
  then have "2 ^ n \<le> out" using out0 lt
    by (metis div_pos_pos_trivial not_le zero_neq_one)
  then have "2 ^ n * 2 ^ c \<le> out * 2 ^ c" by (simp add: mult_right_mono)
  also have "\<dots> \<le> low" using le_div_int_iff [of "2 ^ c" out low] by (simp add: out_def)
  finally show "2 ^ (c + n) \<le> low" by (simp add: power_add mult.commute)
qed

lemma pow256: "(256::int) ^ n = 2 ^ (8 * n)"
  by (simp add: power_mult)

text \<open>Room for eight more bytes, growing the buffer when the encoder does.\<close>

lemma enc_room:
  assumes "\<And>n. alloc_ok al n" "off \<le> length buf" "length buf < 2 ^ 30" "off < 2 ^ 28"
  defines "storage1 \<equiv> if u32 (int off + 8) > int (length buf)
      then u32 (2 * int (length buf) + 8) else int (length buf)"
  shows "\<exists>out. (if u32 (int off + 8) > int (length buf) then realloc_bytes al buf storage1
      else Some buf) = Some out \<and> int (length out) = storage1 \<and> length out < 2 ^ 30 \<and>
      off + 8 \<le> length out \<and> take off out = take off buf"
proof -
  have u: "u32 (int off + 8) = int off + 8" "u32 (2 * int (length buf) + 8) = 2 * int (length buf) + 8"
    using assms by (simp_all add: u32_id)
  show ?thesis
  proof (cases "int off + 8 > int (length buf)")
    case True
    then have s1: "storage1 = 2 * int (length buf) + 8" by (simp add: storage1_def u)
    obtain out where "realloc_bytes al buf storage1 = Some out" "length out = nat storage1"
      "take off out = take off buf"
      using realloc_grow [of al storage1 buf] assms(1,2) s1 by auto
    with True s1 assms show ?thesis by (simp add: u nat_less_iff)
  next
    case False
    then show ?thesis using assms by (simp add: u storage1_def)
  qed
qed

lemma nested_bounds:
  fixes E R u v B low :: int
  assumes "0 \<le> v" "v < u" "u \<le> R" "0 \<le> low" "low + R \<le> 2 ^ Suc k" "E + R \<le> 2 ^ n" "E = B * 2 ^ k + low"
  shows "0 \<le> low + (R - u)" "low + (R - u) < 2 ^ Suc k" "low + (R - u) + (u - v) \<le> 2 ^ Suc k"
    "E + R - u + (u - v) \<le> 2 ^ n" "E + R - u = B * 2 ^ k + (low + (R - u))"
  using assms by simp_all

text \<open>A step that flushes: the ready bytes leave the window, its value stays the same.\<close>

lemma enc_flush_step:
  assumes al: "\<And>n. alloc_ok al n" and e0: "enc_error enc = 0" and offs: "enc_offs enc = int off"
    and cnt: "enc_cnt enc = int k - 24" and k: "k \<le> 63" and D: "D + 15 = 8 * off + k"
    and buf: "off \<le> length (enc_buf enc)" "enc_storage enc = int (length (enc_buf enc))"
      "length (enc_buf enc) < 2 ^ 30" "is_bytes (take off (enc_buf enc))"
    and l: "0 \<le> l" "l < 2 ^ Suc k" and r: "0 < r"
    and d: "16 - OD_ILOG_NZ r = int d" "d \<le> 15" "32768 \<le> r * 2 ^ d" "r * 2 ^ d < 65536"
    and kd: "64 \<le> k + d" and small: "D < 2 ^ 30"
    and top: "bval (take off (enc_buf enc)) * 2 ^ k + l + r \<le> 2 ^ (8 * off + k)"
  shows "\<exists>enc'. od_ec_enc_normalize al enc l r = Some enc' \<and>
    enc_inv enc' ((bval (take off (enc_buf enc)) * 2 ^ k + l) * 2 ^ d) (D + d) \<and>
    enc_rng enc' = r * 2 ^ d"
proof -
  define B where "B = bval (take off (enc_buf enc))"
  define n where "n = (k + d) div 8 - 2"
  define c where "c = k - 8 * n"
  have n8: "8 * n \<le> k" "n \<le> 7" "1 \<le> c" "16 \<le> c + d" "c + d \<le> 23"
    using kd k d(2) by (auto simp: n_def c_def)
  then have kc: "k = c + 8 * n" by (simp add: c_def)
  have s: "int k - 24 + int d \<ge> 40" using kd by simp
  have "shr (int k - 24 + int d) 3 + 1 = int n"
    using kd by (simp add: shr_def n_def zdiv_int [symmetric] of_nat_diff) 
  then have nb: "u8 (shr (int k - 24 + int d) 3 + 1) = int n" using n8 by (simp add: u8_id)
  have cc: "int k - 24 + 24 - shl (int n) 3 = int c" using kc by (simp add: shl_def)
  have m1: "u64 (shl 1 c) = 2 ^ c" "u64 (shl 1 (8 * n)) = 2 ^ (8 * n)"
    using power_strict_increasing [of c 64 "2::int"] power_strict_increasing [of "8 * n" 64 "2::int"] n8
    by (simp_all add: shl_def u64_id)
  define out where "out = l div 2 ^ c"
  obtain buf1 where buf1: "(if u32 (int off + 8) > int (length (enc_buf enc))
        then realloc_bytes al (enc_buf enc) (if u32 (int off + 8) > int (length (enc_buf enc))
          then u32 (2 * int (length (enc_buf enc)) + 8) else int (length (enc_buf enc)))
        else Some (enc_buf enc)) = Some buf1"
    "int (length buf1) = (if u32 (int off + 8) > int (length (enc_buf enc))
          then u32 (2 * int (length (enc_buf enc)) + 8) else int (length (enc_buf enc)))"
    "length buf1 < 2 ^ 30" "off + 8 \<le> length buf1" "take off buf1 = take off (enc_buf enc)"
    using enc_room [of al off "enc_buf enc"] al buf D small by auto
  have carry: "B + 1 < 256 ^ off" if "out AND 2 ^ (8 * n) \<noteq> 0"
  proof -
    have "2 ^ k \<le> l" using flush_split(2) [of l c "8 * n"] l that by (simp add: out_def kc)
    then have "(B + 1) * 2 ^ k < 2 ^ (8 * off) * 2 ^ k"
      using top r by (simp add: B_def power_add algebra_simps)
    then show ?thesis by (simp add: pow256)
  qed
  have o2: "0 \<le> out mod 2 ^ (8 * n)" "out mod 2 ^ (8 * n) < 256 ^ n" by (simp_all add: pow256)
  from write_enc_data_correct [of off buf1 n "out mod 2 ^ (8 * n)" "out AND 2 ^ (8 * n)"]
  obtain out' where out': "write_enc_data_to_out_buf buf1 (int off) (out mod 2 ^ (8 * n))
        (out AND 2 ^ (8 * n)) (int n) = Some (out', int (off + n))"
    "length out' = length buf1" "is_bytes (take (off + n) out')"
    "bval (take (off + n) out') = (B + b2i (out AND 2 ^ (8 * n) \<noteq> 0)) * 256 ^ n + out mod 2 ^ (8 * n)"
    using buf buf1 n8 o2 carry D small by (auto simp: B_def)
  define lo where "lo = l mod 2 ^ c"
  have lo: "0 \<le> lo" "lo < 2 ^ c" by (simp_all add: lo_def)
  have lod: "lo * 2 ^ d + r * 2 ^ d \<le> 2 ^ Suc (c + d)"
  proof -
    have "lo * 2 ^ d < 2 ^ c * 2 ^ d" using lo by (intro mult_strict_right_mono) simp_all
    moreover have "(65536::int) \<le> 2 ^ (c + d)"
      using n8 power_increasing [of 16 "c + d" "2::int"] by simp
    ultimately show ?thesis using d(4) unfolding power_Suc power_add by linarith
  qed
  have "(2::int) ^ Suc (c + d) \<le> 2 ^ 24" using n8 by (intro power_increasing) simp_all
  then have low': "u64 (shl lo d) = lo * 2 ^ d" using lod lo d(3) by (simp add: shl_def u64_id)
  have rng: "u16 (shl r d) = r * 2 ^ d" using d by (simp add: shl_def u16_id)
  let ?enc = "enc\<lparr>enc_buf := out', enc_storage := int (length buf1), enc_offs := int (off + n),
      enc_low := lo * 2 ^ d, enc_rng := r * 2 ^ d, enc_cnt := int (c + d) - 24\<rparr>"
  have cs: "s16 (int c + int d - 24) = int (c + d) - 24" using n8 by (simp add: s16_id)
  have shn: "nat (shl (int n) 3) = 8 * n" by (simp add: shl_def)
  have "od_ec_enc_normalize al enc l r = Some ?enc"
    unfolding od_ec_enc_normalize_def Let_def e0 cnt d(1) offs buf(2) nb cc nat_int shn m1
      and_mask_mod shr_def [of l] out_def [symmetric] lo_def [symmetric] low' rng cs
    using s buf1(1,2) out'(1) by (simp add: shr_def)
  moreover have "enc_inv ?enc ((B * 2 ^ k + l) * 2 ^ d) (D + d)"
  proof (rule enc_invI [where off = "off + n" and k = "c + d"])
    have "l = (b2i (out AND 2 ^ (8 * n) \<noteq> 0) * 2 ^ (8 * n) + out mod 2 ^ (8 * n)) * 2 ^ c + lo"
      using flush_split(1) [of l c "8 * n"] l by (simp add: out_def lo_def kc)
    then have "B * 2 ^ k + l = bval (take (off + n) out') * 2 ^ c + lo"
      unfolding out'(4) by (simp add: kc pow256 power_add algebra_simps)
    then show "(B * 2 ^ k + l) * 2 ^ d = bval (take (off + n) (enc_buf ?enc)) * 2 ^ (c + d) + enc_low ?enc"
      by (simp add: power_add algebra_simps)
    have "(B * 2 ^ k + l + r) * 2 ^ d \<le> 2 ^ (8 * off + k) * 2 ^ d"
      using top by (intro mult_right_mono) (simp_all add: B_def)
    also have "(2::int) ^ (8 * off + k) * 2 ^ d = 2 ^ (15 + (D + d))"
      unfolding power_add [symmetric] using D by (intro arg_cong [where f = "(^) 2"]) simp
    finally show "(B * 2 ^ k + l) * 2 ^ d + enc_rng ?enc \<le> 2 ^ (15 + (D + d))"
      by (simp add: algebra_simps)
  qed (use n8 D buf1 out' d lo lod e0 kc in \<open>simp_all\<close>)
  ultimately show ?thesis by (simp add: B_def)
qed


text \<open>
  One encoding step: the encoder moves to the sub-interval of width \<open>u - v\<close> whose upper
  end is \<open>v\<close> below the old one, renormalised by \<open>renorm (u - v)\<close> bits.
\<close>

lemma enc_normalize_correct:
  assumes al: "\<And>n. alloc_ok al n" and inv: "enc_inv enc E D" and small: "D < 2 ^ 30"
    and uv: "0 \<le> v" "v < u" "u \<le> enc_rng enc"
  defines "R \<equiv> enc_rng enc" and "d \<equiv> renorm (u - v)"
  shows "\<exists>enc'. od_ec_enc_normalize al enc (enc_low enc + (R - u)) (u - v) = Some enc' \<and>
    enc_inv enc' ((E + R - u) * 2 ^ d) (D + d) \<and> enc_rng enc' = (u - v) * 2 ^ d"
proof -
  from inv obtain off k where
    e0: "enc_error enc = 0" and offs: "enc_offs enc = int off" and cnt: "enc_cnt enc = int k - 24"
    and k: "15 \<le> k" "k \<le> 63" and D: "D + 15 = 8 * off + k"
    and buf: "off \<le> length (enc_buf enc)" "enc_storage enc = int (length (enc_buf enc))"
      "length (enc_buf enc) < 2 ^ 30" "is_bytes (take off (enc_buf enc))"
    and R: "32768 \<le> R" "R < 65536" and low: "0 \<le> enc_low enc" "enc_low enc + R \<le> 2 ^ Suc k"
    and E: "E = bval (take off (enc_buf enc)) * 2 ^ k + enc_low enc" and ER: "E + R \<le> 2 ^ (15 + D)"
    unfolding enc_inv_def R_def by blast
  define B where "B = bval (take off (enc_buf enc))"
  define r where "r = u - v"
  define l where "l = enc_low enc + (R - u)"
  note b = nested_bounds [OF uv(1,2) uv(3) [folded R_def] low ER E, folded B_def, folded r_def l_def]
  have r: "0 < r" "r < 65536" using uv R by (simp_all add: r_def R_def)
  have d: "16 - OD_ILOG_NZ r = int d" "d \<le> 15" "32768 \<le> r * 2 ^ d" "r * 2 ^ d < 65536"
    using renorm_props [OF r] by (simp_all add: d_def r_def)
  have rng: "u16 (shl r d) = r * 2 ^ d" using d by (simp add: shl_def u16_id)
  have ERd: "(E + R - u) * 2 ^ d + r * 2 ^ d \<le> 2 ^ (15 + (D + d))"
    using mult_right_mono [OF b(4), of "2 ^ d"] by (simp add: power_add algebra_simps)
  show ?thesis
  proof (cases "k + d < 64")
    case True
    have "l * 2 ^ d + r * 2 ^ d \<le> 2 ^ Suc k * 2 ^ d"
      using mult_right_mono [OF b(3), of "2 ^ d"] by (simp add: algebra_simps)
    then have ld: "l * 2 ^ d + r * 2 ^ d \<le> 2 ^ Suc (k + d)" by (simp add: power_add)
    also have "(2::int) ^ Suc (k + d) \<le> 2 ^ 64" using True by (intro power_increasing) auto
    finally have "l * 2 ^ d < 2 ^ 64" using d(3) by linarith
    then have low': "u64 (shl l d) = l * 2 ^ d" using b(1) by (simp add: shl_def u64_id)
    let ?enc = "enc\<lparr>enc_low := l * 2 ^ d, enc_rng := r * 2 ^ d, enc_cnt := int (k + d) - 24\<rparr>"
    have "od_ec_enc_normalize al enc l r = Some ?enc"
      using True k by (simp add: od_ec_enc_normalize_def e0 cnt d(1) Let_def low' rng s16_id)
    moreover have "enc_inv ?enc ((E + R - u) * 2 ^ d) (D + d)"
    proof (rule enc_invI [where off = off and k = "k + d"])
      show "(E + R - u) * 2 ^ d = bval (take off (enc_buf ?enc)) * 2 ^ (k + d) + enc_low ?enc"
        using b(5) by (simp add: B_def power_add algebra_simps)
    qed (use True k D buf e0 offs d ld b(1) ERd in \<open>simp_all\<close>)
    ultimately show ?thesis by (auto simp: l_def r_def)
  next
    case False
    have "B * 2 ^ k + l + r \<le> 2 ^ (8 * off + k)" using b(4,5) D by (simp add: add.commute)
    then have "\<exists>enc'. od_ec_enc_normalize al enc l r = Some enc' \<and>
        enc_inv enc' ((B * 2 ^ k + l) * 2 ^ d) (D + d) \<and> enc_rng enc' = r * 2 ^ d"
      using enc_flush_step [OF al e0 offs cnt k(2) D buf, of l r d] b(1,2) r d False small
      by (simp add: B_def)
    then show ?thesis unfolding b(5) l_def r_def .
  qed
qed

section \<open>Finishing the stream\<close>

lemma enc_done_loop_correct:
  assumes "15 \<le> k" "0 \<le> e" "e < 2 ^ Suc k" "2 ^ 14 dvd e"
    and "is_bytes (take off out)" "off + (k - 7) div 8 \<le> length out" "8 * off + k < 2 ^ 31" "k \<le> 63"
    and "bval (take off out) * 2 ^ k + e < 2 ^ (8 * off + k)"
  shows "\<exists>out' m. enc_done_loop out (int off) e (int k - 24) (int k - 14) (2 ^ (k - 8) - 1)
      = Some (out', int (off + m)) \<and> length out' = length out \<and> off + m \<le> length out \<and>
    is_bytes (take (off + m) out') \<and> 8 * m \<le> k \<and> k \<le> 8 * m + 14 \<and>
    bval (take (off + m) out') * 2 ^ (k - 8 * m) = bval (take off out) * 2 ^ k + e"
  using assms
proof (induction k arbitrary: e off out rule: less_induct)
  case (less k)
  define B where "B = bval (take off out)"
  define c where "c = k - 8"
  have k: "k = c + 8" and c: "7 \<le> c" using less.prems(1) by (simp_all add: c_def)
  define val where "val = e div 2 ^ c"
  have "e < 512 * 2 ^ c" using less.prems(3) by (simp add: k power_add)
  then have val: "0 \<le> val" "val < 512"
    using less.prems(2) by (simp_all add: val_def div_less_int_iff pos_imp_zdiv_nonneg_iff)
  have split: "e = (b2i (val AND 256 \<noteq> 0) * 256 + val mod 256) * 2 ^ c + e mod 2 ^ c"
    and big: "val AND 256 \<noteq> 0 \<Longrightarrow> 2 ^ k \<le> e"
    using flush_split [of e c 8] less.prems(2,3) by (simp_all add: val_def k)
  have cexp: "nat (int k - 24 + 16) = c" using k c by simp
  have carry: "B + 1 < 256 ^ off" if "val AND 256 \<noteq> 0"
  proof -
    have "(B + 1) * 2 ^ k < 2 ^ (8 * off) * 2 ^ k"
      using less.prems(9) big [OF that] by (simp add: B_def power_add algebra_simps)
    then show ?thesis by (simp add: pow256)
  qed
  have room: "1 \<le> (k - 7) div 8" using less.prems(1) by simp
  then have room1: "Suc 0 \<le> length out - off" using less.prems(6) by linarith
  have byte: "u8 (val AND 255) = val mod 256"
    using and_mask_mod [of val 8] by (simp add: u8_id)
  have v1: "bval [val mod 256] = val mod 256" using bval_snoc [of "[]" "val mod 256"] by simp
  from store_and_carry [of "[val mod 256]" out off 1 "val AND 256 \<noteq> 0"] obtain out1 out2 where
    st: "memcpy_at out off [val mod 256] = Some out1"
    "(if val AND 256 \<noteq> 0 then (if int off > 0 then propagate_carry_bwd out1 (nat (int off - 1)) else None)
      else Some out1) = Some out2"
    "length out2 = length out" "is_bytes (take (Suc off) out2)"
    "bval (take (Suc off) out2) = (B + b2i (val AND 256 \<noteq> 0)) * 256 + val mod 256"
    using less.prems(5,6) room room1 carry by (auto simp: B_def v1)
  define e' where "e' = e mod 2 ^ c"
  have e': "e AND (2 ^ c - 1) = e'" by (simp add: and_mask_mod e'_def)
  have value': "bval (take (Suc off) out2) * 2 ^ c + e' = B * 2 ^ k + e"
  proof -
    have "bval (take (Suc off) out2) * 2 ^ c + e' = B * 2 ^ k +
        ((b2i (val AND 256 \<noteq> 0) * 256 + val mod 256) * 2 ^ c + e mod 2 ^ c)"
      by (simp add: st(5) k e'_def power_add algebra_simps)
    then show ?thesis unfolding split [symmetric] .
  qed
  have step: "enc_done_loop out (int off) e (int k - 24) (int k - 14) (2 ^ c - 1) =
      (if int k - 14 - 8 > 0
       then enc_done_loop out2 (int (Suc off)) e' (int c - 24) (int c - 14) (shr (2 ^ c - 1) 8)
       else Some (out2, int (Suc off)))"
    using st(1,2) val less.prems(7)
    by (subst enc_done_loop.simps)
      (simp add: cexp shr_def [of e] e' byte u16_id u32_id k add.commute [of 1] flip: val_def)
  show ?case
  proof (cases "15 \<le> c")
    case True
    have dvd: "2 ^ 14 dvd e'"
      unfolding e'_def using less.prems(4) True by (intro dvd_mod le_imp_power_dvd) simp_all
    have sh: "shr (2 ^ c - 1) 8 = 2 ^ (c - 8) - (1::int)"
    proof -
      have "(2::int) ^ c = 2 ^ (c - 8) * 256" using True power_add [of "2::int" "c - 8" 8] by simp
      then show ?thesis by (simp add: shr_def)
    qed
    have lt: "bval (take (Suc off) out2) * 2 ^ c + e' < 2 ^ (8 * Suc off + c)"
      unfolding value' B_def using less.prems(9) by (simp add: k power_add mult_ac)
    have "e' < 2 ^ c" and "(0::int) < 2 ^ c" by (simp_all add: e'_def)
    then have "e' < 2 ^ Suc c" unfolding power_Suc by linarith
    moreover have "Suc off + (c - 7) div 8 \<le> length out2"
    proof -
      have "(k - 7) div 8 = Suc ((c - 7) div 8)" using True k by simp
      then show ?thesis using less.prems(6) st(3) by simp
    qed
    moreover have "8 * Suc off + c < 2 ^ 31" using less.prems(7) k by simp
    ultimately obtain out' m where ih: "enc_done_loop out2 (int (Suc off)) e' (int c - 24) (int c - 14) (2 ^ (c - 8) - 1)
        = Some (out', int (Suc off + m))" "length out' = length out2" "Suc off + m \<le> length out2"
      "is_bytes (take (Suc off + m) out')" "8 * m \<le> c" "c \<le> 8 * m + 14"
      "bval (take (Suc off + m) out') * 2 ^ (c - 8 * m) = bval (take (Suc off) out2) * 2 ^ c + e'"
      using less.IH [of c e' "Suc off" out2] True dvd st(3,4) less.prems(8) lt k
      by (auto simp: e'_def)
    show ?thesis
      by (rule exI [of _ out'], rule exI [of _ "Suc m"])
        (use ih step sh True k st(3) value' in \<open>simp add: B_def flip: c_def\<close>)
  next
    case False
    have "2 ^ c dvd (2::int) ^ 14" using False by (intro le_imp_power_dvd) simp
    then have "2 ^ c dvd e" using less.prems(4) by (rule dvd_trans)
    then have "e' = 0" by (simp add: e'_def dvd_imp_mod_0)
    show ?thesis
      by (rule exI [of _ out2], rule exI [of _ 1])
        (use step False k st c value' \<open>e' = 0\<close> less.prems(6) room in \<open>simp add: B_def flip: c_def\<close>)
  qed
qed

text \<open>
  \<open>od_ec_enc_done\<close> rounds the low end up to a multiple of \<open>2 ^ 15\<close> plus \<open>2 ^ 14\<close>,
  a point inside the final interval, and writes it out exactly.
\<close>

lemma round_point:
  fixes l :: int
  assumes "0 \<le> l" "l + 16383 < 18446744073709551616"
  defines "e \<equiv> (u64 (l + 16383) AND NOT 16383) OR (16383 + 1)"
  shows "l \<le> e" "e < l + 32768" "2 ^ 14 dvd e"
proof -
  define q where "q = (l + 16383) div 2 ^ 14"
  have "e = (q * 2 ^ 14) OR (1 * 2 ^ 14)"
    using assms and_not_mask_div [of "l + 16383" 14] by (simp add: e_def u64_id q_def)
  also have "\<dots> = (q OR 1) * 2 ^ 14"
    using push_bit_or [of 14 q 1] by (simp add: push_bit_eq_mult)
  finally have e: "e = (q + of_bool (even q)) * 2 ^ 14" by (simp add: or_one_eq)
  then show "2 ^ 14 dvd e" by simp
  have q: "l + 16383 = q * 2 ^ 14 + (l + 16383) mod 2 ^ 14" "0 \<le> (l + 16383) mod 2 ^ 14"
    "(l + 16383) mod 2 ^ 14 < 2 ^ 14" by (simp_all add: q_def)
  show "l \<le> e" "e < l + 32768" using q by (auto simp: e)
qed

lemma enc_done_correct:
  assumes al: "\<And>n. alloc_ok al n" and inv: "enc_inv enc E D" and small: "D < 2 ^ 30"
  shows "\<exists>enc' out nb. od_ec_enc_done al enc = Some (enc', Some (out, int nb)) \<and>
    nb \<le> length out \<and> is_bytes (take nb out) \<and> 8 * nb \<le> 15 + D \<and> 15 + D \<le> 8 * nb + 14 \<and>
    E \<le> bval (take nb out) * 2 ^ (15 + D - 8 * nb) \<and>
    bval (take nb out) * 2 ^ (15 + D - 8 * nb) < E + 32768"
proof -
  from inv obtain off k where
    e0: "enc_error enc = 0" and offs: "enc_offs enc = int off" and cnt: "enc_cnt enc = int k - 24"
    and k: "15 \<le> k" "k \<le> 63" and D: "D + 15 = 8 * off + k"
    and buf: "off \<le> length (enc_buf enc)" "enc_storage enc = int (length (enc_buf enc))"
      "length (enc_buf enc) < 2 ^ 30" "is_bytes (take off (enc_buf enc))"
    and R: "32768 \<le> enc_rng enc"
    and low: "0 \<le> enc_low enc" "enc_low enc + enc_rng enc \<le> 2 ^ Suc k"
    and E: "E = bval (take off (enc_buf enc)) * 2 ^ k + enc_low enc"
    and ER: "E + enc_rng enc \<le> 2 ^ (15 + D)"
    unfolding enc_inv_def by blast
  define e where "e = (u64 (enc_low enc + 16383) AND NOT 16383) OR (16383 + 1)"
  define b where "b = (k - 7) div 8"
  have "(2::int) ^ Suc k \<le> 2 ^ 64" using k by (intro power_increasing) auto
  then have e: "enc_low enc \<le> e" "e < enc_low enc + 32768" "2 ^ 14 dvd e"
    using round_point [of "enc_low enc"] low R by (simp_all add: e_def)
  then have e2: "0 \<le> e" "e < 2 ^ Suc k" using low R by linarith+
  have bits: "max (shr (10 + (int k - 24) + 7) 3) 0 = int b"
  proof -
    have "10 + (int k - 24) + 7 = int (k - 7)" using k by simp
    moreover have "shr (int (k - 7)) 3 = int b"
      unfolding shr_def b_def zdiv_int by simp
    ultimately show ?thesis by (simp only:)
  qed
  have n: "u64 (shl 1 (nat (int k - 24 + 16))) - 1 = 2 ^ (k - 8) - 1"
  proof -
    have "nat (int k - 24 + 16) = k - 8" using k by simp
    moreover have "(2::int) ^ (k - 8) < 2 ^ 64" using k by (intro power_strict_increasing) auto
    ultimately show ?thesis by (simp add: shl_def u64_id)
  qed
  have room: "u32 (int off + int b) = int (off + b)" using D small k by (simp add: b_def u32_id)
  obtain buf1 where buf1: "(if int (off + b) > int (length (enc_buf enc))
        then realloc_bytes al (enc_buf enc) (if int (off + b) > int (length (enc_buf enc))
          then int (off + b) else int (length (enc_buf enc)))
        else Some (enc_buf enc)) = Some buf1"
    "off + b \<le> length buf1" "take off buf1 = take off (enc_buf enc)"
  proof (cases "int (off + b) > int (length (enc_buf enc))")
    case True
    then obtain buf' where "realloc_bytes al (enc_buf enc) (int (off + b)) = Some buf'"
      "length buf' = off + b" "take off buf' = take off (enc_buf enc)"
      using realloc_grow [of al "int (off + b)" "enc_buf enc"] al buf(1) by auto
    then show ?thesis using that [of buf'] True by simp
  next
    case False
    then show ?thesis using that [of "enc_buf enc"] by simp
  qed
  have "bval (take off buf1) * 2 ^ k + e < 2 ^ (8 * off + k)"
    using ER E e R D buf1(3) by (simp add: add.commute)
  then obtain out m where loop: "enc_done_loop buf1 (int off) e (int k - 24) (int k - 14) (2 ^ (k - 8) - 1)
      = Some (out, int (off + m))" "length out = length buf1" "off + m \<le> length buf1"
    "is_bytes (take (off + m) out)" "8 * m \<le> k" "k \<le> 8 * m + 14"
    "bval (take (off + m) out) * 2 ^ (k - 8 * m) = bval (take off buf1) * 2 ^ k + e"
    using enc_done_loop_correct [of k e off buf1] k e e2 buf buf1(2,3) D small by (auto simp: b_def)
  then obtain enc' where "od_ec_enc_done al enc = Some (enc', Some (out, int (off + m)))"
    using buf1(1) loop(1) k
    unfolding od_ec_enc_done_def Let_def e0 offs cnt buf(2) bits n room e_def [symmetric] by simp
  moreover have "15 + D - 8 * (off + m) = k - 8 * m" using D by simp
  then have "bval (take (off + m) out) * 2 ^ (15 + D - 8 * (off + m)) = E - enc_low enc + e"
    using loop(7) E buf1(3) by simp
  ultimately show ?thesis
    using loop(2-6) e(1,2) D
    by (intro exI [of _ enc'] exI [of _ out] exI [of _ "off + m"]) simp
qed

end
