(* ===== verification/Range_Coder_Models.thy ===== *)
theory Range_Coder_Models
  imports Range_Coder_Encoder
begin

text \<open>
  Probability models and the intervals they cut. A table \<open>icdf\<close> (32768 minus the
  cumulative distribution, as the source stores it) of \<open>n\<close> symbols splits a range \<open>r\<close>
  at the points \<open>icut r icdf n s\<close>; symbol \<open>s\<close> owns the part between \<open>icut_hi\<close> and
  \<open>icut\<close>, at least \<open>EC_MIN_PROB\<close> wide. Both coders are described by the same cuts,
  and a boolean with probability \<open>f\<close> is the two-symbol table \<open>[f, 0]\<close>.
\<close>

definition wf_icdf :: "int list \<Rightarrow> nat \<Rightarrow> bool" where
  "wf_icdf icdf n \<longleftrightarrow> 1 \<le> n \<and> n \<le> 16 \<and> n \<le> length icdf \<and>
     (\<forall>i < n. 0 \<le> icdf ! i \<and> icdf ! i < 32768) \<and>
     (\<forall>i < n. i + 1 < n \<longrightarrow> icdf ! (i + 1) \<le> icdf ! i) \<and> icdf ! (n - 1) = 0"

definition icut :: "int \<Rightarrow> int list \<Rightarrow> nat \<Rightarrow> nat \<Rightarrow> int" where
  "icut r icdf n s = od_ec_scale r (icdf ! s) + EC_MIN_PROB * (int n - 1 - int s)"

definition icut_hi :: "int \<Rightarrow> int list \<Rightarrow> nat \<Rightarrow> nat \<Rightarrow> int" where
  "icut_hi r icdf n s = (if s = 0 then r else icut r icdf n (s - 1))"

lemma od_ec_scale_eq:
  assumes "32768 \<le> r" "r < 65536" "0 \<le> f" "f < 32768"
  shows "od_ec_scale r f = (r div 256 * (f div 64)) div 2"
proof -
  have "r div 256 \<le> 255" "0 \<le> r div 256" "0 \<le> f div 64" "f div 64 \<le> 511" using assms by auto
  then have "r div 256 * (f div 64) \<le> 255 * 511" "0 \<le> r div 256 * (f div 64)"
    by (intro mult_mono mult_nonneg_nonneg; simp)+
  then show ?thesis by (simp add: od_ec_scale_def EC_PROB_SHIFT_def shr_def u32_id)
qed

lemma od_ec_scale_bounds:
  assumes "32768 \<le> r" "r < 65536" "0 \<le> f" "f < 32768"
  shows "0 \<le> od_ec_scale r f" and "od_ec_scale r f + 64 \<le> r"
proof -
  define h where "h = r div 256"
  have h: "128 \<le> h" "h * 256 \<le> r" using assms by (auto simp: h_def)
  have f: "0 \<le> f div 64" "f div 64 \<le> 511" using assms by auto
  define t where "t = h * (f div 64)"
  have "t \<le> h * 511" "0 \<le> t" unfolding t_def using f h by (auto intro!: mult_left_mono)
  moreover have "od_ec_scale r f = t div 2" by (simp add: od_ec_scale_eq assms t_def h_def)
  ultimately show "0 \<le> od_ec_scale r f" "od_ec_scale r f + 64 \<le> r" using h by simp_all
qed

lemma od_ec_scale_mono:
  assumes "32768 \<le> r" "r < 65536" "0 \<le> f" "f \<le> g" "g < 32768"
  shows "od_ec_scale r f \<le> od_ec_scale r g"
proof -
  have "r div 256 * (f div 64) \<le> r div 256 * (g div 64)"
    using assms by (intro mult_left_mono zdiv_mono1) auto
  then show ?thesis using assms by (simp add: od_ec_scale_eq zdiv_mono1)
qed

lemma icdf_range: "wf_icdf icdf n \<Longrightarrow> s < n \<Longrightarrow> 0 \<le> icdf ! s \<and> icdf ! s < 32768"
  by (simp add: wf_icdf_def)

lemma icut_nonneg:
  assumes "32768 \<le> r" "r < 65536" "wf_icdf icdf n" "s < n"
  shows "0 \<le> icut r icdf n s"
  using od_ec_scale_bounds(1) [OF assms(1,2)] icdf_range [OF assms(3,4)] assms(4)
  by (simp add: icut_def EC_MIN_PROB_def)

lemma icut_below:
  assumes "32768 \<le> r" "r < 65536" "wf_icdf icdf n" "s < n"
  shows "icut r icdf n s + 4 \<le> r"
proof -
  have "od_ec_scale r (icdf ! s) + 64 \<le> r"
    using od_ec_scale_bounds(2) [OF assms(1,2)] icdf_range [OF assms(3,4)] by blast
  moreover have "EC_MIN_PROB * (int n - 1 - int s) \<le> 60"
    using assms(3) by (simp add: wf_icdf_def EC_MIN_PROB_def)
  ultimately show ?thesis unfolding icut_def by linarith
qed

lemma icut_step:
  assumes "32768 \<le> r" "r < 65536" "wf_icdf icdf n" "Suc s < n"
  shows "icut r icdf n (Suc s) + 4 \<le> icut r icdf n s"
proof -
  have "icdf ! Suc s \<le> icdf ! s" using assms(3,4) by (auto simp: wf_icdf_def)
  then have "od_ec_scale r (icdf ! Suc s) \<le> od_ec_scale r (icdf ! s)"
    using od_ec_scale_mono [OF assms(1,2)] icdf_range [OF assms(3), of s] icdf_range [OF assms(3,4)]
      assms(4) by simp
  then show ?thesis by (simp add: icut_def EC_MIN_PROB_def)
qed

lemma icut_last:
  assumes "32768 \<le> r" "r < 65536" "wf_icdf icdf n"
  shows "icut r icdf n (n - 1) = 0"
  using assms by (simp add: icut_def wf_icdf_def od_ec_scale_eq of_nat_diff)

lemma icut_hi_gap:
  assumes "32768 \<le> r" "r < 65536" "wf_icdf icdf n" "s < n"
  shows "icut r icdf n s + 4 \<le> icut_hi r icdf n s"
  using icut_below [OF assms] icut_step [OF assms(1-3), of "s - 1"] assms(4)
  by (cases s) (auto simp: icut_hi_def)

lemma icut_hi_le:
  assumes "32768 \<le> r" "r < 65536" "wf_icdf icdf n" "s < n"
  shows "icut_hi r icdf n s \<le> r"
  using icut_below [OF assms(1-3), of "s - 1"] assms(4) by (cases s) (auto simp: icut_hi_def)

lemma icut_mono:
  assumes "32768 \<le> r" "r < 65536" "wf_icdf icdf n"
  shows "s \<le> t \<Longrightarrow> t < n \<Longrightarrow> icut r icdf n t \<le> icut r icdf n s"
proof (induction t rule: dec_induct)
  case (step m)
  then show ?case using icut_step [OF assms, of m] by simp
qed simp

section \<open>One encoding step\<close>

lemma encode_cdf_normalize:
  assumes r: "32768 \<le> enc_rng enc" "enc_rng enc < 65536" and wf: "wf_icdf icdf n" and s: "s < n"
    and low: "0 \<le> enc_low enc" "enc_low enc + enc_rng enc \<le> 2 ^ 64"
  defines "u \<equiv> icut_hi (enc_rng enc) icdf n s" and "v \<equiv> icut (enc_rng enc) icdf n s"
  shows "od_ec_encode_cdf_q15 al enc s icdf n =
    od_ec_enc_normalize al enc (enc_low enc + (enc_rng enc - u)) (u - v)"
proof (cases s)
  case 0
  have "icut (enc_rng enc) icdf n 0 + 4 \<le> enc_rng enc" "0 \<le> icut (enc_rng enc) icdf n 0"
    using icut_below [OF r wf] icut_nonneg [OF r wf] s 0 by auto
  then show ?thesis using r 0
    by (simp add: od_ec_encode_cdf_q15_def od_ec_encode_q15_def OD_ICDF_def CDF_PROB_TOP_def
      u_def v_def icut_hi_def icut_def u32_id Let_def)
next
  case (Suc t)
  then have t: "t < n" using s by simp
  have "icdf ! t < CDF_PROB_TOP" using icdf_range [OF wf t] by (simp add: CDF_PROB_TOP_def)
  moreover have "u = icut (enc_rng enc) icdf n t" using Suc by (simp add: u_def icut_hi_def)
  moreover have "0 \<le> v" "v + 4 \<le> u" "u \<le> enc_rng enc"
    using icut_nonneg [OF r wf s] icut_hi_gap [OF r wf s] icut_hi_le [OF r wf s] by (simp_all add: u_def v_def)
  ultimately show ?thesis using r low Suc
    by (simp add: od_ec_encode_cdf_q15_def od_ec_encode_q15_def v_def icut_def u32_id u64_id Let_def)
qed

lemma encode_cdf_correct:
  assumes al: "\<And>n. alloc_ok al n" and inv: "enc_inv enc E D" and small: "D < 2 ^ 30"
    and wf: "wf_icdf icdf n" and s: "s < n"
  defines "R \<equiv> enc_rng enc"
  defines "u \<equiv> icut_hi R icdf n s" and "v \<equiv> icut R icdf n s"
  defines "d \<equiv> renorm (u - v)"
  shows "\<exists>enc'. od_ec_encode_cdf_q15 al enc s icdf n = Some enc' \<and>
    enc_inv enc' ((E + R - u) * 2 ^ d) (D + d) \<and> enc_rng enc' = (u - v) * 2 ^ d"
proof -
  from inv have R: "32768 \<le> R" "R < 65536" and low: "0 \<le> enc_low enc" "enc_low enc + R \<le> 2 ^ 64"
    using enc_inv_low [OF inv] by (simp_all add: R_def)
  have uv: "0 \<le> v" "v < u" "u \<le> R"
    using icut_nonneg [OF R wf s] icut_hi_gap [OF R wf s] icut_hi_le [OF R wf s] by (simp_all add: u_def v_def)
  show ?thesis
    using enc_normalize_correct [OF al inv small uv [unfolded R_def]]
      encode_cdf_normalize [OF R [unfolded R_def] wf s low [unfolded R_def], of al]
    by (simp add: R_def u_def v_def d_def)
qed

text \<open>A boolean is the two-symbol table \<open>[f, 0]\<close>, to the encoder and to the decoder.\<close>

lemma encode_bool_as_cdf:
  assumes "32768 \<le> enc_rng enc" "enc_rng enc < 65536" "0 \<le> f" "f < 32768"
  shows "od_ec_encode_bool_q15 al enc (b2i b) f = od_ec_encode_cdf_q15 al enc (if b then 1 else 0) [f, 0] 2"
  using od_ec_scale_bounds [OF assms] assms
  by (simp add: od_ec_encode_bool_q15_def od_ec_encode_cdf_q15_def od_ec_encode_q15_def
    OD_ICDF_def CDF_PROB_TOP_def EC_MIN_PROB_def od_ec_scale_eq [of _ 0] u32_id Let_def add.commute [of 4])

lemma decode_bool_as_cdf:
  assumes "32768 \<le> dec_rng dec" "dec_rng dec < 65536" "0 \<le> f" "f < 32768"
    and "0 \<le> dec_dif dec" "dec_dif dec < 4294967296"
  shows "od_ec_decode_cdf_q15 dec [f, 0] 2 = Some (od_ec_decode_bool_q15 dec f)"
proof -
  define v where "v = od_ec_scale (dec_rng dec) f + 4"
  have v: "4 \<le> v" "v + 60 \<le> dec_rng dec" using od_ec_scale_bounds [OF assms(1-4)] by (simp_all add: v_def)
  have le: "dec_dif dec div 65536 < v \<longleftrightarrow> \<not> v * 65536 \<le> dec_dif dec"
    using div_less_int_iff [of 65536 "dec_dif dec" v] by linarith
  have "0 \<le> dec_dif dec div 65536" using assms by simp
  then show ?thesis using v le assms
    by (simp add: od_ec_decode_cdf_q15_def od_ec_decode_bool_q15_def EC_MIN_PROB_def OD_EC_WINDOW_SIZE_def
      shr_def shl_def od_ec_scale_eq [of _ 0] u32_id numeral_2_eq_2 Let_def flip: v_def)
qed

end
