(* ===== verification/Range_Coder_Decoder.thy ===== *)
theory Range_Coder_Decoder
  imports Range_Coder_Models
begin

text \<open>
  Correctness of the range decoder. A byte string is read as a binary fraction;
  \<open>qv bs k\<close> is its first \<open>k\<close> bits as a number, with zero bits after its end. The
  decoder's window holds the distance from that point to the upper end of the current
  interval, so it always finds the unique symbol whose part contains the point, whatever
  the bytes are.
\<close>

definition qv :: "int list \<Rightarrow> nat \<Rightarrow> int" where
  "qv bs k = (bval bs * 2 ^ k) div 2 ^ (8 * length bs)"

lemma div_pow_cancel: "(x * 2 ^ (a + d)) div 2 ^ (b + d) = (x * 2 ^ a) div (2 ^ b :: int)"
  by (simp add: power_add mult.assoc [symmetric])

lemma qv_drop: "qv bs (k + d) div 2 ^ d = qv bs k"
proof -
  have "qv bs (k + d) div 2 ^ d = (bval bs * 2 ^ (k + d)) div 2 ^ (8 * length bs + d)"
    by (simp add: qv_def power_add zdiv_zmult2_eq)
  then show ?thesis by (simp only: div_pow_cancel qv_def)
qed

lemma qv_long: "8 * length bs \<le> k \<Longrightarrow> qv bs k = bval bs * 2 ^ (k - 8 * length bs)"
  using div_pow_cancel [of "bval bs" "k - 8 * length bs" "8 * length bs" 0] by (simp add: qv_def)

lemma bval_take_drop:
  "bval bs = bval (take p bs) * 256 ^ (length bs - p) + bval (drop p bs)"
  using bval_append [of "take p bs" "drop p bs"] by simp

lemma is_bytes_take [simp]: "is_bytes bs \<Longrightarrow> is_bytes (take p bs)"
  by (auto simp: is_bytes_def dest: in_set_takeD)

lemma is_bytes_drop [simp]: "is_bytes bs \<Longrightarrow> is_bytes (drop p bs)"
  by (auto simp: is_bytes_def dest: in_set_dropD)

text \<open>The first \<open>k\<close> bits only depend on the bytes that hold them.\<close>

lemma qv_take:
  assumes "is_bytes bs" "p \<le> length bs" "k \<le> 8 * p"
  shows "qv bs k = bval (take p bs) div 2 ^ (8 * p - k)"
proof -
  define m where "m = length bs - p"
  have len: "8 * length bs = (8 * p - k) + (8 * m + k)" using assms by (simp add: m_def)
  have "0 \<le> bval (drop p bs)" "bval (drop p bs) < 2 ^ (8 * m)"
    using bval_nonneg [of "drop p bs"] bval_less [of "drop p bs"] assms(1) by (simp_all add: pow256 m_def)
  then have "bval bs div 2 ^ (8 * m) = bval (take p bs)"
    by (simp add: bval_take_drop [of bs p] pow256 flip: m_def)
  moreover have "qv bs k = bval bs div 2 ^ (8 * m + (8 * p - k))"
    using div_pow_cancel [of "bval bs" 0 k "8 * m + (8 * p - k)"] len by (simp add: qv_def ac_simps)
  ultimately show ?thesis by (simp add: power_add zdiv_zmult2_eq)
qed

lemma qv_bounds: "is_bytes bs \<Longrightarrow> 0 \<le> qv bs k \<and> qv bs k < 2 ^ k"
  using bval_nonneg [of bs] bval_less [of bs]
  by (simp add: qv_def pow256 pos_imp_zdiv_nonneg_iff div_less_int_iff mult.commute)

section \<open>Refilling the window\<close>

lemma xor_sub:
  fixes k b :: int
  assumes "0 \<le> b" "b < 256"
  shows "(k * 2 ^ (n + 8) - 1) XOR (b * 2 ^ n) = k * 2 ^ (n + 8) - b * 2 ^ n - 1"
proof -
  have "(k * 2 ^ (n + 8) - 1) = NOT (- k * 2 ^ (n + 8))" by (simp add: not_eq_complement)
  moreover have "NOT (- k * 2 ^ (n + 8)) XOR (b * 2 ^ n) = NOT (((- k * 2 ^ 8) XOR b) * 2 ^ n)"
    using push_bit_xor [of n "- k * 2 ^ 8" b]
    by (simp add: push_bit_eq_mult bit.xor_compl_left power_add mult.assoc mult.commute [of 256])
  moreover have "(- k * 2 ^ 8) XOR b = - k * 2 ^ 8 + b"
  proof -
    have "(- k * 2 ^ 8) AND b = 0"
    proof (rule bit_eqI)
      fix i
      have "b = take_bit 8 b" using assms by (simp add: take_bit_int_eq_self)
      then have "bit b i \<longleftrightarrow> i < 8 \<and> bit b i" by (metis bit_take_bit_iff)
      moreover have "bit (- k * 2 ^ 8) i \<Longrightarrow> 8 \<le> i"
        using bit_push_bit_iff [of 8 "- k" i] by (simp add: push_bit_eq_mult)
      ultimately show "bit ((- k * 2 ^ 8) AND b) i = bit (0::int) i" by (auto simp: bit_and_iff)
    qed
    then show ?thesis by (rule disjunctive_add_eq_xor [symmetric])
  qed
  ultimately have "(k * 2 ^ (n + 8) - 1) XOR (b * 2 ^ n) = NOT ((- k * 2 ^ 8 + b) * 2 ^ n)"
    by (simp only:)
  then show ?thesis by (simp add: not_eq_complement power_add algebra_simps)
qed

lemma refill_loop_correct:
  assumes "is_bytes bs" "p \<le> length bs" "2 ^ N dvd T" "N \<le> 31"
    and "0 \<le> T - bval (take p bs) * 2 ^ N - 1"
  shows "\<exists>p' N'. refill_loop bs (int N - 8) (T - bval (take p bs) * 2 ^ N - 1) p (16 - int N) =
      (T - bval (take p' bs) * 2 ^ N' - 1, p', 16 - int N') \<and> p \<le> p' \<and> p' \<le> length bs \<and>
    8 * p' + N' = 8 * p + N \<and> (p' = length bs \<or> N' < 8) \<and> 0 \<le> T - bval (take p' bs) * 2 ^ N' - 1"
  using assms
proof (induction N arbitrary: p rule: less_induct)
  case (less N)
  show ?case
  proof (cases "8 \<le> N \<and> p < length bs")
    case False
    then have "refill_loop bs (int N - 8) (T - bval (take p bs) * 2 ^ N - 1) p (16 - int N) =
      (T - bval (take p bs) * 2 ^ N - 1, p, 16 - int N)"
      by (subst refill_loop.simps) auto
    then show ?thesis using less.prems False by (intro exI [of _ p] exI [of _ N]) auto
  next
    case True
    define M where "M = N - 8"
    have N: "N = M + 8" using True by (simp add: M_def)
    define b where "b = bs ! p"
    have b: "0 \<le> b" "b < 256" using less.prems(1) True by (auto simp: is_bytes_def b_def)
    have tk: "bval (take (Suc p) bs) = bval (take p bs) * 256 + b"
      using True by (simp add: take_Suc_conv_app_nth b_def)
    obtain t where t: "T = t * 2 ^ N" using less.prems(3) by (metis dvd_div_mult_self)
    define x where "x = t - bval (take p bs)"
    have dif: "T - bval (take p bs) * 2 ^ N - 1 = x * 2 ^ (M + 8) - 1"
      by (simp add: x_def t N algebra_simps)
    have "0 < x * 2 ^ N" using less.prems(5) dif by (simp add: N)
    then have x: "1 \<le> x" by (simp add: zero_less_mult_iff)
    have eq: "x * 2 ^ (M + 8) - b * 2 ^ M - 1 = T - bval (take (Suc p) bs) * 2 ^ M - 1"
      by (simp add: tk t N x_def power_add algebra_simps)
    have "(256 - b) * 2 ^ M \<le> x * 2 ^ (M + 8) - b * 2 ^ M"
      using mult_right_mono [OF x, of "2 ^ (M + 8)"] by (simp add: power_add algebra_simps)
    moreover have "0 < (256 - b) * 2 ^ M" using b by simp
    ultimately have nonneg: "0 \<le> T - bval (take (Suc p) bs) * 2 ^ M - 1" using eq by linarith
    have M: "M \<le> 23" using less.prems(4) N by simp
    have "b * 2 ^ M < 256 * 2 ^ M" using b by simp
    also have "(256::int) * 2 ^ M \<le> 2 ^ 32"
      using power_increasing [of "M + 8" 32 "2::int"] M by (simp add: power_add)
    finally have u: "u32 (shl b M) = b * 2 ^ M" using b by (simp add: shl_def u32_id)
    have xor: "(T - bval (take p bs) * 2 ^ N - 1) XOR (b * 2 ^ M) = T - bval (take (Suc p) bs) * 2 ^ M - 1"
      by (simp only: dif xor_sub [OF b] eq)
    have sM: "nat (int N - 8) = M" "s16 (16 - int N + 8) = 16 - int M" "int N - 8 - 8 = int M - 8"
      using N M by (simp_all add: s16_id)
    have step: "refill_loop bs (int N - 8) (T - bval (take p bs) * 2 ^ N - 1) p (16 - int N) =
      refill_loop bs (int M - 8) (T - bval (take (Suc p) bs) * 2 ^ M - 1) (Suc p) (16 - int M)"
      using True by (subst refill_loop.simps) (simp only: sM u xor b_def [symmetric], simp)
    have "2 ^ M dvd T" using less.prems(3) N by (simp add: t power_add)
    then show ?thesis
      using less.IH [of M "Suc p"] less.prems(1) True M nonneg N step by (auto 4 0)
  qed
qed

section \<open>The decoder's invariant\<close>

text \<open>
  \<open>E\<close>, the range and \<open>D\<close> describe the interval as for the encoder. The window is the
  distance to the interval's upper end, less one, at sixteen more bits of precision;
  \<open>cnt\<close> is the number of bits still ahead of the point, or an arbitrary supply of zero
  bits once the buffer is exhausted; \<open>tell_offs\<close> keeps the bit count exact in both cases.
\<close>

definition dec_inv :: "od_ec_dec \<Rightarrow> int list \<Rightarrow> int \<Rightarrow> nat \<Rightarrow> bool" where
  "dec_inv dec bs E D \<longleftrightarrow>
     dec_buf dec = bs \<and> is_bytes bs \<and> 32768 \<le> dec_rng dec \<and> dec_rng dec < 65536 \<and>
     dec_bptr dec \<le> length bs \<and> 8 * dec_bptr dec \<le> 31 + D \<and>
     dec_dif dec = (E + dec_rng dec) * 2 ^ 16 - bval (take (dec_bptr dec) bs) * 2 ^ (31 + D - 8 * dec_bptr dec) - 1 \<and>
     0 \<le> dec_cnt dec \<and> dec_cnt dec \<le> 16384 \<and>
     (dec_cnt dec = 8 * int (dec_bptr dec) - int D - 15 \<or> dec_bptr dec = length bs) \<and>
     dec_tell_offs dec = int D + 1 + dec_cnt dec - 8 * int (dec_bptr dec) \<and>
     E \<le> qv bs (15 + D) \<and> qv bs (15 + D) < E + dec_rng dec"

text \<open>The upper half of the window is the distance to the point, in whole units.\<close>

lemma window_distance:
  assumes "is_bytes bs" "p \<le> length bs" "8 * p \<le> 31 + D" "15 + D \<le> 8 * p \<or> p = length bs"
  shows "(T * 2 ^ 16 - bval (take p bs) * 2 ^ (31 + D - 8 * p) - 1) div 2 ^ 16 = T - 1 - qv bs (15 + D)"
proof -
  define q where "q = qv bs (15 + D)"
  have "\<exists>rem. bval (take p bs) * 2 ^ (31 + D - 8 * p) = q * 2 ^ 16 + rem \<and> 0 \<le> rem \<and> rem < 2 ^ 16"
  proof (cases "15 + D \<le> 8 * p")
    case True
    define m where "m = 8 * p - (15 + D)"
    define X where "X = bval (take p bs)"
    have m: "31 + D - 8 * p = 16 - m" "m \<le> 16" using True assms(3) by (simp_all add: m_def)
    have q: "q = X div 2 ^ m" using qv_take [OF assms(1,2) True] by (simp add: q_def m_def X_def)
    have p: "(2::int) ^ m * 2 ^ (16 - m) = 2 ^ 16" using m by (simp flip: power_add)
    have "X * 2 ^ (16 - m) = (q * 2 ^ m + X mod 2 ^ m) * 2 ^ (16 - m)"
      by (simp only: q div_mult_mod_eq)
    also have "\<dots> = q * 2 ^ 16 + X mod 2 ^ m * 2 ^ (16 - m)"
      using p by (simp only: distrib_right mult.assoc)
    finally have eq: "X * 2 ^ (16 - m) = q * 2 ^ 16 + X mod 2 ^ m * 2 ^ (16 - m)" .
    have "X mod 2 ^ m * 2 ^ (16 - m) < 2 ^ m * 2 ^ (16 - m)" by (intro mult_strict_right_mono) simp_all
    then show ?thesis using eq p m by (intro exI [of _ "X mod 2 ^ m * 2 ^ (16 - m)"]) (simp add: X_def)
  next
    case False
    then have p: "p = length bs" using assms(4) by simp
    have e: "31 + D - 8 * p = (15 + D - 8 * p) + 16" using False by simp
    have "q = bval (take p bs) * 2 ^ (15 + D - 8 * p)"
      using qv_long [of bs "15 + D"] False p by (simp add: q_def)
    then show ?thesis unfolding e power_add by (intro exI [of _ 0]) simp
  qed
  then obtain rem where rem: "bval (take p bs) * 2 ^ (31 + D - 8 * p) = q * 2 ^ 16 + rem" "0 \<le> rem" "rem < 2 ^ 16"
    by blast
  have "T * 2 ^ 16 - (q * 2 ^ 16 + rem) - 1 = (T - 1 - q) * 2 ^ 16 + (2 ^ 16 - 1 - rem)" by simp
  then show ?thesis unfolding rem(1) q_def [symmetric] using rem(2,3) by simp
qed

lemma dec_inv_window:
  assumes "dec_inv dec bs E D"
  shows "dec_dif dec div 2 ^ 16 = E + dec_rng dec - 1 - qv bs (15 + D)"
    and "0 \<le> dec_dif dec" "dec_dif dec < 2 ^ 32"
proof -
  show d: "dec_dif dec div 2 ^ 16 = E + dec_rng dec - 1 - qv bs (15 + D)"
    using window_distance [of bs "dec_bptr dec" D "E + dec_rng dec"] assms
    by (auto simp: dec_inv_def)
  have "0 \<le> dec_dif dec div 2 ^ 16" "dec_dif dec div 2 ^ 16 < 65536"
    using assms unfolding d dec_inv_def by linarith+
  then show "0 \<le> dec_dif dec" "dec_dif dec < 2 ^ 32"
    by (simp_all add: pos_imp_zdiv_nonneg_iff div_less_int_iff)
qed

text \<open>Refilling keeps the point and restores the supply of bits.\<close>

lemma dec_refill_correct:
  assumes "is_bytes (dec_buf dec)" "dec_bptr dec \<le> length (dec_buf dec)"
    and "2 ^ N dvd T" "N \<le> 31" "8 * dec_bptr dec + N = 31 + D"
    and "dec_dif dec = T - bval (take (dec_bptr dec) (dec_buf dec)) * 2 ^ N - 1" "0 \<le> dec_dif dec"
    and "dec_cnt dec = 16 - int N" "dec_tell_offs dec = int D + 1 + dec_cnt dec - 8 * int (dec_bptr dec)"
    and "D < 2 ^ 30"
  defines "dec' \<equiv> od_ec_dec_refill dec"
  shows "dec_buf dec' = dec_buf dec \<and> dec_rng dec' = dec_rng dec \<and> dec_bptr dec' \<le> length (dec_buf dec) \<and>
    8 * dec_bptr dec' \<le> 31 + D \<and>
    dec_dif dec' = T - bval (take (dec_bptr dec') (dec_buf dec)) * 2 ^ (31 + D - 8 * dec_bptr dec') - 1 \<and>
    0 \<le> dec_cnt dec' \<and> dec_cnt dec' \<le> 16384 \<and>
    (dec_cnt dec' = 8 * int (dec_bptr dec') - int D - 15 \<or> dec_bptr dec' = length (dec_buf dec)) \<and>
    dec_tell_offs dec' = int D + 1 + dec_cnt dec' - 8 * int (dec_bptr dec')"
proof -
  obtain p' N' where l: "refill_loop (dec_buf dec) (int N - 8) (dec_dif dec) (dec_bptr dec) (16 - int N) =
      (T - bval (take p' (dec_buf dec)) * 2 ^ N' - 1, p', 16 - int N')"
    "dec_bptr dec \<le> p'" "p' \<le> length (dec_buf dec)" "8 * p' + N' = 8 * dec_bptr dec + N"
    "p' = length (dec_buf dec) \<or> N' < 8"
    using refill_loop_correct [OF assms(1-4), folded assms(6), OF assms(7)] by blast
  have N': "N' = 31 + D - 8 * p'" using l(4) assms(5) by simp
  have s: "OD_EC_WINDOW_SIZE - 9 - (dec_cnt dec + 15) = int N - 8"
    using assms(8) by (simp add: OD_EC_WINDOW_SIZE_def)
  have eq: "dec' = (if p' \<ge> length (dec_buf dec)
         then dec\<lparr>dec_tell_offs := s32 (dec_tell_offs dec + (OD_EC_LOTS_OF_BITS - (16 - int N'))),
                  dec_dif := T - bval (take p' (dec_buf dec)) * 2 ^ N' - 1, dec_cnt := OD_EC_LOTS_OF_BITS, dec_bptr := p'\<rparr>
         else dec\<lparr>dec_dif := T - bval (take p' (dec_buf dec)) * 2 ^ N' - 1, dec_cnt := 16 - int N', dec_bptr := p'\<rparr>)"
    unfolding dec'_def od_ec_dec_refill_def Let_def s l(1) [folded assms(8)] assms(8) [symmetric]
    using l(1) assms(8) by simp
  have tell: "dec_tell_offs dec + (OD_EC_LOTS_OF_BITS - (16 - int N')) = int D + 1 + 16384 - 8 * int p'"
    using assms(8,9) l(4) by (simp add: OD_EC_LOTS_OF_BITS_def) 
  have "8 * p' \<le> 31 + D" using l(4) assms(5) by simp
  then have "s32 (int D + 1 + 16384 - 8 * int p') = int D + 1 + 16384 - 8 * int p'"
    using assms(10) by (intro s32_id) simp_all
  then show ?thesis
    unfolding eq tell using l(3,4,5) N' assms(5,8,9) \<open>8 * p' \<le> 31 + D\<close>
    by (auto simp: OD_EC_LOTS_OF_BITS_def)
qed

lemma dec_init_inv:
  assumes "is_bytes bs"
  shows "dec_inv (od_ec_dec_init bs) bs 0 0" and "dec_rng (od_ec_dec_init bs) = 32768"
proof -
  let ?dec = "\<lparr>dec_buf = bs, dec_tell_offs = 10 - (OD_EC_WINDOW_SIZE - 8), dec_bptr = 0,
        dec_dif = u32 (shl 1 (nat (OD_EC_WINDOW_SIZE - 1))) - 1, dec_rng = 32768, dec_cnt = -15\<rparr>"
  have "0 \<le> qv bs 15 \<and> qv bs 15 < 32768" using qv_bounds [OF assms, of 15] by simp
  then show "dec_inv (od_ec_dec_init bs) bs 0 0" "dec_rng (od_ec_dec_init bs) = 32768"
    using dec_refill_correct [of ?dec 31 "2 ^ 31" 0] assms
    by (auto simp: dec_inv_def od_ec_dec_init_def OD_EC_WINDOW_SIZE_def shl_def u32_def)
qed

text \<open>
  Once a symbol's part \<open>(v, u)\<close> is known to hold the point, renormalising moves to that
  part, refilling the window when it runs short.
\<close>

lemma refill_at_end:
  assumes "dec_bptr dec = length (dec_buf dec)"
  shows "od_ec_dec_refill dec =
    dec\<lparr>dec_tell_offs := s32 (dec_tell_offs dec + (OD_EC_LOTS_OF_BITS - dec_cnt dec)), dec_cnt := OD_EC_LOTS_OF_BITS\<rparr>"
  using assms by (simp add: od_ec_dec_refill_def refill_loop.simps Let_def)

lemma qv_narrow:
  assumes "a \<le> qv bs k" "qv bs k < b"
  shows "a * 2 ^ d \<le> qv bs (k + d)" "qv bs (k + d) < b * 2 ^ d"
  using assms le_div_int_iff [of "2 ^ d" a "qv bs (k + d)"] div_less_int_iff [of "2 ^ d" "qv bs (k + d)" b]
  by (simp_all add: qv_drop)

lemma dec_normalize_correct:
  assumes inv: "dec_inv dec bs E D" and small: "D + 15 < 2 ^ 30" and uv: "0 \<le> v" "v < u" "u \<le> dec_rng dec"
    and q: "E + dec_rng dec - u \<le> qv bs (15 + D)" "qv bs (15 + D) < E + dec_rng dec - v"
  defines "R \<equiv> dec_rng dec" and "d \<equiv> renorm (u - v)"
  shows "\<exists>dec'. od_ec_dec_normalize dec (dec_dif dec - v * 2 ^ 16) (u - v) ret = (ret, dec') \<and>
    dec_inv dec' bs ((E + R - u) * 2 ^ d) (D + d) \<and> dec_rng dec' = (u - v) * 2 ^ d"
proof -
  define r where "r = u - v"
  define p where "p = dec_bptr dec"
  define T where "T = (E + R - v) * 2 ^ d * 2 ^ 16"
  define N where "N = 31 + (D + d) - 8 * p"
  have R: "32768 \<le> R" "R < 65536" using inv by (simp_all add: dec_inv_def R_def)
  have r: "0 < r" "r < 65536" using uv R by (simp_all add: r_def R_def)
  have d: "16 - OD_ILOG_NZ r = int d" "d \<le> 15" "32768 \<le> r * 2 ^ d" "r * 2 ^ d < 65536"
    using renorm_props [OF r] by (simp_all add: d_def r_def)
  have w: "dec_dif dec div 65536 = E + R - 1 - qv bs (15 + D)"
    using dec_inv_window(1) [OF inv] by (simp add: R_def)
  then have "v \<le> dec_dif dec div 65536" "dec_dif dec div 65536 < u" using q by (simp_all add: R_def)
  then have dif: "v * 65536 \<le> dec_dif dec" "dec_dif dec < u * 65536"
    by (simp_all add: le_div_int_iff div_less_int_iff)
  define w1 where "w1 = dec_dif dec - v * 65536 + 1"
  have w1: "0 < w1" "w1 \<le> r * 65536" using dif by (simp_all add: w1_def r_def)
  then have "w1 * 2 ^ d \<le> r * 65536 * 2 ^ d" by (intro mult_right_mono) simp_all
  also have "\<dots> = r * 2 ^ d * 65536" by simp
  finally have w2: "w1 * 2 ^ d < 4294967296" "0 < w1 * 2 ^ d" using d(4) w1 by (linarith, simp)
  have "w1 < 4294967296" using w1 r by simp
  then have wrap: "u32 (u32 (shl (u32 w1) d) - 1) = w1 * 2 ^ d - 1"
    using w1 w2 by (simp add: u32_id shl_def)
  have p: "p \<le> length bs" "8 * p \<le> 31 + D" and isb: "is_bytes bs"
    using inv by (simp_all add: dec_inv_def p_def)
  have dif1: "w1 * 2 ^ d - 1 = T - bval (take p bs) * 2 ^ N - 1"
  proof -
    have "N = (31 + D - 8 * p) + d" using p by (simp add: N_def)
    then have N: "(2::int) ^ N = 2 ^ (31 + D - 8 * p) * 2 ^ d" by (simp add: power_add)
    have w: "w1 = (E + R - v) * 65536 - bval (take p bs) * 2 ^ (31 + D - 8 * p)"
      using inv by (simp add: dec_inv_def w1_def p_def R_def algebra_simps)
    show ?thesis unfolding w T_def N by (simp add: algebra_simps)
  qed
  define dec1 where "dec1 = dec\<lparr>dec_cnt := dec_cnt dec - int d, dec_dif := w1 * 2 ^ d - 1, dec_rng := r * 2 ^ d\<rparr>"
  have cnt: "0 \<le> dec_cnt dec" "dec_cnt dec \<le> 16384" using inv by (simp_all add: dec_inv_def)
  have norm: "od_ec_dec_normalize dec (dec_dif dec - v * 2 ^ 16) r ret =
      (ret, if dec_cnt dec1 < 0 then od_ec_dec_refill dec1 else dec1)"
    using d cnt wrap unfolding w1_def
    by (simp add: od_ec_dec_normalize_def Let_def dec1_def w1_def shl_def [of r] u16_id s16_id)
  have q': "(E + R - u) * 2 ^ d \<le> qv bs (15 + (D + d))"
    "qv bs (15 + (D + d)) < (E + R - u) * 2 ^ d + r * 2 ^ d"
    using qv_narrow [OF q, of d] by (simp_all add: R_def r_def algebra_simps)
  have T: "((E + R - u) * 2 ^ d + r * 2 ^ d) * 2 ^ 16 = T" by (simp add: T_def r_def algebra_simps)
  let ?dec' = "if dec_cnt dec1 < 0 then od_ec_dec_refill dec1 else dec1"
  have inv1: "dec_cnt dec = 8 * int p - int D - 15 \<or> p = length bs" "dec_buf dec = bs"
    "dec_tell_offs dec = int D + 1 + dec_cnt dec - 8 * int p"
    using inv by (simp_all add: dec_inv_def p_def)
  have dec1: "dec_buf dec1 = bs" "dec_bptr dec1 = p" "dec_rng dec1 = r * 2 ^ d"
    "dec_dif dec1 = T - bval (take p bs) * 2 ^ N - 1" "dec_cnt dec1 = dec_cnt dec - int d"
    "dec_tell_offs dec1 = int (D + d) + 1 + dec_cnt dec1 - 8 * int p"
    using inv1 dif1 by (simp_all add: dec1_def p_def)
  have d0: "0 \<le> dec_dif dec1" using w2 by (simp add: dec1_def)
  consider "0 \<le> dec_cnt dec1" | "dec_cnt dec1 < 0" "p = length bs"
    | "dec_cnt dec1 < 0" "dec_cnt dec = 8 * int p - int D - 15" using inv1(1) by linarith
  then have "dec_inv ?dec' bs ((E + R - u) * 2 ^ d) (D + d) \<and> dec_rng ?dec' = r * 2 ^ d"
  proof cases
    case 1
    then show ?thesis using dec1 isb p d q' cnt inv1 T by (auto simp: dec_inv_def N_def)
  next
    case 2
    have "s32 (dec_tell_offs dec1 + (OD_EC_LOTS_OF_BITS - dec_cnt dec1)) = int (D + d) + 1 + 16384 - 8 * int p"
      using dec1(6) small d(2) p(2) by (simp add: OD_EC_LOTS_OF_BITS_def s32_id)
    then show ?thesis using 2 dec1 isb p d q' T refill_at_end [of dec1]
      by (auto simp: dec_inv_def N_def OD_EC_LOTS_OF_BITS_def)
  next
    case 3
    have N: "dec_cnt dec1 = 16 - int N" "N \<le> 31" "N \<le> 16 + d" "8 * p + N = 31 + (D + d)"
      using 3 p d(2) cnt dec1(5) by (simp_all add: N_def of_nat_diff)
    have "T = (E + R - v) * 2 ^ (16 + d)" by (simp add: T_def power_add)
    then have "2 ^ N dvd T" using le_imp_power_dvd [OF N(3), of "2::int"] by (simp add: dvd_mult)
    then show ?thesis
      using dec_refill_correct [of dec1 N T "D + d"] 3 dec1 isb p N d q' d0 T small
      by (simp add: dec_inv_def)
  qed
  then show ?thesis using norm by (auto simp: r_def)
qed

section \<open>Finding the symbol\<close>

lemma decode_cdf_loop_correct:
  assumes r: "32768 \<le> r" "r < 65536" and wf: "wf_icdf icdf n" and c: "0 \<le> c"
  shows "t < n \<Longrightarrow> n - t \<le> fuel \<Longrightarrow> c < icut_hi r icdf n t \<Longrightarrow>
    \<exists>s < n. decode_cdf_loop fuel icdf (int n - 1) r c (icut_hi r icdf n t) t =
      Some (icut_hi r icdf n s, icut r icdf n s, s) \<and> icut r icdf n s \<le> c \<and> c < icut_hi r icdf n s"
proof (induction fuel arbitrary: t)
  case (Suc fuel)
  have u: "u32 (od_ec_scale r (icdf ! t) + EC_MIN_PROB * (int n - 1 - int t)) = icut r icdf n t"
    using icut_nonneg [OF r wf Suc.prems(1)] icut_below [OF r wf Suc.prems(1)] r
    by (simp add: icut_def u32_id)
  show ?case
  proof (cases "c < icut r icdf n t")
    case True
    with c icut_last [OF r wf] Suc.prems(1) have "Suc t < n"
      by (metis Suc_lessI diff_Suc_1 not_less)
    with Suc.IH [of "Suc t"] Suc.prems True show ?thesis
      by (simp add: u Let_def icut_hi_def)
  next
    case False
    then show ?thesis using Suc.prems by (auto simp: u Let_def)
  qed
qed simp

definition in_part :: "int \<Rightarrow> int \<Rightarrow> int \<Rightarrow> int list \<Rightarrow> nat \<Rightarrow> nat \<Rightarrow> bool" where
  "in_part q E r icdf n s \<longleftrightarrow> s < n \<and> E + r - icut_hi r icdf n s \<le> q \<and> q < E + r - icut r icdf n s"

lemma in_part_unique:
  assumes r: "32768 \<le> r" "r < 65536" and wf: "wf_icdf icdf n"
    and "in_part q E r icdf n s" "in_part q E r icdf n t"
  shows "s = t"
proof (rule ccontr)
  have less: False if "a < b" "in_part q E r icdf n a" "in_part q E r icdf n b" for a b
  proof -
    have "a \<le> b - 1" "b - 1 < n" using that by (auto simp: in_part_def)
    then have "icut_hi r icdf n b \<le> icut r icdf n a"
      using that icut_mono [OF r wf, of a "b - 1"] by (simp add: in_part_def icut_hi_def)
    then show False using that by (simp add: in_part_def)
  qed
  assume "s \<noteq> t"
  then show False using less assms(4,5) by (metis linorder_neqE_nat)
qed

lemma decode_cdf_correct:
  assumes inv: "dec_inv dec bs E D" and small: "D + 15 < 2 ^ 30" and wf: "wf_icdf icdf n"
  defines "R \<equiv> dec_rng dec"
  shows "\<exists>s dec'. od_ec_decode_cdf_q15 dec icdf n = Some (int s, dec') \<and>
    in_part (qv bs (15 + D)) E R icdf n s \<and>
    dec_inv dec' bs ((E + R - icut_hi R icdf n s) * 2 ^ renorm (icut_hi R icdf n s - icut R icdf n s))
      (D + renorm (icut_hi R icdf n s - icut R icdf n s)) \<and>
    dec_rng dec' = (icut_hi R icdf n s - icut R icdf n s) * 2 ^ renorm (icut_hi R icdf n s - icut R icdf n s)"
proof -
  have R: "32768 \<le> R" "R < 65536" using inv by (simp_all add: dec_inv_def R_def)
  define c where "c = dec_dif dec div 2 ^ 16"
  have c: "c = E + R - 1 - qv bs (15 + D)" using dec_inv_window(1) [OF inv] by (simp add: c_def R_def)
  have cR: "0 \<le> c" "c < R" using inv unfolding c by (auto simp: dec_inv_def R_def)
  have n: "0 < n" "n \<le> length icdf" using wf by (simp_all add: wf_icdf_def)
  obtain s where s: "s < n" "decode_cdf_loop (length icdf) icdf (int n - 1) R c R 0 =
      Some (icut_hi R icdf n s, icut R icdf n s, s)" "icut R icdf n s \<le> c" "c < icut_hi R icdf n s"
    using decode_cdf_loop_correct [OF R wf cR(1), of 0 "length icdf"] n cR by (auto simp: icut_hi_def)
  define u where "u = icut_hi R icdf n s"
  define v where "v = icut R icdf n s"
  have uv: "0 \<le> v" "v < u" "u \<le> R"
    using icut_nonneg [OF R wf s(1)] icut_hi_gap [OF R wf s(1)] icut_hi_le [OF R wf s(1)]
    by (simp_all add: u_def v_def)
  have part: "E + R - u \<le> qv bs (15 + D)" "qv bs (15 + D) < E + R - v"
    using s(3,4) by (simp_all add: c u_def v_def)
  have dif: "v * 65536 \<le> dec_dif dec" "dec_dif dec < 4294967296"
    using s(3) dec_inv_window(3) [OF inv] by (simp_all add: c_def v_def le_div_int_iff)
  have "od_ec_decode_cdf_q15 dec icdf n =
      Some (od_ec_dec_normalize dec (dec_dif dec - v * 2 ^ 16) (u - v) (int s))"
    using s(2) uv R dif
    by (simp add: od_ec_decode_cdf_q15_def Let_def OD_EC_WINDOW_SIZE_def shr_def shl_def u32_id
      flip: R_def u_def v_def) (simp add: c_def u_def v_def u32_id)
  moreover obtain dec' where "od_ec_dec_normalize dec (dec_dif dec - v * 2 ^ 16) (u - v) (int s) = (int s, dec')"
    "dec_inv dec' bs ((E + R - u) * 2 ^ renorm (u - v)) (D + renorm (u - v))"
    "dec_rng dec' = (u - v) * 2 ^ renorm (u - v)"
    using dec_normalize_correct [OF inv small uv(1,2) uv(3) [unfolded R_def] part [unfolded R_def], of "int s"]
    by (auto simp: R_def)
  moreover have "in_part (qv bs (15 + D)) E R icdf n s" using part s(1) by (simp add: in_part_def u_def v_def)
  ultimately show ?thesis by (intro exI [of _ s]) (simp add: u_def v_def)
qed

end
