(* ===== verification/Range_Coder_Roundtrip.thy ===== *)
theory Range_Coder_Roundtrip
  imports Range_Coder_Decoder
begin

text \<open>
  Whole streams. A tile codes a sequence of symbols; the model each symbol is coded with
  may depend on all the symbols before it (this is what adaptive probabilities amount to).
  \<open>\<sigma>\<close> is that choice of models. The theorems say that what \<open>od_ec_enc_done\<close> returns
  decodes to the symbols encoded, with both sides agreeing on the bit count, that decoding
  arbitrary bytes is safe and total, and how an allocation failure surfaces.
\<close>

datatype ec_model = Model_bool int | Model_cdf "int list" nat

fun wf_model :: "ec_model \<Rightarrow> bool" where
  "wf_model (Model_bool f) \<longleftrightarrow> 0 < f \<and> f < 32768"
| "wf_model (Model_cdf icdf n) \<longleftrightarrow> wf_icdf icdf n"

fun model_syms :: "ec_model \<Rightarrow> nat" where
  "model_syms (Model_bool f) = 2"
| "model_syms (Model_cdf icdf n) = n"

fun encode_symbol :: "allocator \<Rightarrow> od_ec_enc \<Rightarrow> ec_model \<Rightarrow> nat \<Rightarrow> od_ec_enc option" where
  "encode_symbol al enc (Model_bool f) s = od_ec_encode_bool_q15 al enc (int s) f"
| "encode_symbol al enc (Model_cdf icdf n) s = od_ec_encode_cdf_q15 al enc s icdf n"

fun decode_symbol :: "od_ec_dec \<Rightarrow> ec_model \<Rightarrow> (int \<times> od_ec_dec) option" where
  "decode_symbol dec (Model_bool f) = Some (od_ec_decode_bool_q15 dec f)"
| "decode_symbol dec (Model_cdf icdf n) = od_ec_decode_cdf_q15 dec icdf n"

fun encode_run ::
  "allocator \<Rightarrow> (nat list \<Rightarrow> ec_model) \<Rightarrow> nat list \<Rightarrow> od_ec_enc \<Rightarrow> nat list \<Rightarrow> od_ec_enc option" where
  "encode_run al \<sigma> hist enc [] = Some enc"
| "encode_run al \<sigma> hist enc (s # ss) =
     do { enc \<leftarrow> encode_symbol al enc (\<sigma> hist) s; encode_run al \<sigma> (hist @ [s]) enc ss }"

fun decode_run ::
  "(nat list \<Rightarrow> ec_model) \<Rightarrow> nat list \<Rightarrow> od_ec_dec \<Rightarrow> nat \<Rightarrow> (nat list \<times> od_ec_dec) option" where
  "decode_run \<sigma> hist dec 0 = Some ([], dec)"
| "decode_run \<sigma> hist dec (Suc n) =
     do { (s, dec) \<leftarrow> decode_symbol dec (\<sigma> hist);
          (ss, dec) \<leftarrow> decode_run \<sigma> (hist @ [nat s]) dec n;
          Some (nat s # ss, dec) }"

fun valid_symbols :: "(nat list \<Rightarrow> ec_model) \<Rightarrow> nat list \<Rightarrow> nat list \<Rightarrow> bool" where
  "valid_symbols \<sigma> hist [] \<longleftrightarrow> True"
| "valid_symbols \<sigma> hist (s # ss) \<longleftrightarrow> s < model_syms (\<sigma> hist) \<and> valid_symbols \<sigma> (hist @ [s]) ss"

section \<open>One symbol, through either interface\<close>

text \<open>The table a model stands for, and the interval after coding a symbol with it.\<close>

fun model_icdf :: "ec_model \<Rightarrow> int list" where
  "model_icdf (Model_bool f) = [f, 0]"
| "model_icdf (Model_cdf icdf n) = icdf"

lemma wf_model_icdf: "wf_model m \<Longrightarrow> wf_icdf (model_icdf m) (model_syms m)"
  by (cases m) (auto simp: wf_icdf_def less_Suc_eq numeral_2_eq_2)

definition part_width :: "int \<Rightarrow> ec_model \<Rightarrow> nat \<Rightarrow> int" where
  "part_width R m s = icut_hi R (model_icdf m) (model_syms m) s - icut R (model_icdf m) (model_syms m) s"

definition part_low :: "int \<Rightarrow> int \<Rightarrow> ec_model \<Rightarrow> nat \<Rightarrow> int" where
  "part_low E R m s = E + R - icut_hi R (model_icdf m) (model_syms m) s"

lemma encode_symbol_correct:
  assumes "\<And>n. alloc_ok al n" "enc_inv enc E D" "D < 2 ^ 30" "wf_model m" "s < model_syms m"
  defines "w \<equiv> part_width (enc_rng enc) m s"
  shows "\<exists>enc'. encode_symbol al enc m s = Some enc' \<and>
    enc_inv enc' (part_low E (enc_rng enc) m s * 2 ^ renorm w) (D + renorm w) \<and>
    enc_rng enc' = w * 2 ^ renorm w"
proof -
  have "encode_symbol al enc m s = od_ec_encode_cdf_q15 al enc s (model_icdf m) (model_syms m)"
  proof (cases m)
    case (Model_bool f)
    then show ?thesis
      using encode_bool_as_cdf [of enc f al "s = 1"] enc_inv_low [OF assms(2)] assms(4,5)
        less_2_cases [of s] by auto
  qed simp
  then show ?thesis
    using encode_cdf_correct [OF assms(1-3) wf_model_icdf [OF assms(4)] assms(5)]
    by (simp add: w_def part_width_def part_low_def)
qed

lemma decode_symbol_correct:
  assumes "dec_inv dec bs E D" "D + 15 < 2 ^ 30" "wf_model m"
  shows "\<exists>s dec'. decode_symbol dec m = Some (int s, dec') \<and> s < model_syms m \<and>
    part_low E (dec_rng dec) m s \<le> qv bs (15 + D) \<and>
    qv bs (15 + D) < part_low E (dec_rng dec) m s + part_width (dec_rng dec) m s \<and>
    dec_inv dec' bs (part_low E (dec_rng dec) m s * 2 ^ renorm (part_width (dec_rng dec) m s))
      (D + renorm (part_width (dec_rng dec) m s)) \<and>
    dec_rng dec' = part_width (dec_rng dec) m s * 2 ^ renorm (part_width (dec_rng dec) m s)"
proof -
  have "decode_symbol dec m = od_ec_decode_cdf_q15 dec (model_icdf m) (model_syms m)"
  proof (cases m)
    case (Model_bool f)
    then show ?thesis
      using decode_bool_as_cdf [of dec f] dec_inv_window(2,3) [OF assms(1)] assms(1,3)
      by (simp add: dec_inv_def)
  qed simp
  then show ?thesis
    using decode_cdf_correct [OF assms(1,2) wf_model_icdf [OF assms(3)]]
    by (auto simp: part_width_def part_low_def in_part_def)
qed

lemma decode_symbol_is:
  assumes "dec_inv dec bs E D" "D + 15 < 2 ^ 30" "wf_model m" "s < model_syms m"
    and "part_low E (dec_rng dec) m s \<le> qv bs (15 + D)"
    and "qv bs (15 + D) < part_low E (dec_rng dec) m s + part_width (dec_rng dec) m s"
  defines "w \<equiv> part_width (dec_rng dec) m s"
  shows "\<exists>dec'. decode_symbol dec m = Some (int s, dec') \<and>
    dec_inv dec' bs (part_low E (dec_rng dec) m s * 2 ^ renorm w) (D + renorm w) \<and>
    dec_rng dec' = w * 2 ^ renorm w"
proof -
  have R: "32768 \<le> dec_rng dec" "dec_rng dec < 65536" using assms(1) by (simp_all add: dec_inv_def)
  obtain t dec' where t: "decode_symbol dec m = Some (int t, dec')" "t < model_syms m"
    "part_low E (dec_rng dec) m t \<le> qv bs (15 + D)"
    "qv bs (15 + D) < part_low E (dec_rng dec) m t + part_width (dec_rng dec) m t"
    "dec_inv dec' bs (part_low E (dec_rng dec) m t * 2 ^ renorm (part_width (dec_rng dec) m t))
      (D + renorm (part_width (dec_rng dec) m t))"
    "dec_rng dec' = part_width (dec_rng dec) m t * 2 ^ renorm (part_width (dec_rng dec) m t)"
    using decode_symbol_correct [OF assms(1-3)] by blast
  have "s = t"
    using in_part_unique [OF R wf_model_icdf [OF assms(3)], of "qv bs (15 + D)" E s t] assms(4-6) t(2-4)
    by (simp add: in_part_def part_low_def part_width_def)
  then show ?thesis using t by (simp add: w_def)
qed

lemma part_inside:
  assumes "32768 \<le> R" "R < 65536" "wf_model m" "s < model_syms m"
  shows "E \<le> part_low E R m s" "part_low E R m s + part_width R m s \<le> E + R" "0 < part_width R m s"
    "part_width R m s \<le> R"
  using icut_nonneg [OF assms(1,2) wf_model_icdf [OF assms(3)] assms(4)]
    icut_hi_gap [OF assms(1,2) wf_model_icdf [OF assms(3)] assms(4)]
    icut_hi_le [OF assms(1,2) wf_model_icdf [OF assms(3)] assms(4)]
  by (simp_all add: part_low_def part_width_def)

section \<open>Whole runs\<close>

text \<open>
  The interval after a run, and that any point of it leads the decoder through the same
  symbols.
\<close>

lemma run_correct:
  assumes al: "\<And>n. alloc_ok al n" and wf: "\<And>h. wf_model (\<sigma> h)"
  shows "enc_inv enc E D \<Longrightarrow> valid_symbols \<sigma> hist ss \<Longrightarrow> D + 15 * length ss < 2 ^ 30 \<Longrightarrow>
    \<exists>enc' E' D'. encode_run al \<sigma> hist enc ss = Some enc' \<and> enc_inv enc' E' D' \<and> D' \<le> D + 15 * length ss \<and>
      (\<forall>bs. E' \<le> qv bs (15 + D') \<and> qv bs (15 + D') < E' + enc_rng enc' \<longrightarrow>
        E \<le> qv bs (15 + D) \<and> qv bs (15 + D) < E + enc_rng enc \<and>
        (\<forall>dec. dec_inv dec bs E D \<and> dec_rng dec = enc_rng enc \<longrightarrow>
          (\<exists>dec'. decode_run \<sigma> hist dec (length ss) = Some (ss, dec') \<and>
            dec_inv dec' bs E' D' \<and> dec_rng dec' = enc_rng enc')))"
proof (induction ss arbitrary: hist enc E D)
  case (Cons s ss)
  define R where "R = enc_rng enc"
  define w where "w = part_width R (\<sigma> hist) s"
  define d where "d = renorm w"
  define L where "L = part_low E R (\<sigma> hist) s"
  have s: "s < model_syms (\<sigma> hist)" using Cons.prems(2) by simp
  have R: "32768 \<le> R" "R < 65536" using enc_inv_low [OF Cons.prems(1)] by (simp_all add: R_def)
  have inside: "E \<le> L" "L + w \<le> E + R" "0 < w" "w \<le> R"
    using part_inside [OF R wf s] by (simp_all add: L_def w_def)
  have d: "d \<le> 15" using renorm_props(2) [of w] inside R by (simp add: d_def)
  obtain enc1 where enc1: "encode_symbol al enc (\<sigma> hist) s = Some enc1"
    "enc_inv enc1 (L * 2 ^ d) (D + d)" "enc_rng enc1 = w * 2 ^ d"
    using encode_symbol_correct [OF al Cons.prems(1) _ wf s] Cons.prems(3)
    by (auto simp: L_def w_def d_def R_def)
  obtain enc' E' D' where run: "encode_run al \<sigma> (hist @ [s]) enc1 ss = Some enc'" "enc_inv enc' E' D'"
    "D' \<le> D + d + 15 * length ss"
    and dec: "\<And>bs. E' \<le> qv bs (15 + D') \<Longrightarrow> qv bs (15 + D') < E' + enc_rng enc' \<Longrightarrow>
        L * 2 ^ d \<le> qv bs (15 + (D + d)) \<and> qv bs (15 + (D + d)) < L * 2 ^ d + w * 2 ^ d \<and>
        (\<forall>dec. dec_inv dec bs (L * 2 ^ d) (D + d) \<and> dec_rng dec = w * 2 ^ d \<longrightarrow>
          (\<exists>dec'. decode_run \<sigma> (hist @ [s]) dec (length ss) = Some (ss, dec') \<and>
            dec_inv dec' bs E' D' \<and> dec_rng dec' = enc_rng enc'))"
    using Cons.IH [OF enc1(2), of "hist @ [s]"] Cons.prems(2,3) d enc1(3) by auto
  have "E \<le> qv bs (15 + D) \<and> qv bs (15 + D) < E + R \<and>
      (\<forall>dec. dec_inv dec bs E D \<and> dec_rng dec = R \<longrightarrow>
        (\<exists>dec'. decode_run \<sigma> hist dec (length (s # ss)) = Some (s # ss, dec') \<and>
          dec_inv dec' bs E' D' \<and> dec_rng dec' = enc_rng enc'))"
    if q: "E' \<le> qv bs (15 + D')" "qv bs (15 + D') < E' + enc_rng enc'" for bs
  proof -
    have "L * 2 ^ d \<le> qv bs (15 + D + d)" "qv bs (15 + D + d) < (L + w) * 2 ^ d"
      using dec [OF q] by (simp_all add: add.assoc distrib_right)
    then have "L \<le> qv bs (15 + D + d) div 2 ^ d" "qv bs (15 + D + d) div 2 ^ d < L + w"
      by (simp_all add: le_div_int_iff div_less_int_iff)
    then have part: "L \<le> qv bs (15 + D)" "qv bs (15 + D) < L + w" by (simp_all only: qv_drop)
    have "\<exists>dec'. decode_run \<sigma> hist dec0 (length (s # ss)) = Some (s # ss, dec') \<and>
          dec_inv dec' bs E' D' \<and> dec_rng dec' = enc_rng enc'"
      if d0: "dec_inv dec0 bs E D" "dec_rng dec0 = R" for dec0
    proof -
      obtain dec1 where "decode_symbol dec0 (\<sigma> hist) = Some (int s, dec1)"
        "dec_inv dec1 bs (L * 2 ^ d) (D + d)" "dec_rng dec1 = w * 2 ^ d"
        using decode_symbol_is [OF d0(1) _ wf s] part Cons.prems(3) d0(2)
        by (auto simp: L_def w_def d_def)
      then show ?thesis using dec [OF q] by auto
    qed
    then show ?thesis using part inside by auto
  qed
  then show ?case using run enc1(1) d unfolding R_def
    by (intro exI [of _ enc'] exI [of _ E'] exI [of _ D']) auto
qed (auto intro!: exI)

lemma enc_tell_bits: "enc_inv enc E D \<Longrightarrow> D < 2 ^ 30 \<Longrightarrow> od_ec_enc_tell enc = int D + 1"
  unfolding enc_inv_def od_ec_enc_tell_def by (auto simp: u32_id s32_id)

lemma dec_tell_bits: "dec_inv dec bs E D \<Longrightarrow> D < 2 ^ 30 \<Longrightarrow> od_ec_dec_tell dec = int D + 1"
  by (auto simp: dec_inv_def od_ec_dec_tell_def s32_id)

lemma decode_run_total_from:
  assumes wf: "\<And>h. wf_model (\<sigma> h)"
  shows "dec_inv dec bs E D \<Longrightarrow> D + 15 * n < 2 ^ 30 \<Longrightarrow>
    \<exists>ss dec' E' D'. decode_run \<sigma> hist dec n = Some (ss, dec') \<and> length ss = n \<and> valid_symbols \<sigma> hist ss \<and>
      dec_inv dec' bs E' D' \<and> D \<le> D' \<and> D' \<le> D + 15 * n"
proof (induction n arbitrary: hist dec E D)
  case (Suc n)
  obtain s dec1 where s: "decode_symbol dec (\<sigma> hist) = Some (int s, dec1)" "s < model_syms (\<sigma> hist)"
    "dec_inv dec1 bs (part_low E (dec_rng dec) (\<sigma> hist) s * 2 ^ renorm (part_width (dec_rng dec) (\<sigma> hist) s))
      (D + renorm (part_width (dec_rng dec) (\<sigma> hist) s))"
    using decode_symbol_correct [OF Suc.prems(1) _ wf [of hist]] Suc.prems(2) by auto
  define d where "d = renorm (part_width (dec_rng dec) (\<sigma> hist) s)"
  have "d \<le> 15" by (simp add: d_def renorm_def)
  with Suc.IH [OF s(3) [folded d_def], of "hist @ [s]"] Suc.prems(2) obtain ss dec' E' D' where
    "decode_run \<sigma> (hist @ [s]) dec1 n = Some (ss, dec')" "length ss = n" "valid_symbols \<sigma> (hist @ [s]) ss"
    "dec_inv dec' bs E' D'" "D + d \<le> D'" "D' \<le> D + d + 15 * n" by auto
  then show ?case using s(1,2) \<open>d \<le> 15\<close> by (intro exI [of _ "s # ss"] exI [of _ dec'] exI [of _ E'] exI [of _ D']) simp
qed auto

section \<open>Allocation failures\<close>

text \<open>
  Against an allocator that never refuses, an encoder whose request is refused only
  differs by its sticky error flag.
\<close>

definition unfailing :: "allocator \<Rightarrow> allocator" where
  "unfailing al = al\<lparr>alloc_ok := \<lambda>_. True\<rparr>"

lemma realloc_unfailing:
  "realloc_bytes al buf n = (if alloc_ok al n then realloc_bytes (unfailing al) buf n else None)"
  by (simp add: realloc_bytes_def unfailing_def)

lemma normalize_unfailing:
  "od_ec_enc_normalize al enc l r = Some (enc\<lparr>enc_error := -1\<rparr>) \<or>
   od_ec_enc_normalize al enc l r = od_ec_enc_normalize (unfailing al) enc l r"
  unfolding od_ec_enc_normalize_def Let_def realloc_unfailing [of al]
  by (auto simp: realloc_bytes_def unfailing_def)

lemma encode_symbol_normalizes:
  "\<exists>l r. \<forall>al. encode_symbol al enc m s = od_ec_enc_normalize al enc l r"
  by (cases m) (auto simp: od_ec_encode_bool_q15_def od_ec_encode_cdf_q15_def od_ec_encode_q15_def Let_def)

lemma encode_symbol_unfailing:
  "encode_symbol al enc m s = Some (enc\<lparr>enc_error := -1\<rparr>) \<or>
   encode_symbol al enc m s = encode_symbol (unfailing al) enc m s"
  using encode_symbol_normalizes [of enc m s] normalize_unfailing by metis

lemma encode_run_error: "enc_error enc = -1 \<Longrightarrow> encode_run al \<sigma> hist enc ss = Some enc"
proof (induction ss arbitrary: hist)
  case (Cons s ss)
  have "encode_symbol al enc (\<sigma> hist) s = Some enc"
    using encode_symbol_normalizes [of enc "\<sigma> hist" s] Cons.prems
    by (auto simp: od_ec_enc_normalize_def)
  then show ?case using Cons by simp
qed simp

lemma encode_run_unfailing:
  "(\<exists>enc'. encode_run al \<sigma> hist enc ss = Some enc' \<and> enc_error enc' = -1) \<or>
   encode_run al \<sigma> hist enc ss = encode_run (unfailing al) \<sigma> hist enc ss"
proof (induction ss arbitrary: hist enc)
  case (Cons s ss)
  show ?case
  proof (cases "encode_symbol al enc (\<sigma> hist) s = encode_symbol (unfailing al) enc (\<sigma> hist) s")
    case True
    then show ?thesis using Cons.IH by (cases "encode_symbol (unfailing al) enc (\<sigma> hist) s") auto
  next
    case False
    then show ?thesis using encode_symbol_unfailing [of al enc "\<sigma> hist" s] by (auto simp: encode_run_error)
  qed
qed simp

lemma done_unfailing:
  "od_ec_enc_done al enc = Some (enc\<lparr>enc_error := -1\<rparr>, None) \<or>
   od_ec_enc_done al enc = od_ec_enc_done (unfailing al) enc"
  unfolding od_ec_enc_done_def Let_def realloc_unfailing [of al]
  by (auto simp: realloc_bytes_def unfailing_def)

lemma init_unfailing:
  assumes "0 \<le> sz"
  shows "enc_error (od_ec_enc_init al enc sz) = -1 \<or>
    od_ec_enc_init al enc sz = od_ec_enc_init (unfailing al) enc sz"
  using assms by (auto simp: od_ec_enc_init_def unfailing_def Let_def)

section \<open>The round trip\<close>

lemma qv_pad: "qv (bs @ replicate pad 0) k = qv bs k"
proof -
  have "bval (replicate pad 0) = 0" by (induction pad) (simp_all add: bval_def)
  then have "bval (bs @ replicate pad 0) = bval bs * 2 ^ (8 * pad)" by (simp add: bval_append pow256)
  then show ?thesis
    using div_pow_cancel [of "bval bs" k "8 * pad" "8 * length bs"]
    by (simp add: qv_def power_add mult_ac)
qed

lemma roundtrip_unfailing:
  assumes al: "\<And>n. alloc_ok al n" and sz: "0 \<le> sz" "sz < 2 ^ 30" and wf: "\<And>h. wf_model (\<sigma> h)"
    and ss: "valid_symbols \<sigma> [] ss" "length ss \<le> 2 ^ 26"
  shows "\<exists>enc enc' out nb. encode_run al \<sigma> [] (od_ec_enc_init al enc0 sz) ss = Some enc \<and>
    od_ec_enc_done al enc = Some (enc', Some (out, nb)) \<and> 0 \<le> nb \<and> nat nb \<le> length out \<and>
    od_ec_enc_tell enc \<le> int (8 * nat nb) \<and> int (8 * nat nb) \<le> od_ec_enc_tell enc + 14 \<and>
    1 \<le> od_ec_enc_tell enc \<and> od_ec_enc_tell enc \<le> 1 + 15 * int (length ss) \<and>
    (\<forall>pad. \<exists>dec. decode_run \<sigma> [] (od_ec_dec_init (take (nat nb) out @ replicate pad 0)) (length ss) = Some (ss, dec) \<and>
      od_ec_dec_tell dec = od_ec_enc_tell enc \<and> od_ec_dec_tell_frac dec = od_ec_enc_tell_frac enc)"
proof -
  have len: "0 + 15 * length ss < 2 ^ 30" using ss(2) by simp
  obtain enc E D where run: "encode_run al \<sigma> [] (od_ec_enc_init al enc0 sz) ss = Some enc"
    "enc_inv enc E D" "D \<le> 0 + 15 * length ss"
    and dec: "\<And>bs dec. E \<le> qv bs (15 + D) \<Longrightarrow> qv bs (15 + D) < E + enc_rng enc \<Longrightarrow>
      dec_inv dec bs 0 0 \<Longrightarrow> dec_rng dec = 32768 \<Longrightarrow>
      \<exists>dec'. decode_run \<sigma> [] dec (length ss) = Some (ss, dec') \<and>
        dec_inv dec' bs E D \<and> dec_rng dec' = enc_rng enc"
    using run_correct [OF al wf enc_init_inv(1) [OF al sz] ss(1) len]
    unfolding enc_init_inv(2) [OF al sz] by blast
  have D: "D < 2 ^ 30" using run(3) len by simp
  obtain enc' out nb where fin: "od_ec_enc_done al enc = Some (enc', Some (out, int nb))"
    "nb \<le> length out" "is_bytes (take nb out)" "8 * nb \<le> 15 + D"
    "E \<le> bval (take nb out) * 2 ^ (15 + D - 8 * nb)"
    "bval (take nb out) * 2 ^ (15 + D - 8 * nb) < E + 32768" "15 + D \<le> 8 * nb + 14"
    using enc_done_correct [OF al run(2) D] by blast
  have q: "qv (take nb out @ replicate pad 0) (15 + D) = bval (take nb out) * 2 ^ (15 + D - 8 * nb)" for pad
    using qv_long [of "take nb out" "15 + D"] fin(2,4) by (simp add: min_def qv_pad)
  have tell: "od_ec_enc_tell enc = int D + 1" using enc_tell_bits [OF run(2) D] .
  have "\<exists>dec. decode_run \<sigma> [] (od_ec_dec_init (take nb out @ replicate pad 0)) (length ss) = Some (ss, dec) \<and>
      od_ec_dec_tell dec = od_ec_enc_tell enc \<and> od_ec_dec_tell_frac dec = od_ec_enc_tell_frac enc" for pad
  proof -
    let ?bs = "take nb out @ replicate pad 0"
    have "is_bytes ?bs" using fin(3) by (auto simp: is_bytes_def)
    then obtain dec' where dec': "decode_run \<sigma> [] (od_ec_dec_init ?bs) (length ss) = Some (ss, dec')"
      "dec_inv dec' ?bs E D" "dec_rng dec' = enc_rng enc"
      using dec [of ?bs "od_ec_dec_init ?bs"] fin(5,6) q [of pad] dec_init_inv enc_inv_low(1) [OF run(2)] by auto
    then show ?thesis using dec_tell_bits [OF dec'(2) D]
      by (simp add: tell od_ec_dec_tell_frac_def od_ec_enc_tell_frac_def)
  qed
  then show ?thesis using run(1,3) fin(1,2,4,7) tell
    by (intro exI [of _ enc] exI [of _ enc'] exI [of _ out] exI [of _ "int nb"]) simp
qed

text \<open>C1. Range coder round trip. Whatever models are chosen (each may depend on the
  symbols already coded), if every allocation succeeds then encoding any sequence of valid
  symbols and finishing the stream yields bytes that, alone or followed by any number of
  zero bytes, decode to exactly those symbols; the decoder's whole and
  fractional bit counts equal the encoder's, and the stream holds at least that many bits and
  at most 14 more.\<close>

theorem range_coder_roundtrip:
  assumes "\<forall>n. alloc_ok al n" "0 \<le> sz" "sz < 2 ^ 30" "\<forall>h. wf_model (\<sigma> h)"
    and "valid_symbols \<sigma> [] ss" "length ss \<le> 2 ^ 26"
  shows "\<exists>enc enc' out nb. encode_run al \<sigma> [] (od_ec_enc_init al enc0 sz) ss = Some enc \<and>
    od_ec_enc_done al enc = Some (enc', Some (out, nb)) \<and> 0 \<le> nb \<and> nat nb \<le> length out \<and>
    od_ec_enc_tell enc \<le> int (8 * nat nb) \<and> int (8 * nat nb) \<le> od_ec_enc_tell enc + 14 \<and>
    (\<forall>pad. \<exists>dec. decode_run \<sigma> [] (od_ec_dec_init (take (nat nb) out @ replicate pad 0)) (length ss) = Some (ss, dec) \<and>
      od_ec_dec_tell dec = od_ec_enc_tell enc \<and> od_ec_dec_tell_frac dec = od_ec_enc_tell_frac enc)"
  using roundtrip_unfailing [of al sz \<sigma> ss enc0] assms by blast

definition sample_enc :: od_ec_enc where
  "sample_enc = \<lparr>enc_buf = [], enc_storage = 0, enc_offs = 0, enc_low = 0, enc_rng = 0, enc_cnt = 0, enc_error = 0\<rparr>"

definition sample_models :: "nat list \<Rightarrow> ec_model" where
  "sample_models h = (if even (length h) then Model_bool 16384 else Model_cdf [24576, 8192, 0, 0] 3)"

lemma sample_models_wf: "\<forall>h. wf_model (sample_models h)"
  by (auto simp: sample_models_def wf_icdf_def less_Suc_eq numeral_3_eq_3)

theorem range_coder_roundtrip_witness:
  "\<exists>enc enc' out nb. encode_run sample_alloc sample_models [] (od_ec_enc_init sample_alloc sample_enc 4) [1, 2, 0, 1] = Some enc \<and>
    od_ec_enc_done sample_alloc enc = Some (enc', Some (out, nb)) \<and> 0 \<le> nb \<and> nat nb \<le> length out \<and>
    od_ec_enc_tell enc \<le> int (8 * nat nb) \<and> int (8 * nat nb) \<le> od_ec_enc_tell enc + 14 \<and>
    (\<forall>pad. \<exists>dec. decode_run sample_models [] (od_ec_dec_init (take (nat nb) out @ replicate pad 0)) (length [1::nat, 2, 0, 1]) = Some ([1, 2, 0, 1], dec) \<and>
      od_ec_dec_tell dec = od_ec_enc_tell enc \<and> od_ec_dec_tell_frac dec = od_ec_enc_tell_frac enc)"
  by (rule range_coder_roundtrip) (use sample_models_wf in \<open>simp_all add: sample_alloc_def sample_models_def\<close>)

text \<open>C17. Decoding is total and safe on arbitrary input. For any byte buffer, truncated or
  hostile, and any choice of well-formed models, every decoding call returns a symbol of its
  model, never reading outside the table, and the bit count grows by at most 15 per symbol.\<close>

theorem decode_arbitrary_bytes:
  assumes "is_bytes bs" "\<forall>h. wf_model (\<sigma> h)" "n \<le> 2 ^ 26"
  shows "\<exists>ss dec. decode_run \<sigma> [] (od_ec_dec_init bs) n = Some (ss, dec) \<and> length ss = n \<and>
    valid_symbols \<sigma> [] ss \<and> 1 \<le> od_ec_dec_tell dec \<and> od_ec_dec_tell dec \<le> 1 + 15 * int n"
proof -
  have "0 + 15 * n < 2 ^ 30" using assms(3) by simp
  then obtain ss dec E D where *: "decode_run \<sigma> [] (od_ec_dec_init bs) n = Some (ss, dec)" "length ss = n"
    "valid_symbols \<sigma> [] ss" "dec_inv dec bs E D" "D \<le> 0 + 15 * n"
    using decode_run_total_from [OF _ dec_init_inv(1) [OF assms(1)]] assms(2) by blast
  moreover have "od_ec_dec_tell dec = int D + 1" using dec_tell_bits [OF *(4)] *(5) assms(3) by simp
  ultimately show ?thesis by simp
qed

theorem decode_arbitrary_bytes_witness:
  "\<exists>ss dec. decode_run sample_models [] (od_ec_dec_init [255, 7]) 20 = Some (ss, dec) \<and> length ss = 20 \<and>
    valid_symbols sample_models [] ss \<and> 1 \<le> od_ec_dec_tell dec \<and> od_ec_dec_tell dec \<le> 1 + 15 * int 20"
  by (rule decode_arbitrary_bytes) (use sample_models_wf in \<open>simp_all add: is_bytes_def\<close>)

text \<open>C24. Allocation failure. With an allocator that may refuse any request, encoding and
  finishing a stream never leaves the buffer, and \<open>od_ec_enc_done\<close> either reports the
  failure (a NULL result with the error flag set) or returns bytes that decode to the
  symbols.\<close>

theorem encoder_alloc_failure:
  assumes "0 \<le> sz" "sz < 2 ^ 30" "\<forall>h. wf_model (\<sigma> h)" "valid_symbols \<sigma> [] ss" "length ss \<le> 2 ^ 26"
  shows "\<exists>enc enc' r. encode_run al \<sigma> [] (od_ec_enc_init al enc0 sz) ss = Some enc \<and>
    od_ec_enc_done al enc = Some (enc', r) \<and>
    (case r of None \<Rightarrow> enc_error enc' = -1
     | Some (out, nb) \<Rightarrow> nat nb \<le> length out \<and>
         (\<exists>dec. decode_run \<sigma> [] (od_ec_dec_init (take (nat nb) out)) (length ss) = Some (ss, dec)))"
proof -
  let ?run = "\<lambda>al. encode_run al \<sigma> [] (od_ec_enc_init al enc0 sz) ss"
  obtain enc enc' out nb where ok: "?run (unfailing al) = Some enc"
    "od_ec_enc_done (unfailing al) enc = Some (enc', Some (out, nb))" "nat nb \<le> length out"
    and pad: "\<And>pad. \<exists>dec. decode_run \<sigma> [] (od_ec_dec_init (take (nat nb) out @ replicate pad 0)) (length ss) = Some (ss, dec)"
    using roundtrip_unfailing [of "unfailing al" sz \<sigma> ss enc0] assms by (simp add: unfailing_def) blast
  then obtain dec where "decode_run \<sigma> [] (od_ec_dec_init (take (nat nb) out)) (length ss) = Some (ss, dec)"
    using pad [of 0] by auto
  note ok = ok this
  have "(\<exists>enc1. ?run al = Some enc1 \<and> enc_error enc1 = -1) \<or> ?run al = Some enc"
    using init_unfailing [OF assms(1), of al enc0] encode_run_unfailing [of al \<sigma> "[]" "od_ec_enc_init al enc0 sz" ss]
      encode_run_error ok(1) by metis
  then show ?thesis
  proof (elim disjE exE conjE)
    fix enc1
    assume "?run al = Some enc1" "enc_error enc1 = -1"
    then show ?thesis by (auto simp: od_ec_enc_done_def)
  next
    assume "?run al = Some enc"
    then show ?thesis using done_unfailing [of al enc] ok(2-4) by auto
  qed
qed

theorem encoder_alloc_failure_witness:
  "\<exists>enc enc' r. encode_run \<lparr>alloc_ok = \<lambda>n. n < 8, alloc_junk = 1\<rparr> sample_models [] (od_ec_enc_init \<lparr>alloc_ok = \<lambda>n. n < 8, alloc_junk = 1\<rparr> sample_enc 4) [1, 2] = Some enc \<and>
    od_ec_enc_done \<lparr>alloc_ok = \<lambda>n. n < 8, alloc_junk = 1\<rparr> enc = Some (enc', r) \<and>
    (case r of None \<Rightarrow> enc_error enc' = -1
     | Some (out, nb) \<Rightarrow> nat nb \<le> length out \<and>
         (\<exists>dec. decode_run sample_models [] (od_ec_dec_init (take (nat nb) out)) (length [1::nat, 2]) = Some ([1, 2], dec)))"
  by (rule encoder_alloc_failure) (use sample_models_wf in \<open>simp_all add: sample_models_def\<close>)

definition trail_models :: "nat list \<Rightarrow> ec_model" where
  "trail_models h = (if h = [] then Model_bool 30400 else Model_bool 7232)"

text \<open>The bits that follow matter. Zero padding cannot be replaced by arbitrary bytes,
  although a comment in \<open>od_ec_enc_done\<close> says that the symbols decode correctly
  regardless of the bits that follow: two booleans code to the one byte 18, which decodes
  to them, and 18 followed by 255 bytes decodes to other symbols.\<close>

theorem trailing_bits_matter:
  "map_option (\<lambda>enc. map_option (\<lambda>p. map_option (\<lambda>(out, nb). take (nat nb) out) (snd p)) (od_ec_enc_done sample_alloc enc))
     (encode_run sample_alloc trail_models [] (od_ec_enc_init sample_alloc sample_enc 4) [0, 1]) = Some (Some (Some [18])) \<and>
   map_option fst (decode_run trail_models [] (od_ec_dec_init [18]) 2) = Some [0, 1] \<and>
   map_option fst (decode_run trail_models [] (od_ec_dec_init [18, 255, 255, 255]) 2) = Some [1, 0]"
  by (intro conjI; code_simp)

end
