(* ===== verification/Symbol_Coder.thy ===== *)
theory Symbol_Coder
  imports Range_Coder_Roundtrip Bit_Codes
begin

text \<open>
  The layer the codec writes its syntax through: \<open>aom_dsp/bitwriter.c\<close>, \<open>bitwriter.h\<close>,
  \<open>bitreader.c\<close> and \<open>bitreader.h\<close> over the range coder, the adaptation of a distribution
  after each symbol (\<open>update_cdf\<close> of \<open>aom_dsp/prob.h\<close>), and the binary codes of
  \<open>binary_codes_writer.c\<close> and \<open>binary_codes_reader.c\<close>. The debug queue and the accounting
  of symbols are compiled out. A distribution is the list of its inverse cumulative
  probabilities followed by its count; an access outside it is \<open>None\<close>, and so is a shift or
  a sum of the binary codes that leaves C's \<open>int\<close>.
\<close>

section \<open>Adaptation\<close>

text \<open>The \<open>do ... while\<close> loop of \<open>update_cdf\<close> from index \<open>i\<close>; \<open>m\<close> more rounds follow.\<close>

fun update_cdf_loop :: "nat \<Rightarrow> int list \<Rightarrow> nat \<Rightarrow> int \<Rightarrow> nat \<Rightarrow> int list option" where
  "update_cdf_loop m cdf i val rate =
     (if i < length cdf then
        let c = cdf ! i;
            cdf = cdf[i := if int i < val then u16 (c + shr (CDF_PROB_TOP - c) rate) else u16 (c - shr c rate)] in
        case m of 0 \<Rightarrow> Some cdf | Suc m \<Rightarrow> update_cdf_loop m cdf (Suc i) val rate
      else None)"

declare update_cdf_loop.simps [simp del]

definition update_cdf :: "int list \<Rightarrow> int \<Rightarrow> nat \<Rightarrow> int list option" where
  "update_cdf cdf symb nsymbs =
     (if nsymbs < length cdf then
        let val = s8 symb;
            count = cdf ! nsymbs;
            rate = nat (4 + shr count 4 + b2i (nsymbs > 3)) in
        do {
          cdf \<leftarrow> update_cdf_loop (nsymbs - 2) cdf 0 val rate;
          Some (cdf[nsymbs := u16 (cdf ! nsymbs + b2i (count < 32))])
        }
      else None)"

section \<open>The writer\<close>

record aom_writer =
  w_pos :: int
  w_buffer :: "int list"
  w_size :: int
  w_ec :: od_ec_enc
  w_allow_update_cdf :: int

definition aom_start_encode :: "allocator \<Rightarrow> aom_writer \<Rightarrow> int list \<Rightarrow> int \<Rightarrow> aom_writer" where
  "aom_start_encode al w source sz =
     w\<lparr>w_buffer := source, w_size := sz, w_pos := 0, w_ec := od_ec_enc_init al (w_ec w) 62025\<rparr>"

definition aom_stop_encode :: "allocator \<Rightarrow> aom_writer \<Rightarrow> (int \<times> aom_writer) option" where
  "aom_stop_encode al w =
     do {
       (ec, data) \<leftarrow> od_ec_enc_done al (w_ec w);
       case data of
         None \<Rightarrow> Some (-1, w\<lparr>w_ec := od_ec_enc_clear ec\<rparr>)
       | Some (out, bytes) \<Rightarrow>
           if bytes > w_size w then Some (-1, w\<lparr>w_ec := od_ec_enc_clear ec\<rparr>)
           else do {
             buf \<leftarrow> memcpy_at (w_buffer w) 0 (take (nat bytes) out);
             Some (od_ec_enc_tell ec, w\<lparr>w_buffer := buf, w_pos := bytes, w_ec := od_ec_enc_clear ec\<rparr>)
           }
     }"

definition aom_tell_size :: "aom_writer \<Rightarrow> int" where "aom_tell_size w = od_ec_enc_tell (w_ec w)"

definition bool_prob :: "int \<Rightarrow> int" where "bool_prob prob = shr (8388607 - shl prob 15 + prob) 8"

definition aom_write :: "allocator \<Rightarrow> aom_writer \<Rightarrow> int \<Rightarrow> int \<Rightarrow> aom_writer option" where
  "aom_write al w b prob = map_option (\<lambda>ec. w\<lparr>w_ec := ec\<rparr>) (od_ec_encode_bool_q15 al (w_ec w) b (bool_prob prob))"

definition aom_write_bit :: "allocator \<Rightarrow> aom_writer \<Rightarrow> int \<Rightarrow> aom_writer option" where
  "aom_write_bit al w b = aom_write al w b 128"

fun write_literal_loop :: "allocator \<Rightarrow> aom_writer \<Rightarrow> int \<Rightarrow> nat \<Rightarrow> aom_writer option" where
  "write_literal_loop al w data 0 = Some w"
| "write_literal_loop al w data (Suc b) =
     do { w \<leftarrow> aom_write_bit al w (shr data b AND 1); write_literal_loop al w data b }"

text \<open>\<open>data\<close> is an \<open>int\<close>, shifted by \<open>bits - 1\<close> at most: more than 32 bits are undefined.\<close>

definition aom_write_literal :: "allocator \<Rightarrow> aom_writer \<Rightarrow> int \<Rightarrow> nat \<Rightarrow> aom_writer option" where
  "aom_write_literal al w data bits = (if bits \<le> 32 then write_literal_loop al w (s32 data) bits else None)"

definition aom_write_cdf :: "allocator \<Rightarrow> aom_writer \<Rightarrow> int \<Rightarrow> int list \<Rightarrow> nat \<Rightarrow> aom_writer option" where
  "aom_write_cdf al w symb cdf nsymbs =
     map_option (\<lambda>ec. w\<lparr>w_ec := ec\<rparr>) (od_ec_encode_cdf_q15 al (w_ec w) (nat symb) cdf nsymbs)"

definition aom_write_symbol ::
  "allocator \<Rightarrow> aom_writer \<Rightarrow> int \<Rightarrow> int list \<Rightarrow> nat \<Rightarrow> (aom_writer \<times> int list) option" where
  "aom_write_symbol al w symb cdf nsymbs =
     do {
       w \<leftarrow> aom_write_cdf al w symb cdf nsymbs;
       cdf \<leftarrow> (if w_allow_update_cdf w \<noteq> 0 then update_cdf cdf symb nsymbs else Some cdf);
       Some (w, cdf)
     }"

section \<open>The reader\<close>

text \<open>\<open>r_buffer\<close> is the data from \<open>buffer\<close> to \<open>buffer_end\<close>.\<close>

record aom_reader =
  r_buffer :: "int list"
  r_ec :: od_ec_dec
  r_allow_update_cdf :: int

definition aom_reader_init :: "aom_reader \<Rightarrow> int list option \<Rightarrow> int \<times> aom_reader" where
  "aom_reader_init r buffer =
     (case buffer of
        None \<Rightarrow> (1, r)
      | Some bs \<Rightarrow> (0, r\<lparr>r_buffer := bs, r_ec := od_ec_dec_init (take (nat (u32 (int (length bs)))) bs)\<rparr>))"

definition aom_reader_tell :: "aom_reader \<Rightarrow> int" where "aom_reader_tell r = u32 (od_ec_dec_tell (r_ec r))"

definition aom_reader_tell_frac :: "aom_reader \<Rightarrow> int" where "aom_reader_tell_frac r = od_ec_dec_tell_frac (r_ec r)"

definition aom_reader_has_overflowed :: "aom_reader \<Rightarrow> bool" where
  "aom_reader_has_overflowed r = (shr (u32 (aom_reader_tell r + 7)) 3 > int (length (r_buffer r)))"

definition aom_read :: "aom_reader \<Rightarrow> int \<Rightarrow> int \<times> aom_reader" where
  "aom_read r prob = (let (b, ec) = od_ec_decode_bool_q15 (r_ec r) (bool_prob prob) in (b, r\<lparr>r_ec := ec\<rparr>))"

definition aom_read_bit :: "aom_reader \<Rightarrow> int \<times> aom_reader" where "aom_read_bit r = aom_read r 128"

fun read_literal_loop :: "nat \<Rightarrow> int \<Rightarrow> aom_reader \<Rightarrow> int \<times> aom_reader" where
  "read_literal_loop 0 lit r = (lit, r)"
| "read_literal_loop (Suc b) lit r = (let (x, r) = aom_read_bit r in read_literal_loop b (lit OR shl x b) r)"

text \<open>The loop shifts a bit by \<open>bits - 1\<close> first: \<open>1 << 31\<close> and shifts by more than 31 are
  undefined, so a literal has at most 31 bits.\<close>

definition aom_read_literal :: "aom_reader \<Rightarrow> nat \<Rightarrow> (int \<times> aom_reader) option" where
  "aom_read_literal r bits = (if bits \<le> 31 then Some (read_literal_loop bits 0 r) else None)"

definition aom_read_cdf :: "aom_reader \<Rightarrow> int list \<Rightarrow> nat \<Rightarrow> (int \<times> aom_reader) option" where
  "aom_read_cdf r cdf nsymbs = map_option (\<lambda>(s, ec). (s, r\<lparr>r_ec := ec\<rparr>)) (od_ec_decode_cdf_q15 (r_ec r) cdf nsymbs)"

definition aom_read_symbol :: "aom_reader \<Rightarrow> int list \<Rightarrow> nat \<Rightarrow> (int \<times> aom_reader \<times> int list) option" where
  "aom_read_symbol r cdf nsymbs =
     do {
       (s, r) \<leftarrow> aom_read_cdf r cdf nsymbs;
       cdf \<leftarrow> (if r_allow_update_cdf r \<noteq> 0 then update_cdf cdf s nsymbs else Some cdf);
       Some (s, r, cdf)
     }"

section \<open>Binary codes\<close>

definition read_primitive_quniform :: "aom_reader \<Rightarrow> int \<Rightarrow> (int \<times> aom_reader) option" where
  "read_primitive_quniform r n =
     (if n \<le> 1 then Some (0, r)
      else let l = get_msb n + 1; m = 2 ^ l - n in
        do {
          (v, r1) \<leftarrow> aom_read_literal r (l - 1);
          Some (if v < m then (u16 v, r1)
                else let (b, r2) = aom_read_bit r1 in (u16 (shl v 1 - m + b), r2))
        })"

text \<open>The bound of the loops: with \<open>mk\<close> and \<open>a = 1 << b\<close> not negative, \<open>mk + 3 * a\<close> fits an
  \<open>int\<close> exactly when the shift, the product and the sum are all defined.\<close>

function read_subexpfin_loop :: "aom_reader \<Rightarrow> int \<Rightarrow> nat \<Rightarrow> nat \<Rightarrow> int \<Rightarrow> (int \<times> aom_reader) option" where
  "read_subexpfin_loop r n k i mk =
     (let b = (if i \<noteq> 0 then k + i - 1 else k); a = 2 ^ b in
      if mk + 3 * a > 2147483647 then None
      else if n \<le> mk + 3 * a
      then do { (v, r1) \<leftarrow> read_primitive_quniform r (u16 (n - mk)); Some (u16 (v + mk), r1) }
      else let (t, r1) = aom_read_bit r in
        if t = 0 then do { (v, r2) \<leftarrow> aom_read_literal r1 b; Some (u16 (v + mk), r2) }
        else read_subexpfin_loop r1 n k (Suc i) (mk + a))"
  by pat_completeness auto
termination
proof (relation "measure (\<lambda>(r, n, k, i, mk). nat (n - mk))", goal_cases)
  case (2 r n k i mk b a)
  have "0 < a" unfolding 2(2) by simp
  with 2(4) have "nat (n - (mk + a)) < nat (n - mk)" by linarith
  then show ?case by simp
qed simp

declare read_subexpfin_loop.simps [simp del]

definition read_primitive_subexpfin :: "aom_reader \<Rightarrow> int \<Rightarrow> nat \<Rightarrow> (int \<times> aom_reader) option" where
  "read_primitive_subexpfin r n k = read_subexpfin_loop r n k 0 0"

definition aom_read_primitive_refsubexpfin :: "aom_reader \<Rightarrow> int \<Rightarrow> nat \<Rightarrow> int \<Rightarrow> (int \<times> aom_reader) option" where
  "aom_read_primitive_refsubexpfin r n k ref =
     do { (v, r1) \<leftarrow> read_primitive_subexpfin r n k; Some (inv_recenter_finite_nonneg n ref v, r1) }"

definition write_primitive_quniform :: "allocator \<Rightarrow> aom_writer \<Rightarrow> int \<Rightarrow> int \<Rightarrow> aom_writer option" where
  "write_primitive_quniform al w n v =
     (if n \<le> 1 then Some w
      else let l = get_msb n + 1; m = 2 ^ l - n in
        if v < m then aom_write_literal al w v (l - 1)
        else do {
          w1 \<leftarrow> aom_write_literal al w (m + shr (v - m) 1) (l - 1);
          aom_write_bit al w1 ((v - m) AND 1)
        })"

function write_subexpfin_loop ::
  "allocator \<Rightarrow> aom_writer \<Rightarrow> int \<Rightarrow> nat \<Rightarrow> int \<Rightarrow> nat \<Rightarrow> int \<Rightarrow> aom_writer option" where
  "write_subexpfin_loop al w n k v i mk =
     (let b = (if i \<noteq> 0 then k + i - 1 else k); a = 2 ^ b in
      if mk + 3 * a > 2147483647 then None
      else if n \<le> mk + 3 * a then write_primitive_quniform al w (u16 (n - mk)) (u16 (v - mk))
      else let t = v \<ge> mk + a in
        do {
          w1 \<leftarrow> aom_write_bit al w (b2i t);
          if t then write_subexpfin_loop al w1 n k v (Suc i) (mk + a) else aom_write_literal al w1 (v - mk) b
        })"
  by pat_completeness auto
termination
proof (relation "measure (\<lambda>(al, w, n, k, v, i, mk). nat (n - mk))", goal_cases)
  case (2 al w n k v i mk b a)
  have "0 < a" unfolding 2(2) by simp
  with 2(4) have "nat (n - (mk + a)) < nat (n - mk)" by linarith
  then show ?case by simp
qed simp

declare write_subexpfin_loop.simps [simp del]

definition write_primitive_subexpfin :: "allocator \<Rightarrow> aom_writer \<Rightarrow> int \<Rightarrow> nat \<Rightarrow> int \<Rightarrow> aom_writer option" where
  "write_primitive_subexpfin al w n k v = write_subexpfin_loop al w n k v 0 0"

definition aom_write_primitive_refsubexpfin ::
  "allocator \<Rightarrow> aom_writer \<Rightarrow> int \<Rightarrow> nat \<Rightarrow> int \<Rightarrow> int \<Rightarrow> aom_writer option" where
  "aom_write_primitive_refsubexpfin al w n k ref v = write_primitive_subexpfin al w n k (recenter_finite_nonneg n ref v)"

definition count_primitive_quniform :: "int \<Rightarrow> int \<Rightarrow> int" where
  "count_primitive_quniform n v =
     (if n \<le> 1 then 0
      else let l = get_msb n + 1; m = 2 ^ l - n in if v < m then int l - 1 else int l)"

function count_subexpfin_loop :: "int \<Rightarrow> nat \<Rightarrow> int \<Rightarrow> int \<Rightarrow> nat \<Rightarrow> int \<Rightarrow> int option" where
  "count_subexpfin_loop n k v count i mk =
     (let b = (if i \<noteq> 0 then k + i - 1 else k); a = 2 ^ b in
      if mk + 3 * a > 2147483647 then None
      else if n \<le> mk + 3 * a then Some (count + count_primitive_quniform (u16 (n - mk)) (u16 (v - mk)))
      else let t = v \<ge> mk + a; count = count + 1 in
        if t then count_subexpfin_loop n k v count (Suc i) (mk + a) else Some (count + int b))"
  by pat_completeness auto
termination
proof (relation "measure (\<lambda>(n, k, v, count, i, mk). nat (n - mk))", goal_cases)
  case (2 n k v count i mk b a)
  have "0 < a" unfolding 2(2) by simp
  with 2(4) have "nat (n - (mk + a)) < nat (n - mk)" by linarith
  then show ?case by simp
qed simp

declare count_subexpfin_loop.simps [simp del]

definition count_primitive_subexpfin :: "int \<Rightarrow> nat \<Rightarrow> int \<Rightarrow> int option" where
  "count_primitive_subexpfin n k v = count_subexpfin_loop n k v 0 0 0"

definition aom_count_primitive_refsubexpfin :: "int \<Rightarrow> nat \<Rightarrow> int \<Rightarrow> int \<Rightarrow> int option" where
  "aom_count_primitive_refsubexpfin n k ref v = count_primitive_subexpfin n k (recenter_finite_nonneg n ref v)"

definition aom_count_signed_primitive_refsubexpfin :: "int \<Rightarrow> nat \<Rightarrow> int \<Rightarrow> int \<Rightarrow> int option" where
  "aom_count_signed_primitive_refsubexpfin n k ref v =
     (let ref = s16 (ref + n - 1); v = s16 (v + n - 1); scaled_n = u16 (shl n 1 - 1) in
      aom_count_primitive_refsubexpfin scaled_n k (u16 ref) (u16 v))"

end
