(* ===== verification/Symbol_Coder_Props.thy ===== *)
theory Symbol_Coder_Props
  imports Symbol_Coder
begin

text \<open>
  Properties of the symbol layer: adaptation keeps a distribution well formed, the bit counts
  of the binary codes are exact, and a stream of syntax elements coded with adaptive
  distributions is read back. The last is reduced to the range coder by flattening elements
  to \<open>prims\<close>, pairs of a model and a symbol; the readers and writers of the binary codes are
  interpretations of the contracts of \<open>Bit_Codes\<close>.
\<close>

section \<open>Adaptation\<close>

text \<open>A distribution of \<open>n\<close> symbols with its count.\<close>

definition wf_cdf :: "int list \<Rightarrow> nat \<Rightarrow> bool" where
  "wf_cdf cdf n \<longleftrightarrow> wf_icdf cdf n \<and> n < length cdf \<and> 0 \<le> cdf ! n \<and> cdf ! n \<le> 32"

definition adapt_up :: "nat \<Rightarrow> int \<Rightarrow> int" where "adapt_up rate c = c + (32768 - c) div 2 ^ rate"
definition adapt_down :: "nat \<Rightarrow> int \<Rightarrow> int" where "adapt_down rate c = c - c div 2 ^ rate"

text \<open>Entry \<open>i\<close> after adaptation to symbol \<open>val\<close>.\<close>

definition adapted :: "nat \<Rightarrow> int \<Rightarrow> int list \<Rightarrow> nat \<Rightarrow> int" where
  "adapted rate val cdf i = (if int i < val then adapt_up rate (cdf ! i) else adapt_down rate (cdf ! i))"

lemma adapt_range:
  assumes "0 \<le> c" "c < 32768" "0 < rate"
  shows "c \<le> adapt_up rate c" "adapt_up rate c < 32768" "0 \<le> adapt_down rate c" "adapt_down rate c \<le> c"
proof -
  have p: "(2::int) \<le> 2 ^ rate" using assms(3) self_le_power [of "2::int" rate] by simp
  have half: "x div 2 ^ rate \<le> x div 2" if "0 \<le> x" for x :: int
    using zdiv_mono2 [OF that _ p] by simp
  show "c \<le> adapt_up rate c" "adapt_up rate c < 32768" "0 \<le> adapt_down rate c" "adapt_down rate c \<le> c"
    using half [of "32768 - c"] half [of c] assms
      pos_imp_zdiv_nonneg_iff [of "2 ^ rate" "32768 - c"] pos_imp_zdiv_nonneg_iff [of "2 ^ rate" c]
    by (auto simp: adapt_up_def adapt_down_def)
qed

lemma div_pow_lipschitz:
  assumes "x \<le> (y::int)"
  shows "y div 2 ^ r - x div 2 ^ r \<le> y - x"
proof -
  have p: "(1::int) \<le> 2 ^ r" by simp
  have "x div 2 ^ r + (y - x) \<ge> y div 2 ^ r"
  proof -
    have "y div 2 ^ r \<le> (x + (y - x) * 2 ^ r) div 2 ^ r"
      using assms p mult_left_mono [of 1 "2 ^ r" "y - x"] by (intro zdiv_mono1) auto
    also have "\<dots> = x div 2 ^ r + (y - x)" by simp
    finally show ?thesis .
  qed
  then show ?thesis by simp
qed

lemma adapt_mono:
  assumes "x \<le> y"
  shows "adapt_up rate x \<le> adapt_up rate y" "adapt_down rate x \<le> adapt_down rate y"
  using div_pow_lipschitz [of "32768 - y" "32768 - x" rate] div_pow_lipschitz [OF assms, of rate] assms
  by (simp_all add: adapt_up_def adapt_down_def)

lemma update_cdf_loop_spec:
  assumes "i + m < length cdf" "\<And>j. i \<le> j \<Longrightarrow> j \<le> i + m \<Longrightarrow> 0 \<le> cdf ! j \<and> cdf ! j < 32768" "0 < rate"
  shows "\<exists>cdf'. update_cdf_loop m cdf i val rate = Some cdf' \<and> length cdf' = length cdf \<and>
    (\<forall>j < length cdf. cdf' ! j = (if i \<le> j \<and> j \<le> i + m then adapted rate val cdf j else cdf ! j))"
  using assms
proof (induction m arbitrary: cdf i)
  case 0
  then show ?case using adapt_range [of "cdf ! i" rate]
    by (subst update_cdf_loop.simps)
      (auto simp: Let_def adapted_def adapt_up_def adapt_down_def shr_def CDF_PROB_TOP_def u16_id nth_list_update)
next
  case (Suc m)
  define cdf1 where "cdf1 = cdf[i := adapted rate val cdf i]"
  have r: "0 \<le> cdf ! i" "cdf ! i < 32768" using Suc.prems by auto
  have step: "update_cdf_loop (Suc m) cdf i val rate = update_cdf_loop m cdf1 (Suc i) val rate"
    using Suc.prems(1) adapt_range [OF r Suc.prems(3)]
    by (subst update_cdf_loop.simps)
      (auto simp: Let_def cdf1_def adapted_def adapt_up_def adapt_down_def shr_def CDF_PROB_TOP_def u16_id)
  have "\<exists>cdf'. update_cdf_loop m cdf1 (Suc i) val rate = Some cdf' \<and> length cdf' = length cdf1 \<and>
    (\<forall>j < length cdf1. cdf' ! j = (if Suc i \<le> j \<and> j \<le> Suc i + m then adapted rate val cdf1 j else cdf1 ! j))"
    by (rule Suc.IH) (use Suc.prems in \<open>auto simp: cdf1_def nth_list_update\<close>)
  then show ?case
    unfolding step using Suc.prems(1)
    by (auto simp: cdf1_def nth_list_update adapted_def not_less_eq_eq dest: le_antisym)
qed

text \<open>The rate as the bitstream specification writes it.\<close>

definition spec_rate :: "int \<Rightarrow> nat \<Rightarrow> nat" where
  "spec_rate count n = 3 + (if count > 15 then 1 else 0) + (if count > 31 then 1 else 0) + min (get_msb (int n)) 2"

lemma rate_spec:
  assumes "0 \<le> count" "count \<le> 32" "2 \<le> n"
  shows "nat (4 + shr count 4 + b2i (n > 3)) = spec_rate count n"
proof -
  have "get_msb (int n) = 1" if "n \<le> 3" using that assms(3) by (simp add: get_msb.simps)
  moreover have "2 \<le> get_msb (int n)" if "n > 3"
  proof -
    have "1 < int n" "1 < int n div 2" using that by auto
    then show ?thesis by (simp add: get_msb.simps [of "int n"] get_msb.simps [of "int n div 2"])
  qed
  moreover have "shr count 4 = (if count > 15 then 1 else 0) + (if count > 31 then 1 else 0)"
    using assms(1,2) by (auto simp: shr_def)
  ultimately show ?thesis by (cases "n > 3") (auto simp: spec_rate_def b2i_def)
qed

lemma update_cdf_spec:
  assumes "wf_cdf cdf n" "2 \<le> n" "0 \<le> s" "s < int n"
  shows "\<exists>cdf'. update_cdf cdf s n = Some cdf' \<and> length cdf' = length cdf \<and>
    (\<forall>j < n - 1. cdf' ! j = adapted (spec_rate (cdf ! n) n) s cdf j) \<and> cdf' ! (n - 1) = 0 \<and>
    cdf' ! n = min 32 (cdf ! n + 1)"
proof -
  have wf: "wf_icdf cdf n" "n < length cdf" "0 \<le> cdf ! n" "cdf ! n \<le> 32" "n \<le> 16" "cdf ! (n - 1) = 0"
    using assms(1) by (auto simp: wf_cdf_def wf_icdf_def)
  define rate where "rate = spec_rate (cdf ! n) n"
  have "0 < rate" by (simp add: rate_def spec_rate_def)
  then have "\<exists>c. update_cdf_loop (n - 2) cdf 0 s rate = Some c \<and> length c = length cdf \<and>
      (\<forall>j < length cdf. c ! j = (if 0 \<le> j \<and> j \<le> 0 + (n - 2) then adapted rate s cdf j else cdf ! j))"
    using wf(2) assms(2) icdf_range [OF wf(1)] by (intro update_cdf_loop_spec) auto
  then obtain c where c: "update_cdf_loop (n - 2) cdf 0 s rate = Some c" "length c = length cdf"
    "\<forall>j < length cdf. c ! j = (if j \<le> n - 2 then adapted rate s cdf j else cdf ! j)"
    by auto
  have "s8 s = s" using assms(3,4) wf(5) by (simp add: s8_def)
  moreover have "u16 (cdf ! n + b2i (cdf ! n < 32)) = min 32 (cdf ! n + 1)" using wf by (simp add: u16_id b2i_def)
  moreover have "c ! n = cdf ! n" using c(3) wf(2) assms(2) by (auto dest: le_diff_conv2)
  ultimately have "update_cdf cdf s n = Some (c[n := min 32 (cdf ! n + 1)])"
    using c wf(2) rate_spec [OF wf(3,4) assms(2)] by (simp add: update_cdf_def rate_def)
  then show ?thesis using c wf assms(2) by (auto simp: rate_def)
qed

text \<open>C18. Adaptation keeps distributions. For a well-formed distribution of 2 to 16 symbols and any
  of its symbols, \<open>update_cdf\<close> stays inside the table and computes the update of the
  specification (rate \<open>3 + (count > 15) + (count > 31) + min (log2 n) 2\<close>, entries below the
  symbol towards 32768, the others towards 0), and the result is again well formed: values
  below 32768, non-increasing, last one 0, the count saturating at 32.\<close>

theorem update_cdf_keeps_distribution:
  assumes "wf_cdf cdf n" "2 \<le> n" "0 \<le> s" "s < int n"
  shows "\<exists>cdf'. update_cdf cdf s n = Some cdf' \<and> wf_cdf cdf' n \<and> length cdf' = length cdf \<and>
    (\<forall>j < n - 1. cdf' ! j = adapted (spec_rate (cdf ! n) n) s cdf j) \<and> cdf' ! n = min 32 (cdf ! n + 1)"
proof -
  define rate where "rate = spec_rate (cdf ! n) n"
  have r0: "0 < rate" by (simp add: rate_def spec_rate_def)
  have wf: "wf_icdf cdf n" "n < length cdf" "0 \<le> cdf ! n" using assms(1) by (auto simp: wf_cdf_def)
  obtain cdf' where c: "update_cdf cdf s n = Some cdf'" "length cdf' = length cdf"
    "\<forall>j < n - 1. cdf' ! j = adapted rate s cdf j" "cdf' ! (n - 1) = 0" "cdf' ! n = min 32 (cdf ! n + 1)"
    using update_cdf_spec [OF assms] by (auto simp: rate_def)
  have rng: "0 \<le> adapted rate s cdf j" "adapted rate s cdf j < 32768" if "j < n" for j
    using adapt_range [OF conjunct1 [OF icdf_range [OF wf(1) that]] conjunct2 [OF icdf_range [OF wf(1) that]] r0]
      icdf_range [OF wf(1) that] by (auto simp: adapted_def)
  have range: "0 \<le> cdf' ! j \<and> cdf' ! j < 32768" if "j < n" for j
    using c(3,4) rng [of j] that by (cases "j = n - 1") auto
  have mono: "cdf' ! (j + 1) \<le> cdf' ! j" if "j < n" "j + 1 < n" for j
  proof (cases "j + 1 = n - 1")
    case True
    then show ?thesis using c(4) range [OF that(1)] by simp
  next
    case False
    have le: "cdf ! (j + 1) \<le> cdf ! j" using wf(1) that by (auto simp: wf_icdf_def)
    have i: "0 \<le> cdf ! (j + 1)" "cdf ! (j + 1) < 32768" "0 \<le> cdf ! j" "cdf ! j < 32768"
      using icdf_range [OF wf(1)] that by auto
    have "adapted rate s cdf (j + 1) \<le> adapted rate s cdf j"
      using adapt_mono [OF le, of rate] adapt_range [OF i(1,2) r0] adapt_range [OF i(3,4) r0] le
      by (auto simp: adapted_def)
    then show ?thesis using c(3) False that by auto
  qed
  have "wf_icdf cdf' n" using wf(1) c(2,4) range mono by (auto simp: wf_icdf_def)
  then show ?thesis using c wf by (auto simp: wf_cdf_def rate_def)
qed

theorem update_cdf_keeps_distribution_witness:
  "\<exists>cdf'. update_cdf [24576, 8192, 0, 31] 1 3 = Some cdf' \<and> wf_cdf cdf' 3 \<and> cdf' ! 0 = 24832 \<and> cdf' ! 3 = 32"
proof -
  have wf: "wf_cdf [24576, 8192, 0, 31] 3" by (auto simp: wf_cdf_def wf_icdf_def less_Suc_eq numeral_3_eq_3)
  have "spec_rate 31 3 = 5" by (simp add: spec_rate_def get_msb.simps)
  then have "adapted (spec_rate 31 3) 1 [24576, 8192, 0, 31] 0 = 24832" by (simp add: adapted_def adapt_up_def)
  then show ?thesis using update_cdf_keeps_distribution [OF wf, of 1] by auto
qed

section \<open>Streams of modelled symbols\<close>

type_synonym prim = "ec_model \<times> nat"

fun encode_prims :: "allocator \<Rightarrow> od_ec_enc \<Rightarrow> prim list \<Rightarrow> od_ec_enc option" where
  "encode_prims al enc [] = Some enc"
| "encode_prims al enc ((m, s) # ps) = Option.bind (encode_symbol al enc m s) (\<lambda>enc. encode_prims al enc ps)"

text \<open>Decoding with the models of \<open>ps\<close>, as long as the symbols are those of \<open>ps\<close>.\<close>

fun decode_prims :: "od_ec_dec \<Rightarrow> prim list \<Rightarrow> od_ec_dec option" where
  "decode_prims dec [] = Some dec"
| "decode_prims dec ((m, s) # ps) =
     Option.bind (decode_symbol dec m) (\<lambda>(v, dec). if v = int s then decode_prims dec ps else None)"

definition prims_ok :: "prim list \<Rightarrow> bool" where
  "prims_ok ps \<longleftrightarrow> list_all (\<lambda>(m, s). wf_model m \<and> s < model_syms m) ps"

text \<open>The choice of models that a fixed list of prims is: it looks at the number of symbols
  coded so far only.\<close>

definition prim_models :: "prim list \<Rightarrow> nat list \<Rightarrow> ec_model" where
  "prim_models ps h = (if length h < length ps then fst (ps ! length h) else Model_bool 16384)"

lemma encode_prims_append:
  "encode_prims al enc (ps @ qs) = Option.bind (encode_prims al enc ps) (\<lambda>enc. encode_prims al enc qs)"
  by (induction al enc ps rule: encode_prims.induct) (auto split: bind_splits)

lemma prim_models_wf: "prims_ok ps \<Longrightarrow> wf_model (prim_models ps h)"
  by (auto simp: prim_models_def prims_ok_def list_all_length case_prod_beta)

lemma prim_models_valid:
  "prims_ok ps \<Longrightarrow> ps = pre @ qs \<Longrightarrow> length h = length pre \<Longrightarrow> valid_symbols (prim_models ps) h (map snd qs)"
proof (induction qs arbitrary: pre h)
  case (Cons q qs)
  then show ?case using Cons.IH [of "pre @ [q]" "h @ [snd q]"]
    by (auto simp: prim_models_def prims_ok_def nth_append split: prod.splits)
qed simp

lemma encode_run_prims:
  "ps = pre @ qs \<Longrightarrow> length h = length pre \<Longrightarrow>
   encode_run al (prim_models ps) h enc (map snd qs) = encode_prims al enc qs"
proof (induction qs arbitrary: pre h enc)
  case (Cons q qs)
  obtain m s where q: "q = (m, s)" by fastforce
  have "prim_models ps h = m" using Cons.prems by (simp add: prim_models_def q nth_append)
  moreover have "encode_run al (prim_models ps) (h @ [s]) enc' (map snd qs) = encode_prims al enc' qs" for enc'
    using Cons.IH [of "pre @ [q]" "h @ [s]" enc'] Cons.prems by simp
  ultimately show ?case by (simp add: q)
qed simp

lemma decode_symbol_nonneg: "decode_symbol dec m = Some (v, dec') \<Longrightarrow> 0 \<le> v"
  by (cases m) (auto simp: od_ec_decode_bool_q15_def od_ec_decode_cdf_q15_def od_ec_dec_normalize_def Let_def
    split: if_splits bind_splits)

lemma decode_run_prims:
  "ps = pre @ qs \<Longrightarrow> length h = length pre \<Longrightarrow>
   decode_run (prim_models ps) h dec (length qs) = Some (map snd qs, dec') \<Longrightarrow> decode_prims dec qs = Some dec'"
proof (induction qs arbitrary: pre h dec)
  case (Cons q qs)
  obtain m s where q: "q = (m, s)" by fastforce
  have "prim_models ps h = m" using Cons.prems by (simp add: prim_models_def q nth_append)
  then obtain v dec1 where v: "decode_symbol dec m = Some (v, dec1)" "nat v = s"
    "decode_run (prim_models ps) (h @ [s]) dec1 (length qs) = Some (map snd qs, dec')"
    using Cons.prems(3) by (auto simp: q split: bind_splits)
  moreover have "decode_prims dec1 qs = Some dec'"
    using Cons.IH [of "pre @ [q]" "h @ [s]" dec1] Cons.prems v(3) by simp
  ultimately show ?case using decode_symbol_nonneg [OF v(1)] by (auto simp: q)
qed simp

text \<open>The range coder on prims.\<close>

lemma prims_roundtrip:
  assumes "\<And>n. alloc_ok al n" "0 \<le> sz" "sz < 2 ^ 30" "prims_ok ps" "length ps \<le> 2 ^ 26"
  shows "\<exists>enc enc' out nb dec. encode_prims al (od_ec_enc_init al enc0 sz) ps = Some enc \<and>
    od_ec_enc_done al enc = Some (enc', Some (out, nb)) \<and> 0 \<le> nb \<and> nat nb \<le> length out \<and>
    od_ec_enc_tell enc \<le> 8 * nb \<and> 8 * nb \<le> od_ec_enc_tell enc + 14 \<and>
    1 \<le> od_ec_enc_tell enc \<and> od_ec_enc_tell enc < 2 ^ 31 \<and>
    decode_prims (od_ec_dec_init (take (nat nb) out)) ps = Some dec \<and> od_ec_dec_tell dec = od_ec_enc_tell enc"
proof -
  obtain enc enc' out nb where e: "encode_run al (prim_models ps) [] (od_ec_enc_init al enc0 sz) (map snd ps) = Some enc"
    "od_ec_enc_done al enc = Some (enc', Some (out, nb))" "0 \<le> nb" "nat nb \<le> length out"
    "od_ec_enc_tell enc \<le> int (8 * nat nb)" "int (8 * nat nb) \<le> od_ec_enc_tell enc + 14"
    "1 \<le> od_ec_enc_tell enc" "od_ec_enc_tell enc \<le> 1 + 15 * int (length (map snd ps))"
    "\<forall>pad. \<exists>dec. decode_run (prim_models ps) [] (od_ec_dec_init (take (nat nb) out @ replicate pad 0)) (length (map snd ps)) =
        Some (map snd ps, dec) \<and> od_ec_dec_tell dec = od_ec_enc_tell enc \<and> od_ec_dec_tell_frac dec = od_ec_enc_tell_frac enc"
    using roundtrip_unfailing [OF assms(1-3) prim_models_wf [OF assms(4)] prim_models_valid [OF assms(4), of "[]" ps "[]"], of enc0]
      assms(5) by auto
  obtain dec where d: "decode_run (prim_models ps) [] (od_ec_dec_init (take (nat nb) out)) (length ps) = Some (map snd ps, dec)"
    "od_ec_dec_tell dec = od_ec_enc_tell enc" using e(9) [rule_format, of 0] by auto
  show ?thesis
    using e encode_run_prims [of ps "[]" ps "[]" al "od_ec_enc_init al enc0 sz"]
      decode_run_prims [OF _ _ d(1), of "[]"] d(2) assms(5) by auto
qed

section \<open>Raw bits and binary codes\<close>

definition bit_prim :: "bool \<Rightarrow> prim" where "bit_prim b = (Model_bool 16384, if b then 1 else 0)"

lemma bool_prob_half: "bool_prob 128 = 16384" by (simp add: bool_prob_def shl_def shr_def)

lemma bool_prob_range: "0 < p \<Longrightarrow> p < 256 \<Longrightarrow> 0 < bool_prob p \<and> bool_prob p < 32768"
  by (auto simp: bool_prob_def shl_def shr_def)

lemma bit_prims_ok: "prims_ok (map bit_prim bs)"
  by (induction bs) (auto simp: prims_ok_def bit_prim_def)

text \<open>The writer's state apart from its range coder does not change while it writes.\<close>

definition with_ec :: "aom_writer \<Rightarrow> od_ec_enc \<Rightarrow> aom_writer" where "with_ec w ec = w\<lparr>w_ec := ec\<rparr>"

lemma aom_write_bit_prim:
  "aom_write_bit al w (b2i b) = map_option (with_ec w) (encode_prims al (w_ec w) [bit_prim b])"
proof -
  have "b2i b = int (if b then 1 else 0)" by (simp add: b2i_def)
  then have "aom_write_bit al w (b2i b) =
      map_option (with_ec w) (encode_symbol al (w_ec w) (Model_bool 16384) (if b then 1 else 0))"
    by (simp only: aom_write_bit_def aom_write_def bool_prob_half with_ec_def [abs_def] encode_symbol.simps)
  then show ?thesis by (simp only: bit_prim_def encode_prims.simps Option.bind_runit)
qed

text \<open>The widths that 16-bit alphabets need are defined.\<close>

lemma quniform_width: "n < 65536 \<Longrightarrow> 1 < n \<Longrightarrow> get_msb n \<le> 15 \<and> 2 ^ (get_msb n + 1) \<le> 2 * n" for n :: int
proof -
  assume n: "n < 65536" "1 < n"
  then have "(2::int) ^ get_msb n < 2 ^ 16" using get_msb_bounds [of n] by simp
  then have "get_msb n < 16" by (simp only: power_strict_increasing_iff one_less_numeral_iff semiring_norm)
  then show ?thesis using get_msb_bounds [of n] n by simp
qed

lemma subexpfin_sum_defined: "mk + 3 * 2 ^ b \<le> (2147483647::int)" if "mk < 65536" "b \<le> 16"
  using power_increasing [of b 16 "2::int"] that by simp

lemma write_literal_defined:
  "bits \<le> 32 \<Longrightarrow> 0 \<le> data \<Longrightarrow> data < 2 ^ 31 \<Longrightarrow> aom_write_literal al w data bits = write_literal_loop al w data bits"
  by (simp add: aom_write_literal_def s32_id)

lemma read_literal_defined: "bits \<le> 31 \<Longrightarrow> aom_read_literal r bits = Some (read_literal_loop bits 0 r)"
  by (simp add: aom_read_literal_def)

lemma write_quniform_eq:
  assumes "n < 65536" "0 \<le> v" "v < 65536"
  shows "write_primitive_quniform al w n v =
    (if n \<le> 1 then Some w
     else let l = get_msb n + 1; m = 2 ^ l - n in
       if v < m then write_literal_loop al w v (l - 1)
       else Option.bind (write_literal_loop al w (m + shr (v - m) 1) (l - 1)) (\<lambda>w. aom_write_bit al w ((v - m) AND 1)))"
proof (cases "n \<le> 1")
  case False
  then have l: "get_msb n \<le> 15" "2 ^ (get_msb n + 1) \<le> 2 * n" using quniform_width [OF assms(1)] by auto
  have "n < 2 ^ (get_msb n + 1)" using get_msb_bounds [of n] False by simp
  then show ?thesis using False l assms
    by (auto simp: write_primitive_quniform_def Let_def write_literal_defined shr_def)
qed (simp add: write_primitive_quniform_def)

interpretation sw: code_writer "aom_write_bit al" "write_literal_loop al" "write_primitive_quniform al"
  "write_subexpfin_loop al" for al
proof (unfold_locales, goal_cases)
  case (3 n v s)
  then show ?case by (rule write_quniform_eq)
next
  case (4 n mk v i k s)
  define b where "b = (if i \<noteq> 0 then k + i - 1 else k)"
  have "\<not> 2147483647 < mk + 3 * 2 ^ b" using subexpfin_sum_defined [of mk b] 4 by (simp add: b_def)
  moreover have "aom_write_literal al s' (v - mk) b = write_literal_loop al s' (v - mk) b" for s'
    using 4 by (intro write_literal_defined) (auto simp: b_def)
  ultimately show ?case
    by (subst write_subexpfin_loop.simps) (simp only: Let_def b_def if_False)
qed simp_all

lemma write_bits_prims:
  "write_bits (aom_write_bit al) w bs = map_option (with_ec w) (encode_prims al (w_ec w) (map bit_prim bs))"
proof (induction bs arbitrary: w)
  case Nil
  then show ?case by (simp add: with_ec_def)
next
  case (Cons b bs)
  have "encode_prims al (w_ec w) (map bit_prim (b # bs)) =
      Option.bind (encode_prims al (w_ec w) [bit_prim b]) (\<lambda>enc. encode_prims al enc (map bit_prim bs))"
    using encode_prims_append [of al "w_ec w" "[bit_prim b]" "map bit_prim bs"] by simp
  then show ?case
    by (cases "encode_prims al (w_ec w) [bit_prim b]")
      (simp_all add: aom_write_bit_prim Cons.IH with_ec_def option.map_comp comp_def)
qed

text \<open>A reader of \<open>buf\<close> whose next prims are the bits \<open>bs\<close> followed by \<open>rest\<close>, and whose
  decoder is then \<open>D\<close>.\<close>

definition reads :: "int list \<Rightarrow> int \<Rightarrow> od_ec_dec \<Rightarrow> prim list \<Rightarrow> aom_reader \<Rightarrow> bool" where
  "reads buf a D ps r \<longleftrightarrow> r_buffer r = buf \<and> r_allow_update_cdf r = a \<and> decode_prims (r_ec r) ps = Some D"

definition reads_bits :: "int list \<Rightarrow> int \<Rightarrow> od_ec_dec \<Rightarrow> prim list \<Rightarrow> aom_reader \<Rightarrow> bool list \<Rightarrow> bool" where
  "reads_bits buf a D rest r bs \<longleftrightarrow> reads buf a D (map bit_prim bs @ rest) r"

lemma reads_bool:
  assumes "reads buf a D ((Model_bool (bool_prob p), s) # ps) r"
  shows "\<exists>r'. aom_read r p = (int s, r') \<and> reads buf a D ps r'"
  using assms by (cases "od_ec_decode_bool_q15 (r_ec r) (bool_prob p)")
    (auto simp: reads_def aom_read_def split: if_splits)

interpretation sr: code_reader "reads_bits buf a D rest" aom_read_bit read_literal_loop
  read_primitive_quniform read_subexpfin_loop for buf a D rest
proof (unfold_locales, goal_cases)
  case (1 s b bs)
  then have "reads buf a D ((Model_bool (bool_prob 128), if b then 1 else 0) # map bit_prim bs @ rest) s"
    by (simp add: reads_bits_def bit_prim_def bool_prob_half)
  from reads_bool [OF this] show ?case
    by (auto simp: aom_read_bit_def reads_bits_def b2i_def)
next
  case (4 n s)
  then show ?case using quniform_width [of n]
    by (auto simp: read_primitive_quniform_def read_literal_defined Let_def split: prod.splits)
next
  case (5 n mk i k s)
  define b where "b = (if i \<noteq> 0 then k + i - 1 else k)"
  have "\<not> 2147483647 < mk + 3 * 2 ^ b" using subexpfin_sum_defined [of mk b] 5 by (simp add: b_def)
  moreover have "aom_read_literal r b = Some (read_literal_loop b 0 r)" for r
    using 5 by (intro read_literal_defined) (simp add: b_def)
  moreover have "Option.bind q (\<lambda>(v, r1). Some (u16 (v + mk), r1)) = map_option (\<lambda>(v, s'). (u16 (v + mk), s')) q"
    for q :: "(int \<times> aom_reader) option" by (cases q) auto
  ultimately show ?case
    by (subst read_subexpfin_loop.simps)
      (simp only: Let_def b_def if_False Option.bind.bind_lunit case_prod_beta option.simps(9))
qed simp_all

text \<open>The bits the reference-centred code of \<open>v\<close> has.\<close>

definition refsub_bits :: "int \<Rightarrow> nat \<Rightarrow> int \<Rightarrow> int \<Rightarrow> bool list" where
  "refsub_bits n k ref v = subexpfin_bits n k 0 0 (recenter_finite_nonneg n ref v)"

lemma count_quniform: "count_primitive_quniform n v = int (length (quniform_bits n v))"
  by (auto simp: count_primitive_quniform_def quniform_bits_def Let_def)

lemma count_subexpfin:
  "0 \<le> mk \<Longrightarrow> mk \<le> v \<Longrightarrow> v < n \<Longrightarrow> n < 65536 \<Longrightarrow> (if i \<noteq> 0 then k + i - 1 else k) \<le> 16 \<Longrightarrow>
   count_subexpfin_loop n k v count i mk = Some (count + int (length (subexpfin_bits n k i mk v)))"
proof (induction n k i mk v arbitrary: count rule: subexpfin_bits.induct)
  case (1 n k i mk v)
  define b where "b = (if i \<noteq> 0 then k + i - 1 else k)"
  define a :: int where "a = 2 ^ b"
  have a: "0 < a" by (simp add: a_def)
  have IH: "count_subexpfin_loop n k v c (Suc i) (mk + a) = Some (c + int (length (subexpfin_bits n k (Suc i) (mk + a) v)))"
    if "\<not> n \<le> mk + 3 * a" "v \<ge> mk + a" for c
  proof -
    have "b \<le> 14" using subexpfin_block [of n mk b] that(1) "1.prems" by (simp add: a_def)
    then have "k + i \<le> 16" by (auto simp: b_def split: if_splits)
    then show ?thesis using "1.IH" [OF b_def a_def that] "1.prems" that a by simp
  qed
  have defined: "\<not> 2147483647 < mk + 3 * a"
    using subexpfin_sum_defined [of mk b] "1.prems" by (simp add: a_def b_def)
  have bits: "subexpfin_bits n k i mk v =
      (if n \<le> mk + 3 * a then quniform_bits (n - mk) (v - mk)
       else if v \<ge> mk + a then True # subexpfin_bits n k (Suc i) (mk + a) v
       else False # lit_bits b (v - mk))"
    by (subst subexpfin_bits.simps) (simp only: Let_def a_def b_def)
  have eq: "count_subexpfin_loop n k v count i mk =
      (if n \<le> mk + 3 * a then Some (count + count_primitive_quniform (u16 (n - mk)) (u16 (v - mk)))
       else if v \<ge> mk + a then count_subexpfin_loop n k v (count + 1) (Suc i) (mk + a) else Some (count + 1 + int b))"
    using defined by (subst count_subexpfin_loop.simps) (simp only: Let_def a_def b_def if_False)
  show ?case using "1.prems" IH by (simp add: bits eq count_quniform u16_id)
qed

lemma refsub_range:
  assumes "0 \<le> v" "v < n" "0 \<le> ref" "ref < n" "n < 65536"
  shows "0 \<le> recenter_finite_nonneg n ref v \<and> recenter_finite_nonneg n ref v < n"
  using recenter_finite_range [of ref n v] assms by simp

lemma write_refsub_bits:
  assumes "0 \<le> v" "v < n" "0 \<le> ref" "ref < n" "n < 65536" "k \<le> 16"
  shows "aom_write_primitive_refsubexpfin al w n k ref v = write_bits (aom_write_bit al) w (refsub_bits n k ref v)"
  using sw.subexpfin_writes [of 0 "recenter_finite_nonneg n ref v" n 0 k al w] refsub_range [OF assms(1-5)] assms(5,6)
  by (simp add: aom_write_primitive_refsubexpfin_def write_primitive_subexpfin_def refsub_bits_def)

text \<open>The cost of a binary code. For a value and a reference in \<open>[0, n)\<close> and a parameter
  of at most 16, the number of bits
  \<open>aom_count_primitive_refsubexpfin\<close> predicts is exactly the number of equiprobable bits
  \<open>aom_write_primitive_refsubexpfin\<close> writes.\<close>

theorem refsubexpfin_count:
  assumes "0 \<le> v" "v < n" "0 \<le> ref" "ref < n" "n < 65536" "k \<le> 16"
  shows "\<exists>bs. (\<forall>al w. aom_write_primitive_refsubexpfin al w n k ref v = write_bits (aom_write_bit al) w bs) \<and>
    aom_count_primitive_refsubexpfin n k ref v = Some (int (length bs))"
  using write_refsub_bits [OF assms] refsub_range [OF assms(1-5)] assms(5,6)
    count_subexpfin [of 0 "recenter_finite_nonneg n ref v" n 0 k 0]
  by (auto simp: aom_count_primitive_refsubexpfin_def count_primitive_subexpfin_def refsub_bits_def)

theorem refsubexpfin_count_witness:
  "\<exists>bs. (\<forall>al w. aom_write_primitive_refsubexpfin al w 40 3 17 22 = write_bits (aom_write_bit al) w bs) \<and>
    aom_count_primitive_refsubexpfin 40 3 17 22 = Some (int (length bs))"
  by (rule refsubexpfin_count) simp_all

section \<open>Streams of syntax elements\<close>

text \<open>The kinds of syntax element a codec writes: a boolean with an 8-bit probability, a literal,
  a symbol with the adaptive distribution in context \<open>i\<close>, a reference-centred code.\<close>

datatype syn_elem = Syn_bool int | Syn_literal nat | Syn_symbol nat nat | Syn_refsub int nat int

fun write_syntax :: "allocator \<Rightarrow> aom_writer \<times> int list list \<Rightarrow> syn_elem \<Rightarrow> int \<Rightarrow> (aom_writer \<times> int list list) option" where
  "write_syntax al (w, ctxs) (Syn_bool p) v = map_option (\<lambda>w. (w, ctxs)) (aom_write al w v p)"
| "write_syntax al (w, ctxs) (Syn_literal n) v = map_option (\<lambda>w. (w, ctxs)) (aom_write_literal al w v n)"
| "write_syntax al (w, ctxs) (Syn_symbol i n) v = map_option (\<lambda>(w, c). (w, ctxs[i := c])) (aom_write_symbol al w v (ctxs ! i) n)"
| "write_syntax al (w, ctxs) (Syn_refsub n k ref) v =
     map_option (\<lambda>w. (w, ctxs)) (aom_write_primitive_refsubexpfin al w n k ref v)"

fun read_syntax :: "aom_reader \<times> int list list \<Rightarrow> syn_elem \<Rightarrow> (int \<times> aom_reader \<times> int list list) option" where
  "read_syntax (r, ctxs) (Syn_bool p) = (let (v, r) = aom_read r p in Some (v, r, ctxs))"
| "read_syntax (r, ctxs) (Syn_literal n) = map_option (\<lambda>(v, r). (v, r, ctxs)) (aom_read_literal r n)"
| "read_syntax (r, ctxs) (Syn_symbol i n) = map_option (\<lambda>(v, r, c). (v, r, ctxs[i := c])) (aom_read_symbol r (ctxs ! i) n)"
| "read_syntax (r, ctxs) (Syn_refsub n k ref) =
     map_option (\<lambda>(v, r). (v, r, ctxs)) (aom_read_primitive_refsubexpfin r n k ref)"

fun write_stream :: "allocator \<Rightarrow> aom_writer \<times> int list list \<Rightarrow> (syn_elem \<times> int) list \<Rightarrow> (aom_writer \<times> int list list) option" where
  "write_stream al st [] = Some st"
| "write_stream al st ((x, v) # xs) = Option.bind (write_syntax al st x v) (\<lambda>st. write_stream al st xs)"

fun read_stream :: "aom_reader \<times> int list list \<Rightarrow> syn_elem list \<Rightarrow> (int list \<times> aom_reader \<times> int list list) option" where
  "read_stream (r, ctxs) [] = Some ([], r, ctxs)"
| "read_stream st (x # xs) =
     Option.bind (read_syntax st x) (\<lambda>(v, st). map_option (\<lambda>(vs, st). (v # vs, st)) (read_stream st xs))"

text \<open>The contexts after an element, when adaptation is \<open>a\<close>, its prims, and its valid values.\<close>

fun next_ctxs :: "int \<Rightarrow> int list list \<Rightarrow> syn_elem \<Rightarrow> int \<Rightarrow> int list list" where
  "next_ctxs a ctxs (Syn_symbol i n) v = (if a \<noteq> 0 then ctxs[i := the (update_cdf (ctxs ! i) v n)] else ctxs)"
| "next_ctxs a ctxs x v = ctxs"

fun syn_prims :: "int list list \<Rightarrow> syn_elem \<Rightarrow> int \<Rightarrow> prim list" where
  "syn_prims ctxs (Syn_bool p) v = [(Model_bool (bool_prob p), nat v)]"
| "syn_prims ctxs (Syn_literal n) v = map bit_prim (lit_bits n v)"
| "syn_prims ctxs (Syn_symbol i n) v = [(Model_cdf (ctxs ! i) n, nat v)]"
| "syn_prims ctxs (Syn_refsub n k ref) v = map bit_prim (refsub_bits n k ref v)"

fun syn_ok :: "int list list \<Rightarrow> syn_elem \<Rightarrow> int \<Rightarrow> bool" where
  "syn_ok ctxs (Syn_bool p) v \<longleftrightarrow> 0 < p \<and> p < 256 \<and> (v = 0 \<or> v = 1)"
| "syn_ok ctxs (Syn_literal n) v \<longleftrightarrow> n \<le> 31 \<and> 0 \<le> v \<and> v < 2 ^ n"
| "syn_ok ctxs (Syn_symbol i n) v \<longleftrightarrow> i < length ctxs \<and> wf_cdf (ctxs ! i) n \<and> 2 \<le> n \<and> 0 \<le> v \<and> v < int n"
| "syn_ok ctxs (Syn_refsub n k ref) v \<longleftrightarrow> 0 \<le> v \<and> v < n \<and> 0 \<le> ref \<and> ref < n \<and> n < 65536 \<and> k \<le> 16"

fun stream_ctxs :: "int \<Rightarrow> int list list \<Rightarrow> (syn_elem \<times> int) list \<Rightarrow> int list list" where
  "stream_ctxs a ctxs [] = ctxs"
| "stream_ctxs a ctxs ((x, v) # xs) = stream_ctxs a (next_ctxs a ctxs x v) xs"

fun stream_prims :: "int \<Rightarrow> int list list \<Rightarrow> (syn_elem \<times> int) list \<Rightarrow> prim list" where
  "stream_prims a ctxs [] = []"
| "stream_prims a ctxs ((x, v) # xs) = syn_prims ctxs x v @ stream_prims a (next_ctxs a ctxs x v) xs"

fun stream_ok :: "int \<Rightarrow> int list list \<Rightarrow> (syn_elem \<times> int) list \<Rightarrow> bool" where
  "stream_ok a ctxs [] \<longleftrightarrow> True"
| "stream_ok a ctxs ((x, v) # xs) \<longleftrightarrow> syn_ok ctxs x v \<and> stream_ok a (next_ctxs a ctxs x v) xs"

lemma syn_prims_ok: "syn_ok ctxs x v \<Longrightarrow> prims_ok (syn_prims ctxs x v)"
  by (cases x) (auto simp: bit_prims_ok, auto simp: prims_ok_def bool_prob_range wf_cdf_def)

lemma stream_prims_ok: "stream_ok a ctxs xs \<Longrightarrow> prims_ok (stream_prims a ctxs xs)"
  by (induction a ctxs xs rule: stream_ok.induct) (auto simp: prims_ok_def dest: syn_prims_ok [unfolded prims_ok_def])

lemma update_some:
  "wf_cdf cdf n \<Longrightarrow> 2 \<le> n \<Longrightarrow> 0 \<le> v \<Longrightarrow> v < int n \<Longrightarrow> update_cdf cdf v n = Some (the (update_cdf cdf v n))"
  using update_cdf_spec [of cdf n v] by auto

lemma write_syntax_prims:
  assumes "syn_ok ctxs x v"
  shows "write_syntax al (w, ctxs) x v =
    map_option (\<lambda>ec. (with_ec w ec, next_ctxs (w_allow_update_cdf w) ctxs x v)) (encode_prims al (w_ec w) (syn_prims ctxs x v))"
proof (cases x)
  case (Syn_bool p)
  then have "v = int (nat v)" using assms by auto
  then show ?thesis using Syn_bool
    by (simp add: aom_write_def with_ec_def option.map_comp comp_def)
next
  case (Syn_literal n)
  have "v < 2 ^ 31" using assms Syn_literal power_increasing [of n 31 "2::int"] by simp
  then show ?thesis using assms Syn_literal
    by (simp add: write_literal_defined sw.literal_writes write_bits_prims option.map_comp comp_def)
next
  case (Syn_symbol i n)
  then obtain c where "update_cdf (ctxs ! i) v n = Some c" using assms update_some by auto
  then show ?thesis using assms Syn_symbol
    by (cases "od_ec_encode_cdf_q15 al (w_ec w) (nat v) (ctxs ! i) n")
      (auto simp: aom_write_symbol_def aom_write_cdf_def with_ec_def)
next
  case (Syn_refsub n k ref)
  then show ?thesis using assms
    by (simp add: write_refsub_bits write_bits_prims option.map_comp comp_def)
qed

lemma write_stream_prims:
  "stream_ok (w_allow_update_cdf w) ctxs xs \<Longrightarrow> write_stream al (w, ctxs) xs =
    map_option (\<lambda>ec. (with_ec w ec, stream_ctxs (w_allow_update_cdf w) ctxs xs))
      (encode_prims al (w_ec w) (stream_prims (w_allow_update_cdf w) ctxs xs))"
proof (induction xs arbitrary: w ctxs)
  case (Cons xv xs)
  obtain x v where x: "xv = (x, v)" by fastforce
  let ?a = "w_allow_update_cdf w"
  have ok: "syn_ok ctxs x v" "stream_ok ?a (next_ctxs ?a ctxs x v) xs" using Cons.prems by (simp_all add: x)
  have "write_stream al (with_ec w ec, next_ctxs ?a ctxs x v) xs = map_option (\<lambda>e. (with_ec w e, stream_ctxs ?a ctxs (xv # xs)))
      (encode_prims al ec (stream_prims ?a (next_ctxs ?a ctxs x v) xs))" for ec
    using Cons.IH [of "with_ec w ec" "next_ctxs ?a ctxs x v"] ok(2) by (simp add: with_ec_def x)
  then show ?case
    using write_syntax_prims [OF ok(1), of al w]
    by (cases "encode_prims al (w_ec w) (syn_prims ctxs x v)") (simp_all add: x encode_prims_append)
qed (simp add: with_ec_def)

lemma read_syntax_prims:
  assumes "syn_ok ctxs x v" "reads buf a D (syn_prims ctxs x v @ rest) r"
  shows "\<exists>r'. read_syntax (r, ctxs) x = Some (v, r', next_ctxs a ctxs x v) \<and> reads buf a D rest r'"
proof (cases x)
  case (Syn_bool p)
  then show ?thesis using assms reads_bool [of buf a D p "nat v" rest r] by auto
next
  case (Syn_literal n)
  have "reads_bits buf a D rest r (lit_bits n v @ [])" using assms(2) Syn_literal by (simp add: reads_bits_def)
  from sr.literal_reads0 [OF this] show ?thesis
    using assms(1) Syn_literal by (auto simp: aom_read_literal_def reads_bits_def)
next
  case (Syn_symbol i n)
  then obtain dec where d: "od_ec_decode_cdf_q15 (r_ec r) (ctxs ! i) n = Some (v, dec)" "decode_prims dec rest = Some D"
    using assms by (auto simp: reads_def split: bind_splits if_splits)
  obtain c where "update_cdf (ctxs ! i) v n = Some c" using assms Syn_symbol update_some by auto
  then show ?thesis using d assms(2) Syn_symbol
    by (auto simp: aom_read_symbol_def aom_read_cdf_def reads_def)
next
  case (Syn_refsub n k ref)
  let ?c = "recenter_finite_nonneg n ref v"
  have ok: "0 \<le> v" "v < n" "0 \<le> ref" "ref < n" "n < 65536" "k \<le> 16" using assms(1) Syn_refsub by simp_all
  have "reads_bits buf a D rest r (subexpfin_bits n k 0 0 ?c @ [])"
    using assms(2) Syn_refsub by (simp add: reads_bits_def refsub_bits_def)
  from sr.subexpfin_reads [OF this] obtain r' where "read_subexpfin_loop r n k 0 0 = Some (?c, r')" "reads_bits buf a D rest r' []"
    using refsub_range [OF ok(1-5)] ok(5,6) by auto
  then show ?thesis using recenter_finite_inverse [of ref n v] ok Syn_refsub
    by (auto simp: aom_read_primitive_refsubexpfin_def read_primitive_subexpfin_def reads_bits_def)
qed

lemma read_stream_prims:
  "stream_ok a ctxs xs \<Longrightarrow> reads buf a D (stream_prims a ctxs xs) r \<Longrightarrow>
   \<exists>r'. read_stream (r, ctxs) (map fst xs) = Some (map snd xs, r', stream_ctxs a ctxs xs) \<and> reads buf a D [] r'"
proof (induction a ctxs xs arbitrary: r rule: stream_ok.induct)
  case (2 a ctxs x v xs)
  then obtain r1 where "read_syntax (r, ctxs) x = Some (v, r1, next_ctxs a ctxs x v)"
    "reads buf a D (stream_prims a (next_ctxs a ctxs x v) xs) r1"
    using read_syntax_prims [of ctxs x v buf a D "stream_prims a (next_ctxs a ctxs x v) xs" r] by auto
  then show ?case using "2.IH" [of r1] "2.prems"(1) by auto
qed simp

lemma enc_done_tell: "od_ec_enc_done al enc = Some (enc', r) \<Longrightarrow> od_ec_enc_tell enc' = od_ec_enc_tell enc"
  by (auto simp: od_ec_enc_done_def od_ec_enc_tell_def Let_def split: if_splits option.splits bind_splits)

text \<open>C6. Adaptive streams. Any sequence of booleans, literals of at most 31 bits, binary codes of
  16-bit alphabets with a parameter of at most 16 and symbols with adaptive distributions, each
  value valid for its element and the contexts as they evolve, is written without leaving a
  buffer or an \<open>int\<close>. Then either the buffer given to \<open>aom_start_encode\<close> is too small for the stream and
  \<open>aom_stop_encode\<close> returns -1, or the bytes it leaves there are read back by a fresh reader
  from the same initial contexts: the same values, the same contexts at the end, the bit count
  the writer returned, and no overflow reported.\<close>

theorem adaptive_stream_roundtrip:
  assumes al: "\<forall>n. alloc_ok al n" and ok: "stream_ok a ctxs xs" "length (stream_prims a ctxs xs) \<le> 2 ^ 26"
    and buf: "0 \<le> sz" "sz \<le> int (length buf)" and a: "w_allow_update_cdf w0 = a" "r_allow_update_cdf r0 = a"
  shows "\<exists>w1 res w2. write_stream al (aom_start_encode al w0 buf sz, ctxs) xs = Some (w1, stream_ctxs a ctxs xs) \<and>
    aom_stop_encode al w1 = Some (res, w2) \<and>
    (res = -1 \<and> 8 * sz < aom_tell_size w1 + 7 \<or>
     1 \<le> res \<and> res = aom_tell_size w1 \<and> 0 \<le> w_pos w2 \<and> w_pos w2 \<le> sz \<and>
     (\<exists>r1 r2. aom_reader_init r0 (Some (take (nat (w_pos w2)) (w_buffer w2))) = (0, r1) \<and>
       read_stream (r1, ctxs) (map fst xs) = Some (map snd xs, r2, stream_ctxs a ctxs xs) \<and>
       aom_reader_tell r2 = res \<and> \<not> aom_reader_has_overflowed r2))"
proof -
  define ps where "ps = stream_prims a ctxs xs"
  define ws where "ws = aom_start_encode al w0 buf sz"
  have ws: "w_ec ws = od_ec_enc_init al (w_ec w0) 62025" "w_allow_update_cdf ws = a" "w_buffer ws = buf" "w_size ws = sz"
    using a by (simp_all add: ws_def aom_start_encode_def)
  obtain enc enc' out nb dec where e: "encode_prims al (w_ec ws) ps = Some enc"
    "od_ec_enc_done al enc = Some (enc', Some (out, nb))" "0 \<le> nb" "nat nb \<le> length out"
    "od_ec_enc_tell enc \<le> 8 * nb" "8 * nb \<le> od_ec_enc_tell enc + 14" "1 \<le> od_ec_enc_tell enc" "od_ec_enc_tell enc < 2 ^ 31"
    and d: "decode_prims (od_ec_dec_init (take (nat nb) out)) ps = Some dec" "od_ec_dec_tell dec = od_ec_enc_tell enc"
    using prims_roundtrip [of al 62025 ps "w_ec w0"] al stream_prims_ok [OF ok(1)] ok(2) by (auto simp: ps_def ws)
  have wr: "write_stream al (ws, ctxs) xs = Some (with_ec ws enc, stream_ctxs a ctxs xs)"
    using write_stream_prims [of ws ctxs xs al] ok(1) e(1) by (simp add: ws ps_def)
  define w1 where "w1 = with_ec ws enc"
  have w1: "w_ec w1 = enc" "w_size w1 = sz" "w_buffer w1 = buf" by (simp_all add: w1_def with_ec_def ws)
  have t': "od_ec_enc_tell enc' = od_ec_enc_tell enc" using enc_done_tell [OF e(2)] .
  show ?thesis
  proof (cases "nb > sz")
    case True
    then have "aom_stop_encode al w1 = Some (-1, w1\<lparr>w_ec := od_ec_enc_clear enc'\<rparr>)"
      using e(2) by (simp add: aom_stop_encode_def w1)
    moreover have "8 * sz < aom_tell_size w1 + 7" using True e(6) by (simp add: aom_tell_size_def w1)
    ultimately show ?thesis using wr by (auto simp: w1_def ws_def)
  next
    case False
    have n: "nat nb \<le> length buf" using False buf by linarith
    define buf2 where "buf2 = take (nat nb) out @ drop (nat nb) buf"
    have m: "memcpy_at buf 0 (take (nat nb) out) = Some buf2"
      using n e(4) by (simp add: memcpy_at_def buf2_def)
    define w2 where "w2 = w1\<lparr>w_buffer := buf2, w_pos := nb, w_ec := od_ec_enc_clear enc'\<rparr>"
    have st: "aom_stop_encode al w1 = Some (od_ec_enc_tell enc, w2)"
      using e(2) False m t' by (simp add: aom_stop_encode_def w1 w2_def)
    define bs where "bs = take (nat nb) out"
    have bs: "take (nat (w_pos w2)) (w_buffer w2) = bs" "length bs = nat nb"
      using e(4) by (simp_all add: w2_def buf2_def bs_def)
    have sm: "u32 (int (length bs)) = int (length bs)" using e(3,6,8) bs(2) by (simp add: u32_id)
    define r1 where "r1 = r0\<lparr>r_buffer := bs, r_ec := od_ec_dec_init bs\<rparr>"
    have ri: "aom_reader_init r0 (Some bs) = (0, r1)" by (simp add: aom_reader_init_def r1_def sm)
    have "reads bs a dec ps r1" using d(1) a by (simp add: reads_def r1_def bs_def)
    from read_stream_prims [OF ok(1) this [unfolded ps_def]] obtain r2 where
      r2: "read_stream (r1, ctxs) (map fst xs) = Some (map snd xs, r2, stream_ctxs a ctxs xs)" "r_buffer r2 = bs" "r_ec r2 = dec"
      by (auto simp: reads_def)
    have tell: "aom_reader_tell r2 = od_ec_enc_tell enc" using d(2) r2(3) e(7,8) by (simp add: aom_reader_tell_def u32_id)
    have "\<not> aom_reader_has_overflowed r2"
      using e(3,5,7,8) by (simp add: aom_reader_has_overflowed_def tell r2(2) bs(2) u32_id shr_def)
    moreover have "write_stream al (aom_start_encode al w0 buf sz, ctxs) xs = Some (w1, stream_ctxs a ctxs xs)"
      using wr by (simp add: w1_def ws_def)
    ultimately show ?thesis
      using st e(3,7) False ri r2(1) tell bs(1) by (auto simp: aom_tell_size_def w1(1) w2_def)
  qed
qed

definition sample_stream :: "(syn_elem \<times> int) list" where
  "sample_stream = [(Syn_symbol 0 3, 1), (Syn_literal 4, 9), (Syn_bool 200, 1), (Syn_symbol 0 3, 2), (Syn_refsub 40 3 17, 22)]"

definition sample_writer :: aom_writer where
  "sample_writer = \<lparr>w_pos = 0, w_buffer = [], w_size = 0, w_ec = sample_enc, w_allow_update_cdf = 1\<rparr>"

definition sample_reader :: aom_reader where
  "sample_reader = \<lparr>r_buffer = [], r_ec = od_ec_dec_init [], r_allow_update_cdf = 1\<rparr>"

theorem adaptive_stream_roundtrip_witness:
  "\<exists>w1 res w2 c. write_stream sample_alloc (aom_start_encode sample_alloc sample_writer (replicate 64 0) 64, [[24576, 8192, 0, 0]])
      sample_stream = Some (w1, c) \<and> aom_stop_encode sample_alloc w1 = Some (res, w2) \<and>
    (res = -1 \<and> 8 * 64 < aom_tell_size w1 + 7 \<or>
     (\<exists>r1 r2. aom_reader_init sample_reader (Some (take (nat (w_pos w2)) (w_buffer w2))) = (0, r1) \<and>
       read_stream (r1, [[24576, 8192, 0, 0]]) (map fst sample_stream) = Some ([1, 9, 1, 2, 22], r2, c) \<and>
       \<not> aom_reader_has_overflowed r2))"
proof -
  have u: "update_cdf [24576, 8192, 0, 0] 1 3 = Some [25088, 7680, 0, 1]" by code_simp
  have wf: "wf_cdf [24576, 8192, 0, 0] 3" "wf_cdf [25088, 7680, 0, 1] 3"
    by (auto simp: wf_cdf_def wf_icdf_def less_Suc_eq numeral_3_eq_3)
  have ok: "stream_ok 1 [[24576, 8192, 0, 0]] sample_stream" using u wf by (simp add: sample_stream_def)
  have "length (stream_prims 1 [[24576, 8192, 0, 0]] sample_stream) = 12" by code_simp
  then have len: "length (stream_prims 1 [[24576, 8192, 0, 0]] sample_stream) \<le> 2 ^ 26" by simp
  have al: "\<forall>n. alloc_ok sample_alloc n" by (simp add: sample_alloc_def)
  have fl: "w_allow_update_cdf sample_writer = 1" "r_allow_update_cdf sample_reader = 1"
    by (simp_all add: sample_writer_def sample_reader_def)
  have vs: "map snd sample_stream = [1, 9, 1, 2, 22]" by (simp add: sample_stream_def)
  show ?thesis
    using adaptive_stream_roundtrip [OF al ok len _ _ fl, of 64 "replicate 64 0"] unfolding vs by fastforce
qed

end
