(* ===== verification/Aom_Mem.thy ===== *)
theory Aom_Mem
  imports Prelude
begin

text \<open>
  \<open>aom_mem/aom_mem.c\<close>: the aligned allocator on top of the C library's. The heap is the
  byte memory and the list of live blocks; the address \<open>malloc\<close> picks is an argument
  (\<open>0\<close>, or any address where the block would not be fresh, is a refused request), so a
  statement about every address covers every allocator. The aligned allocator hides the
  address \<open>malloc\<close> returned in the eight bytes before the pointer it hands out, and finds
  it there again to free the block.
\<close>

definition ADDRESS_STORAGE_SIZE :: int where "ADDRESS_STORAGE_SIZE = 8"
definition DEFAULT_ALIGNMENT :: int where "DEFAULT_ALIGNMENT = 16"
definition AOM_MAX_ALLOCABLE_MEMORY :: int where "AOM_MAX_ALLOCABLE_MEMORY = 8589934592"

record heap =
  mem :: "int \<Rightarrow> int"
  live :: "(int \<times> int) list"

definition fresh_block :: "heap \<Rightarrow> int \<Rightarrow> int \<Rightarrow> bool" where
  "fresh_block h a n \<longleftrightarrow> 0 < a \<and> a + n < 18446744073709551616 \<and>
     list_all (\<lambda>(b, k). b \<noteq> a \<and> (a + n \<le> b \<or> b + k \<le> a)) (live h)"

definition c_malloc :: "int \<Rightarrow> heap \<Rightarrow> int \<Rightarrow> int \<times> heap" where
  "c_malloc pick h n =
     (if fresh_block h pick n then (pick, h\<lparr>live := (pick, n) # live h\<rparr>) else (0, h))"

text \<open>Freeing anything but NULL or a live block is undefined.\<close>

definition c_free :: "heap \<Rightarrow> int \<Rightarrow> heap option" where
  "c_free h a =
     (if a = 0 then Some h
      else if list_ex (\<lambda>(b, k). b = a) (live h) then Some (h\<lparr>live := filter (\<lambda>(b, k). b \<noteq> a) (live h)\<rparr>)
      else None)"

text \<open>A \<open>size_t\<close> in memory, little-endian.\<close>

definition load64 :: "(int \<Rightarrow> int) \<Rightarrow> int \<Rightarrow> int" where
  "load64 m a = (\<Sum>i\<leftarrow>[0..<8]. m (a + int i) * 256 ^ i)"

definition store64 :: "(int \<Rightarrow> int) \<Rightarrow> int \<Rightarrow> int \<Rightarrow> (int \<Rightarrow> int)" where
  "store64 m a v = (\<lambda>x. if a \<le> x \<and> x < a + 8 then shr v (8 * nat (x - a)) mod 256 else m x)"

definition memset :: "(int \<Rightarrow> int) \<Rightarrow> int \<Rightarrow> int \<Rightarrow> int \<Rightarrow> (int \<Rightarrow> int)" where
  "memset m a v n = (\<lambda>x. if a \<le> x \<and> x < a + n then v else m x)"

section \<open>The allocator\<close>

definition GetAllocationPaddingSize :: "int \<Rightarrow> int" where
  "GetAllocationPaddingSize align = u64 (align - 1 + ADDRESS_STORAGE_SIZE)"

definition check_size_argument_overflow :: "int \<Rightarrow> int \<Rightarrow> int \<Rightarrow> bool" where
  "check_size_argument_overflow nmemb sz align =
     (if nmemb = 0 then True
      else
        let alloc_padding = GetAllocationPaddingSize align in
        \<not> sz > u64 (AOM_MAX_ALLOCABLE_MEMORY - alloc_padding) div nmemb)"

definition GetMallocAddressLocation :: "int \<Rightarrow> int" where
  "GetMallocAddressLocation x = x - 8"

definition SetActualMallocAddress :: "heap \<Rightarrow> int \<Rightarrow> int \<Rightarrow> heap" where
  "SetActualMallocAddress h x malloc_addr =
     h\<lparr>mem := store64 (mem h) (GetMallocAddressLocation x) malloc_addr\<rparr>"

definition GetActualMallocAddress :: "heap \<Rightarrow> int \<Rightarrow> int" where
  "GetActualMallocAddress h x = load64 (mem h) (GetMallocAddressLocation x)"

definition aom_align_addr :: "int \<Rightarrow> int \<Rightarrow> int" where
  "aom_align_addr addr align = u64 (addr + align - 1) AND NOT (align - 1)"

definition aom_memalign :: "int \<Rightarrow> heap \<Rightarrow> int \<Rightarrow> int \<Rightarrow> int \<times> heap" where
  "aom_memalign pick h align sz =
     (if \<not> check_size_argument_overflow 1 sz align then (0, h)
      else
        let aligned_size = u64 (sz + GetAllocationPaddingSize align);
            (addr, h) = c_malloc pick h aligned_size in
        if addr \<noteq> 0 then
          let x = aom_align_addr (addr + ADDRESS_STORAGE_SIZE) align in (x, SetActualMallocAddress h x addr)
        else (0, h))"

definition aom_malloc :: "int \<Rightarrow> heap \<Rightarrow> int \<Rightarrow> int \<times> heap" where
  "aom_malloc pick h sz = aom_memalign pick h DEFAULT_ALIGNMENT sz"

definition aom_calloc :: "int \<Rightarrow> heap \<Rightarrow> int \<Rightarrow> int \<Rightarrow> int \<times> heap" where
  "aom_calloc pick h num sz =
     (if \<not> check_size_argument_overflow num sz DEFAULT_ALIGNMENT then (0, h)
      else
        let total_size = u64 (num * sz);
            (x, h) = aom_malloc pick h total_size in
        if x \<noteq> 0 then (x, h\<lparr>mem := memset (mem h) x 0 total_size\<rparr>) else (x, h))"

definition aom_free :: "heap \<Rightarrow> int \<Rightarrow> heap option" where
  "aom_free h memblk =
     (if memblk \<noteq> 0 then c_free h (GetActualMallocAddress h memblk) else Some h)"

section \<open>Properties\<close>

lemma upt_8: "[0..<8] = [0, 1, 2, 3, 4, 5, 6, 7::nat]" by (simp add: upt_rec)

lemma base256_digits:
  fixes v :: int
  shows "(\<Sum>i\<leftarrow>[0..<n]. (v div 2 ^ (8 * i) mod 256) * 256 ^ i) = v mod 256 ^ n"
proof (induction n)
  case (Suc n)
  have "v mod (256 ^ n * 256) = 256 ^ n * (v div 256 ^ n mod 256) + v mod 256 ^ n"
    by (rule zmod_zmult2_eq) simp
  moreover have "(2::int) ^ (8 * n) = 256 ^ n" by (simp add: power_mult)
  ultimately show ?case using Suc.IH by (simp add: mult.commute)
qed simp

lemma load_store64:
  assumes "0 \<le> v" "v < 18446744073709551616"
  shows "load64 (store64 m a v) a = v"
proof -
  have "load64 (store64 m a v) a = (\<Sum>i\<leftarrow>[0..<8]. (v div 2 ^ (8 * i) mod 256) * 256 ^ i)"
    unfolding load64_def by (intro arg_cong [where f = sum_list] map_cong refl) (auto simp: store64_def shr_def)
  then show ?thesis using base256_digits [of v 8] assms by simp
qed

lemma load64_cong: "(\<And>x. a \<le> x \<Longrightarrow> x < a + 8 \<Longrightarrow> m' x = m x) \<Longrightarrow> load64 m' a = load64 m a"
  by (simp add: load64_def upt_8)

lemma align_addr_props:
  assumes "align = 2 ^ k" "0 \<le> addr" "addr + align - 1 < 18446744073709551616"
  shows "addr \<le> aom_align_addr addr align" "aom_align_addr addr align < addr + align"
    "aom_align_addr addr align mod align = 0"
proof -
  have a: "1 \<le> align" using assms(1) by simp
  then have "u64 (addr + align - 1) = addr + align - 1" using assms(2,3) by (simp add: u64_id)
  then have eq: "aom_align_addr addr align = (addr + align - 1) div align * align"
    using and_not_mask_div [of "addr + align - 1" k] by (simp add: aom_align_addr_def assms(1))
  show "aom_align_addr addr align mod align = 0" by (simp add: eq)
  have "(addr + align - 1) mod align < align" "0 \<le> (addr + align - 1) mod align" using a by simp_all
  then show "addr \<le> aom_align_addr addr align" "aom_align_addr addr align < addr + align"
    using minus_mod_eq_div_mult [of "addr + align - 1" align] unfolding eq by linarith+
qed

lemma padding_eq: "1 \<le> align \<Longrightarrow> align \<le> 65536 \<Longrightarrow> GetAllocationPaddingSize align = align + 7"
  by (simp add: GetAllocationPaddingSize_def ADDRESS_STORAGE_SIZE_def u64_id)

text \<open>A size that passes the check never wraps, whatever the element count.\<close>

lemma check_size_bounds:
  assumes "check_size_argument_overflow nmemb sz align" "0 \<le> nmemb" "0 \<le> sz" "1 \<le> align" "align \<le> 65536"
  shows "nmemb * sz + GetAllocationPaddingSize align \<le> AOM_MAX_ALLOCABLE_MEMORY"
proof (cases "nmemb = 0")
  case True
  then show ?thesis using assms(4,5) by (simp add: padding_eq AOM_MAX_ALLOCABLE_MEMORY_def)
next
  case False
  define M where "M = AOM_MAX_ALLOCABLE_MEMORY - GetAllocationPaddingSize align"
  have "u64 M = M" using assms(4,5) by (simp add: M_def padding_eq AOM_MAX_ALLOCABLE_MEMORY_def u64_id)
  then have "sz \<le> M div nmemb"
    using assms(1) False by (simp add: check_size_argument_overflow_def Let_def flip: M_def)
  then have "sz * nmemb \<le> M" using False assms(2) by (simp add: le_div_int_iff)
  then show ?thesis by (simp add: M_def mult.commute)
qed

lemma memalign_size_le:
  assumes "aom_memalign pick h align sz = (x, h')" "x \<noteq> 0" "1 \<le> align" "align \<le> 65536" "0 \<le> sz"
  shows "sz + align + 7 \<le> AOM_MAX_ALLOCABLE_MEMORY"
proof -
  have "check_size_argument_overflow 1 sz align"
    using assms(1,2) by (auto simp: aom_memalign_def split: if_splits)
  from check_size_bounds [OF this _ assms(5,3,4)] show ?thesis using padding_eq [OF assms(3,4)] by simp
qed

lemma memalign_nonnull:
  assumes "aom_memalign pick h align sz = (x, h')" "x \<noteq> 0" "align = 2 ^ k" "align \<le> 65536" "0 \<le> sz"
  shows "pick + 8 \<le> x" "x + sz \<le> pick + (sz + align + 7)" "x mod align = 0" "0 < pick"
    "fresh_block h pick (sz + align + 7)" "pick + (sz + align + 7) < 18446744073709551616"
    "h' = h\<lparr>mem := store64 (mem h) (x - 8) pick, live := (pick, sz + align + 7) # live h\<rparr>"
proof -
  have a: "1 \<le> align" using assms(3) by simp
  have chk: "check_size_argument_overflow 1 sz align"
    using assms(1,2) by (auto simp: aom_memalign_def split: if_splits)
  have le: "sz + align + 7 \<le> AOM_MAX_ALLOCABLE_MEMORY" by (rule memalign_size_le [OF assms(1,2) a assms(4,5)])
  then have u: "u64 (sz + GetAllocationPaddingSize align) = sz + align + 7"
    using assms(4,5) a by (simp add: padding_eq AOM_MAX_ALLOCABLE_MEMORY_def u64_id)
  have fresh: "fresh_block h pick (sz + align + 7)"
    using assms(1,2) chk u by (auto simp: aom_memalign_def c_malloc_def Let_def split: if_splits)
  then show "fresh_block h pick (sz + align + 7)" .
  show pk: "0 < pick" "pick + (sz + align + 7) < 18446744073709551616"
    using fresh by (simp_all add: fresh_block_def)
  have eq: "x = aom_align_addr (pick + 8) align"
    "h' = h\<lparr>mem := store64 (mem h) (x - 8) pick, live := (pick, sz + align + 7) # live h\<rparr>"
    using assms(1) chk u fresh pk(1)
    by (auto simp: aom_memalign_def c_malloc_def ADDRESS_STORAGE_SIZE_def SetActualMallocAddress_def
      GetMallocAddressLocation_def Let_def)
  then show "h' = h\<lparr>mem := store64 (mem h) (x - 8) pick, live := (pick, sz + align + 7) # live h\<rparr>" by simp
  show "pick + 8 \<le> x" "x + sz \<le> pick + (sz + align + 7)" "x mod align = 0"
    using align_addr_props [OF assms(3), of "pick + 8"] pk assms(5) unfolding eq(1) by simp_all
qed

text \<open>The hidden address survives whatever the owner of the block does with it.\<close>

lemma free_after_use:
  assumes "aom_memalign pick h align sz = (x, h')" "x \<noteq> 0" "align = 2 ^ k" "align \<le> 65536" "0 \<le> sz"
    and "\<And>a. a < x \<or> x + sz \<le> a \<Longrightarrow> m a = mem h' a"
  shows "aom_free (h'\<lparr>mem := m\<rparr>) x = Some (h'\<lparr>mem := m, live := live h\<rparr>)"
proof -
  note n = memalign_nonnull [OF assms(1-5)]
  have "load64 m (x - 8) = load64 (mem h') (x - 8)" using assms(6) by (intro load64_cong) simp
  also have "\<dots> = pick"
  proof -
    have "1 \<le> align" using assms(3) by simp
    then have "pick < 18446744073709551616" using n(6) assms(5) by linarith
    then show ?thesis using n(4) by (simp add: n(7) load_store64)
  qed
  finally have "GetActualMallocAddress (h'\<lparr>mem := m\<rparr>) x = pick"
    by (simp add: GetActualMallocAddress_def GetMallocAddressLocation_def)
  moreover have "filter (\<lambda>(b, k). b \<noteq> pick) (live h) = live h"
    using n(5) by (auto simp: fresh_block_def list_all_iff filter_id_conv)
  ultimately show ?thesis using assms(2) n(4) by (simp add: aom_free_def c_free_def n(7))
qed

text \<open>Aligned allocation. Whatever address \<open>malloc\<close> picks, a block from
  \<open>aom_memalign\<close> is aligned, its \<open>sz\<close> bytes and the hidden address before them lie
  inside the one live block added to the heap, and after any writes to those bytes
  \<open>aom_free\<close> releases exactly that block.\<close>

theorem memalign_free:
  assumes "aom_memalign pick h align sz = (x, h')" "x \<noteq> 0" "align = 2 ^ k" "align \<le> 65536" "0 \<le> sz"
    and "\<forall>a. a < x \<or> x + sz \<le> a \<longrightarrow> m a = mem h' a"
  shows "x mod align = 0 \<and> (\<exists>n. live h' = (pick, n) # live h \<and> pick + 8 \<le> x \<and> x + sz \<le> pick + n \<and>
      fresh_block h pick n) \<and>
    aom_free (h'\<lparr>mem := m\<rparr>) x = Some (h'\<lparr>mem := m, live := live h\<rparr>)"
  using memalign_nonnull [OF assms(1-5)] free_after_use [OF assms(1-5), of m] assms(6) by auto

definition sample_heap :: heap where
  "sample_heap = \<lparr>mem = \<lambda>_. 7, live = [(4096, 64)]\<rparr>"

theorem memalign_free_witness:
  "(let (x, h') = aom_memalign 5008 sample_heap 32 100 in
     x mod 32 = 0 \<and> (\<exists>n. live h' = (5008, n) # live sample_heap \<and> 5008 + 8 \<le> x \<and> x + 100 \<le> 5008 + n \<and>
       fresh_block sample_heap 5008 n) \<and>
     aom_free (h'\<lparr>mem := (mem h')(x + 99 := 1)\<rparr>) x = Some (h'\<lparr>mem := (mem h')(x + 99 := 1), live := live sample_heap\<rparr>))"
proof -
  obtain x h' where e: "aom_memalign 5008 sample_heap 32 100 = (x, h')" by fastforce
  have "fst (aom_memalign 5008 sample_heap 32 100) = 5024" by code_simp
  then have "x = 5024" using e by simp
  then show ?thesis unfolding e Let_def prod.case
    by (intro memalign_free [OF e, of 5]) simp_all
qed

text \<open>Zeroed allocation. A block from \<open>aom_calloc\<close> holds \<open>num * sz\<close> zero bytes with
  no wrap-around of the product, the zeroing does not damage the hidden address, and
  \<open>aom_free\<close> releases exactly that block.\<close>

theorem calloc_free:
  assumes "aom_calloc pick h num sz = (x, h')" "x \<noteq> 0" "0 \<le> num" "0 \<le> sz"
  shows "num * sz \<le> AOM_MAX_ALLOCABLE_MEMORY \<and> x mod 16 = 0 \<and>
    (\<forall>a. x \<le> a \<and> a < x + num * sz \<longrightarrow> mem h' a = 0) \<and>
    aom_free h' x = Some (h'\<lparr>live := live h\<rparr>)"
proof -
  have chk: "check_size_argument_overflow num sz 16"
    using assms(1,2) by (auto simp: aom_calloc_def DEFAULT_ALIGNMENT_def split: if_splits)
  from check_size_bounds [OF this assms(3,4)]
  have le: "num * sz \<le> AOM_MAX_ALLOCABLE_MEMORY" by (simp add: padding_eq)
  moreover have nn: "0 \<le> num * sz" using assms(3,4) by simp
  ultimately have u: "u64 (num * sz) = num * sz" by (simp add: AOM_MAX_ALLOCABLE_MEMORY_def u64_id)
  obtain x1 h1 where al: "aom_memalign pick h 16 (num * sz) = (x1, h1)" by fastforce
  then have h': "x1 = x" "h' = h1\<lparr>mem := memset (mem h1) x 0 (num * sz)\<rparr>"
    using assms(1,2) chk by (auto simp: aom_calloc_def aom_malloc_def DEFAULT_ALIGNMENT_def u Let_def split: if_splits)
  have "mem h' a = mem h1 a" if "a < x \<or> x + num * sz \<le> a" for a
    using that by (auto simp: h'(2) memset_def)
  from free_after_use [OF al [unfolded h'(1)] assms(2) _ _ nn this, of 4]
  have "aom_free h' x = Some (h'\<lparr>live := live h\<rparr>)" by (simp add: h'(2))
  then show ?thesis using memalign_nonnull(3) [OF al [unfolded h'(1)] assms(2) _ _ nn, of 4] le
    by (simp add: h'(2) memset_def)
qed

theorem calloc_free_witness:
  "(let (x, h') = aom_calloc 5008 sample_heap 3 8 in
     3 * 8 \<le> AOM_MAX_ALLOCABLE_MEMORY \<and> x mod 16 = 0 \<and>
     (\<forall>a. x \<le> a \<and> a < x + 3 * 8 \<longrightarrow> mem h' a = 0) \<and> aom_free h' x = Some (h'\<lparr>live := live sample_heap\<rparr>))"
proof -
  obtain x h' where e: "aom_calloc 5008 sample_heap 3 8 = (x, h')" by fastforce
  have "fst (aom_calloc 5008 sample_heap 3 8) = 5024" by code_simp
  then have "x = 5024" using e by simp
  then show ?thesis unfolding e Let_def prod.case by (intro calloc_free [OF e]) simp_all
qed

end
