(* ===== verification/Aom_Image.thy ===== *)
theory Aom_Image
  imports Aom_Mem
begin

text \<open>
  \<open>aom/src/aom_image.c\<close>: image descriptors. A descriptor is a record with the fields of
  \<open>struct aom_image\<close> that the file sets or reads; a pointer is an address (\<open>0\<close> is NULL).
  \<open>img_alloc_helper\<close> lays three planes out in one block from \<open>aom_memalign\<close>; the main
  theorem of the file is that every pixel of every plane it sets up lies in that block.
\<close>

section \<open>Formats\<close>

definition AOM_IMG_FMT_PLANAR :: int where "AOM_IMG_FMT_PLANAR = 256"
definition AOM_IMG_FMT_UV_FLIP :: int where "AOM_IMG_FMT_UV_FLIP = 512"
definition AOM_IMG_FMT_HIGHBITDEPTH :: int where "AOM_IMG_FMT_HIGHBITDEPTH = 2048"
definition AOM_IMG_FMT_YV12 :: int where "AOM_IMG_FMT_YV12 = 769"
definition AOM_IMG_FMT_I420 :: int where "AOM_IMG_FMT_I420 = 258"
definition AOM_IMG_FMT_I422 :: int where "AOM_IMG_FMT_I422 = 261"
definition AOM_IMG_FMT_I444 :: int where "AOM_IMG_FMT_I444 = 262"
definition AOM_IMG_FMT_NV12 :: int where "AOM_IMG_FMT_NV12 = 263"
definition AOM_IMG_FMT_I42016 :: int where "AOM_IMG_FMT_I42016 = 2306"
definition AOM_IMG_FMT_YV1216 :: int where "AOM_IMG_FMT_YV1216 = 2817"
definition AOM_IMG_FMT_I42216 :: int where "AOM_IMG_FMT_I42216 = 2309"
definition AOM_IMG_FMT_I44416 :: int where "AOM_IMG_FMT_I44416 = 2310"

lemmas fmt_defs = AOM_IMG_FMT_PLANAR_def AOM_IMG_FMT_UV_FLIP_def AOM_IMG_FMT_HIGHBITDEPTH_def
  AOM_IMG_FMT_YV12_def AOM_IMG_FMT_I420_def AOM_IMG_FMT_I422_def AOM_IMG_FMT_I444_def AOM_IMG_FMT_NV12_def
  AOM_IMG_FMT_I42016_def AOM_IMG_FMT_YV1216_def AOM_IMG_FMT_I42216_def AOM_IMG_FMT_I44416_def

definition AOM_CICP_UNSPECIFIED :: int where "AOM_CICP_UNSPECIFIED = 2"

section \<open>Metadata and the descriptor\<close>

record aom_metadata =
  md_type :: int
  md_payload :: "int list"
  md_sz :: int
  md_insert_flag :: int

record aom_metadata_array =
  arr_sz :: int
  arr_items :: "aom_metadata option list"

record aom_image =
  fmt :: int
  cp :: int
  tc :: int
  mc :: int
  monochrome :: int
  img_w :: int
  img_h :: int
  bit_depth :: int
  d_w :: int
  d_h :: int
  x_chroma_shift :: int
  y_chroma_shift :: int
  planes :: "int list"
  stride :: "int list"
  img_sz :: int
  bps :: int
  img_data :: int
  img_data_owner :: int
  self_allocd :: int
  metadata :: "aom_metadata_array option"

definition zero_image :: aom_image where
  "zero_image = \<lparr>fmt = 0, cp = 0, tc = 0, mc = 0, monochrome = 0, img_w = 0, img_h = 0, bit_depth = 0,
     d_w = 0, d_h = 0, x_chroma_shift = 0, y_chroma_shift = 0, planes = [0, 0, 0], stride = [0, 0, 0],
     img_sz = 0, bps = 0, img_data = 0, img_data_owner = 0, self_allocd = 0, metadata = None\<rparr>"

text \<open>Which of the requests of the metadata functions the C library grants.\<close>

datatype alloc_site = Array_struct | Array_slots | Metadata_struct | Metadata_payload | Array_grow

definition aom_img_metadata_alloc ::
  "(alloc_site \<Rightarrow> bool) \<Rightarrow> int \<Rightarrow> int list option \<Rightarrow> int \<Rightarrow> int \<Rightarrow> aom_metadata option" where
  "aom_img_metadata_alloc ok type data sz insert_flag =
     (case data of
        None \<Rightarrow> None
      | Some bytes \<Rightarrow>
          if sz = 0 then None
          else if \<not> ok Metadata_struct then None
          else if \<not> ok Metadata_payload then None
          else Some \<lparr>md_type = type, md_payload = take (nat sz) bytes, md_sz = sz, md_insert_flag = insert_flag\<rparr>)"

definition aom_img_metadata_array_alloc ::
  "(alloc_site \<Rightarrow> bool) \<Rightarrow> int \<Rightarrow> aom_metadata_array option" where
  "aom_img_metadata_array_alloc ok sz =
     (if \<not> ok Array_struct then None
      else if sz > 0 then
        (if ok Array_slots then Some \<lparr>arr_sz = sz, arr_items = replicate (nat sz) None\<rparr> else None)
      else Some \<lparr>arr_sz = 0, arr_items = []\<rparr>)"

definition AOM_MIF_LAYER_SPECIFIC :: int where "AOM_MIF_LAYER_SPECIFIC = 16"
definition OBU_METADATA_TYPE_SCALABILITY :: int where "OBU_METADATA_TYPE_SCALABILITY = 3"
definition OBU_METADATA_TYPE_TIMECODE :: int where "OBU_METADATA_TYPE_TIMECODE = 5"

definition aom_img_add_metadata ::
  "(alloc_site \<Rightarrow> bool) \<Rightarrow> aom_image option \<Rightarrow> int \<Rightarrow> int list option \<Rightarrow> int \<Rightarrow> int \<Rightarrow> int \<times> aom_image option" where
  "aom_img_add_metadata ok img type data sz insert_flag =
     (case img of
        None \<Rightarrow> (-1, None)
      | Some img \<Rightarrow>
          let img = (if metadata img = None then img\<lparr>metadata := aom_img_metadata_array_alloc ok 0\<rparr> else img) in
          case metadata img of
            None \<Rightarrow> (-1, Some img)
          | Some arr \<Rightarrow>
              if (insert_flag AND AOM_MIF_LAYER_SPECIFIC \<noteq> 0) \<and>
                 (type = OBU_METADATA_TYPE_SCALABILITY \<or> type = OBU_METADATA_TYPE_TIMECODE)
              then (-1, Some img)
              else case aom_img_metadata_alloc ok type data sz insert_flag of
                None \<Rightarrow> (-1, Some img)
              | Some md \<Rightarrow>
                  if \<not> ok Array_grow then (-1, Some img)
                  else (0, Some (img\<lparr>metadata := Some \<lparr>arr_sz = u64 (arr_sz arr + 1),
                    arr_items = take (nat (arr_sz arr)) (arr_items arr) @ [Some md]\<rparr>\<rparr>)))"

definition aom_img_remove_metadata :: "aom_image option \<Rightarrow> aom_image option" where
  "aom_img_remove_metadata img = map_option (\<lambda>img. img\<lparr>metadata := None\<rparr>) img"

definition aom_img_get_metadata :: "aom_image option \<Rightarrow> int \<Rightarrow> aom_metadata option" where
  "aom_img_get_metadata img index =
     (case img of
        None \<Rightarrow> None
      | Some img \<Rightarrow>
          (case metadata img of
             None \<Rightarrow> None
           | Some arr \<Rightarrow> if index < arr_sz arr then arr_items arr ! nat index else None))"

definition aom_img_num_metadata :: "aom_image option \<Rightarrow> int" where
  "aom_img_num_metadata img =
     (case img of None \<Rightarrow> 0 | Some img \<Rightarrow> (case metadata img of None \<Rightarrow> 0 | Some arr \<Rightarrow> arr_sz arr))"

section \<open>Operations on descriptors\<close>

definition align_image_dimension :: "int \<Rightarrow> int \<Rightarrow> int \<Rightarrow> int" where
  "align_image_dimension d subsampling size_align =
     (let align = u32 (shl 1 (nat subsampling) - 1);
          align = (if u32 (size_align - 1) > align then u32 (size_align - 1) else align)
      in u32 (d + align) AND u32 (NOT align))"

definition is_valid_img_fmt :: "int \<Rightarrow> bool" where
  "is_valid_img_fmt f \<longleftrightarrow>
     f = AOM_IMG_FMT_YV12 \<or> f = AOM_IMG_FMT_I420 \<or> f = AOM_IMG_FMT_I422 \<or> f = AOM_IMG_FMT_I444 \<or>
     f = AOM_IMG_FMT_NV12 \<or> f = AOM_IMG_FMT_I42016 \<or> f = AOM_IMG_FMT_YV1216 \<or> f = AOM_IMG_FMT_I42216 \<or>
     f = AOM_IMG_FMT_I44416"

definition aom_img_set_rect ::
  "aom_image \<Rightarrow> int \<Rightarrow> int \<Rightarrow> int \<Rightarrow> int \<Rightarrow> int \<Rightarrow> int \<times> aom_image" where
  "aom_img_set_rect img x y w h border =
     (if x \<le> u32 (4294967295 - w) \<and> u32 (x + w) \<le> img_w img \<and> y \<le> u32 (4294967295 - h) \<and>
         u32 (y + h) \<le> img_h img
      then
        let img = img\<lparr>d_w := w, d_h := h\<rparr>;
            x = u32 (x + border); y = u32 (y + border);
            st = (\<lambda>p. stride img ! p) in
        if fmt img AND AOM_IMG_FMT_PLANAR = 0 then
          (0, img\<lparr>planes := (planes img)[0 := img_data img + u32 (x * bps img) div 8 + u32 (y * st 0)]\<rparr>)
        else
          let bytes_per_sample = (if fmt img AND AOM_IMG_FMT_HIGHBITDEPTH \<noteq> 0 then 2 else 1);
              data = img_data img;
              plane_y = data + u32 (x * bytes_per_sample) + u32 (y * st 0);
              data = data + u64 (u64 (img_h img + u32 (2 * border)) * st 0);
              uv_border_h = shr border (nat (y_chroma_shift img));
              uv_x = shr x (nat (x_chroma_shift img));
              uv_y = shr y (nat (y_chroma_shift img));
              uv_sz = (\<lambda>p. u64 (u64 (shr (img_h img) (nat (y_chroma_shift img)) + u32 (2 * uv_border_h)) * st p)) in
          if fmt img = AOM_IMG_FMT_NV12 then
            (0, img\<lparr>planes := [plane_y, data + u32 (u32 (uv_x * bytes_per_sample) * 2) + u32 (uv_y * st 1), 0]\<rparr>)
          else if fmt img AND AOM_IMG_FMT_UV_FLIP = 0 then
            (0, img\<lparr>planes := [plane_y, data + u32 (uv_x * bytes_per_sample) + u32 (uv_y * st 1),
               data + uv_sz 1 + u32 (uv_x * bytes_per_sample) + u32 (uv_y * st 2)]\<rparr>)
          else
            (0, img\<lparr>planes := [plane_y,
               data + uv_sz 2 + u32 (uv_x * bytes_per_sample) + u32 (uv_y * st 1),
               data + u32 (uv_x * bytes_per_sample) + u32 (uv_y * st 2)]\<rparr>)
      else (-1, img))"

definition aom_img_flip :: "aom_image \<Rightarrow> aom_image" where
  "aom_img_flip img =
     (let chroma_height = shr (u32 (d_h img + y_chroma_shift img)) (nat (y_chroma_shift img));
          move = (\<lambda>p rows. if planes img ! p \<noteq> 0 then planes img ! p + u32 (rows - 1) * stride img ! p
                           else planes img ! p)
      in img\<lparr>planes := [move 0 (d_h img), move 1 chroma_height, move 2 chroma_height],
             stride := [- (stride img ! 0), - (stride img ! 1), - (stride img ! 2)]\<rparr>)"

text \<open>Freeing a descriptor; the descriptor itself goes when it was self-allocated.\<close>

definition aom_img_free :: "heap \<Rightarrow> aom_image option \<Rightarrow> heap option" where
  "aom_img_free h img =
     (case img of
        None \<Rightarrow> Some h
      | Some img \<Rightarrow> if img_data img \<noteq> 0 \<and> img_data_owner img \<noteq> 0 then aom_free h (img_data img) else Some h)"

definition aom_img_plane_width :: "aom_image \<Rightarrow> int \<Rightarrow> int" where
  "aom_img_plane_width img plane =
     (if plane > 0 then s32 (shr (u32 (d_w img + x_chroma_shift img)) (nat (x_chroma_shift img))) else s32 (d_w img))"

definition aom_img_plane_height :: "aom_image \<Rightarrow> int \<Rightarrow> int" where
  "aom_img_plane_height img plane =
     (if plane > 0 then s32 (shr (u32 (d_h img + y_chroma_shift img)) (nat (y_chroma_shift img))) else s32 (d_h img))"

section \<open>Allocation\<close>

text \<open>
  \<open>img_alloc_helper\<close> returns whether it succeeded, the descriptor and the heap; it goes
  to \<open>fail\<close> through \<open>aom_img_free\<close> (\<open>None\<close> would be an invalid free). \<open>calloc_ok\<close>
  is whether the descriptor can be allocated when the caller passes none, \<open>pick\<close> the
  address the C library would choose for the data.
\<close>

definition img_fail :: "heap \<Rightarrow> aom_image option \<Rightarrow> (bool \<times> aom_image option \<times> heap) option" where
  "img_fail h img = map_option (\<lambda>h'. (False, img, h')) (aom_img_free h img)"

definition fmt_bps :: "int \<Rightarrow> int" where
  "fmt_bps f =
     (if f = AOM_IMG_FMT_I420 \<or> f = AOM_IMG_FMT_YV12 \<or> f = AOM_IMG_FMT_NV12 then 12
      else if f = AOM_IMG_FMT_I422 then 16
      else if f = AOM_IMG_FMT_I444 then 24
      else if f = AOM_IMG_FMT_YV1216 \<or> f = AOM_IMG_FMT_I42016 then 24
      else if f = AOM_IMG_FMT_I42216 then 32
      else if f = AOM_IMG_FMT_I44416 then 48
      else 16)"

definition fmt_xcs :: "int \<Rightarrow> int" where
  "fmt_xcs f =
     (if f = AOM_IMG_FMT_I420 \<or> f = AOM_IMG_FMT_YV12 \<or> f = AOM_IMG_FMT_NV12 \<or> f = AOM_IMG_FMT_I422 \<or>
         f = AOM_IMG_FMT_I42016 \<or> f = AOM_IMG_FMT_YV1216 \<or> f = AOM_IMG_FMT_I42216 then 1 else 0)"

definition fmt_ycs :: "int \<Rightarrow> int" where
  "fmt_ycs f =
     (if f = AOM_IMG_FMT_I420 \<or> f = AOM_IMG_FMT_YV12 \<or> f = AOM_IMG_FMT_NV12 \<or> f = AOM_IMG_FMT_YV1216 \<or>
         f = AOM_IMG_FMT_I42016 then 1 else 0)"

definition one_if_zero :: "int \<Rightarrow> int" where "one_if_zero a = (if a = 0 then 1 else a)"

definition img_stride_bytes :: "int \<Rightarrow> int \<Rightarrow> int \<Rightarrow> int \<Rightarrow> int \<Rightarrow> int \<Rightarrow> int" where
  "img_stride_bytes f w border bp bd stride_align =
     (let s = u64 (w + u32 (2 * border));
          s = (if f AND AOM_IMG_FMT_PLANAR \<noteq> 0 then s else u64 (s * bp) div bd);
          s = u64 (s * bd) div 8
      in u64 (s + stride_align - 1) AND NOT (stride_align - 1))"

definition img_fill ::
  "aom_image \<Rightarrow> int \<Rightarrow> int \<Rightarrow> int \<Rightarrow> int \<Rightarrow> int \<Rightarrow> int \<Rightarrow> int \<Rightarrow> int \<Rightarrow> int \<Rightarrow> int \<Rightarrow> int \<Rightarrow> aom_image" where
  "img_fill img f dw dh w h bp bd xcs ycs stride_in_bytes border =
     (let img = img\<lparr>fmt := f, bit_depth := bd, img_w := w, img_h := h, x_chroma_shift := xcs,
            y_chroma_shift := ycs, bps := bp,
            stride := (if f = AOM_IMG_FMT_NV12
                       then [stride_in_bytes, shr stride_in_bytes (nat xcs) * 2, 0]
                       else [stride_in_bytes, shr stride_in_bytes (nat xcs), shr stride_in_bytes (nat xcs)]),
            cp := AOM_CICP_UNSPECIFIED, tc := AOM_CICP_UNSPECIFIED, mc := AOM_CICP_UNSPECIFIED\<rparr>
      in snd (aom_img_set_rect img 0 0 dw dh border))"

definition img_alloc_helper ::
  "bool \<Rightarrow> int \<Rightarrow> heap \<Rightarrow> aom_image option \<Rightarrow> int \<Rightarrow> int \<Rightarrow> int \<Rightarrow> int \<Rightarrow> int \<Rightarrow> int \<Rightarrow> int \<Rightarrow> int \<Rightarrow>
   (int \<Rightarrow> int) option \<Rightarrow> (bool \<times> aom_image option \<times> heap) option" where
  "img_alloc_helper calloc_ok pick h0 img f dw dh buf_align stride_align size_align border data alloc_cb =
     (let img = map_option (\<lambda>_. zero_image) img in
      if \<not> is_valid_img_fmt f then img_fail h0 img
      else if dw > 134217728 \<or> dh > 134217728 \<or> buf_align > 65536 \<or> stride_align > 65536 \<or>
              size_align > 65536 \<or> border > 65536 then img_fail h0 img
      else let buf_align = one_if_zero buf_align in
      if buf_align AND (buf_align - 1) \<noteq> 0 then img_fail h0 img
      else let stride_align = one_if_zero stride_align in
      if stride_align AND (stride_align - 1) \<noteq> 0 then img_fail h0 img
      else let size_align = one_if_zero size_align in
      if size_align AND (size_align - 1) \<noteq> 0 then img_fail h0 img
      else
        let bps = fmt_bps f;
            bit_depth = (if f AND AOM_IMG_FMT_HIGHBITDEPTH \<noteq> 0 then 16 else 8);
            xcs = fmt_xcs f; ycs = fmt_ycs f;
            w = align_image_dimension dw xcs size_align;
            h = align_image_dimension dh ycs size_align;
            s = img_stride_bytes f w border bps bit_depth stride_align in
        if s > 2147483647 then img_fail h0 img
        else
          let stride_in_bytes = s;
              img = (case img of
                       None \<Rightarrow> if calloc_ok then Some (zero_image\<lparr>self_allocd := 1\<rparr>) else None
                     | Some i \<Rightarrow> Some i) in
          case img of
            None \<Rightarrow> img_fail h0 None
          | Some img \<Rightarrow>
              let img = img\<lparr>img_data := data\<rparr>;
                  (img, h1) =
                    (if data = 0 then
                       let alloc_size = (if f AND AOM_IMG_FMT_PLANAR \<noteq> 0
                             then u64 (u64 (u32 (h + u32 (2 * border)) * stride_in_bytes) * bps) div bit_depth
                             else u64 (u32 (h + u32 (2 * border)) * stride_in_bytes)) in
                       (case alloc_cb of
                          Some cb \<Rightarrow>
                            let p = cb (u64 (alloc_size + buf_align - 1));
                                p = (if p \<noteq> 0 then aom_align_addr p buf_align else p)
                            in (img\<lparr>img_data := p, img_data_owner := 0, img_sz := alloc_size\<rparr>, h0)
                        | None \<Rightarrow>
                            let (p, h1) = aom_memalign pick h0 buf_align alloc_size
                            in (img\<lparr>img_data := p, img_data_owner := 1, img_sz := alloc_size\<rparr>, h1))
                     else (img, h0)) in
              if img_data img = 0 then img_fail h1 (Some img)
              else Some (True, Some (img_fill img f dw dh w h bps bit_depth xcs ycs stride_in_bytes border), h1))"

definition aom_img_alloc ::
  "bool \<Rightarrow> int \<Rightarrow> heap \<Rightarrow> aom_image option \<Rightarrow> int \<Rightarrow> int \<Rightarrow> int \<Rightarrow> int \<Rightarrow> (bool \<times> aom_image option \<times> heap) option" where
  "aom_img_alloc calloc_ok pick h img f dw dh align =
     img_alloc_helper calloc_ok pick h img f dw dh align align 1 0 0 None"

definition aom_img_alloc_with_cb ::
  "bool \<Rightarrow> int \<Rightarrow> heap \<Rightarrow> aom_image option \<Rightarrow> int \<Rightarrow> int \<Rightarrow> int \<Rightarrow> int \<Rightarrow> (int \<Rightarrow> int) option \<Rightarrow>
   (bool \<times> aom_image option \<times> heap) option" where
  "aom_img_alloc_with_cb calloc_ok pick h img f dw dh align alloc_cb =
     img_alloc_helper calloc_ok pick h img f dw dh align align 1 0 0 alloc_cb"

definition aom_img_wrap ::
  "bool \<Rightarrow> int \<Rightarrow> heap \<Rightarrow> aom_image option \<Rightarrow> int \<Rightarrow> int \<Rightarrow> int \<Rightarrow> int \<Rightarrow> int \<Rightarrow> (bool \<times> aom_image option \<times> heap) option" where
  "aom_img_wrap calloc_ok pick h img f dw dh stride_align data =
     img_alloc_helper calloc_ok pick h img f dw dh 1 stride_align 1 0 data None"

definition aom_img_alloc_with_border ::
  "bool \<Rightarrow> int \<Rightarrow> heap \<Rightarrow> aom_image option \<Rightarrow> int \<Rightarrow> int \<Rightarrow> int \<Rightarrow> int \<Rightarrow> int \<Rightarrow> int \<Rightarrow>
   (bool \<times> aom_image option \<times> heap) option" where
  "aom_img_alloc_with_border calloc_ok pick h img f dw dh align size_align border =
     img_alloc_helper calloc_ok pick h img f dw dh align align size_align border 0 None"

section \<open>Alignment\<close>

lemma and_pred_zero_pow2:
  fixes n :: int
  assumes "n AND (n - 1) = 0" "1 \<le> n"
  shows "n = 2 ^ get_msb n"
proof (rule ccontr)
  define k where "k = get_msb n"
  have n: "2 ^ k \<le> n" "n < 2 * 2 ^ k" using get_msb_le [of n] get_msb_lt [of n] assms(2) by (simp_all add: k_def)
  assume "n \<noteq> 2 ^ get_msb n"
  then have n1: "2 ^ k \<le> n - 1" "n - 1 < 2 * 2 ^ k" using n by (simp_all add: k_def)
  have one: "x div 2 ^ k = 1" if "2 ^ k \<le> x" "x < 2 * 2 ^ k" for x :: int
  proof -
    have "1 \<le> x div 2 ^ k" "x div 2 ^ k < 2" using that by (simp_all add: le_div_int_iff div_less_int_iff)
    then show ?thesis by simp
  qed
  have "bit n k" "bit (n - 1) k" using one [OF n] one [OF n1] by (simp_all only: bit_int_div, simp_all)
  then have "bit (n AND (n - 1)) k" by (simp add: bit_and_iff)
  then show False using assms(1) by simp
qed

lemma and_u32: "0 \<le> x \<Longrightarrow> x < 4294967296 \<Longrightarrow> x AND u32 y = x AND (y::int)"
proof -
  assume "0 \<le> x" "x < 4294967296"
  then have x: "take_bit 32 x = x" by (simp add: take_bit_int_eq_self)
  have "bit x i \<Longrightarrow> i < 32" for i by (subst (asm) x [symmetric]) (simp add: bit_take_bit_iff)
  then have "x AND take_bit 32 y = x AND y" by (intro bit_eqI) (auto simp: bit_and_iff bit_take_bit_iff)
  then show ?thesis by (simp add: u32_def take_bit_eq_mod)
qed

lemma align_up_pow2:
  fixes x :: int
  assumes "0 \<le> x" "a = 2 ^ k"
  defines "y \<equiv> (x + a - 1) div a * a"
  shows "x \<le> y" "y < x + a" "a dvd y"
proof -
  have a: "1 \<le> a" using assms(2) by simp
  have "(x + a - 1) mod a < a" "0 \<le> (x + a - 1) mod a" using a by simp_all
  then show "x \<le> y" "y < x + a"
    using minus_mod_eq_div_mult [of "x + a - 1" a] unfolding y_def by linarith+
  show "a dvd y" by (simp add: y_def)
qed

lemma align_image_dimension_props:
  assumes "0 \<le> d" "d \<le> 134217728" "sub = 0 \<or> sub = 1" "size_align = 2 ^ k" "size_align \<le> 65536"
  defines "w \<equiv> align_image_dimension d sub size_align"
  shows "d \<le> w" "w < d + 65536" "2 ^ nat sub dvd w"
proof -
  define j where "j = max k (nat sub)"
  define a where "a = (2::int) ^ j"
  have k: "(2::int) ^ k \<le> 65536" using assms(4,5) by simp
  then have a: "1 \<le> a" "a \<le> 65536" using assms(3) by (auto simp: a_def j_def max_def)
  have al: "(if u32 (size_align - 1) > u32 (shl 1 (nat sub) - 1) then u32 (size_align - 1)
      else u32 (shl 1 (nat sub) - 1)) = a - 1"
  proof -
    have u: "u32 (size_align - 1) = 2 ^ k - 1" using k by (simp add: assms(4) u32_id)
    show ?thesis
    proof (cases "sub = 0")
      case True
      have "\<not> 1 < (2::int) ^ k \<Longrightarrow> (2::int) ^ k = 1" using one_le_power [of "2::int" k] by linarith
      then show ?thesis using True by (simp add: u a_def j_def shl_def u32_def [of 0])
    next
      case False
      then have "sub = 1" using assms(3) by simp
      then show ?thesis
        by (cases k) (auto simp: u a_def j_def shl_def u32_def [of 1] max_def)
    qed
  qed
  have "u32 (d + (a - 1)) = d + a - 1" using assms(1,2) a by (simp add: u32_id)
  then have "w = (d + a - 1) AND NOT (a - 1)"
    using and_u32 [of "d + a - 1" "NOT (a - 1)"] assms(1,2) a
    unfolding w_def align_image_dimension_def Let_def al by (simp add: add_diff_eq)
  then have w: "w = (d + a - 1) div a * a" using and_not_mask_div [of "d + a - 1" j] by (simp add: a_def)
  have "2 ^ nat sub dvd a" unfolding a_def by (rule le_imp_power_dvd) (simp add: j_def)
  then show "d \<le> w" "w < d + 65536" "2 ^ nat sub dvd w"
    using align_up_pow2 [OF assms(1) a_def] a unfolding w by (auto intro: dvd_trans)
qed

lemma img_stride_props:
  fixes bp :: int
  assumes "f AND AOM_IMG_FMT_PLANAR \<noteq> 0" "0 \<le> w" "w < 2 ^ 28" "0 \<le> border" "border \<le> 65536"
    and "bd = 8 * B" "B = 1 \<or> B = 2" "stride_align = 2 ^ k" "stride_align \<le> 65536"
  defines "s \<equiv> img_stride_bytes f w border bp bd stride_align"
  shows "(w + 2 * border) * B \<le> s" "even w \<Longrightarrow> even s"
proof -
  define x where "x = (w + 2 * border) * B"
  have x: "0 \<le> x" "x < 2 ^ 30" using assms(2-5,7) by (auto simp: x_def)
  have "u64 (u64 (w + u32 (2 * border)) * bd) div 8 = x"
    using assms(2-7) by (auto simp: x_def u32_id u64_id)
  moreover have "1 \<le> stride_align" by (simp add: assms(8))
  ultimately have "s = (x + stride_align - 1) AND NOT (stride_align - 1)"
    using assms(1,9) x unfolding s_def img_stride_bytes_def Let_def by (simp add: u64_id)
  then have s: "s = (x + stride_align - 1) div stride_align * stride_align"
    using and_not_mask_div [of "x + stride_align - 1" k] by (simp add: assms(8))
  note p = align_up_pow2 [OF x(1) assms(8), folded s]
  then show "(w + 2 * border) * B \<le> s" by (simp add: x_def)
  assume "even w"
  then have "even x" by (simp add: x_def)
  show "even s"
  proof (cases k)
    case 0
    then have "s = x" using p(1,2) assms(8) by simp
    then show ?thesis using \<open>even x\<close> by simp
  next
    case (Suc j)
    then have "2 dvd stride_align" by (simp add: assms(8))
    then show ?thesis using p(3) by (rule dvd_trans)
  qed
qed

section \<open>The planes of a fresh image\<close>

definition fmt_bytes :: "int \<Rightarrow> int" where
  "fmt_bytes f = (if f AND AOM_IMG_FMT_HIGHBITDEPTH \<noteq> 0 then 2 else 1)"

text \<open>Twice the number of samples per luma sample: 3 for 4:2:0, 4 for 4:2:2, 6 for 4:4:4.\<close>

definition fmt_samples2 :: "int \<Rightarrow> int" where
  "fmt_samples2 f = (if fmt_ycs f = 1 then 3 else if fmt_xcs f = 1 then 4 else 6)"

lemma valid_fmt_facts:
  assumes "is_valid_img_fmt f"
  shows "f AND AOM_IMG_FMT_PLANAR \<noteq> 0" "fmt_xcs f = 0 \<or> fmt_xcs f = 1" "fmt_ycs f = 0 \<or> fmt_ycs f = 1"
    "fmt_ycs f \<le> fmt_xcs f" "(if f AND AOM_IMG_FMT_HIGHBITDEPTH \<noteq> 0 then 16 else 8) = 8 * fmt_bytes f"
    "fmt_bps f = 4 * fmt_bytes f * fmt_samples2 f" "fmt_bytes f = 1 \<or> fmt_bytes f = 2"
    "f = AOM_IMG_FMT_NV12 \<Longrightarrow> fmt_bytes f = 1 \<and> fmt_xcs f = 1 \<and> fmt_ycs f = 1"
  using assms
  by (auto simp: is_valid_img_fmt_def fmt_defs fmt_xcs_def fmt_ycs_def fmt_bytes_def fmt_bps_def fmt_samples2_def)

lemma img_fail_not_True [simp]: "img_fail h i \<noteq> Some (True, x)" "Some (True, x) \<noteq> img_fail h i"
  by (cases "aom_img_free h i"; simp add: img_fail_def)+

definition img_alloc_size :: "int \<Rightarrow> int \<Rightarrow> int \<Rightarrow> int \<Rightarrow> int" where
  "img_alloc_size f h border s = ((h + 2 * border) * s * fmt_samples2 f) div 2"

lemma one_if_zero_pow2:
  "one_if_zero a AND (one_if_zero a - 1) = 0 \<Longrightarrow> 0 \<le> a \<Longrightarrow> one_if_zero a = 2 ^ get_msb (one_if_zero a)"
  by (rule and_pred_zero_pow2) (simp_all add: one_if_zero_def)

lemma one_if_zero_le: "a \<le> 65536 \<Longrightarrow> one_if_zero a \<le> 65536" by (simp add: one_if_zero_def)

lemma img_alloc_helper_success:
  assumes "img_alloc_helper ok pick h0 img0 f dw dh ba sa za border 0 None = Some (True, Some img, h')"
  defines "w \<equiv> align_image_dimension dw (fmt_xcs f) (one_if_zero za)"
    and "h \<equiv> align_image_dimension dh (fmt_ycs f) (one_if_zero za)"
  defines "s \<equiv> img_stride_bytes f w border (fmt_bps f) (8 * fmt_bytes f) (one_if_zero sa)"
  defines "sz \<equiv> u64 (u64 (u32 (h + u32 (2 * border)) * s) * fmt_bps f) div (8 * fmt_bytes f)"
  shows "is_valid_img_fmt f" "dw \<le> 134217728" "dh \<le> 134217728" "ba \<le> 65536" "sa \<le> 65536" "za \<le> 65536"
    "border \<le> 65536" "one_if_zero ba AND (one_if_zero ba - 1) = 0" "one_if_zero sa AND (one_if_zero sa - 1) = 0"
    "one_if_zero za AND (one_if_zero za - 1) = 0" "s \<le> 2147483647"
    "\<exists>p i. aom_memalign pick h0 (one_if_zero ba) sz = (p, h') \<and> p \<noteq> 0 \<and>
      img = img_fill (i\<lparr>img_data := p, img_data_owner := 1, img_sz := sz\<rparr>) f dw dh w h (fmt_bps f)
        (8 * fmt_bytes f) (fmt_xcs f) (fmt_ycs f) s border"
proof -
  note eq = assms(1) [unfolded img_alloc_helper_def Let_def]
  show v: "is_valid_img_fmt f" using eq by (auto split: if_splits)
  show b: "dw \<le> 134217728" "dh \<le> 134217728" "ba \<le> 65536" "sa \<le> 65536" "za \<le> 65536" "border \<le> 65536"
    using eq v by (auto split: if_splits)
  show a: "one_if_zero ba AND (one_if_zero ba - 1) = 0" "one_if_zero sa AND (one_if_zero sa - 1) = 0"
    "one_if_zero za AND (one_if_zero za - 1) = 0"
    using eq v b by (auto split: if_splits)
  note eq2 = eq [unfolded valid_fmt_facts(5) [OF v], folded w_def h_def, folded s_def]
  show s: "s \<le> 2147483647" using eq2 v b a by (auto split: if_splits)
  have "\<not> (dw > 134217728 \<or> dh > 134217728 \<or> ba > 65536 \<or> sa > 65536 \<or> za > 65536 \<or> border > 65536)"
    "\<not> s > 2147483647" using b s by auto
  note eq3 = eq2 [unfolded if_not_P [OF this(1)] if_not_P [OF this(2)]]
  obtain p h1 where al: "aom_memalign pick h0 (one_if_zero ba) sz = (p, h1)" by fastforce
  show "\<exists>p i. aom_memalign pick h0 (one_if_zero ba) sz = (p, h') \<and> p \<noteq> 0 \<and>
      img = img_fill (i\<lparr>img_data := p, img_data_owner := 1, img_sz := sz\<rparr>) f dw dh w h (fmt_bps f)
        (8 * fmt_bytes f) (fmt_xcs f) (fmt_ycs f) s border"
    using eq3 v a valid_fmt_facts(1) [OF v] al
    by (cases img0; cases ok) (auto simp: sz_def split: if_splits)
qed

text \<open>Chroma rows and columns of the border, and the bytes one row of a plane uses.\<close>

definition img_row_bytes :: "aom_image \<Rightarrow> nat \<Rightarrow> int" where
  "img_row_bytes img p = aom_img_plane_width img (int p) * fmt_bytes (fmt img) *
     (if fmt img = AOM_IMG_FMT_NV12 \<and> p > 0 then 2 else 1)"

definition img_pixel_addr :: "aom_image \<Rightarrow> nat \<Rightarrow> int \<Rightarrow> int \<Rightarrow> int" where
  "img_pixel_addr img p r c = planes img ! p + r * stride img ! p + c"

definition in_plane :: "aom_image \<Rightarrow> nat \<Rightarrow> int \<Rightarrow> int \<Rightarrow> bool" where
  "in_plane img p r c \<longleftrightarrow> p < 3 \<and> planes img ! p \<noteq> 0 \<and> 0 \<le> r \<and> r < aom_img_plane_height img (int p) \<and>
     0 \<le> c \<and> c < img_row_bytes img p"

lemma row_in_block:
  fixes r c S :: int
  assumes "0 \<le> r" "r < R" "0 \<le> c" "c < C" "0 \<le> x0" "x0 + C \<le> S" "0 \<le> y0" "y0 + R \<le> T"
  shows "lo \<le> lo + x0 + y0 * S + r * S + c" "lo + x0 + y0 * S + r * S + c < lo + T * S"
proof -
  have "0 \<le> (y0 + r) * S" using assms by simp
  then show "lo \<le> lo + x0 + y0 * S + r * S + c" using assms by (simp add: algebra_simps)
  have "(y0 + r) * S \<le> (T - 1) * S" using assms by (intro mult_right_mono) linarith+
  then show "lo + x0 + y0 * S + r * S + c < lo + T * S" using assms by (simp add: algebra_simps)
qed

text \<open>The viewport of a planar image, when no product wraps.\<close>

lemma set_rect_planar:
  assumes "fmt img AND AOM_IMG_FMT_PLANAR \<noteq> 0" "stride img = [S, S1, S2]"
    and "0 \<le> w" "w \<le> img_w img" "0 \<le> h" "h \<le> img_h img" "img_w img < 2 ^ 28" "img_h img < 2 ^ 28"
    and "0 \<le> b" "b \<le> 65536" "0 \<le> S" "S \<le> 2147483647" "0 \<le> S1" "S1 \<le> S" "fmt img \<noteq> AOM_IMG_FMT_NV12 \<Longrightarrow> S2 = S1"
    and "x_chroma_shift img = 0 \<or> x_chroma_shift img = 1" "y_chroma_shift img = 0 \<or> y_chroma_shift img = 1"
    and "b * S < 4294967296"
  defines "B \<equiv> fmt_bytes (fmt img)"
  defines "luma \<equiv> (img_h img + 2 * b) * S" and "bx \<equiv> b div 2 ^ nat (x_chroma_shift img)"
    and "bh \<equiv> b div 2 ^ nat (y_chroma_shift img)"
  defines "chroma \<equiv> (img_h img div 2 ^ nat (y_chroma_shift img) + 2 * bh) * S1"
  defines "img1 \<equiv> img\<lparr>d_w := w, d_h := h\<rparr>"
  shows "snd (aom_img_set_rect img 0 0 w h b) = img1\<lparr>planes :=
    (if fmt img = AOM_IMG_FMT_NV12
     then [img_data img + b * B + b * S, img_data img + luma + bx * B * 2 + bh * S1, 0]
     else if fmt img AND AOM_IMG_FMT_UV_FLIP = 0
     then [img_data img + b * B + b * S, img_data img + luma + bx * B + bh * S1,
           img_data img + luma + chroma + bx * B + bh * S1]
     else [img_data img + b * B + b * S, img_data img + luma + chroma + bx * B + bh * S1,
           img_data img + luma + bx * B + bh * S1])\<rparr>"
proof -
  have B: "1 \<le> B" "B \<le> 2" by (simp_all add: B_def fmt_bytes_def)
  have bx: "0 \<le> bx" "bx \<le> b" "0 \<le> bh" "bh \<le> b" using assms(9,16,17) by (auto simp: bx_def bh_def)
  have small: "u32 (b * B) = b * B" "u32 (bx * B) = bx * B" "u32 (u32 (bx * B) * 2) = bx * B * 2"
  proof -
    have "b * B \<le> 65536 * 2" "bx * B \<le> 65536 * 2" using assms(9,10) B bx by (intro mult_mono; simp)+
    moreover have "0 \<le> b * B" "0 \<le> bx * B" using assms(9) B bx by simp_all
    moreover have "u32 t = t \<and> u32 (u32 t * 2) = t * 2" if "0 \<le> t" "t \<le> 65536 * 2" for t
      using that by (simp add: u32_id)
    ultimately show "u32 (b * B) = b * B" "u32 (bx * B) = bx * B" "u32 (u32 (bx * B) * 2) = bx * B * 2"
      by blast+
  qed
  have "bh * S1 \<le> b * S" using assms(9,11,13,14) bx by (intro mult_mono) simp_all
  then have rows: "u32 (b * S) = b * S" "u32 (bh * S1) = bh * S1"
    using assms(9,11,13,18) bx by (simp_all add: u32_id)
  have sum: "u64 (u64 (H + u32 (2 * k)) * T) = (H + 2 * k) * T"
    if "0 \<le> H" "H < 2 ^ 28" "0 \<le> k" "k \<le> 65536" "0 \<le> T" "T \<le> S" for H k T
  proof -
    have "(H + 2 * k) * T \<le> 2 ^ 29 * 2147483648" using that assms(12) by (intro mult_mono) simp_all
    then show ?thesis using that by (simp add: u32_id u64_id)
  qed
  have hh: "0 \<le> img_h img div 2 ^ nat (y_chroma_shift img)" "img_h img div 2 ^ nat (y_chroma_shift img) < 2 ^ 28"
    using assms(5,6,8,17) by auto
  have lum: "u64 (u64 (img_h img + u32 (2 * b)) * S) = luma"
    using sum [of "img_h img" b S] assms by (simp add: luma_def)
  have chr: "u64 (u64 (img_h img div 2 ^ nat (y_chroma_shift img) + u32 (2 * bh)) * S1) = chroma"
    using sum [OF hh, of bh S1] assms(10,13,14) bx by (simp add: chroma_def)
  have "0 \<le> u32 (4294967295 - w)" "u32 w = w" "u32 h = h" "u32 b = b" using assms(3-10) by (simp_all add: u32_id)
  then show ?thesis
    using assms(1,2,4,6,15) small rows lum chr
    by (simp add: aom_img_set_rect_def img1_def Let_def shr_def bx_def [symmetric] bh_def [symmetric]
      fmt_bytes_def [symmetric] B_def [symmetric])
qed

definition fresh_planes :: "int \<Rightarrow> int \<Rightarrow> int \<Rightarrow> int \<Rightarrow> int \<Rightarrow> int list" where
  "fresh_planes f data h b S =
     (let B = fmt_bytes f; S1 = S div 2 ^ nat (fmt_xcs f); luma = data + (h + 2 * b) * S;
          bx = b div 2 ^ nat (fmt_xcs f); bh = b div 2 ^ nat (fmt_ycs f);
          chroma = (h div 2 ^ nat (fmt_ycs f) + 2 * bh) * S1
      in if f = AOM_IMG_FMT_NV12 then [data + b * B + b * S, luma + bx * B * 2 + bh * (S1 * 2), 0]
         else if f AND AOM_IMG_FMT_UV_FLIP = 0
         then [data + b * B + b * S, luma + bx * B + bh * S1, luma + chroma + bx * B + bh * S1]
         else [data + b * B + b * S, luma + chroma + bx * B + bh * S1, luma + bx * B + bh * S1])"

lemma fresh_image_layout:
  assumes "img_alloc_helper ok pick h0 img0 f dw dh ba sa za b 0 None = Some (True, Some img, h')"
    and nonneg: "0 \<le> dw" "0 \<le> dh" "0 \<le> ba" "0 \<le> sa" "0 \<le> za" "0 \<le> b"
  obtains w h S data k where
    "is_valid_img_fmt f" "dw \<le> w" "w < 2 ^ 28" "2 ^ nat (fmt_xcs f) dvd w" "dh \<le> h" "h < 2 ^ 28"
    "2 ^ nat (fmt_ycs f) dvd h" "b \<le> 65536" "(w + 2 * b) * fmt_bytes f \<le> S" "even w \<longrightarrow> even S"
    "S \<le> 2147483647" "aom_memalign pick h0 (2 ^ k) (img_alloc_size f h b S) = (data, h')" "data \<noteq> 0"
    "2 ^ k \<le> (65536::int)" "dw \<le> 134217728" "dh \<le> 134217728"
    "fmt img = f" "d_w img = dw" "d_h img = dh" "x_chroma_shift img = fmt_xcs f" "y_chroma_shift img = fmt_ycs f"
    "img_data img = data" "img_sz img = img_alloc_size f h b S" "planes img = fresh_planes f data h b S"
    "stride img = (if f = AOM_IMG_FMT_NV12 then [S, S div 2 ^ nat (fmt_xcs f) * 2, 0]
       else [S, S div 2 ^ nat (fmt_xcs f), S div 2 ^ nat (fmt_xcs f)])"
proof -
  define w where "w = align_image_dimension dw (fmt_xcs f) (one_if_zero za)"
  define h where "h = align_image_dimension dh (fmt_ycs f) (one_if_zero za)"
  define S where "S = img_stride_bytes f w b (fmt_bps f) (8 * fmt_bytes f) (one_if_zero sa)"
  define sz where "sz = u64 (u64 (u32 (h + u32 (2 * b)) * S) * fmt_bps f) div (8 * fmt_bytes f)"
  note suc = img_alloc_helper_success [OF assms(1), folded w_def h_def, folded S_def, folded sz_def]
  note v = valid_fmt_facts [OF suc(1)]
  obtain kb where kb: "one_if_zero ba = 2 ^ kb" using one_if_zero_pow2 [OF suc(8) nonneg(3)] by blast
  obtain ks where ks: "one_if_zero sa = 2 ^ ks" using one_if_zero_pow2 [OF suc(9) nonneg(4)] by blast
  obtain kz where kz: "one_if_zero za = 2 ^ kz" using one_if_zero_pow2 [OF suc(10) nonneg(5)] by blast
  have w: "dw \<le> w" "w < dw + 65536" "2 ^ nat (fmt_xcs f) dvd w"
    using align_image_dimension_props [OF nonneg(1) suc(2) v(2) kz one_if_zero_le [OF suc(6)]] by (simp_all add: w_def)
  have h: "dh \<le> h" "h < dh + 65536" "2 ^ nat (fmt_ycs f) dvd h"
    using align_image_dimension_props [OF nonneg(2) suc(3) v(3) kz one_if_zero_le [OF suc(6)]] by (simp_all add: h_def)
  have wh: "0 \<le> w" "w < 2 ^ 28" "0 \<le> h" "h < 2 ^ 28" using w h suc(2,3) nonneg by simp_all
  have S: "(w + 2 * b) * fmt_bytes f \<le> S" "even w \<Longrightarrow> even S"
    using img_stride_props [OF v(1) wh(1,2) nonneg(6) suc(7) refl v(7) ks one_if_zero_le [OF suc(5)]]
    by (simp_all add: S_def)
  have "0 \<le> (w + 2 * b) * fmt_bytes f" using wh nonneg v(7) by auto
  then have S0: "0 \<le> S" "S \<le> 2147483647" using S(1) suc(11) by simp_all
  define X where "X = (h + 2 * b) * S"
  have n2: "fmt_samples2 f \<in> {3, 4, 6}" by (simp add: fmt_samples2_def)
  have "X \<le> 134414336 * 2147483647"
    unfolding X_def using h suc(3,7) S0 nonneg(6) wh(3) by (intro mult_mono) linarith+
  moreover have X0: "0 \<le> X" unfolding X_def using wh nonneg(6) S0 by (intro mult_nonneg_nonneg) linarith+
  ultimately have "u64 (u64 X * fmt_bps f) = X * fmt_bps f"
    using n2 v(6,7) by (auto simp: u64_id)
  moreover have "X * fmt_bps f div (8 * fmt_bytes f) = (X * fmt_samples2 f) div 2"
    using v(6,7) by (auto simp: mult.assoc [symmetric])
  moreover have "u32 (h + u32 (2 * b)) = h + 2 * b" using wh nonneg suc(7) by (simp add: u32_id)
  ultimately have sz: "sz = img_alloc_size f h b S" by (simp add: sz_def img_alloc_size_def X_def)
  obtain data i where al: "aom_memalign pick h0 (2 ^ kb) sz = (data, h')" "data \<noteq> 0"
    and img: "img = img_fill (i\<lparr>img_data := data, img_data_owner := 1, img_sz := sz\<rparr>) f dw dh w h (fmt_bps f)
        (8 * fmt_bytes f) (fmt_xcs f) (fmt_ycs f) S b" using suc(12) kb by auto
  have bS: "b * S < 4294967296"
  proof -
    have sz0: "0 \<le> sz" using X0 n2 by (auto simp: sz img_alloc_size_def simp flip: X_def)
    have "sz + 2 ^ kb + 7 \<le> AOM_MAX_ALLOCABLE_MEMORY"
      using memalign_size_le [OF al, OF _ _ sz0] one_if_zero_le [OF suc(4)] kb by simp
    then have "X * fmt_samples2 f div 2 \<le> 8589934592"
      using one_le_power [of "2::int" kb] unfolding sz img_alloc_size_def AOM_MAX_ALLOCABLE_MEMORY_def X_def by linarith
    moreover have "X * 3 \<le> X * fmt_samples2 f" using n2 X0 by auto
    moreover have "X = h * S + 2 * (b * S)" "0 \<le> h * S" using wh S0 by (simp_all add: X_def distrib_right)
    ultimately show ?thesis by linarith
  qed
  let ?img = "i\<lparr>img_data := data, img_data_owner := 1, img_sz := sz, fmt := f, bit_depth := 8 * fmt_bytes f, img_w := w, img_h := h,
      x_chroma_shift := fmt_xcs f, y_chroma_shift := fmt_ycs f, bps := fmt_bps f,
      stride := (if f = AOM_IMG_FMT_NV12 then [S, shr S (nat (fmt_xcs f)) * 2, 0]
        else [S, shr S (nat (fmt_xcs f)), shr S (nat (fmt_xcs f))]),
      cp := AOM_CICP_UNSPECIFIED, tc := AOM_CICP_UNSPECIFIED, mc := AOM_CICP_UNSPECIFIED\<rparr>"
  have S1: "0 \<le> S div 2 ^ nat (fmt_xcs f)" "S div 2 ^ nat (fmt_xcs f) \<le> S" "S div 2 * 2 \<le> S"
    using S0 v(2) by auto
  have eq: "img = ?img\<lparr>d_w := dw, d_h := dh, planes := fresh_planes f data h b S\<rparr>"
    unfolding img img_fill_def Let_def
    using set_rect_planar [of ?img S "if f = AOM_IMG_FMT_NV12 then S div 2 ^ nat (fmt_xcs f) * 2 else S div 2 ^ nat (fmt_xcs f)"
        "if f = AOM_IMG_FMT_NV12 then 0 else S div 2 ^ nat (fmt_xcs f)" dw dh b]
      v(1,2,3,8) nonneg w h wh suc(7) S0 S1 bS
    by (cases "f = AOM_IMG_FMT_NV12") (simp_all add: shr_def fresh_planes_def Let_def)
  show thesis
    by (rule that [of w h S kb data])
      (use suc v w h wh S S0 sz al eq kb one_if_zero_le [OF suc(4)] in \<open>simp_all add: shr_def\<close>)
qed

text \<open>The bytes that belong to the luma plane, and to the chroma plane stored first or second.\<close>

definition luma_bytes :: "int \<Rightarrow> int \<Rightarrow> int \<Rightarrow> int" where "luma_bytes h b S = (h + 2 * b) * S"

definition chroma_bytes :: "int \<Rightarrow> int \<Rightarrow> int \<Rightarrow> int \<Rightarrow> int" where
  "chroma_bytes f h b S = (h div 2 ^ nat (fmt_ycs f) + 2 * (b div 2 ^ nat (fmt_ycs f))) *
     (if f = AOM_IMG_FMT_NV12 then S else S div 2 ^ nat (fmt_xcs f))"

definition plane_start :: "int \<Rightarrow> int \<Rightarrow> int \<Rightarrow> int \<Rightarrow> nat \<Rightarrow> int" where
  "plane_start f h b S p =
     (if p = 0 then 0
      else if (p = 1) = (f AND AOM_IMG_FMT_UV_FLIP = 0) then luma_bytes h b S
      else luma_bytes h b S + chroma_bytes f h b S)"

definition plane_bytes :: "int \<Rightarrow> int \<Rightarrow> int \<Rightarrow> int \<Rightarrow> nat \<Rightarrow> int" where
  "plane_bytes f h b S p = (if p = 0 then luma_bytes h b S else chroma_bytes f h b S)"

lemma plane_bytes_fit:
  assumes v: "is_valid_img_fmt f" and "0 \<le> h" "0 \<le> b" "0 \<le> S" "2 ^ nat (fmt_ycs f) dvd h"
  shows "0 \<le> luma_bytes h b S" "0 \<le> chroma_bytes f h b S"
    "luma_bytes h b S + (if f = AOM_IMG_FMT_NV12 then 1 else 2) * chroma_bytes f h b S \<le> img_alloc_size f h b S"
proof -
  note vf = valid_fmt_facts [OF v]
  define U where "U = h div 2 ^ nat (fmt_ycs f) + 2 * (b div 2 ^ nat (fmt_ycs f))"
  have U: "0 \<le> U" "2 ^ nat (fmt_ycs f) * U \<le> h + 2 * b" using assms(2,3,5) vf(3) by (auto simp: U_def)
  have X: "0 \<le> (h + 2 * b) * S" using assms by simp
  then show "0 \<le> luma_bytes h b S" by (simp add: luma_bytes_def)
  show "0 \<le> chroma_bytes f h b S" using U(1) assms(4) vf(2) unfolding chroma_bytes_def U_def [symmetric] by auto
  have US: "2 ^ nat (fmt_ycs f) * U * S \<le> (h + 2 * b) * S" using U(2) assms(4) by (rule mult_right_mono)
  have half: "U * (2 * (S div 2)) \<le> U * S" using U(1) assms(4) by (intro mult_left_mono) simp_all
  show "luma_bytes h b S + (if f = AOM_IMG_FMT_NV12 then 1 else 2) * chroma_bytes f h b S \<le> img_alloc_size f h b S"
  proof -
    define X where "X = (h + 2 * b) * S"
    have "2 ^ nat (fmt_ycs f) * U * S \<le> X" "0 \<le> X" using US X by (simp_all add: X_def)
    then show ?thesis
      unfolding luma_bytes_def chroma_bytes_def img_alloc_size_def U_def [symmetric] X_def [symmetric]
      using vf(2,3,4,8) half by (auto simp: fmt_samples2_def)
  qed
qed

lemma chroma_dims:
  assumes "0 \<le> d" "d \<le> e" "2 ^ nat cs dvd e" "cs = 0 \<or> cs = (1::int)" "d \<le> 134217728"
  shows "s32 (shr (u32 (d + cs)) (nat cs)) \<le> e div 2 ^ nat cs"
proof -
  have "shr (u32 (d + cs)) (nat cs) = (d + cs) div 2 ^ nat cs" using assms(1,4,5) by (auto simp: shr_def u32_id)
  moreover have "(d + cs) div 2 ^ nat cs \<le> e div 2 ^ nat cs" using assms(2,3,4) by auto
  moreover have "s32 ((d + cs) div 2 ^ nat cs) = (d + cs) div 2 ^ nat cs" using assms(1,4,5) by (auto simp: s32_id)
  ultimately show ?thesis by simp
qed

text \<open>Every pixel of a plane lies in the bytes that belong to it.\<close>

lemma fresh_plane_region:
  assumes lay: "is_valid_img_fmt f" "0 \<le> dw" "0 \<le> dh" "0 \<le> b" "dw \<le> w" "2 ^ nat (fmt_xcs f) dvd w" "dh \<le> h"
    "2 ^ nat (fmt_ycs f) dvd h" "(w + 2 * b) * fmt_bytes f \<le> S" "even w \<Longrightarrow> even S"
    "dw \<le> 134217728" "dh \<le> 134217728"
    and img: "fmt img = f" "d_w img = dw" "d_h img = dh" "x_chroma_shift img = fmt_xcs f" "y_chroma_shift img = fmt_ycs f"
    "planes img = fresh_planes f data h b S"
    "stride img = (if f = AOM_IMG_FMT_NV12 then [S, S div 2 ^ nat (fmt_xcs f) * 2, 0]
       else [S, S div 2 ^ nat (fmt_xcs f), S div 2 ^ nat (fmt_xcs f)])"
    and p: "in_plane img p r c"
  shows "data + plane_start f h b S p \<le> img_pixel_addr img p r c"
    "img_pixel_addr img p r c < data + plane_start f h b S p + plane_bytes f h b S p"
proof -
  note v = valid_fmt_facts [OF lay(1)]
  define B where "B = fmt_bytes f"
  have B: "B = 1 \<or> B = 2" "0 \<le> B" using v(7) by (auto simp: B_def)
  have r: "0 \<le> r" "r < aom_img_plane_height img (int p)" "0 \<le> c" "c < img_row_bytes img p" "p < 3"
    using p by (simp_all add: in_plane_def)
  have "data + plane_start f h b S p \<le> img_pixel_addr img p r c \<and>
    img_pixel_addr img p r c < data + plane_start f h b S p + plane_bytes f h b S p"
  proof (cases "p = 0")
    case True
    have "r < dh" "c < dw * B"
      using r True lay(2,3,11,12) by (simp_all add: img aom_img_plane_height_def img_row_bytes_def aom_img_plane_width_def s32_id B_def)
    moreover have "b * B + dw * B \<le> S"
    proof -
      have "(b + dw) * B \<le> (w + 2 * b) * B" using lay(4,5) B(2) by (intro mult_right_mono) simp_all
      then show ?thesis using lay(9) by (simp add: B_def distrib_right)
    qed
    moreover have "img_pixel_addr img p r c = data + b * B + b * S + r * S + c"
      using True by (simp add: img_pixel_addr_def img fresh_planes_def Let_def B_def)
    ultimately show ?thesis
      using row_in_block [of r dh c "dw * B" "b * B" S b "h + 2 * b" data] r lay(4,7) True B(2)
      by (simp add: plane_start_def plane_bytes_def luma_bytes_def)
  next
    case False
    define xs where "xs = nat (fmt_xcs f)"
    define ys where "ys = nat (fmt_ycs f)"
    define n where "n = (if f = AOM_IMG_FMT_NV12 then 2 else 1 :: int)"
    define C where "C = (w div 2 ^ xs) * B * n"
    define T where "T = (if f = AOM_IMG_FMT_NV12 then S else S div 2 ^ xs)"
    have "c < aom_img_plane_width img (int p) * B * n"
      using r(4) False by (simp add: img_row_bytes_def img B_def n_def)
    moreover have "aom_img_plane_width img (int p) \<le> w div 2 ^ xs"
      using chroma_dims [OF lay(2,5,6) v(2) lay(11)] False by (simp add: aom_img_plane_width_def img xs_def)
    then have "aom_img_plane_width img (int p) * (B * n) \<le> w div 2 ^ xs * (B * n)"
      using B(2) by (intro mult_right_mono) (simp_all add: n_def)
    ultimately have cC: "c < C" by (simp add: C_def mult.assoc)
    have rh: "r < h div 2 ^ ys"
      using r(2) False chroma_dims [OF lay(3,7,8) v(3) lay(12)] by (simp add: aom_img_plane_height_def img ys_def)
    note rr = rh cC
    have "(b + w) * B \<le> (w + 2 * b) * B" using lay(4) B(2) by (intro mult_right_mono) simp_all
    then have bw: "(b + w) * B \<le> S" using lay(9) by (simp add: B_def)
    have evenS: "even S" if "xs = 1" using that lay(6,10) by (simp add: xs_def)
    have fit: "(b div 2 ^ xs) * B * n + C \<le> T"
    proof (cases "xs = 0")
      case True
      then have "n = 1" "T = S" using v(8) by (auto simp: n_def xs_def T_def)
      then show ?thesis using bw True by (simp add: C_def distrib_right)
    next
      case False
      then have xs1: "xs = 1" using v(2) by (auto simp: xs_def)
      show ?thesis
        using bw B(1) v(8) lay(4) unfolding C_def T_def xs1 n_def B_def by auto
    qed
    have addr: "img_pixel_addr img p r c = data + plane_start f h b S p + (b div 2 ^ xs) * B * n +
        (b div 2 ^ ys) * T + r * T + c"
    proof -
      have pp: "p = 1 \<or> p = 2" using r(5) False by auto
      show ?thesis
      proof (cases "f = AOM_IMG_FMT_NV12")
        case True
        then have "xs = 1" using v(8) by (simp add: xs_def)
        then have ev: "S div 2 * 2 = S" "nat (fmt_xcs f) = 1" using evenS by (simp_all add: xs_def)
        have "p = 1" using pp p True by (auto simp: in_plane_def img fresh_planes_def Let_def)
        then show ?thesis using True ev
          by (simp add: img_pixel_addr_def img fresh_planes_def Let_def plane_start_def luma_bytes_def
            T_def n_def xs_def ys_def B_def fmt_defs)
      next
        case False
        then show ?thesis using pp
          by (auto simp: img_pixel_addr_def img fresh_planes_def Let_def plane_start_def luma_bytes_def
            chroma_bytes_def T_def n_def xs_def ys_def B_def)
      qed
    qed
    have "0 \<le> (b div 2 ^ xs) * B * n" using lay(4) B(2) by (simp add: n_def pos_imp_zdiv_nonneg_iff)
    moreover have "plane_bytes f h b S p = (h div 2 ^ ys + 2 * (b div 2 ^ ys)) * T"
      using False by (simp add: plane_bytes_def chroma_bytes_def T_def xs_def ys_def)
    moreover have "0 \<le> b div 2 ^ ys" using lay(4) by (simp add: pos_imp_zdiv_nonneg_iff)
    ultimately show ?thesis
      using row_in_block [OF r(1) rr(1) r(3) rr(2) _ fit, of "b div 2 ^ ys" "h div 2 ^ ys + 2 * (b div 2 ^ ys)"]
      unfolding addr by simp
  qed
  then show "data + plane_start f h b S p \<le> img_pixel_addr img p r c"
    "img_pixel_addr img p r c < data + plane_start f h b S p + plane_bytes f h b S p" by simp_all
qed

lemma fresh_image_pixels:
  assumes "img_alloc_helper ok pick h0 img0 f dw dh ba sa za b 0 None = Some (True, Some img, h')"
    and nonneg: "0 \<le> dw" "0 \<le> dh" "0 \<le> ba" "0 \<le> sa" "0 \<le> za" "0 \<le> b"
  obtains start len where
    "\<And>p r c. in_plane img p r c \<Longrightarrow> start p \<le> img_pixel_addr img p r c \<and> img_pixel_addr img p r c < start p + len p"
    "\<And>p r c. in_plane img p r c \<Longrightarrow> img_data img \<le> start p \<and> start p + len p \<le> img_data img + img_sz img"
    "\<And>p q r c r' c'. in_plane img p r c \<Longrightarrow> in_plane img q r' c' \<Longrightarrow> p \<noteq> q \<Longrightarrow>
       start p + len p \<le> start q \<or> start q + len q \<le> start p"
    "\<exists>n. live h' = (pick, n) # live h0 \<and> pick \<le> img_data img \<and> img_data img + img_sz img \<le> pick + n"
proof -
  obtain w h S data k where lay:
    "is_valid_img_fmt f" "dw \<le> w" "w < 2 ^ 28" "2 ^ nat (fmt_xcs f) dvd w" "dh \<le> h" "h < 2 ^ 28"
    "2 ^ nat (fmt_ycs f) dvd h" "b \<le> 65536" "(w + 2 * b) * fmt_bytes f \<le> S" "even w \<longrightarrow> even S"
    "S \<le> 2147483647" "aom_memalign pick h0 (2 ^ k) (img_alloc_size f h b S) = (data, h')" "data \<noteq> 0"
    "2 ^ k \<le> (65536::int)" "dw \<le> 134217728" "dh \<le> 134217728"
    and img: "fmt img = f" "d_w img = dw" "d_h img = dh" "x_chroma_shift img = fmt_xcs f" "y_chroma_shift img = fmt_ycs f"
    "img_data img = data" "img_sz img = img_alloc_size f h b S" "planes img = fresh_planes f data h b S"
    "stride img = (if f = AOM_IMG_FMT_NV12 then [S, S div 2 ^ nat (fmt_xcs f) * 2, 0]
       else [S, S div 2 ^ nat (fmt_xcs f), S div 2 ^ nat (fmt_xcs f)])"
    by (rule fresh_image_layout [OF assms])
  have S: "0 \<le> S"
  proof -
    have "0 \<le> (w + 2 * b) * fmt_bytes f" using nonneg lay(2) valid_fmt_facts(7) [OF lay(1)] by auto
    then show ?thesis using lay(9) by simp
  qed
  have h: "0 \<le> h" using nonneg(2) lay(5) by simp
  note fit = plane_bytes_fit [OF lay(1) h nonneg(6) S lay(7)]
  have nv: "in_plane img p r c \<Longrightarrow> f = AOM_IMG_FMT_NV12 \<Longrightarrow> p = 0 \<or> p = 1" for p r c
    by (auto simp: in_plane_def img fresh_planes_def Let_def less_Suc_eq numeral_3_eq_3)
  have flip: "f = AOM_IMG_FMT_NV12 \<Longrightarrow> f AND AOM_IMG_FMT_UV_FLIP = 0" by (simp add: fmt_defs)
  have sz0: "0 \<le> img_alloc_size f h b S" using fit by (cases "f = AOM_IMG_FMT_NV12") simp_all
  show thesis
  proof (rule that [of "\<lambda>p. data + plane_start f h b S p" "plane_bytes f h b S"])
    show "data + plane_start f h b S p \<le> img_pixel_addr img p r c \<and>
      img_pixel_addr img p r c < data + plane_start f h b S p + plane_bytes f h b S p"
      if "in_plane img p r c" for p r c
      using fresh_plane_region [OF lay(1) nonneg(1,2,6) lay(2,4,5,7,9) lay(10) [rule_format] lay(15,16) img(1-5,8,9) that] by simp
    show "img_data img \<le> data + plane_start f h b S p \<and>
      data + plane_start f h b S p + plane_bytes f h b S p \<le> img_data img + img_sz img"
      if "in_plane img p r c" for p r c
      using that nv [OF that] fit flip
      by (auto simp: img plane_start_def plane_bytes_def split: if_splits)
    show "data + plane_start f h b S p + plane_bytes f h b S p \<le> data + plane_start f h b S q \<or>
      data + plane_start f h b S q + plane_bytes f h b S q \<le> data + plane_start f h b S p"
      if "in_plane img p r c" "in_plane img q r' c'" "p \<noteq> q" for p q r c r' c'
      using that fit by (auto simp: in_plane_def plane_start_def plane_bytes_def less_Suc_eq numeral_3_eq_3)
    show "\<exists>n. live h' = (pick, n) # live h0 \<and> pick \<le> img_data img \<and> img_data img + img_sz img \<le> pick + n"
      using memalign_nonnull [OF lay(12,13) refl lay(14) sz0] by (simp add: img)
  qed
qed

text \<open>C22. The planes of a fresh image. When \<open>img_alloc_helper\<close> succeeds (any format, size,
  alignment and border), every byte of every row of every plane of the viewport lies
  inside the image's data block, which lies inside the one block added to the heap, and no
  byte belongs to two planes.\<close>

theorem image_planes_fit:
  assumes "img_alloc_helper ok pick h0 img0 f dw dh ba sa za b 0 None = Some (True, Some img, h')"
    and "0 \<le> dw" "0 \<le> dh" "0 \<le> ba" "0 \<le> sa" "0 \<le> za" "0 \<le> b"
  shows "(\<exists>n. live h' = (pick, n) # live h0 \<and> pick \<le> img_data img \<and> img_data img + img_sz img \<le> pick + n) \<and>
    (\<forall>p r c. in_plane img p r c \<longrightarrow>
       img_data img \<le> img_pixel_addr img p r c \<and> img_pixel_addr img p r c < img_data img + img_sz img) \<and>
    (\<forall>p q r c r' c'. in_plane img p r c \<and> in_plane img q r' c' \<and> p \<noteq> q \<longrightarrow>
       img_pixel_addr img p r c \<noteq> img_pixel_addr img q r' c')"
proof -
  from fresh_image_pixels [OF assms] obtain start len where
    a: "\<And>p r c. in_plane img p r c \<Longrightarrow> start p \<le> img_pixel_addr img p r c \<and> img_pixel_addr img p r c < start p + len p"
    and b: "\<And>p r c. in_plane img p r c \<Longrightarrow> img_data img \<le> start p \<and> start p + len p \<le> img_data img + img_sz img"
    and c: "\<And>p q r c r' c'. in_plane img p r c \<Longrightarrow> in_plane img q r' c' \<Longrightarrow> p \<noteq> q \<Longrightarrow>
       start p + len p \<le> start q \<or> start q + len q \<le> start p"
    and d: "\<exists>n. live h' = (pick, n) # live h0 \<and> pick \<le> img_data img \<and> img_data img + img_sz img \<le> pick + n"
    by blast
  have "img_data img \<le> img_pixel_addr img p r c' \<and> img_pixel_addr img p r c' < img_data img + img_sz img"
    if "in_plane img p r c'" for p r c' using a [OF that] b [OF that] by linarith
  moreover have "img_pixel_addr img p r e \<noteq> img_pixel_addr img q r' e'"
    if "in_plane img p r e" "in_plane img q r' e'" "p \<noteq> q" for p q r e r' e'
    using a [OF that(1)] a [OF that(2)] c [OF that] by linarith
  ultimately show ?thesis using d by blast
qed

definition sample_image :: "(bool \<times> aom_image option \<times> heap) option" where
  "sample_image = img_alloc_helper True 8192 sample_heap None AOM_IMG_FMT_I420 6 4 16 16 2 8 0 None"

theorem image_planes_fit_witness:
  "\<exists>img h'. sample_image = Some (True, Some img, h') \<and>
    (\<exists>n. live h' = (8192, n) # live sample_heap \<and> 8192 \<le> img_data img \<and> img_data img + img_sz img \<le> 8192 + n) \<and>
    (\<forall>p r c. in_plane img p r c \<longrightarrow>
       img_data img \<le> img_pixel_addr img p r c \<and> img_pixel_addr img p r c < img_data img + img_sz img) \<and>
    (\<forall>p q r c r' c'. in_plane img p r c \<and> in_plane img q r' c' \<and> p \<noteq> q \<longrightarrow>
       img_pixel_addr img p r c \<noteq> img_pixel_addr img q r' c')"
proof -
  have "(case sample_image of Some (True, Some img, _) \<Rightarrow> True | _ \<Rightarrow> False)" by code_simp
  then obtain img h' where e: "sample_image = Some (True, Some img, h')"
    by (auto split: option.splits bool.splits prod.splits)
  have "(0::int) \<le> 6" "(0::int) \<le> 4" "(0::int) \<le> 16" "(0::int) \<le> 2" "(0::int) \<le> 8" by simp_all
  note img = image_planes_fit [OF e [unfolded sample_image_def] this(1,2,3,3,4,5)]
  show ?thesis by (rule exI [of _ img], rule exI [of _ h'], rule conjI, rule e, rule img)
qed

section \<open>Viewports, flipping and metadata\<close>

text \<open>The viewport check. For 32-bit unsigned arguments \<open>aom_img_set_rect\<close> refuses,
  leaving the descriptor alone, exactly when the rectangle leaves the stored image; no sum
  of its test wraps.\<close>

theorem set_rect_refuses:
  assumes "0 \<le> x" "x < 2 ^ 32" "0 \<le> y" "y < 2 ^ 32" "0 \<le> w" "w < 2 ^ 32" "0 \<le> h" "h < 2 ^ 32"
    and "img_w img < 2 ^ 32" "img_h img < 2 ^ 32"
  shows "(x + w > img_w img \<or> y + h > img_h img \<longrightarrow> aom_img_set_rect img x y w h b = (-1, img)) \<and>
    (x + w \<le> img_w img \<and> y + h \<le> img_h img \<longrightarrow> fst (aom_img_set_rect img x y w h b) = 0 \<and>
       d_w (snd (aom_img_set_rect img x y w h b)) = w \<and> d_h (snd (aom_img_set_rect img x y w h b)) = h)"
proof -
  have u: "u32 (4294967295 - w) = 4294967295 - w" "u32 (4294967295 - h) = 4294967295 - h"
    using assms by (simp_all add: u32_id)
  have chk: "(x \<le> u32 (4294967295 - w) \<and> u32 (x + w) \<le> img_w img \<and> y \<le> u32 (4294967295 - h) \<and> u32 (y + h) \<le> img_h img)
      \<longleftrightarrow> x + w \<le> img_w img \<and> y + h \<le> img_h img"
  proof (cases "x \<le> 4294967295 - w \<and> y \<le> 4294967295 - h")
    case True
    then have "u32 (x + w) = x + w" "u32 (y + h) = y + h" using assms by (simp_all add: u32_id)
    then show ?thesis using True by (simp add: u)
  next
    case False
    then show ?thesis using assms unfolding u by auto
  qed
  show ?thesis unfolding aom_img_set_rect_def chk by (simp add: Let_def)
qed

theorem set_rect_refuses_witness:
  "aom_img_set_rect (zero_image\<lparr>img_w := 64, img_h := 64\<rparr>) 4294967290 0 10 10 0 = (-1, zero_image\<lparr>img_w := 64, img_h := 64\<rparr>)"
  using set_rect_refuses [of 4294967290 0 10 10 "zero_image\<lparr>img_w := 64, img_h := 64\<rparr>" 0] by simp

text \<open>Viewports of large images wrap. The row offset \<open>y * stride\<close> is a 32-bit unsigned
  product, while images up to 8 GB can be allocated: on a 65536 x 65538 image the viewport
  at row 65536 is accepted and its luma pointer is that of row 0.\<close>

theorem set_rect_wraps:
  "(case aom_img_alloc True 1099511627776 sample_heap None AOM_IMG_FMT_I420 65536 65538 1 of
      Some (True, Some img, _) \<Rightarrow>
        (let (ret, img') = aom_img_set_rect img 0 65536 16 2 0 in
         stride img ! 0 = 65536 \<and> img_h img = 65538 \<and> ret = 0 \<and> planes img' ! 0 = img_data img \<and>
         planes img' ! 0 \<noteq> img_data img + 65536 * stride img ! 0)
    | _ \<Rightarrow> False)"
  by code_simp

definition plane_rows :: "aom_image \<Rightarrow> nat \<Rightarrow> int" where
  "plane_rows img p = (if p = 0 then d_h img else shr (u32 (d_h img + y_chroma_shift img)) (nat (y_chroma_shift img)))"

lemma flip_fields:
  assumes "p < 3" "planes img ! p \<noteq> 0"
  shows "planes (aom_img_flip img) ! p = planes img ! p + u32 (plane_rows img p - 1) * stride img ! p"
    "stride (aom_img_flip img) ! p = - (stride img ! p)"
  using assms by (auto simp: aom_img_flip_def Let_def plane_rows_def less_Suc_eq numeral_3_eq_3 numeral_2_eq_2)

text \<open>Flipping. Row \<open>r\<close> of a flipped plane is row \<open>rows - 1 - r\<close> of the original, and
  flipping twice gives the original descriptor back.\<close>

theorem flip_rows:
  assumes "planes img = [a, b, c]" "stride img = [s, t, v]" "a \<noteq> 0" "b \<noteq> 0" "c \<noteq> 0"
    and "planes (aom_img_flip img) = [a', b', c']" "a' \<noteq> 0" "b' \<noteq> 0" "c' \<noteq> 0"
    and "1 \<le> d_h img" "d_h img < 2 ^ 31" "y_chroma_shift img = 0 \<or> y_chroma_shift img = 1"
  shows "(\<forall>p < 3. \<forall>r col. img_pixel_addr (aom_img_flip img) p r col = img_pixel_addr img p (plane_rows img p - 1 - r) col) \<and>
    aom_img_flip (aom_img_flip img) = img"
proof -
  have rows: "u32 (plane_rows img p - 1) = plane_rows img p - 1" for p
    using assms(10-12) by (auto simp: plane_rows_def shr_def u32_id)
  have ne: "p < 3 \<Longrightarrow> planes img ! p \<noteq> 0" for p
    using assms(1,3-5) by (auto simp: less_Suc_eq numeral_3_eq_3)
  have "img_pixel_addr (aom_img_flip img) p r col = img_pixel_addr img p (plane_rows img p - 1 - r) col" if "p < 3" for p r col
    using flip_fields [OF that ne [OF that]] rows [of p] by (simp add: img_pixel_addr_def algebra_simps)
  moreover have "aom_img_flip (aom_img_flip img) = img"
    using assms by (cases img) (auto simp: aom_img_flip_def Let_def)
  ultimately show ?thesis by blast
qed

theorem flip_rows_witness:
  "(let img = zero_image\<lparr>planes := [1000, 2000, 3000], stride := [16, 8, 8], d_h := 5, y_chroma_shift := 1\<rparr> in
    (\<forall>p < 3. \<forall>r col. img_pixel_addr (aom_img_flip img) p r col = img_pixel_addr img p (plane_rows img p - 1 - r) col) \<and>
    aom_img_flip (aom_img_flip img) = img)"
  unfolding Let_def
  by (rule flip_rows [where a = 1000 and b = 2000 and c = 3000 and s = 16 and t = 8 and v = 8 and
      a' = 1064 and b' = 2016 and c' = 3016]) (simp_all, code_simp)

definition wf_metadata :: "aom_image \<Rightarrow> bool" where
  "wf_metadata img \<longleftrightarrow>
     (case metadata img of None \<Rightarrow> True
      | Some arr \<Rightarrow> arr_sz arr = int (length (arr_items arr)) \<and> arr_sz arr < 2 ^ 32)"

text \<open>Attaching metadata. Whatever allocations fail, \<open>aom_img_add_metadata\<close> keeps the
  list well formed and the entries already there; when it returns 0 exactly one entry with
  the given type, flag and bytes was appended, and layer-specific scalability or timecode
  metadata is refused.\<close>

theorem add_metadata_appends:
  assumes "wf_metadata img" "aom_img_num_metadata (Some img) < 2 ^ 32 - 1"
    and "aom_img_add_metadata ok (Some img) type data sz flag = (ret, Some img')"
  shows "wf_metadata img' \<and>
    (\<forall>i < aom_img_num_metadata (Some img). 0 \<le> i \<longrightarrow> aom_img_get_metadata (Some img') i = aom_img_get_metadata (Some img) i) \<and>
    (ret = 0 \<or> ret = -1) \<and>
    (ret = -1 \<longrightarrow> aom_img_num_metadata (Some img') = aom_img_num_metadata (Some img)) \<and>
    (ret = 0 \<longrightarrow> aom_img_num_metadata (Some img') = aom_img_num_metadata (Some img) + 1 \<and>
       \<not> (flag AND AOM_MIF_LAYER_SPECIFIC \<noteq> 0 \<and> (type = OBU_METADATA_TYPE_SCALABILITY \<or> type = OBU_METADATA_TYPE_TIMECODE)) \<and>
       (\<exists>bytes. data = Some bytes \<and> aom_img_get_metadata (Some img') (aom_img_num_metadata (Some img)) =
          Some \<lparr>md_type = type, md_payload = take (nat sz) bytes, md_sz = sz, md_insert_flag = flag\<rparr>))"
proof -
  define img1 where "img1 = (if metadata img = None then img\<lparr>metadata := aom_img_metadata_array_alloc ok 0\<rparr> else img)"
  have num1: "aom_img_num_metadata (Some img1) = aom_img_num_metadata (Some img)" "wf_metadata img1"
    using assms(1)
    by (auto simp: img1_def aom_img_num_metadata_def aom_img_metadata_array_alloc_def wf_metadata_def)
  have get1: "aom_img_get_metadata (Some img1) i = aom_img_get_metadata (Some img) i" if "0 \<le> i" for i
    using that
    by (auto simp: img1_def aom_img_num_metadata_def aom_img_get_metadata_def aom_img_metadata_array_alloc_def)
  show ?thesis
  proof (cases "metadata img1")
    case None
    then show ?thesis using assms(3) num1 get1
      by (auto simp: aom_img_add_metadata_def Let_def simp flip: img1_def)
  next
    case (Some arr)
    have arr: "arr_sz arr = int (length (arr_items arr))" "arr_sz arr < 2 ^ 32 - 1"
      using num1 assms(2) Some by (auto simp: wf_metadata_def aom_img_num_metadata_def)
    show ?thesis
    proof (cases "ret = 0")
      case False
      then show ?thesis using assms(3) Some num1 get1
        by (auto simp: aom_img_add_metadata_def Let_def split: if_splits option.splits simp flip: img1_def)
    next
      case True
      then obtain bytes where b: "data = Some bytes"
        "\<not> (flag AND AOM_MIF_LAYER_SPECIFIC \<noteq> 0 \<and> (type = OBU_METADATA_TYPE_SCALABILITY \<or> type = OBU_METADATA_TYPE_TIMECODE))"
        "img' = img1\<lparr>metadata := Some \<lparr>arr_sz = arr_sz arr + 1, arr_items = arr_items arr @
          [Some \<lparr>md_type = type, md_payload = take (nat sz) bytes, md_sz = sz, md_insert_flag = flag\<rparr>]\<rparr>\<rparr>"
        using assms(3) Some arr
        by (auto simp: aom_img_add_metadata_def aom_img_metadata_alloc_def Let_def u64_id
          split: if_splits option.splits simp flip: img1_def)
      have num: "aom_img_num_metadata (Some img) = arr_sz arr" using num1(1) Some by (simp add: aom_img_num_metadata_def)
      have "aom_img_get_metadata (Some img') i = aom_img_get_metadata (Some img) i" if "0 \<le> i" "i < arr_sz arr" for i
        using get1 [OF that(1)] that Some arr by (auto simp: b(3) aom_img_get_metadata_def nth_append)
      then show ?thesis using True b arr unfolding num
        by (auto simp: aom_img_num_metadata_def wf_metadata_def aom_img_get_metadata_def)
    qed
  qed
qed

theorem add_metadata_appends_witness:
  "(let (ret, img') = aom_img_add_metadata (\<lambda>_. True) (Some zero_image) 4 (Some [1, 2, 3]) 2 2 in
    ret = 0 \<and> aom_img_num_metadata img' = 1)"
proof -
  obtain ret img' where e: "aom_img_add_metadata (\<lambda>_. True) (Some zero_image) 4 (Some [1, 2, 3]) 2 2 = (ret, Some img')"
    and r: "ret = 0"
    by (simp add: aom_img_add_metadata_def zero_image_def aom_img_metadata_array_alloc_def aom_img_metadata_alloc_def
      AOM_MIF_LAYER_SPECIFIC_def)
  have "wf_metadata zero_image" "aom_img_num_metadata (Some zero_image) < 2 ^ 32 - 1"
    by (simp_all add: wf_metadata_def zero_image_def aom_img_num_metadata_def)
  moreover have "aom_img_num_metadata (Some zero_image) = 0"
    by (simp add: zero_image_def aom_img_num_metadata_def)
  ultimately show ?thesis
    using add_metadata_appends [OF _ _ e] r unfolding e by simp
qed

end
