(* ===== verification/Aom_Codec.thy ===== *)
theory Aom_Codec
  imports Aom_Image
begin

text \<open>
  The codec-independent API: \<open>aom/src/aom_codec.c\<close>, \<open>aom/src/aom_decoder.c\<close> and
  \<open>aom/src/aom_encoder.c\<close>. An algorithm (AV1 encoder or decoder) is a table of functions,
  \<open>aom_codec_iface\<close>, and is a parameter here: its functions act on the private data
  \<open>'a aom_codec_priv\<close> (the common part of \<open>struct aom_codec_priv\<close> and the algorithm's
  own \<open>'a\<close>). A context pointer is an \<open>option\<close> (\<open>None\<close> is NULL); every operation returns
  its status and the context afterwards. Memory is a function from addresses to bytes.
\<close>

type_synonym memory = "int \<Rightarrow> int"

datatype aom_codec_err = AOM_CODEC_OK | AOM_CODEC_ERROR | AOM_CODEC_MEM_ERROR | AOM_CODEC_ABI_MISMATCH
  | AOM_CODEC_INCAPABLE | AOM_CODEC_UNSUP_BITSTREAM | AOM_CODEC_UNSUP_FEATURE | AOM_CODEC_CORRUPT_FRAME
  | AOM_CODEC_INVALID_PARAM | AOM_CODEC_LIST_END

fun aom_codec_err_to_string :: "aom_codec_err \<Rightarrow> string" where
  "aom_codec_err_to_string AOM_CODEC_OK = ''Success''"
| "aom_codec_err_to_string AOM_CODEC_ERROR = ''Unspecified internal error''"
| "aom_codec_err_to_string AOM_CODEC_MEM_ERROR = ''Memory allocation error''"
| "aom_codec_err_to_string AOM_CODEC_ABI_MISMATCH = ''ABI version mismatch''"
| "aom_codec_err_to_string AOM_CODEC_INCAPABLE = ''Codec does not implement requested capability''"
| "aom_codec_err_to_string AOM_CODEC_UNSUP_BITSTREAM = ''Bitstream not supported by this decoder''"
| "aom_codec_err_to_string AOM_CODEC_UNSUP_FEATURE =
     ''Bitstream required feature not supported by this decoder''"
| "aom_codec_err_to_string AOM_CODEC_CORRUPT_FRAME = ''Corrupt frame detected''"
| "aom_codec_err_to_string AOM_CODEC_INVALID_PARAM = ''Invalid parameter''"
| "aom_codec_err_to_string AOM_CODEC_LIST_END = ''End of iterated list''"

definition AOM_CODEC_INTERNAL_ABI_VERSION :: int where "AOM_CODEC_INTERNAL_ABI_VERSION = 7"
definition AOM_DECODER_ABI_VERSION :: int where "AOM_DECODER_ABI_VERSION = 22"
definition AOM_ENCODER_ABI_VERSION :: int where "AOM_ENCODER_ABI_VERSION = 29"
definition AOM_CODEC_CAP_DECODER :: int where "AOM_CODEC_CAP_DECODER = 1"
definition AOM_CODEC_CAP_ENCODER :: int where "AOM_CODEC_CAP_ENCODER = 2"
definition AOM_CODEC_CAP_PSNR :: int where "AOM_CODEC_CAP_PSNR = 65536"
definition AOM_CODEC_CAP_HIGHBITDEPTH :: int where "AOM_CODEC_CAP_HIGHBITDEPTH = 262144"
definition AOM_CODEC_CAP_EXTERNAL_FRAME_BUFFER :: int where "AOM_CODEC_CAP_EXTERNAL_FRAME_BUFFER = 2097152"
definition AOM_CODEC_USE_PSNR :: int where "AOM_CODEC_USE_PSNR = 65536"
definition AOM_CODEC_USE_HIGHBITDEPTH :: int where "AOM_CODEC_USE_HIGHBITDEPTH = 262144"

section \<open>Data\<close>

record aom_fixed_buf =
  fb_buf :: int
  fb_sz :: int

datatype aom_codec_cx_pkt_kind = AOM_CODEC_CX_FRAME_PKT | AOM_CODEC_STATS_PKT | AOM_CODEC_FPMB_STATS_PKT
  | AOM_CODEC_PSNR_PKT | AOM_CODEC_CUSTOM_PKT

record aom_codec_cx_pkt =
  pkt_kind :: aom_codec_cx_pkt_kind
  pkt_buf :: int
  pkt_sz :: int
  pkt_flags :: int

record aom_codec_stream_info =
  si_w :: int
  si_h :: int
  si_is_kf :: int
  si_number_spatial_layers :: int
  si_number_temporal_layers :: int
  si_is_annexb :: int

record cfg_options =
  super_block_size :: int
  max_partition_size :: int
  min_partition_size :: int
  disable_trellis_quant :: int

record aom_codec_enc_cfg =
  g_usage :: int
  g_threads :: int
  g_w :: int
  g_h :: int
  g_bit_depth :: int
  g_timebase_num :: int
  g_timebase_den :: int
  g_error_resilient :: int
  g_pass :: int
  g_lag_in_frames :: int
  rc_dropframe_thresh :: int
  rc_end_usage :: int
  rc_target_bitrate :: int
  rc_min_quantizer :: int
  rc_max_quantizer :: int
  rc_undershoot_pct :: int
  rc_overshoot_pct :: int
  rc_buf_sz :: int
  rc_buf_initial_sz :: int
  rc_buf_optimal_sz :: int
  kf_mode :: int
  encoder_cfg :: cfg_options

record aom_codec_dec_cfg =
  dec_threads :: int
  dec_w :: int
  dec_h :: int
  allow_lowbitdepth :: int

datatype codec_config = Config_none | Config_dec "aom_codec_dec_cfg option" | Config_enc aom_codec_enc_cfg

record 'a aom_codec_priv =
  priv_err_detail :: "string option"
  cx_data_dst_buf :: aom_fixed_buf
  cx_data_pad_before :: int
  cx_data_pad_after :: int
  alg :: 'a

type_synonym codec_iter = nat

record 'a aom_codec_iface =
  if_name :: string
  abi_version :: int
  caps :: int
  if_init :: "int \<Rightarrow> codec_config \<Rightarrow> aom_codec_err \<times> 'a aom_codec_priv option"
  ctrl_maps :: "(int \<times> ('a aom_codec_priv \<Rightarrow> int \<Rightarrow> aom_codec_err \<times> 'a aom_codec_priv)) list option"
  peek_si :: "int list \<Rightarrow> aom_codec_stream_info \<Rightarrow> aom_codec_err \<times> aom_codec_stream_info"
  get_si :: "'a aom_codec_priv \<Rightarrow> aom_codec_stream_info \<Rightarrow> aom_codec_err \<times> aom_codec_stream_info \<times> 'a aom_codec_priv"
  if_decode :: "'a aom_codec_priv \<Rightarrow> int list option \<Rightarrow> aom_codec_err \<times> 'a aom_codec_priv"
  get_frame :: "'a aom_codec_priv \<Rightarrow> codec_iter \<Rightarrow> aom_image option \<times> codec_iter \<times> 'a aom_codec_priv"
  set_fb_fn :: "'a aom_codec_priv \<Rightarrow> aom_codec_err \<times> 'a aom_codec_priv"
  cfgs :: "aom_codec_enc_cfg list"
  if_encode :: "'a aom_codec_priv \<Rightarrow> memory \<Rightarrow> aom_image option \<Rightarrow> int \<Rightarrow> int \<Rightarrow> int \<Rightarrow> aom_codec_err \<times> 'a aom_codec_priv"
  get_cx_data :: "'a aom_codec_priv \<Rightarrow> memory \<Rightarrow> codec_iter \<Rightarrow> aom_codec_cx_pkt option \<times> codec_iter \<times> 'a aom_codec_priv \<times> memory"
  cfg_set :: "'a aom_codec_priv \<Rightarrow> aom_codec_enc_cfg \<Rightarrow> aom_codec_err \<times> 'a aom_codec_priv"
  get_glob_hdrs :: "('a aom_codec_priv \<Rightarrow> aom_fixed_buf option \<times> 'a aom_codec_priv) option"
  get_preview :: "('a aom_codec_priv \<Rightarrow> aom_image option \<times> 'a aom_codec_priv) option"
  if_set_option :: "('a aom_codec_priv \<Rightarrow> string \<Rightarrow> string \<Rightarrow> aom_codec_err \<times> 'a aom_codec_priv) option"

record 'a aom_codec_ctx =
  ctx_name :: "string option"
  iface :: "'a aom_codec_iface option"
  err :: aom_codec_err
  err_detail :: "string option"
  init_flags :: int
  config :: codec_config
  priv :: "'a aom_codec_priv option"

text \<open>A context cleared by \<open>memset\<close> or \<open>calloc\<close>.\<close>

definition zero_ctx :: "'a aom_codec_ctx" where
  "zero_ctx = \<lparr>ctx_name = None, iface = None, err = AOM_CODEC_OK, err_detail = None, init_flags = 0,
     config = Config_none, priv = None\<rparr>"

section \<open>\<open>aom_codec.c\<close>\<close>

definition aom_codec_iface_name :: "'a aom_codec_iface option \<Rightarrow> string" where
  "aom_codec_iface_name f = (case f of Some f \<Rightarrow> if_name f | None \<Rightarrow> ''<invalid interface>'')"

definition aom_codec_error :: "'a aom_codec_ctx option \<Rightarrow> string" where
  "aom_codec_error ctx = (case ctx of Some c \<Rightarrow> aom_codec_err_to_string (err c)
     | None \<Rightarrow> aom_codec_err_to_string AOM_CODEC_INVALID_PARAM)"

definition aom_codec_error_detail :: "'a aom_codec_ctx option \<Rightarrow> string option" where
  "aom_codec_error_detail ctx =
     (case ctx of
        None \<Rightarrow> None
      | Some c \<Rightarrow> if err c \<noteq> AOM_CODEC_OK
          then (case priv c of Some p \<Rightarrow> priv_err_detail p | None \<Rightarrow> err_detail c) else None)"

text \<open>The last component is the private data handed to the algorithm's \<open>destroy\<close>.\<close>

definition aom_codec_destroy ::
  "'a aom_codec_ctx option \<Rightarrow> aom_codec_err \<times> 'a aom_codec_ctx option \<times> 'a aom_codec_priv option" where
  "aom_codec_destroy ctx =
     (case ctx of
        None \<Rightarrow> (AOM_CODEC_INVALID_PARAM, None, None)
      | Some c \<Rightarrow>
          if iface c = None \<or> priv c = None then (AOM_CODEC_ERROR, Some (c\<lparr>err := AOM_CODEC_ERROR\<rparr>), None)
          else (AOM_CODEC_OK, Some (c\<lparr>iface := None, ctx_name := None, priv := None, err := AOM_CODEC_OK\<rparr>), priv c))"

definition aom_codec_get_caps :: "'a aom_codec_iface option \<Rightarrow> int" where
  "aom_codec_get_caps f = (case f of Some f \<Rightarrow> caps f | None \<Rightarrow> 0)"

definition aom_codec_control ::
  "'a aom_codec_ctx option \<Rightarrow> int \<Rightarrow> int \<Rightarrow> aom_codec_err \<times> 'a aom_codec_ctx option" where
  "aom_codec_control ctx ctrl_id arg =
     (case ctx of
        None \<Rightarrow> (AOM_CODEC_INVALID_PARAM, None)
      | Some c \<Rightarrow>
          if ctrl_id = 0 then (AOM_CODEC_INVALID_PARAM, Some (c\<lparr>err := AOM_CODEC_INVALID_PARAM\<rparr>))
          else
            (case (iface c, priv c) of
               (Some f, Some p) \<Rightarrow>
                 (case ctrl_maps f of
                    None \<Rightarrow> (AOM_CODEC_ERROR, Some (c\<lparr>err := AOM_CODEC_ERROR\<rparr>))
                  | Some maps \<Rightarrow>
                      (case find (\<lambda>entry. fst entry = ctrl_id) maps of
                         Some entry \<Rightarrow>
                           (let (e, p) = snd entry p arg in (e, Some (c\<lparr>err := e, priv := Some p\<rparr>)))
                       | None \<Rightarrow>
                           (AOM_CODEC_ERROR, Some (c\<lparr>err := AOM_CODEC_ERROR,
                              priv := Some (p\<lparr>priv_err_detail := Some ''Invalid control ID''\<rparr>)\<rparr>))))
             | _ \<Rightarrow> (AOM_CODEC_ERROR, Some (c\<lparr>err := AOM_CODEC_ERROR\<rparr>))))"

definition aom_codec_set_option ::
  "'a aom_codec_ctx option \<Rightarrow> string \<Rightarrow> string \<Rightarrow> aom_codec_err \<times> 'a aom_codec_ctx option" where
  "aom_codec_set_option ctx name value =
     (case ctx of
        None \<Rightarrow> (AOM_CODEC_INVALID_PARAM, None)
      | Some c \<Rightarrow>
          (case (iface c, priv c) of
             (Some f, Some p) \<Rightarrow>
               (case if_set_option f of
                  None \<Rightarrow> (AOM_CODEC_ERROR, Some (c\<lparr>err := AOM_CODEC_ERROR\<rparr>))
                | Some fn \<Rightarrow> (let (e, p) = fn p name value in (e, Some (c\<lparr>err := e, priv := Some p\<rparr>))))
           | _ \<Rightarrow> (AOM_CODEC_ERROR, Some (c\<lparr>err := AOM_CODEC_ERROR\<rparr>))))"

text \<open>
  Internal errors. The formatted message is an argument; \<open>setjmp\<close> says whether a
  \<open>longjmp\<close> target is set, in which case \<open>aom_internal_error\<close> does not return (\<open>Inl\<close> the
  code that reaches the target).
\<close>

record aom_internal_error_info =
  error_code :: aom_codec_err
  has_detail :: int
  detail :: string
  info_setjmp :: int

definition set_error :: "aom_internal_error_info \<Rightarrow> aom_codec_err \<Rightarrow> string option \<Rightarrow> aom_internal_error_info" where
  "set_error info e msg =
     (let info = info\<lparr>error_code := e, has_detail := 0\<rparr> in
      case msg of
        None \<Rightarrow> info
      | Some text \<Rightarrow> info\<lparr>has_detail := 1, detail := take (200 - 2) text\<rparr>)"

definition aom_set_error :: "aom_internal_error_info \<Rightarrow> aom_codec_err \<Rightarrow> string option \<Rightarrow> aom_internal_error_info" where
  "aom_set_error info e msg = set_error info e msg"

definition aom_internal_error ::
  "aom_internal_error_info \<Rightarrow> aom_codec_err \<Rightarrow> string option \<Rightarrow>
   (aom_codec_err \<times> aom_internal_error_info) + aom_internal_error_info" where
  "aom_internal_error info e msg =
     (let info = set_error info e msg in
      if info_setjmp info \<noteq> 0 then Inl (error_code info, info) else Inr info)"

definition aom_internal_error_copy ::
  "aom_internal_error_info \<Rightarrow> aom_internal_error_info \<Rightarrow>
   (aom_codec_err \<times> aom_internal_error_info) + aom_internal_error_info" where
  "aom_internal_error_copy info src =
     (if has_detail src = 0 then aom_internal_error info (error_code src) None
      else aom_internal_error info (error_code src) (Some (detail src)))"

definition aom_merge_corrupted_flag :: "int \<Rightarrow> int \<Rightarrow> int" where
  "aom_merge_corrupted_flag corrupted value = corrupted OR value"

definition aom_obu_type_to_string :: "int \<Rightarrow> string" where
  "aom_obu_type_to_string type =
     (if type = 1 then ''OBU_SEQUENCE_HEADER'' else if type = 2 then ''OBU_TEMPORAL_DELIMITER''
      else if type = 3 then ''OBU_FRAME_HEADER'' else if type = 7 then ''OBU_REDUNDANT_FRAME_HEADER''
      else if type = 6 then ''OBU_FRAME'' else if type = 4 then ''OBU_TILE_GROUP''
      else if type = 5 then ''OBU_METADATA'' else if type = 8 then ''OBU_TILE_LIST''
      else if type = 15 then ''OBU_PADDING'' else ''<Invalid OBU Type>'')"

section \<open>\<open>aom_decoder.c\<close>\<close>

definition SAVE_STATUS :: "'a aom_codec_ctx option \<Rightarrow> aom_codec_err \<Rightarrow> 'a aom_codec_ctx option" where
  "SAVE_STATUS ctx e = map_option (\<lambda>c. c\<lparr>err := e\<rparr>) ctx"

text \<open>
  What both initialisers do once their arguments are accepted: run the algorithm's
  \<open>init\<close> and undo it when it fails. The last component is what \<open>destroy\<close> received.
\<close>

definition codec_init ::
  "'a aom_codec_ctx \<Rightarrow> 'a aom_codec_iface \<Rightarrow> codec_config \<Rightarrow> int \<Rightarrow>
   aom_codec_err \<times> 'a aom_codec_ctx option \<times> 'a aom_codec_priv option" where
  "codec_init c f cfg flags =
     (let c = c\<lparr>iface := Some f, ctx_name := Some (if_name f), priv := None, init_flags := flags, config := cfg\<rparr>;
          (res, p) = if_init f flags cfg;
          c = c\<lparr>priv := p\<rparr> in
      if res \<noteq> AOM_CODEC_OK then
        let c = c\<lparr>err_detail := (case priv c of Some p \<Rightarrow> priv_err_detail p | None \<Rightarrow> None)\<rparr>;
            (_, ctx, released) = aom_codec_destroy (Some c)
        in (res, ctx, released)
      else (res, Some c, None))"

definition aom_codec_dec_init_ver ::
  "'a aom_codec_ctx option \<Rightarrow> 'a aom_codec_iface option \<Rightarrow> aom_codec_dec_cfg option \<Rightarrow> int \<Rightarrow> int \<Rightarrow>
   aom_codec_err \<times> 'a aom_codec_ctx option \<times> 'a aom_codec_priv option" where
  "aom_codec_dec_init_ver ctx f cfg flags ver =
     (let (res, ctx, released) =
        (if ver \<noteq> AOM_DECODER_ABI_VERSION then (AOM_CODEC_ABI_MISMATCH, ctx, None)
         else case (ctx, f) of
             (Some c, Some i) \<Rightarrow>
               if abi_version i \<noteq> AOM_CODEC_INTERNAL_ABI_VERSION then (AOM_CODEC_ABI_MISMATCH, ctx, None)
               else if caps i AND AOM_CODEC_CAP_DECODER = 0 then (AOM_CODEC_INCAPABLE, ctx, None)
               else codec_init zero_ctx i (Config_dec cfg) flags
           | _ \<Rightarrow> (AOM_CODEC_INVALID_PARAM, ctx, None))
      in (res, SAVE_STATUS ctx res, released))"

definition aom_codec_peek_stream_info ::
  "'a aom_codec_iface option \<Rightarrow> int list option \<Rightarrow> aom_codec_stream_info option \<Rightarrow> aom_codec_err \<times> aom_codec_stream_info option" where
  "aom_codec_peek_stream_info f data si =
     (case (f, data, si) of
        (Some f, Some (b # bs), Some s) \<Rightarrow>
          (let (e, s) = peek_si f (b # bs) (s\<lparr>si_w := 0, si_h := 0\<rparr>) in (e, Some s))
      | _ \<Rightarrow> (AOM_CODEC_INVALID_PARAM, si))"

definition aom_codec_get_stream_info ::
  "'a aom_codec_ctx option \<Rightarrow> aom_codec_stream_info option \<Rightarrow>
   aom_codec_err \<times> 'a aom_codec_ctx option \<times> aom_codec_stream_info option" where
  "aom_codec_get_stream_info ctx si =
     (let (res, ctx, si) =
        (case (ctx, si) of
           (Some c, Some s) \<Rightarrow>
             (case (iface c, priv c) of
                (Some f, Some p) \<Rightarrow>
                  (let (e, s, p) = get_si f p (s\<lparr>si_w := 0, si_h := 0\<rparr>) in (e, Some (c\<lparr>priv := Some p\<rparr>), Some s))
              | _ \<Rightarrow> (AOM_CODEC_ERROR, ctx, si))
         | _ \<Rightarrow> (AOM_CODEC_INVALID_PARAM, ctx, si))
      in (res, SAVE_STATUS ctx res, si))"

definition aom_codec_decode ::
  "'a aom_codec_ctx option \<Rightarrow> int list option \<Rightarrow> aom_codec_err \<times> 'a aom_codec_ctx option" where
  "aom_codec_decode ctx data =
     (let (res, ctx) =
        (case ctx of
           None \<Rightarrow> (AOM_CODEC_INVALID_PARAM, ctx)
         | Some c \<Rightarrow>
             (case (iface c, priv c) of
                (Some f, Some p) \<Rightarrow> (let (e, p) = if_decode f p data in (e, Some (c\<lparr>priv := Some p\<rparr>)))
              | _ \<Rightarrow> (AOM_CODEC_ERROR, ctx)))
      in (res, SAVE_STATUS ctx res))"

definition aom_codec_get_frame ::
  "'a aom_codec_ctx option \<Rightarrow> codec_iter \<Rightarrow> aom_image option \<times> codec_iter \<times> 'a aom_codec_ctx option" where
  "aom_codec_get_frame ctx iter =
     (case ctx of
        None \<Rightarrow> (None, iter, ctx)
      | Some c \<Rightarrow>
          (case (iface c, priv c) of
             (Some f, Some p) \<Rightarrow>
               (let (img, iter, p) = get_frame f p iter in (img, iter, Some (c\<lparr>priv := Some p\<rparr>)))
           | _ \<Rightarrow> (None, iter, ctx)))"

definition aom_codec_set_frame_buffer_functions ::
  "'a aom_codec_ctx option \<Rightarrow> bool \<Rightarrow> bool \<Rightarrow> aom_codec_err \<times> 'a aom_codec_ctx option" where
  "aom_codec_set_frame_buffer_functions ctx cb_get cb_release =
     (let (res, ctx) =
        (case ctx of
           None \<Rightarrow> (AOM_CODEC_INVALID_PARAM, ctx)
         | Some c \<Rightarrow>
             if \<not> cb_get \<or> \<not> cb_release then (AOM_CODEC_INVALID_PARAM, ctx)
             else (case (iface c, priv c) of
                (Some f, Some p) \<Rightarrow>
                  if caps f AND AOM_CODEC_CAP_EXTERNAL_FRAME_BUFFER = 0 then (AOM_CODEC_INCAPABLE, ctx)
                  else (let (e, p) = set_fb_fn f p in (e, Some (c\<lparr>priv := Some p\<rparr>)))
              | _ \<Rightarrow> (AOM_CODEC_ERROR, ctx)))
      in (res, SAVE_STATUS ctx res))"

section \<open>\<open>aom_encoder.c\<close>\<close>

definition aom_codec_enc_init_ver ::
  "'a aom_codec_ctx option \<Rightarrow> 'a aom_codec_iface option \<Rightarrow> aom_codec_enc_cfg option \<Rightarrow> int \<Rightarrow> int \<Rightarrow>
   aom_codec_err \<times> 'a aom_codec_ctx option \<times> 'a aom_codec_priv option" where
  "aom_codec_enc_init_ver ctx f cfg flags ver =
     (let (res, ctx, released) =
        (if ver \<noteq> AOM_ENCODER_ABI_VERSION \<and> ver \<noteq> 25 then (AOM_CODEC_ABI_MISMATCH, ctx, None)
         else case (ctx, f, cfg) of
             (Some c, Some i, Some g) \<Rightarrow>
               if abi_version i \<noteq> AOM_CODEC_INTERNAL_ABI_VERSION then (AOM_CODEC_ABI_MISMATCH, ctx, None)
               else if caps i AND AOM_CODEC_CAP_ENCODER = 0 then (AOM_CODEC_INCAPABLE, ctx, None)
               else if flags AND AOM_CODEC_USE_PSNR \<noteq> 0 \<and> caps i AND AOM_CODEC_CAP_PSNR = 0
               then (AOM_CODEC_INCAPABLE, ctx, None)
               else if flags AND AOM_CODEC_USE_HIGHBITDEPTH \<noteq> 0 \<and> caps i AND AOM_CODEC_CAP_HIGHBITDEPTH = 0
               then (AOM_CODEC_INCAPABLE, ctx, None)
               else if g_bit_depth g > 8 \<and> flags AND AOM_CODEC_USE_HIGHBITDEPTH = 0
               then (AOM_CODEC_INVALID_PARAM, Some (c\<lparr>err_detail :=
                 Some ''High bit-depth used without the AOM_CODEC_USE_HIGHBITDEPTH flag.''\<rparr>), None)
               else codec_init c i (Config_enc g) flags
           | _ \<Rightarrow> (AOM_CODEC_INVALID_PARAM, ctx, None))
      in (res, SAVE_STATUS ctx res, released))"

definition aom_codec_enc_config_default ::
  "'a aom_codec_iface option \<Rightarrow> aom_codec_enc_cfg option \<Rightarrow> int \<Rightarrow> aom_codec_err \<times> aom_codec_enc_cfg option" where
  "aom_codec_enc_config_default f cfg usage =
     (case (f, cfg) of
        (Some i, Some g) \<Rightarrow>
          if caps i AND AOM_CODEC_CAP_ENCODER = 0 then (AOM_CODEC_INCAPABLE, cfg)
          else
            (case find (\<lambda>c. g_usage c = usage) (cfgs i) of
               None \<Rightarrow> (AOM_CODEC_INVALID_PARAM, cfg)
             | Some c \<Rightarrow> (AOM_CODEC_OK, Some (c\<lparr>encoder_cfg := \<lparr>super_block_size = 0, max_partition_size = 128,
                 min_partition_size = 4, disable_trellis_quant = 3\<rparr>\<rparr>)))
      | _ \<Rightarrow> (AOM_CODEC_INVALID_PARAM, cfg))"

definition aom_codec_encode ::
  "'a aom_codec_ctx option \<Rightarrow> memory \<Rightarrow> aom_image option \<Rightarrow> int \<Rightarrow> int \<Rightarrow> int \<Rightarrow> aom_codec_err \<times> 'a aom_codec_ctx option" where
  "aom_codec_encode ctx m img pts duration flags =
     (let (res, ctx) =
        (case ctx of
           None \<Rightarrow> (AOM_CODEC_INVALID_PARAM, ctx)
         | Some c \<Rightarrow>
             if img \<noteq> None \<and> duration = 0 then (AOM_CODEC_INVALID_PARAM, ctx)
             else (case (iface c, priv c) of
                (Some f, Some p) \<Rightarrow>
                  if caps f AND AOM_CODEC_CAP_ENCODER = 0 then (AOM_CODEC_INCAPABLE, ctx)
                  else if (case img of None \<Rightarrow> False
                           | Some i \<Rightarrow> (fmt i AND AOM_IMG_FMT_HIGHBITDEPTH \<noteq> 0) \<noteq>
                                       (init_flags c AND AOM_CODEC_USE_HIGHBITDEPTH \<noteq> 0))
                  then (AOM_CODEC_INVALID_PARAM, Some (c\<lparr>priv := Some (p\<lparr>priv_err_detail := Some
                    (''img is high bit-depth and codec was not initialized with '' @
                     ''AOM_CODEC_USE_HIGHBITDEPTH, or vice versa.'')\<rparr>)\<rparr>))
                  else if duration > 4294967295 then (AOM_CODEC_INVALID_PARAM, ctx)
                  else (let (e, p) = if_encode f p m img pts duration flags in (e, Some (c\<lparr>priv := Some p\<rparr>)))
              | _ \<Rightarrow> (AOM_CODEC_ERROR, ctx)))
      in (res, SAVE_STATUS ctx res))"

definition mem_copy :: "memory \<Rightarrow> int \<Rightarrow> int \<Rightarrow> int \<Rightarrow> memory" where
  "mem_copy m dst src n = (\<lambda>a. if dst \<le> a \<and> a < dst + n then m (src + (a - dst)) else m a)"

text \<open>
  The second half of \<open>aom_codec_get_cx_data\<close>: a frame packet is copied to the
  application's buffer when there is one, the data is not there already and it fits; the
  buffer then starts after the packet.
\<close>

definition place_frame_pkt ::
  "'a aom_codec_priv \<Rightarrow> memory \<Rightarrow> aom_codec_cx_pkt \<Rightarrow> aom_codec_cx_pkt \<times> 'a aom_codec_priv \<times> memory" where
  "place_frame_pkt p m pkt =
     (let dst_buf = fb_buf (cx_data_dst_buf p);
          copy = dst_buf \<noteq> 0 \<and> pkt_buf pkt \<noteq> dst_buf \<and>
            u64 (pkt_sz pkt + cx_data_pad_before p + cx_data_pad_after p) \<le> fb_sz (cx_data_dst_buf p);
          m = (if copy then mem_copy m (dst_buf + cx_data_pad_before p) (pkt_buf pkt) (pkt_sz pkt) else m);
          pkt = (if copy then pkt\<lparr>pkt_buf := dst_buf,
                   pkt_sz := u64 (pkt_sz pkt + u32 (cx_data_pad_before p + cx_data_pad_after p))\<rparr> else pkt);
          p = (if dst_buf = pkt_buf pkt
               then p\<lparr>cx_data_dst_buf := \<lparr>fb_buf = dst_buf + pkt_sz pkt,
                 fb_sz = u64 (fb_sz (cx_data_dst_buf p) - pkt_sz pkt)\<rparr>\<rparr> else p)
      in (pkt, p, m))"

definition aom_codec_get_cx_data ::
  "'a aom_codec_ctx option \<Rightarrow> memory \<Rightarrow> codec_iter option \<Rightarrow>
   aom_codec_cx_pkt option \<times> codec_iter option \<times> 'a aom_codec_ctx option \<times> memory" where
  "aom_codec_get_cx_data ctx m iter =
     (case ctx of
        None \<Rightarrow> (None, iter, ctx, m)
      | Some c \<Rightarrow>
          (case iter of
             None \<Rightarrow> (None, iter, Some (c\<lparr>err := AOM_CODEC_INVALID_PARAM\<rparr>), m)
           | Some it \<Rightarrow>
               (case (iface c, priv c) of
                  (Some f, Some p) \<Rightarrow>
                    if caps f AND AOM_CODEC_CAP_ENCODER = 0
                    then (None, iter, Some (c\<lparr>err := AOM_CODEC_INCAPABLE\<rparr>), m)
                    else
                      (let (pkt, it, p, m) = get_cx_data f p m it in
                       case pkt of
                         Some k \<Rightarrow>
                           if pkt_kind k = AOM_CODEC_CX_FRAME_PKT
                           then (let (k, p, m) = place_frame_pkt p m k in (Some k, Some it, Some (c\<lparr>priv := Some p\<rparr>), m))
                           else (pkt, Some it, Some (c\<lparr>priv := Some p\<rparr>), m)
                       | None \<Rightarrow> (None, Some it, Some (c\<lparr>priv := Some p\<rparr>), m))
                | _ \<Rightarrow> (None, iter, Some (c\<lparr>err := AOM_CODEC_ERROR\<rparr>), m))))"

definition aom_codec_set_cx_data_buf ::
  "'a aom_codec_ctx option \<Rightarrow> aom_fixed_buf option \<Rightarrow> int \<Rightarrow> int \<Rightarrow> aom_codec_err \<times> 'a aom_codec_ctx option" where
  "aom_codec_set_cx_data_buf ctx buf pad_before pad_after =
     (case ctx of
        None \<Rightarrow> (AOM_CODEC_INVALID_PARAM, ctx)
      | Some c \<Rightarrow>
          (case priv c of
             None \<Rightarrow> (AOM_CODEC_INVALID_PARAM, ctx)
           | Some p \<Rightarrow>
               (AOM_CODEC_OK, Some (c\<lparr>priv := Some (case buf of
                  Some b \<Rightarrow> p\<lparr>cx_data_dst_buf := b, cx_data_pad_before := pad_before, cx_data_pad_after := pad_after\<rparr>
                | None \<Rightarrow> p\<lparr>cx_data_dst_buf := \<lparr>fb_buf = 0, fb_sz = 0\<rparr>, cx_data_pad_before := 0, cx_data_pad_after := 0\<rparr>)\<rparr>))))"

definition aom_codec_get_preview_frame ::
  "'a aom_codec_ctx option \<Rightarrow> aom_image option \<times> 'a aom_codec_ctx option" where
  "aom_codec_get_preview_frame ctx =
     (case ctx of
        None \<Rightarrow> (None, ctx)
      | Some c \<Rightarrow>
          (case (iface c, priv c) of
             (Some f, Some p) \<Rightarrow>
               if caps f AND AOM_CODEC_CAP_ENCODER = 0 then (None, Some (c\<lparr>err := AOM_CODEC_INCAPABLE\<rparr>))
               else (case get_preview f of
                 None \<Rightarrow> (None, Some (c\<lparr>err := AOM_CODEC_INCAPABLE\<rparr>))
               | Some fn \<Rightarrow> (let (img, p) = fn p in (img, Some (c\<lparr>priv := Some p\<rparr>))))
           | _ \<Rightarrow> (None, Some (c\<lparr>err := AOM_CODEC_ERROR\<rparr>))))"

definition aom_codec_get_global_headers ::
  "'a aom_codec_ctx option \<Rightarrow> aom_fixed_buf option \<times> 'a aom_codec_ctx option" where
  "aom_codec_get_global_headers ctx =
     (case ctx of
        None \<Rightarrow> (None, ctx)
      | Some c \<Rightarrow>
          (case (iface c, priv c) of
             (Some f, Some p) \<Rightarrow>
               if caps f AND AOM_CODEC_CAP_ENCODER = 0 then (None, Some (c\<lparr>err := AOM_CODEC_INCAPABLE\<rparr>))
               else (case get_glob_hdrs f of
                 None \<Rightarrow> (None, Some (c\<lparr>err := AOM_CODEC_INCAPABLE\<rparr>))
               | Some fn \<Rightarrow> (let (buf, p) = fn p in (buf, Some (c\<lparr>priv := Some p\<rparr>))))
           | _ \<Rightarrow> (None, Some (c\<lparr>err := AOM_CODEC_ERROR\<rparr>))))"

definition aom_codec_enc_config_set ::
  "'a aom_codec_ctx option \<Rightarrow> aom_codec_enc_cfg option \<Rightarrow> aom_codec_err \<times> 'a aom_codec_ctx option" where
  "aom_codec_enc_config_set ctx cfg =
     (let (res, ctx) =
        (case (ctx, cfg) of
           (Some c, Some g) \<Rightarrow>
             (case (iface c, priv c) of
                (Some f, Some p) \<Rightarrow>
                  if caps f AND AOM_CODEC_CAP_ENCODER = 0 then (AOM_CODEC_INCAPABLE, ctx)
                  else (let (e, p) = cfg_set f p g in (e, Some (c\<lparr>priv := Some p\<rparr>)))
              | _ \<Rightarrow> (AOM_CODEC_INVALID_PARAM, ctx))
         | _ \<Rightarrow> (AOM_CODEC_INVALID_PARAM, ctx))
      in (res, SAVE_STATUS ctx res))"

text \<open>Packet lists. \<open>iter\<close> is the index of the next packet; \<open>None\<close> is the NULL a walk starts from.\<close>

record aom_codec_pkt_list =
  pl_cnt :: nat
  pl_max :: nat
  pkts :: "aom_codec_cx_pkt list"

definition aom_codec_pkt_list_add :: "aom_codec_pkt_list \<Rightarrow> aom_codec_cx_pkt \<Rightarrow> int \<times> aom_codec_pkt_list" where
  "aom_codec_pkt_list_add pl pkt =
     (if pl_cnt pl < pl_max pl then (0, pl\<lparr>pkts := (pkts pl)[pl_cnt pl := pkt], pl_cnt := Suc (pl_cnt pl)\<rparr>)
      else (1, pl))"

definition aom_codec_pkt_list_get ::
  "aom_codec_pkt_list \<Rightarrow> nat option \<Rightarrow> aom_codec_cx_pkt option \<times> nat option" where
  "aom_codec_pkt_list_get pl iter =
     (let i = (case iter of None \<Rightarrow> 0 | Some i \<Rightarrow> i) in
      if i < pl_cnt pl then (Some (pkts pl ! i), Some (Suc i)) else (None, Some i))"

end
