(* ===== verification/Aom_Shim.thy ===== *)
theory Aom_Shim
  imports Aom_Codec
begin

text \<open>
  The project's own C code, \<open>crates/aom-sys/shim/aom_shim.c\<close>: the realtime AV1 encoder
  and the decoder the Rust crates call. The codec behind \<open>aom_codec_av1_cx\<close> and
  \<open>aom_codec_av1_dx\<close> is the parameter \<open>f\<close>. The shim's output buffer is a byte list whose
  length is \<open>out_cap\<close>; its fixed \<open>char\<close> arrays are strings of at most 255 characters. The
  loops that drain packets and frames only end when the codec says so: they are partial
  functions, and \<open>Some None\<close> is a store outside a buffer.
\<close>

section \<open>Formatting\<close>

fun nat_digits :: "nat \<Rightarrow> string" where
  "nat_digits n = (if n < 10 then [char_of (48 + n)] else nat_digits (n div 10) @ [char_of (48 + n mod 10)])"

declare nat_digits.simps [simp del]

definition show_int :: "int \<Rightarrow> string" where
  "show_int i = (if i < 0 then ''-'' @ nat_digits (nat (- i)) else nat_digits (nat i))"

text \<open>What a \<open>char\<close> array of \<open>n\<close> bytes holds up to its NUL after \<open>snprintf\<close>.\<close>

definition snprintf :: "nat \<Rightarrow> string \<Rightarrow> string" where
  "snprintf n text = take (n - 1) text"

text \<open>The caller's error buffer of \<open>errlen\<close> bytes; nothing is written when it has none.\<close>

definition write_err :: "string \<Rightarrow> int \<Rightarrow> string \<Rightarrow> string" where
  "write_err ebuf errlen text = (if errlen = 0 then ebuf else snprintf (nat (u64 errlen)) text)"

section \<open>The encoder\<close>

record 'a aom_shim =
  sh_ctx :: "'a aom_codec_ctx"
  sh_cfg :: aom_codec_enc_cfg
  sh_w :: int
  sh_h :: int
  sh_out :: "int list"
  sh_out_cap :: int
  refused :: string
  sh_error :: string

definition append_packet ::
  "allocator \<Rightarrow> 'a aom_shim \<Rightarrow> int list \<Rightarrow> int \<Rightarrow> (int \<times> 'a aom_shim \<times> int) option" where
  "append_packet al s data used =
     (let len = int (length data);
          grow = u64 (used + len) > sh_out_cap s;
          cap = u64 (u64 (used + len) * 2) in
      case (if grow then realloc_bytes al (sh_out s) cap else Some (sh_out s)) of
        None \<Rightarrow> Some (-1, s, used)
      | Some buf \<Rightarrow>
          let s = (if grow then s\<lparr>sh_out := buf, sh_out_cap := cap\<rparr> else s) in
          map_option (\<lambda>out. (0, s\<lparr>sh_out := out\<rparr>, u64 (used + len))) (memcpy_at buf (nat used) data))"

definition remember_error :: "'a aom_shim \<Rightarrow> string \<Rightarrow> 'a aom_shim" where
  "remember_error s what =
     (let detail = aom_codec_error_detail (Some (sh_ctx s)) in
      s\<lparr>sh_error := snprintf 256 (what @ '': '' @ aom_codec_error (Some (sh_ctx s)) @
        (case detail of None \<Rightarrow> '''' | Some d \<Rightarrow> '': '' @ d))\<rparr>)"

text \<open>A context pointer into the shim is never NULL, so the context after a call is there.\<close>

definition ctx_of :: "'a aom_codec_ctx \<Rightarrow> 'a aom_codec_ctx option \<Rightarrow> 'a aom_codec_ctx" where
  "ctx_of c r = (case r of Some c' \<Rightarrow> c' | None \<Rightarrow> c)"

definition shim_ctrl :: "'a aom_shim \<Rightarrow> int \<times> int \<times> string \<Rightarrow> 'a aom_shim" where
  "shim_ctrl s c =
     (let (i, value, name) = c;
          (res, ctx) = aom_codec_control (Some (sh_ctx s)) i value;
          s = s\<lparr>sh_ctx := ctx_of (sh_ctx s) ctx\<rparr> in
      if res \<noteq> AOM_CODEC_OK then
        let used = length (refused s) in
        s\<lparr>refused := refused s @ snprintf (256 - used)
          ((if used \<noteq> 0 then '', '' else '''') @ name @ ''='' @ show_int value)\<rparr>
      else s)"

definition shim_controls :: "int \<Rightarrow> int \<Rightarrow> int \<Rightarrow> (int \<times> int \<times> string) list" where
  "shim_controls speed tile_cols_log2 screen =
     [(13, speed, ''AOME_SET_CPUUSED''), (32, 1, ''AV1E_SET_ROW_MT''),
      (33, tile_cols_log2, ''AV1E_SET_TILE_COLUMNS''), (40, 3, ''AV1E_SET_AQ_MODE''),
      (58, 1, ''AV1E_SET_ENABLE_CDEF''), (35, 0, ''AV1E_SET_ENABLE_TPL_MODEL''),
      (107, 0, ''AV1E_SET_DELTAQ_MODE''), (79, 0, ''AV1E_SET_ENABLE_ORDER_HINT''),
      (61, 0, ''AV1E_SET_ENABLE_OBMC''), (96, 0, ''AV1E_SET_ENABLE_WARPED_MOTION''),
      (95, 0, ''AV1E_SET_ENABLE_GLOBAL_MOTION''), (84, 0, ''AV1E_SET_ENABLE_REF_FRAME_MVS''),
      (42, 0, ''AV1E_SET_NOISE_SENSITIVITY''), (26, 300, ''AOME_SET_MAX_INTRA_BITRATE_PCT''),
      (126, 3, ''AV1E_SET_COEFF_COST_UPD_FREQ''), (127, 3, ''AV1E_SET_MODE_COST_UPD_FREQ''),
      (128, 3, ''AV1E_SET_MV_COST_UPD_FREQ''),
      (43, if screen \<noteq> 0 then 1 else 0, ''AV1E_SET_TUNE_CONTENT''),
      (104, if screen \<noteq> 0 then 1 else 0, ''AV1E_SET_ENABLE_PALETTE'')]"

definition shim_config ::
  "aom_codec_enc_cfg \<Rightarrow> int \<Rightarrow> int \<Rightarrow> int \<Rightarrow> int \<Rightarrow> int \<Rightarrow> int \<Rightarrow> int \<Rightarrow> aom_codec_enc_cfg" where
  "shim_config cfg w h fps kbps threads min_q max_q =
     cfg\<lparr>g_w := u32 w, g_h := u32 h, g_timebase_num := 1, g_timebase_den := fps, g_threads := u32 threads,
       g_lag_in_frames := 0, g_error_resilient := 0, g_pass := 0, rc_end_usage := 1,
       rc_target_bitrate := u32 kbps, rc_min_quantizer := u32 min_q, rc_max_quantizer := u32 max_q,
       rc_undershoot_pct := 50, rc_overshoot_pct := 50, rc_buf_initial_sz := 600, rc_buf_optimal_sz := 600,
       rc_buf_sz := 1000, rc_dropframe_thresh := 0, kf_mode := 0\<rparr>"

text \<open>
  \<open>aom_shim_open\<close>: the encoder (\<open>None\<close> for NULL) and the caller's error buffer.
  \<open>cfg0\<close> is the uninitialised configuration, \<open>calloc_ok\<close> whether the shim can be allocated.
\<close>

definition aom_shim_open ::
  "'a aom_codec_iface option \<Rightarrow> bool \<Rightarrow> aom_codec_enc_cfg \<Rightarrow> int \<Rightarrow> int \<Rightarrow> int \<Rightarrow> int \<Rightarrow> int \<Rightarrow> int \<Rightarrow> int \<Rightarrow> int \<Rightarrow>
   int \<Rightarrow> int \<Rightarrow> string \<Rightarrow> int \<Rightarrow> 'a aom_shim option \<times> string" where
  "aom_shim_open f calloc_ok cfg0 w h fps kbps speed screen threads tile_cols_log2 min_q max_q ebuf errlen =
     (case aom_codec_enc_config_default f (Some cfg0) 1 of
        (AOM_CODEC_OK, Some cfg) \<Rightarrow>
          let cfg = shim_config cfg w h fps kbps threads min_q max_q in
          if \<not> calloc_ok then (None, write_err ebuf errlen ''out of memory'')
          else
            let (res, ctx, _) = aom_codec_enc_init_ver (Some zero_ctx) f (Some cfg) 0 AOM_ENCODER_ABI_VERSION;
                c = ctx_of zero_ctx ctx in
            if res \<noteq> AOM_CODEC_OK
            then (None, write_err ebuf errlen (''aom_codec_enc_init failed: '' @ aom_codec_error (Some c)))
            else
              let s = \<lparr>sh_ctx = c, sh_cfg = cfg, sh_w = w, sh_h = h, sh_out = [], sh_out_cap = 0,
                       refused = '''', sh_error = ''''\<rparr>
              in (Some (foldl shim_ctrl s (shim_controls speed tile_cols_log2 screen)), ebuf)
      | _ \<Rightarrow> (None, write_err ebuf errlen ''aom_codec_enc_config_default failed''))"

definition read_bytes :: "memory \<Rightarrow> int \<Rightarrow> int \<Rightarrow> int list" where
  "read_bytes m a n = map (\<lambda>i. m (a + int i)) [0..<nat n]"

definition AOM_FRAME_IS_KEY :: int where "AOM_FRAME_IS_KEY = 1"

text \<open>
  The packet loop of \<open>aom_shim_encode\<close>: return value, shim, memory, \<open>used\<close> and \<open>key\<close>
  when it is left.
\<close>

partial_function (option) drain_packets ::
  "allocator \<Rightarrow> 'a aom_shim \<Rightarrow> memory \<Rightarrow> codec_iter \<Rightarrow> int \<Rightarrow> int \<Rightarrow>
   (int \<times> 'a aom_shim \<times> memory \<times> int \<times> int) option option" where
  "drain_packets al s m iter used key =
     (case aom_codec_get_cx_data (Some (sh_ctx s)) m (Some iter) of
        (pkt, iter', ctx, m') \<Rightarrow>
          (case pkt of
             None \<Rightarrow> Some (Some (0, s\<lparr>sh_ctx := ctx_of (sh_ctx s) ctx\<rparr>, m', used, key))
           | Some k \<Rightarrow>
               if pkt_kind k \<noteq> AOM_CODEC_CX_FRAME_PKT
               then drain_packets al (s\<lparr>sh_ctx := ctx_of (sh_ctx s) ctx\<rparr>) m' (case iter' of Some i \<Rightarrow> i | None \<Rightarrow> iter) used key
               else
                 (case append_packet al (s\<lparr>sh_ctx := ctx_of (sh_ctx s) ctx\<rparr>) (read_bytes m' (pkt_buf k) (pkt_sz k)) used of
                    None \<Rightarrow> Some None
                  | Some (r, s', used') \<Rightarrow>
                      if r \<noteq> 0
                      then Some (Some (-1, s'\<lparr>sh_error := snprintf 256 (''out of memory for a '' @ show_int (pkt_sz k) @
                             ''-byte packet'')\<rparr>, m', used', key))
                      else drain_packets al s' m' (case iter' of Some i \<Rightarrow> i | None \<Rightarrow> iter) used'
                             (if pkt_flags k AND AOM_FRAME_IS_KEY \<noteq> 0 then 1 else key))))"

text \<open>
  \<open>aom_shim_encode\<close>: the return value, the shim, the heap, and on success what \<open>out\<close>,
  \<open>out_len\<close> and \<open>is_key\<close> point to.
\<close>

definition aom_shim_encode ::
  "allocator \<Rightarrow> int \<Rightarrow> 'a aom_shim \<Rightarrow> heap \<Rightarrow> int \<Rightarrow> int \<Rightarrow> int \<Rightarrow> int \<Rightarrow> int \<Rightarrow> int \<Rightarrow> int \<Rightarrow>
   (int \<times> 'a aom_shim \<times> heap \<times> (int list \<times> int \<times> int) option) option option" where
  "aom_shim_encode al pick s hp y u v y_stride uv_stride pts force_kf =
     (case aom_img_wrap True pick hp (Some zero_image) AOM_IMG_FMT_I420 (u32 (sh_w s)) (u32 (sh_h s)) 1 y of
        Some (True, Some img, hp) \<Rightarrow>
          let img = img\<lparr>planes := [y, u, v], stride := [y_stride, uv_stride, uv_stride]\<rparr>;
              (res, ctx) = aom_codec_encode (Some (sh_ctx s)) (mem hp) (Some img) pts 1 (if force_kf \<noteq> 0 then 1 else 0);
              s = s\<lparr>sh_ctx := ctx_of (sh_ctx s) ctx\<rparr> in
          if res \<noteq> AOM_CODEC_OK then Some (Some (-1, remember_error s ''aom_codec_encode'', hp, None))
          else
            (case drain_packets al s (mem hp) 0 0 0 of
               None \<Rightarrow> None
             | Some None \<Rightarrow> Some None
             | Some (Some (r, s, m, used, key)) \<Rightarrow>
                 if r \<noteq> 0 then Some (Some (-1, s, hp\<lparr>mem := m\<rparr>, None))
                 else Some (Some (0, s, hp\<lparr>mem := m\<rparr>, Some (sh_out s, used, key))))
      | Some (_, _, hp) \<Rightarrow>
          Some (Some (-1, s\<lparr>sh_error := snprintf 256 (''aom_img_wrap refused a '' @ show_int (sh_w s) @ ''x'' @
            show_int (sh_h s) @ '' picture'')\<rparr>, hp, None))
      | None \<Rightarrow> Some None)"

definition aom_shim_set_bitrate :: "'a aom_shim \<Rightarrow> int \<Rightarrow> int \<times> 'a aom_shim" where
  "aom_shim_set_bitrate s kbps =
     (let cfg = (sh_cfg s)\<lparr>rc_target_bitrate := u32 kbps\<rparr>;
          (res, ctx) = aom_codec_enc_config_set (Some (sh_ctx s)) (Some cfg);
          s = s\<lparr>sh_ctx := ctx_of (sh_ctx s) ctx\<rparr> in
      if res \<noteq> AOM_CODEC_OK then (-1, remember_error s ''aom_codec_enc_config_set'')
      else (0, s\<lparr>sh_cfg := cfg\<rparr>))"

definition aom_shim_bitrate :: "'a aom_shim \<Rightarrow> int" where
  "aom_shim_bitrate s = s32 (rc_target_bitrate (sh_cfg s))"

definition aom_shim_refused :: "'a aom_shim \<Rightarrow> string" where "aom_shim_refused s = refused s"

definition aom_shim_error :: "'a aom_shim \<Rightarrow> string" where "aom_shim_error s = sh_error s"

text \<open>What closing releases: the codec's private data and the output buffer.\<close>

definition aom_shim_close :: "'a aom_shim option \<Rightarrow> ('a aom_codec_priv option \<times> int list) option" where
  "aom_shim_close s =
     (case s of None \<Rightarrow> None
      | Some s \<Rightarrow> (let (_, _, released) = aom_codec_destroy (Some (sh_ctx s)) in Some (released, sh_out s)))"

section \<open>The decoder\<close>

record 'a aom_shim_dec =
  dctx :: "'a aom_codec_ctx"
  derror :: string

definition aom_shim_dec_open ::
  "'a aom_codec_iface option \<Rightarrow> bool \<Rightarrow> int \<Rightarrow> string \<Rightarrow> int \<Rightarrow> 'a aom_shim_dec option \<times> string" where
  "aom_shim_dec_open f calloc_ok threads ebuf errlen =
     (let cfg = \<lparr>dec_threads = u32 threads, dec_w = 0, dec_h = 0, allow_lowbitdepth = 1\<rparr> in
      if \<not> calloc_ok then (None, write_err ebuf errlen ''out of memory'')
      else
        let (res, ctx, _) = aom_codec_dec_init_ver (Some zero_ctx) f (Some cfg) 0 AOM_DECODER_ABI_VERSION;
            c = ctx_of zero_ctx ctx in
        if res \<noteq> AOM_CODEC_OK
        then (None, write_err ebuf errlen (''aom_codec_dec_init failed: '' @ aom_codec_error (Some c)))
        else (Some \<lparr>dctx = c, derror = ''''\<rparr>, ebuf))"

partial_function (option) last_frame ::
  "'a aom_codec_ctx \<Rightarrow> codec_iter \<Rightarrow> aom_image option \<Rightarrow> (aom_image option \<times> 'a aom_codec_ctx) option" where
  "last_frame c iter prev =
     (case aom_codec_get_frame (Some c) iter of
        (img, iter', ctx) \<Rightarrow>
          (case img of None \<Rightarrow> Some (prev, ctx_of c ctx) | Some i \<Rightarrow> last_frame (ctx_of c ctx) iter' (Some i)))"

record decoded_picture =
  pic_planes :: "int list"
  pic_y_stride :: int
  pic_uv_stride :: int
  pic_w :: int
  pic_h :: int

text \<open>
  \<open>aom_shim_dec_decode\<close>: the return value, \<open>*got\<close>, the picture the out parameters
  describe when \<open>*got\<close> is 1, and the decoder.
\<close>

definition aom_shim_dec_decode ::
  "'a aom_shim_dec \<Rightarrow> int list option \<Rightarrow> (int \<times> int \<times> decoded_picture option \<times> 'a aom_shim_dec) option" where
  "aom_shim_dec_decode d data =
     (let (res, ctx) = aom_codec_decode (Some (dctx d)) data;
          d = d\<lparr>dctx := ctx_of (dctx d) ctx\<rparr> in
      if res \<noteq> AOM_CODEC_OK then
        Some (-1, 0, None, d\<lparr>derror := snprintf 256 (''aom_codec_decode: '' @ aom_codec_error (Some (dctx d)) @
          (case aom_codec_error_detail (Some (dctx d)) of None \<Rightarrow> '''' | Some t \<Rightarrow> '': '' @ t))\<rparr>)
      else
        do {
          (last, c) \<leftarrow> last_frame (dctx d) 0 None;
          let d = d\<lparr>dctx := c\<rparr>;
          case last of
            None \<Rightarrow> Some (0, 0, None, d)
          | Some img \<Rightarrow>
              if fmt img \<noteq> AOM_IMG_FMT_I420 \<or> bit_depth img \<noteq> 8 \<or> monochrome img \<noteq> 0 then
                Some (-1, 0, None, d\<lparr>derror := snprintf 256 (''a picture in format '' @ show_int (fmt img) @ '' at '' @
                  show_int (bit_depth img) @ '' bits, not 8-bit 4:2:0'')\<rparr>)
              else
                Some (0, 1, Some \<lparr>pic_planes = [planes img ! 0, planes img ! 1, planes img ! 2],
                  pic_y_stride = stride img ! 0, pic_uv_stride = stride img ! 1, pic_w = s32 (d_w img), pic_h = s32 (d_h img)\<rparr>, d)
        })"

definition aom_shim_dec_error :: "'a aom_shim_dec \<Rightarrow> string" where "aom_shim_dec_error d = derror d"

definition aom_shim_dec_close :: "'a aom_shim_dec option \<Rightarrow> 'a aom_codec_priv option option" where
  "aom_shim_dec_close d =
     (case d of None \<Rightarrow> None
      | Some d \<Rightarrow> (let (_, _, released) = aom_codec_destroy (Some (dctx d)) in Some released))"

end
