(* ===== verification/Aom_Codec_Props.thy ===== *)
theory Aom_Codec_Props
  imports Aom_Codec
begin

text \<open>
  The codec API as a state machine: what a context looks like after any sequence of calls,
  what a failed initialisation leaves behind, how errors are reported, and what the
  packet functions do to the application's buffer.
\<close>

section \<open>Sequences of calls\<close>

datatype codec_call =
    Call_dec_init "aom_codec_dec_cfg option" int int
  | Call_enc_init "aom_codec_enc_cfg option" int int
  | Call_destroy
  | Call_control int int
  | Call_set_option string string
  | Call_get_stream_info "aom_codec_stream_info option"
  | Call_decode "int list option"
  | Call_get_frame codec_iter
  | Call_set_frame_buffer_functions bool bool
  | Call_encode memory "aom_image option" int int int
  | Call_get_cx_data memory "codec_iter option"
  | Call_set_cx_data_buf "aom_fixed_buf option" int int
  | Call_get_preview_frame
  | Call_get_global_headers
  | Call_enc_config_set "aom_codec_enc_cfg option"

text \<open>The context after a call (the algorithm an initialiser gets is \<open>f\<close>).\<close>

fun ctx_after :: "'a aom_codec_iface option \<Rightarrow> codec_call \<Rightarrow> 'a aom_codec_ctx option \<Rightarrow> 'a aom_codec_ctx option" where
  "ctx_after f (Call_dec_init cfg flags ver) ctx = fst (snd (aom_codec_dec_init_ver ctx f cfg flags ver))"
| "ctx_after f (Call_enc_init cfg flags ver) ctx = fst (snd (aom_codec_enc_init_ver ctx f cfg flags ver))"
| "ctx_after f Call_destroy ctx = fst (snd (aom_codec_destroy ctx))"
| "ctx_after f (Call_control i arg) ctx = snd (aom_codec_control ctx i arg)"
| "ctx_after f (Call_set_option n v) ctx = snd (aom_codec_set_option ctx n v)"
| "ctx_after f (Call_get_stream_info si) ctx = fst (snd (aom_codec_get_stream_info ctx si))"
| "ctx_after f (Call_decode data) ctx = snd (aom_codec_decode ctx data)"
| "ctx_after f (Call_get_frame it) ctx = snd (snd (aom_codec_get_frame ctx it))"
| "ctx_after f (Call_set_frame_buffer_functions g r) ctx = snd (aom_codec_set_frame_buffer_functions ctx g r)"
| "ctx_after f (Call_encode m img pts dur flags) ctx = snd (aom_codec_encode ctx m img pts dur flags)"
| "ctx_after f (Call_get_cx_data m it) ctx = fst (snd (snd (aom_codec_get_cx_data ctx m it)))"
| "ctx_after f (Call_set_cx_data_buf b pb pa) ctx = snd (aom_codec_set_cx_data_buf ctx b pb pa)"
| "ctx_after f Call_get_preview_frame ctx = snd (aom_codec_get_preview_frame ctx)"
| "ctx_after f Call_get_global_headers ctx = snd (aom_codec_get_global_headers ctx)"
| "ctx_after f (Call_enc_config_set cfg) ctx = snd (aom_codec_enc_config_set ctx cfg)"

text \<open>Contexts reachable from a cleared one, each initialiser choosing its algorithm.\<close>

inductive reachable_ctx :: "'a aom_codec_ctx \<Rightarrow> bool" where
  start: "reachable_ctx zero_ctx"
| step: "reachable_ctx c \<Longrightarrow> ctx_after f call (Some c) = Some c' \<Longrightarrow> reachable_ctx c'"

inductive_cases reachable_ctxE: "reachable_ctx c"

definition iface_ok :: "'a aom_codec_iface \<Rightarrow> bool" where
  "iface_ok f \<longleftrightarrow> abi_version f = AOM_CODEC_INTERNAL_ABI_VERSION \<and>
     (caps f AND AOM_CODEC_CAP_DECODER \<noteq> 0 \<or> caps f AND AOM_CODEC_CAP_ENCODER \<noteq> 0)"

definition ctx_ok :: "'a aom_codec_ctx \<Rightarrow> bool" where
  "ctx_ok c \<longleftrightarrow> (priv c \<noteq> None \<longrightarrow> iface c \<noteq> None) \<and>
     (case iface c of None \<Rightarrow> ctx_name c = None | Some f \<Rightarrow> iface_ok f \<and> ctx_name c = Some (if_name f))"

lemma ctx_ok_zero: "ctx_ok zero_ctx" by (simp add: ctx_ok_def zero_ctx_def)

lemma ctx_ok_update [simp]:
  "ctx_ok (c\<lparr>err := e\<rparr>) = ctx_ok c" "ctx_ok (c\<lparr>err_detail := d\<rparr>) = ctx_ok c"
  by (simp_all add: ctx_ok_def split: option.splits)

lemma ctx_ok_priv: "ctx_ok c \<Longrightarrow> iface c = Some f \<Longrightarrow> ctx_ok (c\<lparr>priv := p\<rparr>)"
  by (simp add: ctx_ok_def)

lemma ctx_ok_err_priv: "ctx_ok c \<Longrightarrow> iface c = Some f \<Longrightarrow> ctx_ok (c\<lparr>err := e, priv := p\<rparr>)"
  by (simp add: ctx_ok_def)

lemma ctx_ok_destroy: "ctx_ok c \<Longrightarrow> aom_codec_destroy (Some c) = (e, Some c', r) \<Longrightarrow> ctx_ok c'"
  by (auto simp: aom_codec_destroy_def ctx_ok_def split: if_splits option.splits)

lemma ctx_ok_init:
  assumes "iface_ok f" "codec_init c f cfg flags = (res, Some c', released)"
  shows "ctx_ok c'"
  using assms
  by (cases "if_init f flags cfg")
    (auto simp: codec_init_def aom_codec_destroy_def ctx_ok_def Let_def split: if_splits option.splits)

lemma ctx_ok_dec_init:
  assumes "ctx_ok c" "aom_codec_dec_init_ver (Some c) f cfg flags ver = (res, Some c', released)"
  shows "ctx_ok c'"
proof (cases "\<exists>i. f = Some i \<and> ver = AOM_DECODER_ABI_VERSION \<and> abi_version i = AOM_CODEC_INTERNAL_ABI_VERSION \<and>
    caps i AND AOM_CODEC_CAP_DECODER \<noteq> 0")
  case True
  then obtain i where i: "f = Some i" "ver = AOM_DECODER_ABI_VERSION" "iface_ok i"
    "abi_version i = AOM_CODEC_INTERNAL_ABI_VERSION" "caps i AND AOM_CODEC_CAP_DECODER \<noteq> 0"
    by (auto simp: iface_ok_def)
  obtain r ctx rel where e: "codec_init zero_ctx i (Config_dec cfg) flags = (r, ctx, rel)" by (metis prod_cases3)
  then obtain c1 where c1: "ctx = Some c1" "c' = c1\<lparr>err := r\<rparr>"
    using assms(2) i by (auto simp: aom_codec_dec_init_ver_def SAVE_STATUS_def)
  then show ?thesis using ctx_ok_init [OF i(3) e [unfolded c1(1)]] by simp
next
  case False
  then have "\<exists>e. c' = c\<lparr>err := e\<rparr>"
    using assms(2) by (auto simp: aom_codec_dec_init_ver_def SAVE_STATUS_def split: if_splits option.splits)
  then show ?thesis using assms(1) by auto
qed

lemma ctx_ok_enc_init:
  assumes "ctx_ok c" "aom_codec_enc_init_ver (Some c) f cfg flags ver = (res, Some c', released)"
  shows "ctx_ok c'"
proof -
  consider (same) e d where "c' = c\<lparr>err := e\<rparr> \<or> c' = c\<lparr>err_detail := d, err := e\<rparr>"
    | (init) i g r rel c1 where "f = Some i" "iface_ok i" "codec_init c i (Config_enc g) flags = (r, Some c1, rel)" "c' = c1\<lparr>err := r\<rparr>"
    using assms(2)
    by (auto simp: aom_codec_enc_init_ver_def SAVE_STATUS_def iface_ok_def Let_def split: if_splits option.splits prod.splits)
  then show ?thesis
  proof cases
    case same
    then show ?thesis using assms(1) by auto
  next
    case init
    then show ?thesis using ctx_ok_init by fastforce
  qed
qed

lemma ctx_ok_step:
  assumes "ctx_ok c" "ctx_after f call (Some c) = Some c'"
  shows "ctx_ok c'"
proof (cases call)
  case (Call_dec_init cfg flags ver)
  then show ?thesis using assms ctx_ok_dec_init [OF assms(1), of f cfg flags ver]
    by (cases "aom_codec_dec_init_ver (Some c) f cfg flags ver") auto
next
  case (Call_enc_init cfg flags ver)
  then show ?thesis using assms ctx_ok_enc_init [OF assms(1), of f cfg flags ver]
    by (cases "aom_codec_enc_init_ver (Some c) f cfg flags ver") auto
next
  case Call_destroy
  then show ?thesis using assms ctx_ok_destroy [OF assms(1)]
    by (cases "aom_codec_destroy (Some c)") auto
next
  case (Call_control i arg)
  then show ?thesis using assms ctx_ok_err_priv
    by (auto simp: aom_codec_control_def Let_def split: if_splits option.splits prod.splits)
next
  case (Call_set_option n v)
  then show ?thesis using assms ctx_ok_err_priv
    by (auto simp: aom_codec_set_option_def Let_def split: if_splits option.splits prod.splits)
next
  case (Call_get_stream_info si)
  then show ?thesis using assms ctx_ok_priv
    by (auto simp: aom_codec_get_stream_info_def SAVE_STATUS_def Let_def split: if_splits option.splits prod.splits)
next
  case (Call_decode data)
  then show ?thesis using assms ctx_ok_priv
    by (auto simp: aom_codec_decode_def SAVE_STATUS_def Let_def split: if_splits option.splits prod.splits)
next
  case (Call_get_frame it)
  then show ?thesis using assms ctx_ok_priv
    by (auto simp: aom_codec_get_frame_def Let_def split: if_splits option.splits prod.splits)
next
  case (Call_set_frame_buffer_functions g r)
  then show ?thesis using assms ctx_ok_priv
    by (auto simp: aom_codec_set_frame_buffer_functions_def SAVE_STATUS_def Let_def split: if_splits option.splits prod.splits)
next
  case (Call_encode m img pts dur flags)
  then show ?thesis using assms ctx_ok_priv
    by (auto simp: aom_codec_encode_def SAVE_STATUS_def Let_def intro: ctx_ok_priv
      split: if_splits option.splits prod.splits)
next
  case (Call_get_cx_data m it)
  then show ?thesis using assms ctx_ok_priv
    by (auto simp: aom_codec_get_cx_data_def Let_def split: if_splits option.splits prod.splits)
next
  case (Call_set_cx_data_buf b pb pa)
  then show ?thesis using assms ctx_ok_priv [OF assms(1)]
    by (auto simp: aom_codec_set_cx_data_buf_def ctx_ok_def split: if_splits option.splits)
next
  case Call_get_preview_frame
  then show ?thesis using assms ctx_ok_priv
    by (auto simp: aom_codec_get_preview_frame_def Let_def split: if_splits option.splits prod.splits)
next
  case Call_get_global_headers
  then show ?thesis using assms ctx_ok_priv
    by (auto simp: aom_codec_get_global_headers_def Let_def split: if_splits option.splits prod.splits)
next
  case (Call_enc_config_set cfg)
  then show ?thesis using assms ctx_ok_priv
    by (auto simp: aom_codec_enc_config_set_def SAVE_STATUS_def Let_def split: if_splits option.splits prod.splits)
qed

text \<open>C19. The API keeps contexts consistent. After any sequence of API calls on a cleared
  context, private data is only present together with an interface, and the interface is
  one that passed the ABI and capability checks and whose name the context carries. An interface
  may be there without private data: an initialisation that fails before it makes any leaves
  the context so.\<close>

theorem codec_context_invariant:
  assumes "reachable_ctx c"
  shows "ctx_ok c"
  using assms by (induction rule: reachable_ctx.induct) (auto simp: ctx_ok_zero intro: ctx_ok_step)

text \<open>An algorithm whose operations all succeed, for concrete instances.\<close>

definition sample_priv :: "nat aom_codec_priv" where
  "sample_priv = \<lparr>priv_err_detail = None, cx_data_dst_buf = \<lparr>fb_buf = 0, fb_sz = 0\<rparr>, cx_data_pad_before = 0,
     cx_data_pad_after = 0, alg = 0\<rparr>"

definition sample_iface :: "nat aom_codec_iface" where
  "sample_iface = \<lparr>if_name = ''sample'', abi_version = 7, caps = 3,
     if_init = \<lambda>flags cfg. (AOM_CODEC_OK, Some sample_priv),
     ctrl_maps = Some [(13, \<lambda>p v. (AOM_CODEC_OK, p\<lparr>alg := nat v\<rparr>))],
     peek_si = \<lambda>d s. (AOM_CODEC_OK, s), get_si = \<lambda>p s. (AOM_CODEC_OK, s, p),
     if_decode = \<lambda>p d. (if d = None then AOM_CODEC_INVALID_PARAM else AOM_CODEC_OK, p),
     get_frame = \<lambda>p i. (None, i, p), set_fb_fn = \<lambda>p. (AOM_CODEC_OK, p), cfgs = [],
     if_encode = \<lambda>p m img pts d fl. (AOM_CODEC_OK, p), get_cx_data = \<lambda>p m i. (None, i, p, m),
     cfg_set = \<lambda>p g. (AOM_CODEC_OK, p), get_glob_hdrs = None, get_preview = None, if_set_option = None\<rparr>"

theorem codec_context_invariant_witness:
  "\<exists>c. ctx_after (Some sample_iface) (Call_dec_init None 0 22) (Some zero_ctx) = Some c \<and> priv c = Some sample_priv \<and> ctx_ok c"
proof -
  obtain c where c: "ctx_after (Some sample_iface) (Call_dec_init None 0 22) (Some zero_ctx) = Some c"
    and p: "priv c = Some sample_priv"
    by (simp add: aom_codec_dec_init_ver_def codec_init_def sample_iface_def SAVE_STATUS_def AOM_DECODER_ABI_VERSION_def
      AOM_CODEC_INTERNAL_ABI_VERSION_def AOM_CODEC_CAP_DECODER_def)
  from codec_context_invariant [OF reachable_ctx.step [OF reachable_ctx.start c]] c p show ?thesis by blast
qed

section \<open>Initialisation that fails\<close>

text \<open>The context's fields that a call on a context without private data may not touch.\<close>

definition same_but_err :: "'a aom_codec_ctx \<Rightarrow> 'a aom_codec_ctx \<Rightarrow> bool" where
  "same_but_err c c' \<longleftrightarrow> (\<exists>e. c' = c\<lparr>err := e\<rparr>)"

text \<open>A context without private data is inert. Once a context has no private data
  (never initialised, destroyed, or initialisation failed), every operation but the
  initialisers reports an error, hands nothing to the algorithm and changes at most the
  recorded status.\<close>

theorem codec_without_priv_inert:
  assumes "priv c = None"
  shows "aom_codec_decode (Some c) data = (AOM_CODEC_ERROR, Some (c\<lparr>err := AOM_CODEC_ERROR\<rparr>)) \<and>
    (duration \<noteq> 0 \<longrightarrow> aom_codec_encode (Some c) m img pts duration flags = (AOM_CODEC_ERROR, Some (c\<lparr>err := AOM_CODEC_ERROR\<rparr>))) \<and>
    (i \<noteq> 0 \<longrightarrow> aom_codec_control (Some c) i arg = (AOM_CODEC_ERROR, Some (c\<lparr>err := AOM_CODEC_ERROR\<rparr>))) \<and>
    aom_codec_enc_config_set (Some c) cfg = (AOM_CODEC_INVALID_PARAM, Some (c\<lparr>err := AOM_CODEC_INVALID_PARAM\<rparr>)) \<and>
    aom_codec_get_frame (Some c) it = (None, it, Some c) \<and>
    fst (aom_codec_get_cx_data (Some c) m jt) = None \<and>
    aom_codec_destroy (Some c) = (AOM_CODEC_ERROR, Some (c\<lparr>err := AOM_CODEC_ERROR\<rparr>), None) \<and>
    (\<forall>f call c'. (\<forall>x y z. call \<noteq> Call_dec_init x y z) \<and> (\<forall>x y z. call \<noteq> Call_enc_init x y z) \<and>
       ctx_after f call (Some c) = Some c' \<longrightarrow> c' = c \<or> same_but_err c c')"
proof -
  have "c' = c \<or> same_but_err c c'"
    if "\<And>x y z. call \<noteq> Call_dec_init x y z" "\<And>x y z. call \<noteq> Call_enc_init x y z" "ctx_after f call (Some c) = Some c'" for f call c'
    using that assms
    by (cases call)
      (auto simp: same_but_err_def SAVE_STATUS_def aom_codec_destroy_def aom_codec_control_def aom_codec_set_option_def
        aom_codec_get_stream_info_def aom_codec_decode_def aom_codec_get_frame_def aom_codec_set_frame_buffer_functions_def
        aom_codec_encode_def aom_codec_get_cx_data_def aom_codec_set_cx_data_buf_def aom_codec_get_preview_frame_def
        aom_codec_get_global_headers_def aom_codec_enc_config_set_def split: if_splits option.splits)
  moreover have "aom_codec_decode (Some c) data = (AOM_CODEC_ERROR, Some (c\<lparr>err := AOM_CODEC_ERROR\<rparr>))"
    "duration \<noteq> 0 \<Longrightarrow> aom_codec_encode (Some c) m img pts duration flags = (AOM_CODEC_ERROR, Some (c\<lparr>err := AOM_CODEC_ERROR\<rparr>))"
    "i \<noteq> 0 \<Longrightarrow> aom_codec_control (Some c) i arg = (AOM_CODEC_ERROR, Some (c\<lparr>err := AOM_CODEC_ERROR\<rparr>))"
    "aom_codec_enc_config_set (Some c) cfg = (AOM_CODEC_INVALID_PARAM, Some (c\<lparr>err := AOM_CODEC_INVALID_PARAM\<rparr>))"
    "aom_codec_get_frame (Some c) it = (None, it, Some c)"
    "fst (aom_codec_get_cx_data (Some c) m jt) = None"
    "aom_codec_destroy (Some c) = (AOM_CODEC_ERROR, Some (c\<lparr>err := AOM_CODEC_ERROR\<rparr>), None)"
    using assms
    by (auto simp: SAVE_STATUS_def aom_codec_destroy_def aom_codec_control_def aom_codec_decode_def aom_codec_get_frame_def
      aom_codec_encode_def aom_codec_get_cx_data_def aom_codec_enc_config_set_def split: option.splits)
  ultimately show ?thesis by blast
qed

theorem codec_without_priv_inert_witness:
  "aom_codec_decode (Some (zero_ctx :: nat aom_codec_ctx)) (Some [18, 0]) =
     (AOM_CODEC_ERROR, Some (zero_ctx\<lparr>err := AOM_CODEC_ERROR\<rparr>))"
  using codec_without_priv_inert [of "zero_ctx :: nat aom_codec_ctx"] by (simp add: zero_ctx_def)

text \<open>C28. A failed decoder initialisation. When the algorithm's \<open>init\<close> fails with status
  \<open>res\<close>, the caller gets \<open>res\<close> (not the status of the clean-up), the private data it may
  have allocated is destroyed exactly once, the context ends without private data, and the
  algorithm's error detail can still be read.\<close>

theorem dec_init_failure:
  assumes "abi_version f = AOM_CODEC_INTERNAL_ABI_VERSION" "caps f AND AOM_CODEC_CAP_DECODER \<noteq> 0"
    and "if_init f flags (Config_dec cfg) = (res, p)" "res \<noteq> AOM_CODEC_OK"
  shows "\<exists>c'. aom_codec_dec_init_ver (Some c) (Some f) cfg flags AOM_DECODER_ABI_VERSION = (res, Some c', p) \<and>
    priv c' = None \<and> err c' = res \<and> aom_codec_error (Some c') = aom_codec_err_to_string res \<and>
    aom_codec_error_detail (Some c') = Option.bind p priv_err_detail \<and> (p \<noteq> None \<longrightarrow> iface c' = None)"
  using assms
  by (cases p)
    (auto simp: aom_codec_dec_init_ver_def codec_init_def aom_codec_destroy_def SAVE_STATUS_def aom_codec_error_def
      aom_codec_error_detail_def Let_def)

theorem dec_init_failure_witness:
  "\<exists>c'. aom_codec_dec_init_ver (Some zero_ctx)
      (Some (sample_iface\<lparr>if_init := \<lambda>fl g. (AOM_CODEC_MEM_ERROR, Some (sample_priv\<lparr>priv_err_detail := Some ''no''\<rparr>))\<rparr>))
      None 0 AOM_DECODER_ABI_VERSION =
      (AOM_CODEC_MEM_ERROR, Some c', Some (sample_priv\<lparr>priv_err_detail := Some ''no''\<rparr>)) \<and>
    priv c' = None \<and> err c' = AOM_CODEC_MEM_ERROR \<and> aom_codec_error (Some c') = aom_codec_err_to_string AOM_CODEC_MEM_ERROR \<and>
    aom_codec_error_detail (Some c') = Option.bind (Some (sample_priv\<lparr>priv_err_detail := Some ''no''\<rparr>)) priv_err_detail \<and>
    (Some (sample_priv\<lparr>priv_err_detail := Some ''no''\<rparr>) \<noteq> None \<longrightarrow> iface c' = None)"
  by (rule dec_init_failure)
    (simp_all add: sample_iface_def AOM_CODEC_INTERNAL_ABI_VERSION_def AOM_CODEC_CAP_DECODER_def)

section \<open>Error reporting\<close>

lemma codec_init_ctx: "\<exists>c'. fst (snd (codec_init c f cfg flags)) = Some c'"
  by (cases "if_init f flags cfg") (auto simp: codec_init_def aom_codec_destroy_def Let_def)

lemma init_status:
  "aom_codec_error (fst (snd (aom_codec_dec_init_ver (Some c) f dcfg flags ver))) =
     aom_codec_err_to_string (fst (aom_codec_dec_init_ver (Some c) f dcfg flags ver))"
  "aom_codec_error (fst (snd (aom_codec_enc_init_ver (Some c) f ecfg flags ver))) =
     aom_codec_err_to_string (fst (aom_codec_enc_init_ver (Some c) f ecfg flags ver))"
proof -
  have d: "\<exists>r c' x. codec_init c f cfg flags = (r, Some c', x)" for c and f :: "'a aom_codec_iface" and cfg
    using codec_init_ctx [of c f cfg flags] by (metis eq_fst_iff eq_snd_iff)
  show "aom_codec_error (fst (snd (aom_codec_dec_init_ver (Some c) f dcfg flags ver))) =
     aom_codec_err_to_string (fst (aom_codec_dec_init_ver (Some c) f dcfg flags ver))"
    using d [of zero_ctx "the f" "Config_dec dcfg"]
    by (auto simp: aom_codec_dec_init_ver_def SAVE_STATUS_def aom_codec_error_def split: option.splits)
  show "aom_codec_error (fst (snd (aom_codec_enc_init_ver (Some c) f ecfg flags ver))) =
     aom_codec_err_to_string (fst (aom_codec_enc_init_ver (Some c) f ecfg flags ver))"
    using d [of c "the f" "Config_enc (the ecfg)"]
    by (auto simp: aom_codec_enc_init_ver_def SAVE_STATUS_def aom_codec_error_def split: option.splits)
qed

text \<open>The status a call returns is the status the context reports. For every operation
  that returns a status (initialisers, control, options, decoding, encoding, configuration,
  destruction), \<open>aom_codec_error\<close> afterwards gives the message of exactly that status.\<close>

theorem codec_status_reported:
  "aom_codec_error (fst (snd (aom_codec_dec_init_ver (Some c) f dcfg flags ver))) =
     aom_codec_err_to_string (fst (aom_codec_dec_init_ver (Some c) f dcfg flags ver)) \<and>
   aom_codec_error (fst (snd (aom_codec_enc_init_ver (Some c) f ecfg flags ver))) =
     aom_codec_err_to_string (fst (aom_codec_enc_init_ver (Some c) f ecfg flags ver)) \<and>
   aom_codec_error (snd (aom_codec_decode (Some c) data)) = aom_codec_err_to_string (fst (aom_codec_decode (Some c) data)) \<and>
   aom_codec_error (snd (aom_codec_encode (Some c) m img pts dur fl)) =
     aom_codec_err_to_string (fst (aom_codec_encode (Some c) m img pts dur fl)) \<and>
   aom_codec_error (snd (aom_codec_control (Some c) i arg)) = aom_codec_err_to_string (fst (aom_codec_control (Some c) i arg)) \<and>
   aom_codec_error (snd (aom_codec_set_option (Some c) n v)) = aom_codec_err_to_string (fst (aom_codec_set_option (Some c) n v)) \<and>
   aom_codec_error (snd (aom_codec_enc_config_set (Some c) ecfg)) =
     aom_codec_err_to_string (fst (aom_codec_enc_config_set (Some c) ecfg)) \<and>
   aom_codec_error (fst (snd (aom_codec_destroy (Some c)))) = aom_codec_err_to_string (fst (aom_codec_destroy (Some c)))"
proof (intro conjI)
  show "aom_codec_error (snd (aom_codec_decode (Some c) data)) = aom_codec_err_to_string (fst (aom_codec_decode (Some c) data))"
    by (auto simp: aom_codec_decode_def SAVE_STATUS_def aom_codec_error_def split: option.splits prod.splits)
  show "aom_codec_error (snd (aom_codec_encode (Some c) m img pts dur fl)) =
     aom_codec_err_to_string (fst (aom_codec_encode (Some c) m img pts dur fl))"
    by (auto simp: aom_codec_encode_def SAVE_STATUS_def aom_codec_error_def split: option.splits prod.splits)
  show "aom_codec_error (snd (aom_codec_control (Some c) i arg)) = aom_codec_err_to_string (fst (aom_codec_control (Some c) i arg))"
    by (auto simp: aom_codec_control_def aom_codec_error_def split: option.splits prod.splits)
  show "aom_codec_error (snd (aom_codec_set_option (Some c) n v)) = aom_codec_err_to_string (fst (aom_codec_set_option (Some c) n v))"
    by (auto simp: aom_codec_set_option_def aom_codec_error_def split: option.splits prod.splits)
  show "aom_codec_error (snd (aom_codec_enc_config_set (Some c) ecfg)) =
     aom_codec_err_to_string (fst (aom_codec_enc_config_set (Some c) ecfg))"
    by (auto simp: aom_codec_enc_config_set_def SAVE_STATUS_def aom_codec_error_def split: option.splits prod.splits)
  show "aom_codec_error (fst (snd (aom_codec_destroy (Some c)))) = aom_codec_err_to_string (fst (aom_codec_destroy (Some c)))"
    by (auto simp: aom_codec_destroy_def aom_codec_error_def)
qed (rule init_status)+

section \<open>Packets\<close>

text \<open>
  The application's output buffer after any number of frame packets: each copy stays
  inside the buffer, leaves the rest of memory alone, and the buffer's end never moves.
\<close>

lemma place_frame_bounds:
  assumes "place_frame_pkt p m pkt = (pkt', p', m')" "fb_buf (cx_data_dst_buf p) \<noteq> 0"
    and "0 \<le> pkt_sz pkt" "pkt_sz pkt < 2 ^ 62" "0 \<le> cx_data_pad_before p" "0 \<le> cx_data_pad_after p"
    and "cx_data_pad_before p + cx_data_pad_after p < 2 ^ 32"
    and "0 \<le> fb_sz (cx_data_dst_buf p)" "fb_sz (cx_data_dst_buf p) < 2 ^ 63"
    and "pkt_buf pkt \<noteq> fb_buf (cx_data_dst_buf p)"
  defines "lo \<equiv> fb_buf (cx_data_dst_buf p)" and "n \<equiv> pkt_sz pkt + cx_data_pad_before p + cx_data_pad_after p"
  shows "if n \<le> fb_sz (cx_data_dst_buf p)
    then pkt' = pkt\<lparr>pkt_buf := lo, pkt_sz := n\<rparr> \<and>
      p' = p\<lparr>cx_data_dst_buf := \<lparr>fb_buf = lo + n, fb_sz = fb_sz (cx_data_dst_buf p) - n\<rparr>\<rparr> \<and>
      (\<forall>i. 0 \<le> i \<and> i < pkt_sz pkt \<longrightarrow> m' (lo + cx_data_pad_before p + i) = m (pkt_buf pkt + i)) \<and>
      (\<forall>a. a < lo + cx_data_pad_before p \<or> lo + cx_data_pad_before p + pkt_sz pkt \<le> a \<longrightarrow> m' a = m a)
    else pkt' = pkt \<and> p' = p \<and> m' = m"
proof -
  have u: "u64 n = n" "u32 (cx_data_pad_before p + cx_data_pad_after p) = cx_data_pad_before p + cx_data_pad_after p"
    "u64 (pkt_sz pkt + (cx_data_pad_before p + cx_data_pad_after p)) = n"
    using assms(3-7) by (simp_all add: n_def u64_id u32_id add.assoc)
  show ?thesis
  proof (cases "n \<le> fb_sz (cx_data_dst_buf p)")
    case True
    then have "u64 (fb_sz (cx_data_dst_buf p) - n) = fb_sz (cx_data_dst_buf p) - n"
      using assms(3,5,6,8,9) by (intro u64_id) (simp_all add: n_def)
    then show ?thesis using True assms(1,2,10) u
      by (auto simp: place_frame_pkt_def Let_def mem_copy_def lo_def n_def [symmetric])
  next
    case False
    then show ?thesis using assms(1,2,10) u
      by (auto simp: place_frame_pkt_def Let_def n_def [symmetric])
  qed
qed

text \<open>C29. Frames delivered into the application's buffer. When the codec's packet is not
  in the buffer already, \<open>aom_codec_get_cx_data\<close> copies it exactly if packet and padding fit.
  Then the packet's bytes land after the front padding and no other byte of memory changes, the packet
  handed out is the codec's with the buffer's start as its data and padding, bytes and padding as
  its size, and the buffer that remains starts that much further on and is that much
  smaller. Otherwise packet, buffer and memory are the codec's.\<close>

theorem cx_data_placement:
  assumes "iface c = Some f" "priv c = Some p0" "caps f AND AOM_CODEC_CAP_ENCODER \<noteq> 0"
    and "get_cx_data f p0 m0 it = (Some pkt, it', p, m)" "pkt_kind pkt = AOM_CODEC_CX_FRAME_PKT"
    and buf: "cx_data_dst_buf p = \<lparr>fb_buf = lo, fb_sz = room\<rparr>" "lo \<noteq> 0" "0 \<le> room" "room < 2 ^ 63"
    and "0 \<le> pkt_sz pkt" "pkt_sz pkt < 2 ^ 62"
    and "0 \<le> cx_data_pad_before p" "0 \<le> cx_data_pad_after p" "cx_data_pad_before p + cx_data_pad_after p < 2 ^ 32"
    and "pkt_buf pkt \<noteq> lo" and n: "n = cx_data_pad_before p + pkt_sz pkt + cx_data_pad_after p"
  shows "\<exists>pkt' p' m'. aom_codec_get_cx_data (Some c) m0 (Some it) = (Some pkt', Some it', Some (c\<lparr>priv := Some p'\<rparr>), m') \<and>
    (if n \<le> room
     then pkt' = pkt\<lparr>pkt_buf := lo, pkt_sz := n\<rparr> \<and> p' = p\<lparr>cx_data_dst_buf := \<lparr>fb_buf = lo + n, fb_sz = room - n\<rparr>\<rparr> \<and>
       (\<forall>a. m' a = (if lo + cx_data_pad_before p \<le> a \<and> a < lo + cx_data_pad_before p + pkt_sz pkt
          then m (pkt_buf pkt + (a - (lo + cx_data_pad_before p))) else m a))
     else pkt' = pkt \<and> p' = p \<and> m' = m)"
proof -
  obtain pkt' p' m' where pl: "place_frame_pkt p m pkt = (pkt', p', m')" by (metis prod_cases3)
  have g: "aom_codec_get_cx_data (Some c) m0 (Some it) = (Some pkt', Some it', Some (c\<lparr>priv := Some p'\<rparr>), m')"
    using assms(1-5) pl by (simp add: aom_codec_get_cx_data_def)
  have n': "pkt_sz pkt + cx_data_pad_before p + cx_data_pad_after p = n" using n by simp
  have b: "if n \<le> room
    then pkt' = pkt\<lparr>pkt_buf := lo, pkt_sz := n\<rparr> \<and> p' = p\<lparr>cx_data_dst_buf := \<lparr>fb_buf = lo + n, fb_sz = room - n\<rparr>\<rparr> \<and>
      (\<forall>i. 0 \<le> i \<and> i < pkt_sz pkt \<longrightarrow> m' (lo + cx_data_pad_before p + i) = m (pkt_buf pkt + i)) \<and>
      (\<forall>a. a < lo + cx_data_pad_before p \<or> lo + cx_data_pad_before p + pkt_sz pkt \<le> a \<longrightarrow> m' a = m a)
    else pkt' = pkt \<and> p' = p \<and> m' = m"
    using place_frame_bounds [OF pl] assms(7-15) by (cases "n \<le> room") (simp_all add: buf(1) n')
  have "m' a = (if lo + cx_data_pad_before p \<le> a \<and> a < lo + cx_data_pad_before p + pkt_sz pkt
      then m (pkt_buf pkt + (a - (lo + cx_data_pad_before p))) else m a)" if "n \<le> room" for a
    using b that by (auto dest: spec [of _ "a - (lo + cx_data_pad_before p)"])
  then show ?thesis using g b by (intro exI [of _ pkt'] exI [of _ p'] exI [of _ m']) simp
qed

definition sample_out_priv :: "nat aom_codec_priv" where
  "sample_out_priv = sample_priv\<lparr>cx_data_dst_buf := \<lparr>fb_buf = 500, fb_sz = 64\<rparr>, cx_data_pad_before := 2\<rparr>"

definition sample_pkt :: aom_codec_cx_pkt where
  "sample_pkt = \<lparr>pkt_kind = AOM_CODEC_CX_FRAME_PKT, pkt_buf = 100, pkt_sz = 3, pkt_flags = 1\<rparr>"

theorem cx_data_placement_witness:
  "\<exists>m'. aom_codec_get_cx_data (Some (zero_ctx\<lparr>iface := Some (sample_iface\<lparr>get_cx_data := \<lambda>p m i. (Some sample_pkt, Suc i, p, m)\<rparr>),
      priv := Some sample_out_priv\<rparr>)) (\<lambda>a. a mod 256) (Some 0) = (Some (sample_pkt\<lparr>pkt_buf := 500, pkt_sz := 5\<rparr>), Some 1,
      Some (zero_ctx\<lparr>iface := Some (sample_iface\<lparr>get_cx_data := \<lambda>p m i. (Some sample_pkt, Suc i, p, m)\<rparr>),
        priv := Some (sample_out_priv\<lparr>cx_data_dst_buf := \<lparr>fb_buf = 505, fb_sz = 59\<rparr>\<rparr>)\<rparr>), m') \<and> m' 502 = 100 \<and> m' 505 = 249"
proof -
  let ?f = "sample_iface\<lparr>get_cx_data := \<lambda>p m i. (Some sample_pkt, Suc i, p, m)\<rparr>"
  let ?c = "zero_ctx\<lparr>iface := Some ?f, priv := Some sample_out_priv\<rparr>"
  have v: "cx_data_dst_buf sample_out_priv = \<lparr>fb_buf = 500, fb_sz = 64\<rparr>" "pkt_sz sample_pkt = 3" "cx_data_pad_before sample_out_priv = 2"
    "cx_data_pad_after sample_out_priv = 0" "pkt_buf sample_pkt = 100"
    by (simp_all add: sample_pkt_def sample_out_priv_def sample_priv_def)
  have "\<exists>pkt' p' m'. aom_codec_get_cx_data (Some ?c) (\<lambda>a. a mod 256) (Some 0) = (Some pkt', Some (Suc 0), Some (?c\<lparr>priv := Some p'\<rparr>), m') \<and>
    (if (5::int) \<le> 64
     then pkt' = sample_pkt\<lparr>pkt_buf := 500, pkt_sz := 5\<rparr> \<and> p' = sample_out_priv\<lparr>cx_data_dst_buf := \<lparr>fb_buf = 500 + 5, fb_sz = 64 - 5\<rparr>\<rparr> \<and>
       (\<forall>a. m' a = (if 500 + cx_data_pad_before sample_out_priv \<le> a \<and> a < 500 + cx_data_pad_before sample_out_priv + pkt_sz sample_pkt
          then (pkt_buf sample_pkt + (a - (500 + cx_data_pad_before sample_out_priv))) mod 256 else a mod 256))
     else pkt' = sample_pkt \<and> p' = sample_out_priv \<and> m' = (\<lambda>a. a mod 256))"
    by (rule cx_data_placement [where f = ?f and ?p0.0 = sample_out_priv and p = sample_out_priv])
      (use v in \<open>simp_all add: sample_iface_def sample_pkt_def AOM_CODEC_CAP_ENCODER_def\<close>)
  then show ?thesis using v by auto
qed

section \<open>Packet lists\<close>

text \<open>A walk over a list: the packets until the list says it is at its end.\<close>

fun pkt_walk :: "nat \<Rightarrow> aom_codec_pkt_list \<Rightarrow> nat option \<Rightarrow> aom_codec_cx_pkt list" where
  "pkt_walk 0 pl iter = []"
| "pkt_walk (Suc fuel) pl iter =
     (case aom_codec_pkt_list_get pl iter of
        (None, _) \<Rightarrow> []
      | (Some pkt, iter') \<Rightarrow> pkt # pkt_walk fuel pl iter')"

fun pkt_add_all :: "aom_codec_pkt_list \<Rightarrow> aom_codec_cx_pkt list \<Rightarrow> int list \<times> aom_codec_pkt_list" where
  "pkt_add_all pl [] = ([], pl)"
| "pkt_add_all pl (k # ks) =
     (let (r, pl) = aom_codec_pkt_list_add pl k; (rs, pl) = pkt_add_all pl ks in (r # rs, pl))"

definition pkt_list_ok :: "aom_codec_pkt_list \<Rightarrow> bool" where
  "pkt_list_ok pl \<longleftrightarrow> pl_cnt pl \<le> pl_max pl \<and> length (pkts pl) = pl_max pl"

lemma pkt_walk_from:
  assumes "pl_cnt pl \<le> length (pkts pl)"
  shows "pl_cnt pl - i < fuel \<Longrightarrow> pkt_walk fuel pl (Some i) = drop i (take (pl_cnt pl) (pkts pl))"
proof (induction fuel arbitrary: i)
  case (Suc fuel)
  show ?case
  proof (cases "i < pl_cnt pl")
    case True
    then have "drop i (take (pl_cnt pl) (pkts pl)) = pkts pl ! i # drop (Suc i) (take (pl_cnt pl) (pkts pl))"
      using Cons_nth_drop_Suc [of i "take (pl_cnt pl) (pkts pl)"] assms by simp
    then show ?thesis using Suc True by (simp add: aom_codec_pkt_list_get_def Let_def)
  next
    case False
    then show ?thesis using assms by (simp add: aom_codec_pkt_list_get_def Let_def)
  qed
qed simp

lemma pkt_add_all_contents:
  assumes "pkt_list_ok pl"
  shows "pkt_list_ok (snd (pkt_add_all pl ks)) \<and>
    take (pl_cnt (snd (pkt_add_all pl ks))) (pkts (snd (pkt_add_all pl ks))) =
      take (pl_cnt pl) (pkts pl) @ take (pl_max pl - pl_cnt pl) ks \<and>
    fst (pkt_add_all pl ks) = map (\<lambda>i. if pl_cnt pl + i < pl_max pl then 0 else 1) [0..<length ks]"
  using assms
proof (induction ks arbitrary: pl)
  case (Cons k ks)
  obtain r pl1 where add: "aom_codec_pkt_list_add pl k = (r, pl1)" by fastforce
  obtain rs pl2 where all: "pkt_add_all pl1 ks = (rs, pl2)" by fastforce
  have ok: "pkt_list_ok pl1" and r: "r = (if pl_cnt pl < pl_max pl then 0 else 1)" "pl_max pl1 = pl_max pl"
    and cnt: "pl_cnt pl1 = (if pl_cnt pl < pl_max pl then Suc (pl_cnt pl) else pl_cnt pl)"
    and tk: "take (pl_cnt pl1) (pkts pl1) = take (pl_cnt pl) (pkts pl) @ (if pl_cnt pl < pl_max pl then [k] else [])"
    using add Cons.prems
    by (auto simp: aom_codec_pkt_list_add_def pkt_list_ok_def take_Suc_conv_app_nth split: if_splits)
  have "[0..<length (k # ks)] = 0 # map Suc [0..<length ks]" by (simp add: upt_conv_Cons map_Suc_upt del: upt_Suc)
  then show ?case using Cons.IH [OF ok] all add r cnt tk Cons.prems
    by (auto simp: pkt_list_ok_def take_Cons' comp_def)
qed (simp add: pkt_list_ok_def)

text \<open>Packet lists. Starting from an empty list of capacity \<open>n\<close>, adding packets accepts
  the first \<open>n\<close> and refuses the others with 1, and a walk from a NULL iterator then delivers
  exactly the accepted packets, in order, and ends.\<close>

theorem pkt_list_roundtrip:
  assumes "length (pkts pl) = pl_max pl" "pl_cnt pl = 0" "pl_max pl < fuel"
  shows "pkt_walk fuel (snd (pkt_add_all pl ks)) None = take (pl_max pl) ks \<and>
    fst (pkt_add_all pl ks) = map (\<lambda>i. if i < pl_max pl then 0 else 1) [0..<length ks]"
proof -
  have ok: "pkt_list_ok pl" using assms by (simp add: pkt_list_ok_def)
  define pl' where "pl' = snd (pkt_add_all pl ks)"
  note c = pkt_add_all_contents [OF ok, of ks, folded pl'_def]
  have "pl_max (snd (pkt_add_all q js)) = pl_max q" for q js
  proof (induction js arbitrary: q)
    case (Cons j js)
    then show ?case
      by (cases "aom_codec_pkt_list_add q j"; cases "pkt_add_all (snd (aom_codec_pkt_list_add q j)) js")
        (auto simp: aom_codec_pkt_list_add_def dest: arg_cong [where f = "\<lambda>x. pl_max (snd x)"] split: if_splits)
  qed simp
  then have "pl_max pl' = pl_max pl" by (simp add: pl'_def)
  then have "pl_cnt pl' \<le> length (pkts pl')" "pl_cnt pl' < fuel" using c assms(3) by (auto simp: pkt_list_ok_def)
  moreover have "pkt_walk fuel pl' None = pkt_walk fuel pl' (Some 0)"
    by (cases fuel) (simp_all add: aom_codec_pkt_list_get_def)
  ultimately have "pkt_walk fuel pl' None = take (pl_cnt pl') (pkts pl')" using pkt_walk_from [of pl' 0 fuel] by simp
  then show ?thesis using c assms(2) by (simp add: pl'_def)
qed

theorem pkt_list_roundtrip_witness:
  "(let pl = \<lparr>pl_cnt = 0, pl_max = 2, pkts = [sample_pkt, sample_pkt]\<rparr>;
        ks = [sample_pkt\<lparr>pkt_sz := 7\<rparr>, sample_pkt\<lparr>pkt_sz := 8\<rparr>, sample_pkt\<lparr>pkt_sz := 9\<rparr>] in
    pkt_walk 3 (snd (pkt_add_all pl ks)) None = take 2 ks \<and>
    fst (pkt_add_all pl ks) = map (\<lambda>i. if i < 2 then 0 else 1) [0..<length ks])"
  unfolding Let_def
  using pkt_list_roundtrip [of "\<lparr>pl_cnt = 0, pl_max = 2, pkts = [sample_pkt, sample_pkt]\<rparr>" 3
    "[sample_pkt\<lparr>pkt_sz := 7\<rparr>, sample_pkt\<lparr>pkt_sz := 8\<rparr>, sample_pkt\<lparr>pkt_sz := 9\<rparr>]"]
  by (simp del: pkt_add_all.simps pkt_walk.simps)

end
