(* ===== verification/Aom_Shim_Props.thy ===== *)
theory Aom_Shim_Props
  imports Aom_Shim Aom_Codec_Props
begin

text \<open>
  What the shim promises the Rust side: the buffer an encoded temporal unit is collected
  in, the list of refused controls, the bitrate, and which pictures the decoder lets
  through.
\<close>

section \<open>Collecting packets\<close>

definition shim_buf_ok :: "'a aom_shim \<Rightarrow> bool" where
  "shim_buf_ok s \<longleftrightarrow> int (length (sh_out s)) = sh_out_cap s"

lemma append_packet_cases:
  assumes "shim_buf_ok s" "0 \<le> used" "used \<le> sh_out_cap s" "used + int (length data) < 2 ^ 62"
  obtains (refused) n where "append_packet al s data used = Some (-1, s, used)" "\<not> alloc_ok al n"
    | (added) out cap where "append_packet al s data used = Some (0, s\<lparr>sh_out := out, sh_out_cap := cap\<rparr>, used + int (length data))"
      "shim_buf_ok (s\<lparr>sh_out := out, sh_out_cap := cap\<rparr>)" "used + int (length data) \<le> cap"
      "take (nat (used + int (length data))) out = take (nat used) (sh_out s) @ data"
proof -
  define len where "len = int (length data)"
  have u: "u64 (used + len) = used + len" "u64 ((used + len) * 2) = (used + len) * 2"
    using assms(2,4) by (simp_all add: len_def u64_id)
  have len0: "0 \<le> len" by (simp add: len_def)
  have nu: "nat used \<le> length (sh_out s)" using assms(1-3) by (simp add: shim_buf_ok_def)
  have cpy: "\<exists>out. memcpy_at buf (nat used) data = Some out \<and> length out = length buf \<and>
      take (nat (used + len)) out = take (nat used) buf @ data"
    if "nat used + length data \<le> length buf" for buf
    using that assms(2) by (simp add: memcpy_at_def len_def nat_add_distrib)
  show thesis
  proof (cases "used + len > sh_out_cap s")
    case True
    show thesis
    proof (cases "alloc_ok al ((used + len) * 2)")
      case False
      then show thesis using True u by (intro refused) (simp_all add: append_packet_def Let_def realloc_bytes_def flip: len_def)
    next
      case ok: True
      define buf where "buf = take (nat ((used + len) * 2)) (sh_out s) @
        replicate (nat ((used + len) * 2) - length (sh_out s)) (alloc_junk al)"
      have re: "realloc_bytes al (sh_out s) ((used + len) * 2) = Some buf" using ok by (simp add: realloc_bytes_def buf_def)
      have lb: "length buf = nat ((used + len) * 2)" "take (nat used) buf = take (nat used) (sh_out s)"
        using True assms(1,2) nu by (auto simp: buf_def shim_buf_ok_def len_def)
      have "nat used + length data \<le> length buf" unfolding lb(1) using assms(2) by (simp add: len_def nat_le_iff le_nat_iff)
      then obtain out where "memcpy_at buf (nat used) data = Some out" "length out = length buf"
        "take (nat (used + len)) out = take (nat used) buf @ data"
        using cpy [of buf] by blast
      then show thesis using True u re lb assms(2) len0 added [where out = out and cap = "(used + len) * 2"]
        by (simp add: append_packet_def Let_def shim_buf_ok_def flip: len_def)
    qed
  next
    case False
    then have "nat used + length data \<le> length (sh_out s)"
      using assms(1,2) by (simp add: shim_buf_ok_def len_def)
    then obtain out where "memcpy_at (sh_out s) (nat used) data = Some out" "length out = length (sh_out s)"
      "take (nat (used + len)) out = take (nat used) (sh_out s) @ data"
      using cpy [of "sh_out s"] by blast
    then show thesis using False u assms(1) added [where out = out and cap = "sh_out_cap s"]
      by (simp add: append_packet_def Let_def shim_buf_ok_def flip: len_def)
  qed
qed

text \<open>The frame data of a sequence of packets, and whether one of them is a key frame.\<close>

definition frame_bytes :: "(aom_codec_cx_pkt \<times> int list) list \<Rightarrow> int list" where
  "frame_bytes ks = concat (map snd (filter (\<lambda>(k, bs). pkt_kind k = AOM_CODEC_CX_FRAME_PKT) ks))"

definition has_key :: "(aom_codec_cx_pkt \<times> int list) list \<Rightarrow> bool" where
  "has_key ks \<longleftrightarrow> list_ex (\<lambda>(k, bs). pkt_kind k = AOM_CODEC_CX_FRAME_PKT \<and> pkt_flags k AND AOM_FRAME_IS_KEY \<noteq> 0) ks"

text \<open>
  The interface the packet loop relies on: after \<open>aom_codec_encode\<close> an algorithm has
  packets \<open>remaining\<close>, hands them out one by one with their bytes in memory, and then
  reports the end. Only algorithms without an application buffer are considered.
\<close>

locale cx_stream =
  fixes f :: "'a aom_codec_iface"
    and remaining :: "'a aom_codec_priv \<Rightarrow> memory \<Rightarrow> codec_iter \<Rightarrow> (aom_codec_cx_pkt \<times> int list) list"
  assumes encoder: "caps f AND AOM_CODEC_CAP_ENCODER \<noteq> 0"
    and at_end: "remaining p m it = [] \<Longrightarrow> \<exists>it' p' m'. get_cx_data f p m it = (None, it', p', m')"
    and next_pkt: "remaining p m it = (k, bs) # rest \<Longrightarrow> fb_buf (cx_data_dst_buf p) = 0 \<Longrightarrow>
      \<exists>it' p' m'. get_cx_data f p m it = (Some k, it', p', m') \<and> remaining p' m' it' = rest \<and>
        cx_data_dst_buf p' = cx_data_dst_buf p \<and> read_bytes m' (pkt_buf k) (pkt_sz k) = bs"
begin

lemma get_at_end:
  assumes "iface c = Some f" "priv c = Some p" "remaining p m it = []"
  shows "\<exists>it' p' m'. aom_codec_get_cx_data (Some c) m (Some it) = (None, Some it', Some (c\<lparr>priv := Some p'\<rparr>), m')"
  using at_end [OF assms(3)] assms(1,2) encoder by (auto simp: aom_codec_get_cx_data_def)

lemma get_next:
  assumes "iface c = Some f" "priv c = Some p" "remaining p m it = (k, bs) # rest" "fb_buf (cx_data_dst_buf p) = 0"
    and "pkt_buf k \<noteq> 0"
  shows "\<exists>it' p' m'. aom_codec_get_cx_data (Some c) m (Some it) = (Some k, Some it', Some (c\<lparr>priv := Some p'\<rparr>), m') \<and>
    remaining p' m' it' = rest \<and> cx_data_dst_buf p' = cx_data_dst_buf p \<and> read_bytes m' (pkt_buf k) (pkt_sz k) = bs"
proof -
  obtain it' p' m' where *: "get_cx_data f p m it = (Some k, it', p', m')" "remaining p' m' it' = rest"
    "cx_data_dst_buf p' = cx_data_dst_buf p" "read_bytes m' (pkt_buf k) (pkt_sz k) = bs"
    using next_pkt [OF assms(3,4)] by blast
  have "place_frame_pkt p' m' k = (k, p', m')" using *(3) assms(4,5) by (simp add: place_frame_pkt_def Let_def)
  then show ?thesis using * assms(1,2) encoder by (auto simp: aom_codec_get_cx_data_def)
qed

text \<open>The packet loop ends, with all frame data appended or an allocation refused.\<close>

lemma drain_packets_correct:
  assumes "iface (sh_ctx s) = Some f" "priv (sh_ctx s) = Some p" "fb_buf (cx_data_dst_buf p) = 0"
    and "remaining p m it = ks" "shim_buf_ok s" "0 \<le> used" "used \<le> sh_out_cap s"
    and "used + int (length (frame_bytes ks)) < 2 ^ 62" "list_all (\<lambda>(k, bs). pkt_buf k \<noteq> 0) ks"
  shows "\<exists>r s' m' used' key'. drain_packets al s m it used key = Some (Some (r, s', m', used', key')) \<and> shim_buf_ok s' \<and>
    (r = 0 \<and> used' = used + int (length (frame_bytes ks)) \<and> used' \<le> sh_out_cap s' \<and> key' = (if has_key ks then 1 else key) \<and>
       take (nat used') (sh_out s') = take (nat used) (sh_out s) @ frame_bytes ks \<or>
     r = -1 \<and> (\<exists>n. \<not> alloc_ok al n))"
  using assms
proof (induction ks arbitrary: s p m it used key)
  case Nil
  obtain it' p' m' where "aom_codec_get_cx_data (Some (sh_ctx s)) m (Some it) = (None, Some it', Some ((sh_ctx s)\<lparr>priv := Some p'\<rparr>), m')"
    using get_at_end [OF Nil.prems(1,2,4)] by blast
  then have "drain_packets al s m it used key = Some (Some (0, s\<lparr>sh_ctx := (sh_ctx s)\<lparr>priv := Some p'\<rparr>\<rparr>, m', used, key))"
    by (subst drain_packets.simps) (simp add: ctx_of_def)
  then show ?case using Nil.prems(5-7) by (simp add: frame_bytes_def has_key_def shim_buf_ok_def)
next
  case (Cons kb ks)
  obtain k bs where kb: "kb = (k, bs)" by fastforce
  obtain it' p' m' where g: "aom_codec_get_cx_data (Some (sh_ctx s)) m (Some it) = (Some k, Some it', Some ((sh_ctx s)\<lparr>priv := Some p'\<rparr>), m')"
    "remaining p' m' it' = ks" "cx_data_dst_buf p' = cx_data_dst_buf p" "read_bytes m' (pkt_buf k) (pkt_sz k) = bs"
    using get_next [OF Cons.prems(1,2) Cons.prems(4) [unfolded kb] Cons.prems(3)] Cons.prems(9) kb by auto
  define s1 where "s1 = s\<lparr>sh_ctx := (sh_ctx s)\<lparr>priv := Some p'\<rparr>\<rparr>"
  have s1: "iface (sh_ctx s1) = Some f" "priv (sh_ctx s1) = Some p'" "shim_buf_ok s1" "sh_out_cap s1 = sh_out_cap s"
    "sh_out s1 = sh_out s"
    using Cons.prems(1,5) by (simp_all add: s1_def shim_buf_ok_def)
  have d0: "fb_buf (cx_data_dst_buf p') = 0" using g(3) Cons.prems(3) by simp
  show ?case
  proof (cases "pkt_kind k = AOM_CODEC_CX_FRAME_PKT")
    case False
    then have "drain_packets al s m it used key = drain_packets al s1 m' it' used key"
      using g(1) by (subst drain_packets.simps) (simp add: ctx_of_def s1_def)
    moreover have "frame_bytes (kb # ks) = frame_bytes ks" "has_key (kb # ks) = has_key ks"
      using False by (simp_all add: kb frame_bytes_def has_key_def)
    ultimately show ?thesis
      using Cons.IH [OF s1(1,2) d0 g(2) s1(3) Cons.prems(6), of key] Cons.prems(7,8,9) s1(4,5) by simp
  next
    case True
    have fb: "frame_bytes (kb # ks) = bs @ frame_bytes ks" using True by (simp add: kb frame_bytes_def)
    have hk: "has_key (kb # ks) \<longleftrightarrow> pkt_flags k AND AOM_FRAME_IS_KEY \<noteq> 0 \<or> has_key ks" using True by (simp add: kb has_key_def)
    have small: "used + int (length bs) < 2 ^ 62" using Cons.prems(8) fb by simp
    show ?thesis
    proof (cases rule: append_packet_cases [OF s1(3) Cons.prems(6) Cons.prems(7) [folded s1(4)] small, of al])
      case (1 n)
      then have "\<exists>s' m'' u' k'. drain_packets al s m it used key = Some (Some (-1, s', m'', u', k')) \<and> shim_buf_ok s'"
        using g(1,4) True s1(3) by (subst drain_packets.simps) (simp add: ctx_of_def s1_def shim_buf_ok_def)
      then show ?thesis using 1(2) by (metis (no_types, lifting))
    next
      case (2 out cap)
      define s2 where "s2 = s1\<lparr>sh_out := out, sh_out_cap := cap\<rparr>"
      define key1 where "key1 = (if pkt_flags k AND AOM_FRAME_IS_KEY \<noteq> 0 then 1 else key)"
      have eq: "drain_packets al s m it used key = drain_packets al s2 m' it' (used + int (length bs)) key1"
        using 2(1) g(1,4) True by (subst drain_packets.simps) (simp add: ctx_of_def s1_def s2_def key1_def)
      have s2: "iface (sh_ctx s2) = Some f" "priv (sh_ctx s2) = Some p'" "shim_buf_ok s2" "sh_out_cap s2 = cap" "sh_out s2 = out"
        using s1 2(2) by (simp_all add: s2_def)
      have "used + int (length bs) + int (length (frame_bytes ks)) < 2 ^ 62" using Cons.prems(8) fb by simp
      from Cons.IH [OF s2(1,2) d0 g(2) s2(3) _ _ this, of key1] 2(3) Cons.prems(6,9) s2(4)
      show ?thesis unfolding eq fb hk using 2(4) s1(5) s2(5) by (auto simp: key1_def add.assoc)
    qed
  qed
qed

end

text \<open>
  The packet list of \<open>aom_encoder.c\<close> is such a source: an algorithm that keeps its packets
  in a list and hands them out with \<open>aom_codec_pkt_list_get\<close>.
\<close>

definition pkt_list_iface :: "aom_codec_pkt_list aom_codec_iface" where
  "pkt_list_iface = \<lparr>if_name = ''packet list'', abi_version = 7, caps = 2,
     if_init = \<lambda>flags cfg. (AOM_CODEC_OK, Some \<lparr>priv_err_detail = None, cx_data_dst_buf = \<lparr>fb_buf = 0, fb_sz = 0\<rparr>,
       cx_data_pad_before = 0, cx_data_pad_after = 0, alg = \<lparr>pl_cnt = 0, pl_max = 0, pkts = []\<rparr>\<rparr>),
     ctrl_maps = None, peek_si = \<lambda>d s. (AOM_CODEC_ERROR, s), get_si = \<lambda>p s. (AOM_CODEC_ERROR, s, p),
     if_decode = \<lambda>p d. (AOM_CODEC_ERROR, p), get_frame = \<lambda>p i. (None, i, p), set_fb_fn = \<lambda>p. (AOM_CODEC_ERROR, p),
     cfgs = [], if_encode = \<lambda>p m img pts d fl. (AOM_CODEC_OK, p),
     get_cx_data = \<lambda>p m i. (let (k, i') = aom_codec_pkt_list_get (alg p) (Some i) in
       (k, case i' of Some j \<Rightarrow> j | None \<Rightarrow> i, p, m)),
     cfg_set = \<lambda>p g. (AOM_CODEC_OK, p), get_glob_hdrs = None, get_preview = None, if_set_option = None\<rparr>"

definition pkt_list_remaining ::
  "aom_codec_pkt_list aom_codec_priv \<Rightarrow> memory \<Rightarrow> codec_iter \<Rightarrow> (aom_codec_cx_pkt \<times> int list) list" where
  "pkt_list_remaining p m it =
     map (\<lambda>k. (k, read_bytes m (pkt_buf k) (pkt_sz k))) (map (\<lambda>i. pkts (alg p) ! i) [it..<pl_cnt (alg p)])"

interpretation pkt_list: cx_stream pkt_list_iface pkt_list_remaining
proof
  show "caps pkt_list_iface AND AOM_CODEC_CAP_ENCODER \<noteq> 0" by (simp add: pkt_list_iface_def AOM_CODEC_CAP_ENCODER_def)
  show "\<exists>it' p' m'. get_cx_data pkt_list_iface p m it = (None, it', p', m')" if "pkt_list_remaining p m it = []" for p m it
    using that by (auto simp: pkt_list_iface_def pkt_list_remaining_def aom_codec_pkt_list_get_def)
  show "\<exists>it' p' m'. get_cx_data pkt_list_iface p m it = (Some k, it', p', m') \<and> pkt_list_remaining p' m' it' = rest \<and>
      cx_data_dst_buf p' = cx_data_dst_buf p \<and> read_bytes m' (pkt_buf k) (pkt_sz k) = bs"
    if "pkt_list_remaining p m it = (k, bs) # rest" for p m it k bs rest
  proof -
    have "it < pl_cnt (alg p)" using that by (cases "it < pl_cnt (alg p)") (simp_all add: pkt_list_remaining_def)
    then show ?thesis
      using that by (auto simp: pkt_list_iface_def pkt_list_remaining_def aom_codec_pkt_list_get_def upt_conv_Cons)
  qed
qed

section \<open>Encoding a picture\<close>

lemma set_rect_fmt: "fmt (snd (aom_img_set_rect img x y w h b)) = fmt img"
  by (auto simp: aom_img_set_rect_def Let_def)

lemma wrap_ok:
  assumes "0 \<le> w" "w \<le> 134217728" "0 \<le> h" "h \<le> 134217728" "y \<noteq> 0"
  shows "\<exists>img. aom_img_wrap True pick hp (Some i0) AOM_IMG_FMT_I420 w h 1 y = Some (True, Some img, hp) \<and> fmt img = AOM_IMG_FMT_I420"
proof -
  have v: "is_valid_img_fmt AOM_IMG_FMT_I420" "AOM_IMG_FMT_I420 AND AOM_IMG_FMT_PLANAR \<noteq> 0"
    "AOM_IMG_FMT_I420 AND AOM_IMG_FMT_HIGHBITDEPTH = 0"
    by (simp_all add: is_valid_img_fmt_def fmt_defs)
  define wa where "wa = align_image_dimension w (fmt_xcs AOM_IMG_FMT_I420) 1"
  have "fmt_xcs AOM_IMG_FMT_I420 = 0 \<or> fmt_xcs AOM_IMG_FMT_I420 = 1" using valid_fmt_facts(2) [OF v(1)] .
  then have wa: "w \<le> wa" "wa < w + 65536"
    using align_image_dimension_props [OF assms(1,2), of "fmt_xcs AOM_IMG_FMT_I420" 1 0] by (simp_all add: wa_def)
  then have "img_stride_bytes AOM_IMG_FMT_I420 wa 0 (fmt_bps AOM_IMG_FMT_I420) 8 1 = wa"
    using assms(1,2) v(2) by (simp add: img_stride_bytes_def Let_def u64_id u32_def)
  then have "\<not> img_stride_bytes AOM_IMG_FMT_I420 wa 0 (fmt_bps AOM_IMG_FMT_I420) 8 1 > 2147483647"
    using wa assms(2) by simp
  then show ?thesis using v assms
    by (simp add: aom_img_wrap_def img_alloc_helper_def one_if_zero_def Let_def img_fill_def set_rect_fmt flip: wa_def)
qed

text \<open>The image \<open>aom_shim_encode\<close> passes on: the wrapped picture with the caller's planes.\<close>

definition shim_picture :: "int \<Rightarrow> heap \<Rightarrow> int \<Rightarrow> int \<Rightarrow> int \<Rightarrow> int \<Rightarrow> int \<Rightarrow> int \<Rightarrow> int \<Rightarrow> aom_image" where
  "shim_picture pick hp w h y u v y_stride uv_stride =
     (case aom_img_wrap True pick hp (Some zero_image) AOM_IMG_FMT_I420 (u32 w) (u32 h) 1 y of
        Some (True, Some img, _) \<Rightarrow> img\<lparr>planes := [y, u, v], stride := [y_stride, uv_stride, uv_stride]\<rparr>
      | _ \<Rightarrow> zero_image)"

text \<open>C9. Encoding returns the whole temporal unit. For a picture of at most 2^27 by 2^27
  pixels, a codec that accepts it and then delivers the packets \<open>ks\<close>, and an allocator that
  may refuse, \<open>aom_shim_encode\<close> returns: either 0, with the concatenated bytes of exactly
  the frame packets in order, their total length, and whether one is a key frame; or -1
  because an allocation was refused. The output buffer stays consistent with its capacity.\<close>

theorem shim_encode_temporal_unit:
  assumes src: "cx_stream f remaining" and s: "iface (sh_ctx s) = Some f" "priv (sh_ctx s) = Some p"
    "init_flags (sh_ctx s) AND AOM_CODEC_USE_HIGHBITDEPTH = 0" "shim_buf_ok s"
    and dim: "0 \<le> sh_w s" "sh_w s \<le> 134217728" "0 \<le> sh_h s" "sh_h s \<le> 134217728" "y \<noteq> 0"
    and enc: "if_encode f p (mem hp) (Some (shim_picture pick hp (sh_w s) (sh_h s) y u v y_stride uv_stride)) pts 1
      (if force_kf \<noteq> 0 then 1 else 0) = (AOM_CODEC_OK, p1)" "fb_buf (cx_data_dst_buf p1) = 0"
    and ks: "remaining p1 (mem hp) 0 = ks" "list_all (\<lambda>(k, bs). pkt_buf k \<noteq> 0) ks" "int (length (frame_bytes ks)) < 2 ^ 62"
  shows "\<exists>r s' hp' outs. aom_shim_encode al pick s hp y u v y_stride uv_stride pts force_kf = Some (Some (r, s', hp', outs)) \<and>
    shim_buf_ok s' \<and>
    (r = 0 \<and> (\<exists>buf len. outs = Some (buf, len, if has_key ks then 1 else 0) \<and> len = int (length (frame_bytes ks)) \<and>
        take (nat len) buf = frame_bytes ks) \<or>
     r = -1 \<and> outs = None \<and> (\<exists>n. \<not> alloc_ok al n))"
proof -
  have u: "u32 (sh_w s) = sh_w s" "u32 (sh_h s) = sh_h s" using dim by (simp_all add: u32_id)
  obtain img where img: "aom_img_wrap True pick hp (Some zero_image) AOM_IMG_FMT_I420 (sh_w s) (sh_h s) 1 y = Some (True, Some img, hp)"
    "fmt img = AOM_IMG_FMT_I420" using wrap_ok [OF dim] by blast
  define pic where "pic = img\<lparr>planes := [y, u, v], stride := [y_stride, uv_stride, uv_stride]\<rparr>"
  have pic: "shim_picture pick hp (sh_w s) (sh_h s) y u v y_stride uv_stride = pic" "fmt pic AND AOM_IMG_FMT_HIGHBITDEPTH = 0"
    using img by (simp_all add: shim_picture_def pic_def u fmt_defs)
  define c1 where "c1 = (sh_ctx s)\<lparr>priv := Some p1, err := AOM_CODEC_OK\<rparr>"
  have "aom_codec_encode (Some (sh_ctx s)) (mem hp) (Some pic) pts 1 (if force_kf \<noteq> 0 then 1 else 0) = (AOM_CODEC_OK, Some c1)"
    using s(1-3) cx_stream.encoder [OF src] enc(1) [unfolded pic(1)] pic(2)
    by (simp add: aom_codec_encode_def SAVE_STATUS_def c1_def)
  then have eq: "aom_shim_encode al pick s hp y u v y_stride uv_stride pts force_kf =
      (case drain_packets al (s\<lparr>sh_ctx := c1\<rparr>) (mem hp) 0 0 0 of
               None \<Rightarrow> None
             | Some None \<Rightarrow> Some None
             | Some (Some (r, s, m, used, key)) \<Rightarrow>
                 if r \<noteq> 0 then Some (Some (-1, s, hp\<lparr>mem := m\<rparr>, None))
                 else Some (Some (0, s, hp\<lparr>mem := m\<rparr>, Some (sh_out s, used, key))))"
    unfolding aom_shim_encode_def u img(1) by (simp add: ctx_of_def flip: pic_def)
  have "iface (sh_ctx (s\<lparr>sh_ctx := c1\<rparr>)) = Some f" "priv (sh_ctx (s\<lparr>sh_ctx := c1\<rparr>)) = Some p1" "shim_buf_ok (s\<lparr>sh_ctx := c1\<rparr>)"
    "0 \<le> sh_out_cap (s\<lparr>sh_ctx := c1\<rparr>)" using s by (simp_all add: c1_def shim_buf_ok_def)
  then obtain r s' m' used' key' where d: "drain_packets al (s\<lparr>sh_ctx := c1\<rparr>) (mem hp) 0 0 0 = Some (Some (r, s', m', used', key'))"
    "shim_buf_ok s'" "r = 0 \<and> used' = int (length (frame_bytes ks)) \<and> key' = (if has_key ks then 1 else 0) \<and>
       take (nat used') (sh_out s') = frame_bytes ks \<or> r = -1 \<and> (\<exists>n. \<not> alloc_ok al n)"
    using cx_stream.drain_packets_correct [OF src _ _ enc(2) ks(1), of "s\<lparr>sh_ctx := c1\<rparr>" 0 al 0] ks(2,3) by fastforce
  from d(3) show ?thesis unfolding eq d(1) using d(2) by auto
qed

definition sample_shim :: "aom_codec_pkt_list aom_shim" where
  "sample_shim = \<lparr>sh_ctx = zero_ctx\<lparr>iface := Some pkt_list_iface,
       priv := Some \<lparr>priv_err_detail = None, cx_data_dst_buf = \<lparr>fb_buf = 0, fb_sz = 0\<rparr>, cx_data_pad_before = 0,
         cx_data_pad_after = 0, alg = \<lparr>pl_cnt = 2, pl_max = 2,
           pkts = [sample_pkt, sample_pkt\<lparr>pkt_buf := 200, pkt_sz := 2, pkt_flags := 0\<rparr>]\<rparr>\<rparr>\<rparr>,
     sh_cfg = \<lparr>g_usage = 1, g_threads = 1, g_w = 16, g_h = 16, g_bit_depth = 8, g_timebase_num = 1, g_timebase_den = 30,
       g_error_resilient = 0, g_pass = 0, g_lag_in_frames = 0, rc_dropframe_thresh = 0, rc_end_usage = 1,
       rc_target_bitrate = 500, rc_min_quantizer = 2, rc_max_quantizer = 56, rc_undershoot_pct = 50,
       rc_overshoot_pct = 50, rc_buf_sz = 1000, rc_buf_initial_sz = 600, rc_buf_optimal_sz = 600, kf_mode = 0,
       encoder_cfg = \<lparr>super_block_size = 0, max_partition_size = 128, min_partition_size = 4, disable_trellis_quant = 3\<rparr>\<rparr>,
     sh_w = 16, sh_h = 16, sh_out = [], sh_out_cap = 0, refused = '''', sh_error = ''''\<rparr>"

definition sample_memory :: heap where "sample_memory = \<lparr>mem = \<lambda>a. a mod 256, live = []\<rparr>"

theorem shim_encode_temporal_unit_witness:
  "\<exists>r s' hp' outs. aom_shim_encode sample_alloc 0 sample_shim sample_memory 4096 8192 9000 16 8 0 0 =
      Some (Some (r, s', hp', outs)) \<and> r = 0 \<and> (\<exists>buf. outs = Some (buf, 5, 1) \<and> take 5 buf = [100, 101, 102, 200, 201])"
proof -
  define p where "p = the (priv (sh_ctx sample_shim))"
  define ks where "ks = pkt_list_remaining p (mem sample_memory) 0"
  have ks: "ks = [(sample_pkt, [100, 101, 102]), (sample_pkt\<lparr>pkt_buf := 200, pkt_sz := 2, pkt_flags := 0\<rparr>, [200, 201])]"
    by (simp add: ks_def p_def sample_shim_def pkt_list_remaining_def sample_memory_def sample_pkt_def read_bytes_def
      upt_rec numeral_3_eq_3 numeral_2_eq_2)
  have k2: "frame_bytes ks = [100, 101, 102, 200, 201]" "has_key ks" "list_all (\<lambda>(k, bs). pkt_buf k \<noteq> 0) ks"
    by (simp_all add: ks frame_bytes_def has_key_def sample_pkt_def AOM_FRAME_IS_KEY_def)
  have "\<exists>r s' hp' outs. aom_shim_encode sample_alloc 0 sample_shim sample_memory 4096 8192 9000 16 8 0 0 =
      Some (Some (r, s', hp', outs)) \<and> shim_buf_ok s' \<and>
    (r = 0 \<and> (\<exists>buf len. outs = Some (buf, len, if has_key ks then 1 else 0) \<and> len = int (length (frame_bytes ks)) \<and>
        take (nat len) buf = frame_bytes ks) \<or>
     r = -1 \<and> outs = None \<and> (\<exists>n. \<not> alloc_ok sample_alloc n))"
    by (rule shim_encode_temporal_unit [OF pkt_list.cx_stream_axioms, where p = p and ?p1.0 = p])
      (use k2 in \<open>simp_all add: ks_def [symmetric], simp_all add: p_def sample_shim_def zero_ctx_def shim_buf_ok_def pkt_list_iface_def\<close>)
  then show ?thesis by (auto simp: k2 sample_alloc_def)
qed

text \<open>Pictures the shim refuses. When the shim's width or height, read as unsigned,
  exceeds 2^27 (a negative size does), \<open>aom_shim_encode\<close> returns -1 without calling the
  codec, changes nothing but its error text and leaves the heap alone.\<close>

theorem shim_encode_refuses_size:
  assumes "134217728 < u32 (sh_w s) \<or> 134217728 < u32 (sh_h s)"
  shows "aom_shim_encode al pick s hp y u v y_stride uv_stride pts force_kf =
    Some (Some (-1, s\<lparr>sh_error := take 255 (''aom_img_wrap refused a '' @ show_int (sh_w s) @ ''x'' @ show_int (sh_h s) @
      '' picture'')\<rparr>, hp, None))"
proof -
  have "is_valid_img_fmt AOM_IMG_FMT_I420" by (simp add: is_valid_img_fmt_def)
  then have "aom_img_wrap True pick hp (Some zero_image) AOM_IMG_FMT_I420 (u32 (sh_w s)) (u32 (sh_h s)) 1 y =
      Some (False, Some zero_image, hp)"
    using assms by (auto simp: aom_img_wrap_def img_alloc_helper_def img_fail_def aom_img_free_def zero_image_def)
  then show ?thesis by (simp add: aom_shim_encode_def snprintf_def)
qed

theorem shim_encode_refuses_size_witness:
  "aom_shim_encode sample_alloc 0 (sample_shim\<lparr>sh_w := -2\<rparr>) sample_memory 1 1 1 1 1 0 0 =
    Some (Some (-1, sample_shim\<lparr>sh_w := -2, sh_error := take 255 (''aom_img_wrap refused a '' @ show_int (-2) @ ''x'' @
      show_int (sh_h sample_shim) @ '' picture'')\<rparr>, sample_memory, None))"
  using shim_encode_refuses_size [of "sample_shim\<lparr>sh_w := -2\<rparr>" sample_alloc 0 sample_memory 1 1 1 1 1 0 0] by (simp add: u32_def)

section \<open>Refused controls\<close>

text \<open>The texts of the controls the codec refuses when they are set one after the other.\<close>

fun refused_items :: "'a aom_codec_ctx \<Rightarrow> (int \<times> int \<times> string) list \<Rightarrow> string list" where
  "refused_items c [] = []"
| "refused_items c ((i, v, name) # cs) =
     (case aom_codec_control (Some c) i v of
        (res, ctx) \<Rightarrow> (if res \<noteq> AOM_CODEC_OK then [name @ ''='' @ show_int v] else []) @ refused_items (ctx_of c ctx) cs)"

definition join_items :: "string \<Rightarrow> string list \<Rightarrow> string" where
  "join_items a items = foldl (\<lambda>a x. a @ (if a \<noteq> [] then '', '' else []) @ x) a items"

lemma take_append_room: "take n (a @ x) = take n a @ take (n - length (take n a)) x"
  by (cases "length a \<le> n") auto

lemma refused_after_controls:
  assumes "refused s = take 255 a" "sh_ctx s = c"
  shows "refused (foldl shim_ctrl s cs) = take 255 (join_items a (refused_items c cs))"
  using assms
proof (induction cs arbitrary: s a c)
  case (Cons x cs)
  obtain i v name where x: "x = (i, v, name)" by (metis prod_cases3)
  obtain res ctx where e: "aom_codec_control (Some c) i v = (res, ctx)" by fastforce
  have c': "sh_ctx (shim_ctrl s x) = ctx_of c ctx"
    using e Cons.prems(2) by (simp add: shim_ctrl_def x Let_def)
  have sep: "(length (refused s) \<noteq> 0) = (a \<noteq> [])" using Cons.prems(1) by (cases a) auto
  define t where "t = (if a \<noteq> [] then '', '' else []) @ name @ ''='' @ show_int v"
  have "refused (shim_ctrl s x) = (if res \<noteq> AOM_CODEC_OK then take 255 (a @ t) else take 255 a)"
  proof (cases "res = AOM_CODEC_OK")
    case True
    then show ?thesis using e Cons.prems by (simp add: shim_ctrl_def x Let_def)
  next
    case False
    have "refused (shim_ctrl s x) = refused s @ take (256 - length (refused s) - 1)
        ((if length (refused s) \<noteq> 0 then '', '' else '''') @ name @ ''='' @ show_int v)"
      using e Cons.prems(2) False by (simp add: shim_ctrl_def x Let_def snprintf_def)
    also have "\<dots> = take 255 a @ take (255 - length (take 255 a)) t"
      unfolding sep t_def using Cons.prems(1) by simp
    finally show ?thesis using False take_append_room [of 255 a t] by simp
  qed
  then show ?case
    using Cons.IH [OF _ c', of "if res \<noteq> AOM_CODEC_OK then a @ t else a"] e
    by (cases "res = AOM_CODEC_OK") (simp_all add: x join_items_def t_def)
qed (simp add: join_items_def)

text \<open>C30. The refused controls are reported. After a successful \<open>aom_shim_open\<close>,
  \<open>aom_shim_refused\<close> is the comma-separated list of exactly the controls the codec refused,
  in the order they were set, cut to the 255 characters the buffer holds.\<close>

theorem shim_refused_list:
  assumes "aom_shim_open f ok cfg0 w h fps kbps speed screen threads tcl min_q max_q ebuf errlen = (Some s, e)"
    and "aom_codec_enc_config_default f (Some cfg0) 1 = (AOM_CODEC_OK, Some cfg)"
    and "aom_codec_enc_init_ver (Some zero_ctx) f (Some (shim_config cfg w h fps kbps threads min_q max_q)) 0
      AOM_ENCODER_ABI_VERSION = (AOM_CODEC_OK, Some c, rel)"
  shows "aom_shim_refused s = take 255 (join_items [] (refused_items c (shim_controls speed tcl screen))) \<and>
    length (aom_shim_refused s) \<le> 255"
proof -
  have "refused s = take 255 (join_items [] (refused_items c (shim_controls speed tcl screen)))"
    using assms refused_after_controls [of "\<lparr>sh_ctx = c, sh_cfg = shim_config cfg w h fps kbps threads min_q max_q, sh_w = w,
        sh_h = h, sh_out = [], sh_out_cap = 0, refused = '''', sh_error = ''''\<rparr>" "[]" c "shim_controls speed tcl screen"]
    by (auto simp: aom_shim_open_def Let_def ctx_of_def split: if_splits)
  then show ?thesis by (simp add: aom_shim_refused_def)
qed

definition sample_ctrl_iface :: "aom_codec_pkt_list aom_codec_iface" where
  "sample_ctrl_iface = pkt_list_iface\<lparr>cfgs := [sh_cfg sample_shim],
     ctrl_maps := Some [(13, \<lambda>p v. (AOM_CODEC_OK, p)), (32, \<lambda>p v. (AOM_CODEC_INVALID_PARAM, p))]\<rparr>"

theorem shim_refused_list_witness:
  "\<exists>s e cfg c rel. aom_shim_open (Some sample_ctrl_iface) True (sh_cfg sample_shim) 16 16 30 500 8 1 4 0 2 56 [] 64 = (Some s, e) \<and>
    aom_codec_enc_init_ver (Some zero_ctx) (Some sample_ctrl_iface) (Some (shim_config cfg 16 16 30 500 4 2 56)) 0
      AOM_ENCODER_ABI_VERSION = (AOM_CODEC_OK, Some c, rel) \<and>
    aom_shim_refused s = take 255 (join_items [] (refused_items c (shim_controls 8 0 1))) \<and> length (aom_shim_refused s) \<le> 255"
proof -
  let ?f = "Some sample_ctrl_iface"
  obtain cfg where cfg: "aom_codec_enc_config_default ?f (Some (sh_cfg sample_shim)) 1 = (AOM_CODEC_OK, Some cfg)" "g_bit_depth cfg = 8"
    by (simp add: aom_codec_enc_config_default_def sample_ctrl_iface_def pkt_list_iface_def AOM_CODEC_CAP_ENCODER_def
      sample_shim_def)
  obtain c rel where c: "aom_codec_enc_init_ver (Some zero_ctx) ?f (Some (shim_config cfg 16 16 30 500 4 2 56)) 0
      AOM_ENCODER_ABI_VERSION = (AOM_CODEC_OK, Some c, rel)"
    using cfg(2)
    by (simp add: aom_codec_enc_init_ver_def codec_init_def sample_ctrl_iface_def pkt_list_iface_def SAVE_STATUS_def
      AOM_CODEC_CAP_ENCODER_def AOM_CODEC_INTERNAL_ABI_VERSION_def shim_config_def AOM_CODEC_USE_PSNR_def
      AOM_CODEC_USE_HIGHBITDEPTH_def)
  obtain s e where s: "aom_shim_open ?f True (sh_cfg sample_shim) 16 16 30 500 8 1 4 0 2 56 [] 64 = (Some s, e)"
    using cfg(1) c by (simp add: aom_shim_open_def Let_def)
  from shim_refused_list [OF s cfg(1) c] s c show ?thesis by blast
qed

section \<open>Opening and the bitrate\<close>

lemma control_keeps_iface:
  "aom_codec_control (Some c) i v = (res, ctx) \<Longrightarrow> iface (ctx_of c ctx) = iface c \<and> (priv (ctx_of c ctx) = None) = (priv c = None)"
  by (auto simp: aom_codec_control_def ctx_of_def Let_def split: if_splits option.splits prod.splits)

lemma shim_ctrl_keeps:
  "sh_cfg (shim_ctrl s c) = sh_cfg s \<and> sh_w (shim_ctrl s c) = sh_w s \<and> sh_h (shim_ctrl s c) = sh_h s \<and>
   sh_out (shim_ctrl s c) = sh_out s \<and> sh_out_cap (shim_ctrl s c) = sh_out_cap s \<and>
   sh_error (shim_ctrl s c) = sh_error s \<and> iface (sh_ctx (shim_ctrl s c)) = iface (sh_ctx s) \<and>
   (priv (sh_ctx (shim_ctrl s c)) = None) = (priv (sh_ctx s) = None)"
proof -
  obtain i v name where c: "c = (i, v, name)" by (metis prod_cases3)
  obtain res ctx where e: "aom_codec_control (Some (sh_ctx s)) i v = (res, ctx)" by fastforce
  then show ?thesis using control_keeps_iface [OF e] by (simp add: shim_ctrl_def c Let_def)
qed

lemma controls_keep:
  "sh_cfg (foldl shim_ctrl s cs) = sh_cfg s \<and> sh_w (foldl shim_ctrl s cs) = sh_w s \<and> sh_h (foldl shim_ctrl s cs) = sh_h s \<and>
   sh_out (foldl shim_ctrl s cs) = sh_out s \<and> sh_out_cap (foldl shim_ctrl s cs) = sh_out_cap s \<and>
   sh_error (foldl shim_ctrl s cs) = sh_error s \<and> iface (sh_ctx (foldl shim_ctrl s cs)) = iface (sh_ctx s) \<and>
   (priv (sh_ctx (foldl shim_ctrl s cs)) = None) = (priv (sh_ctx s) = None)"
  by (induction cs arbitrary: s) (simp_all add: shim_ctrl_keeps)

lemma enc_init_ok:
  "aom_codec_enc_init_ver (Some c) f cfg flags ver = (AOM_CODEC_OK, ctx, rel) \<Longrightarrow> iface (ctx_of c ctx) = f"
  by (auto simp: aom_codec_enc_init_ver_def codec_init_def Let_def SAVE_STATUS_def ctx_of_def
    split: if_splits option.splits prod.splits)

text \<open>The configuration an interface has for realtime use, with the encoder settings every default gets;
  none when it is not an encoder or has no such configuration.\<close>

definition realtime_default :: "'a aom_codec_iface option \<Rightarrow> aom_codec_enc_cfg option" where
  "realtime_default f = (case f of
       None \<Rightarrow> None
     | Some i \<Rightarrow>
         if caps i AND AOM_CODEC_CAP_ENCODER = 0 then None
         else map_option (\<lambda>c. c\<lparr>encoder_cfg := \<lparr>super_block_size = 0, max_partition_size = 128, min_partition_size = 4,
           disable_trellis_quant = 3\<rparr>\<rparr>) (find (\<lambda>c. g_usage c = 1) (cfgs i)))"

text \<open>Whether an interface starts with a configuration: the library's own checks, then its \<open>init\<close>.\<close>

definition init_verdict :: "'a aom_codec_iface \<Rightarrow> aom_codec_enc_cfg \<Rightarrow> aom_codec_err" where
  "init_verdict i cfg =
     (if abi_version i \<noteq> AOM_CODEC_INTERNAL_ABI_VERSION then AOM_CODEC_ABI_MISMATCH
      else if g_bit_depth cfg > 8 then AOM_CODEC_INVALID_PARAM
      else fst (if_init i 0 (Config_enc cfg)))"

lemma config_default_realtime:
  "aom_codec_enc_config_default f (Some cfg0) 1 = (AOM_CODEC_OK, Some cfg) \<longleftrightarrow> realtime_default f = Some cfg"
  "realtime_default f = None \<Longrightarrow> fst (aom_codec_enc_config_default f (Some cfg0) 1) \<noteq> AOM_CODEC_OK"
  by (auto simp: aom_codec_enc_config_default_def realtime_default_def split: option.splits)

lemma destroy_ctx: "aom_codec_destroy (Some c) = (e, x, rel) \<Longrightarrow> \<exists>c'. x = Some c'"
  by (auto simp: aom_codec_destroy_def split: option.splits if_splits)

lemma enc_init_verdict:
  assumes "caps i AND AOM_CODEC_CAP_ENCODER \<noteq> 0"
    "aom_codec_enc_init_ver (Some c) (Some i) (Some cfg) 0 AOM_ENCODER_ABI_VERSION = (res, ctx, rel)"
  shows "res = init_verdict i cfg" "err (ctx_of zero_ctx ctx) = res"
proof -
  have "res = init_verdict i cfg \<and> (\<exists>c'. ctx = Some c' \<and> err c' = res)"
    using assms
    by (auto dest: destroy_ctx simp: aom_codec_enc_init_ver_def codec_init_def init_verdict_def SAVE_STATUS_def Let_def
        AOM_CODEC_USE_PSNR_def AOM_CODEC_USE_HIGHBITDEPTH_def split: if_splits prod.splits)
  then show "res = init_verdict i cfg" "err (ctx_of zero_ctx ctx) = res" by (auto simp: ctx_of_def)
qed

text \<open>C31. Opening the encoder. \<open>aom_shim_open\<close> returns NULL with \<open>aom_codec_enc_config_default failed\<close> exactly
  when the codec is no encoder or has no realtime configuration; else with \<open>out of memory\<close> exactly when
  there is none for the wrapper; else with \<open>aom_codec_enc_init failed\<close> and the text of the very
  error the start gave (a wrong ABI version, a bit depth above 8, or what the codec's own \<open>init\<close>
  answers), exactly when there is one; each text cut to the buffer's length. In every other case
  it returns an encoder: it reports the bitrate it was opened with, its configuration is the
  realtime CBR one for the given size, the codec it drives is the one it was given, its output
  buffer is empty, it has no error, and the caller's error buffer is untouched.\<close>

theorem shim_open_result:
  assumes "aom_shim_open f ok cfg0 w h fps kbps speed screen threads tcl min_q max_q ebuf errlen = (r, e)"
    and "0 \<le> kbps" "kbps < 2 ^ 31" "0 < errlen" "errlen < 2 ^ 31"
  shows "case realtime_default f of
      None \<Rightarrow> r = None \<and> e = take (nat errlen - 1) ''aom_codec_enc_config_default failed''
    | Some cfg \<Rightarrow>
        if \<not> ok then r = None \<and> e = take (nat errlen - 1) ''out of memory''
        else
          let cfg = shim_config cfg w h fps kbps threads min_q max_q;
              code = init_verdict (the f) cfg in
          if code \<noteq> AOM_CODEC_OK
          then r = None \<and> e = take (nat errlen - 1) (''aom_codec_enc_init failed: '' @ aom_codec_err_to_string code)
          else e = ebuf \<and> (\<exists>s. r = Some s \<and> aom_shim_bitrate s = kbps \<and> sh_w s = w \<and> sh_h s = h \<and> aom_shim_error s = [] \<and>
            shim_buf_ok s \<and> sh_out s = [] \<and> iface (sh_ctx s) = f \<and> sh_cfg s = cfg)"
proof -
  have el: "write_err ebuf errlen t = take (nat errlen - 1) t" for t
    using assms(4,5) by (simp add: write_err_def snprintf_def u64_def)
  show ?thesis
  proof (cases "realtime_default f")
    case None
    then show ?thesis
      using assms(1) config_default_realtime(2) [OF None, of cfg0] by (auto simp: aom_shim_open_def el split: aom_codec_err.splits option.splits prod.splits)
  next
    case (Some cfg)
    then have d: "aom_codec_enc_config_default f (Some cfg0) 1 = (AOM_CODEC_OK, Some cfg)" by (simp add: config_default_realtime)
    obtain i where i: "f = Some i" "caps i AND AOM_CODEC_CAP_ENCODER \<noteq> 0"
      using Some by (auto simp: realtime_default_def split: option.splits if_splits)
    let ?cfg = "shim_config cfg w h fps kbps threads min_q max_q"
    obtain res ctx rel where in_it: "aom_codec_enc_init_ver (Some zero_ctx) f (Some ?cfg) 0 AOM_ENCODER_ABI_VERSION = (res, ctx, rel)"
      by (metis prod_cases3)
    note v = enc_init_verdict [OF i(2) in_it [unfolded i(1)]]
    show ?thesis
    proof (cases "ok \<and> res = AOM_CODEC_OK")
      case False
      then show ?thesis using assms(1) d in_it v i Some
        by (auto simp: aom_shim_open_def Let_def el aom_codec_error_def split: if_splits)
    next
      case True
      let ?s = "\<lparr>sh_ctx = ctx_of zero_ctx ctx, sh_cfg = ?cfg, sh_w = w,
        sh_h = h, sh_out = [], sh_out_cap = 0, refused = '''', sh_error = ''''\<rparr>"
      have r: "r = Some (foldl shim_ctrl ?s (shim_controls speed tcl screen))" "e = ebuf"
        using assms(1) d in_it True by (auto simp: aom_shim_open_def Let_def)
      have "iface (ctx_of zero_ctx ctx) = f" using enc_init_ok in_it True by blast
      moreover have "s32 (u32 kbps) = kbps" using assms(2,3) by (simp add: s32_def u32_def)
      moreover have "rc_target_bitrate ?cfg = u32 kbps" by (simp add: shim_config_def)
      ultimately show ?thesis
        using Some True v i(1) by (simp add: r controls_keep aom_shim_bitrate_def aom_shim_error_def shim_buf_ok_def)
    qed
  qed
qed

theorem shim_open_result_witness:
  "aom_shim_open (Some sample_ctrl_iface) False (sh_cfg sample_shim) 16 16 30 500 8 1 4 0 2 56 [] 64 = (None, ''out of memory'') \<and>
   aom_shim_open (Some (sample_ctrl_iface\<lparr>abi_version := 1\<rparr>)) True (sh_cfg sample_shim) 16 16 30 500 8 1 4 0 2 56 [] 64 =
     (None, ''aom_codec_enc_init failed: '' @ aom_codec_err_to_string AOM_CODEC_ABI_MISMATCH) \<and>
   (\<exists>s. aom_shim_open (Some sample_ctrl_iface) True (sh_cfg sample_shim) 16 16 30 500 8 1 4 0 2 56 [] 64 = (Some s, []) \<and> aom_shim_bitrate s = 500)"
proof -
  have d: "\<exists>cfg. realtime_default (Some (sample_ctrl_iface\<lparr>abi_version := v\<rparr>)) = Some cfg \<and> g_bit_depth cfg = 8" for v
    by (simp add: realtime_default_def sample_ctrl_iface_def pkt_list_iface_def AOM_CODEC_CAP_ENCODER_def sample_shim_def)
  have abi: "sample_ctrl_iface\<lparr>abi_version := 7\<rparr> = sample_ctrl_iface" by (simp add: sample_ctrl_iface_def pkt_list_iface_def)
  have init: "init_verdict sample_ctrl_iface cfg = AOM_CODEC_OK" if "g_bit_depth cfg = 8" for cfg
    using that by (simp add: init_verdict_def sample_ctrl_iface_def pkt_list_iface_def AOM_CODEC_INTERNAL_ABI_VERSION_def)
  have bad: "init_verdict (sample_ctrl_iface\<lparr>abi_version := 1\<rparr>) cfg = AOM_CODEC_ABI_MISMATCH" for cfg
    by (simp add: init_verdict_def AOM_CODEC_INTERNAL_ABI_VERSION_def)
  have depth: "g_bit_depth (shim_config cfg w h fps kbps th q1 q2) = g_bit_depth cfg" for cfg w h fps kbps th q1 q2
    by (simp add: shim_config_def)
  have len: "length (aom_codec_err_to_string AOM_CODEC_ABI_MISMATCH) \<le> 35" by simp
  let ?open = "\<lambda>f ok. aom_shim_open (Some f) ok (sh_cfg sample_shim) 16 16 30 500 8 1 4 0 2 56 [] 64"
  have "?open sample_ctrl_iface False = (None, ''out of memory'')"
    using shim_open_result [where f = "Some sample_ctrl_iface" and ok = False, OF surjective_pairing] d [of 7] by (auto simp: abi prod_eq_iff)
  moreover have "?open (sample_ctrl_iface\<lparr>abi_version := 1\<rparr>) True = (None, ''aom_codec_enc_init failed: '' @ aom_codec_err_to_string AOM_CODEC_ABI_MISMATCH)"
    using shim_open_result [where f = "Some (sample_ctrl_iface\<lparr>abi_version := 1\<rparr>)" and ok = True, OF surjective_pairing] d [of 1] len
    by (auto simp: bad prod_eq_iff)
  moreover obtain r e where o: "?open sample_ctrl_iface True = (r, e)" by fastforce
  moreover have "\<exists>s. r = Some s \<and> aom_shim_bitrate s = 500" "e = []"
    using shim_open_result [OF o] d [of 7] by (auto simp: abi init depth)
  ultimately show ?thesis by blast
qed

text \<open>What the codec says about a configuration.\<close>

definition codec_accepts :: "'a aom_shim \<Rightarrow> aom_codec_enc_cfg \<Rightarrow> bool" where
  "codec_accepts s cfg \<longleftrightarrow> (case (iface (sh_ctx s), priv (sh_ctx s)) of
     (Some f, Some p) \<Rightarrow> caps f AND AOM_CODEC_CAP_ENCODER \<noteq> 0 \<and> fst (cfg_set f p cfg) = AOM_CODEC_OK
   | _ \<Rightarrow> False)"

lemma config_set_result:
  assumes "aom_codec_enc_config_set (Some (sh_ctx s)) (Some cfg) = (res, ctx)"
  shows "(res = AOM_CODEC_OK) = codec_accepts s cfg" "\<exists>c. ctx = Some c \<and> err c = res \<and> iface c = iface (sh_ctx s)"
  using assms by (auto simp: aom_codec_enc_config_set_def codec_accepts_def SAVE_STATUS_def Let_def
    split: option.splits prod.splits if_splits)

text \<open>C32. Changing the bitrate. \<open>aom_shim_set_bitrate\<close> returns 0 exactly when the codec
  accepts the configuration with the new target, and then the shim reports that bitrate and
  every other field of its configuration is kept; otherwise it returns -1, the configuration
  and the reported bitrate are the old ones, and its error text names the call and the
  codec's error. Output buffer, size and refused controls are kept in both cases.\<close>

theorem shim_set_bitrate:
  assumes "0 \<le> kbps" "kbps < 2 ^ 31" "aom_shim_set_bitrate s kbps = (r, s')"
  shows "(r = 0 \<and> codec_accepts s ((sh_cfg s)\<lparr>rc_target_bitrate := kbps\<rparr>) \<and> aom_shim_bitrate s' = kbps \<and>
      sh_cfg s' = (sh_cfg s)\<lparr>rc_target_bitrate := kbps\<rparr> \<and> sh_error s' = sh_error s \<or>
    r = -1 \<and> \<not> codec_accepts s ((sh_cfg s)\<lparr>rc_target_bitrate := kbps\<rparr>) \<and> aom_shim_bitrate s' = aom_shim_bitrate s \<and>
      sh_cfg s' = sh_cfg s \<and> (\<exists>code rest. code \<noteq> AOM_CODEC_OK \<and>
        aom_shim_error s' = take 255 (''aom_codec_enc_config_set: '' @ aom_codec_err_to_string code @ rest))) \<and>
    sh_out s' = sh_out s \<and> sh_out_cap s' = sh_out_cap s \<and> sh_w s' = sh_w s \<and> sh_h s' = sh_h s \<and> refused s' = refused s"
proof -
  let ?cfg = "(sh_cfg s)\<lparr>rc_target_bitrate := kbps\<rparr>"
  have k: "u32 kbps = kbps" "s32 kbps = kbps" using assms(1,2) by (simp_all add: u32_def s32_def)
  obtain res ctx where e: "aom_codec_enc_config_set (Some (sh_ctx s)) (Some ?cfg) = (res, ctx)" by fastforce
  obtain c where c: "ctx = Some c" "err c = res" using config_set_result(2) [OF e] by blast
  have acc: "(res = AOM_CODEC_OK) = codec_accepts s ?cfg" using config_set_result(1) [OF e] .
  show ?thesis
  proof (cases "res = AOM_CODEC_OK")
    case True
    then show ?thesis using assms(3) e c acc k
      by (auto simp: aom_shim_set_bitrate_def Let_def ctx_of_def aom_shim_bitrate_def)
  next
    case False
    define rest where "rest = (case aom_codec_error_detail (Some c) of None \<Rightarrow> '''' | Some d \<Rightarrow> '': '' @ d)"
    have "s' = s\<lparr>sh_ctx := c, sh_error := take 255 (''aom_codec_enc_config_set: '' @ aom_codec_err_to_string res @ rest)\<rparr>" "r = -1"
      using assms(3) e c k False
      by (simp_all add: aom_shim_set_bitrate_def Let_def ctx_of_def remember_error_def snprintf_def aom_codec_error_def rest_def)
    moreover have "\<exists>code rest'. code \<noteq> AOM_CODEC_OK \<and>
        take 255 (''aom_codec_enc_config_set: '' @ aom_codec_err_to_string res @ rest) =
        take 255 (''aom_codec_enc_config_set: '' @ aom_codec_err_to_string code @ rest')" using False by blast
    ultimately show ?thesis using acc False by (simp only: aom_shim_bitrate_def aom_shim_error_def) simp
  qed
qed

theorem shim_set_bitrate_witness:
  "\<exists>r s'. aom_shim_set_bitrate sample_shim 750 = (r, s') \<and> r = 0 \<and> aom_shim_bitrate s' = 750"
proof -
  obtain r s' where e: "aom_shim_set_bitrate sample_shim 750 = (r, s')" by fastforce
  have "codec_accepts sample_shim cfg" for cfg
    by (simp add: codec_accepts_def sample_shim_def pkt_list_iface_def zero_ctx_def AOM_CODEC_CAP_ENCODER_def)
  then show ?thesis using shim_set_bitrate [OF _ _ e] e by auto
qed

section \<open>The decoder\<close>

text \<open>The pictures an algorithm hands out from private data \<open>p\<close> and iterator \<open>it\<close> until it
  has no more.\<close>

inductive frames_from ::
  "'a aom_codec_iface \<Rightarrow> 'a aom_codec_priv \<Rightarrow> codec_iter \<Rightarrow> aom_image list \<Rightarrow> 'a aom_codec_priv \<Rightarrow> bool" for f where
  no_more: "get_frame f p it = (None, it', p') \<Longrightarrow> frames_from f p it [] p'"
| one_more: "get_frame f p it = (Some img, it', p1) \<Longrightarrow> frames_from f p1 it' imgs p' \<Longrightarrow> frames_from f p it (img # imgs) p'"

inductive_cases frames_from_NilE: "frames_from f p it [] p'"
inductive_cases frames_from_ConsE: "frames_from f p it (img # imgs) p'"

lemma last_frame_correct:
  assumes "frames_from f p it imgs p'" "iface c = Some f" "priv c = Some p"
  shows "last_frame c it prev = Some (if imgs = [] then prev else Some (List.last imgs), c\<lparr>priv := Some p'\<rparr>)"
  using assms
proof (induction arbitrary: c prev rule: frames_from.induct)
  case (no_more p it it' p')
  then show ?case by (subst last_frame.simps) (simp add: aom_codec_get_frame_def ctx_of_def)
next
  case (one_more p it img it' p1 imgs p')
  have "last_frame c it prev = last_frame (c\<lparr>priv := Some p1\<rparr>) it' (Some img)"
    using one_more by (subst last_frame.simps) (simp add: aom_codec_get_frame_def ctx_of_def)
  then show ?case using one_more.IH [of "c\<lparr>priv := Some p1\<rparr>" "Some img"] one_more.prems by simp
qed

text \<open>The pictures the shim hands to its caller.\<close>

definition is_8bit_420 :: "aom_image \<Rightarrow> bool" where
  "is_8bit_420 img \<longleftrightarrow> fmt img = AOM_IMG_FMT_I420 \<and> bit_depth img = 8 \<and> monochrome img = 0"

text \<open>C25. Decoding one temporal unit. When the codec decodes the bytes and hands out finitely
  many pictures, \<open>aom_shim_dec_decode\<close> returns; it reports a picture (\<open>*got\<close> = 1) exactly
  when there is one and the last one is an 8-bit 4:2:0 picture, and then reports that
  picture's planes, strides and size. A last picture of another kind is the error -1 with no
  picture, no picture at all is success with \<open>*got\<close> = 0. When the codec fails to decode, the
  result is -1 with no picture, and the error text says so.\<close>

theorem shim_decode_last_picture:
  assumes ctx: "iface (dctx d) = Some f" "priv (dctx d) = Some p"
    and dec: "if_decode f p data = (res, p1)" "frames_from f p1 0 imgs p2"
  shows "\<exists>r got pic d'. aom_shim_dec_decode d data = Some (r, got, pic, d') \<and> iface (dctx d') = Some f \<and>
    (if res \<noteq> AOM_CODEC_OK then
       r = -1 \<and> got = 0 \<and> pic = None \<and> (\<exists>rest. aom_shim_dec_error d' =
         take 255 (''aom_codec_decode: '' @ aom_codec_err_to_string res @ rest))
     else if imgs = [] then r = 0 \<and> got = 0 \<and> pic = None \<and> derror d' = derror d
     else if \<not> is_8bit_420 (List.last imgs) then r = -1 \<and> got = 0 \<and> pic = None \<and> derror d' \<noteq> []
     else r = 0 \<and> got = 1 \<and> derror d' = derror d \<and> pic = Some \<lparr>pic_planes = [planes (List.last imgs) ! 0, planes (List.last imgs) ! 1,
         planes (List.last imgs) ! 2], pic_y_stride = stride (List.last imgs) ! 0, pic_uv_stride = stride (List.last imgs) ! 1,
         pic_w = s32 (d_w (List.last imgs)), pic_h = s32 (d_h (List.last imgs))\<rparr>)"
proof -
  define c where "c = (dctx d)\<lparr>priv := Some p1, err := res\<rparr>"
  have e: "aom_codec_decode (Some (dctx d)) data = (res, Some c)"
    using ctx dec(1) by (simp add: aom_codec_decode_def SAVE_STATUS_def c_def)
  have l: "last_frame c 0 None = Some (if imgs = [] then None else Some (List.last imgs), c\<lparr>priv := Some p2\<rparr>)"
    using last_frame_correct [OF dec(2)] ctx by (simp add: c_def)
  have ci: "iface c = Some f" "err c = res" using ctx by (simp_all add: c_def)
  show ?thesis
  proof (cases "res = AOM_CODEC_OK")
    case False
    then show ?thesis
      by (simp add: aom_shim_dec_decode_def e ctx_of_def aom_shim_dec_error_def snprintf_def aom_codec_error_def ci) blast
  next
    case True
    then show ?thesis
      by (auto simp add: aom_shim_dec_decode_def e l ctx_of_def is_8bit_420_def snprintf_def ci Let_def)
  qed
qed

definition sample_dec_iface :: "nat aom_codec_iface" where
  "sample_dec_iface = sample_iface\<lparr>if_decode := \<lambda>p d. (AOM_CODEC_OK, p),
     get_frame := \<lambda>p i. (if i < 2 then Some (zero_image\<lparr>fmt := AOM_IMG_FMT_I420, bit_depth := 8, d_w := 640 + int i,
        d_h := 480, planes := [1, 2, 3], stride := [640, 320, 320]\<rparr>) else None, Suc i, p)\<rparr>"

theorem shim_decode_last_picture_witness:
  "\<exists>d'. aom_shim_dec_decode \<lparr>dctx = zero_ctx\<lparr>iface := Some sample_dec_iface, priv := Some sample_priv\<rparr>, derror = ''''\<rparr> (Some [1]) =
    Some (0, 1, Some \<lparr>pic_planes = [1, 2, 3], pic_y_stride = 640, pic_uv_stride = 320, pic_w = 641, pic_h = 480\<rparr>, d')"
proof -
  define img where "img w = zero_image\<lparr>fmt := AOM_IMG_FMT_I420, bit_depth := 8, d_w := w, d_h := 480, planes := [1, 2, 3],
    stride := [640, 320, 320]\<rparr>" for w
  have f: "frames_from sample_dec_iface sample_priv 0 [img 640, img 641] sample_priv"
    by (rule one_more, simp add: sample_dec_iface_def img_def, rule one_more, simp add: sample_dec_iface_def img_def,
      rule no_more, simp add: sample_dec_iface_def)
  have "is_8bit_420 (img 641)" by (simp add: is_8bit_420_def img_def zero_image_def)
  then show ?thesis
    using shim_decode_last_picture [OF _ _ _ f, where data = "Some [1]" and res = AOM_CODEC_OK and p = sample_priv and
      d = "\<lparr>dctx = zero_ctx\<lparr>iface := Some sample_dec_iface, priv := Some sample_priv\<rparr>, derror = ''''\<rparr>"]
    by (auto simp: sample_dec_iface_def img_def s32_def)
qed

end
