(* ===== verification/Bench_Shim.thy ===== *)
theory Bench_Shim
  imports Aom_Shim
begin

text \<open>
  The codec bench's wrapper of libaom, \<open>tools/codec-bench/shim/aom_shim.c\<close>, from which the
  product shim was derived, and the proof of what the product shim's header claims: it
  encodes with exactly the configuration that was measured. What a function prints on
  \<open>stderr\<close> is a list of lines in its result; a \<open>printf\<close> of a NULL string is undefined and,
  like a store outside a buffer, the result \<open>Some None\<close>.
\<close>

section \<open>The wrapper\<close>

record 'a bench_shim =
  b_ctx :: "'a aom_codec_ctx"
  b_w :: int
  b_h :: int
  b_out :: "int list"
  b_out_cap :: int

definition bench_append ::
  "allocator \<Rightarrow> 'a bench_shim \<Rightarrow> int list \<Rightarrow> int \<Rightarrow> (int \<times> 'a bench_shim \<times> int) option" where
  "bench_append al s data used =
     (let len = int (length data);
          grow = u64 (used + len) > b_out_cap s;
          cap = u64 (u64 (used + len) * 2) in
      case (if grow then realloc_bytes al (b_out s) cap else Some (b_out s)) of
        None \<Rightarrow> Some (-1, s, used)
      | Some buf \<Rightarrow>
          let s = (if grow then s\<lparr>b_out := buf, b_out_cap := cap\<rparr> else s) in
          map_option (\<lambda>out. (0, s\<lparr>b_out := out\<rparr>, u64 (used + len))) (memcpy_at buf (nat used) data))"

definition bench_ctrl :: "'a bench_shim \<times> string list \<Rightarrow> int \<times> int \<times> string \<Rightarrow> 'a bench_shim \<times> string list" where
  "bench_ctrl st c =
     (let (s, log) = st;
          (i, value, name) = c;
          (res, ctx) = aom_codec_control (Some (b_ctx s)) i value;
          s = s\<lparr>b_ctx := ctx_of (b_ctx s) ctx\<rparr> in
      if res \<noteq> AOM_CODEC_OK then
        (s, log @ [''aom: control '' @ name @ ''='' @ show_int value @ '' refused: '' @
          (case aom_codec_error_detail (Some (b_ctx s)) of Some t \<Rightarrow> t | None \<Rightarrow> '''')])
      else (s, log))"

definition bench_open ::
  "'a aom_codec_iface option \<Rightarrow> bool \<Rightarrow> aom_codec_enc_cfg \<Rightarrow> int \<Rightarrow> int \<Rightarrow> int \<Rightarrow> int \<Rightarrow> int \<Rightarrow> int \<Rightarrow> int \<Rightarrow> int \<Rightarrow>
   int \<Rightarrow> int \<Rightarrow> string \<Rightarrow> int \<Rightarrow> 'a bench_shim option \<times> string \<times> string list" where
  "bench_open f calloc_ok cfg0 w h fps kbps speed screen threads tile_cols_log2 min_q max_q ebuf errlen =
     (case aom_codec_enc_config_default f (Some cfg0) 1 of
        (AOM_CODEC_OK, Some cfg) \<Rightarrow>
          let cfg = cfg\<lparr>g_w := u32 w, g_h := u32 h, g_timebase_num := 1, g_timebase_den := fps, g_threads := u32 threads,
            g_lag_in_frames := 0, g_error_resilient := 0, g_pass := 0, rc_end_usage := 1,
            rc_target_bitrate := u32 kbps, rc_min_quantizer := u32 min_q, rc_max_quantizer := u32 max_q,
            rc_undershoot_pct := 50, rc_overshoot_pct := 50, rc_buf_initial_sz := 600, rc_buf_optimal_sz := 600,
            rc_buf_sz := 1000, rc_dropframe_thresh := 0, kf_mode := 0\<rparr> in
          if \<not> calloc_ok then (None, ebuf, [])
          else
            let (res, ctx, _) = aom_codec_enc_init_ver (Some zero_ctx) f (Some cfg) 0 AOM_ENCODER_ABI_VERSION;
                c = ctx_of zero_ctx ctx in
            if res \<noteq> AOM_CODEC_OK
            then (None, write_err ebuf errlen (''aom_codec_enc_init failed: '' @ aom_codec_error (Some c)), [])
            else
              let s = \<lparr>b_ctx = c, b_w = w, b_h = h, b_out = [], b_out_cap = 0\<rparr>;
                  (s, log) = foldl bench_ctrl (s, [])
                    [(13, speed, ''AOME_SET_CPUUSED''), (32, 1, ''AV1E_SET_ROW_MT''),
                     (33, tile_cols_log2, ''AV1E_SET_TILE_COLUMNS''), (40, 3, ''AV1E_SET_AQ_MODE''),
                     (58, 1, ''AV1E_SET_ENABLE_CDEF''), (35, 0, ''AV1E_SET_ENABLE_TPL_MODEL''),
                     (107, 0, ''AV1E_SET_DELTAQ_MODE''), (79, 0, ''AV1E_SET_ENABLE_ORDER_HINT''),
                     (61, 0, ''AV1E_SET_ENABLE_OBMC''), (96, 0, ''AV1E_SET_ENABLE_WARPED_MOTION''),
                     (95, 0, ''AV1E_SET_ENABLE_GLOBAL_MOTION''), (84, 0, ''AV1E_SET_ENABLE_REF_FRAME_MVS''),
                     (42, 0, ''AV1E_SET_NOISE_SENSITIVITY''), (26, 300, ''AOME_SET_MAX_INTRA_BITRATE_PCT''),
                     (126, 3, ''AV1E_SET_COEFF_COST_UPD_FREQ''), (127, 3, ''AV1E_SET_MODE_COST_UPD_FREQ''),
                     (128, 3, ''AV1E_SET_MV_COST_UPD_FREQ''),
                     (43, if screen \<noteq> 0 then 1 else 0, ''AV1E_SET_TUNE_CONTENT''),
                     (104, if screen \<noteq> 0 then 1 else 0, ''AV1E_SET_ENABLE_PALETTE'')]
              in (Some s, ebuf, log)
      | _ \<Rightarrow> (None, write_err ebuf errlen ''aom_codec_enc_config_default failed'', []))"

partial_function (option) bench_drain ::
  "allocator \<Rightarrow> 'a bench_shim \<Rightarrow> memory \<Rightarrow> codec_iter \<Rightarrow> int \<Rightarrow> int \<Rightarrow>
   (int \<times> 'a bench_shim \<times> memory \<times> int \<times> int) option option" where
  "bench_drain al s m iter used key =
     (case aom_codec_get_cx_data (Some (b_ctx s)) m (Some iter) of
        (pkt, iter', ctx, m') \<Rightarrow>
          (case pkt of
             None \<Rightarrow> Some (Some (0, s\<lparr>b_ctx := ctx_of (b_ctx s) ctx\<rparr>, m', used, key))
           | Some k \<Rightarrow>
               if pkt_kind k \<noteq> AOM_CODEC_CX_FRAME_PKT
               then bench_drain al (s\<lparr>b_ctx := ctx_of (b_ctx s) ctx\<rparr>) m' (case iter' of Some i \<Rightarrow> i | None \<Rightarrow> iter) used key
               else
                 (case bench_append al (s\<lparr>b_ctx := ctx_of (b_ctx s) ctx\<rparr>) (read_bytes m' (pkt_buf k) (pkt_sz k)) used of
                    None \<Rightarrow> Some None
                  | Some (r, s', used') \<Rightarrow>
                      if r \<noteq> 0 then Some (Some (-1, s', m', used', key))
                      else bench_drain al s' m' (case iter' of Some i \<Rightarrow> i | None \<Rightarrow> iter) used'
                             (if pkt_flags k AND AOM_FRAME_IS_KEY \<noteq> 0 then 1 else key))))"

definition bench_encode ::
  "allocator \<Rightarrow> int \<Rightarrow> 'a bench_shim \<Rightarrow> heap \<Rightarrow> int \<Rightarrow> int \<Rightarrow> int \<Rightarrow> int \<Rightarrow> int \<Rightarrow> int \<Rightarrow> int \<Rightarrow>
   (int \<times> 'a bench_shim \<times> heap \<times> (int list \<times> int \<times> int) option \<times> string list) option option" where
  "bench_encode al pick s hp y u v y_stride uv_stride pts force_kf =
     (case aom_img_wrap True pick hp (Some zero_image) AOM_IMG_FMT_I420 (u32 (b_w s)) (u32 (b_h s)) 1 y of
        Some (True, Some img, hp) \<Rightarrow>
          let img = img\<lparr>planes := [y, u, v], stride := [y_stride, uv_stride, uv_stride]\<rparr>;
              (res, ctx) = aom_codec_encode (Some (b_ctx s)) (mem hp) (Some img) pts 1 (if force_kf \<noteq> 0 then 1 else 0);
              s = s\<lparr>b_ctx := ctx_of (b_ctx s) ctx\<rparr> in
          if res \<noteq> AOM_CODEC_OK then
            (case aom_codec_error_detail (Some (b_ctx s)) of
               None \<Rightarrow> Some None
             | Some t \<Rightarrow> Some (Some (-1, s, hp, None, [''aom: encode failed: '' @ t])))
          else
            (case bench_drain al s (mem hp) 0 0 0 of
               None \<Rightarrow> None
             | Some None \<Rightarrow> Some None
             | Some (Some (r, s, m, used, key)) \<Rightarrow>
                 if r \<noteq> 0 then Some (Some (-1, s, hp\<lparr>mem := m\<rparr>, None, []))
                 else Some (Some (0, s, hp\<lparr>mem := m\<rparr>, Some (b_out s, used, key), [])))
      | Some (_, _, hp) \<Rightarrow> Some (Some (-1, s, hp, None, []))
      | None \<Rightarrow> Some None)"

definition bench_close :: "'a bench_shim option \<Rightarrow> ('a aom_codec_priv option \<times> int list) option" where
  "bench_close s =
     (case s of None \<Rightarrow> None
      | Some s \<Rightarrow> (let (_, _, released) = aom_codec_destroy (Some (b_ctx s)) in Some (released, b_out s)))"

section \<open>The product shim against the bench\<close>

text \<open>The part of the product shim's state that the bench has.\<close>

definition bench_of :: "'a aom_shim \<Rightarrow> 'a bench_shim" where
  "bench_of s = \<lparr>b_ctx = sh_ctx s, b_w = sh_w s, b_h = sh_h s, b_out = sh_out s, b_out_cap = sh_out_cap s\<rparr>"

lemma bench_of_sel [simp]:
  "b_ctx (bench_of s) = sh_ctx s" "b_w (bench_of s) = sh_w s" "b_h (bench_of s) = sh_h s"
  "b_out (bench_of s) = sh_out s" "b_out_cap (bench_of s) = sh_out_cap s"
  by (simp_all add: bench_of_def)

lemma bench_of_upd [simp]:
  "bench_of (s\<lparr>sh_ctx := c\<rparr>) = (bench_of s)\<lparr>b_ctx := c\<rparr>" "bench_of (s\<lparr>sh_error := t\<rparr>) = bench_of s"
  "bench_of (s\<lparr>refused := t\<rparr>) = bench_of s" "bench_of (s\<lparr>sh_cfg := cf\<rparr>) = bench_of s"
  "bench_of (s\<lparr>sh_out := x\<rparr>) = (bench_of s)\<lparr>b_out := x\<rparr>" "bench_of (s\<lparr>sh_out_cap := n\<rparr>) = (bench_of s)\<lparr>b_out_cap := n\<rparr>"
  by (simp_all add: bench_of_def)

lemma bench_append_eq:
  "bench_append al (bench_of s) data used = map_option (\<lambda>(r, s, n). (r, bench_of s, n)) (append_packet al s data used)"
  by (auto simp: bench_append_def append_packet_def Let_def option.map_comp comp_def split: option.splits)

lemma bench_ctrl_eq: "fst (bench_ctrl (bench_of s, log) c) = bench_of (shim_ctrl s c)"
  by (auto simp: bench_ctrl_def shim_ctrl_def Let_def split: prod.splits)

lemma bench_controls_eq: "fst (foldl bench_ctrl (bench_of s, log) cs) = bench_of (foldl shim_ctrl s cs)"
proof (induction cs arbitrary: s log)
  case (Cons c cs)
  have "bench_ctrl (bench_of s, log) c = (bench_of (shim_ctrl s c), snd (bench_ctrl (bench_of s, log) c))"
    using bench_ctrl_eq [of s log c] by (metis prod.collapse)
  then show ?case using Cons.IH by (metis foldl_Cons)
qed simp

text \<open>C33. The bench and the product open the same encoder. With the same arguments and the same
  codec, both shims succeed or both return NULL, the codec context, configured with the same
  settings and controls in the same order, is the same, and so is the error text, except that
  the bench leaves the error buffer untouched when the shim cannot be allocated.\<close>

theorem bench_open_equiv:
  "\<exists>log. bench_open f ok cfg0 w h fps kbps speed screen threads tcl min_q max_q ebuf errlen =
    (case aom_shim_open f ok cfg0 w h fps kbps speed screen threads tcl min_q max_q ebuf errlen of
       (s, e) \<Rightarrow> (map_option bench_of s, if \<not> ok \<and> fst (aom_codec_enc_config_default f (Some cfg0) 1) = AOM_CODEC_OK
                                          then ebuf else e, log))"
proof -
  obtain res0 cfgo where d: "aom_codec_enc_config_default f (Some cfg0) 1 = (res0, cfgo)" by fastforce
  have c: "res0 = AOM_CODEC_OK \<Longrightarrow> \<exists>cfg. cfgo = Some cfg"
    using d by (auto simp: aom_codec_enc_config_default_def split: option.splits if_splits)
  show ?thesis
  proof (cases "res0 = AOM_CODEC_OK")
    case False
    then show ?thesis using d by (cases res0) (simp_all add: bench_open_def aom_shim_open_def)
  next
    case True
    then obtain cfg where cfg: "cfgo = Some cfg" using c by blast
    define cf where "cf = shim_config cfg w h fps kbps threads min_q max_q"
    obtain res ctx rel where i: "aom_codec_enc_init_ver (Some zero_ctx) f (Some cf) 0 AOM_ENCODER_ABI_VERSION = (res, ctx, rel)"
      by (metis prod_cases3)
    define s where "s = \<lparr>sh_ctx = ctx_of zero_ctx ctx, sh_cfg = cf, sh_w = w, sh_h = h, sh_out = [], sh_out_cap = 0,
                       refused = '''', sh_error = ''''\<rparr>"
    define cs where "cs = shim_controls speed tcl screen"
    obtain b log where b: "foldl bench_ctrl (bench_of s, []) cs = (b, log)" by fastforce
    have eq: "b = bench_of (foldl shim_ctrl s cs)" using bench_controls_eq [of s "[]" cs] b by simp
    have bs: "\<lparr>b_ctx = ctx_of zero_ctx ctx, b_w = w, b_h = h, b_out = [], b_out_cap = 0\<rparr> = bench_of s"
      by (simp add: s_def bench_of_def)
    have "bench_open f ok cfg0 w h fps kbps speed screen threads tcl min_q max_q ebuf errlen =
        (if \<not> ok then (None, ebuf, []) else if res \<noteq> AOM_CODEC_OK then
           (None, write_err ebuf errlen (''aom_codec_enc_init failed: '' @ aom_codec_error (Some (ctx_of zero_ctx ctx))), [])
         else (Some b, ebuf, log))"
      using i [unfolded cf_def shim_config_def] b [unfolded cs_def shim_controls_def]
      by (simp add: bench_open_def d True cfg Let_def bs)
    moreover have "aom_shim_open f ok cfg0 w h fps kbps speed screen threads tcl min_q max_q ebuf errlen =
        (if \<not> ok then (None, write_err ebuf errlen ''out of memory'') else if res \<noteq> AOM_CODEC_OK then
           (None, write_err ebuf errlen (''aom_codec_enc_init failed: '' @ aom_codec_error (Some (ctx_of zero_ctx ctx))))
         else (Some (foldl shim_ctrl s cs), ebuf))"
      using i by (simp add: aom_shim_open_def d True cfg Let_def cf_def [symmetric] s_def cs_def)
    ultimately show ?thesis using d True eq by simp
  qed
qed

text \<open>The packet loops: each returns when the other does, with the same packets.\<close>

definition bench_result ::
  "(int \<times> 'a aom_shim \<times> memory \<times> int \<times> int) option \<Rightarrow> (int \<times> 'a bench_shim \<times> memory \<times> int \<times> int) option" where
  "bench_result = map_option (\<lambda>(r, s, m, used, key). (r, bench_of s, m, used, key))"

lemma bench_append_ctx:
  "bench_append al ((bench_of s)\<lparr>b_ctx := c\<rparr>) data used =
     map_option (\<lambda>(r, s, n). (r, bench_of s, n)) (append_packet al (s\<lparr>sh_ctx := c\<rparr>) data used)"
  using bench_append_eq [of al "s\<lparr>sh_ctx := c\<rparr>" data used] by simp

lemma bench_drain_if:
  assumes "drain_packets al s m it used key = Some x"
  shows "bench_drain al (bench_of s) m it used key = Some (bench_result x)"
proof (rule drain_packets.raw_induct [OF _ assms], goal_cases)
  case (1 go al s m it used key x)
  obtain pkt it' ctx m' where g: "aom_codec_get_cx_data (Some (sh_ctx s)) m (Some it) = (pkt, it', ctx, m')"
    by (metis prod_cases4)
  show ?case
    using 1(2) 1(1) [of _ "s\<lparr>sh_ctx := _\<rparr>", simplified] 1(1)
    by (subst bench_drain.simps) (auto simp: g bench_append_ctx bench_result_def split: option.splits if_splits)
qed

lemma bench_drain_only_if:
  assumes "bench_drain al b m it used key = Some y" "b = bench_of s"
  shows "\<exists>x. drain_packets al s m it used key = Some x"
proof -
  have "\<forall>s. b = bench_of s \<longrightarrow> (\<exists>x. drain_packets al s m it used key = Some x)"
  proof (rule bench_drain.raw_induct [OF _ assms(1)], goal_cases)
    case (1 go al b m it used key y)
    show ?case
    proof (intro allI impI)
      fix s assume b: "b = bench_of s"
      obtain pkt it' ctx m' where g: "aom_codec_get_cx_data (Some (sh_ctx s)) m (Some it) = (pkt, it', ctx, m')"
        by (metis prod_cases4)
      show "\<exists>x. drain_packets al s m it used key = Some x"
        using 1(2) 1(1) [rule_format, of _ _ _ _ _ _ _ "s\<lparr>sh_ctx := _\<rparr>", simplified] 1(1) [rule_format]
        by (subst drain_packets.simps) (fastforce simp: b g bench_append_ctx split: option.splits if_splits)
    qed
  qed
  then show ?thesis using assms(2) by blast
qed

lemma bench_drain_eq:
  "bench_drain al (bench_of s) m it used key = map_option bench_result (drain_packets al s m it used key)"
  using bench_drain_if [of al s m it used key] bench_drain_only_if [of al "bench_of s" m it used key _ s]
  by (cases "drain_packets al s m it used key"; cases "bench_drain al (bench_of s) m it used key") auto

text \<open>C34. The bench and the product encode alike. From the same state and for the same picture
  both shims return the same value, the same bytes, length and key flag, and leave the same
  codec context and output buffer, or neither returns. The one exception: when the codec fails
  without a detail text, the bench hands the NULL detail to \<open>fprintf\<close>, which is undefined.\<close>

theorem bench_encode_equiv:
  "(\<exists>log. bench_encode al pick (bench_of s) hp y u v y_stride uv_stride pts force_kf =
      map_option (map_option (\<lambda>(r, s', hp', outs). (r, bench_of s', hp', outs, log)))
        (aom_shim_encode al pick s hp y u v y_stride uv_stride pts force_kf)) \<or>
   bench_encode al pick (bench_of s) hp y u v y_stride uv_stride pts force_kf = Some None \<and>
     (\<exists>s' hp'. aom_shim_encode al pick s hp y u v y_stride uv_stride pts force_kf = Some (Some (-1, s', hp', None)) \<and>
       aom_codec_error_detail (Some (sh_ctx s')) = None)"
proof (cases "aom_img_wrap True pick hp (Some zero_image) AOM_IMG_FMT_I420 (u32 (sh_w s)) (u32 (sh_h s)) 1 y")
  case None
  then show ?thesis by (simp add: bench_encode_def aom_shim_encode_def)
next
  case (Some a)
  obtain ok img hp1 where w: "a = (ok, img, hp1)" by (metis prod_cases3)
  show ?thesis
  proof (cases "ok \<and> img \<noteq> None")
    case False
    then show ?thesis using Some w by (cases ok; cases img) (simp_all add: bench_encode_def aom_shim_encode_def)
  next
    case True
    then obtain i where i: "img = Some i" "ok = True" by auto
    obtain res ctx where e: "aom_codec_encode (Some (sh_ctx s)) (mem hp1)
        (Some (i\<lparr>planes := [y, u, v], stride := [y_stride, uv_stride, uv_stride]\<rparr>)) pts 1 (if force_kf \<noteq> 0 then 1 else 0) = (res, ctx)"
      by fastforce
    have dr: "bench_drain al ((bench_of s)\<lparr>b_ctx := c\<rparr>) m 0 0 0 = map_option bench_result (drain_packets al (s\<lparr>sh_ctx := c\<rparr>) m 0 0 0)"
      for c m using bench_drain_eq [of al "s\<lparr>sh_ctx := c\<rparr>"] by simp
    show ?thesis
    proof (cases "res = AOM_CODEC_OK")
      case True
      then show ?thesis using Some w i e
        by (auto simp: bench_encode_def aom_shim_encode_def Let_def dr bench_result_def split: option.splits)
    next
      case False
      then show ?thesis using Some w i e
        by (cases "aom_codec_error_detail (Some (ctx_of (sh_ctx s) ctx))")
          (auto simp: bench_encode_def aom_shim_encode_def Let_def remember_error_def)
    qed
  qed
qed

end
