(* ===== verification/Svt_Shim.thy ===== *)
theory Svt_Shim
  imports Aom_Shim
begin

text \<open>
  The codec bench's wrapper of SVT-AV1, \<open>tools/codec-bench/shim/svt_shim.c\<close>. The SVT-AV1
  library is not part of the repository: it is the parameter \<open>svt_api\<close>, a table of the
  functions the wrapper calls on a handle of type \<open>'h\<close>. The wrapper's releases of what the
  library gave it are recorded as a trace of \<open>svt_call\<close>s, and undefined behaviour (signed
  overflow, a store outside a buffer, a NULL string) is the result \<open>None\<close>.
\<close>

section \<open>The library's interface\<close>

datatype EbErrorType = EB_ErrorNone | EB_NoErrorEmptyQueue | EB_Error int

text \<open>\<open>cfg_rest\<close> is the part of the configuration that only the library reads.\<close>

record 'c svt_config =
  source_width :: int
  source_height :: int
  frame_rate_numerator :: int
  frame_rate_denominator :: int
  encoder_bit_depth :: int
  cfg_rest :: 'c

record svt_input =
  in_planes :: "int list"
  in_strides :: "int list"
  n_filled_len :: int
  in_pts :: int
  in_key :: bool
  in_eos :: bool

record svt_packet =
  sp_bytes :: "int list"
  sp_key :: bool
  sp_eos :: bool

record ('h, 'c) svt_api =
  init_handle :: "EbErrorType \<times> 'h \<times> 'c svt_config"
  parse_parameter :: "'c svt_config \<Rightarrow> string \<Rightarrow> string \<Rightarrow> EbErrorType \<times> 'c svt_config"
  set_parameter :: "'h \<Rightarrow> 'c svt_config \<Rightarrow> EbErrorType \<times> 'h"
  enc_init :: "'h \<Rightarrow> EbErrorType \<times> 'h"
  send_picture :: "'h \<Rightarrow> svt_input \<Rightarrow> EbErrorType \<times> 'h"
  get_packet :: "'h \<Rightarrow> bool \<Rightarrow> EbErrorType \<times> svt_packet option \<times> 'h"

datatype svt_call = Release_out_buffer svt_packet | Deinit | Deinit_handle | Free_out "int list"

section \<open>The wrapper\<close>

record 'h svt_shim =
  handle :: 'h
  sv_w :: int
  sv_h :: int
  sv_out :: "int list"
  sv_out_cap :: int

definition svt_set ::
  "('h, 'c) svt_api \<Rightarrow> 'c svt_config \<Rightarrow> string \<Rightarrow> string \<Rightarrow> string \<Rightarrow> int \<Rightarrow> int \<times> 'c svt_config \<times> string" where
  "svt_set api cfg name value ebuf errlen =
     (let (e, cfg) = parse_parameter api cfg name value in
      if e \<noteq> EB_ErrorNone
      then (-1, cfg, write_err ebuf errlen (''svt: parameter '' @ name @ ''='' @ value @ '' refused''))
      else (0, cfg, ebuf))"

text \<open>Parameters set one after the other until one is refused.\<close>

fun svt_set_all ::
  "('h, 'c) svt_api \<Rightarrow> 'c svt_config \<Rightarrow> (string \<times> string) list \<Rightarrow> string \<Rightarrow> int \<Rightarrow> int \<times> 'c svt_config \<times> string" where
  "svt_set_all api cfg [] ebuf errlen = (0, cfg, ebuf)"
| "svt_set_all api cfg ((name, value) # ps) ebuf errlen =
     (let (r, cfg, ebuf) = svt_set api cfg name value ebuf errlen in
      if r \<noteq> 0 then (r, cfg, ebuf) else svt_set_all api cfg ps ebuf errlen)"

definition svt_defaults :: "int \<Rightarrow> int \<Rightarrow> int \<Rightarrow> int \<Rightarrow> int \<Rightarrow> int \<Rightarrow> (string \<times> string) list" where
  "svt_defaults kbps preset screen lp min_q max_q =
     map (\<lambda>(name, v). (name, snprintf 32 (show_int v)))
       [(''preset'', preset), (''rtc'', 1), (''pred-struct'', 1), (''rc'', 2), (''tbr'', kbps), (''buf-sz'', 1000),
        (''buf-initial-sz'', 600), (''buf-optimal-sz'', 600), (''undershoot-pct'', 50), (''overshoot-pct'', 50),
        (''hierarchical-levels'', 0), (''min-qp'', if min_q < 1 then 1 else min_q), (''max-qp'', max_q),
        (''scm'', if screen \<noteq> 0 then 1 else 0), (''lp'', lp), (''lookahead'', 0), (''enable-tf'', 0), (''scd'', 0),
        (''keyint'', 100000)]"

text \<open>\<open>strtok_r\<close> with one delimiter: the non-empty pieces between delimiters.\<close>

fun strtok_all :: "char \<Rightarrow> string \<Rightarrow> string \<Rightarrow> string list" where
  "strtok_all d [] cur = (if cur = [] then [] else [cur])"
| "strtok_all d (c # cs) cur =
     (if c = d then (if cur = [] then [] else [cur]) @ strtok_all d cs [] else strtok_all d cs (cur @ [c]))"

text \<open>A token \<open>name=value\<close>, split at the first equals sign; tokens without one are skipped.\<close>

fun svt_extra :: "string list \<Rightarrow> (string \<times> string) list" where
  "svt_extra [] = []"
| "svt_extra (kv # kvs) =
     (if CHR ''='' \<in> set kv
      then (takeWhile (\<lambda>c. c \<noteq> CHR ''='') kv, tl (dropWhile (\<lambda>c. c \<noteq> CHR ''='') kv)) # svt_extra kvs
      else svt_extra kvs)"

text \<open>
  \<open>svt_shim_open\<close>: the encoder or NULL, the error buffer and the releases. \<open>extra\<close> is
  \<open>None\<close> for a NULL pointer. The copy that \<open>strdup\<close> makes of it is not tested: without memory
  \<open>strtok_r\<close> gets NULL for the string and for its saved position, which is undefined.
\<close>

definition svt_shim_open ::
  "('h, 'c) svt_api \<Rightarrow> bool \<Rightarrow> bool \<Rightarrow> int \<Rightarrow> int \<Rightarrow> int \<Rightarrow> int \<Rightarrow> int \<Rightarrow> int \<Rightarrow> int \<Rightarrow> int \<Rightarrow> int \<Rightarrow> string option \<Rightarrow> string \<Rightarrow> int \<Rightarrow>
   ('h svt_shim option \<times> string \<times> svt_call list) option" where
  "svt_shim_open api calloc_ok strdup_ok w h fps kbps preset screen lp min_q max_q extra ebuf errlen =
     (if \<not> calloc_ok then Some (None, ebuf, [])
      else
        let (e, hnd, cfg) = init_handle api in
        if e \<noteq> EB_ErrorNone then Some (None, write_err ebuf errlen ''svt_av1_enc_init_handle failed'', [])
        else
          let cfg = cfg\<lparr>source_width := u32 w, source_height := u32 h, frame_rate_numerator := u32 fps,
                frame_rate_denominator := 1, encoder_bit_depth := 8\<rparr>;
              (r, cfg, ebuf) = svt_set_all api cfg (svt_defaults kbps preset screen lp min_q max_q) ebuf errlen in
          if r \<noteq> 0 then Some (None, ebuf, [Deinit_handle])
          else do {
            (r, cfg, ebuf) \<leftarrow>
              (case extra of
                 Some x \<Rightarrow>
                   if x \<noteq> [] then
                     if strdup_ok then Some (svt_set_all api cfg (svt_extra (strtok_all CHR '';'' x [])) ebuf errlen) else None
                   else Some (0, cfg, ebuf)
               | None \<Rightarrow> Some (0, cfg, ebuf));
            if r \<noteq> 0 then Some (None, ebuf, [Deinit_handle])
            else
              let (e, hnd) = set_parameter api hnd cfg in
              if e \<noteq> EB_ErrorNone then Some (None, write_err ebuf errlen ''svt_av1_enc_set_parameter failed'', [Deinit_handle])
              else
                let (e, hnd) = enc_init api hnd in
                if e \<noteq> EB_ErrorNone then Some (None, write_err ebuf errlen ''svt_av1_enc_init failed'', [Deinit_handle])
                else Some (Some \<lparr>handle = hnd, sv_w = w, sv_h = h, sv_out = [], sv_out_cap = 0\<rparr>, ebuf, [])
          })"

definition int_range :: "int \<Rightarrow> bool" where "int_range x \<longleftrightarrow> - (2 ^ 31) \<le> x \<and> x < 2 ^ 31"

text \<open>The signed products and sum of \<open>n_filled_len\<close>, undefined when one overflows. C's
  division truncates.\<close>

definition svt_filled_len :: "int \<Rightarrow> int \<Rightarrow> int \<Rightarrow> int option" where
  "svt_filled_len y_stride uv_stride h =
     (let luma = y_stride * h;
          half = (if h < 0 then - (- h div 2) else h div 2);
          c1 = uv_stride * half;
          c2 = c1 * 2 in
      if int_range luma \<and> int_range c1 \<and> int_range c2 \<and> int_range (luma + c2) then Some (u32 (luma + c2)) else None)"

text \<open>
  \<open>svt_shim_encode\<close>: the return value, what \<open>out\<close>, \<open>out_len\<close> and \<open>is_key\<close> point to when
  they are written, the wrapper and its releases.
\<close>

definition svt_shim_encode ::
  "('h, 'c) svt_api \<Rightarrow> allocator \<Rightarrow> 'h svt_shim \<Rightarrow> int \<Rightarrow> int \<Rightarrow> int \<Rightarrow> int \<Rightarrow> int \<Rightarrow> int \<Rightarrow> int \<Rightarrow>
   (int \<times> (int list \<times> int \<times> int) option \<times> 'h svt_shim \<times> svt_call list) option" where
  "svt_shim_encode api al s y u v y_stride uv_stride pts force_kf =
     (case svt_filled_len y_stride uv_stride (sv_h s) of
        None \<Rightarrow> None
      | Some n \<Rightarrow>
          let pic = \<lparr>in_planes = [y, u, v], in_strides = [u32 y_stride, u32 uv_stride, u32 uv_stride], n_filled_len = n,
                in_pts = pts, in_key = (force_kf \<noteq> 0), in_eos = False\<rparr>;
              (e, hnd) = send_picture api (handle s) pic;
              s = s\<lparr>handle := hnd\<rparr> in
          if e \<noteq> EB_ErrorNone then Some (-1, None, s, [])
          else
            let (ret, pkt, hnd) = get_packet api (handle s) False;
                s = s\<lparr>handle := hnd\<rparr> in
            case pkt of
              None \<Rightarrow> Some (0, Some (sv_out s, 0, 0), s, [])
            | Some k \<Rightarrow>
                if ret = EB_NoErrorEmptyQueue then Some (0, Some (sv_out s, 0, 0), s, [])
                else if ret \<noteq> EB_ErrorNone then Some (-1, None, s, [])
                else
                  let len = int (length (sp_bytes k));
                      grow = len > sv_out_cap s in
                  case (if grow then realloc_bytes al (sv_out s) (u64 (len * 2)) else Some (sv_out s)) of
                    None \<Rightarrow> Some (-1, None, s, [Release_out_buffer k])
                  | Some buf \<Rightarrow>
                      let s = (if grow then s\<lparr>sv_out := buf, sv_out_cap := u64 (len * 2)\<rparr> else s) in
                      map_option (\<lambda>out. (0, Some (out, len, if sp_key k then 1 else 0), s\<lparr>sv_out := out\<rparr>, [Release_out_buffer k]))
                        (memcpy_at buf 0 (sp_bytes k)))"

text \<open>The drain loop of \<open>svt_shim_close\<close>: the packets released, in order.\<close>

partial_function (option) svt_drain :: "('h, 'c) svt_api \<Rightarrow> 'h \<Rightarrow> svt_call list \<Rightarrow> ('h \<times> svt_call list) option" where
  "svt_drain api hnd calls =
     (case get_packet api hnd True of
        (e, pkt, hnd') \<Rightarrow>
          (case pkt of
             None \<Rightarrow> Some (hnd', calls)
           | Some k \<Rightarrow>
               if e \<noteq> EB_ErrorNone then Some (hnd', calls)
               else if sp_eos k then Some (hnd', calls @ [Release_out_buffer k])
               else svt_drain api hnd' (calls @ [Release_out_buffer k])))"

definition svt_shim_close :: "('h, 'c) svt_api \<Rightarrow> 'h svt_shim option \<Rightarrow> svt_call list option" where
  "svt_shim_close api s =
     (case s of
        None \<Rightarrow> Some []
      | Some s \<Rightarrow>
          let eos = \<lparr>in_planes = [], in_strides = [], n_filled_len = 0, in_pts = 0, in_key = False, in_eos = True\<rparr>;
              (e, hnd) = send_picture api (handle s) eos in
          case (if e = EB_ErrorNone then svt_drain api hnd [] else Some (hnd, [])) of
            None \<Rightarrow> None
          | Some (hnd, calls) \<Rightarrow> Some (calls @ [Deinit, Deinit_handle, Free_out (sv_out s)]))"

section \<open>Parameters\<close>

text \<open>The specification of the parameter phase: the configuration after all parameters, or the
  first one the library refuses.\<close>

fun parse_all :: "('h, 'c) svt_api \<Rightarrow> 'c svt_config \<Rightarrow> (string \<times> string) list \<Rightarrow> (string \<times> string) + 'c svt_config" where
  "parse_all api cfg [] = Inr cfg"
| "parse_all api cfg ((n, v) # ps) =
     (case parse_parameter api cfg n v of (e, cfg') \<Rightarrow> if e = EB_ErrorNone then parse_all api cfg' ps else Inl (n, v))"

lemma parse_all_append:
  "parse_all api cfg (ps @ qs) = (case parse_all api cfg ps of Inl p \<Rightarrow> Inl p | Inr cfg' \<Rightarrow> parse_all api cfg' qs)"
  by (induction ps arbitrary: cfg) (auto split: prod.splits)

lemma svt_set_all_spec:
  "case parse_all api cfg ps of
     Inr cfg' \<Rightarrow> svt_set_all api cfg ps ebuf errlen = (0, cfg', ebuf)
   | Inl (n, v) \<Rightarrow> \<exists>cfg'. svt_set_all api cfg ps ebuf errlen =
       (-1, cfg', write_err ebuf errlen (''svt: parameter '' @ n @ ''='' @ v @ '' refused''))"
proof (induction ps arbitrary: cfg)
  case (Cons p ps)
  obtain n v where p: "p = (n, v)" by fastforce
  obtain e cfg' where e: "parse_parameter api cfg n v = (e, cfg')" by fastforce
  have s: "svt_set_all api cfg (p # ps) ebuf errlen = (if e = EB_ErrorNone then svt_set_all api cfg' ps ebuf errlen
      else (-1, cfg', write_err ebuf errlen (''svt: parameter '' @ n @ ''='' @ v @ '' refused'')))"
    using e by (simp add: p svt_set_def)
  have "parse_all api cfg (p # ps) = (if e = EB_ErrorNone then parse_all api cfg' ps else Inl (n, v))"
    using e by (simp add: p)
  then show ?case using Cons.IH [of cfg'] unfolding s by (simp del: parse_all.simps)
qed simp

text \<open>The text of \<open>extra\<close>, and the parameters it stands for.\<close>

definition extra_text :: "string option \<Rightarrow> string" where
  "extra_text extra = (case extra of None \<Rightarrow> [] | Some x \<Rightarrow> x)"

definition extra_params :: "string option \<Rightarrow> (string \<times> string) list" where
  "extra_params extra = svt_extra (strtok_all CHR '';'' (extra_text extra) [])"

definition param_refused :: "string \<Rightarrow> int \<Rightarrow> string \<times> string \<Rightarrow> string" where
  "param_refused ebuf errlen p = write_err ebuf errlen (''svt: parameter '' @ fst p @ ''='' @ snd p @ '' refused'')"

text \<open>What becomes of the encoder once its configuration is complete.\<close>

definition svt_start :: "('h, 'c) svt_api \<Rightarrow> 'h \<Rightarrow> 'c svt_config \<Rightarrow> string + 'h" where
  "svt_start api h0 cfg =
     (case set_parameter api h0 cfg of (e1, h1) \<Rightarrow>
        if e1 \<noteq> EB_ErrorNone then Inl ''svt_av1_enc_set_parameter failed''
        else case enc_init api h1 of (e2, h2) \<Rightarrow> if e2 \<noteq> EB_ErrorNone then Inl ''svt_av1_enc_init failed'' else Inr h2)"

lemma svt_set_all_parse:
  "parse_all api cfg ps = Inr cfg' \<Longrightarrow> svt_set_all api cfg ps ebuf errlen = (0, cfg', ebuf)"
  "parse_all api cfg ps = Inl p \<Longrightarrow> \<exists>cfg'. svt_set_all api cfg ps ebuf errlen = (-1, cfg', param_refused ebuf errlen p)"
  using svt_set_all_spec [of api cfg ps ebuf errlen] by (auto simp: param_refused_def split: prod.splits)

text \<open>C35. Opening the SVT encoder, for every answer of the library and of the allocator. Without memory
  for the wrapper it returns NULL, and when the library gives no handle NULL with that message; nothing
  is released. Otherwise the default parameters are applied in order, then those of \<open>extra\<close>; the first
  refused one is named in the error text. The result is an encoder exactly when all are accepted,
  and so are the configuration and the start; otherwise it is NULL with the refused call
  named. On each of these failures the handle is released exactly once. There is no result, the
  behaviour is undefined, exactly when the defaults are accepted, \<open>extra\<close> is not empty and \<open>strdup\<close>
  fails.\<close>

theorem svt_open_spec:
  "svt_shim_open api calloc_ok strdup_ok w h fps kbps preset screen lp min_q max_q extra ebuf errlen =
    (if \<not> calloc_ok then Some (None, ebuf, [])
     else case init_handle api of (e, h0, cfg0) \<Rightarrow>
       if e \<noteq> EB_ErrorNone then Some (None, write_err ebuf errlen ''svt_av1_enc_init_handle failed'', [])
       else case parse_all api (cfg0\<lparr>source_width := u32 w, source_height := u32 h, frame_rate_numerator := u32 fps,
           frame_rate_denominator := 1, encoder_bit_depth := 8\<rparr>) (svt_defaults kbps preset screen lp min_q max_q) of
         Inl p \<Rightarrow> Some (None, param_refused ebuf errlen p, [Deinit_handle])
       | Inr cfg1 \<Rightarrow>
           if extra_text extra \<noteq> [] \<and> \<not> strdup_ok then None
           else case parse_all api cfg1 (extra_params extra) of
             Inl p \<Rightarrow> Some (None, param_refused ebuf errlen p, [Deinit_handle])
           | Inr cfg2 \<Rightarrow>
               (case svt_start api h0 cfg2 of
                  Inl msg \<Rightarrow> Some (None, write_err ebuf errlen msg, [Deinit_handle])
                | Inr h2 \<Rightarrow> Some (Some \<lparr>handle = h2, sv_w = w, sv_h = h, sv_out = [], sv_out_cap = 0\<rparr>, ebuf, [])))"
proof -
  obtain e h0 cfg0 where i: "init_handle api = (e, h0, cfg0)" by (metis prod.exhaust)
  let ?cfg = "cfg0\<lparr>source_width := u32 w, source_height := u32 h, frame_rate_numerator := u32 fps,
        frame_rate_denominator := 1, encoder_bit_depth := 8\<rparr>"
  let ?ds = "svt_defaults kbps preset screen lp min_q max_q"
  show ?thesis
  proof (cases "parse_all api ?cfg ?ds")
    case (Inl p)
    then show ?thesis using svt_set_all_parse(2) [OF Inl, of ebuf errlen] i by (auto simp: svt_shim_open_def)
  next
    case (Inr cfg1)
    define step where "step = (if extra_text extra \<noteq> [] \<and> \<not> strdup_ok then None
      else Some (svt_set_all api cfg1 (extra_params extra) ebuf errlen))"
    have "(case extra of
         Some x \<Rightarrow> if x \<noteq> [] then if strdup_ok then Some (svt_set_all api cfg1 (svt_extra (strtok_all CHR '';'' x [])) ebuf errlen) else None
                   else Some (0, cfg1, ebuf)
       | None \<Rightarrow> Some (0, cfg1, ebuf)) = step"
      by (auto simp: step_def extra_text_def extra_params_def split: option.splits)
    then have eq: "svt_shim_open api True strdup_ok w h fps kbps preset screen lp min_q max_q extra ebuf errlen = Option.bind step (\<lambda>(r, cfg, ebuf).
        if r \<noteq> 0 then Some (None, ebuf, [Deinit_handle])
        else case svt_start api h0 cfg of
            Inl msg \<Rightarrow> Some (None, write_err ebuf errlen msg, [Deinit_handle])
          | Inr h2 \<Rightarrow> Some (Some \<lparr>handle = h2, sv_w = w, sv_h = h, sv_out = [], sv_out_cap = 0\<rparr>, ebuf, []))" if "e = EB_ErrorNone"
      using svt_set_all_parse(1) [OF Inr, of ebuf errlen] i that
      by (auto simp: svt_shim_open_def svt_start_def Let_def intro!: Option.bind_cong split: prod.splits)
    show ?thesis
    proof (cases "calloc_ok \<and> e = EB_ErrorNone")
      case True
      show ?thesis
      proof (cases "parse_all api cfg1 (extra_params extra)")
        case x: (Inl p)
        then show ?thesis using True i Inr eq svt_set_all_parse(2) [OF x, of ebuf errlen] by (auto simp: step_def)
      next
        case x: (Inr cfg2)
        then show ?thesis using True i Inr eq svt_set_all_parse(1) [OF x, of ebuf errlen] by (auto simp: step_def)
      qed
    qed (use i in \<open>auto simp: svt_shim_open_def\<close>)
  qed
qed

text \<open>A library for the witnesses: the handle is the list of packets it will hand out; the
  parameter \<open>scd\<close> is refused when \<open>strict\<close>.\<close>

definition sample_cfg :: "unit svt_config" where
  "sample_cfg = \<lparr>source_width = 0, source_height = 0, frame_rate_numerator = 0, frame_rate_denominator = 0,
     encoder_bit_depth = 0, cfg_rest = ()\<rparr>"

definition sample_svt :: "bool \<Rightarrow> svt_packet list \<Rightarrow> (svt_packet list, unit) svt_api" where
  "sample_svt strict ks = \<lparr>init_handle = (EB_ErrorNone, ks, sample_cfg),
     parse_parameter = \<lambda>c n v. (if strict \<and> n = ''scd'' then EB_Error 1 else EB_ErrorNone, c),
     set_parameter = \<lambda>h c. (EB_ErrorNone, h), enc_init = \<lambda>h. (EB_ErrorNone, h),
     send_picture = \<lambda>h i. (EB_ErrorNone, h),
     get_packet = \<lambda>h fin. (case h of [] \<Rightarrow> (EB_NoErrorEmptyQueue, None, []) | k # ks \<Rightarrow> (EB_ErrorNone, Some k, ks))\<rparr>"

theorem svt_open_spec_witness:
  "svt_shim_open (sample_svt True []) True True 16 16 30 500 12 1 4 2 56 (Some ''lp=1'') [] 64 =
      Some (None, ''svt: parameter scd=0 refused'', [Deinit_handle]) \<and>
   svt_shim_open (sample_svt False []) True False 16 16 30 500 12 1 4 2 56 (Some ''lp=1'') [] 64 = None \<and>
   svt_shim_open (sample_svt False []) True False 16 16 30 500 12 1 4 2 56 None [] 64 =
      Some (Some \<lparr>handle = [], sv_w = 16, sv_h = 16, sv_out = [], sv_out_cap = 0\<rparr>, [], [])"
proof -
  have z: "snprintf 32 (show_int 0) = ''0''" by code_simp
  have i: "init_handle (sample_svt b []) = (EB_ErrorNone, [], sample_cfg)" for b by (simp add: sample_svt_def)
  have strict: "parse_all (sample_svt True []) cfg (svt_defaults 500 12 1 4 2 56) = Inl (''scd'', snprintf 32 (show_int 0))" for cfg
    by (simp add: svt_defaults_def sample_svt_def)
  have "parse_all (sample_svt False []) cfg ps = Inr cfg" for cfg ps
    by (induction ps) (auto simp: sample_svt_def)
  moreover have "svt_start (sample_svt False []) [] cfg = Inr []" for cfg by (simp add: svt_start_def sample_svt_def)
  moreover have "param_refused [] 64 (''scd'', ''0'') = ''svt: parameter scd=0 refused''"
    by (simp add: param_refused_def write_err_def snprintf_def u64_def)
  ultimately show ?thesis unfolding svt_open_spec by (simp add: i strict z extra_text_def)
qed

text \<open>The text form of a list of parameters, as the bench's command line has it.\<close>

fun join_params :: "(string \<times> string) list \<Rightarrow> string" where
  "join_params [] = []"
| "join_params [(n, v)] = n @ ''='' @ v"
| "join_params ((n, v) # ps) = n @ ''='' @ v @ '';'' @ join_params ps"

lemma strtok_all_plain: "CHR '';'' \<notin> set xs \<Longrightarrow> strtok_all CHR '';'' (xs @ ys) cur = strtok_all CHR '';'' ys (cur @ xs)"
  by (induction xs arbitrary: cur) auto

lemma svt_extra_one:
  "CHR ''='' \<notin> set n \<Longrightarrow> svt_extra ((n @ CHR ''='' # v) # kvs) = (n, v) # svt_extra kvs"
  by (simp add: takeWhile_append dropWhile_append)

text \<open>C36. The extra parameters. A list of names and values written as \<open>name=value;name=value\<close> is
  parsed back to the same list, in the same order, as long as no name has an equals sign or a
  semicolon and no value a semicolon. Values may hold equals signs, names and values may be
  empty.\<close>

theorem svt_extra_roundtrip:
  assumes "list_all (\<lambda>(n, v). CHR ''='' \<notin> set n \<and> CHR '';'' \<notin> set n \<and> CHR '';'' \<notin> set v) ps"
  shows "svt_extra (strtok_all CHR '';'' (join_params ps) []) = ps"
  using assms
proof (induction ps rule: join_params.induct)
  case (2 n v)
  have "strtok_all CHR '';'' (n @ ''='' @ v) [] = [n @ CHR ''='' # v]"
    using strtok_all_plain [of "n @ ''='' @ v" "[]" "[]"] 2 by simp
  then show ?case using 2 svt_extra_one by simp
next
  case (3 n v p ps)
  have "strtok_all CHR '';'' (join_params ((n, v) # p # ps)) [] = (n @ CHR ''='' # v) # strtok_all CHR '';'' (join_params (p # ps)) []"
    using strtok_all_plain [of "n @ ''='' @ v" "'';'' @ join_params (p # ps)" "[]"] 3(2) by simp
  then show ?case using 3 svt_extra_one by simp
qed simp

theorem svt_extra_roundtrip_witness:
  "svt_extra (strtok_all CHR '';'' ''lp=4;tile=a=b;keyint='' []) = [(''lp'', ''4''), (''tile'', ''a=b''), (''keyint'', '''')]"
  using svt_extra_roundtrip [of "[(''lp'', ''4''), (''tile'', ''a=b''), (''keyint'', '''')]"] by simp

section \<open>Encoding and closing\<close>

definition svt_buf_ok :: "'h svt_shim \<Rightarrow> bool" where
  "svt_buf_ok s \<longleftrightarrow> int (length (sv_out s)) = sv_out_cap s"

text \<open>What the library does with one picture: its verdict on the picture, then its answer.\<close>

definition svt_answer :: "('h, 'c) svt_api \<Rightarrow> 'h svt_shim \<Rightarrow> svt_input \<Rightarrow> EbErrorType \<times> EbErrorType \<times> svt_packet option" where
  "svt_answer api s pic =
     (case send_picture api (handle s) pic of (e, h1) \<Rightarrow> case get_packet api h1 False of (ret, pkt, h2) \<Rightarrow> (e, ret, pkt))"

definition svt_picture :: "int \<Rightarrow> int \<Rightarrow> int \<Rightarrow> int \<Rightarrow> int \<Rightarrow> int \<Rightarrow> int \<Rightarrow> int \<Rightarrow> svt_input" where
  "svt_picture n y u v y_stride uv_stride pts force_kf =
     \<lparr>in_planes = [y, u, v], in_strides = [u32 y_stride, u32 uv_stride, u32 uv_stride], n_filled_len = n,
      in_pts = pts, in_key = (force_kf \<noteq> 0), in_eos = False\<rparr>"

text \<open>C37. Encoding through SVT, for every answer of the library. A picture the library refuses is -1.
  A packet with status \<open>EB_ErrorNone\<close> is released exactly once; its bytes, length and key flag are
  returned with 0, or -1 when the output buffer has to grow and the memory for twice the length
  is refused. Without a packet, whatever the status, and with an empty queue the result is 0
  with length 0, so a failure that hands out no packet looks like a dropped picture. A packet with
  an error status is -1 and is not released. The output buffer stays consistent with its
  capacity, and no store leaves it.\<close>

theorem svt_encode_result:
  assumes n: "svt_filled_len y_stride uv_stride (sv_h s) = Some n" and ok: "svt_buf_ok s"
    and a: "svt_answer api s (svt_picture n y u v y_stride uv_stride pts force_kf) = (e, ret, pkt)"
    and small: "\<forall>k. pkt = Some k \<longrightarrow> int (length (sp_bytes k)) < 2 ^ 62"
  shows "\<exists>r outs s' calls. svt_shim_encode api al s y u v y_stride uv_stride pts force_kf = Some (r, outs, s', calls) \<and>
    svt_buf_ok s' \<and> sv_h s' = sv_h s \<and> sv_w s' = sv_w s \<and>
    (if e \<noteq> EB_ErrorNone then r = -1 \<and> outs = None \<and> calls = []
     else case pkt of
       None \<Rightarrow> r = 0 \<and> outs = Some (sv_out s, 0, 0) \<and> calls = []
     | Some k \<Rightarrow>
         if ret = EB_NoErrorEmptyQueue then r = 0 \<and> outs = Some (sv_out s, 0, 0) \<and> calls = []
         else if ret \<noteq> EB_ErrorNone then r = -1 \<and> outs = None \<and> calls = []
         else calls = [Release_out_buffer k] \<and>
           (if sv_out_cap s < int (length (sp_bytes k)) \<and> \<not> alloc_ok al (int (length (sp_bytes k)) * 2)
            then r = -1 \<and> outs = None
            else r = 0 \<and> outs = Some (sv_out s', int (length (sp_bytes k)), if sp_key k then 1 else 0) \<and>
              take (length (sp_bytes k)) (sv_out s') = sp_bytes k))"
proof -
  obtain h1 where h1: "send_picture api (handle s) (svt_picture n y u v y_stride uv_stride pts force_kf) = (e, h1)"
    and "\<exists>h2. get_packet api h1 False = (ret, pkt, h2)"
    using a by (auto simp: svt_answer_def split: prod.splits)
  then obtain h2 where h2: "get_packet api h1 False = (ret, pkt, h2)" by blast
  show ?thesis
  proof (cases "e = EB_ErrorNone \<and> ret = EB_ErrorNone \<and> pkt \<noteq> None")
    case False
    then show ?thesis using n ok h1 h2
      by (auto simp: svt_shim_encode_def Let_def svt_picture_def svt_buf_ok_def split: option.splits)
  next
    case True
    then obtain k where k: "pkt = Some k" by blast
    define len where "len = int (length (sp_bytes k))"
    have l: "len < 2 ^ 62" "u64 (len * 2) = len * 2" "nat (len * 2) = 2 * length (sp_bytes k)"
      using small k by (auto simp: len_def u64_def)
    define s1 where "s1 = s\<lparr>handle := h2\<rparr>"
    have eq: "svt_shim_encode api al s y u v y_stride uv_stride pts force_kf =
       (case (if len > sv_out_cap s then realloc_bytes al (sv_out s) (len * 2) else Some (sv_out s)) of
          None \<Rightarrow> Some (-1, None, s1, [Release_out_buffer k])
        | Some buf \<Rightarrow>
            map_option (\<lambda>out. (0, Some (out, len, if sp_key k then 1 else 0),
               (if len > sv_out_cap s then s1\<lparr>sv_out := buf, sv_out_cap := len * 2\<rparr> else s1)\<lparr>sv_out := out\<rparr>, [Release_out_buffer k]))
              (memcpy_at buf 0 (sp_bytes k)))"
      using n h1 h2 True k l
      by (simp add: svt_shim_encode_def Let_def svt_picture_def s1_def flip: len_def split: option.splits)
    show ?thesis
    proof (cases "len > sv_out_cap s")
      case True
      note big = True
      show ?thesis
      proof (cases "alloc_ok al (len * 2)")
        case False
        then show ?thesis using big \<open>e = EB_ErrorNone \<and> _\<close> k ok unfolding eq
          by (auto simp: realloc_bytes_def s1_def svt_buf_ok_def len_def)
      next
        case al: True
        have "length (take (2 * length (sp_bytes k)) (sv_out s) @
            replicate (2 * length (sp_bytes k) - length (sv_out s)) (alloc_junk al)) = 2 * length (sp_bytes k)"
          using big ok by (simp add: svt_buf_ok_def len_def)
        then show ?thesis using al big \<open>e = EB_ErrorNone \<and> _\<close> k l(3) unfolding eq
          by (auto simp: realloc_bytes_def s1_def svt_buf_ok_def memcpy_at_def len_def)
      qed
    next
      case False
      then show ?thesis using \<open>e = EB_ErrorNone \<and> _\<close> k ok unfolding eq
        by (auto simp: s1_def svt_buf_ok_def memcpy_at_def len_def)
    qed
  qed
qed

definition sample_svt_pkt :: svt_packet where
  "sample_svt_pkt = \<lparr>sp_bytes = [10, 20, 30], sp_key = True, sp_eos = False\<rparr>"

definition sample_svt_shim :: "svt_packet list svt_shim" where
  "sample_svt_shim = \<lparr>handle = [sample_svt_pkt], sv_w = 16, sv_h = 16, sv_out = [], sv_out_cap = 0\<rparr>"

theorem svt_encode_result_witness:
  "\<exists>buf s'. svt_shim_encode (sample_svt False []) sample_alloc sample_svt_shim 4096 8192 9000 16 8 0 1 =
    Some (0, Some (buf, 3, 1), s', [Release_out_buffer sample_svt_pkt]) \<and> take 3 buf = [10, 20, 30]"
proof -
  have n: "svt_filled_len 16 8 (sv_h sample_svt_shim) = Some 384"
    by (simp add: svt_filled_len_def sample_svt_shim_def int_range_def u32_def)
  have ok: "svt_buf_ok sample_svt_shim" by (simp add: svt_buf_ok_def sample_svt_shim_def)
  have a: "svt_answer (sample_svt False []) sample_svt_shim (svt_picture 384 4096 8192 9000 16 8 0 1) =
      (EB_ErrorNone, EB_ErrorNone, Some sample_svt_pkt)"
    by (simp add: svt_answer_def sample_svt_def sample_svt_shim_def)
  have len: "length (sp_bytes sample_svt_pkt) = 3" "sp_key sample_svt_pkt" "sp_bytes sample_svt_pkt = [10, 20, 30]"
    by (simp_all add: sample_svt_pkt_def)
  show ?thesis
    using svt_encode_result [OF n ok a, of sample_alloc] len by (auto simp: sample_alloc_def numeral_3_eq_3)
qed

text \<open>The packets the library hands out while it is drained: those with status \<open>EB_ErrorNone\<close>, up to the
  one that ends the stream or until the library has none or fails, and the packet, if any, that it
  hands out with an error status.\<close>

inductive packets_until :: "('h, 'c) svt_api \<Rightarrow> 'h \<Rightarrow> svt_packet list \<Rightarrow> svt_packet option \<Rightarrow> bool" for api where
  drained: "get_packet api h True = (e, None, h') \<Longrightarrow> packets_until api h [] None"
| failed: "get_packet api h True = (e, Some k, h') \<Longrightarrow> e \<noteq> EB_ErrorNone \<Longrightarrow> packets_until api h [] (Some k)"
| last_packet: "get_packet api h True = (EB_ErrorNone, Some k, h') \<Longrightarrow> sp_eos k \<Longrightarrow> packets_until api h [k] None"
| next_packet: "get_packet api h True = (EB_ErrorNone, Some k, h1) \<Longrightarrow> \<not> sp_eos k \<Longrightarrow> packets_until api h1 ks bad \<Longrightarrow>
    packets_until api h (k # ks) bad"

lemma svt_drain_correct:
  "packets_until api h ks bad \<Longrightarrow> \<exists>h'. svt_drain api h calls = Some (h', calls @ map Release_out_buffer ks)"
proof (induction arbitrary: calls rule: packets_until.induct)
  case (next_packet h k h1 ks bad)
  then show ?case using next_packet.IH [of "calls @ [Release_out_buffer k]"] by (subst svt_drain.simps) simp
qed (subst svt_drain.simps, simp)+

text \<open>C39. Closing the SVT encoder. When the library takes the end of stream and the packets it then
  hands out with success are \<open>ks\<close>, finitely many, \<open>svt_shim_close\<close> returns, having released each of them
  once, in order, and then the encoder, its handle and the output buffer, each once. A packet handed
  out with an error status (\<open>bad\<close>) ends the drain and is not released. When the library refuses the end
  of stream nothing is drained and the rest is released all the same.\<close>

theorem svt_close_releases:
  assumes "send_picture api (handle s) \<lparr>in_planes = [], in_strides = [], n_filled_len = 0, in_pts = 0, in_key = False,
      in_eos = True\<rparr> = (e, h1)"
    and "packets_until api h1 ks bad"
  shows "svt_shim_close api (Some s) = Some (map Release_out_buffer (if e = EB_ErrorNone then ks else []) @
    [Deinit, Deinit_handle, Free_out (sv_out s)])"
  using assms svt_drain_correct [OF assms(2), of "[]"] by (auto simp: svt_shim_close_def Let_def)

text \<open>A library that hands out one packet with success and the next with an error status.\<close>

definition failing_svt :: "(nat, unit) svt_api" where
  "failing_svt = \<lparr>init_handle = (EB_ErrorNone, 0, sample_cfg), parse_parameter = \<lambda>c n v. (EB_ErrorNone, c),
     set_parameter = \<lambda>h c. (EB_ErrorNone, h), enc_init = \<lambda>h. (EB_ErrorNone, h), send_picture = \<lambda>h i. (EB_ErrorNone, h),
     get_packet = \<lambda>h fin. (if h = 0 then EB_ErrorNone else EB_Error 7, Some sample_svt_pkt, Suc h)\<rparr>"

theorem svt_close_releases_witness:
  "svt_shim_close (sample_svt False []) (Some sample_svt_shim) =
     Some [Release_out_buffer sample_svt_pkt, Deinit, Deinit_handle, Free_out []] \<and>
   packets_until failing_svt 0 [sample_svt_pkt] (Some sample_svt_pkt) \<and>
   svt_shim_close failing_svt (Some \<lparr>handle = 0, sv_w = 16, sv_h = 16, sv_out = [], sv_out_cap = 0\<rparr>) =
     Some [Release_out_buffer sample_svt_pkt, Deinit, Deinit_handle, Free_out []]"
proof -
  have p: "packets_until (sample_svt False []) [sample_svt_pkt] [sample_svt_pkt] None"
    by (rule next_packet, simp add: sample_svt_def, simp add: sample_svt_pkt_def, rule drained, simp add: sample_svt_def)
  have q: "packets_until failing_svt 0 [sample_svt_pkt] (Some sample_svt_pkt)"
    by (rule next_packet [where ?h1.0 = 1], simp add: failing_svt_def, simp add: sample_svt_pkt_def,
        rule failed [where e = "EB_Error 7"], simp_all add: failing_svt_def)
  from svt_close_releases [OF _ p, of sample_svt_shim EB_ErrorNone] svt_close_releases [OF _ q, of _ EB_ErrorNone] q
  show ?thesis by (simp add: sample_svt_def sample_svt_shim_def failing_svt_def)
qed

end
