(* ===== verification/Obu.thy ===== *)
theory Obu
  imports Leb128 Bit_Buffer Aom_Codec
begin

text \<open>
  Open bitstream units: the parser of OBU headers and sizes (\<open>av1/common/obu_util.c\<close>), the
  encoder's writers of them (\<open>av1/encoder/bitstream.c\<close>) and the decoder's helpers on
  operating points and padding (\<open>av1/decoder/obu.c\<close>). Bytes are \<open>int\<close>s; the LEB128 functions
  take them as \<open>nat\<close>s. A store outside a buffer is \<open>None\<close>; a parser that fails returns its
  error code and leaves its out parameters undefined.
\<close>

section \<open>Parsing\<close>

record ObuHeader =
  oh_size :: nat
  oh_type :: int
  oh_has_size_field :: int
  oh_has_extension :: int
  oh_temporal_layer_id :: int
  oh_spatial_layer_id :: int

definition read_obu_size :: "int list \<Rightarrow> aom_codec_err + nat \<times> nat" where
  "read_obu_size data =
     (case aom_uleb_decode (Some (map nat data)) True True of
        (rc, v, len) \<Rightarrow>
          if rc \<noteq> 0 then Inl AOM_CODEC_CORRUPT_FRAME
          else if the v > 4294967295 then Inl AOM_CODEC_CORRUPT_FRAME
          else Inr (the v, the len))"

definition read_obu_header :: "aom_read_bit_buffer \<Rightarrow> bool \<Rightarrow> aom_codec_err + ObuHeader" where
  "read_obu_header rb is_annexb =
     (let byte_length = length (rb_bit_buffer rb) in
      if byte_length < 1 then Inl AOM_CODEC_CORRUPT_FRAME
      else
        let (forbidden, rb) = aom_rb_read_bit rb in
        if forbidden \<noteq> 0 then Inl AOM_CODEC_CORRUPT_FRAME
        else
          let (typ, rb) = aom_rb_read_literal rb 4;
              (has_extension, rb) = aom_rb_read_bit rb;
              (has_size_field, rb) = aom_rb_read_bit rb in
          if has_size_field = 0 \<and> \<not> is_annexb then Inl AOM_CODEC_UNSUP_BITSTREAM
          else
            let (_, rb) = aom_rb_read_bit rb in
            if has_extension \<noteq> 0 then
              if byte_length = 1 then Inl AOM_CODEC_CORRUPT_FRAME
              else
                let (tl_id, rb) = aom_rb_read_literal rb 3;
                    (sl_id, rb) = aom_rb_read_literal rb 2;
                    (_, rb) = aom_rb_read_literal rb 3 in
                Inr \<lparr>oh_size = 2, oh_type = typ, oh_has_size_field = has_size_field, oh_has_extension = has_extension,
                     oh_temporal_layer_id = tl_id, oh_spatial_layer_id = sl_id\<rparr>
            else
              Inr \<lparr>oh_size = 1, oh_type = typ, oh_has_size_field = has_size_field, oh_has_extension = has_extension,
                   oh_temporal_layer_id = 0, oh_spatial_layer_id = 0\<rparr>)"

definition obu_reader :: "int list \<Rightarrow> aom_read_bit_buffer" where
  "obu_reader data = \<lparr>rb_bit_buffer = data, rb_bit_offset = 0, rb_error_handler = False, rb_errors = 0\<rparr>"

definition aom_read_obu_header :: "int list \<Rightarrow> bool \<Rightarrow> aom_codec_err + nat \<times> ObuHeader" where
  "aom_read_obu_header buffer is_annexb =
     (if length buffer < 1 then Inl AOM_CODEC_INVALID_PARAM
      else case read_obu_header (obu_reader buffer) is_annexb of
          Inl e \<Rightarrow> Inl e
        | Inr header \<Rightarrow> Inr (oh_size header, header))"

definition aom_read_obu_header_and_size :: "int list \<Rightarrow> bool \<Rightarrow> aom_codec_err + ObuHeader \<times> nat \<times> nat" where
  "aom_read_obu_header_and_size data is_annexb =
     (case (if is_annexb then read_obu_size data else Inr (0, 0)) of
        Inl e \<Rightarrow> Inl e
      | Inr (obu_size, len1) \<Rightarrow>
          (case read_obu_header (obu_reader (drop len1 data)) is_annexb of
             Inl e \<Rightarrow> Inl e
           | Inr header \<Rightarrow>
               if oh_has_size_field header = 0 then
                 if obu_size < oh_size header then Inl AOM_CODEC_CORRUPT_FRAME
                 else Inr (header, obu_size - oh_size header, len1 + oh_size header)
               else
                 (case read_obu_size (drop (len1 + oh_size header) data) of
                    Inl e \<Rightarrow> Inl e
                  | Inr (payload_size, len2) \<Rightarrow> Inr (header, payload_size, len1 + oh_size header + len2))))"

definition aom_get_num_layers_from_operating_point_idc :: "int \<Rightarrow> int \<times> int" where
  "aom_get_num_layers_from_operating_point_idc idc =
     (if idc = 0 then (1, 1)
      else (sum_list (map (\<lambda>j. shr idc (j + 8) AND 1) [0..<4]), sum_list (map (\<lambda>j. shr idc j AND 1) [0..<8])))"

definition is_obu_in_current_operating_point :: "int \<Rightarrow> ObuHeader \<Rightarrow> bool" where
  "is_obu_in_current_operating_point current header =
     (current = 0 \<or> oh_has_extension header = 0 \<or>
      shr current (nat (oh_temporal_layer_id header)) AND 1 \<noteq> 0 \<and>
      shr current (nat (oh_spatial_layer_id header) + 8) AND 1 \<noteq> 0)"

fun get_last_nonzero_byte :: "int list \<Rightarrow> nat \<Rightarrow> int" where
  "get_last_nonzero_byte data 0 = 0"
| "get_last_nonzero_byte data (Suc i) = (if data ! i \<noteq> 0 then data ! i else get_last_nonzero_byte data i)"

fun get_last_nonzero_byte_index :: "int list \<Rightarrow> nat \<Rightarrow> int" where
  "get_last_nonzero_byte_index data 0 = -1"
| "get_last_nonzero_byte_index data (Suc i) = (if data ! i \<noteq> 0 then int i else get_last_nonzero_byte_index data i)"

text \<open>\<open>read_padding\<close>: the size on success; 0 with the error otherwise.\<close>

definition read_padding :: "int list \<Rightarrow> aom_codec_err + nat" where
  "read_padding data =
     (if length data > 0 \<and> get_last_nonzero_byte data (length data) \<noteq> 128 then Inl AOM_CODEC_CORRUPT_FRAME
      else Inr (length data))"

section \<open>Writing\<close>

definition OBU_SEQUENCE_HEADER :: int where "OBU_SEQUENCE_HEADER = 1"
definition OBU_FRAME_HEADER :: int where "OBU_FRAME_HEADER = 3"
definition OBU_FRAME :: int where "OBU_FRAME = 6"

definition av1_write_obu_header ::
  "bool \<Rightarrow> int \<Rightarrow> int \<Rightarrow> bool \<Rightarrow> bool \<Rightarrow> int \<Rightarrow> int list \<Rightarrow> (nat \<times> int \<times> int list) option" where
  "av1_write_obu_header keep_level_stats frame_header_count obu_type has_nonzero_operating_point_idc
      is_layer_specific_obu obu_extension dst =
     (let count = (if keep_level_stats \<and> (obu_type = OBU_FRAME \<or> obu_type = OBU_FRAME_HEADER)
                   then frame_header_count + 1 else frame_header_count);
          extension_flag = has_nonzero_operating_point_idc \<and> is_layer_specific_obu;
          has_size_field = 1 in
      if length dst < 1 then None
      else
        let dst = dst[0 := u8 (shl obu_type 3 OR shl (b2i extension_flag) 2 OR shl has_size_field 1)] in
        if extension_flag then
          if length dst < 2 then None else Some (2, count, dst[1 := obu_extension AND 255])
        else Some (1, count, dst))"

definition av1_write_uleb_obu_size :: "nat \<Rightarrow> int list \<Rightarrow> nat \<Rightarrow> aom_codec_err \<times> int list" where
  "av1_write_uleb_obu_size obu_payload_size dest dest_size =
     (case aom_uleb_encode obu_payload_size dest_size (Some (map nat dest)) True of
        (rc, buf, coded) \<Rightarrow>
          let dest = (case buf of Some b \<Rightarrow> map int b | None \<Rightarrow> dest) in
          if rc \<noteq> 0 then (AOM_CODEC_ERROR, dest)
          else if the coded \<noteq> dest_size then (AOM_CODEC_ERROR, dest)
          else (AOM_CODEC_OK, dest))"

definition memmove_at :: "int list \<Rightarrow> nat \<Rightarrow> nat \<Rightarrow> nat \<Rightarrow> int list option" where
  "memmove_at data d s n =
     (if d + n \<le> length data \<and> s + n \<le> length data
      then Some (take d data @ take n (drop s data) @ drop (d + n) data) else None)"

definition obu_memmove :: "nat \<Rightarrow> nat \<Rightarrow> int list \<Rightarrow> nat \<Rightarrow> (nat \<times> int list) option" where
  "obu_memmove obu_header_size obu_payload_size data data_size =
     (let length_field_size = aom_uleb_size_in_bytes obu_payload_size;
          dst_offset = obu_header_size + length_field_size in
      if obu_payload_size > data_size \<or> obu_header_size > data_size - obu_payload_size then Some (0, data)
      else if dst_offset > data_size - obu_payload_size then Some (0, data)
      else map_option (\<lambda>data. (length_field_size, data)) (memmove_at data dst_offset obu_header_size obu_payload_size))"

definition add_trailing_bits :: "aom_write_bit_buffer \<Rightarrow> aom_write_bit_buffer option" where
  "add_trailing_bits wb =
     (if aom_wb_is_byte_aligned wb then aom_wb_write_literal wb 128 8 else aom_wb_write_bit wb 1)"

section \<open>Sizes and headers\<close>

lemma uleb_decode_loop_len:
  "uleb_decode_loop buf i v True = (0, r, l) \<Longrightarrow> \<exists>n m. r = Some n \<and> n \<le> 4294967295 \<and> l = Some m \<and> i < m \<and> m \<le> length buf"
proof (induction buf i v "True" arbitrary: r l rule: uleb_decode_loop.induct)
  case (1 buf i v)
  show ?case using "1.prems" "1.hyps" by (subst (asm) uleb_decode_loop.simps) (fastforce simp: Let_def split: if_splits)
qed

lemma read_obu_size_bounds: "read_obu_size data = Inr (v, n) \<Longrightarrow> 0 < n \<and> n \<le> length data \<and> v \<le> 4294967295"
  by (auto simp: read_obu_size_def aom_uleb_decode_def split: prod.splits if_splits dest!: uleb_decode_loop_len)

lemma read_obu_header_size:
  "read_obu_header (obu_reader data) annexb = Inr hdr \<Longrightarrow> 0 < oh_size hdr \<and> oh_size hdr \<le> length data \<and> oh_size hdr \<le> 2"
  by (cases data; cases "tl data") (auto simp: read_obu_header_def obu_reader_def Let_def split: prod.splits if_splits)

text \<open>C26. Parsing OBU headers stays in bounds. Whatever bytes it is given, when
  \<open>aom_read_obu_header_and_size\<close> succeeds the header and its size fields lie inside the data
  (the number of bytes it reports to have read is between the one or two bytes of the header
  and the bytes available) and the payload size fits 32 bits. In a stream without Annex B framing every OBU accepted
  has a size field.\<close>

theorem obu_header_bounds:
  assumes "aom_read_obu_header_and_size data annexb = Inr (hdr, payload_size, bytes_read)"
  shows "1 \<le> bytes_read \<and> bytes_read \<le> length data \<and> payload_size \<le> 4294967295 \<and>
    1 \<le> oh_size hdr \<and> oh_size hdr \<le> 2 \<and> oh_size hdr \<le> bytes_read \<and>
    (\<not> annexb \<longrightarrow> oh_has_size_field hdr \<noteq> 0)"
proof -
  obtain obu_size len1 where s: "(if annexb then read_obu_size data else Inr (0, 0)) = Inr (obu_size, len1)"
    using assms by (auto simp: aom_read_obu_header_and_size_def split: sum.splits)
  have l1: "len1 \<le> length data" "obu_size \<le> 4294967295" using s read_obu_size_bounds by (auto split: if_splits)
  have h: "read_obu_header (obu_reader (drop len1 data)) annexb = Inr hdr"
    using assms s by (auto simp: aom_read_obu_header_and_size_def split: sum.splits if_splits)
  have hs: "0 < oh_size hdr" "oh_size hdr \<le> length data - len1" "oh_size hdr \<le> 2" using read_obu_header_size [OF h] by auto
  have fl: "\<not> annexb \<Longrightarrow> oh_has_size_field hdr \<noteq> 0"
    using h by (auto simp: read_obu_header_def Let_def split: prod.splits if_splits)
  show ?thesis
  proof (cases "oh_has_size_field hdr = 0")
    case True
    then show ?thesis using assms s h hs l1 fl
      by (auto simp: aom_read_obu_header_and_size_def split: if_splits)
  next
    case False
    then obtain len2 where "read_obu_size (drop (len1 + oh_size hdr) data) = Inr (payload_size, len2)"
      "bytes_read = len1 + oh_size hdr + len2"
      using assms s h by (auto simp: aom_read_obu_header_and_size_def split: sum.splits)
    then show ?thesis using read_obu_size_bounds hs l1 fl by fastforce
  qed
qed

lemma lit_bits_append: "0 \<le> b \<Longrightarrow> b < 2 ^ n \<Longrightarrow> lit_bits (m + n) (a * 2 ^ n + b) = lit_bits m a @ lit_bits n b"
proof (induction m)
  case 0
  have "bit (a * 2 ^ n + b) i = bit b i" if "i < n" for i
  proof -
    have "take_bit n (a * 2 ^ n + b) = take_bit n b" by (simp add: take_bit_eq_mod)
    then show ?thesis using that by (metis bit_take_bit_iff)
  qed
  then have "k \<le> n \<Longrightarrow> lit_bits k (a * 2 ^ n + b) = lit_bits k b" for k by (induction k) auto
  then show ?case by simp
next
  case (Suc m)
  have "(a * 2 ^ n + b) div 2 ^ n = a" using Suc.prems by simp
  then have "bit (a * 2 ^ n + b) (m + n) = bit a m"
    by (metis bit_drop_bit_eq comp_apply drop_bit_eq_div add.commute)
  then show ?case using Suc by simp
qed

lemma nth_lit_bits: "i < n \<Longrightarrow> lit_bits n v ! i = bit v (n - 1 - i)"
proof (induction n arbitrary: i)
  case (Suc n)
  then show ?case by (cases i) auto
qed simp

lemma buffer_bits_Cons: "buffer_bits (b # bs) = lit_bits 8 b @ buffer_bits bs"
proof (rule nth_equalityI)
  fix i assume "i < length (buffer_bits (b # bs))"
  then have i: "i < 8 * length (b # bs)" by simp
  show "buffer_bits (b # bs) ! i = (lit_bits 8 b @ buffer_bits bs) ! i"
  proof (cases "i < 8")
    case True
    then show ?thesis using i by (simp add: nth_buffer_bits nth_append nth_lit_bits)
  next
    case False
    define j where "j = i - 8"
    have "i = 8 + j" using False by (simp add: j_def)
    moreover have "(8 + j) div 8 = Suc (j div 8)" by simp
    ultimately show ?thesis using i by (simp add: nth_buffer_bits nth_append del: div_add_self1)
  qed
qed simp

lemma reads_flag:
  assumes "rb_delivers buf h e T rb (lit_bits 1 v @ bs)" "v = 0 \<or> v = 1"
  shows "\<exists>rb'. aom_rb_read_bit rb = (v, rb') \<and> rb_delivers buf h e T rb' bs"
  using rb_delivers_bit [of buf h e T rb "bit v 0" bs] assms by (auto simp: b2i_def)

lemma reads_literal:
  assumes "rb_delivers buf h e T rb (lit_bits n v @ bs)" "0 \<le> v" "v < 2 ^ n"
  shows "\<exists>rb'. aom_rb_read_literal rb n = (v, rb') \<and> rb_delivers buf h e T rb' bs"
  using rb.literal_reads0 [OF assms(1)] assms(2,3) by (simp add: aom_rb_read_literal_def)

text \<open>The byte of an OBU header, and of its extension, field by field.\<close>

definition obu_byte :: "int \<Rightarrow> int \<Rightarrow> int \<Rightarrow> int \<Rightarrow> int" where
  "obu_byte typ ext sz res = typ * 8 + ext * 4 + sz * 2 + res"

lemma obu_byte_bits:
  assumes "0 \<le> typ" "typ < 16" "ext = 0 \<or> ext = 1" "sz = 0 \<or> sz = 1" "res = 0 \<or> res = 1"
  shows "lit_bits 8 (obu_byte typ ext sz res) =
    lit_bits 1 0 @ lit_bits 4 typ @ lit_bits 1 ext @ lit_bits 1 sz @ lit_bits 1 res"
proof -
  have r: "0 \<le> ext * 4 + sz * 2 + res" "ext * 4 + sz * 2 + res < 2 ^ 3" "0 \<le> sz * 2 + res" "sz * 2 + res < 2 ^ 2"
    "0 \<le> res" "res < 2 ^ 1" "0 \<le> typ" "typ < 2 ^ 4" "typ * 8 + (ext * 4 + sz * 2 + res) < 2 ^ 7"
    using assms by auto
  have "lit_bits (1 + 7) (0 * 2 ^ 7 + (typ * 8 + (ext * 4 + sz * 2 + res))) = lit_bits 1 0 @ lit_bits 7 (typ * 8 + (ext * 4 + sz * 2 + res))"
    by (rule lit_bits_append) (use r in auto)
  also have "lit_bits 7 (typ * 8 + (ext * 4 + sz * 2 + res)) = lit_bits 4 typ @ lit_bits 3 (ext * 4 + sz * 2 + res)"
    using lit_bits_append [OF r(1,2), of 4 "typ"] by simp
  also have "lit_bits 3 (ext * 4 + sz * 2 + res) = lit_bits 1 ext @ lit_bits 2 (sz * 2 + res)"
    using lit_bits_append [OF r(3,4), of 1 ext] by (simp add: add.assoc numeral_3_eq_3 del: lit_bits.simps)
  also have "lit_bits 2 (sz * 2 + res) = lit_bits 1 sz @ lit_bits 1 res"
    using lit_bits_append [OF r(5,6), of 1 sz] by (simp add: numeral_2_eq_2)
  finally show ?thesis by (simp add: obu_byte_def add.assoc del: lit_bits.simps)
qed

lemma read_obu_header_bytes:
  assumes f: "0 \<le> typ" "typ < 16" "ext = 0 \<or> ext = 1" "sz = 0 \<or> sz = 1" "res = 0 \<or> res = 1"
    and len: "8 * length (obu_byte typ ext sz res # bs) < 2 ^ 32" and sz: "sz \<noteq> 0 \<or> annexb"
    and e: "ext = 1 \<Longrightarrow> \<exists>bs'. bs = (tl_id * 32 + sl_id * 8 + r3) # bs' \<and> 0 \<le> tl_id \<and> tl_id < 8 \<and> 0 \<le> sl_id \<and> sl_id < 4 \<and>
      0 \<le> r3 \<and> r3 < 8"
  shows "read_obu_header (obu_reader (obu_byte typ ext sz res # bs)) annexb =
    Inr \<lparr>oh_size = (if ext = 1 then 2 else 1), oh_type = typ, oh_has_size_field = sz, oh_has_extension = ext,
      oh_temporal_layer_id = (if ext = 1 then tl_id else 0), oh_spatial_layer_id = (if ext = 1 then sl_id else 0)\<rparr>"
proof -
  let ?data = "obu_byte typ ext sz res # bs"
  define T where "T = 8 * length ?data"
  let ?D = "rb_delivers ?data False 0 T"
  have d0: "?D (obu_reader ?data) (lit_bits 1 0 @ lit_bits 4 typ @ lit_bits 1 ext @ lit_bits 1 sz @ lit_bits 1 res @ buffer_bits bs)"
    using len obu_byte_bits [OF f] unfolding rb_delivers_def
    by (intro exI [of _ 0]) (auto simp: obu_reader_def T_def buffer_bits_Cons simp del: lit_bits.simps)
  obtain b1 where b1: "aom_rb_read_bit (obu_reader ?data) = (0, b1)"
    "?D b1 (lit_bits 4 typ @ lit_bits 1 ext @ lit_bits 1 sz @ lit_bits 1 res @ buffer_bits bs)"
    using reads_flag [OF d0] by auto
  obtain b2 where b2: "aom_rb_read_literal b1 4 = (typ, b2)" "?D b2 (lit_bits 1 ext @ lit_bits 1 sz @ lit_bits 1 res @ buffer_bits bs)"
    using reads_literal [OF b1(2)] f(1,2) by auto
  obtain b3 where b3: "aom_rb_read_bit b2 = (ext, b3)" "?D b3 (lit_bits 1 sz @ lit_bits 1 res @ buffer_bits bs)"
    using reads_flag [OF b2(2) f(3)] by auto
  obtain b4 where b4: "aom_rb_read_bit b3 = (sz, b4)" "?D b4 (lit_bits 1 res @ buffer_bits bs)"
    using reads_flag [OF b3(2) f(4)] by auto
  obtain b5 where b5: "aom_rb_read_bit b4 = (res, b5)" "?D b5 (buffer_bits bs)"
    using reads_flag [OF b4(2) f(5)] by auto
  show ?thesis
  proof (cases "ext = 1")
    case False
    then show ?thesis using b1 b2 b3 b4 b5 sz f(3)
      by (auto simp: read_obu_header_def Let_def) (simp_all add: obu_reader_def)
  next
    case True
    obtain bs' where x: "bs = (tl_id * 32 + sl_id * 8 + r3) # bs'" "0 \<le> tl_id" "tl_id < 8" "0 \<le> sl_id" "sl_id < 4"
      "0 \<le> r3" "r3 < 8" using e [OF True] by blast
    have "lit_bits (3 + 5) (tl_id * 2 ^ 5 + (sl_id * 8 + r3)) = lit_bits 3 tl_id @ lit_bits 5 (sl_id * 8 + r3)"
      by (rule lit_bits_append) (use x in auto)
    moreover have "lit_bits (2 + 3) (sl_id * 2 ^ 3 + r3) = lit_bits 2 sl_id @ lit_bits 3 r3"
      by (rule lit_bits_append) (use x in auto)
    ultimately have "buffer_bits bs = lit_bits 3 tl_id @ lit_bits 2 sl_id @ lit_bits 3 r3 @ buffer_bits bs'"
      by (simp add: x(1) buffer_bits_Cons add.assoc del: lit_bits.simps)
    then obtain b6 where b6: "aom_rb_read_literal b5 3 = (tl_id, b6)" "?D b6 (lit_bits 2 sl_id @ lit_bits 3 r3 @ buffer_bits bs')"
      using reads_literal [of ?data False 0 T b5 3 tl_id] b5(2) x by auto
    obtain b7 where b7: "aom_rb_read_literal b6 2 = (sl_id, b7)" "?D b7 (lit_bits 3 r3 @ buffer_bits bs')"
      using reads_literal [OF b6(2)] x by auto
    have len2: "length (rb_bit_buffer (obu_reader ?data)) = Suc (Suc (length bs'))" by (simp add: obu_reader_def x(1))
    show ?thesis using b1 b2 b3 b4 b5 b6 b7 sz True len2
      by (auto simp: read_obu_header_def Let_def split: prod.splits)
  qed
qed

theorem obu_header_bounds_witness:
  "1 \<le> (3::nat) \<and> (3::nat) \<le> length [18, 129, 1, 7::int] \<and>
    aom_read_obu_header_and_size [18, 129, 1, 7] False = Inr (\<lparr>oh_size = 1, oh_type = 2, oh_has_size_field = 1,
      oh_has_extension = 0, oh_temporal_layer_id = 0, oh_spatial_layer_id = 0\<rparr>, 129, 3)"
proof -
  have e: "aom_read_obu_header_and_size [18, 129, 1, 7] False = Inr (\<lparr>oh_size = 1, oh_type = 2, oh_has_size_field = 1,
      oh_has_extension = 0, oh_temporal_layer_id = 0, oh_spatial_layer_id = 0\<rparr>, 129, 3)"
    using read_obu_header_bytes [of 2 0 1 0 "[129, 1, 7]" False]
    by (simp add: aom_read_obu_header_and_size_def obu_byte_def read_obu_size_def aom_uleb_decode_def uleb_decode_loop.simps
      kMaximumLeb128Size_def kLeb128ByteMask_def drop_bit_eq_div)
  show ?thesis using obu_header_bounds [OF e] e by simp
qed

end
