(* ===== verification/Sequence_Header.thy ===== *)
theory Sequence_Header
  imports Obu
begin

text \<open>
  The sequence header OBU: the encoder's writer (\<open>av1/encoder/bitstream.c\<close>) and the decoder's
  parser (\<open>av1/decoder/obu.c\<close>, \<open>av1/decoder/decodeframe.c\<close>), with the bitrate limits of
  \<open>av1/common/timing.c\<close>. The parser's calls on the bit reader are the nodes of a \<open>parser\<close>
  tree: \<open>Get f k\<close> reads a field and goes on with its value, \<open>Fail\<close> is a call of
  \<open>aom_internal_error\<close>, which does not return, or an error return. \<open>run_parser\<close> executes a
  tree on a bit buffer; a read past the end of the data calls the error handler, which does
  not return either.
\<close>

section \<open>Data\<close>

record aom_timing_info =
  num_units_in_display_tick :: int
  time_scale :: int
  equal_picture_interval :: int
  num_ticks_per_picture :: int

record aom_dec_model_info =
  num_units_in_decoding_tick :: int
  encoder_decoder_buffer_delay_length :: int
  buffer_removal_time_length :: int
  frame_presentation_time_length :: int

record aom_dec_model_op_parameters =
  decoder_model_param_present_flag :: int
  op_bitrate :: int
  op_buffer_size :: int
  decoder_buffer_delay :: int
  encoder_buffer_delay :: int
  low_delay_mode_flag :: int
  display_model_param_present_flag :: int
  initial_display_delay :: int

record OrderHintInfo =
  enable_order_hint :: int
  order_hint_bits_minus_1 :: int
  enable_dist_wtd_comp :: int
  enable_ref_frame_mvs :: int

record SequenceHeader =
  num_bits_width :: int
  num_bits_height :: int
  max_frame_width :: int
  max_frame_height :: int
  frame_id_numbers_present_flag :: int
  frame_id_length :: int
  delta_frame_id_length :: int
  sb_size_128 :: bool
  mib_size :: int
  mib_size_log2 :: int
  order_hint_info :: OrderHintInfo
  force_screen_content_tools :: int
  still_picture :: int
  reduced_still_picture_hdr :: int
  force_integer_mv :: int
  enable_filter_intra :: int
  enable_intra_edge_filter :: int
  enable_interintra_compound :: int
  enable_masked_compound :: int
  enable_dual_filter :: int
  enable_warped_motion :: int
  enable_superres :: int
  enable_cdef :: int
  enable_restoration :: int
  sq_profile :: int
  sq_bit_depth :: int
  use_highbitdepth :: int
  sq_monochrome :: int
  color_primaries :: int
  transfer_characteristics :: int
  matrix_coefficients :: int
  color_range :: int
  subsampling_x :: int
  subsampling_y :: int
  chroma_sample_position :: int
  separate_uv_delta_q :: int
  film_grain_params_present :: int
  operating_points_cnt_minus_1 :: int
  operating_point_idc :: "int list"
  has_nonzero_operating_point_idc :: bool
  timing_info_present :: int
  timing_info :: aom_timing_info
  decoder_model_info_present_flag :: int
  decoder_model_info :: aom_dec_model_info
  display_model_info_present_flag :: int
  seq_level_idx :: "int list"
  seq_tier :: "int list"
  sq_op_params :: "aom_dec_model_op_parameters list"

definition AOM_CICP_CP_BT_709 :: int where "AOM_CICP_CP_BT_709 = 1"
definition AOM_CICP_TC_SRGB :: int where "AOM_CICP_TC_SRGB = 13"
definition AOM_CICP_MC_IDENTITY :: int where "AOM_CICP_MC_IDENTITY = 0"
definition AOM_CICP_UNSPEC :: int where "AOM_CICP_UNSPEC = 2"
definition SEQ_LEVEL_4_0 :: int where "SEQ_LEVEL_4_0 = 8"

definition is_valid_seq_level_idx :: "int \<Rightarrow> bool" where
  "is_valid_seq_level_idx l = (l = 31 \<or> (l < 28 \<and> l \<notin> set [2, 3, 6, 7, 10, 11, 20, 21, 22, 23, 24, 25, 26, 27]))"

definition main_kbps :: "int list" where
  "main_kbps = [1500, 3000, 2097152, 2097152, 6000, 10000, 2097152, 2097152, 12000, 20000, 2097152, 2097152,
     30000, 40000, 60000, 60000, 60000, 100000, 160000, 160000, 2097152, 2097152, 2097152, 2097152,
     2097152, 2097152, 2097152, 2097152, 2097152, 2097152, 2097152, 2097152]"

definition high_kbps :: "int list" where
  "high_kbps = [0, 0, 0, 0, 0, 0, 0, 0, 30000, 50000, 2097152, 2097152, 100000, 160000, 240000, 240000,
     240000, 480000, 800000, 800000, 2097152, 2097152, 2097152, 2097152,
     2097152, 2097152, 2097152, 2097152, 2097152, 2097152, 2097152, 2097152]"

definition bitrate_profile_factor :: "int list" where "bitrate_profile_factor = [1, 2, 3, 0, 0, 0, 0, 0]"

definition av1_max_level_bitrate :: "int \<Rightarrow> int \<Rightarrow> int \<Rightarrow> int" where
  "av1_max_level_bitrate profile level tier =
     (if tier \<noteq> 0 then high_kbps ! nat level * bitrate_profile_factor ! nat profile
      else main_kbps ! nat level * bitrate_profile_factor ! nat profile) * 1000"

section \<open>Writing\<close>

definition write_profile :: "int \<Rightarrow> aom_write_bit_buffer \<Rightarrow> aom_write_bit_buffer option" where
  "write_profile p wb = aom_wb_write_literal wb p 3"

definition write_bitstream_level :: "int \<Rightarrow> aom_write_bit_buffer \<Rightarrow> aom_write_bit_buffer option" where
  "write_bitstream_level level wb = aom_wb_write_literal wb level 5"

definition write_bitdepth :: "SequenceHeader \<Rightarrow> aom_write_bit_buffer \<Rightarrow> aom_write_bit_buffer option" where
  "write_bitdepth s wb =
     do {
       wb \<leftarrow> aom_wb_write_bit wb (if sq_bit_depth s = 8 then 0 else 1);
       if sq_profile s = 2 \<and> sq_bit_depth s \<noteq> 8 then aom_wb_write_bit wb (if sq_bit_depth s = 10 then 0 else 1) else Some wb
     }"

definition write_color_config :: "SequenceHeader \<Rightarrow> aom_write_bit_buffer \<Rightarrow> aom_write_bit_buffer option" where
  "write_color_config s wb =
     do {
       wb \<leftarrow> write_bitdepth s wb;
       wb \<leftarrow> (if sq_profile s \<noteq> 1 then aom_wb_write_bit wb (sq_monochrome s) else Some wb);
       wb \<leftarrow> (if color_primaries s = AOM_CICP_UNSPEC \<and> transfer_characteristics s = AOM_CICP_UNSPEC \<and>
                matrix_coefficients s = AOM_CICP_UNSPEC
             then aom_wb_write_bit wb 0
             else do {
               wb \<leftarrow> aom_wb_write_bit wb 1;
               wb \<leftarrow> aom_wb_write_literal wb (color_primaries s) 8;
               wb \<leftarrow> aom_wb_write_literal wb (transfer_characteristics s) 8;
               aom_wb_write_literal wb (matrix_coefficients s) 8
             });
       if sq_monochrome s \<noteq> 0 then aom_wb_write_bit wb (color_range s)
       else do {
         wb \<leftarrow> (if color_primaries s = AOM_CICP_CP_BT_709 \<and> transfer_characteristics s = AOM_CICP_TC_SRGB \<and>
                  matrix_coefficients s = AOM_CICP_MC_IDENTITY
               then Some wb
               else do {
                 wb \<leftarrow> aom_wb_write_bit wb (color_range s);
                 wb \<leftarrow> (if sq_profile s = 2 \<and> sq_bit_depth s = 12 then do {
                          wb \<leftarrow> aom_wb_write_bit wb (subsampling_x s);
                          if subsampling_x s = 0 then Some wb else aom_wb_write_bit wb (subsampling_y s)
                        } else Some wb);
                 if subsampling_x s = 1 \<and> subsampling_y s = 1 then aom_wb_write_literal wb (chroma_sample_position s) 2 else Some wb
               });
         aom_wb_write_bit wb (separate_uv_delta_q s)
       }
     }"

definition write_timing_info_header :: "aom_timing_info \<Rightarrow> aom_write_bit_buffer \<Rightarrow> aom_write_bit_buffer option" where
  "write_timing_info_header t wb =
     do {
       wb \<leftarrow> aom_wb_write_unsigned_literal wb (num_units_in_display_tick t) 32;
       wb \<leftarrow> aom_wb_write_unsigned_literal wb (time_scale t) 32;
       wb \<leftarrow> aom_wb_write_bit wb (equal_picture_interval t);
       if equal_picture_interval t \<noteq> 0 then aom_wb_write_uvlc wb (u32 (num_ticks_per_picture t - 1)) else Some wb
     }"

definition write_decoder_model_info :: "aom_dec_model_info \<Rightarrow> aom_write_bit_buffer \<Rightarrow> aom_write_bit_buffer option" where
  "write_decoder_model_info d wb =
     do {
       wb \<leftarrow> aom_wb_write_literal wb (encoder_decoder_buffer_delay_length d - 1) 5;
       wb \<leftarrow> aom_wb_write_unsigned_literal wb (num_units_in_decoding_tick d) 32;
       wb \<leftarrow> aom_wb_write_literal wb (buffer_removal_time_length d - 1) 5;
       aom_wb_write_literal wb (frame_presentation_time_length d - 1) 5
     }"

definition write_dec_model_op_parameters ::
  "aom_dec_model_op_parameters \<Rightarrow> int \<Rightarrow> aom_write_bit_buffer \<Rightarrow> aom_write_bit_buffer option" where
  "write_dec_model_op_parameters op buffer_delay_length wb =
     do {
       wb \<leftarrow> aom_wb_write_unsigned_literal wb (decoder_buffer_delay op) (nat buffer_delay_length);
       wb \<leftarrow> aom_wb_write_unsigned_literal wb (encoder_buffer_delay op) (nat buffer_delay_length);
       aom_wb_write_bit wb (low_delay_mode_flag op)
     }"

definition write_sb_size :: "SequenceHeader \<Rightarrow> aom_write_bit_buffer \<Rightarrow> aom_write_bit_buffer option" where
  "write_sb_size s wb = aom_wb_write_bit wb (if sb_size_128 s then 1 else 0)"

definition write_sequence_header :: "SequenceHeader \<Rightarrow> aom_write_bit_buffer \<Rightarrow> aom_write_bit_buffer option" where
  "write_sequence_header s wb =
     (let oh = order_hint_info s in
      do {
        wb \<leftarrow> aom_wb_write_literal wb (num_bits_width s - 1) 4;
        wb \<leftarrow> aom_wb_write_literal wb (num_bits_height s - 1) 4;
        wb \<leftarrow> aom_wb_write_literal wb (max_frame_width s - 1) (nat (num_bits_width s));
        wb \<leftarrow> aom_wb_write_literal wb (max_frame_height s - 1) (nat (num_bits_height s));
        wb \<leftarrow> (if reduced_still_picture_hdr s = 0 then do {
                 wb \<leftarrow> aom_wb_write_bit wb (frame_id_numbers_present_flag s);
                 if frame_id_numbers_present_flag s \<noteq> 0 then do {
                   wb \<leftarrow> aom_wb_write_literal wb (delta_frame_id_length s - 2) 4;
                   aom_wb_write_literal wb (frame_id_length s - delta_frame_id_length s - 1) 3
                 } else Some wb
               } else Some wb);
        wb \<leftarrow> write_sb_size s wb;
        wb \<leftarrow> aom_wb_write_bit wb (enable_filter_intra s);
        wb \<leftarrow> aom_wb_write_bit wb (enable_intra_edge_filter s);
        wb \<leftarrow> (if reduced_still_picture_hdr s = 0 then do {
                 wb \<leftarrow> aom_wb_write_bit wb (enable_interintra_compound s);
                 wb \<leftarrow> aom_wb_write_bit wb (enable_masked_compound s);
                 wb \<leftarrow> aom_wb_write_bit wb (enable_warped_motion s);
                 wb \<leftarrow> aom_wb_write_bit wb (enable_dual_filter s);
                 wb \<leftarrow> aom_wb_write_bit wb (enable_order_hint oh);
                 wb \<leftarrow> (if enable_order_hint oh \<noteq> 0 then do {
                          wb \<leftarrow> aom_wb_write_bit wb (enable_dist_wtd_comp oh);
                          aom_wb_write_bit wb (enable_ref_frame_mvs oh)
                        } else Some wb);
                 wb \<leftarrow> (if force_screen_content_tools s = 2 then aom_wb_write_bit wb 1
                        else do { wb \<leftarrow> aom_wb_write_bit wb 0; aom_wb_write_bit wb (force_screen_content_tools s) });
                 wb \<leftarrow> (if force_screen_content_tools s > 0 then
                          if force_integer_mv s = 2 then aom_wb_write_bit wb 1
                          else do { wb \<leftarrow> aom_wb_write_bit wb 0; aom_wb_write_bit wb (force_integer_mv s) }
                        else Some wb);
                 if enable_order_hint oh \<noteq> 0 then aom_wb_write_literal wb (order_hint_bits_minus_1 oh) 3 else Some wb
               } else Some wb);
        wb \<leftarrow> aom_wb_write_bit wb (enable_superres s);
        wb \<leftarrow> aom_wb_write_bit wb (enable_cdef s);
        aom_wb_write_bit wb (enable_restoration s)
      })"

text \<open>The loop over the operating points from \<open>i\<close>, \<open>m\<close> of them.\<close>

fun write_op_points :: "SequenceHeader \<Rightarrow> nat \<Rightarrow> nat \<Rightarrow> aom_write_bit_buffer \<Rightarrow> aom_write_bit_buffer option" where
  "write_op_points s 0 i wb = Some wb"
| "write_op_points s (Suc m) i wb =
     (let op = sq_op_params s ! i in
      do {
        wb \<leftarrow> aom_wb_write_literal wb (operating_point_idc s ! i) 12;
        wb \<leftarrow> write_bitstream_level (seq_level_idx s ! i) wb;
        wb \<leftarrow> (if seq_level_idx s ! i \<ge> SEQ_LEVEL_4_0 then aom_wb_write_bit wb (seq_tier s ! i) else Some wb);
        wb \<leftarrow> (if decoder_model_info_present_flag s \<noteq> 0 then do {
                 wb \<leftarrow> aom_wb_write_bit wb (decoder_model_param_present_flag op);
                 if decoder_model_param_present_flag op \<noteq> 0
                 then write_dec_model_op_parameters op (encoder_decoder_buffer_delay_length (decoder_model_info s)) wb
                 else Some wb
               } else Some wb);
        wb \<leftarrow> (if display_model_info_present_flag s \<noteq> 0 then do {
                 wb \<leftarrow> aom_wb_write_bit wb (display_model_param_present_flag op);
                 if display_model_param_present_flag op \<noteq> 0
                 then aom_wb_write_literal wb (initial_display_delay op - 1) 4
                 else Some wb
               } else Some wb);
        write_op_points s m (Suc i) wb
      })"

text \<open>\<open>av1_write_sequence_header_obu\<close>: the size and the destination afterwards.\<close>

definition av1_write_sequence_header_obu :: "SequenceHeader \<Rightarrow> int list \<Rightarrow> (int \<times> int list) option" where
  "av1_write_sequence_header_obu s dst =
     do {
       wb \<leftarrow> write_profile (sq_profile s) \<lparr>wb_bit_buffer = dst, wb_bit_offset = 0\<rparr>;
       wb \<leftarrow> aom_wb_write_bit wb (still_picture s);
       wb \<leftarrow> aom_wb_write_bit wb (reduced_still_picture_hdr s);
       wb \<leftarrow> (if reduced_still_picture_hdr s \<noteq> 0 then write_bitstream_level (seq_level_idx s ! 0) wb
             else do {
               wb \<leftarrow> aom_wb_write_bit wb (timing_info_present s);
               wb \<leftarrow> (if timing_info_present s \<noteq> 0 then do {
                        wb \<leftarrow> write_timing_info_header (timing_info s) wb;
                        wb \<leftarrow> aom_wb_write_bit wb (decoder_model_info_present_flag s);
                        if decoder_model_info_present_flag s \<noteq> 0 then write_decoder_model_info (decoder_model_info s) wb
                        else Some wb
                      } else Some wb);
               wb \<leftarrow> aom_wb_write_bit wb (display_model_info_present_flag s);
               wb \<leftarrow> aom_wb_write_literal wb (operating_points_cnt_minus_1 s) 5;
               write_op_points s (nat (operating_points_cnt_minus_1 s + 1)) 0 wb
             });
       wb \<leftarrow> write_sequence_header s wb;
       wb \<leftarrow> write_color_config s wb;
       wb \<leftarrow> aom_wb_write_bit wb (film_grain_params_present s);
       wb \<leftarrow> add_trailing_bits wb;
       Some (aom_wb_bytes_written wb, wb_bit_buffer wb)
     }"

section \<open>Parsing\<close>

datatype seq_error = Truncated_packet | Unsupported_profile | Reduced_without_still | Undefined_level | Zero_timing
  | Num_ticks_overflow | No_bitrate | Display_delay | Invalid_frame_id_length | Profile_bit_depth | Srgb_profile
  | Identity_subsampling | Unsupported_subsampling | Trailing_bits

fun seq_error_code :: "seq_error \<Rightarrow> aom_codec_err" where
  "seq_error_code Truncated_packet = AOM_CODEC_CORRUPT_FRAME"
| "seq_error_code Invalid_frame_id_length = AOM_CODEC_CORRUPT_FRAME"
| "seq_error_code Trailing_bits = AOM_CODEC_CORRUPT_FRAME"
| "seq_error_code _ = AOM_CODEC_UNSUP_BITSTREAM"

datatype 'a parser = Ret 'a | Fail seq_error | Get field "int \<Rightarrow> 'a parser"

primrec parser_bind :: "'a parser \<Rightarrow> ('a \<Rightarrow> 'b parser) \<Rightarrow> 'b parser" where
  "parser_bind (Ret x) g = g x"
| "parser_bind (Fail e) g = Fail e"
| "parser_bind (Get f k) g = Get f (\<lambda>v. parser_bind (k v) g)"

primrec run_parser :: "'a parser \<Rightarrow> aom_read_bit_buffer \<Rightarrow> seq_error + 'a \<times> aom_read_bit_buffer" where
  "run_parser (Ret x) rb = Inr (x, rb)"
| "run_parser (Fail e) rb = Inl e"
| "run_parser (Get f k) rb =
     (case read_field rb f of (v, rb') \<Rightarrow> if rb_errors rb' > rb_errors rb then Inl Truncated_packet else run_parser (k v) rb')"

text \<open>A flag is a literal of one bit: \<open>aom_rb_read_literal\<close> of one bit is \<open>aom_rb_read_bit\<close>.\<close>

abbreviation Flag :: "(int \<Rightarrow> 'a parser) \<Rightarrow> 'a parser" where "Flag k \<equiv> Get (Literal 1) k"

lemma read_flag_is_bit: "read_field rb (Literal 1) = aom_rb_read_bit rb"
  by (cases "aom_rb_read_bit rb") (simp add: aom_rb_read_literal_def shl_def)

definition read_bitdepth :: "SequenceHeader \<Rightarrow> SequenceHeader parser" where
  "read_bitdepth s =
     Flag (\<lambda>high.
       if sq_profile s = 2 \<and> high \<noteq> 0 then Flag (\<lambda>twelve. Ret (s\<lparr>sq_bit_depth := if twelve \<noteq> 0 then 12 else 10\<rparr>))
       else if sq_profile s \<le> 2 then Ret (s\<lparr>sq_bit_depth := if high \<noteq> 0 then 10 else 8\<rparr>)
       else Fail Profile_bit_depth)"

definition read_color_description :: "SequenceHeader \<Rightarrow> SequenceHeader parser" where
  "read_color_description s =
     Flag (\<lambda>present.
       if present \<noteq> 0 then
         Get (Literal 8) (\<lambda>cp. Get (Literal 8) (\<lambda>tc. Get (Literal 8) (\<lambda>mc.
           Ret (s\<lparr>color_primaries := cp, transfer_characteristics := tc, matrix_coefficients := mc\<rparr>))))
       else Ret (s\<lparr>color_primaries := AOM_CICP_UNSPEC, transfer_characteristics := AOM_CICP_UNSPEC,
                   matrix_coefficients := AOM_CICP_UNSPEC\<rparr>))"

definition read_subsampling :: "SequenceHeader \<Rightarrow> SequenceHeader parser" where
  "read_subsampling s =
     (if sq_profile s = 0 then Ret (s\<lparr>subsampling_x := 1, subsampling_y := 1\<rparr>)
      else if sq_profile s = 1 then Ret (s\<lparr>subsampling_x := 0, subsampling_y := 0\<rparr>)
      else if sq_bit_depth s = 12 then
        Flag (\<lambda>x. if x \<noteq> 0 then Flag (\<lambda>y. Ret (s\<lparr>subsampling_x := x, subsampling_y := y\<rparr>))
                  else Ret (s\<lparr>subsampling_x := x, subsampling_y := 0\<rparr>))
      else Ret (s\<lparr>subsampling_x := 1, subsampling_y := 0\<rparr>))"

definition av1_read_color_config :: "int \<Rightarrow> SequenceHeader \<Rightarrow> SequenceHeader parser" where
  "av1_read_color_config lowbitdepth s =
     parser_bind (read_bitdepth s) (\<lambda>s.
     let s = s\<lparr>use_highbitdepth := b2i (sq_bit_depth s > 8 \<or> lowbitdepth = 0)\<rparr> in
     parser_bind (if sq_profile s \<noteq> 1 then Flag Ret else Ret 0) (\<lambda>mono.
     parser_bind (read_color_description (s\<lparr>sq_monochrome := mono\<rparr>)) (\<lambda>s.
     if mono \<noteq> 0 then
       Flag (\<lambda>cr. Ret (s\<lparr>color_range := cr, subsampling_y := 1, subsampling_x := 1, chroma_sample_position := 0,
         separate_uv_delta_q := 0\<rparr>))
     else
       parser_bind
         (if color_primaries s = AOM_CICP_CP_BT_709 \<and> transfer_characteristics s = AOM_CICP_TC_SRGB \<and>
             matrix_coefficients s = AOM_CICP_MC_IDENTITY
          then
            if \<not> (sq_profile s = 1 \<or> sq_profile s = 2 \<and> sq_bit_depth s = 12) then Fail Srgb_profile
            else Ret (s\<lparr>subsampling_y := 0, subsampling_x := 0, color_range := 1\<rparr>)
          else
            Flag (\<lambda>cr.
            parser_bind (read_subsampling (s\<lparr>color_range := cr\<rparr>)) (\<lambda>s.
            if matrix_coefficients s = AOM_CICP_MC_IDENTITY \<and> (subsampling_x s \<noteq> 0 \<or> subsampling_y s \<noteq> 0)
            then Fail Identity_subsampling
            else if subsampling_x s \<noteq> 0 \<and> subsampling_y s \<noteq> 0
            then Get (Literal 2) (\<lambda>csp. Ret (s\<lparr>chroma_sample_position := csp\<rparr>))
            else Ret s)))
         (\<lambda>s. Flag (\<lambda>uv. Ret (s\<lparr>separate_uv_delta_q := uv\<rparr>))))))"

definition av1_read_timing_info_header :: "aom_timing_info \<Rightarrow> aom_timing_info parser" where
  "av1_read_timing_info_header t =
     Get (Unsigned_Literal 32) (\<lambda>nu. Get (Unsigned_Literal 32) (\<lambda>ts.
       if nu = 0 \<or> ts = 0 then Fail Zero_timing
       else Flag (\<lambda>eq.
         let t = t\<lparr>num_units_in_display_tick := nu, time_scale := ts, equal_picture_interval := eq\<rparr> in
         if eq \<noteq> 0 then
           Get Uvlc (\<lambda>n. if n = 4294967295 then Fail Num_ticks_overflow else Ret (t\<lparr>num_ticks_per_picture := n + 1\<rparr>))
         else Ret t)))"

definition av1_read_decoder_model_info :: "aom_dec_model_info \<Rightarrow> aom_dec_model_info parser" where
  "av1_read_decoder_model_info d =
     Get (Literal 5) (\<lambda>a. Get (Unsigned_Literal 32) (\<lambda>nu. Get (Literal 5) (\<lambda>b. Get (Literal 5) (\<lambda>c.
       Ret (d\<lparr>encoder_decoder_buffer_delay_length := a + 1, num_units_in_decoding_tick := nu,
              buffer_removal_time_length := b + 1, frame_presentation_time_length := c + 1\<rparr>)))))"

definition av1_read_op_parameters_info ::
  "aom_dec_model_op_parameters \<Rightarrow> int \<Rightarrow> aom_dec_model_op_parameters parser" where
  "av1_read_op_parameters_info op len =
     Get (Unsigned_Literal (nat len)) (\<lambda>dd. Get (Unsigned_Literal (nat len)) (\<lambda>ed. Flag (\<lambda>ld.
       Ret (op\<lparr>decoder_buffer_delay := dd, encoder_buffer_delay := ed, low_delay_mode_flag := ld\<rparr>))))"

text \<open>One round of the loop over the operating points: the parameters of point \<open>i\<close>.\<close>

definition read_op_model :: "SequenceHeader \<Rightarrow> nat \<Rightarrow> aom_dec_model_op_parameters parser" where
  "read_op_model s i =
     (let op = sq_op_params s ! i in
      if decoder_model_info_present_flag s \<noteq> 0 then
        Flag (\<lambda>present.
          let op = op\<lparr>decoder_model_param_present_flag := present\<rparr> in
          if present \<noteq> 0
          then av1_read_op_parameters_info op (encoder_decoder_buffer_delay_length (decoder_model_info s)) else Ret op)
      else Ret (op\<lparr>decoder_model_param_present_flag := 0\<rparr>))"

definition op_rates :: "SequenceHeader \<Rightarrow> nat \<Rightarrow> aom_dec_model_op_parameters \<Rightarrow> aom_dec_model_op_parameters parser" where
  "op_rates s i op =
     (let eq = equal_picture_interval (timing_info s);
          rate = av1_max_level_bitrate (sq_profile s) (seq_level_idx s ! i) (seq_tier s ! i);
          applies = timing_info_present s \<noteq> 0 \<and> (eq \<noteq> 0 \<or> decoder_model_param_present_flag op \<noteq> 0) in
      if applies \<and> rate = 0 then Fail No_bitrate
      else
        let op = (if applies then op\<lparr>op_bitrate := rate, op_buffer_size := rate\<rparr> else op) in
        Ret (if timing_info_present s \<noteq> 0 \<and> eq \<noteq> 0 \<and> decoder_model_param_present_flag op = 0
             then op\<lparr>decoder_buffer_delay := 70000, encoder_buffer_delay := 20000, low_delay_mode_flag := 0\<rparr> else op))"

definition read_op_display :: "SequenceHeader \<Rightarrow> aom_dec_model_op_parameters \<Rightarrow> aom_dec_model_op_parameters parser" where
  "read_op_display s op =
     (if display_model_info_present_flag s \<noteq> 0 then
        Flag (\<lambda>present.
          let op = op\<lparr>display_model_param_present_flag := present\<rparr> in
          if present \<noteq> 0 then
            Get (Literal 4) (\<lambda>d. if d + 1 > 10 then Fail Display_delay else Ret (op\<lparr>initial_display_delay := d + 1\<rparr>))
          else Ret (op\<lparr>initial_display_delay := 10\<rparr>))
      else Ret (op\<lparr>display_model_param_present_flag := 0, initial_display_delay := 10\<rparr>))"

definition read_op_level :: "SequenceHeader \<Rightarrow> nat \<Rightarrow> SequenceHeader parser" where
  "read_op_level s i =
     Get (Literal 12) (\<lambda>idc.
     Get (Literal 5) (\<lambda>level.
       let s = s\<lparr>operating_point_idc := (operating_point_idc s)[i := idc],
                 has_nonzero_operating_point_idc := has_nonzero_operating_point_idc s \<or> idc \<noteq> 0,
                 seq_level_idx := (seq_level_idx s)[i := level]\<rparr> in
       if \<not> is_valid_seq_level_idx level then Fail Undefined_level
       else parser_bind (if level \<ge> SEQ_LEVEL_4_0 then Flag Ret else Ret 0) (\<lambda>tier.
         Ret (s\<lparr>seq_tier := (seq_tier s)[i := tier]\<rparr>))))"

fun read_op_points :: "nat \<Rightarrow> nat \<Rightarrow> SequenceHeader \<Rightarrow> SequenceHeader parser" where
  "read_op_points 0 i s = Ret s"
| "read_op_points (Suc m) i s =
     parser_bind (read_op_level s i) (\<lambda>s.
     parser_bind (read_op_model s i) (\<lambda>op.
     parser_bind (op_rates s i op) (\<lambda>op.
     parser_bind (read_op_display s op) (\<lambda>op.
     read_op_points m (Suc i) (s\<lparr>sq_op_params := (sq_op_params s)[i := op]\<rparr>)))))"

definition setup_sb_size :: "SequenceHeader \<Rightarrow> int \<Rightarrow> SequenceHeader" where
  "setup_sb_size s b = s\<lparr>sb_size_128 := b \<noteq> 0, mib_size := if b \<noteq> 0 then 32 else 16, mib_size_log2 := if b \<noteq> 0 then 5 else 4\<rparr>"

definition read_frame_ids :: "SequenceHeader \<Rightarrow> SequenceHeader parser" where
  "read_frame_ids s =
     parser_bind (if reduced_still_picture_hdr s \<noteq> 0 then Ret 0 else Flag Ret) (\<lambda>present.
       let s = s\<lparr>frame_id_numbers_present_flag := present\<rparr> in
       if present \<noteq> 0 then
         Get (Literal 4) (\<lambda>d. Get (Literal 3) (\<lambda>f.
           let s = s\<lparr>delta_frame_id_length := d + 2, frame_id_length := f + (d + 2) + 1\<rparr> in
           if frame_id_length s > 16 then Fail Invalid_frame_id_length else Ret s))
       else Ret s)"

definition read_screen_content :: "SequenceHeader \<Rightarrow> SequenceHeader parser" where
  "read_screen_content s =
     parser_bind (Flag (\<lambda>b. if b \<noteq> 0 then Ret 2 else Flag Ret)) (\<lambda>sct.
     parser_bind (if sct > 0 then Flag (\<lambda>b. if b \<noteq> 0 then Ret 2 else Flag Ret) else Ret 2) (\<lambda>imv.
     Ret (s\<lparr>force_screen_content_tools := sct, force_integer_mv := imv\<rparr>)))"

definition read_inter_tools :: "SequenceHeader \<Rightarrow> SequenceHeader parser" where
  "read_inter_tools s =
     (if reduced_still_picture_hdr s \<noteq> 0 then
        Ret (s\<lparr>enable_interintra_compound := 0, enable_masked_compound := 0, enable_warped_motion := 0,
               enable_dual_filter := 0,
               order_hint_info := \<lparr>enable_order_hint = 0, order_hint_bits_minus_1 = -1, enable_dist_wtd_comp = 0,
                 enable_ref_frame_mvs = 0\<rparr>,
               force_screen_content_tools := 2, force_integer_mv := 2\<rparr>)
      else
        Flag (\<lambda>ic. Flag (\<lambda>mc. Flag (\<lambda>wm. Flag (\<lambda>df. Flag (\<lambda>oh.
        parser_bind (if oh \<noteq> 0 then Flag Ret else Ret 0) (\<lambda>dw.
        parser_bind (if oh \<noteq> 0 then Flag Ret else Ret 0) (\<lambda>rf.
        parser_bind (read_screen_content (s\<lparr>enable_interintra_compound := ic, enable_masked_compound := mc,
          enable_warped_motion := wm, enable_dual_filter := df\<rparr>)) (\<lambda>s.
        parser_bind (if oh \<noteq> 0 then Get (Literal 3) Ret else Ret (-1)) (\<lambda>ob.
        Ret (s\<lparr>order_hint_info := \<lparr>enable_order_hint = oh, order_hint_bits_minus_1 = ob, enable_dist_wtd_comp = dw,
                 enable_ref_frame_mvs = rf\<rparr>\<rparr>)))))))))))"

definition av1_read_sequence_header :: "SequenceHeader \<Rightarrow> SequenceHeader parser" where
  "av1_read_sequence_header s =
     Get (Literal 4) (\<lambda>bw. Get (Literal 4) (\<lambda>bh.
     Get (Literal (nat (bw + 1))) (\<lambda>w. Get (Literal (nat (bh + 1))) (\<lambda>h.
     parser_bind (read_frame_ids (s\<lparr>num_bits_width := bw + 1, num_bits_height := bh + 1,
       max_frame_width := w + 1, max_frame_height := h + 1\<rparr>)) (\<lambda>s.
     Flag (\<lambda>sb. Flag (\<lambda>fi. Flag (\<lambda>ie.
     parser_bind (read_inter_tools ((setup_sb_size s sb)\<lparr>enable_filter_intra := fi, enable_intra_edge_filter := ie\<rparr>)) (\<lambda>s.
     Flag (\<lambda>sr. Flag (\<lambda>cd. Flag (\<lambda>lr.
     Ret (s\<lparr>enable_superres := sr, enable_cdef := cd, enable_restoration := lr\<rparr>)))))))))))))"

text \<open>The part of \<open>read_sequence_header_obu\<close> up to the operating points; \<open>read_models\<close> is its branch
  on \<open>timing_info_present\<close>.\<close>

definition read_models :: "SequenceHeader \<Rightarrow> int \<Rightarrow> SequenceHeader parser" where
  "read_models s tp =
     (if tp \<noteq> 0 then
        parser_bind (av1_read_timing_info_header (timing_info s)) (\<lambda>ti.
        Flag (\<lambda>dp.
        parser_bind (if dp \<noteq> 0 then av1_read_decoder_model_info (decoder_model_info s) else Ret (decoder_model_info s)) (\<lambda>di.
        Ret (s\<lparr>timing_info_present := tp, timing_info := ti, decoder_model_info_present_flag := dp,
          decoder_model_info := di\<rparr>))))
      else Ret (s\<lparr>timing_info_present := tp, decoder_model_info_present_flag := 0\<rparr>))"

definition read_seq_points :: "SequenceHeader \<Rightarrow> SequenceHeader parser" where
  "read_seq_points s =
     Get (Literal 3) (\<lambda>prof.
     if prof > 2 then Fail Unsupported_profile
     else Flag (\<lambda>still. Flag (\<lambda>reduced.
     let s = s\<lparr>sq_profile := prof, still_picture := still, reduced_still_picture_hdr := reduced\<rparr> in
     if still = 0 \<and> reduced \<noteq> 0 then Fail Reduced_without_still
     else if reduced \<noteq> 0 then
       Get (Literal 5) (\<lambda>level.
         if \<not> is_valid_seq_level_idx level then Fail Undefined_level
         else Ret (s\<lparr>timing_info_present := 0, decoder_model_info_present_flag := 0, display_model_info_present_flag := 0,
           operating_points_cnt_minus_1 := 0, operating_point_idc := (operating_point_idc s)[0 := 0],
           has_nonzero_operating_point_idc := False, seq_level_idx := (seq_level_idx s)[0 := level],
           seq_tier := (seq_tier s)[0 := 0],
           sq_op_params := (sq_op_params s)[0 := (sq_op_params s ! 0)\<lparr>decoder_model_param_present_flag := 0,
             display_model_param_present_flag := 0\<rparr>]\<rparr>))
     else
       Flag (\<lambda>tp.
       parser_bind (read_models s tp) (\<lambda>s.
       Flag (\<lambda>disp. Get (Literal 5) (\<lambda>cnt.
         read_op_points (nat (cnt + 1)) 0 (s\<lparr>display_model_info_present_flag := disp, operating_points_cnt_minus_1 := cnt,
           has_nonzero_operating_point_idc := False\<rparr>))))))))"

text \<open>The part after the operating point is chosen, up to the trailing bits.\<close>

definition read_seq_rest :: "int \<Rightarrow> SequenceHeader \<Rightarrow> SequenceHeader parser" where
  "read_seq_rest lowbitdepth s =
     parser_bind (av1_read_sequence_header s) (\<lambda>s.
     parser_bind (av1_read_color_config lowbitdepth s) (\<lambda>s.
     if \<not> (subsampling_x s = 0 \<and> subsampling_y s = 0) \<and> \<not> (subsampling_x s = 1 \<and> subsampling_y s = 1) \<and>
        \<not> (subsampling_x s = 1 \<and> subsampling_y s = 0)
     then Fail Unsupported_subsampling
     else Flag (\<lambda>fg. Ret (s\<lparr>film_grain_params_present := fg\<rparr>))))"

record dec_state =
  ds_seq_params :: SequenceHeader
  sequence_header_ready :: bool
  sequence_header_changed :: bool
  ds_operating_point :: int
  current_operating_point :: int
  number_spatial_layers :: int
  number_temporal_layers :: int
  ds_allow_lowbitdepth :: int
  ds_error :: aom_codec_err

definition av1_check_trailing_bits :: "aom_read_bit_buffer \<Rightarrow> seq_error + aom_read_bit_buffer" where
  "av1_check_trailing_bits rb =
     (let n = nat (8 - rb_bit_offset rb mod 8);
          (trailing, rb') = aom_rb_read_literal rb n in
      if rb_errors rb' > rb_errors rb then Inl Truncated_packet
      else if trailing \<noteq> shl 1 (n - 1) then Inl Trailing_bits else Inr rb')"

definition are_seq_headers_consistent :: "SequenceHeader \<Rightarrow> SequenceHeader \<Rightarrow> bool" where
  "are_seq_headers_consistent a b = (a\<lparr>sq_op_params := []\<rparr> = b\<lparr>sq_op_params := []\<rparr>)"

text \<open>
  \<open>read_sequence_header_obu\<close>: the number of bytes read or the error, and the decoder
  afterwards.
\<close>

definition read_sequence_header_obu :: "dec_state \<Rightarrow> aom_read_bit_buffer \<Rightarrow> (seq_error + int) \<times> dec_state" where
  "read_sequence_header_obu pbi rb =
     (case run_parser (read_seq_points (ds_seq_params pbi)) rb of
        Inl e \<Rightarrow> (Inl e, pbi\<lparr>ds_error := seq_error_code e\<rparr>)
      | Inr (s, rb1) \<Rightarrow>
          let op = (if ds_operating_point pbi < 0 \<or> ds_operating_point pbi > operating_points_cnt_minus_1 s then 0
                    else ds_operating_point pbi);
              current = operating_point_idc s ! nat op;
              (spatial, temporal) = aom_get_num_layers_from_operating_point_idc current;
              pbi = pbi\<lparr>current_operating_point := current, number_spatial_layers := spatial,
                        number_temporal_layers := temporal\<rparr> in
          (case run_parser (read_seq_rest (ds_allow_lowbitdepth pbi) s) rb1 of
             Inl e \<Rightarrow> (Inl e, pbi\<lparr>ds_error := seq_error_code e\<rparr>)
           | Inr (s, rb2) \<Rightarrow>
               (case av1_check_trailing_bits rb2 of
                  Inl e \<Rightarrow> (Inl e, pbi\<lparr>ds_error := seq_error_code e\<rparr>)
                | Inr rb3 \<Rightarrow>
                    (Inr (shr (u32 (rb_bit_offset rb3 - rb_bit_offset rb + 7)) 3),
                     pbi\<lparr>sequence_header_changed := sequence_header_changed pbi \<or>
                           sequence_header_ready pbi \<and> \<not> are_seq_headers_consistent (ds_seq_params pbi) s,
                         ds_seq_params := s, sequence_header_ready := True\<rparr>))))"

section \<open>Packing\<close>

text \<open>The sequence header OBU that \<open>av1_pack_bitstream\<close> puts in front of a key frame: the status,
  the data and the bytes written.\<close>

definition pack_sequence_header :: "SequenceHeader \<Rightarrow> int list \<Rightarrow> (aom_codec_err \<times> int list \<times> nat) option" where
  "pack_sequence_header s data =
     (if length data < 2 then Some (AOM_CODEC_ERROR, data, 0)
      else
        do {
          (hs, _, data) \<leftarrow> av1_write_obu_header False 0 OBU_SEQUENCE_HEADER (has_nonzero_operating_point_idc s) False 0 data;
          (payload, dst) \<leftarrow> av1_write_sequence_header_obu s (drop hs data);
          let data = take hs data @ dst;
          (len, data) \<leftarrow> obu_memmove hs (nat payload) data (length data);
          if len = 0 then Some (AOM_CODEC_ERROR, data, 0)
          else
            let (e, dst) = av1_write_uleb_obu_size (nat payload) (drop hs data) len;
                data = take hs data @ dst in
            if e \<noteq> AOM_CODEC_OK then Some (AOM_CODEC_ERROR, data, 0)
            else Some (AOM_CODEC_OK, data, hs + len + nat payload)
        })"

end
