(* ===== verification/Sequence_Header_Props.thy ===== *)
theory Sequence_Header_Props
  imports Sequence_Header
begin

text \<open>
  The sequence header survives transmission. The header's content is a list of fields
  (\<open>seq_fields\<close>): every writer writes its part of the list, and \<open>play\<close> executes a parser tree on
  such a list, so that the parser's side is evaluated on fields instead of bits. The bit
  buffers' contracts carry both to the bytes.
\<close>

section \<open>Parsers on field lists\<close>

primrec play :: "'a parser \<Rightarrow> (field \<times> int) list \<Rightarrow> ('a \<times> (field \<times> int) list) option" where
  "play (Ret x) fs = Some (x, fs)"
| "play (Fail e) fs = None"
| "play (Get f k) fs = (case fs of [] \<Rightarrow> None | (g, v) # fs \<Rightarrow> if f = g then play (k v) fs else None)"

lemma play_bind:
  "play (parser_bind p g) fs = (case play p fs of None \<Rightarrow> None | Some (x, r) \<Rightarrow> play (g x) r)"
proof (induction p arbitrary: fs)
  case (Get f k)
  then show ?case by (cases fs) auto
qed auto

abbreviation fields_ok :: "(field \<times> int) list \<Rightarrow> bool" where
  "fields_ok fs \<equiv> list_all (\<lambda>(f, v). field_ok f v) fs"

lemma play_run:
  "play p fs = Some (x, r) \<Longrightarrow> fields_ok fs \<Longrightarrow> rb_delivers buf h e T rb (fields_bits fs @ bs) \<Longrightarrow>
   \<exists>rb'. run_parser p rb = Inr (x, rb') \<and> rb_delivers buf h e T rb' (fields_bits r @ bs) \<and> fields_ok r"
proof (induction p arbitrary: fs rb)
  case (Get f k)
  then obtain v fs' where fs: "fs = (f, v) # fs'" "play (k v) fs' = Some (x, r)"
    by (auto split: list.splits if_splits)
  with Get.prems(2,3) obtain rb1 where rb1: "read_field rb f = (v, rb1)" "rb_delivers buf h e T rb1 (fields_bits fs' @ bs)"
    using read_field_bits [of f v buf h e T rb "fields_bits fs' @ bs"] by (auto simp: fields_bits_def)
  have "rb_errors rb1 = rb_errors rb" using rb1(2) Get.prems(3) by (auto simp: rb_delivers_def)
  then show ?case using Get.IH [of "k v" fs' rb1] fs rb1 Get.prems(2) by auto
qed auto

section \<open>The content of a sequence header\<close>

abbreviation fl :: "int \<Rightarrow> field \<times> int" where "fl v \<equiv> (Literal 1, v)"

abbreviation cicp_unspecified :: "SequenceHeader \<Rightarrow> bool" where
  "cicp_unspecified s \<equiv> color_primaries s = AOM_CICP_UNSPEC \<and> transfer_characteristics s = AOM_CICP_UNSPEC \<and>
     matrix_coefficients s = AOM_CICP_UNSPEC"

abbreviation is_srgb :: "SequenceHeader \<Rightarrow> bool" where
  "is_srgb s \<equiv> color_primaries s = AOM_CICP_CP_BT_709 \<and> transfer_characteristics s = AOM_CICP_TC_SRGB \<and>
     matrix_coefficients s = AOM_CICP_MC_IDENTITY"

definition bitdepth_fields :: "SequenceHeader \<Rightarrow> (field \<times> int) list" where
  "bitdepth_fields s = [fl (if sq_bit_depth s = 8 then 0 else 1)] @
     (if sq_profile s = 2 \<and> sq_bit_depth s \<noteq> 8 then [fl (if sq_bit_depth s = 10 then 0 else 1)] else [])"

definition description_fields :: "SequenceHeader \<Rightarrow> (field \<times> int) list" where
  "description_fields s =
     (if cicp_unspecified s then [fl 0]
      else [fl 1] @ [(Literal 8, color_primaries s)] @ [(Literal 8, transfer_characteristics s)] @
        [(Literal 8, matrix_coefficients s)])"

definition subsampling_fields :: "SequenceHeader \<Rightarrow> (field \<times> int) list" where
  "subsampling_fields s =
     (if sq_profile s = 2 \<and> sq_bit_depth s = 12
      then [fl (subsampling_x s)] @ (if subsampling_x s = 0 then [] else [fl (subsampling_y s)]) else [])"

definition color_fields :: "SequenceHeader \<Rightarrow> (field \<times> int) list" where
  "color_fields s =
     bitdepth_fields s @ (if sq_profile s \<noteq> 1 then [fl (sq_monochrome s)] else []) @ description_fields s @
     (if sq_monochrome s \<noteq> 0 then [fl (color_range s)]
      else
        (if is_srgb s then []
         else [fl (color_range s)] @
           subsampling_fields s @
           (if subsampling_x s = 1 \<and> subsampling_y s = 1 then [(Literal 2, chroma_sample_position s)] else [])) @
        [fl (separate_uv_delta_q s)])"

definition timing_fields :: "aom_timing_info \<Rightarrow> (field \<times> int) list" where
  "timing_fields t =
     [(Unsigned_Literal 32, num_units_in_display_tick t)] @ [(Unsigned_Literal 32, time_scale t)] @
     [fl (equal_picture_interval t)] @
     (if equal_picture_interval t \<noteq> 0 then [(Uvlc, num_ticks_per_picture t - 1)] else [])"

definition decoder_model_fields :: "aom_dec_model_info \<Rightarrow> (field \<times> int) list" where
  "decoder_model_fields d =
     [(Literal 5, encoder_decoder_buffer_delay_length d - 1)] @ [(Unsigned_Literal 32, num_units_in_decoding_tick d)] @
     [(Literal 5, buffer_removal_time_length d - 1)] @ [(Literal 5, frame_presentation_time_length d - 1)]"

definition op_model_fields :: "SequenceHeader \<Rightarrow> aom_dec_model_op_parameters \<Rightarrow> (field \<times> int) list" where
  "op_model_fields s op =
     (let n = nat (encoder_decoder_buffer_delay_length (decoder_model_info s)) in
      if decoder_model_info_present_flag s \<noteq> 0 then
        [fl (decoder_model_param_present_flag op)] @
        (if decoder_model_param_present_flag op \<noteq> 0
         then [(Unsigned_Literal n, decoder_buffer_delay op)] @ [(Unsigned_Literal n, encoder_buffer_delay op)] @
           [fl (low_delay_mode_flag op)] else [])
      else [])"

definition op_display_fields :: "SequenceHeader \<Rightarrow> aom_dec_model_op_parameters \<Rightarrow> (field \<times> int) list" where
  "op_display_fields s op =
     (if display_model_info_present_flag s \<noteq> 0 then
        [fl (display_model_param_present_flag op)] @
        (if display_model_param_present_flag op \<noteq> 0 then [(Literal 4, initial_display_delay op - 1)] else [])
      else [])"

definition level_fields :: "SequenceHeader \<Rightarrow> nat \<Rightarrow> (field \<times> int) list" where
  "level_fields s i =
     [(Literal 12, operating_point_idc s ! i)] @ [(Literal 5, seq_level_idx s ! i)] @
     (if seq_level_idx s ! i \<ge> SEQ_LEVEL_4_0 then [fl (seq_tier s ! i)] else [])"

fun op_fields :: "SequenceHeader \<Rightarrow> nat \<Rightarrow> nat \<Rightarrow> (field \<times> int) list" where
  "op_fields s 0 i = []"
| "op_fields s (Suc m) i =
     level_fields s i @ op_model_fields s (sq_op_params s ! i) @ op_display_fields s (sq_op_params s ! i) @
     op_fields s m (Suc i)"

definition model_fields :: "SequenceHeader \<Rightarrow> (field \<times> int) list" where
  "model_fields s =
     (if timing_info_present s \<noteq> 0 then
        timing_fields (timing_info s) @ [fl (decoder_model_info_present_flag s)] @
        (if decoder_model_info_present_flag s \<noteq> 0 then decoder_model_fields (decoder_model_info s) else [])
      else [])"

definition points_fields :: "SequenceHeader \<Rightarrow> (field \<times> int) list" where
  "points_fields s =
     [(Literal 3, sq_profile s)] @ [fl (still_picture s)] @ [fl (reduced_still_picture_hdr s)] @
     (if reduced_still_picture_hdr s \<noteq> 0 then [(Literal 5, seq_level_idx s ! 0)]
      else
        [fl (timing_info_present s)] @ model_fields s @
        [fl (display_model_info_present_flag s)] @ [(Literal 5, operating_points_cnt_minus_1 s)] @
        op_fields s (nat (operating_points_cnt_minus_1 s + 1)) 0)"

definition frame_id_fields :: "SequenceHeader \<Rightarrow> (field \<times> int) list" where
  "frame_id_fields s =
     (if reduced_still_picture_hdr s = 0 then
        [fl (frame_id_numbers_present_flag s)] @
        (if frame_id_numbers_present_flag s \<noteq> 0
         then [(Literal 4, delta_frame_id_length s - 2)] @ [(Literal 3, frame_id_length s - delta_frame_id_length s - 1)] else [])
      else [])"

abbreviation choice_fields :: "int \<Rightarrow> (field \<times> int) list" where
  "choice_fields v \<equiv> if v = 2 then [fl 1] else [fl 0] @ [fl v]"

definition screen_fields :: "SequenceHeader \<Rightarrow> (field \<times> int) list" where
  "screen_fields s = choice_fields (force_screen_content_tools s) @
     (if force_screen_content_tools s > 0 then choice_fields (force_integer_mv s) else [])"

definition inter_fields :: "SequenceHeader \<Rightarrow> (field \<times> int) list" where
  "inter_fields s =
     (let oh = order_hint_info s in
      if reduced_still_picture_hdr s = 0 then
        [fl (enable_interintra_compound s)] @ [fl (enable_masked_compound s)] @ [fl (enable_warped_motion s)] @
        [fl (enable_dual_filter s)] @ [fl (enable_order_hint oh)] @
        (if enable_order_hint oh \<noteq> 0 then [fl (enable_dist_wtd_comp oh)] @ [fl (enable_ref_frame_mvs oh)] else []) @
        screen_fields s @
        (if enable_order_hint oh \<noteq> 0 then [(Literal 3, order_hint_bits_minus_1 oh)] else [])
      else [])"

definition tool_fields :: "SequenceHeader \<Rightarrow> (field \<times> int) list" where
  "tool_fields s =
     [(Literal 4, num_bits_width s - 1)] @ [(Literal 4, num_bits_height s - 1)] @
     [(Literal (nat (num_bits_width s)), max_frame_width s - 1)] @
     [(Literal (nat (num_bits_height s)), max_frame_height s - 1)] @ frame_id_fields s @
     [fl (if sb_size_128 s then 1 else 0)] @ [fl (enable_filter_intra s)] @ [fl (enable_intra_edge_filter s)] @
     inter_fields s @ [fl (enable_superres s)] @ [fl (enable_cdef s)] @ [fl (enable_restoration s)]"

definition seq_fields :: "SequenceHeader \<Rightarrow> (field \<times> int) list" where
  "seq_fields s = points_fields s @ tool_fields s @ color_fields s @ [fl (film_grain_params_present s)]"


section \<open>The writers write these fields\<close>

definition writes :: "(aom_write_bit_buffer \<Rightarrow> aom_write_bit_buffer option) \<Rightarrow> (field \<times> int) list \<Rightarrow> bool" where
  "writes f fs \<longleftrightarrow> (fields_ok fs \<longrightarrow> (\<forall>wb. f wb = write_fields wb fs))"

named_theorems writes_intros

lemma write_fields_append: "write_fields wb (a @ b) = Option.bind (write_fields wb a) (\<lambda>wb. write_fields wb b)"
  by (induction wb a rule: write_fields.induct) (auto split: bind_splits)

lemma writes_nil [writes_intros]: "writes (\<lambda>wb. Some wb) []"
  by (simp add: writes_def)

lemma writes_bit [writes_intros]: "writes (\<lambda>wb. aom_wb_write_bit wb v) [fl v]"
proof -
  have "shr v 0 AND 1 = v" if "0 \<le> v" "v < 2" using that by (simp add: shr_def and_1_mod_2)
  then show ?thesis by (simp add: writes_def)
qed

lemma writes_literal [writes_intros]: "writes (\<lambda>wb. aom_wb_write_literal wb v n) [(Literal n, v)]"
  by (simp add: writes_def del: aom_wb_write_literal.simps)

lemma writes_unsigned_literal [writes_intros]: "writes (\<lambda>wb. aom_wb_write_unsigned_literal wb v n) [(Unsigned_Literal n, v)]"
  by (simp add: writes_def del: aom_wb_write_unsigned_literal.simps)

lemma writes_uvlc [writes_intros]: "writes (\<lambda>wb. aom_wb_write_uvlc wb (u32 v)) [(Uvlc, v)]"
  by (simp add: writes_def u32_id)

lemma writes_bind [writes_intros]:
  "writes f a \<Longrightarrow> writes g b \<Longrightarrow> writes (\<lambda>wb. Option.bind (f wb) (\<lambda>wb. g wb)) (a @ b)"
  by (auto simp: writes_def write_fields_append intro!: Option.bind_cong)

lemma writes_if [writes_intros]:
  "(c \<Longrightarrow> writes f a) \<Longrightarrow> (\<not> c \<Longrightarrow> writes g b) \<Longrightarrow> writes (\<lambda>wb. if c then f wb else g wb) (if c then a else b)"
  by simp

lemma writes_bitdepth [writes_intros]: "writes (\<lambda>wb. write_bitdepth s wb) (bitdepth_fields s)"
  unfolding write_bitdepth_def bitdepth_fields_def by (intro writes_intros)

lemma writes_color_config [writes_intros]: "writes (\<lambda>wb. write_color_config s wb) (color_fields s)"
  unfolding write_color_config_def color_fields_def description_fields_def subsampling_fields_def by (intro writes_intros)

lemma writes_timing_info [writes_intros]: "writes (\<lambda>wb. write_timing_info_header t wb) (timing_fields t)"
  unfolding write_timing_info_header_def timing_fields_def by (intro writes_intros)

lemma writes_decoder_model_info [writes_intros]: "writes (\<lambda>wb. write_decoder_model_info d wb) (decoder_model_fields d)"
  unfolding write_decoder_model_info_def decoder_model_fields_def by (intro writes_intros)

lemma writes_sequence_header [writes_intros]: "writes (\<lambda>wb. write_sequence_header s wb) (tool_fields s)"
  unfolding write_sequence_header_def write_sb_size_def tool_fields_def frame_id_fields_def inter_fields_def screen_fields_def Let_def append_assoc
  by (intro writes_intros)

lemma writes_op_points [writes_intros]: "writes (\<lambda>wb. write_op_points s m i wb) (op_fields s m i)"
proof (induction m arbitrary: i)
  case (Suc m)
  have "writes (\<lambda>wb. write_op_points s (Suc m) i wb) (([(Literal 12, operating_point_idc s ! i)] @ [(Literal 5, seq_level_idx s ! i)] @
      (if seq_level_idx s ! i \<ge> SEQ_LEVEL_4_0 then [fl (seq_tier s ! i)] else []) @
      op_model_fields s (sq_op_params s ! i) @ op_display_fields s (sq_op_params s ! i) @ op_fields s m (Suc i)))"
    unfolding write_op_points.simps op_model_fields_def op_display_fields_def
      write_dec_model_op_parameters_def write_bitstream_level_def Let_def
    by (intro writes_intros Suc.IH)
  then show ?case by (simp add: level_fields_def)
qed (simp add: writes_def)

lemma writes_payload:
  "writes (\<lambda>wb. do {
       wb \<leftarrow> write_profile (sq_profile s) wb;
       wb \<leftarrow> aom_wb_write_bit wb (still_picture s);
       wb \<leftarrow> aom_wb_write_bit wb (reduced_still_picture_hdr s);
       wb \<leftarrow> (if reduced_still_picture_hdr s \<noteq> 0 then write_bitstream_level (seq_level_idx s ! 0) wb
             else do {
               wb \<leftarrow> aom_wb_write_bit wb (timing_info_present s);
               wb \<leftarrow> (if timing_info_present s \<noteq> 0 then do {
                        wb \<leftarrow> write_timing_info_header (timing_info s) wb;
                        wb \<leftarrow> aom_wb_write_bit wb (decoder_model_info_present_flag s);
                        if decoder_model_info_present_flag s \<noteq> 0 then write_decoder_model_info (decoder_model_info s) wb
                        else Some wb
                      } else Some wb);
               wb \<leftarrow> aom_wb_write_bit wb (display_model_info_present_flag s);
               wb \<leftarrow> aom_wb_write_literal wb (operating_points_cnt_minus_1 s) 5;
               write_op_points s (nat (operating_points_cnt_minus_1 s + 1)) 0 wb
             });
       wb \<leftarrow> write_sequence_header s wb;
       wb \<leftarrow> write_color_config s wb;
       aom_wb_write_bit wb (film_grain_params_present s) }) (seq_fields s)"
  unfolding seq_fields_def points_fields_def model_fields_def write_profile_def write_bitstream_level_def append_assoc
  by (intro writes_intros)

lemma write_seq_fields:
  assumes "fields_ok (seq_fields s)"
  shows "av1_write_sequence_header_obu s dst =
    do { wb \<leftarrow> write_fields \<lparr>wb_bit_buffer = dst, wb_bit_offset = 0\<rparr> (seq_fields s);
         wb \<leftarrow> add_trailing_bits wb; Some (aom_wb_bytes_written wb, wb_bit_buffer wb) }"
  unfolding av1_write_sequence_header_obu_def
  by (simp only: writes_payload [of s, unfolded writes_def, rule_format, OF assms, symmetric] bind_assoc)


section \<open>The parsers read them back\<close>

text \<open>
  \<open>color_ok\<close> holds the assertions of \<open>write_color_config\<close>, \<open>point_ok\<close> the levels the decoder
  knows, and \<open>seq_ok\<close> the conditions on the whole header: its values fit their fields, the
  assertions of the writers hold and the timing is one the decoder accepts.
\<close>

definition color_ok :: "SequenceHeader \<Rightarrow> bool" where
  "color_ok s \<longleftrightarrow>
     (sq_bit_depth s = 8 \<or> sq_bit_depth s = 10 \<or> sq_profile s = 2 \<and> sq_bit_depth s = 12) \<and>
     (sq_profile s = 1 \<longrightarrow> sq_monochrome s = 0) \<and>
     (sq_monochrome s = 0 \<longrightarrow>
        (is_srgb s \<longrightarrow> subsampling_x s = 0 \<and> subsampling_y s = 0 \<and>
           (sq_profile s = 1 \<or> sq_profile s = 2 \<and> sq_bit_depth s = 12)) \<and>
        (sq_profile s = 0 \<longrightarrow> subsampling_x s = 1 \<and> subsampling_y s = 1) \<and>
        (sq_profile s = 1 \<longrightarrow> subsampling_x s = 0 \<and> subsampling_y s = 0) \<and>
        (sq_profile s = 2 \<longrightarrow>
           (if sq_bit_depth s = 12 then subsampling_x s = 0 \<longrightarrow> subsampling_y s = 0
            else subsampling_x s = 1 \<and> subsampling_y s = 0)) \<and>
        (matrix_coefficients s = AOM_CICP_MC_IDENTITY \<longrightarrow> subsampling_x s = 0 \<and> subsampling_y s = 0))"

definition point_ok :: "SequenceHeader \<Rightarrow> nat \<Rightarrow> bool" where
  "point_ok s i \<longleftrightarrow> is_valid_seq_level_idx (seq_level_idx s ! i) \<and>
     (display_model_info_present_flag s \<noteq> 0 \<and> display_model_param_present_flag (sq_op_params s ! i) \<noteq> 0 \<longrightarrow>
        initial_display_delay (sq_op_params s ! i) \<le> 10)"

definition points_cnt :: "SequenceHeader \<Rightarrow> nat" where
  "points_cnt s = nat (operating_points_cnt_minus_1 s + 1)"

definition timing_ok :: "SequenceHeader \<Rightarrow> bool" where
  "timing_ok s \<longleftrightarrow> num_units_in_display_tick (timing_info s) \<noteq> 0 \<and> time_scale (timing_info s) \<noteq> 0"

definition seq_ok :: "SequenceHeader \<Rightarrow> bool" where
  "seq_ok s \<longleftrightarrow>
     fields_ok (seq_fields s) \<and> sq_profile s \<le> 2 \<and> color_ok s \<and>
     (still_picture s = 0 \<longrightarrow> reduced_still_picture_hdr s = 0) \<and>
     (if reduced_still_picture_hdr s \<noteq> 0 then
        is_valid_seq_level_idx (seq_level_idx s ! 0) \<and> timing_info_present s = 0 \<and>
        decoder_model_info_present_flag s = 0 \<and> display_model_info_present_flag s = 0
      else
        (timing_info_present s \<noteq> 0 \<longrightarrow> timing_ok s) \<and> (timing_info_present s = 0 \<longrightarrow> decoder_model_info_present_flag s = 0) \<and>
        (\<forall>i < points_cnt s. point_ok s i) \<and>
        (frame_id_numbers_present_flag s \<noteq> 0 \<longrightarrow> frame_id_length s \<le> 16))"

lemma color_ok_depth:
  "color_ok s \<Longrightarrow> sq_bit_depth s = 8 \<or> sq_bit_depth s = 10 \<or> sq_profile s = 2 \<and> sq_bit_depth s = 12"
  by (simp add: color_ok_def)

lemma play_bitdepth:
  assumes "color_ok s" "sq_profile s0 = sq_profile s" "sq_profile s \<le> 2"
  shows "play (read_bitdepth s0) (bitdepth_fields s @ r) = Some (s0\<lparr>sq_bit_depth := sq_bit_depth s\<rparr>, r)"
  using color_ok_depth [OF assms(1)] assms(2,3) by (elim disjE) (simp_all add: read_bitdepth_def bitdepth_fields_def)

lemma play_description:
  "play (read_color_description s0) (description_fields s @ r) =
    Some (s0\<lparr>color_primaries := color_primaries s, transfer_characteristics := transfer_characteristics s,
      matrix_coefficients := matrix_coefficients s\<rparr>, r)"
  by (auto simp: read_color_description_def description_fields_def)

lemma flag_cases: "field_ok (Literal 1) v \<Longrightarrow> v = 0 \<or> v = 1"
  by auto

definition received_color :: "int \<Rightarrow> SequenceHeader \<Rightarrow> SequenceHeader \<Rightarrow> SequenceHeader" where
  "received_color lowbitdepth s s0 =
     (let mono = sq_monochrome s \<noteq> 0; sent = \<not> mono \<and> \<not> is_srgb s in
      s0\<lparr>sq_bit_depth := sq_bit_depth s, use_highbitdepth := b2i (sq_bit_depth s > 8 \<or> lowbitdepth = 0),
         sq_monochrome := sq_monochrome s, color_primaries := color_primaries s,
         transfer_characteristics := transfer_characteristics s, matrix_coefficients := matrix_coefficients s,
         color_range := if \<not> mono \<and> is_srgb s then 1 else color_range s,
         subsampling_x := if mono then 1 else subsampling_x s, subsampling_y := if mono then 1 else subsampling_y s,
         chroma_sample_position := if mono then 0
           else if sent \<and> subsampling_x s = 1 \<and> subsampling_y s = 1 then chroma_sample_position s
           else chroma_sample_position s0,
         separate_uv_delta_q := if mono then 0 else separate_uv_delta_q s\<rparr>)"

lemma play_subsampling:
  assumes ok: "color_ok s" and m: "sq_monochrome s = 0" and p: "sq_profile s = 0 \<or> sq_profile s = 1 \<or> sq_profile s = 2"
    and s0: "sq_profile s0 = sq_profile s" "sq_bit_depth s0 = sq_bit_depth s"
  shows "play (read_subsampling s0) (subsampling_fields s @ r) =
    Some (s0\<lparr>subsampling_x := subsampling_x s, subsampling_y := subsampling_y s\<rparr>, r)"
proof -
  consider "sq_profile s = 0" "subsampling_x s = 1" "subsampling_y s = 1" | "sq_profile s = 1" "subsampling_x s = 0" "subsampling_y s = 0"
    | "sq_profile s = 2" "sq_bit_depth s = 12" "subsampling_x s = 0" "subsampling_y s = 0"
    | "sq_profile s = 2" "sq_bit_depth s = 12" "subsampling_x s \<noteq> 0"
    | "sq_profile s = 2" "sq_bit_depth s \<noteq> 12" "subsampling_x s = 1" "subsampling_y s = 0"
    using ok m p unfolding color_ok_def by metis
  then show ?thesis using s0 by cases (simp_all add: read_subsampling_def subsampling_fields_def)
qed

lemma color_ok_rest:
  assumes "color_ok s" "sq_monochrome s = 0"
  shows "is_srgb s \<Longrightarrow> subsampling_x s = 0 \<and> subsampling_y s = 0 \<and> (sq_profile s = 1 \<or> sq_profile s = 2 \<and> sq_bit_depth s = 12)"
    and "matrix_coefficients s = AOM_CICP_MC_IDENTITY \<Longrightarrow> subsampling_x s = 0 \<and> subsampling_y s = 0"
  using assms by (simp_all add: color_ok_def)

lemma play_color:
  assumes f: "fields_ok (color_fields s)" and ok: "color_ok s" and p: "sq_profile s = 0 \<or> sq_profile s = 1 \<or> sq_profile s = 2"
    and s0: "sq_profile s0 = sq_profile s"
  shows "play (av1_read_color_config lbd s0) (color_fields s @ r) = Some (received_color lbd s s0, r)"
proof -
  have bd: "play (read_bitdepth s0) (bitdepth_fields s @ q) = Some (s0\<lparr>sq_bit_depth := sq_bit_depth s\<rparr>, q)" for q
    using play_bitdepth [OF ok s0] p by auto
  have "sq_profile s = 1 \<Longrightarrow> sq_monochrome s = 0" using ok by (simp add: color_ok_def)
  then have m: "play (if sq_profile s \<noteq> 1 then Flag Ret else Ret 0) ((if sq_profile s \<noteq> 1 then [fl (sq_monochrome s)] else []) @ q) =
      Some (sq_monochrome s, q)" for q by simp
  note sims = av1_read_color_config_def color_fields_def play_bind bd m play_description received_color_def s0 Let_def append_assoc
  consider "sq_monochrome s \<noteq> 0" | "sq_monochrome s = 0" "is_srgb s" | "sq_monochrome s = 0" "\<not> is_srgb s" by blast
  then show ?thesis
  proof cases
    case 1
    then show ?thesis by (simp add: sims)
  next
    case 2
    then show ?thesis using color_ok_rest [OF ok 2(1)] by (simp add: sims)
  next
    case 3
    have x: "(subsampling_x s \<noteq> 0 \<and> subsampling_y s \<noteq> 0) = (subsampling_x s = 1 \<and> subsampling_y s = 1)"
    proof (cases "sq_profile s = 2 \<and> sq_bit_depth s = 12 \<and> subsampling_x s \<noteq> 0")
      case True
      then have "field_ok (Literal 1) (subsampling_x s)" "field_ok (Literal 1) (subsampling_y s)"
        using f 3 by (simp_all add: color_fields_def subsampling_fields_def)
      then show ?thesis using flag_cases by auto
    next
      case False
      then have "subsampling_x s = 0 \<or> subsampling_x s = 1 \<and> (subsampling_y s = 0 \<or> subsampling_y s = 1)"
        using ok 3(1) p unfolding color_ok_def by metis
      then show ?thesis by auto
    qed
    have i: "(matrix_coefficients s = AOM_CICP_MC_IDENTITY \<and> (subsampling_x s \<noteq> 0 \<or> subsampling_y s \<noteq> 0)) = False"
      using color_ok_rest(2) [OF ok 3(1)] by blast
    note sub = play_subsampling [OF ok 3(1) p]
    show ?thesis
    proof (cases "subsampling_x s = 1 \<and> subsampling_y s = 1")
      case True
      then have "matrix_coefficients s \<noteq> AOM_CICP_MC_IDENTITY" using color_ok_rest(2) [OF ok 3(1)] by auto
      then show ?thesis using 3 True by (simp add: sims x i sub)
    next
      case False
      then have y: "(subsampling_x s = 1 \<and> subsampling_y s = 1) = False" by blast
      have z: "is_srgb s = False" using 3(2) by blast
      show ?thesis using color_ok_rest(2) [OF ok 3(1)] by (simp add: sims x i sub y z 3(1) cong: if_weak_cong)
    qed
  qed
qed


definition received_tools :: "SequenceHeader \<Rightarrow> SequenceHeader \<Rightarrow> SequenceHeader" where
  "received_tools s s0 =
     (let full = reduced_still_picture_hdr s = 0; oh = order_hint_info s;
          ids = full \<and> frame_id_numbers_present_flag s \<noteq> 0 in
      s0\<lparr>num_bits_width := num_bits_width s, num_bits_height := num_bits_height s,
         max_frame_width := max_frame_width s, max_frame_height := max_frame_height s,
         frame_id_numbers_present_flag := if full then frame_id_numbers_present_flag s else 0,
         delta_frame_id_length := if ids then delta_frame_id_length s else delta_frame_id_length s0,
         frame_id_length := if ids then frame_id_length s else frame_id_length s0,
         sb_size_128 := sb_size_128 s, mib_size := if sb_size_128 s then 32 else 16,
         mib_size_log2 := if sb_size_128 s then 5 else 4,
         enable_filter_intra := enable_filter_intra s, enable_intra_edge_filter := enable_intra_edge_filter s,
         enable_interintra_compound := if full then enable_interintra_compound s else 0,
         enable_masked_compound := if full then enable_masked_compound s else 0,
         enable_warped_motion := if full then enable_warped_motion s else 0,
         enable_dual_filter := if full then enable_dual_filter s else 0,
         order_hint_info := if full \<and> enable_order_hint oh \<noteq> 0 then oh
           else \<lparr>enable_order_hint = 0, order_hint_bits_minus_1 = -1, enable_dist_wtd_comp = 0, enable_ref_frame_mvs = 0\<rparr>,
         force_screen_content_tools := if full then force_screen_content_tools s else 2,
         force_integer_mv := if full \<and> force_screen_content_tools s > 0 then force_integer_mv s else 2,
         enable_superres := enable_superres s, enable_cdef := enable_cdef s, enable_restoration := enable_restoration s\<rparr>)"

lemma play_frame_ids:
  assumes "reduced_still_picture_hdr s0 = reduced_still_picture_hdr s"
    and "reduced_still_picture_hdr s = 0 \<Longrightarrow> frame_id_numbers_present_flag s \<noteq> 0 \<Longrightarrow> frame_id_length s \<le> 16"
  shows "play (read_frame_ids s0) (frame_id_fields s @ r) =
    Some (let ids = reduced_still_picture_hdr s = 0 \<and> frame_id_numbers_present_flag s \<noteq> 0 in
      s0\<lparr>frame_id_numbers_present_flag := if reduced_still_picture_hdr s = 0 then frame_id_numbers_present_flag s else 0,
         delta_frame_id_length := if ids then delta_frame_id_length s else delta_frame_id_length s0,
         frame_id_length := if ids then frame_id_length s else frame_id_length s0\<rparr>, r)"
proof -
  consider "reduced_still_picture_hdr s \<noteq> 0" | "reduced_still_picture_hdr s = 0" "frame_id_numbers_present_flag s = 0"
    | "reduced_still_picture_hdr s = 0" "frame_id_numbers_present_flag s \<noteq> 0" by blast
  then show ?thesis using assms
    by cases (simp_all add: read_frame_ids_def frame_id_fields_def play_bind)
qed

lemma play_screen_content:
  "play (read_screen_content s0) (screen_fields s @ r) =
    Some (s0\<lparr>force_screen_content_tools := force_screen_content_tools s,
      force_integer_mv := if force_screen_content_tools s > 0 then force_integer_mv s else 2\<rparr>, r)"
  by (cases "force_screen_content_tools s > 0"; cases "force_screen_content_tools s = 2"; cases "force_integer_mv s = 2")
    (simp_all add: read_screen_content_def screen_fields_def play_bind)

lemma play_inter:
  assumes "reduced_still_picture_hdr s0 = reduced_still_picture_hdr s"
  shows "play (read_inter_tools s0) (inter_fields s @ r) =
    Some (let full = reduced_still_picture_hdr s = 0; oh = order_hint_info s in
      s0\<lparr>enable_interintra_compound := if full then enable_interintra_compound s else 0,
         enable_masked_compound := if full then enable_masked_compound s else 0,
         enable_warped_motion := if full then enable_warped_motion s else 0,
         enable_dual_filter := if full then enable_dual_filter s else 0,
         order_hint_info := if full \<and> enable_order_hint oh \<noteq> 0 then oh
           else \<lparr>enable_order_hint = 0, order_hint_bits_minus_1 = -1, enable_dist_wtd_comp = 0, enable_ref_frame_mvs = 0\<rparr>,
         force_screen_content_tools := if full then force_screen_content_tools s else 2,
         force_integer_mv := if full \<and> force_screen_content_tools s > 0 then force_integer_mv s else 2\<rparr>, r)"
proof (cases "reduced_still_picture_hdr s = 0")
  case False
  then show ?thesis using assms(1) by (simp add: read_inter_tools_def inter_fields_def Let_def)
next
  case True
  show ?thesis
  proof (cases "enable_order_hint (order_hint_info s) = 0")
    case oh: True
    then show ?thesis using assms(1) True
      by (simp add: read_inter_tools_def inter_fields_def play_bind play_screen_content Let_def)
  next
    case False
    then show ?thesis using assms(1) True
      by (simp add: read_inter_tools_def inter_fields_def play_bind play_screen_content Let_def)
  qed
qed


lemma play_tools:
  assumes "reduced_still_picture_hdr s0 = reduced_still_picture_hdr s" "1 \<le> num_bits_width s" "1 \<le> num_bits_height s"
    and "reduced_still_picture_hdr s = 0 \<Longrightarrow> frame_id_numbers_present_flag s \<noteq> 0 \<Longrightarrow> frame_id_length s \<le> 16"
  shows "play (av1_read_sequence_header s0) (tool_fields s @ r) = Some (received_tools s s0, r)"
proof -
  let ?s1 = "s0\<lparr>num_bits_width := num_bits_width s, num_bits_height := num_bits_height s,
    max_frame_width := max_frame_width s, max_frame_height := max_frame_height s\<rparr>"
  have "reduced_still_picture_hdr ?s1 = reduced_still_picture_hdr s" using assms(1) by simp
  note fi = play_frame_ids [OF this assms(4)]
  show ?thesis using assms(1-3)
    by (simp add: av1_read_sequence_header_def tool_fields_def play_bind fi play_inter received_tools_def setup_sb_size_def Let_def)
qed

section \<open>Operating points\<close>

lemma kbps_positive: "l < 32 \<Longrightarrow> main_kbps ! l > 0" "8 \<le> l \<Longrightarrow> l < 32 \<Longrightarrow> high_kbps ! l > 0"
proof -
  have "\<forall>x \<in> set main_kbps. x > 0" "length main_kbps = 32" by (simp_all add: main_kbps_def)
  then show "l < 32 \<Longrightarrow> main_kbps ! l > 0" by simp
  have "\<forall>x \<in> set (drop 8 high_kbps). x > 0" "length high_kbps = 32" by (simp_all add: high_kbps_def)
  then show "8 \<le> l \<Longrightarrow> l < 32 \<Longrightarrow> high_kbps ! l > 0" using nth_mem [of "l - 8" "drop 8 high_kbps"] by simp
qed

lemma max_level_bitrate_positive:
  assumes "0 \<le> profile" "profile \<le> 2" "0 \<le> level" "level < 32" "tier \<noteq> 0 \<Longrightarrow> 8 \<le> level"
  shows "av1_max_level_bitrate profile level tier > 0"
proof -
  have "profile = 0 \<or> profile = 1 \<or> profile = 2" using assms(1,2) by auto
  then have "bitrate_profile_factor ! nat profile > 0" by (auto simp: bitrate_profile_factor_def)
  moreover have "nat level < 32" using assms(3,4) by simp
  moreover have "tier \<noteq> 0 \<Longrightarrow> 8 \<le> nat level" using assms(5) by auto
  ultimately show ?thesis using kbps_positive [of "nat level"] by (auto simp: av1_max_level_bitrate_def)
qed

text \<open>What is transmitted of an operating point's parameters.\<close>

definition same_op :: "SequenceHeader \<Rightarrow> aom_dec_model_op_parameters \<Rightarrow> aom_dec_model_op_parameters \<Rightarrow> bool" where
  "same_op s op op' \<longleftrightarrow>
     (decoder_model_info_present_flag s \<noteq> 0 \<longrightarrow>
        decoder_model_param_present_flag op' = decoder_model_param_present_flag op \<and>
        (decoder_model_param_present_flag op \<noteq> 0 \<longrightarrow>
           decoder_buffer_delay op' = decoder_buffer_delay op \<and> encoder_buffer_delay op' = encoder_buffer_delay op \<and>
           low_delay_mode_flag op' = low_delay_mode_flag op)) \<and>
     (display_model_info_present_flag s \<noteq> 0 \<longrightarrow>
        display_model_param_present_flag op' = display_model_param_present_flag op \<and>
        (display_model_param_present_flag op \<noteq> 0 \<longrightarrow> initial_display_delay op' = initial_display_delay op))"

definition received_tier :: "SequenceHeader \<Rightarrow> nat \<Rightarrow> int" where
  "received_tier s i = (if seq_level_idx s ! i \<ge> SEQ_LEVEL_4_0 then seq_tier s ! i else 0)"

lemma play_level:
  assumes "is_valid_seq_level_idx (seq_level_idx s ! i)"
  shows "play (read_op_level s0 i) (level_fields s i @ r) =
    Some (s0\<lparr>operating_point_idc := (operating_point_idc s0)[i := operating_point_idc s ! i],
      has_nonzero_operating_point_idc := has_nonzero_operating_point_idc s0 \<or> operating_point_idc s ! i \<noteq> 0,
      seq_level_idx := (seq_level_idx s0)[i := seq_level_idx s ! i],
      seq_tier := (seq_tier s0)[i := received_tier s i]\<rparr>, r)"
  using assms by (simp add: read_op_level_def level_fields_def play_bind received_tier_def Let_def)

text \<open>The headers agree on what the parser has read before the operating points.\<close>

definition same_models :: "SequenceHeader \<Rightarrow> SequenceHeader \<Rightarrow> bool" where
  "same_models s s0 \<longleftrightarrow> sq_profile s0 = sq_profile s \<and>
     decoder_model_info_present_flag s0 = decoder_model_info_present_flag s \<and>
     display_model_info_present_flag s0 = display_model_info_present_flag s \<and>
     (decoder_model_info_present_flag s \<noteq> 0 \<longrightarrow> decoder_model_info s0 = decoder_model_info s)"

lemma play_op_model:
  assumes "same_models s s0"
  shows "\<exists>op'. play (read_op_model s0 i) (op_model_fields s op @ r) = Some (op', r) \<and>
    (decoder_model_info_present_flag s \<noteq> 0 \<longrightarrow>
        decoder_model_param_present_flag op' = decoder_model_param_present_flag op \<and>
        (decoder_model_param_present_flag op \<noteq> 0 \<longrightarrow>
           decoder_buffer_delay op' = decoder_buffer_delay op \<and> encoder_buffer_delay op' = encoder_buffer_delay op \<and>
           low_delay_mode_flag op' = low_delay_mode_flag op))"
  using assms by (simp add: same_models_def read_op_model_def op_model_fields_def av1_read_op_parameters_info_def Let_def)

lemma play_op_rates:
  assumes "0 \<le> sq_profile s0" "sq_profile s0 \<le> 2" "0 \<le> seq_level_idx s0 ! i" "seq_level_idx s0 ! i < 32"
    "seq_tier s0 ! i \<noteq> 0 \<Longrightarrow> 8 \<le> seq_level_idx s0 ! i"
  shows "\<exists>op'. play (op_rates s0 i op) r = Some (op', r) \<and>
    decoder_model_param_present_flag op' = decoder_model_param_present_flag op \<and>
    (decoder_model_param_present_flag op \<noteq> 0 \<longrightarrow>
       decoder_buffer_delay op' = decoder_buffer_delay op \<and> encoder_buffer_delay op' = encoder_buffer_delay op \<and>
       low_delay_mode_flag op' = low_delay_mode_flag op)"
proof -
  have "av1_max_level_bitrate (sq_profile s0) (seq_level_idx s0 ! i) (seq_tier s0 ! i) \<noteq> 0"
    using max_level_bitrate_positive [OF assms(1-4), of "seq_tier s0 ! i"] assms(5) by force
  then show ?thesis by (simp add: op_rates_def Let_def)
qed

lemma play_op_display:
  assumes "same_models s s0" "display_model_info_present_flag s \<noteq> 0 \<Longrightarrow> display_model_param_present_flag op \<noteq> 0 \<Longrightarrow> initial_display_delay op \<le> 10"
  shows "\<exists>op'. play (read_op_display s0 opa) (op_display_fields s op @ r) = Some (op', r) \<and>
    decoder_model_param_present_flag op' = decoder_model_param_present_flag opa \<and>
    decoder_buffer_delay op' = decoder_buffer_delay opa \<and> encoder_buffer_delay op' = encoder_buffer_delay opa \<and>
    low_delay_mode_flag op' = low_delay_mode_flag opa \<and>
    (display_model_info_present_flag s \<noteq> 0 \<longrightarrow>
        display_model_param_present_flag op' = display_model_param_present_flag op \<and>
        (display_model_param_present_flag op \<noteq> 0 \<longrightarrow> initial_display_delay op' = initial_display_delay op))"
proof (cases "display_model_info_present_flag s \<noteq> 0 \<and> display_model_param_present_flag op \<noteq> 0")
  case True
  then show ?thesis using assms by (simp add: same_models_def read_op_display_def op_display_fields_def Let_def)
next
  case False
  then show ?thesis using assms(1) by (auto simp: same_models_def read_op_display_def op_display_fields_def Let_def)
qed


text \<open>One operating point: what the three parsers make of its parameters.\<close>

lemma play_op:
  assumes sm: "same_models s s0" and prof: "0 \<le> sq_profile s0" "sq_profile s0 \<le> 2" and pt: "point_ok s i"
    and lvl: "0 \<le> seq_level_idx s0 ! i" "seq_level_idx s0 ! i < 32" "seq_tier s0 ! i \<noteq> 0 \<Longrightarrow> 8 \<le> seq_level_idx s0 ! i"
  shows "\<exists>op'. play (parser_bind (read_op_model s0 i) (\<lambda>op. parser_bind (op_rates s0 i op) (\<lambda>op.
      parser_bind (read_op_display s0 op) k)))
        (op_model_fields s (sq_op_params s ! i) @ op_display_fields s (sq_op_params s ! i) @ r) = play (k op') r \<and>
    same_op s (sq_op_params s ! i) op'"
proof -
  let ?op = "sq_op_params s ! i" let ?d = "op_display_fields s ?op @ r"
  obtain op1 where 1: "play (read_op_model s0 i) (op_model_fields s ?op @ ?d) = Some (op1, ?d)"
    "decoder_model_info_present_flag s \<noteq> 0 \<longrightarrow>
        decoder_model_param_present_flag op1 = decoder_model_param_present_flag ?op \<and>
        (decoder_model_param_present_flag ?op \<noteq> 0 \<longrightarrow>
           decoder_buffer_delay op1 = decoder_buffer_delay ?op \<and> encoder_buffer_delay op1 = encoder_buffer_delay ?op \<and>
           low_delay_mode_flag op1 = low_delay_mode_flag ?op)"
    using play_op_model [OF sm] by metis
  obtain op2 where 2: "play (op_rates s0 i op1) ?d = Some (op2, ?d)"
    "decoder_model_param_present_flag op2 = decoder_model_param_present_flag op1"
    "decoder_model_param_present_flag op1 \<noteq> 0 \<longrightarrow>
       decoder_buffer_delay op2 = decoder_buffer_delay op1 \<and> encoder_buffer_delay op2 = encoder_buffer_delay op1 \<and>
       low_delay_mode_flag op2 = low_delay_mode_flag op1"
    using play_op_rates [OF prof lvl] by metis
  have "display_model_info_present_flag s \<noteq> 0 \<Longrightarrow> display_model_param_present_flag ?op \<noteq> 0 \<Longrightarrow> initial_display_delay ?op \<le> 10"
    using pt by (simp add: point_ok_def)
  from play_op_display [OF sm this, of op2 r] obtain op3 where 3: "play (read_op_display s0 op2) ?d = Some (op3, r)"
    "decoder_model_param_present_flag op3 = decoder_model_param_present_flag op2"
    "decoder_buffer_delay op3 = decoder_buffer_delay op2" "encoder_buffer_delay op3 = encoder_buffer_delay op2"
    "low_delay_mode_flag op3 = low_delay_mode_flag op2"
    "display_model_info_present_flag s \<noteq> 0 \<longrightarrow>
        display_model_param_present_flag op3 = display_model_param_present_flag ?op \<and>
        (display_model_param_present_flag ?op \<noteq> 0 \<longrightarrow> initial_display_delay op3 = initial_display_delay ?op)" by blast
  have "same_op s ?op op3" using 1(2) 2(2,3) 3(2-) by (simp add: same_op_def)
  then show ?thesis using 1(1) 2(1) 3(1) by (intro exI [of _ op3]) (simp add: play_bind)
qed

text \<open>The arrays of the decoder's header are long enough for every operating point.\<close>

definition arrays_ok :: "SequenceHeader \<Rightarrow> bool" where
  "arrays_ok s \<longleftrightarrow> length (operating_point_idc s) = 32 \<and> length (seq_level_idx s) = 32 \<and> length (seq_tier s) = 32 \<and>
     length (sq_op_params s) = 33"

definition same_point :: "SequenceHeader \<Rightarrow> SequenceHeader \<Rightarrow> nat \<Rightarrow> bool" where
  "same_point s s' i \<longleftrightarrow> operating_point_idc s' ! i = operating_point_idc s ! i \<and> seq_level_idx s' ! i = seq_level_idx s ! i \<and>
     seq_tier s' ! i = received_tier s i \<and> same_op s (sq_op_params s ! i) (sq_op_params s' ! i)"

text \<open>The loop over the operating points keeps what was read before it.\<close>

definition points_only :: "SequenceHeader \<Rightarrow> SequenceHeader \<Rightarrow> bool" where
  "points_only s0 s' \<longleftrightarrow>
     sq_profile s' = sq_profile s0 \<and> still_picture s' = still_picture s0 \<and>
     reduced_still_picture_hdr s' = reduced_still_picture_hdr s0 \<and> timing_info_present s' = timing_info_present s0 \<and>
     timing_info s' = timing_info s0 \<and> decoder_model_info s' = decoder_model_info s0 \<and>
     decoder_model_info_present_flag s' = decoder_model_info_present_flag s0 \<and>
     display_model_info_present_flag s' = display_model_info_present_flag s0 \<and>
     operating_points_cnt_minus_1 s' = operating_points_cnt_minus_1 s0"

lemma play_op_points:
  assumes "same_models s s0" "arrays_ok s0" "0 \<le> sq_profile s" "sq_profile s \<le> 2" "i + m \<le> 32"
    and "\<forall>j. i \<le> j \<and> j < i + m \<longrightarrow> point_ok s j" "fields_ok (op_fields s m i)" "\<forall>j < i. same_point s s0 j"
    and "has_nonzero_operating_point_idc s0 = (\<exists>j < i. operating_point_idc s ! j \<noteq> 0)"
  shows "\<exists>s'. play (read_op_points m i s0) (op_fields s m i @ r) = Some (s', r) \<and> points_only s0 s' \<and> arrays_ok s' \<and>
    (\<forall>j < i + m. same_point s s' j) \<and>
    has_nonzero_operating_point_idc s' = (\<exists>j < i + m. operating_point_idc s ! j \<noteq> 0)"
  using assms
proof (induction m arbitrary: i s0)
  case 0
  then show ?case by (simp add: points_only_def)
next
  case (Suc m)
  let ?s1 = "s0\<lparr>operating_point_idc := (operating_point_idc s0)[i := operating_point_idc s ! i],
      has_nonzero_operating_point_idc := has_nonzero_operating_point_idc s0 \<or> operating_point_idc s ! i \<noteq> 0,
      seq_level_idx := (seq_level_idx s0)[i := seq_level_idx s ! i],
      seq_tier := (seq_tier s0)[i := received_tier s i]\<rparr>"
  have i: "i < 32" using Suc.prems(5) by simp
  have pt: "point_ok s i" using Suc.prems(6) by simp
  have lv: "play (read_op_level s0 i) (level_fields s i @ q) = Some (?s1, q)" for q
    using play_level pt by (simp add: point_ok_def)
  have fs: "fields_ok (level_fields s i)" "fields_ok (op_fields s m (Suc i))" using Suc.prems(7) by simp_all
  have rng: "0 \<le> seq_level_idx s ! i" "seq_level_idx s ! i < 32" using fs(1) by (simp_all add: level_fields_def)
  have at: "seq_level_idx ?s1 ! i = seq_level_idx s ! i" "seq_tier ?s1 ! i = received_tier s i"
    using i Suc.prems(2) by (simp_all add: arrays_ok_def)
  have sm: "same_models s ?s1" using Suc.prems(1) by (simp add: same_models_def)
  have pf: "0 \<le> sq_profile ?s1" "sq_profile ?s1 \<le> 2" using Suc.prems(1,3,4) by (simp_all add: same_models_def)
  have tr: "seq_tier ?s1 ! i \<noteq> 0 \<Longrightarrow> 8 \<le> seq_level_idx ?s1 ! i" unfolding at by (simp add: received_tier_def SEQ_LEVEL_4_0_def split: if_splits)
  obtain op' where op: "play (parser_bind (read_op_model ?s1 i) (\<lambda>op. parser_bind (op_rates ?s1 i op) (\<lambda>op.
      parser_bind (read_op_display ?s1 op) (\<lambda>op. read_op_points m (Suc i) (?s1\<lparr>sq_op_params := (sq_op_params ?s1)[i := op]\<rparr>)))))
        (op_model_fields s (sq_op_params s ! i) @ op_display_fields s (sq_op_params s ! i) @ op_fields s m (Suc i) @ r) =
      play (read_op_points m (Suc i) (?s1\<lparr>sq_op_params := (sq_op_params ?s1)[i := op']\<rparr>)) (op_fields s m (Suc i) @ r)"
    and same: "same_op s (sq_op_params s ! i) op'"
    using play_op [OF sm pf pt _ _ tr] rng unfolding at by blast
  let ?s2 = "?s1\<lparr>sq_op_params := (sq_op_params ?s1)[i := op']\<rparr>"
  have a2: "arrays_ok ?s2" using Suc.prems(2) by (simp add: arrays_ok_def)
  have sp: "\<forall>j < Suc i. same_point s ?s2 j"
    using Suc.prems(2,8) same i by (auto simp: same_point_def arrays_ok_def less_Suc_eq)
  have hn: "has_nonzero_operating_point_idc ?s2 = (\<exists>j < Suc i. operating_point_idc s ! j \<noteq> 0)"
    using Suc.prems(9) by (auto simp: less_Suc_eq)
  have "\<exists>s'. play (read_op_points m (Suc i) ?s2) (op_fields s m (Suc i) @ r) = Some (s', r) \<and> points_only ?s2 s' \<and> arrays_ok s' \<and>
    (\<forall>j < Suc i + m. same_point s s' j) \<and>
    has_nonzero_operating_point_idc s' = (\<exists>j < Suc i + m. operating_point_idc s ! j \<noteq> 0)"
    using Suc.prems(5,6) sm by (intro Suc.IH a2 sp hn fs(2) Suc.prems(3,4)) (simp_all add: same_models_def)
  then obtain s' where s': "play (read_op_points m (Suc i) ?s2) (op_fields s m (Suc i) @ r) = Some (s', r)" "points_only ?s2 s'"
    "arrays_ok s'" "\<forall>j < Suc i + m. same_point s s' j"
    "has_nonzero_operating_point_idc s' = (\<exists>j < Suc i + m. operating_point_idc s ! j \<noteq> 0)" by blast
  have "points_only s0 s'" using s'(2) by (simp add: points_only_def)
  moreover have "play (read_op_points (Suc m) i s0) (op_fields s (Suc m) i @ r) = Some (s', r)"
    using op s'(1) by (simp add: play_bind [of "read_op_level s0 i"] lv)
  ultimately show ?case using s'(3-) by (intro exI [of _ s']) simp
qed


text \<open>What the first part of the parser leaves in the header.\<close>

definition same_points :: "SequenceHeader \<Rightarrow> SequenceHeader \<Rightarrow> bool" where
  "same_points s s' \<longleftrightarrow>
     sq_profile s' = sq_profile s \<and> still_picture s' = still_picture s \<and>
     reduced_still_picture_hdr s' = reduced_still_picture_hdr s \<and>
     (if reduced_still_picture_hdr s \<noteq> 0 then
        operating_points_cnt_minus_1 s' = 0 \<and> operating_point_idc s' ! 0 = 0 \<and> \<not> has_nonzero_operating_point_idc s' \<and>
        seq_level_idx s' ! 0 = seq_level_idx s ! 0
      else
        timing_info_present s' = timing_info_present s \<and>
        (timing_info_present s \<noteq> 0 \<longrightarrow>
           num_units_in_display_tick (timing_info s') = num_units_in_display_tick (timing_info s) \<and>
           time_scale (timing_info s') = time_scale (timing_info s) \<and>
           equal_picture_interval (timing_info s') = equal_picture_interval (timing_info s) \<and>
           (equal_picture_interval (timing_info s) \<noteq> 0 \<longrightarrow>
              num_ticks_per_picture (timing_info s') = num_ticks_per_picture (timing_info s))) \<and>
        decoder_model_info_present_flag s' = decoder_model_info_present_flag s \<and>
        (decoder_model_info_present_flag s \<noteq> 0 \<longrightarrow> decoder_model_info s' = decoder_model_info s) \<and>
        display_model_info_present_flag s' = display_model_info_present_flag s \<and>
        operating_points_cnt_minus_1 s' = operating_points_cnt_minus_1 s \<and>
        (\<forall>i < points_cnt s. same_point s s' i) \<and>
        has_nonzero_operating_point_idc s' = (\<exists>i < points_cnt s. operating_point_idc s ! i \<noteq> 0))"

lemma play_timing:
  assumes "timing_ok s" "fields_ok (timing_fields (timing_info s))"
  shows "\<exists>t'. play (av1_read_timing_info_header t) (timing_fields (timing_info s) @ r) = Some (t', r) \<and>
    num_units_in_display_tick t' = num_units_in_display_tick (timing_info s) \<and> time_scale t' = time_scale (timing_info s) \<and>
    equal_picture_interval t' = equal_picture_interval (timing_info s) \<and>
    (equal_picture_interval (timing_info s) \<noteq> 0 \<longrightarrow> num_ticks_per_picture t' = num_ticks_per_picture (timing_info s))"
  using assms by (cases "equal_picture_interval (timing_info s) = 0")
    (auto simp: timing_ok_def av1_read_timing_info_header_def timing_fields_def Let_def)

lemma play_decoder_model: "play (av1_read_decoder_model_info d0) (decoder_model_fields d @ r) = Some (d, r)"
  by (simp add: av1_read_decoder_model_info_def decoder_model_fields_def)

lemma play_models:
  assumes "timing_info_present s \<noteq> 0 \<longrightarrow> timing_ok s" "timing_info_present s = 0 \<longrightarrow> decoder_model_info_present_flag s = 0"
    "timing_info_present s \<noteq> 0 \<longrightarrow> fields_ok (timing_fields (timing_info s))"
  shows "\<exists>ti di. play (read_models s0 (timing_info_present s)) (model_fields s @ r) =
      Some (s0\<lparr>timing_info_present := timing_info_present s, timing_info := ti,
        decoder_model_info_present_flag := decoder_model_info_present_flag s, decoder_model_info := di\<rparr>, r) \<and>
    (timing_info_present s \<noteq> 0 \<longrightarrow>
       num_units_in_display_tick ti = num_units_in_display_tick (timing_info s) \<and> time_scale ti = time_scale (timing_info s) \<and>
       equal_picture_interval ti = equal_picture_interval (timing_info s) \<and>
       (equal_picture_interval (timing_info s) \<noteq> 0 \<longrightarrow> num_ticks_per_picture ti = num_ticks_per_picture (timing_info s))) \<and>
    (decoder_model_info_present_flag s \<noteq> 0 \<longrightarrow> di = decoder_model_info s)"
proof (cases "timing_info_present s = 0")
  case True
  then show ?thesis using assms(2) by (intro exI [of _ "timing_info s0"] exI [of _ "decoder_model_info s0"])
      (simp add: read_models_def model_fields_def)
next
  case False
  define q where "q = [fl (decoder_model_info_present_flag s)] @
    (if decoder_model_info_present_flag s \<noteq> 0 then decoder_model_fields (decoder_model_info s) else []) @ r"
  obtain ti where ti: "play (av1_read_timing_info_header (timing_info s0)) (timing_fields (timing_info s) @ q) = Some (ti, q)"
    "num_units_in_display_tick ti = num_units_in_display_tick (timing_info s)" "time_scale ti = time_scale (timing_info s)"
    "equal_picture_interval ti = equal_picture_interval (timing_info s)"
    "equal_picture_interval (timing_info s) \<noteq> 0 \<longrightarrow> num_ticks_per_picture ti = num_ticks_per_picture (timing_info s)"
    using play_timing [of s "timing_info s0" q] assms(1,3) False by auto
  show ?thesis using False ti
    by (intro exI [of _ ti] exI [of _ "if decoder_model_info_present_flag s \<noteq> 0 then decoder_model_info s else decoder_model_info s0"])
      (simp add: read_models_def model_fields_def play_bind play_decoder_model q_def)
qed

lemma seq_ok_parts:
  assumes "seq_ok s"
  shows "fields_ok (points_fields s)" "fields_ok (tool_fields s)" "fields_ok (color_fields s)" "color_ok s"
    "0 \<le> sq_profile s" "sq_profile s \<le> 2"
  using assms by (simp_all add: seq_ok_def seq_fields_def points_fields_def)

lemma play_points:
  assumes ok: "seq_ok s" and a: "arrays_ok s0"
  shows "\<exists>s'. play (read_seq_points s0) (points_fields s @ r) = Some (s', r) \<and> same_points s s' \<and> arrays_ok s'"
proof (cases "reduced_still_picture_hdr s = 0")
  case False
  then show ?thesis using ok a seq_ok_parts(5,6) [OF ok]
    by (auto simp: read_seq_points_def points_fields_def seq_ok_def same_points_def arrays_ok_def Let_def)
next
  case True
  let ?s1 = "s0\<lparr>sq_profile := sq_profile s, still_picture := still_picture s, reduced_still_picture_hdr := 0\<rparr>"
  have fs: "fields_ok (op_fields s (points_cnt s) 0)" "operating_points_cnt_minus_1 s < 32" "0 \<le> operating_points_cnt_minus_1 s"
    "fields_ok (model_fields s)"
    using seq_ok_parts(1) [OF ok] True by (simp_all add: points_fields_def points_cnt_def)
  have ft: "timing_info_present s \<noteq> 0 \<longrightarrow> fields_ok (timing_fields (timing_info s))" using fs(4) by (auto simp: model_fields_def)
  have c: "timing_info_present s \<noteq> 0 \<longrightarrow> timing_ok s" "timing_info_present s = 0 \<longrightarrow> decoder_model_info_present_flag s = 0"
    using ok True by (simp_all add: seq_ok_def)
  define q where "q = [fl (display_model_info_present_flag s)] @ [(Literal 5, operating_points_cnt_minus_1 s)] @
    op_fields s (points_cnt s) 0 @ r"
  obtain ti di where m: "play (read_models ?s1 (timing_info_present s)) (model_fields s @ q) =
      Some (?s1\<lparr>timing_info_present := timing_info_present s, timing_info := ti,
        decoder_model_info_present_flag := decoder_model_info_present_flag s, decoder_model_info := di\<rparr>, q)"
    and ti: "timing_info_present s \<noteq> 0 \<longrightarrow>
       num_units_in_display_tick ti = num_units_in_display_tick (timing_info s) \<and> time_scale ti = time_scale (timing_info s) \<and>
       equal_picture_interval ti = equal_picture_interval (timing_info s) \<and>
       (equal_picture_interval (timing_info s) \<noteq> 0 \<longrightarrow> num_ticks_per_picture ti = num_ticks_per_picture (timing_info s))"
    and di: "decoder_model_info_present_flag s \<noteq> 0 \<longrightarrow> di = decoder_model_info s"
    using play_models [OF c ft, of ?s1 q] by blast
  let ?s2 = "?s1\<lparr>timing_info_present := timing_info_present s, timing_info := ti,
    decoder_model_info_present_flag := decoder_model_info_present_flag s, decoder_model_info := di,
    display_model_info_present_flag := display_model_info_present_flag s,
    operating_points_cnt_minus_1 := operating_points_cnt_minus_1 s, has_nonzero_operating_point_idc := False\<rparr>"
  have "same_models s ?s2" using di by (simp add: same_models_def)
  moreover have "arrays_ok ?s2" using a by (simp add: arrays_ok_def)
  moreover have "points_cnt s \<le> 32" using fs(2) by (simp add: points_cnt_def)
  moreover have "\<forall>j. j < points_cnt s \<longrightarrow> point_ok s j" using ok True by (simp add: seq_ok_def)
  ultimately obtain s' where s': "play (read_op_points (points_cnt s) 0 ?s2) (op_fields s (points_cnt s) 0 @ r) = Some (s', r)"
    "points_only ?s2 s'" "arrays_ok s'" "\<forall>j < points_cnt s. same_point s s' j"
    "has_nonzero_operating_point_idc s' = (\<exists>j < points_cnt s. operating_point_idc s ! j \<noteq> 0)"
    using play_op_points [of s ?s2 0 "points_cnt s" r] seq_ok_parts(5,6) [OF ok] fs(1) by auto
  have "play (read_seq_points s0) (points_fields s @ r) = Some (s', r)"
    using True seq_ok_parts(6) [OF ok] m s'(1) unfolding q_def
    by (simp add: read_seq_points_def points_fields_def play_bind points_cnt_def)
  moreover have "same_points s s'" using s'(2,4,5) True ti di by (simp add: same_points_def points_only_def)
  ultimately show ?thesis using s'(3) by blast
qed


section \<open>The size of a sequence header\<close>

lemma length_uvlc_bits: "0 \<le> v \<Longrightarrow> v < 4294967295 \<Longrightarrow> length (uvlc_bits v) \<le> 63"
proof -
  assume v: "0 \<le> v" "v < 4294967295"
  have "(2::int) ^ get_msb (v + 1) \<le> v + 1" using get_msb_bounds [of "v + 1"] v by simp
  then have "(2::int) ^ get_msb (v + 1) < 2 ^ 32" using v by simp
  then have "get_msb (v + 1) < 32" by (simp only: power_strict_increasing_iff one_less_numeral_iff semiring_norm)
  then show ?thesis by (simp add: uvlc_bits_def Let_def del: lit_bits.simps)
qed

lemma fields_bits_simps [simp]:
  "fields_bits [] = []" "fields_bits ((f, v) # fs) = field_bits f v @ fields_bits fs"
  "fields_bits (a @ b) = fields_bits a @ fields_bits b"
  by (simp_all add: fields_bits_def)

lemma bits_color: "length (fields_bits (color_fields s)) \<le> 34"
  by (simp add: color_fields_def bitdepth_fields_def description_fields_def subsampling_fields_def del: lit_bits.simps)

lemma bits_inter: "length (fields_bits (inter_fields s)) \<le> 14"
  by (simp add: inter_fields_def screen_fields_def Let_def del: lit_bits.simps)

lemma bits_frame_ids: "length (fields_bits (frame_id_fields s)) \<le> 8"
  by (simp add: frame_id_fields_def del: lit_bits.simps)

lemma bits_tools: "fields_ok (tool_fields s) \<Longrightarrow> length (fields_bits (tool_fields s)) \<le> 68"
proof -
  assume f: "fields_ok (tool_fields s)"
  then have "num_bits_width s < 17" "num_bits_height s < 17" by (simp_all add: tool_fields_def)
  then have "nat (num_bits_width s) \<le> 16" "nat (num_bits_height s) \<le> 16" by simp_all
  then show ?thesis using bits_inter [of s] bits_frame_ids [of s] by (simp add: tool_fields_def del: lit_bits.simps)
qed

lemma bits_timing: "fields_ok (timing_fields t) \<Longrightarrow> length (fields_bits (timing_fields t)) \<le> 128"
  using length_uvlc_bits [of "num_ticks_per_picture t - 1"] by (simp add: timing_fields_def split: if_splits del: lit_bits.simps)

lemma bits_models: "fields_ok (model_fields s) \<Longrightarrow> length (fields_bits (model_fields s)) \<le> 176"
  using bits_timing [of "timing_info s"] by (auto simp: model_fields_def decoder_model_fields_def simp del: lit_bits.simps)

lemma bits_op_points:
  assumes "decoder_model_info_present_flag s \<noteq> 0 \<Longrightarrow> encoder_decoder_buffer_delay_length (decoder_model_info s) \<le> 32"
  shows "length (fields_bits (op_fields s m i)) \<le> 89 * m"
proof (induction m arbitrary: i)
  case (Suc m)
  have "length (fields_bits (level_fields s i)) \<le> 18" by (simp add: level_fields_def del: lit_bits.simps)
  moreover have "length (fields_bits (op_model_fields s (sq_op_params s ! i))) \<le> 66"
    using assms by (auto simp: op_model_fields_def Let_def simp del: lit_bits.simps)
  moreover have "length (fields_bits (op_display_fields s (sq_op_params s ! i))) \<le> 5"
    by (simp add: op_display_fields_def del: lit_bits.simps)
  ultimately have "length (fields_bits (level_fields s i)) + length (fields_bits (op_model_fields s (sq_op_params s ! i))) +
    length (fields_bits (op_display_fields s (sq_op_params s ! i))) \<le> 89" by linarith
  then show ?case using Suc.IH [of "Suc i"] by simp
qed simp

lemma bits_points:
  assumes "seq_ok s"
  shows "length (fields_bits (points_fields s)) \<le> 3036"
proof (cases "reduced_still_picture_hdr s = 0")
  case True
  have f: "fields_ok (model_fields s)" "operating_points_cnt_minus_1 s < 32" "timing_info_present s = 0 \<Longrightarrow> decoder_model_info_present_flag s = 0"
    using seq_ok_parts(1) [OF assms] assms True by (simp_all add: points_fields_def seq_ok_def)
  have "decoder_model_info_present_flag s \<noteq> 0 \<Longrightarrow> encoder_decoder_buffer_delay_length (decoder_model_info s) \<le> 32"
    using f(1,3) by (cases "timing_info_present s = 0") (simp_all add: model_fields_def decoder_model_fields_def)
  note bits_op_points [OF this, of "nat (operating_points_cnt_minus_1 s + 1)" 0]
  moreover have "nat (operating_points_cnt_minus_1 s + 1) \<le> 32" using f(2) by simp
  ultimately have "length (fields_bits (op_fields s (nat (operating_points_cnt_minus_1 s + 1)) 0)) \<le> 89 * 32" by linarith
  then show ?thesis using bits_models [OF f(1)] True by (simp add: points_fields_def del: lit_bits.simps)
next
  case False
  then show ?thesis by (simp add: points_fields_def del: lit_bits.simps)
qed

lemma seq_fields_size:
  assumes "seq_ok s"
  shows "length (fields_bits (seq_fields s)) \<le> 3139"
  using bits_points [OF assms] bits_tools [OF seq_ok_parts(2) [OF assms]] bits_color [of s]
  by (simp add: seq_fields_def del: lit_bits.simps)


section \<open>Trailing bits\<close>

text \<open>The rest of the byte the writer is in is zero.\<close>

definition wb_clean :: "aom_write_bit_buffer \<Rightarrow> bool" where
  "wb_clean wb \<longleftrightarrow>
     (wb_bit_offset wb mod 8 \<noteq> 0 \<longrightarrow>
        (\<forall>k. int k < 8 - wb_bit_offset wb mod 8 \<longrightarrow> \<not> bit (wb_bit_buffer wb ! nat (wb_bit_offset wb div 8)) k))"

lemma wb_clean_nat:
  assumes "wb_bit_offset wb = int off"
  shows "wb_clean wb \<longleftrightarrow> (off mod 8 \<noteq> 0 \<longrightarrow> (\<forall>k < 8 - off mod 8. \<not> bit (wb_bit_buffer wb ! (off div 8)) k))"
proof -
  have "int off mod 8 = int (off mod 8)" by (simp add: zmod_int)
  moreover have "nat (int off div 8) = off div 8" by (simp add: nat_div_distrib)
  moreover have "int k < 8 - int (off mod 8) \<longleftrightarrow> k < 8 - off mod 8" for k by linarith
  moreover have "int (off mod 8) \<noteq> 0 \<longleftrightarrow> off mod 8 \<noteq> 0" by simp
  ultimately show ?thesis unfolding wb_clean_def assms by presburger
qed

lemma write_bit_clean:
  assumes "aom_wb_write_bit wb (b2i b) = Some wb'" "wb_ok wb" "wb_clean wb"
  shows "wb_clean wb'"
proof -
  define off where "off = nat (wb_bit_offset wb)"
  define buf where "buf = wb_bit_buffer wb"
  define q where "q = 7 - off mod 8"
  have off: "wb_bit_offset wb = int off" using assms(2) by (simp add: off_def wb_ok_def)
  have q: "nat (8 - 1 - int off mod 8) = q" "nat (7 - int off mod 8) = q"
    by (simp_all add: q_def nat_diff_distrib nat_mod_distrib)
  have p: "nat (int off div 8) = off div 8" by (simp add: nat_div_distrib)
  have u: "u32 (int off + 1) = int off + 1" using assms(2) off by (simp add: wb_ok_def u32_id)
  have lt: "off div 8 < length buf" using assms(1) by (simp add: aom_wb_write_bit_def wb_store_def Let_def off p flip: buf_def split: if_splits bind_splits)
  obtain x where wb': "wb' = wb\<lparr>wb_bit_buffer := buf[off div 8 := x], wb_bit_offset := int off + 1\<rparr>"
    and x: "\<And>k. k < q \<Longrightarrow> \<not> bit x k"
  proof -
    define x where "x = (if q = 7 then u8 (shl (b2i b) q) else u8 (u8 ((buf ! (off div 8)) AND NOT (shl 1 q)) OR shl (b2i b) q))"
    have "wb' = wb\<lparr>wb_bit_buffer := buf[off div 8 := x], wb_bit_offset := int off + 1\<rparr>"
      using assms(1) lt by (auto simp: aom_wb_write_bit_def wb_store_def Let_def off q p u x_def simp flip: buf_def split: if_splits bind_splits)
    moreover have "\<not> bit x k" if "k < q" for k
    proof -
      have "q \<noteq> 7 \<Longrightarrow> \<not> bit (buf ! (off div 8)) k"
        using assms(3) [unfolded wb_clean_nat [OF off]] that q_def by (simp add: buf_def)
      then show ?thesis using that by (auto simp: x_def bit_u8 bit_shl_b2i bit_or_iff bit_and_iff)
    qed
    ultimately show ?thesis using that by blast
  qed
  have o': "wb_bit_offset wb' = int (Suc off)" by (simp add: wb')
  show ?thesis
  proof (cases "Suc off mod 8 = 0")
    case True
    then show ?thesis by (simp add: wb_clean_nat [OF o'])
  next
    case False
    then have m: "Suc off div 8 = off div 8" "Suc off mod 8 = Suc (off mod 8)" by presburger+
    show ?thesis using x lt unfolding wb_clean_nat [OF o'] m by (simp add: wb' q_def)
  qed
qed

lemma write_bits_clean:
  "write_bits aom_wb_write_bit wb bs = Some wb' \<Longrightarrow> wb_ok wb \<Longrightarrow> wb_clean wb \<Longrightarrow>
   wb_bit_offset wb + int (length bs) \<le> 8 * int (length (wb_bit_buffer wb)) \<Longrightarrow> wb_clean wb'"
proof (induction bs arbitrary: wb)
  case (Cons b bs)
  have "wb_bit_offset wb < 8 * int (length (wb_bit_buffer wb))" using Cons.prems(4) by simp
  from aom_wb_write_bit_appends [OF Cons.prems(2) this] obtain wb1 where
    1: "aom_wb_write_bit wb (b2i b) = Some wb1" "wb_ok wb1" "wb_bit_offset wb1 = wb_bit_offset wb + 1"
      "length (wb_bit_buffer wb1) = length (wb_bit_buffer wb)" by blast
  have "wb_clean wb1" by (rule write_bit_clean [OF 1(1) Cons.prems(2,3)])
  then show ?case using Cons.IH [of wb1] Cons.prems 1 by simp
qed simp


lemma bytes_for_bits: "(off + 7) div 8 = off div 8 + (if off mod 8 = 0 then 0 else 1)" for off :: nat
proof (rule div_nat_eqI)
  have "8 * (off div 8) + off mod 8 = off" "off mod 8 < 8" by simp_all
  then show "8 * (off div 8 + (if off mod 8 = 0 then 0 else 1)) \<le> off + 7"
    "off + 7 < 8 * Suc (off div 8 + (if off mod 8 = 0 then 0 else 1))" by (cases "off mod 8 = 0"; simp; linarith)+
qed

lemma clean_bits:
  assumes "wb_ok wb" "wb_clean wb"
  defines "n \<equiv> nat (aom_wb_bytes_written wb)" and "off \<equiv> nat (wb_bit_offset wb)"
  shows "take (8 * n) (buffer_bits (wb_bit_buffer wb)) = wb_bits wb @ replicate (8 * n - off) False"
    and "off \<le> 8 * n" "8 * n < off + 8" "n \<le> length (wb_bit_buffer wb)" "aom_wb_bytes_written wb = int n"
proof -
  let ?buf = "wb_bit_buffer wb"
  have off: "wb_bit_offset wb = int off" using assms(1) by (simp add: off_def wb_ok_def)
  have bw: "aom_wb_bytes_written wb = int ((off + 7) div 8)"
  proof -
    have "int off mod 8 = int (off mod 8)" by (simp add: zmod_int)
    then have "int off div 8 + b2i (int off mod 8 > 0) = int ((off + 7) div 8)"
      unfolding bytes_for_bits b2i_def by (simp add: zdiv_int)
    moreover have "int ((off + 7) div 8) < 2 ^ 32" using assms(1) off by (auto simp: wb_ok_def)
    ultimately show ?thesis unfolding aom_wb_bytes_written_def off by (simp add: u32_id)
  qed
  then have n: "n = (off + 7) div 8" by (simp add: n_def)
  show le: "off \<le> 8 * n" "8 * n < off + 8" using n by linarith+
  show len: "n \<le> length ?buf" using assms(1) le unfolding wb_ok_def off by linarith
  show "aom_wb_bytes_written wb = int n" using bw n by simp
  show "take (8 * n) (buffer_bits ?buf) = wb_bits wb @ replicate (8 * n - off) False"
  proof (rule nth_equalityI)
    show "length (take (8 * n) (buffer_bits ?buf)) = length (wb_bits wb @ replicate (8 * n - off) False)"
      using le len by (simp add: wb_bits_def off)
    fix t assume "t < length (take (8 * n) (buffer_bits ?buf))"
    then have t: "t < 8 * n" "t < 8 * length ?buf" by simp_all
    show "take (8 * n) (buffer_bits ?buf) ! t = (wb_bits wb @ replicate (8 * n - off) False) ! t"
    proof (cases "t < off")
      case True
      then show ?thesis using t le len by (simp add: wb_bits_def off nth_append)
    next
      case False
      have d: "t div 8 = off div 8" "off mod 8 \<noteq> 0" "7 - t mod 8 < 8 - off mod 8"
      proof -
        define a b where "a = off div 8" and "b = off mod 8"
        have off8: "off = 8 * a + b" "b < 8" by (simp_all add: a_def b_def)
        have nn: "n = (if b = 0 then a else Suc a)" unfolding n by (rule div_nat_eqI) (use off8 in auto)
        show b: "off mod 8 \<noteq> 0"
        proof
          assume "off mod 8 = 0"
          then have "b = 0" by (simp add: b_def)
          then show False using nn False t(1) off8(1) by simp
        qed
        then have "b \<noteq> 0" unfolding b_def .
        then have r: "8 * a + b \<le> t" "t < 8 * a + 8" using nn False t(1) off8(1) by simp_all
        have "t div 8 = a" by (rule div_nat_eqI) (use r in simp_all)
        moreover have "8 * (t div 8) + t mod 8 = t" by (rule mult_div_mod_eq)
        ultimately show "t div 8 = off div 8" "7 - t mod 8 < 8 - off mod 8"
          using r off8(2) unfolding a_def [symmetric] b_def [symmetric] by linarith+
      qed
      have "\<not> bit (?buf ! (off div 8)) (7 - t mod 8)"
        using assms(2) [unfolded wb_clean_nat [OF off]] d by blast
      then show ?thesis using t le len False d by (simp add: wb_bits_def off nth_append nth_buffer_bits)
    qed
  qed
qed

lemma write_payload:
  assumes ok: "seq_ok s" and len: "394 \<le> length dst" "8 * int (length dst) < 2 ^ 31"
  shows "\<exists>n dst' k. av1_write_sequence_header_obu s dst = Some (int n, dst') \<and> length dst' = length dst \<and> 0 < n \<and> n \<le> 393 \<and>
    k \<le> 7 \<and> take (8 * n) (buffer_bits dst') = fields_bits (seq_fields s) @ True # replicate k False"
proof -
  let ?wb0 = "\<lparr>wb_bit_buffer = dst, wb_bit_offset = 0\<rparr>" let ?fs = "fields_bits (seq_fields s)"
  have fok: "fields_ok (seq_fields s)" using ok by (simp add: seq_ok_def)
  have sz: "length ?fs \<le> 3139" by (rule seq_fields_size [OF ok])
  have ok0: "wb_ok ?wb0" "wb_clean ?wb0" using len by (simp_all add: wb_ok_def wb_clean_def)
  have r0: "wb_bit_offset ?wb0 + int (length ?fs) \<le> 8 * int (length (wb_bit_buffer ?wb0))" using sz len(1) by simp
  from write_bits_appends [OF ok0(1) r0] obtain wb1 where
    0: "write_bits aom_wb_write_bit ?wb0 ?fs = Some wb1" "wb_ok wb1" "wb_bit_offset wb1 = wb_bit_offset ?wb0 + int (length ?fs)"
      "length (wb_bit_buffer wb1) = length (wb_bit_buffer ?wb0)" "wb_bits wb1 = wb_bits ?wb0 @ ?fs" by blast
  have 1: "write_bits aom_wb_write_bit ?wb0 ?fs = Some wb1" "wb_ok wb1" "wb_bit_offset wb1 = int (length ?fs)"
      "length (wb_bit_buffer wb1) = length dst" "wb_bits wb1 = ?fs" "wb_clean wb1"
    using 0 write_bits_clean [OF 0(1) ok0 r0] by (simp_all add: wb_bits_def)
  define ts where "ts = (if aom_wb_is_byte_aligned wb1 then lit_bits 8 128 else [True])"
  have ts: "ts = (if length ?fs mod 8 = 0 then True # replicate 7 False else [True])"
  proof -
    have "int (length ?fs) mod 8 = 0 \<longleftrightarrow> length ?fs mod 8 = 0" by presburger
    moreover have "lit_bits 8 128 = True # replicate 7 False" by (simp add: numeral_eq_Suc)
    ultimately show ?thesis unfolding ts_def aom_wb_is_byte_aligned_def 1(3) by presburger
  qed
  have tw: "add_trailing_bits wb1 = write_bits aom_wb_write_bit wb1 ts"
    using wb.literal_writes [of wb1 128 8] by (simp add: add_trailing_bits_def ts_def del: lit_bits.simps)
  have "wb_bit_offset wb1 + int (length ts) \<le> 8 * int (length (wb_bit_buffer wb1))" using sz len(1) 1(3,4) ts by simp
  from write_bits_appends [OF 1(2) this] write_bits_clean [OF _ 1(2,6) this] obtain wb2 where
    2: "write_bits aom_wb_write_bit wb1 ts = Some wb2" "wb_ok wb2" "wb_bit_offset wb2 = int (length ?fs) + int (length ts)"
      "length (wb_bit_buffer wb2) = length dst" "wb_bits wb2 = ?fs @ ts" "wb_clean wb2" using 1(3,4,5) by metis
  define n where "n = nat (aom_wb_bytes_written wb2)"
  note c = clean_bits [OF 2(2,6), folded n_def]
  have w: "av1_write_sequence_header_obu s dst = Some (int n, wb_bit_buffer wb2)"
    using 1(1) 2(1) c(5) tw by (simp add: write_seq_fields [OF fok] write_fields_bits [OF fok])
  have b: "length ?fs + length ts \<le> 8 * n" "8 * n < length ?fs + length ts + 8"
    using c(2,3) unfolding 2(3) by linarith+
  have "\<exists>k \<le> 7. ts @ replicate (8 * n - (length ?fs + length ts)) False = True # replicate k False"
  proof (cases "length ?fs mod 8 = 0")
    case True
    then have "8 * n - (length ?fs + length ts) = 0" using b ts by (simp, presburger)
    then show ?thesis using True ts by (intro exI [of _ 7]) simp
  next
    case False
    then have "8 * n - (length ?fs + length ts) \<le> 7" using b ts by simp
    then show ?thesis using False ts by auto
  qed
  then obtain k where k: "k \<le> 7" "ts @ replicate (8 * n - (length ?fs + length ts)) False = True # replicate k False" by blast
  have "nat (wb_bit_offset wb2) = length ?fs + length ts" using 2(3) by simp
  then have "take (8 * n) (buffer_bits (wb_bit_buffer wb2)) = ?fs @ True # replicate k False" using c(1) 2(5) k(2) by simp
  moreover have "length ts + (8 * n - (length ?fs + length ts)) = Suc k"
    using arg_cong [OF k(2), of length] by simp
  then have "0 < n" "n \<le> 393" using b sz k(1) by linarith+
  ultimately show ?thesis using w 2(4) k(1) by blast
qed


section \<open>The decoder's side\<close>

text \<open>
  What the decoder's header has in common with the encoder's: every value that is
  transmitted. A reduced still picture header leaves the inter tools at the values the
  decoder assumes; a monochrome or sRGB sequence fixes part of the colour description.
\<close>

definition same_tools :: "SequenceHeader \<Rightarrow> SequenceHeader \<Rightarrow> bool" where
  "same_tools s s' \<longleftrightarrow>
     max_frame_width s' = max_frame_width s \<and> max_frame_height s' = max_frame_height s \<and>
     num_bits_width s' = num_bits_width s \<and> num_bits_height s' = num_bits_height s \<and>
     sb_size_128 s' = sb_size_128 s \<and> mib_size s' = (if sb_size_128 s then 32 else 16) \<and>
     enable_filter_intra s' = enable_filter_intra s \<and> enable_intra_edge_filter s' = enable_intra_edge_filter s \<and>
     enable_superres s' = enable_superres s \<and> enable_cdef s' = enable_cdef s \<and>
     enable_restoration s' = enable_restoration s \<and>
     (reduced_still_picture_hdr s = 0 \<longrightarrow>
        frame_id_numbers_present_flag s' = frame_id_numbers_present_flag s \<and>
        (frame_id_numbers_present_flag s \<noteq> 0 \<longrightarrow>
           frame_id_length s' = frame_id_length s \<and> delta_frame_id_length s' = delta_frame_id_length s) \<and>
        enable_interintra_compound s' = enable_interintra_compound s \<and>
        enable_masked_compound s' = enable_masked_compound s \<and> enable_warped_motion s' = enable_warped_motion s \<and>
        enable_dual_filter s' = enable_dual_filter s \<and>
        enable_order_hint (order_hint_info s') = enable_order_hint (order_hint_info s) \<and>
        (enable_order_hint (order_hint_info s) \<noteq> 0 \<longrightarrow> order_hint_info s' = order_hint_info s) \<and>
        force_screen_content_tools s' = force_screen_content_tools s \<and>
        (force_screen_content_tools s > 0 \<longrightarrow> force_integer_mv s' = force_integer_mv s))"

definition same_color :: "SequenceHeader \<Rightarrow> SequenceHeader \<Rightarrow> bool" where
  "same_color s s' \<longleftrightarrow>
     sq_bit_depth s' = sq_bit_depth s \<and> sq_monochrome s' = sq_monochrome s \<and>
     color_primaries s' = color_primaries s \<and> transfer_characteristics s' = transfer_characteristics s \<and>
     matrix_coefficients s' = matrix_coefficients s \<and>
     (sq_monochrome s \<noteq> 0 \<or> \<not> is_srgb s \<longrightarrow> color_range s' = color_range s) \<and>
     (sq_monochrome s = 0 \<longrightarrow> subsampling_x s' = subsampling_x s \<and> subsampling_y s' = subsampling_y s \<and>
        separate_uv_delta_q s' = separate_uv_delta_q s \<and>
        (\<not> is_srgb s \<and> subsampling_x s = 1 \<and> subsampling_y s = 1 \<longrightarrow> chroma_sample_position s' = chroma_sample_position s))"

definition same_sequence :: "SequenceHeader \<Rightarrow> SequenceHeader \<Rightarrow> bool" where
  "same_sequence s s' \<longleftrightarrow> same_points s s' \<and> same_tools s s' \<and> same_color s s' \<and>
     film_grain_params_present s' = film_grain_params_present s"

lemma same_point_kept:
  "same_point s ((received_color lbd s (received_tools s s1))\<lparr>film_grain_params_present := g\<rparr>) i = same_point s s1 i"
  by (simp add: same_point_def received_color_def received_tools_def Let_def)

lemma same_points_kept:
  assumes "same_points s s1"
  shows "same_points s ((received_color lbd s (received_tools s s1))\<lparr>film_grain_params_present := g\<rparr>)"
  using assms unfolding same_points_def same_point_kept by (simp add: received_color_def received_tools_def Let_def)

lemma same_tools_received:
  "fields_ok (tool_fields s) \<Longrightarrow> same_tools s ((received_color lbd s (received_tools s s1))\<lparr>film_grain_params_present := g\<rparr>)"
  by (simp add: same_tools_def received_color_def received_tools_def Let_def)

lemma same_color_received: "same_color s ((received_color lbd s s1)\<lparr>film_grain_params_present := g\<rparr>)"
  by (simp add: same_color_def received_color_def Let_def)

lemma check_trailing_reads:
  assumes d: "rb_delivers buf h e (8 * n) rb (True # replicate k False)" and k: "k \<le> 7"
  shows "\<exists>rb'. av1_check_trailing_bits rb = Inr rb' \<and> rb_bit_offset rb' = int (8 * n)"
proof -
  obtain off where off: "rb = \<lparr>rb_bit_buffer = buf, rb_bit_offset = int off, rb_error_handler = h, rb_errors = e\<rparr>"
    "off \<le> 8 * n" "8 * n \<le> 8 * length buf" "8 * length buf < 2 ^ 32" "True # replicate k False = drop off (take (8 * n) (buffer_bits buf))"
    using d by (auto simp: rb_delivers_def)
  have ln: "Suc k = 8 * n - off" using arg_cong [OF off(5), of length] off(3) by simp
  then have "off = 7 - k + 8 * (n - 1)" using k by linarith
  then have "off mod 8 = 7 - k" by simp
  then have "int off mod 8 = 7 - int k" using k by (simp add: of_nat_diff flip: of_nat_mod [of off 8, simplified])
  then have nb: "nat (8 - rb_bit_offset rb mod 8) = Suc k" by (simp add: off(1))
  have "lit_bits (Suc k) (2 ^ k) = True # replicate k False"
    using lit_bits_append [of 0 k 1 1] by (simp add: lit_bits_zero)
  then obtain rb' where rb': "aom_rb_read_literal rb (Suc k) = (2 ^ k, rb')" "rb_delivers buf h e (8 * n) rb' []"
    using reads_literal [of buf h e "8 * n" rb "Suc k" "2 ^ k" "[]"] d by auto
  have "rb_bit_offset rb' = int (8 * n)" "rb_errors rb' = e" using rb'(2) by (auto simp: rb_delivers_def)
  then show ?thesis using rb'(1) nb off(1) by (simp add: av1_check_trailing_bits_def shl_def)
qed

lemma supported_subsampling:
  assumes "fields_ok (color_fields s)" "color_ok s" "sq_profile s = 0 \<or> sq_profile s = 1 \<or> sq_profile s = 2"
    and x: "x = (if sq_monochrome s \<noteq> 0 then 1 else subsampling_x s)" and y: "y = (if sq_monochrome s \<noteq> 0 then 1 else subsampling_y s)"
  shows "x = 0 \<and> y = 0 \<or> x = 1 \<and> y = 1 \<or> x = 1 \<and> y = 0"
proof (cases "sq_monochrome s = 0 \<and> \<not> is_srgb s \<and> sq_profile s = 2 \<and> sq_bit_depth s = 12 \<and> subsampling_x s \<noteq> 0")
  case True
  then have "is_srgb s = False" "(sq_monochrome s \<noteq> 0) = False" by blast+
  note z = this
  have "fields_ok (subsampling_fields s)" using assms(1) unfolding color_fields_def z if_False by simp
  then have "field_ok (Literal 1) (subsampling_x s)" "field_ok (Literal 1) (subsampling_y s)"
    using True by (simp_all add: subsampling_fields_def)
  then show ?thesis using flag_cases True x y by auto
next
  case False
  then show ?thesis using assms(2,3) x y unfolding color_ok_def by metis
qed

lemma play_rest:
  assumes ok: "seq_ok s" and s1: "same_points s s1"
  shows "play (read_seq_rest lbd s1) (tool_fields s @ color_fields s @ [fl (film_grain_params_present s)]) =
    Some ((received_color lbd s (received_tools s s1))\<lparr>film_grain_params_present := film_grain_params_present s\<rparr>, [])"
proof -
  let ?s2 = "received_tools s s1" let ?s3 = "received_color lbd s ?s2"
  have r: "reduced_still_picture_hdr s1 = reduced_still_picture_hdr s" "sq_profile s1 = sq_profile s" using s1 by (simp_all add: same_points_def)
  have w: "1 \<le> num_bits_width s" "1 \<le> num_bits_height s" using seq_ok_parts(2) [OF ok] by (simp_all add: tool_fields_def)
  have id16: "reduced_still_picture_hdr s = 0 \<Longrightarrow> frame_id_numbers_present_flag s \<noteq> 0 \<Longrightarrow> frame_id_length s \<le> 16"
    using ok by (simp add: seq_ok_def)
  have p: "sq_profile s = 0 \<or> sq_profile s = 1 \<or> sq_profile s = 2" using seq_ok_parts(5,6) [OF ok] by auto
  have p2: "sq_profile ?s2 = sq_profile s" using r(2) by (simp add: received_tools_def Let_def)
  have x: "subsampling_x ?s3 = (if sq_monochrome s \<noteq> 0 then 1 else subsampling_x s)"
    "subsampling_y ?s3 = (if sq_monochrome s \<noteq> 0 then 1 else subsampling_y s)"
    by (simp_all add: received_color_def Let_def)
  note sup = supported_subsampling [OF seq_ok_parts(3,4) [OF ok] p x]
  have f: "(\<not> (subsampling_x ?s3 = 0 \<and> subsampling_y ?s3 = 0) \<and> \<not> (subsampling_x ?s3 = 1 \<and> subsampling_y ?s3 = 1) \<and>
        \<not> (subsampling_x ?s3 = 1 \<and> subsampling_y ?s3 = 0)) = False" using sup by blast
  have tl: "play (av1_read_sequence_header s1) (tool_fields s @ q) = Some (?s2, q)" for q
    using play_tools [of s1 s q] r w id16 by blast
  show ?thesis
    unfolding read_seq_rest_def play_bind tl option.case prod.case
      play_color [OF seq_ok_parts(3,4) [OF ok] p p2] f if_False by simp
qed

lemma read_payload:
  assumes ok: "seq_ok s" and a: "arrays_ok (ds_seq_params pbi)" and n: "n \<le> length buf" "8 * length buf < 2 ^ 32"
    and bits: "take (8 * n) (buffer_bits buf) = fields_bits (seq_fields s) @ True # replicate k False" and k: "k \<le> 7"
  shows "\<exists>pbi'. read_sequence_header_obu pbi \<lparr>rb_bit_buffer = buf, rb_bit_offset = 0, rb_error_handler = h, rb_errors = e\<rparr> =
      (Inr (int n), pbi') \<and> sequence_header_ready pbi' \<and> same_sequence s (ds_seq_params pbi') \<and> ds_error pbi' = ds_error pbi"
proof -
  let ?rb = "\<lparr>rb_bit_buffer = buf, rb_bit_offset = 0, rb_error_handler = h, rb_errors = e\<rparr>"
  let ?D = "rb_delivers buf h e (8 * n)" let ?t = "True # replicate k False"
  let ?rest = "tool_fields s @ color_fields s @ [fl (film_grain_params_present s)]"
  have fok: "fields_ok (points_fields s @ ?rest)" using ok by (simp only: seq_ok_def seq_fields_def)
  have d0: "?D ?rb (fields_bits (points_fields s @ ?rest) @ ?t)"
    using n bits unfolding rb_delivers_def seq_fields_def by (intro exI [of _ 0]) simp
  obtain s1 where s1: "play (read_seq_points (ds_seq_params pbi)) (points_fields s @ ?rest) = Some (s1, ?rest)"
    "same_points s s1" using play_points [OF ok a] by blast
  from play_run [OF s1(1) fok d0] obtain rb1 where
    1: "run_parser (read_seq_points (ds_seq_params pbi)) ?rb = Inr (s1, rb1)" "?D rb1 (fields_bits ?rest @ ?t)" "fields_ok ?rest" by blast
  let ?lbd = "ds_allow_lowbitdepth pbi"
  define s2 where "s2 = (received_color ?lbd s (received_tools s s1))\<lparr>film_grain_params_present := film_grain_params_present s\<rparr>"
  have "play (read_seq_rest ?lbd s1) ?rest = Some (s2, [])" unfolding s2_def by (rule play_rest [OF ok s1(2)])
  from play_run [OF this 1(3,2)] obtain rb2 where
    2: "run_parser (read_seq_rest ?lbd s1) rb1 = Inr (s2, rb2)" "?D rb2 ?t" by auto
  obtain rb3 where 3: "av1_check_trailing_bits rb2 = Inr rb3" "rb_bit_offset rb3 = int (8 * n)"
    using check_trailing_reads [OF 2(2) k] by blast
  have "shr (u32 (int (8 * n) + 7)) 3 = int n" using n by (simp add: shr_def u32_id)
  moreover have "same_sequence s s2"
    using same_points_kept [OF s1(2)] same_tools_received seq_ok_parts(2) [OF ok] same_color_received
    unfolding same_sequence_def s2_def by simp
  ultimately show ?thesis using 1(1) 2(1) 3
    by (simp add: read_sequence_header_obu_def Let_def split: prod.split)
qed


section \<open>The whole unit\<close>

lemma u8_nonneg: "0 \<le> u8 x"
  by (simp add: u8_def)

lemma write_bits_bytes:
  "write_bits aom_wb_write_bit wb bs = Some wb' \<Longrightarrow> \<forall>b \<in> set (wb_bit_buffer wb). 0 \<le> b \<Longrightarrow> \<forall>b \<in> set (wb_bit_buffer wb'). 0 \<le> b"
proof (induction bs arbitrary: wb)
  case (Cons b bs)
  then obtain wb1 where 1: "aom_wb_write_bit wb (b2i b) = Some wb1" "write_bits aom_wb_write_bit wb1 bs = Some wb'"
    by (auto split: bind_splits)
  have "\<forall>b \<in> set (wb_bit_buffer wb1). 0 \<le> b"
    using 1(1) Cons.prems(2) u8_nonneg
    by (auto simp: aom_wb_write_bit_def wb_store_def Let_def split: if_splits bind_splits dest!: set_update_subset_insert [THEN subsetD])
  then show ?case using Cons.IH 1(2) by blast
qed simp

lemma buffer_bits_append: "buffer_bits (a @ b) = buffer_bits a @ buffer_bits b"
proof (induction a)
  case Nil
  then show ?case by (simp add: buffer_bits_def)
qed (simp add: buffer_bits_Cons del: lit_bits.simps)

lemma payload_bytes:
  assumes "fields_ok (seq_fields s)" "av1_write_sequence_header_obu s dst = Some (n, dst')" "\<forall>b \<in> set dst. 0 \<le> b"
  shows "\<forall>b \<in> set dst'. 0 \<le> b"
proof -
  obtain wb1 wb2 where 1: "write_bits aom_wb_write_bit \<lparr>wb_bit_buffer = dst, wb_bit_offset = 0\<rparr> (fields_bits (seq_fields s)) = Some wb1"
    "add_trailing_bits wb1 = Some wb2" "dst' = wb_bit_buffer wb2"
    using assms(2) unfolding write_seq_fields [OF assms(1)] write_fields_bits [OF assms(1)] by (auto split: bind_splits)
  have "\<exists>ts. write_bits aom_wb_write_bit wb1 ts = Some wb2"
    using 1(2) wb.literal_writes [of wb1 128 8]
    by (cases "aom_wb_is_byte_aligned wb1") (auto simp: add_trailing_bits_def simp del: lit_bits.simps aom_wb_write_literal.simps intro: exI [of _ "[True]"])
  then show ?thesis using 1 write_bits_bytes assms(3) by force
qed

lemma memmove_payload:
  assumes "n + sz \<le> length dst" "sz = aom_uleb_size_in_bytes n"
  shows "obu_memmove 1 n (x # dst) (Suc (length dst)) = Some (sz, x # take sz dst @ take n dst @ drop (sz + n) dst)"
proof -
  have "\<not> Suc (length dst) - n < Suc sz" using assms(1) by linarith
  then show ?thesis using assms by (simp add: obu_memmove_def memmove_at_def Let_def)
qed

lemma write_size:
  assumes "n \<le> 4294967295" "sz = aom_uleb_size_in_bytes n" "\<forall>b \<in> set r. 0 \<le> b" "length p = sz"
  shows "av1_write_uleb_obu_size n (p @ r) sz = (AOM_CODEC_OK, map int (continued (digits128 sz n)) @ r)"
proof -
  have "sz \<le> 5" using uint32_size [OF assms(1)] assms(2) by simp
  moreover have "uleb_encode_loop sz 0 n (map nat (p @ r)) = continued (digits128 sz n) @ map nat r"
    using uleb_encode_loop_bytes [OF assms(2), of 0 "map nat (p @ r)"] assms(4) by simp
  moreover have "map int (map nat r) = r" using assms(3) by (simp add: map_idI)
  ultimately show ?thesis using assms(1,2)
    by (simp add: av1_write_uleb_obu_size_def aom_uleb_encode_def kMaximumLeb128Value_def kMaximumLeb128Size_def Let_def del: map_map)
qed

lemma read_size:
  assumes "n \<le> 4294967295" "sz = aom_uleb_size_in_bytes n"
  shows "read_obu_size (map int (continued (digits128 sz n)) @ r) = Inr (n, sz)"
proof -
  have "sz \<le> 5" using uint32_size [OF assms(1)] assms(2) by simp
  then have "aom_uleb_decode (Some (continued (digits128 sz n) @ map nat r)) True True = (0, Some n, Some sz)"
    using uleb_decode_continued [OF assms(1), of sz] size_least [of n] uint32_size_pos [of n] assms(2) by simp
  then show ?thesis using assms(1) by (simp add: read_obu_size_def comp_def)
qed

text \<open>C5. The sequence header survives transmission. For every header whose values fit their
  fields and satisfy the writers' assertions, \<open>av1_pack_bitstream\<close>'s sequence header OBU fits
  in 400 bytes; \<open>aom_read_obu_header_and_size\<close> recognises it as a sequence header and finds its
  payload, \<open>read_sequence_header_obu\<close> accepts the payload, consumes exactly its bytes, trailing
  bits included, raises no error and leaves the decoder with a header that agrees with the
  encoder's in every value that is transmitted, whatever header the decoder held before and
  whatever bytes follow.\<close>

theorem sequence_header_roundtrip:
  assumes ok: "seq_ok s" and len: "400 \<le> length data" "8 * int (length data) < 2 ^ 31"
    and byte: "\<forall>b \<in> set data. 0 \<le> b" and a: "arrays_ok (ds_seq_params pbi)"
  shows "\<exists>data' total hdr n hl pbi'.
    pack_sequence_header s data = Some (AOM_CODEC_OK, data', total) \<and> total \<le> 396 \<and> length data' = length data \<and>
    aom_read_obu_header_and_size data' False = Inr (hdr, n, hl) \<and> oh_type hdr = OBU_SEQUENCE_HEADER \<and> hl + n = total \<and>
    read_sequence_header_obu pbi
      \<lparr>rb_bit_buffer = drop hl data', rb_bit_offset = 0, rb_error_handler = True, rb_errors = 0\<rparr> = (Inr (int n), pbi') \<and>
    sequence_header_ready pbi' \<and> ds_error pbi' = ds_error pbi \<and> same_sequence s (ds_seq_params pbi')"
proof -
  obtain d0 ds where d: "data = d0 # ds" using len(1) by (cases data) auto
  have ds: "394 \<le> length ds" "8 * int (length ds) < 2 ^ 31" using len by (simp_all add: d)
  have fok: "fields_ok (seq_fields s)" using ok by (simp add: seq_ok_def)
  obtain n dst k where w: "av1_write_sequence_header_obu s ds = Some (int n, dst)" "length dst = length ds" "0 < n" "n \<le> 393"
    "k \<le> 7" "take (8 * n) (buffer_bits dst) = fields_bits (seq_fields s) @ True # replicate k False"
    using write_payload [OF ok ds] by blast
  have nn: "\<forall>b \<in> set dst. 0 \<le> b" by (rule payload_bytes [OF fok w(1)]) (use byte d in simp)
  define sz where "sz = aom_uleb_size_in_bytes n"
  have sz: "0 < sz" "sz \<le> 2" unfolding sz_def using uint32_size_pos size_minimal [of n 2] w(4) by simp_all
  define r where "r = take n dst @ drop (sz + n) dst"
  let ?data = "10 # map int (continued (digits128 sz n)) @ r"
  have r: "\<forall>b \<in> set r. 0 \<le> b" using nn set_take_subset [of n dst] set_drop_subset [of "sz + n" dst] unfolding r_def by auto
  have room: "n + sz \<le> length dst" using w(2,4) sz len(1) d by simp
  have ow: "av1_write_obu_header False 0 OBU_SEQUENCE_HEADER h False 0 data = Some (1, 0, 10 # ds)" for h
    by (simp add: av1_write_obu_header_def d OBU_SEQUENCE_HEADER_def OBU_FRAME_def OBU_FRAME_HEADER_def shl_def u8_def Let_def)
  have mm: "obu_memmove 1 n (10 # dst) (Suc (length dst)) = Some (sz, 10 # take sz dst @ r)"
    using memmove_payload [OF room sz_def] unfolding r_def .
  have us: "av1_write_uleb_obu_size n (take sz dst @ r) sz = (AOM_CODEC_OK, map int (continued (digits128 sz n)) @ r)"
    by (rule write_size) (use w(4) sz_def r room in simp_all)
  have pk: "pack_sequence_header s data = Some (AOM_CODEC_OK, ?data, 1 + sz + n)"
    using len(1) sz(1) w(1) mm us by (simp add: pack_sequence_header_def ow)
  have dl: "length ?data = length data" using room w(2) by (simp add: d r_def)
  have "read_obu_header (obu_reader (obu_byte 1 0 1 0 # map int (continued (digits128 sz n)) @ r)) False =
    Inr \<lparr>oh_size = 1, oh_type = 1, oh_has_size_field = 1, oh_has_extension = 0, oh_temporal_layer_id = 0, oh_spatial_layer_id = 0\<rparr>"
    using read_obu_header_bytes [of 1 0 1 0 "map int (continued (digits128 sz n)) @ r" False] len(2) dl by simp
  moreover have "read_obu_size (map int (continued (digits128 sz n)) @ r) = Inr (n, sz)"
    by (rule read_size) (use w(4) sz_def in simp_all)
  ultimately obtain hdr where rd: "aom_read_obu_header_and_size ?data False = Inr (hdr, n, 1 + sz)" "oh_type hdr = OBU_SEQUENCE_HEADER"
    by (simp add: aom_read_obu_header_and_size_def obu_byte_def OBU_SEQUENCE_HEADER_def)
  have dr: "drop (1 + sz) ?data = r" by simp
  have "take (8 * n) (buffer_bits r) = take (8 * n) (buffer_bits dst)"
    using room buffer_bits_append [of "take n dst" "drop n dst"] by (simp add: r_def buffer_bits_append)
  then have bits: "take (8 * n) (buffer_bits r) = fields_bits (seq_fields s) @ True # replicate k False" using w(6) by simp
  have "n \<le> length r" "8 * length r < 2 ^ 32" using room len(2) d w(2) by (simp_all add: r_def)
  from read_payload [OF ok a this bits w(5), of True 0] obtain pbi' where
    "read_sequence_header_obu pbi \<lparr>rb_bit_buffer = r, rb_bit_offset = 0, rb_error_handler = True, rb_errors = 0\<rparr> = (Inr (int n), pbi')"
    "sequence_header_ready pbi'" "same_sequence s (ds_seq_params pbi')" "ds_error pbi' = ds_error pbi" by blast
  then show ?thesis using pk dl rd dr sz(2) w(4)
    by (intro exI [of _ ?data] exI [of _ "1 + sz + n"] exI [of _ hdr] exI [of _ n] exI [of _ "1 + sz"] exI [of _ pbi']) simp
qed


definition empty_seq :: SequenceHeader where
  "empty_seq =
     \<lparr>num_bits_width = 0, num_bits_height = 0, max_frame_width = 0, max_frame_height = 0, frame_id_numbers_present_flag = 0,
      frame_id_length = 0, delta_frame_id_length = 0, sb_size_128 = False, mib_size = 0, mib_size_log2 = 0,
      order_hint_info = \<lparr>enable_order_hint = 0, order_hint_bits_minus_1 = 0, enable_dist_wtd_comp = 0, enable_ref_frame_mvs = 0\<rparr>,
      force_screen_content_tools = 0, still_picture = 0, reduced_still_picture_hdr = 0, force_integer_mv = 0,
      enable_filter_intra = 0, enable_intra_edge_filter = 0, enable_interintra_compound = 0, enable_masked_compound = 0,
      enable_dual_filter = 0, enable_warped_motion = 0, enable_superres = 0, enable_cdef = 0, enable_restoration = 0,
      sq_profile = 0, sq_bit_depth = 0, use_highbitdepth = 0, sq_monochrome = 0, color_primaries = 0,
      transfer_characteristics = 0, matrix_coefficients = 0, color_range = 0, subsampling_x = 0, subsampling_y = 0,
      chroma_sample_position = 0, separate_uv_delta_q = 0, film_grain_params_present = 0, operating_points_cnt_minus_1 = 0,
      operating_point_idc = replicate 32 0, has_nonzero_operating_point_idc = False, timing_info_present = 0,
      timing_info = \<lparr>num_units_in_display_tick = 0, time_scale = 0, equal_picture_interval = 0, num_ticks_per_picture = 0\<rparr>,
      decoder_model_info_present_flag = 0,
      decoder_model_info = \<lparr>num_units_in_decoding_tick = 0, encoder_decoder_buffer_delay_length = 0,
        buffer_removal_time_length = 0, frame_presentation_time_length = 0\<rparr>,
      display_model_info_present_flag = 0, seq_level_idx = replicate 32 0, seq_tier = replicate 32 0,
      sq_op_params = replicate 33 \<lparr>decoder_model_param_present_flag = 0, op_bitrate = 0, op_buffer_size = 0,
        decoder_buffer_delay = 0, encoder_buffer_delay = 0, low_delay_mode_flag = 0, display_model_param_present_flag = 0,
        initial_display_delay = 0\<rparr>\<rparr>"

definition fresh_decoder :: dec_state where
  "fresh_decoder = \<lparr>ds_seq_params = empty_seq, sequence_header_ready = False, sequence_header_changed = False,
     ds_operating_point = 0, current_operating_point = 0, number_spatial_layers = 0, number_temporal_layers = 0,
     ds_allow_lowbitdepth = 1, ds_error = AOM_CODEC_OK\<rparr>"

text \<open>A 1280 by 720 stream of profile 0, 60 pictures a second, level 4.0, order hints of 7 bits.\<close>

definition sample_seq :: SequenceHeader where
  "sample_seq = empty_seq\<lparr>num_bits_width := 11, num_bits_height := 10, max_frame_width := 1280, max_frame_height := 720,
     sb_size_128 := True, enable_cdef := 1, enable_restoration := 1, enable_warped_motion := 1,
     order_hint_info := \<lparr>enable_order_hint = 1, order_hint_bits_minus_1 = 6, enable_dist_wtd_comp = 0, enable_ref_frame_mvs = 1\<rparr>,
     force_screen_content_tools := 2, force_integer_mv := 2, sq_bit_depth := 8, color_primaries := 1,
     transfer_characteristics := 1, matrix_coefficients := 1, subsampling_x := 1, subsampling_y := 1,
     timing_info_present := 1,
     timing_info := \<lparr>num_units_in_display_tick = 1, time_scale = 60, equal_picture_interval = 1, num_ticks_per_picture = 1\<rparr>,
     seq_level_idx := replicate 32 8\<rparr>"

lemma sample_seq_ok: "seq_ok sample_seq"
  by (simp add: seq_ok_def sample_seq_def empty_seq_def seq_fields_def points_fields_def model_fields_def timing_fields_def
    level_fields_def op_model_fields_def op_display_fields_def tool_fields_def frame_id_fields_def inter_fields_def screen_fields_def
    color_fields_def bitdepth_fields_def description_fields_def subsampling_fields_def color_ok_def timing_ok_def point_ok_def
    points_cnt_def is_valid_seq_level_idx_def SEQ_LEVEL_4_0_def AOM_CICP_UNSPEC_def AOM_CICP_CP_BT_709_def AOM_CICP_TC_SRGB_def
    AOM_CICP_MC_IDENTITY_def Let_def)

theorem sequence_header_roundtrip_witness:
  "\<exists>data' total pbi' n hl.
    pack_sequence_header sample_seq (replicate 400 0) = Some (AOM_CODEC_OK, data', total) \<and>
    read_sequence_header_obu fresh_decoder
      \<lparr>rb_bit_buffer = drop hl data', rb_bit_offset = 0, rb_error_handler = True, rb_errors = 0\<rparr> = (Inr (int n), pbi') \<and>
    max_frame_width (ds_seq_params pbi') = 1280 \<and> max_frame_height (ds_seq_params pbi') = 720 \<and>
    sq_bit_depth (ds_seq_params pbi') = 8 \<and> seq_level_idx (ds_seq_params pbi') ! 0 = 8"
proof -
  have "arrays_ok (ds_seq_params fresh_decoder)" by (simp add: arrays_ok_def fresh_decoder_def empty_seq_def)
  then obtain data' total hdr n hl pbi' where r:
    "pack_sequence_header sample_seq (replicate 400 0) = Some (AOM_CODEC_OK, data', total)"
    "read_sequence_header_obu fresh_decoder
      \<lparr>rb_bit_buffer = drop hl data', rb_bit_offset = 0, rb_error_handler = True, rb_errors = 0\<rparr> = (Inr (int n), pbi')"
    "same_sequence sample_seq (ds_seq_params pbi')"
    using sequence_header_roundtrip [OF sample_seq_ok, of "replicate 400 0" fresh_decoder] by auto
  have "max_frame_width (ds_seq_params pbi') = 1280 \<and> max_frame_height (ds_seq_params pbi') = 720 \<and> sq_bit_depth (ds_seq_params pbi') = 8"
    using r(3) by (simp add: same_sequence_def same_tools_def same_color_def sample_seq_def)
  moreover have "seq_level_idx (ds_seq_params pbi') ! 0 = 8"
    using r(3) by (simp add: same_sequence_def same_points_def same_point_def points_cnt_def sample_seq_def empty_seq_def)
  ultimately show ?thesis using r(1,2) by blast
qed

end
