(* ===== verification/Sequence_Header_Valid.thy ===== *)
theory Sequence_Header_Valid
  imports Sequence_Header_Props
begin

text \<open>
  What the decoder makes of sequence headers nobody vouches for. Whatever the bytes, the parser
  returns, and a header it accepts is one the rest of the decoder can rely on; a header it
  refuses leaves the header in use alone.
\<close>

section \<open>What a parser can return\<close>

fun field_range :: "field \<Rightarrow> int \<Rightarrow> bool" where
  "field_range (Literal n) v \<longleftrightarrow> 0 \<le> v \<and> v < 2 ^ n"
| "field_range (Unsigned_Literal n) v \<longleftrightarrow> 0 \<le> v \<and> v < 2 ^ n"
| "field_range Uvlc v \<longleftrightarrow> 0 \<le> v \<and> v \<le> 4294967295"
| "field_range _ v \<longleftrightarrow> True"

lemma read_bit_range: "aom_rb_read_bit rb = (b, rb') \<Longrightarrow> b = 0 \<or> b = 1"
  by (auto simp: aom_rb_read_bit_def Let_def and_1_mod_2 split: if_splits)

lemma literal_loop_range:
  "rb_literal_loop n v rb = (r, rb') \<Longrightarrow> 2 ^ n dvd v \<Longrightarrow> 0 \<le> v \<Longrightarrow> v \<le> r \<and> r < v + 2 ^ n"
proof (induction n arbitrary: v rb)
  case (Suc n)
  obtain b rb1 where b: "aom_rb_read_bit rb = (b, rb1)" by fastforce
  obtain q where q: "v = 2 ^ Suc n * q" using Suc.prems(2) by blast
  have or: "v OR shl b n = v + b * 2 ^ n"
    using read_bit_range [OF b] or_disjoint_add' [of "b * 2 ^ n" "Suc n" q] by (auto simp: shl_def q mult.commute)
  have "rb_literal_loop n (v + b * 2 ^ n) rb1 = (r, rb')" using Suc.prems(1) by (simp add: b or)
  moreover have "2 ^ n dvd v + b * 2 ^ n" by (simp add: q)
  moreover have "0 \<le> v + b * 2 ^ n" using read_bit_range [OF b] Suc.prems(3) by auto
  ultimately have "v + b * 2 ^ n \<le> r \<and> r < v + b * 2 ^ n + 2 ^ n" by (rule Suc.IH)
  then show ?case using read_bit_range [OF b] by auto
qed simp

lemma read_field_range: "read_field rb f = (v, rb') \<Longrightarrow> field_range f v"
proof (cases f)
  case (Literal n)
  then show "read_field rb f = (v, rb') \<Longrightarrow> field_range f v" using literal_loop_range [of n 0 rb v rb'] by (simp add: aom_rb_read_literal_def)
next
  case (Unsigned_Literal n)
  then show "read_field rb f = (v, rb') \<Longrightarrow> field_range f v" using literal_loop_range [of n 0 rb v rb'] by (simp add: aom_rb_read_unsigned_literal_def)
next
  case Uvlc
  have "u32 x \<le> 4294967295" for x using u32_lt [of x] by linarith
  then show "read_field rb f = (v, rb') \<Longrightarrow> field_range f v"
    using Uvlc by (auto simp: aom_rb_read_uvlc_def Let_def split: prod.splits if_splits)
qed simp_all

primrec yields :: "('a \<Rightarrow> bool) \<Rightarrow> 'a parser \<Rightarrow> bool" where
  "yields P (Ret x) \<longleftrightarrow> P x"
| "yields P (Fail e) \<longleftrightarrow> True"
| "yields P (Get f k) \<longleftrightarrow> (\<forall>v. field_range f v \<longrightarrow> yields P (k v))"

lemma yields_bind: "yields Q p \<Longrightarrow> (\<And>x. Q x \<Longrightarrow> yields P (g x)) \<Longrightarrow> yields P (parser_bind p g)"
  by (induction p) auto

lemma yields_mono: "yields Q p \<Longrightarrow> (\<And>x. Q x \<Longrightarrow> P x) \<Longrightarrow> yields P p"
  by (induction p) auto

lemma yields_run: "yields P p \<Longrightarrow> run_parser p rb = Inr (x, rb') \<Longrightarrow> P x"
proof (induction p arbitrary: rb)
  case (Get f k)
  obtain v rb1 where r: "read_field rb f = (v, rb1)" by fastforce
  have "yields P (k v)" using Get.prems(1) read_field_range [OF r] by simp
  moreover have "run_parser (k v) rb1 = Inr (x, rb')" using Get.prems(2) r by (auto split: if_splits)
  ultimately show ?case using Get.IH by blast
qed simp_all


section \<open>Valid headers\<close>

definition point_valid :: "SequenceHeader \<Rightarrow> nat \<Rightarrow> bool" where
  "point_valid s i \<longleftrightarrow> is_valid_seq_level_idx (seq_level_idx s ! i) \<and> 0 \<le> seq_level_idx s ! i \<and> seq_level_idx s ! i < 32 \<and>
     (seq_tier s ! i = 0 \<or> seq_tier s ! i = 1 \<and> SEQ_LEVEL_4_0 \<le> seq_level_idx s ! i) \<and>
     0 \<le> operating_point_idc s ! i \<and> operating_point_idc s ! i < 4096"

definition points_valid :: "SequenceHeader \<Rightarrow> bool" where
  "points_valid s \<longleftrightarrow> arrays_ok s \<and> 0 \<le> sq_profile s \<and> sq_profile s \<le> 2 \<and>
     0 \<le> operating_points_cnt_minus_1 s \<and> operating_points_cnt_minus_1 s < 32 \<and>
     (\<forall>i \<le> nat (operating_points_cnt_minus_1 s). point_valid s i) \<and>
     (has_nonzero_operating_point_idc s \<longleftrightarrow> (\<exists>i \<le> nat (operating_points_cnt_minus_1 s). operating_point_idc s ! i \<noteq> 0)) \<and>
     (timing_info_present s \<noteq> 0 \<longrightarrow> num_units_in_display_tick (timing_info s) \<noteq> 0 \<and> time_scale (timing_info s) \<noteq> 0)"

definition dims_valid :: "SequenceHeader \<Rightarrow> bool" where
  "dims_valid s \<longleftrightarrow> 1 \<le> num_bits_width s \<and> num_bits_width s \<le> 16 \<and> 1 \<le> num_bits_height s \<and> num_bits_height s \<le> 16 \<and>
     1 \<le> max_frame_width s \<and> max_frame_width s \<le> 2 ^ nat (num_bits_width s) \<and>
     1 \<le> max_frame_height s \<and> max_frame_height s \<le> 2 ^ nat (num_bits_height s)"

definition ids_valid :: "SequenceHeader \<Rightarrow> bool" where
  "ids_valid s \<longleftrightarrow> (frame_id_numbers_present_flag s \<noteq> 0 \<longrightarrow>
     2 \<le> delta_frame_id_length s \<and> delta_frame_id_length s < frame_id_length s \<and> frame_id_length s \<le> 16)"

definition blocks_valid :: "SequenceHeader \<Rightarrow> bool" where
  "blocks_valid s \<longleftrightarrow> mib_size s = 16 \<and> mib_size_log2 s = 4 \<or> mib_size s = 32 \<and> mib_size_log2 s = 5"

definition inter_valid :: "SequenceHeader \<Rightarrow> bool" where
  "inter_valid s \<longleftrightarrow>
     (if enable_order_hint (order_hint_info s) = 0
      then order_hint_bits_minus_1 (order_hint_info s) = -1 \<and> enable_dist_wtd_comp (order_hint_info s) = 0 \<and>
        enable_ref_frame_mvs (order_hint_info s) = 0
      else 0 \<le> order_hint_bits_minus_1 (order_hint_info s) \<and> order_hint_bits_minus_1 (order_hint_info s) < 8) \<and>
     0 \<le> force_screen_content_tools s \<and> force_screen_content_tools s \<le> 2 \<and> 0 \<le> force_integer_mv s \<and> force_integer_mv s \<le> 2"

definition color_valid :: "SequenceHeader \<Rightarrow> bool" where
  "color_valid s \<longleftrightarrow> (sq_bit_depth s = 8 \<or> sq_bit_depth s = 10 \<or> sq_bit_depth s = 12 \<and> sq_profile s = 2) \<and>
     (sq_monochrome s = 0 \<or> sq_monochrome s = 1 \<and> sq_profile s \<noteq> 1) \<and>
     (use_highbitdepth s = 0 \<longrightarrow> sq_bit_depth s = 8) \<and>
     (subsampling_x s, subsampling_y s) \<in> {(0, 0), (1, 0), (1, 1)} \<and>
     (sq_profile s = 0 \<or> sq_monochrome s = 1 \<longrightarrow> subsampling_x s = 1 \<and> subsampling_y s = 1) \<and>
     (sq_profile s = 1 \<longrightarrow> subsampling_x s = 0 \<and> subsampling_y s = 0) \<and>
     (sq_profile s = 2 \<and> sq_monochrome s = 0 \<and> sq_bit_depth s \<noteq> 12 \<longrightarrow> subsampling_x s = 1 \<and> subsampling_y s = 0) \<and>
     (matrix_coefficients s = AOM_CICP_MC_IDENTITY \<and> sq_monochrome s = 0 \<longrightarrow> subsampling_x s = 0 \<and> subsampling_y s = 0)"

text \<open>The parts of a header that a parser after them leaves alone.\<close>

definition points_part where
  "points_part s = (sq_profile s, reduced_still_picture_hdr s, operating_points_cnt_minus_1 s, operating_point_idc s, seq_level_idx s, seq_tier s,
     sq_op_params s, has_nonzero_operating_point_idc s, timing_info_present s, timing_info s)"

definition dims_part where
  "dims_part s = (num_bits_width s, num_bits_height s, max_frame_width s, max_frame_height s)"

definition ids_part where
  "ids_part s = (frame_id_numbers_present_flag s, delta_frame_id_length s, frame_id_length s)"

definition inter_part where
  "inter_part s = (mib_size s, mib_size_log2 s, order_hint_info s, force_screen_content_tools s, force_integer_mv s)"

lemmas part_defs = points_part_def dims_part_def ids_part_def inter_part_def

lemma parts_valid:
  "points_part s' = points_part s \<Longrightarrow> points_valid s \<Longrightarrow> points_valid s'" "dims_part s' = dims_part s \<Longrightarrow> dims_valid s \<Longrightarrow> dims_valid s'"
  "ids_part s' = ids_part s \<Longrightarrow> ids_valid s \<Longrightarrow> ids_valid s'" "inter_part s' = inter_part s \<Longrightarrow> inter_valid s \<and> blocks_valid s \<Longrightarrow> inter_valid s' \<and> blocks_valid s'"
  by (simp_all add: part_defs points_valid_def arrays_ok_def point_valid_def dims_valid_def ids_valid_def inter_valid_def blocks_valid_def)

lemma yields_frame_ids:
  "yields (\<lambda>s'. ids_valid s' \<and> points_part s' = points_part s \<and> dims_part s' = dims_part s) (read_frame_ids s)"
proof -
  have "yields (\<lambda>v. 0 \<le> v) (if reduced_still_picture_hdr s \<noteq> 0 then Ret 0 else Flag Ret)" by simp
  then show ?thesis unfolding read_frame_ids_def by (rule yields_bind) (simp add: Let_def ids_valid_def part_defs)
qed

lemma yields_screen_content:
  "yields (\<lambda>s'. 0 \<le> force_screen_content_tools s' \<and> force_screen_content_tools s' \<le> 2 \<and> 0 \<le> force_integer_mv s' \<and> force_integer_mv s' \<le> 2 \<and>
    points_part s' = points_part s \<and> dims_part s' = dims_part s \<and> ids_part s' = ids_part s \<and> mib_size s' = mib_size s \<and> mib_size_log2 s' = mib_size_log2 s)
    (read_screen_content s)"
proof -
  have sel: "yields (\<lambda>v. 0 \<le> v \<and> v \<le> 2) (Flag (\<lambda>b. if b \<noteq> 0 then Ret 2 else Flag Ret))" by auto
  show ?thesis unfolding read_screen_content_def
  proof (rule yields_bind [OF sel], goal_cases)
    case (1 a)
    have "yields (\<lambda>v. 0 \<le> v \<and> v \<le> 2) (if a > 0 then Flag (\<lambda>b. if b \<noteq> 0 then Ret 2 else Flag Ret) else Ret 2)" by auto
    then show ?case by (rule yields_bind) (use 1 in \<open>simp add: part_defs\<close>)
  qed
qed

lemma yields_inter_tools:
  "yields (\<lambda>s'. inter_valid s' \<and> points_part s' = points_part s \<and> dims_part s' = dims_part s \<and> ids_part s' = ids_part s \<and>
    mib_size s' = mib_size s \<and> mib_size_log2 s' = mib_size_log2 s) (read_inter_tools s)"
    (is "yields ?P _")
proof (cases "reduced_still_picture_hdr s = 0")
  case False
  then show ?thesis unfolding read_inter_tools_def by (simp add: inter_valid_def part_defs)
next
  case True
  have bits: "yields (\<lambda>v. oh = 0 \<longrightarrow> v = 0) (if oh \<noteq> 0 then Flag Ret else Ret 0)" for oh :: int by simp
  have ob: "yields (\<lambda>v. if oh = 0 then v = -1 else 0 \<le> v \<and> v < 8) (if oh \<noteq> 0 then Get (Literal 3) Ret else Ret (-1))" for oh :: int by simp
  have main: "yields ?P (parser_bind (if oh \<noteq> 0 then Flag Ret else Ret 0) (\<lambda>dw. parser_bind (if oh \<noteq> 0 then Flag Ret else Ret 0) (\<lambda>rf.
      parser_bind (read_screen_content (s\<lparr>enable_interintra_compound := ic, enable_masked_compound := mc, enable_warped_motion := wm, enable_dual_filter := df\<rparr>))
      (\<lambda>s. parser_bind (if oh \<noteq> 0 then Get (Literal 3) Ret else Ret (- 1)) (\<lambda>ob. Ret (s\<lparr>order_hint_info := \<lparr>enable_order_hint = oh,
        order_hint_bits_minus_1 = ob, enable_dist_wtd_comp = dw, enable_ref_frame_mvs = rf\<rparr>\<rparr>))))))" for ic mc wm df oh
  proof (rule yields_bind [OF bits], rule yields_bind [OF bits], rule yields_bind [OF yields_screen_content], rule yields_bind [OF ob], goal_cases)
    case (1 dw rf s' ob)
    then show ?case by (simp add: inter_valid_def part_defs split: if_splits)
  qed
  show ?thesis unfolding read_inter_tools_def using True main by simp
qed


lemma yields_sequence_header:
  "yields (\<lambda>s'. dims_valid s' \<and> ids_valid s' \<and> blocks_valid s' \<and> inter_valid s' \<and> points_part s' = points_part s) (av1_read_sequence_header s)"
    (is "yields ?P _")
proof -
  have "yields ?P
      (parser_bind (read_frame_ids (s\<lparr>num_bits_width := bw + 1, num_bits_height := bh + 1, max_frame_width := w + 1, max_frame_height := h + 1\<rparr>)) (\<lambda>s.
       Flag (\<lambda>sb. Flag (\<lambda>fi. Flag (\<lambda>ie.
       parser_bind (read_inter_tools ((setup_sb_size s sb)\<lparr>enable_filter_intra := fi, enable_intra_edge_filter := ie\<rparr>)) (\<lambda>s.
       Flag (\<lambda>sr. Flag (\<lambda>cd. Flag (\<lambda>lr. Ret (s\<lparr>enable_superres := sr, enable_cdef := cd, enable_restoration := lr\<rparr>))))))))))"
    if "0 \<le> bw" "bw < 16" "0 \<le> bh" "bh < 16" "0 \<le> w" "w < 2 ^ nat (bw + 1)" "0 \<le> h" "h < 2 ^ nat (bh + 1)" for bw bh w h
  proof (rule yields_bind [OF yields_frame_ids], goal_cases)
    case (1 s1)
    have "yields ?P (parser_bind (read_inter_tools ((setup_sb_size s1 sb)\<lparr>enable_filter_intra := fi, enable_intra_edge_filter := ie\<rparr>)) (\<lambda>s.
       Flag (\<lambda>sr. Flag (\<lambda>cd. Flag (\<lambda>lr. Ret (s\<lparr>enable_superres := sr, enable_cdef := cd, enable_restoration := lr\<rparr>))))))" for sb fi ie
      using 1 that
      by (intro yields_bind [OF yields_inter_tools])
        (simp add: setup_sb_size_def dims_valid_def ids_valid_def blocks_valid_def inter_valid_def part_defs)
    then show ?case by simp
  qed
  then show ?thesis unfolding av1_read_sequence_header_def by simp
qed

lemma yields_bitdepth:
  assumes "0 \<le> sq_profile s"
  shows "yields (\<lambda>s'. (sq_bit_depth s' = 8 \<or> sq_bit_depth s' = 10 \<or> sq_bit_depth s' = 12 \<and> sq_profile s' = 2) \<and>
    points_part s' = points_part s \<and> dims_part s' = dims_part s \<and> ids_part s' = ids_part s \<and> inter_part s' = inter_part s) (read_bitdepth s)"
  by (simp add: read_bitdepth_def part_defs)

lemma yields_flag: "yields P (Get (Literal (Suc 0)) k) \<longleftrightarrow> yields P (k 0) \<and> yields P (k 1)"
proof -
  have "field_range (Literal (Suc 0)) v \<longleftrightarrow> v = 0 \<or> v = 1" for v by auto
  then show ?thesis by (auto simp del: field_range.simps)
qed

text \<open>The parts of a header but for its colours.\<close>

definition kept where
  "kept s = (points_part s, dims_part s, ids_part s, inter_part s, sq_bit_depth s, use_highbitdepth s, sq_monochrome s)"

lemma yields_subsampling:
  assumes "0 \<le> sq_profile s" "sq_profile s \<le> 2"
  shows "yields (\<lambda>s'. kept s' = kept s \<and> (subsampling_x s', subsampling_y s') \<in> {(0, 0), (1, 0), (1, 1)} \<and>
    (sq_profile s = 0 \<longrightarrow> subsampling_x s' = 1 \<and> subsampling_y s' = 1) \<and> (sq_profile s = 1 \<longrightarrow> subsampling_x s' = 0 \<and> subsampling_y s' = 0) \<and>
    (sq_profile s = 2 \<and> sq_bit_depth s \<noteq> 12 \<longrightarrow> subsampling_x s' = 1 \<and> subsampling_y s' = 0)) (read_subsampling s)"
  using assms by (simp add: read_subsampling_def kept_def part_defs yields_flag del: yields.simps(3))

lemma yields_description: "yields (\<lambda>s'. kept s' = kept s) (read_color_description s)"
  by (simp add: read_color_description_def kept_def part_defs)

text \<open>A colour stream: the subsampling and what follows it.\<close>

lemma yields_planes:
  assumes "0 \<le> sq_profile s" "sq_profile s \<le> 2" and depth: "sq_bit_depth s = 8 \<or> sq_bit_depth s = 10 \<or> sq_bit_depth s = 12 \<and> sq_profile s = 2"
    and high: "use_highbitdepth s = 0 \<longrightarrow> sq_bit_depth s = 8" and mono: "sq_monochrome s = 0"
  shows "yields (\<lambda>s'. color_valid s' \<and> kept s' = kept s)
    (parser_bind (read_subsampling (s\<lparr>color_range := cr\<rparr>)) (\<lambda>s.
       if matrix_coefficients s = AOM_CICP_MC_IDENTITY \<and> (subsampling_x s \<noteq> 0 \<or> subsampling_y s \<noteq> 0) then Fail Identity_subsampling
       else if subsampling_x s \<noteq> 0 \<and> subsampling_y s \<noteq> 0 then Get (Literal 2) (\<lambda>csp. Ret (s\<lparr>chroma_sample_position := csp\<rparr>)) else Ret s))"
proof (rule yields_bind [OF yields_subsampling], goal_cases)
  case (3 s')
  then have k: "kept s' = kept s" by (simp add: kept_def part_defs)
  have f: "sq_profile s' = sq_profile s" "sq_bit_depth s' = sq_bit_depth s" "use_highbitdepth s' = use_highbitdepth s" "sq_monochrome s' = sq_monochrome s"
    using k by (simp_all add: kept_def points_part_def)
  have sub: "(subsampling_x s', subsampling_y s') \<in> {(0, 0), (1, 0), (1, 1)}" "sq_profile s = 0 \<longrightarrow> subsampling_x s' = 1 \<and> subsampling_y s' = 1"
    "sq_profile s = 1 \<longrightarrow> subsampling_x s' = 0 \<and> subsampling_y s' = 0"
    "sq_profile s = 2 \<and> sq_bit_depth s \<noteq> 12 \<longrightarrow> subsampling_x s' = 1 \<and> subsampling_y s' = 0"
    using 3 by simp_all
  have v: "color_valid s'" if "\<not> (matrix_coefficients s' = AOM_CICP_MC_IDENTITY \<and> (subsampling_x s' \<noteq> 0 \<or> subsampling_y s' \<noteq> 0))"
    using sub depth high that unfolding color_valid_def f mono by auto
  have "color_valid (s'\<lparr>chroma_sample_position := c\<rparr>) = color_valid s'" "kept (s'\<lparr>chroma_sample_position := c\<rparr>) = kept s'" for c
    by (simp_all add: color_valid_def kept_def part_defs)
  then show ?case using v k by simp
qed (use assms in simp_all)

lemma kept_parts: "kept s' = kept s \<Longrightarrow> points_part s' = points_part s \<and> dims_part s' = dims_part s \<and> ids_part s' = ids_part s \<and> inter_part s' = inter_part s"
  by (simp add: kept_def)

lemma yields_color:
  assumes "0 \<le> sq_profile s" "sq_profile s \<le> 2"
  shows "yields (\<lambda>s'. color_valid s' \<and> points_part s' = points_part s \<and> dims_part s' = dims_part s \<and> ids_part s' = ids_part s \<and>
    inter_part s' = inter_part s) (av1_read_color_config lbd s)" (is "yields ?P _")
  unfolding av1_read_color_config_def Let_def
proof (rule yields_bind [OF yields_bitdepth [OF assms(1)]], goal_cases)
  case (1 s1)
  define s2 where "s2 = s1\<lparr>use_highbitdepth := b2i (8 < sq_bit_depth s1 \<or> lbd = 0)\<rparr>"
  have s2: "sq_bit_depth s2 = 8 \<or> sq_bit_depth s2 = 10 \<or> sq_bit_depth s2 = 12 \<and> sq_profile s2 = 2" "use_highbitdepth s2 = 0 \<longrightarrow> sq_bit_depth s2 = 8"
    "points_part s2 = points_part s" "dims_part s2 = dims_part s" "ids_part s2 = ids_part s" "inter_part s2 = inter_part s" "sq_profile s2 = sq_profile s"
    using 1 by (auto simp: s2_def part_defs)
  have "yields (\<lambda>m. m = 0 \<or> m = 1 \<and> sq_profile s2 \<noteq> 1) (if sq_profile s2 \<noteq> 1 then Flag Ret else Ret 0)" by auto
  then show ?case unfolding s2_def [symmetric]
  proof (rule yields_bind, goal_cases)
    case m: (1 mono)
    show ?case
    proof (rule yields_bind [OF yields_description], goal_cases)
      case k4: (1 s4)
      have f4: "sq_bit_depth s4 = sq_bit_depth s2" "use_highbitdepth s4 = use_highbitdepth s2" "sq_monochrome s4 = mono" "sq_profile s4 = sq_profile s2"
        using k4 by (simp_all add: kept_def points_part_def)
      have k: "points_part s4 = points_part s" "dims_part s4 = dims_part s" "ids_part s4 = ids_part s" "inter_part s4 = inter_part s"
        using k4 s2(3-6) by (simp_all add: kept_def part_defs)
      show ?case
      proof (cases "mono \<noteq> 0")
        case True
        have c: "color_valid (s4\<lparr>color_range := cr, subsampling_y := 1, subsampling_x := 1, chroma_sample_position := 0, separate_uv_delta_q := 0\<rparr>)" for cr
          unfolding color_valid_def using f4 s2(1,2) m True by simp
        show ?thesis using True c k by (simp add: part_defs)
      next
        case False
        then have mono: "mono = 0" by simp
        have planes: "yields (\<lambda>s'. color_valid s' \<and> kept s' = kept s4) (Flag (\<lambda>cr. parser_bind (read_subsampling (s4\<lparr>color_range := cr\<rparr>)) (\<lambda>s.
            if matrix_coefficients s = AOM_CICP_MC_IDENTITY \<and> (subsampling_x s \<noteq> 0 \<or> subsampling_y s \<noteq> 0) then Fail Identity_subsampling
            else if subsampling_x s \<noteq> 0 \<and> subsampling_y s \<noteq> 0 then Get (Literal 2) (\<lambda>csp. Ret (s\<lparr>chroma_sample_position := csp\<rparr>)) else Ret s)))"
          unfolding yields.simps using f4 s2 assms mono by (intro allI impI yields_planes) simp_all
        have "color_valid (s4\<lparr>subsampling_y := 0, subsampling_x := 0, color_range := 1\<rparr>)"
          if "sq_profile s4 = 1 \<or> sq_profile s4 = 2 \<and> sq_bit_depth s4 = 12"
          unfolding color_valid_def using f4 s2(1,2) mono that by auto
        then have srgb: "yields (\<lambda>s'. color_valid s' \<and> kept s' = kept s4) (if \<not> (sq_profile s4 = 1 \<or> sq_profile s4 = 2 \<and> sq_bit_depth s4 = 12)
            then Fail Srgb_profile else Ret (s4\<lparr>subsampling_y := 0, subsampling_x := 0, color_range := 1\<rparr>))"
          by (simp add: kept_def part_defs)
        have last: "yields ?P (Flag (\<lambda>uv. Ret (s'\<lparr>separate_uv_delta_q := uv\<rparr>)))" if "color_valid s' \<and> kept s' = kept s4" for s'
        proof -
          have "color_valid (s'\<lparr>separate_uv_delta_q := uv\<rparr>) = color_valid s'" for uv by (simp add: color_valid_def)
          then show ?thesis using that k kept_parts [of s' s4] by (simp add: part_defs)
        qed
        show ?thesis using False planes srgb by (simp only: if_False, intro yields_bind [OF _ last], cases "color_primaries s4 = AOM_CICP_CP_BT_709 \<and>
          transfer_characteristics s4 = AOM_CICP_TC_SRGB \<and> matrix_coefficients s4 = AOM_CICP_MC_IDENTITY") (simp_all only: if_True if_False, simp_all)
      qed
    qed
  qed
qed

section \<open>Operating points\<close>

text \<open>The first \<open>i\<close> points are read; \<open>f\<close> is what the loop over the points leaves alone.\<close>

definition points_fixed where
  "points_fixed s = (sq_profile s, operating_points_cnt_minus_1 s, timing_info_present s, timing_info s)"

definition points_read :: "_ \<Rightarrow> nat \<Rightarrow> SequenceHeader \<Rightarrow> bool" where
  "points_read f i s \<longleftrightarrow> arrays_ok s \<and> points_fixed s = f \<and> (\<forall>j < i. point_valid s j) \<and>
     (has_nonzero_operating_point_idc s \<longleftrightarrow> (\<exists>j < i. operating_point_idc s ! j \<noteq> 0))"

lemma level_read:
  assumes r: "points_read f i s" and i: "i < 32" and v: "is_valid_seq_level_idx level" "0 \<le> level" "level < 32" "0 \<le> idc" "idc < 4096"
    and t: "tier = 0 \<or> tier = 1 \<and> SEQ_LEVEL_4_0 \<le> level"
  shows "points_read f (Suc i) (s\<lparr>operating_point_idc := (operating_point_idc s)[i := idc],
    has_nonzero_operating_point_idc := has_nonzero_operating_point_idc s \<or> idc \<noteq> 0,
    seq_level_idx := (seq_level_idx s)[i := level], seq_tier := (seq_tier s)[i := tier]\<rparr>)" (is "points_read f _ ?s")
proof -
  have n: "length (operating_point_idc s) = 32" "length (seq_level_idx s) = 32" "length (seq_tier s) = 32"
    using r by (simp_all add: points_read_def arrays_ok_def)
  have old: "point_valid ?s j" if "j < i" for j
    using r that by (auto simp: points_read_def point_valid_def)
  have new: "point_valid ?s i" using n i v t by (simp add: point_valid_def)
  have "arrays_ok ?s" "points_fixed ?s = f" using r by (simp_all add: points_read_def arrays_ok_def points_fixed_def)
  moreover have "(has_nonzero_operating_point_idc s \<or> idc \<noteq> 0) \<longleftrightarrow> (\<exists>j < Suc i. operating_point_idc ?s ! j \<noteq> 0)"
    using r n i by (auto simp: points_read_def less_Suc_eq)
  moreover have "\<forall>j < Suc i. point_valid ?s j" using old new less_antisym by blast
  ultimately show ?thesis unfolding points_read_def by simp
qed

lemma yields_op_level:
  assumes "points_read f i s" "i < 32"
  shows "yields (points_read f (Suc i)) (read_op_level s i)"
proof -
  have tier: "yields (\<lambda>t. t = 0 \<or> t = 1 \<and> SEQ_LEVEL_4_0 \<le> level) (if level \<ge> SEQ_LEVEL_4_0 then Flag Ret else Ret 0)" for level by auto
  have "yields (points_read f (Suc i)) (parser_bind (if level \<ge> SEQ_LEVEL_4_0 then Flag Ret else Ret 0) (\<lambda>tier.
      Ret (s\<lparr>operating_point_idc := (operating_point_idc s)[i := idc],
        has_nonzero_operating_point_idc := has_nonzero_operating_point_idc s \<or> idc \<noteq> 0,
        seq_level_idx := (seq_level_idx s)[i := level], seq_tier := (seq_tier s)[i := tier]\<rparr>)))"
    if "is_valid_seq_level_idx level" "0 \<le> level" "level < 32" "0 \<le> idc" "idc < 4096" for level idc
    by (rule yields_bind [OF tier]) (use level_read [OF assms that] in simp)
  then show ?thesis unfolding read_op_level_def Let_def by simp
qed

lemma yields_any: "yields (\<lambda>_. True) p"
  by (induction p) simp_all

lemma points_read_params: "points_read f i s \<Longrightarrow> points_read f i (s\<lparr>sq_op_params := (sq_op_params s)[k := op]\<rparr>)"
  by (simp add: points_read_def arrays_ok_def points_fixed_def point_valid_def)

lemma yields_op_points:
  "points_read f i s \<Longrightarrow> i + m \<le> 32 \<Longrightarrow> yields (points_read f (i + m)) (read_op_points m i s)"
proof (induction m arbitrary: i s)
  case (Suc m)
  show ?case unfolding read_op_points.simps
  proof (rule yields_bind [OF yields_op_level [OF Suc.prems(1)]], goal_cases)
    case (2 s1)
    show ?case
      using Suc.IH [OF points_read_params [OF 2]] Suc.prems(2) by (intro yields_bind [OF yields_any]) simp
  qed (use Suc.prems in simp)
qed simp

lemma yields_models:
  "yields (\<lambda>s'. (timing_info_present s' \<noteq> 0 \<longrightarrow> num_units_in_display_tick (timing_info s') \<noteq> 0 \<and> time_scale (timing_info s') \<noteq> 0) \<and>
    sq_profile s' = sq_profile s \<and> (arrays_ok s' \<longleftrightarrow> arrays_ok s)) (read_models s tp)" (is "yields ?P _")
proof -
  have timing: "yields (\<lambda>t. num_units_in_display_tick t \<noteq> 0 \<and> time_scale t \<noteq> 0) (av1_read_timing_info_header t)" for t
    by (simp add: av1_read_timing_info_header_def Let_def)
  have "yields ?P (parser_bind (av1_read_timing_info_header (timing_info s)) (\<lambda>ti. Flag (\<lambda>dp.
      parser_bind (if dp \<noteq> 0 then av1_read_decoder_model_info (decoder_model_info s) else Ret (decoder_model_info s)) (\<lambda>di.
      Ret (s\<lparr>timing_info_present := tp, timing_info := ti, decoder_model_info_present_flag := dp, decoder_model_info := di\<rparr>)))))"
  proof (rule yields_bind [OF timing], unfold yields.simps, intro allI impI)
    fix ti :: aom_timing_info and dp :: int
    assume "num_units_in_display_tick ti \<noteq> 0 \<and> time_scale ti \<noteq> 0"
    then show "yields ?P (parser_bind (if dp \<noteq> 0 then av1_read_decoder_model_info (decoder_model_info s) else Ret (decoder_model_info s)) (\<lambda>di.
      Ret (s\<lparr>timing_info_present := tp, timing_info := ti, decoder_model_info_present_flag := dp, decoder_model_info := di\<rparr>)))"
      by (intro yields_bind [OF yields_any]) (simp add: arrays_ok_def)
  qed
  then show ?thesis unfolding read_models_def by (simp add: arrays_ok_def)
qed

lemma points_read_valid:
  assumes "points_read (prof, cnt, tp, ti) (nat (cnt + 1)) s" "0 \<le> prof" "prof \<le> 2" "0 \<le> cnt" "cnt < 32"
    and "tp \<noteq> 0 \<longrightarrow> num_units_in_display_tick ti \<noteq> 0 \<and> time_scale ti \<noteq> 0"
  shows "points_valid s"
proof -
  have le: "j \<le> nat cnt \<longleftrightarrow> j < nat (cnt + 1)" for j using assms(4) by linarith
  have f: "sq_profile s = prof" "operating_points_cnt_minus_1 s = cnt" "timing_info_present s = tp" "timing_info s = ti" "arrays_ok s"
    using assms(1) by (simp_all add: points_read_def points_fixed_def)
  show ?thesis using assms unfolding points_valid_def f le by (simp add: points_read_def)
qed

lemma yields_points:
  assumes "arrays_ok s" "0 \<le> cnt" "cnt < 32" "0 \<le> sq_profile s" "sq_profile s \<le> 2"
    and "timing_info_present s \<noteq> 0 \<longrightarrow> num_units_in_display_tick (timing_info s) \<noteq> 0 \<and> time_scale (timing_info s) \<noteq> 0"
  shows "yields points_valid (read_op_points (nat (cnt + 1)) 0 (s\<lparr>display_model_info_present_flag := disp,
    operating_points_cnt_minus_1 := cnt, has_nonzero_operating_point_idc := False\<rparr>))"
proof -
  let ?f = "(sq_profile s, cnt, timing_info_present s, timing_info s)"
  have "points_read ?f 0 (s\<lparr>display_model_info_present_flag := disp, operating_points_cnt_minus_1 := cnt,
      has_nonzero_operating_point_idc := False\<rparr>)"
    using assms(1) by (simp add: points_read_def arrays_ok_def points_fixed_def)
  then have "yields (points_read ?f (0 + nat (cnt + 1))) (read_op_points (nat (cnt + 1)) 0 (s\<lparr>display_model_info_present_flag := disp,
      operating_points_cnt_minus_1 := cnt, has_nonzero_operating_point_idc := False\<rparr>))"
    by (rule yields_op_points) (use assms(3) in simp)
  then show ?thesis by (rule yields_mono) (use points_read_valid [OF _ assms(4,5,2,3,6)] in simp)
qed

lemma reduced_points_valid:
  assumes "arrays_ok s" "is_valid_seq_level_idx level" "0 \<le> level" "level < 32" "0 \<le> prof" "prof \<le> 2"
  shows "points_valid (s\<lparr>sq_profile := prof, still_picture := still, reduced_still_picture_hdr := reduced,
    timing_info_present := 0, decoder_model_info_present_flag := 0, display_model_info_present_flag := 0,
    operating_points_cnt_minus_1 := 0, operating_point_idc := (operating_point_idc s)[0 := 0],
    has_nonzero_operating_point_idc := False, seq_level_idx := (seq_level_idx s)[0 := level],
    seq_tier := (seq_tier s)[0 := 0], sq_op_params := (sq_op_params s)[0 := op]\<rparr>)"
  using assms by (simp add: points_valid_def arrays_ok_def point_valid_def)

lemma yields_seq_points:
  assumes a: "arrays_ok s"
  shows "yields points_valid (read_seq_points s)"
proof -
  have "yields points_valid (parser_bind (read_models (s\<lparr>sq_profile := prof, still_picture := still, reduced_still_picture_hdr := reduced\<rparr>) tp) (\<lambda>s.
       Flag (\<lambda>disp. Get (Literal 5) (\<lambda>cnt.
         read_op_points (nat (cnt + 1)) 0 (s\<lparr>display_model_info_present_flag := disp, operating_points_cnt_minus_1 := cnt,
           has_nonzero_operating_point_idc := False\<rparr>)))))" if "0 \<le> prof" "prof \<le> 2" for prof still reduced tp
  proof (rule yields_bind [OF yields_models], goal_cases)
    case (1 s1)
    then have "arrays_ok s1" using a by (simp add: arrays_ok_def)
    then have "yields points_valid (read_op_points (nat (cnt + 1)) 0 (s1\<lparr>display_model_info_present_flag := disp,
        operating_points_cnt_minus_1 := cnt, has_nonzero_operating_point_idc := False\<rparr>))" if "0 \<le> cnt" "cnt < 32" for cnt disp
      using 1 \<open>0 \<le> prof\<close> \<open>prof \<le> 2\<close> that by (intro yields_points) simp_all
    then show ?case by simp
  qed
  then show ?thesis unfolding read_seq_points_def Let_def using reduced_points_valid [OF a] by simp
qed

text \<open>A header the decoder can work with.\<close>

definition seq_valid :: "SequenceHeader \<Rightarrow> bool" where
  "seq_valid s \<longleftrightarrow> points_valid s \<and> dims_valid s \<and> ids_valid s \<and> blocks_valid s \<and> inter_valid s \<and> color_valid s"

lemma yields_seq_rest:
  assumes "points_valid s"
  shows "yields seq_valid (read_seq_rest lbd s)"
  unfolding read_seq_rest_def
proof (rule yields_bind [OF yields_sequence_header], rule yields_bind [OF yields_color], goal_cases)
  case (3 s1 s2)
  have "seq_valid s2" using 3 assms parts_valid [of s2 s1] parts_valid(1) [of s1 s] by (simp add: seq_valid_def)
  moreover have "seq_valid (s2\<lparr>film_grain_params_present := fg\<rparr>) = seq_valid s2" for fg
    by (simp add: seq_valid_def points_valid_def arrays_ok_def point_valid_def dims_valid_def ids_valid_def blocks_valid_def inter_valid_def color_valid_def)
  ultimately show ?case by simp
qed (use assms in \<open>simp_all add: points_valid_def points_part_def\<close>)

section \<open>The whole header\<close>

text \<open>What a sequence header OBU leaves in the decoder.\<close>

lemma sequence_header_result:
  assumes a: "arrays_ok (ds_seq_params pbi)" and run: "read_sequence_header_obu pbi rb = (r, pbi')"
  shows "case r of
      Inl e \<Rightarrow> ds_seq_params pbi' = ds_seq_params pbi \<and> sequence_header_ready pbi' = sequence_header_ready pbi \<and> ds_error pbi' = seq_error_code e
    | Inr n \<Rightarrow> seq_valid (ds_seq_params pbi') \<and> sequence_header_ready pbi'"
proof (cases "run_parser (read_seq_points (ds_seq_params pbi)) rb")
  case (Inl e)
  then show ?thesis using run by (auto simp: read_sequence_header_obu_def)
next
  case (Inr x)
  then obtain s rb1 where 1: "run_parser (read_seq_points (ds_seq_params pbi)) rb = Inr (s, rb1)" by (cases x) auto
  have p: "points_valid s" using yields_run [OF yields_seq_points [OF a] 1] .
  show ?thesis
  proof (cases "run_parser (read_seq_rest (ds_allow_lowbitdepth pbi) s) rb1")
    case (Inl e)
    then show ?thesis using run 1 by (auto simp: read_sequence_header_obu_def Let_def split: prod.splits)
  next
    case (Inr y)
    then obtain s2 rb2 where 2: "run_parser (read_seq_rest (ds_allow_lowbitdepth pbi) s) rb1 = Inr (s2, rb2)" by (cases y) auto
    have "seq_valid s2" using yields_run [OF yields_seq_rest [OF p] 2] .
    then show ?thesis using run 1 2 by (auto simp: read_sequence_header_obu_def Let_def split: prod.splits sum.splits)
  qed
qed

text \<open>C7. Whatever the data, \<open>read_sequence_header_obu\<close> returns, and the header in use is sound
  afterwards. When it reports a size, the decoder holds a valid header: a known profile, every
  operating point with a level the specification names and no tier below level 4.0, the flag for
  non-zero operating points true to the points, frame dimensions within the announced bit widths,
  frame identifiers of at most 16 bits, a superblock size that agrees with its logarithm, a
  subsampling and bit depth the profile allows, and non-zero timing units. When it reports an
  error, the header that was in use before is untouched and the header is not marked ready by the
  failed one.\<close>

theorem sequence_header_sound:
  assumes a: "arrays_ok (ds_seq_params pbi)" and run: "read_sequence_header_obu pbi rb = (r, pbi')"
  shows "case r of
      Inl e \<Rightarrow> ds_seq_params pbi' = ds_seq_params pbi \<and> sequence_header_ready pbi' = sequence_header_ready pbi \<and> ds_error pbi' = seq_error_code e
    | Inr n \<Rightarrow> seq_valid (ds_seq_params pbi') \<and> sequence_header_ready pbi'"
  using sequence_header_result [OF a run] .

text \<open>The six bytes of the header of a still picture of 64 by 64 samples.\<close>

definition still_header :: aom_read_bit_buffer where
  "still_header = \<lparr>rb_bit_buffer = [26, 21, 127, 252, 0, 8], rb_bit_offset = 0, rb_error_handler = True, rb_errors = 0\<rparr>"

lemma still_header_size: "fst (read_sequence_header_obu fresh_decoder still_header) = Inr 6"
  by code_simp

theorem sequence_header_sound_witness:
  "arrays_ok (ds_seq_params fresh_decoder) \<and> fst (read_sequence_header_obu fresh_decoder still_header) = Inr 6 \<and>
   seq_valid (ds_seq_params (snd (read_sequence_header_obu fresh_decoder still_header)))"
proof -
  have a: "arrays_ok (ds_seq_params fresh_decoder)" by (simp add: arrays_ok_def fresh_decoder_def empty_seq_def)
  obtain pbi' where r: "read_sequence_header_obu fresh_decoder still_header = (Inr 6, pbi')"
    using still_header_size by (cases "read_sequence_header_obu fresh_decoder still_header") simp
  show ?thesis using sequence_header_sound [OF a r] a r by simp
qed

end
