(* ===== verification/Frame_Buffer.thy ===== *)
theory Frame_Buffer
  imports Aom_Codec
begin

text \<open>
  \<open>aom_scale/generic/yv12config.c\<close>: the frame buffers every picture of the codec lives in. A
  frame is one block of memory with three planes, each surrounded by a border. The plane
  pointers are addresses in units of samples: bytes, or 16-bit words when the frame is a high
  bit depth one (\<open>CONVERT_TO_BYTEPTR\<close> halves the address). \<open>yv_samples\<close> is what the block holds,
  read as samples; the allocator's own view of the block is the heap of \<^verbatim>\<open>Aom_Mem\<close>. This is the
  realtime-only build: frames have no pyramid and no corner list.
\<close>

section \<open>Frames\<close>

record YV12_BUFFER_CONFIG =
  y_width :: int
  uv_width :: int
  y_height :: int
  uv_height :: int
  y_crop_width :: int
  uv_crop_width :: int
  y_crop_height :: int
  uv_crop_height :: int
  y_stride :: int
  uv_stride :: int
  y_buffer :: int
  u_buffer :: int
  v_buffer :: int
  use_external_reference_buffers :: int
  store_buf_adr :: "int list"
  buffer_alloc :: int
  buffer_alloc_sz :: int
  yv_border :: int
  frame_size :: int
  yv_subsampling_x :: int
  yv_subsampling_y :: int
  yv_bit_depth :: int
  yv_color_primaries :: int
  yv_transfer_characteristics :: int
  yv_matrix_coefficients :: int
  yv_monochrome :: int
  yv_chroma_sample_position :: int
  yv_color_range :: int
  render_width :: int
  render_height :: int
  corrupted :: int
  yv_flags :: int
  yv_metadata :: "aom_metadata_array option"
  yv_samples :: "int list"

definition AOM_BORDER_IN_PIXELS :: int where "AOM_BORDER_IN_PIXELS = 288"
definition AOM_DEC_BORDER_IN_PIXELS :: int where "AOM_DEC_BORDER_IN_PIXELS = 64"
definition YV12_FLAG_HIGHBITDEPTH :: int where "YV12_FLAG_HIGHBITDEPTH = 8"

definition zero_frame :: YV12_BUFFER_CONFIG where
  "zero_frame =
     \<lparr>y_width = 0, uv_width = 0, y_height = 0, uv_height = 0, y_crop_width = 0, uv_crop_width = 0, y_crop_height = 0,
      uv_crop_height = 0, y_stride = 0, uv_stride = 0, y_buffer = 0, u_buffer = 0, v_buffer = 0,
      use_external_reference_buffers = 0, store_buf_adr = [0, 0, 0], buffer_alloc = 0, buffer_alloc_sz = 0, yv_border = 0, frame_size = 0,
      yv_subsampling_x = 0, yv_subsampling_y = 0, yv_bit_depth = 0, yv_color_primaries = 0,
      yv_transfer_characteristics = 0, yv_matrix_coefficients = 0, yv_monochrome = 0, yv_chroma_sample_position = 0,
      yv_color_range = 0, render_width = 0, render_height = 0, corrupted = 0, yv_flags = 0, yv_metadata = None, yv_samples = []\<rparr>"

text \<open>The samples of a block of bytes, and the bytes of samples, little-endian.\<close>

fun samples16 :: "int list \<Rightarrow> int list" where
  "samples16 (a # b # bs) = (a + 256 * b) # samples16 bs"
| "samples16 _ = []"

definition samples_of :: "bool \<Rightarrow> int list \<Rightarrow> int list" where
  "samples_of high bs = (if high then samples16 bs else bs)"

definition bytes_of :: "bool \<Rightarrow> int list \<Rightarrow> int list" where
  "bytes_of high xs = (if high then concat (map (\<lambda>x. [x mod 256, x div 256]) xs) else xs)"

definition is_high :: "YV12_BUFFER_CONFIG \<Rightarrow> bool" where
  "is_high ybf = (yv_flags ybf AND YV12_FLAG_HIGHBITDEPTH \<noteq> 0)"

section \<open>Allocation\<close>

definition aom_remove_metadata_from_frame_buffer :: "YV12_BUFFER_CONFIG \<Rightarrow> YV12_BUFFER_CONFIG" where
  "aom_remove_metadata_from_frame_buffer ybf = ybf\<lparr>yv_metadata := None\<rparr>"

definition aom_free_frame_buffer ::
  "heap \<Rightarrow> YV12_BUFFER_CONFIG option \<Rightarrow> (aom_codec_err \<times> heap \<times> YV12_BUFFER_CONFIG option) option" where
  "aom_free_frame_buffer h p =
     (case p of
        None \<Rightarrow> Some (AOM_CODEC_MEM_ERROR, h, None)
      | Some ybf \<Rightarrow>
          do {
            h \<leftarrow> (if buffer_alloc_sz ybf > 0 then aom_free h (buffer_alloc ybf) else Some h);
            Some (AOM_CODEC_OK, h, Some zero_frame)
          })"

definition aom_calc_y_stride :: "int \<Rightarrow> int \<Rightarrow> int" where
  "aom_calc_y_stride aligned_width border = ((aligned_width + 2 * border) + 31) AND NOT 31"

text \<open>The strides and sizes of the planes: \<open>(y_stride, uv_stride, yplane_size, uvplane_size)\<close>.\<close>

definition calc_stride_and_planesize ::
  "int \<Rightarrow> int \<Rightarrow> int \<Rightarrow> int \<Rightarrow> int \<Rightarrow> int \<Rightarrow> bool \<Rightarrow> int \<Rightarrow> aom_codec_err + int \<times> int \<times> int \<times> int" where
  "calc_stride_and_planesize ss_x ss_y aligned_width aligned_height border byte_alignment alloc_y_plane_only uvheight =
     (if border AND 31 \<noteq> 0 then Inl AOM_CODEC_MEM_ERROR
      else
        let ystride = aom_calc_y_stride aligned_width border;
            yplane_size = u64 ((aligned_height + 2 * border) * ystride + byte_alignment) in
        if \<not> alloc_y_plane_only then
          let uvstride = shr ystride (nat ss_x);
              uvplane_size = u64 ((uvheight + 2 * shr border (nat ss_y)) * uvstride + byte_alignment) in
          Inr (ystride, uvstride, yplane_size, uvplane_size)
        else Inr (ystride, 0, yplane_size, 0))"

text \<open>
  A frame buffer callback is asked for a number of bytes; it answers with its status, the
  address of its block and what the block holds.
\<close>

type_synonym frame_cb = "int \<Rightarrow> int \<times> int \<times> int list"

text \<open>The block a frame of \<open>frame_size\<close> bytes is put in: the heap and the frame with its memory.\<close>

definition frame_memory ::
  "int \<Rightarrow> heap \<Rightarrow> frame_cb option \<Rightarrow> bool \<Rightarrow> int \<Rightarrow> YV12_BUFFER_CONFIG \<Rightarrow>
    (aom_codec_err \<times> heap \<times> YV12_BUFFER_CONFIG) option" where
  "frame_memory pick h cb high fsize ybf =
     (case cb of
        Some get \<Rightarrow>
          let external_frame_size = u64 (fsize + 31);
              (rc, addr, bytes) = get external_frame_size in
          if rc < 0 then Some (AOM_CODEC_MEM_ERROR, h, ybf)
          else if addr = 0 \<or> int (length bytes) < external_frame_size then Some (AOM_CODEC_MEM_ERROR, h, ybf)
          else
            let base = aom_align_addr addr 32 in
            Some (AOM_CODEC_OK, h, ybf\<lparr>buffer_alloc := base, yv_samples := samples_of high (drop (nat (base - addr)) bytes)\<rparr>)
      | None \<Rightarrow>
          if fsize > buffer_alloc_sz ybf then
            do {
              h \<leftarrow> aom_free h (buffer_alloc ybf);
              let ybf = ybf\<lparr>buffer_alloc := 0, buffer_alloc_sz := 0, yv_samples := []\<rparr>;
              let (x, h) = aom_memalign pick h 32 fsize;
              if x = 0 then Some (AOM_CODEC_MEM_ERROR, h, ybf)
              else Some (AOM_CODEC_OK, h, ybf\<lparr>buffer_alloc := x, buffer_alloc_sz := fsize,
                     yv_samples := samples_of high (replicate (nat fsize) 0)\<rparr>)
            }
          else Some (AOM_CODEC_OK, h, ybf\<lparr>yv_samples := samples_of high (bytes_of (is_high ybf) (yv_samples ybf))\<rparr>))"

definition realloc_frame_buffer_aligned ::
  "int \<Rightarrow> heap \<Rightarrow> YV12_BUFFER_CONFIG \<Rightarrow> int \<Rightarrow> int \<Rightarrow> int \<Rightarrow> int \<Rightarrow> int \<Rightarrow> int \<Rightarrow> int \<Rightarrow> frame_cb option \<Rightarrow>
    int \<Rightarrow> int \<Rightarrow> int \<Rightarrow> int \<Rightarrow> int \<Rightarrow> int \<Rightarrow> int \<Rightarrow> int \<Rightarrow> int \<Rightarrow> int \<Rightarrow> bool \<Rightarrow>
    (aom_codec_err \<times> heap \<times> YV12_BUFFER_CONFIG) option" where
  "realloc_frame_buffer_aligned pick h ybf width height ss_x ss_y use_highbitdepth border byte_alignment cb
      ystride yplane_size uvplane_size aligned_width aligned_height uvwidth uvheight uvstride uv_border_w uv_border_h
      alloc_y_plane_only =
     (let aom_byte_align = (if byte_alignment = 0 then 1 else byte_alignment);
          fsize = u64 ((1 + use_highbitdepth) * (yplane_size + 2 * uvplane_size)) in
      if fsize > AOM_MAX_ALLOCABLE_MEMORY div 8 then Some (AOM_CODEC_MEM_ERROR, h, ybf)
      else
        do {
          (e, h, ybf) \<leftarrow> frame_memory pick h cb (use_highbitdepth \<noteq> 0) fsize ybf;
          if e \<noteq> AOM_CODEC_OK then Some (e, h, ybf)
          else
            let buf = (if use_highbitdepth \<noteq> 0 then shr (buffer_alloc ybf) 1 else buffer_alloc ybf);
                ybf = ybf\<lparr>y_crop_width := width, y_crop_height := height, y_width := aligned_width,
                  y_height := aligned_height, y_stride := ystride,
                  uv_crop_width := shr (width + ss_x) (nat ss_x), uv_crop_height := shr (height + ss_y) (nat ss_y),
                  uv_width := uvwidth, uv_height := uvheight, uv_stride := uvstride,
                  yv_border := border, frame_size := fsize, yv_subsampling_x := ss_x, yv_subsampling_y := ss_y,
                  yv_flags := if use_highbitdepth \<noteq> 0 then YV12_FLAG_HIGHBITDEPTH else 0,
                  y_buffer := aom_align_addr (buf + border * ystride + border) aom_byte_align,
                  u_buffer := if alloc_y_plane_only then 0
                    else aom_align_addr (buf + yplane_size + uv_border_h * uvstride + uv_border_w) aom_byte_align,
                  v_buffer := if alloc_y_plane_only then 0
                    else aom_align_addr (buf + yplane_size + uvplane_size + uv_border_h * uvstride + uv_border_w) aom_byte_align,
                  use_external_reference_buffers := 0, corrupted := 0\<rparr> in
            Some (AOM_CODEC_OK, h, ybf)
        })"

definition aom_realloc_frame_buffer ::
  "int \<Rightarrow> heap \<Rightarrow> YV12_BUFFER_CONFIG option \<Rightarrow> int \<Rightarrow> int \<Rightarrow> int \<Rightarrow> int \<Rightarrow> int \<Rightarrow> int \<Rightarrow> int \<Rightarrow> frame_cb option \<Rightarrow> bool \<Rightarrow>
    (aom_codec_err \<times> heap \<times> YV12_BUFFER_CONFIG option) option" where
  "aom_realloc_frame_buffer pick h p width height ss_x ss_y use_highbitdepth border byte_alignment cb alloc_y_plane_only =
     (case p of
        None \<Rightarrow> Some (AOM_CODEC_MEM_ERROR, h, None)
      | Some ybf \<Rightarrow>
          let aligned_width = (width + 7) AND NOT 7;
              aligned_height = (height + 7) AND NOT 7;
              uvwidth = shr aligned_width (nat ss_x);
              uvheight = shr aligned_height (nat ss_y);
              uv_border_w = shr border (nat ss_x);
              uv_border_h = shr border (nat ss_y) in
          case calc_stride_and_planesize ss_x ss_y aligned_width aligned_height border byte_alignment alloc_y_plane_only uvheight of
            Inl e \<Rightarrow> Some (e, h, Some ybf)
          | Inr (ystride, uvstride, yplane_size, uvplane_size) \<Rightarrow>
              map_option (\<lambda>(e, h, ybf). (e, h, Some ybf))
                (realloc_frame_buffer_aligned pick h ybf width height ss_x ss_y use_highbitdepth border byte_alignment cb
                   ystride yplane_size uvplane_size aligned_width aligned_height uvwidth uvheight uvstride
                   uv_border_w uv_border_h alloc_y_plane_only))"

definition aom_alloc_frame_buffer ::
  "int \<Rightarrow> heap \<Rightarrow> YV12_BUFFER_CONFIG option \<Rightarrow> int \<Rightarrow> int \<Rightarrow> int \<Rightarrow> int \<Rightarrow> int \<Rightarrow> int \<Rightarrow> int \<Rightarrow> bool \<Rightarrow>
    (aom_codec_err \<times> heap \<times> YV12_BUFFER_CONFIG option) option" where
  "aom_alloc_frame_buffer pick h p width height ss_x ss_y use_highbitdepth border byte_alignment alloc_y_plane_only =
     (case p of
        None \<Rightarrow> Some (AOM_CODEC_MEM_ERROR, h, None)
      | Some ybf \<Rightarrow>
          do {
            (_, h, p) \<leftarrow> aom_free_frame_buffer h (Some ybf);
            aom_realloc_frame_buffer pick h p width height ss_x ss_y use_highbitdepth border byte_alignment None
              alloc_y_plane_only
          })"

section \<open>Metadata\<close>

text \<open>The loop over the items; \<open>ok\<close> says which requests of item \<open>i\<close> the C library grants. The slots of
  an array that \<open>aom_img_add_metadata\<close> filled are never empty, and the array copied is another
  frame's.\<close>

fun copy_metadata_items ::
  "(nat \<Rightarrow> alloc_site \<Rightarrow> bool) \<Rightarrow> nat \<Rightarrow> aom_metadata option list \<Rightarrow> aom_metadata option list option" where
  "copy_metadata_items ok i [] = Some []"
| "copy_metadata_items ok i (None # ms) = None"
| "copy_metadata_items ok i (Some md # ms) =
     (case aom_img_metadata_alloc (ok i) (md_type md) (Some (md_payload md)) (md_sz md) (md_insert_flag md) of
        None \<Rightarrow> None
      | Some m' \<Rightarrow> map_option (\<lambda>r. Some m' # r) (copy_metadata_items ok (Suc i) ms))"

definition aom_copy_metadata_to_frame_buffer ::
  "(alloc_site \<Rightarrow> bool) \<Rightarrow> (nat \<Rightarrow> alloc_site \<Rightarrow> bool) \<Rightarrow> YV12_BUFFER_CONFIG option \<Rightarrow> aom_metadata_array option \<Rightarrow>
    int \<times> YV12_BUFFER_CONFIG option" where
  "aom_copy_metadata_to_frame_buffer ok_array ok p src =
     (case (p, src) of
        (Some ybf, Some arr) \<Rightarrow>
          if arr_items arr = [] then (-1, p)
          else
            let ybf = aom_remove_metadata_from_frame_buffer ybf in
            (case aom_img_metadata_array_alloc ok_array (arr_sz arr) of
               None \<Rightarrow> (-1, Some ybf)
             | Some fresh \<Rightarrow>
                 (case copy_metadata_items ok 0 (arr_items arr) of
                    None \<Rightarrow> (-1, Some ybf)
                  | Some items \<Rightarrow> (0, Some (ybf\<lparr>yv_metadata := Some (fresh\<lparr>arr_items := items, arr_sz := arr_sz arr\<rparr>)\<rparr>))))
      | _ \<Rightarrow> (-1, p))"


section \<open>Planes\<close>

text \<open>The members the code reads through the arrays of the unions: \<open>widths[plane > 0]\<close> and so on.\<close>

definition plane_width :: "YV12_BUFFER_CONFIG \<Rightarrow> nat \<Rightarrow> int" where
  "plane_width f p = (if p > 0 then uv_width f else y_width f)"

definition plane_height :: "YV12_BUFFER_CONFIG \<Rightarrow> nat \<Rightarrow> int" where
  "plane_height f p = (if p > 0 then uv_height f else y_height f)"

definition plane_crop_width :: "YV12_BUFFER_CONFIG \<Rightarrow> nat \<Rightarrow> int" where
  "plane_crop_width f p = (if p > 0 then uv_crop_width f else y_crop_width f)"

definition plane_crop_height :: "YV12_BUFFER_CONFIG \<Rightarrow> nat \<Rightarrow> int" where
  "plane_crop_height f p = (if p > 0 then uv_crop_height f else y_crop_height f)"

definition plane_stride :: "YV12_BUFFER_CONFIG \<Rightarrow> nat \<Rightarrow> int" where
  "plane_stride f p = (if p > 0 then uv_stride f else y_stride f)"

definition plane_left :: "YV12_BUFFER_CONFIG \<Rightarrow> nat \<Rightarrow> int" where
  "plane_left f p = shr (yv_border f) (if p > 0 then nat (yv_subsampling_x f) else 0)"

definition plane_top :: "YV12_BUFFER_CONFIG \<Rightarrow> nat \<Rightarrow> int" where
  "plane_top f p = shr (yv_border f) (if p > 0 then nat (yv_subsampling_y f) else 0)"

text \<open>The index in \<open>yv_samples\<close> a plane pointer points to.\<close>

definition frame_base :: "YV12_BUFFER_CONFIG \<Rightarrow> int" where
  "frame_base f = (if is_high f then shr (buffer_alloc f) 1 else buffer_alloc f)"

definition frame_plane :: "YV12_BUFFER_CONFIG \<Rightarrow> nat \<Rightarrow> int" where
  "frame_plane f p = (if p = 0 then y_buffer f else if p = 1 then u_buffer f else v_buffer f) - frame_base f"

section \<open>The planes lie inside the block\<close>

lemma length_bytes_of [simp]: "length (bytes_of high xs) = (if high then 2 * length xs else length xs)"
  by (induction xs) (auto simp: bytes_of_def)

lemma length_samples16 [simp]: "length (samples16 bs) = length bs div 2"
  by (induction bs rule: samples16.induct) auto

lemma length_samples_of [simp]: "length (samples_of high bs) = (if high then length bs div 2 else length bs)"
  by (simp add: samples_of_def)

text \<open>What the block of a frame in use is like, and what a frame buffer callback promises.\<close>

definition frame_mem_ok :: "YV12_BUFFER_CONFIG \<Rightarrow> bool" where
  "frame_mem_ok f \<longleftrightarrow> 0 \<le> buffer_alloc f \<and> 0 \<le> buffer_alloc_sz f \<and> even (buffer_alloc_sz f) \<and>
     buffer_alloc f + buffer_alloc_sz f < 18446744073709551616 \<and>
     int (length (bytes_of (is_high f) (yv_samples f))) = buffer_alloc_sz f"

definition frame_cb_ok :: "frame_cb option \<Rightarrow> bool" where
  "frame_cb_ok cb \<longleftrightarrow>
     (\<forall>get n rc addr bytes. cb = Some get \<and> get n = (rc, addr, bytes) \<longrightarrow> 0 \<le> addr \<and> addr + int (length bytes) < 18446744073709551616)"

lemma frame_memory_room:
  assumes m: "frame_memory pick h cb high fs ybf = Some (AOM_CODEC_OK, h', f)" and ok: "frame_mem_ok ybf" "frame_cb_ok cb"
    and fs: "0 \<le> fs" "fs \<le> 1073741824" "even fs"
  shows "fs \<le> (1 + b2i high) * int (length (yv_samples f)) \<and> 0 \<le> buffer_alloc f \<and> buffer_alloc f + fs < 18446744073709551616"
proof (cases cb)
  case (Some get)
  obtain rc addr bytes where g: "get (u64 (fs + 31)) = (rc, addr, bytes)" by (cases "get (u64 (fs + 31))")
  have u: "u64 (fs + 31) = fs + 31" using fs by (simp add: u64_id)
  have a: "0 < addr" "fs + 31 \<le> int (length bytes)" "addr + int (length bytes) < 18446744073709551616"
    "buffer_alloc f = aom_align_addr addr 32"
    "yv_samples f = samples_of high (drop (nat (aom_align_addr addr 32 - addr)) bytes)"
    using m ok(2) g u by (auto simp: frame_memory_def Some frame_cb_ok_def Let_def split: if_splits) fastforce+
  have al: "addr \<le> aom_align_addr addr 32" "aom_align_addr addr 32 < addr + 32"
    using align_addr_props [of 32 5 addr] a(1-3) fs(1) by simp_all
  define d where "d = nat (aom_align_addr addr 32 - addr)"
  have "d \<le> 31" "int (length (drop d bytes)) \<ge> fs" using al a(2) by (simp_all add: d_def)
  then show ?thesis using a al fs unfolding d_def [symmetric] by (auto simp: d_def [symmetric] b2i_def)
next
  case None
  show ?thesis
  proof (cases "fs > buffer_alloc_sz ybf")
    case True
    then obtain h1 x h2 where 1: "aom_free h (buffer_alloc ybf) = Some h1" "aom_memalign pick h1 32 fs = (x, h2)" "x \<noteq> 0"
      "buffer_alloc f = x" "yv_samples f = samples_of high (replicate (nat fs) 0)"
      using m by (auto simp: frame_memory_def None Let_def split: bind_splits prod.splits if_splits)
    have "x + fs < 18446744073709551616" "0 \<le> x" using memalign_nonnull [OF 1(2,3), of 5] fs(1) by simp_all
    then show ?thesis using 1 fs by (auto simp: b2i_def)
  next
    case False
    then have f: "f = ybf\<lparr>yv_samples := samples_of high (bytes_of (is_high ybf) (yv_samples ybf))\<rparr>" using m by (simp add: frame_memory_def None)
    show ?thesis using ok(1) fs False by (auto simp: f frame_mem_ok_def b2i_def)
  qed
qed


lemma align_up_bounds:
  fixes x n :: int
  assumes "0 < n"
  shows "x \<le> (x + n - 1) div n * n" "(x + n - 1) div n * n < x + n"
proof -
  have "(x + n - 1) div n * n = x + n - 1 - (x + n - 1) mod n" by (simp add: minus_mod_eq_div_mult)
  moreover have "0 \<le> (x + n - 1) mod n" "(x + n - 1) mod n < n" using assms by simp_all
  ultimately show "x \<le> (x + n - 1) div n * n" "(x + n - 1) div n * n < x + n" by linarith+
qed

lemma align_8: "x \<le> (x + 7) AND NOT 7" "(x + 7) AND NOT 7 < x + 8" "8 dvd (x + 7) AND NOT 7" for x :: int
proof -
  have "(x + 7) AND NOT 7 = (x + 8 - 1) div 8 * 8" using and_not_mask_div [of "x + 7" 3] by simp
  then show "x \<le> (x + 7) AND NOT 7" "(x + 7) AND NOT 7 < x + 8" "8 dvd (x + 7) AND NOT 7"
    using align_up_bounds [of 8 x] by (metis dvd_triv_right zero_less_numeral)+
qed

lemma align_32: "x \<le> (x + 31) AND NOT 31" "(x + 31) AND NOT 31 < x + 32" "32 dvd (x + 31) AND NOT 31" for x :: int
proof -
  have "(x + 31) AND NOT 31 = (x + 32 - 1) div 32 * 32" using and_not_mask_div [of "x + 31" 5] by simp
  then show "x \<le> (x + 31) AND NOT 31" "(x + 31) AND NOT 31 < x + 32" "32 dvd (x + 31) AND NOT 31"
    using align_up_bounds [of 32 x] by (metis dvd_triv_right zero_less_numeral)+
qed

text \<open>
  One plane: rows of \<open>stride\<close> samples, a picture of \<open>w\<close> by \<open>ht\<close> inside a border of \<open>bw\<close> and
  \<open>bh\<close>, the pointer moved up by less than the alignment. Every sample of the picture and
  its border is inside the plane's share of the block.
\<close>

lemma plane_inside:
  fixes stride :: int
  assumes "w + 2 * bw \<le> stride" "0 \<le> bw" "0 \<le> bh" "start \<le> off" "off - start < extra"
    "start = base + bh * stride + bw" "0 \<le> stride" "extra \<le> pad \<or> extra = 1 \<and> pad = 0"
    and rc: "- bh \<le> r" "r < ht + bh" "- bw \<le> c" "c < w + bw"
  shows "base \<le> off + r * stride + c" "off + r * stride + c < base + (ht + 2 * bh) * stride + pad"
proof -
  have "0 \<le> (r + bh) * stride" using assms rc by simp
  then have "- bh * stride \<le> r * stride" by (simp add: algebra_simps)
  then show "base \<le> off + r * stride + c" using assms(4,6) rc(3) by simp
  have "(r + 1) * stride \<le> (ht + bh) * stride" using rc(2) assms(7) by (intro mult_right_mono) simp_all
  then have "r * stride + stride \<le> ht * stride + bh * stride" by (simp add: algebra_simps)
  then show "off + r * stride + c < base + (ht + 2 * bh) * stride + pad"
    using assms(1,2,5,6,8) rc(4) by (auto simp: algebra_simps)
qed

lemma half_dims:
  fixes w b :: int
  assumes "ss = 0 \<or> ss = 1" "8 dvd w" "32 dvd b" "w + 2 * b \<le> s" "even s"
  shows "shr w (nat ss) + 2 * shr b (nat ss) \<le> shr s (nat ss)"
proof -
  obtain a c e where "w = 8 * a" "b = 32 * c" "s = 2 * e" using assms(2,3,5) by (auto elim!: dvdE)
  then show ?thesis using assms(1,4) by (auto simp: shr_def)
qed


definition in_plane :: "YV12_BUFFER_CONFIG \<Rightarrow> nat \<Rightarrow> int \<Rightarrow> int \<Rightarrow> bool" where
  "in_plane f p r c \<longleftrightarrow> - plane_top f p \<le> r \<and> r < plane_height f p + plane_top f p \<and>
     - plane_left f p \<le> c \<and> c < plane_width f p + plane_left f p"

definition plane_cell :: "YV12_BUFFER_CONFIG \<Rightarrow> nat \<Rightarrow> int \<Rightarrow> int \<Rightarrow> int" where
  "plane_cell f p r c = frame_plane f p + r * plane_stride f p + c"

text \<open>The shares of the three planes in a block that holds a frame of these dimensions.\<close>

definition share_start :: "int \<Rightarrow> int \<Rightarrow> nat \<Rightarrow> int" where
  "share_start ysize uvsize p = (if p = 0 then 0 else if p = 1 then ysize else ysize + uvsize)"

definition share_end :: "int \<Rightarrow> int \<Rightarrow> nat \<Rightarrow> int" where
  "share_end ysize uvsize p = (if p = 0 then ysize else if p = 1 then ysize + uvsize else ysize + 2 * uvsize)"

text \<open>The numbers of a frame: strides that hold a row with its borders, sizes that do not wrap.\<close>

lemma plane_numbers:
  assumes dims: "1 \<le> w" "w \<le> 65536" "1 \<le> ht" "ht \<le> 65536" "ss_x = 0 \<or> ss_x = 1" "ss_y = 0 \<or> ss_y = 1" "0 \<le> border" "border \<le> 1024"
    and b32: "32 dvd border" and al: "0 \<le> align" "align \<le> 1024" "even align"
    and aw: "aw = (w + 7) AND NOT 7" and ah: "ah = (ht + 7) AND NOT 7" and ys: "ys = aom_calc_y_stride aw border"
    and us: "us = shr ys (nat ss_x)"
    and ysize: "ysize = (ah + 2 * border) * ys + align"
    and uvsize: "uvsize = (shr ah (nat ss_y) + 2 * shr border (nat ss_y)) * us + align"
  shows "aw + 2 * border \<le> ys" "shr aw (nat ss_x) + 2 * shr border (nat ss_x) \<le> us" "0 \<le> ys" "0 \<le> us"
    "0 \<le> ysize" "ysize \<le> 4576524000" "even ysize" "0 \<le> uvsize" "uvsize \<le> 4576524000" "even uvsize"
proof -
  have awb: "w \<le> aw" "aw < w + 8" "8 dvd aw" "ht \<le> ah" "ah < ht + 8" "8 dvd ah"
    unfolding aw ah by (rule align_8)+
  have ysb: "aw + 2 * border \<le> ys" "ys < aw + 2 * border + 32" "32 dvd ys"
    unfolding ys aom_calc_y_stride_def by (rule align_32)+
  show "aw + 2 * border \<le> ys" by fact
  show ys0: "0 \<le> ys" using ysb(1) awb(1) dims(1,7) by linarith
  show "shr aw (nat ss_x) + 2 * shr border (nat ss_x) \<le> us"
    unfolding us using half_dims [OF dims(5) awb(3) b32 ysb(1)] ysb(3) by (auto elim!: dvdE)
  show us0: "0 \<le> us" using ys0 by (simp add: us)
  have usy: "us \<le> ys" "even us" using ys0 dims(5) ysb(3) by (auto simp: us shr_def elim!: dvdE)
  have hb: "0 \<le> shr ah (nat ss_y)" "shr ah (nat ss_y) \<le> ah" "0 \<le> shr border (nat ss_y)" "shr border (nat ss_y) \<le> border"
    using awb(4) dims(3,6,7) by (auto simp: shr_def)
  have "(ah + 2 * border) * ys \<le> 67600 * 67700" by (rule mult_mono) (use awb ysb dims ys0 in linarith)+
  moreover have "0 \<le> (ah + 2 * border) * ys" by (rule mult_nonneg_nonneg) (use awb dims ys0 in linarith)+
  ultimately show "0 \<le> ysize" "ysize \<le> 4576524000" using al by (simp_all add: ysize)
  have "(shr ah (nat ss_y) + 2 * shr border (nat ss_y)) * us \<le> 67600 * 67700"
    by (rule mult_mono) (use awb ysb dims usy hb us0 in linarith)+
  moreover have "0 \<le> (shr ah (nat ss_y) + 2 * shr border (nat ss_y)) * us"
    by (rule mult_nonneg_nonneg) (use hb us0 in linarith)+
  ultimately show "0 \<le> uvsize" "uvsize \<le> 4576524000" using al by (simp_all add: uvsize)
  show "even ysize" "even uvsize" using ysb(3) usy(2) al(3) by (auto simp: ysize uvsize elim!: dvdE)
qed

text \<open>A plane pointer, aligned, still points into the plane's share, at its first picture sample.\<close>

lemma plane_fits:
  fixes stride :: int
  assumes row: "w + 2 * bw \<le> stride" and nn: "0 \<le> bw" "0 \<le> bh" "1 \<le> ht" "0 \<le> w"
    and a: "a = 2 ^ j" "a \<le> pad \<or> a = 1 \<and> pad = 0"
    and base: "0 \<le> base" "0 \<le> from" "base + from + sz < 18446744073709551616"
    and sz: "sz = (ht + 2 * bh) * stride + pad"
    and off: "off = aom_align_addr (base + from + bh * stride + bw) a - base"
    and rc: "- bh \<le> r" "r < ht + bh" "- bw \<le> c" "c < w + bw"
  shows "from \<le> off + r * stride + c \<and> off + r * stride + c < from + sz"
proof -
  let ?s = "base + from + bh * stride + bw"
  have st: "bw \<le> stride" "0 \<le> stride" using row nn(1,4) by simp_all
  have "1 * stride \<le> (ht + bh) * stride" by (rule mult_right_mono) (use nn st in simp_all)
  then have "stride \<le> ht * stride + bh * stride" by (simp add: algebra_simps)
  then have up: "?s + a - 1 < 18446744073709551616" using base(3) a(2) st(1) by (auto simp: sz algebra_simps)
  have "0 \<le> ?s" using base(1,2) nn(1,2) st(2) by simp
  note al = align_addr_props [OF a(1) this up]
  show ?thesis using plane_inside [of w bw stride bh "from + bh * stride + bw" off a "from" pad r ht c] row nn(1,2) st(2) a(2) rc al(1,2)
    by (simp add: off sz)
qed

text \<open>What a successful reallocation makes of the frame.\<close>

lemma realloc_result:
  assumes ra: "realloc_frame_buffer_aligned pick h ybf w ht ss_x ss_y high border align cb ys ysize uvsize aw ah uvw uvh us ubw ubh False =
      Some (AOM_CODEC_OK, h', f)"
    and mem: "frame_mem_ok ybf" "frame_cb_ok cb"
    and fsb: "0 \<le> ysize" "ysize \<le> 4576524000" "even ysize" "0 \<le> uvsize" "uvsize \<le> 4576524000" "even uvsize"
    and high: "0 \<le> high" "high \<le> 15"
    and base: "base = frame_base f" and a: "a = (if align = 0 then 1 else align)"
  shows "frame_plane f 0 = aom_align_addr (base + 0 + border * ys + border) a - base"
    "frame_plane f 1 = aom_align_addr (base + ysize + ubh * us + ubw) a - base"
    "frame_plane f 2 = aom_align_addr (base + (ysize + uvsize) + ubh * us + ubw) a - base"
    "plane_stride f p = (if p > 0 then us else ys)" "plane_left f p = (if p > 0 then shr border (nat ss_x) else border)"
    "plane_top f p = (if p > 0 then shr border (nat ss_y) else border)" "plane_width f p = (if p > 0 then uvw else aw)"
    "plane_height f p = (if p > 0 then uvh else ah)" "0 \<le> base" "base + ysize + 2 * uvsize < 18446744073709551616"
    "ysize + 2 * uvsize \<le> int (length (yv_samples f))"
    "y_crop_width f = w" "y_crop_height f = ht" "uv_crop_width f = shr (w + ss_x) (nat ss_x)" "uv_crop_height f = shr (ht + ss_y) (nat ss_y)"
    "yv_border f = border" "yv_subsampling_x f = ss_x" "yv_subsampling_y f = ss_y" "is_high f = (high \<noteq> 0)"
    "frame_size f = (1 + high) * (ysize + 2 * uvsize)"
proof -
  define fs where "fs = (1 + high) * (ysize + 2 * uvsize)"
  have "(1 + high) * (ysize + 2 * uvsize) \<le> 16 * 13729572000" using fsb(1,2,4,5) high by (intro mult_mono) simp_all
  then have fsb': "0 \<le> fs" "even fs" "u64 fs = fs" using fsb high by (auto simp: fs_def intro!: u64_id)
  have big: "\<not> AOM_MAX_ALLOCABLE_MEMORY div 8 < fs"
    using ra by (auto simp: realloc_frame_buffer_aligned_def fsb'(3) Let_def simp flip: fs_def)
  let ?b = "\<lambda>f0. if high \<noteq> 0 then shr (buffer_alloc f0) 1 else buffer_alloc f0"
  obtain f0 where f0: "frame_memory pick h cb (high \<noteq> 0) fs ybf = Some (AOM_CODEC_OK, h', f0)"
    and f: "f = f0\<lparr>y_crop_width := w, y_crop_height := ht, y_width := aw, y_height := ah, y_stride := ys,
      uv_crop_width := shr (w + ss_x) (nat ss_x), uv_crop_height := shr (ht + ss_y) (nat ss_y),
      uv_width := uvw, uv_height := uvh, uv_stride := us,
      yv_border := border, frame_size := fs, yv_subsampling_x := ss_x, yv_subsampling_y := ss_y,
      yv_flags := if high \<noteq> 0 then YV12_FLAG_HIGHBITDEPTH else 0,
      y_buffer := aom_align_addr (?b f0 + border * ys + border) a,
      u_buffer := aom_align_addr (?b f0 + ysize + ubh * us + ubw) a,
      v_buffer := aom_align_addr (?b f0 + ysize + uvsize + ubh * us + ubw) a,
      use_external_reference_buffers := 0, corrupted := 0\<rparr>"
    using ra big by (auto simp: realloc_frame_buffer_aligned_def fsb'(3) a Let_def simp flip: fs_def split: bind_splits if_splits)
  have room: "fs \<le> (1 + b2i (high \<noteq> 0)) * int (length (yv_samples f))" "0 \<le> buffer_alloc f" "buffer_alloc f + fs < 18446744073709551616"
    using frame_memory_room [OF f0 mem fsb'(1) _ fsb'(2)] big by (simp_all add: f AOM_MAX_ALLOCABLE_MEMORY_def)
  have fs2: "(1 + b2i (high \<noteq> 0)) * (ysize + 2 * uvsize) \<le> fs"
    unfolding fs_def using fsb(1,4) high by (intro mult_right_mono) (simp_all add: b2i_def)
  then show "ysize + 2 * uvsize \<le> int (length (yv_samples f))" using room(1) by (simp add: b2i_def split: if_splits)
  show hi: "is_high f = (high \<noteq> 0)" by (simp add: is_high_def f YV12_FLAG_HIGHBITDEPTH_def)
  have b: "base = ?b f0" unfolding base frame_base_def hi by (simp add: f)
  show "frame_plane f 0 = aom_align_addr (base + 0 + border * ys + border) a - base"
    "frame_plane f 1 = aom_align_addr (base + ysize + ubh * us + ubw) a - base"
    "frame_plane f 2 = aom_align_addr (base + (ysize + uvsize) + ubh * us + ubw) a - base"
    unfolding frame_plane_def base [symmetric] by (simp_all add: f b add.assoc)
  show "0 \<le> base" "base + ysize + 2 * uvsize < 18446744073709551616"
    using room(2,3) fsb(1,4) fs2 by (auto simp: b f b2i_def shr_def split: if_splits)
  show "plane_stride f p = (if p > 0 then us else ys)" "plane_left f p = (if p > 0 then shr border (nat ss_x) else border)"
    "plane_top f p = (if p > 0 then shr border (nat ss_y) else border)" "plane_width f p = (if p > 0 then uvw else aw)"
    "plane_height f p = (if p > 0 then uvh else ah)"
    "y_crop_width f = w" "y_crop_height f = ht" "uv_crop_width f = shr (w + ss_x) (nat ss_x)" "uv_crop_height f = shr (ht + ss_y) (nat ss_y)"
    "yv_border f = border" "yv_subsampling_x f = ss_x" "yv_subsampling_y f = ss_y" "frame_size f = (1 + high) * (ysize + 2 * uvsize)"
    by (simp_all add: f fs_def plane_left_def plane_top_def plane_width_def plane_height_def plane_stride_def)
qed

text \<open>
  A frame whose planes are laid out: each has its share of the block, which holds its picture
  and its border, a row with its borders fits the stride, and the picture fills the crop area.
\<close>

definition frame_wf :: "YV12_BUFFER_CONFIG \<Rightarrow> bool" where
  "frame_wf f \<longleftrightarrow>
     (\<exists>ysize uvsize. 0 \<le> ysize \<and> 0 \<le> uvsize \<and> ysize + 2 * uvsize \<le> int (length (yv_samples f)) \<and>
        (\<forall>p < 3. \<forall>r c. in_plane f p r c \<longrightarrow>
           share_start ysize uvsize p \<le> plane_cell f p r c \<and> plane_cell f p r c < share_end ysize uvsize p)) \<and>
     (\<forall>p < 3. plane_width f p + 2 * plane_left f p \<le> plane_stride f p \<and> 0 \<le> plane_left f p \<and> 0 \<le> plane_top f p \<and>
        1 \<le> plane_crop_width f p \<and> plane_crop_width f p \<le> plane_width f p \<and>
        1 \<le> plane_crop_height f p \<and> plane_crop_height f p \<le> plane_height f p)"

lemma realloc_calls:
  assumes ok: "aom_realloc_frame_buffer pick h (Some ybf) w ht ss_x ss_y high border align cb False = Some (AOM_CODEC_OK, h', Some f)"
    and dims: "1 \<le> w" "w \<le> 65536" "1 \<le> ht" "ht \<le> 65536" "ss_x = 0 \<or> ss_x = 1" "ss_y = 0 \<or> ss_y = 1" "0 \<le> border" "border \<le> 1024"
    and al: "0 \<le> align" "align \<le> 1024" "even align"
    and aw: "aw = (w + 7) AND NOT 7" and ah: "ah = (ht + 7) AND NOT 7" and ys: "ys = aom_calc_y_stride aw border"
    and us: "us = shr ys (nat ss_x)"
    and ysize: "ysize = (ah + 2 * border) * ys + align"
    and uvsize: "uvsize = (shr ah (nat ss_y) + 2 * shr border (nat ss_y)) * us + align"
  shows "32 dvd border"
    "realloc_frame_buffer_aligned pick h ybf w ht ss_x ss_y high border align cb ys ysize uvsize aw ah (shr aw (nat ss_x))
      (shr ah (nat ss_y)) us (shr border (nat ss_x)) (shr border (nat ss_y)) False = Some (AOM_CODEC_OK, h', f)"
proof -
  show b32: "32 dvd border"
    using ok and_mask_mod [of border 5] by (auto simp: aom_realloc_frame_buffer_def calc_stride_and_planesize_def Let_def dvd_eq_mod_eq_0 split: if_splits)
  note n = plane_numbers [OF dims b32 al aw ah ys us ysize uvsize]
  have "calc_stride_and_planesize ss_x ss_y aw ah border align False (shr ah (nat ss_y)) = Inr (ys, us, ysize, uvsize)"
    using b32 and_mask_mod [of border 5] n(5-10)
    by (simp add: calc_stride_and_planesize_def Let_def dvd_eq_mod_eq_0 ys us ysize uvsize u64_id)
  then show "realloc_frame_buffer_aligned pick h ybf w ht ss_x ss_y high border align cb ys ysize uvsize aw ah (shr aw (nat ss_x))
      (shr ah (nat ss_y)) us (shr border (nat ss_x)) (shr border (nat ss_y)) False = Some (AOM_CODEC_OK, h', f)"
    using ok by (auto simp: aom_realloc_frame_buffer_def aw ah Let_def)
qed

lemma crop_dims:
  fixes w :: int
  assumes "1 \<le> w" "w \<le> aw" "8 dvd aw" "ss = 0 \<or> ss = 1"
  shows "1 \<le> shr (w + ss) (nat ss)" "shr (w + ss) (nat ss) \<le> shr aw (nat ss)"
  using assms by (auto simp: shr_def elim!: dvdE)

lemma realloc_frame_wf:
  assumes ok: "aom_realloc_frame_buffer pick h (Some ybf) w ht ss_x ss_y high border align cb False = Some (AOM_CODEC_OK, h', Some f)"
    and mem: "frame_mem_ok ybf" "frame_cb_ok cb"
    and dims: "1 \<le> w" "w \<le> 65536" "1 \<le> ht" "ht \<le> 65536" "ss_x = 0 \<or> ss_x = 1" "ss_y = 0 \<or> ss_y = 1" "0 \<le> border" "border \<le> 1024"
    and high: "0 \<le> high" "high \<le> 15"
    and align: "align = 0 \<or> align = 2 ^ k \<and> 1 \<le> k \<and> k \<le> 10"
  shows "frame_wf f"
proof -
  define aw ah where "aw = (w + 7) AND NOT 7" and "ah = (ht + 7) AND NOT 7"
  define ys where "ys = aom_calc_y_stride aw border"
  define us where "us = shr ys (nat ss_x)"
  define ysize where "ysize = (ah + 2 * border) * ys + align"
  define uvsize where "uvsize = (shr ah (nat ss_y) + 2 * shr border (nat ss_y)) * us + align"
  define a where "a = (if align = 0 then 1 else align)"
  define base where "base = frame_base f"
  have al: "0 \<le> align" "align \<le> 1024" "even align"
  proof -
    have "(2::int) ^ k \<le> 2 ^ 10" if "k \<le> 10" using that by (intro power_increasing) simp_all
    then show "0 \<le> align" "align \<le> 1024" "even align" using align by auto
  qed
  note c = realloc_calls [OF ok dims al aw_def ah_def ys_def us_def ysize_def uvsize_def]
  note n = plane_numbers [OF dims c(1) al aw_def ah_def ys_def us_def ysize_def uvsize_def]
  note f = realloc_result [OF c(2) mem n(5-10) high base_def a_def]
  obtain j where aj: "a = 2 ^ j" "a \<le> align \<or> a = 1 \<and> align = 0"
    using align by (cases "align = 0") (auto simp: a_def intro: that [of 0] that [of k])
  have h1: "1 \<le> ah" "1 \<le> shr ah (nat ss_y)" "0 \<le> aw" "0 \<le> shr aw (nat ss_x)" "0 \<le> shr border (nat ss_x)" "0 \<le> shr border (nat ss_y)"
    using align_8 [of ht] align_8 [of w] dims by (auto simp: aw_def ah_def shr_def elim!: dvdE)
  note fit = plane_fits [OF _ _ _ _ _ aj f(9)]
  have "share_start ysize uvsize p \<le> plane_cell f p r c \<and> plane_cell f p r c < share_end ysize uvsize p"
    if p: "p < 3" and rc: "in_plane f p r c" for p r c
  proof -
    consider "p = 0" | "p = 1" | "p = 2" using p by linarith
    then show ?thesis
    proof cases
      case 1
      from fit [OF n(1) dims(7) dims(7) h1(1,3) _ _ ysize_def f(1), of r c] show ?thesis
        using rc 1 f(10) n(8) by (simp add: in_plane_def plane_cell_def f(4-8) share_start_def share_end_def)
    next
      case 2
      from fit [OF n(2) h1(5,6,2,4) n(5) _ uvsize_def f(2), of r c] show ?thesis
        using rc 2 f(10) n(8) by (simp add: in_plane_def plane_cell_def f(4-8) share_start_def share_end_def)
    next
      case 3
      from fit [OF n(2) h1(5,6,2,4) _ _ uvsize_def f(3), of r c] show ?thesis
        using rc 3 f(10) n(5,8) by (simp add: in_plane_def plane_cell_def f(4-8) share_start_def share_end_def)
    qed
  qed
  moreover have "plane_width f p + 2 * plane_left f p \<le> plane_stride f p \<and> 0 \<le> plane_left f p \<and> 0 \<le> plane_top f p \<and>
      1 \<le> plane_crop_width f p \<and> plane_crop_width f p \<le> plane_width f p \<and>
      1 \<le> plane_crop_height f p \<and> plane_crop_height f p \<le> plane_height f p" for p
  proof -
    have awb: "w \<le> aw" "8 dvd aw" "ht \<le> ah" "8 dvd ah" unfolding aw_def ah_def by (rule align_8)+
    note cd = crop_dims [OF dims(1) awb(1,2) dims(5)] crop_dims [OF dims(3) awb(3,4) dims(6)]
    show ?thesis using n(1,2) h1 dims(1,3,7) awb(1,3) cd
      by (simp add: f(4-8) plane_crop_width_def plane_crop_height_def f(12-15))
  qed
  ultimately show ?thesis using f(11) n(5,8) unfolding frame_wf_def by blast
qed

text \<open>The dimensions of a frame in step with each other, as the allocation leaves them.\<close>

definition frame_dims :: "YV12_BUFFER_CONFIG \<Rightarrow> bool" where
  "frame_dims f \<longleftrightarrow> y_width f = (y_crop_width f + 7) AND NOT 7 \<and> y_height f = (y_crop_height f + 7) AND NOT 7 \<and>
     uv_width f = shr (y_width f) (nat (yv_subsampling_x f)) \<and> uv_height f = shr (y_height f) (nat (yv_subsampling_y f)) \<and>
     uv_crop_width f = shr (y_crop_width f + yv_subsampling_x f) (nat (yv_subsampling_x f)) \<and>
     uv_crop_height f = shr (y_crop_height f + yv_subsampling_y f) (nat (yv_subsampling_y f))"

definition planes_bytes :: "int \<Rightarrow> int \<Rightarrow> int \<Rightarrow> int \<Rightarrow> int \<Rightarrow> int \<Rightarrow> int" where
  "planes_bytes w ht ss_x ss_y border align =
     (let aw = (w + 7) AND NOT 7; ah = (ht + 7) AND NOT 7; ys = aom_calc_y_stride aw border in
      ((ah + 2 * border) * ys + align) + 2 * ((shr ah (nat ss_y) + 2 * shr border (nat ss_y)) * shr ys (nat ss_x) + align))"

lemma realloc_frame_dims:
  assumes ok: "aom_realloc_frame_buffer pick h (Some ybf) w ht ss_x ss_y high border align cb False = Some (AOM_CODEC_OK, h', Some f)"
    and mem: "frame_mem_ok ybf" "frame_cb_ok cb"
    and dims: "1 \<le> w" "w \<le> 65536" "1 \<le> ht" "ht \<le> 65536" "ss_x = 0 \<or> ss_x = 1" "ss_y = 0 \<or> ss_y = 1" "0 \<le> border" "border \<le> 1024"
    and high: "0 \<le> high" "high \<le> 15"
    and al: "0 \<le> align" "align \<le> 1024" "even align"
  shows "frame_dims f" "y_crop_width f = w" "y_crop_height f = ht" "yv_border f = border" "yv_subsampling_x f = ss_x" "yv_subsampling_y f = ss_y"
    "is_high f = (high \<noteq> 0)" "frame_size f = (1 + high) * planes_bytes w ht ss_x ss_y border align"
proof -
  note c = realloc_calls [OF ok dims al refl refl refl refl refl refl]
  note n = plane_numbers [OF dims c(1) al refl refl refl refl refl refl]
  note f = realloc_result [OF c(2) mem n(5-10) high refl refl]
  have "y_width f = (w + 7) AND NOT 7" "y_height f = (ht + 7) AND NOT 7" "uv_width f = shr ((w + 7) AND NOT 7) (nat ss_x)"
    "uv_height f = shr ((ht + 7) AND NOT 7) (nat ss_y)"
    using f(7) [of 0] f(7) [of 1] f(8) [of 0] f(8) [of 1] unfolding plane_width_def plane_height_def by simp_all
  then show "frame_dims f" unfolding frame_dims_def f(12-15,17,18) by (intro conjI) simp_all
  show "y_crop_width f = w" "y_crop_height f = ht" "yv_border f = border" "yv_subsampling_x f = ss_x" "yv_subsampling_y f = ss_y"
    "is_high f = (high \<noteq> 0)"
    by (fact f)+
  show "frame_size f = (1 + high) * planes_bytes w ht ss_x ss_y border align" unfolding planes_bytes_def Let_def by (fact f)
qed

lemma samples_of_zero: "set bs \<subseteq> {0} \<Longrightarrow> set (samples_of high bs) \<subseteq> {0}"
proof -
  have "set bs \<subseteq> {0} \<Longrightarrow> set (samples16 bs) \<subseteq> {0}" by (induction bs rule: samples16.induct) auto
  then show "set bs \<subseteq> {0} \<Longrightarrow> set (samples_of high bs) \<subseteq> {0}" by (simp add: samples_of_def)
qed

lemma fresh_memory_zero:
  assumes m: "frame_memory pick h None high fs zero_frame = Some (e, h', f)"
  shows "set (yv_samples f) \<subseteq> {0}"
proof -
  have z: "buffer_alloc_sz zero_frame = 0" "buffer_alloc zero_frame = 0" "bytes_of b (yv_samples zero_frame) = []" for b
    by (simp_all add: zero_frame_def bytes_of_def)
  have "yv_samples f = samples_of high (replicate (nat fs) 0) \<or> yv_samples f = []"
    using m by (cases "fs > 0") (auto simp: frame_memory_def z samples_of_def Let_def split: prod.splits if_splits bind_splits)
  moreover have "set (samples_of high (replicate (nat fs) 0)) \<subseteq> {0}" by (rule samples_of_zero) auto
  ultimately show ?thesis by (metis empty_set empty_subsetI)
qed

lemma fresh_frame_zero:
  assumes "aom_realloc_frame_buffer pick h (Some zero_frame) w ht ss_x ss_y high border align None y_only = Some (AOM_CODEC_OK, h', Some f)"
  shows "set (yv_samples f) \<subseteq> {0}"
proof -
  have "calc_stride_and_planesize ss_x ss_y aw ah border align y_only uvh \<noteq> Inl AOM_CODEC_OK" for aw ah uvh
    by (simp add: calc_stride_and_planesize_def Let_def)
  then obtain ys us ysize uvsize where
    "realloc_frame_buffer_aligned pick h zero_frame w ht ss_x ss_y high border align None ys ysize uvsize ((w + 7) AND NOT 7)
      ((ht + 7) AND NOT 7) (shr ((w + 7) AND NOT 7) (nat ss_x)) (shr ((ht + 7) AND NOT 7) (nat ss_y)) us (shr border (nat ss_x))
      (shr border (nat ss_y)) y_only = Some (AOM_CODEC_OK, h', f)"
    using assms by (auto simp: aom_realloc_frame_buffer_def Let_def split: sum.splits prod.splits)
  then obtain f0 fs where "frame_memory pick h None (high \<noteq> 0) fs zero_frame = Some (AOM_CODEC_OK, h', f0)" "yv_samples f = yv_samples f0"
    by (auto simp: realloc_frame_buffer_aligned_def Let_def split: if_splits bind_splits)
  then show ?thesis using fresh_memory_zero by metis
qed

lemma wf_cell_bounds:
  assumes "frame_wf f" "p < 3" "in_plane f p r c"
  shows "0 \<le> plane_cell f p r c" "plane_cell f p r c < int (length (yv_samples f))"
proof -
  obtain ysize uvsize where "0 \<le> ysize" "0 \<le> uvsize" "ysize + 2 * uvsize \<le> int (length (yv_samples f))"
    "share_start ysize uvsize p \<le> plane_cell f p r c" "plane_cell f p r c < share_end ysize uvsize p"
    using assms unfolding frame_wf_def by blast
  then show "0 \<le> plane_cell f p r c" "plane_cell f p r c < int (length (yv_samples f))"
    by (auto simp: share_start_def share_end_def split: if_splits)
qed

lemma wf_cell_disjoint:
  assumes "frame_wf f" "p < 3" "in_plane f p r c" "q < 3" "in_plane f q r' c'" "p \<noteq> q"
  shows "plane_cell f p r c \<noteq> plane_cell f q r' c'"
proof -
  obtain ysize uvsize where "0 \<le> ysize" "0 \<le> uvsize"
    "share_start ysize uvsize p \<le> plane_cell f p r c" "plane_cell f p r c < share_end ysize uvsize p"
    "share_start ysize uvsize q \<le> plane_cell f q r' c'" "plane_cell f q r' c' < share_end ysize uvsize q"
    using assms unfolding frame_wf_def by blast
  then show ?thesis using assms(2,4,6) by (auto simp: share_start_def share_end_def split: if_splits)
qed

text \<open>C16. The planes of a frame lie inside its memory. Whenever \<open>aom_realloc_frame_buffer\<close> succeeds,
  with memory of its own or from a callback, fresh or reused, for a picture of up to 65536 by
  65536 samples with any subsampling and alignment, every sample of every plane and of the
  border around it is inside the block the frame owns, no sample belongs to two planes, and
  each plane is large enough for its picture. No size on the way wraps around.\<close>

theorem frame_planes_fit:
  assumes "aom_realloc_frame_buffer pick h (Some ybf) w ht ss_x ss_y high border align cb False = Some (AOM_CODEC_OK, h', Some f)"
    and "frame_mem_ok ybf" "frame_cb_ok cb"
    and "1 \<le> w" "w \<le> 65536" "1 \<le> ht" "ht \<le> 65536" "ss_x = 0 \<or> ss_x = 1" "ss_y = 0 \<or> ss_y = 1" "0 \<le> border" "border \<le> 1024"
    and "0 \<le> high" "high \<le> 15"
    and "align = 0 \<or> align = 2 ^ k \<and> 1 \<le> k \<and> k \<le> 10"
  shows "(\<forall>p r c. p < 3 \<and> in_plane f p r c \<longrightarrow> 0 \<le> plane_cell f p r c \<and> plane_cell f p r c < int (length (yv_samples f))) \<and>
    (\<forall>p q r c r' c'. p < 3 \<and> q < 3 \<and> p \<noteq> q \<and> in_plane f p r c \<and> in_plane f q r' c' \<longrightarrow> plane_cell f p r c \<noteq> plane_cell f q r' c') \<and>
    (\<forall>p < 3. plane_crop_width f p \<le> plane_width f p \<and> plane_crop_height f p \<le> plane_height f p)"
proof -
  have wf: "frame_wf f" by (rule realloc_frame_wf [OF assms])
  then have "\<forall>p < 3. plane_crop_width f p \<le> plane_width f p \<and> plane_crop_height f p \<le> plane_height f p"
    by (simp add: frame_wf_def)
  then show ?thesis using wf_cell_bounds [OF wf] wf_cell_disjoint [OF wf] by blast
qed

theorem frame_planes_fit_witness:
  "\<exists>h' f. aom_realloc_frame_buffer 5008 sample_heap (Some zero_frame) 17 9 1 1 0 32 32 None False = Some (AOM_CODEC_OK, h', Some f) \<and>
    (\<forall>p r c. p < 3 \<and> in_plane f p r c \<longrightarrow> 0 \<le> plane_cell f p r c \<and> plane_cell f p r c < int (length (yv_samples f)))"
proof -
  obtain h' f where e: "aom_realloc_frame_buffer 5008 sample_heap (Some zero_frame) 17 9 1 1 0 32 32 None False = Some (AOM_CODEC_OK, h', Some f)"
    by (simp add: aom_realloc_frame_buffer_def calc_stride_and_planesize_def aom_calc_y_stride_def realloc_frame_buffer_aligned_def
      frame_memory_def zero_frame_def aom_free_def aom_memalign_def check_size_argument_overflow_def GetAllocationPaddingSize_def
      ADDRESS_STORAGE_SIZE_def AOM_MAX_ALLOCABLE_MEMORY_def c_malloc_def fresh_block_def sample_heap_def aom_align_addr_def u64_def shr_def
      Let_def)
  have "frame_mem_ok zero_frame" "frame_cb_ok None" by (simp_all add: frame_mem_ok_def zero_frame_def frame_cb_ok_def is_high_def)
  then show ?thesis using frame_planes_fit [OF e, of 5] e by (intro exI [of _ h'] exI [of _ f]) simp
qed

end
