(* ===== verification/Frame_Extend.thy ===== *)
theory Frame_Extend
  imports Frame_Buffer
begin

text \<open>
  \<open>aom_scale/generic/yv12extend.c\<close> and \<open>av1/encoder/extend.c\<close>: filling the border of a frame with the
  samples at the edge of its picture, copying frames and parts of them, and moving a frame to
  a block with another border. A pointer is an index into the samples of a frame; an access
  outside the block, and a \<open>memcpy\<close> between overlapping ranges, has no result (\<open>None\<close>). Products such
  as \<open>v_start * src_stride\<close> are plain integers: they are offsets inside a block, which has at most
  \<open>AOM_MAX_ALLOCABLE_MEMORY / REF_FRAMES\<close> (2 to the power 30) bytes.
\<close>

section \<open>Sample memory\<close>

definition mem_get :: "int list \<Rightarrow> int \<Rightarrow> int option" where
  "mem_get m i = (if 0 \<le> i \<and> i < int (length m) then Some (m ! nat i) else None)"

definition mem_read :: "int list \<Rightarrow> int \<Rightarrow> int \<Rightarrow> int list option" where
  "mem_read m a n = (if 0 \<le> n \<and> 0 \<le> a \<and> a + n \<le> int (length m) then Some (take (nat n) (drop (nat a) m)) else None)"

definition mem_write :: "int list \<Rightarrow> int \<Rightarrow> int list \<Rightarrow> int list option" where
  "mem_write m a xs =
     (if 0 \<le> a \<and> a + int (length xs) \<le> int (length m)
      then Some (take (nat a) m @ xs @ drop (nat a + length xs) m) else None)"

text \<open>\<open>memset\<close>, \<open>memcpy\<close> from another block and \<open>memcpy\<close> inside a block.\<close>

definition mem_set :: "int list \<Rightarrow> int \<Rightarrow> int \<Rightarrow> int \<Rightarrow> int list option" where
  "mem_set m a v n = (if n < 0 then None else mem_write m a (replicate (nat n) v))"

definition mem_copy_from :: "int list \<Rightarrow> int \<Rightarrow> int list \<Rightarrow> int \<Rightarrow> int \<Rightarrow> int list option" where
  "mem_copy_from m a other b n = do { xs \<leftarrow> mem_read other b n; mem_write m a xs }"

definition mem_copy :: "int list \<Rightarrow> int \<Rightarrow> int \<Rightarrow> int \<Rightarrow> int list option" where
  "mem_copy m a b n = (if \<bar>a - b\<bar> < n then None else mem_copy_from m a m b n)"

text \<open>The loop of \<open>aom_memset16\<close>.\<close>

fun memset16_loop :: "int list \<Rightarrow> int \<Rightarrow> int \<Rightarrow> nat \<Rightarrow> int list option" where
  "memset16_loop m dest val 0 = Some m"
| "memset16_loop m dest val (Suc n) = do { m \<leftarrow> mem_write m dest [u16 val]; memset16_loop m (dest + 1) val n }"

definition aom_memset16 :: "int list \<Rightarrow> int \<Rightarrow> int \<Rightarrow> int \<Rightarrow> int list option" where
  "aom_memset16 m dest val n = (if n < 0 then None else memset16_loop m dest val (nat n))"

section \<open>Extending a plane\<close>

text \<open>The loops over rows: the left and right columns, and the copies of one line.\<close>

fun extend_columns :: "int list \<Rightarrow> int \<Rightarrow> int \<Rightarrow> int \<Rightarrow> int \<Rightarrow> int \<Rightarrow> int \<Rightarrow> int \<Rightarrow> nat \<Rightarrow> int list option" where
  "extend_columns m src_ptr1 src_ptr2 dst_ptr1 dst_ptr2 src_stride extend_left extend_right 0 = Some m"
| "extend_columns m src_ptr1 src_ptr2 dst_ptr1 dst_ptr2 src_stride extend_left extend_right (Suc n) =
     do {
       v \<leftarrow> mem_get m src_ptr1;
       m \<leftarrow> mem_set m dst_ptr1 v extend_left;
       w \<leftarrow> mem_get m src_ptr2;
       m \<leftarrow> mem_set m dst_ptr2 w extend_right;
       extend_columns m (src_ptr1 + src_stride) (src_ptr2 + src_stride) (dst_ptr1 + src_stride) (dst_ptr2 + src_stride)
         src_stride extend_left extend_right n
     }"

fun copy_line :: "int list \<Rightarrow> int \<Rightarrow> int \<Rightarrow> int \<Rightarrow> int \<Rightarrow> nat \<Rightarrow> int list option" where
  "copy_line m dst_ptr src_ptr pitch linesize 0 = Some m"
| "copy_line m dst_ptr src_ptr pitch linesize (Suc n) =
     do { m \<leftarrow> mem_copy m dst_ptr src_ptr linesize; copy_line m (dst_ptr + pitch) src_ptr pitch linesize n }"

definition extend_plane :: "int list \<Rightarrow> int \<Rightarrow> int \<Rightarrow> int \<Rightarrow> int \<Rightarrow> int \<Rightarrow> int \<Rightarrow> int \<Rightarrow> int \<Rightarrow> int \<Rightarrow> int \<Rightarrow> int list option" where
  "extend_plane m src src_stride width height extend_top extend_left extend_bottom extend_right v_start v_end =
     do {
       let linesize = extend_left + extend_right + width;
       let src_ptr1 = src + v_start * src_stride;
       let src_ptr2 = src + v_start * src_stride + width - 1;
       let dst_ptr1 = src + v_start * src_stride - extend_left;
       let dst_ptr2 = src_ptr2 + 1;
       m \<leftarrow> extend_columns m src_ptr1 src_ptr2 dst_ptr1 dst_ptr2 src_stride extend_left extend_right (nat (v_end - v_start));
       let src_ptr1 = src - extend_left;
       let dst_ptr1 = src_ptr1 + src_stride * (- extend_top);
       m \<leftarrow> copy_line m dst_ptr1 src_ptr1 src_stride linesize (nat extend_top);
       let src_ptr2 = src_ptr1 + src_stride * (height - 1);
       copy_line m (src_ptr2 + src_stride) src_ptr2 src_stride linesize (nat extend_bottom)
     }"

fun extend_columns_high :: "int list \<Rightarrow> int \<Rightarrow> int \<Rightarrow> int \<Rightarrow> int \<Rightarrow> int \<Rightarrow> int \<Rightarrow> int \<Rightarrow> nat \<Rightarrow> int list option" where
  "extend_columns_high m src_ptr1 src_ptr2 dst_ptr1 dst_ptr2 src_stride extend_left extend_right 0 = Some m"
| "extend_columns_high m src_ptr1 src_ptr2 dst_ptr1 dst_ptr2 src_stride extend_left extend_right (Suc n) =
     do {
       v \<leftarrow> mem_get m src_ptr1;
       m \<leftarrow> aom_memset16 m dst_ptr1 v extend_left;
       w \<leftarrow> mem_get m src_ptr2;
       m \<leftarrow> aom_memset16 m dst_ptr2 w extend_right;
       extend_columns_high m (src_ptr1 + src_stride) (src_ptr2 + src_stride) (dst_ptr1 + src_stride) (dst_ptr2 + src_stride)
         src_stride extend_left extend_right n
     }"

definition extend_plane_high :: "int list \<Rightarrow> int \<Rightarrow> int \<Rightarrow> int \<Rightarrow> int \<Rightarrow> int \<Rightarrow> int \<Rightarrow> int \<Rightarrow> int \<Rightarrow> int \<Rightarrow> int \<Rightarrow> int list option" where
  "extend_plane_high m src src_stride width height extend_top extend_left extend_bottom extend_right v_start v_end =
     do {
       let linesize = extend_left + extend_right + width;
       let src_ptr1 = src + v_start * src_stride;
       let src_ptr2 = src + v_start * src_stride + width - 1;
       let dst_ptr1 = src + v_start * src_stride - extend_left;
       let dst_ptr2 = src_ptr2 + 1;
       m \<leftarrow> extend_columns_high m src_ptr1 src_ptr2 dst_ptr1 dst_ptr2 src_stride extend_left extend_right (nat (v_end - v_start));
       let src_ptr1 = src - extend_left;
       let dst_ptr1 = src_ptr1 + src_stride * (- extend_top);
       m \<leftarrow> copy_line m dst_ptr1 src_ptr1 src_stride linesize (nat extend_top);
       let src_ptr2 = src_ptr1 + src_stride * (height - 1);
       copy_line m (src_ptr2 + src_stride) src_ptr2 src_stride linesize (nat extend_bottom)
     }"

definition aom_extend_frame_borders_plane_row_c :: "YV12_BUFFER_CONFIG \<Rightarrow> nat \<Rightarrow> int \<Rightarrow> int \<Rightarrow> YV12_BUFFER_CONFIG option" where
  "aom_extend_frame_borders_plane_row_c ybf plane v_start v_end =
     (let ext_size = yv_border ybf;
          is_uv = plane > 0;
          top = shr ext_size (if is_uv then nat (yv_subsampling_y ybf) else 0);
          left = shr ext_size (if is_uv then nat (yv_subsampling_x ybf) else 0);
          bottom = top + plane_height ybf plane - plane_crop_height ybf plane;
          right = left + plane_width ybf plane - plane_crop_width ybf plane;
          extend_top_border = (v_start = 0);
          extend_bottom_border = (v_end = plane_crop_height ybf plane) in
      map_option (\<lambda>m. ybf\<lparr>yv_samples := m\<rparr>)
        ((if is_high ybf then extend_plane_high else extend_plane) (yv_samples ybf) (frame_plane ybf plane) (plane_stride ybf plane)
           (plane_crop_width ybf plane) (plane_crop_height ybf plane) (if extend_top_border then top else 0) left
           (if extend_bottom_border then bottom else 0) right v_start v_end))"

text \<open>The loop over the planes.\<close>

fun extend_frame_planes :: "YV12_BUFFER_CONFIG \<Rightarrow> int \<Rightarrow> nat \<Rightarrow> nat \<Rightarrow> YV12_BUFFER_CONFIG option" where
  "extend_frame_planes ybf ext_size plane 0 = Some ybf"
| "extend_frame_planes ybf ext_size plane (Suc n) =
     (let is_uv = plane > 0;
          top = shr ext_size (if is_uv then nat (yv_subsampling_y ybf) else 0);
          left = shr ext_size (if is_uv then nat (yv_subsampling_x ybf) else 0);
          bottom = top + plane_height ybf plane - plane_crop_height ybf plane;
          right = left + plane_width ybf plane - plane_crop_width ybf plane in
      do {
        m \<leftarrow> (if is_high ybf then extend_plane_high else extend_plane) (yv_samples ybf) (frame_plane ybf plane) (plane_stride ybf plane)
             (plane_crop_width ybf plane) (plane_crop_height ybf plane) top left bottom right 0 (plane_crop_height ybf plane);
        extend_frame_planes (ybf\<lparr>yv_samples := m\<rparr>) ext_size (Suc plane) n
      })"

definition extend_frame :: "YV12_BUFFER_CONFIG \<Rightarrow> int \<Rightarrow> nat \<Rightarrow> YV12_BUFFER_CONFIG option" where
  "extend_frame ybf ext_size num_planes = extend_frame_planes ybf ext_size 0 num_planes"

definition aom_extend_frame_borders_c :: "YV12_BUFFER_CONFIG \<Rightarrow> nat \<Rightarrow> YV12_BUFFER_CONFIG option" where
  "aom_extend_frame_borders_c ybf num_planes = extend_frame ybf (yv_border ybf) num_planes"


section \<open>Copying frames\<close>

text \<open>Rows of \<open>width\<close> samples, from the block of one frame to the block of another.\<close>

fun copy_rows :: "int list \<Rightarrow> int \<Rightarrow> int \<Rightarrow> int list \<Rightarrow> int \<Rightarrow> int \<Rightarrow> int \<Rightarrow> nat \<Rightarrow> int list option" where
  "copy_rows other src src_pitch m dst dst_pitch width 0 = Some m"
| "copy_rows other src src_pitch m dst dst_pitch width (Suc n) =
     do {
       m \<leftarrow> mem_copy_from m dst other src width;
       copy_rows other (src + src_pitch) src_pitch m (dst + dst_pitch) dst_pitch width n
     }"

fun copy_frame_planes :: "YV12_BUFFER_CONFIG \<Rightarrow> YV12_BUFFER_CONFIG \<Rightarrow> nat \<Rightarrow> nat \<Rightarrow> YV12_BUFFER_CONFIG option" where
  "copy_frame_planes src_bc dst_bc plane 0 = Some dst_bc"
| "copy_frame_planes src_bc dst_bc plane (Suc n) =
     do {
       m \<leftarrow> copy_rows (yv_samples src_bc) (frame_plane src_bc plane) (plane_stride src_bc plane)
              (yv_samples dst_bc) (frame_plane dst_bc plane) (plane_stride dst_bc plane)
              (plane_width src_bc plane) (nat (plane_height src_bc plane));
       copy_frame_planes src_bc (dst_bc\<lparr>yv_samples := m\<rparr>) (Suc plane) n
     }"

text \<open>The 8-bit loop and the 16-bit loop copy the same samples, the unit being the sample.\<close>

definition aom_yv12_copy_frame_c :: "YV12_BUFFER_CONFIG \<Rightarrow> YV12_BUFFER_CONFIG \<Rightarrow> nat \<Rightarrow> YV12_BUFFER_CONFIG option" where
  "aom_yv12_copy_frame_c src_bc dst_bc num_planes =
     do {
       dst_bc \<leftarrow> copy_frame_planes src_bc dst_bc 0 num_planes;
       aom_extend_frame_borders_c dst_bc num_planes
     }"

definition aom_yv12_copy_y_c :: "YV12_BUFFER_CONFIG \<Rightarrow> YV12_BUFFER_CONFIG \<Rightarrow> bool \<Rightarrow> YV12_BUFFER_CONFIG option" where
  "aom_yv12_copy_y_c src_ybc dst_ybc use_crop =
     (let width = (if use_crop then y_crop_width src_ybc else y_width src_ybc);
          height = (if use_crop then y_crop_height src_ybc else y_height src_ybc) in
      map_option (\<lambda>m. dst_ybc\<lparr>yv_samples := m\<rparr>)
        (copy_rows (yv_samples src_ybc) (frame_plane src_ybc 0) (y_stride src_ybc)
           (yv_samples dst_ybc) (frame_plane dst_ybc 0) (y_stride dst_ybc) width (nat height)))"

definition aom_yv12_copy_u_c :: "YV12_BUFFER_CONFIG \<Rightarrow> YV12_BUFFER_CONFIG \<Rightarrow> bool \<Rightarrow> YV12_BUFFER_CONFIG option" where
  "aom_yv12_copy_u_c src_bc dst_bc use_crop =
     (let width = (if use_crop then uv_crop_width src_bc else uv_width src_bc);
          height = (if use_crop then uv_crop_height src_bc else uv_height src_bc) in
      map_option (\<lambda>m. dst_bc\<lparr>yv_samples := m\<rparr>)
        (copy_rows (yv_samples src_bc) (frame_plane src_bc 1) (uv_stride src_bc)
           (yv_samples dst_bc) (frame_plane dst_bc 1) (uv_stride dst_bc) width (nat height)))"

definition aom_yv12_copy_v_c :: "YV12_BUFFER_CONFIG \<Rightarrow> YV12_BUFFER_CONFIG \<Rightarrow> bool \<Rightarrow> YV12_BUFFER_CONFIG option" where
  "aom_yv12_copy_v_c src_bc dst_bc use_crop =
     (let width = (if use_crop then uv_crop_width src_bc else uv_width src_bc);
          height = (if use_crop then uv_crop_height src_bc else uv_height src_bc) in
      map_option (\<lambda>m. dst_bc\<lparr>yv_samples := m\<rparr>)
        (copy_rows (yv_samples src_bc) (frame_plane src_bc 2) (uv_stride src_bc)
           (yv_samples dst_bc) (frame_plane dst_bc 2) (uv_stride dst_bc) width (nat height)))"

definition aom_yv12_partial_copy_y_c ::
  "YV12_BUFFER_CONFIG \<Rightarrow> int \<Rightarrow> int \<Rightarrow> int \<Rightarrow> int \<Rightarrow> YV12_BUFFER_CONFIG \<Rightarrow> int \<Rightarrow> int \<Rightarrow> YV12_BUFFER_CONFIG option" where
  "aom_yv12_partial_copy_y_c src_ybc hstart1 hend1 vstart1 vend1 dst_ybc hstart2 vstart2 =
     map_option (\<lambda>m. dst_ybc\<lparr>yv_samples := m\<rparr>)
       (copy_rows (yv_samples src_ybc) (frame_plane src_ybc 0 + vstart1 * y_stride src_ybc + hstart1) (y_stride src_ybc)
          (yv_samples dst_ybc) (frame_plane dst_ybc 0 + vstart2 * y_stride dst_ybc + hstart2) (y_stride dst_ybc)
          (hend1 - hstart1) (nat (vend1 - vstart1)))"

definition aom_yv12_partial_coloc_copy_y_c ::
  "YV12_BUFFER_CONFIG \<Rightarrow> YV12_BUFFER_CONFIG \<Rightarrow> int \<Rightarrow> int \<Rightarrow> int \<Rightarrow> int \<Rightarrow> YV12_BUFFER_CONFIG option" where
  "aom_yv12_partial_coloc_copy_y_c src_ybc dst_ybc hstart hend vstart vend =
     aom_yv12_partial_copy_y_c src_ybc hstart hend vstart vend dst_ybc hstart vstart"

definition aom_yv12_partial_copy_u_c ::
  "YV12_BUFFER_CONFIG \<Rightarrow> int \<Rightarrow> int \<Rightarrow> int \<Rightarrow> int \<Rightarrow> YV12_BUFFER_CONFIG \<Rightarrow> int \<Rightarrow> int \<Rightarrow> YV12_BUFFER_CONFIG option" where
  "aom_yv12_partial_copy_u_c src_bc hstart1 hend1 vstart1 vend1 dst_bc hstart2 vstart2 =
     map_option (\<lambda>m. dst_bc\<lparr>yv_samples := m\<rparr>)
       (copy_rows (yv_samples src_bc) (frame_plane src_bc 1 + vstart1 * uv_stride src_bc + hstart1) (uv_stride src_bc)
          (yv_samples dst_bc) (frame_plane dst_bc 1 + vstart2 * uv_stride dst_bc + hstart2) (uv_stride dst_bc)
          (hend1 - hstart1) (nat (vend1 - vstart1)))"

definition aom_yv12_partial_coloc_copy_u_c ::
  "YV12_BUFFER_CONFIG \<Rightarrow> YV12_BUFFER_CONFIG \<Rightarrow> int \<Rightarrow> int \<Rightarrow> int \<Rightarrow> int \<Rightarrow> YV12_BUFFER_CONFIG option" where
  "aom_yv12_partial_coloc_copy_u_c src_bc dst_bc hstart hend vstart vend =
     aom_yv12_partial_copy_u_c src_bc hstart hend vstart vend dst_bc hstart vstart"

definition aom_yv12_partial_copy_v_c ::
  "YV12_BUFFER_CONFIG \<Rightarrow> int \<Rightarrow> int \<Rightarrow> int \<Rightarrow> int \<Rightarrow> YV12_BUFFER_CONFIG \<Rightarrow> int \<Rightarrow> int \<Rightarrow> YV12_BUFFER_CONFIG option" where
  "aom_yv12_partial_copy_v_c src_bc hstart1 hend1 vstart1 vend1 dst_bc hstart2 vstart2 =
     map_option (\<lambda>m. dst_bc\<lparr>yv_samples := m\<rparr>)
       (copy_rows (yv_samples src_bc) (frame_plane src_bc 2 + vstart1 * uv_stride src_bc + hstart1) (uv_stride src_bc)
          (yv_samples dst_bc) (frame_plane dst_bc 2 + vstart2 * uv_stride dst_bc + hstart2) (uv_stride dst_bc)
          (hend1 - hstart1) (nat (vend1 - vstart1)))"

definition aom_yv12_partial_coloc_copy_v_c ::
  "YV12_BUFFER_CONFIG \<Rightarrow> YV12_BUFFER_CONFIG \<Rightarrow> int \<Rightarrow> int \<Rightarrow> int \<Rightarrow> int \<Rightarrow> YV12_BUFFER_CONFIG option" where
  "aom_yv12_partial_coloc_copy_v_c src_bc dst_bc hstart hend vstart vend =
     aom_yv12_partial_copy_v_c src_bc hstart hend vstart vend dst_bc hstart vstart"

text \<open>The value of an \<open>aom_codec_err_t\<close>.\<close>

fun err_value :: "aom_codec_err \<Rightarrow> int" where
  "err_value AOM_CODEC_OK = 0"
| "err_value AOM_CODEC_ERROR = 1"
| "err_value AOM_CODEC_MEM_ERROR = 2"
| "err_value AOM_CODEC_ABI_MISMATCH = 3"
| "err_value AOM_CODEC_INCAPABLE = 4"
| "err_value AOM_CODEC_UNSUP_BITSTREAM = 5"
| "err_value AOM_CODEC_UNSUP_FEATURE = 6"
| "err_value AOM_CODEC_CORRUPT_FRAME = 7"
| "err_value AOM_CODEC_INVALID_PARAM = 8"
| "err_value AOM_CODEC_LIST_END = 9"

text \<open>The status is 0, an error of the allocation, or -2 without a frame. The frame keeps its block
  until the copy exists.\<close>

definition aom_yv12_realloc_with_new_border_c ::
  "int \<Rightarrow> heap \<Rightarrow> YV12_BUFFER_CONFIG option \<Rightarrow> int \<Rightarrow> int \<Rightarrow> nat \<Rightarrow> (int \<times> heap \<times> YV12_BUFFER_CONFIG option) option" where
  "aom_yv12_realloc_with_new_border_c pick h p new_border byte_alignment num_planes =
     (case p of
        None \<Rightarrow> Some (-2, h, None)
      | Some ybf \<Rightarrow>
          if new_border = yv_border ybf then Some (0, h, Some ybf)
          else
            do {
              (e, h, new_buf) \<leftarrow> aom_alloc_frame_buffer pick h (Some zero_frame) (y_crop_width ybf) (y_crop_height ybf)
                (yv_subsampling_x ybf) (yv_subsampling_y ybf) (yv_flags ybf AND YV12_FLAG_HIGHBITDEPTH) new_border
                byte_alignment False;
              if e \<noteq> AOM_CODEC_OK then Some (err_value e, h, Some ybf)
              else
                do {
                  new_buf \<leftarrow> new_buf;
                  new_buf \<leftarrow> aom_yv12_copy_frame_c ybf new_buf num_planes;
                  (_, h, _) \<leftarrow> aom_free_frame_buffer h (Some ybf);
                  Some (0, h, Some new_buf)
                }
            })"

section \<open>Copying a source picture into a frame\<close>

fun gather :: "int list \<Rightarrow> int \<Rightarrow> int \<Rightarrow> nat \<Rightarrow> int list option" where
  "gather other src chroma_step 0 = Some []"
| "gather other src chroma_step (Suc n) =
     do { v \<leftarrow> mem_get other src; xs \<leftarrow> gather other (src + chroma_step) chroma_step n; Some (v # xs) }"

fun copy_columns :: "int list \<Rightarrow> int \<Rightarrow> int \<Rightarrow> int \<Rightarrow> int list \<Rightarrow> int \<Rightarrow> int \<Rightarrow> int \<Rightarrow> int \<Rightarrow> int \<Rightarrow> int \<Rightarrow> int \<Rightarrow> nat \<Rightarrow> int list option" where
  "copy_columns other src_ptr1 src_ptr2 src_pitch m dst_ptr1 dst_ptr2 dst_pitch w extend_left extend_right chroma_step 0 = Some m"
| "copy_columns other src_ptr1 src_ptr2 src_pitch m dst_ptr1 dst_ptr2 dst_pitch w extend_left extend_right chroma_step (Suc n) =
     do {
       v \<leftarrow> mem_get other src_ptr1;
       m \<leftarrow> mem_set m dst_ptr1 v extend_left;
       m \<leftarrow> (if chroma_step = 1 then mem_copy_from m (dst_ptr1 + extend_left) other src_ptr1 w
            else do { xs \<leftarrow> gather other src_ptr1 chroma_step (nat w); mem_write m (dst_ptr1 + extend_left) xs });
       v \<leftarrow> mem_get other src_ptr2;
       m \<leftarrow> mem_set m dst_ptr2 v extend_right;
       copy_columns other (src_ptr1 + src_pitch) (src_ptr2 + src_pitch) src_pitch m (dst_ptr1 + dst_pitch) (dst_ptr2 + dst_pitch)
         dst_pitch w extend_left extend_right chroma_step n
     }"

definition copy_and_extend_plane ::
  "int list \<Rightarrow> int \<Rightarrow> int \<Rightarrow> int list \<Rightarrow> int \<Rightarrow> int \<Rightarrow> int \<Rightarrow> int \<Rightarrow> int \<Rightarrow> int \<Rightarrow> int \<Rightarrow> int \<Rightarrow> int \<Rightarrow> int list option" where
  "copy_and_extend_plane other src src_pitch m dst dst_pitch w h extend_top extend_left extend_bottom extend_right chroma_step =
     do {
       m \<leftarrow> copy_columns other src (src + (w - 1) * chroma_step) src_pitch m (dst - extend_left) (dst + w) dst_pitch w
              extend_left extend_right chroma_step (nat h);
       let src_ptr1 = dst - extend_left;
       let src_ptr2 = dst + dst_pitch * (h - 1) - extend_left;
       let dst_ptr1 = dst + dst_pitch * (- extend_top) - extend_left;
       let dst_ptr2 = dst + dst_pitch * h - extend_left;
       let linesize = extend_left + extend_right + w;
       m \<leftarrow> copy_line m dst_ptr1 src_ptr1 dst_pitch linesize (nat extend_top);
       copy_line m dst_ptr2 src_ptr2 dst_pitch linesize (nat extend_bottom)
     }"

fun highbd_copy_columns :: "int list \<Rightarrow> int \<Rightarrow> int \<Rightarrow> int \<Rightarrow> int list \<Rightarrow> int \<Rightarrow> int \<Rightarrow> int \<Rightarrow> int \<Rightarrow> int \<Rightarrow> int \<Rightarrow> nat \<Rightarrow> int list option" where
  "highbd_copy_columns other src_ptr1 src_ptr2 src_pitch m dst_ptr1 dst_ptr2 dst_pitch w extend_left extend_right 0 = Some m"
| "highbd_copy_columns other src_ptr1 src_ptr2 src_pitch m dst_ptr1 dst_ptr2 dst_pitch w extend_left extend_right (Suc n) =
     do {
       v \<leftarrow> mem_get other src_ptr1;
       m \<leftarrow> aom_memset16 m dst_ptr1 v extend_left;
       m \<leftarrow> mem_copy_from m (dst_ptr1 + extend_left) other src_ptr1 w;
       v \<leftarrow> mem_get other src_ptr2;
       m \<leftarrow> aom_memset16 m dst_ptr2 v extend_right;
       highbd_copy_columns other (src_ptr1 + src_pitch) (src_ptr2 + src_pitch) src_pitch m (dst_ptr1 + dst_pitch)
         (dst_ptr2 + dst_pitch) dst_pitch w extend_left extend_right n
     }"

definition highbd_copy_and_extend_plane ::
  "int list \<Rightarrow> int \<Rightarrow> int \<Rightarrow> int list \<Rightarrow> int \<Rightarrow> int \<Rightarrow> int \<Rightarrow> int \<Rightarrow> int \<Rightarrow> int \<Rightarrow> int \<Rightarrow> int \<Rightarrow> int list option" where
  "highbd_copy_and_extend_plane other src src_pitch m dst dst_pitch w h extend_top extend_left extend_bottom extend_right =
     do {
       m \<leftarrow> highbd_copy_columns other src (src + w - 1) src_pitch m (dst - extend_left) (dst + w) dst_pitch w
              extend_left extend_right (nat h);
       let src_ptr1 = dst - extend_left;
       let src_ptr2 = dst + dst_pitch * (h - 1) - extend_left;
       let dst_ptr1 = dst + dst_pitch * (- extend_top) - extend_left;
       let dst_ptr2 = dst + dst_pitch * h - extend_left;
       let linesize = extend_left + extend_right + w;
       m \<leftarrow> copy_line m dst_ptr1 src_ptr1 dst_pitch linesize (nat extend_top);
       copy_line m dst_ptr2 src_ptr2 dst_pitch linesize (nat extend_bottom)
     }"

text \<open>\<open>ALIGN_POWER_OF_TWO\<close>, and the frame function. A picture without a V plane is an NV12 one: its
  U plane holds U and V samples in turn.\<close>

definition ALIGN_POWER_OF_TWO :: "int \<Rightarrow> nat \<Rightarrow> int" where
  "ALIGN_POWER_OF_TWO value n = (value + (shl 1 n - 1)) AND NOT (shl 1 n - 1)"

definition av1_copy_and_extend_frame :: "YV12_BUFFER_CONFIG \<Rightarrow> YV12_BUFFER_CONFIG \<Rightarrow> YV12_BUFFER_CONFIG option" where
  "av1_copy_and_extend_frame src dst =
     (let et_y = yv_border dst;
          el_y = yv_border dst;
          er_y = max (y_crop_width src + yv_border dst) (ALIGN_POWER_OF_TWO (y_crop_width src) 6) - y_crop_width src;
          eb_y = max (y_crop_height src + yv_border dst) (ALIGN_POWER_OF_TWO (y_crop_height src) 6) - y_crop_height src;
          et_uv = shr et_y (nat (yv_subsampling_y src));
          el_uv = shr el_y (nat (yv_subsampling_x src));
          eb_uv = shr eb_y (nat (yv_subsampling_y src));
          er_uv = shr er_y (nat (yv_subsampling_x src)) in
      if is_high src then
        do {
          m \<leftarrow> highbd_copy_and_extend_plane (yv_samples src) (frame_plane src 0) (y_stride src) (yv_samples dst) (frame_plane dst 0)
                 (y_stride dst) (y_crop_width src) (y_crop_height src) et_y el_y eb_y er_y;
          if yv_monochrome src = 0 then
            do {
              m \<leftarrow> highbd_copy_and_extend_plane (yv_samples src) (frame_plane src 1) (uv_stride src) m (frame_plane dst 1)
                     (uv_stride dst) (uv_crop_width src) (uv_crop_height src) et_uv el_uv eb_uv er_uv;
              m \<leftarrow> highbd_copy_and_extend_plane (yv_samples src) (frame_plane src 2) (uv_stride src) m (frame_plane dst 2)
                     (uv_stride dst) (uv_crop_width src) (uv_crop_height src) et_uv el_uv eb_uv er_uv;
              Some (dst\<lparr>yv_samples := m\<rparr>)
            }
          else Some (dst\<lparr>yv_samples := m\<rparr>)
        }
      else
        do {
          m \<leftarrow> copy_and_extend_plane (yv_samples src) (frame_plane src 0) (y_stride src) (yv_samples dst) (frame_plane dst 0)
                 (y_stride dst) (y_crop_width src) (y_crop_height src) et_y el_y eb_y er_y 1;
          if yv_monochrome src = 0 then
            do {
              let chroma_step = (if v_buffer src \<noteq> 0 then 1 else 2);
              let src_v_buffer = (if v_buffer src \<noteq> 0 then frame_plane src 2 else frame_plane src 1 + 1);
              m \<leftarrow> copy_and_extend_plane (yv_samples src) (frame_plane src 1) (uv_stride src) m (frame_plane dst 1)
                     (uv_stride dst) (uv_crop_width src) (uv_crop_height src) et_uv el_uv eb_uv er_uv chroma_step;
              m \<leftarrow> copy_and_extend_plane (yv_samples src) src_v_buffer (uv_stride src) m (frame_plane dst 2)
                     (uv_stride dst) (uv_crop_width src) (uv_crop_height src) et_uv el_uv eb_uv er_uv chroma_step;
              Some (dst\<lparr>yv_samples := m\<rparr>)
            }
          else Some (dst\<lparr>yv_samples := m\<rparr>)
        })"

end
