(* ===== verification/Frame_Extend_Props.thy ===== *)
theory Frame_Extend_Props
  imports Frame_Extend
begin

text \<open>
  What the functions of \<^verbatim>\<open>Frame_Extend\<close> make of a frame. A block of samples is the table of a
  function on its indices; each loop is shown to turn the table of one function into the
  table of another, given by the row and column an index lies in. The picture outside the
  crop area then is the picture at the clamped coordinates.
\<close>

section \<open>Blocks as tables\<close>

definition tab :: "nat \<Rightarrow> (int \<Rightarrow> int) \<Rightarrow> int list" where
  "tab n F = map (\<lambda>i. F (int i)) [0..<n]"

lemma length_tab [simp]: "length (tab n F) = n" by (simp add: tab_def)

lemma tab_nth [simp]: "0 \<le> i \<Longrightarrow> i < int n \<Longrightarrow> tab n F ! nat i = F i" by (simp add: tab_def nat_less_iff)

lemma tab_self: "tab (length m) (\<lambda>i. m ! nat i) = m" by (simp add: tab_def map_nth)

lemma tab_cong: "(\<And>i. 0 \<le> i \<Longrightarrow> i < int n \<Longrightarrow> F i = G i) \<Longrightarrow> tab n F = tab n G" by (simp add: tab_def)

lemma set_tab: "set (tab n F) = F ` {0..<int n}"
proof -
  have "{0..<int n} = int ` {0..<n}" by (auto simp: image_iff) (metis atLeastLessThan_iff nat_0_le nat_less_iff zero_le)
  then show ?thesis by (auto simp: tab_def)
qed

lemma mem_get_tab: "0 \<le> i \<Longrightarrow> i < int n \<Longrightarrow> mem_get (tab n F) i = Some (F i)" by (simp add: mem_get_def)

lemma mem_write_tab:
  assumes "0 \<le> a" "a + int (length xs) \<le> int n"
  shows "mem_write (tab n F) a xs = Some (tab n (\<lambda>i. if a \<le> i \<and> i < a + int (length xs) then xs ! nat (i - a) else F i))"
proof -
  have "take (nat a) (tab n F) @ xs @ drop (nat a + length xs) (tab n F) =
      tab n (\<lambda>i. if a \<le> i \<and> i < a + int (length xs) then xs ! nat (i - a) else F i)" (is "?l = ?r")
  proof (rule nth_equalityI)
    show "length ?l = length ?r" using assms by simp
    fix j assume "j < length ?l"
    then have j: "j < n" using assms by simp
    then have r: "?r ! j = (if a \<le> int j \<and> int j < a + int (length xs) then xs ! nat (int j - a) else F (int j))"
      by (simp add: tab_def)
    consider "int j < a" | "a \<le> int j" "int j < a + int (length xs)" | "a + int (length xs) \<le> int j" by linarith
    then show "?l ! j = ?r ! j"
    proof cases
      case 1
      then have "j < nat a" by linarith
      then show ?thesis unfolding r using 1 assms j by (simp add: nth_append tab_def)
    next
      case 2
      then have "j - nat a = nat (int j - a)" "\<not> j < nat a" "j - nat a < length xs" "nat a \<le> n" using assms by linarith+
      then show ?thesis unfolding r using 2 by (simp add: nth_append)
    next
      case 3
      then have "nat a + length xs + (j - nat a - length xs) = j" "\<not> j < nat a" "\<not> j - nat a < length xs" "nat a \<le> n"
        using assms by linarith+
      then show ?thesis unfolding r using 3 j by (simp add: nth_append tab_def)
    qed
  qed
  then show ?thesis using assms by (simp add: mem_write_def)
qed

lemma mem_set_tab:
  assumes "0 \<le> k" "0 \<le> a" "a + k \<le> int n"
  shows "mem_set (tab n F) a v k = Some (tab n (\<lambda>i. if a \<le> i \<and> i < a + k then v else F i))"
  using assms by (auto simp: mem_set_def mem_write_tab intro!: tab_cong)

lemma mem_read_tab:
  assumes "0 \<le> k" "0 \<le> b" "b + k \<le> int n"
  shows "mem_read (tab n F) b k = Some (tab (nat k) (\<lambda>i. F (b + i)))"
proof -
  have "take (nat k) (drop (nat b) (tab n F)) = tab (nat k) (\<lambda>i. F (b + i))"
    using assms by (intro nth_equalityI) (auto simp: tab_def)
  then show ?thesis using assms by (simp add: mem_read_def)
qed

lemma mem_copy_from_tab:
  assumes "0 \<le> k" "0 \<le> a" "a + k \<le> int n" "0 \<le> b" "b + k \<le> int n'"
  shows "mem_copy_from (tab n F) a (tab n' G) b k = Some (tab n (\<lambda>i. if a \<le> i \<and> i < a + k then G (b + (i - a)) else F i))"
  using assms by (auto simp: mem_copy_from_def mem_read_tab mem_write_tab intro!: tab_cong)

lemma mem_copy_tab:
  assumes "0 \<le> k" "0 \<le> a" "a + k \<le> int n" "0 \<le> b" "b + k \<le> int n" "k \<le> \<bar>a - b\<bar>"
  shows "mem_copy (tab n F) a b k = Some (tab n (\<lambda>i. if a \<le> i \<and> i < a + k then F (b + (i - a)) else F i))"
  using assms by (simp add: mem_copy_def mem_copy_from_tab)

lemma memset16_loop_tab:
  "0 \<le> a \<Longrightarrow> a + int k \<le> int n \<Longrightarrow>
    memset16_loop (tab n F) a v k = Some (tab n (\<lambda>i. if a \<le> i \<and> i < a + int k then u16 v else F i))"
proof (induction k arbitrary: F a)
  case (Suc k)
  then show ?case by (auto simp: mem_write_tab intro!: tab_cong)
qed (auto intro!: tab_cong)

section \<open>Rows and columns\<close>

definition row_of :: "int \<Rightarrow> int \<Rightarrow> int \<Rightarrow> int \<Rightarrow> int" where
  "row_of src pitch left i = (i - src + left) div pitch"

definition col_of :: "int \<Rightarrow> int \<Rightarrow> int \<Rightarrow> int \<Rightarrow> int" where
  "col_of src pitch left i = (i - src + left) mod pitch - left"

lemma cell_of: "src + row_of src pitch left i * pitch + col_of src pitch left i = i"
  unfolding row_of_def col_of_def by (simp add: algebra_simps)

lemma row_col_cell:
  assumes "- left \<le> c" "c < pitch - left"
  shows "row_of src pitch left (src + r * pitch + c) = r" "col_of src pitch left (src + r * pitch + c) = c"
proof -
  have e: "src + r * pitch + c - src + left = (c + left) + r * pitch" by simp
  have "(c + left) div pitch = 0" "(c + left) mod pitch = c + left" "pitch \<noteq> 0" using assms by (simp_all add: zdiv_eq_0_iff)
  then show "row_of src pitch left (src + r * pitch + c) = r" "col_of src pitch left (src + r * pitch + c) = c"
    unfolding row_of_def col_of_def e by simp_all
qed

lemma col_of_ge: "0 < pitch \<Longrightarrow> - left \<le> col_of src pitch left i" by (simp add: col_of_def)

lemma col_of_lt: "0 < pitch \<Longrightarrow> col_of src pitch left i < pitch - left"
  using pos_mod_bound [of pitch "i - src + left"] by (simp add: col_of_def)

lemma cell_range:
  assumes "0 < pitch" "- left \<le> c0" "c1 \<le> pitch - left"
  shows "src + r * pitch + c0 \<le> i \<and> i < src + r * pitch + c1 \<longleftrightarrow>
    row_of src pitch left i = r \<and> c0 \<le> col_of src pitch left i \<and> col_of src pitch left i < c1"
proof
  assume a: "src + r * pitch + c0 \<le> i \<and> i < src + r * pitch + c1"
  define c where "c = i - src - r * pitch"
  have i: "i = src + r * pitch + c" by (simp add: c_def)
  have "c0 \<le> c" "c < c1" using a by (simp_all add: c_def)
  then show "row_of src pitch left i = r \<and> c0 \<le> col_of src pitch left i \<and> col_of src pitch left i < c1"
    unfolding i using assms by (simp add: row_col_cell)
next
  assume a: "row_of src pitch left i = r \<and> c0 \<le> col_of src pitch left i \<and> col_of src pitch left i < c1"
  have "i = src + r * pitch + col_of src pitch left i" using a cell_of [of src pitch left i] by simp
  then show "src + r * pitch + c0 \<le> i \<and> i < src + r * pitch + c1" using a by linarith
qed

lemma clamp_inside [simp]: "lo \<le> x \<Longrightarrow> x \<le> hi \<Longrightarrow> clamp x lo hi = x" by (simp add: clamp_def)

lemma clamp_clamp [simp]: "lo \<le> hi \<Longrightarrow> clamp (clamp x lo hi) lo hi = clamp x lo hi" by (simp add: clamp_def)

lemma clamp_bounds: "lo \<le> hi \<Longrightarrow> lo \<le> clamp x lo hi" "lo \<le> hi \<Longrightarrow> clamp x lo hi \<le> hi" by (simp_all add: clamp_def)


section \<open>Extending one plane\<close>

text \<open>A picture of \<open>w\<close> by \<open>ht\<close> samples at \<open>src\<close>, whose rows are \<open>pitch\<close> apart. The functions a loop
  turns \<open>F\<close> into: the columns beside the rows \<open>lo\<close> to \<open>hi\<close>; one line copied to these rows; the rows
  with everything around the picture that belongs to them.\<close>

definition ext_cols :: "(int \<Rightarrow> int) \<Rightarrow> int \<Rightarrow> int \<Rightarrow> int \<Rightarrow> int \<Rightarrow> int \<Rightarrow> int \<Rightarrow> int \<Rightarrow> int \<Rightarrow> int" where
  "ext_cols F src pitch w left right lo hi i =
     (let r = row_of src pitch left i; c = col_of src pitch left i in
      if lo \<le> r \<and> r < hi \<and> c < w + right then F (src + r * pitch + clamp c 0 (w - 1)) else F i)"

definition ext_line :: "(int \<Rightarrow> int) \<Rightarrow> int \<Rightarrow> int \<Rightarrow> int \<Rightarrow> int \<Rightarrow> int \<Rightarrow> int \<Rightarrow> int \<Rightarrow> int \<Rightarrow> int" where
  "ext_line F src pitch left wide from lo hi i =
     (let r = row_of src pitch left i; c = col_of src pitch left i in
      if lo \<le> r \<and> r < hi \<and> c < wide then F (src + from * pitch + c) else F i)"

definition ext_region :: "(int \<Rightarrow> int) \<Rightarrow> int \<Rightarrow> int \<Rightarrow> int \<Rightarrow> int \<Rightarrow> int \<Rightarrow> int \<Rightarrow> int \<Rightarrow> int \<Rightarrow> int \<Rightarrow> int" where
  "ext_region F src pitch w ht left right lo hi i =
     (let r = row_of src pitch left i; c = col_of src pitch left i in
      if lo \<le> r \<and> r < hi \<and> c < w + right then F (src + clamp r 0 (ht - 1) * pitch + clamp c 0 (w - 1)) else F i)"

lemma row_step: "a * pitch + pitch \<le> b * pitch" if "a < b" "0 < pitch" for a b pitch :: int
proof -
  have "(a + 1) * pitch \<le> b * pitch" using that by (intro mult_right_mono) simp_all
  then show ?thesis by (simp add: algebra_simps)
qed

lemma extend_columns_tab:
  assumes "0 < w" "0 \<le> left" "0 \<le> right" "left + w + right \<le> pitch"
    and "0 \<le> src + lo * pitch - left" "src + (lo + int k - 1) * pitch + w + right \<le> int n"
  shows "extend_columns (tab n F) (src + lo * pitch) (src + lo * pitch + w - 1) (src + lo * pitch - left) (src + lo * pitch + w)
      pitch left right k = Some (tab n (ext_cols F src pitch w left right lo (lo + int k)))"
  using assms(5,6)
proof (induction k arbitrary: F lo)
  case 0
  show ?case by (auto simp: ext_cols_def Let_def intro!: tab_cong)
next
  case (Suc k)
  let ?r = "row_of src pitch left" and ?c = "col_of src pitch left"
  have p: "0 < pitch" using assms by linarith
  have "lo * pitch \<le> (lo + int k) * pitch" using p by (intro mult_right_mono) simp_all
  then have top: "src + lo * pitch + w + right \<le> int n" using Suc.prems(2) by simp
  let ?F1 = "\<lambda>i. if src + lo * pitch - left \<le> i \<and> i < src + lo * pitch - left + left then F (src + lo * pitch) else F i"
  let ?F2 = "\<lambda>i. if src + lo * pitch + w \<le> i \<and> i < src + lo * pitch + w + right then F (src + lo * pitch + w - 1) else ?F1 i"
  have "?F2 i = ext_cols F src pitch w left right lo (lo + 1) i" for i
  proof -
    have "src + lo * pitch - left \<le> i \<and> i < src + lo * pitch - left + left \<longleftrightarrow> ?r i = lo \<and> ?c i < 0"
      using cell_range [of pitch left "- left" 0 src lo i] p assms(1-4) col_of_ge [OF p] by simp
    moreover have "src + lo * pitch + w \<le> i \<and> i < src + lo * pitch + w + right \<longleftrightarrow> ?r i = lo \<and> w \<le> ?c i \<and> ?c i < w + right"
      using cell_range [of pitch left w "w + right" src lo i] p assms(1-4) by (simp add: add.assoc)
    ultimately show ?thesis using assms(1,3) by (auto simp: ext_cols_def Let_def clamp_def cell_of add_diff_eq)
  qed
  then have F2: "?F2 = ext_cols F src pitch w left right lo (lo + 1)" by (rule ext)
  have "ext_cols (ext_cols F src pitch w left right lo (lo + 1)) src pitch w left right (lo + 1) (lo + 1 + int k) i =
      ext_cols F src pitch w left right lo (lo + int (Suc k)) i" for i
  proof -
    have "- left \<le> clamp (?c i) 0 (w - 1)" "clamp (?c i) 0 (w - 1) < pitch - left" using assms(1-4) by (auto simp: clamp_def)
    from row_col_cell [OF this] show ?thesis by (simp add: ext_cols_def Let_def)
  qed
  then have comp: "ext_cols (ext_cols F src pitch w left right lo (lo + 1)) src pitch w left right (lo + 1) (lo + 1 + int k) =
      ext_cols F src pitch w left right lo (lo + int (Suc k))" by (rule ext)
  have "extend_columns (tab n ?F2) (src + (lo + 1) * pitch) (src + (lo + 1) * pitch + w - 1) (src + (lo + 1) * pitch - left)
      (src + (lo + 1) * pitch + w) pitch left right k = Some (tab n (ext_cols F src pitch w left right lo (lo + int (Suc k))))"
    unfolding F2 comp [symmetric] using Suc.prems p by (intro Suc.IH) (simp_all add: algebra_simps)
  moreover have "mem_get (tab n F) (src + lo * pitch) = Some (F (src + lo * pitch))"
    using top Suc.prems(1) assms(1-3) by (intro mem_get_tab) linarith+
  moreover have "mem_set (tab n F) (src + lo * pitch - left) (F (src + lo * pitch)) left = Some (tab n ?F1)"
    using top Suc.prems(1) assms(1-3) by (intro mem_set_tab) linarith+
  moreover have "mem_get (tab n ?F1) (src + lo * pitch + w - 1) = Some (F (src + lo * pitch + w - 1))"
    using top Suc.prems(1) assms(1-3) by (subst mem_get_tab) simp_all
  moreover have "mem_set (tab n ?F1) (src + lo * pitch + w) (F (src + lo * pitch + w - 1)) right = Some (tab n ?F2)"
    using top Suc.prems(1) assms(1-3) by (intro mem_set_tab) linarith+
  moreover have "src + lo * pitch + pitch = src + (lo + 1) * pitch" "src + lo * pitch + w - 1 + pitch = src + (lo + 1) * pitch + w - 1"
    "src + lo * pitch - left + pitch = src + (lo + 1) * pitch - left" "src + lo * pitch + w + pitch = src + (lo + 1) * pitch + w"
    by (simp_all add: algebra_simps)
  ultimately show ?case by (simp only: extend_columns.simps Option.bind.simps)
qed

lemma copy_line_tab:
  assumes "0 \<le> left" "0 \<le> wide" "left + wide \<le> pitch" "0 < pitch" "from < lo \<or> lo + int k \<le> from"
    and "0 \<le> src + lo * pitch - left" "src + (lo + int k - 1) * pitch + wide \<le> int n"
    and "0 \<le> src + from * pitch - left" "src + from * pitch + wide \<le> int n"
  shows "copy_line (tab n F) (src + lo * pitch - left) (src + from * pitch - left) pitch (left + wide) k =
    Some (tab n (ext_line F src pitch left wide from lo (lo + int k)))"
  using assms(5-7)
proof (induction k arbitrary: F lo)
  case 0
  show ?case by (auto simp: ext_line_def Let_def intro!: tab_cong)
next
  case (Suc k)
  let ?r = "row_of src pitch left" and ?c = "col_of src pitch left"
  have "lo * pitch \<le> (lo + int k) * pitch" using assms(4) by (intro mult_right_mono) simp_all
  then have top: "src + lo * pitch + wide \<le> int n" using Suc.prems(3) by simp
  have apart: "left + wide \<le> \<bar>(src + lo * pitch - left) - (src + from * pitch - left)\<bar>"
    using Suc.prems(1) row_step [of "from" lo pitch] row_step [of lo "from" pitch] assms(3,4) by (cases "from < lo") auto
  let ?F1 = "\<lambda>i. if src + lo * pitch - left \<le> i \<and> i < src + lo * pitch - left + (left + wide)
    then F (src + from * pitch - left + (i - (src + lo * pitch - left))) else F i"
  have "?F1 i = ext_line F src pitch left wide from lo (lo + 1) i" for i
  proof -
    have "src + lo * pitch - left \<le> i \<and> i < src + lo * pitch - left + (left + wide) \<longleftrightarrow> ?r i = lo \<and> ?c i < wide"
      using cell_range [of pitch left "- left" wide src lo i] assms(1-4) col_of_ge [OF assms(4)] by (simp add: add.assoc)
    moreover have "F (src + from * pitch - left + (i - (src + lo * pitch - left))) = F (src + from * pitch + ?c i)" if "?r i = lo"
      using cell_of [of src pitch left i] that by (intro arg_cong [of _ _ F]) simp
    ultimately show ?thesis by (cases "?r i = lo") (simp_all only: ext_line_def Let_def, auto)
  qed
  then have F1: "?F1 = ext_line F src pitch left wide from lo (lo + 1)" by (rule ext)
  have e: "src + lo * pitch - left + pitch = src + (lo + 1) * pitch - left" by (simp add: algebra_simps)
  have "ext_line (ext_line F src pitch left wide from lo (lo + 1)) src pitch left wide from (lo + 1) (lo + 1 + int k) i =
      ext_line F src pitch left wide from lo (lo + int (Suc k)) i" for i
    using Suc.prems(1) row_col_cell [of left "?c i" pitch src "from"] col_of_ge [OF assms(4), of left src i] col_of_lt [OF assms(4), of src left i]
    by (auto simp: ext_line_def Let_def)
  then have comp: "ext_line (ext_line F src pitch left wide from lo (lo + 1)) src pitch left wide from (lo + 1) (lo + 1 + int k) =
      ext_line F src pitch left wide from lo (lo + int (Suc k))" by (rule ext)
  have "copy_line (tab n ?F1) (src + (lo + 1) * pitch - left) (src + from * pitch - left) pitch (left + wide) k =
      Some (tab n (ext_line F src pitch left wide from lo (lo + int (Suc k))))"
    unfolding F1 comp [symmetric] using Suc.prems assms(4) by (intro Suc.IH) (auto simp: algebra_simps)
  then show ?case using apart top Suc.prems(2) assms(1-4,8,9) by (simp add: mem_copy_tab e)
qed


lemma ext_compose:
  assumes "0 < w" "0 < ht" "0 \<le> left" "0 \<le> right" "left + w + right \<le> pitch"
    and strip: "0 \<le> vs" "vs < ve" "ve \<le> ht" "0 \<le> up" "0 \<le> down" "up = 0 \<or> vs = 0" "down = 0 \<or> ve = ht"
  shows "ext_line (ext_line (ext_cols F src pitch w left right vs ve) src pitch left (w + right) 0 (- up) 0)
      src pitch left (w + right) (ht - 1) ht (ht + down) i = ext_region F src pitch w ht left right (vs - up) (ve + down) i"
proof -
  let ?r = "row_of src pitch left i" and ?c = "col_of src pitch left i"
  have p: "0 < pitch" using assms by linarith
  note line = row_col_cell [OF col_of_ge [OF p, of left src i] col_of_lt [OF p, of src left i], of src]
  define G where "G = ext_cols F src pitch w left right vs ve"
  have G: "G i = (if vs \<le> ?r \<and> ?r < ve \<and> ?c < w + right then F (src + ?r * pitch + clamp ?c 0 (w - 1)) else F i)"
    by (simp add: G_def ext_cols_def Let_def)
  have G': "G (src + k * pitch + ?c) =
      (if vs \<le> k \<and> k < ve \<and> ?c < w + right then F (src + k * pitch + clamp ?c 0 (w - 1)) else F (src + k * pitch + ?c))" for k
    by (simp add: G_def ext_cols_def Let_def line)
  consider "?r < vs" | "vs \<le> ?r" "?r < ve" | "ve \<le> ?r" by linarith
  then have "ext_line (ext_line G src pitch left (w + right) 0 (- up) 0) src pitch left (w + right) (ht - 1) ht (ht + down) i =
      ext_region F src pitch w ht left right (vs - up) (ve + down) i" (is ?goal)
  proof cases
    case 1
    then show ?goal using strip G G' [of 0] line [of 0]
      by (cases "vs = 0") (auto simp: ext_line_def ext_region_def Let_def clamp_def [of ?r])
  next
    case 2
    then show ?goal using strip by (simp add: ext_line_def ext_region_def Let_def line G)
  next
    case 3
    then show ?goal using strip G G' [of "ht - 1"] line [of "ht - 1"]
      by (cases "ve = ht") (auto simp: ext_line_def ext_region_def Let_def clamp_def [of ?r])
  qed
  then show ?thesis by (simp add: G_def)
qed

text \<open>The rows \<open>vs\<close> to \<open>ve\<close> of a plane, with the border above the first row and below the last.\<close>

lemma extend_plane_tab:
  assumes pic: "0 < w" "0 < ht" "0 \<le> left" "0 \<le> right" "left + w + right \<le> pitch"
    and strip: "0 \<le> vs" "vs < ve" "ve \<le> ht" "0 \<le> up" "0 \<le> down" "up = 0 \<or> vs = 0" "down = 0 \<or> ve = ht"
    and room: "0 \<le> src - up * pitch - left" "0 \<le> src - left" "src + (ht - 1 + down) * pitch + w + right \<le> int n"
  shows "extend_plane (tab n F) src pitch w ht up left down right vs ve =
    Some (tab n (ext_region F src pitch w ht left right (vs - up) (ve + down)))"
proof -
  have p: "0 < pitch" using pic by linarith
  have "(ve - 1) * pitch \<le> (ht - 1 + down) * pitch" "(ht - 1) * pitch \<le> (ht - 1 + down) * pitch" "0 \<le> vs * pitch" "0 \<le> (ht - 1) * pitch"
    using strip p pic(2) by (intro mult_right_mono mult_nonneg_nonneg; simp)+
  note b = this
  let ?F1 = "ext_cols F src pitch w left right vs ve"
  let ?F2 = "ext_line ?F1 src pitch left (w + right) 0 (- up) 0"
  have "extend_columns (tab n F) (src + vs * pitch) (src + vs * pitch + w - 1) (src + vs * pitch - left) (src + vs * pitch + w)
      pitch left right (nat (ve - vs)) = Some (tab n (ext_cols F src pitch w left right vs (vs + int (nat (ve - vs)))))"
  proof (rule extend_columns_tab)
    show "0 \<le> src + vs * pitch - left" using room(2) b(3) by linarith
    have "vs + int (nat (ve - vs)) - 1 = ve - 1" using strip by simp
    then show "src + (vs + int (nat (ve - vs)) - 1) * pitch + w + right \<le> int n" using room(3) b(1) by simp
  qed (use pic in simp_all)
  then have 1: "extend_columns (tab n F) (src + vs * pitch) (src + vs * pitch + w - 1) (src + vs * pitch - left)
      (src + vs * pitch + w - 1 + 1) pitch left right (nat (ve - vs)) = Some (tab n ?F1)" using strip by simp
  have "copy_line (tab n ?F1) (src + (- up) * pitch - left) (src + 0 * pitch - left) pitch (left + (w + right)) (nat up) =
      Some (tab n (ext_line ?F1 src pitch left (w + right) 0 (- up) (- up + int (nat up))))"
  proof (rule copy_line_tab)
    have "src + w + right \<le> int n" using room(3) b(2,4) by linarith
    then show "src + (- up + int (nat up) - 1) * pitch + (w + right) \<le> int n" "src + 0 * pitch + (w + right) \<le> int n"
      using p strip(4) by simp_all
  qed (use pic strip room p in simp_all)
  then have 2: "copy_line (tab n ?F1) (src - left + pitch * (- up)) (src - left) pitch (left + right + w) (nat up) = Some (tab n ?F2)"
    using strip by (simp add: algebra_simps)
  have "copy_line (tab n ?F2) (src + ht * pitch - left) (src + (ht - 1) * pitch - left) pitch (left + (w + right)) (nat down) =
      Some (tab n (ext_line ?F2 src pitch left (w + right) (ht - 1) ht (ht + int (nat down))))"
  proof (rule copy_line_tab)
    have "0 \<le> ht * pitch" using pic(2) p by simp
    then show "0 \<le> src + ht * pitch - left" using room(2) by linarith
    show "0 \<le> src + (ht - 1) * pitch - left" using room(2) b by simp
    show "src + (ht - 1) * pitch + (w + right) \<le> int n" using room(3) b by simp
    show "src + (ht + int (nat down) - 1) * pitch + (w + right) \<le> int n" using room(3) strip by (simp add: algebra_simps)
  qed (use pic strip p in simp_all)
  then have 3: "copy_line (tab n ?F2) (src - left + pitch * (ht - 1) + pitch) (src - left + pitch * (ht - 1)) pitch (left + right + w) (nat down) =
      Some (tab n (ext_region F src pitch w ht left right (vs - up) (ve + down)))"
    using strip ext_compose [OF pic strip, of F src] by (simp add: algebra_simps cong: tab_cong)
  show ?thesis unfolding extend_plane_def Let_def 1 2 3 Option.bind.simps ..
qed


text \<open>Blocks of 16-bit samples: \<open>extend_plane_high\<close> does on them what \<open>extend_plane\<close> does.\<close>

definition samples_u16 :: "int list \<Rightarrow> bool" where
  "samples_u16 m \<longleftrightarrow> (\<forall>x \<in> set m. 0 \<le> x \<and> x < 65536)"

lemma mem_get_u16: "samples_u16 m \<Longrightarrow> mem_get m i = Some v \<Longrightarrow> u16 v = v"
  by (auto simp: samples_u16_def mem_get_def u16_id nat_less_iff split: if_splits)

lemma mem_write_u16: "samples_u16 m \<Longrightarrow> samples_u16 xs \<Longrightarrow> mem_write m a xs = Some m' \<Longrightarrow> samples_u16 m'"
  by (auto simp: samples_u16_def mem_write_def split: if_splits dest!: in_set_takeD in_set_dropD)

lemma mem_set_u16: "samples_u16 m \<Longrightarrow> u16 v = v \<Longrightarrow> mem_set m a v k = Some m' \<Longrightarrow> samples_u16 m'"
  unfolding mem_set_def by (auto split: if_splits elim!: mem_write_u16 [rotated 2]) (auto simp: samples_u16_def u16_def; presburger)

lemma aom_memset16_eq: "0 \<le> a \<Longrightarrow> a + k \<le> int (length m) \<Longrightarrow> aom_memset16 m a v k = mem_set m a (u16 v) k"
  using memset16_loop_tab [of a "nat k" "length m" "\<lambda>i. m ! nat i" v] mem_set_tab [of k a "length m" "\<lambda>i. m ! nat i" "u16 v"]
  by (cases "k < 0") (simp_all add: aom_memset16_def tab_self, simp add: mem_set_def)

lemma mem_set_range: "mem_set m a v k = Some m' \<Longrightarrow> 0 \<le> a \<and> a + k \<le> int (length m) \<and> length m' = length m"
  by (auto simp: mem_set_def mem_write_def split: if_splits)

lemma extend_columns_high_eq:
  "extend_columns m s1 s2 d1 d2 pitch left right k = Some m' \<Longrightarrow> samples_u16 m \<Longrightarrow>
    extend_columns_high m s1 s2 d1 d2 pitch left right k = Some m' \<and> samples_u16 m'"
proof (induction k arbitrary: m s1 s2 d1 d2)
  case (Suc k)
  from Suc.prems(1) obtain v m1 w m2 where 1: "mem_get m s1 = Some v" "mem_set m d1 v left = Some m1" "mem_get m1 s2 = Some w"
    "mem_set m1 d2 w right = Some m2" and rest: "extend_columns m2 (s1 + pitch) (s2 + pitch) (d1 + pitch) (d2 + pitch) pitch left right k = Some m'"
    by (auto split: bind_splits)
  have v: "u16 v = v" by (rule mem_get_u16 [OF Suc.prems(2) 1(1)])
  have m1: "samples_u16 m1" by (rule mem_set_u16 [OF Suc.prems(2) v 1(2)])
  have w: "u16 w = w" by (rule mem_get_u16 [OF m1 1(3)])
  have m2: "samples_u16 m2" by (rule mem_set_u16 [OF m1 w 1(4)])
  show ?case using Suc.IH [OF rest m2] 1 v w mem_set_range [OF 1(2)] mem_set_range [OF 1(4)] by (simp add: aom_memset16_eq)
qed simp

lemma copy_line_u16: "copy_line m d s pitch k n = Some m' \<Longrightarrow> samples_u16 m \<Longrightarrow> samples_u16 m'"
proof (induction n arbitrary: m d)
  case (Suc n)
  then obtain m1 where 1: "mem_copy m d s k = Some m1" "copy_line m1 (d + pitch) s pitch k n = Some m'" by (auto split: bind_splits)
  then obtain xs where "mem_read m s k = Some xs" "mem_write m d xs = Some m1"
    by (auto simp: mem_copy_def mem_copy_from_def split: bind_splits if_splits)
  moreover from this have "samples_u16 xs" using Suc.prems(2)
    by (auto simp: samples_u16_def mem_read_def split: if_splits dest!: in_set_takeD in_set_dropD)
  ultimately have "samples_u16 m1" using mem_write_u16 Suc.prems(2) by blast
  then show ?case using Suc.IH 1(2) by blast
qed simp

lemma extend_plane_high_eq:
  assumes e: "extend_plane m src pitch w ht up left down right vs ve = Some m'" and u: "samples_u16 m"
  shows "extend_plane_high m src pitch w ht up left down right vs ve = Some m'" "samples_u16 m'"
proof -
  from e obtain m1 m2 where
    1: "extend_columns m (src + vs * pitch) (src + vs * pitch + w - 1) (src + vs * pitch - left) (src + vs * pitch + w - 1 + 1) pitch left right
      (nat (ve - vs)) = Some m1" and
    2: "copy_line m1 (src - left + pitch * (- up)) (src - left) pitch (left + right + w) (nat up) = Some m2" and
    3: "copy_line m2 (src - left + pitch * (ht - 1) + pitch) (src - left + pitch * (ht - 1)) pitch (left + right + w) (nat down) = Some m'"
    unfolding extend_plane_def Let_def by (auto split: bind_splits)
  note h = extend_columns_high_eq [OF 1 u]
  show "extend_plane_high m src pitch w ht up left down right vs ve = Some m'"
    unfolding extend_plane_high_def Let_def conjunct1 [OF h] Option.bind.simps 2 3 ..
  show "samples_u16 m'" using copy_line_u16 [OF 3 copy_line_u16 [OF 2]] h by blast
qed


section \<open>Extending frames\<close>

text \<open>The sample of a plane at a row and column, the border included.\<close>

definition sample :: "YV12_BUFFER_CONFIG \<Rightarrow> nat \<Rightarrow> int \<Rightarrow> int \<Rightarrow> int" where
  "sample f p r c = yv_samples f ! nat (plane_cell f p r c)"

text \<open>The picture continued past its edges: the sample at the nearest row and column of the crop area.\<close>

definition edge_sample :: "YV12_BUFFER_CONFIG \<Rightarrow> nat \<Rightarrow> int \<Rightarrow> int \<Rightarrow> int" where
  "edge_sample f p r c = sample f p (clamp r 0 (plane_crop_height f p - 1)) (clamp c 0 (plane_crop_width f p - 1))"

definition samples_ok :: "YV12_BUFFER_CONFIG \<Rightarrow> bool" where
  "samples_ok f \<longleftrightarrow> (is_high f \<longrightarrow> samples_u16 (yv_samples f))"

lemma with_samples [simp]:
  "plane_width (f\<lparr>yv_samples := m\<rparr>) = plane_width f" "plane_height (f\<lparr>yv_samples := m\<rparr>) = plane_height f"
  "plane_crop_width (f\<lparr>yv_samples := m\<rparr>) = plane_crop_width f" "plane_crop_height (f\<lparr>yv_samples := m\<rparr>) = plane_crop_height f"
  "plane_stride (f\<lparr>yv_samples := m\<rparr>) = plane_stride f" "plane_left (f\<lparr>yv_samples := m\<rparr>) = plane_left f"
  "plane_top (f\<lparr>yv_samples := m\<rparr>) = plane_top f" "frame_plane (f\<lparr>yv_samples := m\<rparr>) = frame_plane f"
  "plane_cell (f\<lparr>yv_samples := m\<rparr>) = plane_cell f" "in_plane (f\<lparr>yv_samples := m\<rparr>) = in_plane f"
  "is_high (f\<lparr>yv_samples := m\<rparr>) = is_high f"
  by (auto simp: fun_eq_iff plane_width_def plane_height_def plane_crop_width_def plane_crop_height_def plane_stride_def plane_left_def
      plane_top_def frame_plane_def frame_base_def is_high_def plane_cell_def in_plane_def)

lemma sample_with: "sample (f\<lparr>yv_samples := m\<rparr>) p r c = m ! nat (plane_cell f p r c)" by (simp add: sample_def)

lemma frame_wf_with_samples [simp]: "length m = length (yv_samples f) \<Longrightarrow> frame_wf (f\<lparr>yv_samples := m\<rparr>) = frame_wf f"
  by (simp add: frame_wf_def)

lemma frame_wfD:
  assumes "frame_wf f" "p < 3"
  shows "plane_width f p + 2 * plane_left f p \<le> plane_stride f p" "0 \<le> plane_left f p" "0 \<le> plane_top f p"
    "1 \<le> plane_crop_width f p" "plane_crop_width f p \<le> plane_width f p" "1 \<le> plane_crop_height f p"
    "plane_crop_height f p \<le> plane_height f p" "0 < plane_stride f p"
proof -
  show "plane_width f p + 2 * plane_left f p \<le> plane_stride f p" "0 \<le> plane_left f p" "0 \<le> plane_top f p"
    "1 \<le> plane_crop_width f p" "plane_crop_width f p \<le> plane_width f p" "1 \<le> plane_crop_height f p"
    "plane_crop_height f p \<le> plane_height f p"
    using assms by (simp_all add: frame_wf_def)
  then show "0 < plane_stride f p" by linarith
qed

lemma frame_room:
  assumes "frame_wf f" "p < 3"
  shows "0 \<le> frame_plane f p - plane_top f p * plane_stride f p - plane_left f p" "0 \<le> frame_plane f p - plane_left f p"
    "frame_plane f p + (plane_height f p + plane_top f p - 1) * plane_stride f p + (plane_width f p + plane_left f p) \<le> int (length (yv_samples f))"
proof -
  note d = frame_wfD [OF assms]
  have "in_plane f p (- plane_top f p) (- plane_left f p)" "in_plane f p 0 (- plane_left f p)"
    "in_plane f p (plane_height f p + plane_top f p - 1) (plane_width f p + plane_left f p - 1)"
    using d by (auto simp: in_plane_def)
  from this [THEN wf_cell_bounds(1) [OF assms]] this [THEN wf_cell_bounds(2) [OF assms]]
  show "0 \<le> frame_plane f p - plane_top f p * plane_stride f p - plane_left f p" "0 \<le> frame_plane f p - plane_left f p"
    "frame_plane f p + (plane_height f p + plane_top f p - 1) * plane_stride f p + (plane_width f p + plane_left f p) \<le> int (length (yv_samples f))"
    by (simp_all add: plane_cell_def)
qed

text \<open>The samples of a frame once the rows \<open>lo\<close> to \<open>hi\<close> of a plane are extended.\<close>

definition extended :: "YV12_BUFFER_CONFIG \<Rightarrow> nat \<Rightarrow> int \<Rightarrow> int \<Rightarrow> int list" where
  "extended f p lo hi = tab (length (yv_samples f))
     (ext_region (\<lambda>i. yv_samples f ! nat i) (frame_plane f p) (plane_stride f p) (plane_crop_width f p) (plane_crop_height f p)
        (plane_left f p) (plane_left f p + plane_width f p - plane_crop_width f p) lo hi)"

lemma length_extended [simp]: "length (extended f p lo hi) = length (yv_samples f)" by (simp add: extended_def)

lemma extend_plane_frame:
  assumes wf: "frame_wf f" "p < 3" and ok: "samples_ok f"
    and strip: "0 \<le> vs" "vs < ve" "ve \<le> plane_crop_height f p" "up = (if vs = 0 then plane_top f p else 0)"
    "down = (if ve = plane_crop_height f p then plane_top f p + plane_height f p - plane_crop_height f p else 0)"
  shows "(if is_high f then extend_plane_high else extend_plane) (yv_samples f) (frame_plane f p) (plane_stride f p)
      (plane_crop_width f p) (plane_crop_height f p) up (plane_left f p) down
      (plane_left f p + plane_width f p - plane_crop_width f p) vs ve = Some (extended f p (vs - up) (ve + down))"
    and "samples_ok (f\<lparr>yv_samples := extended f p (vs - up) (ve + down)\<rparr>)"
proof -
  note d = frame_wfD [OF wf] and room = frame_room [OF wf]
  have "0 \<le> up * plane_stride f p" "up * plane_stride f p \<le> plane_top f p * plane_stride f p"
    "(plane_crop_height f p - 1 + down) * plane_stride f p \<le> (plane_height f p + plane_top f p - 1) * plane_stride f p"
    using d strip(4,5) by (intro mult_right_mono mult_nonneg_nonneg; simp split: if_splits)+
  note b = this
  have "extend_plane (tab (length (yv_samples f)) (\<lambda>i. yv_samples f ! nat i)) (frame_plane f p) (plane_stride f p)
      (plane_crop_width f p) (plane_crop_height f p) up (plane_left f p) down
      (plane_left f p + plane_width f p - plane_crop_width f p) vs ve = Some (extended f p (vs - up) (ve + down))"
    unfolding extended_def
  proof (rule extend_plane_tab)
    show "0 \<le> frame_plane f p - up * plane_stride f p - plane_left f p" using room(1) b(2) by linarith
    show "frame_plane f p + (plane_crop_height f p - 1 + down) * plane_stride f p + plane_crop_width f p +
      (plane_left f p + plane_width f p - plane_crop_width f p) \<le> int (length (yv_samples f))" using room(3) b(3) by linarith
  qed (use d room(2) strip in auto)
  then have e: "extend_plane (yv_samples f) (frame_plane f p) (plane_stride f p) (plane_crop_width f p) (plane_crop_height f p) up (plane_left f p) down
      (plane_left f p + plane_width f p - plane_crop_width f p) vs ve = Some (extended f p (vs - up) (ve + down))"
    by (simp add: tab_self)
  show "(if is_high f then extend_plane_high else extend_plane) (yv_samples f) (frame_plane f p) (plane_stride f p)
      (plane_crop_width f p) (plane_crop_height f p) up (plane_left f p) down
      (plane_left f p + plane_width f p - plane_crop_width f p) vs ve = Some (extended f p (vs - up) (ve + down))"
    "samples_ok (f\<lparr>yv_samples := extended f p (vs - up) (ve + down)\<rparr>)"
    using e extend_plane_high_eq [OF e] ok by (simp_all add: samples_ok_def)
qed

lemma extended_same:
  assumes wf: "frame_wf f" "p < 3" and rc: "in_plane f p r c"
  shows "extended f p lo hi ! nat (plane_cell f p r c) = (if lo \<le> r \<and> r < hi then edge_sample f p r c else sample f p r c)"
proof -
  have "- plane_left f p \<le> c" "c < plane_stride f p - plane_left f p" using rc frame_wfD(1) [OF wf] by (simp_all add: in_plane_def)
  note cell = row_col_cell [OF this, of "frame_plane f p" r]
  have "c < plane_crop_width f p + (plane_left f p + plane_width f p - plane_crop_width f p)" using rc by (simp add: in_plane_def)
  then show ?thesis using wf_cell_bounds [OF wf rc]
    by (simp add: extended_def ext_region_def edge_sample_def sample_def Let_def) (auto simp: plane_cell_def cell)
qed

lemma extended_other:
  assumes wf: "frame_wf f" "p < 3" and q: "q < 3" "q \<noteq> p" "in_plane f q r c"
    and rows: "- plane_top f p \<le> lo" "hi \<le> plane_height f p + plane_top f p"
  shows "extended f p lo hi ! nat (plane_cell f q r c) = sample f q r c"
proof -
  let ?r = "row_of (frame_plane f p) (plane_stride f p) (plane_left f p) (plane_cell f q r c)"
  let ?c = "col_of (frame_plane f p) (plane_stride f p) (plane_left f p) (plane_cell f q r c)"
  have "plane_cell f p ?r ?c = plane_cell f q r c" unfolding plane_cell_def [of f p] by (rule cell_of)
  then have "\<not> in_plane f p ?r ?c" using wf_cell_disjoint [OF wf(1) q(1,3) wf(2) _ q(2)] by metis
  then have "\<not> (lo \<le> ?r \<and> ?r < hi \<and> ?c < plane_crop_width f p + (plane_left f p + plane_width f p - plane_crop_width f p))"
    using rows col_of_ge [OF frame_wfD(8) [OF wf]] by (auto simp: in_plane_def)
  then show ?thesis using wf_cell_bounds [OF wf(1) q(1,3)] by (auto simp: extended_def ext_region_def sample_def Let_def)
qed

lemma extended_extended:
  assumes wf: "frame_wf f" "p < 3" and "lo \<le> mid" "mid \<le> hi"
  shows "extended (f\<lparr>yv_samples := extended f p lo mid\<rparr>) p mid hi = extended f p lo hi"
  unfolding extended_def [of _ p mid hi] extended_def [of _ p lo hi]
proof (simp, rule tab_cong)
  fix i assume "0 \<le> i" "i < int (length (yv_samples f))"
  let ?r = "row_of (frame_plane f p) (plane_stride f p) (plane_left f p) i"
  let ?c = "col_of (frame_plane f p) (plane_stride f p) (plane_left f p) i"
  note d = frame_wfD [OF wf]
  have i: "extended f p lo mid ! nat i = ext_region (\<lambda>i. yv_samples f ! nat i) (frame_plane f p) (plane_stride f p) (plane_crop_width f p)
      (plane_crop_height f p) (plane_left f p) (plane_left f p + plane_width f p - plane_crop_width f p) lo mid i"
    using \<open>0 \<le> i\<close> \<open>i < _\<close> by (simp add: extended_def)
  have "in_plane f p (clamp ?r 0 (plane_crop_height f p - 1)) (clamp ?c 0 (plane_crop_width f p - 1))"
    using d by (auto simp: in_plane_def clamp_def)
  from extended_same [OF wf this, of lo mid] d(4,6)
  have "extended f p lo mid ! nat (frame_plane f p + clamp ?r 0 (plane_crop_height f p - 1) * plane_stride f p + clamp ?c 0 (plane_crop_width f p - 1)) =
      yv_samples f ! nat (frame_plane f p + clamp ?r 0 (plane_crop_height f p - 1) * plane_stride f p + clamp ?c 0 (plane_crop_width f p - 1))"
    by (simp add: edge_sample_def sample_def plane_cell_def)
  then show "ext_region (\<lambda>i. extended f p lo mid ! nat i) (frame_plane f p) (plane_stride f p) (plane_crop_width f p) (plane_crop_height f p)
      (plane_left f p) (plane_left f p + plane_width f p - plane_crop_width f p) mid hi i =
    ext_region (\<lambda>i. yv_samples f ! nat i) (frame_plane f p) (plane_stride f p) (plane_crop_width f p) (plane_crop_height f p)
      (plane_left f p) (plane_left f p + plane_width f p - plane_crop_width f p) lo hi i"
    using assms(3,4) by (auto simp: ext_region_def Let_def i)
qed


lemma in_plane_clamped:
  assumes "frame_wf f" "p < 3"
  shows "in_plane f p (clamp r 0 (plane_crop_height f p - 1)) (clamp c 0 (plane_crop_width f p - 1))"
  using frame_wfD [OF assms] by (auto simp: in_plane_def clamp_def)

lemma extend_frame_planes_result:
  assumes "frame_wf f" "samples_ok f" "q + n \<le> 3"
  shows "\<exists>m. extend_frame_planes f (yv_border f) q n = Some (f\<lparr>yv_samples := m\<rparr>) \<and> length m = length (yv_samples f) \<and>
    samples_ok (f\<lparr>yv_samples := m\<rparr>) \<and>
    (\<forall>p r c. p < 3 \<and> in_plane f p r c \<longrightarrow>
      sample (f\<lparr>yv_samples := m\<rparr>) p r c = (if q \<le> p \<and> p < q + n then edge_sample f p r c else sample f p r c))"
  using assms
proof (induction n arbitrary: f q)
  case 0
  show ?case by (intro exI [of _ "yv_samples f"]) (use 0 in simp)
next
  case (Suc n)
  define m1 where "m1 = extended f q (- plane_top f q) (plane_height f q + plane_top f q)"
  let ?f1 = "f\<lparr>yv_samples := m1\<rparr>"
  have q: "q < 3" using Suc.prems(3) by simp
  note d = frame_wfD [OF Suc.prems(1) q]
  note ext = extend_plane_frame [OF Suc.prems(1) q Suc.prems(2), of 0 "plane_crop_height f q"]
  have e: "(if is_high f then extend_plane_high else extend_plane) (yv_samples f) (frame_plane f q) (plane_stride f q)
      (plane_crop_width f q) (plane_crop_height f q) (plane_top f q) (plane_left f q) (plane_top f q + plane_height f q - plane_crop_height f q)
      (plane_left f q + plane_width f q - plane_crop_width f q) 0 (plane_crop_height f q) = Some m1"
    and ok: "samples_ok ?f1"
    using ext d(6) by (simp_all add: m1_def add.commute)
  have s1: "sample ?f1 p r c = (if p = q then edge_sample f p r c else sample f p r c)" if "p < 3" "in_plane f p r c" for p r c
  proof (cases "p = q")
    case True
    have "- plane_top f q \<le> r" "r < plane_height f q + plane_top f q" using that(2) True by (simp_all add: in_plane_def)
    then show ?thesis using that(2) True extended_same [OF Suc.prems(1) q, of r c] by (simp add: sample_with m1_def)
  next
    case False
    then show ?thesis using extended_other [OF Suc.prems(1) q that(1) False that(2)] by (simp add: sample_with m1_def)
  qed
  have s2: "edge_sample ?f1 p r c = edge_sample f p r c" if "p < 3" "p \<noteq> q" for p r c
    using s1 [OF that(1) in_plane_clamped [OF Suc.prems(1) that(1)]] that(2) by (simp add: edge_sample_def)
  obtain m where m: "extend_frame_planes ?f1 (yv_border f) (Suc q) n = Some (f\<lparr>yv_samples := m\<rparr>)" "length m = length (yv_samples f)"
    "samples_ok (f\<lparr>yv_samples := m\<rparr>)" "\<And>p r c. p < 3 \<Longrightarrow> in_plane f p r c \<Longrightarrow>
      sample (f\<lparr>yv_samples := m\<rparr>) p r c = (if Suc q \<le> p \<and> p < Suc q + n then edge_sample ?f1 p r c else sample ?f1 p r c)"
    using Suc.IH [of ?f1 "Suc q"] Suc.prems ok by (auto simp: m1_def)
  have "extend_frame_planes f (yv_border f) q (Suc n) = Some (f\<lparr>yv_samples := m\<rparr>)"
    using e m(1) by (simp add: Let_def plane_top_def [symmetric] plane_left_def [symmetric])
  moreover have "sample (f\<lparr>yv_samples := m\<rparr>) p r c = (if q \<le> p \<and> p < q + Suc n then edge_sample f p r c else sample f p r c)"
    if "p < 3" "in_plane f p r c" for p r c
    using m(4) [OF that] s1 [OF that] s2 [OF that(1), of r c] by auto
  ultimately show ?case using m(2,3) by blast
qed

text \<open>C15. Extending the borders of a frame. On a laid-out frame \<open>aom_extend_frame_borders_c\<close> stays
  inside the block and makes every sample of the border, and of the alignment padding, the sample
  of the picture nearest to it; the picture itself, the planes beyond \<open>num_planes\<close> and the
  dimensions are as they were. 8-bit and 16-bit frames alike.\<close>

theorem frame_borders_extended:
  assumes "frame_wf f" "samples_ok f" "num_planes \<le> 3"
  shows "\<exists>m. aom_extend_frame_borders_c f num_planes = Some (f\<lparr>yv_samples := m\<rparr>) \<and> length m = length (yv_samples f) \<and>
    (\<forall>p r c. p < 3 \<and> in_plane f p r c \<longrightarrow>
      sample (f\<lparr>yv_samples := m\<rparr>) p r c =
        (if p < num_planes then sample f p (clamp r 0 (plane_crop_height f p - 1)) (clamp c 0 (plane_crop_width f p - 1)) else sample f p r c))"
  using extend_frame_planes_result [OF assms(1,2), of 0 num_planes] assms(3)
  unfolding aom_extend_frame_borders_c_def extend_frame_def edge_sample_def by auto

text \<open>A frame of 3 by 2 samples with one plane's worth of chroma, borders of one sample.\<close>

definition small_frame :: YV12_BUFFER_CONFIG where
  "small_frame = zero_frame\<lparr>y_width := 4, y_height := 2, y_crop_width := 3, y_crop_height := 2, y_stride := 6,
     uv_width := 2, uv_height := 2, uv_crop_width := 2, uv_crop_height := 2, uv_stride := 4,
     y_buffer := 1007, u_buffer := 1029, v_buffer := 1045, buffer_alloc := 1000, buffer_alloc_sz := 56, yv_border := 1,
     yv_samples := map int [0..<56]\<rparr>"

lemma small_frame_wf: "frame_wf small_frame" "samples_ok small_frame"
proof -
  have "share_start 24 16 p \<le> plane_cell small_frame p r c \<and> plane_cell small_frame p r c < share_end 24 16 p"
    if "p < 3" "in_plane small_frame p r c" for p r c
  proof -
    have "p = 0 \<or> p = 1 \<or> p = 2" using that(1) by auto
    then show ?thesis using that(2)
      by (elim disjE) (auto simp: in_plane_def plane_cell_def share_start_def share_end_def small_frame_def zero_frame_def plane_top_def plane_left_def
          plane_height_def plane_width_def plane_stride_def frame_plane_def frame_base_def is_high_def)
  qed
  moreover have "length (yv_samples small_frame) = 56" by (simp add: small_frame_def)
  ultimately show "frame_wf small_frame" unfolding frame_wf_def
    by (intro conjI exI [of _ 24] exI [of _ 16])
      (auto simp: small_frame_def zero_frame_def plane_top_def plane_left_def plane_height_def plane_width_def plane_stride_def
        plane_crop_width_def plane_crop_height_def)
  show "samples_ok small_frame" by (simp add: samples_ok_def is_high_def small_frame_def zero_frame_def)
qed

theorem frame_borders_extended_witness:
  "\<exists>m. aom_extend_frame_borders_c small_frame 3 = Some (small_frame\<lparr>yv_samples := m\<rparr>) \<and>
    sample (small_frame\<lparr>yv_samples := m\<rparr>) 0 2 4 = 15"
proof -
  obtain m where m: "aom_extend_frame_borders_c small_frame 3 = Some (small_frame\<lparr>yv_samples := m\<rparr>)"
    "\<forall>p r c. p < 3 \<and> in_plane small_frame p r c \<longrightarrow> sample (small_frame\<lparr>yv_samples := m\<rparr>) p r c =
      (if p < 3 then sample small_frame p (clamp r 0 (plane_crop_height small_frame p - 1)) (clamp c 0 (plane_crop_width small_frame p - 1))
       else sample small_frame p r c)"
    using frame_borders_extended [OF small_frame_wf, of 3] by auto
  have "in_plane small_frame 0 2 4" by (simp add: in_plane_def small_frame_def zero_frame_def plane_top_def plane_left_def plane_height_def plane_width_def)
  then have "sample (small_frame\<lparr>yv_samples := m\<rparr>) 0 2 4 =
      sample small_frame 0 (clamp 2 0 (plane_crop_height small_frame 0 - 1)) (clamp 4 0 (plane_crop_width small_frame 0 - 1))"
    using m(2) by simp
  also have "\<dots> = 15" by (simp add: sample_def plane_cell_def small_frame_def zero_frame_def plane_crop_height_def plane_crop_width_def
      clamp_def frame_plane_def frame_base_def is_high_def plane_stride_def upt_conv_Cons)
  finally show ?thesis using m(1) by blast
qed


text \<open>A plane extended in strips of rows, as the filters finish them.\<close>

fun extend_strips :: "YV12_BUFFER_CONFIG \<Rightarrow> nat \<Rightarrow> int \<Rightarrow> int list \<Rightarrow> YV12_BUFFER_CONFIG option" where
  "extend_strips f plane v_start [] = Some f"
| "extend_strips f plane v_start (v_end # rest) =
     do { f \<leftarrow> aom_extend_frame_borders_plane_row_c f plane v_start v_end; extend_strips f plane v_end rest }"

lemma plane_row_result:
  assumes "frame_wf f" "p < 3" "samples_ok f" "0 \<le> vs" "vs < ve" "ve \<le> plane_crop_height f p"
    and "lo = (if vs = 0 then - plane_top f p else vs)"
    and "hi = (if ve = plane_crop_height f p then plane_height f p + plane_top f p else ve)"
  shows "aom_extend_frame_borders_plane_row_c f p vs ve = Some (f\<lparr>yv_samples := extended f p lo hi\<rparr>)"
    "samples_ok (f\<lparr>yv_samples := extended f p lo hi\<rparr>)"
proof -
  note e = extend_plane_frame [OF assms(1-6) refl refl]
  have "vs - (if vs = 0 then plane_top f p else 0) = lo"
    "ve + (if ve = plane_crop_height f p then plane_top f p + plane_height f p - plane_crop_height f p else 0) = hi"
    using assms(7,8) by simp_all
  note e' = e [unfolded this]
  show "aom_extend_frame_borders_plane_row_c f p vs ve = Some (f\<lparr>yv_samples := extended f p lo hi\<rparr>)"
    unfolding aom_extend_frame_borders_plane_row_c_def Let_def plane_top_def [symmetric] plane_left_def [symmetric] e'(1) by simp
  show "samples_ok (f\<lparr>yv_samples := extended f p lo hi\<rparr>)" by (rule e'(2))
qed

lemma extend_strips_result:
  assumes "frame_wf f" "p < 3" "samples_ok f" "0 \<le> vs" "sorted_wrt (<) (vs # cuts)" "cuts \<noteq> []" "List.last cuts = plane_crop_height f p"
    and "lo = (if vs = 0 then - plane_top f p else vs)"
  shows "extend_strips f p vs cuts = Some (f\<lparr>yv_samples := extended f p lo (plane_height f p + plane_top f p)\<rparr>)"
  using assms
proof (induction cuts arbitrary: f vs lo)
  case Nil
  then show ?case by blast
next
  case (Cons v cuts)
  let ?h = "plane_crop_height f p"
  note d = frame_wfD [OF Cons.prems(1,2)]
  have v: "vs < v" "v \<le> ?h" using Cons.prems(5,7) by (cases cuts rule: rev_cases; force)+
  define hi where "hi = (if v = ?h then plane_height f p + plane_top f p else v)"
  note row = plane_row_result [OF Cons.prems(1-4) v Cons.prems(8) hi_def]
  let ?f1 = "f\<lparr>yv_samples := extended f p lo hi\<rparr>"
  show ?case
  proof (cases cuts)
    case Nil
    then show ?thesis using row(1) Cons.prems(7) by (simp add: hi_def)
  next
    case (Cons v' cuts')
    then have lt: "v < ?h" using Cons.prems(5,7) by (cases cuts rule: rev_cases) force+
    then have hi: "hi = v" by (simp add: hi_def)
    have "extend_strips ?f1 p v cuts = Some (?f1\<lparr>yv_samples := extended ?f1 p v (plane_height f p + plane_top f p)\<rparr>)"
      using Cons.IH [OF _ Cons.prems(2) row(2), of v v] Cons.prems v lt Cons by simp
    moreover have "extended ?f1 p v (plane_height f p + plane_top f p) = extended f p lo (plane_height f p + plane_top f p)"
      unfolding hi using Cons.prems(4,8) v d(3,7) by (intro extended_extended [OF Cons.prems(1,2)]) auto
    ultimately show ?thesis using row(1) by simp
  qed
qed

text \<open>C40. Extending a plane strip by strip is extending it at once. However the rows of a plane are cut
  into strips, calling \<open>aom_extend_frame_borders_plane_row_c\<close> on each strip from the top to the bottom
  gives the very frame one call on all rows gives.\<close>

theorem strips_extend_plane:
  assumes "frame_wf f" "p < 3" "samples_ok f" "sorted_wrt (<) (0 # cuts)" "cuts \<noteq> []" "List.last cuts = plane_crop_height f p"
  shows "extend_strips f p 0 cuts = aom_extend_frame_borders_plane_row_c f p 0 (plane_crop_height f p)"
    (is ?eq)
proof -
  note d = frame_wfD [OF assms(1,2)]
  have "0 < plane_crop_height f p" using d(6) by linarith
  from plane_row_result(1) [OF assms(1-3) _ this order_refl refl refl] extend_strips_result [OF assms(1-3) _ assms(4-6) refl]
  show ?eq by simp
qed

theorem strips_extend_plane_witness:
  "extend_strips small_frame 0 0 [1, 2] = aom_extend_frame_borders_plane_row_c small_frame 0 0 2"
  using strips_extend_plane [OF small_frame_wf(1) _ small_frame_wf(2), of 0 "[1, 2]"]
  by (simp add: plane_crop_height_def small_frame_def)

section \<open>Copying\<close>

text \<open>\<open>w\<close> columns from column \<open>c0\<close> of the rows \<open>lo\<close> to \<open>hi\<close>, taken from rows \<open>sp\<close> apart that start at \<open>s\<close>.\<close>

definition put_rows :: "(int \<Rightarrow> int) \<Rightarrow> int \<Rightarrow> int \<Rightarrow> (int \<Rightarrow> int) \<Rightarrow> int \<Rightarrow> int \<Rightarrow> int \<Rightarrow> int \<Rightarrow> int \<Rightarrow> int \<Rightarrow> int \<Rightarrow> int \<Rightarrow> int \<Rightarrow> int" where
  "put_rows G s sp F d dp left c0 w lo0 lo hi i =
     (let r = row_of d dp left i; c = col_of d dp left i in
      if lo \<le> r \<and> r < hi \<and> c0 \<le> c \<and> c < c0 + w then G (s + (r - lo0) * sp + (c - c0)) else F i)"

lemma copy_rows_tab:
  assumes "0 \<le> w" "0 \<le> left" "- left \<le> c0" "c0 + w \<le> dp - left" "0 < dp"
    and "\<And>r. lo \<le> r \<Longrightarrow> r < lo + int k \<Longrightarrow> 0 \<le> s + (r - lo0) * sp \<and> s + (r - lo0) * sp + w \<le> int n'"
    and "\<And>r. lo \<le> r \<Longrightarrow> r < lo + int k \<Longrightarrow> 0 \<le> d + r * dp + c0 \<and> d + r * dp + c0 + w \<le> int n"
  shows "copy_rows (tab n' G) (s + (lo - lo0) * sp) sp (tab n F) (d + lo * dp + c0) dp w k =
    Some (tab n (put_rows G s sp F d dp left c0 w lo0 lo (lo + int k)))"
  using assms(6,7)
proof (induction k arbitrary: F lo)
  case 0
  show ?case by (auto simp: put_rows_def Let_def intro!: tab_cong)
next
  case (Suc k)
  let ?F1 = "\<lambda>i. if d + lo * dp + c0 \<le> i \<and> i < d + lo * dp + c0 + w then G (s + (lo - lo0) * sp + (i - (d + lo * dp + c0))) else F i"
  have "?F1 i = put_rows G s sp F d dp left c0 w lo0 lo (lo + 1) i" for i
  proof -
    have "d + lo * dp + c0 \<le> i \<and> i < d + lo * dp + c0 + w \<longleftrightarrow>
        row_of d dp left i = lo \<and> c0 \<le> col_of d dp left i \<and> col_of d dp left i < c0 + w"
      using cell_range [of dp left c0 "c0 + w" d lo i] assms(1-5) by (simp add: add.assoc)
    moreover have "i - (d + lo * dp + c0) = col_of d dp left i - c0" if "row_of d dp left i = lo"
      using cell_of [of d dp left i] that by simp
    ultimately show ?thesis by (cases "row_of d dp left i = lo") (simp_all only: put_rows_def Let_def, auto)
  qed
  then have F1: "?F1 = put_rows G s sp F d dp left c0 w lo0 lo (lo + 1)" by (rule ext)
  have comp: "put_rows G s sp (put_rows G s sp F d dp left c0 w lo0 lo (lo + 1)) d dp left c0 w lo0 (lo + 1) (lo + 1 + int k) =
      put_rows G s sp F d dp left c0 w lo0 lo (lo + int (Suc k))"
    by (auto simp: put_rows_def Let_def fun_eq_iff)
  have "copy_rows (tab n' G) (s + (lo + 1 - lo0) * sp) sp (tab n ?F1) (d + (lo + 1) * dp + c0) dp w k =
      Some (tab n (put_rows G s sp F d dp left c0 w lo0 lo (lo + int (Suc k))))"
    unfolding F1 comp [symmetric] using Suc.prems by (intro Suc.IH) simp_all
  moreover have "mem_copy_from (tab n F) (d + lo * dp + c0) (tab n' G) (s + (lo - lo0) * sp) w = Some (tab n ?F1)"
    using Suc.prems [of lo] assms(1) by (intro mem_copy_from_tab) simp_all
  moreover have "s + (lo - lo0) * sp + sp = s + (lo + 1 - lo0) * sp" "d + lo * dp + c0 + dp = d + (lo + 1) * dp + c0" by (simp_all add: algebra_simps)
  ultimately show ?case by (simp only: copy_rows.simps Option.bind.simps)
qed


text \<open>A rectangle of \<open>w\<close> columns and \<open>k\<close> rows inside a plane and its border.\<close>

definition rect_in :: "YV12_BUFFER_CONFIG \<Rightarrow> nat \<Rightarrow> int \<Rightarrow> int \<Rightarrow> int \<Rightarrow> nat \<Rightarrow> bool" where
  "rect_in f p r c w k \<longleftrightarrow> - plane_top f p \<le> r \<and> r + int k \<le> plane_height f p + plane_top f p \<and>
     - plane_left f p \<le> c \<and> c + w \<le> plane_width f p + plane_left f p"

text \<open>The samples of \<open>dst\<close> once the rectangle at \<open>(sr, sc)\<close> of \<open>src\<close> is put at \<open>(dr, dc)\<close>.\<close>

definition placed :: "YV12_BUFFER_CONFIG \<Rightarrow> int \<Rightarrow> int \<Rightarrow> YV12_BUFFER_CONFIG \<Rightarrow> nat \<Rightarrow> int \<Rightarrow> int \<Rightarrow> int \<Rightarrow> nat \<Rightarrow> int list" where
  "placed src sr sc dst p dr dc w k = tab (length (yv_samples dst))
     (put_rows (\<lambda>i. yv_samples src ! nat i) (plane_cell src p sr sc) (plane_stride src p) (\<lambda>i. yv_samples dst ! nat i)
        (frame_plane dst p) (plane_stride dst p) (plane_left dst p) dc w dr dr (dr + int k))"

lemma length_placed [simp]: "length (placed src sr sc dst p dr dc w k) = length (yv_samples dst)" by (simp add: placed_def)

lemma rect_row_bounds:
  assumes "frame_wf f" "p < 3" "rect_in f p r c w k" "0 < w" "r \<le> x" "x < r + int k"
  shows "0 \<le> plane_cell f p x c \<and> plane_cell f p x c + w \<le> int (length (yv_samples f))"
proof -
  have "in_plane f p x c" "in_plane f p x (c + w - 1)" using assms(3-6) by (simp_all add: rect_in_def in_plane_def)
  from wf_cell_bounds [OF assms(1,2) this(1)] wf_cell_bounds [OF assms(1,2) this(2)] show ?thesis by (simp add: plane_cell_def)
qed

lemma copy_rows_frame:
  assumes src: "frame_wf src" "p < 3" "rect_in src p sr sc w k" and dst: "frame_wf dst" "rect_in dst p dr dc w k" and w: "0 < w"
  shows "copy_rows (yv_samples src) (plane_cell src p sr sc) (plane_stride src p) (yv_samples dst) (plane_cell dst p dr dc) (plane_stride dst p) w k =
    Some (placed src sr sc dst p dr dc w k)"
proof -
  note d = frame_wfD [OF dst(1) src(2)]
  have "copy_rows (tab (length (yv_samples src)) (\<lambda>i. yv_samples src ! nat i)) (plane_cell src p sr sc + (dr - dr) * plane_stride src p)
      (plane_stride src p) (tab (length (yv_samples dst)) (\<lambda>i. yv_samples dst ! nat i)) (frame_plane dst p + dr * plane_stride dst p + dc)
      (plane_stride dst p) w k = Some (placed src sr sc dst p dr dc w k)"
    unfolding placed_def
  proof (rule copy_rows_tab)
    fix r assume r: "dr \<le> r" "r < dr + int k"
    have "0 \<le> plane_cell src p (r - dr + sr) sc \<and> plane_cell src p (r - dr + sr) sc + w \<le> int (length (yv_samples src))"
      using r by (intro rect_row_bounds [OF src w]) simp_all
    then show "0 \<le> plane_cell src p sr sc + (r - dr) * plane_stride src p \<and>
        plane_cell src p sr sc + (r - dr) * plane_stride src p + w \<le> int (length (yv_samples src))"
      by (simp add: plane_cell_def algebra_simps)
    show "0 \<le> frame_plane dst p + r * plane_stride dst p + dc \<and> frame_plane dst p + r * plane_stride dst p + dc + w \<le> int (length (yv_samples dst))"
      using rect_row_bounds [OF dst(1) src(2) dst(2) w r] by (simp add: plane_cell_def)
  qed (use d dst(2) w in \<open>auto simp: rect_in_def\<close>)
  then show ?thesis by (simp add: tab_self plane_cell_def [of dst])
qed

lemma placed_same:
  assumes wf: "frame_wf dst" "p < 3" and rc: "in_plane dst p r c"
  shows "placed src sr sc dst p dr dc w k ! nat (plane_cell dst p r c) =
    (if dr \<le> r \<and> r < dr + int k \<and> dc \<le> c \<and> c < dc + w then sample src p (sr + (r - dr)) (sc + (c - dc)) else sample dst p r c)"
proof -
  have "- plane_left dst p \<le> c" "c < plane_stride dst p - plane_left dst p" using rc frame_wfD(1) [OF wf] by (simp_all add: in_plane_def)
  note cell = row_col_cell [OF this, of "frame_plane dst p" r]
  have "plane_cell src p sr sc + (r - dr) * plane_stride src p + (c - dc) = plane_cell src p (sr + (r - dr)) (sc + (c - dc))"
    by (simp add: plane_cell_def algebra_simps)
  then show ?thesis using wf_cell_bounds [OF wf rc]
    by (simp add: placed_def put_rows_def Let_def sample_def) (auto simp: plane_cell_def [of dst] cell)
qed

lemma placed_other:
  assumes wf: "frame_wf dst" "p < 3" and q: "q < 3" "q \<noteq> p" "in_plane dst q r c" and rect: "rect_in dst p dr dc w k"
  shows "placed src sr sc dst p dr dc w k ! nat (plane_cell dst q r c) = sample dst q r c"
proof -
  let ?r = "row_of (frame_plane dst p) (plane_stride dst p) (plane_left dst p) (plane_cell dst q r c)"
  let ?c = "col_of (frame_plane dst p) (plane_stride dst p) (plane_left dst p) (plane_cell dst q r c)"
  have "plane_cell dst p ?r ?c = plane_cell dst q r c" unfolding plane_cell_def [of dst p] by (rule cell_of)
  then have "\<not> in_plane dst p ?r ?c" using wf_cell_disjoint [OF wf(1) q(1,3) wf(2) _ q(2)] by metis
  then have "\<not> (dr \<le> ?r \<and> ?r < dr + int k \<and> dc \<le> ?c \<and> ?c < dc + w)" using rect by (auto simp: in_plane_def rect_in_def)
  then show ?thesis using wf_cell_bounds [OF wf(1) q(1,3)] by (auto simp: placed_def put_rows_def sample_def Let_def)
qed

text \<open>Frames of the same picture size, whose strides, borders and places may differ.\<close>

definition same_size :: "YV12_BUFFER_CONFIG \<Rightarrow> YV12_BUFFER_CONFIG \<Rightarrow> bool" where
  "same_size f g \<longleftrightarrow> plane_width f = plane_width g \<and> plane_height f = plane_height g \<and>
     plane_crop_width f = plane_crop_width g \<and> plane_crop_height f = plane_crop_height g \<and> is_high f = is_high g"

lemma placed_u16:
  assumes "frame_wf src" "frame_wf dst" "p < 3" "rect_in src p sr sc w k" "rect_in dst p dr dc w k" "0 < w"
    and u: "samples_u16 (yv_samples src)" "samples_u16 (yv_samples dst)"
  shows "samples_u16 (placed src sr sc dst p dr dc w k)"
proof -
  have "copy_rows other s sp m d dp w k = Some m' \<Longrightarrow> samples_u16 other \<Longrightarrow> samples_u16 m \<Longrightarrow> samples_u16 m'" for other s sp m d dp m'
  proof (induction k arbitrary: s m d)
    case (Suc k)
    then obtain xs m1 where "mem_read other s w = Some xs" "mem_write m d xs = Some m1"
      and rest: "copy_rows other (s + sp) sp m1 (d + dp) dp w k = Some m'"
      by (auto simp: mem_copy_from_def split: bind_splits)
    moreover from this have "samples_u16 xs" using Suc.prems(2)
      by (auto simp: samples_u16_def mem_read_def split: if_splits dest!: in_set_takeD in_set_dropD)
    ultimately have "samples_u16 m1" using mem_write_u16 Suc.prems(3) by blast
    then show ?case using Suc.IH [OF rest Suc.prems(2)] by blast
  qed simp
  from this [OF copy_rows_frame [OF assms(1,3,4,2,5,6)] u] show ?thesis .
qed

lemma copy_frame_planes_result:
  assumes "frame_wf src" "frame_wf dst" "same_size src dst" "samples_ok src" "samples_ok dst" "q + n \<le> 3"
  shows "\<exists>m. copy_frame_planes src dst q n = Some (dst\<lparr>yv_samples := m\<rparr>) \<and> length m = length (yv_samples dst) \<and>
    samples_ok (dst\<lparr>yv_samples := m\<rparr>) \<and>
    (\<forall>p r c. p < 3 \<and> in_plane dst p r c \<longrightarrow> sample (dst\<lparr>yv_samples := m\<rparr>) p r c =
      (if q \<le> p \<and> p < q + n \<and> 0 \<le> r \<and> r < plane_height dst p \<and> 0 \<le> c \<and> c < plane_width dst p then sample src p r c else sample dst p r c))"
  using assms(2,3,5,6)
proof (induction n arbitrary: dst q)
  case 0
  show ?case by (intro exI [of _ "yv_samples dst"]) (use 0 in simp)
next
  case (Suc n)
  let ?w = "plane_width dst q" and ?k = "nat (plane_height dst q)"
  define m1 where "m1 = placed src 0 0 dst q 0 0 ?w ?k"
  let ?d1 = "dst\<lparr>yv_samples := m1\<rparr>"
  have q: "q < 3" using Suc.prems(4) by simp
  note d = frame_wfD [OF Suc.prems(1) q] and d' = frame_wfD [OF assms(1) q]
  have same: "plane_width src q = ?w" "plane_height src q = plane_height dst q" "is_high src = is_high dst"
    using Suc.prems(2) by (simp_all add: same_size_def)
  have rects: "rect_in src q 0 0 ?w ?k" "rect_in dst q 0 0 ?w ?k" "0 < ?w" using d d' same by (simp_all add: rect_in_def)
  have e: "copy_rows (yv_samples src) (frame_plane src q) (plane_stride src q) (yv_samples dst) (frame_plane dst q) (plane_stride dst q)
      (plane_width src q) (nat (plane_height src q)) = Some m1"
    using copy_rows_frame [OF assms(1) q rects(1) Suc.prems(1) rects(2,3)] by (simp add: plane_cell_def m1_def same)
  have ok: "samples_ok ?d1"
    using placed_u16 [OF assms(1) Suc.prems(1) q rects] Suc.prems(3) assms(4) same(3) by (simp add: samples_ok_def m1_def)
  have s1: "sample ?d1 p r c = (if p = q \<and> 0 \<le> r \<and> r < plane_height dst p \<and> 0 \<le> c \<and> c < plane_width dst p then sample src p r c else sample dst p r c)"
    if "p < 3" "in_plane dst p r c" for p r c
  proof (cases "p = q")
    case True
    then show ?thesis using that(2) placed_same [OF Suc.prems(1) q, of r c src 0 0 0 0 ?w ?k] by (simp add: sample_with m1_def)
  next
    case False
    then show ?thesis using placed_other [OF Suc.prems(1) q that(1) False that(2) rects(2)] by (simp add: sample_with m1_def)
  qed
  have "same_size src ?d1" using Suc.prems(2) by (simp add: same_size_def)
  then obtain m where m: "copy_frame_planes src ?d1 (Suc q) n = Some (dst\<lparr>yv_samples := m\<rparr>)" "length m = length (yv_samples dst)"
    "samples_ok (dst\<lparr>yv_samples := m\<rparr>)" "\<And>p r c. p < 3 \<Longrightarrow> in_plane dst p r c \<Longrightarrow> sample (dst\<lparr>yv_samples := m\<rparr>) p r c =
      (if Suc q \<le> p \<and> p < Suc q + n \<and> 0 \<le> r \<and> r < plane_height dst p \<and> 0 \<le> c \<and> c < plane_width dst p then sample src p r c else sample ?d1 p r c)"
    using Suc.IH [of ?d1 "Suc q"] Suc.prems(1,4) ok by (auto simp: m1_def)
  have "copy_frame_planes src dst q (Suc n) = Some (dst\<lparr>yv_samples := m\<rparr>)" using e m(1) by simp
  moreover have "sample (dst\<lparr>yv_samples := m\<rparr>) p r c =
      (if q \<le> p \<and> p < q + Suc n \<and> 0 \<le> r \<and> r < plane_height dst p \<and> 0 \<le> c \<and> c < plane_width dst p then sample src p r c else sample dst p r c)"
    if "p < 3" "in_plane dst p r c" for p r c
    using m(4) [OF that] s1 [OF that] by auto
  ultimately show ?case using m(2,3) by blast
qed

lemma copy_frame_result:
  assumes "frame_wf src" "frame_wf dst" "same_size src dst" "samples_ok src" "samples_ok dst" "num_planes \<le> 3"
  shows "\<exists>m. aom_yv12_copy_frame_c src dst num_planes = Some (dst\<lparr>yv_samples := m\<rparr>) \<and> length m = length (yv_samples dst) \<and>
    samples_ok (dst\<lparr>yv_samples := m\<rparr>) \<and>
    (\<forall>p r c. p < 3 \<and> in_plane dst p r c \<longrightarrow>
      sample (dst\<lparr>yv_samples := m\<rparr>) p r c = (if p < num_planes then edge_sample src p r c else sample dst p r c))"
proof -
  obtain m1 where m1: "copy_frame_planes src dst 0 num_planes = Some (dst\<lparr>yv_samples := m1\<rparr>)" "length m1 = length (yv_samples dst)"
    "samples_ok (dst\<lparr>yv_samples := m1\<rparr>)" "\<And>p r c. p < 3 \<Longrightarrow> in_plane dst p r c \<Longrightarrow> sample (dst\<lparr>yv_samples := m1\<rparr>) p r c =
      (if p < num_planes \<and> 0 \<le> r \<and> r < plane_height dst p \<and> 0 \<le> c \<and> c < plane_width dst p then sample src p r c else sample dst p r c)"
    using copy_frame_planes_result [OF assms(1-5), of 0 num_planes] assms(6) by auto
  let ?d1 = "dst\<lparr>yv_samples := m1\<rparr>"
  have wf1: "frame_wf ?d1" using assms(2) m1(2) by simp
  obtain m where m: "extend_frame_planes ?d1 (yv_border dst) 0 num_planes = Some (dst\<lparr>yv_samples := m\<rparr>)" "length m = length (yv_samples dst)"
    "samples_ok (dst\<lparr>yv_samples := m\<rparr>)" "\<And>p r c. p < 3 \<Longrightarrow> in_plane dst p r c \<Longrightarrow>
      sample (dst\<lparr>yv_samples := m\<rparr>) p r c = (if p < num_planes then edge_sample ?d1 p r c else sample ?d1 p r c)"
    using extend_frame_planes_result [OF wf1 m1(3), of 0 num_planes] assms(6) m1(2) by auto
  have "edge_sample ?d1 p r c = edge_sample src p r c" if "p < num_planes" for p r c
  proof -
    have p: "p < 3" using that assms(6) by simp
    note d = frame_wfD [OF assms(2) p]
    let ?r = "clamp r 0 (plane_crop_height dst p - 1)" and ?c = "clamp c 0 (plane_crop_width dst p - 1)"
    have "0 \<le> ?r" "?r < plane_height dst p" "0 \<le> ?c" "?c < plane_width dst p" using d by (auto simp: clamp_def)
    then have "sample ?d1 p ?r ?c = sample src p ?r ?c"
      using m1(4) [OF p in_plane_clamped [OF assms(2) p]] that by simp
    then show ?thesis using assms(3) by (simp add: edge_sample_def same_size_def)
  qed
  then have "sample (dst\<lparr>yv_samples := m\<rparr>) p r c = (if p < num_planes then edge_sample src p r c else sample dst p r c)"
    if "p < 3" "in_plane dst p r c" for p r c
    using m(4) [OF that] m1(4) [OF that] by simp
  moreover have "aom_yv12_copy_frame_c src dst num_planes = Some (dst\<lparr>yv_samples := m\<rparr>)"
    using m1(1) m(1) by (simp add: aom_yv12_copy_frame_c_def aom_extend_frame_borders_c_def extend_frame_def)
  ultimately show ?thesis using m(2,3) by blast
qed


lemma same_size_dims:
  assumes "frame_dims f" "frame_dims g" "y_crop_width g = y_crop_width f" "y_crop_height g = y_crop_height f"
    "yv_subsampling_x g = yv_subsampling_x f" "yv_subsampling_y g = yv_subsampling_y f" "is_high g = is_high f"
  shows "same_size f g"
  using assms unfolding same_size_def frame_dims_def plane_width_def plane_height_def plane_crop_width_def plane_crop_height_def
  by (simp add: fun_eq_iff)

lemma high_flag: "(yv_flags f AND YV12_FLAG_HIGHBITDEPTH \<noteq> 0) = is_high f" "0 \<le> yv_flags f AND YV12_FLAG_HIGHBITDEPTH"
    "yv_flags f AND YV12_FLAG_HIGHBITDEPTH \<le> 8"
  by (simp_all add: is_high_def YV12_FLAG_HIGHBITDEPTH_def AND_upper2)

lemma alloc_fresh:
  "aom_alloc_frame_buffer pick h (Some zero_frame) w ht ss_x ss_y high border align False =
    aom_realloc_frame_buffer pick h (Some zero_frame) w ht ss_x ss_y high border align None False"
proof -
  have "aom_free_frame_buffer h (Some zero_frame) = Some (AOM_CODEC_OK, h, Some zero_frame)"
    by (simp add: aom_free_frame_buffer_def) (simp add: zero_frame_def)
  then show ?thesis by (simp add: aom_alloc_frame_buffer_def)
qed

lemma zero_frame_mem: "frame_mem_ok zero_frame" "frame_cb_ok None"
  by (simp_all add: frame_mem_ok_def frame_cb_ok_def bytes_of_def) (simp_all add: zero_frame_def is_high_def)

lemma align_even: "align = 0 \<or> align = 2 ^ k \<and> 1 \<le> k \<and> k \<le> 10 \<Longrightarrow> 0 \<le> align \<and> align \<le> 1024 \<and> even (align :: int)"
proof -
  have "(2::int) ^ k \<le> 2 ^ 10" if "k \<le> 10" using that by (intro power_increasing) simp_all
  then show "align = 0 \<or> align = 2 ^ k \<and> 1 \<le> k \<and> k \<le> 10 \<Longrightarrow> 0 \<le> align \<and> align \<le> 1024 \<and> even align" by auto
qed

text \<open>C23. A frame moved to another border keeps its picture. When the new block is granted and the old
  one can be freed, \<open>aom_yv12_realloc_with_new_border_c\<close> returns 0 and leaves a laid-out frame with the
  new border whose every sample, border and padding included, is the sample of the old picture
  at the nearest row and column.\<close>

theorem new_border_keeps_picture:
  assumes "frame_wf f" "samples_ok f" "frame_dims f" "num_planes \<le> 3" "new_border \<noteq> yv_border f"
    and alloc: "aom_alloc_frame_buffer pick h (Some zero_frame) (y_crop_width f) (y_crop_height f) (yv_subsampling_x f)
      (yv_subsampling_y f) (yv_flags f AND YV12_FLAG_HIGHBITDEPTH) new_border align False = Some (AOM_CODEC_OK, h1, Some g)"
    and free: "aom_free_frame_buffer h1 (Some f) = Some (e2, h2, z)"
    and dims: "1 \<le> y_crop_width f" "y_crop_width f \<le> 65536" "1 \<le> y_crop_height f" "y_crop_height f \<le> 65536"
      "yv_subsampling_x f = 0 \<or> yv_subsampling_x f = 1" "yv_subsampling_y f = 0 \<or> yv_subsampling_y f = 1"
      "0 \<le> new_border" "new_border \<le> 1024" "align = 0 \<or> align = 2 ^ k \<and> 1 \<le> k \<and> k \<le> 10"
  shows "\<exists>f'. aom_yv12_realloc_with_new_border_c pick h (Some f) new_border align num_planes = Some (0, h2, Some f') \<and>
    frame_wf f' \<and> yv_border f' = new_border \<and>
    (\<forall>p r c. p < num_planes \<and> in_plane f' p r c \<longrightarrow>
      sample f' p r c = sample f p (clamp r 0 (plane_crop_height f p - 1)) (clamp c 0 (plane_crop_width f p - 1)))"
proof -
  note a = alloc [unfolded alloc_fresh]
  have high: "0 \<le> yv_flags f AND YV12_FLAG_HIGHBITDEPTH" "yv_flags f AND YV12_FLAG_HIGHBITDEPTH \<le> 15"
    using high_flag(2,3) [of f] by linarith+
  note al = align_even [OF dims(9)]
  note g = realloc_frame_dims [OF a zero_frame_mem dims(1-8) high conjunct1 [OF al] conjunct1 [OF conjunct2 [OF al]] conjunct2 [OF conjunct2 [OF al]]]
  have wf: "frame_wf g" by (rule realloc_frame_wf [OF a zero_frame_mem dims(1-8) high dims(9)])
  have size: "same_size f g" using same_size_dims [OF assms(3) g(1-3,5,6)] g(7) high_flag(1) by blast
  have "samples_ok g" using fresh_frame_zero [OF a] by (auto simp: samples_ok_def samples_u16_def)
  from copy_frame_result [OF assms(1) wf size assms(2) this assms(4)] obtain m where
    m: "aom_yv12_copy_frame_c f g num_planes = Some (g\<lparr>yv_samples := m\<rparr>)" "length m = length (yv_samples g)"
    "\<And>p r c. p < 3 \<Longrightarrow> in_plane g p r c \<Longrightarrow> sample (g\<lparr>yv_samples := m\<rparr>) p r c = (if p < num_planes then edge_sample f p r c else sample g p r c)"
    by blast
  have "aom_yv12_realloc_with_new_border_c pick h (Some f) new_border align num_planes = Some (0, h2, Some (g\<lparr>yv_samples := m\<rparr>))"
    using assms(5) alloc free m(1) by (simp add: aom_yv12_realloc_with_new_border_c_def)
  moreover have "sample (g\<lparr>yv_samples := m\<rparr>) p r c = sample f p (clamp r 0 (plane_crop_height f p - 1)) (clamp c 0 (plane_crop_width f p - 1))"
    if "p < num_planes" "in_plane g p r c" for p r c
    using m(3) [of p r c] that assms(4) by (simp add: edge_sample_def)
  ultimately show ?thesis using wf m(2) g(4) by (intro exI [of _ "g\<lparr>yv_samples := m\<rparr>"]) simp
qed

text \<open>The size the copy asks for: the flag of the old frame, 8, is handed on where 1 is meant, so a
  16-bit frame asks for nine bytes a sample instead of two.\<close>

theorem new_border_oversized:
  assumes "aom_realloc_frame_buffer pick h (Some zero_frame) w ht ss_x ss_y YV12_FLAG_HIGHBITDEPTH border align None False = Some (AOM_CODEC_OK, h1, Some f)"
    and "aom_realloc_frame_buffer pick' h' (Some zero_frame) w ht ss_x ss_y 1 border align None False = Some (AOM_CODEC_OK, h1', Some g)"
    and dims: "1 \<le> w" "w \<le> 65536" "1 \<le> ht" "ht \<le> 65536" "ss_x = 0 \<or> ss_x = 1" "ss_y = 0 \<or> ss_y = 1" "0 \<le> border" "border \<le> 1024"
      "0 \<le> align" "align \<le> 1024" "even align"
  shows "2 * frame_size f = 9 * frame_size g \<and> is_high f = is_high g"
  using realloc_frame_dims(7,8) [OF assms(1) zero_frame_mem dims(1-8) _ _ dims(9-11)]
    realloc_frame_dims(7,8) [OF assms(2) zero_frame_mem dims(1-8) _ _ dims(9-11)]
  by (simp add: YV12_FLAG_HIGHBITDEPTH_def)


lemmas alloc_eval = aom_realloc_frame_buffer_def calc_stride_and_planesize_def aom_calc_y_stride_def realloc_frame_buffer_aligned_def
  frame_memory_def aom_free_def aom_memalign_def check_size_argument_overflow_def GetAllocationPaddingSize_def ADDRESS_STORAGE_SIZE_def
  AOM_MAX_ALLOCABLE_MEMORY_def c_malloc_def fresh_block_def aom_align_addr_def u64_def shr_def

text \<open>A frame of 17 by 9 samples with a border of 32, allocated on a small heap.\<close>

definition old_heap :: heap where
  "old_heap = SetActualMallocAddress \<lparr>mem = \<lambda>_. 7, live = [(5008, 11655), (4096, 64)]\<rparr> 5024 5008"

definition old_frame :: YV12_BUFFER_CONFIG where
  "old_frame = zero_frame\<lparr>y_width := 24, uv_width := 12, y_height := 16, uv_height := 8, y_crop_width := 17, uv_crop_width := 9,
     y_crop_height := 9, uv_crop_height := 5, y_stride := 96, uv_stride := 48, y_buffer := 8128, u_buffer := 13536, v_buffer := 15488,
     buffer_alloc := 5024, buffer_alloc_sz := 11616, yv_border := 32, frame_size := 11616, yv_subsampling_x := 1, yv_subsampling_y := 1,
     yv_samples := samples_of False (replicate 11616 0)\<rparr>"

lemma old_frame_alloc:
  "aom_realloc_frame_buffer 5008 sample_heap (Some zero_frame) 17 9 1 1 0 32 32 None False = Some (AOM_CODEC_OK, old_heap, Some old_frame)"
  by (simp add: alloc_eval zero_frame_def sample_heap_def old_heap_def old_frame_def Let_def)

theorem new_border_keeps_picture_witness:
  "\<exists>h2 f'. aom_yv12_realloc_with_new_border_c 65536 old_heap (Some old_frame) 64 32 3 = Some (0, h2, Some f') \<and> frame_wf f' \<and> yv_border f' = 64 \<and>
    (\<forall>p r c. p < 3 \<and> in_plane f' p r c \<longrightarrow>
      sample f' p r c = sample old_frame p (clamp r 0 (plane_crop_height old_frame p - 1)) (clamp c 0 (plane_crop_width old_frame p - 1)))"
proof -
  have num: "y_crop_width old_frame = 17" "y_crop_height old_frame = 9" "yv_subsampling_x old_frame = 1" "yv_subsampling_y old_frame = 1"
    "yv_border old_frame = 32" "yv_flags old_frame = 0" "buffer_alloc old_frame = 5024" "buffer_alloc_sz old_frame = 11616"
    by (simp_all add: old_frame_def zero_frame_def)
  have wf: "frame_wf old_frame" by (rule realloc_frame_wf [OF old_frame_alloc zero_frame_mem, where k = 5]) simp_all
  have ok: "samples_ok old_frame" using fresh_frame_zero [OF old_frame_alloc] by (auto simp: samples_ok_def samples_u16_def)
  have dims: "frame_dims old_frame" by (rule realloc_frame_dims(1) [OF old_frame_alloc zero_frame_mem]) simp_all
  obtain h1 g where a: "aom_alloc_frame_buffer 65536 old_heap (Some zero_frame) 17 9 1 1 0 64 32 False = Some (AOM_CODEC_OK, h1, Some g)"
    and h1: "h1 = SetActualMallocAddress (old_heap\<lparr>live := (65536, 34695) # live old_heap\<rparr>) 65568 65536"
    unfolding alloc_fresh by (simp add: alloc_eval zero_frame_def old_heap_def SetActualMallocAddress_def Let_def)
  have "GetActualMallocAddress h1 5024 = 5008"
    by (simp add: h1 old_heap_def SetActualMallocAddress_def GetActualMallocAddress_def GetMallocAddressLocation_def store64_def load64_def shr_def upt_8)
  then obtain h2 where f: "aom_free_frame_buffer h1 (Some old_frame) = Some (AOM_CODEC_OK, h2, Some zero_frame)"
    by (simp add: aom_free_frame_buffer_def aom_free_def num c_free_def) (simp add: h1 old_heap_def SetActualMallocAddress_def)
  show ?thesis
    using new_border_keeps_picture [OF wf ok dims, of 3 64 65536 old_heap 32 h1 g AOM_CODEC_OK h2 "Some zero_frame" 5, unfolded num] a f by auto
qed

end
