(* ===== verification/Frame_Source.thy ===== *)
theory Frame_Source
  imports Frame_Extend_Props
begin

text \<open>
  \<open>av1/encoder/extend.c\<close>: a source picture copied into a frame of the encoder, its border filled on
  the way. The source may have its own strides, and an NV12 source has its U and V samples in
  turn; the frame gets the picture continued past its edges.
\<close>


section \<open>One plane\<close>

text \<open>Rows \<open>lo\<close> to \<open>hi\<close> of the picture, with the columns beside them, read from rows \<open>sp\<close> apart whose samples
  are \<open>step\<close> apart; and the rows above and below as well.\<close>

definition put_cols :: "(int \<Rightarrow> int) \<Rightarrow> int \<Rightarrow> int \<Rightarrow> int \<Rightarrow> (int \<Rightarrow> int) \<Rightarrow> int \<Rightarrow> int \<Rightarrow> int \<Rightarrow> int \<Rightarrow> int \<Rightarrow> int \<Rightarrow> int \<Rightarrow> int \<Rightarrow> int" where
  "put_cols G s sp step F d dp w left right lo hi i =
     (let r = row_of d dp left i; c = col_of d dp left i in
      if lo \<le> r \<and> r < hi \<and> c < w + right then G (s + r * sp + clamp c 0 (w - 1) * step) else F i)"

definition put_ext :: "(int \<Rightarrow> int) \<Rightarrow> int \<Rightarrow> int \<Rightarrow> int \<Rightarrow> (int \<Rightarrow> int) \<Rightarrow> int \<Rightarrow> int \<Rightarrow> int \<Rightarrow> int \<Rightarrow> int \<Rightarrow> int \<Rightarrow> int \<Rightarrow> int \<Rightarrow> int \<Rightarrow> int" where
  "put_ext G s sp step F d dp w ht left right lo hi i =
     (let r = row_of d dp left i; c = col_of d dp left i in
      if lo \<le> r \<and> r < hi \<and> c < w + right then G (s + clamp r 0 (ht - 1) * sp + clamp c 0 (w - 1) * step) else F i)"

lemma gather_tab:
  assumes "1 \<le> step" "0 \<le> b" "k = 0 \<or> b + (int k - 1) * step < int n"
  shows "gather (tab n G) b step k = Some (tab k (\<lambda>j. G (b + j * step)))"
  using assms(2,3)
proof (induction k arbitrary: b)
  case (Suc k)
  have "0 \<le> int k * step" using assms(1) by simp
  then have "b < int n" using Suc.prems(2) by (simp add: algebra_simps)
  moreover have "gather (tab n G) (b + step) step k = Some (tab k (\<lambda>j. G (b + step + j * step)))"
    using Suc.prems assms(1) by (intro Suc.IH) (auto simp: algebra_simps)
  moreover have "tab (Suc k) (\<lambda>j. G (b + j * step)) = G b # tab k (\<lambda>j. G (b + step + j * step))"
    by (simp add: tab_def upt_conv_Cons map_Suc_upt [symmetric] algebra_simps del: upt_Suc)
  ultimately show ?case using Suc.prems(1) by (simp add: mem_get_tab)
qed (simp add: tab_def)

text \<open>The samples of one row, whichever of the two ways the code copies them.\<close>

lemma copy_row_tab:
  assumes "0 < w" "0 \<le> a" "a + w \<le> int n" "1 \<le> step" "0 \<le> b" "b + (w - 1) * step < int n'"
  shows "(if step = 1 then mem_copy_from (tab n F) a (tab n' G) b w
      else do { xs \<leftarrow> gather (tab n' G) b step (nat w); mem_write (tab n F) a xs }) =
    Some (tab n (\<lambda>i. if a \<le> i \<and> i < a + w then G (b + (i - a) * step) else F i))"
proof (cases "step = 1")
  case True
  then show ?thesis using assms by (auto simp: mem_copy_from_tab intro!: tab_cong)
next
  case False
  have "gather (tab n' G) b step (nat w) = Some (tab (nat w) (\<lambda>j. G (b + j * step)))" using assms by (intro gather_tab) simp_all
  then show ?thesis using False assms by (auto simp: mem_write_tab intro!: tab_cong)
qed

lemma copy_columns_tab:
  assumes "0 < w" "0 \<le> left" "0 \<le> right" "left + w + right \<le> dp" "1 \<le> step"
    and "0 \<le> d + lo * dp - left" "d + (lo + int k - 1) * dp + w + right \<le> int n"
    and "\<And>r. lo \<le> r \<Longrightarrow> r < lo + int k \<Longrightarrow> 0 \<le> s + r * sp \<and> s + r * sp + (w - 1) * step < int n'"
  shows "copy_columns (tab n' G) (s + lo * sp) (s + lo * sp + (w - 1) * step) sp (tab n F) (d + lo * dp - left) (d + lo * dp + w) dp
      w left right step k = Some (tab n (put_cols G s sp step F d dp w left right lo (lo + int k)))"
  using assms(6-8)
proof (induction k arbitrary: F lo)
  case 0
  show ?case by (auto simp: put_cols_def Let_def intro!: tab_cong)
next
  case (Suc k)
  let ?r = "row_of d dp left" and ?c = "col_of d dp left"
  have p: "0 < dp" using assms by linarith
  have "lo * dp \<le> (lo + int k) * dp" using p by (intro mult_right_mono) simp_all
  then have top: "d + lo * dp + w + right \<le> int n" using Suc.prems(2) by simp
  have "0 \<le> (w - 1) * step" using assms(1,5) by simp
  then have src: "0 \<le> s + lo * sp" "s + lo * sp < int n'" "0 \<le> s + lo * sp + (w - 1) * step" "s + lo * sp + (w - 1) * step < int n'"
    using Suc.prems(3) [of lo] by simp_all
  let ?F1 = "\<lambda>i. if d + lo * dp - left \<le> i \<and> i < d + lo * dp - left + left then G (s + lo * sp) else F i"
  let ?F2 = "\<lambda>i. if d + lo * dp \<le> i \<and> i < d + lo * dp + w then G (s + lo * sp + (i - (d + lo * dp)) * step) else ?F1 i"
  let ?F3 = "\<lambda>i. if d + lo * dp + w \<le> i \<and> i < d + lo * dp + w + right then G (s + lo * sp + (w - 1) * step) else ?F2 i"
  have "?F3 i = put_cols G s sp step F d dp w left right lo (lo + 1) i" for i
  proof -
    have 1: "d + lo * dp - left \<le> i \<and> i < d + lo * dp - left + left \<longleftrightarrow> ?r i = lo \<and> ?c i < 0"
      using cell_range [of dp left "- left" 0 d lo i] p assms(1-4) col_of_ge [OF p] by simp
    have 2: "d + lo * dp \<le> i \<and> i < d + lo * dp + w \<longleftrightarrow> ?r i = lo \<and> 0 \<le> ?c i \<and> ?c i < w"
      using cell_range [of dp left 0 w d lo i] p assms(1-4) by simp
    have 3: "d + lo * dp + w \<le> i \<and> i < d + lo * dp + w + right \<longleftrightarrow> ?r i = lo \<and> w \<le> ?c i \<and> ?c i < w + right"
      using cell_range [of dp left w "w + right" d lo i] p assms(1-4) by (simp add: add.assoc)
    have 4: "i - (d + lo * dp) = ?c i" if "?r i = lo" using cell_of [of d dp left i] that by simp
    show ?thesis unfolding 1 2 3 put_cols_def Let_def using 4 assms(1,3) by (cases "?r i = lo") (auto simp: clamp_def)
  qed
  then have F3: "?F3 = put_cols G s sp step F d dp w left right lo (lo + 1)" by (rule ext)
  have comp: "put_cols G s sp step (put_cols G s sp step F d dp w left right lo (lo + 1)) d dp w left right (lo + 1) (lo + 1 + int k) =
      put_cols G s sp step F d dp w left right lo (lo + int (Suc k))"
    by (auto simp: put_cols_def Let_def fun_eq_iff)
  have "copy_columns (tab n' G) (s + (lo + 1) * sp) (s + (lo + 1) * sp + (w - 1) * step) sp (tab n ?F3) (d + (lo + 1) * dp - left)
      (d + (lo + 1) * dp + w) dp w left right step k = Some (tab n (put_cols G s sp step F d dp w left right lo (lo + int (Suc k))))"
    unfolding F3 comp [symmetric] using Suc.prems p by (intro Suc.IH) (simp_all add: algebra_simps)
  moreover have "mem_get (tab n' G) (s + lo * sp) = Some (G (s + lo * sp))"
    "mem_get (tab n' G) (s + lo * sp + (w - 1) * step) = Some (G (s + lo * sp + (w - 1) * step))"
    using src by (intro mem_get_tab; simp)+
  moreover have "mem_set (tab n F) (d + lo * dp - left) (G (s + lo * sp)) left = Some (tab n ?F1)"
    using top Suc.prems(1) assms(1-3) by (intro mem_set_tab) linarith+
  moreover have "(if step = 1 then mem_copy_from (tab n ?F1) (d + lo * dp) (tab n' G) (s + lo * sp) w
      else do { xs \<leftarrow> gather (tab n' G) (s + lo * sp) step (nat w); mem_write (tab n ?F1) (d + lo * dp) xs }) = Some (tab n ?F2)"
    using top Suc.prems(1) assms(1-3,5) src by (intro copy_row_tab) linarith+
  moreover have "mem_set (tab n ?F2) (d + lo * dp + w) (G (s + lo * sp + (w - 1) * step)) right = Some (tab n ?F3)"
    using top Suc.prems(1) assms(1-3) by (intro mem_set_tab) linarith+
  moreover have "s + lo * sp + sp = s + (lo + 1) * sp" "s + lo * sp + (w - 1) * step + sp = s + (lo + 1) * sp + (w - 1) * step"
    "d + lo * dp - left + dp = d + (lo + 1) * dp - left" "d + lo * dp + w + dp = d + (lo + 1) * dp + w" "d + lo * dp - left + left = d + lo * dp"
    by (simp_all add: algebra_simps)
  ultimately show ?case by (simp only: copy_columns.simps Option.bind.simps)
qed

lemma put_compose:
  assumes "0 < w" "0 < ht" "0 \<le> left" "0 \<le> right" "left + w + right \<le> dp" "0 \<le> up" "0 \<le> down"
  shows "ext_line (ext_line (put_cols G s sp step F d dp w left right 0 ht) d dp left (w + right) 0 (- up) 0)
      d dp left (w + right) (ht - 1) ht (ht + down) i = put_ext G s sp step F d dp w ht left right (- up) (ht + down) i"
proof -
  let ?r = "row_of d dp left i" and ?c = "col_of d dp left i"
  have p: "0 < dp" using assms by linarith
  note line = row_col_cell [OF col_of_ge [OF p, of left d i] col_of_lt [OF p, of d left i], of d]
  define H where "H = put_cols G s sp step F d dp w left right 0 ht"
  have H: "H i = (if 0 \<le> ?r \<and> ?r < ht \<and> ?c < w + right then G (s + ?r * sp + clamp ?c 0 (w - 1) * step) else F i)"
    by (simp add: H_def put_cols_def Let_def)
  have H': "H (d + k * dp + ?c) =
      (if 0 \<le> k \<and> k < ht \<and> ?c < w + right then G (s + k * sp + clamp ?c 0 (w - 1) * step) else F (d + k * dp + ?c))" for k
    by (simp add: H_def put_cols_def Let_def line)
  consider "?r < 0" | "0 \<le> ?r" "?r < ht" | "ht \<le> ?r" by linarith
  then have "ext_line (ext_line H d dp left (w + right) 0 (- up) 0) d dp left (w + right) (ht - 1) ht (ht + down) i =
      put_ext G s sp step F d dp w ht left right (- up) (ht + down) i" (is ?goal)
  proof cases
    case 1
    then show ?goal using assms H H' [of 0] line [of 0] by (auto simp: ext_line_def put_ext_def Let_def clamp_def [of ?r])
  next
    case 2
    then show ?goal using assms by (simp add: ext_line_def put_ext_def Let_def line H)
  next
    case 3
    then show ?goal using assms H H' [of "ht - 1"] line [of "ht - 1"] by (auto simp: ext_line_def put_ext_def Let_def clamp_def [of ?r])
  qed
  then show ?thesis by (simp add: H_def)
qed


lemma copy_and_extend_plane_tab:
  assumes pic: "0 < w" "0 < ht" "0 \<le> left" "0 \<le> right" "left + w + right \<le> dp" "0 \<le> up" "0 \<le> down" "1 \<le> step"
    and room: "0 \<le> d - up * dp - left" "d + (ht - 1 + down) * dp + w + right \<le> int n"
    and src: "\<And>r. 0 \<le> r \<Longrightarrow> r < ht \<Longrightarrow> 0 \<le> s + r * sp \<and> s + r * sp + (w - 1) * step < int n'"
  shows "copy_and_extend_plane (tab n' G) s sp (tab n F) d dp w ht up left down right step =
    Some (tab n (put_ext G s sp step F d dp w ht left right (- up) (ht + down)))"
proof -
  have p: "0 < dp" using pic by linarith
  have "0 \<le> up * dp" "(ht - 1) * dp \<le> (ht - 1 + down) * dp" "0 \<le> (ht - 1) * dp" "0 \<le> ht * dp"
    using p pic by (intro mult_right_mono mult_nonneg_nonneg; simp)+
  note b = this
  let ?F1 = "put_cols G s sp step F d dp w left right 0 ht"
  let ?F2 = "ext_line ?F1 d dp left (w + right) 0 (- up) 0"
  have "copy_columns (tab n' G) (s + 0 * sp) (s + 0 * sp + (w - 1) * step) sp (tab n F) (d + 0 * dp - left) (d + 0 * dp + w) dp
      w left right step (nat ht) = Some (tab n (put_cols G s sp step F d dp w left right 0 (0 + int (nat ht))))"
  proof (rule copy_columns_tab)
    show "0 \<le> d + 0 * dp - left" using room(1) b(1) by linarith
    show "d + (0 + int (nat ht) - 1) * dp + w + right \<le> int n" using room(2) b(2) pic(2) by simp
  qed (use pic src in simp_all)
  then have 1: "copy_columns (tab n' G) s (s + (w - 1) * step) sp (tab n F) (d - left) (d + w) dp w left right step (nat ht) = Some (tab n ?F1)"
    using pic(2) by simp
  have "copy_line (tab n ?F1) (d + (- up) * dp - left) (d + 0 * dp - left) dp (left + (w + right)) (nat up) =
      Some (tab n (ext_line ?F1 d dp left (w + right) 0 (- up) (- up + int (nat up))))"
  proof (rule copy_line_tab)
    have "d + w + right \<le> int n" using room(2) b(2,3) by linarith
    then show "d + (- up + int (nat up) - 1) * dp + (w + right) \<le> int n" "d + 0 * dp + (w + right) \<le> int n" using p pic(6) by simp_all
    show "0 \<le> d + 0 * dp - left" "0 \<le> d + (- up) * dp - left" using room(1) b(1) by simp_all
  qed (use pic p in simp_all)
  then have 2: "copy_line (tab n ?F1) (d + dp * (- up) - left) (d - left) dp (left + right + w) (nat up) = Some (tab n ?F2)"
    using pic(6) by (simp add: algebra_simps)
  have "copy_line (tab n ?F2) (d + ht * dp - left) (d + (ht - 1) * dp - left) dp (left + (w + right)) (nat down) =
      Some (tab n (ext_line ?F2 d dp left (w + right) (ht - 1) ht (ht + int (nat down))))"
  proof (rule copy_line_tab)
    show "0 \<le> d + ht * dp - left" "0 \<le> d + (ht - 1) * dp - left" using room(1) b by linarith+
    show "d + (ht - 1) * dp + (w + right) \<le> int n" using room(2) b(2) by simp
    show "d + (ht + int (nat down) - 1) * dp + (w + right) \<le> int n" using room(2) pic(7) by (simp add: algebra_simps)
  qed (use pic p in simp_all)
  then have 3: "copy_line (tab n ?F2) (d + dp * ht - left) (d + dp * (ht - 1) - left) dp (left + right + w) (nat down) =
      Some (tab n (put_ext G s sp step F d dp w ht left right (- up) (ht + down)))"
    using pic(7) put_compose [OF pic(1-7), of G s sp step F d] by (simp add: algebra_simps cong: tab_cong)
  show ?thesis unfolding copy_and_extend_plane_def Let_def 1 2 3 Option.bind.simps ..
qed

text \<open>On 16-bit samples the other function does the same.\<close>

lemma highbd_copy_columns_eq:
  "copy_columns other s1 s2 sp m d1 d2 dp w left right 1 k = Some m' \<Longrightarrow> samples_u16 other \<Longrightarrow> samples_u16 m \<Longrightarrow>
    highbd_copy_columns other s1 s2 sp m d1 d2 dp w left right k = Some m' \<and> samples_u16 m'"
proof (induction k arbitrary: s1 s2 m d1 d2)
  case (Suc k)
  from Suc.prems(1) obtain v m1 m2 v2 m3 where 1: "mem_get other s1 = Some v" "mem_set m d1 v left = Some m1"
    "mem_copy_from m1 (d1 + left) other s1 w = Some m2" "mem_get other s2 = Some v2" "mem_set m2 d2 v2 right = Some m3"
    and rest: "copy_columns other (s1 + sp) (s2 + sp) sp m3 (d1 + dp) (d2 + dp) dp w left right 1 k = Some m'"
    by (auto split: bind_splits)
  have v: "u16 v = v" "u16 v2 = v2" by (rule mem_get_u16 [OF Suc.prems(2) 1(1)], rule mem_get_u16 [OF Suc.prems(2) 1(4)])
  have m1: "samples_u16 m1" by (rule mem_set_u16 [OF Suc.prems(3) v(1) 1(2)])
  obtain xs where xs: "mem_read other s1 w = Some xs" "mem_write m1 (d1 + left) xs = Some m2" using 1(3) by (auto simp: mem_copy_from_def split: bind_splits)
  have "samples_u16 xs" using xs(1) Suc.prems(2) by (auto simp: samples_u16_def mem_read_def split: if_splits dest!: in_set_takeD in_set_dropD)
  then have m2: "samples_u16 m2" using mem_write_u16 [OF m1 _ xs(2)] by blast
  have m3: "samples_u16 m3" by (rule mem_set_u16 [OF m2 v(2) 1(5)])
  show ?case using Suc.IH [OF rest Suc.prems(2) m3] 1 v mem_set_range [OF 1(2)] mem_set_range [OF 1(5)] by (simp add: aom_memset16_eq)
qed simp

lemma highbd_copy_and_extend_plane_eq:
  assumes e: "copy_and_extend_plane other s sp m d dp w ht up left down right 1 = Some m'" and u: "samples_u16 other" "samples_u16 m"
  shows "highbd_copy_and_extend_plane other s sp m d dp w ht up left down right = Some m'" "samples_u16 m'"
proof -
  from e obtain m1 m2 where
    1: "copy_columns other s (s + (w - 1)) sp m (d - left) (d + w) dp w left right 1 (nat ht) = Some m1" and
    2: "copy_line m1 (d + dp * (- up) - left) (d - left) dp (left + right + w) (nat up) = Some m2" and
    3: "copy_line m2 (d + dp * ht - left) (d + dp * (ht - 1) - left) dp (left + right + w) (nat down) = Some m'"
    unfolding copy_and_extend_plane_def Let_def by (auto split: bind_splits)
  note h = highbd_copy_columns_eq [OF 1 u]
  have "s + (w - 1) = s + w - 1" by simp
  note h1 = conjunct1 [OF h, unfolded this]
  show "highbd_copy_and_extend_plane other s sp m d dp w ht up left down right = Some m'"
    unfolding highbd_copy_and_extend_plane_def Let_def h1 Option.bind.simps 2 3 ..
  show "samples_u16 m'" using copy_line_u16 [OF 3 copy_line_u16 [OF 2]] h by blast
qed

section \<open>The frame\<close>

text \<open>Where the source has the sample of a plane at a row and column of its picture.\<close>

definition source_start :: "YV12_BUFFER_CONFIG \<Rightarrow> nat \<Rightarrow> int" where
  "source_start src p = (if p = 2 \<and> \<not> is_high src \<and> v_buffer src = 0 then frame_plane src 1 + 1 else frame_plane src p)"

definition source_step :: "YV12_BUFFER_CONFIG \<Rightarrow> nat \<Rightarrow> int" where
  "source_step src p = (if p > 0 \<and> \<not> is_high src \<and> v_buffer src = 0 then 2 else 1)"

definition source_cell :: "YV12_BUFFER_CONFIG \<Rightarrow> nat \<Rightarrow> int \<Rightarrow> int \<Rightarrow> int" where
  "source_cell src p r c = source_start src p + r * plane_stride src p + c * source_step src p"

definition source_planes :: "YV12_BUFFER_CONFIG \<Rightarrow> nat" where
  "source_planes src = (if yv_monochrome src = 0 then 3 else 1)"

text \<open>A source whose picture can be read.\<close>

definition source_ok :: "YV12_BUFFER_CONFIG \<Rightarrow> bool" where
  "source_ok src \<longleftrightarrow> samples_ok src \<and>
     (\<forall>p r c. p < source_planes src \<and> 0 \<le> r \<and> r < plane_crop_height src p \<and> 0 \<le> c \<and> c < plane_crop_width src p \<longrightarrow>
        0 \<le> source_cell src p r c \<and> source_cell src p r c < int (length (yv_samples src)))"

text \<open>The samples of a frame once a plane of the source is put into it.\<close>

definition sourced :: "YV12_BUFFER_CONFIG \<Rightarrow> YV12_BUFFER_CONFIG \<Rightarrow> nat \<Rightarrow> int list" where
  "sourced src dst p = tab (length (yv_samples dst))
     (put_ext (\<lambda>i. yv_samples src ! nat i) (source_start src p) (plane_stride src p) (source_step src p) (\<lambda>i. yv_samples dst ! nat i)
        (frame_plane dst p) (plane_stride dst p) (plane_crop_width dst p) (plane_crop_height dst p) (plane_left dst p) (plane_left dst p)
        (- plane_top dst p) (plane_crop_height dst p + plane_top dst p))"

lemma length_sourced [simp]: "length (sourced src dst p) = length (yv_samples dst)" by (simp add: sourced_def)

lemma sourced_plane:
  assumes wf: "frame_wf dst" "p < source_planes src" "p < 3" and src: "source_ok src"
    and size: "plane_crop_width src p = plane_crop_width dst p" "plane_crop_height src p = plane_crop_height dst p"
  shows "copy_and_extend_plane (yv_samples src) (source_start src p) (plane_stride src p) (yv_samples dst) (frame_plane dst p)
      (plane_stride dst p) (plane_crop_width src p) (plane_crop_height src p) (plane_top dst p) (plane_left dst p) (plane_top dst p)
      (plane_left dst p) (source_step src p) = Some (sourced src dst p)"
proof -
  note d = frame_wfD [OF wf(1,3)] and room = frame_room [OF wf(1,3)]
  have "(plane_crop_height dst p - 1 + plane_top dst p) * plane_stride dst p \<le> (plane_height dst p + plane_top dst p - 1) * plane_stride dst p"
    using d by (intro mult_right_mono) simp_all
  note b = this
  have "copy_and_extend_plane (tab (length (yv_samples src)) (\<lambda>i. yv_samples src ! nat i)) (source_start src p) (plane_stride src p)
      (tab (length (yv_samples dst)) (\<lambda>i. yv_samples dst ! nat i)) (frame_plane dst p)
      (plane_stride dst p) (plane_crop_width dst p) (plane_crop_height dst p) (plane_top dst p) (plane_left dst p) (plane_top dst p)
      (plane_left dst p) (source_step src p) = Some (sourced src dst p)"
    unfolding sourced_def
  proof (rule copy_and_extend_plane_tab)
    show "frame_plane dst p + (plane_crop_height dst p - 1 + plane_top dst p) * plane_stride dst p + plane_crop_width dst p + plane_left dst p
      \<le> int (length (yv_samples dst))" using room(3) b d(5) by linarith
    fix r assume r: "0 \<le> r" "r < plane_crop_height dst p"
    have read: "0 \<le> source_cell src p r c \<and> source_cell src p r c < int (length (yv_samples src))" if "0 \<le> c" "c < plane_crop_width dst p" for c
      using src wf(2) r that size unfolding source_ok_def by simp
    from read [of 0] read [of "plane_crop_width dst p - 1"] d(4)
    show "0 \<le> source_start src p + r * plane_stride src p \<and>
        source_start src p + r * plane_stride src p + (plane_crop_width dst p - 1) * source_step src p < int (length (yv_samples src))"
      by (simp add: source_cell_def)
  qed (use d room(1) in \<open>auto simp: source_step_def\<close>)
  then show ?thesis by (simp add: tab_self size)
qed

lemma sourced_same:
  assumes wf: "frame_wf dst" "p < 3" and rc: "in_plane dst p r c" "r < plane_crop_height dst p + plane_top dst p" "c < plane_crop_width dst p + plane_left dst p"
  shows "sourced src dst p ! nat (plane_cell dst p r c) =
    yv_samples src ! nat (source_cell src p (clamp r 0 (plane_crop_height dst p - 1)) (clamp c 0 (plane_crop_width dst p - 1)))"
proof -
  have "- plane_left dst p \<le> c" "c < plane_stride dst p - plane_left dst p" using rc(1) frame_wfD(1) [OF wf] by (simp_all add: in_plane_def)
  note cell = row_col_cell [OF this, of "frame_plane dst p" r]
  have "- plane_top dst p \<le> r" using rc(1) by (simp add: in_plane_def)
  then show ?thesis using wf_cell_bounds [OF wf rc(1)] rc(2,3)
    by (simp add: sourced_def put_ext_def Let_def) (simp add: plane_cell_def source_cell_def cell)
qed

lemma sourced_other:
  assumes wf: "frame_wf dst" "p < 3" and q: "q < 3" "q \<noteq> p" "in_plane dst q r c"
  shows "sourced src dst p ! nat (plane_cell dst q r c) = sample dst q r c"
proof -
  let ?r = "row_of (frame_plane dst p) (plane_stride dst p) (plane_left dst p) (plane_cell dst q r c)"
  let ?c = "col_of (frame_plane dst p) (plane_stride dst p) (plane_left dst p) (plane_cell dst q r c)"
  note d = frame_wfD [OF wf]
  have "plane_cell dst p ?r ?c = plane_cell dst q r c" unfolding plane_cell_def [of dst p] by (rule cell_of)
  then have "\<not> in_plane dst p ?r ?c" using wf_cell_disjoint [OF wf(1) q(1,3) wf(2) _ q(2)] by metis
  then have "\<not> (- plane_top dst p \<le> ?r \<and> ?r < plane_crop_height dst p + plane_top dst p \<and> ?c < plane_crop_width dst p + plane_left dst p)"
    using d(5,7) col_of_ge [OF d(8)] by (auto simp: in_plane_def)
  then show ?thesis using wf_cell_bounds [OF wf(1) q(1,3)] by (auto simp: sourced_def put_ext_def sample_def Let_def)
qed


lemma source_plane_call:
  assumes wf: "frame_wf dst" "p < source_planes src" "p < 3" and src: "source_ok src" and ok: "samples_ok dst" "is_high src = is_high dst"
    and size: "plane_crop_width src = plane_crop_width dst" "plane_crop_height src = plane_crop_height dst"
  shows "is_high src \<Longrightarrow> highbd_copy_and_extend_plane (yv_samples src) (frame_plane src p) (plane_stride src p) (yv_samples dst) (frame_plane dst p)
      (plane_stride dst p) (plane_crop_width src p) (plane_crop_height src p) (plane_top dst p) (plane_left dst p) (plane_top dst p)
      (plane_left dst p) = Some (sourced src dst p)"
    and "copy_and_extend_plane (yv_samples src) (source_start src p) (plane_stride src p) (yv_samples dst) (frame_plane dst p)
      (plane_stride dst p) (plane_crop_width src p) (plane_crop_height src p) (plane_top dst p) (plane_left dst p) (plane_top dst p)
      (plane_left dst p) (source_step src p) = Some (sourced src dst p)"
    and "samples_ok (dst\<lparr>yv_samples := sourced src dst p\<rparr>)"
proof -
  show e: "copy_and_extend_plane (yv_samples src) (source_start src p) (plane_stride src p) (yv_samples dst) (frame_plane dst p)
      (plane_stride dst p) (plane_crop_width src p) (plane_crop_height src p) (plane_top dst p) (plane_left dst p) (plane_top dst p)
      (plane_left dst p) (source_step src p) = Some (sourced src dst p)"
    by (rule sourced_plane [OF wf src]) (simp_all add: size)
  have high: "samples_u16 (yv_samples src)" "samples_u16 (yv_samples dst)" "source_start src p = frame_plane src p" "source_step src p = 1"
    if "is_high src" using that src ok by (simp_all add: source_ok_def samples_ok_def source_start_def source_step_def)
  show "is_high src \<Longrightarrow> highbd_copy_and_extend_plane (yv_samples src) (frame_plane src p) (plane_stride src p) (yv_samples dst) (frame_plane dst p)
      (plane_stride dst p) (plane_crop_width src p) (plane_crop_height src p) (plane_top dst p) (plane_left dst p) (plane_top dst p)
      (plane_left dst p) = Some (sourced src dst p)"
    using highbd_copy_and_extend_plane_eq(1) e high by simp
  show "samples_ok (dst\<lparr>yv_samples := sourced src dst p\<rparr>)"
    using highbd_copy_and_extend_plane_eq(2) e high ok(2) by (auto simp: samples_ok_def)
qed

lemma align_64: "x \<le> ALIGN_POWER_OF_TWO x 6" "ALIGN_POWER_OF_TWO x 6 < x + 64"
proof -
  have "ALIGN_POWER_OF_TWO x 6 = (x + 64 - 1) div 64 * 64"
    using and_not_mask_div [of "x + 63" 6] by (simp add: ALIGN_POWER_OF_TWO_def shl_def)
  then show "x \<le> ALIGN_POWER_OF_TWO x 6" "ALIGN_POWER_OF_TWO x 6 < x + 64" using align_up_bounds [of 64 x] by simp_all
qed

lemma source_extent: "64 \<le> border \<Longrightarrow> max (x + border) (ALIGN_POWER_OF_TWO x 6) - x = border"
  using align_64(2) [of x] by simp

text \<open>The frame with the planes \<open>q\<close> to \<open>q + n - 1\<close> of the source put into it.\<close>

fun sourced_planes :: "YV12_BUFFER_CONFIG \<Rightarrow> YV12_BUFFER_CONFIG \<Rightarrow> nat \<Rightarrow> nat \<Rightarrow> YV12_BUFFER_CONFIG" where
  "sourced_planes src dst q 0 = dst"
| "sourced_planes src dst q (Suc n) = sourced_planes src (dst\<lparr>yv_samples := sourced src dst q\<rparr>) (Suc q) n"

lemma sourced_planes_result:
  assumes "frame_wf dst" "q + n \<le> 3"
  shows "\<exists>m. sourced_planes src dst q n = dst\<lparr>yv_samples := m\<rparr> \<and> length m = length (yv_samples dst) \<and>
    (\<forall>p r c. p < 3 \<and> in_plane dst p r c \<and> r < plane_crop_height dst p + plane_top dst p \<and> c < plane_crop_width dst p + plane_left dst p \<longrightarrow>
      m ! nat (plane_cell dst p r c) =
        (if q \<le> p \<and> p < q + n
         then yv_samples src ! nat (source_cell src p (clamp r 0 (plane_crop_height dst p - 1)) (clamp c 0 (plane_crop_width dst p - 1)))
         else sample dst p r c))"
  using assms
proof (induction n arbitrary: dst q)
  case 0
  show ?case by (intro exI [of _ "yv_samples dst"]) (simp add: sample_def)
next
  case (Suc n)
  have q: "q < 3" using Suc.prems(2) by simp
  let ?d1 = "dst\<lparr>yv_samples := sourced src dst q\<rparr>"
  obtain m where m: "sourced_planes src ?d1 (Suc q) n = dst\<lparr>yv_samples := m\<rparr>" "length m = length (yv_samples dst)"
    "\<And>p r c. p < 3 \<Longrightarrow> in_plane dst p r c \<Longrightarrow> r < plane_crop_height dst p + plane_top dst p \<Longrightarrow> c < plane_crop_width dst p + plane_left dst p \<Longrightarrow>
      m ! nat (plane_cell dst p r c) = (if Suc q \<le> p \<and> p < Suc q + n
         then yv_samples src ! nat (source_cell src p (clamp r 0 (plane_crop_height dst p - 1)) (clamp c 0 (plane_crop_width dst p - 1)))
         else sample ?d1 p r c)"
    using Suc.IH [of ?d1 "Suc q"] Suc.prems by auto
  have "m ! nat (plane_cell dst p r c) = (if q \<le> p \<and> p < q + Suc n
       then yv_samples src ! nat (source_cell src p (clamp r 0 (plane_crop_height dst p - 1)) (clamp c 0 (plane_crop_width dst p - 1)))
       else sample dst p r c)"
    if "p < 3" "in_plane dst p r c" "r < plane_crop_height dst p + plane_top dst p" "c < plane_crop_width dst p + plane_left dst p" for p r c
  proof (cases "p = q")
    case True
    then show ?thesis using m(3) [OF that] sourced_same [OF Suc.prems(1) q, of r c] that by (simp add: sample_with)
  next
    case False
    then show ?thesis using m(3) [OF that] sourced_other [OF Suc.prems(1) q that(1) False that(2)] by (auto simp: sample_with)
  qed
  then show ?case using m(1,2) by (intro exI [of _ m]) simp
qed

lemma copy_and_extend_frame_planes:
  assumes wf: "frame_wf dst" and src: "source_ok src" and ok: "samples_ok dst" "is_high src = is_high dst"
    and size: "plane_crop_width src = plane_crop_width dst" "plane_crop_height src = plane_crop_height dst"
    and ss: "yv_subsampling_x src = yv_subsampling_x dst" "yv_subsampling_y src = yv_subsampling_y dst" and border: "64 \<le> yv_border dst"
  shows "av1_copy_and_extend_frame src dst = Some (sourced_planes src dst 0 (source_planes src))"
proof -
  define d1 where "d1 = dst\<lparr>yv_samples := sourced src dst 0\<rparr>"
  define d2 where "d2 = d1\<lparr>yv_samples := sourced src d1 1\<rparr>"
  have n: "0 < source_planes src" by (simp add: source_planes_def)
  note c0 = source_plane_call [OF wf n _ src ok size]
  have c1: "frame_wf d1" "samples_ok d1" using wf c0(3) by (simp_all add: d1_def)
  have k1: "plane_crop_width src = plane_crop_width d1" "plane_crop_height src = plane_crop_height d1" "is_high src = is_high d1"
    using size ok by (simp_all add: d1_def)
  have planes: "frame_plane d1 = frame_plane dst" "plane_stride d1 = plane_stride dst" "plane_top d1 = plane_top dst" "plane_left d1 = plane_left dst"
    "frame_plane d2 = frame_plane dst" "plane_stride d2 = plane_stride dst" "plane_top d2 = plane_top dst" "plane_left d2 = plane_left dst"
    "yv_samples d1 = sourced src dst 0" "yv_samples d2 = sourced src d1 1"
    by (simp_all add: d2_def d1_def)
  have uv: "uv_stride src = plane_stride src 1" "uv_stride src = plane_stride src 2" "y_stride src = plane_stride src 0"
    "uv_crop_width src = plane_crop_width src 1" "uv_crop_height src = plane_crop_height src 1" "uv_crop_width src = plane_crop_width src 2"
    "uv_crop_height src = plane_crop_height src 2" "y_crop_width src = plane_crop_width src 0" "y_crop_height src = plane_crop_height src 0"
    "uv_stride dst = plane_stride dst 1" "uv_stride dst = plane_stride dst 2" "y_stride dst = plane_stride dst 0"
    by (simp_all add: plane_stride_def plane_crop_width_def plane_crop_height_def)
  have tl: "plane_top dst 0 = yv_border dst" "plane_left dst 0 = yv_border dst"
    "plane_top dst (Suc 0) = shr (yv_border dst) (nat (yv_subsampling_y src))" "plane_left dst (Suc 0) = shr (yv_border dst) (nat (yv_subsampling_x src))"
    "plane_top dst 2 = shr (yv_border dst) (nat (yv_subsampling_y src))" "plane_left dst 2 = shr (yv_border dst) (nat (yv_subsampling_x src))"
    by (simp_all add: plane_top_def plane_left_def ss)
  have st: "source_start src 0 = frame_plane src 0" "source_step src 0 = 1" "source_start src (Suc 0) = frame_plane src (Suc 0)"
    "\<not> is_high src \<Longrightarrow> source_step src (Suc 0) = (if v_buffer src \<noteq> 0 then 1 else 2)" "\<not> is_high src \<Longrightarrow> source_step src 2 = (if v_buffer src \<noteq> 0 then 1 else 2)"
    "\<not> is_high src \<Longrightarrow> source_start src 2 = (if v_buffer src \<noteq> 0 then frame_plane src 2 else frame_plane src 1 + 1)"
    by (simp_all add: source_start_def source_step_def)
  note x = source_extent [OF border]
  show ?thesis
  proof (cases "yv_monochrome src = 0")
    case True
    then have n3: "1 < source_planes src" "2 < source_planes src" "source_planes src = Suc (Suc (Suc 0))" by (simp_all add: source_planes_def)
    note c1' = source_plane_call [OF c1(1) n3(1) _ src c1(2) k1(3,1,2)]
    have c2: "frame_wf d2" "samples_ok d2" using c1 c1'(3) by (simp_all add: d2_def)
    have k2: "is_high src = is_high d2" "plane_crop_width src = plane_crop_width d2" "plane_crop_height src = plane_crop_height d2"
      using k1 by (simp_all add: d2_def)
    note c2' = source_plane_call [OF c2(1) n3(2) _ src c2(2) k2]
    have "sourced_planes src dst 0 (source_planes src) = dst\<lparr>yv_samples := sourced src d2 2\<rparr>"
      unfolding n3(3) by (simp add: d2_def d1_def numeral_2_eq_2)
    note eqs = planes tl st plane_stride_def plane_crop_width_def plane_crop_height_def
    show ?thesis
    proof (cases "is_high src")
      case True
      from c0(1) [OF _ True] c1'(1) [OF _ True] c2'(1) [OF _ True] show ?thesis
        using True \<open>yv_monochrome src = 0\<close> \<open>sourced_planes src dst 0 _ = _\<close>
        by (simp add: av1_copy_and_extend_frame_def Let_def x eqs)
    next
      case False
      note st' = st(4-6) [OF False]
      from c0(2) c1'(2) c2'(2) show ?thesis
        using False \<open>yv_monochrome src = 0\<close> \<open>sourced_planes src dst 0 _ = _\<close>
        by (cases "v_buffer src = 0") (simp_all add: av1_copy_and_extend_frame_def Let_def x eqs st')
    qed
  next
    case False
    then show ?thesis using c0
      by (simp add: av1_copy_and_extend_frame_def source_planes_def Let_def x planes tl st plane_stride_def plane_crop_width_def plane_crop_height_def)
  qed
qed


text \<open>C14. A source picture arrives whole. Given a readable source, planar or NV12, 8-bit or 16-bit, colour
  or monochrome, and a laid-out frame of the same picture size with a border of at least 64
  samples, \<open>av1_copy_and_extend_frame\<close> returns, stays inside the frame's block, and every sample
  of the picture and of the border around it is the source's sample at the nearest row and
  column of its picture. The planes a monochrome source lacks keep their samples there.\<close>

theorem source_picture_copied:
  assumes "frame_wf dst" "source_ok src" "samples_ok dst" "is_high src = is_high dst"
    and "plane_crop_width src = plane_crop_width dst" "plane_crop_height src = plane_crop_height dst"
    and "yv_subsampling_x src = yv_subsampling_x dst" "yv_subsampling_y src = yv_subsampling_y dst" and "64 \<le> yv_border dst"
  shows "\<exists>m. av1_copy_and_extend_frame src dst = Some (dst\<lparr>yv_samples := m\<rparr>) \<and> length m = length (yv_samples dst) \<and>
    (\<forall>p r c. p < 3 \<and> in_plane dst p r c \<and> r < plane_crop_height dst p + plane_top dst p \<and> c < plane_crop_width dst p + plane_left dst p \<longrightarrow>
      sample (dst\<lparr>yv_samples := m\<rparr>) p r c =
        (if p < source_planes src
         then yv_samples src ! nat (source_cell src p (clamp r 0 (plane_crop_height dst p - 1)) (clamp c 0 (plane_crop_width dst p - 1)))
         else sample dst p r c))"
proof -
  have "0 + source_planes src \<le> 3" by (simp add: source_planes_def)
  from sourced_planes_result [OF assms(1) this, of src] copy_and_extend_frame_planes [OF assms]
  show ?thesis by (auto simp: sample_with)
qed

text \<open>An NV12 source of 3 by 3 samples for an 8-bit frame with a border of 64.\<close>

definition nv12_source :: YV12_BUFFER_CONFIG where
  "nv12_source = zero_frame\<lparr>y_crop_width := 3, y_crop_height := 3, uv_crop_width := 2, uv_crop_height := 2, y_stride := 3, uv_stride := 4,
     yv_subsampling_x := 1, yv_subsampling_y := 1, buffer_alloc := 100, y_buffer := 100, u_buffer := 109, yv_samples := map int [1..<18]\<rparr>"

lemma nv12_source_ok: "source_ok nv12_source"
proof -
  have "0 \<le> source_cell nv12_source p r c \<and> source_cell nv12_source p r c < 17"
    if "p < 3" "0 \<le> r" "r < plane_crop_height nv12_source p" "0 \<le> c" "c < plane_crop_width nv12_source p" for p r c
  proof -
    have "p = 0 \<or> p = 1 \<or> p = 2" using that(1) by auto
    then show ?thesis using that(2-5)
      by (elim disjE) (auto simp: source_cell_def source_start_def source_step_def nv12_source_def zero_frame_def plane_stride_def
          plane_crop_height_def plane_crop_width_def frame_plane_def frame_base_def is_high_def)
  qed
  then show ?thesis unfolding source_ok_def
    by (auto simp: source_planes_def samples_ok_def) (auto simp: nv12_source_def zero_frame_def is_high_def)
qed

theorem source_picture_copied_witness:
  "\<exists>h' dst m. aom_realloc_frame_buffer 5008 sample_heap (Some zero_frame) 3 3 1 1 0 64 32 None False = Some (AOM_CODEC_OK, h', Some dst) \<and>
    av1_copy_and_extend_frame nv12_source dst = Some (dst\<lparr>yv_samples := m\<rparr>) \<and>
    sample (dst\<lparr>yv_samples := m\<rparr>) 1 5 1 = 16 \<and> sample (dst\<lparr>yv_samples := m\<rparr>) 2 (- 1) 7 = 13"
proof -
  obtain h' dst where e: "aom_realloc_frame_buffer 5008 sample_heap (Some zero_frame) 3 3 1 1 0 64 32 None False = Some (AOM_CODEC_OK, h', Some dst)"
    by (simp add: alloc_eval zero_frame_def sample_heap_def Let_def)
  have wf: "frame_wf dst" by (rule realloc_frame_wf [OF e zero_frame_mem, where k = 5]) simp_all
  have ok: "samples_ok dst" using fresh_frame_zero [OF e] by (auto simp: samples_ok_def samples_u16_def)
  note d = realloc_frame_dims [OF e zero_frame_mem, simplified]
  have crop: "plane_crop_width dst p = (if p > 0 then 2 else 3)" "plane_crop_height dst p = (if p > 0 then 2 else 3)"
    "plane_top dst p = (if p > 0 then 32 else 64)" "plane_left dst p = (if p > 0 then 32 else 64)"
    "plane_height dst p = (if p > 0 then 4 else 8)" "plane_width dst p = (if p > 0 then 4 else 8)" for p
    using d unfolding frame_dims_def plane_crop_width_def plane_crop_height_def plane_top_def plane_left_def plane_height_def plane_width_def
    by (simp_all add: shr_def)
  have nv: "plane_crop_width nv12_source = plane_crop_width dst" "plane_crop_height nv12_source = plane_crop_height dst"
    "yv_subsampling_x nv12_source = yv_subsampling_x dst" "yv_subsampling_y nv12_source = yv_subsampling_y dst" "is_high nv12_source = is_high dst"
    "64 \<le> yv_border dst" "source_planes nv12_source = 3"
    using d by (simp_all add: fun_eq_iff crop) (simp_all add: nv12_source_def zero_frame_def plane_crop_width_def plane_crop_height_def is_high_def
        source_planes_def)
  obtain m where m: "av1_copy_and_extend_frame nv12_source dst = Some (dst\<lparr>yv_samples := m\<rparr>)"
    "\<forall>p r c. p < 3 \<and> in_plane dst p r c \<and> r < plane_crop_height dst p + plane_top dst p \<and> c < plane_crop_width dst p + plane_left dst p \<longrightarrow>
      sample (dst\<lparr>yv_samples := m\<rparr>) p r c = yv_samples nv12_source !
        nat (source_cell nv12_source p (clamp r 0 (plane_crop_height dst p - 1)) (clamp c 0 (plane_crop_width dst p - 1)))"
    using source_picture_copied [OF wf nv12_source_ok ok nv(5,1,2,3,4,6)] nv(7) by auto
  have "sample (dst\<lparr>yv_samples := m\<rparr>) 1 5 1 = 16" "sample (dst\<lparr>yv_samples := m\<rparr>) 2 (- 1) 7 = 13"
    using m(2) [rule_format, of 1 5 1] m(2) [rule_format, of 2 "- 1" 7]
    by (simp_all add: crop in_plane_def clamp_def)
      (simp_all add: source_cell_def source_start_def source_step_def nv12_source_def zero_frame_def plane_stride_def frame_plane_def frame_base_def
        is_high_def upt_conv_Cons)
  then show ?thesis using e m(1) by blast
qed

end
