(* ===== verification/Lookahead.thy ===== *)
theory Lookahead
  imports Frame_Source
begin

text \<open>
  \<open>av1/encoder/lookahead.c\<close>: the ring of source frames between the application and the encoder. One
  write index and, for each compressor stage, a read index and the number of frames the stage
  has not taken yet. A \<open>struct lookahead_entry *\<close> is an index into the ring. The frames live in the
  heap of \<^verbatim>\<open>Aom_Mem\<close>; the context and the array of entries come from the C library, whose answer is
  a flag. The sums of \<open>int\<close> that an application can make overflow, of the depths and of the number of
  frames pushed, are undefined (\<open>None\<close>) there.
\<close>

section \<open>State\<close>

definition MAX_TOTAL_BUFFERS :: int where "MAX_TOTAL_BUFFERS = 96"
definition MAX_PRE_FRAMES :: int where "MAX_PRE_FRAMES = 1"

datatype COMPRESSOR_STAGE = ENCODE_STAGE | LAP_STAGE

record lookahead_entry =
  le_img :: YV12_BUFFER_CONFIG
  le_ts_start :: int
  le_ts_end :: int
  le_display_idx :: int
  le_flags :: int

record read_ctx =
  rc_sz :: int
  rc_read_idx :: int
  rc_pop_sz :: int
  rc_valid :: int

record lookahead_ctx =
  la_max_sz :: int
  la_write_idx :: int
  la_read_ctxs :: "COMPRESSOR_STAGE \<Rightarrow> read_ctx"
  la_buf :: "lookahead_entry list"
  la_push_frame_count :: int
  la_max_pre_frames :: int

definition zero_entry :: lookahead_entry where
  "zero_entry = \<lparr>le_img = zero_frame, le_ts_start = 0, le_ts_end = 0, le_display_idx = 0, le_flags = 0\<rparr>"

definition zero_read_ctx :: read_ctx where
  "zero_read_ctx = \<lparr>rc_sz = 0, rc_read_idx = 0, rc_pop_sz = 0, rc_valid = 0\<rparr>"

section \<open>Operations\<close>

text \<open>The sum of two \<open>int\<close>s.\<close>

definition int_add :: "int \<Rightarrow> int \<Rightarrow> int option" where
  "int_add x y = (if -2147483648 \<le> x + y \<and> x + y \<le> 2147483647 then Some (x + y) else None)"

text \<open>The entry at an index, and the index after it.\<close>

definition la_pop :: "lookahead_ctx \<Rightarrow> int \<Rightarrow> int \<times> int" where
  "la_pop ctx idx = (let index = idx + 1 in (idx, if index \<ge> la_max_sz ctx then index - la_max_sz ctx else index))"

fun free_entries :: "heap \<Rightarrow> lookahead_entry list \<Rightarrow> heap option" where
  "free_entries h [] = Some h"
| "free_entries h (e # es) = do { (_, h, _) \<leftarrow> aom_free_frame_buffer h (Some (le_img e)); free_entries h es }"

definition av1_lookahead_destroy :: "heap \<Rightarrow> lookahead_ctx option \<Rightarrow> heap option" where
  "av1_lookahead_destroy h p = (case p of None \<Rightarrow> Some h | Some ctx \<Rightarrow> free_entries h (take (nat (la_max_sz ctx)) (la_buf ctx)))"

text \<open>The loop of \<open>av1_lookahead_init\<close>: the frame of entry \<open>i\<close> is allocated at \<open>pick i\<close>. It stops at the
  first frame it cannot have.\<close>

fun init_entries ::
  "(nat \<Rightarrow> int) \<Rightarrow> heap \<Rightarrow> int \<Rightarrow> int \<Rightarrow> int \<Rightarrow> int \<Rightarrow> int \<Rightarrow> int \<Rightarrow> int \<Rightarrow> nat \<Rightarrow> lookahead_entry list \<Rightarrow>
    (bool \<times> heap \<times> lookahead_entry list) option" where
  "init_entries pick h width height ss_x ss_y use_highbitdepth border align i [] = Some (True, h, [])"
| "init_entries pick h width height ss_x ss_y use_highbitdepth border align i (e # es) =
     do {
       (err, h, p) \<leftarrow> aom_realloc_frame_buffer (pick i) h (Some (le_img e)) width height ss_x ss_y use_highbitdepth border align None False;
       frame \<leftarrow> p;
       if err \<noteq> AOM_CODEC_OK then Some (False, h, e\<lparr>le_img := frame\<rparr> # es)
       else
         do {
           (ok, h, es) \<leftarrow> init_entries pick h width height ss_x ss_y use_highbitdepth border align (Suc i) es;
           Some (ok, h, e\<lparr>le_img := frame\<rparr> # es)
         }
     }"

definition av1_lookahead_init ::
  "(nat \<Rightarrow> int) \<Rightarrow> bool \<Rightarrow> bool \<Rightarrow> heap \<Rightarrow> int \<Rightarrow> int \<Rightarrow> int \<Rightarrow> int \<Rightarrow> int \<Rightarrow> int \<Rightarrow> int \<Rightarrow> int \<Rightarrow> int \<Rightarrow> bool \<Rightarrow>
    (heap \<times> lookahead_ctx option) option" where
  "av1_lookahead_init pick ok_ctx ok_buf h width height subsampling_x subsampling_y use_highbitdepth depth border_in_pixels
      byte_alignment num_lap_buffers is_all_intra =
     do {
       let lag_in_frames = max 1 depth;
       let max_pre_frames = (if is_all_intra then 0 else MAX_PRE_FRAMES);
       depth \<leftarrow> int_add depth num_lap_buffers;
       let depth = clamp depth 1 MAX_TOTAL_BUFFERS;
       let depth = depth + max_pre_frames;
       if \<not> ok_ctx then Some (h, None)
       else
         let enc = zero_read_ctx\<lparr>rc_pop_sz := depth - max_pre_frames, rc_valid := 1\<rparr>;
             lap = (if num_lap_buffers \<noteq> 0 then zero_read_ctx\<lparr>rc_pop_sz := lag_in_frames, rc_valid := 1\<rparr> else zero_read_ctx);
             ctx = \<lparr>la_max_sz = depth, la_write_idx = 0, la_read_ctxs = (\<lambda>s. case s of ENCODE_STAGE \<Rightarrow> enc | LAP_STAGE \<Rightarrow> lap),
               la_buf = [], la_push_frame_count = 0, la_max_pre_frames = max_pre_frames\<rparr> in
         if \<not> ok_buf then do { h \<leftarrow> av1_lookahead_destroy h (Some ctx); Some (h, None) }
         else
           do {
             (ok, h, es) \<leftarrow> init_entries pick h width height subsampling_x subsampling_y use_highbitdepth border_in_pixels byte_alignment 0
               (replicate (nat depth) zero_entry);
             let ctx = ctx\<lparr>la_buf := es\<rparr>;
             if ok then Some (h, Some ctx)
             else do { h \<leftarrow> av1_lookahead_destroy h (Some ctx); Some (h, None) }
           }
     }"

definition av1_lookahead_full :: "lookahead_ctx \<Rightarrow> bool" where
  "av1_lookahead_full ctx = (rc_sz (la_read_ctxs ctx ENCODE_STAGE) \<ge> rc_pop_sz (la_read_ctxs ctx ENCODE_STAGE))"

text \<open>One frame more for a stage.\<close>

definition count_frame :: "COMPRESSOR_STAGE \<Rightarrow> lookahead_ctx \<Rightarrow> lookahead_ctx" where
  "count_frame stage ctx =
     ctx\<lparr>la_read_ctxs := (la_read_ctxs ctx)(stage := (la_read_ctxs ctx stage)\<lparr>rc_sz := rc_sz (la_read_ctxs ctx stage) + 1\<rparr>)\<rparr>"

text \<open>The frame of a slot made ready for a source of this size: \<open>None\<close> in the second component when a
  larger frame cannot be allocated.\<close>

definition fit_slot :: "int \<Rightarrow> heap \<Rightarrow> YV12_BUFFER_CONFIG \<Rightarrow> YV12_BUFFER_CONFIG \<Rightarrow> int \<Rightarrow> (heap \<times> YV12_BUFFER_CONFIG option) option" where
  "fit_slot pick h img src use_highbitdepth =
     (let new_dimensions = (y_crop_width src \<noteq> y_crop_width img \<or> y_crop_height src \<noteq> y_crop_height img \<or>
            uv_crop_width src \<noteq> uv_crop_width img \<or> uv_crop_height src \<noteq> uv_crop_height img);
          larger_dimensions = (y_crop_width src > y_crop_width img \<or> y_crop_height src > y_crop_height img \<or>
            uv_crop_width src > uv_crop_width img \<or> uv_crop_height src > uv_crop_height img) in
      if larger_dimensions then
        do {
          (e, h, new_img) \<leftarrow> aom_alloc_frame_buffer pick h (Some zero_frame) (y_crop_width src) (y_crop_height src)
            (yv_subsampling_x src) (yv_subsampling_y src) use_highbitdepth AOM_BORDER_IN_PIXELS 0 False;
          if e \<noteq> AOM_CODEC_OK then Some (h, None)
          else do { (_, h, _) \<leftarrow> aom_free_frame_buffer h (Some img); Some (h, new_img) }
        }
      else if new_dimensions then
        Some (h, Some (img\<lparr>y_width := y_width src, y_height := y_height src, uv_width := uv_width src, uv_height := uv_height src,
          y_crop_width := y_crop_width src, y_crop_height := y_crop_height src, uv_crop_width := uv_crop_width src,
          uv_crop_height := uv_crop_height src, yv_subsampling_x := yv_subsampling_x src, yv_subsampling_y := yv_subsampling_y src\<rparr>))
      else Some (h, Some img))"

definition av1_lookahead_push ::
  "int \<Rightarrow> (alloc_site \<Rightarrow> bool) \<Rightarrow> (nat \<Rightarrow> alloc_site \<Rightarrow> bool) \<Rightarrow> heap \<Rightarrow> lookahead_ctx \<Rightarrow> YV12_BUFFER_CONFIG \<Rightarrow> int \<Rightarrow> int \<Rightarrow> int \<Rightarrow> int \<Rightarrow>
    (int \<times> heap \<times> lookahead_ctx) option" where
  "av1_lookahead_push pick ok_array ok h ctx src ts_start ts_end use_highbitdepth flags =
     (if rc_sz (la_read_ctxs ctx ENCODE_STAGE) + la_max_pre_frames ctx > la_max_sz ctx then Some (1, h, ctx)
      else
        let ctx = count_frame ENCODE_STAGE ctx;
            ctx = (if rc_valid (la_read_ctxs ctx LAP_STAGE) \<noteq> 0 then count_frame LAP_STAGE ctx else ctx);
            (i, write_idx) = la_pop ctx (la_write_idx ctx);
            ctx = ctx\<lparr>la_write_idx := write_idx\<rparr> in
        if i < 0 \<or> int (length (la_buf ctx)) \<le> i then None
        else
          let buf = la_buf ctx ! nat i in
          do {
            (h, p) \<leftarrow> fit_slot pick h (le_img buf) src use_highbitdepth;
            case p of
              None \<Rightarrow> Some (1, h, ctx)
            | Some img \<Rightarrow>
                do {
                  img \<leftarrow> av1_copy_and_extend_frame src img;
                  let buf = buf\<lparr>le_ts_start := ts_start, le_ts_end := ts_end, le_display_idx := la_push_frame_count ctx, le_flags := flags\<rparr>;
                  count \<leftarrow> int_add (la_push_frame_count ctx) 1;
                  let ctx = ctx\<lparr>la_push_frame_count := count\<rparr>;
                  let img = aom_remove_metadata_from_frame_buffer img;
                  case yv_metadata src of
                    None \<Rightarrow> Some (0, h, ctx\<lparr>la_buf := (la_buf ctx)[nat i := buf\<lparr>le_img := img\<rparr>]\<rparr>)
                  | Some arr \<Rightarrow>
                      let (rc, q) = aom_copy_metadata_to_frame_buffer ok_array ok (Some img) (Some arr) in
                      do {
                        img \<leftarrow> q;
                        Some (if rc \<noteq> 0 then 1 else 0, h, ctx\<lparr>la_buf := (la_buf ctx)[nat i := buf\<lparr>le_img := img\<rparr>]\<rparr>)
                      }
                }
          })"

definition av1_lookahead_pop :: "lookahead_ctx option \<Rightarrow> bool \<Rightarrow> COMPRESSOR_STAGE \<Rightarrow> int option \<times> lookahead_ctx option" where
  "av1_lookahead_pop p drain stage =
     (case p of
        None \<Rightarrow> (None, None)
      | Some ctx \<Rightarrow>
          let rc = la_read_ctxs ctx stage in
          if rc_sz rc \<noteq> 0 \<and> (drain \<or> rc_sz rc = rc_pop_sz rc) then
            let (buf, read_idx) = la_pop ctx (rc_read_idx rc) in
            (Some buf, Some (ctx\<lparr>la_read_ctxs := (la_read_ctxs ctx)(stage := rc\<lparr>rc_read_idx := read_idx, rc_sz := rc_sz rc - 1\<rparr>)\<rparr>))
          else (None, p))"

definition av1_lookahead_peek :: "lookahead_ctx option \<Rightarrow> int \<Rightarrow> COMPRESSOR_STAGE \<Rightarrow> int option" where
  "av1_lookahead_peek p index stage =
     (case p of
        None \<Rightarrow> None
      | Some ctx \<Rightarrow>
          let rc = la_read_ctxs ctx stage in
          if index \<ge> 0 then
            if index < rc_sz rc then
              let index = index + rc_read_idx rc in
              Some (if index \<ge> la_max_sz ctx then index - la_max_sz ctx else index)
            else None
          else if - index \<le> la_max_pre_frames ctx then
            let index = index + rc_read_idx rc in
            Some (if index < 0 then index + la_max_sz ctx else index)
          else None)"

definition av1_lookahead_depth :: "lookahead_ctx \<Rightarrow> COMPRESSOR_STAGE \<Rightarrow> int" where
  "av1_lookahead_depth ctx stage = rc_sz (la_read_ctxs ctx stage)"

definition av1_lookahead_pop_sz :: "lookahead_ctx \<Rightarrow> COMPRESSOR_STAGE \<Rightarrow> int" where
  "av1_lookahead_pop_sz ctx stage = rc_pop_sz (la_read_ctxs ctx stage)"

end
