(* ===== verification/Lookahead_Props.thy ===== *)
theory Lookahead_Props
  imports Lookahead
begin

text \<open>
  The lookahead as a queue. What a stage has not taken yet is a list of entries; pushing a frame
  appends to it, popping takes its head, peeking indexes it. The laws are those of the locale
  \<open>frame_queue\<close>, which derives the order of frames over any run of operations; both stages of the
  ring are instances of it.
\<close>

section \<open>Queues of frames\<close>

text \<open>The abstract queue: a list of frames, and the size at which it hands one out undrained.\<close>

definition spec_pop :: "bool \<Rightarrow> int \<Rightarrow> 'e list \<Rightarrow> 'e option \<times> 'e list" where
  "spec_pop drain pop_sz q = (if q \<noteq> [] \<and> (drain \<or> int (length q) = pop_sz) then (Some (List.hd q), tl q) else (None, q))"

text \<open>A run of a queue: the frames that went in and the frames that came out, in order. \<open>idle\<close> steps are
  those that do not concern this queue.\<close>

inductive queue_run ::
  "('c \<Rightarrow> 'e \<Rightarrow> 'c \<Rightarrow> bool) \<Rightarrow> (bool \<Rightarrow> 'c \<Rightarrow> 'e option \<times> 'c) \<Rightarrow> ('c \<Rightarrow> 'c \<Rightarrow> bool) \<Rightarrow> 'c \<Rightarrow> 'e list \<Rightarrow> 'e list \<Rightarrow> 'c \<Rightarrow> bool"
  for push pop idle where
  run_start: "queue_run push pop idle c [] [] c"
| run_push: "queue_run push pop idle c ins outs c1 \<Longrightarrow> push c1 e c2 \<Longrightarrow> queue_run push pop idle c (ins @ [e]) outs c2"
| run_pop: "queue_run push pop idle c ins outs c1 \<Longrightarrow> pop drain c1 = (Some e, c2) \<Longrightarrow> queue_run push pop idle c ins (outs @ [e]) c2"
| run_empty: "queue_run push pop idle c ins outs c1 \<Longrightarrow> pop drain c1 = (None, c2) \<Longrightarrow> queue_run push pop idle c ins outs c2"
| run_idle: "queue_run push pop idle c ins outs c1 \<Longrightarrow> idle c1 c2 \<Longrightarrow> queue_run push pop idle c ins outs c2"

locale frame_queue =
  fixes ok :: "'c \<Rightarrow> bool" and frames :: "'c \<Rightarrow> 'e list" and pop_sz :: "'c \<Rightarrow> int"
    and push :: "'c \<Rightarrow> 'e \<Rightarrow> 'c \<Rightarrow> bool" and pop :: "bool \<Rightarrow> 'c \<Rightarrow> 'e option \<times> 'c" and idle :: "'c \<Rightarrow> 'c \<Rightarrow> bool"
  assumes push_appends: "ok c \<Longrightarrow> push c e c' \<Longrightarrow> ok c' \<and> frames c' = frames c @ [e]"
    and pop_takes: "ok c \<Longrightarrow> pop drain c = (r, c') \<Longrightarrow> ok c' \<and> (r, frames c') = spec_pop drain (pop_sz c) (frames c)"
    and idle_keeps: "ok c \<Longrightarrow> idle c c' \<Longrightarrow> ok c' \<and> frames c' = frames c"
begin

lemma run_in_order: "queue_run push pop idle c ins outs c' \<Longrightarrow> ok c \<Longrightarrow> ok c' \<and> frames c @ ins = outs @ frames c'"
proof (induction rule: queue_run.induct)
  case (run_push c ins outs c1 e c2)
  then have "ok c1" "frames c @ ins = outs @ frames c1" by blast+
  with push_appends [OF this(1) run_push.hyps(2)] show ?case by simp
next
  case (run_pop c ins outs c1 drain e c2)
  then have "ok c1" "frames c @ ins = outs @ frames c1" by blast+
  with pop_takes [OF this(1) run_pop.hyps(2)] show ?case by (auto simp: spec_pop_def split: if_splits)
next
  case (run_empty c ins outs c1 drain c2)
  then have "ok c1" "frames c @ ins = outs @ frames c1" by blast+
  with pop_takes [OF this(1) run_empty.hyps(2)] show ?case by (auto simp: spec_pop_def split: if_splits)
next
  case (run_idle c ins outs c1 c2)
  then have "ok c1" "frames c @ ins = outs @ frames c1" by blast+
  with idle_keeps [OF this(1) run_idle.hyps(2)] show ?case by simp
qed simp

lemma drain_delivers:
  assumes "ok c" "frames c \<noteq> []" "pop True c = (r, c')"
  shows "r = Some (List.hd (frames c))" "frames c' = tl (frames c)"
  using pop_takes [OF assms(1,3)] assms(2) by (simp_all add: spec_pop_def)

end

section \<open>The ring\<close>

definition ring :: "'e list \<Rightarrow> int \<Rightarrow> int \<Rightarrow> int \<Rightarrow> 'e list" where
  "ring buf n r k = map (\<lambda>i. buf ! nat ((r + int i) mod n)) [0..<nat k]"

lemma ring_push:
  assumes "0 \<le> k" "k < n" "int (length buf) = n" "w = (r + k) mod n"
  shows "ring (buf[nat w := e]) n r (k + 1) = ring buf n r k @ [e]"
proof -
  have n: "nat (k + 1) = Suc (nat k)" using assms(1) by simp
  have w: "nat w < length buf" using assms by (simp add: nat_less_iff)
  have "buf[nat w := e] ! nat ((r + int i) mod n) = buf ! nat ((r + int i) mod n)" if "i < nat k" for i
  proof -
    have "(r + int i) mod n \<noteq> (r + k) mod n"
    proof
      assume "(r + int i) mod n = (r + k) mod n"
      then have "n dvd (r + k) - (r + int i)" by (metis mod_eq_dvd_iff)
      then have "n dvd k - int i" by simp
      moreover have "0 < k - int i" "k - int i < n" using that assms(1,2) by linarith+
      ultimately show False using zdvd_not_zless by blast
    qed
    moreover have "0 \<le> (r + int i) mod n" "0 \<le> (r + k) mod n" using assms(1,2) by simp_all
    ultimately have "nat ((r + int i) mod n) \<noteq> nat w" unfolding assms(4) by (simp add: eq_nat_nat_iff)
    then show ?thesis by simp
  qed
  then have "map (\<lambda>i. buf[nat w := e] ! nat ((r + int i) mod n)) [0..<nat k] = map (\<lambda>i. buf ! nat ((r + int i) mod n)) [0..<nat k]" by simp
  moreover have "nat ((r + int (nat k)) mod n) = nat w" using assms by simp
  ultimately show ?thesis using w by (simp add: ring_def n)
qed

lemma ring_pop:
  assumes "0 < k" "0 \<le> r" "r < n"
  shows "ring buf n r k = buf ! nat r # ring buf n ((r + 1) mod n) (k - 1)"
proof -
  have "nat k = Suc (nat (k - 1))" using assms(1) by simp
  moreover have "((r + 1) mod n + int i) mod n = (r + int (Suc i)) mod n" for i
  proof -
    have "(r + 1 + int i) mod n = (r + int (Suc i)) mod n" by (simp add: algebra_simps)
    then show ?thesis by (simp add: mod_add_left_eq)
  qed
  ultimately show ?thesis using assms by (simp add: ring_def upt_conv_Cons map_Suc_upt [symmetric] del: upt_Suc)
qed

lemma ring_length [simp]: "length (ring buf n r k) = nat k" by (simp add: ring_def)

lemma ring_nth: "0 \<le> i \<Longrightarrow> i < k \<Longrightarrow> ring buf n r k ! nat i = buf ! nat ((r + i) mod n)" by (simp add: ring_def nat_less_iff)

lemma ring_empty [simp]: "ring buf n r 0 = []" by (simp add: ring_def)

text \<open>The ring as one stage sees it.\<close>

definition stage_ok :: "COMPRESSOR_STAGE \<Rightarrow> lookahead_ctx \<Rightarrow> bool" where
  "stage_ok s ctx \<longleftrightarrow>
     (let rc = la_read_ctxs ctx s in
      0 < la_max_sz ctx \<and> int (length (la_buf ctx)) = la_max_sz ctx \<and> 0 \<le> rc_read_idx rc \<and> rc_read_idx rc < la_max_sz ctx \<and>
      0 \<le> rc_sz rc \<and> rc_sz rc \<le> la_max_sz ctx \<and> la_write_idx ctx = (rc_read_idx rc + rc_sz rc) mod la_max_sz ctx \<and> rc_valid rc = 1)"

definition stage_frames :: "COMPRESSOR_STAGE \<Rightarrow> lookahead_ctx \<Rightarrow> lookahead_entry list" where
  "stage_frames s ctx = (let rc = la_read_ctxs ctx s in ring (la_buf ctx) (la_max_sz ctx) (rc_read_idx rc) (rc_sz rc))"

lemma la_pop_mod:
  assumes "0 \<le> idx" "idx < la_max_sz ctx"
  shows "la_pop ctx idx = (idx, (idx + 1) mod la_max_sz ctx)"
proof (cases "idx + 1 = la_max_sz ctx")
  case True
  then show ?thesis using assms by (simp add: la_pop_def)
next
  case False
  then have "(idx + 1) mod la_max_sz ctx = idx + 1" using assms by (intro mod_pos_pos_trivial) simp_all
  then show ?thesis using assms False by (simp add: la_pop_def)
qed

section \<open>The operations on the queue\<close>

text \<open>What a push that is let in does to the ring, whatever becomes of its picture.\<close>

definition counted :: "lookahead_ctx \<Rightarrow> COMPRESSOR_STAGE \<Rightarrow> read_ctx" where
  "counted ctx s = (if s = ENCODE_STAGE \<or> rc_valid (la_read_ctxs ctx s) \<noteq> 0
     then (la_read_ctxs ctx s)\<lparr>rc_sz := rc_sz (la_read_ctxs ctx s) + 1\<rparr> else la_read_ctxs ctx s)"

definition let_in :: "lookahead_ctx \<Rightarrow> bool" where
  "let_in ctx \<longleftrightarrow> rc_sz (la_read_ctxs ctx ENCODE_STAGE) + la_max_pre_frames ctx \<le> la_max_sz ctx"

text \<open>The context when the frame has been counted and its slot taken.\<close>

definition slot_taken :: "lookahead_ctx \<Rightarrow> lookahead_ctx" where
  "slot_taken ctx = ctx\<lparr>la_read_ctxs := counted ctx, la_write_idx := snd (la_pop ctx (la_write_idx ctx))\<rparr>"

lemma slot_taken_simps [simp]:
  "la_buf (slot_taken ctx) = la_buf ctx" "la_push_frame_count (slot_taken ctx) = la_push_frame_count ctx"
  "la_max_sz (slot_taken ctx) = la_max_sz ctx" "la_max_pre_frames (slot_taken ctx) = la_max_pre_frames ctx"
  "la_read_ctxs (slot_taken ctx) = counted ctx" "la_write_idx (slot_taken ctx) = snd (la_pop ctx (la_write_idx ctx))"
  by (simp_all add: slot_taken_def)

lemma push_taken:
  assumes "let_in ctx"
  shows "av1_lookahead_push pick oka ok h ctx src ts te hb fl =
    (if la_write_idx ctx < 0 \<or> int (length (la_buf ctx)) \<le> la_write_idx ctx then None
     else do {
       let buf = la_buf ctx ! nat (la_write_idx ctx);
       (h, p) \<leftarrow> fit_slot pick h (le_img buf) src hb;
       case p of
         None \<Rightarrow> Some (1, h, slot_taken ctx)
       | Some img \<Rightarrow>
           do {
             img \<leftarrow> av1_copy_and_extend_frame src img;
             count \<leftarrow> int_add (la_push_frame_count ctx) 1;
             let buf = buf\<lparr>le_ts_start := ts, le_ts_end := te, le_display_idx := la_push_frame_count ctx, le_flags := fl\<rparr>;
             let img = aom_remove_metadata_from_frame_buffer img;
             let store = (\<lambda>img. (slot_taken ctx)\<lparr>la_push_frame_count := count, la_buf := (la_buf ctx)[nat (la_write_idx ctx) := buf\<lparr>le_img := img\<rparr>]\<rparr>);
             case yv_metadata src of
               None \<Rightarrow> Some (0, h, store img)
             | Some arr \<Rightarrow>
                 let (rc, q) = aom_copy_metadata_to_frame_buffer oka ok (Some img) (Some arr) in
                 do { img \<leftarrow> q; Some (if rc \<noteq> 0 then 1 else 0, h, store img) }
           }
     })"
proof -
  define c1 where "c1 = (if rc_valid (la_read_ctxs (count_frame ENCODE_STAGE ctx) LAP_STAGE) \<noteq> 0 then count_frame LAP_STAGE (count_frame ENCODE_STAGE ctx)
    else count_frame ENCODE_STAGE ctx)"
  have rd: "la_read_ctxs c1 = counted ctx"
  proof
    fix s show "la_read_ctxs c1 s = counted ctx s" by (cases s) (simp_all add: c1_def count_frame_def counted_def)
  qed
  have c1: "c1 = ctx\<lparr>la_read_ctxs := counted ctx\<rparr>"
    unfolding rd [symmetric] by (simp add: c1_def count_frame_def)
  have p: "la_pop c1 (la_write_idx c1) = (la_write_idx ctx, snd (la_pop ctx (la_write_idx ctx)))" by (simp add: c1 la_pop_def Let_def)
  have c1_simps: "la_buf c1 = la_buf ctx" "la_push_frame_count c1 = la_push_frame_count ctx" by (simp_all add: c1)
  have taken: "c1\<lparr>la_write_idx := snd (la_pop ctx (la_write_idx ctx))\<rparr> = slot_taken ctx" by (simp add: c1 slot_taken_def)
  show ?thesis using assms
    by (simp add: av1_lookahead_push_def Let_def let_in_def c1_def [symmetric] p taken c1_simps cong: option.case_cong)
qed

text \<open>Whatever a push that is let in returns, the slot after the newest frame has been taken; when it
  returns 0 the slot holds the frame.\<close>

lemma push_cases:
  assumes "av1_lookahead_push pick oka ok h ctx src ts te hb fl = Some (rc, h', ctx')" "let_in ctx"
  obtains e n where "0 \<le> la_write_idx ctx" "la_write_idx ctx < int (length (la_buf ctx))"
    "ctx' = (slot_taken ctx)\<lparr>la_push_frame_count := n, la_buf := (la_buf ctx)[nat (la_write_idx ctx) := e]\<rparr>"
    "rc = 0 \<Longrightarrow> le_ts_start e = ts \<and> le_ts_end e = te \<and> le_display_idx e = la_push_frame_count ctx \<and> le_flags e = fl"
proof -
  have in_range: "0 \<le> la_write_idx ctx" "la_write_idx ctx < int (length (la_buf ctx))"
    using assms(1) by (auto simp: push_taken [OF assms(2)] split: if_splits)
  define stored where "stored n e = (slot_taken ctx)\<lparr>la_push_frame_count := n, la_buf := (la_buf ctx)[nat (la_write_idx ctx) := e]\<rparr>" for n e
  have same: "slot_taken ctx = stored (la_push_frame_count ctx) (la_buf ctx ! nat (la_write_idx ctx))"
    by (simp add: stored_def slot_taken_def)
  have "rc = 1 \<and> ctx' = slot_taken ctx \<or> (\<exists>e n. ctx' = stored n e \<and>
      le_ts_start e = ts \<and> le_ts_end e = te \<and> le_display_idx e = la_push_frame_count ctx \<and> le_flags e = fl)"
    using assms(1) in_range unfolding push_taken [OF assms(2)]
    by (auto simp: Let_def stored_def [symmetric] split: bind_splits option.splits prod.splits if_splits)
  then have "\<exists>e n. ctx' = stored n e \<and>
      (rc = 0 \<longrightarrow> le_ts_start e = ts \<and> le_ts_end e = te \<and> le_display_idx e = la_push_frame_count ctx \<and> le_flags e = fl)"
    using same by auto
  then show thesis unfolding stored_def using that [OF in_range] by blast
qed

lemma push_ok_let_in: "av1_lookahead_push pick oka ok h ctx src ts te hb fl = Some (0, h', ctx') \<Longrightarrow> let_in ctx"
  by (rule ccontr) (simp add: av1_lookahead_push_def let_in_def)

lemma stage_push:
  assumes ok: "stage_ok s ctx" and room: "rc_sz (la_read_ctxs ctx s) < la_max_sz ctx"
    and push: "av1_lookahead_push pick oka ok h ctx src ts te hb fl = Some (rc, h', ctx')" "let_in ctx"
  shows "stage_ok s ctx'" "stage_frames s ctx' = stage_frames s ctx @ [la_buf ctx' ! nat (la_write_idx ctx)]"
    "la_max_sz ctx' = la_max_sz ctx" "la_max_pre_frames ctx' = la_max_pre_frames ctx"
    "rc_sz (la_read_ctxs ctx' s) = rc_sz (la_read_ctxs ctx s) + 1"
proof -
  let ?rc = "la_read_ctxs ctx s" and ?n = "la_max_sz ctx"
  from push obtain e n where e: "0 \<le> la_write_idx ctx" "la_write_idx ctx < int (length (la_buf ctx))"
    "ctx' = (slot_taken ctx)\<lparr>la_push_frame_count := n, la_buf := (la_buf ctx)[nat (la_write_idx ctx) := e]\<rparr>"
    by (rule push_cases)
  have o: "0 < ?n" "int (length (la_buf ctx)) = ?n" "0 \<le> rc_sz ?rc" "la_write_idx ctx = (rc_read_idx ?rc + rc_sz ?rc) mod ?n" "rc_valid ?rc = 1"
    "0 \<le> rc_read_idx ?rc" "rc_read_idx ?rc < ?n"
    using ok by (simp_all add: stage_ok_def Let_def)
  have rc: "counted ctx s = ?rc\<lparr>rc_sz := rc_sz ?rc + 1\<rparr>" using o(5) by (simp add: counted_def)
  have w: "snd (la_pop ctx (la_write_idx ctx)) = (rc_read_idx ?rc + (rc_sz ?rc + 1)) mod ?n"
  proof -
    have "la_pop ctx (la_write_idx ctx) = (la_write_idx ctx, (la_write_idx ctx + 1) mod ?n)" using e(1,2) o(2) by (intro la_pop_mod) simp_all
    then show ?thesis unfolding o(4) by (simp add: mod_add_left_eq add.assoc)
  qed
  show "stage_ok s ctx'" unfolding stage_ok_def Let_def e(3) using o room rc w by simp
  have "nat (la_write_idx ctx) < length (la_buf ctx)" using e(1,2) by (simp add: nat_less_iff)
  then have "la_buf ctx' ! nat (la_write_idx ctx) = e" by (simp add: e(3))
  then show "stage_frames s ctx' = stage_frames s ctx @ [la_buf ctx' ! nat (la_write_idx ctx)]"
    using ring_push [OF o(3) room o(2,4), of e] by (simp add: stage_frames_def Let_def e(3) rc)
  show "la_max_sz ctx' = la_max_sz ctx" "la_max_pre_frames ctx' = la_max_pre_frames ctx"
    "rc_sz (la_read_ctxs ctx' s) = rc_sz (la_read_ctxs ctx s) + 1"
    by (simp_all add: e(3) rc)
qed

lemma stage_pop:
  assumes ok: "stage_ok s ctx" and pop: "av1_lookahead_pop (Some ctx) drain s = (p, q)"
  shows "\<exists>ctx'. q = Some ctx' \<and> stage_ok s ctx' \<and> la_max_pre_frames ctx' = la_max_pre_frames ctx \<and>
    (map_option (\<lambda>i. la_buf ctx ! nat i) p, stage_frames s ctx') = spec_pop drain (av1_lookahead_pop_sz ctx s) (stage_frames s ctx)"
proof -
  let ?rc = "la_read_ctxs ctx s" and ?n = "la_max_sz ctx"
  have o: "0 < ?n" "int (length (la_buf ctx)) = ?n" "0 \<le> rc_sz ?rc" "rc_sz ?rc \<le> ?n" "la_write_idx ctx = (rc_read_idx ?rc + rc_sz ?rc) mod ?n"
    "rc_valid ?rc = 1" "0 \<le> rc_read_idx ?rc" "rc_read_idx ?rc < ?n"
    using ok by (simp_all add: stage_ok_def Let_def)
  have len: "int (length (stage_frames s ctx)) = rc_sz ?rc" using o(3) by (simp add: stage_frames_def Let_def)
  show ?thesis
  proof (cases "rc_sz ?rc \<noteq> 0 \<and> (drain \<or> rc_sz ?rc = rc_pop_sz ?rc)")
    case True
    let ?ctx = "ctx\<lparr>la_read_ctxs := (la_read_ctxs ctx)(s := ?rc\<lparr>rc_read_idx := (rc_read_idx ?rc + 1) mod ?n, rc_sz := rc_sz ?rc - 1\<rparr>)\<rparr>"
    have pq: "p = Some (rc_read_idx ?rc)" "q = Some ?ctx"
      using pop True la_pop_mod [OF o(7,8)] by (auto simp: av1_lookahead_pop_def Let_def)
    have "((rc_read_idx ?rc + 1) mod ?n + (rc_sz ?rc - 1)) mod ?n = (rc_read_idx ?rc + rc_sz ?rc) mod ?n"
      using mod_add_left_eq [of "rc_read_idx ?rc + 1" ?n "rc_sz ?rc - 1"] by simp
    then have "stage_ok s ?ctx" unfolding stage_ok_def Let_def using o True by simp
    moreover have "stage_frames s ctx = la_buf ctx ! nat (rc_read_idx ?rc) # stage_frames s ?ctx"
      using ring_pop [of "rc_sz ?rc" "rc_read_idx ?rc" ?n "la_buf ctx"] o True by (simp add: stage_frames_def Let_def)
    ultimately show ?thesis using True len by (auto simp: pq spec_pop_def av1_lookahead_pop_sz_def)
  next
    case False
    then have "p = None" "q = Some ctx" using pop by (auto simp: av1_lookahead_pop_def Let_def)
    moreover have "spec_pop drain (av1_lookahead_pop_sz ctx s) (stage_frames s ctx) = (None, stage_frames s ctx)"
      using False len by (auto simp: spec_pop_def av1_lookahead_pop_sz_def)
    ultimately show ?thesis using ok by simp
  qed
qed

lemma stage_pop_other:
  assumes "t \<noteq> s" "av1_lookahead_pop (Some ctx) drain t = (p, Some ctx')"
  shows "stage_ok s ctx' = stage_ok s ctx" "stage_frames s ctx' = stage_frames s ctx" "la_max_pre_frames ctx' = la_max_pre_frames ctx"
    "la_read_ctxs ctx' s = la_read_ctxs ctx s" "la_max_sz ctx' = la_max_sz ctx"
  using assms by (auto simp: av1_lookahead_pop_def la_pop_def stage_ok_def stage_frames_def Let_def split: if_splits)

text \<open>The operations of the heap and the ring together, as a queue. A push is let in or finds the ring full;
  whatever it returns after it was let in, the slot it took is queued: the frame when it returns 0, the
  slot's contents when there was no memory for the frame or its metadata. A push that finds the ring
  full, and a pop by the other stage, are the steps that leave a stage's queue alone.\<close>

type_synonym la_state = "heap \<times> lookahead_ctx"

definition la_push :: "la_state \<Rightarrow> lookahead_entry \<Rightarrow> la_state \<Rightarrow> bool" where
  "la_push c e c' \<longleftrightarrow> let_in (snd c) \<and> (\<exists>pick oka ok src ts te hb fl rc.
     av1_lookahead_push pick oka ok (fst c) (snd c) src ts te hb fl = Some (rc, fst c', snd c') \<and>
     e = la_buf (snd c') ! nat (la_write_idx (snd c)))"

definition la_take :: "COMPRESSOR_STAGE \<Rightarrow> bool \<Rightarrow> la_state \<Rightarrow> lookahead_entry option \<times> la_state" where
  "la_take s drain c =
     (case av1_lookahead_pop (Some (snd c)) drain s of
        (p, Some ctx) \<Rightarrow> (map_option (\<lambda>i. la_buf (snd c) ! nat i) p, (fst c, ctx))
      | (_, None) \<Rightarrow> (None, c))"

definition la_idle :: "COMPRESSOR_STAGE \<Rightarrow> la_state \<Rightarrow> la_state \<Rightarrow> bool" where
  "la_idle s c c' \<longleftrightarrow>
     (\<not> let_in (snd c) \<and>
       (\<exists>pick oka ok src ts te hb fl rc. av1_lookahead_push pick oka ok (fst c) (snd c) src ts te hb fl = Some (rc, fst c', snd c'))) \<or>
     (\<exists>t drain. t \<noteq> s \<and> c' = snd (la_take t drain c))"

lemma la_take_stage:
  assumes "stage_ok s (snd c)" "la_take s drain c = (r, c')"
  shows "stage_ok s (snd c')" "la_max_pre_frames (snd c') = la_max_pre_frames (snd c)"
    "(r, stage_frames s (snd c')) = spec_pop drain (av1_lookahead_pop_sz (snd c) s) (stage_frames s (snd c))"
proof -
  obtain p q where pq: "av1_lookahead_pop (Some (snd c)) drain s = (p, q)" by fastforce
  from stage_pop [OF assms(1) pq] obtain ctx' where q: "q = Some ctx'" "stage_ok s ctx'" "la_max_pre_frames ctx' = la_max_pre_frames (snd c)"
    "(map_option (\<lambda>i. la_buf (snd c) ! nat i) p, stage_frames s ctx') = spec_pop drain (av1_lookahead_pop_sz (snd c) s) (stage_frames s (snd c))"
    by blast
  have "r = map_option (\<lambda>i. la_buf (snd c) ! nat i) p" "c' = (fst c, ctx')" using assms(2) pq q(1) by (auto simp: la_take_def)
  then show "stage_ok s (snd c')" "la_max_pre_frames (snd c') = la_max_pre_frames (snd c)"
    "(r, stage_frames s (snd c')) = spec_pop drain (av1_lookahead_pop_sz (snd c) s) (stage_frames s (snd c))"
    using q by simp_all
qed

lemma la_idle_stage:
  assumes "la_idle s c c'"
  shows "stage_ok s (snd c') = stage_ok s (snd c)" "stage_frames s (snd c') = stage_frames s (snd c)"
    "la_max_pre_frames (snd c') = la_max_pre_frames (snd c)"
proof -
  have "stage_ok s (snd c') = stage_ok s (snd c) \<and> stage_frames s (snd c') = stage_frames s (snd c) \<and>
      la_max_pre_frames (snd c') = la_max_pre_frames (snd c)"
    using assms unfolding la_idle_def
  proof (elim disjE conjE exE)
    fix pick oka ok src ts te hb fl rc
    assume "\<not> let_in (snd c)" "av1_lookahead_push pick oka ok (fst c) (snd c) src ts te hb fl = Some (rc, fst c', snd c')"
    then show ?thesis by (simp add: av1_lookahead_push_def let_in_def)
  next
    fix t drain assume t: "t \<noteq> s" "c' = snd (la_take t drain c)"
    obtain p q where pq: "av1_lookahead_pop (Some (snd c)) drain t = (p, q)" by fastforce
    show ?thesis
    proof (cases q)
      case (Some ctx')
      then show ?thesis using stage_pop_other [OF t(1) pq [unfolded Some]] t(2) pq by (simp add: la_take_def)
    qed (use t pq in \<open>simp add: la_take_def\<close>)
  qed
  then show "stage_ok s (snd c') = stage_ok s (snd c)" "stage_frames s (snd c') = stage_frames s (snd c)"
    "la_max_pre_frames (snd c') = la_max_pre_frames (snd c)" by blast+
qed

text \<open>With a slot kept for the previous frame, the queue of the encoder never overflows. The queue of the
  other stage is one as long as pushes find room in it.\<close>

definition encode_ok :: "la_state \<Rightarrow> bool" where
  "encode_ok c \<longleftrightarrow> stage_ok ENCODE_STAGE (snd c) \<and> 1 \<le> la_max_pre_frames (snd c)"

definition lap_push :: "la_state \<Rightarrow> lookahead_entry \<Rightarrow> la_state \<Rightarrow> bool" where
  "lap_push c e c' \<longleftrightarrow> la_push c e c' \<and> rc_sz (la_read_ctxs (snd c) LAP_STAGE) < la_max_sz (snd c)"

lemma encode_push:
  assumes "encode_ok c" "la_push c e c'"
  shows "encode_ok c' \<and> stage_frames ENCODE_STAGE (snd c') = stage_frames ENCODE_STAGE (snd c) @ [e]"
proof -
  obtain pick oka ok src ts te hb fl rc where p: "av1_lookahead_push pick oka ok (fst c) (snd c) src ts te hb fl = Some (rc, fst c', snd c')"
    and e: "e = la_buf (snd c') ! nat (la_write_idx (snd c))" and l: "let_in (snd c)" using assms(2) unfolding la_push_def by blast
  have "rc_sz (la_read_ctxs (snd c) ENCODE_STAGE) < la_max_sz (snd c)" using assms(1) l by (simp add: encode_ok_def let_in_def)
  from stage_push [OF _ this p l] assms(1) show ?thesis by (simp add: encode_ok_def e)
qed

lemma lap_push_appends:
  assumes "stage_ok LAP_STAGE (snd c)" "lap_push c e c'"
  shows "stage_ok LAP_STAGE (snd c') \<and> stage_frames LAP_STAGE (snd c') = stage_frames LAP_STAGE (snd c) @ [e]"
proof -
  obtain pick oka ok src ts te hb fl rc where p: "av1_lookahead_push pick oka ok (fst c) (snd c) src ts te hb fl = Some (rc, fst c', snd c')"
    and e: "e = la_buf (snd c') ! nat (la_write_idx (snd c))" "rc_sz (la_read_ctxs (snd c) LAP_STAGE) < la_max_sz (snd c)" "let_in (snd c)"
    using assms(2) unfolding lap_push_def la_push_def by blast
  from stage_push [OF assms(1) e(2) p e(3)] show ?thesis by (simp add: e(1))
qed

interpretation encode_queue: frame_queue encode_ok "\<lambda>c. stage_frames ENCODE_STAGE (snd c)" "\<lambda>c. av1_lookahead_pop_sz (snd c) ENCODE_STAGE"
  la_push "la_take ENCODE_STAGE" "la_idle ENCODE_STAGE"
proof
  show "encode_ok c \<Longrightarrow> la_push c e c' \<Longrightarrow> encode_ok c' \<and> stage_frames ENCODE_STAGE (snd c') = stage_frames ENCODE_STAGE (snd c) @ [e]" for c e c'
    by (rule encode_push)
  show "encode_ok c \<Longrightarrow> la_take ENCODE_STAGE drain c = (r, c') \<Longrightarrow> encode_ok c' \<and> (r, stage_frames ENCODE_STAGE (snd c')) =
      spec_pop drain (av1_lookahead_pop_sz (snd c) ENCODE_STAGE) (stage_frames ENCODE_STAGE (snd c))" for c drain r c'
    using la_take_stage [of ENCODE_STAGE c drain r c'] unfolding encode_ok_def by auto
  show "encode_ok c \<Longrightarrow> la_idle ENCODE_STAGE c c' \<Longrightarrow> encode_ok c' \<and> stage_frames ENCODE_STAGE (snd c') = stage_frames ENCODE_STAGE (snd c)" for c c'
    using la_idle_stage [of ENCODE_STAGE c c'] unfolding encode_ok_def by auto
qed

interpretation lap_queue: frame_queue "\<lambda>c. stage_ok LAP_STAGE (snd c)" "\<lambda>c. stage_frames LAP_STAGE (snd c)"
  "\<lambda>c. av1_lookahead_pop_sz (snd c) LAP_STAGE" lap_push "la_take LAP_STAGE" "la_idle LAP_STAGE"
proof
  show "stage_ok LAP_STAGE (snd c) \<Longrightarrow> lap_push c e c' \<Longrightarrow>
      stage_ok LAP_STAGE (snd c') \<and> stage_frames LAP_STAGE (snd c') = stage_frames LAP_STAGE (snd c) @ [e]" for c e c'
    by (rule lap_push_appends)
  show "stage_ok LAP_STAGE (snd c) \<Longrightarrow> la_take LAP_STAGE drain c = (r, c') \<Longrightarrow> stage_ok LAP_STAGE (snd c') \<and> (r, stage_frames LAP_STAGE (snd c')) =
      spec_pop drain (av1_lookahead_pop_sz (snd c) LAP_STAGE) (stage_frames LAP_STAGE (snd c))" for c drain r c'
    using la_take_stage [of LAP_STAGE c drain r c'] by auto
  show "stage_ok LAP_STAGE (snd c) \<Longrightarrow> la_idle LAP_STAGE c c' \<Longrightarrow> stage_ok LAP_STAGE (snd c') \<and> stage_frames LAP_STAGE (snd c') = stage_frames LAP_STAGE (snd c)" for c c'
    using la_idle_stage [of LAP_STAGE c c'] by auto
qed


section \<open>Peeking\<close>

lemma stage_peek:
  assumes ok: "stage_ok s ctx" and i: "0 \<le> i" "i < rc_sz (la_read_ctxs ctx s)"
  shows "av1_lookahead_peek (Some ctx) i s = Some ((rc_read_idx (la_read_ctxs ctx s) + i) mod la_max_sz ctx)"
    "stage_frames s ctx ! nat i = la_buf ctx ! nat ((rc_read_idx (la_read_ctxs ctx s) + i) mod la_max_sz ctx)"
proof -
  let ?r = "rc_read_idx (la_read_ctxs ctx s)" and ?n = "la_max_sz ctx"
  have o: "0 \<le> ?r" "?r < ?n" "i < ?n" using ok i(2) by (simp_all add: stage_ok_def Let_def)
  have "(?r + i) mod ?n = (if i + ?r \<ge> ?n then i + ?r - ?n else i + ?r)"
  proof (cases "i + ?r \<ge> ?n")
    case True
    then have "(?r + i) mod ?n = (?r + i - ?n) mod ?n" by (simp add: minus_mod_self2)
    also have "\<dots> = ?r + i - ?n" using o True by (intro mod_pos_pos_trivial) simp_all
    finally show ?thesis using True by simp
  next
    case False
    then show ?thesis using o i(1) by (simp add: add.commute)
  qed
  then show "av1_lookahead_peek (Some ctx) i s = Some ((?r + i) mod ?n)" using i by (simp add: av1_lookahead_peek_def Let_def)
  show "stage_frames s ctx ! nat i = la_buf ctx ! nat ((?r + i) mod ?n)" using i by (simp add: stage_frames_def Let_def ring_nth)
qed

lemma peek_beyond: "rc_sz (la_read_ctxs ctx s) \<le> i \<Longrightarrow> 0 \<le> i \<Longrightarrow> av1_lookahead_peek (Some ctx) i s = None"
  by (simp add: av1_lookahead_peek_def Let_def)

lemma peek_previous:
  assumes "av1_lookahead_pop (Some ctx) drain s = (Some i, Some ctx')" "stage_ok s ctx" "1 \<le> la_max_pre_frames ctx"
  shows "av1_lookahead_peek (Some ctx') (- 1) s = Some i" "i = rc_read_idx (la_read_ctxs ctx s)"
    "rc_read_idx (la_read_ctxs ctx' s) = (i + 1) mod la_max_sz ctx"
proof -
  let ?r = "rc_read_idx (la_read_ctxs ctx s)" and ?n = "la_max_sz ctx"
  have o: "0 \<le> ?r" "?r < ?n" using assms(2) by (simp_all add: stage_ok_def Let_def)
  have i: "i = ?r" "ctx' = ctx\<lparr>la_read_ctxs := (la_read_ctxs ctx)(s := (la_read_ctxs ctx s)\<lparr>rc_read_idx := (?r + 1) mod ?n,
      rc_sz := rc_sz (la_read_ctxs ctx s) - 1\<rparr>)\<rparr>"
    using assms(1) la_pop_mod [OF o] by (auto simp: av1_lookahead_pop_def Let_def split: if_splits)
  show "i = ?r" "rc_read_idx (la_read_ctxs ctx' s) = (i + 1) mod ?n" by (simp_all add: i)
  show "av1_lookahead_peek (Some ctx') (- 1) s = Some i"
  proof (cases "?r + 1 = ?n")
    case True
    then show ?thesis using assms(3) i(1) by (simp add: av1_lookahead_peek_def Let_def i(2))
  next
    case False
    then have "(?r + 1) mod ?n = ?r + 1" using o by (intro mod_pos_pos_trivial) simp_all
    then show ?thesis using assms(3) o i(1) by (simp add: av1_lookahead_peek_def Let_def i(2))
  qed
qed

section \<open>Frames on their way through\<close>

lemma push_stores:
  assumes ok: "stage_ok ENCODE_STAGE ctx" and room: "let_in ctx"
    and count: "0 \<le> la_push_frame_count ctx" "la_push_frame_count ctx < 2147483647"
    and slot: "slot = le_img (la_buf ctx ! nat (la_write_idx ctx))" "frame_wf slot" "samples_ok slot" "64 \<le> yv_border slot"
    and src: "source_ok src" "is_high src = is_high slot" "plane_crop_width src = plane_crop_width slot"
      "plane_crop_height src = plane_crop_height slot" "yv_subsampling_x src = yv_subsampling_x slot" "yv_subsampling_y src = yv_subsampling_y slot"
      "yv_metadata src = None"
  shows "\<exists>ctx' m. av1_lookahead_push pick oka mok h ctx src ts te hb fl = Some (0, h, ctx') \<and>
    la_buf ctx' ! nat (la_write_idx ctx) = \<lparr>le_img = slot\<lparr>yv_samples := m, yv_metadata := None\<rparr>, le_ts_start = ts, le_ts_end = te,
      le_display_idx = la_push_frame_count ctx, le_flags = fl\<rparr> \<and>
    sourced_planes src slot 0 (source_planes src) = slot\<lparr>yv_samples := m\<rparr>"
proof -
  let ?w = "la_write_idx ctx"
  have o: "0 \<le> ?w" "?w < int (length (la_buf ctx))" using ok by (simp_all add: stage_ok_def Let_def)
  have "0 + source_planes src \<le> 3" by (simp add: source_planes_def)
  from sourced_planes_result [OF slot(2) this, of src] obtain m where m: "sourced_planes src slot 0 (source_planes src) = slot\<lparr>yv_samples := m\<rparr>" by blast
  have copy: "av1_copy_and_extend_frame src slot = Some (slot\<lparr>yv_samples := m\<rparr>)"
    unfolding m [symmetric] by (rule copy_and_extend_frame_planes [OF slot(2) src(1) slot(3) src(2-6) slot(4)])
  have "y_crop_width src = y_crop_width slot" "uv_crop_width src = uv_crop_width slot"
    "y_crop_height src = y_crop_height slot" "uv_crop_height src = uv_crop_height slot"
    using fun_cong [OF src(3), of 0] fun_cong [OF src(3), of 1] fun_cong [OF src(4), of 0] fun_cong [OF src(4), of 1]
    by (simp_all add: plane_crop_width_def plane_crop_height_def)
  then have fit: "fit_slot pick h slot src hb = Some (h, Some slot)" by (simp add: fit_slot_def Let_def)
  define e where "e = (la_buf ctx ! nat ?w)\<lparr>le_ts_start := ts, le_ts_end := te, le_display_idx := la_push_frame_count ctx, le_flags := fl,
    le_img := slot\<lparr>yv_samples := m, yv_metadata := None\<rparr>\<rparr>"
  define ctx' where "ctx' = (slot_taken ctx)\<lparr>la_push_frame_count := la_push_frame_count ctx + 1, la_buf := (la_buf ctx)[nat ?w := e]\<rparr>"
  have "av1_lookahead_push pick oka mok h ctx src ts te hb fl = Some (0, h, ctx')"
    using o src(7) fit copy count
    by (simp add: push_taken [OF room] slot(1) [symmetric] e_def ctx'_def aom_remove_metadata_from_frame_buffer_def int_add_def)
  moreover have "la_buf ctx' ! nat ?w = \<lparr>le_img = slot\<lparr>yv_samples := m, yv_metadata := None\<rparr>, le_ts_start = ts, le_ts_end = te,
      le_display_idx = la_push_frame_count ctx, le_flags = fl\<rparr>"
    using o by (simp add: nat_less_iff e_def ctx'_def)
  ultimately show ?thesis using m by blast
qed

text \<open>A slot made for pictures of one size.\<close>

definition slot_ready :: "int \<Rightarrow> int \<Rightarrow> int \<Rightarrow> int \<Rightarrow> bool \<Rightarrow> int \<Rightarrow> YV12_BUFFER_CONFIG \<Rightarrow> bool" where
  "slot_ready w ht ss_x ss_y high border f \<longleftrightarrow> frame_wf f \<and> samples_ok f \<and> frame_dims f \<and> y_crop_width f = w \<and> y_crop_height f = ht \<and>
     yv_subsampling_x f = ss_x \<and> yv_subsampling_y f = ss_y \<and> is_high f = high \<and> yv_border f = border"

lemma init_entries_ready:
  assumes "init_entries pick h w ht ss_x ss_y high border align i es = Some (True, h', es')" "set es \<subseteq> {zero_entry}"
    and dims: "1 \<le> w" "w \<le> 65536" "1 \<le> ht" "ht \<le> 65536" "ss_x = 0 \<or> ss_x = 1" "ss_y = 0 \<or> ss_y = 1" "0 \<le> border" "border \<le> 1024"
      "0 \<le> high" "high \<le> 15" "align = 0 \<or> align = 2 ^ k \<and> 1 \<le> k \<and> k \<le> 10"
  shows "length es' = length es \<and> (\<forall>e \<in> set es'. slot_ready w ht ss_x ss_y (high \<noteq> 0) border (le_img e))"
  using assms(1,2)
proof (induction es arbitrary: h i es')
  case (Cons e es)
  have e: "e = zero_entry" "le_img e = zero_frame" using Cons.prems(2) by (auto simp: zero_entry_def)
  obtain err h1 p frame h2 es2 where
    a: "aom_realloc_frame_buffer (pick i) h (Some zero_frame) w ht ss_x ss_y high border align None False = Some (err, h1, p)" "p = Some frame" "err = AOM_CODEC_OK"
    and rest: "init_entries pick h1 w ht ss_x ss_y high border align (Suc i) es = Some (True, h', es2)" and es': "es' = e\<lparr>le_img := frame\<rparr> # es2"
    using Cons.prems(1) by (auto simp: e(2) split: bind_splits if_splits)
  note a' = a(1) [unfolded a(2,3)]
  have al: "0 \<le> align" "align \<le> 1024" "even align" using align_even [OF dims(11)] by blast+
  have "frame_wf frame" by (rule realloc_frame_wf [OF a' zero_frame_mem dims(1-10) dims(11)])
  moreover have "samples_ok frame" using fresh_frame_zero [OF a'] by (auto simp: samples_ok_def samples_u16_def)
  ultimately have "slot_ready w ht ss_x ss_y (high \<noteq> 0) border frame"
    using realloc_frame_dims [OF a' zero_frame_mem dims(1-10) al] by (simp add: slot_ready_def)
  moreover have "length es2 = length es \<and> (\<forall>e \<in> set es2. slot_ready w ht ss_x ss_y (high \<noteq> 0) border (le_img e))"
    using Cons.IH [OF rest] Cons.prems(2) by simp
  ultimately show ?case by (simp add: es')
qed simp

lemma init_ring:
  assumes init: "av1_lookahead_init pick okc okb h w ht ss_x ss_y high depth border align lap all_intra = Some (h', Some ctx)"
    and dims: "1 \<le> w" "w \<le> 65536" "1 \<le> ht" "ht \<le> 65536" "ss_x = 0 \<or> ss_x = 1" "ss_y = 0 \<or> ss_y = 1" "0 \<le> border" "border \<le> 1024"
      "0 \<le> high" "high \<le> 15" "align = 0 \<or> align = 2 ^ k \<and> 1 \<le> k \<and> k \<le> 10"
  shows "stage_ok ENCODE_STAGE ctx" "stage_frames ENCODE_STAGE ctx = []" "lap \<noteq> 0 \<Longrightarrow> stage_ok LAP_STAGE ctx"
    "la_max_sz ctx = clamp (depth + lap) 1 96 + la_max_pre_frames ctx" "la_max_pre_frames ctx = (if all_intra then 0 else 1)"
    "av1_lookahead_pop_sz ctx ENCODE_STAGE = clamp (depth + lap) 1 96" "la_push_frame_count ctx = 0" "la_write_idx ctx = 0"
    "\<forall>e \<in> set (la_buf ctx). slot_ready w ht ss_x ss_y (high \<noteq> 0) border (le_img e)"
    "la_read_ctxs ctx ENCODE_STAGE = zero_read_ctx\<lparr>rc_pop_sz := clamp (depth + lap) 1 96, rc_valid := 1\<rparr>"
proof -
  define pre :: int where "pre = (if all_intra then 0 else 1)"
  define n where "n = clamp (depth + lap) 1 96 + pre"
  have n: "0 < n" by (auto simp: n_def pre_def clamp_def)
  obtain es where es: "init_entries pick h w ht ss_x ss_y high border align 0 (replicate (nat n) zero_entry) = Some (True, h', es)"
    and ctx: "ctx = \<lparr>la_max_sz = n, la_write_idx = 0, la_read_ctxs = (\<lambda>s. case s of
        ENCODE_STAGE \<Rightarrow> zero_read_ctx\<lparr>rc_pop_sz := n - pre, rc_valid := 1\<rparr>
      | LAP_STAGE \<Rightarrow> if lap \<noteq> 0 then zero_read_ctx\<lparr>rc_pop_sz := max 1 depth, rc_valid := 1\<rparr> else zero_read_ctx),
      la_buf = es, la_push_frame_count = 0, la_max_pre_frames = pre\<rparr>"
    using init by (auto simp: av1_lookahead_init_def int_add_def MAX_PRE_FRAMES_def MAX_TOTAL_BUFFERS_def Let_def n_def pre_def split: if_splits bind_splits)
  have r: "length es = length (replicate (nat n) zero_entry) \<and> (\<forall>e \<in> set es. slot_ready w ht ss_x ss_y (high \<noteq> 0) border (le_img e))"
    by (rule init_entries_ready [OF es _ dims]) auto
  show "stage_ok ENCODE_STAGE ctx" "lap \<noteq> 0 \<Longrightarrow> stage_ok LAP_STAGE ctx"
    using n r by (simp_all add: stage_ok_def Let_def ctx zero_read_ctx_def)
  show "stage_frames ENCODE_STAGE ctx = []" by (simp add: stage_frames_def Let_def ctx zero_read_ctx_def)
  show "la_max_sz ctx = clamp (depth + lap) 1 96 + la_max_pre_frames ctx" "la_max_pre_frames ctx = (if all_intra then 0 else 1)"
    "av1_lookahead_pop_sz ctx ENCODE_STAGE = clamp (depth + lap) 1 96" "la_push_frame_count ctx = 0" "la_write_idx ctx = 0"
    "\<forall>e \<in> set (la_buf ctx). slot_ready w ht ss_x ss_y (high \<noteq> 0) border (le_img e)"
    "la_read_ctxs ctx ENCODE_STAGE = zero_read_ctx\<lparr>rc_pop_sz := clamp (depth + lap) 1 96, rc_valid := 1\<rparr>"
    using r by (simp_all add: ctx n_def pre_def av1_lookahead_pop_sz_def)
qed

text \<open>A small ring: one frame of lag, one previous frame, pictures of 3 by 3.\<close>

definition small_picks :: "nat \<Rightarrow> int" where "small_picks i = 5008 + 65536 * int i"

lemma small_init:
  "\<exists>h ctx. av1_lookahead_init small_picks True True sample_heap 3 3 1 1 0 1 64 32 0 False = Some (h, Some ctx)"
proof -
  obtain h1 f1 where e1: "aom_realloc_frame_buffer (small_picks 0) sample_heap (Some zero_frame) 3 3 1 1 0 64 32 None False = Some (AOM_CODEC_OK, h1, Some f1)"
    and l1: "live h1 = [(5008, 32775), (4096, 64)]"
    by (simp add: alloc_eval zero_frame_def sample_heap_def small_picks_def SetActualMallocAddress_def Let_def)
  obtain h2 f2 where e2: "aom_realloc_frame_buffer (small_picks (Suc 0)) h1 (Some zero_frame) 3 3 1 1 0 64 32 None False = Some (AOM_CODEC_OK, h2, Some f2)"
    by (simp add: alloc_eval zero_frame_def small_picks_def SetActualMallocAddress_def Let_def l1)
  have "le_img zero_entry = zero_frame" by (simp add: zero_entry_def)
  with e1 e2 show ?thesis
    by (simp add: av1_lookahead_init_def int_add_def MAX_PRE_FRAMES_def MAX_TOTAL_BUFFERS_def clamp_def Let_def numeral_2_eq_2)
qed


lemma slot_ready_source:
  assumes "slot_ready w ht ss_x ss_y high border f" "y_crop_width src = w" "y_crop_height src = ht" "yv_subsampling_x src = ss_x"
    "yv_subsampling_y src = ss_y" "uv_crop_width src = shr (w + ss_x) (nat ss_x)" "uv_crop_height src = shr (ht + ss_y) (nat ss_y)"
  shows "plane_crop_width src = plane_crop_width f" "plane_crop_height src = plane_crop_height f"
    "yv_subsampling_x src = yv_subsampling_x f" "yv_subsampling_y src = yv_subsampling_y f"
  using assms by (auto simp: slot_ready_def frame_dims_def plane_crop_width_def plane_crop_height_def fun_eq_iff)

text \<open>C8. Frames leave the lookahead in the order they entered it. In a ring with the slot for a previous
  frame that every mode but all-intra gives it, over any run of pushes, whatever they return, and
  of pops of either stage, draining or not, what the encode stage had queued followed by what was
  pushed is what it took followed by what it still has queued: none is lost, doubled or overtaken. A
  push that finds the ring full queues nothing; every other push queues the slot it took, also
  when it returns 1 for want of memory, and then the slot does not hold the caller's frame whole.\<close>

theorem lookahead_in_order:
  assumes "queue_run la_push (la_take ENCODE_STAGE) (la_idle ENCODE_STAGE) c ins outs c'"
    and "stage_ok ENCODE_STAGE (snd c)" "1 \<le> la_max_pre_frames (snd c)"
  shows "stage_ok ENCODE_STAGE (snd c') \<and>
    stage_frames ENCODE_STAGE (snd c) @ ins = outs @ stage_frames ENCODE_STAGE (snd c')"
  using encode_queue.run_in_order [OF assms(1)] assms(2,3) by (simp add: encode_ok_def)

lemma small_push:
  obtains h ctx ctx' m where
    "av1_lookahead_init small_picks True True sample_heap 3 3 1 1 0 1 64 32 0 False = Some (h, Some ctx)"
    "stage_ok ENCODE_STAGE ctx" "stage_frames ENCODE_STAGE ctx = []" "la_max_pre_frames ctx = 1" "la_max_sz ctx = 2" "la_write_idx ctx = 0"
    "slot_ready 3 3 1 1 False 64 (le_img (la_buf ctx ! 0))" "rc_sz (la_read_ctxs ctx ENCODE_STAGE) = 0" "rc_read_idx (la_read_ctxs ctx ENCODE_STAGE) = 0"
    "la_push_frame_count ctx = 0"
    "av1_lookahead_push pick oka ok h ctx nv12_source 10 20 0 0 = Some (0, h, ctx')"
proof -
  obtain h ctx where i: "av1_lookahead_init small_picks True True sample_heap 3 3 1 1 0 1 64 32 0 False = Some (h, Some ctx)" using small_init by blast
  note r = init_ring [OF i, where k = 5, simplified]
  have sz: "la_max_sz ctx = 2" using r(4) by (simp add: r(5) clamp_def)
  then have "2 = length (la_buf ctx)" using r(1) by (simp add: stage_ok_def Let_def)
  then have slot: "slot_ready 3 3 1 1 False 64 (le_img (la_buf ctx ! 0))" using r(9) by (simp add: nth_mem)
  have nv: "y_crop_width nv12_source = 3" "y_crop_height nv12_source = 3" "yv_subsampling_x nv12_source = 1" "yv_subsampling_y nv12_source = 1"
    "uv_crop_width nv12_source = shr (3 + 1) (nat 1)" "uv_crop_height nv12_source = shr (3 + 1) (nat 1)" "yv_metadata nv12_source = None"
    "\<not> is_high nv12_source"
    by (simp_all add: nv12_source_def zero_frame_def shr_def is_high_def)
  note same = slot_ready_source [OF slot nv(1-6)]
  have w: "la_write_idx ctx = 0" and rc: "rc_sz (la_read_ctxs ctx ENCODE_STAGE) = 0" "rc_read_idx (la_read_ctxs ctx ENCODE_STAGE) = 0"
    using r(8,10) by (simp_all add: zero_read_ctx_def)
  have "\<exists>ctx' m. av1_lookahead_push pick oka ok h ctx nv12_source 10 20 0 0 = Some (0, h, ctx') \<and>
    la_buf ctx' ! nat (la_write_idx ctx) = \<lparr>le_img = (le_img (la_buf ctx ! 0))\<lparr>yv_samples := m, yv_metadata := None\<rparr>, le_ts_start = 10, le_ts_end = 20,
      le_display_idx = la_push_frame_count ctx, le_flags = 0\<rparr> \<and>
    sourced_planes nv12_source (le_img (la_buf ctx ! 0)) 0 (source_planes nv12_source) = (le_img (la_buf ctx ! 0))\<lparr>yv_samples := m\<rparr>"
    by (rule push_stores [OF r(1) _ _ _ _ _ _ _ nv12_source_ok])
      (use slot same nv w rc sz r(5,7) in \<open>simp_all add: slot_ready_def let_in_def\<close>)
  then show thesis using that [OF i r(1,2) _ sz w slot rc] r(5,7) by auto
qed

theorem lookahead_in_order_witness:
  "\<exists>c e c'. queue_run la_push (la_take ENCODE_STAGE) (la_idle ENCODE_STAGE) c [e] [e] c' \<and> stage_frames ENCODE_STAGE (snd c') = []"
proof -
  obtain h ctx ctx' where i: "stage_ok ENCODE_STAGE ctx" "stage_frames ENCODE_STAGE ctx = []" "la_max_pre_frames ctx = 1"
    and push: "av1_lookahead_push 0 (\<lambda>_. True) (\<lambda>_ _. True) h ctx nv12_source 10 20 0 0 = Some (0, h, ctx')"
    using small_push [where pick = 0 and oka = "\<lambda>_. True" and ok = "\<lambda>_ _. True"] by metis
  define e where "e = la_buf ctx' ! nat (la_write_idx ctx)"
  have p: "la_push (h, ctx) e (h, ctx')" unfolding la_push_def e_def fst_conv snd_conv using push push_ok_let_in [OF push] by blast
  have ok: "encode_ok (h, ctx)" using i by (simp add: encode_ok_def)
  note q = encode_queue.push_appends [OF ok p]
  obtain r c' where t: "la_take ENCODE_STAGE True (h, ctx') = (r, c')" by (rule prod.exhaust)
  have "r = Some e" using encode_queue.drain_delivers(1) [of "(h, ctx')", OF _ _ t] q i(2) by simp
  with t have t': "la_take ENCODE_STAGE True (h, ctx') = (Some e, c')" by simp
  have "queue_run la_push (la_take ENCODE_STAGE) (la_idle ENCODE_STAGE) (h, ctx) ([] @ [e]) [] (h, ctx')"
    by (rule run_push [of la_push, OF run_start p])
  from run_pop [of la_push, OF this t']
  have "queue_run la_push (la_take ENCODE_STAGE) (la_idle ENCODE_STAGE) (h, ctx) ([] @ [e]) ([] @ [e]) c'" .
  moreover from lookahead_in_order [OF this] i have "stage_frames ENCODE_STAGE (snd c') = []" by simp
  ultimately show ?thesis by (intro exI) auto
qed

text \<open>C21. A pushed frame is in the queue with its picture. When the ring has room, the frame in the next
  slot has the source's size, subsampling and sample width and a border of at least 64, the source carries
  no metadata and fewer than \<open>2 ^ 31 - 1\<close> frames have been pushed, \<open>av1_lookahead_push\<close> returns 0 and allocates nothing; peeking at the old depth finds the entry, with the
  caller's time stamps and flags and the running number of the frame, and its samples, border
  included, are the source's at the nearest row and column. The frames queued before are still there.\<close>

theorem lookahead_push_arrives:
  assumes "stage_ok ENCODE_STAGE ctx" "0 \<le> la_push_frame_count ctx" "la_push_frame_count ctx < 2147483647" "rc_sz (la_read_ctxs ctx ENCODE_STAGE) + la_max_pre_frames ctx \<le> la_max_sz ctx"
    "rc_sz (la_read_ctxs ctx ENCODE_STAGE) < la_max_sz ctx"
    and slot: "slot_ready w ht ss_x ss_y (is_high src) border (le_img (la_buf ctx ! nat (la_write_idx ctx)))" "64 \<le> border"
    and src: "source_ok src" "y_crop_width src = w" "y_crop_height src = ht" "yv_subsampling_x src = ss_x" "yv_subsampling_y src = ss_y"
      "uv_crop_width src = shr (w + ss_x) (nat ss_x)" "uv_crop_height src = shr (ht + ss_y) (nat ss_y)" "yv_metadata src = None"
  shows "\<exists>ctx' i. av1_lookahead_push pick oka ok h ctx src ts te hb fl = Some (0, h, ctx') \<and>
    av1_lookahead_peek (Some ctx') (av1_lookahead_depth ctx ENCODE_STAGE) ENCODE_STAGE = Some i \<and>
    stage_frames ENCODE_STAGE ctx' = stage_frames ENCODE_STAGE ctx @ [la_buf ctx' ! nat i] \<and>
    le_ts_start (la_buf ctx' ! nat i) = ts \<and> le_ts_end (la_buf ctx' ! nat i) = te \<and> le_flags (la_buf ctx' ! nat i) = fl \<and>
    le_display_idx (la_buf ctx' ! nat i) = la_push_frame_count ctx \<and>
    (\<forall>p r c. p < source_planes src \<and> in_plane (le_img (la_buf ctx' ! nat i)) p r c \<and>
        r < plane_crop_height src p + plane_top (le_img (la_buf ctx' ! nat i)) p \<and>
        c < plane_crop_width src p + plane_left (le_img (la_buf ctx' ! nat i)) p \<longrightarrow>
      sample (le_img (la_buf ctx' ! nat i)) p r c =
        yv_samples src ! nat (source_cell src p (clamp r 0 (plane_crop_height src p - 1)) (clamp c 0 (plane_crop_width src p - 1))))"
proof -
  define slot where "slot = le_img (la_buf ctx ! nat (la_write_idx ctx))"
  have sl: "frame_wf slot" "samples_ok slot" "64 \<le> yv_border slot" "is_high src = is_high slot"
    using slot by (simp_all add: slot_ready_def slot_def)
  note same = slot_ready_source [OF slot(1) src(2-7), folded slot_def]
  obtain ctx' m where p: "av1_lookahead_push pick oka ok h ctx src ts te hb fl = Some (0, h, ctx')"
    and e: "la_buf ctx' ! nat (la_write_idx ctx) = \<lparr>le_img = slot\<lparr>yv_samples := m, yv_metadata := None\<rparr>, le_ts_start = ts, le_ts_end = te,
      le_display_idx = la_push_frame_count ctx, le_flags = fl\<rparr>"
    and m: "sourced_planes src slot 0 (source_planes src) = slot\<lparr>yv_samples := m\<rparr>"
    using push_stores [OF assms(1) assms(4) [folded let_in_def] assms(2,3) slot_def sl(1-3) src(1) sl(4) same src(8)] by blast
  note st = stage_push [OF assms(1,5) p push_ok_let_in [OF p]]
  let ?rc = "la_read_ctxs ctx ENCODE_STAGE"
  have o: "la_write_idx ctx = (rc_read_idx ?rc + rc_sz ?rc) mod la_max_sz ctx" "0 \<le> rc_sz ?rc" using assms(1) by (simp_all add: stage_ok_def Let_def)
  have rd: "rc_read_idx (la_read_ctxs ctx' ENCODE_STAGE) = rc_read_idx ?rc" using p push_ok_let_in [OF p] by (rule push_cases) (simp add: counted_def)
  have peek: "av1_lookahead_peek (Some ctx') (av1_lookahead_depth ctx ENCODE_STAGE) ENCODE_STAGE = Some (la_write_idx ctx)"
    using stage_peek(1) [OF st(1), of "rc_sz ?rc"] o st(3,5) rd by (simp add: av1_lookahead_depth_def)
  have im: "plane_top (slot\<lparr>yv_samples := m, yv_metadata := None\<rparr>) = plane_top slot" "plane_left (slot\<lparr>yv_samples := m, yv_metadata := None\<rparr>) = plane_left slot"
    "in_plane (slot\<lparr>yv_samples := m, yv_metadata := None\<rparr>) = in_plane slot"
    "sample (slot\<lparr>yv_samples := m, yv_metadata := None\<rparr>) p r c = m ! nat (plane_cell slot p r c)" for p r c
    by (auto simp: fun_eq_iff plane_top_def plane_left_def in_plane_def plane_height_def plane_width_def sample_def plane_cell_def plane_stride_def
        frame_plane_def frame_base_def is_high_def)
  have n3: "0 + source_planes src \<le> 3" by (simp add: source_planes_def)
  obtain m' where m': "sourced_planes src slot 0 (source_planes src) = slot\<lparr>yv_samples := m'\<rparr>"
    "\<And>p r c. p < 3 \<Longrightarrow> in_plane slot p r c \<Longrightarrow> r < plane_crop_height slot p + plane_top slot p \<Longrightarrow> c < plane_crop_width slot p + plane_left slot p \<Longrightarrow>
      m' ! nat (plane_cell slot p r c) = (if 0 \<le> p \<and> p < 0 + source_planes src
        then yv_samples src ! nat (source_cell src p (clamp r 0 (plane_crop_height slot p - 1)) (clamp c 0 (plane_crop_width slot p - 1))) else sample slot p r c)"
    using sourced_planes_result [OF sl(1) n3, of src] by blast
  have "yv_samples (slot\<lparr>yv_samples := m\<rparr>) = yv_samples (slot\<lparr>yv_samples := m'\<rparr>)" using m m'(1) by simp
  then have mm: "m' = m" by simp
  show ?thesis
    using p peek st(2) n3 m'(2) by (intro exI [of _ ctx'] exI [of _ "la_write_idx ctx"]) (simp add: e im same mm)
qed

theorem lookahead_push_arrives_witness:
  "\<exists>h ctx ctx' i. av1_lookahead_push 0 (\<lambda>_. True) (\<lambda>_ _. True) h ctx nv12_source 10 20 0 0 = Some (0, h, ctx') \<and>
    av1_lookahead_peek (Some ctx') (av1_lookahead_depth ctx ENCODE_STAGE) ENCODE_STAGE = Some i \<and> le_ts_start (la_buf ctx' ! nat i) = 10"
proof -
  obtain h :: heap and ctx where i: "stage_ok ENCODE_STAGE ctx" "la_max_pre_frames ctx = 1" "la_max_sz ctx = 2" "la_write_idx ctx = 0"
    "slot_ready 3 3 1 1 False 64 (le_img (la_buf ctx ! 0))" "rc_sz (la_read_ctxs ctx ENCODE_STAGE) = 0"
    "la_push_frame_count ctx = 0"
    using small_push [where pick = 0 and oka = "\<lambda>_. True" and ok = "\<lambda>_ _. True"] by metis
  have nv: "y_crop_width nv12_source = 3" "y_crop_height nv12_source = 3" "yv_subsampling_x nv12_source = 1" "yv_subsampling_y nv12_source = 1"
    "uv_crop_width nv12_source = shr (3 + 1) (nat 1)" "uv_crop_height nv12_source = shr (3 + 1) (nat 1)" "yv_metadata nv12_source = None"
    "is_high nv12_source = False"
    by (simp_all add: nv12_source_def zero_frame_def shr_def is_high_def)
  from lookahead_push_arrives [OF i(1) _ _ _ _ _ _ nv12_source_ok nv(1-7), of 64 0 "\<lambda>_. True" "\<lambda>_ _. True" h 10 20 0 0]
  show ?thesis using i nv(8) by auto
qed


text \<open>C27. A new lookahead is empty and ready. Whatever the depth asked for, the ring that \<open>av1_lookahead_init\<close>
  returns has between 1 and 96 slots for frames and one more for the previous frame outside
  all-intra mode; its indices agree, nothing is queued, its pop size is the number of slots
  for frames, and every slot holds a laid-out frame of the given size, format and border.\<close>

theorem lookahead_init_ready:
  assumes "av1_lookahead_init pick okc okb h w ht ss_x ss_y high depth border align lap all_intra = Some (h', Some ctx)"
    and "1 \<le> w" "w \<le> 65536" "1 \<le> ht" "ht \<le> 65536" "ss_x = 0 \<or> ss_x = 1" "ss_y = 0 \<or> ss_y = 1" "0 \<le> border" "border \<le> 1024"
      "0 \<le> high" "high \<le> 15" "align = 0 \<or> align = 2 ^ k \<and> 1 \<le> k \<and> k \<le> 10"
  shows "stage_ok ENCODE_STAGE ctx \<and> (lap \<noteq> 0 \<longrightarrow> stage_ok LAP_STAGE ctx) \<and> stage_frames ENCODE_STAGE ctx = [] \<and>
    la_max_sz ctx = clamp (depth + lap) 1 96 + (if all_intra then 0 else 1) \<and> av1_lookahead_pop_sz ctx ENCODE_STAGE = clamp (depth + lap) 1 96 \<and>
    (\<forall>e \<in> set (la_buf ctx). slot_ready w ht ss_x ss_y (high \<noteq> 0) border (le_img e))"
  using init_ring [OF assms] by simp

theorem lookahead_init_ready_witness:
  "\<exists>h ctx. av1_lookahead_init small_picks True True sample_heap 3 3 1 1 0 1 64 32 0 False = Some (h, Some ctx) \<and>
    stage_ok ENCODE_STAGE ctx \<and> la_max_sz ctx = 2 \<and> (\<forall>e \<in> set (la_buf ctx). slot_ready 3 3 1 1 False 64 (le_img e))"
proof -
  obtain h ctx where i: "av1_lookahead_init small_picks True True sample_heap 3 3 1 1 0 1 64 32 0 False = Some (h, Some ctx)" using small_init by blast
  from lookahead_init_ready [OF i, where k = 5] i show ?thesis by (auto simp: clamp_def)
qed

text \<open>The previous frame stays in reach. After the encoder took a frame, peeking at -1 finds it, and it is
  still the same frame after a further push, as long as that push does not fill the last slot.\<close>

theorem lookahead_previous_kept:
  assumes pop: "av1_lookahead_pop (Some ctx) drain ENCODE_STAGE = (Some i, Some ctx1)" and ok: "stage_ok ENCODE_STAGE ctx" "1 \<le> la_max_pre_frames ctx"
    and push: "av1_lookahead_push pick oka mok h ctx1 src ts te hb fl = Some (0, h', ctx2)"
    and room: "rc_sz (la_read_ctxs ctx1 ENCODE_STAGE) + 1 < la_max_sz ctx1"
  shows "av1_lookahead_peek (Some ctx1) (- 1) ENCODE_STAGE = Some i \<and> av1_lookahead_peek (Some ctx2) (- 1) ENCODE_STAGE = Some i \<and>
    la_buf ctx2 ! nat i = la_buf ctx ! nat i"
proof -
  let ?n = "la_max_sz ctx" and ?k = "rc_sz (la_read_ctxs ctx1 ENCODE_STAGE)"
  note pk = peek_previous [OF pop ok]
  obtain q where q: "stage_ok ENCODE_STAGE ctx1" "la_max_pre_frames ctx1 = la_max_pre_frames ctx" using stage_pop [OF ok(1) pop] by auto
  have same: "la_max_sz ctx1 = ?n" "la_buf ctx1 = la_buf ctx"
    using pop by (auto simp: av1_lookahead_pop_def la_pop_def Let_def split: if_splits)
  from push push_ok_let_in [OF push] obtain e m where e: "ctx2 = (slot_taken ctx1)\<lparr>la_push_frame_count := m,
      la_buf := (la_buf ctx1)[nat (la_write_idx ctx1) := e]\<rparr>"
    by (rule push_cases)
  have o: "0 \<le> i" "i < ?n" "0 \<le> ?k" "la_write_idx ctx1 = ((i + 1) mod ?n + ?k) mod ?n"
    using ok(1) q(1) pk(2,3) same by (simp_all add: stage_ok_def Let_def)
  have "la_write_idx ctx1 \<noteq> i"
  proof
    assume "la_write_idx ctx1 = i"
    then have "(i + (1 + ?k)) mod ?n = i mod ?n" using o by (simp add: mod_add_left_eq add.assoc)
    then have "?n dvd (i + (1 + ?k)) - i" by (metis mod_eq_dvd_iff)
    then have "?n dvd 1 + ?k" by simp
    moreover have "0 < 1 + ?k" "1 + ?k < ?n" using o(3) room same by simp_all
    ultimately show False using zdvd_not_zless by blast
  qed
  moreover have "0 \<le> la_write_idx ctx1" using o by simp
  ultimately have "la_buf ctx2 ! nat i = la_buf ctx ! nat i" using o(1) by (simp add: e same nat_eq_iff)
  moreover have "av1_lookahead_peek (Some ctx2) (- 1) ENCODE_STAGE = av1_lookahead_peek (Some ctx1) (- 1) ENCODE_STAGE"
    by (simp add: e av1_lookahead_peek_def Let_def counted_def)
  ultimately show ?thesis using pk(1) by simp
qed

text \<open>A push into a full queue. The test lets one frame more in than there are slots for frames: it
  replaces the frame \<open>la_max_pre_frames\<close> before the oldest one queued, which is the previous frame, and in
  all-intra mode the oldest frame of the queue itself.\<close>

theorem full_push_overwrites:
  assumes ok: "stage_ok ENCODE_STAGE ctx" and full: "rc_sz (la_read_ctxs ctx ENCODE_STAGE) + la_max_pre_frames ctx = la_max_sz ctx"
    and pre: "la_max_pre_frames ctx = 0 \<or> la_max_pre_frames ctx = 1"
    and push: "av1_lookahead_push pick oka mok h ctx src ts te hb fl = Some (0, h', ctx')"
  shows "\<exists>i. av1_lookahead_peek (Some ctx) (- la_max_pre_frames ctx) ENCODE_STAGE = Some i \<and>
    le_display_idx (la_buf ctx' ! nat i) = la_push_frame_count ctx \<and> av1_lookahead_depth ctx' ENCODE_STAGE = av1_lookahead_depth ctx ENCODE_STAGE + 1"
proof -
  let ?rc = "la_read_ctxs ctx ENCODE_STAGE" and ?n = "la_max_sz ctx"
  have o: "0 < ?n" "0 \<le> rc_read_idx ?rc" "rc_read_idx ?rc < ?n" "la_write_idx ctx = (rc_read_idx ?rc + rc_sz ?rc) mod ?n"
    using ok by (simp_all add: stage_ok_def Let_def)
  from push push_ok_let_in [OF push] obtain e m where e: "0 \<le> la_write_idx ctx" "la_write_idx ctx < int (length (la_buf ctx))"
    "ctx' = (slot_taken ctx)\<lparr>la_push_frame_count := m, la_buf := (la_buf ctx)[nat (la_write_idx ctx) := e]\<rparr>"
    "le_display_idx e = la_push_frame_count ctx"
    by (rule push_cases) simp
  have "(rc_read_idx ?rc + rc_sz ?rc) mod ?n = (if rc_read_idx ?rc - la_max_pre_frames ctx < 0 then rc_read_idx ?rc - la_max_pre_frames ctx + ?n
      else rc_read_idx ?rc - la_max_pre_frames ctx)" (is "_ = ?i")
  proof -
    have "rc_read_idx ?rc + rc_sz ?rc = rc_read_idx ?rc - la_max_pre_frames ctx + ?n" using full by simp
    then have "(rc_read_idx ?rc + rc_sz ?rc) mod ?n = (rc_read_idx ?rc - la_max_pre_frames ctx) mod ?n" by (simp only: mod_add_self2)
    also have "\<dots> = ?i mod ?n" by simp
    also have "\<dots> = ?i" using o pre by (intro mod_pos_pos_trivial) auto
    finally show ?thesis .
  qed
  moreover have "av1_lookahead_peek (Some ctx) (- la_max_pre_frames ctx) ENCODE_STAGE = Some ?i"
    using pre full o by (auto simp: av1_lookahead_peek_def Let_def)
  moreover have "la_buf ctx' ! nat (la_write_idx ctx) = e" using e(1,2) by (simp add: e(3) nat_less_iff)
  moreover have "av1_lookahead_depth ctx' ENCODE_STAGE = av1_lookahead_depth ctx ENCODE_STAGE + 1" by (simp add: av1_lookahead_depth_def e(3) counted_def)
  ultimately show ?thesis using e(4) o(4) by (intro exI [of _ ?i]) simp
qed

text \<open>A push that needs a larger frame and cannot have it returns 1, but it has counted the frame: the queue
  is one longer, its new entry the old contents of the slot.\<close>

theorem failed_push_is_queued:
  assumes ok: "stage_ok ENCODE_STAGE ctx" and room: "rc_sz (la_read_ctxs ctx ENCODE_STAGE) + la_max_pre_frames ctx \<le> la_max_sz ctx"
    and larger: "y_crop_width src > y_crop_width (le_img (la_buf ctx ! nat (la_write_idx ctx)))"
    and none: "aom_alloc_frame_buffer pick h (Some zero_frame) (y_crop_width src) (y_crop_height src) (yv_subsampling_x src) (yv_subsampling_y src) hb
      288 0 False = Some (AOM_CODEC_MEM_ERROR, h1, f)"
  shows "\<exists>ctx'. av1_lookahead_push pick oka mok h ctx src ts te hb fl = Some (1, h1, ctx') \<and> la_buf ctx' = la_buf ctx \<and>
    av1_lookahead_depth ctx' ENCODE_STAGE = av1_lookahead_depth ctx ENCODE_STAGE + 1"
proof -
  let ?w = "la_write_idx ctx"
  have o: "0 \<le> ?w" "?w < int (length (la_buf ctx))" using ok by (simp_all add: stage_ok_def Let_def)
  have "fit_slot pick h (le_img (la_buf ctx ! nat ?w)) src hb = Some (h1, None)"
    using larger none by (simp add: fit_slot_def AOM_BORDER_IN_PIXELS_def)
  then have "av1_lookahead_push pick oka mok h ctx src ts te hb fl = Some (1, h1, slot_taken ctx)"
    using room o by (simp add: push_taken let_in_def)
  then show ?thesis by (simp add: av1_lookahead_depth_def counted_def)
qed

end
