(* ===== verification/Frame_Pool.thy ===== *)
theory Frame_Pool
  imports Frame_Buffer
begin

text \<open>
  The pool of frame buffers of a decoder: the reference counts of the frames
  (\<open>av1/common/av1_common_int.h\<close>, \<open>av1/decoder/decoder.h\<close>) and the blocks of memory they are
  decoded into, which come from callbacks of the application or from the list of internal
  buffers in \<open>av1/common/frame_buffers.c\<close>. A pointer to a frame of the pool is its index, and a
  pointer to an internal buffer is its index too. The mutex of the pool is left out: a decoder
  is called by one thread at a time.
\<close>

section \<open>Internal frame buffers\<close>

record aom_codec_frame_buffer =
  fb_data :: int
  fb_size :: int
  fb_priv :: "nat option"

record InternalFrameBuffer =
  ifb_data :: int
  ifb_size :: int
  in_use :: int

record InternalFrameBufferList =
  num_internal_frame_buffers :: int
  int_fb_block :: int
  int_fb :: "InternalFrameBuffer list"

definition AOM_MAXIMUM_WORK_BUFFERS :: int where "AOM_MAXIMUM_WORK_BUFFERS = 8"
definition AOM_MAXIMUM_REF_BUFFERS :: int where "AOM_MAXIMUM_REF_BUFFERS = 8"

text \<open>The loop of \<open>av1_free_internal_frame_buffers\<close>: the heap without the blocks of the buffers.\<close>

fun free_int_fbs :: "heap \<Rightarrow> InternalFrameBuffer list \<Rightarrow> heap option" where
  "free_int_fbs h [] = Some h"
| "free_int_fbs h (b # bs) = do { h \<leftarrow> aom_free h (ifb_data b); free_int_fbs h bs }"

definition av1_free_internal_frame_buffers ::
  "heap \<Rightarrow> InternalFrameBufferList \<Rightarrow> (heap \<times> InternalFrameBufferList) option" where
  "av1_free_internal_frame_buffers h l =
     do {
       h \<leftarrow> free_int_fbs h (take (nat (num_internal_frame_buffers l)) (int_fb l));
       h \<leftarrow> aom_free h (int_fb_block l);
       Some (h, l\<lparr>int_fb_block := 0, int_fb := [], num_internal_frame_buffers := 0\<rparr>)
     }"

text \<open>An \<open>InternalFrameBuffer\<close> takes 24 bytes.\<close>

definition av1_alloc_internal_frame_buffers ::
  "int \<Rightarrow> heap \<Rightarrow> InternalFrameBufferList \<Rightarrow> (int \<times> heap \<times> InternalFrameBufferList) option" where
  "av1_alloc_internal_frame_buffers pick h l =
     do {
       (h, l) \<leftarrow> av1_free_internal_frame_buffers h l;
       let n = AOM_MAXIMUM_REF_BUFFERS + AOM_MAXIMUM_WORK_BUFFERS;
       let (x, h) = aom_calloc pick h n 24;
       Some (if x = 0 then (1, h, l\<lparr>num_internal_frame_buffers := 0, int_fb_block := 0, int_fb := []\<rparr>)
             else (0, h, l\<lparr>num_internal_frame_buffers := n, int_fb_block := x,
                     int_fb := replicate (nat n) \<lparr>ifb_data = 0, ifb_size = 0, in_use = 0\<rparr>\<rparr>))
     }"

fun zero_unused :: "(int \<Rightarrow> int) \<Rightarrow> InternalFrameBuffer list \<Rightarrow> (int \<Rightarrow> int)" where
  "zero_unused m [] = m"
| "zero_unused m (b # bs) =
     zero_unused (if ifb_data b \<noteq> 0 \<and> in_use b = 0 then memset m (ifb_data b) 0 (ifb_size b) else m) bs"

definition av1_zero_unused_internal_frame_buffers :: "heap \<Rightarrow> InternalFrameBufferList \<Rightarrow> heap" where
  "av1_zero_unused_internal_frame_buffers h l =
     h\<lparr>mem := zero_unused (mem h) (take (nat (num_internal_frame_buffers l)) (int_fb l))\<rparr>"

text \<open>The first buffer not in use, or the number of buffers.\<close>

fun first_unused :: "InternalFrameBuffer list \<Rightarrow> nat" where
  "first_unused [] = 0"
| "first_unused (b # bs) = (if in_use b = 0 then 0 else Suc (first_unused bs))"

text \<open>\<open>cb_priv\<close> is the heap with the list, or NULL.\<close>

definition av1_get_frame_buffer ::
  "int \<Rightarrow> heap \<times> InternalFrameBufferList option \<Rightarrow> int \<Rightarrow> aom_codec_frame_buffer \<Rightarrow>
    (int \<times> aom_codec_frame_buffer \<times> heap \<times> InternalFrameBufferList option) option" where
  "av1_get_frame_buffer pick c min_size fb =
     (case c of
        (h, None) \<Rightarrow> Some (-1, fb, c)
      | (h, Some l) \<Rightarrow>
          let i = first_unused (take (nat (num_internal_frame_buffers l)) (int_fb l)) in
          if int i = num_internal_frame_buffers l then Some (-1, fb, c)
          else
            do {
              (ok, h, b) \<leftarrow> (let b = int_fb l ! i in
                if ifb_size b < min_size then
                  do {
                    h \<leftarrow> aom_free h (ifb_data b);
                    let (x, h) = aom_calloc pick h 1 min_size;
                    Some (if x = 0 then (False, h, b\<lparr>ifb_data := 0, ifb_size := 0\<rparr>)
                          else (True, h, b\<lparr>ifb_data := x, ifb_size := min_size\<rparr>))
                  }
                else Some (True, h, b));
              if \<not> ok then Some (-1, fb, h, Some (l\<lparr>int_fb := (int_fb l)[i := b]\<rparr>))
              else
                Some (0, \<lparr>fb_data = ifb_data b, fb_size = ifb_size b, fb_priv = Some i\<rparr>,
                      h, Some (l\<lparr>int_fb := (int_fb l)[i := b\<lparr>in_use := 1\<rparr>]\<rparr>))
            })"

text \<open>The internal buffer behind a frame buffer is one of the list.\<close>

definition av1_release_frame_buffer ::
  "heap \<times> InternalFrameBufferList option \<Rightarrow> aom_codec_frame_buffer \<Rightarrow> (int \<times> heap \<times> InternalFrameBufferList option) option" where
  "av1_release_frame_buffer c fb =
     (case fb_priv fb of
        None \<Rightarrow> Some (0, c)
      | Some i \<Rightarrow>
          (case c of
             (h, Some l) \<Rightarrow>
               if i < length (int_fb l) then Some (0, h, Some (l\<lparr>int_fb := (int_fb l)[i := (int_fb l ! i)\<lparr>in_use := 0\<rparr>]\<rparr>)) else None
           | (h, None) \<Rightarrow> None))"

section \<open>The pool\<close>

text \<open>
  The callbacks of a pool over what they keep. \<open>get_fb_cb\<close> has the address the C library would
  answer a request with as its first argument; \<open>fb_bytes\<close> is what the block of a frame buffer
  holds.
\<close>

record 'c frame_callbacks =
  get_fb_cb :: "int \<Rightarrow> 'c \<Rightarrow> int \<Rightarrow> aom_codec_frame_buffer \<Rightarrow> (int \<times> aom_codec_frame_buffer \<times> 'c) option"
  release_fb_cb :: "'c \<Rightarrow> aom_codec_frame_buffer \<Rightarrow> (int \<times> 'c) option"
  fb_bytes :: "'c \<Rightarrow> aom_codec_frame_buffer \<Rightarrow> int list"

definition internal_callbacks :: "(heap \<times> InternalFrameBufferList option) frame_callbacks" where
  "internal_callbacks = \<lparr>get_fb_cb = av1_get_frame_buffer, release_fb_cb = av1_release_frame_buffer,
     fb_bytes = (\<lambda>c fb. map (\<lambda>i. mem (fst c) (fb_data fb + int i)) [0..<nat (fb_size fb)])\<rparr>"

record RefCntBuffer =
  ref_count :: int
  rc_order_hint :: int
  rc_ref_order_hints :: "int list"
  rc_width :: int
  rc_height :: int
  showable_frame :: int
  apply_grain :: int
  raw_frame_buffer :: aom_codec_frame_buffer
  rc_buf :: YV12_BUFFER_CONFIG
  rc_temporal_id :: int
  rc_spatial_id :: int
  rc_frame_type :: int

record 'c BufferPool =
  frame_bufs :: "RefCntBuffer list"
  cb_priv :: 'c

definition REF_FRAMES :: nat where "REF_FRAMES = 8"
definition INTER_REFS_PER_FRAME :: nat where "INTER_REFS_PER_FRAME = 7"
definition FRAME_BUFFERS :: nat where "FRAME_BUFFERS = REF_FRAMES + 1 + INTER_REFS_PER_FRAME"
definition MAX_NUM_SPATIAL_LAYERS :: nat where "MAX_NUM_SPATIAL_LAYERS = 4"
definition INVALID_IDX :: int where "INVALID_IDX = -1"

definition null_fb :: aom_codec_frame_buffer where
  "null_fb = \<lparr>fb_data = 0, fb_size = 0, fb_priv = None\<rparr>"

fun first_free :: "RefCntBuffer list \<Rightarrow> nat" where
  "first_free [] = 0"
| "first_free (b # bs) = (if ref_count b = 0 then 0 else Suc (first_free bs))"

text \<open>The planes of a frame that showed external memory, put back.\<close>

definition restore_internal :: "YV12_BUFFER_CONFIG \<Rightarrow> YV12_BUFFER_CONFIG" where
  "restore_internal ybf =
     (if use_external_reference_buffers ybf \<noteq> 0 then
        ybf\<lparr>y_buffer := store_buf_adr ybf ! 0, u_buffer := store_buf_adr ybf ! 1, v_buffer := store_buf_adr ybf ! 2,
            use_external_reference_buffers := 0\<rparr>
      else ybf)"

definition get_free_fb :: "'c BufferPool \<Rightarrow> int \<times> 'c BufferPool" where
  "get_free_fb p =
     (let i = first_free (frame_bufs p) in
      if i \<noteq> length (frame_bufs p) then
        let b = frame_bufs p ! i in
        (int i, p\<lparr>frame_bufs := (frame_bufs p)[i := b\<lparr>rc_buf := restore_internal (rc_buf b), ref_count := 1\<rparr>]\<rparr>)
      else (INVALID_IDX, p))"

text \<open>Change the count of a frame.\<close>

definition add_ref :: "int \<Rightarrow> nat \<Rightarrow> 'c BufferPool \<Rightarrow> 'c BufferPool" where
  "add_ref d k p = p\<lparr>frame_bufs := (frame_bufs p)[k := (frame_bufs p ! k)\<lparr>ref_count := ref_count (frame_bufs p ! k) + d\<rparr>]\<rparr>"

definition assign_frame_buffer_p :: "nat option \<Rightarrow> nat \<Rightarrow> 'c BufferPool \<Rightarrow> nat option \<times> 'c BufferPool" where
  "assign_frame_buffer_p lhs rhs p =
     (let p = (case lhs of None \<Rightarrow> p | Some old \<Rightarrow> add_ref (-1) old p) in (Some rhs, add_ref 1 rhs p))"

definition decrease_ref_count :: "'c frame_callbacks \<Rightarrow> nat option \<Rightarrow> 'c BufferPool \<Rightarrow> 'c BufferPool option" where
  "decrease_ref_count cbs buf p =
     (case buf of
        None \<Rightarrow> Some p
      | Some k \<Rightarrow>
          let p = add_ref (-1) k p;
              b = frame_bufs p ! k in
          if ref_count b = 0 \<and> fb_data (raw_frame_buffer b) \<noteq> 0 then
            do {
              (_, c) \<leftarrow> release_fb_cb cbs (cb_priv p) (raw_frame_buffer b);
              Some (p\<lparr>frame_bufs := (frame_bufs p)[k := b\<lparr>raw_frame_buffer := null_fb\<rparr>], cb_priv := c\<rparr>)
            }
          else Some p)"

text \<open>
  A call of \<open>aom_realloc_frame_buffer\<close> that takes the memory from the pool's callback: the
  callback is asked once, for \<open>frame_request\<close> bytes, unless the frame is refused before.
\<close>

definition frame_request :: "int \<Rightarrow> int \<Rightarrow> int \<Rightarrow> int \<Rightarrow> int \<Rightarrow> int \<Rightarrow> int \<Rightarrow> int option" where
  "frame_request width height ss_x ss_y use_highbitdepth border byte_alignment =
     (let aligned_width = (width + 7) AND NOT 7;
          aligned_height = (height + 7) AND NOT 7 in
      case calc_stride_and_planesize ss_x ss_y aligned_width aligned_height border byte_alignment False
             (shr aligned_height (nat ss_y)) of
        Inl e \<Rightarrow> None
      | Inr (ystride, uvstride, yplane_size, uvplane_size) \<Rightarrow>
          let fsize = u64 ((1 + use_highbitdepth) * (yplane_size + 2 * uvplane_size)) in
          if fsize > AOM_MAX_ALLOCABLE_MEMORY div 8 then None else Some (u64 (fsize + 31)))"

definition realloc_pool_frame ::
  "'c frame_callbacks \<Rightarrow> int \<Rightarrow> nat \<Rightarrow> int \<Rightarrow> int \<Rightarrow> int \<Rightarrow> int \<Rightarrow> int \<Rightarrow> int \<Rightarrow> int \<Rightarrow> 'c BufferPool \<Rightarrow>
    (aom_codec_err \<times> 'c BufferPool) option" where
  "realloc_pool_frame cbs pick k width height ss_x ss_y use_highbitdepth border byte_alignment p =
     (let b = frame_bufs p ! k in
      do {
        (get, fb, c) \<leftarrow> (case frame_request width height ss_x ss_y use_highbitdepth border byte_alignment of
           None \<Rightarrow> Some ((\<lambda>_. (-1, 0, [])), raw_frame_buffer b, cb_priv p)
         | Some n \<Rightarrow>
             do {
               (rc, fb, c) \<leftarrow> get_fb_cb cbs pick (cb_priv p) n (raw_frame_buffer b);
               Some ((\<lambda>_. (rc, fb_data fb, fb_bytes cbs c fb)), fb, c)
             });
        (e, _, ybf) \<leftarrow> aom_realloc_frame_buffer 0 \<lparr>mem = \<lambda>_. 0, live = []\<rparr> (Some (rc_buf b)) width height ss_x ss_y use_highbitdepth
           border byte_alignment (Some get) False;
        buf \<leftarrow> ybf;
        Some (e, p\<lparr>frame_bufs := (frame_bufs p)[k := b\<lparr>rc_buf := buf, raw_frame_buffer := fb\<rparr>], cb_priv := c\<rparr>)
      })"

text \<open>\<open>av1_free_ref_frame_buffers\<close>, but for the planes and motion vectors of the frames, which are
  the C library's: every block that a frame still holds goes back.\<close>

fun release_frames :: "'c frame_callbacks \<Rightarrow> RefCntBuffer list \<Rightarrow> 'c \<Rightarrow> 'c option" where
  "release_frames cbs [] c = Some c"
| "release_frames cbs (b # bs) c =
     do {
       c \<leftarrow> (if ref_count b > 0 \<and> fb_data (raw_frame_buffer b) \<noteq> 0
             then map_option snd (release_fb_cb cbs c (raw_frame_buffer b)) else Some c);
       release_frames cbs bs c
     }"

definition av1_free_ref_frame_buffers :: "'c frame_callbacks \<Rightarrow> 'c BufferPool \<Rightarrow> 'c BufferPool option" where
  "av1_free_ref_frame_buffers cbs p =
     do { c \<leftarrow> release_frames cbs (frame_bufs p) (cb_priv p); Some (p\<lparr>frame_bufs := [], cb_priv := c\<rparr>) }"

end
