(* ===== verification/Frame_Header.thy ===== *)
theory Frame_Header
  imports Frame_Pool Sequence_Header_Valid
begin

text \<open>
  The part of the frame header that manages references: \<open>read_uncompressed_header\<close> of
  \<open>av1/decoder/decodeframe.c\<close> up to the tile information, with \<open>av1_set_frame_refs\<close> of
  \<open>av1/common/mvref_common.c\<close>, \<open>av1/common/scale.c\<close> and the frame sizes of \<open>av1/common/resize.c\<close>.
  What follows in the header (tiles, quantisation, filters) does not touch references; it is an
  argument of the definitions, together with the memory of the block contexts, which may be
  refused.
\<close>

section \<open>Computations of the decoder\<close>

text \<open>
  A computation works on the decoder and on the bit reader of the current OBU. It ends in a
  value or in an error, which is a call of \<open>aom_internal_error\<close> and does not return; \<open>None\<close> is
  undefined behaviour.
\<close>

type_synonym ('s, 'a) comp = "'s \<times> aom_read_bit_buffer \<Rightarrow> ((aom_codec_err + 'a) \<times> 's \<times> aom_read_bit_buffer) option"

definition d_ret :: "'a \<Rightarrow> ('s, 'a) comp" where
  "d_ret x = (\<lambda>(s, rb). Some (Inr x, s, rb))"

definition d_throw :: "aom_codec_err \<Rightarrow> ('s, 'a) comp" where
  "d_throw e = (\<lambda>(s, rb). Some (Inl e, s, rb))"

definition d_bind :: "('s, 'a) comp \<Rightarrow> ('a \<Rightarrow> ('s, 'b) comp) \<Rightarrow> ('s, 'b) comp" where
  "d_bind m g = (\<lambda>st. case m st of
     None \<Rightarrow> None
   | Some (Inl e, s, rb) \<Rightarrow> Some (Inl e, s, rb)
   | Some (Inr x, s, rb) \<Rightarrow> g x (s, rb))"

definition d_seq :: "('s, unit) comp \<Rightarrow> ('s, 'b) comp \<Rightarrow> ('s, 'b) comp" where
  "d_seq m n = d_bind m (\<lambda>_. n)"

definition d_read :: "field \<Rightarrow> ('s, int) comp" where
  "d_read f = (\<lambda>(s, rb). case read_field rb f of (v, rb') \<Rightarrow>
     if rb_errors rb' > rb_errors rb then Some (Inl AOM_CODEC_CORRUPT_FRAME, s, rb') else Some (Inr v, s, rb'))"

abbreviation d_flag :: "('s, int) comp" where "d_flag \<equiv> d_read (Literal 1)"

definition d_get :: "('s \<Rightarrow> ('s, 'a) comp) \<Rightarrow> ('s, 'a) comp" where
  "d_get g = (\<lambda>(s, rb). g s (s, rb))"

definition d_modify :: "('s \<Rightarrow> 's) \<Rightarrow> ('s, unit) comp" where
  "d_modify f = (\<lambda>(s, rb). Some (Inr (), f s, rb))"

text \<open>A step on the decoder that may be undefined, and one that may end in an error too.\<close>

definition d_try :: "('s \<Rightarrow> 's option) \<Rightarrow> ('s, unit) comp" where
  "d_try f = (\<lambda>(s, rb). map_option (\<lambda>s'. (Inr (), s', rb)) (f s))"

definition d_lift :: "('s \<Rightarrow> ((aom_codec_err + 'a) \<times> 's) option) \<Rightarrow> ('s, 'a) comp" where
  "d_lift f = (\<lambda>(s, rb). map_option (\<lambda>(r, s'). (r, s', rb)) (f s))"

definition d_guard :: "bool \<Rightarrow> ('s, unit) comp" where
  "d_guard b = (\<lambda>st. if b then d_ret () st else None)"

definition d_when :: "bool \<Rightarrow> ('s, unit) comp \<Rightarrow> ('s, unit) comp" where
  "d_when b m = (if b then m else d_ret ())"

definition d_check :: "bool \<Rightarrow> aom_codec_err \<Rightarrow> ('s, unit) comp" where
  "d_check b e = (if b then d_ret () else d_throw e)"

fun d_each :: "('i \<Rightarrow> ('s, unit) comp) \<Rightarrow> 'i list \<Rightarrow> ('s, unit) comp" where
  "d_each f [] = d_ret ()"
| "d_each f (i # is) = d_seq (f i) (d_each f is)"

section \<open>The decoder\<close>

record scale_factors =
  x_scale_fp :: int
  y_scale_fp :: int
  x_step_q4 :: int
  y_step_q4 :: int

record 'c AV1Decoder =
  pbi_ds :: dec_state
  cm_pool :: "'c BufferPool"
  cm_cur_frame :: "nat option"
  cm_prev_frame :: "nat option"
  cm_ref_frame_map :: "nat option list"
  cm_remapped_ref_idx :: "int list"
  cm_ref_frame_id :: "int list"
  cm_ref_frame_sign_bias :: "int list"
  cm_ref_scale_factors :: "scale_factors list"
  cm_current_frame_id :: int
  cm_show_existing_frame :: int
  cm_show_frame :: int
  cm_showable_frame :: int
  cm_width :: int
  cm_height :: int
  cm_superres_upscaled_width :: int
  cm_superres_upscaled_height :: int
  cm_superres_scale_denominator :: int
  cm_render_width :: int
  cm_render_height :: int
  cm_frame_presentation_time :: int
  cm_buffer_removal_times :: "int list"
  cm_temporal_layer_id :: int
  cm_spatial_layer_id :: int
  cf_frame_type :: int
  cf_refresh_frame_flags :: int
  cf_order_hint :: int
  cf_frame_number :: int
  ft_error_resilient_mode :: int
  ft_disable_cdf_update :: int
  ft_allow_screen_content_tools :: int
  ft_cur_frame_force_integer_mv :: int
  ft_allow_intrabc :: int
  ft_primary_ref_frame :: int
  ft_allow_ref_frame_mvs :: int
  ft_allow_high_precision_mv :: int
  ft_interp_filter :: int
  ft_switchable_motion_mode :: int
  ft_refresh_frame_context :: int
  ft_byte_alignment :: int
  lf_filter_level :: "int list"
  tl_cols :: int
  tl_rows :: int
  tl_log2_cols :: int
  tl_log2_rows :: int
  tl_large_scale :: int
  tl_single_tile_decoding :: int
  pbi_need_resync :: int
  pbi_decoding_first_frame :: int
  pbi_reset_decoder_state :: int
  pbi_valid_for_referencing :: "int list"
  pbi_is_arf_frame_present :: int
  pbi_is_fwd_kf_present :: int
  pbi_is_s_frame :: int
  pbi_is_s_frame_at_altref :: int
  pbi_buffer_removal_time_present :: int
  pbi_frame_size_limit :: int
  pbi_camera_frame_header_ready :: int
  pbi_ext_tile_debug :: int
  pbi_is_annexb :: int
  pbi_seen_frame_header :: int
  pbi_next_start_tile :: int
  pbi_num_tile_groups :: int
  pbi_output_frames :: "nat list"
  pbi_output_all_layers :: int
  pbi_metadata :: "aom_metadata_array option"

definition KEY_FRAME :: int where "KEY_FRAME = 0"
definition INTRA_ONLY_FRAME :: int where "INTRA_ONLY_FRAME = 2"
definition S_FRAME :: int where "S_FRAME = 3"
definition PRIMARY_REF_NONE :: int where "PRIMARY_REF_NONE = 7"
definition SCALE_NUMERATOR :: int where "SCALE_NUMERATOR = 8"
definition SWITCHABLE :: int where "SWITCHABLE = 4"

definition cm_seq :: "'c AV1Decoder \<Rightarrow> SequenceHeader" where
  "cm_seq s = ds_seq_params (pbi_ds s)"

definition frame_is_intra_only :: "'c AV1Decoder \<Rightarrow> bool" where
  "frame_is_intra_only s \<longleftrightarrow> cf_frame_type s = KEY_FRAME \<or> cf_frame_type s = INTRA_ONLY_FRAME"

definition frame_is_sframe :: "'c AV1Decoder \<Rightarrow> bool" where
  "frame_is_sframe s \<longleftrightarrow> cf_frame_type s = S_FRAME"

definition frame_might_allow_ref_frame_mvs :: "'c AV1Decoder \<Rightarrow> bool" where
  "frame_might_allow_ref_frame_mvs s \<longleftrightarrow> ft_error_resilient_mode s = 0 \<and> enable_ref_frame_mvs (order_hint_info (cm_seq s)) \<noteq> 0 \<and>
     enable_order_hint (order_hint_info (cm_seq s)) \<noteq> 0 \<and> \<not> frame_is_intra_only s"

text \<open>The frame behind a reference label, 1 for \<open>LAST_FRAME\<close> to 7 for \<open>ALTREF_FRAME\<close> (\<open>EXTREF_FRAME\<close>,
  8, is past the end of \<open>remapped_ref_idx\<close> and never asked for).\<close>

definition get_ref_frame_map_idx :: "'c AV1Decoder \<Rightarrow> int \<Rightarrow> int" where
  "get_ref_frame_map_idx s r = (if 1 \<le> r \<and> r \<le> 8 then cm_remapped_ref_idx s ! nat (r - 1) else INVALID_IDX)"

definition get_ref_frame_buf :: "'c AV1Decoder \<Rightarrow> int \<Rightarrow> nat option" where
  "get_ref_frame_buf s r =
     (let i = get_ref_frame_map_idx s r in if i \<noteq> INVALID_IDX then cm_ref_frame_map s ! nat i else None)"

definition get_primary_ref_frame_buf :: "'c AV1Decoder \<Rightarrow> nat option" where
  "get_primary_ref_frame_buf s =
     (if ft_primary_ref_frame s = PRIMARY_REF_NONE then None else get_ref_frame_buf s (ft_primary_ref_frame s + 1))"

definition pool_frame :: "'c AV1Decoder \<Rightarrow> nat \<Rightarrow> RefCntBuffer" where
  "pool_frame s k = frame_bufs (cm_pool s) ! k"

definition set_frame :: "(RefCntBuffer \<Rightarrow> RefCntBuffer) \<Rightarrow> nat \<Rightarrow> 'c AV1Decoder \<Rightarrow> 'c AV1Decoder" where
  "set_frame f k s = s\<lparr>cm_pool := (cm_pool s)\<lparr>frame_bufs := (frame_bufs (cm_pool s))[k := f (pool_frame s k)]\<rparr>\<rparr>"

text \<open>A write to a member of \<open>*cm->cur_frame\<close>, which is undefined when there is no current frame.\<close>

definition set_cur :: "(RefCntBuffer \<Rightarrow> RefCntBuffer) \<Rightarrow> 'c AV1Decoder \<Rightarrow> 'c AV1Decoder option" where
  "set_cur f s = map_option (\<lambda>k. set_frame f k s) (cm_cur_frame s)"

section \<open>References\<close>

text \<open>\<open>decrease_ref_count(cm->ref_frame_map[i], pool)\<close> with \<open>cm->ref_frame_map[i]\<close> set to \<open>new\<close>.\<close>

definition replace_ref :: "'c frame_callbacks \<Rightarrow> nat \<Rightarrow> nat option \<Rightarrow> 'c AV1Decoder \<Rightarrow> 'c AV1Decoder option" where
  "replace_ref cbs i new s =
     map_option (\<lambda>p. s\<lparr>cm_pool := p, cm_ref_frame_map := (cm_ref_frame_map s)[i := new]\<rparr>)
       (decrease_ref_count cbs (cm_ref_frame_map s ! i) (cm_pool s))"

fun reset_refs :: "'c frame_callbacks \<Rightarrow> nat list \<Rightarrow> 'c AV1Decoder \<Rightarrow> 'c AV1Decoder option" where
  "reset_refs cbs [] s = Some s"
| "reset_refs cbs (i # is) s = do { s \<leftarrow> replace_ref cbs i None s; reset_refs cbs is s }"

definition reset_ref_frame_map :: "'c frame_callbacks \<Rightarrow> 'c AV1Decoder \<Rightarrow> 'c AV1Decoder option" where
  "reset_ref_frame_map cbs s = reset_refs cbs [0..<REF_FRAMES] s"

definition update_ref_frame_id :: "'c AV1Decoder \<Rightarrow> 'c AV1Decoder" where
  "update_ref_frame_id s =
     (let on = (\<lambda>i. shr (cf_refresh_frame_flags s) i AND 1 \<noteq> 0) in
      s\<lparr>cm_ref_frame_id := map (\<lambda>i. if on i then cm_current_frame_id s else cm_ref_frame_id s ! i) [0..<REF_FRAMES],
        pbi_valid_for_referencing := map (\<lambda>i. if on i then 1 else pbi_valid_for_referencing s ! i) [0..<REF_FRAMES]\<rparr>)"

text \<open>The references are dropped when the decoder waits for a frame to start from.\<close>

definition resync :: "'c frame_callbacks \<Rightarrow> 'c AV1Decoder \<Rightarrow> 'c AV1Decoder option" where
  "resync cbs s = (if pbi_need_resync s \<noteq> 0 then map_option (\<lambda>s. s\<lparr>pbi_need_resync := 0\<rparr>) (reset_ref_frame_map cbs s) else Some s)"

definition show_existing_frame_reset :: "'c frame_callbacks \<Rightarrow> nat \<Rightarrow> 'c AV1Decoder \<Rightarrow> 'c AV1Decoder option" where
  "show_existing_frame_reset cbs existing_frame_idx s =
     do {
       let s = s\<lparr>cf_frame_type := KEY_FRAME, cf_refresh_frame_flags := 255,
                 cm_remapped_ref_idx := replicate INTER_REFS_PER_FRAME INVALID_IDX\<rparr>;
       s \<leftarrow> resync cbs s;
       let s = s\<lparr>cm_current_frame_id := cm_ref_frame_id s ! existing_frame_idx\<rparr>;
       Some ((update_ref_frame_id s)\<lparr>ft_refresh_frame_context := 0\<rparr>)
     }"

text \<open>The internal buffers are cleared by \<open>clear\<close>; an application's callbacks have none.\<close>

definition reset_frame_buffers :: "'c frame_callbacks \<Rightarrow> ('c \<Rightarrow> 'c) \<Rightarrow> 'c AV1Decoder \<Rightarrow> 'c AV1Decoder option" where
  "reset_frame_buffers cbs clear s =
     do {
       s \<leftarrow> reset_ref_frame_map cbs s;
       let p = cm_pool s;
       let bufs = map (\<lambda>i. let b = frame_bufs p ! i in
             if ref_count b > 0 \<and> cm_cur_frame s \<noteq> Some i then b
             else b\<lparr>rc_order_hint := 0, rc_ref_order_hints := replicate INTER_REFS_PER_FRAME 0\<rparr>) [0..<length (frame_bufs p)];
       Some (s\<lparr>cm_pool := p\<lparr>frame_bufs := bufs, cb_priv := clear (cb_priv p)\<rparr>\<rparr>)
     }"

section \<open>Sizes\<close>

definition calculate_scaled_size_helper :: "int \<Rightarrow> int \<Rightarrow> int" where
  "calculate_scaled_size_helper dim denom =
     (if denom \<noteq> SCALE_NUMERATOR then max ((dim * SCALE_NUMERATOR + denom div 2) div denom) (min 16 dim) else dim)"

definition av1_calculate_scaled_superres_size :: "int \<Rightarrow> int \<Rightarrow> int \<Rightarrow> int \<times> int" where
  "av1_calculate_scaled_superres_size width height superres_denom = (calculate_scaled_size_helper width superres_denom, height)"

definition av1_superres_scaled :: "'c AV1Decoder \<Rightarrow> bool" where
  "av1_superres_scaled s \<longleftrightarrow> cm_width s \<noteq> cm_superres_upscaled_width s"

definition valid_ref_frame_size :: "int \<Rightarrow> int \<Rightarrow> int \<Rightarrow> int \<Rightarrow> bool" where
  "valid_ref_frame_size ref_width ref_height this_width this_height \<longleftrightarrow>
     2 * this_width \<ge> ref_width \<and> 2 * this_height \<ge> ref_height \<and> this_width \<le> 16 * ref_width \<and> this_height \<le> 16 * ref_height"

definition REF_INVALID_SCALE :: int where "REF_INVALID_SCALE = -1"

definition get_fixed_point_scale_factor :: "int \<Rightarrow> int \<Rightarrow> int" where
  "get_fixed_point_scale_factor other_size this_size = (shl other_size 14 + this_size div 2) div this_size"

definition fixed_point_scale_to_coarse_point_scale :: "int \<Rightarrow> int" where
  "fixed_point_scale_to_coarse_point_scale scale_fp = shr (scale_fp + shr (shl 1 4) 1) 4"

definition av1_setup_scale_factors_for_frame :: "scale_factors \<Rightarrow> int \<Rightarrow> int \<Rightarrow> int \<Rightarrow> int \<Rightarrow> scale_factors" where
  "av1_setup_scale_factors_for_frame sf other_w other_h this_w this_h =
     (if \<not> valid_ref_frame_size other_w other_h this_w this_h then sf\<lparr>x_scale_fp := REF_INVALID_SCALE, y_scale_fp := REF_INVALID_SCALE\<rparr>
      else
        let x = get_fixed_point_scale_factor other_w this_w;
            y = get_fixed_point_scale_factor other_h this_h in
        \<lparr>x_scale_fp = x, y_scale_fp = y, x_step_q4 = fixed_point_scale_to_coarse_point_scale x,
         y_step_q4 = fixed_point_scale_to_coarse_point_scale y\<rparr>)"

definition av1_is_valid_scale :: "scale_factors \<Rightarrow> bool" where
  "av1_is_valid_scale sf \<longleftrightarrow> x_scale_fp sf \<noteq> REF_INVALID_SCALE \<and> y_scale_fp sf \<noteq> REF_INVALID_SCALE"

text \<open>
  What the code around the references answers: the addresses the C library gives to the frames
  (\<open>he_pick i\<close> for reference \<open>i\<close>, \<open>he_pick 8\<close> for the current frame), whether the block contexts and the
  motion vectors of a frame can be had, the rest of the header from the tile information on,
  and whether the entropy context the frame starts from is initialised. Of what the rest of the
  header says, \<open>hr_no_filters\<close> is that the loop filter's levels, the CDEF strengths and the restoration
  types are all zero.
\<close>

record header_rest =
  hr_cols :: int
  hr_rows :: int
  hr_log2_cols :: int
  hr_log2_rows :: int
  hr_apply_grain :: int
  hr_no_filters :: bool

record 'c header_env =
  he_pick :: "nat \<Rightarrow> int"
  he_contexts :: "int \<Rightarrow> int \<Rightarrow> bool"
  he_mvs :: "int \<Rightarrow> int \<Rightarrow> bool"
  he_rest :: "'c AV1Decoder \<Rightarrow> aom_read_bit_buffer \<Rightarrow> (aom_codec_err + header_rest) \<times> aom_read_bit_buffer"
  he_fc_ready :: "'c AV1Decoder \<Rightarrow> bool"
  he_clear :: "'c \<Rightarrow> 'c"

text \<open>The flag \<open>av1_set_single_tile_decoding_mode\<close> stores, for the mode of the stream.\<close>

definition av1_set_single_tile_decoding_mode :: "bool \<Rightarrow> int \<Rightarrow> int" where
  "av1_set_single_tile_decoding_mode no_filters large_scale = (if large_scale \<noteq> 0 then b2i no_filters else 0)"

definition read_frame_size :: "int \<Rightarrow> int \<Rightarrow> ('c AV1Decoder, int \<times> int) comp" where
  "read_frame_size bits_w bits_h =
     d_bind (d_read (Literal (nat bits_w))) (\<lambda>w.
     d_bind (d_read (Literal (nat bits_h))) (\<lambda>h. d_ret (w + 1, h + 1)))"

definition setup_render_size :: "('c AV1Decoder, unit) comp" where
  "setup_render_size =
     d_seq (d_modify (\<lambda>s. s\<lparr>cm_render_width := cm_superres_upscaled_width s, cm_render_height := cm_superres_upscaled_height s\<rparr>))
     (d_bind d_flag (\<lambda>different.
      d_when (different \<noteq> 0) (d_bind (read_frame_size 16 16) (\<lambda>(w, h). d_modify (\<lambda>s. s\<lparr>cm_render_width := w, cm_render_height := h\<rparr>)))))"

definition setup_superres :: "int \<Rightarrow> int \<Rightarrow> ('c AV1Decoder, int \<times> int) comp" where
  "setup_superres width height =
     d_seq (d_modify (\<lambda>s. s\<lparr>cm_superres_upscaled_width := width, cm_superres_upscaled_height := height\<rparr>))
     (d_get (\<lambda>s.
      if enable_superres (cm_seq s) = 0 then d_ret (width, height)
      else d_bind d_flag (\<lambda>scaled.
        if scaled \<noteq> 0 then
          d_bind (d_read (Literal 3)) (\<lambda>d.
            let denom = u8 (u8 d + (SCALE_NUMERATOR + 1)) in
            d_seq (d_modify (\<lambda>s. s\<lparr>cm_superres_scale_denominator := denom\<rparr>))
              (d_ret (av1_calculate_scaled_superres_size width height denom)))
        else d_seq (d_modify (\<lambda>s. s\<lparr>cm_superres_scale_denominator := SCALE_NUMERATOR\<rparr>)) (d_ret (width, height)))))"

definition resize_context_buffers :: "'c header_env \<Rightarrow> int \<Rightarrow> int \<Rightarrow> ('c AV1Decoder, unit) comp" where
  "resize_context_buffers env width height =
     d_get (\<lambda>s.
     d_seq (d_check (\<not> (pbi_frame_size_limit s \<noteq> 0 \<and> width * height > pbi_frame_size_limit s)) AOM_CODEC_CORRUPT_FRAME)
     (d_seq (d_when (cm_width s \<noteq> width \<or> cm_height s \<noteq> height)
        (if he_contexts env width height then d_modify (\<lambda>s. s\<lparr>cm_width := width, cm_height := height\<rparr>)
         else d_seq (d_modify (\<lambda>s. s\<lparr>cm_width := 0, cm_height := 0\<rparr>)) (d_throw AOM_CODEC_MEM_ERROR)))
     (d_seq (d_check (he_mvs env width height) AOM_CODEC_MEM_ERROR)
        (d_try (\<lambda>s. set_cur (\<lambda>b. b\<lparr>rc_width := cm_width s, rc_height := cm_height s\<rparr>) s)))))"

text \<open>The colour description and the render size, copied into a frame.\<close>

definition stamp_frame :: "'c AV1Decoder \<Rightarrow> RefCntBuffer \<Rightarrow> RefCntBuffer" where
  "stamp_frame s b =
     (let q = cm_seq s in
      b\<lparr>rc_buf := (rc_buf b)\<lparr>yv_bit_depth := sq_bit_depth q, yv_color_primaries := color_primaries q,
        yv_transfer_characteristics := transfer_characteristics q, yv_matrix_coefficients := matrix_coefficients q,
        yv_monochrome := sq_monochrome q, yv_chroma_sample_position := chroma_sample_position q, yv_color_range := color_range q,
        render_width := cm_render_width s, render_height := cm_render_height s\<rparr>\<rparr>)"

text \<open>Memory from the pool's callback for frame \<open>k\<close>; \<open>giveback\<close> says that a refused frame is given back.\<close>

definition pool_memory :: "'c frame_callbacks \<Rightarrow> int \<Rightarrow> nat \<Rightarrow> int \<Rightarrow> int \<Rightarrow> int \<Rightarrow> bool \<Rightarrow> ('c AV1Decoder, unit) comp" where
  "pool_memory cbs pick k width height border giveback =
     d_lift (\<lambda>s.
       do {
         let q = cm_seq s;
         (e, p) \<leftarrow> realloc_pool_frame cbs pick k width height (subsampling_x q) (subsampling_y q) (Sequence_Header.use_highbitdepth q)
            border (ft_byte_alignment s) (cm_pool s);
         if e = AOM_CODEC_OK then Some (Inr (), s\<lparr>cm_pool := p\<rparr>)
         else do {
           p \<leftarrow> (if giveback then decrease_ref_count cbs (Some k) p else Some p);
           Some (Inl AOM_CODEC_MEM_ERROR, s\<lparr>cm_pool := p\<rparr>)
         }
       })"

definition setup_buffer_pool :: "'c frame_callbacks \<Rightarrow> 'c header_env \<Rightarrow> ('c AV1Decoder, unit) comp" where
  "setup_buffer_pool cbs env =
     d_get (\<lambda>s. case cm_cur_frame s of
       None \<Rightarrow> (\<lambda>_. None)
     | Some k \<Rightarrow>
         d_seq (pool_memory cbs (he_pick env 8) k (cm_width s) (cm_height s) AOM_DEC_BORDER_IN_PIXELS False)
           (d_try (\<lambda>s. set_cur (stamp_frame s) s)))"

definition setup_frame_size :: "'c frame_callbacks \<Rightarrow> 'c header_env \<Rightarrow> int \<Rightarrow> ('c AV1Decoder, unit) comp" where
  "setup_frame_size cbs env frame_size_override_flag =
     d_get (\<lambda>s. let q = cm_seq s in
     d_bind (if frame_size_override_flag \<noteq> 0 then
               d_bind (read_frame_size (num_bits_width q) (num_bits_height q)) (\<lambda>(w, h).
                 d_seq (d_check (\<not> (w > max_frame_width q \<or> h > max_frame_height q)) AOM_CODEC_CORRUPT_FRAME) (d_ret (w, h)))
             else d_ret (max_frame_width q, max_frame_height q)) (\<lambda>(w, h).
     d_bind (setup_superres w h) (\<lambda>(w, h).
     d_seq (resize_context_buffers env w h)
     (d_seq setup_render_size (setup_buffer_pool cbs env)))))"

text \<open>The size of the first reference the stream points at.\<close>

fun size_from_refs :: "'c header_env \<Rightarrow> int list \<Rightarrow> ('c AV1Decoder, (int \<times> int) option) comp" where
  "size_from_refs env [] = d_ret None"
| "size_from_refs env (i # is) =
     d_bind d_flag (\<lambda>found.
       if found \<noteq> 0 then
         d_get (\<lambda>s. case get_ref_frame_buf s i of
           None \<Rightarrow> d_throw AOM_CODEC_CORRUPT_FRAME
         | Some k \<Rightarrow>
             let buf = rc_buf (pool_frame s k) in
             d_seq (d_modify (\<lambda>s. s\<lparr>cm_render_width := render_width buf, cm_render_height := render_height buf\<rparr>))
             (d_bind (setup_superres (y_crop_width buf) (y_crop_height buf)) (\<lambda>(w, h).
              d_seq (resize_context_buffers env w h) (d_ret (Some (w, h))))))
       else size_from_refs env is)"

text \<open>The frames behind the seven references, if there are seven.\<close>

definition ref_bufs :: "'c AV1Decoder \<Rightarrow> nat list option" where
  "ref_bufs s = those (map (get_ref_frame_buf s) [1, 2, 3, 4, 5, 6, 7])"

definition setup_frame_size_with_refs :: "'c frame_callbacks \<Rightarrow> 'c header_env \<Rightarrow> ('c AV1Decoder, unit) comp" where
  "setup_frame_size_with_refs cbs env =
     d_bind (size_from_refs env [1, 2, 3, 4, 5, 6, 7]) (\<lambda>found.
     d_bind (case found of
         Some d \<Rightarrow> d_ret d
       | None \<Rightarrow>
           d_get (\<lambda>s.
           d_bind (read_frame_size (num_bits_width (cm_seq s)) (num_bits_height (cm_seq s))) (\<lambda>(w, h).
           d_bind (setup_superres w h) (\<lambda>(w, h).
           d_seq (resize_context_buffers env w h) (d_seq setup_render_size (d_ret (w, h))))))) (\<lambda>(w, h).
     d_seq (d_check (\<not> (w \<le> 0 \<or> h \<le> 0)) AOM_CODEC_CORRUPT_FRAME)
     (d_get (\<lambda>s. case ref_bufs s of
         None \<Rightarrow> (\<lambda>_. None)
       | Some ks \<Rightarrow>
           let bufs = map (\<lambda>k. rc_buf (pool_frame s k)) ks; q = cm_seq s in
           d_seq (d_check (list_ex (\<lambda>b. valid_ref_frame_size (y_crop_width b) (y_crop_height b) w h) bufs) AOM_CODEC_CORRUPT_FRAME)
           (d_seq (d_check (list_all (\<lambda>b. yv_bit_depth b = sq_bit_depth q \<and> yv_subsampling_x b = subsampling_x q \<and>
                yv_subsampling_y b = subsampling_y q) bufs) AOM_CODEC_CORRUPT_FRAME)
              (setup_buffer_pool cbs env))))))"

section \<open>Reference selection\<close>

definition get_relative_dist :: "OrderHintInfo \<Rightarrow> int \<Rightarrow> int \<Rightarrow> int" where
  "get_relative_dist oh a b =
     (if enable_order_hint oh = 0 then 0
      else
        let bits = order_hint_bits_minus_1 oh + 1;
            diff = a - b;
            m = shl 1 (nat (bits - 1)) in
        (diff AND (m - 1)) - (diff AND m))"

record REF_FRAME_INFO =
  rf_map_idx :: nat
  rf_buf :: "nat option"
  rf_sort_idx :: int

definition ref_frame_infos :: "'c AV1Decoder \<Rightarrow> REF_FRAME_INFO list" where
  "ref_frame_infos s =
     (let oh = order_hint_info (cm_seq s);
          cur_frame_sort_idx = shl 1 (nat (order_hint_bits_minus_1 oh)) in
      map (\<lambda>i. case cm_ref_frame_map s ! i of
          None \<Rightarrow> \<lparr>rf_map_idx = i, rf_buf = None, rf_sort_idx = -1\<rparr>
        | Some k \<Rightarrow>
            let off = s32 (rc_order_hint (pool_frame s k)) in
            \<lparr>rf_map_idx = i, rf_buf = Some k,
             rf_sort_idx = if off = -1 then -1 else cur_frame_sort_idx + get_relative_dist oh off (s32 (cf_order_hint s))\<rparr>)
        [0..<REF_FRAMES])"

text \<open>The sort index of map entry \<open>i\<close>, as the first loop leaves it.\<close>

definition sort_idx_of :: "REF_FRAME_INFO list \<Rightarrow> nat \<Rightarrow> int" where
  "sort_idx_of infos i = (if i < length infos then rf_sort_idx (infos ! i) else -1)"

text \<open>The forward references among the sorted entries: \<open>(fwd_start_idx, fwd_end_idx)\<close>.\<close>

fun fwd_range :: "int \<Rightarrow> nat \<Rightarrow> int \<Rightarrow> REF_FRAME_INFO list \<Rightarrow> int \<times> int" where
  "fwd_range cur i start [] = (start, int REF_FRAMES - 1)"
| "fwd_range cur i start (r # rs) =
     (if rf_sort_idx r = -1 then fwd_range cur (Suc i) (start + 1) rs
      else if rf_sort_idx r \<ge> cur then (start, int i - 1)
      else fwd_range cur (Suc i) start rs)"

text \<open>The loop that skips the entries already used, from \<open>fwd_end\<close> down.\<close>

function skip_used :: "REF_FRAME_INFO list \<Rightarrow> nat \<Rightarrow> nat \<Rightarrow> int \<Rightarrow> int \<Rightarrow> int" where
  "skip_used infos lst gld fwd_start fwd_end =
     (if fwd_start \<le> fwd_end \<and> (rf_map_idx (infos ! nat fwd_end) = lst \<or> rf_map_idx (infos ! nat fwd_end) = gld)
      then skip_used infos lst gld fwd_start (fwd_end - 1) else fwd_end)"
  by auto
termination by (relation "measure (\<lambda>(_, _, _, a, b). nat (b + 1 - a))") auto

declare skip_used.simps [simp del]

text \<open>The references that are left, in anti-chronological order. Slot \<open>r\<close> is the label
  \<open>LAST_FRAME + r\<close>; a slot that is not \<open>None\<close> is flagged.\<close>

fun fill_forward ::
  "REF_FRAME_INFO list \<Rightarrow> nat \<Rightarrow> nat \<Rightarrow> int \<Rightarrow> int \<Rightarrow> nat list \<Rightarrow> nat option list \<Rightarrow> nat list \<times> nat option list" where
  "fill_forward infos lst gld fwd_start fwd_end [] slots = ([], slots)"
| "fill_forward infos lst gld fwd_start fwd_end (r # rs) slots =
     (if slots ! r \<noteq> None then fill_forward infos lst gld fwd_start fwd_end rs slots
      else
        let fwd_end = skip_used infos lst gld fwd_start fwd_end in
        if fwd_start > fwd_end then (r # rs, slots)
        else fill_forward infos lst gld fwd_start (fwd_end - 1) rs (slots[r := Some (rf_map_idx (infos ! nat fwd_end))]))"

fun fill_earliest :: "nat \<Rightarrow> nat list \<Rightarrow> nat option list \<Rightarrow> nat option list" where
  "fill_earliest m [] slots = slots"
| "fill_earliest m (r # rs) slots = fill_earliest m rs (if slots ! r \<noteq> None then slots else slots[r := Some m])"

text \<open>The backward references: the latest is \<open>ALTREF_FRAME\<close>, the next two \<open>BWDREF_FRAME\<close> and
  \<open>ALTREF2_FRAME\<close>.\<close>

definition fill_backward :: "REF_FRAME_INFO list \<Rightarrow> int \<Rightarrow> nat option list \<Rightarrow> nat option list" where
  "fill_backward infos bwd_start slots =
     (let bwd_end = int REF_FRAMES - 1;
          (bwd_end, slots) = (if bwd_start \<le> bwd_end then (bwd_end - 1, slots[6 := Some (rf_map_idx (infos ! nat bwd_end))])
                              else (bwd_end, slots));
          (bwd_start, slots) = (if bwd_start \<le> bwd_end then (bwd_start + 1, slots[4 := Some (rf_map_idx (infos ! nat bwd_start))])
                                else (bwd_start, slots)) in
      if bwd_start \<le> bwd_end then slots[5 := Some (rf_map_idx (infos ! nat bwd_start))] else slots)"

definition fill_last_golden :: "REF_FRAME_INFO list \<Rightarrow> nat \<Rightarrow> nat \<Rightarrow> int \<Rightarrow> int \<Rightarrow> nat option list \<Rightarrow> nat option list" where
  "fill_last_golden infos lst gld fwd_start fwd_end slots =
     foldl (\<lambda>slots i.
         let m = rf_map_idx (infos ! i);
             slots = (if m = lst then slots[0 := Some m] else slots) in
         if m = gld then slots[3 := Some m] else slots)
       slots [nat fwd_start..<nat (fwd_end + 1)]"

text \<open>
  \<open>av1_set_frame_refs\<close>: the map entries of the seven references. The assertions of the code say
  that every slot is filled; a slot that is not keeps its old entry.
\<close>

definition av1_set_frame_refs :: "nat \<Rightarrow> nat \<Rightarrow> ('c AV1Decoder, unit) comp" where
  "av1_set_frame_refs lst_map_idx gld_map_idx =
     d_get (\<lambda>s.
     let infos = ref_frame_infos s;
         cur_frame_sort_idx = shl 1 (nat (order_hint_bits_minus_1 (order_hint_info (cm_seq s))));
         lst_sort = sort_idx_of infos lst_map_idx;
         gld_sort = sort_idx_of infos gld_map_idx in
     d_seq (d_check (\<not> (lst_sort = -1 \<or> lst_sort \<ge> cur_frame_sort_idx)) AOM_CODEC_CORRUPT_FRAME)
     (d_seq (d_check (\<not> (gld_sort = -1 \<or> gld_sort \<ge> cur_frame_sort_idx)) AOM_CODEC_CORRUPT_FRAME)
     (let infos = sort_key rf_sort_idx infos;
          (fwd_start, fwd_end) = fwd_range cur_frame_sort_idx 0 0 infos;
          slots = fill_backward infos (fwd_end + 1) (replicate INTER_REFS_PER_FRAME None);
          slots = fill_last_golden infos lst_map_idx gld_map_idx fwd_start fwd_end slots;
          (left, slots) = fill_forward infos lst_map_idx gld_map_idx fwd_start fwd_end [1, 2, 4, 5, 6] slots;
          slots = fill_earliest (rf_map_idx (infos ! nat fwd_start)) left slots in
      d_modify (\<lambda>s. s\<lparr>cm_remapped_ref_idx :=
        map (\<lambda>r. case slots ! r of Some m \<Rightarrow> int m | None \<Rightarrow> cm_remapped_ref_idx s ! r) [0..<INTER_REFS_PER_FRAME]\<rparr>))))"

section \<open>The header\<close>

definition read_temporal_point_info :: "('c AV1Decoder, unit) comp" where
  "read_temporal_point_info =
     d_get (\<lambda>s.
     d_bind (d_read (Unsigned_Literal (nat (frame_presentation_time_length (decoder_model_info (cm_seq s)))))) (\<lambda>v.
     d_modify (\<lambda>s. s\<lparr>cm_frame_presentation_time := v\<rparr>)))"

definition has_point_info :: "SequenceHeader \<Rightarrow> bool" where
  "has_point_info q \<longleftrightarrow> decoder_model_info_present_flag q \<noteq> 0 \<and> equal_picture_interval (timing_info q) = 0"

text \<open>An existing frame is shown: \<open>cm->cur_frame\<close> becomes that frame.\<close>

definition take_existing :: "nat \<Rightarrow> 'c AV1Decoder \<Rightarrow> 'c AV1Decoder" where
  "take_existing k s =
     (let (cur, p) = assign_frame_buffer_p (cm_cur_frame s) k (cm_pool s) in
      s\<lparr>cm_cur_frame := cur, cm_pool := p, pbi_reset_decoder_state := b2i (rc_frame_type (pool_frame s k) = KEY_FRAME),
        lf_filter_level := [0, 0], cm_show_frame := 1, cf_order_hint := rc_order_hint (pool_frame s k)\<rparr>)"

definition show_existing :: "'c frame_callbacks \<Rightarrow> ('c AV1Decoder, unit) comp" where
  "show_existing cbs =
     d_get (\<lambda>s. d_seq (d_check (\<not> sequence_header_changed (pbi_ds s)) AOM_CODEC_CORRUPT_FRAME)
     (d_bind (d_read (Literal 3)) (\<lambda>idx.
      case cm_ref_frame_map s ! nat idx of
        None \<Rightarrow> d_throw AOM_CODEC_UNSUP_BITSTREAM
      | Some k \<Rightarrow>
          d_seq (d_when (has_point_info (cm_seq s)) read_temporal_point_info)
          (d_seq (d_when (frame_id_numbers_present_flag (cm_seq s) \<noteq> 0)
             (d_bind (d_read (Literal (nat (frame_id_length (cm_seq s))))) (\<lambda>display_frame_id.
               d_check (\<not> (display_frame_id \<noteq> cm_ref_frame_id s ! nat idx \<or> pbi_valid_for_referencing s ! nat idx = 0))
                 AOM_CODEC_CORRUPT_FRAME)))
          (d_seq (d_modify (take_existing k))
          (d_seq (d_check (showable_frame (pool_frame s k) \<noteq> 0) AOM_CODEC_UNSUP_BITSTREAM)
          (d_get (\<lambda>s.
             if pbi_reset_decoder_state s \<noteq> 0 then
               d_seq (d_modify (set_frame (\<lambda>b. b\<lparr>showable_frame := 0\<rparr>) k)) (d_try (show_existing_frame_reset cbs (nat idx)))
             else d_modify (\<lambda>s. s\<lparr>cf_refresh_frame_flags := 0\<rparr>)))))))))"

definition new_sequence :: "'c frame_callbacks \<Rightarrow> 'c header_env \<Rightarrow> ('c AV1Decoder, unit) comp" where
  "new_sequence cbs env =
     d_seq (d_modify (\<lambda>s. s\<lparr>pbi_ds := (pbi_ds s)\<lparr>sequence_header_changed := False\<rparr>, pbi_decoding_first_frame := 1\<rparr>))
       (d_try (reset_frame_buffers cbs (he_clear env)))"

text \<open>The type of a frame that is not shown again, and whether it is shown.\<close>

definition read_frame_type :: "'c frame_callbacks \<Rightarrow> 'c header_env \<Rightarrow> ('c AV1Decoder, unit) comp" where
  "read_frame_type cbs env =
     d_bind (d_read (Literal 2)) (\<lambda>ftype.
     d_seq (d_modify (\<lambda>s. s\<lparr>cf_frame_type := ftype\<rparr>))
     (d_seq (d_get (\<lambda>s. d_when (sequence_header_changed (pbi_ds s))
        (if ftype = KEY_FRAME then new_sequence cbs env else d_throw AOM_CODEC_CORRUPT_FRAME)))
     (d_bind d_flag (\<lambda>show.
      d_seq (d_modify (\<lambda>s. s\<lparr>cm_show_frame := show,
        pbi_is_arf_frame_present := if show = 0 then 1 else pbi_is_arf_frame_present s,
        pbi_is_fwd_kf_present := if show = 0 \<and> ftype = KEY_FRAME then 1 else pbi_is_fwd_kf_present s,
        pbi_is_s_frame := if ftype = S_FRAME then 1 else pbi_is_s_frame s,
        pbi_is_s_frame_at_altref := if ftype = S_FRAME then if show \<noteq> 0 then 0 else 1 else pbi_is_s_frame_at_altref s\<rparr>))
      (d_get (\<lambda>s.
       d_seq (d_check (\<not> (still_picture (cm_seq s) \<noteq> 0 \<and> (ftype \<noteq> KEY_FRAME \<or> show = 0))) AOM_CODEC_CORRUPT_FRAME)
       (d_seq (d_modify (\<lambda>s. s\<lparr>cm_showable_frame := b2i (ftype \<noteq> KEY_FRAME)\<rparr>))
       (d_seq (if show \<noteq> 0 then d_when (has_point_info (cm_seq s)) read_temporal_point_info
               else d_bind d_flag (\<lambda>v. d_modify (\<lambda>s. s\<lparr>cm_showable_frame := v\<rparr>)))
       (d_seq (d_try (\<lambda>s. set_cur (\<lambda>b. b\<lparr>showable_frame := cm_showable_frame s\<rparr>) s))
       (d_bind (if ftype = S_FRAME \<or> (ftype = KEY_FRAME \<and> show \<noteq> 0) then d_ret 1 else d_flag) (\<lambda>er.
        d_modify (\<lambda>s. s\<lparr>ft_error_resilient_mode := er\<rparr>))))))))))))"

text \<open>The start of the header; the result says whether an existing frame is shown.\<close>

definition read_frame_start :: "'c frame_callbacks \<Rightarrow> 'c header_env \<Rightarrow> ('c AV1Decoder, bool) comp" where
  "read_frame_start cbs env =
     d_seq (d_modify (\<lambda>s. s\<lparr>pbi_is_s_frame := 0, pbi_is_s_frame_at_altref := 0\<rparr>))
     (d_get (\<lambda>s.
      d_seq (d_check (sequence_header_ready (pbi_ds s)) AOM_CODEC_CORRUPT_FRAME)
      (if reduced_still_picture_hdr (cm_seq s) \<noteq> 0 then
         d_seq (d_modify (\<lambda>s. s\<lparr>cm_show_existing_frame := 0, cm_show_frame := 1, cf_frame_type := KEY_FRAME\<rparr>))
         (d_seq (d_when (sequence_header_changed (pbi_ds s)) (new_sequence cbs env))
         (d_seq (d_modify (\<lambda>s. s\<lparr>ft_error_resilient_mode := 1\<rparr>)) (d_ret False)))
       else
         d_bind d_flag (\<lambda>ex.
         d_seq (d_modify (\<lambda>s. s\<lparr>cm_show_existing_frame := ex, pbi_reset_decoder_state := 0\<rparr>))
         (if ex \<noteq> 0 then d_seq (show_existing cbs) (d_ret True)
          else d_seq (read_frame_type cbs env) (d_ret False))))))"

text \<open>The tools of the frame.\<close>

definition read_frame_tools :: "('c AV1Decoder, unit) comp" where
  "read_frame_tools =
     d_seq (d_modify (\<lambda>s. if cf_frame_type s = KEY_FRAME \<and> cm_show_frame s \<noteq> 0
        then s\<lparr>pbi_valid_for_referencing := replicate REF_FRAMES 0\<rparr> else s))
     (d_bind d_flag (\<lambda>cdf.
      d_get (\<lambda>s. let q = cm_seq s in
      d_bind (if force_screen_content_tools q = 2 then d_flag else d_ret (force_screen_content_tools q)) (\<lambda>sct.
      d_bind (if sct \<noteq> 0 then if force_integer_mv q = 2 then d_flag else d_ret (force_integer_mv q) else d_ret 0) (\<lambda>imv.
      d_modify (\<lambda>s. s\<lparr>ft_disable_cdf_update := cdf, ft_allow_screen_content_tools := sct,
        ft_cur_frame_force_integer_mv := imv, ft_allow_intrabc := 0, ft_primary_ref_frame := PRIMARY_REF_NONE\<rparr>))))))"

text \<open>The references that are too old for the new frame's identifier are not to be used.\<close>

definition expire_ids :: "int \<Rightarrow> int \<Rightarrow> 'c AV1Decoder \<Rightarrow> 'c AV1Decoder" where
  "expire_ids id_len diff_len s =
     s\<lparr>pbi_valid_for_referencing := map (\<lambda>i.
         let cur = cm_current_frame_id s; r = cm_ref_frame_id s ! i; d = shl 1 (nat diff_len) in
         if (if cur - d > 0 then r > cur \<or> r < cur - d else r > cur \<and> r < shl 1 (nat id_len) + cur - d)
         then 0 else pbi_valid_for_referencing s ! i) [0..<REF_FRAMES]\<rparr>"

definition read_frame_id_number :: "('c AV1Decoder, unit) comp" where
  "read_frame_id_number =
     d_get (\<lambda>s.
     let id_len = frame_id_length (cm_seq s);
         have_prev = pbi_decoding_first_frame s = 0 \<and> \<not> (cf_frame_type s = KEY_FRAME \<and> cm_show_frame s \<noteq> 0);
         prev = (if have_prev then cm_current_frame_id s else 0) in
     d_bind (d_read (Literal (nat id_len))) (\<lambda>cur.
     d_seq (d_modify (\<lambda>s. s\<lparr>cm_current_frame_id := cur\<rparr>))
     (d_seq (d_when have_prev
        (let diff = (if cur > prev then cur - prev else shl 1 (nat id_len) + cur - prev) in
         d_check (\<not> (prev = cur \<or> diff \<ge> shl 1 (nat (id_len - 1)))) AOM_CODEC_CORRUPT_FRAME))
       (d_modify (expire_ids id_len (delta_frame_id_length (cm_seq s)))))))"

text \<open>Identifier, size flag, order hint and primary reference; the result is the size flag.\<close>

definition read_frame_order :: "('c AV1Decoder, int) comp" where
  "read_frame_order =
     d_get (\<lambda>s. let q = cm_seq s in
     if reduced_still_picture_hdr q \<noteq> 0 then d_ret 0
     else
       d_seq (d_when (frame_id_numbers_present_flag q \<noteq> 0) read_frame_id_number)
       (d_bind (if frame_is_sframe s then d_ret 1 else d_flag) (\<lambda>override.
        d_bind (d_read (Literal (nat (order_hint_bits_minus_1 (order_hint_info q) + 1)))) (\<lambda>oh.
        d_seq (d_modify (\<lambda>s. s\<lparr>cf_order_hint := oh,
          cf_frame_number := if enable_order_hint (order_hint_info q) \<noteq> 0 then oh else cf_frame_number s\<rparr>))
        (d_seq (d_when (ft_error_resilient_mode s = 0 \<and> \<not> frame_is_intra_only s)
           (d_bind (d_read (Literal 3)) (\<lambda>v. d_modify (\<lambda>s. s\<lparr>ft_primary_ref_frame := v\<rparr>))))
         (d_ret override))))))"

definition read_removal_time :: "nat \<Rightarrow> ('c AV1Decoder, unit) comp" where
  "read_removal_time i =
     d_get (\<lambda>s.
     let q = cm_seq s; idc = operating_point_idc q ! i in
     d_bind (if decoder_model_param_present_flag (sq_op_params q ! i) \<noteq> 0 \<and>
                (idc = 0 \<or> shr idc (nat (cm_temporal_layer_id s)) AND 1 \<noteq> 0 \<and> shr idc (nat (cm_spatial_layer_id s + 8)) AND 1 \<noteq> 0)
             then d_read (Unsigned_Literal (nat (buffer_removal_time_length (decoder_model_info q)))) else d_ret 0) (\<lambda>t.
     d_modify (\<lambda>s. s\<lparr>cm_buffer_removal_times := (cm_buffer_removal_times s)[i := t]\<rparr>)))"

definition read_removal_times :: "('c AV1Decoder, unit) comp" where
  "read_removal_times =
     d_get (\<lambda>s. d_when (decoder_model_info_present_flag (cm_seq s) \<noteq> 0)
       (d_bind d_flag (\<lambda>present.
        d_seq (d_modify (\<lambda>s. s\<lparr>pbi_buffer_removal_time_present := present\<rparr>))
          (d_when (present \<noteq> 0) (d_each read_removal_time [0..<nat (operating_points_cnt_minus_1 (cm_seq s) + 1)])))))"

text \<open>Which references the frame will replace.\<close>

definition read_refresh_flags :: "'c frame_callbacks \<Rightarrow> ('c AV1Decoder, unit) comp" where
  "read_refresh_flags cbs =
     d_get (\<lambda>s.
     if cf_frame_type s = KEY_FRAME then
       d_bind (if cm_show_frame s = 0 then d_read (Literal REF_FRAMES) else d_ret 255) (\<lambda>flags.
       d_seq (d_modify (\<lambda>s. s\<lparr>cf_refresh_frame_flags := flags, cm_remapped_ref_idx := replicate INTER_REFS_PER_FRAME INVALID_IDX\<rparr>))
         (d_try (resync cbs)))
     else if cf_frame_type s = INTRA_ONLY_FRAME then
       d_bind (d_read (Literal REF_FRAMES)) (\<lambda>flags.
       d_seq (d_modify (\<lambda>s. s\<lparr>cf_refresh_frame_flags := flags\<rparr>))
       (d_seq (d_check (flags \<noteq> 255) AOM_CODEC_UNSUP_BITSTREAM) (d_try (resync cbs))))
     else d_when (pbi_need_resync s \<noteq> 1)
       (d_bind (if frame_is_sframe s then d_ret 255 else d_read (Literal REF_FRAMES)) (\<lambda>flags.
        d_modify (\<lambda>s. s\<lparr>cf_refresh_frame_flags := flags\<rparr>))))"

text \<open>A reference that is not the one the stream expects is replaced by a grey frame. The samples
  (\<open>set_planes_to_neutral_grey\<close>) are not part of the model.\<close>

definition missing_ref :: "'c frame_callbacks \<Rightarrow> 'c header_env \<Rightarrow> nat \<Rightarrow> ('c AV1Decoder, unit) comp" where
  "missing_ref cbs env i =
     d_get (\<lambda>s. let q = cm_seq s in
     d_bind (d_read (Literal (nat (order_hint_bits_minus_1 (order_hint_info q) + 1)))) (\<lambda>oh.
     let buf = cm_ref_frame_map s ! i in
     d_when (case buf of None \<Rightarrow> True | Some k \<Rightarrow> oh \<noteq> rc_order_hint (pool_frame s k))
       (d_seq (d_when (buf \<noteq> None) (d_try (replace_ref cbs i None)))
       (d_get (\<lambda>s. case get_free_fb (cm_pool s) of (idx, p) \<Rightarrow>
         d_seq (d_check (idx \<noteq> INVALID_IDX) AOM_CODEC_MEM_ERROR)
         (d_seq (d_modify (\<lambda>s. s\<lparr>cm_pool := p\<rparr>))
         (d_seq (pool_memory cbs (he_pick env i) (nat idx) (max_frame_width q) (max_frame_height q) AOM_BORDER_IN_PIXELS True)
           (d_modify (\<lambda>s. set_frame (\<lambda>b. b\<lparr>rc_order_hint := oh\<rparr>) (nat idx)
             (s\<lparr>pbi_valid_for_referencing := (pbi_valid_for_referencing s)[i := 1],
                cm_ref_frame_map := (cm_ref_frame_map s)[i := Some (nat idx)]\<rparr>))))))))))"

definition read_ref_order_hints :: "'c frame_callbacks \<Rightarrow> 'c header_env \<Rightarrow> ('c AV1Decoder, unit) comp" where
  "read_ref_order_hints cbs env =
     d_get (\<lambda>s. d_when ((\<not> frame_is_intra_only s \<or> cf_refresh_frame_flags s \<noteq> 255) \<and>
         ft_error_resilient_mode s \<noteq> 0 \<and> enable_order_hint (order_hint_info (cm_seq s)) \<noteq> 0)
       (d_each (missing_ref cbs env) [0..<REF_FRAMES]))"

text \<open>The seven references of an inter frame.\<close>

definition short_signaling :: "('c AV1Decoder, unit) comp" where
  "short_signaling =
     d_get (\<lambda>s.
     d_bind (d_read (Literal 3)) (\<lambda>lst.
     d_bind (d_read (Literal 3)) (\<lambda>gld.
     d_seq (d_check (cm_ref_frame_map s ! nat lst \<noteq> None) AOM_CODEC_CORRUPT_FRAME)
     (d_seq (d_check (cm_ref_frame_map s ! nat gld \<noteq> None) AOM_CODEC_CORRUPT_FRAME)
       (av1_set_frame_refs (nat lst) (nat gld))))))"

definition check_ref_id :: "int \<Rightarrow> ('c AV1Decoder, unit) comp" where
  "check_ref_id ref =
     d_get (\<lambda>s. let q = cm_seq s; m = shl 1 (nat (frame_id_length q)) in
     d_when (frame_id_numbers_present_flag q \<noteq> 0)
       (d_bind (d_read (Literal (nat (delta_frame_id_length q)))) (\<lambda>d.
         d_check ((cm_current_frame_id s - (d + 1) + m) mod m = cm_ref_frame_id s ! nat ref) AOM_CODEC_CORRUPT_FRAME)))"

definition inter_ref :: "bool \<Rightarrow> nat \<Rightarrow> ('c AV1Decoder, unit) comp" where
  "inter_ref short i =
     d_bind (if \<not> short then
               d_bind (d_read (Literal 3)) (\<lambda>ref.
               d_get (\<lambda>s.
               d_seq (d_check (cm_ref_frame_map s ! nat ref \<noteq> None) AOM_CODEC_CORRUPT_FRAME)
               (d_seq (d_modify (\<lambda>s. s\<lparr>cm_remapped_ref_idx := (cm_remapped_ref_idx s)[i := ref]\<rparr>)) (d_ret ref))))
             else d_get (\<lambda>s. d_ret (cm_remapped_ref_idx s ! i))) (\<lambda>ref.
     d_seq (d_guard (0 \<le> ref))
     (d_get (\<lambda>s.
      d_seq (d_check (pbi_valid_for_referencing s ! nat ref \<noteq> 0) AOM_CODEC_CORRUPT_FRAME)
      (d_seq (d_modify (\<lambda>s. s\<lparr>cm_ref_frame_sign_bias := (cm_ref_frame_sign_bias s)[i + 1 := 0]\<rparr>))
        (check_ref_id ref)))))"

definition read_inter_refs :: "('c AV1Decoder, unit) comp" where
  "read_inter_refs =
     d_get (\<lambda>s.
     d_bind (if enable_order_hint (order_hint_info (cm_seq s)) \<noteq> 0 then d_flag else d_ret 0) (\<lambda>short.
     d_seq (d_when (short \<noteq> 0) short_signaling)
       (d_each (inter_ref (short \<noteq> 0)) [0..<INTER_REFS_PER_FRAME])))"

definition read_frame_interp_filter :: "('c AV1Decoder, int) comp" where
  "read_frame_interp_filter = d_bind d_flag (\<lambda>b. if b \<noteq> 0 then d_ret SWITCHABLE else d_read (Literal 2))"

definition read_inter_frame :: "'c frame_callbacks \<Rightarrow> 'c header_env \<Rightarrow> int \<Rightarrow> ('c AV1Decoder, unit) comp" where
  "read_inter_frame cbs env override =
     d_seq read_inter_refs
     (d_get (\<lambda>s.
      d_seq (if ft_error_resilient_mode s = 0 \<and> override \<noteq> 0 then setup_frame_size_with_refs cbs env else setup_frame_size cbs env override)
      (d_bind (if ft_cur_frame_force_integer_mv s \<noteq> 0 then d_ret 0 else d_flag) (\<lambda>hp.
       d_bind read_frame_interp_filter (\<lambda>filt.
       d_bind d_flag (\<lambda>sw.
       d_modify (\<lambda>s. s\<lparr>ft_allow_high_precision_mv := hp, ft_interp_filter := filt, ft_switchable_motion_mode := sw\<rparr>)))))))"

definition scale_ref :: "int \<Rightarrow> ('c AV1Decoder, unit) comp" where
  "scale_ref i =
     d_get (\<lambda>s. case get_ref_frame_buf s i of
       None \<Rightarrow> (\<lambda>_. None)
     | Some k \<Rightarrow>
         let m = nat (get_ref_frame_map_idx s i);
             buf = rc_buf (pool_frame s k);
             sf = av1_setup_scale_factors_for_frame (cm_ref_scale_factors s ! m) (y_crop_width buf) (y_crop_height buf) (cm_width s) (cm_height s) in
         d_seq (d_modify (\<lambda>s. s\<lparr>cm_ref_scale_factors := (cm_ref_scale_factors s)[m := sf]\<rparr>))
           (d_check (av1_is_valid_scale sf) AOM_CODEC_UNSUP_BITSTREAM))"

definition read_intrabc :: "('c AV1Decoder, unit) comp" where
  "read_intrabc =
     d_get (\<lambda>s. d_when (ft_allow_screen_content_tools s \<noteq> 0 \<and> \<not> av1_superres_scaled s)
       (d_bind d_flag (\<lambda>v. d_modify (\<lambda>s. s\<lparr>ft_allow_intrabc := v\<rparr>))))"

text \<open>Size and references of the frame, by its type.\<close>

definition read_frame_refs :: "'c frame_callbacks \<Rightarrow> 'c header_env \<Rightarrow> int \<Rightarrow> ('c AV1Decoder, unit) comp" where
  "read_frame_refs cbs env override =
     d_get (\<lambda>s.
     if cf_frame_type s = KEY_FRAME then
       d_seq (setup_frame_size cbs env override)
       (d_seq read_intrabc (d_modify (\<lambda>s. s\<lparr>ft_allow_ref_frame_mvs := 0, cm_prev_frame := None\<rparr>)))
     else
       d_seq (d_modify (\<lambda>s. s\<lparr>ft_allow_ref_frame_mvs := 0\<rparr>))
       (d_seq (if cf_frame_type s = INTRA_ONLY_FRAME then d_seq (setup_frame_size cbs env override) read_intrabc
               else d_when (pbi_need_resync s \<noteq> 1) (read_inter_frame cbs env override))
       (d_seq (d_modify (\<lambda>s. s\<lparr>cm_prev_frame := get_primary_ref_frame_buf s\<rparr>))
       (d_get (\<lambda>s.
        d_seq (d_check (\<not> (ft_primary_ref_frame s \<noteq> PRIMARY_REF_NONE \<and> get_primary_ref_frame_buf s = None)) AOM_CODEC_CORRUPT_FRAME)
        (d_when (cf_frame_type s \<noteq> INTRA_ONLY_FRAME \<and> pbi_need_resync s \<noteq> 1)
          (d_bind (if frame_might_allow_ref_frame_mvs s then d_flag else d_ret 0) (\<lambda>v.
           d_seq (d_modify (\<lambda>s. s\<lparr>ft_allow_ref_frame_mvs := v\<rparr>))
             (d_each scale_ref [1, 2, 3, 4, 5, 6, 7])))))))))"

definition av1_setup_frame_buf_refs :: "'c AV1Decoder \<Rightarrow> 'c AV1Decoder option" where
  "av1_setup_frame_buf_refs s =
     set_cur (\<lambda>b. b\<lparr>rc_order_hint := cf_order_hint s,
       rc_ref_order_hints := map (\<lambda>i. case get_ref_frame_buf s (int i + 1) of
           Some k \<Rightarrow> rc_order_hint (pool_frame s k) | None \<Rightarrow> rc_ref_order_hints b ! i) [0..<INTER_REFS_PER_FRAME]\<rparr>) s"

definition av1_setup_frame_sign_bias :: "'c AV1Decoder \<Rightarrow> 'c AV1Decoder" where
  "av1_setup_frame_sign_bias s =
     (let oh = order_hint_info (cm_seq s) in
      s\<lparr>cm_ref_frame_sign_bias := foldl (\<lambda>xs i. xs[nat i := (case get_ref_frame_buf s i of
          Some k \<Rightarrow> if enable_order_hint oh \<noteq> 0 \<and> \<not> get_relative_dist oh (s32 (rc_order_hint (pool_frame s k))) (s32 (cf_order_hint s)) \<le> 0
            then 1 else 0
        | None \<Rightarrow> 0)]) (cm_ref_frame_sign_bias s) [1, 2, 3, 4, 5, 6, 7]\<rparr>)"

definition read_frame_end :: "'c header_env \<Rightarrow> ('c AV1Decoder, unit) comp" where
  "read_frame_end env =
     d_seq (d_try av1_setup_frame_buf_refs)
     (d_seq (d_modify av1_setup_frame_sign_bias)
     (d_seq (d_try (\<lambda>s. set_cur (\<lambda>b. b\<lparr>rc_frame_type := cf_frame_type s\<rparr>) s))
     (d_seq (d_modify update_ref_frame_id)
     (d_get (\<lambda>s.
      d_bind (if reduced_still_picture_hdr (cm_seq s) = 0 \<and> ft_disable_cdf_update s = 0
              then d_bind d_flag (\<lambda>b. d_ret (if b \<noteq> 0 then 0 else 1)) else d_ret 0) (\<lambda>ctx.
      d_seq (d_modify (\<lambda>s. s\<lparr>ft_refresh_frame_context := ctx\<rparr>))
      (d_seq (d_try (\<lambda>s. set_cur (stamp_frame s) s))
      (d_seq (d_check (pbi_need_resync s = 0) AOM_CODEC_CORRUPT_FRAME)
      (d_seq (d_modify (\<lambda>s. if ft_allow_intrabc s \<noteq> 0 then s\<lparr>lf_filter_level := [0, 0]\<rparr> else s))
      (\<lambda>(s, rb). case he_rest env s rb of
          (Inl e, rb') \<Rightarrow> Some (Inl e, s, rb')
        | (Inr r, rb') \<Rightarrow>
            map_option (\<lambda>s'. (Inr (), s', rb')) (set_cur (\<lambda>b. b\<lparr>apply_grain := hr_apply_grain r\<rparr>)
              (s\<lparr>tl_cols := hr_cols r, tl_rows := hr_rows r, tl_log2_cols := hr_log2_cols r, tl_log2_rows := hr_log2_rows r,
                tl_single_tile_decoding := if pbi_ext_tile_debug s \<noteq> 0 \<and> tl_large_scale s \<noteq> 0
                  then av1_set_single_tile_decoding_mode (hr_no_filters r) (tl_large_scale s) else tl_single_tile_decoding s\<rparr>))))))))))))"

definition read_uncompressed_header :: "'c frame_callbacks \<Rightarrow> 'c header_env \<Rightarrow> ('c AV1Decoder, unit) comp" where
  "read_uncompressed_header cbs env =
     d_bind (read_frame_start cbs env) (\<lambda>existing.
     d_when (\<not> existing)
       (d_seq read_frame_tools
       (d_bind read_frame_order (\<lambda>override.
        d_seq read_removal_times
        (d_seq (read_refresh_flags cbs)
        (d_seq (read_ref_order_hints cbs env)
        (d_seq (read_frame_refs cbs env override) (read_frame_end env))))))))"

text \<open>\<open>av1_decode_frame_headers_and_setup\<close>: the size of the header in bytes.\<close>

definition av1_decode_frame_headers_and_setup ::
  "'c frame_callbacks \<Rightarrow> 'c header_env \<Rightarrow> bool \<Rightarrow> ('c AV1Decoder, int) comp" where
  "av1_decode_frame_headers_and_setup cbs env trailing_bits_present =
     d_seq (read_uncompressed_header cbs env)
     (d_seq (d_when trailing_bits_present
        (\<lambda>(s, rb). case av1_check_trailing_bits rb of
            Inl e \<Rightarrow> Some (Inl (seq_error_code e), s, rb)
          | Inr rb' \<Rightarrow> Some (Inr (), s, rb')))
     (\<lambda>(s, rb). let sz = aom_rb_bytes_read rb in
        (if cm_show_existing_frame s \<noteq> 0 then
           d_seq (d_when (pbi_reset_decoder_state s \<noteq> 0) (d_check (he_fc_ready env s) AOM_CODEC_CORRUPT_FRAME)) (d_ret sz)
         else
           d_seq (d_guard (ft_primary_ref_frame s = PRIMARY_REF_NONE \<or> get_primary_ref_frame_buf s \<noteq> None))
           (d_seq (d_check (he_fc_ready env s) AOM_CODEC_CORRUPT_FRAME) (d_ret sz))) (s, rb)))"

end
