(* ===== verification/Obu_Stream.thy ===== *)
theory Obu_Stream
  imports Sequence_Header_Valid
begin

text \<open>
  Bytes from the network before the decoder trusts them: \<open>decoder_peek_si_internal\<close> of
  \<open>av1/av1_dx_iface.c\<close>, which looks through a temporal unit for a sequence header and a frame to
  start from, and the metadata OBUs of \<open>av1/decoder/obu.c\<close>. The bit reader of the first has no
  error handler: a read past the end gives zero bits.
\<close>

section \<open>Stream information\<close>

definition OBU_TEMPORAL_DELIMITER :: int where "OBU_TEMPORAL_DELIMITER = 2"

definition parse_timing_info :: "aom_read_bit_buffer \<Rightarrow> aom_codec_err \<times> aom_read_bit_buffer" where
  "parse_timing_info rb =
     (let (nu, rb) = aom_rb_read_unsigned_literal rb 32;
          (ts, rb) = aom_rb_read_unsigned_literal rb 32 in
      if nu = 0 \<or> ts = 0 then (AOM_CODEC_UNSUP_BITSTREAM, rb)
      else
        let (eq, rb) = aom_rb_read_bit rb in
        if eq \<noteq> 0 then
          let (n, rb) = aom_rb_read_uvlc rb in
          (if n = 4294967295 then AOM_CODEC_UNSUP_BITSTREAM else AOM_CODEC_OK, rb)
        else (AOM_CODEC_OK, rb))"

text \<open>The length of the buffer delays, less one.\<close>

definition parse_decoder_model_info :: "aom_read_bit_buffer \<Rightarrow> int \<times> aom_read_bit_buffer" where
  "parse_decoder_model_info rb =
     (let (n, rb) = aom_rb_read_literal rb 5;
          (_, rb) = aom_rb_read_unsigned_literal rb 32;
          (_, rb) = aom_rb_read_literal rb 5;
          (_, rb) = aom_rb_read_literal rb 5 in
      (n, rb))"

definition parse_op_parameters_info :: "aom_read_bit_buffer \<Rightarrow> int \<Rightarrow> aom_read_bit_buffer" where
  "parse_op_parameters_info rb len1 =
     (let n = nat (len1 + 1);
          (_, rb) = aom_rb_read_unsigned_literal rb n;
          (_, rb) = aom_rb_read_unsigned_literal rb n;
          (_, rb) = aom_rb_read_bit rb in
      rb)"

definition parse_op_point :: "int \<Rightarrow> int \<Rightarrow> int \<Rightarrow> aom_read_bit_buffer \<Rightarrow> int \<times> aom_read_bit_buffer" where
  "parse_op_point dmi len1 disp rb =
     (let (idc, rb) = aom_rb_read_literal rb 12;
          (level, rb) = aom_rb_read_literal rb 5;
          rb = (if level > 7 then snd (aom_rb_read_bit rb) else rb);
          rb = (if dmi \<noteq> 0 then let (p, rb) = aom_rb_read_bit rb in if p \<noteq> 0 then parse_op_parameters_info rb len1 else rb else rb);
          rb = (if disp \<noteq> 0 then let (p, rb) = aom_rb_read_bit rb in if p \<noteq> 0 then snd (aom_rb_read_literal rb 4) else rb else rb) in
      (idc, rb))"

fun parse_op_points :: "nat \<Rightarrow> int \<Rightarrow> int \<Rightarrow> int \<Rightarrow> aom_read_bit_buffer \<Rightarrow> aom_read_bit_buffer" where
  "parse_op_points 0 dmi len1 disp rb = rb"
| "parse_op_points (Suc m) dmi len1 disp rb = parse_op_points m dmi len1 disp (snd (parse_op_point dmi len1 disp rb))"

text \<open>The status, the layers of the first operating point, and the reader afterwards.\<close>

definition parse_operating_points :: "aom_read_bit_buffer \<Rightarrow> int \<Rightarrow> (aom_codec_err + int \<times> int) \<times> aom_read_bit_buffer" where
  "parse_operating_points rb is_reduced_header =
     (if is_reduced_header \<noteq> 0 then
        let (_, rb) = aom_rb_read_literal rb 5 in (Inr (aom_get_num_layers_from_operating_point_idc 0), rb)
      else
        let (tp, rb) = aom_rb_read_bit rb;
            (status, rb) = (if tp \<noteq> 0 then parse_timing_info rb else (AOM_CODEC_OK, rb)) in
        if status \<noteq> AOM_CODEC_OK then (Inl status, rb)
        else
          let (dmi, rb) = (if tp \<noteq> 0 then aom_rb_read_bit rb else (0, rb));
              (len1, rb) = (if dmi \<noteq> 0 then parse_decoder_model_info rb else (0, rb));
              (disp, rb) = aom_rb_read_bit rb;
              (cnt, rb) = aom_rb_read_literal rb 5;
              (idc0, rb1) = parse_op_point dmi len1 disp rb in
          (Inr (aom_get_num_layers_from_operating_point_idc idc0), parse_op_points (nat cnt) dmi len1 disp rb1))"

text \<open>The sequence header of a temporal unit: the new information and \<open>reduced_still_picture_hdr\<close>.\<close>

definition peek_sequence_header :: "int list \<Rightarrow> aom_codec_stream_info \<Rightarrow> aom_codec_err + aom_codec_stream_info \<times> int" where
  "peek_sequence_header data si =
     (let rb = obu_reader data;
          (_, rb) = aom_rb_read_literal rb 3;
          (still, rb) = aom_rb_read_bit rb;
          (reduced, rb) = aom_rb_read_bit rb in
      if still = 0 \<and> reduced \<noteq> 0 then Inl AOM_CODEC_UNSUP_BITSTREAM
      else case parse_operating_points rb reduced of
          (Inl e, _) \<Rightarrow> Inl e
        | (Inr (spatial, temporal), rb) \<Rightarrow>
            let (bw, rb) = aom_rb_read_literal rb 4;
                (bh, rb) = aom_rb_read_literal rb 4;
                (w, rb) = aom_rb_read_literal rb (nat (bw + 1));
                (h, rb) = aom_rb_read_literal rb (nat (bh + 1)) in
            Inr (si\<lparr>si_number_spatial_layers := spatial, si_number_temporal_layers := temporal, si_w := w + 1, si_h := h + 1\<rparr>, reduced))"

record peek_state =
  pk_si :: aom_codec_stream_info
  pk_got_sequence_header :: bool
  pk_reduced :: int
  pk_found_keyframe :: bool
  pk_intra_only :: int

text \<open>What one OBU adds, its header read; the flag says that nothing further can change the outcome.\<close>

definition peek_obu :: "ObuHeader \<Rightarrow> int list \<Rightarrow> peek_state \<Rightarrow> aom_codec_err + bool \<times> peek_state" where
  "peek_obu header data st =
     (if oh_type header = OBU_SEQUENCE_HEADER then
        if length data < 2 then Inl AOM_CODEC_CORRUPT_FRAME
        else case peek_sequence_header data (pk_si st) of
            Inl e \<Rightarrow> Inl e
          | Inr (si, reduced) \<Rightarrow> Inr (False, st\<lparr>pk_si := si, pk_reduced := reduced, pk_got_sequence_header := True\<rparr>)
      else if oh_type header = OBU_FRAME_HEADER \<or> oh_type header = OBU_FRAME then
        if pk_got_sequence_header st \<and> pk_reduced st \<noteq> 0 then Inr (True, st\<lparr>pk_found_keyframe := True\<rparr>)
        else if length data < 1 then Inl AOM_CODEC_CORRUPT_FRAME
        else
          let (existing, rb) = aom_rb_read_bit (obu_reader data) in
          if existing \<noteq> 0 then Inr (False, st)
          else
            let (ftype, rb) = aom_rb_read_literal rb 2 in
            if ftype = 0 then Inr (True, st\<lparr>pk_found_keyframe := True\<rparr>)
            else if ftype = 2 then Inr (False, st\<lparr>pk_intra_only := 1\<rparr>)
            else Inr (False, st)
      else Inr (False, st))"

lemma obu_header_progress: "aom_read_obu_header_and_size data annexb = Inr (h, p, b) \<Longrightarrow> 0 < b \<and> b \<le> length data"
proof (cases "if annexb then read_obu_size data else Inr (0, 0)")
  case (Inr x)
  obtain sz n where x: "x = (sz, n)" by fastforce
  assume "aom_read_obu_header_and_size data annexb = Inr (h, p, b)"
  then show ?thesis using Inr
    by (auto simp: aom_read_obu_header_and_size_def x split: sum.splits if_splits prod.splits dest!: read_obu_header_size read_obu_size_bounds)
qed (auto simp: aom_read_obu_header_and_size_def)

text \<open>The status and what was found; an error keeps what the OBUs before it gave.\<close>

function peek_obus :: "bool \<Rightarrow> int list \<Rightarrow> peek_state \<Rightarrow> aom_codec_err \<times> peek_state" where
  "peek_obus annexb data st =
     (case aom_read_obu_header_and_size data annexb of
        Inl e \<Rightarrow> (e, st)
      | Inr (header, payload_size, bytes_read) \<Rightarrow>
          let data = drop bytes_read data in
          if length data < payload_size then (AOM_CODEC_CORRUPT_FRAME, st)
          else case peek_obu header data st of
              Inl e \<Rightarrow> (e, st)
            | Inr (stop, st) \<Rightarrow>
                let data = drop payload_size data in
                if stop \<or> data = [] then (AOM_CODEC_OK, st) else peek_obus annexb data st)"
  by auto
termination
proof (relation "measure (\<lambda>(_, data, _). length data)", goal_cases)
  case 2
  then show ?case by (auto dest!: obu_header_progress)
qed simp

declare peek_obus.simps [simp del]

text \<open>The status, the information as it is left, also by an error, and \<open>is_intra_only\<close>.\<close>

definition decoder_peek_si_internal :: "int list \<Rightarrow> aom_codec_stream_info \<Rightarrow> aom_codec_err \<times> aom_codec_stream_info \<times> int" where
  "decoder_peek_si_internal data si =
     (if length data < 1 then (AOM_CODEC_INVALID_PARAM, si, 0)
      else
        let annexb = si_is_annexb si \<noteq> 0;
            si = si\<lparr>si_w := 0, si_h := 0, si_is_kf := 0\<rparr>;
            st = \<lparr>pk_si = si, pk_got_sequence_header = False, pk_reduced = 0, pk_found_keyframe = False, pk_intra_only = 0\<rparr> in
        case aom_read_obu_header_and_size data annexb of
          Inl e \<Rightarrow> (e, si, 0)
        | Inr (header, payload_size, bytes_read) \<Rightarrow>
            case (if oh_type header = OBU_TEMPORAL_DELIMITER then
                    if length data < bytes_read + payload_size then None
                    else Some (drop (bytes_read + payload_size) data)
                  else Some data) of
              None \<Rightarrow> (AOM_CODEC_CORRUPT_FRAME, si, 0)
            | Some data \<Rightarrow>
                let (e, st) = peek_obus annexb data st in
                if e \<noteq> AOM_CODEC_OK then (e, pk_si st, 0)
                else (AOM_CODEC_OK,
                      if pk_got_sequence_header st \<and> pk_found_keyframe st then (pk_si st)\<lparr>si_is_kf := 1\<rparr> else pk_si st,
                      pk_intra_only st))"

definition decoder_peek_si :: "int list \<Rightarrow> aom_codec_stream_info \<Rightarrow> aom_codec_err \<times> aom_codec_stream_info" where
  "decoder_peek_si data si = (case decoder_peek_si_internal data si of (e, si, _) \<Rightarrow> (e, si))"

section \<open>Metadata\<close>

definition OBU_METADATA_TYPE_HDR_CLL :: int where "OBU_METADATA_TYPE_HDR_CLL = 1"
definition OBU_METADATA_TYPE_HDR_MDCV :: int where "OBU_METADATA_TYPE_HDR_MDCV = 2"
definition OBU_METADATA_TYPE_ITUT_T35 :: int where "OBU_METADATA_TYPE_ITUT_T35 = 4"
definition AOM_MIF_ANY_FRAME :: int where "AOM_MIF_ANY_FRAME = 2"
definition AOM_MIF_ANY_FRAME_LAYER_SPECIFIC :: int where "AOM_MIF_ANY_FRAME_LAYER_SPECIFIC = 18"
definition SCALABILITY_SS :: int where "SCALABILITY_SS = 14"

text \<open>A list of metadata with one item more, or a refused allocation.\<close>

definition alloc_read_metadata ::
  "(alloc_site \<Rightarrow> bool) \<Rightarrow> int \<Rightarrow> int list \<Rightarrow> int \<Rightarrow> int \<Rightarrow> aom_metadata_array option \<Rightarrow>
    (aom_codec_err + unit) \<times> aom_metadata_array option" where
  "alloc_read_metadata ok mtype data sz insert_flag md =
     (case (case md of None \<Rightarrow> aom_img_metadata_array_alloc ok 0 | Some a \<Rightarrow> Some a) of
        None \<Rightarrow> (Inl AOM_CODEC_MEM_ERROR, None)
      | Some arr \<Rightarrow>
          case aom_img_metadata_alloc ok mtype (Some data) sz insert_flag of
            None \<Rightarrow> (Inl AOM_CODEC_MEM_ERROR, Some arr)
          | Some item \<Rightarrow>
              if \<not> ok Array_grow then (Inl AOM_CODEC_MEM_ERROR, Some arr)
              else (Inr (), Some \<lparr>arr_sz = u64 (arr_sz arr + 1), arr_items = take (nat (arr_sz arr)) (arr_items arr) @ [Some item]\<rparr>))"

definition read_metadata_itut_t35 ::
  "(alloc_site \<Rightarrow> bool) \<Rightarrow> int list \<Rightarrow> bool \<Rightarrow> aom_metadata_array option \<Rightarrow> (aom_codec_err + unit) \<times> aom_metadata_array option" where
  "read_metadata_itut_t35 ok data has_ext md =
     (if length data = 0 then (Inl AOM_CODEC_CORRUPT_FRAME, md)
      else if data ! 0 = 255 \<and> length data = 1 then (Inl AOM_CODEC_CORRUPT_FRAME, md)
      else
        let country_code_size = (if data ! 0 = 255 then 2 else 1);
            end_index = get_last_nonzero_byte_index data (length data) in
        if end_index < country_code_size then (Inl AOM_CODEC_CORRUPT_FRAME, md)
        else if data ! nat end_index \<noteq> 128 then (Inl AOM_CODEC_CORRUPT_FRAME, md)
        else alloc_read_metadata ok OBU_METADATA_TYPE_ITUT_T35 data end_index
               (if has_ext then AOM_MIF_ANY_FRAME_LAYER_SPECIFIC else AOM_MIF_ANY_FRAME) md)"

text \<open>\<open>read_metadata_hdr_cll\<close> and \<open>read_metadata_hdr_mdcv\<close>: a payload of a fixed number of bytes.\<close>

definition read_metadata_hdr ::
  "(alloc_site \<Rightarrow> bool) \<Rightarrow> int \<Rightarrow> nat \<Rightarrow> int list \<Rightarrow> aom_metadata_array option \<Rightarrow> (aom_codec_err + nat) \<times> aom_metadata_array option" where
  "read_metadata_hdr ok mtype n data md =
     (if length data < n then (Inl AOM_CODEC_CORRUPT_FRAME, md)
      else case alloc_read_metadata ok mtype data (int n) AOM_MIF_ANY_FRAME md of (r, md) \<Rightarrow> (map_sum id (\<lambda>_. n) r, md))"

definition read_metadata_hdr_cll where "read_metadata_hdr_cll ok = read_metadata_hdr ok OBU_METADATA_TYPE_HDR_CLL 4"
definition read_metadata_hdr_mdcv where "read_metadata_hdr_mdcv ok = read_metadata_hdr ok OBU_METADATA_TYPE_HDR_MDCV 24"

fun read_many :: "nat \<Rightarrow> unit parser \<Rightarrow> unit parser" where
  "read_many 0 p = Ret ()"
| "read_many (Suc m) p = parser_bind p (\<lambda>_. read_many m p)"

definition skip_bits :: "nat \<Rightarrow> unit parser" where
  "skip_bits n = Get (Literal n) (\<lambda>_. Ret ())"

definition scalability_structure :: "unit parser" where
  "scalability_structure =
     Get (Literal 2) (\<lambda>cnt. Flag (\<lambda>dims. Flag (\<lambda>desc. Flag (\<lambda>groups.
     parser_bind (skip_bits 3) (\<lambda>_.
     parser_bind (if dims \<noteq> 0 then read_many (nat (cnt + 1)) (parser_bind (skip_bits 16) (\<lambda>_. skip_bits 16)) else Ret ()) (\<lambda>_.
     parser_bind (if desc \<noteq> 0 then read_many (nat (cnt + 1)) (skip_bits 8) else Ret ()) (\<lambda>_.
     if groups \<noteq> 0 then
       Get (Literal 8) (\<lambda>n. read_many (nat n)
         (parser_bind (skip_bits 3) (\<lambda>_. Flag (\<lambda>_. Flag (\<lambda>_. Get (Literal 3) (\<lambda>refs. read_many (nat refs) (skip_bits 8)))))))
     else Ret ())))))))"

definition read_metadata_scalability :: "unit parser" where
  "read_metadata_scalability = Get (Literal 8) (\<lambda>mode. if mode = SCALABILITY_SS then scalability_structure else Ret ())"

definition read_metadata_timecode :: "unit parser" where
  "read_metadata_timecode =
     parser_bind (skip_bits 5) (\<lambda>_. Flag (\<lambda>full. Flag (\<lambda>_. Flag (\<lambda>_. parser_bind (skip_bits 9) (\<lambda>_.
     parser_bind
       (if full \<noteq> 0 then parser_bind (skip_bits 6) (\<lambda>_. parser_bind (skip_bits 6) (\<lambda>_. skip_bits 5))
        else Flag (\<lambda>sec. if sec = 0 then Ret () else parser_bind (skip_bits 6) (\<lambda>_.
             Flag (\<lambda>mins. if mins = 0 then Ret () else parser_bind (skip_bits 6) (\<lambda>_.
             Flag (\<lambda>hours. if hours = 0 then Ret () else skip_bits 5))))))
       (\<lambda>_. Get (Literal 5) (\<lambda>len. if len \<noteq> 0 then skip_bits (nat len) else Ret ())))))))"

text \<open>The number of bytes read, and the metadata the decoder has collected.\<close>

definition read_metadata ::
  "(alloc_site \<Rightarrow> bool) \<Rightarrow> int list \<Rightarrow> bool \<Rightarrow> aom_metadata_array option \<Rightarrow> (aom_codec_err + int) \<times> aom_metadata_array option" where
  "read_metadata ok data has_ext md =
     (case aom_uleb_decode (Some (map nat data)) True True of
        (rc, v, len) \<Rightarrow>
          if rc < 0 then (Inl AOM_CODEC_CORRUPT_FRAME, md)
          else
            let mtype = u32 (int (the v));
                n = the len;
                rest = drop n data;
                fixed = (\<lambda>(r, md). case r of
                    Inl e \<Rightarrow> (Inl e, md)
                  | Inr k \<Rightarrow>
                      if get_last_nonzero_byte (drop k rest) (length rest - k) \<noteq> 128 then (Inl AOM_CODEC_CORRUPT_FRAME, md)
                      else (Inr (int (length data)), md)) in
            if mtype = 0 \<or> mtype \<ge> 6 then
              (if get_last_nonzero_byte rest (length rest) = 0 then Inl AOM_CODEC_CORRUPT_FRAME else Inr (int (length data)), md)
            else if mtype = OBU_METADATA_TYPE_ITUT_T35 then
              (case read_metadata_itut_t35 ok rest has_ext md of (r, md) \<Rightarrow> (map_sum id (\<lambda>_. int (length data)) r, md))
            else if mtype = OBU_METADATA_TYPE_HDR_CLL then fixed (read_metadata_hdr_cll ok rest md)
            else if mtype = OBU_METADATA_TYPE_HDR_MDCV then fixed (read_metadata_hdr_mdcv ok rest md)
            else
              let rb = \<lparr>rb_bit_buffer = rest, rb_bit_offset = 0, rb_error_handler = True, rb_errors = 0\<rparr> in
              (case run_parser (if mtype = OBU_METADATA_TYPE_SCALABILITY then read_metadata_scalability else read_metadata_timecode) rb of
                 Inl e \<Rightarrow> (Inl (seq_error_code e), md)
               | Inr (_, rb) \<Rightarrow>
                   (case av1_check_trailing_bits rb of
                      Inl e \<Rightarrow> (Inl (seq_error_code e), md)
                    | Inr rb \<Rightarrow> (Inr (int n + shr (rb_bit_offset rb) 3), md))))"

end
