(* ===== verification/Decoder.thy ===== *)
theory Decoder
  imports Frame_Header Obu_Stream
begin

text \<open>
  The decoder from the bytes of a temporal unit to the frames it shows: the loop over the OBUs
  (\<open>av1/decoder/obu.c\<close>), the frames that replace references and are put out
  (\<open>av1/decoder/decoder.c\<close>), and the calls of the application (\<open>av1/av1_dx_iface.c\<close>). Decoding the
  blocks of a tile and filtering the frame write samples, which this part of the model does not
  follow, and leave the counts and the blocks of the pool alone; they are arguments. So are the tile
  lists of large-scale decoding, which the application would have to ask for: a list may change the
  pictures of the pool's frames, its references being pointed at the application's external ones, but
  not their counts and not their blocks. (A tile list of a frame that super-resolution scales would
  also give the frame a new block; that is outside the model.)
\<close>

section \<open>Tile groups\<close>

text \<open>
  \<open>te_setup\<close> is the once-per-frame allocation, \<open>te_tiles\<close> decodes tiles and returns how many
  bytes it used, \<open>te_filters\<close> and \<open>te_wrapup\<close> are what happens before and after super-resolution,
  each an error or nothing; \<open>te_copy\<close> and \<open>te_pick\<close> answer the allocations of super-resolution.
  \<open>te_no_filters\<close> is whether the filter parameters of the last header are all zero. \<open>te_tile_list\<close> is
  \<open>read_and_decode_one_tile_list\<close>: the error or the size, reach and end of the list, and the pictures of
  the frames and the frame number it leaves.
\<close>

record 'c tile_env =
  te_setup :: "'c AV1Decoder \<Rightarrow> aom_codec_err option"
  te_tiles :: "'c AV1Decoder \<Rightarrow> int list \<Rightarrow> int \<Rightarrow> int \<Rightarrow> aom_codec_err + nat"
  te_filters :: "'c AV1Decoder \<Rightarrow> aom_codec_err option"
  te_wrapup :: "'c AV1Decoder \<Rightarrow> aom_codec_err option"
  te_copy :: bool
  te_pick :: int
  te_no_filters :: "'c AV1Decoder \<Rightarrow> bool"
  te_tile_list :: "'c AV1Decoder \<Rightarrow> int list \<Rightarrow> (aom_codec_err + int \<times> nat \<times> bool) \<times> (nat \<Rightarrow> YV12_BUFFER_CONFIG) \<times> int"
  te_metadata :: "alloc_site \<Rightarrow> bool"

definition d_fail :: "aom_codec_err option \<Rightarrow> ('s, unit) comp" where
  "d_fail r = (case r of None \<Rightarrow> d_ret () | Some e \<Rightarrow> d_throw e)"

text \<open>\<open>release_fb_cb\<close> on the block of frame \<open>k\<close>, which keeps the address of the block.\<close>

definition release_block :: "'c frame_callbacks \<Rightarrow> nat \<Rightarrow> ('c AV1Decoder, unit) comp" where
  "release_block cbs k =
     d_lift (\<lambda>s. map_option (\<lambda>(rc, c). (if rc \<noteq> 0 then Inl AOM_CODEC_MEM_ERROR else Inr (), s\<lparr>cm_pool := (cm_pool s)\<lparr>cb_priv := c\<rparr>\<rparr>))
       (release_fb_cb cbs (cb_priv (cm_pool s)) (raw_frame_buffer (pool_frame s k))))"

text \<open>\<open>av1_superres_upscale\<close> on the decoder: the frame gets a larger block. The copy of the picture
  and its scaling are not part of the model.\<close>

definition av1_superres_upscale :: "'c frame_callbacks \<Rightarrow> 'c tile_env \<Rightarrow> ('c AV1Decoder, unit) comp" where
  "av1_superres_upscale cbs te =
     d_get (\<lambda>s. d_when (av1_superres_scaled s)
       (case cm_cur_frame s of
          None \<Rightarrow> (\<lambda>_. None)
        | Some k \<Rightarrow>
            d_seq (d_check (te_copy te) AOM_CODEC_MEM_ERROR)
            (d_seq (release_block cbs k)
              (pool_memory cbs (te_pick te) k (cm_superres_upscaled_width s) (cm_superres_upscaled_height s) AOM_BORDER_IN_PIXELS False))))"

text \<open>The number of bytes the tiles took.\<close>

definition av1_decode_tg_tiles_and_wrapup ::
  "'c frame_callbacks \<Rightarrow> 'c tile_env \<Rightarrow> int list \<Rightarrow> int \<Rightarrow> int \<Rightarrow> bool \<Rightarrow> ('c AV1Decoder, nat) comp" where
  "av1_decode_tg_tiles_and_wrapup cbs te data start_tile end_tile initialize_flag =
     d_get (\<lambda>s.
     d_seq (d_when initialize_flag (d_fail (te_setup te s)))
     (case te_tiles te s data start_tile end_tile of
        Inl e \<Rightarrow> d_throw e
      | Inr n \<Rightarrow>
          if end_tile \<noteq> tl_rows s * tl_cols s - 1 then d_ret n
          else
            d_seq (d_fail (te_filters te s))
            (d_seq (d_when (ft_allow_intrabc s = 0 \<and> tl_single_tile_decoding s = 0) (av1_superres_upscale cbs te))
            (d_seq (d_get (\<lambda>s. d_fail (te_wrapup te s)))
            (d_seq (d_modify (\<lambda>s. if cm_show_frame s \<noteq> 0 \<and> enable_order_hint (order_hint_info (cm_seq s)) = 0
                then s\<lparr>cf_frame_number := cf_frame_number s + 1\<rparr> else s))
              (d_ret n))))))"

text \<open>The first and last tile of a group and the size of its header.\<close>

definition read_tile_group_header :: "bool \<Rightarrow> ('c AV1Decoder, int \<times> int \<times> int) comp" where
  "read_tile_group_header tile_start_implicit =
     (\<lambda>(s, rb). let num_tiles = tl_rows s * tl_cols s; saved = rb_bit_offset rb in
      d_bind (if tl_large_scale s = 0 \<and> num_tiles > 1 then
                d_bind d_flag (\<lambda>p. d_seq (d_check (\<not> (tile_start_implicit \<and> p \<noteq> 0)) AOM_CODEC_UNSUP_BITSTREAM) (d_ret p))
              else d_ret 0) (\<lambda>present.
      d_bind (if tl_large_scale s \<noteq> 0 \<or> num_tiles = 1 \<or> present = 0 then d_ret (0, num_tiles - 1)
              else
                let bits = nat (tl_log2_rows s + tl_log2_cols s) in
                d_bind (d_read (Literal bits)) (\<lambda>a. d_bind (d_read (Literal bits)) (\<lambda>b. d_ret (a, b)))) (\<lambda>(a, b).
      d_seq (d_check (a = pbi_next_start_tile s) AOM_CODEC_CORRUPT_FRAME)
      (d_seq (d_check (\<not> a > b) AOM_CODEC_CORRUPT_FRAME)
      (d_seq (d_check (\<not> b \<ge> num_tiles) AOM_CODEC_CORRUPT_FRAME)
      (d_seq (d_modify (\<lambda>s. s\<lparr>pbi_next_start_tile := if b = num_tiles - 1 then 0 else b + 1\<rparr>))
      (\<lambda>(s, rb). Some (Inr (a, b, shr (u32 (rb_bit_offset rb - saved + 7)) 3), s, rb))))))) (s, rb))"

fun align_bits :: "nat \<Rightarrow> ('s, unit) comp" where
  "align_bits 0 = d_ret ()"
| "align_bits (Suc n) = d_bind d_flag (\<lambda>b. d_seq (d_check (b = 0) AOM_CODEC_CORRUPT_FRAME) (align_bits n))"

text \<open>The bits up to the next byte, at most seven, are zero.\<close>

definition byte_alignment :: "('s, unit) comp" where
  "byte_alignment = (\<lambda>(s, rb). align_bits (nat ((8 - rb_bit_offset rb mod 8) mod 8)) (s, rb))"

text \<open>The size of the OBU's tile group, whether it is the frame's last, and how far the tiles reach.\<close>

definition read_one_tile_group_obu ::
  "'c frame_callbacks \<Rightarrow> 'c tile_env \<Rightarrow> int list \<Rightarrow> bool \<Rightarrow> bool \<Rightarrow> ('c AV1Decoder, int \<times> bool \<times> nat) comp" where
  "read_one_tile_group_obu cbs te data is_first_tg tile_start_implicit =
     d_bind (read_tile_group_header tile_start_implicit) (\<lambda>(start_tile, end_tile, header_size).
     d_seq byte_alignment
     (d_bind (av1_decode_tg_tiles_and_wrapup cbs te (drop (nat header_size) data) start_tile end_tile is_first_tg) (\<lambda>n.
      d_get (\<lambda>s. d_ret (header_size + int n, end_tile = tl_rows s * tl_cols s - 1, nat header_size + n)))))"

section \<open>The loop over OBUs\<close>

definition OBU_TILE_GROUP :: int where "OBU_TILE_GROUP = 4"
definition OBU_METADATA :: int where "OBU_METADATA = 5"
definition OBU_REDUNDANT_FRAME_HEADER :: int where "OBU_REDUNDANT_FRAME_HEADER = 7"
definition OBU_TILE_LIST :: int where "OBU_TILE_LIST = 8"
definition OBU_PADDING :: int where "OBU_PADDING = 15"

text \<open>
  The local variables of the loop: the header of the frame that was seen, whether a tile group
  was, whether the frame is finished, and \<open>*p_data_end\<close> as the number of bytes before it.
\<close>

record obu_loop =
  ol_frame_header :: "int list"
  ol_frame_header_size :: int
  ol_first_tg :: bool
  ol_finished :: bool
  ol_data_end :: nat

definition obu_payload_reader :: "int list \<Rightarrow> aom_read_bit_buffer" where
  "obu_payload_reader payload = \<lparr>rb_bit_buffer = payload, rb_bit_offset = 0, rb_error_handler = True, rb_errors = 0\<rparr>"

text \<open>A tile group, \<open>off\<close> bytes into the payload, which starts at \<open>pos\<close>: the bytes decoded.\<close>

definition tile_group_obu ::
  "'c frame_callbacks \<Rightarrow> 'c tile_env \<Rightarrow> bool \<Rightarrow> int list \<Rightarrow> nat \<Rightarrow> int \<Rightarrow> obu_loop \<Rightarrow> ('c AV1Decoder, int \<times> obu_loop) comp" where
  "tile_group_obu cbs te is_frame payload pos off L =
     d_get (\<lambda>s.
     d_seq (d_check (pbi_seen_frame_header s \<noteq> 0) AOM_CODEC_CORRUPT_FRAME)
     (d_seq (d_check (\<not> off > int (length payload)) AOM_CODEC_CORRUPT_FRAME)
     (d_bind (read_one_tile_group_obu cbs te (drop (nat off) payload) (ol_first_tg L) is_frame) (\<lambda>(n, finished, reach).
      d_seq (d_modify (\<lambda>s. s\<lparr>pbi_seen_frame_header := if finished then 0 else pbi_seen_frame_header s,
        pbi_next_start_tile := if finished then 0 else pbi_next_start_tile s, pbi_num_tile_groups := pbi_num_tile_groups s + 1\<rparr>))
        (d_ret (off + n, L\<lparr>ol_first_tg := False, ol_finished := finished, ol_data_end := pos + nat off + reach\<rparr>))))))"

text \<open>The frame header of an OBU, read or compared with the one that was.\<close>

definition frame_header_obu ::
  "'c frame_callbacks \<Rightarrow> 'c header_env \<Rightarrow> int \<Rightarrow> int list \<Rightarrow> nat \<Rightarrow> obu_loop \<Rightarrow> ('c AV1Decoder, obu_loop) comp" where
  "frame_header_obu cbs env obu_type payload pos L =
     d_get (\<lambda>s.
     d_seq (d_check (if obu_type = OBU_REDUNDANT_FRAME_HEADER then pbi_seen_frame_header s \<noteq> 0 else pbi_seen_frame_header s = 0)
        AOM_CODEC_CORRUPT_FRAME)
     (if pbi_seen_frame_header s = 0 \<or>
         tl_large_scale s \<noteq> 0 \<and> pbi_camera_frame_header_ready s = 0 \<and> obu_type \<noteq> OBU_REDUNDANT_FRAME_HEADER then
        d_bind (av1_decode_frame_headers_and_setup cbs env (obu_type \<noteq> OBU_FRAME)) (\<lambda>n.
        d_get (\<lambda>s.
        d_seq (d_modify (\<lambda>s. s\<lparr>pbi_seen_frame_header := 1,
          pbi_camera_frame_header_ready := if pbi_ext_tile_debug s = 0 \<and> tl_large_scale s \<noteq> 0 then 1 else pbi_camera_frame_header_ready s\<rparr>))
          (d_ret (L\<lparr>ol_frame_header := payload, ol_frame_header_size := n,
            ol_data_end := if cm_show_existing_frame s \<noteq> 0 then pos + nat n else ol_data_end L\<rparr>))))
      else
        d_seq (d_check (\<not> (ol_frame_header_size L > int (length payload) \<or>
            take (nat (ol_frame_header_size L)) payload \<noteq> take (nat (ol_frame_header_size L)) (ol_frame_header L))) AOM_CODEC_CORRUPT_FRAME)
        (\<lambda>(s, rb). Some (Inr L, s, rb\<lparr>rb_bit_offset := 8 * ol_frame_header_size L\<rparr>))))"

text \<open>The result is the number of payload bytes decoded; \<open>avail\<close> bytes follow the payload's start.\<close>

definition frame_obu ::
  "'c frame_callbacks \<Rightarrow> 'c header_env \<Rightarrow> 'c tile_env \<Rightarrow> ObuHeader \<Rightarrow> int list \<Rightarrow> nat \<Rightarrow> nat \<Rightarrow> obu_loop \<Rightarrow>
    ('c AV1Decoder, int \<times> obu_loop) comp" where
  "frame_obu cbs env te header payload pos avail L =
     d_bind (frame_header_obu cbs env (oh_type header) payload pos L) (\<lambda>L.
     let n = ol_frame_header_size L in
     d_seq (d_try (set_cur (\<lambda>b. b\<lparr>rc_temporal_id := oh_temporal_layer_id header, rc_spatial_id := oh_spatial_layer_id header\<rparr>)))
     (d_get (\<lambda>s.
      if cm_show_existing_frame s \<noteq> 0 then
        d_seq (d_check (oh_type header \<noteq> OBU_FRAME) AOM_CODEC_UNSUP_BITSTREAM)
        (d_seq (d_modify (\<lambda>s. s\<lparr>pbi_seen_frame_header := 0,
            cf_frame_number := if cm_show_frame s \<noteq> 0 \<and> enable_order_hint (order_hint_info (cm_seq s)) = 0
              then cf_frame_number s + 1 else cf_frame_number s\<rparr>))
          (d_ret (n, L\<lparr>ol_finished := True\<rparr>)))
      else if pbi_ext_tile_debug s = 0 \<and> pbi_camera_frame_header_ready s \<noteq> 0 then
        d_ret (int (length payload), L\<lparr>ol_finished := True, ol_data_end := pos + avail\<rparr>)
      else if oh_type header \<noteq> OBU_FRAME then d_ret (n, L)
      else d_seq byte_alignment (tile_group_obu cbs te True payload pos n L))))"

text \<open>The sequence header and the metadata of the decoder.\<close>

definition sequence_obu :: "('c AV1Decoder, int) comp" where
  "sequence_obu =
     (\<lambda>(s, rb). case read_sequence_header_obu (pbi_ds s) rb of
        (Inl e, ds) \<Rightarrow> Some (Inl (seq_error_code e), s\<lparr>pbi_ds := ds\<rparr>, rb)
      | (Inr n, ds) \<Rightarrow>
          if sequence_header_changed ds \<and> pbi_seen_frame_header s \<noteq> 0 then Some (Inl AOM_CODEC_CORRUPT_FRAME, s\<lparr>pbi_ds := ds\<rparr>, rb)
          else Some (Inr n, s\<lparr>pbi_ds := ds\<rparr>, rb))"

definition metadata_obu :: "'c tile_env \<Rightarrow> int list \<Rightarrow> bool \<Rightarrow> ('c AV1Decoder, int) comp" where
  "metadata_obu te payload has_ext =
     d_lift (\<lambda>s. case read_metadata (te_metadata te) payload has_ext (pbi_metadata s) of (r, md) \<Rightarrow> Some (r, s\<lparr>pbi_metadata := md\<rparr>))"

text \<open>A tile list: the stream is a large-scale one from now on.\<close>

definition set_pictures :: "(nat \<Rightarrow> YV12_BUFFER_CONFIG) \<Rightarrow> 'c AV1Decoder \<Rightarrow> 'c AV1Decoder" where
  "set_pictures pics s = fold (\<lambda>k. set_frame (\<lambda>b. b\<lparr>rc_buf := pics k\<rparr>) k) [0..<length (frame_bufs (cm_pool s))] s"

definition tile_list_obu :: "'c tile_env \<Rightarrow> int list \<Rightarrow> nat \<Rightarrow> obu_loop \<Rightarrow> ('c AV1Decoder, int \<times> obu_loop) comp" where
  "tile_list_obu te payload pos L =
     d_get (\<lambda>s. d_seq (d_check (pbi_camera_frame_header_ready s \<noteq> 0) AOM_CODEC_CORRUPT_FRAME)
     (d_seq (d_modify (\<lambda>s. s\<lparr>tl_large_scale := 1, tl_single_tile_decoding := av1_set_single_tile_decoding_mode (te_no_filters te s) 1\<rparr>))
     (d_get (\<lambda>s. case te_tile_list te s payload of (r, pics, number) \<Rightarrow>
        d_seq (d_modify (\<lambda>s. set_pictures pics (s\<lparr>cf_frame_number := number\<rparr>)))
        (case r of
           Inl e \<Rightarrow> d_throw e
         | Inr (n, reach, finished) \<Rightarrow> d_ret (n, L\<lparr>ol_finished := finished, ol_data_end := pos + reach\<rparr>))))))"

definition decode_obu ::
  "'c frame_callbacks \<Rightarrow> 'c header_env \<Rightarrow> 'c tile_env \<Rightarrow> ObuHeader \<Rightarrow> int list \<Rightarrow> nat \<Rightarrow> nat \<Rightarrow> obu_loop \<Rightarrow>
    ('c AV1Decoder, int \<times> obu_loop) comp" where
  "decode_obu cbs env te header payload pos avail L =
     (let t = oh_type header in
      if t = OBU_TEMPORAL_DELIMITER then
        d_get (\<lambda>s. d_seq (d_check (pbi_seen_frame_header s = 0) AOM_CODEC_CORRUPT_FRAME) (d_ret (0, L)))
      else if t = OBU_SEQUENCE_HEADER then d_bind sequence_obu (\<lambda>n. d_ret (n, L))
      else if t = OBU_FRAME_HEADER \<or> t = OBU_REDUNDANT_FRAME_HEADER \<or> t = OBU_FRAME then frame_obu cbs env te header payload pos avail L
      else if t = OBU_TILE_GROUP then tile_group_obu cbs te False payload pos 0 L
      else if t = OBU_METADATA then d_bind (metadata_obu te payload (oh_has_extension header \<noteq> 0)) (\<lambda>n. d_ret (n, L))
      else if t = OBU_TILE_LIST then tile_list_obu te payload pos L
      else if t = OBU_PADDING then
        (case read_padding payload of Inl e \<Rightarrow> d_throw e | Inr n \<Rightarrow> d_ret (int n, L))
      else
        d_seq (d_check (\<not> (length payload > 0 \<and> get_last_nonzero_byte payload (length payload) = 0)) AOM_CODEC_CORRUPT_FRAME)
          (d_ret (int (length payload), L)))"

text \<open>The payload is read completely but for zero bytes.\<close>

definition payload_read :: "int \<Rightarrow> int list \<Rightarrow> bool" where
  "payload_read n payload \<longleftrightarrow> n \<le> int (length payload) \<and> list_all (\<lambda>b. b = 0) (drop (nat n) payload)"

text \<open>
  The loop: an error, or whether a frame is finished; \<open>*p_data_end\<close>; and the decoder. \<open>pos\<close> is
  the number of bytes before \<open>data\<close>.
\<close>

function decode_obus ::
  "'c frame_callbacks \<Rightarrow> 'c header_env \<Rightarrow> 'c tile_env \<Rightarrow> int list \<Rightarrow> nat \<Rightarrow> obu_loop \<Rightarrow> 'c AV1Decoder \<Rightarrow>
    ((aom_codec_err + bool) \<times> nat \<times> 'c AV1Decoder) option" where
  "decode_obus cbs env te data pos L s =
     (if ol_finished L then Some (Inr True, ol_data_end L, s)
      else if data = [] \<and> pbi_seen_frame_header s = 0 then Some (Inr False, pos, s)
      else case aom_read_obu_header_and_size data (pbi_is_annexb s \<noteq> 0) of
          Inl e \<Rightarrow> Some (Inl e, ol_data_end L, s)
        | Inr (header, payload_size, bytes_read) \<Rightarrow>
            let rest = drop bytes_read data; pos = pos + bytes_read in
            if length rest < payload_size then Some (Inl AOM_CODEC_CORRUPT_FRAME, ol_data_end L, s)
            else
              let s = s\<lparr>cm_temporal_layer_id := oh_temporal_layer_id header, cm_spatial_layer_id := oh_spatial_layer_id header\<rparr> in
              if oh_type header \<noteq> OBU_TEMPORAL_DELIMITER \<and> oh_type header \<noteq> OBU_SEQUENCE_HEADER \<and>
                 \<not> is_obu_in_current_operating_point (current_operating_point (pbi_ds s)) header
              then decode_obus cbs env te (drop payload_size rest) (pos + payload_size) L s
              else
                let payload = take payload_size rest in
                case decode_obu cbs env te header payload pos (length rest) L (s, obu_payload_reader payload) of
                  None \<Rightarrow> None
                | Some (Inl e, s, _) \<Rightarrow> Some (Inl e, ol_data_end L, s)
                | Some (Inr (n, L'), s, _) \<Rightarrow>
                    if \<not> payload_read n payload then Some (Inl AOM_CODEC_CORRUPT_FRAME, ol_data_end L', s)
                    else decode_obus cbs env te (drop payload_size rest) (pos + payload_size) L' s)"
  by auto
termination
proof (relation "measure (\<lambda>(_, _, _, data, _). length data)", goal_cases)
  case 2
  then show ?case by (auto dest!: obu_header_progress)
next
  case 3
  then show ?case by (auto dest!: obu_header_progress)
qed simp

declare decode_obus.simps [simp del]

definition aom_decode_frame_from_obus ::
  "'c frame_callbacks \<Rightarrow> 'c header_env \<Rightarrow> 'c tile_env \<Rightarrow> int list \<Rightarrow> 'c AV1Decoder \<Rightarrow>
    ((aom_codec_err + bool) \<times> nat \<times> 'c AV1Decoder) option" where
  "aom_decode_frame_from_obus cbs env te data s =
     decode_obus cbs env te data 0
       \<lparr>ol_frame_header = data, ol_frame_header_size = 0, ol_first_tg = True, ol_finished = False, ol_data_end = 0\<rparr>
       (s\<lparr>pbi_seen_frame_header := 0, pbi_next_start_tile := 0, pbi_num_tile_groups := 0,
          pbi_camera_frame_header_ready := if tl_large_scale s = 0 then 0 else pbi_camera_frame_header_ready s\<rparr>)"

section \<open>Frames\<close>

definition assign_cur_frame_new_fb :: "'c AV1Decoder \<Rightarrow> bool \<times> 'c AV1Decoder" where
  "assign_cur_frame_new_fb s =
     (let p = (case cm_cur_frame s of None \<Rightarrow> cm_pool s | Some k \<Rightarrow> add_ref (-1) k (cm_pool s));
          (i, p) = get_free_fb p in
      if i = INVALID_IDX then (False, s\<lparr>cm_cur_frame := None, cm_pool := p\<rparr>)
      else (True, s\<lparr>cm_cur_frame := Some (nat i), cm_pool := p\<rparr>))"

definition drop_frame :: "'c frame_callbacks \<Rightarrow> nat option \<Rightarrow> 'c AV1Decoder \<Rightarrow> 'c AV1Decoder option" where
  "drop_frame cbs buf s = map_option (\<lambda>p. s\<lparr>cm_pool := p\<rparr>) (decrease_ref_count cbs buf (cm_pool s))"

definition mark_corrupted :: "RefCntBuffer \<Rightarrow> RefCntBuffer" where
  "mark_corrupted b = b\<lparr>rc_buf := (rc_buf b)\<lparr>corrupted := 1\<rparr>\<rparr>"

definition release_current_frame :: "'c frame_callbacks \<Rightarrow> 'c AV1Decoder \<Rightarrow> 'c AV1Decoder option" where
  "release_current_frame cbs s =
     do {
       s \<leftarrow> set_cur mark_corrupted s;
       s \<leftarrow> drop_frame cbs (cm_cur_frame s) s;
       Some (s\<lparr>cm_cur_frame := None\<rparr>)
     }"

text \<open>The loop over the bits of \<open>refresh_frame_flags\<close>, \<open>m\<close> what is left of them.\<close>

fun refresh_refs :: "'c frame_callbacks \<Rightarrow> nat \<Rightarrow> nat \<Rightarrow> nat list \<Rightarrow> 'c AV1Decoder \<Rightarrow> 'c AV1Decoder option" where
  "refresh_refs cbs cur m [] s = (if m = 0 then Some s else None)"
| "refresh_refs cbs cur m (i # is) s =
     (if m = 0 then Some s
      else
        do {
          s \<leftarrow> (if odd m then map_option (\<lambda>s. s\<lparr>cm_pool := add_ref 1 cur (cm_pool s)\<rparr>) (replace_ref cbs i (Some cur) s) else Some s);
          refresh_refs cbs cur (m div 2) is s
        })"

definition update_frame_buffers :: "'c frame_callbacks \<Rightarrow> bool \<Rightarrow> 'c AV1Decoder \<Rightarrow> 'c AV1Decoder option" where
  "update_frame_buffers cbs frame_decoded s =
     do {
       cur \<leftarrow> cm_cur_frame s;
       s \<leftarrow> (if frame_decoded then
               do {
                 s \<leftarrow> (if pbi_camera_frame_header_ready s = 0
                       then refresh_refs cbs cur (nat (cf_refresh_frame_flags s)) [0..<REF_FRAMES] s else Some s);
                 if cm_show_existing_frame s \<noteq> 0 \<or> cm_show_frame s \<noteq> 0 then
                   if pbi_output_all_layers s \<noteq> 0 then
                     if length (pbi_output_frames s) \<ge> MAX_NUM_SPATIAL_LAYERS then
                       map_option (\<lambda>s. s\<lparr>pbi_ds := (pbi_ds s)\<lparr>ds_error := AOM_CODEC_UNSUP_BITSTREAM\<rparr>\<rparr>)
                         (drop_frame cbs (Some cur) (set_frame mark_corrupted cur s))
                     else Some (s\<lparr>pbi_output_frames := pbi_output_frames s @ [cur]\<rparr>)
                   else
                     do {
                       s \<leftarrow> (if pbi_output_frames s \<noteq> [] then drop_frame cbs (Some (pbi_output_frames s ! 0)) s else Some s);
                       Some (s\<lparr>pbi_output_frames := [cur]\<rparr>)
                     }
                 else drop_frame cbs (Some cur) s
               }
             else drop_frame cbs (Some cur) s);
       Some (s\<lparr>cm_cur_frame := None,
               cm_remapped_ref_idx := if pbi_camera_frame_header_ready s = 0 then replicate INTER_REFS_PER_FRAME INVALID_IDX
                 else cm_remapped_ref_idx s\<rparr>)
     }"

definition set_pbi_error :: "aom_codec_err \<Rightarrow> 'c AV1Decoder \<Rightarrow> 'c AV1Decoder" where
  "set_pbi_error e s = s\<lparr>pbi_ds := (pbi_ds s)\<lparr>ds_error := e\<rparr>\<rparr>"

text \<open>The result, how far the data was read, and the decoder. The result of an error is 1, as for a
  return; after a \<open>longjmp\<close> the code returns -1, and nobody tells the two apart.\<close>

definition av1_receive_compressed_data ::
  "'c frame_callbacks \<Rightarrow> 'c header_env \<Rightarrow> 'c tile_env \<Rightarrow> int list \<Rightarrow> 'c AV1Decoder \<Rightarrow> (int \<times> nat \<times> 'c AV1Decoder) option" where
  "av1_receive_compressed_data cbs env te data s =
     do {
       let s = set_pbi_error AOM_CODEC_OK s;
       let s = (if data = [] then case get_ref_frame_buf s 1 of None \<Rightarrow> s | Some k \<Rightarrow> set_frame mark_corrupted k s else s);
       case assign_cur_frame_new_fb s of
         (False, s) \<Rightarrow> Some (1, 0, set_pbi_error AOM_CODEC_MEM_ERROR s)
       | (True, s) \<Rightarrow>
           do {
             (r, reach, s) \<leftarrow> aom_decode_frame_from_obus cbs env te data s;
             case r of
               Inl e \<Rightarrow> map_option (\<lambda>s. (1, reach, s)) (release_current_frame cbs (set_pbi_error e s))
             | Inr frame_decoded \<Rightarrow>
                 do {
                   s \<leftarrow> update_frame_buffers cbs frame_decoded s;
                   let s = (if frame_decoded then s\<lparr>pbi_decoding_first_frame := 0\<rparr> else s);
                   Some (if ds_error (pbi_ds s) \<noteq> AOM_CODEC_OK then 1 else 0, reach, s)
                 }
           }
     }"

end
