(* ===== verification/Frame_Pool_Props.thy ===== *)
theory Frame_Pool_Props
  imports Frame_Pool "HOL-Library.Multiset"
begin

text \<open>
  What the pool of a decoder promises: the count of a frame is the number of its owners, a frame
  without an owner has no block, and the blocks that the frames have are exactly the blocks the
  callbacks have handed out. The callbacks are an interface, the locale \<open>frame_source\<close>; its laws
  are the ones \<open>aom/aom_frame_buffer.h\<close> asks of an application, and they hold for the internal
  frame buffers.
\<close>

section \<open>Counts and blocks\<close>

text \<open>What the pool's invariant is about: the count and the block of every frame.\<close>

definition frame_count :: "'c BufferPool \<Rightarrow> nat \<Rightarrow> int" where
  "frame_count p k = ref_count (frame_bufs p ! k)"

definition frame_block :: "'c BufferPool \<Rightarrow> nat \<Rightarrow> aom_codec_frame_buffer" where
  "frame_block p k = raw_frame_buffer (frame_bufs p ! k)"

definition block_handle :: "aom_codec_frame_buffer \<Rightarrow> nat option" where
  "block_handle fb = (if fb_data fb \<noteq> 0 then fb_priv fb else None)"

text \<open>
  \<open>os\<close> are the owners, \<open>H\<close> the handles that are out, \<open>G\<close> those of them that no frame has, and \<open>X\<close>
  the frames whose block was given back although they still name it.
\<close>

definition counts_ok :: "nat multiset \<Rightarrow> (nat \<Rightarrow> int) \<Rightarrow> bool" where
  "counts_ok os c \<longleftrightarrow> set_mset os \<subseteq> {..<FRAME_BUFFERS} \<and> (\<forall>k < FRAME_BUFFERS. c k = int (count os k))"

definition blocks_named :: "nat set \<Rightarrow> nat set \<Rightarrow> (nat \<Rightarrow> aom_codec_frame_buffer) \<Rightarrow> bool" where
  "blocks_named handles G r \<longleftrightarrow>
     (\<forall>k < FRAME_BUFFERS. fb_data (r k) \<noteq> 0 \<longrightarrow> (\<exists>h. fb_priv (r k) = Some h \<and> h \<in> handles \<and> h \<notin> G))"

definition blocks_apart :: "(nat \<Rightarrow> aom_codec_frame_buffer) \<Rightarrow> bool" where
  "blocks_apart r \<longleftrightarrow> (\<forall>j < FRAME_BUFFERS. \<forall>k < FRAME_BUFFERS. j \<noteq> k \<longrightarrow>
     block_handle (r j) = None \<or> block_handle (r j) \<noteq> block_handle (r k))"

definition blocks_out :: "nat set \<Rightarrow> (nat \<Rightarrow> aom_codec_frame_buffer) \<Rightarrow> nat set" where
  "blocks_out X r = {h. \<exists>k < FRAME_BUFFERS. k \<notin> X \<and> block_handle (r k) = Some h}"

definition blocks_ok :: "nat set \<Rightarrow> nat set \<Rightarrow> nat set \<Rightarrow> nat set \<Rightarrow> (nat \<Rightarrow> aom_codec_frame_buffer) \<Rightarrow> bool" where
  "blocks_ok handles G X H r \<longleftrightarrow> blocks_named handles G r \<and> blocks_apart r \<and> H = G \<union> blocks_out X r"

definition pool_ok ::
  "nat set \<Rightarrow> nat set \<Rightarrow> nat set \<Rightarrow> nat multiset \<Rightarrow> nat set \<Rightarrow> (nat \<Rightarrow> int) \<Rightarrow> (nat \<Rightarrow> aom_codec_frame_buffer) \<Rightarrow> bool" where
  "pool_ok handles G X os H c r \<longleftrightarrow> counts_ok os c \<and> blocks_ok handles G X H r \<and>
     (\<forall>k < FRAME_BUFFERS. k \<notin># os \<longrightarrow> fb_data (r k) = 0)"

lemma counts_ok_update:
  assumes "counts_ok os c" "k < FRAME_BUFFERS" "set_mset os' \<subseteq> {..<FRAME_BUFFERS}" "n = int (count os' k)"
    "\<And>j. j \<noteq> k \<Longrightarrow> count os' j = count os j"
  shows "counts_ok os' (c(k := n))"
  using assms by (auto simp: counts_ok_def)

lemma block_handle_null: "fb_data r = 0 \<Longrightarrow> block_handle r = None"
  by (simp add: block_handle_def)

lemma block_handle_some: "block_handle r = Some h \<longleftrightarrow> fb_data r \<noteq> 0 \<and> fb_priv r = Some h"
  by (simp add: block_handle_def)

lemma blocks_named_handle: "blocks_named handles G r \<Longrightarrow> k < FRAME_BUFFERS \<Longrightarrow> block_handle (r k) = Some h \<Longrightarrow> h \<in> handles \<and> h \<notin> G"
  by (fastforce simp: blocks_named_def block_handle_some)

lemma blocks_apart_other:
  "blocks_apart r \<Longrightarrow> k < FRAME_BUFFERS \<Longrightarrow> block_handle (r k) = Some h \<Longrightarrow> j < FRAME_BUFFERS \<Longrightarrow> j \<noteq> k \<Longrightarrow> block_handle (r j) \<noteq> Some h"
  unfolding blocks_apart_def by (metis option.distinct(1))

lemma blocks_out_stale:
  assumes "blocks_apart r" "k < FRAME_BUFFERS" "block_handle (r k) = Some h"
  shows "blocks_out (insert k X) r = blocks_out X r - {h}"
  using blocks_apart_other [OF assms] assms(2,3) unfolding blocks_out_def by auto

lemma blocks_out_drop:
  assumes "blocks_apart r" "k < FRAME_BUFFERS" "block_handle (r k) = Some h" "fb_data b = 0"
  shows "blocks_out (X - {k}) (r(k := b)) = blocks_out X r - {h}"
proof -
  have "blocks_out (X - {k}) (r(k := b)) = blocks_out (insert k X) r"
    using assms(4) unfolding blocks_out_def by (auto simp: block_handle_null split: if_splits)
  then show ?thesis using blocks_out_stale [OF assms(1-3)] by simp
qed

lemma blocks_out_take:
  assumes "k < FRAME_BUFFERS" "block_handle (r k) = None \<or> k \<in> X" "X \<subseteq> {k}" "block_handle b = Some h"
  shows "blocks_out {} (r(k := b)) = insert h (blocks_out X r)"
proof -
  have "blocks_out X r = {h. \<exists>j < FRAME_BUFFERS. j \<noteq> k \<and> block_handle (r j) = Some h}"
    using assms(2,3) unfolding blocks_out_def by auto
  then show ?thesis using assms(1,4) unfolding blocks_out_def by (auto split: if_splits)
qed

text \<open>A frame loses its block, gets a new one, or keeps the name of a block that was given back.\<close>

lemma blocks_ok_drop:
  assumes "blocks_ok handles G X H r" "k < FRAME_BUFFERS" "block_handle (r k) = Some h" "fb_data b = 0"
  shows "blocks_ok handles G (X - {k}) (H - {h}) (r(k := b))"
proof -
  have a: "blocks_named handles G r" "blocks_apart r" "H = G \<union> blocks_out X r" using assms(1) by (simp_all add: blocks_ok_def)
  have "h \<notin> G" using blocks_named_handle [OF a(1) assms(2,3)] by simp
  then have "H - {h} = G \<union> blocks_out (X - {k}) (r(k := b))" using a(3) blocks_out_drop [OF a(2) assms(2-4)] by auto
  moreover have "blocks_named handles G (r(k := b))" using a(1) assms(4) by (simp add: blocks_named_def)
  moreover have "blocks_apart (r(k := b))" using a(2) block_handle_null [OF assms(4)] by (auto simp: blocks_apart_def)
  ultimately show ?thesis by (simp add: blocks_ok_def)
qed

lemma blocks_ok_take:
  assumes "blocks_ok handles G X H r" "k < FRAME_BUFFERS" "block_handle (r k) = None \<or> k \<in> X" "X \<subseteq> {k}"
    and b: "fb_data b \<noteq> 0" "fb_priv b = Some h" "h \<in> handles" "h \<notin> H"
  shows "blocks_ok handles G {} (insert h H) (r(k := b))"
proof -
  have bb: "block_handle b = Some h" using b by (simp add: block_handle_some)
  have a: "blocks_named handles G r" "blocks_apart r" "H = G \<union> blocks_out X r" using assms(1) by (simp_all add: blocks_ok_def)
  have other: "block_handle (r j) \<noteq> Some h" if "j < FRAME_BUFFERS" "j \<noteq> k" for j
    using a(3) assms(4) b(4) that unfolding blocks_out_def by blast
  have "insert h H = G \<union> blocks_out {} (r(k := b))" using a(3) blocks_out_take [of k r X b h, OF assms(2-4) bb] by simp
  moreover have "blocks_named handles G (r(k := b))" using a(1,3) b by (simp add: blocks_named_def)
  moreover have "blocks_apart (r(k := b))"
    unfolding blocks_apart_def
  proof (intro allI impI)
    fix i j :: nat assume "i < FRAME_BUFFERS" "j < FRAME_BUFFERS" "i \<noteq> j"
    then show "block_handle ((r(k := b)) i) = None \<or> block_handle ((r(k := b)) i) \<noteq> block_handle ((r(k := b)) j)"
      using a(2) other [of i] other [of j] bb unfolding blocks_apart_def by (cases "i = k"; cases "j = k") auto
  qed
  ultimately show ?thesis by (simp add: blocks_ok_def)
qed

lemma blocks_ok_stale:
  assumes "blocks_ok handles G X H r" "k < FRAME_BUFFERS" "block_handle (r k) = Some h"
  shows "blocks_ok handles G (insert k X) (H - {h}) r"
proof -
  have a: "blocks_named handles G r" "blocks_apart r" "H = G \<union> blocks_out X r" using assms(1) by (simp_all add: blocks_ok_def)
  have "h \<notin> G" using blocks_named_handle [OF a(1) assms(2,3)] by simp
  then show ?thesis using a blocks_out_stale [OF a(2) assms(2,3)] by (auto simp: blocks_ok_def)
qed

section \<open>The callbacks\<close>

text \<open>
  \<open>ok\<close> is the state a pool finds its callbacks in, \<open>held\<close> the handles that are out, \<open>clear\<close> what
  a new sequence does to the blocks that are not. A block got lies in memory, has the size asked for and was not
  out; one given back is not out any more. Giving back a block twice does no harm, which is more than
  an application is asked for: only a failed super-resolution relies on it.
\<close>

locale frame_source =
  fixes cbs :: "'c frame_callbacks" and ok :: "'c \<Rightarrow> bool" and held :: "'c \<Rightarrow> nat set" and handles :: "nat set"
    and clear :: "'c \<Rightarrow> 'c"
  assumes get_block: "ok c \<Longrightarrow> 0 < n \<Longrightarrow> \<exists>rc fb' c'. get_fb_cb cbs pick c n fb = Some (rc, fb', c') \<and> ok c' \<and>
      (if rc < 0 then fb' = fb \<and> held c' = held c
       else \<exists>h. 0 < fb_data fb' \<and> n \<le> fb_size fb' \<and> fb_data fb' + fb_size fb' < 18446744073709551616 \<and> fb_priv fb' = Some h \<and> h \<in> handles \<and> h \<notin> held c \<and> held c' = insert h (held c))"
    and release_block_ok: "ok c \<Longrightarrow> fb_priv fb = Some h \<Longrightarrow> h \<in> handles \<Longrightarrow>
      \<exists>c'. release_fb_cb cbs c fb = Some (0, c') \<and> ok c' \<and> held c' = held c - {h}"
    and clear_ok: "ok c \<Longrightarrow> ok (clear c) \<and> held (clear c) = held c"
begin

definition pinv :: "nat set \<Rightarrow> nat set \<Rightarrow> nat multiset \<Rightarrow> 'c BufferPool \<Rightarrow> bool" where
  "pinv G X os p \<longleftrightarrow> length (frame_bufs p) = FRAME_BUFFERS \<and> ok (cb_priv p) \<and>
     pool_ok handles G X os (held (cb_priv p)) (frame_count p) (frame_block p)"

lemma pinv_same:
  "length (frame_bufs p') = length (frame_bufs p) \<Longrightarrow> cb_priv p' = cb_priv p \<Longrightarrow> frame_count p' = frame_count p \<Longrightarrow>
    frame_block p' = frame_block p \<Longrightarrow> pinv G X os p' = pinv G X os p"
  by (simp add: pinv_def)

lemma pinv_owner: "pinv G X os p \<Longrightarrow> k \<in># os \<Longrightarrow> k < FRAME_BUFFERS \<and> k < length (frame_bufs p)"
  by (auto simp: pinv_def pool_ok_def counts_ok_def)

lemma pinv_unowned: "pinv G X os p \<Longrightarrow> k < FRAME_BUFFERS \<Longrightarrow> k \<notin># os \<Longrightarrow> fb_data (frame_block p k) = 0"
  by (auto simp: pinv_def pool_ok_def)

lemma pinv_count: "pinv G X os p \<Longrightarrow> k < FRAME_BUFFERS \<Longrightarrow> frame_count p k = int (count os k)"
  by (auto simp: pinv_def pool_ok_def counts_ok_def)

lemma add_ref_views:
  assumes "k < length (frame_bufs p)"
  shows "frame_count (add_ref d k p) = (frame_count p)(k := frame_count p k + d)" "frame_block (add_ref d k p) = frame_block p"
    "length (frame_bufs (add_ref d k p)) = length (frame_bufs p)" "cb_priv (add_ref d k p) = cb_priv p"
  using assms by (auto simp: add_ref_def frame_count_def frame_block_def nth_list_update)

lemma pinv_add_owner:
  assumes "pinv G X os p" "k < FRAME_BUFFERS"
  shows "pinv G X (add_mset k os) (add_ref 1 k p)"
proof -
  have k: "k < length (frame_bufs p)" using assms by (simp add: pinv_def)
  have "counts_ok (add_mset k os) ((frame_count p)(k := frame_count p k + 1))"
    using assms by (intro counts_ok_update [of os]) (auto simp: pinv_def pool_ok_def counts_ok_def)
  then show ?thesis using assms(1) by (simp add: pinv_def pool_ok_def add_ref_views [OF k])
qed

lemma pinv_drop_owner:
  assumes "pinv G X (add_mset k os) p" "k \<in># os \<or> fb_data (frame_block p k) = 0"
  shows "pinv G X os (add_ref (-1) k p)"
proof -
  have k: "k < length (frame_bufs p)" "k < FRAME_BUFFERS" using assms pinv_owner by auto
  have "counts_ok os ((frame_count p)(k := frame_count p k + -1))"
    using assms k by (intro counts_ok_update [of "add_mset k os"]) (auto simp: pinv_def pool_ok_def counts_ok_def)
  then show ?thesis using assms by (auto simp: pinv_def pool_ok_def add_ref_views [OF k(1)])
qed

text \<open>A frame gives one reference back, and its block with the last.\<close>

lemma decrease_keeps:
  assumes "pinv G X (add_mset k os) p"
  shows "\<exists>p'. decrease_ref_count cbs (Some k) p = Some p' \<and> pinv G (if k \<in># os then X else X - {k}) os p' \<and>
    (\<forall>j. j \<noteq> k \<or> j \<in># os \<longrightarrow> frame_block p' j = frame_block p j)"
proof -
  have k: "k < length (frame_bufs p)" "k < FRAME_BUFFERS" using assms pinv_owner by auto
  define q where "q = add_ref (-1) k p"
  have q: "length (frame_bufs q) = FRAME_BUFFERS" "cb_priv q = cb_priv p" "frame_block q = frame_block p"
    "frame_count q = (frame_count p)(k := frame_count p k - 1)"
    using assms by (simp_all add: q_def add_ref_views [OF k(1)] pinv_def)
  have c: "ref_count (frame_bufs q ! k) = int (count os k)"
    using pinv_count [OF assms k(2)] q(4) by (simp add: frame_count_def fun_eq_iff)
  have r: "raw_frame_buffer (frame_bufs q ! k) = frame_block p k" using q(3) by (simp add: frame_block_def fun_eq_iff)
  show ?thesis
  proof (cases "k \<in># os \<or> fb_data (frame_block p k) = 0")
    case True
    then have "decrease_ref_count cbs (Some k) p = Some q"
      using c r by (auto simp: decrease_ref_count_def Let_def count_eq_zero_iff simp flip: q_def)
    moreover have "pinv G X os q" unfolding q_def by (rule pinv_drop_owner [OF assms True])
    moreover have "pinv G (X - {k}) os q" if "k \<notin># os"
    proof -
      have "blocks_out (X - {k}) (frame_block p) = blocks_out X (frame_block p)"
        using True that by (auto simp: blocks_out_def block_handle_null)
      then show ?thesis using \<open>pinv G X os q\<close> by (simp add: pinv_def pool_ok_def blocks_ok_def q(3))
    qed
    ultimately show ?thesis using q(3) by auto
  next
    case False
    have B: "blocks_ok handles G X (held (cb_priv p)) (frame_block p)" using assms by (simp add: pinv_def pool_ok_def)
    then obtain h where h: "fb_priv (frame_block p k) = Some h" "h \<in> handles" "block_handle (frame_block p k) = Some h"
      using False k(2) by (auto simp: blocks_ok_def blocks_named_def block_handle_some)
    obtain c' where c': "release_fb_cb cbs (cb_priv p) (frame_block p k) = Some (0, c')" "ok c'" "held c' = held (cb_priv p) - {h}"
      using release_block_ok [OF _ h(1,2)] assms by (auto simp: pinv_def)
    define p' where "p' = q\<lparr>frame_bufs := (frame_bufs q)[k := (frame_bufs q ! k)\<lparr>raw_frame_buffer := null_fb\<rparr>], cb_priv := c'\<rparr>"
    have d: "decrease_ref_count cbs (Some k) p = Some p'"
      using False c r c'(1) q(2) by (auto simp: decrease_ref_count_def Let_def p'_def not_in_iff simp flip: q_def)
    have v: "frame_block p' = (frame_block p)(k := null_fb)" "frame_count p' = frame_count q" "length (frame_bufs p') = FRAME_BUFFERS"
      "cb_priv p' = c'"
      using k q(1) by (auto simp: p'_def frame_block_def frame_count_def nth_list_update simp flip: q(3) [unfolded frame_block_def fun_eq_iff])
    have "blocks_ok handles G (X - {k}) (held c') (frame_block p')"
      using blocks_ok_drop [OF B k(2) h(3), of null_fb] by (simp add: v(1) c'(3) null_fb_def)
    moreover have "counts_ok os (frame_count p')"
      unfolding v(2) q(4)
      using assms k(2) by (intro counts_ok_update [of "add_mset k os"]) (auto simp: pinv_def pool_ok_def counts_ok_def)
    ultimately have "pinv G (X - {k}) os p'"
      using v c'(2) assms by (auto simp: pinv_def pool_ok_def null_fb_def)
    then show ?thesis using d False v(1) by auto
  qed
qed

end

section \<open>Frames for the decoder\<close>

lemma first_free_props:
  "first_free bs \<le> length bs" "first_free bs < length bs \<Longrightarrow> ref_count (bs ! first_free bs) = 0"
  "k < length bs \<Longrightarrow> ref_count (bs ! k) = 0 \<Longrightarrow> first_free bs < length bs"
proof (induction bs arbitrary: k)
  case (Cons b bs)
  { case 1 then show ?case using Cons by simp }
  { case 2 then show ?case using Cons by (auto split: if_splits) }
  { case 3 then show ?case using Cons by (cases k) (auto split: if_splits) }
qed simp_all

text \<open>The size that is asked for is positive, and a frame is laid out only when it was granted.\<close>

lemma frame_request_pos: "frame_request w h sx sy high border align = Some n \<Longrightarrow> 0 < n"
proof -
  have "0 < u64 (f + 31)" if "0 \<le> f" "f \<le> AOM_MAX_ALLOCABLE_MEMORY div 8" for f
    using that by (simp add: u64_id AOM_MAX_ALLOCABLE_MEMORY_def)
  then show "frame_request w h sx sy high border align = Some n \<Longrightarrow> 0 < n"
    by (auto simp: frame_request_def Let_def split: sum.splits if_splits)
qed

lemma realloc_with_callback:
  "\<exists>e ybf'. aom_realloc_frame_buffer pick h (Some ybf) w ht sx sy high border align (Some get) False = Some (e, h, Some ybf') \<and>
    (e = AOM_CODEC_OK \<longrightarrow> (\<exists>n. frame_request w ht sx sy high border align = Some n \<and> \<not> fst (get n) < 0))"
proof (cases "calc_stride_and_planesize sx sy ((w + 7) AND NOT 7) ((ht + 7) AND NOT 7) border align False (shr ((ht + 7) AND NOT 7) (nat sy))")
  case (Inl e)
  then have "e \<noteq> AOM_CODEC_OK" by (auto simp: calc_stride_and_planesize_def Let_def split: if_splits)
  then show ?thesis using Inl by (simp add: aom_realloc_frame_buffer_def Let_def)
next
  case (Inr x)
  then show ?thesis
    by (cases x) (auto simp: aom_realloc_frame_buffer_def frame_request_def realloc_frame_buffer_aligned_def frame_memory_def Let_def
      split: prod.splits)
qed

context frame_source
begin

lemma free_frame_exists:
  assumes "pinv G X os p" "size os < FRAME_BUFFERS"
  shows "\<exists>k < FRAME_BUFFERS. k \<notin># os"
proof (rule ccontr)
  assume "\<not> ?thesis"
  then have "{..<FRAME_BUFFERS} \<subseteq> set_mset os" by auto
  then have "FRAME_BUFFERS \<le> card (set_mset os)" using card_mono [of "set_mset os" "{..<FRAME_BUFFERS}"] by simp
  also have "\<dots> \<le> size os" using size_multiset_overloaded_eq [of os] sum_mono [of "set_mset os" "\<lambda>_. 1" "count os"] by auto
  finally show False using assms(2) by simp
qed

text \<open>As long as there are fewer owners than frames, a free frame is found.\<close>

lemma get_free_keeps:
  assumes "pinv G X os p" "size os < FRAME_BUFFERS"
  shows "\<exists>k p'. get_free_fb p = (int k, p') \<and> k < FRAME_BUFFERS \<and> k \<notin># os \<and> pinv G X (add_mset k os) p' \<and>
    frame_block p' = frame_block p"
proof -
  obtain j where j: "j < FRAME_BUFFERS" "j \<notin># os" using free_frame_exists [OF assms] by blast
  have len: "length (frame_bufs p) = FRAME_BUFFERS" using assms(1) by (simp add: pinv_def)
  have "ref_count (frame_bufs p ! j) = 0" using pinv_count [OF assms(1) j(1)] j(2) by (simp add: frame_count_def not_in_iff)
  then have i: "first_free (frame_bufs p) < length (frame_bufs p)" using first_free_props(3) [of j "frame_bufs p"] j(1) len by simp
  define k where "k = first_free (frame_bufs p)"
  have k: "k < FRAME_BUFFERS" "frame_count p k = 0" using i first_free_props(2) [OF i] len by (simp_all add: k_def frame_count_def)
  then have out: "k \<notin># os" using pinv_count [OF assms(1) k(1)] by (simp add: not_in_iff)
  define p' where "p' = snd (get_free_fb p)"
  have g: "get_free_fb p = (int k, p')" using i by (simp add: p'_def get_free_fb_def Let_def k_def)
  have p': "p' = p\<lparr>frame_bufs := (frame_bufs p)[k := (frame_bufs p ! k)\<lparr>rc_buf := restore_internal (rc_buf (frame_bufs p ! k)), ref_count := 1\<rparr>]\<rparr>"
    using i by (simp add: p'_def get_free_fb_def Let_def k_def)
  have v: "frame_count p' = (frame_count p)(k := 1)" "frame_block p' = frame_block p" "length (frame_bufs p') = FRAME_BUFFERS"
    "cb_priv p' = cb_priv p"
    using k(1) len by (auto simp: p' frame_count_def frame_block_def nth_list_update)
  have "counts_ok (add_mset k os) (frame_count p')"
    unfolding v(1) using assms(1) k(1) out by (intro counts_ok_update [of os]) (auto simp: pinv_def pool_ok_def counts_ok_def not_in_iff)
  then have "pinv G X (add_mset k os) p'" using assms(1) v by (simp add: pinv_def pool_ok_def)
  then show ?thesis using g k(1) out v(2) by blast
qed

text \<open>Memory for a frame that has none, or whose block was given back.\<close>

lemma realloc_keeps:
  assumes "pinv G X os p" "k \<in># os" "X = {} \<and> fb_data (frame_block p k) = 0 \<or> X = {k}"
  shows "\<exists>e p'. realloc_pool_frame cbs pick k w h sx sy high border align p = Some (e, p') \<and>
    (if e = AOM_CODEC_OK then pinv G {} os p' \<and> fb_data (frame_block p' k) \<noteq> 0 else pinv G X os p' \<or> pinv G {} os p') \<and>
    (\<forall>j. j \<noteq> k \<longrightarrow> frame_block p' j = frame_block p j)"
proof -
  have k: "k < length (frame_bufs p)" "k < FRAME_BUFFERS" using pinv_owner [OF assms(1,2)] by auto
  define b where "b = frame_bufs p ! k"
  define upd where "upd y fb c = p\<lparr>frame_bufs := (frame_bufs p)[k := b\<lparr>rc_buf := y, raw_frame_buffer := fb\<rparr>], cb_priv := c\<rparr>" for y fb c
  have v: "frame_count (upd y fb c) = frame_count p" "frame_block (upd y fb c) = (frame_block p)(k := fb)"
    "length (frame_bufs (upd y fb c)) = length (frame_bufs p)" "cb_priv (upd y fb c) = c" for y fb c
    using k(1) by (auto simp: upd_def b_def frame_count_def frame_block_def nth_list_update)
  have P: "ok (cb_priv p)" "length (frame_bufs p) = FRAME_BUFFERS" "counts_ok os (frame_count p)"
    "blocks_ok handles G X (held (cb_priv p)) (frame_block p)" "\<forall>j < FRAME_BUFFERS. j \<notin># os \<longrightarrow> fb_data (frame_block p j) = 0"
    using assms(1) by (simp_all add: pinv_def pool_ok_def)
  have same: "pinv G X os (upd y (frame_block p k) c)" if "ok c" "held c = held (cb_priv p)" for y c
    using P that by (simp add: pinv_def pool_ok_def v)
  have rb: "raw_frame_buffer b = frame_block p k" by (simp add: b_def frame_block_def)
  define get where "get n = get_fb_cb cbs pick (cb_priv p) n (frame_block p k)" for n
  show ?thesis
  proof (cases "frame_request w h sx sy high border align")
    case None
    obtain e y where e: "aom_realloc_frame_buffer 0 \<lparr>mem = \<lambda>_. 0, live = []\<rparr> (Some (rc_buf b)) w h sx sy high border align
        (Some (\<lambda>_. (-1, 0, []))) False = Some (e, \<lparr>mem = \<lambda>_. 0, live = []\<rparr>, Some y)" "e \<noteq> AOM_CODEC_OK"
      using realloc_with_callback [of 0 "\<lparr>mem = \<lambda>_. 0, live = []\<rparr>" "rc_buf b" w h sx sy high border align "\<lambda>_. (-1, 0, [])"] None by auto
    then have "realloc_pool_frame cbs pick k w h sx sy high border align p = Some (e, upd y (frame_block p k) (cb_priv p))"
      using None by (simp add: realloc_pool_frame_def Let_def upd_def flip: rb b_def)
    then show ?thesis using e(2) same [OF P(1)] by (simp add: v)
  next
    case (Some n)
    obtain rc fb c where g: "get n = Some (rc, fb, c)" "ok c"
      "if rc < 0 then fb = frame_block p k \<and> held c = held (cb_priv p)
       else \<exists>h. 0 < fb_data fb \<and> n \<le> fb_size fb \<and> fb_data fb + fb_size fb < 18446744073709551616 \<and> fb_priv fb = Some h \<and> h \<in> handles \<and> h \<notin> held (cb_priv p) \<and> held c = insert h (held (cb_priv p))"
      using get_block [OF P(1) frame_request_pos [OF Some], of pick "frame_block p k"] unfolding get_def by blast
    obtain e y where e: "aom_realloc_frame_buffer 0 \<lparr>mem = \<lambda>_. 0, live = []\<rparr> (Some (rc_buf b)) w h sx sy high border align
        (Some (\<lambda>_. (rc, fb_data fb, fb_bytes cbs c fb))) False = Some (e, \<lparr>mem = \<lambda>_. 0, live = []\<rparr>, Some y)" "e = AOM_CODEC_OK \<longrightarrow> \<not> rc < 0"
      using realloc_with_callback [of 0 "\<lparr>mem = \<lambda>_. 0, live = []\<rparr>" "rc_buf b" w h sx sy high border align
        "\<lambda>_. (rc, fb_data fb, fb_bytes cbs c fb)"] Some by auto
    have r: "realloc_pool_frame cbs pick k w h sx sy high border align p = Some (e, upd y fb c)"
      using Some g(1) e(1) by (simp add: realloc_pool_frame_def Let_def rb upd_def get_def flip: b_def)
    show ?thesis
    proof (cases "rc < 0")
      case True
      then show ?thesis using g same [OF g(2), of y] e(2) r by (auto simp: v)
    next
      case False
      then obtain h' where h: "fb_data fb \<noteq> 0" "fb_priv fb = Some h'" "h' \<in> handles" "h' \<notin> held (cb_priv p)" "held c = insert h' (held (cb_priv p))"
        using g(3) by auto
      have "blocks_ok handles G {} (insert h' (held (cb_priv p))) ((frame_block p)(k := fb))"
        using blocks_ok_take [OF P(4) k(2) _ _ h(1-4)] assms(3) by (auto simp: block_handle_null)
      then have "pinv G {} os (upd y fb c)" using P g(2) h(5) assms(2) by (auto simp: pinv_def pool_ok_def v)
      then show ?thesis using r h(1) by (simp add: v)
    qed
  qed
qed

end

context frame_source
begin

text \<open>A block goes back although its frame keeps the name of it.\<close>

lemma give_back_keeps:
  assumes "pinv G {} os p" "k \<in># os" "fb_data (frame_block p k) \<noteq> 0"
  shows "\<exists>c'. release_fb_cb cbs (cb_priv p) (frame_block p k) = Some (0, c') \<and> pinv G {k} os (p\<lparr>cb_priv := c'\<rparr>)"
proof -
  have k: "k < FRAME_BUFFERS" using pinv_owner [OF assms(1,2)] by simp
  have B: "blocks_ok handles G {} (held (cb_priv p)) (frame_block p)" using assms(1) by (simp add: pinv_def pool_ok_def)
  then obtain h where h: "fb_priv (frame_block p k) = Some h" "h \<in> handles" "block_handle (frame_block p k) = Some h"
    using assms(3) k by (auto simp: blocks_ok_def blocks_named_def block_handle_some)
  obtain c' where c': "release_fb_cb cbs (cb_priv p) (frame_block p k) = Some (0, c')" "ok c'" "held c' = held (cb_priv p) - {h}"
    using release_block_ok [OF _ h(1,2)] assms(1) by (auto simp: pinv_def)
  have v: "frame_block (p\<lparr>cb_priv := c'\<rparr>) = frame_block p" "frame_count (p\<lparr>cb_priv := c'\<rparr>) = frame_count p"
    by (auto simp: frame_block_def frame_count_def)
  then show ?thesis using blocks_ok_stale [OF B k h(3)] c' assms(1) by (auto simp: pinv_def pool_ok_def)
qed

lemma clear_keeps: "pinv G X os p \<Longrightarrow> pinv G X os (p\<lparr>cb_priv := clear (cb_priv p)\<rparr>)"
  using clear_ok by (auto simp: pinv_def pool_ok_def frame_block_def [abs_def] frame_count_def [abs_def])

lemma release_frames_out:
  assumes "ok c" "\<forall>b \<in> set bs. fb_data (raw_frame_buffer b) \<noteq> 0 \<longrightarrow>
      0 < ref_count b \<and> (\<exists>h \<in> handles. fb_priv (raw_frame_buffer b) = Some h)"
  shows "\<exists>c'. release_frames cbs bs c = Some c' \<and> ok c' \<and> held c' = held c - {h. \<exists>b \<in> set bs. block_handle (raw_frame_buffer b) = Some h}"
  using assms
proof (induction bs arbitrary: c)
  case (Cons b bs)
  show ?case
  proof (cases "fb_data (raw_frame_buffer b) = 0")
    case True
    then show ?thesis using Cons.IH [OF Cons.prems(1)] Cons.prems(2) by (auto simp: block_handle_null)
  next
    case False
    then obtain h where h: "fb_priv (raw_frame_buffer b) = Some h" "h \<in> handles" "0 < ref_count b" using Cons.prems(2) by auto
    obtain c1 where c1: "release_fb_cb cbs c (raw_frame_buffer b) = Some (0, c1)" "ok c1" "held c1 = held c - {h}"
      using release_block_ok [OF Cons.prems(1) h(1,2)] by blast
    obtain c' where c': "release_frames cbs bs c1 = Some c'" "ok c'"
      "held c' = held c1 - {h. \<exists>b \<in> set bs. block_handle (raw_frame_buffer b) = Some h}"
      using Cons.IH [OF c1(2)] Cons.prems(2) by auto
    have "held c' = held c - {h. \<exists>b \<in> set (b # bs). block_handle (raw_frame_buffer b) = Some h}"
      using c'(3) c1(3) h(1) False by (auto simp: block_handle_some)
    then show ?thesis using c' c1(1) h(3) False by auto
  qed
qed simp

text \<open>When a pool is freed, every block its frames had is back.\<close>

lemma free_frames_out:
  assumes "pinv G {} os p"
  shows "\<exists>p'. av1_free_ref_frame_buffers cbs p = Some p' \<and> ok (cb_priv p') \<and> held (cb_priv p') = G"
proof -
  have len: "length (frame_bufs p) = FRAME_BUFFERS" using assms by (simp add: pinv_def)
  have B: "blocks_named handles G (frame_block p)" "held (cb_priv p) = G \<union> blocks_out {} (frame_block p)"
    using assms by (simp_all add: pinv_def pool_ok_def blocks_ok_def)
  have "\<forall>b \<in> set (frame_bufs p). fb_data (raw_frame_buffer b) \<noteq> 0 \<longrightarrow>
      0 < ref_count b \<and> (\<exists>h \<in> handles. fb_priv (raw_frame_buffer b) = Some h)"
  proof (intro ballI impI)
    fix b assume "b \<in> set (frame_bufs p)" "fb_data (raw_frame_buffer b) \<noteq> 0"
    then obtain k where k: "k < FRAME_BUFFERS" "frame_bufs p ! k = b" "fb_data (frame_block p k) \<noteq> 0"
      by (auto simp: in_set_conv_nth len frame_block_def)
    then have "k \<in># os" using pinv_unowned [OF assms k(1)] by blast
    then show "0 < ref_count b \<and> (\<exists>h \<in> handles. fb_priv (raw_frame_buffer b) = Some h)"
      using pinv_count [OF assms k(1)] B(1) k by (auto simp: frame_count_def blocks_named_def frame_block_def)
  qed
  then obtain c' where c': "release_frames cbs (frame_bufs p) (cb_priv p) = Some c'" "ok c'"
      "held c' = held (cb_priv p) - {h. \<exists>b \<in> set (frame_bufs p). block_handle (raw_frame_buffer b) = Some h}"
    using release_frames_out [of "cb_priv p" "frame_bufs p"] assms unfolding pinv_def by blast
  have "(\<exists>b \<in> set xs. Q b) \<longleftrightarrow> (\<exists>k < length xs. Q (xs ! k))" for xs :: "RefCntBuffer list" and Q by (metis in_set_conv_nth)
  then have "{h. \<exists>b \<in> set (frame_bufs p). block_handle (raw_frame_buffer b) = Some h} = blocks_out {} (frame_block p)"
    by (simp add: blocks_out_def frame_block_def len)
  moreover have "G \<inter> blocks_out {} (frame_block p) = {}" using blocks_named_handle [OF B(1)] by (auto simp: blocks_out_def)
  ultimately have "held c' = G" using c'(3) B(2) by auto
  then show ?thesis using c' by (simp add: av1_free_ref_frame_buffers_def)
qed

end

section \<open>The internal frame buffers\<close>

text \<open>A live block with the address \<open>aom_free\<close> looks for: \<open>x\<close> and \<open>n\<close> bytes from there are in it.\<close>

definition live_apart :: "heap \<Rightarrow> bool" where
  "live_apart h \<longleftrightarrow> (\<forall>a k b l. (a, k) \<in> set (live h) \<longrightarrow> (b, l) \<in> set (live h) \<longrightarrow> a \<noteq> b \<longrightarrow> a + k \<le> b \<or> b + l \<le> a) \<and>
     (\<forall>a k l. (a, k) \<in> set (live h) \<longrightarrow> (a, l) \<in> set (live h) \<longrightarrow> k = l)"

definition owns_block :: "heap \<Rightarrow> int \<Rightarrow> int \<Rightarrow> int \<Rightarrow> bool" where
  "owns_block h a x n \<longleftrightarrow> 0 < a \<and> load64 (mem h) (x - 8) = a \<and> 0 \<le> n \<and> x + n < 18446744073709551616 \<and>
     (\<exists>k. (a, k) \<in> set (live h) \<and> a + 8 \<le> x \<and> x + n \<le> a + k)"

lemma owns_block_keep:
  assumes "owns_block h a x n" "\<And>b k. (b, k) \<in> set (live h) \<Longrightarrow> b = a \<Longrightarrow> (b, k) \<in> set (live h')"
    "\<And>k y. (a, k) \<in> set (live h) \<Longrightarrow> x - 8 \<le> y \<Longrightarrow> y < x \<Longrightarrow> x \<le> a + k \<Longrightarrow> a + 8 \<le> x \<Longrightarrow> mem h' y = mem h y"
  shows "owns_block h' a x n"
proof -
  obtain k where k: "(a, k) \<in> set (live h)" "a + 8 \<le> x" "x + n \<le> a + k" "0 \<le> n" using assms(1) by (auto simp: owns_block_def)
  have "load64 (mem h') (x - 8) = load64 (mem h) (x - 8)" using assms(3) [OF k(1)] k by (intro load64_cong) simp
  then show ?thesis using assms(1) assms(2) [OF k(1)] k by (auto simp: owns_block_def)
qed

lemma free_owned:
  assumes "owns_block h a x n" "x \<noteq> 0"
  shows "aom_free h x = Some (h\<lparr>live := filter (\<lambda>(b, k). b \<noteq> a) (live h)\<rparr>)"
  using assms by (force simp: owns_block_def aom_free_def c_free_def GetActualMallocAddress_def GetMallocAddressLocation_def list_ex_iff)

lemma calloc_null:
  assumes "aom_calloc pick h 1 sz = (0, h')" "0 \<le> sz"
  shows "h' = h"
proof (cases "check_size_argument_overflow 1 sz 16")
  case True
  have "sz \<le> AOM_MAX_ALLOCABLE_MEMORY" using check_size_bounds [OF True] assms(2) by (simp add: padding_eq)
  then have u: "u64 sz = sz" "u64 (sz + GetAllocationPaddingSize 16) = sz + 23"
    using assms(2) by (simp_all add: AOM_MAX_ALLOCABLE_MEMORY_def padding_eq u64_id)
  have "aom_align_addr (pick + 8) 16 \<noteq> 0" if "fresh_block h pick (sz + 23)"
    using align_addr_props(1) [of 16 4 "pick + 8"] that assms(2) by (simp add: fresh_block_def)
  moreover have "\<not> fresh_block h 0 (sz + 23)" by (simp add: fresh_block_def)
  ultimately show ?thesis using assms(1) True
    by (auto simp: aom_calloc_def aom_malloc_def aom_memalign_def c_malloc_def DEFAULT_ALIGNMENT_def ADDRESS_STORAGE_SIZE_def u Let_def
      split: if_splits prod.splits)
qed (use assms in \<open>simp add: aom_calloc_def DEFAULT_ALIGNMENT_def\<close>)

lemma calloc_block:
  assumes "aom_calloc pick h 1 sz = (x, h')" "x \<noteq> 0" "0 \<le> sz"
  shows "fresh_block h pick (sz + 23)" "live h' = (pick, sz + 23) # live h" "owns_block h' pick x sz"
    "\<And>y. y < pick \<or> pick + (sz + 23) \<le> y \<Longrightarrow> mem h' y = mem h y"
proof -
  have chk: "check_size_argument_overflow 1 sz 16"
    using assms(1,2) by (auto simp: aom_calloc_def DEFAULT_ALIGNMENT_def split: if_splits)
  have "sz \<le> AOM_MAX_ALLOCABLE_MEMORY" using check_size_bounds [OF chk] assms(3) by (simp add: padding_eq)
  then have u: "u64 sz = sz" using assms(3) by (simp add: AOM_MAX_ALLOCABLE_MEMORY_def u64_id)
  obtain x1 h1 where al: "aom_memalign pick h 16 sz = (x1, h1)" by fastforce
  then have h': "x1 = x" "h' = h1\<lparr>mem := memset (mem h1) x 0 sz\<rparr>"
    using assms(1,2) chk by (auto simp: aom_calloc_def aom_malloc_def DEFAULT_ALIGNMENT_def u Let_def split: if_splits)
  note n = memalign_nonnull [OF al [unfolded h'(1)] assms(2) _ _ assms(3), of 4, simplified]
  show "fresh_block h pick (sz + 23)" "live h' = (pick, sz + 23) # live h" using n by (simp_all add: h'(2) add.commute)
  show "mem h' y = mem h y" if "y < pick \<or> pick + (sz + 23) \<le> y" for y
    using n(1,2,7) that assms(3) by (auto simp: h'(2) memset_def store64_def)
  have "load64 (mem h') (x - 8) = pick"
  proof -
    have "load64 (mem h') (x - 8) = load64 (store64 (mem h) (x - 8) pick) (x - 8)"
      using n(7) by (intro load64_cong) (simp add: h'(2) memset_def)
    then show ?thesis using n(4,6) assms(3) by (simp add: load_store64)
  qed
  then show "owns_block h' pick x sz" using n assms(3) by (auto simp: owns_block_def h'(2))
qed

text \<open>The list of internal frame buffers and the heap.\<close>

definition buffer_address :: "heap \<Rightarrow> InternalFrameBuffer \<Rightarrow> int" where
  "buffer_address h b = load64 (mem h) (ifb_data b - 8)"

definition int_buffer_ok :: "heap \<Rightarrow> InternalFrameBuffer \<Rightarrow> bool" where
  "int_buffer_ok h b \<longleftrightarrow> (if ifb_data b = 0 then ifb_size b = 0 else owns_block h (buffer_address h b) (ifb_data b) (ifb_size b))"

text \<open>
  The blocks of a list of buffers are apart, and what is allocated are these blocks and those that
  were before, \<open>base\<close>.
\<close>

definition addrs :: "heap \<Rightarrow> InternalFrameBuffer list \<Rightarrow> int list" where
  "addrs h bs = map (buffer_address h) (filter (\<lambda>b. ifb_data b \<noteq> 0) bs)"

definition allocated :: "heap \<Rightarrow> int set" where
  "allocated h = fst ` set (live h)"

definition owned :: "int set \<Rightarrow> heap \<Rightarrow> InternalFrameBuffer list \<Rightarrow> bool" where
  "owned base h bs \<longleftrightarrow> live_apart h \<and> (\<forall>b \<in> set bs. int_buffer_ok h b) \<and> distinct (addrs h bs) \<and>
     allocated h = base \<union> set (addrs h bs) \<and> base \<inter> set (addrs h bs) = {}"

text \<open>The block of the list itself, as if it were one more buffer.\<close>

definition list_block :: "InternalFrameBufferList \<Rightarrow> InternalFrameBuffer" where
  "list_block l = \<lparr>ifb_data = int_fb_block l, ifb_size = 384, in_use = 1\<rparr>"

definition int_ok :: "int set \<Rightarrow> heap \<times> InternalFrameBufferList option \<Rightarrow> bool" where
  "int_ok base c \<longleftrightarrow> (case c of (h, None) \<Rightarrow> False | (h, Some l) \<Rightarrow>
     num_internal_frame_buffers l = 16 \<and> length (int_fb l) = 16 \<and> int_fb_block l \<noteq> 0 \<and> owned base h (list_block l # int_fb l))"

definition int_held :: "heap \<times> InternalFrameBufferList option \<Rightarrow> nat set" where
  "int_held c = (case snd c of None \<Rightarrow> {} | Some l \<Rightarrow> {i. i < 16 \<and> in_use (int_fb l ! i) \<noteq> 0})"

definition int_clear :: "heap \<times> InternalFrameBufferList option \<Rightarrow> heap \<times> InternalFrameBufferList option" where
  "int_clear c = (case c of (h, None) \<Rightarrow> c | (h, Some l) \<Rightarrow> (av1_zero_unused_internal_frame_buffers h l, Some l))"

text \<open>A change of the heap that leaves the blocks of the other buffers alone.\<close>

lemma addrs_append [simp]: "addrs h (us @ vs) = addrs h us @ addrs h vs" "addrs h (b # bs) = (if ifb_data b = 0 then [] else [buffer_address h b]) @ addrs h bs"
    "addrs h [] = []"
  by (simp_all add: addrs_def)

lemma addrs_set: "x \<in> set bs \<Longrightarrow> ifb_data x \<noteq> 0 \<Longrightarrow> buffer_address h x \<in> set (addrs h bs)"
  by (auto simp: addrs_def)

lemma owned_other:
  assumes "\<And>x. x \<in> set bs \<Longrightarrow> int_buffer_ok h x"
    and "\<And>x. x \<in> set bs \<Longrightarrow> ifb_data x \<noteq> 0 \<Longrightarrow> owns_block h' (buffer_address h x) (ifb_data x) (ifb_size x)"
  shows "addrs h' bs = addrs h bs" "\<forall>x \<in> set bs. int_buffer_ok h' x"
proof -
  have addr: "buffer_address h' x = buffer_address h x" if "x \<in> set bs" "ifb_data x \<noteq> 0" for x
    using assms(2) [OF that] by (simp add: owns_block_def buffer_address_def)
  then show "addrs h' bs = addrs h bs" by (simp add: addrs_def)
  show "\<forall>x \<in> set bs. int_buffer_ok h' x" using assms addr by (simp add: int_buffer_ok_def)
qed

lemma owned_change:
  assumes "owned base h (us @ b # vs)" "live_apart h'" "int_buffer_ok h' b'"
    and "\<And>x. x \<in> set (us @ vs) \<Longrightarrow> ifb_data x \<noteq> 0 \<Longrightarrow> owns_block h' (buffer_address h x) (ifb_data x) (ifb_size x)"
    and "ifb_data b' \<noteq> 0 \<Longrightarrow> buffer_address h' b' \<notin> base \<union> set (addrs h (us @ vs))"
    and "allocated h' = base \<union> set (addrs h (us @ vs)) \<union> (if ifb_data b' = 0 then {} else {buffer_address h' b'})"
  shows "owned base h' (us @ b' # vs)"
proof -
  have "\<And>x. x \<in> set (us @ vs) \<Longrightarrow> int_buffer_ok h x" using assms(1) by (auto simp: owned_def)
  note o = owned_other [OF this assms(4)]
  have "addrs h' us = addrs h us" "addrs h' vs = addrs h vs"
    using owned_other(1) [of us h h'] owned_other(1) [of vs h h'] assms(1,4) by (simp_all add: owned_def)
  then show ?thesis using o assms by (auto simp: owned_def)
qed

lemma live_apart_filter: "live_apart h \<Longrightarrow> live_apart (h\<lparr>live := filter P (live h)\<rparr>)"
  unfolding live_apart_def by (simp, blast)

lemma live_apart_fresh:
  assumes "live_apart h" "fresh_block h a n" "live h' = (a, n) # live h"
  shows "live_apart h'"
proof -
  have "b \<noteq> a \<and> (a + n \<le> b \<or> b + k \<le> a)" if "(b, k) \<in> set (live h)" for b k
    using assms(2) that by (auto simp: fresh_block_def list_all_iff)
  note far = this
  have "(c, k) \<in> set (live h') \<longleftrightarrow> c = a \<and> k = n \<or> (c, k) \<in> set (live h)" for c k using assms(3) by auto
  then show ?thesis using assms(1) far unfolding live_apart_def by (metis (no_types, opaque_lifting))
qed

lemma owned_owns: "owned base h bs \<Longrightarrow> b \<in> set bs \<Longrightarrow> ifb_data b \<noteq> 0 \<Longrightarrow> owns_block h (buffer_address h b) (ifb_data b) (ifb_size b)"
  by (auto simp: owned_def int_buffer_ok_def)

lemma owned_free:
  assumes "owned base h (us @ b # vs)"
  shows "\<exists>h'. aom_free h (ifb_data b) = Some h' \<and> owned base h' (us @ b\<lparr>ifb_data := 0, ifb_size := 0\<rparr> # vs)"
proof (cases "ifb_data b = 0")
  case True
  then have "ifb_size b = 0" using assms by (auto simp: owned_def int_buffer_ok_def)
  then have "b\<lparr>ifb_data := 0, ifb_size := 0\<rparr> = b" using True by simp
  then show ?thesis using True assms by (simp add: aom_free_def)
next
  case False
  define a where "a = buffer_address h b"
  have own: "owns_block h a (ifb_data b) (ifb_size b)" using owned_owns [OF assms] False by (simp add: a_def)
  define h' where "h' = h\<lparr>live := filter (\<lambda>(b, k). b \<noteq> a) (live h)\<rparr>"
  have a: "a \<notin> set (addrs h (us @ vs))" "a \<notin> base" "allocated h = insert a (base \<union> set (addrs h (us @ vs)))"
    using assms False by (auto simp: owned_def a_def)
  have "owned base h' (us @ b\<lparr>ifb_data := 0, ifb_size := 0\<rparr> # vs)"
  proof (rule owned_change [OF assms])
    fix x assume x: "x \<in> set (us @ vs)" "ifb_data x \<noteq> 0"
    then have "buffer_address h x \<noteq> a" using a(1) addrs_set [OF x, of h] by auto
    then show "owns_block h' (buffer_address h x) (ifb_data x) (ifb_size x)"
      using owned_owns [OF assms, of x] x by (auto intro: owns_block_keep simp: h'_def)
  next
    have "allocated h' = allocated h - {a}" by (auto simp: allocated_def h'_def)
    then show "allocated h' = base \<union> set (addrs h (us @ vs)) \<union>
        (if ifb_data (b\<lparr>ifb_data := 0, ifb_size := 0\<rparr>) = 0 then {} else {buffer_address h' (b\<lparr>ifb_data := 0, ifb_size := 0\<rparr>)})"
      using a by auto
  qed (use live_apart_filter assms in \<open>auto simp: h'_def int_buffer_ok_def owned_def\<close>)
  then show ?thesis using free_owned [OF own False] h'_def by blast
qed

lemma owned_fill:
  assumes "owned base h (us @ b # vs)" "ifb_data b = 0" "aom_calloc pick h 1 n = (x, h')" "x \<noteq> 0" "0 \<le> n"
  shows "owned base h' (us @ b\<lparr>ifb_data := x, ifb_size := n\<rparr> # vs)"
proof (rule owned_change [OF assms(1)])
  note c = calloc_block [OF assms(3-5)]
  show "live_apart h'" using live_apart_fresh [OF _ c(1,2)] assms(1) by (simp add: owned_def)
  have addr: "buffer_address h' (b\<lparr>ifb_data := x, ifb_size := n\<rparr>) = pick" using c(3) by (simp add: buffer_address_def owns_block_def)
  then show "int_buffer_ok h' (b\<lparr>ifb_data := x, ifb_size := n\<rparr>)" using c(3) assms(4) by (simp add: int_buffer_ok_def)
  have far: "d \<noteq> pick \<and> (pick + (n + 23) \<le> d \<or> d + k \<le> pick)" if "(d, k) \<in> set (live h)" for d k
    using c(1) that by (auto simp: fresh_block_def list_all_iff)
  have before: "allocated h = base \<union> set (addrs h (us @ vs))" using assms(1,2) by (simp add: owned_def)
  then show "buffer_address h' (b\<lparr>ifb_data := x, ifb_size := n\<rparr>) \<notin> base \<union> set (addrs h (us @ vs))"
    using far by (fastforce simp: addr allocated_def)
  show "allocated h' = base \<union> set (addrs h (us @ vs)) \<union>
      (if ifb_data (b\<lparr>ifb_data := x, ifb_size := n\<rparr>) = 0 then {} else {buffer_address h' (b\<lparr>ifb_data := x, ifb_size := n\<rparr>)})"
    using assms(4) before by (simp only: addr) (simp add: allocated_def c(2))
  fix y assume y: "y \<in> set (us @ vs)" "ifb_data y \<noteq> 0"
  define a where "a = buffer_address h y"
  have own: "owns_block h a (ifb_data y) (ifb_size y)" using owned_owns [OF assms(1), of y] y by (auto simp: a_def)
  show "owns_block h' (buffer_address h y) (ifb_data y) (ifb_size y)" unfolding a_def [symmetric]
  proof (rule owns_block_keep [OF own])
    fix k z assume "(a, k) \<in> set (live h)" "ifb_data y - 8 \<le> z" "z < ifb_data y" "ifb_data y \<le> a + k" "a + 8 \<le> ifb_data y"
    then show "mem h' z = mem h z" using far [of a k] by (intro c(4)) auto
  qed (simp add: c(2))
qed

text \<open>A buffer of the list.\<close>

lemma int_ok_split:
  assumes "length (int_fb l) = 16" "i < 16"
  shows "list_block l # int_fb l = (list_block l # take i (int_fb l)) @ int_fb l ! i # drop (Suc i) (int_fb l)"
    "list_block l # (int_fb l)[i := b] = (list_block l # take i (int_fb l)) @ b # drop (Suc i) (int_fb l)"
  using assms by (simp_all add: id_take_nth_drop upd_conv_take_nth_drop)

lemma int_ok_parts:
  assumes "int_ok base (h, Some l)" "i < 16"
  shows "owned base h ((list_block l # take i (int_fb l)) @ int_fb l ! i # drop (Suc i) (int_fb l))" "length (int_fb l) = 16"
    "num_internal_frame_buffers l = 16" "int_fb_block l \<noteq> 0"
  using assms int_ok_split(1) [of l i] by (simp_all add: int_ok_def)

lemma int_ok_update:
  assumes "int_ok base (h, Some l)" "i < 16" "owned base h' ((list_block l # take i (int_fb l)) @ b # drop (Suc i) (int_fb l))"
  shows "int_ok base (h', Some (l\<lparr>int_fb := (int_fb l)[i := b]\<rparr>))"
  using assms(3) int_ok_parts [OF assms(1,2)] int_ok_split(2) [of l i b] assms(2) by (simp add: int_ok_def) (simp add: list_block_def)

lemma int_ok_buffer: "int_ok base (h, Some l) \<Longrightarrow> i < 16 \<Longrightarrow> int_buffer_ok h (int_fb l ! i)"
  using int_ok_parts(1) by (fastforce simp: owned_def)

lemma int_free:
  assumes "int_ok base (h, Some l)" "i < 16"
  shows "\<exists>h'. aom_free h (ifb_data (int_fb l ! i)) = Some h' \<and>
    int_ok base (h', Some (l\<lparr>int_fb := (int_fb l)[i := (int_fb l ! i)\<lparr>ifb_data := 0, ifb_size := 0\<rparr>]\<rparr>))"
  using owned_free [OF int_ok_parts(1) [OF assms]] int_ok_update [OF assms] by blast

lemma int_fill:
  assumes "int_ok base (h, Some l)" "i < 16" "ifb_data (int_fb l ! i) = 0" "aom_calloc pick h 1 n = (x, h')" "x \<noteq> 0" "0 \<le> n"
  shows "int_ok base (h', Some (l\<lparr>int_fb := (int_fb l)[i := (int_fb l ! i)\<lparr>ifb_data := x, ifb_size := n\<rparr>]\<rparr>))"
  using int_ok_update [OF assms(1,2) owned_fill [OF int_ok_parts(1) [OF assms(1,2)] assms(3-6)]] .

lemma first_unused_props:
  "first_unused bs \<le> length bs" "first_unused bs < length bs \<Longrightarrow> in_use (bs ! first_unused bs) = 0"
proof (induction bs)
  case (Cons b bs)
  { case 1 then show ?case using Cons by simp }
  { case 2 then show ?case using Cons by (auto split: if_splits) }
qed simp_all

lemma owned_in_use: "owned base h (us @ b\<lparr>in_use := u\<rparr> # vs) = owned base h (us @ b # vs)"
  by (simp add: owned_def int_buffer_ok_def buffer_address_def)

lemma int_ok_in_use:
  assumes "int_ok base (h, Some l)" "i < 16"
  shows "int_ok base (h, Some (l\<lparr>int_fb := (int_fb l)[i := (int_fb l ! i)\<lparr>in_use := u\<rparr>]\<rparr>))"
  by (rule int_ok_update [OF assms]) (simp only: owned_in_use int_ok_parts(1) [OF assms])

text \<open>\<open>av1_get_frame_buffer\<close> on a consistent list.\<close>

lemma int_get:
  assumes "int_ok base c" "0 < n"
  shows "\<exists>rc fb' c'. av1_get_frame_buffer pick c n fb = Some (rc, fb', c') \<and> int_ok base c' \<and>
    (if rc < 0 then fb' = fb \<and> int_held c' = int_held c
     else \<exists>i. 0 < fb_data fb' \<and> n \<le> fb_size fb' \<and> fb_data fb' + fb_size fb' < 18446744073709551616 \<and> fb_priv fb' = Some i \<and> i \<in> {..<16} \<and> i \<notin> int_held c \<and> int_held c' = insert i (int_held c))"
proof -
  obtain h l where c: "c = (h, Some l)" using assms(1) by (auto simp: int_ok_def split: prod.splits option.splits)
  have a: "num_internal_frame_buffers l = 16" "length (int_fb l) = 16" using assms(1) by (simp_all add: int_ok_def c)
  have ok: "int_ok base (h, Some l)" using assms(1) c by simp
  define i where "i = first_unused (int_fb l)"
  show ?thesis
  proof (cases "i = 16")
    case True
    then show ?thesis using a assms(1) by (simp add: av1_get_frame_buffer_def c i_def Let_def)
  next
    case False
    then have i: "i < 16" "in_use (int_fb l ! i) = 0" using first_unused_props [of "int_fb l"] a(2) by (simp_all add: i_def)
    define b where "b = int_fb l ! i"
    have held: "i \<notin> int_held c" "int_held (h', Some (l\<lparr>int_fb := (int_fb l)[i := b\<lparr>ifb_data := x, ifb_size := m, in_use := 1\<rparr>]\<rparr>)) = insert i (int_held c)"
      "int_held (h', Some (l\<lparr>int_fb := (int_fb l)[i := b\<lparr>ifb_data := x, ifb_size := m\<rparr>]\<rparr>)) = int_held c" for h' x m
      using i a(2) by (auto simp: int_held_def c b_def nth_list_update)
    have red: "av1_get_frame_buffer pick c n fb =
        (do {
              (good, h, b) \<leftarrow> (if ifb_size b < n then
                  do {
                    h \<leftarrow> aom_free h (ifb_data b);
                    let (x, h) = aom_calloc pick h 1 n;
                    Some (if x = 0 then (False, h, b\<lparr>ifb_data := 0, ifb_size := 0\<rparr>)
                          else (True, h, b\<lparr>ifb_data := x, ifb_size := n\<rparr>))
                  }
                else Some (True, h, b));
              if \<not> good then Some (-1, fb, h, Some (l\<lparr>int_fb := (int_fb l)[i := b]\<rparr>))
              else
                Some (0, \<lparr>fb_data = ifb_data b, fb_size = ifb_size b, fb_priv = Some i\<rparr>,
                      h, Some (l\<lparr>int_fb := (int_fb l)[i := b\<lparr>in_use := 1\<rparr>]\<rparr>))
            })"
    proof -
      have t: "take (nat (num_internal_frame_buffers l)) (int_fb l) = int_fb l" "int (first_unused (int_fb l)) \<noteq> num_internal_frame_buffers l"
        using a False by (simp_all flip: i_def)
      show ?thesis unfolding av1_get_frame_buffer_def c prod.case option.case t(1) Let_def i_def b_def using t(2) by simp
    qed
    show ?thesis
    proof (cases "ifb_size b < n")
      case True
      obtain h1 where h1: "aom_free h (ifb_data b) = Some h1" and ok1: "int_ok base (h1, Some (l\<lparr>int_fb := (int_fb l)[i := b\<lparr>ifb_data := 0, ifb_size := 0\<rparr>]\<rparr>))"
        using int_free [OF ok i(1)] by (auto simp: b_def)
      obtain x h2 where x: "aom_calloc pick h1 1 n = (x, h2)" by fastforce
      show ?thesis
      proof (cases "x = 0")
        case null: True
        then have "h2 = h1" using calloc_null x assms(2) by auto
        then show ?thesis using red True h1 x null ok1 held(3) [of h1 0 0] by simp
      next
        case False
        have "int_ok base (h2, Some (l\<lparr>int_fb := (int_fb l)[i := b\<lparr>ifb_data := x, ifb_size := n\<rparr>]\<rparr>))"
          using int_fill [OF ok1 i(1) _ x False] assms(2) i(1) a(2) by simp
        from int_ok_in_use [OF this i(1), of 1] have "int_ok base (h2, Some (l\<lparr>int_fb := (int_fb l)[i := b\<lparr>ifb_data := x, ifb_size := n, in_use := 1\<rparr>]\<rparr>))"
          using i(1) a(2) by simp
        moreover have "0 < x" "x + n < 18446744073709551616" using calloc_block(3) [OF x False] assms(2) by (auto simp: owns_block_def)
        ultimately show ?thesis using red True h1 x False held(1) held(2) [of h2 n x] i(1) by simp
      qed
    next
      case False
      have "0 < ifb_data b" "ifb_data b + ifb_size b < 18446744073709551616"
        using int_ok_buffer [OF ok i(1)] False assms(2) by (auto simp: int_buffer_ok_def b_def owns_block_def split: if_splits)
      moreover have "int_ok base (h, Some (l\<lparr>int_fb := (int_fb l)[i := b\<lparr>in_use := 1\<rparr>]\<rparr>))" using int_ok_in_use [OF ok i(1)] by (simp add: b_def)
      moreover have "int_held (h, Some (l\<lparr>int_fb := (int_fb l)[i := b\<lparr>in_use := 1\<rparr>]\<rparr>)) = insert i (int_held c)"
        using i a(2) by (auto simp: int_held_def c b_def nth_list_update)
      ultimately show ?thesis using red False held(1) i(1) by simp
    qed
  qed
qed

lemma int_release:
  assumes "int_ok base c" "fb_priv fb = Some i" "i \<in> {..<16}"
  shows "\<exists>c'. av1_release_frame_buffer c fb = Some (0, c') \<and> int_ok base c' \<and> int_held c' = int_held c - {i}"
proof -
  obtain h l where c: "c = (h, Some l)" using assms(1) by (auto simp: int_ok_def split: prod.splits option.splits)
  have "length (int_fb l) = 16" using assms(1) by (simp add: int_ok_def c)
  then show ?thesis using int_ok_in_use [of base h l i 0] assms by (auto simp: av1_release_frame_buffer_def c int_held_def nth_list_update)
qed

lemma owned_one_owner:
  assumes "owned base h bs" "b \<in> set bs" "c \<in> set bs" "ifb_data b \<noteq> 0" "ifb_data c \<noteq> 0" "buffer_address h b = buffer_address h c"
  shows "b = c"
  using assms unfolding owned_def addrs_def by (auto simp: distinct_map inj_on_def)

text \<open>Clearing the unused buffers writes inside their blocks only.\<close>

lemma zero_unused_outside:
  "(\<And>b. b \<in> set bs \<Longrightarrow> ifb_data b \<noteq> 0 \<Longrightarrow> y < ifb_data b \<or> ifb_data b + ifb_size b \<le> y) \<Longrightarrow> zero_unused m bs y = m y"
proof (induction bs arbitrary: m)
  case (Cons b bs)
  have "y < ifb_data b \<or> ifb_data b + ifb_size b \<le> y" if "ifb_data b \<noteq> 0" using Cons.prems [of b] that by simp
  moreover have "zero_unused m' bs y = m' y" for m' using Cons by simp
  ultimately show ?case by (auto simp: memset_def)
qed simp

lemma owned_clear:
  assumes "owned base h (us @ bs)"
  shows "owned base (h\<lparr>mem := zero_unused (mem h) bs\<rparr>) (us @ bs)"
proof -
  define h' where "h' = h\<lparr>mem := zero_unused (mem h) bs\<rparr>"
  have keep: "owns_block h' (buffer_address h x) (ifb_data x) (ifb_size x)" if x: "x \<in> set (us @ bs)" "ifb_data x \<noteq> 0" for x
  proof (rule owns_block_keep [OF owned_owns [OF assms x]])
    fix k y assume y: "(buffer_address h x, k) \<in> set (live h)" "ifb_data x - 8 \<le> y" "y < ifb_data x" "ifb_data x \<le> buffer_address h x + k"
      "buffer_address h x + 8 \<le> ifb_data x"
    have "zero_unused (mem h) bs y = mem h y"
    proof (rule zero_unused_outside)
      fix b assume b: "b \<in> set bs" "ifb_data b \<noteq> 0"
      obtain k' where k': "(buffer_address h b, k') \<in> set (live h)" "buffer_address h b + 8 \<le> ifb_data b" "ifb_data b + ifb_size b \<le> buffer_address h b + k'"
        using owned_owns [OF assms _ b(2)] b(1) by (auto simp: owns_block_def)
      show "y < ifb_data b \<or> ifb_data b + ifb_size b \<le> y"
      proof (cases "buffer_address h b = buffer_address h x")
        case False
        then have "buffer_address h b + k' \<le> buffer_address h x \<or> buffer_address h x + k \<le> buffer_address h b"
          using assms k'(1) y(1) unfolding owned_def live_apart_def by blast
        then show ?thesis using k' y by linarith
      next
        case True
        then have "b = x" using assms b x owned_one_owner [of base h "us @ bs" b x] by simp
        then show ?thesis using y by simp
      qed
    qed
    then show "mem h' y = mem h y" by (simp add: h'_def)
  qed (simp add: h'_def)
  have "addrs h' (us @ bs) = addrs h (us @ bs)" "\<forall>x \<in> set (us @ bs). int_buffer_ok h' x"
    using owned_other [of "us @ bs" h h'] keep assms unfolding owned_def by blast+
  then show ?thesis using assms unfolding h'_def [symmetric] owned_def by (simp add: live_apart_def allocated_def) (simp add: h'_def)
qed

lemma int_clear_ok:
  assumes "int_ok base c"
  shows "int_ok base (int_clear c) \<and> int_held (int_clear c) = int_held c"
proof -
  obtain h l where c: "c = (h, Some l)" using assms(1) by (auto simp: int_ok_def split: prod.splits option.splits)
  have "av1_zero_unused_internal_frame_buffers h l = h\<lparr>mem := zero_unused (mem h) (int_fb l)\<rparr>"
    using assms by (simp add: c int_ok_def av1_zero_unused_internal_frame_buffers_def)
  then show ?thesis using owned_clear [of base h "[list_block l]" "int_fb l"] assms by (simp add: int_clear_def c int_held_def int_ok_def)
qed

text \<open>In the end the blocks of the list are given back.\<close>

lemma free_int_fbs_owned: "owned base h (x # bs) \<Longrightarrow> \<exists>h'. free_int_fbs h bs = Some h' \<and> owned base h' [x]"
proof (induction bs arbitrary: h)
  case (Cons b bs)
  from owned_free [of base h "[x]" b bs] Cons.prems obtain h1 where h1: "aom_free h (ifb_data b) = Some h1"
    "owned base h1 (x # b\<lparr>ifb_data := 0, ifb_size := 0\<rparr> # bs)" by auto
  then have "owned base h1 (x # bs)" by (auto simp: owned_def)
  from Cons.IH [OF this] h1(1) show ?case by auto
qed simp

lemma int_free_list:
  assumes "int_ok base (h, Some l)"
  shows "\<exists>h' l'. av1_free_internal_frame_buffers h l = Some (h', l') \<and> allocated h' = base"
proof -
  have a: "num_internal_frame_buffers l = 16" "length (int_fb l) = 16" "owned base h (list_block l # int_fb l)" using assms by (simp_all add: int_ok_def)
  from free_int_fbs_owned [OF a(3)] obtain h1 where h1: "free_int_fbs h (int_fb l) = Some h1" "owned base h1 [list_block l]" by blast
  from owned_free [of base h1 "[]" "list_block l" "[]"] h1(2) obtain h2 where "aom_free h1 (int_fb_block l) = Some h2"
    "owned base h2 [(list_block l)\<lparr>ifb_data := 0, ifb_size := 0\<rparr>]" by (auto simp: list_block_def)
  then show ?thesis using h1(1) a(1,2) by (auto simp: av1_free_internal_frame_buffers_def owned_def)
qed

interpretation int_fb: frame_source internal_callbacks "int_ok base" int_held "{..<16}" int_clear for base
  by unfold_locales (use int_get int_release int_clear_ok in \<open>simp_all add: internal_callbacks_def\<close>)

text \<open>
  The list when its allocation failed: there is no buffer to hand out, so that no frame ever gets
  a block.
\<close>

definition none_ok :: "int set \<Rightarrow> heap \<times> InternalFrameBufferList option \<Rightarrow> bool" where
  "none_ok base c \<longleftrightarrow> (case c of (h, None) \<Rightarrow> False | (h, Some l) \<Rightarrow>
     num_internal_frame_buffers l = 0 \<and> int_fb l = [] \<and> int_fb_block l = 0 \<and> allocated h = base)"

lemma none_get: "none_ok base c \<Longrightarrow> av1_get_frame_buffer pick c n fb = Some (-1, fb, c)"
  by (auto simp: none_ok_def av1_get_frame_buffer_def split: option.splits prod.splits)

lemma none_clear: "none_ok base c \<Longrightarrow> none_ok base (int_clear c)"
  by (auto simp: none_ok_def int_clear_def av1_zero_unused_internal_frame_buffers_def allocated_def split: option.splits prod.splits)

interpretation no_fb: frame_source internal_callbacks "none_ok base" "\<lambda>_. {}" "{}" int_clear for base
  by unfold_locales (simp_all add: internal_callbacks_def none_get none_clear)

lemma none_free_list: "none_ok base (h, Some l) \<Longrightarrow> \<exists>h' l'. av1_free_internal_frame_buffers h l = Some (h', l') \<and> allocated h' = base"
  by (simp add: none_ok_def av1_free_internal_frame_buffers_def aom_free_def)

text \<open>A new list.\<close>

lemma calloc_list: "aom_calloc pick h 16 24 = aom_calloc pick h 1 384"
  by (simp add: aom_calloc_def check_size_argument_overflow_def Let_def GetAllocationPaddingSize_def DEFAULT_ALIGNMENT_def ADDRESS_STORAGE_SIZE_def
    AOM_MAX_ALLOCABLE_MEMORY_def u64_def)

lemma alloc_list_ok:
  assumes "live_apart h" "av1_alloc_internal_frame_buffers pick h \<lparr>num_internal_frame_buffers = 0, int_fb_block = 0, int_fb = []\<rparr> = Some (e, h', l)"
  shows "if e = 0 then int_ok (allocated h) (h', Some l) \<and> int_held (h', Some l) = {} else none_ok (allocated h) (h', Some l)"
proof -
  obtain x h1 where x: "aom_calloc pick h 1 384 = (x, h1)" by fastforce
  define b :: InternalFrameBuffer where "b = \<lparr>ifb_data = 0, ifb_size = 0, in_use = 1\<rparr>"
  define bs :: "InternalFrameBuffer list" where "bs = replicate 16 \<lparr>ifb_data = 0, ifb_size = 0, in_use = 0\<rparr>"
  have run: "e = (if x = 0 then 1 else 0)" "h' = h1" "l = (if x = 0 then \<lparr>num_internal_frame_buffers = 0, int_fb_block = 0, int_fb = []\<rparr>
      else \<lparr>num_internal_frame_buffers = 16, int_fb_block = x, int_fb = bs\<rparr>)"
    using assms(2) x by (auto simp: av1_alloc_internal_frame_buffers_def av1_free_internal_frame_buffers_def aom_free_def calloc_list
      AOM_MAXIMUM_REF_BUFFERS_def AOM_MAXIMUM_WORK_BUFFERS_def bs_def split: if_splits)
  show ?thesis
  proof (cases "x = 0")
    case True
    then have "h1 = h" using calloc_null x by auto
    then show ?thesis using run True by (simp add: none_ok_def)
  next
    case False
    have "addrs h bs = []" by (simp add: bs_def addrs_def)
    then have "owned (allocated h) h ([] @ b # bs)" using assms(1) by (auto simp: owned_def b_def bs_def int_buffer_ok_def)
    from owned_fill [OF this _ x False] have "owned (allocated h) h1 (list_block l # bs)" using run(3) False by (simp add: b_def list_block_def)
    moreover have "length bs = 16" "\<forall>i < 16. in_use (bs ! i) = 0" by (simp_all add: bs_def nth_replicate)
    ultimately show ?thesis using run False by (auto simp: int_ok_def int_held_def)
  qed
qed

end
