(* ===== verification/Frame_Refs.thy ===== *)
theory Frame_Refs
  imports Frame_Header
begin

text \<open>
  The references that \<open>av1_set_frame_refs\<close> derives from two of them: every one of the seven is a
  frame the decoder has, which the code asserts and the rest of the decoder relies on.
\<close>

section \<open>Order\<close>

lemma relative_dist_range:
  assumes "enable_order_hint oh \<noteq> 0" "0 \<le> order_hint_bits_minus_1 oh"
  shows "- shl 1 (nat (order_hint_bits_minus_1 oh)) \<le> get_relative_dist oh a b" "get_relative_dist oh a b < shl 1 (nat (order_hint_bits_minus_1 oh))"
proof -
  define n where "n = nat (order_hint_bits_minus_1 oh)"
  have m: "shl 1 n = (2::int) ^ n" by (simp add: shl_def)
  have lo: "(a - b) AND (2 ^ n - 1) = (a - b) mod 2 ^ n" using take_bit_eq_mask [of n "a - b"] by (simp add: take_bit_eq_mod mask_eq_exp_minus_1)
  have "(a - b) AND 2 ^ n = (if bit (a - b) n then 2 ^ n else (0::int))"
    by (rule bit_eqI) (auto simp: bit_and_iff bit_exp_iff)
  then have hi: "(a - b) AND 2 ^ n = 0 \<or> (a - b) AND 2 ^ n = (2::int) ^ n" by simp
  have "get_relative_dist oh a b = (a - b) mod 2 ^ n - ((a - b) AND 2 ^ n)"
    using assms by (simp add: get_relative_dist_def Let_def n_def lo [unfolded n_def] m [unfolded n_def])
  moreover have "0 \<le> (a - b) mod 2 ^ n" "(a - b) mod 2 ^ n < 2 ^ n" by simp_all
  ultimately show "- shl 1 (nat (order_hint_bits_minus_1 oh)) \<le> get_relative_dist oh a b"
    "get_relative_dist oh a b < shl 1 (nat (order_hint_bits_minus_1 oh))"
    using hi unfolding n_def [symmetric] m by (elim disjE; linarith)+
qed

lemma sorted_below:
  fixes xs :: "int list"
  shows "sorted xs \<Longrightarrow> j < length xs \<Longrightarrow> xs ! j < c \<longleftrightarrow> j < length (filter (\<lambda>x. x < c) xs)"
proof (induction xs arbitrary: j)
  case (Cons x xs)
  show ?case
  proof (cases "x < c")
    case True
    then show ?thesis using Cons by (cases j) auto
  next
    case False
    then have "\<forall>y \<in> set (x # xs). \<not> y < c" using Cons.prems(1) by auto
    moreover have "(x # xs) ! j \<in> set (x # xs)" by (rule nth_mem [OF Cons.prems(2)])
    moreover have "filter (\<lambda>x. x < c) (x # xs) = []" using calculation(1) by (simp add: filter_empty_conv)
    ultimately have "\<not> (x # xs) ! j < c" "filter (\<lambda>x. x < c) (x # xs) = []" by blast+
    then show ?thesis by simp
  qed
qed simp

lemma fwd_range_eq:
  assumes "sorted (map rf_sort_idx rs)" "\<forall>r \<in> set rs. -1 \<le> rf_sort_idx r" "0 \<le> cur"
  shows "fwd_range cur i start rs =
    (start + int (length (filter (\<lambda>r. rf_sort_idx r < 0) rs)),
     if \<exists>r \<in> set rs. cur \<le> rf_sort_idx r then int i + int (length (filter (\<lambda>r. rf_sort_idx r < cur) rs)) - 1 else int REF_FRAMES - 1)"
  using assms
proof (induction rs arbitrary: i start)
  case (Cons r rs)
  have s: "sorted (map rf_sort_idx rs)" "\<forall>r \<in> set rs. -1 \<le> rf_sort_idx r" using Cons.prems by simp_all
  consider "rf_sort_idx r = -1" | "cur \<le> rf_sort_idx r" | "0 \<le> rf_sort_idx r" "rf_sort_idx r < cur" using Cons.prems(2) by force
  then show ?case
  proof cases
    case 1
    then show ?thesis using Cons.IH [OF s Cons.prems(3)] Cons.prems(3) by auto
  next
    case 2
    then have "\<forall>x \<in> set rs. cur \<le> rf_sort_idx x" using Cons.prems(1) by auto
    then have "filter (\<lambda>r. rf_sort_idx r < 0) rs = []" "filter (\<lambda>r. rf_sort_idx r < cur) rs = []"
      using Cons.prems(3) by (force simp: filter_empty_conv)+
    then show ?thesis using 2 Cons.prems(3) by auto
  next
    case 3
    then show ?thesis using Cons.IH [OF s Cons.prems(3)] by auto
  qed
qed simp

text \<open>The three parts of the sorted entries: no frame, earlier frames, later frames.\<close>

lemma fwd_range_parts:
  assumes "sorted (map rf_sort_idx rs)" "\<forall>r \<in> set rs. -1 \<le> rf_sort_idx r" "0 \<le> cur" "length rs = REF_FRAMES"
    and "fwd_range cur 0 0 rs = (fs, fe)"
  shows "0 \<le> fs" "fe < int REF_FRAMES" "-1 \<le> fe"
    "\<And>j. j < REF_FRAMES \<Longrightarrow> rf_sort_idx (rs ! j) < 0 \<longleftrightarrow> int j < fs" "\<And>j. j < REF_FRAMES \<Longrightarrow> rf_sort_idx (rs ! j) < cur \<longleftrightarrow> int j \<le> fe"
proof -
  define n where "n c = length (filter (\<lambda>r. rf_sort_idx r < c) rs)" for c
  have le: "n c \<le> REF_FRAMES" for c using length_filter_le [of _ rs] assms(4) by (simp add: n_def)
  have "n cur = REF_FRAMES" if "\<not> (\<exists>r \<in> set rs. cur \<le> rf_sort_idx r)"
  proof -
    have "filter (\<lambda>r. rf_sort_idx r < cur) rs = rs" using that by (force simp: filter_id_conv)
    then show ?thesis using assms(4) by (simp add: n_def)
  qed
  then have f: "fs = int (n 0)" "fe = int (n cur) - 1" using assms(5) fwd_range_eq [OF assms(1-3), of 0 0] by (auto simp: n_def split: if_splits)
  have "rf_sort_idx (rs ! j) < c \<longleftrightarrow> j < n c" if "j < REF_FRAMES" for j c
    using sorted_below [OF assms(1), of j c] that assms(4) by (simp add: n_def filter_map o_def)
  then show "\<And>j. j < REF_FRAMES \<Longrightarrow> rf_sort_idx (rs ! j) < 0 \<longleftrightarrow> int j < fs" "\<And>j. j < REF_FRAMES \<Longrightarrow> rf_sort_idx (rs ! j) < cur \<longleftrightarrow> int j \<le> fe"
    using f by auto
  show "0 \<le> fs" "fe < int REF_FRAMES" "-1 \<le> fe" using f le [of cur] by auto
qed

section \<open>Slots\<close>

text \<open>Slots that are filled are filled with entries of which \<open>P\<close> holds.\<close>

definition slots_ok :: "(nat \<Rightarrow> bool) \<Rightarrow> nat option list \<Rightarrow> bool" where
  "slots_ok P slots \<longleftrightarrow> length slots = INTER_REFS_PER_FRAME \<and> (\<forall>m. Some m \<in> set slots \<longrightarrow> P m)"

lemma slots_ok_set: "slots_ok P slots \<Longrightarrow> P m \<Longrightarrow> slots_ok P (slots[r := Some m])"
  unfolding slots_ok_def using set_update_subset_insert [of slots r "Some m"] by auto

lemma fill_backward_ok:
  assumes "slots_ok P slots" "\<And>j. bs \<le> int j \<Longrightarrow> j < REF_FRAMES \<Longrightarrow> P (rf_map_idx (infos ! j))" "0 \<le> bs"
  shows "slots_ok P (fill_backward infos bs slots)"
proof -
  have "P (rf_map_idx (infos ! nat i))" if "bs \<le> i" "i < int REF_FRAMES" for i using assms(2) [of "nat i"] that assms(3) by auto
  note p = this
  have "P (rf_map_idx (infos ! 7))" if "bs \<le> 7" using p [of 7] that by (simp add: REF_FRAMES_def)
  then show ?thesis using assms(1) p by (auto simp: fill_backward_def REF_FRAMES_def intro!: slots_ok_set)
qed

text \<open>The latest backward reference is \<open>ALTREF_FRAME\<close>.\<close>

lemma fill_backward_altref:
  assumes "length slots = INTER_REFS_PER_FRAME" "bs \<le> int REF_FRAMES - 1"
  shows "fill_backward infos bs slots ! 6 = Some (rf_map_idx (infos ! (REF_FRAMES - 1)))"
  using assms by (simp add: fill_backward_def INTER_REFS_PER_FRAME_def REF_FRAMES_def)

lemma fill_last_golden_ok:
  assumes "slots_ok P slots" "P lst" "P gld"
  shows "slots_ok P (fill_last_golden infos lst gld fs fe slots)"
proof -
  have "slots_ok P (foldl (\<lambda>slots i. let m = rf_map_idx (infos ! i); slots = (if m = lst then slots[0 := Some m] else slots) in
         if m = gld then slots[3 := Some m] else slots) slots is)" for "is"
    using assms(1) by (induction "is" arbitrary: slots) (simp_all add: Let_def slots_ok_set assms)
  then show ?thesis by (simp add: fill_last_golden_def)
qed

definition golden_step :: "REF_FRAME_INFO list \<Rightarrow> nat \<Rightarrow> nat \<Rightarrow> nat option list \<Rightarrow> nat \<Rightarrow> nat option list" where
  "golden_step infos lst gld slots i =
     (let m = rf_map_idx (infos ! i); slots = (if m = lst then slots[0 := Some m] else slots) in
      if m = gld then slots[3 := Some m] else slots)"

lemma golden_step_nth:
  assumes "length slots = INTER_REFS_PER_FRAME"
  shows "length (golden_step infos lst gld slots i) = INTER_REFS_PER_FRAME"
    "golden_step infos lst gld slots i ! 0 = (if rf_map_idx (infos ! i) = lst then Some lst else slots ! 0)"
    "golden_step infos lst gld slots i ! 3 = (if rf_map_idx (infos ! i) = gld then Some gld else slots ! 3)"
    "r \<noteq> 0 \<Longrightarrow> r \<noteq> 3 \<Longrightarrow> golden_step infos lst gld slots i ! r = slots ! r"
  using assms by (simp_all add: golden_step_def INTER_REFS_PER_FRAME_def Let_def nth_list_update)

lemma golden_loop:
  assumes "length slots = INTER_REFS_PER_FRAME"
  shows "((\<exists>i \<in> set js. rf_map_idx (infos ! i) = lst) \<or> slots ! 0 = Some lst \<longrightarrow> foldl (golden_step infos lst gld) slots js ! 0 = Some lst) \<and>
    ((\<exists>i \<in> set js. rf_map_idx (infos ! i) = gld) \<or> slots ! 3 = Some gld \<longrightarrow> foldl (golden_step infos lst gld) slots js ! 3 = Some gld) \<and>
    (\<forall>r. r \<noteq> 0 \<longrightarrow> r \<noteq> 3 \<longrightarrow> foldl (golden_step infos lst gld) slots js ! r = slots ! r)"
  using assms
proof (induction js arbitrary: slots)
  case (Cons i js)
  note n = golden_step_nth [OF Cons.prems, where infos = infos and lst = lst and gld = gld and i = i]
  from Cons.IH [OF n(1)] show ?case by (simp add: n(2-4) split: if_splits)
qed simp

lemma fill_last_golden_set:
  assumes "length slots = INTER_REFS_PER_FRAME" "0 \<le> fs" "fs \<le> int i" "int i \<le> fe" "rf_map_idx (infos ! i) = lst"
    "fs \<le> int j" "int j \<le> fe" "rf_map_idx (infos ! j) = gld"
  shows "fill_last_golden infos lst gld fs fe slots ! 0 = Some lst" "fill_last_golden infos lst gld fs fe slots ! 3 = Some gld"
    "r \<noteq> 0 \<Longrightarrow> r \<noteq> 3 \<Longrightarrow> fill_last_golden infos lst gld fs fe slots ! r = slots ! r"
proof -
  define js where "js = [nat fs..<nat (fe + 1)]"
  have "i \<in> set js" "j \<in> set js" using assms by (auto simp: js_def)
  then have m: "\<exists>i \<in> set js. rf_map_idx (infos ! i) = lst" "\<exists>i \<in> set js. rf_map_idx (infos ! i) = gld" using assms(5,8) by blast+
  have e: "fill_last_golden infos lst gld fs fe slots = foldl (golden_step infos lst gld) slots js"
    by (simp add: fill_last_golden_def golden_step_def [abs_def] js_def)
  note g = golden_loop [OF assms(1), of js infos lst gld]
  show "fill_last_golden infos lst gld fs fe slots ! 0 = Some lst" using g m(1) unfolding e by blast
  show "fill_last_golden infos lst gld fs fe slots ! 3 = Some gld" using g m(2) unfolding e by blast
  show "fill_last_golden infos lst gld fs fe slots ! r = slots ! r" if "r \<noteq> 0" "r \<noteq> 3" using g that unfolding e by blast
qed

lemma skip_used_le: "skip_used infos lst gld fs fe \<le> fe"
proof (induction infos lst gld fs fe rule: skip_used.induct)
  case (1 infos lst gld fs fe)
  then show ?case by (subst skip_used.simps) auto
qed

text \<open>The forward references fill their slots and leave the ones that are filled alone.\<close>

lemma fill_forward_ok:
  assumes "slots_ok P slots" "\<And>j. fs \<le> int j \<Longrightarrow> j < REF_FRAMES \<Longrightarrow> P (rf_map_idx (infos ! j))" "0 \<le> fs" "fe < int REF_FRAMES"
    "\<And>r. r \<in> set rs \<Longrightarrow> r < INTER_REFS_PER_FRAME" "fill_forward infos lst gld fs fe rs slots = (left, slots')"
  shows "slots_ok P slots' \<and> set left \<subseteq> set rs \<and> (\<forall>r. slots ! r \<noteq> None \<longrightarrow> slots' ! r = slots ! r) \<and>
    (\<forall>r \<in> set rs. r \<in> set left \<or> slots' ! r \<noteq> None)"
  using assms
proof (induction infos lst gld fs fe rs slots rule: fill_forward.induct)
  case (2 infos lst gld fs fe r rs slots)
  show ?case
  proof (cases "slots ! r \<noteq> None")
    case True
    then show ?thesis using "2.IH"(1) [OF True "2.prems"(1-4)] "2.prems"(5,6) by auto
  next
    case False
    define e where "e = skip_used infos lst gld fs fe"
    show ?thesis
    proof (cases "fs > e")
      case True
      then show ?thesis using False "2.prems" by (auto simp: Let_def simp flip: e_def)
    next
      case stop: False
      have e: "e < int REF_FRAMES" using skip_used_le [of infos lst gld fs fe] "2.prems"(4) by (simp add: e_def)
      have ne: "slots ! r = None" using False by simp
      have r: "r < length slots" using "2.prems"(1,5) by (simp add: slots_ok_def)
      have "P (rf_map_idx (infos ! nat e))" using "2.prems"(2) [of "nat e"] "2.prems"(3) stop e by auto
      then have "slots_ok P (slots[r := Some (rf_map_idx (infos ! nat e))])" by (rule slots_ok_set [OF "2.prems"(1)])
      from "2.IH"(2) [OF False e_def stop this "2.prems"(2,3)] e "2.prems"(5,6) False stop
      have IH: "slots_ok P slots' \<and> set left \<subseteq> set rs \<and>
          (\<forall>r'. slots[r := Some (rf_map_idx (infos ! nat e))] ! r' \<noteq> None \<longrightarrow> slots' ! r' = slots[r := Some (rf_map_idx (infos ! nat e))] ! r') \<and>
          (\<forall>r \<in> set rs. r \<in> set left \<or> slots' ! r \<noteq> None)"
        by (simp add: Let_def flip: e_def)
      then have "slots' ! r' = slots ! r'" if "slots ! r' \<noteq> None" for r'
        using that ne by (metis nth_list_update_neq)
      moreover have "slots' ! r \<noteq> None" using IH r by simp
      ultimately show ?thesis using IH by auto
    qed
  qed
qed simp

lemma fill_earliest_ok:
  assumes "slots_ok P slots" "P m" "\<And>r. r \<in> set rs \<Longrightarrow> r < INTER_REFS_PER_FRAME"
  shows "slots_ok P (fill_earliest m rs slots) \<and> (\<forall>r. slots ! r \<noteq> None \<longrightarrow> fill_earliest m rs slots ! r = slots ! r) \<and>
    (\<forall>r \<in> set rs. fill_earliest m rs slots ! r \<noteq> None)"
  using assms
proof (induction rs arbitrary: slots)
  case (Cons r rs)
  define slots' where "slots' = (if slots ! r \<noteq> None then slots else slots[r := Some m])"
  have s: "slots_ok P slots'" "slots' ! r \<noteq> None" "\<forall>r'. slots ! r' \<noteq> None \<longrightarrow> slots' ! r' = slots ! r'"
    using Cons.prems slots_ok_set [OF Cons.prems(1,2)] by (auto simp: slots'_def slots_ok_def nth_list_update)
  have e: "fill_earliest m (r # rs) slots = fill_earliest m rs slots'" by (simp add: slots'_def)
  from Cons.IH [OF s(1) Cons.prems(2)] Cons.prems(3) s(2,3) show ?case unfolding e by fastforce
qed simp

section \<open>The seven references\<close>

text \<open>How far the frame of a map entry is ahead of the current frame.\<close>

definition ref_distance :: "'c AV1Decoder \<Rightarrow> nat \<Rightarrow> int" where
  "ref_distance s m = get_relative_dist (order_hint_info (cm_seq s)) (s32 (rc_order_hint (pool_frame s (the (cm_ref_frame_map s ! m))))) (s32 (cf_order_hint s))"

definition has_ref :: "'c AV1Decoder \<Rightarrow> nat \<Rightarrow> bool" where
  "has_ref s m \<longleftrightarrow> m < REF_FRAMES \<and> cm_ref_frame_map s ! m \<noteq> None"

text \<open>A frame whose order hint is the mark of no hint at all.\<close>

definition hinted :: "'c AV1Decoder \<Rightarrow> nat \<Rightarrow> bool" where
  "hinted s m \<longleftrightarrow> has_ref s m \<and> s32 (rc_order_hint (pool_frame s (the (cm_ref_frame_map s ! m)))) \<noteq> -1"

definition hints_on :: "'c AV1Decoder \<Rightarrow> bool" where
  "hints_on s \<longleftrightarrow> enable_order_hint (order_hint_info (cm_seq s)) \<noteq> 0 \<and> 0 \<le> order_hint_bits_minus_1 (order_hint_info (cm_seq s))"

lemma ref_frame_infos_nth:
  assumes "hints_on s" "i < REF_FRAMES"
  shows "rf_map_idx (ref_frame_infos s ! i) = i" "-1 \<le> rf_sort_idx (ref_frame_infos s ! i)"
    "rf_sort_idx (ref_frame_infos s ! i) = (if hinted s i then shl 1 (nat (order_hint_bits_minus_1 (order_hint_info (cm_seq s)))) + ref_distance s i else -1)"
    "hinted s i \<Longrightarrow> 0 \<le> rf_sort_idx (ref_frame_infos s ! i)"
proof -
  show e: "rf_sort_idx (ref_frame_infos s ! i) = (if hinted s i then shl 1 (nat (order_hint_bits_minus_1 (order_hint_info (cm_seq s)))) + ref_distance s i else -1)"
    "rf_map_idx (ref_frame_infos s ! i) = i"
    using assms(2) by (auto simp: ref_frame_infos_def Let_def hinted_def has_ref_def ref_distance_def split: option.splits)
  show "hinted s i \<Longrightarrow> 0 \<le> rf_sort_idx (ref_frame_infos s ! i)"
  proof -
    have "- shl 1 (nat (order_hint_bits_minus_1 (order_hint_info (cm_seq s)))) \<le> ref_distance s i"
      unfolding ref_distance_def using assms(1) by (intro relative_dist_range(1)) (simp_all add: hints_on_def)
    then show "hinted s i \<Longrightarrow> 0 \<le> rf_sort_idx (ref_frame_infos s ! i)" using e(1) by simp
  qed
  then show "-1 \<le> rf_sort_idx (ref_frame_infos s ! i)" using e(1) by (cases "hinted s i") auto
qed

lemma length_ref_frame_infos [simp]: "length (ref_frame_infos s) = REF_FRAMES"
  by (simp add: ref_frame_infos_def Let_def)

text \<open>The sorted entries are map entries, and a position tells the kind of the frame.\<close>

lemma sorted_infos:
  assumes "hints_on s"
  defines "S \<equiv> sort_key rf_sort_idx (ref_frame_infos s)"
  shows "sorted (map rf_sort_idx S)" "length S = REF_FRAMES"
    "\<And>j. j < REF_FRAMES \<Longrightarrow> rf_map_idx (S ! j) < REF_FRAMES \<and> S ! j = ref_frame_infos s ! rf_map_idx (S ! j)"
    "\<And>m. m < REF_FRAMES \<Longrightarrow> \<exists>j < REF_FRAMES. S ! j = ref_frame_infos s ! m" "\<forall>r \<in> set S. -1 \<le> rf_sort_idx r"
proof -
  show "sorted (map rf_sort_idx S)" "length S = REF_FRAMES" by (simp_all add: S_def)
  then show "\<exists>j < REF_FRAMES. S ! j = ref_frame_infos s ! m" if "m < REF_FRAMES" for m
  proof -
    have "ref_frame_infos s ! m \<in> set S" using that by (simp add: S_def)
    then show ?thesis using \<open>length S = REF_FRAMES\<close> by (metis in_set_conv_nth)
  qed
  have "\<exists>m < REF_FRAMES. r = ref_frame_infos s ! m" if "r \<in> set S" for r
    using that by (auto simp: S_def in_set_conv_nth)
  note mem = this
  show "\<forall>r \<in> set S. -1 \<le> rf_sort_idx r" using mem ref_frame_infos_nth(2) [OF assms(1)] by metis
  show "rf_map_idx (S ! j) < REF_FRAMES \<and> S ! j = ref_frame_infos s ! rf_map_idx (S ! j)" if "j < REF_FRAMES" for j
    using mem [of "S ! j"] that \<open>length S = REF_FRAMES\<close> ref_frame_infos_nth(1) [OF assms(1)] nth_mem by metis
qed

lemma set_frame_refs_result:
  assumes on: "hints_on s" and l: "lst < REF_FRAMES" "gld < REF_FRAMES"
    and early: "hinted s lst \<and> ref_distance s lst < 0" "hinted s gld \<and> ref_distance s gld < 0"
  shows "\<exists>xs. av1_set_frame_refs lst gld (s, rb) = Some (Inr (), s\<lparr>cm_remapped_ref_idx := xs\<rparr>, rb) \<and> length xs = INTER_REFS_PER_FRAME \<and>
    (\<forall>i < INTER_REFS_PER_FRAME. \<exists>m. xs ! i = int m \<and> hinted s m) \<and> xs ! 0 = int lst \<and> xs ! 3 = int gld \<and>
    ((\<exists>m. hinted s m \<and> 0 \<le> ref_distance s m) \<longrightarrow> (\<forall>m. hinted s m \<longrightarrow> ref_distance s m \<le> ref_distance s (nat (xs ! 6))))"
proof -
  define cur where "cur = shl (1::int) (nat (order_hint_bits_minus_1 (order_hint_info (cm_seq s))))"
  have cur: "0 < cur" by (simp add: cur_def shl_def)
  define infos where "infos = ref_frame_infos s"
  define S where "S = sort_key rf_sort_idx infos"
  note so = sorted_infos [OF on, folded infos_def, folded S_def]
  note at = ref_frame_infos_nth [OF on, folded infos_def, folded cur_def]
  obtain fs fe where f: "fwd_range cur 0 0 S = (fs, fe)" by fastforce
  note fp = fwd_range_parts [OF so(1,5) _ so(2) f, OF less_imp_le [OF cur]]
  have good: "hinted s (rf_map_idx (S ! j))" if "fs \<le> int j" "j < REF_FRAMES" for j
    using fp(4) [OF that(2)] at(3) [of "rf_map_idx (S ! j)"] so(3) [OF that(2)] that(1) by (auto split: if_splits)
  have place: "\<exists>j. fs \<le> int j \<and> int j \<le> fe \<and> rf_map_idx (S ! j) = m" if "m < REF_FRAMES" "hinted s m" "ref_distance s m < 0" for m
  proof -
    obtain j where j: "j < REF_FRAMES" "S ! j = infos ! m" using so(4) [OF \<open>m < REF_FRAMES\<close>] by blast
    have "0 \<le> rf_sort_idx (S ! j)" "rf_sort_idx (S ! j) < cur" using at(3,4) [OF that(1)] that j(2) by simp_all
    then show ?thesis using fp(4,5) [OF j(1)] at(1) [OF that(1)] j(2) by (intro exI [of _ j]) auto
  qed
  obtain i j where ij: "fs \<le> int i" "int i \<le> fe" "rf_map_idx (S ! i) = lst" "fs \<le> int j" "int j \<le> fe" "rf_map_idx (S ! j) = gld"
    using place [OF l(1)] place [OF l(2)] early by blast
  have fsb: "fs < int REF_FRAMES" "fs \<le> fe" using ij(1,2) fp(2) by auto
  define s0 where "s0 = fill_backward S (fe + 1) (replicate INTER_REFS_PER_FRAME None)"
  define s1 where "s1 = fill_last_golden S lst gld fs fe s0"
  obtain left s2 where s2: "fill_forward S lst gld fs fe [1, 2, 4, 5, 6] s1 = (left, s2)" by fastforce
  define s3 where "s3 = fill_earliest (rf_map_idx (S ! nat fs)) left s2"
  have o0: "slots_ok (hinted s) s0" unfolding s0_def
    using good fsb fp(3) by (intro fill_backward_ok) (auto simp: slots_ok_def)
  have l0: "length s0 = INTER_REFS_PER_FRAME" using o0 by (simp add: slots_ok_def)
  have o1: "slots_ok (hinted s) s1" unfolding s1_def using o0 early by (intro fill_last_golden_ok) auto
  note g1 = fill_last_golden_set [OF l0 fp(1) ij, folded s1_def]
  have r7: "r < INTER_REFS_PER_FRAME" if "r \<in> set [1, 2, 4, 5, 6::nat]" for r using that by (auto simp: INTER_REFS_PER_FRAME_def)
  note f2 = fill_forward_ok [OF o1 good fp(1,2) r7 s2]
  have e3: "slots_ok (hinted s) s3 \<and> (\<forall>r. s2 ! r \<noteq> None \<longrightarrow> s3 ! r = s2 ! r) \<and> (\<forall>r \<in> set left. s3 ! r \<noteq> None)"
    unfolding s3_def using f2 good [of "nat fs"] fp(1) fsb r7 by (intro fill_earliest_ok) auto
  have full: "s3 ! r \<noteq> None" if "r < INTER_REFS_PER_FRAME" for r
  proof (cases "r = 0 \<or> r = 3")
    case True
    then have "s1 ! r \<noteq> None" using g1(1,2) by auto
    then show ?thesis using f2 e3 by metis
  next
    case False
    then have "r \<in> set [1, 2, 4, 5, 6]" using that by (auto simp: INTER_REFS_PER_FRAME_def)
    then show ?thesis using f2 e3 by metis
  qed
  have keep: "s3 ! r = s1 ! r" if "s1 ! r \<noteq> None" for r using f2 e3 that by metis
  define xs where "xs = map (\<lambda>r. case s3 ! r of Some m \<Rightarrow> int m | None \<Rightarrow> cm_remapped_ref_idx s ! r) [0..<INTER_REFS_PER_FRAME]"
  have sort: "sort_idx_of infos m = cur + ref_distance s m" "sort_idx_of infos m \<noteq> -1" if "hinted s m" for m
  proof -
    have m: "m < REF_FRAMES" using that by (simp add: hinted_def has_ref_def)
    then show "sort_idx_of infos m = cur + ref_distance s m" "sort_idx_of infos m \<noteq> -1"
      using at(3,4) [OF m] that by (simp_all add: sort_idx_of_def infos_def)
  qed
  have run: "av1_set_frame_refs lst gld (s, rb) = Some (Inr (), s\<lparr>cm_remapped_ref_idx := xs\<rparr>, rb)"
  proof -
    have chk: "\<not> (sort_idx_of infos lst = -1 \<or> cur \<le> sort_idx_of infos lst)" "\<not> (sort_idx_of infos gld = -1 \<or> cur \<le> sort_idx_of infos gld)"
      using sort [of lst] sort [of gld] early by auto
    show ?thesis
      unfolding av1_set_frame_refs_def d_get_def prod.case Let_def infos_def [symmetric] cur_def [symmetric] S_def [symmetric] f
        s0_def [symmetric] s1_def [symmetric] s2 s3_def [symmetric] d_seq_def d_bind_def d_check_def d_ret_def d_modify_def
        eqTrueI [OF chk(1)] eqTrueI [OF chk(2)] if_True option.case sum.case xs_def by (rule refl)
  qed
  have xsn: "xs ! r = int m \<and> hinted s m" if "r < INTER_REFS_PER_FRAME" "s3 ! r = Some m" for r m
  proof -
    have "length s3 = INTER_REFS_PER_FRAME" using e3 by (simp add: slots_ok_def)
    then have "Some m \<in> set s3" using that nth_mem [of r s3] by simp
    then show ?thesis using that e3 by (simp add: xs_def slots_ok_def)
  qed
  have all: "\<forall>i < INTER_REFS_PER_FRAME. \<exists>m. xs ! i = int m \<and> hinted s m" using full xsn by blast
  have first: "xs ! 0 = int lst" "xs ! 3 = int gld" using xsn [of 0 lst] xsn [of 3 gld] keep g1(1,2) by (simp_all add: INTER_REFS_PER_FRAME_def)
  have latest: "ref_distance s m \<le> ref_distance s (nat (xs ! 6))" if "hinted s m'" "0 \<le> ref_distance s m'" "hinted s m" for m m'
  proof -
    have m: "m < REF_FRAMES" "m' < REF_FRAMES" using that by (simp_all add: hinted_def has_ref_def)
    obtain j where j: "j < REF_FRAMES" "S ! j = infos ! m'" using so(4) [OF m(2)] by blast
    have "cur \<le> rf_sort_idx (S ! j)" using at(3) [OF m(2)] that j(2) by simp
    then have bwd: "fe + 1 \<le> int REF_FRAMES - 1" using fp(5) [OF j(1)] j(1) by auto
    have "s0 ! 6 = Some (rf_map_idx (S ! (REF_FRAMES - 1)))" unfolding s0_def by (rule fill_backward_altref [OF _ bwd]) simp
    then have "s3 ! 6 = Some (rf_map_idx (S ! (REF_FRAMES - 1)))" using g1(3) [of 6] keep [of 6] by simp
    then have x6: "xs ! 6 = int (rf_map_idx (S ! (REF_FRAMES - 1)))" "hinted s (rf_map_idx (S ! (REF_FRAMES - 1)))"
      using xsn [of 6] by (simp_all add: INTER_REFS_PER_FRAME_def)
    obtain i where i: "i < REF_FRAMES" "S ! i = infos ! m" using so(4) [OF m(1)] by blast
    have "rf_sort_idx (S ! i) \<le> rf_sort_idx (S ! (REF_FRAMES - 1))"
      using sorted_nth_mono [OF so(1), of i "REF_FRAMES - 1"] i(1) so(2) by (simp add: REF_FRAMES_def)
    then show ?thesis using at(3) [OF m(1)] i(2) that(3) so(3) [of "REF_FRAMES - 1"] at(3) [of "rf_map_idx (S ! (REF_FRAMES - 1))"] x6
      by (simp add: REF_FRAMES_def)
  qed
  then have "(\<exists>m. hinted s m \<and> 0 \<le> ref_distance s m) \<longrightarrow> (\<forall>m. hinted s m \<longrightarrow> ref_distance s m \<le> ref_distance s (nat (xs ! 6)))" by blast
  moreover have "length xs = INTER_REFS_PER_FRAME" by (simp add: xs_def)
  ultimately show ?thesis using run all first by (intro exI [of _ xs] conjI) assumption+
qed

end
