(* ===== verification/Decoder_Logic.thy ===== *)
theory Decoder_Logic
  imports Decoder Frame_Pool_Props Frame_Refs
begin

text \<open>
  A logic for the computations of the decoder, with a condition on the decoder before, one for
  every value returned, and one for errors. That a computation is not undefined is part of every
  judgement.
\<close>

section \<open>Judgements\<close>

definition triple :: "('s \<Rightarrow> bool) \<Rightarrow> ('s, 'a) comp \<Rightarrow> ('a \<Rightarrow> 's \<Rightarrow> bool) \<Rightarrow> ('s \<Rightarrow> bool) \<Rightarrow> bool" where
  "triple P m Q E \<longleftrightarrow> (\<forall>s rb. P s \<longrightarrow>
     (case m (s, rb) of None \<Rightarrow> False | Some (Inr x, s', rb') \<Rightarrow> Q x s' | Some (Inl e, s', rb') \<Rightarrow> E s'))"

named_theorems triple_intros

lemma t_ret: "(\<And>s. P s \<Longrightarrow> Q x s) \<Longrightarrow> triple P (d_ret x) Q E"
  by (simp add: triple_def d_ret_def)

lemma t_throw: "(\<And>s. P s \<Longrightarrow> E s) \<Longrightarrow> triple P (d_throw e) Q E"
  by (simp add: triple_def d_throw_def)

lemma t_bind: "triple P m R E \<Longrightarrow> (\<And>x. triple (R x) (g x) Q E) \<Longrightarrow> triple P (d_bind m g) Q E"
  unfolding triple_def d_bind_def by (fastforce split: option.splits sum.splits)

lemma t_seq: "triple P m (\<lambda>_. R) E \<Longrightarrow> triple R n Q E \<Longrightarrow> triple P (d_seq m n) Q E"
  unfolding d_seq_def by (rule t_bind)

lemma t_get: "(\<And>s0. P s0 \<Longrightarrow> triple (\<lambda>s. s = s0) (g s0) Q E) \<Longrightarrow> triple P (d_get g) Q E"
  by (simp add: triple_def d_get_def)

lemma t_modify: "(\<And>s. P s \<Longrightarrow> Q () (f s)) \<Longrightarrow> triple P (d_modify f) Q E"
  by (simp add: triple_def d_modify_def)

lemma t_try: "(\<And>s. P s \<Longrightarrow> \<exists>s'. f s = Some s' \<and> Q () s') \<Longrightarrow> triple P (d_try f) Q E"
  unfolding triple_def d_try_def by fastforce

lemma t_lift: "(\<And>s. P s \<Longrightarrow> \<exists>r s'. f s = Some (r, s') \<and> (case r of Inl e \<Rightarrow> E s' | Inr x \<Rightarrow> Q x s')) \<Longrightarrow> triple P (d_lift f) Q E"
  unfolding triple_def d_lift_def by (fastforce split: sum.splits)

lemma t_read: "(\<And>s v. P s \<Longrightarrow> field_range f v \<Longrightarrow> Q v s) \<Longrightarrow> (\<And>s. P s \<Longrightarrow> E s) \<Longrightarrow> triple P (d_read f) Q E"
  unfolding triple_def d_read_def by (auto split: prod.splits dest: read_field_range)

lemma t_check: "(\<And>s. P s \<Longrightarrow> b \<Longrightarrow> Q () s) \<Longrightarrow> (\<And>s. P s \<Longrightarrow> \<not> b \<Longrightarrow> E s) \<Longrightarrow> triple P (d_check b e) Q E"
  by (simp add: triple_def d_check_def d_ret_def d_throw_def)

lemma t_if: "(b \<Longrightarrow> triple P m Q E) \<Longrightarrow> (\<not> b \<Longrightarrow> triple P n Q E) \<Longrightarrow> triple P (if b then m else n) Q E"
  by simp

lemma t_when: "(b \<Longrightarrow> triple P m (\<lambda>_. Q) E) \<Longrightarrow> (\<And>s. P s \<Longrightarrow> \<not> b \<Longrightarrow> Q s) \<Longrightarrow> triple P (d_when b m) (\<lambda>_. Q) E"
  by (simp add: d_when_def t_ret)

lemma t_conseq: "triple P' m Q' E' \<Longrightarrow> (\<And>s. P s \<Longrightarrow> P' s) \<Longrightarrow> (\<And>x s. Q' x s \<Longrightarrow> Q x s) \<Longrightarrow> (\<And>s. E' s \<Longrightarrow> E s) \<Longrightarrow> triple P m Q E"
  unfolding triple_def by (fastforce split: option.splits sum.splits)

lemma t_each: "(\<And>i. i \<in> set is \<Longrightarrow> triple P (f i) (\<lambda>_. P) E) \<Longrightarrow> triple P (d_each f is) (\<lambda>_. P) E"
  by (induction "is") (auto intro!: t_ret t_seq [where R = P])

lemma t_fact: "(c \<Longrightarrow> triple P m Q E) \<Longrightarrow> triple (\<lambda>s. c \<and> P s) m Q E"
  by (auto simp: triple_def)

lemma t_false: "(\<And>s. \<not> P s) \<Longrightarrow> triple P m Q E"
  by (simp add: triple_def)

lemma t_ex: "(\<And>y. triple (P y) m Q E) \<Longrightarrow> triple (\<lambda>s. \<exists>y. P y s) m Q E"
  by (auto simp: triple_def)

section \<open>What a computation keeps\<close>

definition keeps :: "('s \<Rightarrow> bool) \<Rightarrow> ('s \<Rightarrow> bool) \<Rightarrow> ('s, 'a) comp \<Rightarrow> bool" where
  "keeps J E m \<longleftrightarrow> triple J m (\<lambda>_. J) E"

named_theorems keeps_intros

lemma keeps_ret [keeps_intros]: "keeps J E (d_ret x)"
  by (simp add: keeps_def t_ret)

lemma keeps_throw: "(\<And>s. J s \<Longrightarrow> E s) \<Longrightarrow> keeps J E (d_throw e)"
  by (simp add: keeps_def t_throw)

lemma keeps_bind: "keeps J E m \<Longrightarrow> (\<And>x. keeps J E (g x)) \<Longrightarrow> keeps J E (d_bind m g)"
  unfolding keeps_def by (rule t_bind)

lemma keeps_seq [keeps_intros]: "keeps J E m \<Longrightarrow> keeps J E n \<Longrightarrow> keeps J E (d_seq m n)"
  unfolding keeps_def by (rule t_seq)

lemma keeps_get [keeps_intros]: "(\<And>s. keeps J E (g s)) \<Longrightarrow> keeps J E (d_get g)"
  by (auto simp: keeps_def triple_def d_get_def)

lemma keeps_modify: "(\<And>s. J s \<Longrightarrow> J (f s)) \<Longrightarrow> keeps J E (d_modify f)"
  by (simp add: keeps_def t_modify)

lemma keeps_try: "(\<And>s. J s \<Longrightarrow> \<exists>s'. f s = Some s' \<and> J s') \<Longrightarrow> keeps J E (d_try f)"
  by (simp add: keeps_def t_try)

lemma keeps_read: "(\<And>s. J s \<Longrightarrow> E s) \<Longrightarrow> keeps J E (d_read f)"
  by (simp add: keeps_def t_read)

lemma keeps_bind_read: "(\<And>s. J s \<Longrightarrow> E s) \<Longrightarrow> (\<And>v. field_range f v \<Longrightarrow> keeps J E (g v)) \<Longrightarrow> keeps J E (d_bind (d_read f) g)"
  unfolding keeps_def by (rule t_bind [where R = "\<lambda>v s. field_range f v \<and> J s"], rule t_read) (simp_all add: t_fact)

lemma keeps_check: "(\<And>s. J s \<Longrightarrow> \<not> b \<Longrightarrow> E s) \<Longrightarrow> keeps J E (d_check b e)"
  by (simp add: keeps_def t_check)

lemma keeps_if [keeps_intros]: "(b \<Longrightarrow> keeps J E m) \<Longrightarrow> (\<not> b \<Longrightarrow> keeps J E n) \<Longrightarrow> keeps J E (if b then m else n)"
  by simp

lemma keeps_when [keeps_intros]: "(b \<Longrightarrow> keeps J E m) \<Longrightarrow> keeps J E (d_when b m)"
  by (simp add: d_when_def keeps_ret)

lemma keeps_let [keeps_intros]: "(\<And>x. x = a \<Longrightarrow> keeps J E (g x)) \<Longrightarrow> keeps J E (let x = a in g x)"
  by simp

lemma keeps_prod [keeps_intros]: "(\<And>x y. p = (x, y) \<Longrightarrow> keeps J E (g x y)) \<Longrightarrow> keeps J E (case p of (x, y) \<Rightarrow> g x y)"
  by (cases p) simp

lemma keeps_each [keeps_intros]: "(\<And>i. i \<in> set is \<Longrightarrow> keeps J E (f i)) \<Longrightarrow> keeps J E (d_each f is)"
  unfolding keeps_def by (rule t_each)

lemma keeps_triple: "keeps J E m \<Longrightarrow> triple J m (\<lambda>_. J) E"
  by (simp add: keeps_def)

end
