(* ===== verification/Decoder_Inv.thy ===== *)
theory Decoder_Inv
  imports Decoder_Logic
begin

text \<open>
  The invariant of the decoder between the steps of a frame: who owns the frames of the pool, what
  the current frame has, and the ranges of what the bitstream sets. Every operation on the pool keeps
  it.
\<close>

section \<open>Owners\<close>

definition slot_owner :: "nat option \<Rightarrow> nat multiset" where
  "slot_owner x = (case x of None \<Rightarrow> {#} | Some k \<Rightarrow> {#k#})"

lemma slot_owner_simps [simp]: "slot_owner None = {#}" "slot_owner (Some k) = {#k#}"
  by (simp_all add: slot_owner_def)

definition map_owners :: "nat option list \<Rightarrow> nat multiset" where
  "map_owners m = sum_list (map slot_owner m)"

definition owners :: "'c AV1Decoder \<Rightarrow> nat multiset" where
  "owners s = slot_owner (cm_cur_frame s) + map_owners (cm_ref_frame_map s) + mset (pbi_output_frames s)"

lemma sum_list_update_add:
  fixes xs :: "'a::comm_monoid_add list"
  shows "i < length xs \<Longrightarrow> sum_list (xs[i := x]) + xs ! i = sum_list xs + x"
  by (induction xs arbitrary: i) (auto simp: ac_simps split: nat.splits)

lemma map_owners_update: "i < length m \<Longrightarrow> map_owners (m[i := x]) + slot_owner (m ! i) = map_owners m + slot_owner x"
  using sum_list_update_add [of i "map slot_owner m" "slot_owner x"] by (simp add: map_owners_def map_update)

lemma map_owners_size: "size (map_owners m) \<le> length m"
  by (induction m) (auto simp: map_owners_def slot_owner_def split: option.splits)

lemma map_owners_nth: "i < length m \<Longrightarrow> m ! i = Some k \<Longrightarrow> k \<in># map_owners m"
  by (induction m arbitrary: i) (auto simp: map_owners_def nth_Cons split: nat.splits)

section \<open>Ranges\<close>

text \<open>The sequence header in use, and the values that index arrays.\<close>

definition seq_state_ok :: "dec_state \<Rightarrow> bool" where
  "seq_state_ok ds \<longleftrightarrow> arrays_ok (ds_seq_params ds) \<and> (sequence_header_ready ds \<longrightarrow> seq_valid (ds_seq_params ds))"

lemma seq_state_kept [simp]: "seq_state_ok (ds\<lparr>ds_error := e\<rparr>) = seq_state_ok ds" "seq_state_ok (ds\<lparr>sequence_header_changed := b\<rparr>) = seq_state_ok ds"
  by (simp_all add: seq_state_ok_def)

definition remapped_ok :: "int list \<Rightarrow> bool" where
  "remapped_ok xs \<longleftrightarrow> length xs = INTER_REFS_PER_FRAME \<and> (\<forall>x \<in> set xs. -1 \<le> x \<and> x < int REF_FRAMES)"

definition shape_ok :: "'c AV1Decoder \<Rightarrow> bool" where
  "shape_ok s \<longleftrightarrow> seq_state_ok (pbi_ds s) \<and> length (cm_ref_frame_map s) = REF_FRAMES \<and> remapped_ok (cm_remapped_ref_idx s) \<and>
     0 \<le> cf_refresh_frame_flags s \<and> cf_refresh_frame_flags s < 256 \<and>
     length (pbi_output_frames s) \<le> (if pbi_output_all_layers s \<noteq> 0 then MAX_NUM_SPATIAL_LAYERS else 1)"

lemma owners_bound: "shape_ok s \<Longrightarrow> size (owners s) \<le> 13"
  using map_owners_size [of "cm_ref_frame_map s"]
  by (auto simp: owners_def shape_ok_def REF_FRAMES_def MAX_NUM_SPATIAL_LAYERS_def slot_owner_def split: option.splits if_splits)

lemma remapped_invalid [simp]: "remapped_ok (replicate INTER_REFS_PER_FRAME INVALID_IDX)"
  by (simp add: remapped_ok_def INVALID_IDX_def INTER_REFS_PER_FRAME_def REF_FRAMES_def)

lemma remapped_update: "remapped_ok xs \<Longrightarrow> -1 \<le> x \<Longrightarrow> x < int REF_FRAMES \<Longrightarrow> remapped_ok (xs[i := x])"
  unfolding remapped_ok_def using set_update_subset_insert [of xs i x] by auto

lemma remapped_nth: "remapped_ok xs \<Longrightarrow> i < INTER_REFS_PER_FRAME \<Longrightarrow> -1 \<le> xs ! i \<and> xs ! i < int REF_FRAMES"
  by (simp add: remapped_ok_def)

text \<open>Every reference of the current frame is there.\<close>

definition refs_ok :: "'c AV1Decoder \<Rightarrow> bool" where
  "refs_ok s \<longleftrightarrow> (\<forall>i < INTER_REFS_PER_FRAME. 0 \<le> cm_remapped_ref_idx s ! i \<and> has_ref s (nat (cm_remapped_ref_idx s ! i)))"

lemma refs_ok_buf: "refs_ok s \<Longrightarrow> 1 \<le> r \<Longrightarrow> r \<le> 7 \<Longrightarrow> \<exists>k. get_ref_frame_buf s r = Some k"
proof -
  assume a: "refs_ok s" "1 \<le> r" "r \<le> 7"
  then have "0 \<le> cm_remapped_ref_idx s ! nat (r - 1) \<and> has_ref s (nat (cm_remapped_ref_idx s ! nat (r - 1)))"
    unfolding refs_ok_def by (auto simp: INTER_REFS_PER_FRAME_def)
  then show "\<exists>k. get_ref_frame_buf s r = Some k"
    using a(2,3) by (auto simp: get_ref_frame_buf_def get_ref_frame_map_idx_def has_ref_def INVALID_IDX_def Let_def)
qed

section \<open>Frames whose count and block stay\<close>

definition same_block :: "(RefCntBuffer \<Rightarrow> RefCntBuffer) \<Rightarrow> bool" where
  "same_block f \<longleftrightarrow> (\<forall>b. ref_count (f b) = ref_count b \<and> raw_frame_buffer (f b) = raw_frame_buffer b)"

lemma same_block_pool:
  assumes "same_block f"
  shows "frame_count (cm_pool (set_frame f k s)) = frame_count (cm_pool s)" "frame_block (cm_pool (set_frame f k s)) = frame_block (cm_pool s)"
    "length (frame_bufs (cm_pool (set_frame f k s))) = length (frame_bufs (cm_pool s))" "cb_priv (cm_pool (set_frame f k s)) = cb_priv (cm_pool s)"
proof -
  have "frame_bufs (cm_pool (set_frame f k s)) ! j = (if j = k \<and> j < length (frame_bufs (cm_pool s)) then f (frame_bufs (cm_pool s) ! k) else frame_bufs (cm_pool s) ! j)" for j
    by (cases "k < length (frame_bufs (cm_pool s))") (auto simp: set_frame_def pool_frame_def nth_list_update list_update_beyond)
  then show "frame_count (cm_pool (set_frame f k s)) = frame_count (cm_pool s)" "frame_block (cm_pool (set_frame f k s)) = frame_block (cm_pool s)"
    using assms by (auto simp: frame_count_def frame_block_def same_block_def)
  show "length (frame_bufs (cm_pool (set_frame f k s))) = length (frame_bufs (cm_pool s))" "cb_priv (cm_pool (set_frame f k s)) = cb_priv (cm_pool s)"
    by (simp_all add: set_frame_def)
qed

lemma set_frame_rest [simp]:
  "pbi_ds (set_frame f k s) = pbi_ds s" "cm_cur_frame (set_frame f k s) = cm_cur_frame s" "cm_ref_frame_map (set_frame f k s) = cm_ref_frame_map s"
  "cm_remapped_ref_idx (set_frame f k s) = cm_remapped_ref_idx s" "cf_refresh_frame_flags (set_frame f k s) = cf_refresh_frame_flags s"
  "pbi_output_frames (set_frame f k s) = pbi_output_frames s" "pbi_output_all_layers (set_frame f k s) = pbi_output_all_layers s"
  "pbi_need_resync (set_frame f k s) = pbi_need_resync s" "cf_frame_type (set_frame f k s) = cf_frame_type s"
  "ft_primary_ref_frame (set_frame f k s) = ft_primary_ref_frame s" "cm_show_existing_frame (set_frame f k s) = cm_show_existing_frame s"
  "pbi_seen_frame_header (set_frame f k s) = pbi_seen_frame_header s"
  by (simp_all add: set_frame_def)

section \<open>The invariant\<close>

context frame_source
begin

text \<open>The owners of the frames are the current frame, the references and the frames put out.\<close>

definition core :: "nat set \<Rightarrow> nat set \<Rightarrow> 'c AV1Decoder \<Rightarrow> bool" where
  "core G X s \<longleftrightarrow> shape_ok s \<and> pinv G X (owners s) (cm_pool s)"

text \<open>The current frame is nobody else's, and has a block or has none.\<close>

definition current :: "nat set \<Rightarrow> bool \<Rightarrow> 'c AV1Decoder \<Rightarrow> bool" where
  "current G filled s \<longleftrightarrow> core G {} s \<and>
     (\<exists>k. cm_cur_frame s = Some k \<and> count (owners s) k = 1 \<and> (fb_data (frame_block (cm_pool s) k) \<noteq> 0) = filled)"

text \<open>There is a current frame, perhaps one that is shown again.\<close>

definition shared :: "nat set \<Rightarrow> 'c AV1Decoder \<Rightarrow> bool" where
  "shared G s \<longleftrightarrow> core G {} s \<and> cm_cur_frame s \<noteq> None"

text \<open>After an error, the block of the current frame may have been given back already.\<close>

definition failed :: "nat set \<Rightarrow> 'c AV1Decoder \<Rightarrow> bool" where
  "failed G s \<longleftrightarrow> (\<exists>k. cm_cur_frame s = Some k \<and> (core G {} s \<or> core G {k} s \<and> count (owners s) k = 1))"

lemma current_shared: "current G f s \<Longrightarrow> shared G s"
  by (auto simp: current_def shared_def)

lemma shared_failed: "shared G s \<Longrightarrow> failed G s"
  by (auto simp: shared_def failed_def)

lemma current_failed: "current G f s \<Longrightarrow> failed G s"
  by (simp add: current_shared shared_failed)

lemmas inv_defs = core_def current_def shared_def failed_def shape_ok_def owners_def

lemma set_frame_core: "same_block f \<Longrightarrow> core G X (set_frame f k s) = core G X s"
  using pinv_same [OF same_block_pool(3,4,1,2)] by (simp add: core_def shape_ok_def owners_def)

lemma set_frame_current: "same_block f \<Longrightarrow> current G filled (set_frame f k s) = current G filled s"
  by (simp add: current_def set_frame_core same_block_pool owners_def)

lemma set_frame_shared: "same_block f \<Longrightarrow> shared G (set_frame f k s) = shared G s"
  by (simp add: shared_def set_frame_core)

end

section \<open>References\<close>

context frame_source
begin

lemma pinv_cong:
  assumes "length (frame_bufs p') = length (frame_bufs p)" "cb_priv p' = cb_priv p"
    "\<And>k. k < FRAME_BUFFERS \<Longrightarrow> frame_count p' k = frame_count p k \<and> frame_block p' k = frame_block p k"
  shows "pinv G X os p' = pinv G X os p"
  unfolding pinv_def pool_ok_def counts_ok_def blocks_ok_def blocks_named_def blocks_apart_def blocks_out_def
  using assms by (simp cong: conj_cong)

text \<open>A reference is dropped.\<close>

lemma replace_none:
  assumes "core G {} s" "i < REF_FRAMES"
  shows "\<exists>p'. replace_ref cbs i None s = Some (s\<lparr>cm_pool := p', cm_ref_frame_map := (cm_ref_frame_map s)[i := None]\<rparr>) \<and>
    core G {} (s\<lparr>cm_pool := p', cm_ref_frame_map := (cm_ref_frame_map s)[i := None]\<rparr>) \<and>
    (\<forall>j. cm_ref_frame_map s ! i \<noteq> Some j \<longrightarrow> frame_block p' j = frame_block (cm_pool s) j)"
proof -
  have len: "length (cm_ref_frame_map s) = REF_FRAMES" using assms(1) by (simp add: core_def shape_ok_def)
  define os where "os = slot_owner (cm_cur_frame s) + map_owners ((cm_ref_frame_map s)[i := None]) + mset (pbi_output_frames s)"
  have os: "owners s = os + slot_owner (cm_ref_frame_map s ! i)"
    using map_owners_update [of i "cm_ref_frame_map s" None] len assms(2) by (simp add: owners_def os_def ac_simps)
  have "\<exists>p'. decrease_ref_count cbs (cm_ref_frame_map s ! i) (cm_pool s) = Some p' \<and> pinv G {} os p' \<and>
      (\<forall>j. cm_ref_frame_map s ! i \<noteq> Some j \<longrightarrow> frame_block p' j = frame_block (cm_pool s) j)"
  proof (cases "cm_ref_frame_map s ! i")
    case None
    then show ?thesis using assms(1) os by (simp add: core_def decrease_ref_count_def)
  next
    case (Some k)
    then have "pinv G {} (add_mset k os) (cm_pool s)" using assms(1) os by (simp add: core_def)
    from decrease_keeps [OF this] show ?thesis using Some by (auto split: if_splits)
  qed
  then show ?thesis using assms(1) by (auto simp: replace_ref_def core_def shape_ok_def owners_def os_def)
qed

lemma current_map:
  assumes "current G f s" "cm_cur_frame s = Some k" "i < REF_FRAMES"
  shows "cm_ref_frame_map s ! i \<noteq> Some k"
proof
  assume m: "cm_ref_frame_map s ! i = Some k"
  have "length (cm_ref_frame_map s) = REF_FRAMES" using assms(1) by (simp add: inv_defs)
  then have "k \<in># map_owners (cm_ref_frame_map s)" using map_owners_nth [OF _ m] assms(3) by simp
  then have "count (map_owners (cm_ref_frame_map s)) k \<ge> 1" by simp
  then have "count (owners s) k \<noteq> 1" using assms(2) by (simp add: owners_def)
  then show False using assms(1,2) by (simp add: current_def)
qed

lemma current_replace_none:
  assumes "current G f s" "i < REF_FRAMES"
  shows "\<exists>p'. replace_ref cbs i None s = Some (s\<lparr>cm_pool := p', cm_ref_frame_map := (cm_ref_frame_map s)[i := None]\<rparr>) \<and>
    current G f (s\<lparr>cm_pool := p', cm_ref_frame_map := (cm_ref_frame_map s)[i := None]\<rparr>)"
proof -
  have c: "core G {} s" using assms(1) by (simp add: current_def)
  obtain k where k: "cm_cur_frame s = Some k" "count (owners s) k = 1" "(fb_data (frame_block (cm_pool s) k) \<noteq> 0) = f"
    using assms(1) by (auto simp: current_def)
  obtain p' where p': "replace_ref cbs i None s = Some (s\<lparr>cm_pool := p', cm_ref_frame_map := (cm_ref_frame_map s)[i := None]\<rparr>)"
    "core G {} (s\<lparr>cm_pool := p', cm_ref_frame_map := (cm_ref_frame_map s)[i := None]\<rparr>)"
    "\<forall>j. cm_ref_frame_map s ! i \<noteq> Some j \<longrightarrow> frame_block p' j = frame_block (cm_pool s) j"
    using replace_none [OF c assms(2)] by blast
  have "frame_block p' k = frame_block (cm_pool s) k" using p'(3) current_map [OF assms(1) k(1) assms(2)] by blast
  moreover have "map_owners ((cm_ref_frame_map s)[i := None]) + slot_owner (cm_ref_frame_map s ! i) = map_owners (cm_ref_frame_map s)"
    using map_owners_update [of i "cm_ref_frame_map s" None] c assms(2) by (simp add: core_def shape_ok_def)
  then have "count (map_owners ((cm_ref_frame_map s)[i := None])) k \<le> count (map_owners (cm_ref_frame_map s)) k" by (metis count_union le_add1)
  then have "count (owners (s\<lparr>cm_pool := p', cm_ref_frame_map := (cm_ref_frame_map s)[i := None]\<rparr>)) k = 1"
    using k(1,2) by (simp add: owners_def)
  ultimately show ?thesis using p'(1,2) k(1,3) by (auto simp: current_def)
qed

text \<open>All references are dropped.\<close>

definition refs_dropped :: "'c AV1Decoder \<Rightarrow> 'c AV1Decoder \<Rightarrow> bool" where
  "refs_dropped s s' \<longleftrightarrow> (\<exists>p m. s' = s\<lparr>cm_pool := p, cm_ref_frame_map := m\<rparr>)"

lemma reset_refs_current:
  "current G f s \<Longrightarrow> set js \<subseteq> {..<REF_FRAMES} \<Longrightarrow> \<exists>s'. reset_refs cbs js s = Some s' \<and> current G f s' \<and> refs_dropped s s'"
proof (induction js arbitrary: s)
  case Nil
  then show ?case by (auto simp: refs_dropped_def intro!: exI [of _ "cm_pool s"] exI [of _ "cm_ref_frame_map s"])
next
  case (Cons i js)
  then obtain p' where p': "replace_ref cbs i None s = Some (s\<lparr>cm_pool := p', cm_ref_frame_map := (cm_ref_frame_map s)[i := None]\<rparr>)"
    "current G f (s\<lparr>cm_pool := p', cm_ref_frame_map := (cm_ref_frame_map s)[i := None]\<rparr>)"
    using current_replace_none [of G f s i] by auto
  from Cons.IH [OF p'(2)] Cons.prems(2) obtain s' where
    "reset_refs cbs js (s\<lparr>cm_pool := p', cm_ref_frame_map := (cm_ref_frame_map s)[i := None]\<rparr>) = Some s'" "current G f s'"
    "refs_dropped (s\<lparr>cm_pool := p', cm_ref_frame_map := (cm_ref_frame_map s)[i := None]\<rparr>) s'"
    by auto
  then show ?case using p'(1) by (auto simp: refs_dropped_def)
qed

lemma reset_map_current: "current G f s \<Longrightarrow> \<exists>s'. reset_ref_frame_map cbs s = Some s' \<and> current G f s' \<and> refs_dropped s s'"
  unfolding reset_ref_frame_map_def by (rule reset_refs_current) auto

text \<open>A frame shown again becomes the current frame; the new frame goes back unused.\<close>

lemma take_existing_shared:
  assumes "current G False s" "m < REF_FRAMES" "cm_ref_frame_map s ! m = Some k"
  shows "shared G (take_existing k s)"
proof -
  obtain j where j: "cm_cur_frame s = Some j" "count (owners s) j = 1" "fb_data (frame_block (cm_pool s) j) = 0"
    and c: "shape_ok s" "pinv G {} (owners s) (cm_pool s)"
    using assms(1) by (auto simp: current_def core_def)
  define os where "os = map_owners (cm_ref_frame_map s) + mset (pbi_output_frames s)"
  have os: "owners s = add_mset j os" using j(1) by (simp add: owners_def os_def)
  define p where "p = add_ref (-1) j (cm_pool s)"
  have p: "pinv G {} os p" unfolding p_def using c(2) j(3) os by (intro pinv_drop_owner) auto
  have "k \<in># os" using map_owners_nth [OF _ assms(3)] assms(2) c(1) by (simp add: os_def shape_ok_def)
  then have "k < FRAME_BUFFERS" using pinv_owner [OF p] by simp
  then have "pinv G {} (add_mset k os) (add_ref 1 k p)" by (rule pinv_add_owner [OF p])
  then show ?thesis using c(1) j(1)
    by (simp add: shared_def core_def shape_ok_def owners_def take_existing_def assign_frame_buffer_p_def os_def flip: p_def)
qed

text \<open>What a new sequence does to the references and to the frames.\<close>

lemma reset_frame_buffers_current:
  assumes "current G f s"
  shows "\<exists>s' p m. reset_frame_buffers cbs clear s = Some s' \<and> current G f s' \<and> s' = s\<lparr>cm_pool := p, cm_ref_frame_map := m\<rparr>"
proof -
  obtain s1 where s1: "reset_ref_frame_map cbs s = Some s1" "current G f s1" "refs_dropped s s1" using reset_map_current [OF assms] by blast
  define bufs where "bufs = map (\<lambda>i. let b = frame_bufs (cm_pool s1) ! i in
       if ref_count b > 0 \<and> cm_cur_frame s1 \<noteq> Some i then b
       else b\<lparr>rc_order_hint := 0, rc_ref_order_hints := replicate INTER_REFS_PER_FRAME 0\<rparr>) [0..<length (frame_bufs (cm_pool s1))]"
  define p1 where "p1 = (cm_pool s1)\<lparr>frame_bufs := bufs\<rparr>"
  define s' where "s' = s1\<lparr>cm_pool := p1\<lparr>cb_priv := clear (cb_priv p1)\<rparr>\<rparr>"
  have run: "reset_frame_buffers cbs clear s = Some s'" using s1(1) by (simp add: reset_frame_buffers_def s'_def p1_def bufs_def Let_def)
  obtain k where k: "cm_cur_frame s1 = Some k" "count (owners s1) k = 1" "(fb_data (frame_block (cm_pool s1) k) \<noteq> 0) = f"
    and c: "shape_ok s1" "pinv G {} (owners s1) (cm_pool s1)"
    using s1(2) by (auto simp: current_def core_def)
  have same: "ref_count (bufs ! j) = ref_count (frame_bufs (cm_pool s1) ! j) \<and> raw_frame_buffer (bufs ! j) = raw_frame_buffer (frame_bufs (cm_pool s1) ! j)"
    if "j < FRAME_BUFFERS" for j
    using that c(2) by (simp add: bufs_def Let_def pinv_def)
  have "length bufs = length (frame_bufs (cm_pool s1))" by (simp add: bufs_def)
  then have "pinv G {} (owners s1) p1"
    using c(2) same pinv_cong [of p1 "cm_pool s1"] by (simp add: p1_def frame_count_def frame_block_def)
  then have "pinv G {} (owners s1) (p1\<lparr>cb_priv := clear (cb_priv p1)\<rparr>)" by (rule clear_keeps)
  moreover have "frame_block (p1\<lparr>cb_priv := clear (cb_priv p1)\<rparr>) k = frame_block (cm_pool s1) k"
    using same [of k] pinv_owner [OF c(2), of k] k(2) by (simp add: p1_def frame_block_def flip: count_greater_zero_iff)
  ultimately have "current G f s'" using k c(1) by (auto simp: s'_def current_def core_def shape_ok_def owners_def)
  moreover obtain p m where "s1 = s\<lparr>cm_pool := p, cm_ref_frame_map := m\<rparr>" using s1(3) by (auto simp: refs_dropped_def)
  then have "s' = s\<lparr>cm_pool := p1\<lparr>cb_priv := clear (cb_priv p1)\<rparr>, cm_ref_frame_map := m\<rparr>" by (simp add: s'_def)
  ultimately show ?thesis using run by blast
qed

end

section \<open>Memory and the end of a frame\<close>

context frame_source
begin

lemma pool_core: "core G X (s\<lparr>cm_pool := p\<rparr>) \<longleftrightarrow> shape_ok s \<and> pinv G X (owners s) p"
  by (simp add: core_def shape_ok_def owners_def)

lemma owners_pool [simp]: "owners (s\<lparr>cm_pool := p\<rparr>) = owners s"
  by (simp add: owners_def)

text \<open>Memory for the current frame; \<open>stale\<close> when its old block was given back just before.\<close>

lemma current_memory:
  assumes k: "cm_cur_frame s = Some k" "count (owners s) k = 1" and c: "if stale then core G {k} s else current G False s"
  shows "\<exists>e p. realloc_pool_frame cbs pick k w h sx sy high border align (cm_pool s) = Some (e, p) \<and>
    (if e = AOM_CODEC_OK then current G True (s\<lparr>cm_pool := p\<rparr>) else failed G (s\<lparr>cm_pool := p\<rparr>))"
proof -
  have own: "k \<in># owners s" using k(2) by (simp flip: count_greater_zero_iff)
  define X where "X = (if stale then {k} else {})"
  have X: "shape_ok s" "pinv G X (owners s) (cm_pool s)" "X = {} \<and> fb_data (frame_block (cm_pool s) k) = 0 \<or> X = {k}"
    using c k(1) by (auto simp: X_def core_def current_def split: if_splits)
  obtain e p where r: "realloc_pool_frame cbs pick k w h sx sy high border align (cm_pool s) = Some (e, p)"
    "if e = AOM_CODEC_OK then pinv G {} (owners s) p \<and> fb_data (frame_block p k) \<noteq> 0 else pinv G X (owners s) p \<or> pinv G {} (owners s) p"
    using realloc_keeps [OF X(2) own X(3)] by blast
  show ?thesis
  proof (cases "e = AOM_CODEC_OK")
    case True
    then show ?thesis using r X(1) k by (auto simp: current_def pool_core)
  next
    case False
    then have "core G {} (s\<lparr>cm_pool := p\<rparr>) \<or> core G {k} (s\<lparr>cm_pool := p\<rparr>)" using r(2) X(1) by (auto simp: pool_core X_def split: if_splits)
    then show ?thesis using r False k by (auto simp: failed_def)
  qed
qed

text \<open>The block of the current frame is given back before a larger one is asked for.\<close>

lemma current_give_back:
  assumes "current G True s" "cm_cur_frame s = Some k"
  shows "\<exists>c. release_fb_cb cbs (cb_priv (cm_pool s)) (raw_frame_buffer (pool_frame s k)) = Some (0, c) \<and>
    core G {k} (s\<lparr>cm_pool := (cm_pool s)\<lparr>cb_priv := c\<rparr>\<rparr>) \<and> count (owners s) k = 1"
proof -
  have c: "shape_ok s" "pinv G {} (owners s) (cm_pool s)" "count (owners s) k = 1" "fb_data (frame_block (cm_pool s) k) \<noteq> 0"
    using assms by (auto simp: current_def core_def)
  have own: "k \<in># owners s" using c(3) by (simp flip: count_greater_zero_iff)
  from give_back_keeps [OF c(2) own c(4)] show ?thesis using c(1,3) by (simp add: pool_core frame_block_def pool_frame_def)
qed

text \<open>The current frame is dropped, also after an error.\<close>

lemma drop_frame_owner:
  assumes "pinv G {} (add_mset k os) (cm_pool s)"
  shows "\<exists>p. drop_frame cbs (Some k) s = Some (s\<lparr>cm_pool := p\<rparr>) \<and> pinv G {} os p"
  using decrease_keeps [OF assms] by (auto simp: drop_frame_def split: if_splits)

lemma mark_corrupted_same: "same_block mark_corrupted"
  by (simp add: same_block_def mark_corrupted_def)

lemma release_current_ok:
  assumes "failed G s"
  shows "\<exists>s'. release_current_frame cbs s = Some s' \<and> core G {} s' \<and> cm_cur_frame s' = None"
proof -
  obtain k where k: "cm_cur_frame s = Some k" "core G {} s \<or> core G {k} s \<and> count (owners s) k = 1" using assms by (auto simp: failed_def)
  define os where "os = map_owners (cm_ref_frame_map s) + mset (pbi_output_frames s)"
  have os: "owners s = add_mset k os" using k(1) by (simp add: owners_def os_def)
  define t where "t = set_frame mark_corrupted k s"
  have t: "core G X t = core G X s" "cm_cur_frame t = Some k" "owners t = add_mset k os" for X
    using set_frame_core [OF mark_corrupted_same] k(1) os by (simp_all add: t_def owners_def)
  obtain X where X: "pinv G X (add_mset k os) (cm_pool t)" "X = {} \<or> X = {k} \<and> k \<notin># os"
    using k(2) t by (auto simp: core_def os not_in_iff)
  obtain p where p: "decrease_ref_count cbs (Some k) (cm_pool t) = Some p" "pinv G {} os p"
    using decrease_keeps [OF X(1)] X(2) by (auto split: if_splits)
  have "shape_ok t" using k(2) t(1) by (auto simp: core_def)
  then have "core G {} (t\<lparr>cm_pool := p, cm_cur_frame := None\<rparr>)"
    using p(2) by (simp add: core_def shape_ok_def owners_def os_def t_def)
  moreover have "release_current_frame cbs s = Some (t\<lparr>cm_pool := p, cm_cur_frame := None\<rparr>)"
    using k(1) t(2) p(1) by (simp add: release_current_frame_def set_cur_def drop_frame_def flip: t_def)
  ultimately show ?thesis by auto
qed

text \<open>There is always a frame for the next picture.\<close>

lemma new_frame_ok:
  assumes "core G {} s" "cm_cur_frame s = None"
  shows "\<exists>k p. assign_cur_frame_new_fb s = (True, s\<lparr>cm_cur_frame := Some k, cm_pool := p\<rparr>) \<and> current G False (s\<lparr>cm_cur_frame := Some k, cm_pool := p\<rparr>)"
proof -
  have c: "shape_ok s" "pinv G {} (owners s) (cm_pool s)" using assms(1) by (simp_all add: core_def)
  have "size (owners s) < FRAME_BUFFERS" using owners_bound [OF c(1)] by (simp add: FRAME_BUFFERS_def REF_FRAMES_def INTER_REFS_PER_FRAME_def)
  from get_free_keeps [OF c(2) this] obtain k p where k: "get_free_fb (cm_pool s) = (int k, p)" "k < FRAME_BUFFERS" "k \<notin># owners s"
    "pinv G {} (add_mset k (owners s)) p" "frame_block p = frame_block (cm_pool s)" by blast
  have "fb_data (frame_block p k) = 0" using pinv_unowned [OF c(2) k(2,3)] k(5) by simp
  moreover have "owners (s\<lparr>cm_cur_frame := Some k, cm_pool := p\<rparr>) = add_mset k (owners s)" using assms(2) by (simp add: owners_def)
  ultimately have "current G False (s\<lparr>cm_cur_frame := Some k, cm_pool := p\<rparr>)"
    using c(1) k(3,4) by (simp add: current_def core_def shape_ok_def not_in_iff)
  moreover have "assign_cur_frame_new_fb s = (True, s\<lparr>cm_cur_frame := Some k, cm_pool := p\<rparr>)"
    using assms(2) k(1) by (simp add: assign_cur_frame_new_fb_def INVALID_IDX_def)
  ultimately show ?thesis by blast
qed

end

section \<open>The references after a frame\<close>

context frame_source
begin

text \<open>The current frame replaces a reference.\<close>

lemma refresh_step:
  assumes "core G {} s" "cm_cur_frame s = Some cur" "i < REF_FRAMES"
  shows "\<exists>p m. map_option (\<lambda>s. s\<lparr>cm_pool := add_ref 1 cur (cm_pool s)\<rparr>) (replace_ref cbs i (Some cur) s) =
      Some (s\<lparr>cm_pool := p, cm_ref_frame_map := m\<rparr>) \<and> core G {} (s\<lparr>cm_pool := p, cm_ref_frame_map := m\<rparr>)"
proof -
  obtain p where p: "decrease_ref_count cbs (cm_ref_frame_map s ! i) (cm_pool s) = Some p"
    "core G {} (s\<lparr>cm_pool := p, cm_ref_frame_map := (cm_ref_frame_map s)[i := None]\<rparr>)"
    using replace_none [OF assms(1,3)] by (auto simp: replace_ref_def)
  define os where "os = owners (s\<lparr>cm_pool := p, cm_ref_frame_map := (cm_ref_frame_map s)[i := None]\<rparr>)"
  have P: "pinv G {} os p" using p(2) by (simp add: core_def os_def)
  have "cur \<in># os" using assms(2) by (simp add: os_def owners_def)
  then have "cur < FRAME_BUFFERS" using pinv_owner [OF P] by simp
  then have P2: "pinv G {} (add_mset cur os) (add_ref 1 cur p)" by (rule pinv_add_owner [OF P])
  have len: "length (cm_ref_frame_map s) = REF_FRAMES" using assms(1) by (simp add: core_def shape_ok_def)
  have "map_owners ((cm_ref_frame_map s)[i := Some cur]) = add_mset cur (map_owners ((cm_ref_frame_map s)[i := None]))"
    using map_owners_update [of i "(cm_ref_frame_map s)[i := None]" "Some cur"] len assms(3) by simp
  then have "core G {} (s\<lparr>cm_pool := add_ref 1 cur p, cm_ref_frame_map := (cm_ref_frame_map s)[i := Some cur]\<rparr>)"
    using P2 assms(1) by (simp add: core_def shape_ok_def owners_def os_def)
  then show ?thesis using p(1)
    by (intro exI [of _ "add_ref 1 cur p"] exI [of _ "(cm_ref_frame_map s)[i := Some cur]"]) (simp add: replace_ref_def)
qed

lemma refresh_ok:
  "core G {} s \<Longrightarrow> cm_cur_frame s = Some cur \<Longrightarrow> j + n = REF_FRAMES \<Longrightarrow> m < 2 ^ n \<Longrightarrow>
    \<exists>p map'. refresh_refs cbs cur m [j..<REF_FRAMES] s = Some (s\<lparr>cm_pool := p, cm_ref_frame_map := map'\<rparr>) \<and>
      core G {} (s\<lparr>cm_pool := p, cm_ref_frame_map := map'\<rparr>)"
proof (induction n arbitrary: j m s)
  case 0
  then have j: "j = REF_FRAMES" "m = 0" by simp_all
  show ?case unfolding j using 0(1) by (intro exI [of _ "cm_pool s"] exI [of _ "cm_ref_frame_map s"]) simp
next
  case (Suc n)
  have js: "[j..<REF_FRAMES] = j # [Suc j..<REF_FRAMES]" "j < REF_FRAMES" using Suc.prems(3) by (simp_all add: upt_rec)
  have same: "s\<lparr>cm_pool := cm_pool s, cm_ref_frame_map := cm_ref_frame_map s\<rparr> = s" by simp
  show ?case
  proof (cases "m = 0")
    case True
    then show ?thesis using Suc.prems(1) js(1) by (intro exI [of _ "cm_pool s"] exI [of _ "cm_ref_frame_map s"]) simp
  next
    case False
    obtain p1 m1 where s1: "(if odd m then map_option (\<lambda>s. s\<lparr>cm_pool := add_ref 1 cur (cm_pool s)\<rparr>) (replace_ref cbs j (Some cur) s) else Some s) =
        Some (s\<lparr>cm_pool := p1, cm_ref_frame_map := m1\<rparr>)" "core G {} (s\<lparr>cm_pool := p1, cm_ref_frame_map := m1\<rparr>)"
    proof (cases "odd m")
      case True
      then show ?thesis using that refresh_step [OF Suc.prems(1,2) js(2)] by auto
    next
      case False
      then show ?thesis using that [of "cm_ref_frame_map s" "cm_pool s"] Suc.prems(1) by simp
    qed
    have "m div 2 < 2 ^ n" using Suc.prems(4) by auto
    then obtain p' m' where "refresh_refs cbs cur (m div 2) [Suc j..<REF_FRAMES] (s\<lparr>cm_pool := p1, cm_ref_frame_map := m1\<rparr>) =
        Some (s\<lparr>cm_pool := p1, cm_ref_frame_map := m1, cm_pool := p', cm_ref_frame_map := m'\<rparr>)"
        "core G {} (s\<lparr>cm_pool := p1, cm_ref_frame_map := m1, cm_pool := p', cm_ref_frame_map := m'\<rparr>)"
      using Suc.IH [OF s1(2), of "Suc j" "m div 2"] Suc.prems(2,3) by auto
    then show ?thesis using s1(1) False by (simp add: js(1)) blast
  qed
qed

text \<open>The current frame ends: shown, kept as a reference, or dropped.\<close>

lemma put_out_ok:
  assumes "core G {} s" "cm_cur_frame s = Some cur"
  shows "\<exists>s'. (if cm_show_existing_frame s \<noteq> 0 \<or> cm_show_frame s \<noteq> 0 then
                   if pbi_output_all_layers s \<noteq> 0 then
                     if length (pbi_output_frames s) \<ge> MAX_NUM_SPATIAL_LAYERS then
                       map_option (\<lambda>s. s\<lparr>pbi_ds := (pbi_ds s)\<lparr>ds_error := AOM_CODEC_UNSUP_BITSTREAM\<rparr>\<rparr>)
                         (drop_frame cbs (Some cur) (set_frame mark_corrupted cur s))
                     else Some (s\<lparr>pbi_output_frames := pbi_output_frames s @ [cur]\<rparr>)
                   else
                     do {
                       s \<leftarrow> (if pbi_output_frames s \<noteq> [] then drop_frame cbs (Some (pbi_output_frames s ! 0)) s else Some s);
                       Some (s\<lparr>pbi_output_frames := [cur]\<rparr>)
                     }
                 else drop_frame cbs (Some cur) s) = Some s' \<and> core G {} (s'\<lparr>cm_cur_frame := None\<rparr>)"
proof -
  have c: "shape_ok s" "pinv G {} (owners s) (cm_pool s)" using assms(1) by (simp_all add: core_def)
  define os where "os = map_owners (cm_ref_frame_map s) + mset (pbi_output_frames s)"
  have os: "owners s = add_mset cur os" using assms(2) by (simp add: owners_def os_def)
  have dropped: "\<exists>s'. drop_frame cbs (Some cur) s = Some s' \<and> core G {} (s'\<lparr>cm_cur_frame := None\<rparr>)"
  proof -
    obtain p where "drop_frame cbs (Some cur) s = Some (s\<lparr>cm_pool := p\<rparr>)" "pinv G {} os p" using drop_frame_owner c(2) os by metis
    then show ?thesis using c(1) by (simp add: core_def shape_ok_def owners_def os_def)
  qed
  have refused: "\<exists>s'. map_option (\<lambda>s. s\<lparr>pbi_ds := (pbi_ds s)\<lparr>ds_error := AOM_CODEC_UNSUP_BITSTREAM\<rparr>\<rparr>)
      (drop_frame cbs (Some cur) (set_frame mark_corrupted cur s)) = Some s' \<and> core G {} (s'\<lparr>cm_cur_frame := None\<rparr>)"
  proof -
    define t where "t = set_frame mark_corrupted cur s"
    have "core G {} t" using set_frame_core [OF mark_corrupted_same] assms(1) by (simp add: t_def)
    then have t: "pinv G {} (add_mset cur os) (cm_pool t)" "shape_ok t" using os by (simp_all add: core_def t_def owners_def)
    obtain p where "drop_frame cbs (Some cur) t = Some (t\<lparr>cm_pool := p\<rparr>)" "pinv G {} os p" using drop_frame_owner [OF t(1)] by metis
    then show ?thesis using t(2) by (simp add: core_def shape_ok_def owners_def os_def seq_ok_def flip: t_def) (simp add: t_def)
  qed
  have queued: "core G {} (s\<lparr>pbi_output_frames := pbi_output_frames s @ [cur], cm_cur_frame := None\<rparr>)"
    if "pbi_output_all_layers s \<noteq> 0" "\<not> length (pbi_output_frames s) \<ge> MAX_NUM_SPATIAL_LAYERS"
    using c that assms(2) by (simp add: core_def shape_ok_def owners_def os_def)
  have replaced: "\<exists>s'. do {
         s \<leftarrow> (if pbi_output_frames s \<noteq> [] then drop_frame cbs (Some (pbi_output_frames s ! 0)) s else Some s);
         Some (s\<lparr>pbi_output_frames := [cur]\<rparr>)
       } = Some s' \<and> core G {} (s'\<lparr>cm_cur_frame := None\<rparr>)" if "pbi_output_all_layers s = 0"
  proof (cases "pbi_output_frames s")
    case Nil
    then show ?thesis using c that assms(2) by (simp add: core_def shape_ok_def owners_def)
  next
    case (Cons out rest)
    then have rest: "rest = []" using c(1) that by (simp add: shape_ok_def)
    have "pinv G {} (add_mset out (add_mset cur (map_owners (cm_ref_frame_map s)))) (cm_pool s)"
      using c(2) Cons rest assms(2) by (simp add: owners_def add_mset_commute)
    from drop_frame_owner [OF this] obtain p where "drop_frame cbs (Some out) s = Some (s\<lparr>cm_pool := p\<rparr>)"
      "pinv G {} (add_mset cur (map_owners (cm_ref_frame_map s))) p" by blast
    then show ?thesis using Cons c(1) that by (simp add: core_def shape_ok_def owners_def)
  qed
  show ?thesis using dropped refused queued replaced by auto
qed

lemma update_frame_buffers_ok:
  assumes "shared G s"
  shows "\<exists>s'. update_frame_buffers cbs decoded s = Some s' \<and> core G {} s' \<and> cm_cur_frame s' = None"
proof -
  obtain cur where cur: "cm_cur_frame s = Some cur" "core G {} s" using assms by (auto simp: shared_def)
  have flags: "nat (cf_refresh_frame_flags s) < 2 ^ 8" using cur(2) by (auto simp: core_def shape_ok_def)
  have fin: "core G {} (s'\<lparr>cm_cur_frame := None, cm_remapped_ref_idx := if pbi_camera_frame_header_ready s' = 0
       then replicate INTER_REFS_PER_FRAME INVALID_IDX else cm_remapped_ref_idx s'\<rparr>)" if "core G {} (s'\<lparr>cm_cur_frame := None\<rparr>)" for s'
    using that by (simp add: core_def shape_ok_def owners_def)
  show ?thesis
  proof (cases decoded)
    case True
    obtain s1 where s1: "(if pbi_camera_frame_header_ready s = 0
         then refresh_refs cbs cur (nat (cf_refresh_frame_flags s)) [0..<REF_FRAMES] s else Some s) = Some s1" "core G {} s1" "cm_cur_frame s1 = Some cur"
    proof (cases "pbi_camera_frame_header_ready s = 0")
      case True
      then show ?thesis using that refresh_ok [OF cur(2,1), of 0 8 "nat (cf_refresh_frame_flags s)"] flags cur(1) by (auto simp: REF_FRAMES_def)
    qed (use that cur in simp)
    from put_out_ok [OF s1(2,3)] obtain s2 where s2: "(if cm_show_existing_frame s1 \<noteq> 0 \<or> cm_show_frame s1 \<noteq> 0 then
                   if pbi_output_all_layers s1 \<noteq> 0 then
                     if length (pbi_output_frames s1) \<ge> MAX_NUM_SPATIAL_LAYERS then
                       map_option (\<lambda>s. s\<lparr>pbi_ds := (pbi_ds s)\<lparr>ds_error := AOM_CODEC_UNSUP_BITSTREAM\<rparr>\<rparr>)
                         (drop_frame cbs (Some cur) (set_frame mark_corrupted cur s1))
                     else Some (s1\<lparr>pbi_output_frames := pbi_output_frames s1 @ [cur]\<rparr>)
                   else
                     do {
                       s \<leftarrow> (if pbi_output_frames s1 \<noteq> [] then drop_frame cbs (Some (pbi_output_frames s1 ! 0)) s1 else Some s1);
                       Some (s\<lparr>pbi_output_frames := [cur]\<rparr>)
                     }
                 else drop_frame cbs (Some cur) s1) = Some s2" "core G {} (s2\<lparr>cm_cur_frame := None\<rparr>)" by blast
    then show ?thesis unfolding update_frame_buffers_def using True cur(1) s1(1) fin [OF s2(2)] by simp
  next
    case False
    have "pinv G {} (add_mset cur (map_owners (cm_ref_frame_map s) + mset (pbi_output_frames s))) (cm_pool s)"
      using cur by (simp add: core_def owners_def)
    from drop_frame_owner [OF this] obtain p where p: "drop_frame cbs (Some cur) s = Some (s\<lparr>cm_pool := p\<rparr>)"
      "pinv G {} (map_owners (cm_ref_frame_map s) + mset (pbi_output_frames s)) p" by blast
    then have "core G {} (s\<lparr>cm_pool := p, cm_cur_frame := None\<rparr>)" using cur(2) by (simp add: core_def shape_ok_def owners_def)
    from fin [OF this] show ?thesis unfolding update_frame_buffers_def using False cur(1) p(1) by simp
  qed
qed

end

end
