(* ===== verification/Header_Props.thy ===== *)
theory Header_Props
  imports Decoder_Inv
begin

text \<open>
  The frame header keeps the invariant of the decoder, whatever the bits say: a header that is
  read completely leaves a frame of its own with memory, or a frame that is shown again, and one
  that is not leaves nothing behind but the current frame.
\<close>

context frame_source
begin

section \<open>An existing frame\<close>

lemma reset_refs_core:
  "core G {} s \<Longrightarrow> set js \<subseteq> {..<REF_FRAMES} \<Longrightarrow> \<exists>s'. reset_refs cbs js s = Some s' \<and> core G {} s' \<and> refs_dropped s s'"
proof (induction js arbitrary: s)
  case Nil
  then show ?case by (auto simp: refs_dropped_def intro!: exI [of _ "cm_pool s"] exI [of _ "cm_ref_frame_map s"])
next
  case (Cons i js)
  then obtain p' where p': "replace_ref cbs i None s = Some (s\<lparr>cm_pool := p', cm_ref_frame_map := (cm_ref_frame_map s)[i := None]\<rparr>)"
    "core G {} (s\<lparr>cm_pool := p', cm_ref_frame_map := (cm_ref_frame_map s)[i := None]\<rparr>)"
    using replace_none [of G s i] by auto
  from Cons.IH [OF p'(2)] Cons.prems(2) show ?case using p'(1) by (auto simp: refs_dropped_def)
qed

lemma resync_ok:
  assumes "core G {} s"
  shows "\<exists>s'. resync cbs s = Some s' \<and> core G {} s' \<and> (\<exists>p m n. s' = s\<lparr>cm_pool := p, cm_ref_frame_map := m, pbi_need_resync := n\<rparr>)"
proof (cases "pbi_need_resync s = 0")
  case True
  then show ?thesis using assms
    by (intro exI [of _ s]) (auto simp: resync_def intro!: exI [of _ "cm_pool s"] exI [of _ "cm_ref_frame_map s"] exI [of _ "pbi_need_resync s"])
next
  case False
  obtain s1 where s1: "reset_ref_frame_map cbs s = Some s1" "core G {} s1" "refs_dropped s s1"
    using reset_refs_core [OF assms, of "[0..<REF_FRAMES]"] by (auto simp: reset_ref_frame_map_def atLeast0LessThan)
  obtain p m where "s1 = s\<lparr>cm_pool := p, cm_ref_frame_map := m\<rparr>" using s1(3) by (auto simp: refs_dropped_def)
  then have "core G {} (s1\<lparr>pbi_need_resync := 0\<rparr>)" "s1\<lparr>pbi_need_resync := 0\<rparr> = s\<lparr>cm_pool := p, cm_ref_frame_map := m, pbi_need_resync := 0\<rparr>"
    using s1(2) by (simp_all add: inv_defs)
  then show ?thesis using s1(1) False unfolding resync_def by (intro exI [of _ "s1\<lparr>pbi_need_resync := 0\<rparr>"]) auto
qed

lemma resync_current:
  assumes "current G f s"
  shows "\<exists>s'. resync cbs s = Some s' \<and> current G f s' \<and> (\<exists>p m n. s' = s\<lparr>cm_pool := p, cm_ref_frame_map := m, pbi_need_resync := n\<rparr>)"
proof (cases "pbi_need_resync s = 0")
  case True
  then show ?thesis using assms
    by (intro exI [of _ s]) (auto simp: resync_def intro!: exI [of _ "cm_pool s"] exI [of _ "cm_ref_frame_map s"] exI [of _ "pbi_need_resync s"])
next
  case False
  obtain s1 where s1: "reset_ref_frame_map cbs s = Some s1" "current G f s1" "refs_dropped s s1" using reset_map_current [OF assms] by blast
  obtain p m where "s1 = s\<lparr>cm_pool := p, cm_ref_frame_map := m\<rparr>" using s1(3) by (auto simp: refs_dropped_def)
  then have "current G f (s1\<lparr>pbi_need_resync := 0\<rparr>)" "s1\<lparr>pbi_need_resync := 0\<rparr> = s\<lparr>cm_pool := p, cm_ref_frame_map := m, pbi_need_resync := 0\<rparr>"
    using s1(2) by (simp_all add: inv_defs)
  then show ?thesis using s1(1) False unfolding resync_def by (intro exI [of _ "s1\<lparr>pbi_need_resync := 0\<rparr>"]) auto
qed

lemma show_reset_ok:
  assumes "shared G s"
  shows "\<exists>s'. show_existing_frame_reset cbs i s = Some s' \<and> shared G s' \<and> cm_show_existing_frame s' = cm_show_existing_frame s"
proof -
  define t where "t = s\<lparr>cf_frame_type := KEY_FRAME, cf_refresh_frame_flags := 255, cm_remapped_ref_idx := replicate INTER_REFS_PER_FRAME INVALID_IDX\<rparr>"
  have "core G {} t" using assms by (simp add: inv_defs t_def)
  from resync_ok [OF this] obtain s1 p m n where s1: "resync cbs t = Some s1" "core G {} s1" "s1 = t\<lparr>cm_pool := p, cm_ref_frame_map := m, pbi_need_resync := n\<rparr>"
    by blast
  then have "cm_cur_frame s1 = cm_cur_frame s" "cm_show_existing_frame s1 = cm_show_existing_frame s" by (simp_all add: t_def)
  then show ?thesis using s1(1,2) assms
    by (simp add: show_existing_frame_reset_def Let_def flip: t_def) (simp add: inv_defs update_ref_frame_id_def Let_def)
qed

lemma read_temporal_keeps:
  "(\<And>s. J s \<Longrightarrow> E s) \<Longrightarrow> (\<And>s v. J s \<Longrightarrow> J (s\<lparr>cm_frame_presentation_time := v\<rparr>)) \<Longrightarrow> keeps J E read_temporal_point_info"
  unfolding read_temporal_point_info_def by (intro keeps_get keeps_bind keeps_read keeps_modify)

lemma show_existing_ok:
  "triple (\<lambda>s. current G False s \<and> cm_show_existing_frame s \<noteq> 0) (show_existing cbs)
    (\<lambda>_ s. shared G s \<and> cm_show_existing_frame s \<noteq> 0) (failed G)"
  unfolding show_existing_def
proof (rule t_get, goal_cases)
  case (1 s0)
  define J where "J s \<longleftrightarrow> current G False s \<and> cm_show_existing_frame s \<noteq> 0 \<and> cm_ref_frame_map s = cm_ref_frame_map s0" for s
  have JE: "J s \<Longrightarrow> failed G s" for s by (auto simp: J_def current_failed)
  have Jt: "J s \<Longrightarrow> J (s\<lparr>cm_frame_presentation_time := v\<rparr>)" for s v by (auto simp: J_def inv_defs)
  have rest: "triple J
      (d_seq (d_when c1 read_temporal_point_info)
       (d_seq (d_when c2 (d_bind (d_read fld) (\<lambda>v. d_check (c3 v) e1)))
       (d_seq (d_modify (take_existing k))
       (d_seq (d_check c4 e2)
       (d_get (\<lambda>s. if pbi_reset_decoder_state s \<noteq> 0 then
               d_seq (d_modify (set_frame (\<lambda>b. b\<lparr>showable_frame := 0\<rparr>) k)) (d_try (show_existing_frame_reset cbs i))
             else d_modify (\<lambda>s. s\<lparr>cf_refresh_frame_flags := 0\<rparr>)))))))
      (\<lambda>_ s. shared G s \<and> cm_show_existing_frame s \<noteq> 0) (failed G)"
    if k: "cm_ref_frame_map s0 ! m = Some k" "m < REF_FRAMES" for c1 c2 fld c3 e1 k c4 e2 i m
  proof -
    let ?S = "\<lambda>s. shared G s \<and> cm_show_existing_frame s \<noteq> 0"
    have SE: "?S s \<Longrightarrow> failed G s" for s by (simp add: shared_failed)
    have 1: "keeps J (failed G) (d_when c1 read_temporal_point_info)" using JE Jt by (intro keeps_when read_temporal_keeps)
    have 2: "keeps J (failed G) (d_when c2 (d_bind (d_read fld) (\<lambda>v. d_check (c3 v) e1)))"
      using JE by (intro keeps_when keeps_bind keeps_read keeps_check)
    have 3: "triple J (d_modify (take_existing k)) (\<lambda>_. ?S) (failed G)"
    proof (rule t_modify)
      fix s assume "J s"
      then have "current G False s" "cm_ref_frame_map s ! m = Some k" "cm_show_existing_frame s \<noteq> 0" using k by (auto simp: J_def)
      then show "?S (take_existing k s)" using take_existing_shared [OF _ k(2)] by (simp add: take_existing_def assign_frame_buffer_p_def)
    qed
    have sb: "same_block (\<lambda>b. b\<lparr>showable_frame := 0\<rparr>)" by (simp add: same_block_def)
    have 4: "triple ?S (d_seq (d_modify (set_frame (\<lambda>b. b\<lparr>showable_frame := 0\<rparr>) k)) (d_try (show_existing_frame_reset cbs i))) (\<lambda>_. ?S) (failed G)"
      using show_reset_ok by (intro t_seq [where R = ?S] t_modify t_try) (simp_all add: set_frame_shared [OF sb], metis)
    have 5: "triple ?S (d_modify (\<lambda>s. s\<lparr>cf_refresh_frame_flags := 0\<rparr>)) (\<lambda>_. ?S) (failed G)" by (intro t_modify) (simp add: inv_defs)
    have 6: "triple ?S (d_get (\<lambda>s. if pbi_reset_decoder_state s \<noteq> 0 then
               d_seq (d_modify (set_frame (\<lambda>b. b\<lparr>showable_frame := 0\<rparr>) k)) (d_try (show_existing_frame_reset cbs i))
             else d_modify (\<lambda>s. s\<lparr>cf_refresh_frame_flags := 0\<rparr>))) (\<lambda>_. ?S) (failed G)"
      using 4 5 by (intro t_get) (auto intro: t_conseq)
    show ?thesis
      by (intro t_seq [OF keeps_triple [OF 1]] t_seq [OF keeps_triple [OF 2]] t_seq [OF 3] t_seq [OF _ 6] t_check) (simp_all add: SE)
  qed
  have some: "triple J (case cm_ref_frame_map s0 ! nat v of None \<Rightarrow> d_throw e | Some k \<Rightarrow> g k) (\<lambda>_ s. shared G s \<and> cm_show_existing_frame s \<noteq> 0) (failed G)"
    if "\<And>k. cm_ref_frame_map s0 ! nat v = Some k \<Longrightarrow> triple J (g k) (\<lambda>_ s. shared G s \<and> cm_show_existing_frame s \<noteq> 0) (failed G)" for v e g
    using that JE by (cases "cm_ref_frame_map s0 ! nat v") (auto intro: t_throw)
  note s0 = 1
  show ?case
  proof (rule t_seq [where R = J], goal_cases)
    case 1
    then show ?case using s0 by (intro t_check) (auto simp: J_def current_failed)
  next
    case 2
    then show ?case
    proof (rule t_bind [where R = "\<lambda>v s. field_range (Literal 3) v \<and> J s"], goal_cases)
      case 1
      then show ?case using JE by (intro t_read) auto
    next
      case (2 v)
      then show ?case by (intro t_fact some, rule rest) (auto simp: REF_FRAMES_def nat_less_iff)
    qed
  qed
qed

end

section \<open>The start of a header\<close>

lemma keeps_set_cur:
  "(\<And>s. J s \<Longrightarrow> cm_cur_frame s \<noteq> None) \<Longrightarrow> (\<And>s k. J s \<Longrightarrow> cm_cur_frame s = Some k \<Longrightarrow> J (set_frame (f s) k s)) \<Longrightarrow>
    keeps J E (d_try (\<lambda>s. set_cur (f s) s))"
  unfolding set_cur_def by (rule keeps_try) (metis (no_types, lifting) not_None_eq option.map(2))

context frame_source
begin

text \<open>A header is being read for a frame of its own.\<close>

definition reading :: "nat set \<Rightarrow> bool \<Rightarrow> 'c AV1Decoder \<Rightarrow> bool" where
  "reading G f s \<longleftrightarrow> current G f s \<and> sequence_header_ready (pbi_ds s) \<and> cm_show_existing_frame s = 0"

lemma reading_failed: "reading G f s \<Longrightarrow> failed G s"
  unfolding reading_def by (blast intro: current_failed)

lemma reading_cur: "reading G f s \<Longrightarrow> cm_cur_frame s \<noteq> None"
  by (auto simp: reading_def current_def)

lemma reading_set_frame: "same_block f \<Longrightarrow> reading G m (set_frame f k s) = reading G m s"
  by (simp add: reading_def set_frame_current)

lemma reading_seq: "reading G f s \<Longrightarrow> seq_valid (cm_seq s)"
  by (simp add: reading_def inv_defs seq_state_ok_def cm_seq_def)

lemmas reading_intros = keeps_intros keeps_bind keeps_read keeps_modify keeps_check keeps_throw

lemma new_sequence_keeps:
  assumes "he_clear env = clear"
  shows "keeps (reading G f) (failed G) (new_sequence cbs env)"
  unfolding new_sequence_def
proof (rule keeps_seq, goal_cases)
  case 1
  then show ?case by (rule keeps_modify) (simp add: reading_def inv_defs)
next
  case 2
  show ?case
  proof (rule keeps_try)
    fix s assume r: "reading G f s"
    then obtain s' p m where "reset_frame_buffers cbs clear s = Some s'" "current G f s'" "s' = s\<lparr>cm_pool := p, cm_ref_frame_map := m\<rparr>"
      using reset_frame_buffers_current unfolding reading_def by blast
    then show "\<exists>s'. reset_frame_buffers cbs (he_clear env) s = Some s' \<and> reading G f s'"
      using r assms by (auto simp: reading_def)
  qed
qed

lemma read_frame_type_keeps:
  assumes "he_clear env = clear"
  shows "keeps (reading G f) (failed G) (read_frame_type cbs env)"
  unfolding read_frame_type_def
  by (intro reading_intros keeps_set_cur new_sequence_keeps assms read_temporal_keeps reading_failed reading_cur)
    ((simp add: reading_set_frame same_block_def; fail) | (simp add: reading_def inv_defs; fail))+

lemma read_frame_start_ok:
  assumes "he_clear env = clear"
  shows "triple (current G False) (read_frame_start cbs env)
    (\<lambda>ex s. if ex then shared G s \<and> cm_show_existing_frame s \<noteq> 0 else reading G False s) (failed G)"
  unfolding read_frame_start_def
proof (rule t_seq [where R = "current G False"], goal_cases)
  case 1
  show ?case by (rule t_modify) (simp add: inv_defs)
next
  case 2
  have still: "triple (\<lambda>s. current G False s \<and> sequence_header_ready (pbi_ds s))
      (d_seq (d_modify (\<lambda>s. s\<lparr>cm_show_existing_frame := 0, cm_show_frame := 1, cf_frame_type := KEY_FRAME\<rparr>))
         (d_seq (d_when c (new_sequence cbs env))
         (d_seq (d_modify (\<lambda>s. s\<lparr>ft_error_resilient_mode := 1\<rparr>)) (d_ret False))))
      (\<lambda>ex s. if ex then shared G s \<and> cm_show_existing_frame s \<noteq> 0 else reading G False s) (failed G)" for c
  proof (rule t_seq [where R = "reading G False"], goal_cases)
    case 1
    show ?case by (rule t_modify) (simp add: reading_def inv_defs)
  next
    case 2
    show ?case
    proof (rule t_seq [OF keeps_triple], goal_cases)
      case 1
      show ?case by (intro keeps_when new_sequence_keeps assms)
    next
      case 2
      show ?case by (intro t_seq [where R = "reading G False"] t_modify t_ret) (simp_all add: reading_def inv_defs)
    qed
  qed
  have moving: "triple (\<lambda>s. current G False s \<and> sequence_header_ready (pbi_ds s))
      (d_bind d_flag (\<lambda>ex.
         d_seq (d_modify (\<lambda>s. s\<lparr>cm_show_existing_frame := ex, pbi_reset_decoder_state := 0\<rparr>))
         (if ex \<noteq> 0 then d_seq (show_existing cbs) (d_ret True)
          else d_seq (read_frame_type cbs env) (d_ret False))))
      (\<lambda>ex s. if ex then shared G s \<and> cm_show_existing_frame s \<noteq> 0 else reading G False s) (failed G)"
  proof (rule t_bind [where R = "\<lambda>_ s. current G False s \<and> sequence_header_ready (pbi_ds s)"], goal_cases)
    case 1
    show ?case by (rule t_read) (auto simp: current_failed)
  next
    case (2 ex)
    show ?case
    proof (rule t_seq [where R = "\<lambda>s. if ex \<noteq> 0 then current G False s \<and> cm_show_existing_frame s \<noteq> 0 else reading G False s"], goal_cases)
      case 1
      show ?case by (rule t_modify) (simp add: reading_def inv_defs)
    next
      case 2
      show ?case
      proof (rule t_if, goal_cases)
        case 1
        then show ?case by (intro t_seq [where R = "\<lambda>s. shared G s \<and> cm_show_existing_frame s \<noteq> 0"] t_ret) (simp_all add: show_existing_ok)
      next
        case 2
        then show ?case by (intro t_seq [where R = "reading G False"] t_ret) (simp_all add: keeps_triple read_frame_type_keeps assms)
      qed
    qed
  qed
  show ?case
  proof (rule t_get, rule t_seq [where R = "\<lambda>s. current G False s \<and> sequence_header_ready (pbi_ds s)"], goal_cases)
    case (1 s0)
    then show ?case by (intro t_check) (auto simp: current_failed)
  next
    case (2 s0)
    show ?case by (intro t_if still moving)
  qed
qed

end

section \<open>References that are missing\<close>

lemma keeps_get_fix:
  "(\<And>s0. J s0 \<Longrightarrow> keeps (\<lambda>s. J s \<and> v s = v s0) E (g s0)) \<Longrightarrow> keeps J E (d_get g)"
  unfolding keeps_def
proof (rule t_get)
  fix s0 assume a: "\<And>s0. J s0 \<Longrightarrow> triple (\<lambda>s. J s \<and> v s = v s0) (g s0) (\<lambda>_ s. J s \<and> v s = v s0) E" and "J s0"
  then show "triple (\<lambda>s. s = s0) (g s0) (\<lambda>_. J) E" by (intro t_conseq [OF a [OF \<open>J s0\<close>]]) auto
qed

definition prim_range :: "'c AV1Decoder \<Rightarrow> bool" where
  "prim_range s \<longleftrightarrow> 0 \<le> ft_primary_ref_frame s \<and> ft_primary_ref_frame s \<le> 7 \<and> (frame_is_intra_only s \<longrightarrow> ft_primary_ref_frame s = PRIMARY_REF_NONE)"

lemma prim_range_set_frame [simp]: "prim_range (set_frame f k s) = prim_range s"
  by (simp add: prim_range_def frame_is_intra_only_def)

context frame_source
begin

definition headed :: "nat set \<Rightarrow> bool \<Rightarrow> 'c AV1Decoder \<Rightarrow> bool" where
  "headed G f s \<longleftrightarrow> reading G f s \<and> prim_range s"

lemmas headed_defs = headed_def reading_def prim_range_def frame_is_intra_only_def inv_defs

lemma headed_failed: "headed G f s \<Longrightarrow> failed G s"
  unfolding headed_def by (blast intro: reading_failed)

lemma headed_cur: "headed G f s \<Longrightarrow> cm_cur_frame s \<noteq> None"
  unfolding headed_def using reading_cur by blast

lemma headed_set_frame: "same_block f \<Longrightarrow> headed G m (set_frame f k s) = headed G m s"
  by (simp add: headed_def reading_set_frame)

lemma headed_refs:
  assumes "headed G f s" "current G f (s\<lparr>cm_pool := p, cm_ref_frame_map := m\<rparr>)"
  shows "headed G f (s\<lparr>cm_pool := p, cm_ref_frame_map := m, pbi_need_resync := n\<rparr>)"
  using assms by (simp add: headed_defs)

lemma read_frame_tools_ok: "triple (reading G f) read_frame_tools (\<lambda>_. headed G f) (failed G)"
proof -
  have "keeps (reading G f) (failed G) (d_modify (\<lambda>s. if cf_frame_type s = KEY_FRAME \<and> cm_show_frame s \<noteq> 0
        then s\<lparr>pbi_valid_for_referencing := replicate REF_FRAMES 0\<rparr> else s))"
    by (rule keeps_modify) (simp add: reading_def inv_defs)
  note 1 = keeps_triple [OF this]
  have flag: "keeps (reading G f) (failed G) d_flag" by (intro keeps_read reading_failed)
  have c: "keeps (reading G f) (failed G) (if b then d_flag else d_ret v)" for b v by (intro keeps_if keeps_ret flag)
  have d: "keeps (reading G f) (failed G) (if b' then if b then d_flag else d_ret v else d_ret 0)" for b b' v by (intro keeps_if keeps_ret flag)
  have e: "triple (reading G f) (d_modify (\<lambda>s. s\<lparr>ft_disable_cdf_update := a, ft_allow_screen_content_tools := b,
        ft_cur_frame_force_integer_mv := m, ft_allow_intrabc := 0, ft_primary_ref_frame := PRIMARY_REF_NONE\<rparr>)) (\<lambda>_. headed G f) (failed G)" for a b m
    by (rule t_modify) (simp add: headed_defs PRIMARY_REF_NONE_def)
  have tail: "triple (reading G f) (d_get (\<lambda>s. let q = cm_seq s in
      d_bind (if force_screen_content_tools q = 2 then d_flag else d_ret (force_screen_content_tools q)) (\<lambda>sct.
      d_bind (if sct \<noteq> 0 then if force_integer_mv q = 2 then d_flag else d_ret (force_integer_mv q) else d_ret 0) (\<lambda>imv.
      d_modify (\<lambda>s. s\<lparr>ft_disable_cdf_update := cdf, ft_allow_screen_content_tools := sct,
        ft_cur_frame_force_integer_mv := imv, ft_allow_intrabc := 0, ft_primary_ref_frame := PRIMARY_REF_NONE\<rparr>))))) (\<lambda>_. headed G f) (failed G)" for cdf
    unfolding Let_def
    by (rule t_get, rule t_conseq [OF t_bind [OF keeps_triple [OF c] t_bind [OF keeps_triple [OF d] e]]]) auto
  show ?thesis unfolding read_frame_tools_def
    by (rule t_seq [OF 1], rule t_bind [OF keeps_triple [OF flag]], rule tail)
qed

lemma read_frame_id_keeps: "keeps (headed G f) (failed G) read_frame_id_number"
  unfolding read_frame_id_number_def
  by (intro reading_intros headed_failed [where f = f]) (simp_all add: headed_defs expire_ids_def)

lemma read_frame_order_keeps: "keeps (headed G f) (failed G) read_frame_order"
  unfolding read_frame_order_def Let_def
proof (rule keeps_get_fix [where v = cf_frame_type], goal_cases)
  case (1 s0)
  let ?J = "\<lambda>s. headed G f s \<and> cf_frame_type s = cf_frame_type s0"
  have fail: "?J s \<Longrightarrow> failed G s" for s by (auto intro: headed_failed)
  have id: "keeps ?J (failed G) read_frame_id_number"
    unfolding read_frame_id_number_def by (intro reading_intros fail) (simp_all add: headed_defs expire_ids_def)
  have prim: "keeps ?J (failed G) (d_when (c \<and> \<not> frame_is_intra_only s0)
      (d_bind (d_read (Literal 3)) (\<lambda>v. d_modify (\<lambda>s. s\<lparr>ft_primary_ref_frame := v\<rparr>))))" for c
    by (intro keeps_when keeps_bind_read keeps_modify fail) (auto simp: headed_defs)
  have rd: "keeps ?J (failed G) (d_read x)" for x by (intro keeps_read fail)
  have md: "keeps ?J (failed G) (d_modify (\<lambda>s. s\<lparr>cf_order_hint := oh, cf_frame_number := if c then oh else cf_frame_number s\<rparr>))" for oh c
    by (rule keeps_modify) (simp add: headed_defs)
  show ?case
    by (rule keeps_if [OF keeps_ret], rule keeps_seq [OF keeps_when [OF id]], rule keeps_bind [OF keeps_if [OF keeps_ret rd]],
        rule keeps_bind [OF rd], rule keeps_seq [OF md], rule keeps_seq [OF prim keeps_ret])
qed

lemma read_removal_times_keeps: "keeps (headed G f) (failed G) read_removal_times"
  unfolding read_removal_times_def read_removal_time_def Let_def
  by (intro reading_intros headed_failed [where f = f]) (simp_all add: headed_defs)

lemma resync_keeps: "keeps (headed G f) (failed G) (d_try (resync cbs))"
proof (rule keeps_try)
  fix s assume h: "headed G f s"
  then obtain s' p m n where s': "resync cbs s = Some s'" "current G f s'" "s' = s\<lparr>cm_pool := p, cm_ref_frame_map := m, pbi_need_resync := n\<rparr>"
    using resync_current unfolding headed_def reading_def by blast
  then show "\<exists>s'. resync cbs s = Some s' \<and> headed G f s'" using h by (simp add: headed_defs)
qed

lemma read_refresh_flags_keeps: "keeps (headed G f) (failed G) (read_refresh_flags cbs)"
proof -
  have rd: "triple (headed G f) (if b then d_read (Literal REF_FRAMES) else d_ret 255) (\<lambda>v s. (0 \<le> v \<and> v < 256) \<and> headed G f s) (failed G)"
    "triple (headed G f) (if b then d_ret 255 else d_read (Literal REF_FRAMES)) (\<lambda>v s. (0 \<le> v \<and> v < 256) \<and> headed G f s) (failed G)"
    "triple (headed G f) (d_read (Literal REF_FRAMES)) (\<lambda>v s. (0 \<le> v \<and> v < 256) \<and> headed G f s) (failed G)" for b
    by (auto intro!: t_read t_ret headed_failed simp: REF_FRAMES_def)
  have k: "keeps (headed G f) (failed G) (d_bind m g)"
    if "triple (headed G f) m (\<lambda>v s. (0 \<le> v \<and> v < 256) \<and> headed G f s) (failed G)" "\<And>v. 0 \<le> v \<Longrightarrow> v < 256 \<Longrightarrow> keeps (headed G f) (failed G) (g v)"
    for m :: "('c AV1Decoder, int) comp" and g
    unfolding keeps_def by (rule t_bind [OF that(1)], rule t_fact) (use that(2) in \<open>auto simp: keeps_def\<close>)
  show ?thesis unfolding read_refresh_flags_def
    by (intro keeps_get keeps_if keeps_when keeps_seq resync_keeps keeps_check keeps_modify headed_failed [where f = f] k rd) (simp_all add: headed_defs)
qed

end

context frame_source
begin

text \<open>A frame \<open>k\<close> of the pool was taken for map entry \<open>i\<close> and is not in the map yet.\<close>

definition taken :: "nat set \<Rightarrow> nat \<Rightarrow> nat \<Rightarrow> 'c AV1Decoder \<Rightarrow> bool" where
  "taken G i k s \<longleftrightarrow> shape_ok s \<and> pinv G {} (add_mset k (owners s)) (cm_pool s) \<and> k \<notin># owners s \<and> cm_ref_frame_map s ! i = None \<and>
     (\<exists>c. cm_cur_frame s = Some c \<and> count (owners s) c = 1 \<and> fb_data (frame_block (cm_pool s) c) = 0) \<and>
     sequence_header_ready (pbi_ds s) \<and> cm_show_existing_frame s = 0 \<and> prim_range s"

lemma take_frame:
  assumes "headed G False s" "cm_ref_frame_map s ! i = None" "get_free_fb (cm_pool s) = (idx, p)"
  shows "idx \<noteq> INVALID_IDX \<and> taken G i (nat idx) (s\<lparr>cm_pool := p\<rparr>) \<and> fb_data (frame_block p (nat idx)) = 0"
proof -
  have c: "shape_ok s" "pinv G {} (owners s) (cm_pool s)" using assms(1) by (simp_all add: headed_def reading_def current_def core_def)
  have "size (owners s) < FRAME_BUFFERS" using owners_bound [OF c(1)] by (simp add: FRAME_BUFFERS_def REF_FRAMES_def INTER_REFS_PER_FRAME_def)
  from get_free_keeps [OF c(2) this] obtain k where k: "idx = int k" "k < FRAME_BUFFERS" "k \<notin># owners s"
    "pinv G {} (add_mset k (owners s)) p" "frame_block p = frame_block (cm_pool s)" using assms(3) by auto
  have "taken G i k (s\<lparr>cm_pool := p\<rparr>)"
    using assms(1,2) c(1) k by (auto simp: taken_def headed_def reading_def current_def shape_ok_def prim_range_def frame_is_intra_only_def)
  then show ?thesis using k(1,5) pinv_unowned [OF c(2) k(2,3)] by (simp add: INVALID_IDX_def)
qed

lemma taken_memory:
  assumes "taken G i k s" "fb_data (frame_block (cm_pool s) k) = 0"
  shows "\<exists>e p. realloc_pool_frame cbs pick k w h sx sy high border align (cm_pool s) = Some (e, p) \<and> taken G i k (s\<lparr>cm_pool := p\<rparr>)"
proof -
  have t: "pinv G {} (add_mset k (owners s)) (cm_pool s)" using assms(1) by (simp add: taken_def)
  obtain e p where r0: "realloc_pool_frame cbs pick k w h sx sy high border align (cm_pool s) = Some (e, p)"
    "if e = AOM_CODEC_OK then pinv G {} (add_mset k (owners s)) p \<and> fb_data (frame_block p k) \<noteq> 0
     else pinv G {} (add_mset k (owners s)) p \<or> pinv G {} (add_mset k (owners s)) p"
    "\<forall>j. j \<noteq> k \<longrightarrow> frame_block p j = frame_block (cm_pool s) j"
    using realloc_keeps [OF t, of k] assms(2) by force
  then have r: "realloc_pool_frame cbs pick k w h sx sy high border align (cm_pool s) = Some (e, p)"
    "pinv G {} (add_mset k (owners s)) p" "\<forall>j. j \<noteq> k \<longrightarrow> frame_block p j = frame_block (cm_pool s) j"
    by (simp_all split: if_splits)
  obtain c where c: "cm_cur_frame s = Some c" "count (owners s) c = 1" "fb_data (frame_block (cm_pool s) c) = 0" using assms(1) by (auto simp: taken_def)
  then have "c \<noteq> k" using assms(1) by (auto simp: taken_def simp flip: count_greater_zero_iff)
  then have "frame_block p c = frame_block (cm_pool s) c" using r(3) by simp
  then have "taken G i k (s\<lparr>cm_pool := p\<rparr>)"
    using assms(1) r(2) c by (simp add: taken_def shape_ok_def prim_range_def frame_is_intra_only_def)
  then show ?thesis using r(1) by blast
qed

lemma taken_give_back:
  assumes "taken G i k s"
  shows "\<exists>p. decrease_ref_count cbs (Some k) (cm_pool s) = Some p \<and> failed G (s\<lparr>cm_pool := p\<rparr>)"
proof -
  have t: "pinv G {} (add_mset k (owners s)) (cm_pool s)" "shape_ok s" using assms(1) by (simp_all add: taken_def)
  obtain p where p: "decrease_ref_count cbs (Some k) (cm_pool s) = Some p" "pinv G {} (owners s) p"
    using decrease_keeps [OF t(1)] by (auto split: if_splits)
  then show ?thesis using assms t(2) by (auto simp: failed_def pool_core taken_def)
qed

lemma taken_stored:
  assumes "taken G i k s" "i < REF_FRAMES"
  shows "headed G False (set_frame (\<lambda>b. b\<lparr>rc_order_hint := oh\<rparr>) k
    (s\<lparr>pbi_valid_for_referencing := v, cm_ref_frame_map := (cm_ref_frame_map s)[i := Some k]\<rparr>))"
proof -
  have sb: "same_block (\<lambda>b. b\<lparr>rc_order_hint := oh\<rparr>)" by (simp add: same_block_def)
  have len: "length (cm_ref_frame_map s) = REF_FRAMES" using assms(1) by (simp add: taken_def shape_ok_def)
  then have m: "map_owners ((cm_ref_frame_map s)[i := Some k]) = add_mset k (map_owners (cm_ref_frame_map s))"
    using map_owners_update [of i "cm_ref_frame_map s" "Some k"] assms by (simp add: taken_def)
  have "count (owners s) c = 1 \<Longrightarrow> c \<noteq> k" for c using assms(1) by (auto simp: taken_def simp flip: count_greater_zero_iff)
  then have "headed G False (s\<lparr>pbi_valid_for_referencing := v, cm_ref_frame_map := (cm_ref_frame_map s)[i := Some k]\<rparr>)"
    using assms(1) m by (auto simp: taken_def headed_defs)
  then show ?thesis by (simp add: headed_set_frame [OF sb])
qed

end

end
