(* ===== verification/Header_Frames.thy ===== *)
theory Header_Frames
  imports Header_Props
begin

text \<open>
  The part of a frame header that asks the pool for memory: references that the stream says are
  missing, and the frame itself, once its size and its references are known.
\<close>

section \<open>Missing references\<close>

context frame_source
begin

lemma pool_memory_taken:
  "triple (\<lambda>s. taken G i k s \<and> fb_data (frame_block (cm_pool s) k) = 0) (pool_memory cbs pick k w h border True) (\<lambda>_. taken G i k) (failed G)"
  unfolding pool_memory_def
proof (rule t_lift, goal_cases)
  case (1 s)
  then obtain e p where p: "realloc_pool_frame cbs pick k w h (subsampling_x (cm_seq s)) (subsampling_y (cm_seq s)) (Sequence_Header.use_highbitdepth (cm_seq s))
      border (ft_byte_alignment s) (cm_pool s) = Some (e, p)" "taken G i k (s\<lparr>cm_pool := p\<rparr>)" using taken_memory by blast
  obtain p' where "decrease_ref_count cbs (Some k) p = Some p'" "failed G (s\<lparr>cm_pool := p'\<rparr>)" using taken_give_back [OF p(2)] by auto
  then show ?case using p by (auto simp: Let_def)
qed

lemma replace_missing:
  "triple (\<lambda>s. headed G False s \<and> cm_ref_frame_map s = m) (d_when (m ! i \<noteq> None) (d_try (replace_ref cbs i None)))
    (\<lambda>_ s. headed G False s \<and> cm_ref_frame_map s ! i = None) (failed G)" if i: "i < REF_FRAMES"
proof (rule t_when, rule t_try, goal_cases)
  case (1 s)
  then have c: "current G False s" by (simp add: headed_def reading_def)
  have "length (cm_ref_frame_map s) = REF_FRAMES" using c by (simp add: inv_defs)
  moreover obtain p where "replace_ref cbs i None s = Some (s\<lparr>cm_pool := p, cm_ref_frame_map := (cm_ref_frame_map s)[i := None]\<rparr>)"
    "current G False (s\<lparr>cm_pool := p, cm_ref_frame_map := (cm_ref_frame_map s)[i := None]\<rparr>)" using current_replace_none [OF c i] by blast
  ultimately show ?case using 1(2) i by (simp add: headed_def reading_def prim_range_def frame_is_intra_only_def)
qed simp

lemma missing_ref_keeps:
  assumes "i < REF_FRAMES"
  shows "keeps (headed G False) (failed G) (missing_ref cbs env i)"
  unfolding missing_ref_def Let_def keeps_def
proof (rule t_get, goal_cases)
  case (1 s0)
  note s0 = 1
  show ?case
  proof (rule t_bind [where R = "\<lambda>_ s. headed G False s \<and> cm_ref_frame_map s = cm_ref_frame_map s0"], goal_cases)
    case 1
    then show ?case using s0 by (intro t_read) (auto intro: headed_failed)
  next
    case (2 oh)
    show ?case
    proof (rule t_when, rule t_seq [OF replace_missing [OF assms]], rule t_get, goal_cases)
      case (1 s)
      obtain idx p where f: "get_free_fb (cm_pool s) = (idx, p)" by (cases "get_free_fb (cm_pool s)")
      have t: "idx \<noteq> INVALID_IDX" "taken G i (nat idx) (s\<lparr>cm_pool := p\<rparr>)" "fb_data (frame_block p (nat idx)) = 0"
        using take_frame [OF conjunct1 [OF 1(2)] conjunct2 [OF 1(2)] f] by simp_all
      show ?case unfolding f prod.case
      proof (rule t_seq [where R = "\<lambda>t. t = s"], goal_cases)
        case 1
        show ?case by (rule t_check) (simp_all add: t(1))
      next
        case 2
        show ?case
          by (rule t_seq [OF _ t_seq [OF pool_memory_taken]], rule t_modify, use t(2,3) in simp, rule t_modify, erule taken_stored, rule assms)
      qed
    qed simp
  qed
qed

lemma read_ref_order_hints_keeps: "keeps (headed G False) (failed G) (read_ref_order_hints cbs env)"
  unfolding read_ref_order_hints_def by (intro keeps_intros missing_ref_keeps) simp

end

section \<open>The size of the frame\<close>

text \<open>What the size leaves alone: the references, and the fields that say which ones the frame needs.\<close>

definition frame_view :: "'c AV1Decoder \<Rightarrow> nat option list \<times> int list \<times> int \<times> int \<times> int" where
  "frame_view s = (cm_ref_frame_map s, cm_remapped_ref_idx s, pbi_need_resync s, cf_frame_type s, ft_primary_ref_frame s)"

lemma frame_view_set_frame [simp]: "frame_view (set_frame f k s) = frame_view s"
  by (simp add: frame_view_def)

lemma stamp_frame_same: "same_block (stamp_frame s)"
  by (simp add: same_block_def stamp_frame_def Let_def)

context frame_source
begin

definition framed :: "nat set \<Rightarrow> bool \<Rightarrow> nat option list \<times> int list \<times> int \<times> int \<times> int \<Rightarrow> 'c AV1Decoder \<Rightarrow> bool" where
  "framed G f V s \<longleftrightarrow> headed G f s \<and> frame_view s = V"

lemmas framed_defs = framed_def frame_view_def headed_defs

lemma framed_failed: "framed G f V s \<Longrightarrow> failed G s"
  unfolding framed_def by (blast intro: headed_failed)

lemma framed_cur: "framed G f V s \<Longrightarrow> cm_cur_frame s \<noteq> None"
  unfolding framed_def using headed_cur by blast

lemma framed_set_frame: "same_block g \<Longrightarrow> framed G f V (set_frame g k s) = framed G f V s"
  by (simp add: framed_def headed_set_frame)

lemma read_frame_size_keeps: "(\<And>s. J s \<Longrightarrow> E s) \<Longrightarrow> keeps J E (read_frame_size a b)"
  unfolding read_frame_size_def by (intro keeps_bind keeps_read keeps_ret)

lemma setup_superres_keeps: "keeps (framed G f V) (failed G) (setup_superres w h)"
  unfolding setup_superres_def Let_def
  by (intro reading_intros framed_failed [where f = f and V = V]) (simp_all add: framed_defs)

lemma setup_render_size_keeps: "keeps (framed G f V) (failed G) setup_render_size"
  unfolding setup_render_size_def
  by (intro reading_intros read_frame_size_keeps framed_failed [where f = f and V = V]) (simp_all add: framed_defs)

lemma resize_context_buffers_keeps: "keeps (framed G f V) (failed G) (resize_context_buffers env w h)"
  unfolding resize_context_buffers_def
  by (intro reading_intros keeps_set_cur framed_cur framed_failed [where f = f and V = V])
    ((simp add: framed_set_frame same_block_def; fail) | (simp add: framed_defs; fail))+

end

context frame_source
begin

lemma pool_memory_current:
  "triple (\<lambda>s. cm_cur_frame s = Some k \<and> framed G False V s) (pool_memory cbs pick k w h border False) (\<lambda>_. framed G True V) (failed G)"
  unfolding pool_memory_def
proof (rule t_lift, goal_cases)
  case (1 s)
  then have c: "cm_cur_frame s = Some k" "count (owners s) k = 1" "current G False s"
    by (auto simp: framed_def headed_def reading_def current_def)
  obtain e p where p: "realloc_pool_frame cbs pick k w h (subsampling_x (cm_seq s)) (subsampling_y (cm_seq s)) (Sequence_Header.use_highbitdepth (cm_seq s))
      border (ft_byte_alignment s) (cm_pool s) = Some (e, p)"
    "if e = AOM_CODEC_OK then current G True (s\<lparr>cm_pool := p\<rparr>) else failed G (s\<lparr>cm_pool := p\<rparr>)"
    using current_memory [OF c(1,2), of False] c(3) by auto blast
  moreover have "framed G True V (s\<lparr>cm_pool := p\<rparr>)" if "current G True (s\<lparr>cm_pool := p\<rparr>)"
    using 1 that by (simp add: framed_def frame_view_def headed_def reading_def prim_range_def frame_is_intra_only_def)
  ultimately show ?case by (simp add: Let_def split: if_splits)
qed

lemma setup_buffer_pool_ok: "triple (framed G False V) (setup_buffer_pool cbs env) (\<lambda>_. framed G True V) (failed G)"
  unfolding setup_buffer_pool_def
proof (rule t_get, goal_cases)
  case (1 s0)
  then obtain k where k: "cm_cur_frame s0 = Some k" using framed_cur by blast
  have stamp: "keeps (framed G True V) (failed G) (d_try (\<lambda>s. set_cur (stamp_frame s) s))"
    by (rule keeps_set_cur) (simp_all add: framed_cur framed_set_frame stamp_frame_same)
  show ?case unfolding k option.case
    by (rule t_seq [OF t_conseq [OF pool_memory_current [where k = k]] keeps_triple [OF stamp]]) (use 1 k in simp_all)
qed

lemma setup_frame_size_ok: "triple (framed G False V) (setup_frame_size cbs env override) (\<lambda>_. framed G True V) (failed G)"
proof -
  note fail = framed_failed [where f = False and V = V]
  have dims: "keeps (framed G False V) (failed G) (if b then d_bind (read_frame_size x y) (\<lambda>(w, h). d_seq (d_check (c w h) e) (d_ret (w, h))) else d_ret d)"
    for b x y c e d by (intro reading_intros read_frame_size_keeps fail)
  have rest: "triple (framed G False V) (d_bind (setup_superres w h) (\<lambda>(w, h). d_seq (resize_context_buffers env w h)
      (d_seq setup_render_size (setup_buffer_pool cbs env)))) (\<lambda>_. framed G True V) (failed G)" for w h
  proof (rule t_bind [OF keeps_triple [OF setup_superres_keeps]], clarify)
    show "triple (framed G False V) (d_seq (resize_context_buffers env w h) (d_seq setup_render_size (setup_buffer_pool cbs env))) (\<lambda>_. framed G True V) (failed G)" for w h
      by (rule t_seq [OF keeps_triple [OF resize_context_buffers_keeps] t_seq [OF keeps_triple [OF setup_render_size_keeps] setup_buffer_pool_ok]])
  qed
  show ?thesis unfolding setup_frame_size_def Let_def
    by (rule t_get, rule t_conseq [OF t_bind [OF keeps_triple [OF dims]]]) (auto simp: rest)
qed

end

context frame_source
begin

lemma ref_bufs_some: "refs_ok s \<Longrightarrow> \<exists>ks. ref_bufs s = Some ks"
  using refs_ok_buf [of s 1] refs_ok_buf [of s 2] refs_ok_buf [of s 3] refs_ok_buf [of s 4] refs_ok_buf [of s 5] refs_ok_buf [of s 6] refs_ok_buf [of s 7]
  by (auto simp: ref_bufs_def)

lemma size_from_refs_keeps: "keeps (framed G f V) (failed G) (size_from_refs env is)"
proof (induction "is")
  case Nil
  then show ?case by (simp add: keeps_ret)
next
  case (Cons i js)
  note fail = framed_failed [where f = f and V = V]
  have found: "keeps (framed G f V) (failed G) (d_seq (d_modify (\<lambda>s. s\<lparr>cm_render_width := a, cm_render_height := b\<rparr>))
      (d_bind (setup_superres w h) (\<lambda>(w, h). d_seq (resize_context_buffers env w h) (d_ret (Some (w, h))))))" for a b w h
    by (intro reading_intros setup_superres_keeps resize_context_buffers_keeps) (simp add: framed_defs)
  have buf: "keeps (framed G f V) (failed G) (case x of None \<Rightarrow> d_throw e | Some k \<Rightarrow> g k)"
    if "\<And>k. keeps (framed G f V) (failed G) (g k)" for x :: "nat option" and e and g :: "nat \<Rightarrow> ('c AV1Decoder, (int \<times> int) option) comp"
    using that fail by (cases x) (auto intro: keeps_throw)
  show ?case unfolding size_from_refs.simps Let_def
    by (intro keeps_bind keeps_read keeps_if keeps_get buf found Cons.IH fail)
qed

lemma setup_frame_size_with_refs_ok:
  assumes "\<And>s :: 'c AV1Decoder. frame_view s = V \<Longrightarrow> refs_ok s"
  shows "triple (framed G False V) (setup_frame_size_with_refs cbs env) (\<lambda>_. framed G True V) (failed G)"
proof -
  note fail = framed_failed [where f = False and V = V]
  have explicit: "keeps (framed G False V) (failed G) (case found of Some d \<Rightarrow> d_ret d | None \<Rightarrow> d_get (\<lambda>s.
       d_bind (read_frame_size (num_bits_width (cm_seq s)) (num_bits_height (cm_seq s))) (\<lambda>(w, h).
       d_bind (setup_superres w h) (\<lambda>(w, h). d_seq (resize_context_buffers env w h) (d_seq setup_render_size (d_ret (w, h)))))))" for found
  proof (cases found)
    case None
    show ?thesis unfolding None option.case
      by (intro reading_intros read_frame_size_keeps setup_superres_keeps resize_context_buffers_keeps setup_render_size_keeps fail)
  qed (simp add: keeps_ret)
  have checked: "triple (framed G False V) (d_seq (d_check a e1) (d_seq (d_check b e2) (setup_buffer_pool cbs env))) (\<lambda>_. framed G True V) (failed G)" for a b e1 e2
    by (intro t_seq [where R = "framed G False V"] keeps_triple [OF keeps_check] setup_buffer_pool_ok fail)
  have memory: "triple (framed G False V) (d_get (\<lambda>s. case ref_bufs s of None \<Rightarrow> (\<lambda>_. None) | Some ks \<Rightarrow>
      d_seq (d_check (a s ks) e1) (d_seq (d_check (b s ks) e2) (setup_buffer_pool cbs env)))) (\<lambda>_. framed G True V) (failed G)" for a b e1 e2
  proof (rule t_get, goal_cases)
    case (1 s)
    then obtain ks where ks: "ref_bufs s = Some ks" using ref_bufs_some assms unfolding framed_def by blast
    show ?case unfolding ks option.case
      by (rule t_conseq [OF checked]) (use 1 in simp_all)
  qed
  show ?thesis unfolding setup_frame_size_with_refs_def Let_def
    by (rule t_bind [OF keeps_triple [OF size_from_refs_keeps]], rule t_bind [OF keeps_triple [OF explicit]], clarify,
        rule t_seq [OF _ memory], rule t_check) (auto intro: fail)
qed

end

section \<open>The seven references\<close>

lemma sort_idx_of_infos:
  assumes "hints_on s" "m < REF_FRAMES"
  defines "cur \<equiv> shl 1 (nat (order_hint_bits_minus_1 (order_hint_info (cm_seq s))))"
  shows "\<not> (sort_idx_of (ref_frame_infos s) m = -1 \<or> cur \<le> sort_idx_of (ref_frame_infos s) m) \<longleftrightarrow> hinted s m \<and> ref_distance s m < 0"
  using ref_frame_infos_nth(3,4) [OF assms(1,2)] assms(2) by (auto simp: sort_idx_of_def cur_def)

lemma check_seq: "d_seq (d_check b e) n (s, rb) = (if b then n (s, rb) else Some (Inl e, s, rb))"
  by (simp add: d_seq_def d_bind_def d_check_def d_ret_def d_throw_def)

lemma set_frame_refs_refused:
  assumes "hints_on s" "lst < REF_FRAMES" "gld < REF_FRAMES" "\<not> (hinted s lst \<and> ref_distance s lst < 0 \<and> hinted s gld \<and> ref_distance s gld < 0)"
  shows "av1_set_frame_refs lst gld (s, rb) = Some (Inl AOM_CODEC_CORRUPT_FRAME, s, rb)"
proof (cases "hinted s lst \<and> ref_distance s lst < 0")
  case False
  then show ?thesis unfolding av1_set_frame_refs_def d_get_def prod.case Let_def check_seq sort_idx_of_infos [OF assms(1,2)] by (rule if_not_P)
next
  case True
  then have "\<not> (hinted s gld \<and> ref_distance s gld < 0)" using assms(4) by blast
  then show ?thesis
    unfolding av1_set_frame_refs_def d_get_def prod.case Let_def check_seq sort_idx_of_infos [OF assms(1,2)] sort_idx_of_infos [OF assms(1,3)] if_P [OF True]
    by (rule if_not_P)
qed

text \<open>All references of the frame are there, as far as they have been read.\<close>

definition refs_upto :: "nat \<Rightarrow> 'c AV1Decoder \<Rightarrow> bool" where
  "refs_upto n s \<longleftrightarrow> (\<forall>i < n. 0 \<le> cm_remapped_ref_idx s ! i \<and> has_ref s (nat (cm_remapped_ref_idx s ! i)))"

lemma refs_upto_all: "refs_upto INTER_REFS_PER_FRAME s = refs_ok s"
  by (simp add: refs_upto_def refs_ok_def)

lemma set_frame_refs_triple:
  assumes "\<And>s. P s \<Longrightarrow> hints_on s" "lst < REF_FRAMES" "gld < REF_FRAMES" "\<And>s. P s \<Longrightarrow> E s"
    "\<And>s xs. P s \<Longrightarrow> remapped_ok xs \<Longrightarrow> refs_ok (s\<lparr>cm_remapped_ref_idx := xs\<rparr>) \<Longrightarrow> Q (s\<lparr>cm_remapped_ref_idx := xs\<rparr>)"
  shows "triple P (av1_set_frame_refs lst gld) (\<lambda>_. Q) E"
  unfolding triple_def
proof (intro allI impI)
  fix s rb assume P: "P s"
  show "case av1_set_frame_refs lst gld (s, rb) of None \<Rightarrow> False | Some (Inr x, s', rb') \<Rightarrow> Q s' | Some (Inl e, s', rb') \<Rightarrow> E s'"
  proof (cases "hinted s lst \<and> ref_distance s lst < 0 \<and> hinted s gld \<and> ref_distance s gld < 0")
    case False
    then show ?thesis using set_frame_refs_refused [OF assms(1) [OF P] assms(2,3) False] assms(4) [OF P] by simp
  next
    case True
    obtain xs where xs: "av1_set_frame_refs lst gld (s, rb) = Some (Inr (), s\<lparr>cm_remapped_ref_idx := xs\<rparr>, rb)" "length xs = INTER_REFS_PER_FRAME"
      "\<forall>i < INTER_REFS_PER_FRAME. \<exists>m. xs ! i = int m \<and> hinted s m"
      using set_frame_refs_result [OF assms(1) [OF P] assms(2,3)] True by blast
    have "0 \<le> xs ! i \<and> has_ref s (nat (xs ! i))" if "i < INTER_REFS_PER_FRAME" for i using xs(3) that by (auto simp: hinted_def)
    then have r: "refs_ok (s\<lparr>cm_remapped_ref_idx := xs\<rparr>)" by (simp add: refs_ok_def has_ref_def)
    have "-1 \<le> x \<and> x < int REF_FRAMES" if "x \<in> set xs" for x
      using that xs(2,3) by (fastforce simp: in_set_conv_nth hinted_def has_ref_def)
    then have "remapped_ok xs" using xs(2) by (simp add: remapped_ok_def)
    then show ?thesis using xs(1) assms(5) [OF P _ r] by simp
  qed
qed

lemma t_upt: "(\<And>i. a \<le> i \<Longrightarrow> i < n \<Longrightarrow> triple (P i) (f i) (\<lambda>_. P (Suc i)) E) \<Longrightarrow> a \<le> n \<Longrightarrow> triple (P a) (d_each f [a..<n]) (\<lambda>_. P n) E"
proof (induction "n - a" arbitrary: a)
  case 0
  then show ?case by (simp add: t_ret)
next
  case (Suc d)
  then have "triple (P (Suc a)) (d_each f [Suc a..<n]) (\<lambda>_. P n) E" "triple (P a) (f a) (\<lambda>_. P (Suc a)) E" by auto
  then show ?case using Suc.hyps(2) by (auto simp: upt_rec [of a n] intro: t_seq)
qed

lemma t_guard: "(\<And>s. P s \<Longrightarrow> b \<and> Q () s) \<Longrightarrow> triple P (d_guard b) Q E"
  by (auto simp: triple_def d_guard_def d_ret_def)

context frame_source
begin

text \<open>The references are being read; \<open>w\<close> is what decides later whether they are needed.\<close>

definition referring :: "nat set \<Rightarrow> int \<times> int \<Rightarrow> 'c AV1Decoder \<Rightarrow> bool" where
  "referring G w s \<longleftrightarrow> headed G False s \<and> (pbi_need_resync s, cf_frame_type s) = w"

lemma referring_failed: "referring G w s \<Longrightarrow> failed G s"
  unfolding referring_def by (blast intro: headed_failed)

lemma referring_remapped: "referring G w s \<Longrightarrow> remapped_ok xs \<Longrightarrow> referring G w (s\<lparr>cm_remapped_ref_idx := xs\<rparr>)"
  by (simp add: referring_def headed_defs)

lemma referring_hints: "referring G w s \<Longrightarrow> enable_order_hint (order_hint_info (cm_seq s)) \<noteq> 0 \<Longrightarrow> hints_on s"
  using reading_seq [of G False s] by (auto simp: referring_def headed_def hints_on_def seq_valid_def inter_valid_def)

lemma referring_shape: "referring G w s \<Longrightarrow> remapped_ok (cm_remapped_ref_idx s)"
  by (simp add: referring_def headed_defs)

lemma short_signaling_ok:
  "triple (\<lambda>s. referring G w s \<and> hints_on s) short_signaling (\<lambda>_ s. referring G w s \<and> refs_ok s) (failed G)"
  unfolding short_signaling_def
proof (rule t_get, goal_cases)
  case (1 s0)
  let ?J = "\<lambda>s. referring G w s \<and> hints_on s"
  have rd: "triple ?J (d_read (Literal 3)) (\<lambda>v s. (0 \<le> v \<and> v < 8) \<and> ?J s) (failed G)"
    by (rule t_read) (auto intro: referring_failed)
  have last: "triple ?J (av1_set_frame_refs (nat a) (nat b)) (\<lambda>_ s. referring G w s \<and> refs_ok s) (failed G)"
    if "0 \<le> a \<and> a < 8" "0 \<le> b \<and> b < 8" for a b
    by (rule set_frame_refs_triple) (use that in \<open>auto simp: REF_FRAMES_def intro: referring_failed referring_remapped\<close>)
  have chk: "triple ?J (d_check c e) (\<lambda>_. ?J) (failed G)" for c e by (rule t_check) (auto intro: referring_failed)
  show ?case
    by (rule t_conseq [OF t_bind [OF rd]], rule t_fact, rule t_bind [OF rd], rule t_fact, rule t_seq [OF chk], rule t_seq [OF chk], rule last)
      (use 1 in auto)
qed

lemma check_ref_id_keeps: "(\<And>s. J s \<Longrightarrow> E s) \<Longrightarrow> keeps J E (check_ref_id ref)"
  unfolding check_ref_id_def Let_def by (intro reading_intros)

lemma inter_ref_rest:
  assumes "\<And>s. J s \<Longrightarrow> failed G s" "\<And>s v. J s \<Longrightarrow> J (s\<lparr>cm_ref_frame_sign_bias := v\<rparr>)" "0 \<le> ref"
  shows "triple J (d_seq (d_guard (0 \<le> ref)) (d_get (\<lambda>s.
      d_seq (d_check (pbi_valid_for_referencing s ! nat ref \<noteq> 0) e)
      (d_seq (d_modify (\<lambda>s. s\<lparr>cm_ref_frame_sign_bias := (cm_ref_frame_sign_bias s)[i + 1 := 0]\<rparr>)) (check_ref_id ref))))) (\<lambda>_. J) (failed G)"
proof (rule t_seq [where R = J], rule t_guard, goal_cases)
  case 2
  show ?case using assms(1,2) by (intro keeps_triple keeps_intros keeps_check keeps_modify check_ref_id_keeps)
qed (use assms in simp_all)

lemma referring_bias: "referring G w s \<Longrightarrow> referring G w (s\<lparr>cm_ref_frame_sign_bias := v\<rparr>)"
  by (simp add: referring_def headed_defs)

lemma refs_upto_bias: "refs_upto n (s\<lparr>cm_ref_frame_sign_bias := v\<rparr>) = refs_upto n s"
  by (simp add: refs_upto_def has_ref_def)

lemma inter_ref_upto:
  assumes "0 \<le> ref"
  shows "triple (\<lambda>s. referring G w s \<and> refs_upto n s) (d_seq (d_guard (0 \<le> ref)) (d_get (\<lambda>s.
      d_seq (d_check (pbi_valid_for_referencing s ! nat ref \<noteq> 0) e)
      (d_seq (d_modify (\<lambda>s. s\<lparr>cm_ref_frame_sign_bias := (cm_ref_frame_sign_bias s)[i + 1 := 0]\<rparr>)) (check_ref_id ref)))))
    (\<lambda>_ s. referring G w s \<and> refs_upto n s) (failed G)"
  by (rule inter_ref_rest [OF _ _ assms]) (auto intro: referring_failed referring_bias simp: refs_upto_bias)

lemma inter_ref_short:
  assumes "i < INTER_REFS_PER_FRAME"
  shows "triple (\<lambda>s. referring G w s \<and> refs_upto INTER_REFS_PER_FRAME s) (inter_ref True i)
    (\<lambda>_ s. referring G w s \<and> refs_upto INTER_REFS_PER_FRAME s) (failed G)"
proof -
  let ?J = "\<lambda>s. referring G w s \<and> refs_upto INTER_REFS_PER_FRAME s"
  have "triple ?J (d_get (\<lambda>s. d_ret (cm_remapped_ref_idx s ! i))) (\<lambda>v s. 0 \<le> v \<and> ?J s) (failed G)"
    using assms by (intro t_get t_ret) (simp add: refs_upto_def)
  then show ?thesis unfolding inter_ref_def not_True_eq_False if_False by (rule t_bind) (intro t_fact inter_ref_upto)
qed

lemma inter_ref_read:
  assumes "i < INTER_REFS_PER_FRAME"
  shows "triple (\<lambda>s. referring G w s \<and> refs_upto i s) (inter_ref False i) (\<lambda>_ s. referring G w s \<and> refs_upto (Suc i) s) (failed G)"
proof -
  let ?J = "\<lambda>s. referring G w s \<and> refs_upto i s" and ?J' = "\<lambda>s. referring G w s \<and> refs_upto (Suc i) s"
  have rd: "triple ?J (d_read (Literal 3)) (\<lambda>v s. (0 \<le> v \<and> v < 8) \<and> ?J s) (failed G)"
    by (rule t_read) (auto intro: referring_failed)
  have set: "triple ?J (d_get (\<lambda>s. d_seq (d_check (cm_ref_frame_map s ! nat ref \<noteq> None) e)
      (d_seq (d_modify (\<lambda>s. s\<lparr>cm_remapped_ref_idx := (cm_remapped_ref_idx s)[i := ref]\<rparr>)) (d_ret ref)))) (\<lambda>v s. 0 \<le> v \<and> ?J' s) (failed G)"
    if r: "0 \<le> ref \<and> ref < 8" for ref e
  proof (rule t_get, goal_cases)
    case (1 s0)
    have "remapped_ok (cm_remapped_ref_idx s0)" using 1 referring_shape by blast
    then have len: "length (cm_remapped_ref_idx s0) = INTER_REFS_PER_FRAME" "remapped_ok ((cm_remapped_ref_idx s0)[i := ref])"
      using r by (auto simp: remapped_ok_def [of "cm_remapped_ref_idx s0"] REF_FRAMES_def intro!: remapped_update)
    have "?J' (s0\<lparr>cm_remapped_ref_idx := (cm_remapped_ref_idx s0)[i := ref]\<rparr>)" if "cm_ref_frame_map s0 ! nat ref \<noteq> None"
      using 1 that assms r len(1) referring_remapped [OF _ len(2)]
      by (auto simp: refs_upto_def has_ref_def nth_list_update less_Suc_eq REF_FRAMES_def)
    then show ?case using 1 r
      by (intro t_seq [OF t_check [where Q = "\<lambda>_ s. s = s0 \<and> cm_ref_frame_map s0 ! nat ref \<noteq> None"] t_seq [OF t_modify [where Q = "\<lambda>_. ?J'"] t_ret]])
        (auto intro: referring_failed)
  qed
  show ?thesis unfolding inter_ref_def not_False_eq_True if_True
    by (rule t_bind [where R = "\<lambda>v s. 0 \<le> v \<and> ?J' s"], rule t_bind [OF rd], intro t_fact set, assumption) (intro t_fact inter_ref_upto)
qed

lemma read_inter_refs_ok: "triple (referring G w) read_inter_refs (\<lambda>_ s. referring G w s \<and> refs_ok s) (failed G)"
  unfolding read_inter_refs_def
proof (rule t_get, goal_cases)
  case (1 s0)
  let ?hint = "enable_order_hint (order_hint_info (cm_seq s0)) \<noteq> 0"
  have flag: "triple (\<lambda>s. s = s0) (if ?hint then d_flag else d_ret 0) (\<lambda>v s. (v \<noteq> 0 \<longrightarrow> ?hint) \<and> s = s0) (failed G)"
    using 1 by (intro t_if t_read t_ret) (auto intro: referring_failed)
  show ?case
  proof (rule t_bind [OF flag], rule t_fact, goal_cases)
    case (1 short)
    have each: "triple (\<lambda>s. referring G w s \<and> refs_upto INTER_REFS_PER_FRAME s) (d_each (inter_ref True) [0..<INTER_REFS_PER_FRAME])
        (\<lambda>_ s. referring G w s \<and> refs_upto INTER_REFS_PER_FRAME s) (failed G)"
      by (rule t_each, rule inter_ref_short) simp
    have upto: "triple (\<lambda>s. referring G w s \<and> refs_upto 0 s) (d_each (inter_ref False) [0..<INTER_REFS_PER_FRAME])
        (\<lambda>_ s. referring G w s \<and> refs_upto INTER_REFS_PER_FRAME s) (failed G)"
      by (rule t_upt [where P = "\<lambda>i s. referring G w s \<and> refs_upto i s"]) (simp_all add: inter_ref_read)
    show ?case
    proof (cases "short = 0")
      case True
      then have s: "(short \<noteq> 0) = False" by simp
      show ?thesis using \<open>referring G w s0\<close> unfolding refs_upto_all [symmetric] s
        by (intro t_seq [OF t_when upto]) (simp_all add: refs_upto_def)
    next
      case False
      then have s: "(short \<noteq> 0) = True" by simp
      have h: "hints_on s0" using False 1 \<open>referring G w s0\<close> referring_hints by blast
      show ?thesis using \<open>referring G w s0\<close> h unfolding refs_upto_all [symmetric] s
        by (intro t_seq [OF t_when [OF t_conseq [OF short_signaling_ok [unfolded refs_upto_all [symmetric]]]] each]) simp_all
    qed
  qed
qed

end

section \<open>The whole header\<close>

definition prim_present :: "'c AV1Decoder \<Rightarrow> bool" where
  "prim_present s \<longleftrightarrow> ft_primary_ref_frame s = PRIMARY_REF_NONE \<or> get_primary_ref_frame_buf s \<noteq> None"

lemma refs_ok_view: "frame_view s = frame_view t \<Longrightarrow> refs_ok s = refs_ok t"
  by (simp add: frame_view_def refs_ok_def has_ref_def)

lemma prim_present_view: "frame_view s = frame_view t \<Longrightarrow> prim_present s = prim_present t"
  by (simp add: frame_view_def prim_present_def get_primary_ref_frame_buf_def get_ref_frame_buf_def get_ref_frame_map_idx_def Let_def)

context frame_source
begin

text \<open>The frame has its memory, and its references when it needs them.\<close>

definition sized :: "nat set \<Rightarrow> int \<times> int \<Rightarrow> bool \<Rightarrow> 'c AV1Decoder \<Rightarrow> bool" where
  "sized G w r s \<longleftrightarrow> headed G True s \<and> (pbi_need_resync s, cf_frame_type s) = w \<and> (r \<longrightarrow> refs_ok s)"

lemma sized_failed: "sized G w r s \<Longrightarrow> failed G s"
  unfolding sized_def by (blast intro: headed_failed)

lemma framed_sized:
  assumes "framed G True (frame_view s0) s" "referring G w s0" "r \<Longrightarrow> refs_ok s0"
  shows "sized G w r s"
  using assms refs_ok_view [of s s0] by (auto simp: sized_def framed_def referring_def frame_view_def)

lemma setup_frame_size_sized: "triple (referring G w) (setup_frame_size cbs env override) (\<lambda>_. sized G w False) (failed G)"
  unfolding triple_def
proof (intro allI impI, goal_cases)
  case (1 s rb)
  then have "framed G False (frame_view s) s" by (simp add: framed_def referring_def)
  then have "case setup_frame_size cbs env override (s, rb) of None \<Rightarrow> False
      | Some (Inr x, s', rb') \<Rightarrow> framed G True (frame_view s) s' | Some (Inl e, s', rb') \<Rightarrow> failed G s'"
    using setup_frame_size_ok [unfolded triple_def] by blast
  then show ?case using framed_sized [OF _ 1] by (auto split: option.splits sum.splits)
qed

lemma inter_size_sized:
  "triple (\<lambda>s. s = s0 \<and> referring G w s \<and> refs_ok s) (if b then setup_frame_size_with_refs cbs env else setup_frame_size cbs env override) (\<lambda>_. sized G w True) (failed G)"
proof (rule t_conseq [where P' = "\<lambda>s. framed G False (frame_view s0) s \<and> referring G w s0 \<and> refs_ok s0" and E' = "failed G"
      and Q' = "\<lambda>_ s. framed G True (frame_view s0) s \<and> referring G w s0 \<and> refs_ok s0"], goal_cases)
  case 1
  have size: "triple (framed G False (frame_view s0)) (if b then setup_frame_size_with_refs cbs env else setup_frame_size cbs env override)
      (\<lambda>_. framed G True (frame_view s0)) (failed G)" if "refs_ok s0"
    using that refs_ok_view by (intro t_if setup_frame_size_with_refs_ok setup_frame_size_ok) blast
  have "triple (\<lambda>s. (referring G w s0 \<and> refs_ok s0) \<and> framed G False (frame_view s0) s) (if b then setup_frame_size_with_refs cbs env else setup_frame_size cbs env override)
      (\<lambda>_ s. framed G True (frame_view s0) s \<and> referring G w s0 \<and> refs_ok s0) (failed G)"
    by (rule t_fact, rule t_conseq [OF size]) auto
  then show ?case by (rule t_conseq) auto
next
  case (2 s)
  then show ?case by (auto simp: framed_def referring_def)
next
  case (3 x s)
  then show ?case by (auto intro: framed_sized)
qed

lemma read_inter_frame_ok: "triple (referring G w) (read_inter_frame cbs env override) (\<lambda>_. sized G w True) (failed G)"
  unfolding read_inter_frame_def
proof (rule t_seq [OF read_inter_refs_ok], rule t_get, goal_cases)
  case (1 s0)
  note fail = sized_failed [where w = w and r = True]
  have tail: "keeps (sized G w True) (failed G) (d_bind (if c then d_ret 0 else d_flag) (\<lambda>hp. d_bind read_frame_interp_filter (\<lambda>filt. d_bind d_flag (\<lambda>sw.
       d_modify (\<lambda>s. s\<lparr>ft_allow_high_precision_mv := hp, ft_interp_filter := filt, ft_switchable_motion_mode := sw\<rparr>)))))" for c
    unfolding read_frame_interp_filter_def by (intro reading_intros fail) (simp_all add: sized_def headed_defs refs_ok_def has_ref_def)
  show ?case by (rule t_seq [OF t_conseq [OF inter_size_sized [where ?s0.0 = s0]] keeps_triple [OF tail]]) (use 1 in auto)
qed

end

context frame_source
begin

text \<open>The frame has its memory, unless the decoder waits for a frame to start from.\<close>

definition complete :: "nat set \<Rightarrow> int \<times> int \<Rightarrow> 'c AV1Decoder \<Rightarrow> bool" where
  "complete G w s \<longleftrightarrow> sized G w (snd w \<noteq> KEY_FRAME \<and> snd w \<noteq> INTRA_ONLY_FRAME) s \<or> fst w = 1 \<and> referring G w s"

definition header_read :: "nat set \<Rightarrow> int \<Rightarrow> 'c AV1Decoder \<Rightarrow> bool" where
  "header_read G n s \<longleftrightarrow> (headed G True s \<or> n = 1 \<and> headed G False s) \<and> prim_present s \<and> pbi_need_resync s = n"

lemma complete_failed: "complete G w s \<Longrightarrow> failed G s"
  unfolding complete_def using sized_failed referring_failed by blast

lemma complete_read: "complete G w s \<Longrightarrow> prim_present s \<Longrightarrow> header_read G (fst w) s"
  by (auto simp: complete_def header_read_def sized_def referring_def)

lemma header_read_failed: "header_read G n s \<Longrightarrow> failed G s"
  unfolding header_read_def using headed_failed by blast

lemma read_intrabc_keeps: "keeps (sized G w r) (failed G) read_intrabc"
  unfolding read_intrabc_def
  by (intro reading_intros sized_failed [where w = w and r = r]) (simp_all add: sized_def headed_defs refs_ok_def has_ref_def)

lemma intra_size_ok:
  "triple (referring G w) (d_seq (setup_frame_size cbs env override) read_intrabc) (\<lambda>_. sized G w False) (failed G)"
  by (rule t_seq [OF setup_frame_size_sized keeps_triple [OF read_intrabc_keeps]])

text \<open>The fields that are set once the frame has its memory.\<close>

lemma sized_fields:
  "sized G w r (s\<lparr>cm_ref_scale_factors := a\<rparr>) = sized G w r s" "sized G w r (s\<lparr>ft_allow_ref_frame_mvs := b\<rparr>) = sized G w r s"
  "sized G w r (s\<lparr>cm_prev_frame := c\<rparr>) = sized G w r s" "sized G w r (s\<lparr>ft_allow_ref_frame_mvs := b, cm_prev_frame := c\<rparr>) = sized G w r s"
  "referring G w (s\<lparr>ft_allow_ref_frame_mvs := b\<rparr>) = referring G w s" "referring G w (s\<lparr>cm_prev_frame := c\<rparr>) = referring G w s"
  by (simp_all add: sized_def referring_def headed_defs refs_ok_def has_ref_def)

lemma prim_present_fields:
  "prim_present (s\<lparr>cm_ref_scale_factors := a\<rparr>) = prim_present s" "prim_present (s\<lparr>ft_allow_ref_frame_mvs := b\<rparr>) = prim_present s"
  by (rule prim_present_view, simp add: frame_view_def)+

lemma scale_ref_keeps:
  assumes "1 \<le> i" "i \<le> 7"
  shows "keeps (\<lambda>s. sized G w True s \<and> prim_present s) (failed G) (scale_ref i)"
  unfolding scale_ref_def keeps_def
proof (rule t_get, goal_cases)
  case (1 s0)
  then obtain k where k: "get_ref_frame_buf s0 i = Some k" using refs_ok_buf assms by (auto simp: sized_def)
  have "keeps (\<lambda>s. sized G w True s \<and> prim_present s) (failed G) (d_seq (d_modify (\<lambda>s. s\<lparr>cm_ref_scale_factors := (cm_ref_scale_factors s)[m := sf]\<rparr>)) (d_check c e))" for m sf c e
    by (intro keeps_seq keeps_modify keeps_check) (auto simp: sized_fields prim_present_fields intro: sized_failed)
  from keeps_triple [OF this] show ?case unfolding k option.case Let_def by (rule t_conseq) (use 1 in auto)
qed

lemma t_get_keep: "(\<And>s0. P s0 \<Longrightarrow> triple P (g s0) Q E) \<Longrightarrow> triple P (d_get g) Q E"
  unfolding triple_def d_get_def by fastforce

lemma size_by_type:
  assumes "snd w \<noteq> KEY_FRAME"
  shows "triple (referring G w) (if snd w = INTRA_ONLY_FRAME then d_seq (setup_frame_size cbs env override) read_intrabc
      else d_when (fst w \<noteq> 1) (read_inter_frame cbs env override)) (\<lambda>_. complete G w) (failed G)"
proof (rule t_if, goal_cases)
  case 1
  show ?case by (rule t_conseq [OF intra_size_ok]) (use 1 in \<open>auto simp: complete_def\<close>)
next
  case 2
  show ?case by (rule t_when, rule t_conseq [OF read_inter_frame_ok]) (use 2 assms in \<open>simp_all add: complete_def\<close>)
qed

end

context frame_source
begin

lemma read_frame_refs_ok: "triple (headed G False) (read_frame_refs cbs env override) (\<lambda>_ s. \<exists>n. header_read G n s) (failed G)"
  unfolding read_frame_refs_def
proof (rule t_get, goal_cases)
  case (1 s0)
  define w where "w = (pbi_need_resync s0, cf_frame_type s0)"
  have w: "fst w = pbi_need_resync s0" "snd w = cf_frame_type s0" "referring G w s0" using 1 by (simp_all add: w_def referring_def)
  let ?J = "\<lambda>s. sized G w True s \<and> prim_present s"
  have key: "triple (referring G w) (d_seq (setup_frame_size cbs env override)
       (d_seq read_intrabc (d_modify (\<lambda>s. s\<lparr>ft_allow_ref_frame_mvs := 0, cm_prev_frame := None\<rparr>)))) (\<lambda>_ s. \<exists>n. header_read G n s) (failed G)"
    if "cf_frame_type s0 = KEY_FRAME"
  proof (rule t_seq [OF setup_frame_size_sized], rule t_seq [OF keeps_triple [OF read_intrabc_keeps]], rule t_modify)
    fix s assume "sized G w False s"
    then have "sized G w False (s\<lparr>ft_allow_ref_frame_mvs := 0, cm_prev_frame := None\<rparr>)" by (simp add: sized_fields)
    then show "\<exists>n. header_read G n (s\<lparr>ft_allow_ref_frame_mvs := 0, cm_prev_frame := None\<rparr>)"
      using that w by (auto simp: header_read_def sized_def headed_def prim_range_def frame_is_intra_only_def prim_present_def)
  qed
  have scale: "keeps ?J (failed G) (d_bind (if c then d_flag else d_ret 0) (\<lambda>v. d_seq (d_modify (\<lambda>s. s\<lparr>ft_allow_ref_frame_mvs := v\<rparr>))
       (d_each scale_ref [1, 2, 3, 4, 5, 6, 7])))" for c
    by (intro reading_intros scale_ref_keeps) (auto simp: sized_fields prim_present_fields intro: sized_failed)
  have last: "triple (complete G w) (d_get (\<lambda>s. d_seq (d_check (\<not> (ft_primary_ref_frame s \<noteq> PRIMARY_REF_NONE \<and> get_primary_ref_frame_buf s = None)) e)
        (d_when (cf_frame_type s \<noteq> INTRA_ONLY_FRAME \<and> pbi_need_resync s \<noteq> 1)
          (d_bind (if c s then d_flag else d_ret 0) (\<lambda>v. d_seq (d_modify (\<lambda>s. s\<lparr>ft_allow_ref_frame_mvs := v\<rparr>)) (d_each scale_ref [1, 2, 3, 4, 5, 6, 7]))))))
      (\<lambda>_ s. \<exists>n. header_read G n s) (failed G)" if "snd w \<noteq> KEY_FRAME" for c e
  proof (rule t_get, goal_cases)
    case (1 s1)
    then have ty: "(pbi_need_resync s1, cf_frame_type s1) = w" by (auto simp: complete_def sized_def referring_def)
    show ?case
    proof (rule t_seq [where R = "\<lambda>s. s = s1 \<and> prim_present s1"], goal_cases)
      case 1
      show ?case by (rule t_check) (use \<open>complete G w s1\<close> complete_failed in \<open>auto simp: prim_present_def\<close>)
    next
      case 2
      show ?case
      proof (rule t_when, goal_cases)
        case 1
        then have "sized G w True s1" using \<open>complete G w s1\<close> ty that by (auto simp: complete_def)
        then show ?case by (intro t_conseq [OF keeps_triple [OF scale]]) (auto intro: complete_read simp: header_read_def sized_def)
      next
        case (2 s)
        then show ?case using complete_read \<open>complete G w s1\<close> by blast
      qed
    qed
  qed
  have other: "triple (referring G w) (d_seq (d_modify (\<lambda>s. s\<lparr>ft_allow_ref_frame_mvs := 0\<rparr>)) (d_seq (if snd w = INTRA_ONLY_FRAME then d_seq (setup_frame_size cbs env override) read_intrabc
               else d_when (fst w \<noteq> 1) (read_inter_frame cbs env override)) (d_seq (d_modify (\<lambda>s. s\<lparr>cm_prev_frame := get_primary_ref_frame_buf s\<rparr>)) m)))
      (\<lambda>_ s. \<exists>n. header_read G n s) (failed G)"
    if "triple (complete G w) m (\<lambda>_ s. \<exists>n. header_read G n s) (failed G)" "snd w \<noteq> KEY_FRAME" for m
    by (rule t_seq [OF t_modify t_seq [OF size_by_type t_seq [OF t_modify that(1)]]]) (use that(2) in \<open>simp_all add: sized_fields complete_def\<close>)
  show ?case
    by (rule t_if; rule t_conseq, (erule key | rule other [OF last, unfolded w]))
     (use w in auto)
qed

end

context frame_source
begin

lemma header_read_set_frame: "same_block f \<Longrightarrow> header_read G n (set_frame f k s) = header_read G n s"
  using prim_present_view [of "set_frame f k s" s] by (simp add: header_read_def headed_set_frame)

lemma header_read_cur: "header_read G n s \<Longrightarrow> cm_cur_frame s \<noteq> None"
  unfolding header_read_def using headed_cur by blast

lemma header_read_fields:
  assumes "header_read G n s" "frame_view t = frame_view s" "headed G True s \<Longrightarrow> headed G True t" "headed G False s \<Longrightarrow> headed G False t"
  shows "header_read G n t"
  using assms prim_present_view [OF assms(2)] by (auto simp: header_read_def frame_view_def)

lemma headed_fields:
  "headed G f s \<Longrightarrow> headed G f (s\<lparr>cm_ref_frame_sign_bias := a\<rparr>)" "headed G f s \<Longrightarrow> headed G f (s\<lparr>cm_ref_frame_id := b, pbi_valid_for_referencing := c\<rparr>)"
  "headed G f s \<Longrightarrow> headed G f (s\<lparr>ft_refresh_frame_context := d\<rparr>)" "headed G f s \<Longrightarrow> headed G f (s\<lparr>lf_filter_level := e\<rparr>)"
  "headed G f s \<Longrightarrow> headed G f (s\<lparr>tl_cols := t1, tl_rows := t2, tl_log2_cols := t3, tl_log2_rows := t4, tl_single_tile_decoding := t5\<rparr>)"
  by (simp_all add: headed_defs)

lemma header_read_end_fields:
  "header_read G n s \<Longrightarrow> header_read G n (av1_setup_frame_sign_bias s)" "header_read G n s \<Longrightarrow> header_read G n (update_ref_frame_id s)"
  "header_read G n s \<Longrightarrow> header_read G n (s\<lparr>ft_refresh_frame_context := d\<rparr>)" "header_read G n s \<Longrightarrow> header_read G n (s\<lparr>lf_filter_level := e\<rparr>)"
  "header_read G n s \<Longrightarrow> header_read G n (s\<lparr>tl_cols := t1, tl_rows := t2, tl_log2_cols := t3, tl_log2_rows := t4, tl_single_tile_decoding := t5\<rparr>)"
  by (erule header_read_fields; simp add: frame_view_def av1_setup_frame_sign_bias_def update_ref_frame_id_def Let_def headed_fields)+

lemma header_read_set_cur:
  "(\<And>s. same_block (f s)) \<Longrightarrow> keeps (header_read G n) (failed G) (d_try (\<lambda>s. set_cur (f s) s))"
  by (intro keeps_set_cur header_read_cur) (auto simp: header_read_set_frame)

lemma frame_buf_refs_keeps: "keeps (header_read G n) (failed G) (d_try av1_setup_frame_buf_refs)"
  unfolding av1_setup_frame_buf_refs_def by (rule header_read_set_cur) (simp add: same_block_def)

lemma header_tail_ok:
  "triple (header_read G 0) (\<lambda>(s, rb). case he_rest env s rb of
          (Inl e, rb') \<Rightarrow> Some (Inl e, s, rb')
        | (Inr r, rb') \<Rightarrow>
            map_option (\<lambda>s'. (Inr (), s', rb')) (set_cur (\<lambda>b. b\<lparr>apply_grain := hr_apply_grain r\<rparr>)
              (s\<lparr>tl_cols := hr_cols r, tl_rows := hr_rows r, tl_log2_cols := hr_log2_cols r, tl_log2_rows := hr_log2_rows r,
                tl_single_tile_decoding := if pbi_ext_tile_debug s \<noteq> 0 \<and> tl_large_scale s \<noteq> 0
                  then av1_set_single_tile_decoding_mode (hr_no_filters r) (tl_large_scale s) else tl_single_tile_decoding s\<rparr>)))
     (\<lambda>_. header_read G 0) (failed G)"
  unfolding triple_def
proof (intro allI impI, goal_cases)
  case (1 s rb)
  have g: "header_read G 0 (set_frame (\<lambda>b. b\<lparr>apply_grain := a\<rparr>) k (s\<lparr>tl_cols := t1, tl_rows := t2, tl_log2_cols := t3, tl_log2_rows := t4,
      tl_single_tile_decoding := t5\<rparr>))" for a k t1 t2 t3 t4 t5
    using header_read_end_fields(5) [OF 1] by (subst header_read_set_frame) (simp_all add: same_block_def)
  have g': "header_read G 0 (set_frame (\<lambda>b. b\<lparr>apply_grain := a\<rparr>) k (s\<lparr>tl_cols := t1, tl_rows := t2, tl_log2_cols := t3, tl_log2_rows := t4\<rparr>))"
    for a k t1 t2 t3 t4 using g [where ?t5.0 = "tl_single_tile_decoding s"] by simp
  show ?case using header_read_cur [OF 1] header_read_failed [OF 1] g g' by (auto simp: set_cur_def split: prod.splits sum.splits)
qed

lemma read_frame_end_ok: "triple (header_read G n) (read_frame_end env) (\<lambda>_. header_read G 0) (failed G)"
proof -
  have ft: "keeps (header_read G n) (failed G) (d_try (\<lambda>s. set_cur (\<lambda>b. b\<lparr>rc_frame_type := cf_frame_type s\<rparr>) s))"
    by (rule header_read_set_cur) (simp add: same_block_def)
  have stamp: "keeps (header_read G n) (failed G) (d_try (\<lambda>s. set_cur (stamp_frame s) s))"
    by (rule header_read_set_cur) (rule stamp_frame_same)
  have ctx: "keeps (header_read G n) (failed G) (if b then d_bind d_flag (\<lambda>b. d_ret (if b \<noteq> 0 then 0 else 1)) else d_ret 0)" for b
    by (intro reading_intros header_read_failed [where n = n])
  have md: "keeps (header_read G n) (failed G) (d_modify av1_setup_frame_sign_bias)" "keeps (header_read G n) (failed G) (d_modify update_ref_frame_id)"
    "keeps (header_read G n) (failed G) (d_modify (\<lambda>s. s\<lparr>ft_refresh_frame_context := c\<rparr>))" for c
    by (rule keeps_modify, erule header_read_end_fields)+
  have lf: "keeps (header_read G 0) (failed G) (d_modify (\<lambda>s. if ft_allow_intrabc s \<noteq> 0 then s\<lparr>lf_filter_level := [0, 0]\<rparr> else s))"
    by (rule keeps_modify) (simp add: header_read_end_fields)
  have chk: "triple (header_read G n) (d_check (pbi_need_resync s = 0) e) (\<lambda>_. header_read G 0) (failed G)" if "header_read G n s" for s e
    using that by (intro t_check) (auto simp: header_read_def [of G n s] intro: header_read_failed)
  show ?thesis unfolding read_frame_end_def
    by (rule t_seq [OF keeps_triple [OF frame_buf_refs_keeps]], rule t_seq [OF keeps_triple [OF md(1)]], rule t_seq [OF keeps_triple [OF ft]],
        rule t_seq [OF keeps_triple [OF md(2)]], rule t_get_keep, rule t_bind [OF keeps_triple [OF ctx]], rule t_seq [OF keeps_triple [OF md(3)]],
        rule t_seq [OF keeps_triple [OF stamp]], rule t_seq [OF chk], assumption, rule t_seq [OF keeps_triple [OF lf] header_tail_ok])
qed

text \<open>A header that is read completely leaves a frame of its own with memory and with the entropy
  context of its primary reference, or a frame that is shown again.\<close>

definition header_done :: "nat set \<Rightarrow> 'c AV1Decoder \<Rightarrow> bool" where
  "header_done G s \<longleftrightarrow> (if cm_show_existing_frame s \<noteq> 0 then shared G s else current G True s \<and> prim_present s)"

lemma header_done_failed: "header_done G s \<Longrightarrow> failed G s"
  using shared_failed current_failed by (auto simp: header_done_def split: if_splits)

lemma header_read_done: "header_read G 0 s \<Longrightarrow> header_done G s"
  by (simp add: header_read_def header_done_def headed_def reading_def)

lemma read_uncompressed_header_ok:
  assumes "he_clear env = clear"
  shows "triple (current G False) (read_uncompressed_header cbs env) (\<lambda>_. header_done G) (failed G)"
proof -
  have own: "triple (reading G False) (d_seq read_frame_tools (d_bind read_frame_order (\<lambda>override. d_seq read_removal_times
        (d_seq (read_refresh_flags cbs) (d_seq (read_ref_order_hints cbs env) (d_seq (read_frame_refs cbs env override) (read_frame_end env)))))))
      (\<lambda>_. header_read G 0) (failed G)"
    by (rule t_seq [OF read_frame_tools_ok], rule t_bind [OF keeps_triple [OF read_frame_order_keeps]], rule t_seq [OF keeps_triple [OF read_removal_times_keeps]],
        rule t_seq [OF keeps_triple [OF read_refresh_flags_keeps]], rule t_seq [OF keeps_triple [OF read_ref_order_hints_keeps]],
        rule t_seq [OF read_frame_refs_ok], rule t_ex, rule read_frame_end_ok)
  show ?thesis unfolding read_uncompressed_header_def
  proof (rule t_bind [OF read_frame_start_ok [OF assms]], rule t_when, goal_cases)
    case (1 ex)
    then show ?case by (intro t_conseq [OF own]) (auto intro: header_read_done)
  next
    case (2 ex s)
    then show ?case by (simp add: header_done_def)
  qed
qed

lemma headers_and_setup_ok:
  assumes "he_clear env = clear"
  shows "triple (current G False) (av1_decode_frame_headers_and_setup cbs env trailing) (\<lambda>_. header_done G) (failed G)"
  unfolding av1_decode_frame_headers_and_setup_def
proof (rule t_seq [OF read_uncompressed_header_ok [OF assms]], rule t_seq [where R = "header_done G"], goal_cases)
  case 1
  show ?case by (rule t_when) (auto simp: triple_def intro: header_done_failed split: sum.splits)
next
  case 2
  show ?case using header_done_failed
    by (auto simp: triple_def Let_def d_seq_def d_bind_def d_when_def d_check_def d_ret_def d_throw_def d_guard_def header_done_def prim_present_def split: if_splits)
qed

end

end
