(* ===== verification/Decoder_Props.thy ===== *)
theory Decoder_Props
  imports Header_Frames
begin

text \<open>
  The decoder keeps its invariant from one temporal unit to the next, whatever the bytes are and
  whatever the tiles, the rest of the headers and the allocations answer: it returns, every frame
  of the pool is counted for its owners, and no frame is left behind.
\<close>

section \<open>Tile groups\<close>

context frame_source
begin

text \<open>Tiles are decoded into the current frame; \<open>v\<close> is the flag for its header.\<close>

definition tiling :: "nat set \<Rightarrow> int \<Rightarrow> 'c AV1Decoder \<Rightarrow> bool" where
  "tiling G v s \<longleftrightarrow> current G True s \<and> pbi_seen_frame_header s = v \<and> cm_show_existing_frame s = 0"

definition regrowing :: "nat set \<Rightarrow> nat \<Rightarrow> int \<Rightarrow> 'c AV1Decoder \<Rightarrow> bool" where
  "regrowing G k v s \<longleftrightarrow> cm_cur_frame s = Some k \<and> core G {k} s \<and> count (owners s) k = 1 \<and> pbi_seen_frame_header s = v \<and> cm_show_existing_frame s = 0"

lemma tiling_failed: "tiling G v s \<Longrightarrow> failed G s"
  unfolding tiling_def by (blast intro: current_failed)

lemma tiling_fields: "tiling G v (s\<lparr>cf_frame_number := n\<rparr>) = tiling G v s" "tiling G v (s\<lparr>pbi_next_start_tile := m\<rparr>) = tiling G v s"
  by (simp_all add: tiling_def inv_defs)

lemma release_block_ok':
  "triple (\<lambda>s. tiling G v s \<and> cm_cur_frame s = Some k) (release_block cbs k) (\<lambda>_. regrowing G k v) (failed G)"
  unfolding release_block_def
proof (rule t_lift, goal_cases)
  case (1 s)
  then obtain c where "release_fb_cb cbs (cb_priv (cm_pool s)) (raw_frame_buffer (pool_frame s k)) = Some (0, c)"
    "core G {k} (s\<lparr>cm_pool := (cm_pool s)\<lparr>cb_priv := c\<rparr>\<rparr>)" "count (owners s) k = 1"
    using current_give_back [of G s k] by (auto simp: tiling_def)
  then show ?case using 1 by (auto simp: regrowing_def tiling_def)
qed

lemma regrow_memory: "triple (regrowing G k v) (pool_memory cbs pick k w h border False) (\<lambda>_. tiling G v) (failed G)"
  unfolding pool_memory_def
proof (rule t_lift, goal_cases)
  case (1 s)
  then have c: "cm_cur_frame s = Some k" "count (owners s) k = 1" "core G {k} s" by (simp_all add: regrowing_def)
  obtain e p where "realloc_pool_frame cbs pick k w h (subsampling_x (cm_seq s)) (subsampling_y (cm_seq s)) (Sequence_Header.use_highbitdepth (cm_seq s))
      border (ft_byte_alignment s) (cm_pool s) = Some (e, p)"
    "if e = AOM_CODEC_OK then current G True (s\<lparr>cm_pool := p\<rparr>) else failed G (s\<lparr>cm_pool := p\<rparr>)"
    using current_memory [OF c(1,2), of True] c(3) by auto blast
  then show ?case using 1 by (simp add: Let_def tiling_def regrowing_def split: if_splits)
qed

lemma superres_keeps: "keeps (tiling G v) (failed G) (av1_superres_upscale cbs te)"
  unfolding av1_superres_upscale_def keeps_def
proof (rule t_get, rule t_when, goal_cases)
  case (1 s0)
  then obtain k where k: "cm_cur_frame s0 = Some k" by (auto simp: tiling_def current_def)
  show ?case unfolding k option.case
    by (rule t_seq [where R = "\<lambda>s. tiling G v s \<and> cm_cur_frame s = Some k"], rule t_check)
      (use 1 k in \<open>auto intro: tiling_failed t_seq [OF release_block_ok' regrow_memory]\<close>)
qed simp

lemma keeps_fail: "(\<And>s. J s \<Longrightarrow> E s) \<Longrightarrow> keeps J E (d_fail r)"
  unfolding d_fail_def by (cases r) (auto intro: keeps_ret keeps_throw)

lemma keeps_sum: "(\<And>s. J s \<Longrightarrow> E s) \<Longrightarrow> (\<And>x. keeps J E (g x)) \<Longrightarrow> keeps J E (case r of Inl e \<Rightarrow> d_throw e | Inr x \<Rightarrow> g x)"
  by (cases r) (auto intro: keeps_throw)

lemma tiles_keeps: "keeps (tiling G v) (failed G) (av1_decode_tg_tiles_and_wrapup cbs te data a b first)"
  unfolding av1_decode_tg_tiles_and_wrapup_def
  by (intro reading_intros keeps_fail keeps_sum superres_keeps tiling_failed [where v = v]) (simp_all add: tiling_fields)

lemma align_bits_keeps: "(\<And>s. J s \<Longrightarrow> E s) \<Longrightarrow> keeps J E (align_bits n)"
  by (induction n) (auto intro!: reading_intros)

lemma keeps_reader: "(\<And>s rb. keeps J E (g s rb)) \<Longrightarrow> keeps J E (\<lambda>(s, rb). g s rb (s, rb))"
  unfolding keeps_def triple_def by simp

lemma byte_alignment_keeps: "(\<And>s. J s \<Longrightarrow> E s) \<Longrightarrow> keeps J E byte_alignment"
  unfolding byte_alignment_def by (intro keeps_reader align_bits_keeps)

lemma read_tile_group_header_keeps: "keeps (tiling G v) (failed G) (read_tile_group_header implicit)"
proof -
  have pos: "keeps (tiling G v) (failed G) (\<lambda>(s, rb). Some (Inr (f rb), s, rb))" for f :: "aom_read_bit_buffer \<Rightarrow> int \<times> int \<times> int"
    by (simp add: keeps_def triple_def)
  show ?thesis unfolding read_tile_group_header_def Let_def
    by (rule keeps_reader, intro reading_intros pos tiling_failed [where v = v]) (simp_all add: tiling_fields)
qed

lemma read_one_tile_group_keeps: "keeps (tiling G v) (failed G) (read_one_tile_group_obu cbs te data first implicit)"
  unfolding read_one_tile_group_obu_def
  by (intro reading_intros read_tile_group_header_keeps byte_alignment_keeps tiles_keeps tiling_failed [where v = v])

end

section \<open>The loop over OBUs\<close>

context frame_source
begin

text \<open>The fields of the loop are not part of the invariant.\<close>

lemma current_loop_fields:
  "current G f (s\<lparr>pbi_seen_frame_header := x0\<rparr>) = current G f s" "current G f (s\<lparr>pbi_camera_frame_header_ready := x1\<rparr>) = current G f s"
  "current G f (s\<lparr>pbi_next_start_tile := x2\<rparr>) = current G f s" "current G f (s\<lparr>pbi_num_tile_groups := x3\<rparr>) = current G f s"
  "current G f (s\<lparr>tl_large_scale := x4, tl_single_tile_decoding := y4\<rparr>) = current G f s" "current G f (s\<lparr>cf_frame_number := x5\<rparr>) = current G f s"
  "current G f (s\<lparr>cm_temporal_layer_id := x6\<rparr>) = current G f s" "current G f (s\<lparr>cm_spatial_layer_id := x7\<rparr>) = current G f s"
  "current G f (s\<lparr>pbi_metadata := x8\<rparr>) = current G f s" "current G f (s\<lparr>pbi_decoding_first_frame := x9\<rparr>) = current G f s"
 
  by (simp_all add: current_def core_def shape_ok_def owners_def)

lemma shared_loop_fields:
  "shared G (s\<lparr>pbi_seen_frame_header := x0\<rparr>) = shared G s" "shared G (s\<lparr>pbi_camera_frame_header_ready := x1\<rparr>) = shared G s"
  "shared G (s\<lparr>pbi_next_start_tile := x2\<rparr>) = shared G s" "shared G (s\<lparr>pbi_num_tile_groups := x3\<rparr>) = shared G s"
  "shared G (s\<lparr>tl_large_scale := x4, tl_single_tile_decoding := y4\<rparr>) = shared G s" "shared G (s\<lparr>cf_frame_number := x5\<rparr>) = shared G s"
  "shared G (s\<lparr>cm_temporal_layer_id := x6\<rparr>) = shared G s" "shared G (s\<lparr>cm_spatial_layer_id := x7\<rparr>) = shared G s"
  "shared G (s\<lparr>pbi_metadata := x8\<rparr>) = shared G s" "shared G (s\<lparr>pbi_decoding_first_frame := x9\<rparr>) = shared G s"
 
  by (simp_all add: shared_def core_def shape_ok_def owners_def)

lemmas loop_fields = current_loop_fields shared_loop_fields

text \<open>Before its header the current frame is empty, after it the frame has memory, and a frame that
  is finished may be one that is shown again.\<close>

definition loop_ok :: "nat set \<Rightarrow> obu_loop \<Rightarrow> 'c AV1Decoder \<Rightarrow> bool" where
  "loop_ok G L s \<longleftrightarrow> (if ol_finished L then shared G s \<and> 0 < ol_data_end L
     else current G (pbi_seen_frame_header s \<noteq> 0) s \<and> (pbi_seen_frame_header s \<noteq> 0 \<longrightarrow> cm_show_existing_frame s = 0))"

lemma loop_ok_failed: "loop_ok G L s \<Longrightarrow> failed G s"
  using current_failed shared_failed by (auto simp: loop_ok_def split: if_splits)

lemma loop_ok_start: "loop_ok G L s \<Longrightarrow> \<not> ol_finished L \<Longrightarrow> pbi_seen_frame_header s = 0 \<Longrightarrow> current G False s"
  by (simp add: loop_ok_def)

lemma tile_group_obu_ok:
  assumes "\<not> ol_finished L" "0 < pos"
  shows "triple (loop_ok G L) (tile_group_obu cbs te f payload pos off L) (\<lambda>(n, L'). loop_ok G L') (failed G)"
  unfolding tile_group_obu_def
proof (rule t_get, goal_cases)
  case (1 s0)
  define v where "v = pbi_seen_frame_header s0"
  have tail: "triple (tiling G v) (d_seq (d_modify (\<lambda>s. s\<lparr>pbi_seen_frame_header := if finished then 0 else pbi_seen_frame_header s,
        pbi_next_start_tile := if finished then 0 else pbi_next_start_tile s, pbi_num_tile_groups := pbi_num_tile_groups s + 1\<rparr>))
        (d_ret (x, L\<lparr>ol_first_tg := False, ol_finished := finished, ol_data_end := pos + e + e'\<rparr>))) (\<lambda>(n, L'). loop_ok G L') (failed G)"
    if "v \<noteq> 0" for finished x e e'
  proof (rule t_seq [OF t_modify t_ret])
    fix s assume "tiling G v s"
    then have "current G True s" "pbi_seen_frame_header s \<noteq> 0" "cm_show_existing_frame s = 0" using that by (auto simp: tiling_def)
    then show "case (x, L\<lparr>ol_first_tg := False, ol_finished := finished, ol_data_end := pos + e + e'\<rparr>) of (n, L') \<Rightarrow> loop_ok G L' (s\<lparr>pbi_seen_frame_header := if finished then 0 else pbi_seen_frame_header s,
        pbi_next_start_tile := if finished then 0 else pbi_next_start_tile s, pbi_num_tile_groups := pbi_num_tile_groups s + 1\<rparr>)"
      using current_shared [of G True s] assms(2) by (simp add: loop_ok_def loop_fields)
  qed simp
  have v: "tiling G v s0" if "v \<noteq> 0" using 1 that assms by (simp add: loop_ok_def tiling_def v_def)
  show ?case
  proof (rule t_seq [where R = "\<lambda>s. v \<noteq> 0 \<and> tiling G v s"], goal_cases)
    case 1
    show ?case by (rule t_check) (use \<open>loop_ok G L s0\<close> v in \<open>auto simp: v_def intro: loop_ok_failed\<close>)
  next
    case 2
    show ?case
      by (rule t_fact, rule t_seq [OF keeps_triple [OF keeps_check]], erule tiling_failed, rule t_bind [OF keeps_triple [OF read_one_tile_group_keeps]], clarify, erule tail)
  qed
qed

lemma frame_header_obu_ok:
  assumes "he_clear env = clear" "\<not> ol_finished L" "0 < pos"
  shows "triple (loop_ok G L) (frame_header_obu cbs env t payload pos L) (\<lambda>L' s. \<not> ol_finished L' \<and> (cm_show_existing_frame s \<noteq> 0 \<longrightarrow> 0 < ol_data_end L') \<and>
    pbi_seen_frame_header s \<noteq> 0 \<and> (if cm_show_existing_frame s \<noteq> 0 then shared G s else current G True s)) (failed G)"
  unfolding frame_header_obu_def
proof (rule t_get, goal_cases)
  case (1 s0)
  note ok = 1
  let ?Q = "\<lambda>L' s. \<not> ol_finished L' \<and> (cm_show_existing_frame s \<noteq> 0 \<longrightarrow> 0 < ol_data_end L') \<and> pbi_seen_frame_header s \<noteq> 0 \<and> (if cm_show_existing_frame s \<noteq> 0 then shared G s else current G True s)"
  have fresh: "triple (current G False) (d_bind (av1_decode_frame_headers_and_setup cbs env tr) (\<lambda>n. d_get (\<lambda>s.
        d_seq (d_modify (\<lambda>s. s\<lparr>pbi_seen_frame_header := 1, pbi_camera_frame_header_ready := c s\<rparr>))
          (d_ret (L\<lparr>ol_frame_header := payload, ol_frame_header_size := n,
            ol_data_end := if cm_show_existing_frame s \<noteq> 0 then pos + nat n else ol_data_end L\<rparr>))))) ?Q (failed G)" for tr c
  proof (rule t_bind [OF headers_and_setup_ok [OF assms(1)]], rule t_get, goal_cases)
    case (1 n s1)
    show ?case
      by (rule t_seq [OF t_modify [where Q = "\<lambda>_ s. pbi_seen_frame_header s \<noteq> 0 \<and> cm_show_existing_frame s = cm_show_existing_frame s1 \<and>
          (if cm_show_existing_frame s \<noteq> 0 then shared G s else current G True s)"] t_ret])
        (use assms(2,3) 1 in \<open>simp_all add: header_done_def loop_fields\<close>)
  qed
  have chk: "triple (\<lambda>s. s = s0) (d_check c e) (\<lambda>_ s. c \<and> s = s0) (failed G)" for c e
    by (rule t_check) (use ok in \<open>auto intro: loop_ok_failed\<close>)
  have again: "triple (\<lambda>s. s = s0) (\<lambda>(s, rb). Some (Inr L, s, rb\<lparr>rb_bit_offset := n\<rparr>)) ?Q (failed G)" if "pbi_seen_frame_header s0 \<noteq> 0" for n
    using ok that assms(2) current_shared [of G True s0] by (auto simp: triple_def loop_ok_def)
  show ?case
  proof (rule t_seq [OF chk], rule t_fact, rule t_if, goal_cases)
    case 1
    then have "current G False s0" using loop_ok_start [OF ok assms(2)] by (auto split: if_splits)
    then show ?case by (intro t_conseq [OF fresh]) auto
  next
    case 2
    then show ?case by (intro t_seq [OF chk] t_fact again) auto
  qed
qed

lemma frame_obu_ok:
  assumes "he_clear env = clear" "\<not> ol_finished L" "0 < pos"
  shows "triple (loop_ok G L) (frame_obu cbs env te header payload pos avail L) (\<lambda>(n, L'). loop_ok G L') (failed G)"
  unfolding frame_obu_def Let_def
proof (rule t_bind [OF frame_header_obu_ok [OF assms]], goal_cases)
  case (1 L')
  let ?J = "\<lambda>s. (cm_show_existing_frame s \<noteq> 0 \<longrightarrow> 0 < ol_data_end L') \<and> pbi_seen_frame_header s \<noteq> 0 \<and> (if cm_show_existing_frame s \<noteq> 0 then shared G s else current G True s)"
  have JE: "?J s \<Longrightarrow> failed G s" for s using shared_failed current_failed by (auto split: if_splits)
  have JS: "?J s \<Longrightarrow> shared G s" for s using current_shared by (auto split: if_splits)
  have id: "keeps ?J (failed G) (d_try (set_cur f))" if "same_block f" for f
    by (rule keeps_set_cur [of _ "\<lambda>_. f"], drule JS, simp add: shared_def) (use that in \<open>simp add: set_frame_shared set_frame_current\<close>)
  show ?case
  proof (rule t_fact, rule t_seq [OF keeps_triple [OF id]], goal_cases)
    case 2
    note L' = this
    show ?case
    proof (rule t_get, goal_cases)
      case (1 s0)
      note s0 = this JE [OF this] JS [OF this]
      have shown: "cm_show_existing_frame s0 \<noteq> 0 \<Longrightarrow> triple (\<lambda>s. s = s0) (d_seq (d_check c e) (d_seq (d_modify (\<lambda>s. s\<lparr>pbi_seen_frame_header := 0, cf_frame_number := m s\<rparr>))
          (d_ret (n, L'\<lparr>ol_finished := True\<rparr>)))) (\<lambda>(n, L'). loop_ok G L') (failed G)" for c e m n
        by (rule t_seq [where R = "\<lambda>s. s = s0"], rule t_check, simp, use s0 in blast, rule t_seq [where R = "shared G"], rule t_modify)
          (use s0 in \<open>auto simp: loop_fields loop_ok_def intro!: t_ret\<close>)
      have same: "loop_ok G L' s0" if "cm_show_existing_frame s0 = 0" using s0 that L' by (simp add: loop_ok_def)
      have camera: "triple (\<lambda>s. s = s0) (d_ret (n, L'\<lparr>ol_finished := True, ol_data_end := pos + d\<rparr>)) (\<lambda>(n, L'). loop_ok G L') (failed G)" for n d
        by (rule t_ret) (use s0 assms(3) in \<open>simp add: loop_ok_def\<close>)
      have tiles: "triple (\<lambda>s. s = s0) (d_seq byte_alignment (tile_group_obu cbs te True payload pos n L')) (\<lambda>(n, L'). loop_ok G L') (failed G)"
        if "cm_show_existing_frame s0 = 0" for n
        by (rule t_conseq [OF t_seq [OF keeps_triple [OF byte_alignment_keeps] tile_group_obu_ok]]) (use L' assms(3) same [OF that] in \<open>auto intro: loop_ok_failed\<close>)
      show ?case by (intro t_if shown camera tiles) (auto intro!: t_ret simp: same)
    qed
  qed (simp add: same_block_def)
qed

end

lemma sequence_header_state:
  assumes "seq_state_ok pbi" "read_sequence_header_obu pbi rb = (r, pbi')"
  shows "seq_state_ok pbi'"
proof -
  have a: "arrays_ok (ds_seq_params pbi)" using assms(1) by (simp add: seq_state_ok_def)
  from sequence_header_result [OF a assms(2)] show ?thesis
    using assms(1) by (auto simp: seq_state_ok_def seq_valid_def points_valid_def split: sum.splits)
qed

context frame_source
begin

lemma loop_ok_ds: "loop_ok G L s \<Longrightarrow> seq_state_ok ds \<Longrightarrow> loop_ok G L (s\<lparr>pbi_ds := ds\<rparr>)"
  by (auto simp: loop_ok_def current_def shared_def core_def shape_ok_def owners_def split: if_splits)

lemma loop_ok_seq: "loop_ok G L s \<Longrightarrow> seq_state_ok (pbi_ds s)"
  by (auto simp: loop_ok_def current_def shared_def core_def shape_ok_def split: if_splits)

lemma sequence_obu_keeps: "keeps (loop_ok G L) (failed G) sequence_obu"
  unfolding keeps_def triple_def
proof (intro allI impI, goal_cases)
  case (1 s rb)
  obtain r ds where r: "read_sequence_header_obu (pbi_ds s) rb = (r, ds)" by fastforce
  then have "loop_ok G L (s\<lparr>pbi_ds := ds\<rparr>)" using sequence_header_state loop_ok_seq loop_ok_ds 1 by blast
  then show ?case using r loop_ok_failed by (cases r) (auto simp: sequence_obu_def)
qed

lemma metadata_obu_keeps: "keeps (loop_ok G L) (failed G) (metadata_obu te payload ext)"
  unfolding keeps_def metadata_obu_def
proof (rule t_lift, goal_cases)
  case (1 s)
  have "loop_ok G L (s\<lparr>pbi_metadata := md\<rparr>)" for md using 1 by (simp add: loop_ok_def loop_fields)
  then show ?case using loop_ok_failed by (auto split: prod.splits sum.splits)
qed

text \<open>The pictures of the frames are not part of the invariant either.\<close>

lemma set_frames_keep:
  assumes "\<And>k. same_block (f k)"
  shows "current G m (fold (\<lambda>k. set_frame (f k) k) ks s) = current G m s"
    "pbi_seen_frame_header (fold (\<lambda>k. set_frame (f k) k) ks s) = pbi_seen_frame_header s"
    "cm_show_existing_frame (fold (\<lambda>k. set_frame (f k) k) ks s) = cm_show_existing_frame s"
proof -
  have "pbi_seen_frame_header (set_frame g k t) = pbi_seen_frame_header t" "cm_show_existing_frame (set_frame g k t) = cm_show_existing_frame t" for g k t
    by (simp_all add: set_frame_def)
  then show "current G m (fold (\<lambda>k. set_frame (f k) k) ks s) = current G m s"
    "pbi_seen_frame_header (fold (\<lambda>k. set_frame (f k) k) ks s) = pbi_seen_frame_header s"
    "cm_show_existing_frame (fold (\<lambda>k. set_frame (f k) k) ks s) = cm_show_existing_frame s"
    using assms by (induction ks arbitrary: s) (simp_all add: set_frame_current)
qed

lemma set_pictures_loop_ok: "\<not> ol_finished L \<Longrightarrow> loop_ok G L s \<Longrightarrow> loop_ok G L (set_pictures pics (s\<lparr>cf_frame_number := n\<rparr>))"
  by (simp add: set_pictures_def loop_ok_def set_frames_keep loop_fields same_block_def)

lemma tile_list_obu_ok:
  assumes "\<not> ol_finished L" "0 < pos"
  shows "triple (loop_ok G L) (tile_list_obu te payload pos L) (\<lambda>(n, L'). loop_ok G L') (failed G)"
proof -
  have chk: "triple (loop_ok G L) (d_check c e) (\<lambda>_. loop_ok G L) (failed G)" for c e by (rule t_check) (auto intro: loop_ok_failed)
  have large: "triple (loop_ok G L) (d_modify (\<lambda>s. s\<lparr>tl_large_scale := 1, tl_single_tile_decoding := m s\<rparr>)) (\<lambda>_. loop_ok G L) (failed G)" for m
    by (rule t_modify) (simp add: loop_ok_def loop_fields)
  have pics: "triple (loop_ok G L) (d_modify (\<lambda>s. set_pictures p (s\<lparr>cf_frame_number := n\<rparr>))) (\<lambda>_. loop_ok G L) (failed G)" for p n
    by (rule t_modify) (rule set_pictures_loop_ok [OF assms(1)])
  have out: "triple (loop_ok G L) (case r of Inl e \<Rightarrow> d_throw e
      | Inr (n, reach, finished) \<Rightarrow> d_ret (n, L\<lparr>ol_finished := finished, ol_data_end := pos + reach\<rparr>)) (\<lambda>(n, L'). loop_ok G L') (failed G)" for r
    using assms current_shared by (auto simp: loop_ok_def intro!: t_ret t_throw intro: current_failed split: sum.splits)
  show ?thesis unfolding tile_list_obu_def
    by (rule t_get_keep, rule t_seq [OF chk], rule t_seq [OF large], rule t_get_keep) (auto intro!: t_seq [OF pics out] split: prod.splits)
qed

lemma decode_obu_ok:
  assumes "he_clear env = clear" "\<not> ol_finished L" "0 < pos"
  shows "triple (loop_ok G L) (decode_obu cbs env te header payload pos avail L) (\<lambda>(n, L'). loop_ok G L') (failed G)"
proof -
  let ?Q = "\<lambda>(n, L'). loop_ok G L'"
  have chk: "triple (loop_ok G L) (d_check c e) (\<lambda>_. loop_ok G L) (failed G)" for c e by (rule t_check) (auto intro: loop_ok_failed)
  have ret: "triple (loop_ok G L) (d_ret (n, L)) ?Q (failed G)" for n by (rule t_ret) simp
  have throw: "triple (loop_ok G L) (d_throw e) ?Q (failed G)" for e by (rule t_throw) (rule loop_ok_failed)
  have delim: "triple (loop_ok G L) (d_get (\<lambda>s. d_seq (d_check (c s) e) (d_ret (0, L)))) ?Q (failed G)" for c e
    by (rule t_get_keep, rule t_seq [OF chk ret])
  have pad: "triple (loop_ok G L) (case read_padding payload of Inl e \<Rightarrow> d_throw e | Inr n \<Rightarrow> d_ret (int n, L)) ?Q (failed G)"
    by (cases "read_padding payload") (simp_all add: throw ret)
  show ?thesis unfolding decode_obu_def Let_def
    by (intro t_if delim tile_list_obu_ok pad frame_obu_ok tile_group_obu_ok assms t_bind [OF keeps_triple [OF sequence_obu_keeps] ret]
      t_bind [OF keeps_triple [OF metadata_obu_keeps] ret] t_seq [OF chk ret])
qed

end

context frame_source
begin

text \<open>What the loop leaves: an error and the frame it was about, or a frame that is decoded or empty.\<close>

definition obus_result :: "nat set \<Rightarrow> bool \<Rightarrow> ((aom_codec_err + bool) \<times> nat \<times> 'c AV1Decoder) option \<Rightarrow> bool" where
  "obus_result G b r \<longleftrightarrow> (case r of None \<Rightarrow> False | Some (Inl e, reach, s) \<Rightarrow> failed G s | Some (Inr d, reach, s) \<Rightarrow> shared G s \<and> (b \<longrightarrow> 0 < reach))"

lemma obus_result_simps: "obus_result G b None = False" "obus_result G b (Some (Inl e, n, s)) = failed G s"
  "obus_result G b (Some (Inr d, n, s)) \<longleftrightarrow> shared G s \<and> (b \<longrightarrow> 0 < n)"
  by (simp_all add: obus_result_def)

lemma decode_obus_ok:
  assumes "he_clear env = clear"
  shows "loop_ok G L s \<Longrightarrow> obus_result G (data \<noteq> [] \<or> 0 < pos) (decode_obus cbs env te data pos L s)"
proof (induction "length data" arbitrary: data pos L s rule: less_induct)
  case less
  note run = decode_obus.simps [of cbs env te data pos L s]
  have fail: "failed G s" using less.prems loop_ok_failed by blast
  consider (fin) "ol_finished L" | (empty) "\<not> ol_finished L" "data = []" "pbi_seen_frame_header s = 0"
    | (bad) e where "\<not> ol_finished L" "\<not> (data = [] \<and> pbi_seen_frame_header s = 0)" "aom_read_obu_header_and_size data (pbi_is_annexb s \<noteq> 0) = Inl e"
    | (obu) header payload_size bytes_read where "\<not> ol_finished L" "\<not> (data = [] \<and> pbi_seen_frame_header s = 0)"
        "aom_read_obu_header_and_size data (pbi_is_annexb s \<noteq> 0) = Inr (header, payload_size, bytes_read)"
    by (cases "aom_read_obu_header_and_size data (pbi_is_annexb s \<noteq> 0)") auto
  then show ?case
  proof cases
    case fin
    then show ?thesis using less.prems run by (simp add: obus_result_def loop_ok_def)
  next
    case empty
    then show ?thesis using less.prems run current_shared by (auto simp: obus_result_def loop_ok_def)
  next
    case bad
    then show ?thesis using fail run by (auto simp: obus_result_def)
  next
    case obu
    define rest where "rest = drop bytes_read data"
    define t where "t = s\<lparr>cm_temporal_layer_id := oh_temporal_layer_id header, cm_spatial_layer_id := oh_spatial_layer_id header\<rparr>"
    have t: "loop_ok G L t" using less.prems by (simp add: t_def loop_ok_def loop_fields)
    have b: "0 < bytes_read" "data \<noteq> []" using obu_header_progress [OF obu(3)] by auto
    have IH: "obus_result G True (decode_obus cbs env te (drop payload_size rest) (pos + bytes_read + payload_size) L' s')" if "loop_ok G L' s'" for L' s'
      using less.hyps [OF _ that, of "drop payload_size rest" "pos + bytes_read + payload_size"] b by (simp add: rest_def)
    obtain o' where step: "decode_obu cbs env te header (take payload_size rest) (pos + bytes_read) (length rest) L (t, obu_payload_reader (take payload_size rest)) = o'"
      by blast
    have o: "case o' of None \<Rightarrow> False | Some (Inr x, s', rb') \<Rightarrow> (case x of (n, L') \<Rightarrow> loop_ok G L') s' | Some (Inl e, s', rb') \<Rightarrow> failed G s'"
      unfolding step [symmetric] by (rule decode_obu_ok [OF assms obu(1) _, unfolded triple_def, rule_format, OF _ t]) (simp add: b)
    note run' = run [unfolded Let_def obu(3) sum.case prod.case, folded rest_def, folded t_def, unfolded if_not_P [OF obu(1)] if_not_P [OF obu(2)] step]
    show ?thesis unfolding run' using fail IH t o loop_ok_failed b
      by (auto simp: obus_result_simps split: option.splits sum.splits prod.splits)
  qed
qed

end

section \<open>A temporal unit\<close>

context frame_source
begin

text \<open>Between two calls there is no current frame.\<close>

definition idle :: "nat set \<Rightarrow> 'c AV1Decoder \<Rightarrow> bool" where
  "idle G s \<longleftrightarrow> core G {} s \<and> cm_cur_frame s = None"

lemma idle_error: "idle G (set_pbi_error e s) = idle G s"
  by (simp add: idle_def set_pbi_error_def core_def shape_ok_def owners_def)

lemma idle_set_frame: "same_block f \<Longrightarrow> idle G (set_frame f k s) = idle G s"
  by (simp add: idle_def set_frame_core)

lemma failed_error: "failed G s \<Longrightarrow> failed G (set_pbi_error e s)"
  by (auto simp: failed_def set_pbi_error_def core_def shape_ok_def owners_def)

lemma decode_frame_ok:
  assumes "he_clear env = clear" "current G False s"
  shows "obus_result G (data \<noteq> []) (aom_decode_frame_from_obus cbs env te data s)"
  unfolding aom_decode_frame_from_obus_def
  using decode_obus_ok [OF assms(1), where pos = 0 and data = data] assms(2) by (auto simp: loop_ok_def loop_fields)

lemma receive_ok:
  assumes env: "he_clear env = clear" and s: "idle G s"
  shows "\<exists>r reach s'. av1_receive_compressed_data cbs env te data s = Some (r, reach, s') \<and> idle G s' \<and> (r = 0 \<longrightarrow> data \<noteq> [] \<longrightarrow> 0 < reach)"
proof -
  define s1 where "s1 = set_pbi_error AOM_CODEC_OK s"
  define s2 where "s2 = (if data = [] then case get_ref_frame_buf s1 1 of None \<Rightarrow> s1 | Some k \<Rightarrow> set_frame mark_corrupted k s1 else s1)"
  have "idle G s1" using s by (simp add: s1_def idle_error)
  then have "idle G s2" by (auto simp: s2_def idle_set_frame [OF mark_corrupted_same] split: option.splits)
  then obtain k p where new: "assign_cur_frame_new_fb s2 = (True, s2\<lparr>cm_cur_frame := Some k, cm_pool := p\<rparr>)"
    "current G False (s2\<lparr>cm_cur_frame := Some k, cm_pool := p\<rparr>)" using new_frame_ok unfolding idle_def by blast
  define s3 where "s3 = s2\<lparr>cm_cur_frame := Some k, cm_pool := p\<rparr>"
  note new3 = new [folded s3_def]
  have res: "obus_result G (data \<noteq> []) (aom_decode_frame_from_obus cbs env te data s3)" by (rule decode_frame_ok [OF env new3(2)])
  then obtain r reach s4 where r: "aom_decode_frame_from_obus cbs env te data s3 = Some (r, reach, s4)"
    by (cases "aom_decode_frame_from_obus cbs env te data s3") (auto simp: obus_result_simps)
  note run = av1_receive_compressed_data_def [of cbs env te data s, unfolded Let_def, folded s1_def, folded s2_def, unfolded new3(1)]
  show ?thesis
  proof (cases r)
    case (Inl e)
    then have "failed G (set_pbi_error e s4)" using res r failed_error by (simp add: obus_result_simps)
    then obtain s5 where "release_current_frame cbs (set_pbi_error e s4) = Some s5" "core G {} s5" "cm_cur_frame s5 = None" using release_current_ok by blast
    then show ?thesis unfolding run using r Inl by (simp add: idle_def)
  next
    case (Inr d)
    then have sh: "shared G s4" "data \<noteq> [] \<longrightarrow> 0 < reach" using res r by (simp_all add: obus_result_simps)
    obtain s5 where "update_frame_buffers cbs d s4 = Some s5" "core G {} s5" "cm_cur_frame s5 = None" using update_frame_buffers_ok [OF sh(1)] by blast
    then show ?thesis unfolding run using r Inr sh(2) by (simp add: idle_def core_def shape_ok_def owners_def)
  qed
qed

end

end
