(* ===== verification/Decoder_Errors.thy ===== *)
theory Decoder_Errors
  imports Decoder
begin

text \<open>
  An error is reported as one: no computation of the decoder ends in an error whose code is
  \<open>AOM_CODEC_OK\<close>, as long as the parts that are arguments do not.
\<close>

definition errs :: "('s, 'a) comp \<Rightarrow> bool" where
  "errs m \<longleftrightarrow> (\<forall>st e st'. m st = Some (Inl e, st') \<longrightarrow> e \<noteq> AOM_CODEC_OK)"

named_theorems errs_intros

lemma errs_ret [errs_intros]: "errs (d_ret x)"
  by (auto simp: errs_def d_ret_def)

lemma errs_throw [errs_intros]: "e \<noteq> AOM_CODEC_OK \<Longrightarrow> errs (d_throw e)"
  by (auto simp: errs_def d_throw_def)

lemma errs_bind [errs_intros]: "errs m \<Longrightarrow> (\<And>x. errs (g x)) \<Longrightarrow> errs (d_bind m g)"
  unfolding errs_def d_bind_def by (fastforce split: option.splits sum.splits)

lemma errs_seq [errs_intros]: "errs m \<Longrightarrow> errs n \<Longrightarrow> errs (d_seq m n)"
  unfolding d_seq_def by (rule errs_bind)

lemma errs_get [errs_intros]: "(\<And>s. errs (g s)) \<Longrightarrow> errs (d_get g)"
  by (fastforce simp: errs_def d_get_def)

lemma errs_modify [errs_intros]: "errs (d_modify f)"
  by (auto simp: errs_def d_modify_def)

lemma errs_try [errs_intros]: "errs (d_try f)"
  by (auto simp: errs_def d_try_def)

lemma errs_read [errs_intros]: "errs (d_read f)"
  by (auto simp: errs_def d_read_def split: prod.splits if_splits)

lemma errs_check [errs_intros]: "e \<noteq> AOM_CODEC_OK \<Longrightarrow> errs (d_check b e)"
  unfolding d_check_def by (auto intro: errs_ret errs_throw)

lemma errs_guard [errs_intros]: "errs (d_guard b)"
  by (auto simp: errs_def d_guard_def d_ret_def)

lemma errs_if [errs_intros]: "errs m \<Longrightarrow> errs n \<Longrightarrow> errs (if b then m else n)"
  by simp

lemma errs_when [errs_intros]: "errs m \<Longrightarrow> errs (d_when b m)"
  by (simp add: d_when_def errs_ret)

lemma errs_let [errs_intros]: "(\<And>x. errs (g x)) \<Longrightarrow> errs (let x = a in g x)"
  by simp

lemma errs_prod [errs_intros]: "(\<And>x y. errs (g x y)) \<Longrightarrow> errs (case p of (x, y) \<Rightarrow> g x y)"
  by (cases p) simp

lemma errs_option [errs_intros]: "errs m \<Longrightarrow> (\<And>x. errs (g x)) \<Longrightarrow> errs (case r of None \<Rightarrow> m | Some x \<Rightarrow> g x)"
  by (cases r) auto

lemma errs_undefined [errs_intros]: "errs (\<lambda>_. None)"
  by (simp add: errs_def)

lemma errs_each [errs_intros]: "(\<And>i. errs (f i)) \<Longrightarrow> errs (d_each f is)"
  by (induction "is") (auto intro: errs_intros)

lemma errs_lift: "(\<And>s e s'. f s = Some (Inl e, s') \<Longrightarrow> e \<noteq> AOM_CODEC_OK) \<Longrightarrow> errs (d_lift f)"
  by (auto simp: errs_def d_lift_def)

section \<open>The frame header\<close>

definition header_errs :: "'c header_env \<Rightarrow> bool" where
  "header_errs env \<longleftrightarrow> (\<forall>s rb. fst (he_rest env s rb) \<noteq> Inl AOM_CODEC_OK)"

lemma errs_pool_memory [errs_intros]: "errs (pool_memory cbs pick k w h border giveback)"
  unfolding pool_memory_def by (rule errs_lift) (auto simp: Let_def split: bind_splits if_splits)

lemma errs_sizes [errs_intros]:
  "errs (read_frame_size a b)" "errs setup_render_size" "errs (setup_superres w h)" "errs (resize_context_buffers env w h)" "errs (setup_buffer_pool cbs env)"
  unfolding read_frame_size_def setup_render_size_def setup_superres_def resize_context_buffers_def setup_buffer_pool_def
  by (intro errs_intros; simp)+

lemma errs_size_from_refs [errs_intros]: "errs (size_from_refs env is)"
  by (induction "is") (auto intro!: errs_intros)

lemma errs_frame_size [errs_intros]: "errs (setup_frame_size cbs env f)" "errs (setup_frame_size_with_refs cbs env)"
  unfolding setup_frame_size_def setup_frame_size_with_refs_def by (intro errs_intros; simp)+

lemma errs_set_frame_refs [errs_intros]: "errs (av1_set_frame_refs a b)"
  unfolding av1_set_frame_refs_def by (intro errs_intros; simp)+

lemma errs_start [errs_intros]: "errs read_temporal_point_info" "errs (new_sequence cbs env)"
  unfolding read_temporal_point_info_def new_sequence_def by (intro errs_intros; simp)+

lemma errs_frame_start [errs_intros]: "errs (show_existing cbs)" "errs (read_frame_type cbs env)" "errs read_frame_tools" "errs read_frame_id_number"
  unfolding show_existing_def read_frame_type_def read_frame_tools_def read_frame_id_number_def by (intro errs_intros; simp)+

lemma errs_frame_order [errs_intros]: "errs (read_frame_start cbs env)" "errs read_frame_order" "errs (read_removal_time i)" "errs (read_refresh_flags cbs)"
  "errs (missing_ref cbs env j)" "errs short_signaling" "errs (check_ref_id r)"
  unfolding read_frame_start_def read_frame_order_def read_removal_time_def read_refresh_flags_def missing_ref_def short_signaling_def check_ref_id_def
  by (intro errs_intros; simp)+

lemma errs_refs [errs_intros]: "errs read_removal_times" "errs (read_ref_order_hints cbs env)" "errs (inter_ref short i)" "errs read_frame_interp_filter"
  "errs (scale_ref k)" "errs read_intrabc"
  unfolding read_removal_times_def read_ref_order_hints_def inter_ref_def read_frame_interp_filter_def scale_ref_def read_intrabc_def
  by (intro errs_intros; simp)+

lemma errs_inter [errs_intros]: "errs read_inter_refs"
  unfolding read_inter_refs_def by (intro errs_intros; simp)+

lemma errs_inter_frame [errs_intros]: "errs (read_inter_frame cbs env f)"
  unfolding read_inter_frame_def by (intro errs_intros; simp)+

lemma errs_frame_refs [errs_intros]: "errs (read_frame_refs cbs env f)"
  unfolding read_frame_refs_def by (intro errs_intros; simp)+

lemma errs_frame_end:
  assumes "header_errs env"
  shows "errs (read_frame_end env)"
proof -
  have rest: "errs (\<lambda>(s, rb). case he_rest env s rb of (Inl e, rb') \<Rightarrow> Some (Inl e, s, rb')
      | (Inr r, rb') \<Rightarrow> map_option (\<lambda>s'. (Inr (), s', rb')) (f r s))" for f :: "header_rest \<Rightarrow> 'a AV1Decoder \<Rightarrow> 'a AV1Decoder option"
    using assms unfolding errs_def header_errs_def by (auto split: prod.splits sum.splits) (metis fst_conv)
  show ?thesis unfolding read_frame_end_def
    by (rule errs_seq errs_try errs_modify errs_get errs_bind errs_if errs_read errs_ret errs_check rest, (simp; fail)?)+
qed

lemma errs_headers:
  assumes "header_errs env"
  shows "errs (av1_decode_frame_headers_and_setup cbs env trailing)"
proof -
  have header: "errs (read_uncompressed_header cbs env)"
    unfolding read_uncompressed_header_def by (intro errs_intros errs_frame_end assms)
  have code: "seq_error_code e \<noteq> AOM_CODEC_OK" for e by (cases e) simp_all
  have bits: "errs (\<lambda>(s, rb). case av1_check_trailing_bits rb of Inl e \<Rightarrow> Some (Inl (seq_error_code e), s, rb) | Inr rb' \<Rightarrow> Some (Inr (), s, rb'))"
    using code by (auto simp: errs_def split: sum.splits)
  have step: "errs m \<Longrightarrow> errs (\<lambda>(s, rb). f s rb (s, rb)) \<Longrightarrow> errs (d_seq m (\<lambda>(s, rb). f s rb (s, rb)))" for m :: "('s, unit) comp" and f :: "'s \<Rightarrow> aom_read_bit_buffer \<Rightarrow> ('s, 'b) comp"
    by (rule errs_seq)
  have reader: "(\<And>s rb. errs (f s rb)) \<Longrightarrow> errs (\<lambda>(s, rb). f s rb (s, rb))" for f :: "'s \<Rightarrow> aom_read_bit_buffer \<Rightarrow> ('s, 'b) comp"
    by (fastforce simp: errs_def)
  show ?thesis unfolding av1_decode_frame_headers_and_setup_def Let_def
    by (rule errs_seq [OF header], rule errs_seq [OF errs_when [OF bits]], rule reader) (intro errs_intros; simp)
qed

section \<open>Tiles and OBUs\<close>

definition tile_errs :: "'c tile_env \<Rightarrow> bool" where
  "tile_errs te \<longleftrightarrow> (\<forall>s. te_setup te s \<noteq> Some AOM_CODEC_OK \<and> te_filters te s \<noteq> Some AOM_CODEC_OK \<and> te_wrapup te s \<noteq> Some AOM_CODEC_OK) \<and>
     (\<forall>s data a b. te_tiles te s data a b \<noteq> Inl AOM_CODEC_OK) \<and> (\<forall>s data. fst (te_tile_list te s data) \<noteq> Inl AOM_CODEC_OK)"

lemma errs_fail: "r \<noteq> Some AOM_CODEC_OK \<Longrightarrow> errs (d_fail r)"
  unfolding d_fail_def by (cases r) (auto intro: errs_intros)

lemma errs_sum: "r \<noteq> Inl AOM_CODEC_OK \<Longrightarrow> (\<And>x. errs (g x)) \<Longrightarrow> errs (case r of Inl e \<Rightarrow> d_throw e | Inr x \<Rightarrow> g x)"
  by (cases r) (auto intro: errs_intros)

lemma errs_reader: "(\<And>s rb. errs (f s rb)) \<Longrightarrow> errs (\<lambda>(s, rb). f s rb (s, rb))"
  by (fastforce simp: errs_def)

lemma errs_superres [errs_intros]: "errs (av1_superres_upscale cbs te)"
proof -
  have "errs (release_block cbs k)" for k unfolding release_block_def by (rule errs_lift) (auto split: if_splits)
  then show ?thesis unfolding av1_superres_upscale_def by (intro errs_intros; simp)
qed

lemma errs_tiles: "tile_errs te \<Longrightarrow> errs (av1_decode_tg_tiles_and_wrapup cbs te data a b first)"
  unfolding av1_decode_tg_tiles_and_wrapup_def by (intro errs_intros errs_fail errs_sum; simp add: tile_errs_def)

lemma errs_alignment [errs_intros]: "errs byte_alignment"
proof -
  have "errs (align_bits n)" for n :: nat by (induction n) (auto intro!: errs_intros)
  then show ?thesis unfolding byte_alignment_def by (intro errs_reader)
qed

lemma errs_tile_group_header [errs_intros]: "errs (read_tile_group_header implicit)"
proof -
  have pos: "errs (\<lambda>(s, rb). Some (Inr (f rb), s, rb))" for f by (auto simp: errs_def)
  show ?thesis unfolding read_tile_group_header_def Let_def by (rule errs_reader, intro pos errs_intros; simp)
qed

lemma errs_tile_group: "tile_errs te \<Longrightarrow> errs (tile_group_obu cbs te f payload pos off L)"
  unfolding tile_group_obu_def read_one_tile_group_obu_def by (intro errs_intros errs_tiles; simp)

lemma errs_frame_header:
  assumes "header_errs env"
  shows "errs (frame_header_obu cbs env t payload pos L)"
proof -
  have again: "errs (\<lambda>(s, rb). Some (Inr L, s, rb\<lparr>rb_bit_offset := n\<rparr>))" for n by (auto simp: errs_def)
  show ?thesis unfolding frame_header_obu_def by (intro again errs_intros errs_headers assms; simp)
qed

lemma errs_frame: "header_errs env \<Longrightarrow> tile_errs te \<Longrightarrow> errs (frame_obu cbs env te header payload pos avail L)"
  unfolding frame_obu_def Let_def by (intro errs_intros errs_frame_header errs_tile_group; simp)

lemma seq_error_real: "seq_error_code e \<noteq> AOM_CODEC_OK"
  by (cases e) simp_all

lemma errs_sequence [errs_intros]: "errs sequence_obu"
  unfolding errs_def sequence_obu_def using seq_error_real by (auto split: prod.splits sum.splits if_splits)

text \<open>Metadata.\<close>

lemma map_sum_left: "map_sum id f r = Inl e \<longleftrightarrow> r = Inl e"
  by (cases r) simp_all

lemma metadata_alloc_real: "alloc_read_metadata ok mtype data sz flag md = (Inl e, md') \<Longrightarrow> e \<noteq> AOM_CODEC_OK"
  by (auto simp: alloc_read_metadata_def split: option.splits if_splits)

lemma metadata_t35_real: "read_metadata_itut_t35 ok data ext md = (Inl e, md') \<Longrightarrow> e \<noteq> AOM_CODEC_OK"
  unfolding read_metadata_itut_t35_def Let_def by (auto split: if_splits dest: metadata_alloc_real)

lemma metadata_hdr_real: "read_metadata_hdr ok mtype n data md = (Inl e, md') \<Longrightarrow> e \<noteq> AOM_CODEC_OK"
  unfolding read_metadata_hdr_def by (auto simp: map_sum_left split: if_splits prod.splits dest: metadata_alloc_real)

lemma metadata_real:
  assumes "read_metadata ok data ext md = (Inl e, md')"
  shows "e \<noteq> AOM_CODEC_OK"
proof -
  obtain rc v len where u: "aom_uleb_decode (Some (map nat data)) True True = (rc, v, len)" by (metis prod_cases3)
  define rest where "rest = drop (the len) data"
  have hdr: "read_metadata_hdr_cll ok rest md = (Inl e, md') \<Longrightarrow> e \<noteq> AOM_CODEC_OK" "read_metadata_hdr_mdcv ok rest md = (Inl e, md') \<Longrightarrow> e \<noteq> AOM_CODEC_OK" for e md'
    unfolding read_metadata_hdr_cll_def read_metadata_hdr_mdcv_def by (rule metadata_hdr_real, assumption)+
  show ?thesis using assms unfolding read_metadata_def u prod.case Let_def rest_def [symmetric]
    by (auto simp: map_sum_left split: if_splits prod.splits sum.splits dest: metadata_t35_real hdr simp: seq_error_real)
qed

lemma errs_metadata [errs_intros]: "errs (metadata_obu te payload ext)"
  unfolding metadata_obu_def by (rule errs_lift) (auto split: prod.splits dest: metadata_real)

lemma errs_tile_list: "tile_errs te \<Longrightarrow> errs (tile_list_obu te payload pos L)"
proof -
  assume "tile_errs te"
  then have r: "fst (te_tile_list te s payload) \<noteq> Inl AOM_CODEC_OK" for s by (simp add: tile_errs_def)
  have list: "errs (case te_tile_list te s payload of (r, pics, number) \<Rightarrow>
      d_seq (d_modify (\<lambda>s. set_pictures pics (s\<lparr>cf_frame_number := number\<rparr>))) (case r of Inl e \<Rightarrow> d_throw e | Inr (n, reach, finished) \<Rightarrow> d_ret (g n reach finished)))"
    for s and g :: "int \<Rightarrow> nat \<Rightarrow> bool \<Rightarrow> int \<times> obu_loop"
    using r [of s] by (cases "te_tile_list te s payload") (auto intro!: errs_intros errs_sum split: prod.splits)
  show ?thesis unfolding tile_list_obu_def by (intro errs_get errs_seq errs_check errs_modify list) simp_all
qed

lemma errs_obu: "header_errs env \<Longrightarrow> tile_errs te \<Longrightarrow> errs (decode_obu cbs env te header payload pos avail L)"
  unfolding decode_obu_def Let_def
  by (intro errs_intros errs_frame errs_tile_group errs_tile_list errs_sum; simp add: tile_errs_def read_padding_def)

lemma obu_header_real: "aom_read_obu_header_and_size data annexb = Inl e \<Longrightarrow> e \<noteq> AOM_CODEC_OK"
  by (auto simp: aom_read_obu_header_and_size_def read_obu_size_def read_obu_header_def Let_def split: sum.splits if_splits prod.splits)

lemma decode_obus_real:
  assumes "header_errs env" "tile_errs te"
  shows "decode_obus cbs env te data pos L s = Some (Inl e, reach, s') \<Longrightarrow> e \<noteq> AOM_CODEC_OK"
proof (induction "length data" arbitrary: data pos L s rule: less_induct)
  case less
  note run = less.prems [unfolded decode_obus.simps [of cbs env te data pos L s] Let_def]
  show ?case
  proof (cases "ol_finished L \<or> data = [] \<and> pbi_seen_frame_header s = 0")
    case True
    then show ?thesis using run by (auto split: if_splits)
  next
    case False
    show ?thesis
    proof (cases "aom_read_obu_header_and_size data (pbi_is_annexb s \<noteq> 0)")
      case (Inl e')
      then show ?thesis using run False obu_header_real by auto
    next
      case (Inr x)
      obtain header payload_size bytes_read where x: "x = (header, payload_size, bytes_read)" by (metis prod_cases3)
      define rest where "rest = drop bytes_read data"
      have b: "0 < bytes_read" "data \<noteq> []" using obu_header_progress [OF Inr [unfolded x]] by auto
      have IH: "decode_obus cbs env te (drop payload_size rest) p L' t = Some (Inl e, reach, s') \<Longrightarrow> e \<noteq> AOM_CODEC_OK" for p L' t
        using less.hyps [of "drop payload_size rest" p L' t] b by (simp add: rest_def)
      have obu: "decode_obu cbs env te h pl p av L st = Some (Inl e', st') \<Longrightarrow> e' \<noteq> AOM_CODEC_OK" for h pl p av st e' st'
        using errs_obu [OF assms] unfolding errs_def by blast
      show ?thesis using run False IH obu unfolding Inr x sum.case prod.case rest_def [symmetric]
        by (auto split: if_splits option.splits sum.splits prod.splits)
    qed
  qed
qed

lemma release_current_error: "release_current_frame cbs s = Some s' \<Longrightarrow> pbi_ds s' = pbi_ds s"
  by (auto simp: release_current_frame_def set_cur_def drop_frame_def set_frame_def split: bind_splits)

lemma receive_real:
  assumes "header_errs env" "tile_errs te" "av1_receive_compressed_data cbs env te data s = Some (r, reach, s')" "r \<noteq> 0"
  shows "ds_error (pbi_ds s') \<noteq> AOM_CODEC_OK"
proof -
  define s2 where "s2 = (let s = set_pbi_error AOM_CODEC_OK s in if data = [] then case get_ref_frame_buf s 1 of None \<Rightarrow> s | Some k \<Rightarrow> set_frame mark_corrupted k s else s)"
  note run = assms(3) [unfolded av1_receive_compressed_data_def Let_def, folded s2_def [unfolded Let_def]]
  show ?thesis
  proof (cases "assign_cur_frame_new_fb s2")
    case (Pair new s3)
    show ?thesis
    proof (cases new)
      case False
      then show ?thesis using run Pair by (auto simp: set_pbi_error_def)
    next
      case True
      then show ?thesis using run Pair assms(4) decode_obus_real [OF assms(1,2)]
        by (auto simp: set_pbi_error_def aom_decode_frame_from_obus_def split: bind_splits sum.splits if_splits dest!: release_current_error)
    qed
  qed
qed

end
