(* ===== verification/Decoder_Api.thy ===== *)
theory Decoder_Api
  imports Decoder
begin

text \<open>
  The decoder as the codec API calls it (\<open>av1/av1_dx_iface.c\<close>): the first call that has data makes
  the decoder, every call gives the frames of the call before back, a temporal unit is decoded
  frame by frame, and the frames it shows are handed out one by one, with film grain on a block
  of their own. The frame worker runs in the calling thread. The synthesis of the grain and the
  cut-out of a single tile for debugging are arguments.
\<close>

section \<open>The context\<close>

text \<open>An image for the application; the fields beside those of an encoder's image.\<close>

record dec_image = aom_image +
  im_csp :: int
  im_range :: int
  im_r_w :: int
  im_r_h :: int
  im_temporal_id :: int
  im_spatial_id :: int
  im_fb_priv :: "nat option"

definition zero_dec_image :: dec_image where
  "zero_dec_image = aom_image.extend zero_image
     \<lparr>im_csp = 0, im_range = 0, im_r_w = 0, im_r_h = 0, im_temporal_id = 0, im_spatial_id = 0, im_fb_priv = None\<rparr>"

text \<open>The frame worker with its data.\<close>

record 'c frame_worker =
  fw_pbi :: "'c AV1Decoder"
  fw_skip_film_grain :: int
  fw_received_frame :: int
  fw_had_error :: bool

record 'c dec_priv =
  ap_allow_lowbitdepth :: int
  ap_si :: aom_codec_stream_info
  ap_img :: dec_image
  ap_flushed :: int
  ap_last_show_frame :: "nat option"
  ap_byte_alignment :: int
  ap_skip_film_grain :: int
  ap_tile_mode :: int
  ap_ext_tile_debug :: int
  ap_is_annexb :: int
  ap_operating_point :: int
  ap_output_all_layers :: int
  ap_frame_size_limit :: int
  ap_worker :: "'c frame_worker option"
  ap_grain_fbs :: "aom_codec_frame_buffer list"
  ap_num_grain_fbs :: nat
  ap_need_resync :: int

text \<open>The context of a fresh decoder; \<open>lowbitdepth\<close> is the one field of the configuration that matters here.\<close>

definition decoder_init :: "int \<Rightarrow> 'c dec_priv" where
  "decoder_init lowbitdepth =
     \<lparr>ap_allow_lowbitdepth = lowbitdepth,
      ap_si = \<lparr>si_w = 0, si_h = 0, si_is_kf = 0, si_number_spatial_layers = 0, si_number_temporal_layers = 0, si_is_annexb = 0\<rparr>,
      ap_img = zero_dec_image, ap_flushed = 0, ap_last_show_frame = None, ap_byte_alignment = 0, ap_skip_film_grain = 0,
      ap_tile_mode = 0, ap_ext_tile_debug = 0, ap_is_annexb = 0, ap_operating_point = 0, ap_output_all_layers = 0,
      ap_frame_size_limit = 0, ap_worker = None, ap_grain_fbs = replicate MAX_NUM_SPATIAL_LAYERS null_fb,
      ap_num_grain_fbs = 0, ap_need_resync = 0\<rparr>"

section \<open>A new decoder\<close>

text \<open>Every field is zero but for those the code sets.\<close>

definition zero_ref_cnt_buffer :: RefCntBuffer where
  "zero_ref_cnt_buffer = \<lparr>ref_count = 0, rc_order_hint = 0, rc_ref_order_hints = replicate INTER_REFS_PER_FRAME 0, rc_width = 0,
     rc_height = 0, showable_frame = 0, apply_grain = 0, raw_frame_buffer = null_fb, rc_buf = zero_frame, rc_temporal_id = 0,
     rc_spatial_id = 0, rc_frame_type = 0\<rparr>"

definition av1_decoder_create :: "'c BufferPool \<Rightarrow> 'c AV1Decoder" where
  "av1_decoder_create pool =
     \<lparr>pbi_ds = \<lparr>ds_seq_params = empty_seq\<lparr>sq_bit_depth := 8\<rparr>, sequence_header_ready = False, sequence_header_changed = False,
        ds_operating_point = 0, current_operating_point = 0, number_spatial_layers = 0, number_temporal_layers = 0,
        ds_allow_lowbitdepth = 0, ds_error = AOM_CODEC_OK\<rparr>,
      cm_pool = pool, cm_cur_frame = None, cm_prev_frame = None, cm_ref_frame_map = replicate REF_FRAMES None,
      cm_remapped_ref_idx = replicate INTER_REFS_PER_FRAME 0, cm_ref_frame_id = replicate REF_FRAMES 0,
      cm_ref_frame_sign_bias = replicate 8 0,
      cm_ref_scale_factors = replicate REF_FRAMES \<lparr>x_scale_fp = 0, y_scale_fp = 0, x_step_q4 = 0, y_step_q4 = 0\<rparr>,
      cm_current_frame_id = 0, cm_show_existing_frame = 0, cm_show_frame = 0, cm_showable_frame = 0, cm_width = 0, cm_height = 0,
      cm_superres_upscaled_width = 0, cm_superres_upscaled_height = 0, cm_superres_scale_denominator = 0, cm_render_width = 0,
      cm_render_height = 0, cm_frame_presentation_time = 0, cm_buffer_removal_times = replicate 33 0, cm_temporal_layer_id = 0,
      cm_spatial_layer_id = 0, cf_frame_type = KEY_FRAME, cf_refresh_frame_flags = 0, cf_order_hint = 0, cf_frame_number = 0,
      ft_error_resilient_mode = 0, ft_disable_cdf_update = 0, ft_allow_screen_content_tools = 0, ft_cur_frame_force_integer_mv = 0,
      ft_allow_intrabc = 0, ft_primary_ref_frame = 0, ft_allow_ref_frame_mvs = 0, ft_allow_high_precision_mv = 0,
      ft_interp_filter = 0, ft_switchable_motion_mode = 0, ft_refresh_frame_context = 0, ft_byte_alignment = 0,
      lf_filter_level = [0, 0], tl_cols = 0, tl_rows = 0, tl_log2_cols = 0, tl_log2_rows = 0, tl_large_scale = 0, tl_single_tile_decoding = 0,
      pbi_need_resync = 1, pbi_decoding_first_frame = 1, pbi_reset_decoder_state = 0,
      pbi_valid_for_referencing = replicate REF_FRAMES 0, pbi_is_arf_frame_present = 0, pbi_is_fwd_kf_present = 0, pbi_is_s_frame = 0,
      pbi_is_s_frame_at_altref = 0, pbi_buffer_removal_time_present = 0, pbi_frame_size_limit = 0, pbi_camera_frame_header_ready = 0,
      pbi_ext_tile_debug = 0, pbi_is_annexb = 0, pbi_seen_frame_header = 0, pbi_next_start_tile = 0, pbi_num_tile_groups = 0,
      pbi_output_frames = [], pbi_output_all_layers = 0, pbi_metadata = None\<rparr>"

text \<open>
  The internal frame buffers of a new pool. When their list cannot be had, the code calls
  \<open>aom_internal_error\<close> outside of a \<open>setjmp\<close> region, so that it goes on with an empty list.
\<close>

definition internal_start :: "int \<Rightarrow> heap \<Rightarrow> (heap \<times> InternalFrameBufferList option) option" where
  "internal_start pick h =
     map_option (\<lambda>(_, h, l). (h, Some l))
       (av1_alloc_internal_frame_buffers pick h \<lparr>num_internal_frame_buffers = 0, int_fb_block = 0, int_fb = []\<rparr>)"

text \<open>\<open>init_buffer_callbacks\<close> on the new decoder; \<open>c\<close> is what its callbacks start with, the application's
  \<open>ext_priv\<close> or the internal frame buffers.\<close>

definition init_buffer_callbacks :: "'c \<Rightarrow> 'c dec_priv \<Rightarrow> 'c frame_worker \<Rightarrow> 'c frame_worker" where
  "init_buffer_callbacks c ctx w =
     w\<lparr>fw_pbi := (fw_pbi w)\<lparr>cm_cur_frame := None, ft_byte_alignment := ap_byte_alignment ctx, cm_pool := (cm_pool (fw_pbi w))\<lparr>cb_priv := c\<rparr>\<rparr>,
       fw_skip_film_grain := ap_skip_film_grain ctx\<rparr>"

text \<open>The requests of \<open>init_decoder\<close>.\<close>

datatype init_site = Pool_struct | Pool_frames | Pool_mutex | Worker_struct | Worker_data | Decoder_struct

definition init_decoder :: "(init_site \<Rightarrow> bool) \<Rightarrow> 'c \<Rightarrow> 'c dec_priv \<Rightarrow> aom_codec_err \<times> 'c dec_priv" where
  "init_decoder ok c ctx =
     (let ctx = ctx\<lparr>ap_last_show_frame := None, ap_need_resync := 1, ap_flushed := 0\<rparr> in
      if \<not> (ok Pool_struct \<and> ok Pool_frames \<and> ok Pool_mutex \<and> ok Worker_struct \<and> ok Worker_data \<and> ok Decoder_struct)
      then (AOM_CODEC_MEM_ERROR, ctx)
      else
        let pool = \<lparr>frame_bufs = replicate FRAME_BUFFERS zero_ref_cnt_buffer, cb_priv = c\<rparr>;
            pbi = av1_decoder_create pool;
            pbi = pbi\<lparr>pbi_ds := (pbi_ds pbi)\<lparr>ds_allow_lowbitdepth := ap_allow_lowbitdepth ctx, ds_operating_point := ap_operating_point ctx\<rparr>,
                      tl_large_scale := ap_tile_mode ctx, pbi_is_annexb := ap_is_annexb ctx, pbi_output_all_layers := ap_output_all_layers ctx,
                      pbi_frame_size_limit := ap_frame_size_limit ctx, pbi_ext_tile_debug := ap_ext_tile_debug ctx,
                      pbi_is_fwd_kf_present := 0, pbi_is_arf_frame_present := 0\<rparr> in
        (AOM_CODEC_OK, ctx\<lparr>ap_worker := Some (init_buffer_callbacks c ctx
            \<lparr>fw_pbi = pbi, fw_skip_film_grain = 0, fw_received_frame = 0, fw_had_error = False\<rparr>)\<rparr>))"

section \<open>Decoding\<close>

text \<open>The worker's hook; \<open>data_end\<close> is the second component.\<close>

definition frame_worker_hook ::
  "'c frame_callbacks \<Rightarrow> 'c header_env \<Rightarrow> 'c tile_env \<Rightarrow> int list \<Rightarrow> 'c AV1Decoder \<Rightarrow> (bool \<times> nat \<times> 'c AV1Decoder) option" where
  "frame_worker_hook cbs env te data pbi =
     map_option (\<lambda>(result, reach, pbi). (result = 0, reach, if result \<noteq> 0 then pbi\<lparr>pbi_need_resync := 1\<rparr> else pbi))
       (av1_receive_compressed_data cbs env te data pbi)"

definition check_resync :: "'c AV1Decoder \<Rightarrow> 'c dec_priv \<Rightarrow> 'c dec_priv" where
  "check_resync pbi ctx =
     (if ap_need_resync ctx = 1 \<and> pbi_need_resync pbi = 0 \<and> frame_is_intra_only pbi then ctx\<lparr>ap_need_resync := 0\<rparr> else ctx)"

text \<open>The status, the number of bytes read, and the context.\<close>

definition decode_one ::
  "'c frame_callbacks \<Rightarrow> 'c header_env \<Rightarrow> 'c tile_env \<Rightarrow> int list \<Rightarrow> 'c dec_priv \<Rightarrow> (aom_codec_err \<times> nat \<times> 'c dec_priv) option" where
  "decode_one cbs env te data ctx =
     (let (e, ctx) =
            (if si_h (ap_si ctx) = 0 then
               let (e, si, intra_only) = decoder_peek_si_internal data ((ap_si ctx)\<lparr>si_is_annexb := ap_is_annexb ctx\<rparr>);
                   ctx = ctx\<lparr>ap_si := si\<rparr> in
               (if e \<noteq> AOM_CODEC_OK then e else if si_is_kf si = 0 \<and> intra_only = 0 then AOM_CODEC_ERROR else AOM_CODEC_OK, ctx)
             else (AOM_CODEC_OK, ctx)) in
      if e \<noteq> AOM_CODEC_OK then Some (e, 0, ctx)
      else
        do {
          w \<leftarrow> ap_worker ctx;
          let pbi = (fw_pbi w)\<lparr>tl_large_scale := ap_tile_mode ctx, pbi_ext_tile_debug := ap_ext_tile_debug ctx, pbi_is_annexb := ap_is_annexb ctx\<rparr>;
          (good, reach, pbi) \<leftarrow> frame_worker_hook cbs env te data pbi;
          let ctx = ctx\<lparr>ap_worker := Some (w\<lparr>fw_pbi := pbi, fw_received_frame := 1, fw_had_error := \<not> good\<rparr>)\<rparr>;
          Some (if \<not> good then (ds_error (pbi_ds pbi), reach, ctx) else (AOM_CODEC_OK, reach, check_resync pbi ctx))
        })"

fun drop_frames :: "'c frame_callbacks \<Rightarrow> nat list \<Rightarrow> 'c BufferPool \<Rightarrow> 'c BufferPool option" where
  "drop_frames cbs [] p = Some p"
| "drop_frames cbs (k # ks) p = do { p \<leftarrow> decrease_ref_count cbs (Some k) p; drop_frames cbs ks p }"

fun release_grain :: "'c frame_callbacks \<Rightarrow> aom_codec_frame_buffer list \<Rightarrow> 'c \<Rightarrow> 'c option" where
  "release_grain cbs [] c = Some c"
| "release_grain cbs (fb # fbs) c = do { (_, c) \<leftarrow> release_fb_cb cbs c fb; release_grain cbs fbs c }"

definition release_pending_output_frames :: "'c frame_callbacks \<Rightarrow> 'c dec_priv \<Rightarrow> 'c dec_priv option" where
  "release_pending_output_frames cbs ctx =
     (case ap_worker ctx of
        None \<Rightarrow> Some ctx
      | Some w \<Rightarrow>
          do {
            p \<leftarrow> drop_frames cbs (pbi_output_frames (fw_pbi w)) (cm_pool (fw_pbi w));
            c \<leftarrow> release_grain cbs (take (ap_num_grain_fbs ctx) (ap_grain_fbs ctx)) (cb_priv p);
            Some (ctx\<lparr>ap_worker := Some (w\<lparr>fw_pbi := (fw_pbi w)\<lparr>cm_pool := p\<lparr>cb_priv := c\<rparr>, pbi_output_frames := []\<rparr>\<rparr>),
              ap_grain_fbs := replicate (ap_num_grain_fbs ctx) null_fb @ drop (ap_num_grain_fbs ctx) (ap_grain_fbs ctx), ap_num_grain_fbs := 0\<rparr>)
          })"

text \<open>A size in front of a temporal unit or of a frame, and the data behind it; the frame or the unit is as long as it says.\<close>

definition read_unit_size :: "int list \<Rightarrow> (nat \<times> int list) option" where
  "read_unit_size data =
     (case aom_uleb_decode (Some (map nat data)) True True of
        (rc, v, len) \<Rightarrow>
          if rc \<noteq> 0 then None
          else let rest = drop (the len) data in if the v > length rest then None else Some (the v, rest))"

text \<open>
  The loop of \<open>decoder_decode\<close>: \<open>env n\<close> and \<open>te n\<close> answer for the frame with number \<open>n\<close>, \<open>data\<close> is what
  is left of the temporal unit. The loop ends when the data does; \<open>fuel\<close> bounds the frames.
\<close>

fun decode_frames ::
  "nat \<Rightarrow> 'c frame_callbacks \<Rightarrow> (nat \<Rightarrow> 'c header_env) \<Rightarrow> (nat \<Rightarrow> 'c tile_env) \<Rightarrow> nat \<Rightarrow> int list \<Rightarrow> 'c dec_priv \<Rightarrow>
    (aom_codec_err \<times> 'c dec_priv) option" where
  "decode_frames fuel cbs env te n [] ctx = Some (AOM_CODEC_OK, ctx)"
| "decode_frames 0 cbs env te n (b # bs) ctx = None"
| "decode_frames (Suc fuel) cbs env te n (b # bs) ctx =
     (let data = b # bs in
      case (if ap_is_annexb ctx \<noteq> 0 then read_unit_size data else Some (length data, data)) of
        None \<Rightarrow> Some (AOM_CODEC_CORRUPT_FRAME, ctx)
      | Some (frame_sz, data) \<Rightarrow>
          do {
            (e, reach, ctx) \<leftarrow> decode_one cbs (env n) (te n) (take frame_sz data) ctx;
            if e \<noteq> AOM_CODEC_OK then Some (e, ctx)
            else decode_frames fuel cbs env te (Suc n) (dropWhile (\<lambda>b. b = 0) (drop reach data)) ctx
          })"

text \<open>\<open>data\<close> is \<open>None\<close> for a NULL pointer, which flushes. Every frame takes a byte at least.\<close>

definition decoder_decode ::
  "'c frame_callbacks \<Rightarrow> (nat \<Rightarrow> 'c header_env) \<Rightarrow> (nat \<Rightarrow> 'c tile_env) \<Rightarrow> (init_site \<Rightarrow> bool) \<Rightarrow> 'c \<Rightarrow> int list option \<Rightarrow> 'c dec_priv \<Rightarrow>
    (aom_codec_err \<times> 'c dec_priv) option" where
  "decoder_decode cbs env te ok c data ctx =
     do {
       ctx \<leftarrow> release_pending_output_frames cbs ctx;
       case data of
         None \<Rightarrow> Some (AOM_CODEC_OK, ctx\<lparr>ap_flushed := 1\<rparr>)
       | Some data \<Rightarrow>
           if data = [] then Some (AOM_CODEC_INVALID_PARAM, ctx)
           else
             let ctx = ctx\<lparr>ap_flushed := 0\<rparr>;
                 (e, ctx) = (if ap_worker ctx = None then init_decoder ok c ctx else (AOM_CODEC_OK, ctx)) in
             if e \<noteq> AOM_CODEC_OK then Some (e, ctx)
             else
               case (if ap_is_annexb ctx \<noteq> 0 then read_unit_size data else Some (length data, data)) of
                 None \<Rightarrow> Some (AOM_CODEC_CORRUPT_FRAME, ctx)
               | Some (unit_size, data) \<Rightarrow> decode_frames (length data) cbs env te 0 (take unit_size data) ctx
     }"

section \<open>Frames for the application\<close>

definition yuvconfig2image :: "dec_image \<Rightarrow> YV12_BUFFER_CONFIG \<Rightarrow> dec_image" where
  "yuvconfig2image img yv12 =
     (let (f, b) = (if yv_subsampling_y yv12 = 0 then
            if yv_subsampling_x yv12 = 0 then (AOM_IMG_FMT_I444, 24) else (AOM_IMG_FMT_I422, 16)
          else (AOM_IMG_FMT_I420, 12));
          high = yv_flags yv12 AND YV12_FLAG_HIGHBITDEPTH \<noteq> 0;
          m = (if high then 2 else 1) in
      img\<lparr>fmt := if high then f OR AOM_IMG_FMT_HIGHBITDEPTH else f, cp := yv_color_primaries yv12, tc := yv_transfer_characteristics yv12,
          mc := yv_matrix_coefficients yv12, monochrome := yv_monochrome yv12, im_csp := yv_chroma_sample_position yv12,
          im_range := yv_color_range yv12, bit_depth := if high then yv_bit_depth yv12 else 8, img_w := y_width yv12,
          img_h := y_height yv12, d_w := y_crop_width yv12, d_h := y_crop_height yv12, im_r_w := render_width yv12,
          im_r_h := render_height yv12, x_chroma_shift := yv_subsampling_x yv12, y_chroma_shift := yv_subsampling_y yv12,
          planes := [m * y_buffer yv12, m * u_buffer yv12, m * v_buffer yv12],
          stride := [m * y_stride yv12, m * uv_stride yv12, m * uv_stride yv12], bps := m * b,
          img_data := buffer_alloc yv12, img_data_owner := 0, self_allocd := 0, img_sz := frame_size yv12, metadata := None\<rparr>)"

text \<open>
  What answers while a frame is handed out: the address the C library gives, the synthesis of the
  grain from the image into the new one (\<open>None\<close> when it fails), the cut-out of a single tile, and
  the picture of a tile list.
\<close>

record 'c grain_env =
  ge_pick :: int
  ge_synth :: "dec_image \<Rightarrow> dec_image \<Rightarrow> dec_image option"
  ge_crop :: "'c AV1Decoder \<Rightarrow> dec_image \<Rightarrow> dec_image option"
  ge_tile_list :: YV12_BUFFER_CONFIG

text \<open>The bytes an image of \<open>dw\<close> by \<open>dh\<close> samples asks its callback for.\<close>

definition img_request :: "int \<Rightarrow> int \<Rightarrow> int \<Rightarrow> int \<Rightarrow> int option" where
  "img_request f dw dh align =
     (if \<not> is_valid_img_fmt f \<or> dw > 134217728 \<or> dh > 134217728 then None
      else
        let depth = (if f AND AOM_IMG_FMT_HIGHBITDEPTH \<noteq> 0 then 16 else 8);
            w = align_image_dimension dw (fmt_xcs f) 1;
            h = align_image_dimension dh (fmt_ycs f) 1;
            s = img_stride_bytes f w 0 (fmt_bps f) depth align in
        if s > 2147483647 then None
        else
          let alloc_size = (if f AND AOM_IMG_FMT_PLANAR \<noteq> 0 then u64 (u64 (u32 h * s) * fmt_bps f) div depth else u64 (u32 h * s)) in
          Some (u64 (alloc_size + align - 1)))"

text \<open>
  \<open>add_grain_if_needed\<close> with \<open>AllocWithGetFrameBufferCb\<close>: the image to hand out, or \<open>None\<close>; what the
  callbacks keep, and the array of the blocks of the grain images with the number in use. A use of
  the array behind its end is undefined.
\<close>

definition add_grain_if_needed ::
  "'c frame_callbacks \<Rightarrow> 'c grain_env \<Rightarrow> int \<Rightarrow> dec_image \<Rightarrow> 'c \<Rightarrow> aom_codec_frame_buffer list \<Rightarrow> nat \<Rightarrow>
    (dec_image option \<times> 'c \<times> aom_codec_frame_buffer list \<times> nat) option" where
  "add_grain_if_needed cbs ge grain img c fbs n =
     (if grain = 0 then Some (Some img, c, fbs, n)
      else if n \<ge> length fbs then None
      else
        let w_even = (d_w img + 1) AND NOT 1;
            h_even = (d_h img + 1) AND NOT 1 in
        do {
          (p, fb, c) \<leftarrow> (case img_request (fmt img) w_even h_even 16 of
             None \<Rightarrow> Some (0, fbs ! n, c)
           | Some m \<Rightarrow>
               do {
                 (rc, fb, c) \<leftarrow> get_fb_cb cbs (ge_pick ge) c m (fbs ! n);
                 Some (if rc < 0 \<or> fb_data fb = 0 \<or> fb_size fb < m then 0 else fb_data fb, fb, c)
               });
          (good, grain_img, _) \<leftarrow> aom_img_alloc_with_cb False 0 \<lparr>mem = \<lambda>_. 0, live = []\<rparr> (Some zero_image) (fmt img) w_even h_even 16 (Some (\<lambda>_. p));
          if \<not> good then Some (None, c, fbs[n := fb], n)
          else
            do {
              grain_img \<leftarrow> grain_img;
              case ge_synth ge img (aom_image.extend grain_img (dec_image.fields 0 0 0 0 0 0 (fb_priv fb))) of
                None \<Rightarrow> map_option (\<lambda>(_, c). (None, c, fbs[n := fb], n)) (release_fb_cb cbs c fb)
              | Some grain_img \<Rightarrow> Some (Some grain_img, c, fbs[n := fb], Suc n)
            }
        })"

text \<open>
  The part of \<open>decoder_get_frame\<close> that hands the frame with index \<open>k\<close> of the pool out. The image is
  \<open>None\<close> when a tile cannot be cut out or the grain fails.
\<close>

definition output_frame ::
  "'c frame_callbacks \<Rightarrow> 'c grain_env \<Rightarrow> nat \<Rightarrow> 'c frame_worker \<Rightarrow> 'c dec_priv \<Rightarrow> (dec_image option \<times> 'c dec_priv) option" where
  "output_frame cbs ge k w ctx =
     (let pbi = fw_pbi w;
          img = (yuvconfig2image (ap_img ctx) (rc_buf (pool_frame pbi k)))\<lparr>metadata := pbi_metadata pbi\<rparr>;
          pbi = pbi\<lparr>pbi_metadata := None\<rparr>;
          ctx = ctx\<lparr>ap_worker := Some (w\<lparr>fw_pbi := pbi\<rparr>), ap_img := img\<rparr> in
      if pbi_ext_tile_debug pbi = 0 \<and> tl_large_scale pbi \<noteq> 0 then
        let img = yuvconfig2image img (ge_tile_list ge) in Some (Some img, ctx\<lparr>ap_img := img\<rparr>)
      else
        case (if pbi_ext_tile_debug pbi \<noteq> 0 then ge_crop ge pbi img else Some img) of
          None \<Rightarrow> Some (None, ctx)
        | Some img \<Rightarrow>
            let b = pool_frame pbi k;
                img = img\<lparr>im_fb_priv := fb_priv (raw_frame_buffer b), im_temporal_id := rc_temporal_id b, im_spatial_id := rc_spatial_id b\<rparr>;
                pbi = (if fw_skip_film_grain w \<noteq> 0 then set_frame (\<lambda>b. b\<lparr>apply_grain := 0\<rparr>) k pbi else pbi) in
            do {
              (r, c, fbs, n) \<leftarrow> add_grain_if_needed cbs ge (apply_grain (pool_frame pbi k)) img (cb_priv (cm_pool pbi))
                 (ap_grain_fbs ctx) (ap_num_grain_fbs ctx);
              let pbi = pbi\<lparr>cm_pool := (cm_pool pbi)\<lparr>cb_priv := c\<rparr>\<rparr>;
              let pbi = (if r = None then set_pbi_error AOM_CODEC_CORRUPT_FRAME pbi else pbi);
              Some (r, ctx\<lparr>ap_worker := Some (w\<lparr>fw_pbi := pbi\<rparr>), ap_img := img, ap_grain_fbs := fbs, ap_num_grain_fbs := n\<rparr>)
            })"

text \<open>The image, the index of the next one, and the context. \<open>i\<close> is the caller's iterator.\<close>

definition decoder_get_frame ::
  "'c frame_callbacks \<Rightarrow> 'c grain_env \<Rightarrow> nat \<Rightarrow> 'c dec_priv \<Rightarrow> (dec_image option \<times> nat \<times> 'c dec_priv) option" where
  "decoder_get_frame cbs ge i ctx =
     (case ap_worker ctx of
        None \<Rightarrow> Some (None, i, ctx)
      | Some w \<Rightarrow>
          let pbi = set_pbi_error AOM_CODEC_OK (fw_pbi w);
              w = w\<lparr>fw_pbi := pbi\<rparr> in
          if fw_had_error w then Some (None, i, ctx\<lparr>ap_worker := Some (w\<lparr>fw_received_frame := 0\<rparr>), ap_need_resync := 1\<rparr>)
          else
            let ctx = (if fw_received_frame w = 1 then check_resync pbi ctx else ctx);
                w = (if fw_received_frame w = 1 then w\<lparr>fw_received_frame := 0\<rparr> else w);
                ctx = ctx\<lparr>ap_worker := Some w\<rparr> in
            if i \<ge> length (pbi_output_frames pbi) then Some (None, i, ctx)
            else
              let k = pbi_output_frames pbi ! i;
                  ctx = ctx\<lparr>ap_last_show_frame := Some k\<rparr> in
              if ap_need_resync ctx \<noteq> 0 then Some (None, i, ctx)
              else map_option (\<lambda>(r, ctx). (r, if r = None then i else Suc i, ctx)) (output_frame cbs ge k w ctx))"

text \<open>
  What the callbacks keep in the end; \<open>None\<close> inside when there was no decoder. \<open>free_int\<close> is
  \<open>av1_free_internal_frame_buffers\<close> on the pool's own list.
\<close>

definition internal_free :: "heap \<times> InternalFrameBufferList option \<Rightarrow> (heap \<times> InternalFrameBufferList option) option" where
  "internal_free c =
     (case c of (h, None) \<Rightarrow> Some c | (h, Some l) \<Rightarrow> map_option (\<lambda>(h, l). (h, Some l)) (av1_free_internal_frame_buffers h l))"

definition decoder_destroy :: "'c frame_callbacks \<Rightarrow> ('c \<Rightarrow> 'c option) \<Rightarrow> 'c dec_priv \<Rightarrow> 'c option option" where
  "decoder_destroy cbs free_int ctx =
     (case ap_worker ctx of
        None \<Rightarrow> Some None
      | Some w \<Rightarrow>
          do {
            let p = cm_pool (fw_pbi w);
            c \<leftarrow> release_grain cbs (take (ap_num_grain_fbs ctx) (ap_grain_fbs ctx)) (cb_priv p);
            p \<leftarrow> av1_free_ref_frame_buffers cbs (p\<lparr>cb_priv := c\<rparr>);
            c \<leftarrow> free_int (cb_priv p);
            Some (Some c)
          })"

end
