(* ===== verification/Decoder_Api_Props.thy ===== *)
theory Decoder_Api_Props
  imports Decoder_Props Decoder_Errors Decoder_Api
begin

text \<open>
  The API keeps the invariant of the decoder and of the blocks that grain images are on, and every
  call returns.
\<close>

section \<open>Blocks of grain images\<close>

definition grain_handles :: "aom_codec_frame_buffer list \<Rightarrow> nat list" where
  "grain_handles fbs = map (\<lambda>fb. the (fb_priv fb)) fbs"

lemma blocks_ok_give:
  assumes "blocks_ok handles (insert h G) X H r" "h \<notin> G"
  shows "blocks_ok handles G X (H - {h}) r"
proof -
  have "blocks_named handles (insert h G) r" "H = insert h G \<union> blocks_out X r" using assms(1) by (simp_all add: blocks_ok_def)
  moreover have "h \<notin> blocks_out X r" using blocks_named_handle [OF calculation(1)] by (auto simp: blocks_out_def)
  ultimately show ?thesis using assms by (auto simp: blocks_ok_def blocks_named_def)
qed

lemma blocks_ok_lend:
  assumes "blocks_ok handles G {} H r" "h \<notin> H"
  shows "blocks_ok handles (insert h G) {} (insert h H) r"
proof -
  have a: "blocks_named handles G r" "H = G \<union> blocks_out {} r" using assms(1) by (simp_all add: blocks_ok_def)
  have "fb_priv (r k) \<noteq> Some h" if "k < FRAME_BUFFERS" "fb_data (r k) \<noteq> 0" for k
    using that assms(2) a(2) by (auto simp: blocks_out_def block_handle_some)
  then have "blocks_named handles (insert h G) r" using a(1) unfolding blocks_named_def by (metis insert_iff)
  then show ?thesis using assms(1) by (auto simp: blocks_ok_def)
qed

context frame_source
begin

text \<open>The used entries of the array have blocks of their own.\<close>

definition grain_ok :: "aom_codec_frame_buffer list \<Rightarrow> bool" where
  "grain_ok fbs \<longleftrightarrow> distinct (grain_handles fbs) \<and> (\<forall>fb \<in> set fbs. \<exists>h \<in> handles. fb_priv fb = Some h)"

lemma grain_ok_Cons:
  "grain_ok (fb # fbs) \<longleftrightarrow> (\<exists>h \<in> handles. fb_priv fb = Some h \<and> h \<notin> set (grain_handles fbs)) \<and> grain_ok fbs"
  by (auto simp: grain_ok_def grain_handles_def)

lemma pinv_views: "pinv G X os (p\<lparr>cb_priv := c\<rparr>) \<longleftrightarrow> ok c \<and> length (frame_bufs p) = FRAME_BUFFERS \<and>
    pool_ok handles G X os (held c) (frame_count p) (frame_block p)"
  by (auto simp: pinv_def frame_count_def [abs_def] frame_block_def [abs_def])

lemma release_grain_ok:
  "grain_ok fbs \<Longrightarrow> pinv (set (grain_handles fbs) \<union> G) X os p \<Longrightarrow> set (grain_handles fbs) \<inter> G = {} \<Longrightarrow>
    \<exists>c. release_grain cbs fbs (cb_priv p) = Some c \<and> pinv G X os (p\<lparr>cb_priv := c\<rparr>)"
proof (induction fbs arbitrary: p)
  case Nil
  then show ?case by (simp add: grain_handles_def)
next
  case (Cons fb fbs)
  obtain h where h: "h \<in> handles" "fb_priv fb = Some h" "h \<notin> set (grain_handles fbs)" "grain_ok fbs" using Cons.prems(1) by (auto simp: grain_ok_Cons)
  have G: "set (grain_handles (fb # fbs)) \<union> G = insert h (set (grain_handles fbs) \<union> G)" "h \<notin> G" using h(2) Cons.prems(3) by (auto simp: grain_handles_def)
  have P: "ok (cb_priv p)" "length (frame_bufs p) = FRAME_BUFFERS" "counts_ok os (frame_count p)"
    "blocks_ok handles (insert h (set (grain_handles fbs) \<union> G)) X (held (cb_priv p)) (frame_block p)"
    "\<forall>k < FRAME_BUFFERS. k \<notin># os \<longrightarrow> fb_data (frame_block p k) = 0"
    using Cons.prems(2) unfolding G(1) by (simp_all add: pinv_def pool_ok_def)
  obtain c where c: "release_fb_cb cbs (cb_priv p) fb = Some (0, c)" "ok c" "held c = held (cb_priv p) - {h}"
    using release_block_ok [OF P(1) h(2,1)] by blast
  have "pinv (set (grain_handles fbs) \<union> G) X os (p\<lparr>cb_priv := c\<rparr>)"
    using blocks_ok_give [OF P(4)] h(3) G(2) P c(2,3) by (simp add: pinv_views pool_ok_def)
  from Cons.IH [OF h(4) this] Cons.prems(3) obtain c' where "release_grain cbs fbs c = Some c'" "pinv G X os (p\<lparr>cb_priv := c'\<rparr>)"
    by (auto simp: grain_handles_def)
  then show ?case using c(1) by auto
qed

lemma drop_frames_ok:
  "pinv G {} (mset ks + os) p \<Longrightarrow> \<exists>p'. drop_frames cbs ks p = Some p' \<and> pinv G {} os p'"
proof (induction ks arbitrary: p)
  case (Cons k ks)
  then obtain p1 where p1: "decrease_ref_count cbs (Some k) p = Some p1" "pinv G {} (mset ks + os) p1"
    using decrease_keeps [of G "{}" k "mset ks + os" p] by (auto split: if_splits)
  from Cons.IH [OF p1(2)] show ?case using p1(1) by auto
qed simp

section \<open>The context\<close>

text \<open>The context between two calls.\<close>

definition api_ok :: "'c dec_priv \<Rightarrow> bool" where
  "api_ok ctx \<longleftrightarrow> length (ap_grain_fbs ctx) = MAX_NUM_SPATIAL_LAYERS \<and> ap_num_grain_fbs ctx \<le> MAX_NUM_SPATIAL_LAYERS \<and>
     grain_ok (take (ap_num_grain_fbs ctx) (ap_grain_fbs ctx)) \<and>
     (case ap_worker ctx of
        None \<Rightarrow> ap_num_grain_fbs ctx = 0
      | Some w \<Rightarrow> idle (set (grain_handles (take (ap_num_grain_fbs ctx) (ap_grain_fbs ctx)))) (fw_pbi w))"

lemma api_ok_fields:
  "api_ok (ctx\<lparr>ap_si := a\<rparr>) = api_ok ctx" "api_ok (ctx\<lparr>ap_need_resync := b\<rparr>) = api_ok ctx" "api_ok (ctx\<lparr>ap_flushed := c\<rparr>) = api_ok ctx"
  "api_ok (ctx\<lparr>ap_last_show_frame := d\<rparr>) = api_ok ctx" "api_ok (ctx\<lparr>ap_img := e\<rparr>) = api_ok ctx"
  by (cases "ap_worker ctx"; simp add: api_ok_def)+

lemma api_ok_init: "api_ok (decoder_init b)"
  by (simp add: api_ok_def decoder_init_def grain_ok_def grain_handles_def)

lemma release_pending_ok:
  assumes "api_ok ctx"
  shows "\<exists>ctx'. release_pending_output_frames cbs ctx = Some ctx' \<and> api_ok ctx' \<and> ap_num_grain_fbs ctx' = 0 \<and>
    (ap_worker ctx' = None \<longleftrightarrow> ap_worker ctx = None) \<and> (\<forall>w. ap_worker ctx' = Some w \<longrightarrow> pbi_output_frames (fw_pbi w) = [])"
proof (cases "ap_worker ctx")
  case None
  then show ?thesis using assms by (simp add: release_pending_output_frames_def api_ok_def grain_ok_def grain_handles_def)
next
  case (Some w)
  define n where "n = ap_num_grain_fbs ctx"
  define fbs where "fbs = take n (ap_grain_fbs ctx)"
  define s where "s = fw_pbi w"
  have a: "length (ap_grain_fbs ctx) = MAX_NUM_SPATIAL_LAYERS" "n \<le> MAX_NUM_SPATIAL_LAYERS" "grain_ok fbs"
    "shape_ok s" "cm_cur_frame s = None" "pinv (set (grain_handles fbs)) {} (owners s) (cm_pool s)"
    using assms Some by (simp_all add: api_ok_def fbs_def n_def s_def idle_def core_def)
  have "pinv (set (grain_handles fbs)) {} (mset (pbi_output_frames s) + map_owners (cm_ref_frame_map s)) (cm_pool s)"
    using a(5,6) by (simp add: owners_def ac_simps)
  from drop_frames_ok [OF this] obtain p where p: "drop_frames cbs (pbi_output_frames s) (cm_pool s) = Some p"
    "pinv (set (grain_handles fbs)) {} (map_owners (cm_ref_frame_map s)) p" by blast
  from release_grain_ok [OF a(3), of "{}" "{}" "map_owners (cm_ref_frame_map s)" p] p(2) obtain c where c: "release_grain cbs fbs (cb_priv p) = Some c"
    "pinv {} {} (map_owners (cm_ref_frame_map s)) (p\<lparr>cb_priv := c\<rparr>)" by auto
  define s' where "s' = s\<lparr>cm_pool := p\<lparr>cb_priv := c\<rparr>, pbi_output_frames := []\<rparr>"
  have s': "idle {} s'" "pbi_output_frames s' = []" using a(4,5) c(2) by (simp_all add: s'_def idle_def core_def shape_ok_def owners_def)
  have "release_pending_output_frames cbs ctx = Some (ctx\<lparr>ap_worker := Some (w\<lparr>fw_pbi := s'\<rparr>),
      ap_grain_fbs := replicate n null_fb @ drop n (ap_grain_fbs ctx), ap_num_grain_fbs := 0\<rparr>)"
    using Some p(1) c(1) by (simp add: release_pending_output_frames_def s'_def flip: s_def n_def fbs_def)
  then show ?thesis using Some s' a(1,2) by (auto simp: api_ok_def grain_ok_def grain_handles_def)
qed

lemma idle_fields:
  "idle G (s\<lparr>pbi_need_resync := a\<rparr>) = idle G s" "idle G (s\<lparr>tl_large_scale := b\<rparr>) = idle G s" "idle G (s\<lparr>pbi_ext_tile_debug := c\<rparr>) = idle G s"
  "idle G (s\<lparr>pbi_is_annexb := d\<rparr>) = idle G s" "idle G (s\<lparr>pbi_metadata := e\<rparr>) = idle G s" "idle G (s\<lparr>ft_byte_alignment := f\<rparr>) = idle G s"
  by (simp_all add: idle_def core_def shape_ok_def owners_def)

section \<open>Decoding\<close>

lemma hook_ok:
  assumes "he_clear env = clear" "header_errs env" "tile_errs te" "idle G s"
  shows "\<exists>good reach s'. frame_worker_hook cbs env te data s = Some (good, reach, s') \<and> idle G s' \<and>
    (good \<longrightarrow> data \<noteq> [] \<longrightarrow> 0 < reach) \<and> (\<not> good \<longrightarrow> ds_error (pbi_ds s') \<noteq> AOM_CODEC_OK)"
proof -
  obtain r reach s' where r: "av1_receive_compressed_data cbs env te data s = Some (r, reach, s')" "idle G s'" "r = 0 \<longrightarrow> data \<noteq> [] \<longrightarrow> 0 < reach"
    using receive_ok [OF assms(1,4)] by blast
  have "r \<noteq> 0 \<Longrightarrow> ds_error (pbi_ds s') \<noteq> AOM_CODEC_OK" using receive_real [OF assms(2,3) r(1)] .
  then show ?thesis using r by (simp add: frame_worker_hook_def idle_fields)
qed

text \<open>A frame of the unit; nothing but the decoder, the stream information and the flags changes.\<close>

lemma decode_one_ok:
  assumes env: "he_clear env = clear" "header_errs env" "tile_errs te" and ctx: "api_ok ctx" "ap_worker ctx \<noteq> None"
  shows "\<exists>e reach ctx'. decode_one cbs env te data ctx = Some (e, reach, ctx') \<and> api_ok ctx' \<and> ap_worker ctx' \<noteq> None \<and>
    ap_num_grain_fbs ctx' = ap_num_grain_fbs ctx \<and> ap_is_annexb ctx' = ap_is_annexb ctx \<and> (e = AOM_CODEC_OK \<longrightarrow> data \<noteq> [] \<longrightarrow> 0 < reach)"
proof -
  obtain e0 si where p: "(if si_h (ap_si ctx) = 0 then
       let (e, si, intra_only) = decoder_peek_si_internal data ((ap_si ctx)\<lparr>si_is_annexb := ap_is_annexb ctx\<rparr>); ctx = ctx\<lparr>ap_si := si\<rparr> in
       (if e \<noteq> AOM_CODEC_OK then e else if si_is_kf si = 0 \<and> intra_only = 0 then AOM_CODEC_ERROR else AOM_CODEC_OK, ctx)
     else (AOM_CODEC_OK, ctx)) = (e0, ctx\<lparr>ap_si := si\<rparr>)"
  proof (cases "si_h (ap_si ctx) = 0")
    case False
    then show ?thesis using that [of AOM_CODEC_OK "ap_si ctx"] by simp
  next
    case True
    obtain e si io where "decoder_peek_si_internal data ((ap_si ctx)\<lparr>si_is_annexb := ap_is_annexb ctx\<rparr>) = (e, si, io)" by (metis prod_cases3)
    then show ?thesis using True that [of "if e \<noteq> AOM_CODEC_OK then e else if si_is_kf si = 0 \<and> io = 0 then AOM_CODEC_ERROR else AOM_CODEC_OK" si] by simp
  qed
  define c1 where "c1 = ctx\<lparr>ap_si := si\<rparr>"
  have c1: "api_ok c1" "ap_worker c1 \<noteq> None" using ctx by (simp_all add: c1_def api_ok_fields)
  show ?thesis
  proof (cases "e0 = AOM_CODEC_OK")
    case False
    then show ?thesis unfolding decode_one_def p using c1 by (simp add: c1_def)
  next
    case True
    obtain w where w: "ap_worker c1 = Some w" using c1(2) by blast
    define G where "G = set (grain_handles (take (ap_num_grain_fbs c1) (ap_grain_fbs c1)))"
    define s where "s = (fw_pbi w)\<lparr>tl_large_scale := ap_tile_mode c1, pbi_ext_tile_debug := ap_ext_tile_debug c1, pbi_is_annexb := ap_is_annexb c1\<rparr>"
    have "idle G (fw_pbi w)" using c1(1) w by (simp add: api_ok_def G_def)
    then have "idle G s" by (simp add: s_def idle_fields)
    from hook_ok [OF env this] obtain good reach s' where h: "frame_worker_hook cbs env te data s = Some (good, reach, s')" "idle G s'"
      "good \<longrightarrow> data \<noteq> [] \<longrightarrow> 0 < reach" "\<not> good \<longrightarrow> ds_error (pbi_ds s') \<noteq> AOM_CODEC_OK" by blast
    define c2 where "c2 = c1\<lparr>ap_worker := Some (w\<lparr>fw_pbi := s', fw_received_frame := 1, fw_had_error := \<not> good\<rparr>)\<rparr>"
    have "api_ok c2" using c1(1) h(2) by (simp add: c2_def api_ok_def G_def w)
    then have c2: "api_ok c2" "api_ok (check_resync s' c2)" "ap_worker c2 \<noteq> None" "ap_worker (check_resync s' c2) \<noteq> None"
      "ap_num_grain_fbs c2 = ap_num_grain_fbs ctx" "ap_num_grain_fbs (check_resync s' c2) = ap_num_grain_fbs ctx"
      "ap_is_annexb c2 = ap_is_annexb ctx" "ap_is_annexb (check_resync s' c2) = ap_is_annexb ctx"
      by (simp_all add: check_resync_def api_ok_fields) (simp_all add: c2_def c1_def)
    have run: "decode_one cbs env te data ctx = Some (if \<not> good then (ds_error (pbi_ds s'), reach, c2) else (AOM_CODEC_OK, reach, check_resync s' c2))"
      unfolding decode_one_def p using True w h(1) by (simp add: c2_def c1_def s_def)
    then show ?thesis using c2 h(3,4) by (cases good) simp_all
  qed
qed

end

lemma read_unit_size_bounds:
  assumes "read_unit_size data = Some (v, rest)"
  shows "length rest < length data" "v \<le> length rest"
proof -
  obtain rc v' len where u: "aom_uleb_decode (Some (map nat data)) True True = (rc, v', len)" by (metis prod_cases3)
  then have z: "rc = 0" "rest = drop (the len) data" "v = the v'" "the v' \<le> length rest" using assms by (auto simp: read_unit_size_def Let_def split: if_splits)
  show "v \<le> length rest" using z by simp
  have "0 < the len \<and> the len \<le> length data"
    using u z(1) by (auto simp: aom_uleb_decode_def dest!: uleb_decode_loop_len)
  then show "length rest < length data" using z(2) by (simp only: length_drop) linarith
qed

context frame_source
begin

lemma decode_frames_ok:
  assumes env: "\<And>n. he_clear (env n) = clear" "\<And>n. header_errs (env n)" "\<And>n. tile_errs (te n)"
  shows "api_ok ctx \<Longrightarrow> ap_worker ctx \<noteq> None \<Longrightarrow> length data \<le> fuel \<Longrightarrow>
    \<exists>e ctx'. decode_frames fuel cbs env te n data ctx = Some (e, ctx') \<and> api_ok ctx' \<and> ap_num_grain_fbs ctx' = ap_num_grain_fbs ctx"
proof (induction fuel arbitrary: n data ctx)
  case 0
  then show ?case by simp
next
  case (Suc fuel)
  show ?case
  proof (cases data)
    case Nil
    then show ?thesis using Suc.prems by simp
  next
    case (Cons b bs)
    define unit where "unit = (if ap_is_annexb ctx \<noteq> 0 then read_unit_size data else Some (length data, data))"
    have run: "decode_frames (Suc fuel) cbs env te n data ctx = (case unit of None \<Rightarrow> Some (AOM_CODEC_CORRUPT_FRAME, ctx)
        | Some (frame_sz, data) \<Rightarrow> do {
            (e, reach, ctx) \<leftarrow> decode_one cbs (env n) (te n) (take frame_sz data) ctx;
            if e \<noteq> AOM_CODEC_OK then Some (e, ctx)
            else decode_frames fuel cbs env te (Suc n) (dropWhile (\<lambda>b. b = 0) (drop reach data)) ctx
          })" by (simp add: Cons unit_def Let_def)
    show ?thesis
    proof (cases unit)
      case None
      then show ?thesis unfolding run using Suc.prems by simp
    next
      case (Some x)
      obtain frame_sz rest where x: "x = (frame_sz, rest)" by fastforce
      have u: "length rest < length data \<or> rest = data \<and> frame_sz = length data"
        using Some x read_unit_size_bounds(1) by (auto simp: unit_def split: if_splits)
      obtain e reach c where c: "decode_one cbs (env n) (te n) (take frame_sz rest) ctx = Some (e, reach, c)" "api_ok c" "ap_worker c \<noteq> None"
        "ap_num_grain_fbs c = ap_num_grain_fbs ctx" "e = AOM_CODEC_OK \<longrightarrow> take frame_sz rest \<noteq> [] \<longrightarrow> 0 < reach"
        using decode_one_ok [OF env Suc.prems(1,2)] by blast
      have len: "length (dropWhile (\<lambda>b. b = 0) (drop reach rest)) \<le> fuel" if "e = AOM_CODEC_OK"
      proof -
        have "length (drop reach rest) < length data" using u c(5) that Cons by auto
        moreover have "length (dropWhile (\<lambda>b. b = 0) (drop reach rest)) \<le> length (drop reach rest)" by (rule length_dropWhile_le)
        ultimately show ?thesis using Suc.prems(3) by linarith
      qed
      show ?thesis unfolding run Some x option.case prod.case using c Suc.IH [OF c(2,3) len, of "Suc n"] by (cases "e = AOM_CODEC_OK") auto
    qed
  qed
qed

text \<open>The first call makes a decoder whose callbacks have handed nothing out.\<close>

lemma fresh_pool:
  assumes "ok c" "held c = {}"
  shows "pinv {} {} {#} \<lparr>frame_bufs = replicate FRAME_BUFFERS zero_ref_cnt_buffer, cb_priv = c\<rparr>"
  using assms by (auto simp: pinv_def pool_ok_def counts_ok_def blocks_ok_def blocks_named_def blocks_apart_def blocks_out_def
    frame_count_def frame_block_def zero_ref_cnt_buffer_def null_fb_def block_handle_def)

lemma init_decoder_ok:
  assumes "api_ok ctx" "ap_worker ctx = None" "ok c" "held c = {}" "init_decoder site_ok c ctx = (e, ctx')"
  shows "api_ok ctx' \<and> ap_num_grain_fbs ctx' = ap_num_grain_fbs ctx \<and> (e = AOM_CODEC_OK \<longrightarrow> ap_worker ctx' \<noteq> None)"
proof -
  have n: "ap_num_grain_fbs ctx = 0" "length (ap_grain_fbs ctx) = MAX_NUM_SPATIAL_LAYERS" using assms(1,2) by (simp_all add: api_ok_def)
  have "arrays_ok (empty_seq\<lparr>sq_bit_depth := 8\<rparr>)" by (simp add: arrays_ok_def empty_seq_def)
  then have "seq_state_ok \<lparr>ds_seq_params = empty_seq\<lparr>sq_bit_depth := 8\<rparr>, sequence_header_ready = False, sequence_header_changed = False,
        ds_operating_point = a, current_operating_point = 0, number_spatial_layers = 0, number_temporal_layers = 0,
        ds_allow_lowbitdepth = b, ds_error = AOM_CODEC_OK\<rparr>" for a b by (simp add: seq_state_ok_def)
  moreover have "remapped_ok (replicate INTER_REFS_PER_FRAME 0)" by (simp add: remapped_ok_def REF_FRAMES_def)
  moreover have "map_owners (replicate REF_FRAMES None) = {#}" by (simp add: map_owners_def REF_FRAMES_def numeral_eq_Suc)
  ultimately show ?thesis using assms(5) n fresh_pool [OF assms(3,4)] assms(1,2)
    by (auto simp: init_decoder_def Let_def api_ok_def grain_ok_def grain_handles_def init_buffer_callbacks_def av1_decoder_create_def idle_def core_def
      shape_ok_def owners_def split: if_splits)
qed

lemma decoder_decode_ok:
  assumes env: "\<And>n. he_clear (env n) = clear" "\<And>n. header_errs (env n)" "\<And>n. tile_errs (te n)"
    and ctx: "api_ok ctx" and start: "ap_worker ctx = None \<Longrightarrow> ok c \<and> held c = {}"
  shows "\<exists>e ctx'. decoder_decode cbs env te site_ok c data ctx = Some (e, ctx') \<and> api_ok ctx' \<and> ap_num_grain_fbs ctx' = 0"
proof -
  obtain c1 where c1: "release_pending_output_frames cbs ctx = Some c1" "api_ok c1" "ap_num_grain_fbs c1 = 0" "ap_worker c1 = None \<longleftrightarrow> ap_worker ctx = None"
    using release_pending_ok [OF ctx] by metis
  show ?thesis
  proof (cases "data = None \<or> data = Some []")
    case True
    then show ?thesis using c1 by (auto simp: decoder_decode_def api_ok_fields)
  next
    case False
    then obtain bytes where bytes: "data = Some bytes" "bytes \<noteq> []" by auto
    define c2 where "c2 = c1\<lparr>ap_flushed := 0\<rparr>"
    have c2: "api_ok c2" "ap_num_grain_fbs c2 = 0" "ap_worker c2 = None \<longleftrightarrow> ap_worker ctx = None" using c1 by (simp_all add: c2_def api_ok_fields)
    obtain e c3 where i: "(if ap_worker c2 = None then init_decoder site_ok c c2 else (AOM_CODEC_OK, c2)) = (e, c3)" by fastforce
    have c3: "api_ok c3" "ap_num_grain_fbs c3 = 0" "e = AOM_CODEC_OK \<Longrightarrow> ap_worker c3 \<noteq> None"
      using i init_decoder_ok [OF c2(1)] c2 start by (auto split: if_splits)
    have frames: "\<exists>e ctx'. decode_frames (length rest) cbs env te 0 (take sz rest) c3 = Some (e, ctx') \<and> api_ok ctx' \<and> ap_num_grain_fbs ctx' = 0"
      if "e = AOM_CODEC_OK" for rest sz
      using decode_frames_ok [OF env c3(1) c3(3) [OF that], where data = "take sz rest" and fuel = "length rest"] c3(2) by simp
    have run: "decoder_decode cbs env te site_ok c data ctx = (if e \<noteq> AOM_CODEC_OK then Some (e, c3)
        else case (if ap_is_annexb c3 \<noteq> 0 then read_unit_size bytes else Some (length bytes, bytes)) of
          None \<Rightarrow> Some (AOM_CODEC_CORRUPT_FRAME, c3)
        | Some (unit_size, data) \<Rightarrow> decode_frames (length data) cbs env te 0 (take unit_size data) c3)"
      unfolding decoder_decode_def Let_def bytes(1) c1(1) Option.bind.simps option.case c2_def [symmetric] i prod.case using bytes(2) by (rule if_not_P)
    show ?thesis unfolding run using c3(1,2) frames frames [where rest = bytes and sz = "length bytes"] by (auto split: option.splits)
  qed
qed

end

section \<open>Frames for the application\<close>

text \<open>The image that an allocation with a callback makes: \<open>img_request\<close> is what the callback is asked for.\<close>

lemma img_alloc_without_request:
  "img_request f dw dh 16 = None \<Longrightarrow> aom_img_alloc_with_cb b pick h (Some i) f dw dh 16 (Some cb) = Some (False, Some zero_image, h)"
  by (auto simp: img_request_def aom_img_alloc_with_cb_def img_alloc_helper_def one_if_zero_def Let_def img_fail_def aom_img_free_def zero_image_def
    split: if_splits)

lemma img_alloc_with_request:
  assumes "img_request f dw dh 16 = Some m"
  shows "\<exists>img. aom_img_alloc_with_cb b pick h (Some i) f dw dh 16 (Some cb) = Some (cb m \<noteq> 0 \<and> aom_align_addr (cb m) 16 \<noteq> 0, Some img, h)"
proof -
  have [simp]: "u32 0 = 0" by (simp add: u32_def)
  have v: "is_valid_img_fmt f" "\<not> dw > 134217728" "\<not> dh > 134217728" using assms by (auto simp: img_request_def split: if_splits)
  show ?thesis using assms v
    by (cases "f AND AOM_IMG_FMT_HIGHBITDEPTH = 0"; cases "f AND AOM_IMG_FMT_PLANAR = 0"; cases "cb m = 0"; cases "aom_align_addr (cb m) 16 = 0")
      (auto simp: img_request_def aom_img_alloc_with_cb_def img_alloc_helper_def one_if_zero_def Let_def img_fail_def aom_img_free_def zero_image_def
        split: if_splits)
qed

lemma img_request_bound:
  assumes "img_request f dw dh 16 = Some m"
  shows "15 \<le> m"
proof -
  define d :: int where "d = (if f AND AOM_IMG_FMT_HIGHBITDEPTH \<noteq> 0 then 16 else 8)"
  define s where "s = img_stride_bytes f (align_image_dimension dw (fmt_xcs f) 1) 0 (fmt_bps f) d 16"
  define h where "h = align_image_dimension dh (fmt_ycs f) 1"
  define a where "a = (if f AND AOM_IMG_FMT_PLANAR \<noteq> 0 then u64 (u64 (u32 h * s) * fmt_bps f) div d else u64 (u32 h * s))"
  have m: "m = u64 (15 + a)" "s \<le> 2147483647" using assms by (auto simp: img_request_def Let_def a_def s_def h_def d_def split: if_splits)
  have "0 \<le> s" by (simp add: s_def img_stride_bytes_def Let_def u64_def)
  moreover have "0 \<le> u32 h" "u32 h \<le> 4294967296" by (simp_all add: u32_def less_imp_le)
  ultimately have "u32 h * s \<le> 4294967296 * 2147483647" "0 \<le> u32 h * s" using m(2) by (intro mult_mono, simp_all)
  then have "0 \<le> a \<and> a \<le> 9223372032559808512"
  proof (cases "f AND AOM_IMG_FMT_PLANAR \<noteq> 0")
    case True
    have "u64 x div d \<le> 18446744073709551615 div d" for x by (rule zdiv_mono1) (simp_all add: d_def u64_def)
    moreover have "18446744073709551615 div d \<le> 9223372032559808512" "0 \<le> u64 x div d" for x by (simp_all add: d_def u64_def pos_imp_zdiv_nonneg_iff)
    ultimately show ?thesis using True by (simp add: a_def) (meson order_trans)
  qed (simp add: a_def u64_id)
  then show ?thesis by (simp add: m(1) u64_id)
qed

context frame_source
begin

text \<open>A block for a grain image.\<close>

lemma lend_ok:
  assumes "pinv G {} os p" "0 < n"
  shows "\<exists>rc fb c. get_fb_cb cbs pick (cb_priv p) n old = Some (rc, fb, c) \<and>
    (if rc < 0 then pinv G {} os (p\<lparr>cb_priv := c\<rparr>)
     else 0 < fb_data fb \<and> n \<le> fb_size fb \<and> fb_data fb + fb_size fb < 18446744073709551616 \<and>
       (\<exists>h \<in> handles. fb_priv fb = Some h \<and> h \<notin> G \<and> pinv (insert h G) {} os (p\<lparr>cb_priv := c\<rparr>)))"
proof -
  have P: "ok (cb_priv p)" "length (frame_bufs p) = FRAME_BUFFERS" "counts_ok os (frame_count p)" "blocks_ok handles G {} (held (cb_priv p)) (frame_block p)"
    "\<forall>k < FRAME_BUFFERS. k \<notin># os \<longrightarrow> fb_data (frame_block p k) = 0" using assms(1) by (simp_all add: pinv_def pool_ok_def)
  have "G \<subseteq> held (cb_priv p)" using P(4) by (auto simp: blocks_ok_def)
  then show ?thesis using get_block [OF P(1) assms(2), of pick old] blocks_ok_lend [OF P(4)] P
    by (fastforce simp: pinv_views pool_ok_def split: if_splits)
qed

lemma add_grain_ok:
  assumes p: "pinv (set (grain_handles (take n fbs))) {} os p" and fbs: "grain_ok (take n fbs)" and n: "grain = 0 \<or> n < length fbs"
  shows "\<exists>r c fbs' n'. add_grain_if_needed cbs ge grain img (cb_priv p) fbs n = Some (r, c, fbs', n') \<and> length fbs' = length fbs \<and>
    n' = (if grain = 0 \<or> r = None then n else Suc n) \<and> grain_ok (take n' fbs') \<and> pinv (set (grain_handles (take n' fbs'))) {} os (p\<lparr>cb_priv := c\<rparr>)"
proof (cases "grain = 0")
  case True
  then show ?thesis using assms by (simp add: add_grain_if_needed_def)
next
  case grain: False
  define w h where "w = (d_w img + 1) AND NOT 1" and "h = (d_h img + 1) AND NOT 1"
  have keep: "take n (fbs[n := fb]) = take n fbs" "take (Suc n) (fbs[n := fb]) = take n fbs @ [fb]" for fb
    using n grain by (simp_all add: take_Suc_conv_app_nth)
  have red: "add_grain_if_needed cbs ge grain img (cb_priv p) fbs n =
      do {
        (p, fb, c) \<leftarrow> (case img_request (fmt img) w h 16 of
           None \<Rightarrow> Some (0, fbs ! n, cb_priv p)
         | Some m \<Rightarrow> do {
             (rc, fb, c) \<leftarrow> get_fb_cb cbs (ge_pick ge) (cb_priv p) m (fbs ! n);
             Some (if rc < 0 \<or> fb_data fb = 0 \<or> fb_size fb < m then 0 else fb_data fb, fb, c) });
        (good, grain_img, _) \<leftarrow> aom_img_alloc_with_cb False 0 \<lparr>mem = \<lambda>_. 0, live = []\<rparr> (Some zero_image) (fmt img) w h 16 (Some (\<lambda>_. p));
        if \<not> good then Some (None, c, fbs[n := fb], n)
        else do {
          grain_img \<leftarrow> grain_img;
          case ge_synth ge img (aom_image.extend grain_img (dec_image.fields 0 0 0 0 0 0 (fb_priv fb))) of
            None \<Rightarrow> map_option (\<lambda>(_, c). (None, c, fbs[n := fb], n)) (release_fb_cb cbs c fb)
          | Some grain_img \<Rightarrow> Some (Some grain_img, c, fbs[n := fb], Suc n) } }"
    using grain n unfolding add_grain_if_needed_def Let_def w_def h_def by simp
  show ?thesis
  proof (cases "img_request (fmt img) w h 16")
    case None
    then show ?thesis unfolding red using grain p fbs keep by (simp add: img_alloc_without_request)
  next
    case (Some m)
    have m: "15 \<le> m" by (rule img_request_bound [OF Some])
    then have "0 < m" by simp
    from lend_ok [OF p this, of "ge_pick ge" "fbs ! n"]
    obtain rc fb c where g: "get_fb_cb cbs (ge_pick ge) (cb_priv p) m (fbs ! n) = Some (rc, fb, c)"
      "if rc < 0 then pinv (set (grain_handles (take n fbs))) {} os (p\<lparr>cb_priv := c\<rparr>)
       else 0 < fb_data fb \<and> m \<le> fb_size fb \<and> fb_data fb + fb_size fb < 18446744073709551616 \<and>
         (\<exists>h \<in> handles. fb_priv fb = Some h \<and> h \<notin> set (grain_handles (take n fbs)) \<and>
           pinv (insert h (set (grain_handles (take n fbs)))) {} os (p\<lparr>cb_priv := c\<rparr>))"
      by blast
    define q where "q = (if rc < 0 \<or> fb_data fb = 0 \<or> fb_size fb < m then 0 else fb_data fb)"
    obtain gi where gi: "aom_img_alloc_with_cb False 0 \<lparr>mem = \<lambda>_. 0, live = []\<rparr> (Some zero_image) (fmt img) w h 16 (Some (\<lambda>_. q)) =
        Some (q \<noteq> 0 \<and> aom_align_addr q 16 \<noteq> 0, Some gi, \<lparr>mem = \<lambda>_. 0, live = []\<rparr>)"
      using img_alloc_with_request [OF Some, of False 0 _ zero_image "\<lambda>_. q"] by blast
    define si where "si = ge_synth ge img (aom_image.extend gi (dec_image.fields 0 0 0 0 0 0 (fb_priv fb)))"
    have run: "add_grain_if_needed cbs ge grain img (cb_priv p) fbs n =
        (if \<not> (q \<noteq> 0 \<and> aom_align_addr q 16 \<noteq> 0) then Some (None, c, fbs[n := fb], n)
         else case si of
             None \<Rightarrow> map_option (\<lambda>(_, c). (None, c, fbs[n := fb], n)) (release_fb_cb cbs c fb)
           | Some grain_img \<Rightarrow> Some (Some grain_img, c, fbs[n := fb], Suc n))"
      unfolding red using Some g(1) gi by (simp add: si_def flip: q_def)
    show ?thesis
    proof (cases "rc < 0")
      case True
      then have "q = 0" by (simp add: q_def)
      then show ?thesis unfolding run using g(2) True fbs keep by simp
    next
      case False
      obtain h where h: "h \<in> handles" "fb_priv fb = Some h" "h \<notin> set (grain_handles (take n fbs))"
        "pinv (insert h (set (grain_handles (take n fbs)))) {} os (p\<lparr>cb_priv := c\<rparr>)" using g(2) False by auto
      have "q = fb_data fb" "0 < q" "q + 15 < 18446744073709551616" using g(2) False m by (auto simp: q_def)
      then have good: "q \<noteq> 0 \<and> aom_align_addr q 16 \<noteq> 0" using align_addr_props(1) [of 16 4 q] by simp
      show ?thesis
      proof (cases si)
        case None
        from release_grain_ok [of "[fb]" "set (grain_handles (take n fbs))" "{}" os "p\<lparr>cb_priv := c\<rparr>"] h obtain c'
          where c': "release_fb_cb cbs c fb = Some c'" "pinv (set (grain_handles (take n fbs))) {} os (p\<lparr>cb_priv := snd c'\<rparr>)"
          by (auto simp: grain_ok_def grain_handles_def split: Option.bind_splits)
        then show ?thesis unfolding run using good None fbs keep by (auto split: prod.splits)
      next
        case (Some i)
        have "grain_ok (take n fbs @ [fb])" using fbs h(1-3) by (auto simp: grain_ok_def grain_handles_def)
        moreover have "set (grain_handles (take n fbs @ [fb])) = insert h (set (grain_handles (take n fbs)))" using h(2) by (simp add: grain_handles_def)
        ultimately show ?thesis unfolding run using good Some h(4) keep grain by simp
      qed
    qed
  qed
qed

end

context frame_source
begin

lemma add_grain_idle:
  assumes "idle (set (grain_handles (take n fbs))) s" "grain_ok (take n fbs)" "grain = 0 \<or> n < length fbs"
  shows "\<exists>r c fbs' n'. add_grain_if_needed cbs ge grain img (cb_priv (cm_pool s)) fbs n = Some (r, c, fbs', n') \<and> length fbs' = length fbs \<and>
    n' \<le> (if r = None then n else Suc n) \<and> n' \<le> max n (length fbs) \<and> grain_ok (take n' fbs') \<and>
    idle (set (grain_handles (take n' fbs'))) (s\<lparr>cm_pool := (cm_pool s)\<lparr>cb_priv := c\<rparr>\<rparr>)"
proof -
  have "pinv (set (grain_handles (take n fbs))) {} (owners s) (cm_pool s)" using assms(1) by (simp add: idle_def core_def)
  from add_grain_ok [OF this assms(2,3)] obtain r c fbs' n' where
    "add_grain_if_needed cbs ge grain img (cb_priv (cm_pool s)) fbs n = Some (r, c, fbs', n')" "length fbs' = length fbs"
    "n' = (if grain = 0 \<or> r = None then n else Suc n)" "grain_ok (take n' fbs')"
    "pinv (set (grain_handles (take n' fbs'))) {} (owners s) ((cm_pool s)\<lparr>cb_priv := c\<rparr>)" by blast
  then show ?thesis using assms(1,3) by (intro exI [of _ r] exI [of _ c] exI [of _ fbs'] exI [of _ n']) (auto simp: idle_def core_def shape_ok_def owners_def)
qed

lemma same_block_grain: "same_block (\<lambda>b. b\<lparr>apply_grain := x\<rparr>)"
  by (simp add: same_block_def)

lemma output_frame_ok:
  assumes "idle (set (grain_handles (take n fbs))) (fw_pbi w)" "grain_ok (take n fbs)" "n < length fbs" "length fbs = MAX_NUM_SPATIAL_LAYERS"
    and ctx: "ap_grain_fbs ctx = fbs" "ap_num_grain_fbs ctx = n"
  shows "\<exists>r ctx'. output_frame cbs ge k w ctx = Some (r, ctx') \<and> api_ok ctx' \<and> ap_num_grain_fbs ctx' \<le> (if r = None then n else Suc n)"
proof -
  define s where "s = (fw_pbi w)\<lparr>pbi_metadata := None\<rparr>"
  define img where "img = (yuvconfig2image (ap_img ctx) (rc_buf (pool_frame (fw_pbi w) k)))\<lparr>metadata := pbi_metadata (fw_pbi w)\<rparr>"
  define c where "c = ctx\<lparr>ap_worker := Some (w\<lparr>fw_pbi := s\<rparr>), ap_img := img\<rparr>"
  define t where "t = (if fw_skip_film_grain w \<noteq> 0 then set_frame (\<lambda>b. b\<lparr>apply_grain := 0\<rparr>) k s else s)"
  have s: "idle (set (grain_handles (take n fbs))) s" using assms(1) by (simp add: s_def idle_fields)
  then have t: "idle (set (grain_handles (take n fbs))) t" by (simp add: t_def idle_def set_frame_core [OF same_block_grain])
  have api: "api_ok (c\<lparr>ap_img := i\<rparr>)" "ap_num_grain_fbs (c\<lparr>ap_img := i\<rparr>) = n" for i
    using s assms(2-4) ctx by (simp_all add: c_def api_ok_def)
  define crop where "crop = (if pbi_ext_tile_debug s \<noteq> 0 then ge_crop ge s img else Some img)"
  define tag where "tag i = i\<lparr>im_fb_priv := fb_priv (raw_frame_buffer (pool_frame s k)), im_temporal_id := rc_temporal_id (pool_frame s k),
      im_spatial_id := rc_spatial_id (pool_frame s k)\<rparr>" for i :: dec_image
  have run: "output_frame cbs ge k w ctx =
      (if pbi_ext_tile_debug s = 0 \<and> tl_large_scale s \<noteq> 0 then
         Some (Some (yuvconfig2image img (ge_tile_list ge)), c\<lparr>ap_img := yuvconfig2image img (ge_tile_list ge)\<rparr>)
       else case crop of None \<Rightarrow> Some (None, c\<lparr>ap_img := img\<rparr>)
       | Some i \<Rightarrow> do {
           (r, cp, fbs', n') \<leftarrow> add_grain_if_needed cbs ge (apply_grain (pool_frame t k)) (tag i) (cb_priv (cm_pool t)) fbs n;
           let u = t\<lparr>cm_pool := (cm_pool t)\<lparr>cb_priv := cp\<rparr>\<rparr>;
           Some (r, c\<lparr>ap_worker := Some (w\<lparr>fw_pbi := if r = None then set_pbi_error AOM_CODEC_CORRUPT_FRAME u else u\<rparr>), ap_img := tag i,
             ap_grain_fbs := fbs', ap_num_grain_fbs := n'\<rparr>) })"
    unfolding output_frame_def Let_def s_def [symmetric] img_def [symmetric] crop_def [symmetric] t_def [symmetric] tag_def [symmetric]
    by (simp add: c_def ctx cong: if_cong option.case_cong)
  show ?thesis
  proof (cases "pbi_ext_tile_debug s = 0 \<and> tl_large_scale s \<noteq> 0 \<or> crop = None")
    case True
    then show ?thesis unfolding run using api by (cases "pbi_ext_tile_debug s = 0 \<and> tl_large_scale s \<noteq> 0") simp_all
  next
    case False
    then obtain i where i: "crop = Some i" by blast
    obtain r cp fbs' n' where g: "add_grain_if_needed cbs ge (apply_grain (pool_frame t k)) (tag i) (cb_priv (cm_pool t)) fbs n = Some (r, cp, fbs', n')"
      "length fbs' = length fbs" "n' \<le> (if r = None then n else Suc n)" "n' \<le> max n (length fbs)" "grain_ok (take n' fbs')"
      "idle (set (grain_handles (take n' fbs'))) (t\<lparr>cm_pool := (cm_pool t)\<lparr>cb_priv := cp\<rparr>\<rparr>)"
      using add_grain_idle [OF t assms(2)] assms(3) by blast
    then show ?thesis unfolding run using False i assms(3,4) by (auto simp: api_ok_def idle_error c_def max_def split: if_splits)
  qed
qed

text \<open>An iteration that starts at the first frame has made no more grain images than it has visited frames.\<close>

lemma decoder_get_frame_ok:
  assumes ctx: "api_ok ctx" and i: "ap_num_grain_fbs ctx \<le> i"
  shows "\<exists>r i' ctx'. decoder_get_frame cbs ge i ctx = Some (r, i', ctx') \<and> api_ok ctx' \<and> ap_num_grain_fbs ctx' \<le> i' \<and>
    i' = (if r = None then i else Suc i)"
proof (cases "ap_worker ctx")
  case None
  then show ?thesis using assms by (simp add: decoder_get_frame_def)
next
  case (Some w)
  define n fbs G where "n = ap_num_grain_fbs ctx" and "fbs = ap_grain_fbs ctx" and "G = set (grain_handles (take n fbs))"
  define s where "s = set_pbi_error AOM_CODEC_OK (fw_pbi w)"
  have a: "length fbs = MAX_NUM_SPATIAL_LAYERS" "n \<le> MAX_NUM_SPATIAL_LAYERS" "grain_ok (take n fbs)" "idle G s"
    using ctx Some by (simp_all add: api_ok_def n_def fbs_def G_def s_def idle_error)
  have put: "api_ok c \<and> ap_num_grain_fbs c \<le> i" if "ap_worker c = Some w'" "ap_grain_fbs c = fbs" "ap_num_grain_fbs c = n" "fw_pbi w' = s" for c w'
    using a that i by (simp add: api_ok_def G_def n_def)
  define c1 where "c1 = (if fw_received_frame w = 1 then check_resync s ctx else ctx)"
  define w1 where "w1 = (if fw_received_frame w = 1 then w\<lparr>fw_pbi := s, fw_received_frame := 0\<rparr> else w\<lparr>fw_pbi := s\<rparr>)"
  have c1: "fw_pbi w1 = s" "ap_grain_fbs c1 = fbs" "ap_num_grain_fbs c1 = n" by (simp_all add: w1_def c1_def check_resync_def n_def fbs_def)
  define c2 where "c2 = c1\<lparr>ap_worker := Some w1, ap_last_show_frame := Some (pbi_output_frames s ! i)\<rparr>"
  have run: "decoder_get_frame cbs ge i ctx =
      (if fw_had_error w then Some (None, i, ctx\<lparr>ap_worker := Some (w\<lparr>fw_pbi := s, fw_received_frame := 0\<rparr>), ap_need_resync := 1\<rparr>)
       else if length (pbi_output_frames s) \<le> i then Some (None, i, c1\<lparr>ap_worker := Some w1\<rparr>)
       else if ap_need_resync c2 \<noteq> 0 then Some (None, i, c2)
       else map_option (\<lambda>(r, ctx). (r, if r = None then i else Suc i, ctx)) (output_frame cbs ge (pbi_output_frames s ! i) w1 c2))"
    using Some by (simp add: decoder_get_frame_def Let_def c1_def w1_def c2_def flip: s_def)
  show ?thesis
  proof (cases "fw_had_error w \<or> length (pbi_output_frames s) \<le> i \<or> ap_need_resync c2 \<noteq> 0")
    case True
    then show ?thesis unfolding run using put c1 i by (auto simp: c2_def n_def fbs_def split: if_splits)
  next
    case False
    have "n < length fbs" using False i a(1,4) by (auto simp: n_def idle_def core_def shape_ok_def MAX_NUM_SPATIAL_LAYERS_def split: if_splits)
    then obtain r ctx' where "output_frame cbs ge (pbi_output_frames s ! i) w1 c2 = Some (r, ctx')" "api_ok ctx'"
      "ap_num_grain_fbs ctx' \<le> (if r = None then n else Suc n)"
      using output_frame_ok [of n fbs w1 c2 ge "pbi_output_frames s ! i"] a c1 by (auto simp: G_def c2_def)
    then show ?thesis unfolding run using False i by (auto simp: n_def split: if_splits)
  qed
qed

text \<open>In the end every block is back before the pool's own list is freed.\<close>

lemma decoder_destroy_ok:
  assumes "api_ok ctx" "ap_worker ctx \<noteq> None"
  shows "\<exists>c. decoder_destroy cbs free_int ctx = map_option Some (free_int c) \<and> ok c \<and> held c = {}"
proof -
  obtain w where w: "ap_worker ctx = Some w" using assms(2) by blast
  define fbs where "fbs = take (ap_num_grain_fbs ctx) (ap_grain_fbs ctx)"
  have "grain_ok fbs" "pinv (set (grain_handles fbs) \<union> {}) {} (owners (fw_pbi w)) (cm_pool (fw_pbi w))"
    using assms(1) w by (simp_all add: api_ok_def fbs_def idle_def core_def)
  from release_grain_ok [OF this] obtain c where c: "release_grain cbs fbs (cb_priv (cm_pool (fw_pbi w))) = Some c"
    "pinv {} {} (owners (fw_pbi w)) ((cm_pool (fw_pbi w))\<lparr>cb_priv := c\<rparr>)" by auto
  from free_frames_out [OF c(2)] obtain p where "av1_free_ref_frame_buffers cbs ((cm_pool (fw_pbi w))\<lparr>cb_priv := c\<rparr>) = Some p"
    "ok (cb_priv p)" "held (cb_priv p) = {}" by blast
  then show ?thesis using c(1) w by (intro exI [of _ "cb_priv p"]) (auto simp: decoder_destroy_def map_option_bind simp flip: fbs_def split: Option.bind_splits)
qed

end

end
