(* ===== verification/Decoder_Control.thy ===== *)
theory Decoder_Control
  imports Decoder_Api
begin

text \<open>
  The controls of the decoder (\<open>av1/av1_dx_iface.c\<close>) that set or read the part of its state that is
  modelled. A setter gets its value, a getter whether the caller's pointer is NULL; it returns the
  status and what it writes through the pointer.
\<close>

section \<open>Setters\<close>

definition ctrl_set_byte_alignment :: "int \<Rightarrow> 'c dec_priv \<Rightarrow> aom_codec_err \<times> 'c dec_priv" where
  "ctrl_set_byte_alignment v ctx =
     (if v \<noteq> 0 \<and> (v < 32 \<or> v > 1024 \<or> v AND (v - 1) \<noteq> 0)
      then (AOM_CODEC_INVALID_PARAM, ctx)
      else (AOM_CODEC_OK, ctx\<lparr>ap_byte_alignment := v,
        ap_worker := map_option (\<lambda>w. w\<lparr>fw_pbi := (fw_pbi w)\<lparr>ft_byte_alignment := v\<rparr>\<rparr>) (ap_worker ctx)\<rparr>))"

definition ctrl_set_skip_film_grain :: "int \<Rightarrow> 'c dec_priv \<Rightarrow> aom_codec_err \<times> 'c dec_priv" where
  "ctrl_set_skip_film_grain v ctx =
     (AOM_CODEC_OK, ctx\<lparr>ap_skip_film_grain := v, ap_worker := map_option (\<lambda>w. w\<lparr>fw_skip_film_grain := v\<rparr>) (ap_worker ctx)\<rparr>)"

definition ctrl_set_frame_size_limit :: "int \<Rightarrow> 'c dec_priv \<Rightarrow> aom_codec_err \<times> 'c dec_priv" where
  "ctrl_set_frame_size_limit v ctx = (AOM_CODEC_OK, ctx\<lparr>ap_frame_size_limit := v\<rparr>)"

definition ctrl_set_tile_mode :: "int \<Rightarrow> 'c dec_priv \<Rightarrow> aom_codec_err \<times> 'c dec_priv" where
  "ctrl_set_tile_mode v ctx = (AOM_CODEC_OK, ctx\<lparr>ap_tile_mode := v\<rparr>)"

definition ctrl_set_is_annexb :: "int \<Rightarrow> 'c dec_priv \<Rightarrow> aom_codec_err \<times> 'c dec_priv" where
  "ctrl_set_is_annexb v ctx = (AOM_CODEC_OK, ctx\<lparr>ap_is_annexb := v\<rparr>)"

definition ctrl_set_operating_point :: "int \<Rightarrow> 'c dec_priv \<Rightarrow> aom_codec_err \<times> 'c dec_priv" where
  "ctrl_set_operating_point v ctx = (AOM_CODEC_OK, ctx\<lparr>ap_operating_point := v\<rparr>)"

definition ctrl_set_output_all_layers :: "int \<Rightarrow> 'c dec_priv \<Rightarrow> aom_codec_err \<times> 'c dec_priv" where
  "ctrl_set_output_all_layers v ctx = (AOM_CODEC_OK, ctx\<lparr>ap_output_all_layers := v\<rparr>)"

definition ctrl_ext_tile_debug :: "int \<Rightarrow> 'c dec_priv \<Rightarrow> aom_codec_err \<times> 'c dec_priv" where
  "ctrl_ext_tile_debug v ctx = (AOM_CODEC_OK, ctx\<lparr>ap_ext_tile_debug := v\<rparr>)"

text \<open>The table of the setters.\<close>

datatype dec_control = AV1_SET_BYTE_ALIGNMENT | AV1D_SET_SKIP_FILM_GRAIN | AOMD_SET_FRAME_SIZE_LIMIT | AV1_SET_TILE_MODE
  | AV1D_SET_IS_ANNEXB | AV1D_SET_OPERATING_POINT | AV1D_SET_OUTPUT_ALL_LAYERS | AV1D_EXT_TILE_DEBUG

fun decoder_ctrl_maps :: "dec_control \<Rightarrow> int \<Rightarrow> 'c dec_priv \<Rightarrow> aom_codec_err \<times> 'c dec_priv" where
  "decoder_ctrl_maps AV1_SET_BYTE_ALIGNMENT = ctrl_set_byte_alignment"
| "decoder_ctrl_maps AV1_SET_TILE_MODE = ctrl_set_tile_mode"
| "decoder_ctrl_maps AV1D_SET_IS_ANNEXB = ctrl_set_is_annexb"
| "decoder_ctrl_maps AV1D_SET_OPERATING_POINT = ctrl_set_operating_point"
| "decoder_ctrl_maps AV1D_SET_OUTPUT_ALL_LAYERS = ctrl_set_output_all_layers"
| "decoder_ctrl_maps AV1D_EXT_TILE_DEBUG = ctrl_ext_tile_debug"
| "decoder_ctrl_maps AV1D_SET_SKIP_FILM_GRAIN = ctrl_set_skip_film_grain"
| "decoder_ctrl_maps AOMD_SET_FRAME_SIZE_LIMIT = ctrl_set_frame_size_limit"

section \<open>Getters\<close>

text \<open>The shape all of them share.\<close>

definition read_pbi :: "bool \<Rightarrow> ('c AV1Decoder \<Rightarrow> 'a) \<Rightarrow> 'c dec_priv \<Rightarrow> aom_codec_err \<times> 'a option" where
  "read_pbi arg_null f ctx =
     (if arg_null then (AOM_CODEC_INVALID_PARAM, None)
      else case ap_worker ctx of None \<Rightarrow> (AOM_CODEC_ERROR, None) | Some w \<Rightarrow> (AOM_CODEC_OK, Some (f (fw_pbi w))))"

definition decoder_get_si :: "'c dec_priv \<Rightarrow> aom_codec_err \<times> aom_codec_stream_info" where
  "decoder_get_si ctx = (AOM_CODEC_OK, ap_si ctx)"

definition ctrl_get_last_ref_updates :: "bool \<Rightarrow> 'c dec_priv \<Rightarrow> aom_codec_err \<times> int option" where
  "ctrl_get_last_ref_updates arg_null = read_pbi arg_null cf_refresh_frame_flags"

definition ctrl_get_fwd_kf_value :: "bool \<Rightarrow> 'c dec_priv \<Rightarrow> aom_codec_err \<times> int option" where
  "ctrl_get_fwd_kf_value arg_null = read_pbi arg_null pbi_is_fwd_kf_present"

definition ctrl_get_altref_present :: "bool \<Rightarrow> 'c dec_priv \<Rightarrow> aom_codec_err \<times> int option" where
  "ctrl_get_altref_present arg_null = read_pbi arg_null pbi_is_arf_frame_present"

definition AOM_FRAME_IS_KEY :: int where "AOM_FRAME_IS_KEY = 1"
definition AOM_FRAME_IS_INTRAONLY :: int where "AOM_FRAME_IS_INTRAONLY = 16"
definition AOM_FRAME_IS_SWITCH :: int where "AOM_FRAME_IS_SWITCH = 32"
definition AOM_FRAME_IS_ERROR_RESILIENT :: int where "AOM_FRAME_IS_ERROR_RESILIENT = 64"
definition AOM_FRAME_IS_DELAYED_RANDOM_ACCESS_POINT :: int where "AOM_FRAME_IS_DELAYED_RANDOM_ACCESS_POINT = 128"

definition frame_flags :: "'c AV1Decoder \<Rightarrow> int" where
  "frame_flags s =
     (let f = (if cf_frame_type s = KEY_FRAME then
                 let f = AOM_FRAME_IS_KEY OR AOM_FRAME_IS_INTRAONLY in
                 if cm_show_frame s = 0 then f OR AOM_FRAME_IS_DELAYED_RANDOM_ACCESS_POINT else f
               else if cf_frame_type s = INTRA_ONLY_FRAME then AOM_FRAME_IS_INTRAONLY
               else if cf_frame_type s = S_FRAME then AOM_FRAME_IS_SWITCH
               else 0) in
      if ft_error_resilient_mode s \<noteq> 0 then f OR AOM_FRAME_IS_ERROR_RESILIENT else f)"

definition ctrl_get_frame_flags :: "bool \<Rightarrow> 'c dec_priv \<Rightarrow> aom_codec_err \<times> int option" where
  "ctrl_get_frame_flags arg_null = read_pbi arg_null frame_flags"

text \<open>Whether the tools are allowed, intra block copy, and whether motion vectors are integers.\<close>

definition ctrl_get_screen_content_tools_info :: "bool \<Rightarrow> 'c dec_priv \<Rightarrow> aom_codec_err \<times> (int \<times> int \<times> int) option" where
  "ctrl_get_screen_content_tools_info arg_null =
     read_pbi arg_null (\<lambda>s. (ft_allow_screen_content_tools s, ft_allow_intrabc s, ft_cur_frame_force_integer_mv s))"

definition ctrl_get_still_picture :: "bool \<Rightarrow> 'c dec_priv \<Rightarrow> aom_codec_err \<times> (int \<times> int) option" where
  "ctrl_get_still_picture arg_null =
     read_pbi arg_null (\<lambda>s. let seq = ds_seq_params (pbi_ds s) in (still_picture seq, reduced_still_picture_hdr seq))"

definition ctrl_get_sb_size :: "bool \<Rightarrow> 'c dec_priv \<Rightarrow> aom_codec_err \<times> int option" where
  "ctrl_get_sb_size arg_null = read_pbi arg_null (\<lambda>s. if sb_size_128 (ds_seq_params (pbi_ds s)) then 1 else 0)"

definition ctrl_get_show_existing_frame_flag :: "bool \<Rightarrow> 'c dec_priv \<Rightarrow> aom_codec_err \<times> int option" where
  "ctrl_get_show_existing_frame_flag arg_null = read_pbi arg_null cm_show_existing_frame"

definition ctrl_get_s_frame_info :: "bool \<Rightarrow> 'c dec_priv \<Rightarrow> aom_codec_err \<times> (int \<times> int) option" where
  "ctrl_get_s_frame_info arg_null = read_pbi arg_null (\<lambda>s. (pbi_is_s_frame s, pbi_is_s_frame_at_altref s))"

text \<open>The flag of the frame that was put out last; nothing is written when there is none.\<close>

definition ctrl_get_frame_corrupted :: "bool \<Rightarrow> 'c dec_priv \<Rightarrow> aom_codec_err \<times> int option" where
  "ctrl_get_frame_corrupted arg_null ctx =
     (if arg_null then (AOM_CODEC_INVALID_PARAM, None)
      else case ap_worker ctx of
          None \<Rightarrow> (AOM_CODEC_ERROR, None)
        | Some w \<Rightarrow>
            if pbi_seen_frame_header (fw_pbi w) \<noteq> 0 \<and> pbi_output_frames (fw_pbi w) = [] then (AOM_CODEC_ERROR, None)
            else (AOM_CODEC_OK, map_option (\<lambda>k. corrupted (rc_buf (pool_frame (fw_pbi w) k))) (ap_last_show_frame ctx)))"

definition ctrl_get_frame_size :: "bool \<Rightarrow> 'c dec_priv \<Rightarrow> aom_codec_err \<times> (int \<times> int) option" where
  "ctrl_get_frame_size arg_null = read_pbi arg_null (\<lambda>s. (cm_width s, cm_height s))"

definition ctrl_get_render_size :: "bool \<Rightarrow> 'c dec_priv \<Rightarrow> aom_codec_err \<times> (int \<times> int) option" where
  "ctrl_get_render_size arg_null = read_pbi arg_null (\<lambda>s. (cm_render_width s, cm_render_height s))"

definition ctrl_get_bit_depth :: "bool \<Rightarrow> 'c dec_priv \<Rightarrow> aom_codec_err \<times> int option" where
  "ctrl_get_bit_depth arg_null = read_pbi arg_null (\<lambda>s. sq_bit_depth (cm_seq s))"

definition get_img_format :: "int \<Rightarrow> int \<Rightarrow> int \<Rightarrow> int" where
  "get_img_format ssx ssy high =
     (let f = (if ssx = 0 \<and> ssy = 0 then AOM_IMG_FMT_I444
               else if ssx = 1 \<and> ssy = 0 then AOM_IMG_FMT_I422
               else if ssx = 1 \<and> ssy = 1 then AOM_IMG_FMT_I420
               else 0) in
      if high \<noteq> 0 then f OR AOM_IMG_FMT_HIGHBITDEPTH else f)"

definition ctrl_get_img_format :: "bool \<Rightarrow> 'c dec_priv \<Rightarrow> aom_codec_err \<times> int option" where
  "ctrl_get_img_format arg_null =
     read_pbi arg_null (\<lambda>s. get_img_format (subsampling_x (cm_seq s)) (subsampling_y (cm_seq s)) (use_highbitdepth (cm_seq s)))"

definition ctrl_get_show_frame_flag :: "bool \<Rightarrow> 'c dec_priv \<Rightarrow> aom_codec_err \<times> int option" where
  "ctrl_get_show_frame_flag arg_null = read_pbi arg_null cm_show_frame"

definition ctrl_get_order_hint :: "bool \<Rightarrow> 'c dec_priv \<Rightarrow> aom_codec_err \<times> int option" where
  "ctrl_get_order_hint arg_null = read_pbi arg_null cf_order_hint"

section \<open>Properties\<close>

text \<open>A limit or an operating point set after the first frame does not reach the decoder.\<close>

lemma late_control_ignored:
  assumes "x = AOMD_SET_FRAME_SIZE_LIMIT \<or> x = AV1D_SET_OPERATING_POINT \<or> x = AV1D_SET_OUTPUT_ALL_LAYERS"
  shows "fst (decoder_ctrl_maps x v ctx) = AOM_CODEC_OK" "ap_worker (snd (decoder_ctrl_maps x v ctx)) = ap_worker ctx"
  using assms by (auto simp: ctrl_set_frame_size_limit_def ctrl_set_operating_point_def ctrl_set_output_all_layers_def)

end
