(* ===== verification/Decoder_Session.thy ===== *)
theory Decoder_Session
  imports Decoder_Api_Props Decoder_Control
begin

text \<open>
  A session of the decoder on its internal frame buffers: an application opens it, decodes
  temporal units, takes the frames that are shown one by one, and sets controls, in any order.
  Every call returns, whatever the bytes are; the counts of the frames and the buffers that are in
  use stay consistent; and after the decoder is destroyed none of the internal frame buffers and not
  their list is left. The code that the arguments of the model stand for (the header from the tile
  information on, tiles, filters, tile lists, film grain) is taken to return; and the heap holds the
  frame buffers and their list, not the other memory of the decoder (the pool and the worker
  themselves, motion vectors, segmentation maps, the copy super-resolution makes).
\<close>

section \<open>Controls\<close>

context frame_source
begin

lemma control_ok:
  assumes "api_ok ctx" "decoder_ctrl_maps x v ctx = (e, ctx')"
  shows "api_ok ctx' \<and> ap_num_grain_fbs ctx' = ap_num_grain_fbs ctx"
  using assms by (cases x; cases "ap_worker ctx")
    (auto simp: ctrl_set_byte_alignment_def ctrl_set_skip_film_grain_def ctrl_set_frame_size_limit_def ctrl_set_tile_mode_def ctrl_set_is_annexb_def
      ctrl_set_operating_point_def ctrl_set_output_all_layers_def ctrl_ext_tile_debug_def api_ok_def idle_fields split: if_splits)

lemma api_ok_closed: "ap_worker ctx = None \<Longrightarrow> api_ok ctx \<longleftrightarrow> length (ap_grain_fbs ctx) = MAX_NUM_SPATIAL_LAYERS \<and> ap_num_grain_fbs ctx = 0"
  by (auto simp: api_ok_def grain_ok_def grain_handles_def)

text \<open>What the invariant says of a context with a decoder.\<close>

lemma api_ok_pool:
  assumes "api_ok ctx" "ap_worker ctx = Some w"
  shows "pinv (set (grain_handles (take (ap_num_grain_fbs ctx) (ap_grain_fbs ctx)))) {} (owners (fw_pbi w)) (cm_pool (fw_pbi w))"
    "grain_ok (take (ap_num_grain_fbs ctx) (ap_grain_fbs ctx))"
  using assms by (simp_all add: api_ok_def idle_def core_def)

end

section \<open>Sessions\<close>

type_synonym int_state = "heap \<times> InternalFrameBufferList option"

text \<open>
  The laws of what is not modelled: a new sequence clears the unused buffers, and an error that is
  raised is not \<open>AOM_CODEC_OK\<close>. The internal frame buffers start on a heap whose blocks do not overlap.
\<close>

definition calls_ok :: "(nat \<Rightarrow> int_state header_env) \<Rightarrow> (nat \<Rightarrow> int_state tile_env) \<Rightarrow> bool" where
  "calls_ok env te \<longleftrightarrow> (\<forall>n. he_clear (env n) = int_clear \<and> header_errs (env n) \<and> tile_errs (te n))"

definition started :: "int set \<Rightarrow> int_state \<Rightarrow> bool" where
  "started base c \<longleftrightarrow> (\<exists>pick h. live_apart h \<and> internal_start pick h = Some c \<and> allocated h = base)"

text \<open>\<open>session base i ctx\<close>: the context after some calls, \<open>i\<close> the iterator of the application, which starts
  anew with every temporal unit, \<open>base\<close> the blocks that were allocated before.\<close>

inductive session :: "int set \<Rightarrow> nat \<Rightarrow> int_state dec_priv \<Rightarrow> bool" where
  opened: "session base 0 (decoder_init lowbitdepth)"
| decoded: "session base i ctx \<Longrightarrow> calls_ok env te \<Longrightarrow> (ap_worker ctx = None \<Longrightarrow> started base c) \<Longrightarrow>
    decoder_decode internal_callbacks env te site_ok c data ctx = Some (e, ctx') \<Longrightarrow> session base 0 ctx'"
| shown: "session base i ctx \<Longrightarrow> decoder_get_frame internal_callbacks ge i ctx = Some (img, i', ctx') \<Longrightarrow> session base i' ctx'"
| controlled: "session base i ctx \<Longrightarrow> decoder_ctrl_maps x v ctx = (e, ctx') \<Longrightarrow> session base i ctx'"

text \<open>The list of the internal frame buffers is there, or its allocation failed.\<close>

lemma started_cases:
  assumes "started base c"
  shows "int_ok base c \<and> int_held c = {} \<or> none_ok base c"
proof -
  obtain pick h where h: "live_apart h" "internal_start pick h = Some c" "allocated h = base" using assms by (auto simp: started_def)
  then obtain e h' l where l: "av1_alloc_internal_frame_buffers pick h \<lparr>num_internal_frame_buffers = 0, int_fb_block = 0, int_fb = []\<rparr> = Some (e, h', l)"
    "c = (h', Some l)" by (auto simp: internal_start_def)
  show ?thesis using alloc_list_ok [OF h(1) l(1)] h(3) l(2) by (auto split: if_splits)
qed

definition context_ok :: "int set \<Rightarrow> int_state dec_priv \<Rightarrow> bool" where
  "context_ok base ctx \<longleftrightarrow> int_fb.api_ok base ctx \<or> no_fb.api_ok base ctx"

lemma context_closed: "ap_worker ctx = None \<Longrightarrow> int_fb.api_ok base ctx = no_fb.api_ok base ctx"
  by (simp add: int_fb.api_ok_closed no_fb.api_ok_closed)

lemma context_decode:
  assumes "context_ok base ctx" "calls_ok env te" "ap_worker ctx = None \<Longrightarrow> started base c"
  shows "\<exists>e ctx'. decoder_decode internal_callbacks env te site_ok c data ctx = Some (e, ctx') \<and> context_ok base ctx' \<and> ap_num_grain_fbs ctx' = 0"
proof -
  have env: "\<And>n. he_clear (env n) = int_clear" "\<And>n. header_errs (env n)" "\<And>n. tile_errs (te n)" using assms(2) by (simp_all add: calls_ok_def)
  note int = int_fb.decoder_decode_ok [where env = env and te = te, OF env, where ctx = ctx and c = c and site_ok = site_ok and data = data and base = base] and none = no_fb.decoder_decode_ok [where env = env and te = te, OF env, where ctx = ctx and c = c and site_ok = site_ok and data = data and base = base]
  show ?thesis
  proof (cases "ap_worker ctx")
    case None
    then have "int_fb.api_ok base ctx" "no_fb.api_ok base ctx" using assms(1) context_closed by (auto simp: context_ok_def)
    then show ?thesis using started_cases [OF assms(3) [OF None]] int none unfolding context_ok_def by blast
  next
    case (Some w)
    then show ?thesis using assms(1) int none unfolding context_ok_def by (metis option.distinct(1))
  qed
qed

lemma context_get_frame:
  assumes "context_ok base ctx" "ap_num_grain_fbs ctx \<le> i"
  shows "\<exists>r i' ctx'. decoder_get_frame internal_callbacks ge i ctx = Some (r, i', ctx') \<and> context_ok base ctx' \<and> ap_num_grain_fbs ctx' \<le> i' \<and>
    i' = (if r = None then i else Suc i)"
  using assms int_fb.decoder_get_frame_ok [of base ctx i ge] no_fb.decoder_get_frame_ok [of base ctx i ge] unfolding context_ok_def by blast

lemma session_ok: "session base i ctx \<Longrightarrow> context_ok base ctx \<and> ap_num_grain_fbs ctx \<le> i"
proof (induction rule: session.induct)
  case (opened base lowbitdepth)
  then show ?case using int_fb.api_ok_init by (simp add: context_ok_def decoder_init_def)
next
  case (decoded base i ctx env te c site_ok data e ctx')
  then show ?case using context_decode [of base ctx env te c site_ok data] by auto
next
  case (shown base i ctx ge img i' ctx')
  then show ?case using context_get_frame [of base ctx i ge] by auto
next
  case (controlled base i ctx x v e ctx')
  then show ?case using int_fb.control_ok [of base ctx x v e ctx'] no_fb.control_ok [of base ctx x v e ctx'] by (auto simp: context_ok_def)
qed

section \<open>What a session promises\<close>

lemma session_cases:
  assumes "session base i ctx" "ap_worker ctx = Some w"
  obtains "int_fb.pinv base (set (grain_handles (take (ap_num_grain_fbs ctx) (ap_grain_fbs ctx)))) {} (owners (fw_pbi w)) (cm_pool (fw_pbi w))"
    | "no_fb.pinv base (set (grain_handles (take (ap_num_grain_fbs ctx) (ap_grain_fbs ctx)))) {} (owners (fw_pbi w)) (cm_pool (fw_pbi w))"
      "set (grain_handles (take (ap_num_grain_fbs ctx) (ap_grain_fbs ctx))) = {}"
  using session_ok [OF assms(1)] int_fb.api_ok_pool(1) [OF _ assms(2)] no_fb.api_ok_pool [OF _ assms(2)]
  by (fastforce simp: context_ok_def no_fb.grain_ok_def grain_handles_def)


text \<open>
  C11. \<open>decoder_get_frame\<close> returns in every session, also where it makes an image with film grain: the
  array of their blocks, which has four entries and no check of its own, is large enough as long
  as the application iterates once over the frames of a temporal unit.
\<close>

theorem get_frame_returns:
  assumes "session base i ctx"
  shows "\<exists>img i' ctx'. decoder_get_frame internal_callbacks ge i ctx = Some (img, i', ctx') \<and> i' = (if img = None then i else Suc i) \<and>
    ap_num_grain_fbs ctx' \<le> length (ap_grain_fbs ctx')"
proof -
  obtain r i' ctx' where g: "decoder_get_frame internal_callbacks ge i ctx = Some (r, i', ctx')" "context_ok base ctx'" "i' = (if r = None then i else Suc i)"
    using context_get_frame session_ok [OF assms] by metis
  moreover have "ap_num_grain_fbs ctx' \<le> length (ap_grain_fbs ctx')" using g(2) by (auto simp: context_ok_def int_fb.api_ok_def no_fb.api_ok_def)
  ultimately show ?thesis by blast
qed

text \<open>
  C10. Between two calls the count of every frame of the pool is the number of its owners (the
  reference slots and the frames that wait to be taken), and a frame without an owner has no block.
\<close>

theorem session_counts:
  assumes "session base i ctx" "ap_worker ctx = Some w" "k < FRAME_BUFFERS"
  shows "ref_count (frame_bufs (cm_pool (fw_pbi w)) ! k) = int (count (owners (fw_pbi w)) k) \<and>
    (ref_count (frame_bufs (cm_pool (fw_pbi w)) ! k) = 0 \<longrightarrow> fb_data (raw_frame_buffer (frame_bufs (cm_pool (fw_pbi w)) ! k)) = 0)"
proof -
  have "frame_count (cm_pool (fw_pbi w)) k = int (count (owners (fw_pbi w)) k) \<and>
      (k \<notin># owners (fw_pbi w) \<longrightarrow> fb_data (frame_block (cm_pool (fw_pbi w)) k) = 0)"
    by (rule session_cases [OF assms(1,2)])
      (simp_all add: int_fb.pinv_count int_fb.pinv_unowned no_fb.pinv_count no_fb.pinv_unowned assms(3))
  then show ?thesis by (simp add: frame_count_def frame_block_def not_in_iff)
qed

text \<open>
  C3. Between two calls the internal frame buffers that are in use are exactly the blocks of the frames
  and of the images with film grain: none is lost, and no two frames share one.
\<close>

theorem session_blocks:
  assumes "session base i ctx" "ap_worker ctx = Some w" "cb_priv (cm_pool (fw_pbi w)) = (h, Some l)"
  shows "{n. n < length (int_fb l) \<and> in_use (int_fb l ! n) \<noteq> 0} =
      blocks_out {} (frame_block (cm_pool (fw_pbi w))) \<union> set (grain_handles (take (ap_num_grain_fbs ctx) (ap_grain_fbs ctx))) \<and>
    blocks_apart (frame_block (cm_pool (fw_pbi w))) \<and>
    blocks_out {} (frame_block (cm_pool (fw_pbi w))) \<inter> set (grain_handles (take (ap_num_grain_fbs ctx) (ap_grain_fbs ctx))) = {}"
proof (rule session_cases [OF assms(1,2)])
  define G where "G = set (grain_handles (take (ap_num_grain_fbs ctx) (ap_grain_fbs ctx)))"
  define p where "p = cm_pool (fw_pbi w)"
  {
    assume "int_fb.pinv base (set (grain_handles (take (ap_num_grain_fbs ctx) (ap_grain_fbs ctx)))) {} (owners (fw_pbi w)) (cm_pool (fw_pbi w))"
    then have "int_ok base (h, Some l)" "blocks_ok {..<16} G {} (int_held (h, Some l)) (frame_block p)"
      using assms(3) by (simp_all add: int_fb.pinv_def pool_ok_def G_def p_def)
    then show ?thesis using blocks_named_handle [of "{..<16}" G "frame_block p"]
      by (auto simp: blocks_ok_def int_held_def int_ok_def blocks_out_def simp flip: G_def p_def)
  next
    assume "no_fb.pinv base (set (grain_handles (take (ap_num_grain_fbs ctx) (ap_grain_fbs ctx)))) {} (owners (fw_pbi w)) (cm_pool (fw_pbi w))"
      "set (grain_handles (take (ap_num_grain_fbs ctx) (ap_grain_fbs ctx))) = {}"
    then show ?thesis using assms(3) by (auto simp: no_fb.pinv_def pool_ok_def blocks_ok_def none_ok_def)
  }
qed

text \<open>
  C4. Destroying the decoder gives its frame buffers back. On the heap of the internal frame buffers,
  after any session, the blocks allocated when \<open>decoder_destroy\<close> is done are exactly those that were
  before the list of the buffers was made: each buffer the callbacks allocated and the list itself are
  freed once, also those of frames still referenced, shown or held for film grain. The decoder's other
  memory is not on this heap.
\<close>

theorem destroy_returns_buffers:
  assumes "session base i ctx" "ap_worker ctx = Some w"
  shows "\<exists>h l. decoder_destroy internal_callbacks internal_free ctx = Some (Some (h, l)) \<and> allocated h = base"
proof -
  have "\<exists>c. decoder_destroy internal_callbacks internal_free ctx = map_option Some (internal_free c) \<and> (int_ok base c \<or> none_ok base c)"
    using session_ok [OF assms(1)] int_fb.decoder_destroy_ok [of base ctx] no_fb.decoder_destroy_ok [of base ctx] assms(2)
    unfolding context_ok_def by blast
  then obtain h l where "decoder_destroy internal_callbacks internal_free ctx = map_option Some (internal_free (h, Some l))"
    "int_ok base (h, Some l) \<or> none_ok base (h, Some l)" by (auto simp: int_ok_def none_ok_def split: prod.splits option.splits)
  then show ?thesis using int_free_list [of base h l] none_free_list [of base h l] by (auto simp: internal_free_def)
qed

text \<open>
  C13. A frame that cannot be decoded is never reported as decoded: when \<open>decode_one\<close> returns
  \<open>AOM_CODEC_OK\<close>, the worker had no error.
\<close>

theorem decode_one_reports_errors:
  assumes "header_errs env" "tile_errs te" "decode_one cbs env te data ctx = Some (AOM_CODEC_OK, reach, ctx')"
  shows "\<exists>w. ap_worker ctx' = Some w \<and> \<not> fw_had_error w"
proof -
  obtain e c1 where p: "(if si_h (ap_si ctx) = 0 then
       let (e, si, intra_only) = decoder_peek_si_internal data ((ap_si ctx)\<lparr>si_is_annexb := ap_is_annexb ctx\<rparr>); ctx = ctx\<lparr>ap_si := si\<rparr> in
       (if e \<noteq> AOM_CODEC_OK then e else if si_is_kf si = 0 \<and> intra_only = 0 then AOM_CODEC_ERROR else AOM_CODEC_OK, ctx)
     else (AOM_CODEC_OK, ctx)) = (e, c1)" by fastforce
  note run = assms(3) [unfolded decode_one_def p]
  have "e = AOM_CODEC_OK" using run by (auto split: if_splits)
  then obtain w good s' where h: "ap_worker c1 = Some w"
    "frame_worker_hook cbs env te data ((fw_pbi w)\<lparr>tl_large_scale := ap_tile_mode c1, pbi_ext_tile_debug := ap_ext_tile_debug c1,
       pbi_is_annexb := ap_is_annexb c1\<rparr>) = Some (good, reach, s')"
    "(if \<not> good then (ds_error (pbi_ds s'), reach, c1\<lparr>ap_worker := Some (w\<lparr>fw_pbi := s', fw_received_frame := 1, fw_had_error := \<not> good\<rparr>)\<rparr>)
      else (AOM_CODEC_OK, reach, check_resync s' (c1\<lparr>ap_worker := Some (w\<lparr>fw_pbi := s', fw_received_frame := 1, fw_had_error := \<not> good\<rparr>)\<rparr>))) =
     (AOM_CODEC_OK, reach, ctx')"
    using run by (auto simp: Let_def split: Option.bind_splits if_splits)
  have good
  proof (rule ccontr)
    assume "\<not> good"
    then obtain r s'' where "av1_receive_compressed_data cbs env te data ((fw_pbi w)\<lparr>tl_large_scale := ap_tile_mode c1, pbi_ext_tile_debug := ap_ext_tile_debug c1,
       pbi_is_annexb := ap_is_annexb c1\<rparr>) = Some (r, reach, s'')" "r \<noteq> 0" "s' = s''\<lparr>pbi_need_resync := 1\<rparr>"
      using h(2) by (auto simp: frame_worker_hook_def)
    then show False using receive_real [OF assms(1,2)] h(3) \<open>\<not> good\<close> by simp
  qed
  then show ?thesis using h(3) by (auto simp: check_resync_def)
qed

section \<open>A session\<close>

text \<open>
  One call on an empty heap with bytes that are no OBU. What is not modelled answers with one tile
  that takes all of its data.
\<close>

definition sample_env :: "nat \<Rightarrow> int_state header_env" where
  "sample_env n = \<lparr>he_pick = \<lambda>_. 65536, he_contexts = \<lambda>_ _. True, he_mvs = \<lambda>_ _. True,
     he_rest = \<lambda>s rb. (Inr \<lparr>hr_cols = 1, hr_rows = 1, hr_log2_cols = 0, hr_log2_rows = 0, hr_apply_grain = 0, hr_no_filters = True\<rparr>, rb), he_fc_ready = \<lambda>_. True,
     he_clear = int_clear\<rparr>"

definition sample_tiles :: "nat \<Rightarrow> int_state tile_env" where
  "sample_tiles n = \<lparr>te_setup = \<lambda>_. None, te_tiles = \<lambda>_ data _ _. Inr (length data), te_filters = \<lambda>_. None, te_wrapup = \<lambda>_. None,
     te_copy = True, te_pick = 131072, te_no_filters = \<lambda>_. True,
     te_tile_list = \<lambda>s _. (Inl AOM_CODEC_UNSUP_BITSTREAM, \<lambda>k. rc_buf (pool_frame s k), cf_frame_number s), te_metadata = \<lambda>_. True\<rparr>"

definition empty_heap :: heap where
  "empty_heap = \<lparr>mem = \<lambda>_. 0, live = []\<rparr>"

definition sample_start :: int_state where
  "sample_start = the (internal_start 4096 empty_heap)"

definition sample_context :: "int_state dec_priv" where
  "sample_context = snd (the (decoder_decode internal_callbacks sample_env sample_tiles (\<lambda>_. True) sample_start (Some [128]) (decoder_init 1)))"

lemma sample_calls: "calls_ok sample_env sample_tiles" "header_errs (sample_env n)" "tile_errs (sample_tiles n)"
  by (simp_all add: calls_ok_def sample_env_def sample_tiles_def header_errs_def tile_errs_def)

lemma sample_started: "started {} sample_start"
proof -
  have "internal_start 4096 empty_heap \<noteq> None"
    by (simp add: internal_start_def av1_alloc_internal_frame_buffers_def av1_free_internal_frame_buffers_def aom_free_def Let_def split: prod.splits)
  then show ?thesis unfolding started_def
    by (intro exI [of _ 4096] exI [of _ empty_heap]) (auto simp: empty_heap_def live_apart_def allocated_def sample_start_def)
qed

lemma sample_decode:
  "\<exists>e w. decoder_decode internal_callbacks sample_env sample_tiles (\<lambda>_. True) sample_start (Some [128]) (decoder_init 1) = Some (e, sample_context) \<and>
    ap_worker sample_context = Some w"
proof -
  have "aom_read_obu_header_and_size [128] False = Inl AOM_CODEC_CORRUPT_FRAME" by code_simp
  then have one: "\<exists>si. decode_one cbs env te [128] ctx = Some (AOM_CODEC_CORRUPT_FRAME, 0, ctx\<lparr>ap_si := si\<rparr>)"
    if "si_h (ap_si ctx) = 0" "ap_is_annexb ctx = 0" for cbs env te and ctx :: "int_state dec_priv"
    using that by (auto simp: decode_one_def decoder_peek_si_internal_def Let_def)
  obtain ctx where init: "init_decoder (\<lambda>_. True) sample_start ((decoder_init 1)\<lparr>ap_flushed := 0\<rparr>) = (AOM_CODEC_OK, ctx)"
    "ap_worker ctx \<noteq> None" "si_h (ap_si ctx) = 0" "ap_is_annexb ctx = 0"
    by (auto simp: init_decoder_def Let_def decoder_init_def)
  obtain si where "decode_one internal_callbacks (sample_env 0) (sample_tiles 0) [128] ctx = Some (AOM_CODEC_CORRUPT_FRAME, 0, ctx\<lparr>ap_si := si\<rparr>)"
    using one [OF init(3,4)] by blast
  then have "decoder_decode internal_callbacks sample_env sample_tiles (\<lambda>_. True) sample_start (Some [128]) (decoder_init 1) =
      Some (AOM_CODEC_CORRUPT_FRAME, ctx\<lparr>ap_si := si\<rparr>)"
    using init by (simp add: decoder_decode_def release_pending_output_frames_def decoder_init_def)
  then show ?thesis using init(2) by (auto simp: sample_context_def)
qed

lemma sample_session: "session {} 0 sample_context"
  using sample_decode session.decoded [OF session.opened [of "{}" 1] sample_calls(1), of sample_start] sample_started by blast

text \<open>A decoder whose callbacks have no block to give decodes a temporal unit that is only its delimiter.\<close>

definition bare_callbacks :: "unit frame_callbacks" where
  "bare_callbacks = \<lparr>get_fb_cb = \<lambda>_ c _ fb. Some (-1, fb, c), release_fb_cb = \<lambda>c _. Some (0, c), fb_bytes = \<lambda>_ _. []\<rparr>"

definition bare_env :: "unit header_env" where
  "bare_env = \<lparr>he_pick = \<lambda>_. 0, he_contexts = \<lambda>_ _. True, he_mvs = \<lambda>_ _. True,
     he_rest = \<lambda>s rb. (Inl AOM_CODEC_UNSUP_BITSTREAM, rb), he_fc_ready = \<lambda>_. True, he_clear = id\<rparr>"

definition bare_tiles :: "unit tile_env" where
  "bare_tiles = \<lparr>te_setup = \<lambda>_. None, te_tiles = \<lambda>_ data _ _. Inr (length data), te_filters = \<lambda>_. None, te_wrapup = \<lambda>_. None,
     te_copy = True, te_pick = 0, te_no_filters = \<lambda>_. True,
     te_tile_list = \<lambda>s _. (Inl AOM_CODEC_UNSUP_BITSTREAM, \<lambda>k. rc_buf (pool_frame s k), cf_frame_number s), te_metadata = \<lambda>_. True\<rparr>"

definition bare_context :: "unit dec_priv" where
  "bare_context = (let ctx = snd (init_decoder (\<lambda>_. True) () (decoder_init 1)) in ctx\<lparr>ap_si := (ap_si ctx)\<lparr>si_h := 16\<rparr>\<rparr>)"

lemma delimiter_obus:
  assumes "pbi_is_annexb s = 0"
  shows "\<exists>x y. aom_decode_frame_from_obus cbs env te [18, 0] s = Some (Inr False, 2, s\<lparr>pbi_seen_frame_header := 0, pbi_next_start_tile := 0,
    pbi_num_tile_groups := 0, pbi_camera_frame_header_ready := if tl_large_scale s = 0 then 0 else pbi_camera_frame_header_ready s,
    cm_temporal_layer_id := x, cm_spatial_layer_id := y\<rparr>)"
proof -
  obtain hdr where hdr: "aom_read_obu_header_and_size [18, 0] False = Inr (hdr, 0, 2)" "oh_type hdr = OBU_TEMPORAL_DELIMITER"
  proof -
    have "read_obu_header (obu_reader [18, 0]) False = Inr \<lparr>oh_size = 1, oh_type = 2, oh_has_size_field = 1, oh_has_extension = 0,
      oh_temporal_layer_id = 0, oh_spatial_layer_id = 0\<rparr>" by code_simp
    moreover have "read_obu_size [0] = Inr (0, 1)"
      by (simp add: read_obu_size_def aom_uleb_decode_def uleb_decode_loop.simps kMaximumLeb128Size_def)
    ultimately show ?thesis using that by (simp add: aom_read_obu_header_and_size_def OBU_TEMPORAL_DELIMITER_def)
  qed
  define L where "L = \<lparr>ol_frame_header = [18, 0], ol_frame_header_size = 0, ol_first_tg = True, ol_finished = False, ol_data_end = 0\<rparr>"
  define s0 where "s0 = s\<lparr>pbi_seen_frame_header := 0, pbi_next_start_tile := 0, pbi_num_tile_groups := 0,
    pbi_camera_frame_header_ready := if tl_large_scale s = 0 then 0 else pbi_camera_frame_header_ready s\<rparr>"
  define s1 where "s1 = s0\<lparr>cm_temporal_layer_id := oh_temporal_layer_id hdr, cm_spatial_layer_id := oh_spatial_layer_id hdr\<rparr>"
  have s1: "pbi_is_annexb s0 = 0" "pbi_seen_frame_header s1 = 0" "ol_finished L = False" using assms by (simp_all add: s1_def s0_def L_def)
  have step: "decode_obu cbs env te hdr [] 2 0 L (s1, obu_payload_reader []) = Some (Inr (0, L), s1, obu_payload_reader [])"
    using s1(2) by (simp add: decode_obu_def hdr(2) d_get_def d_seq_def d_bind_def d_check_def d_ret_def)
  have "decode_obus cbs env te [18, 0] 0 L s0 = decode_obus cbs env te [] 2 L s1"
  proof -
    have "drop 2 [18, 0 :: int] = []" "take 0 ([] :: int list) = []" "drop 0 ([] :: int list) = []" "\<not> length ([] :: int list) < 0"
      "payload_read 0 []" "[18, 0 :: int] \<noteq> []" "(0 :: nat) + 2 = 2" "2 + (0 :: nat) = 2" "length ([] :: int list) = 0"
      by (simp_all add: payload_read_def)
    note facts = this
    show ?thesis
      unfolding decode_obus.simps [of cbs env te "[18, 0]" 0 L s0] s1(1,3) hdr(1) Let_def facts s1_def
      by (simp only: hdr step [unfolded s1_def] facts less_irrefl sum.case prod.case option.case if_False if_True simp_thms)
  qed
  also have "\<dots> = Some (Inr False, 2, s1)"
    unfolding decode_obus.simps [of cbs env te "[]" 2 L s1] using s1 by simp
  finally show ?thesis unfolding aom_decode_frame_from_obus_def L_def [symmetric] s0_def [symmetric] s1_def by (intro exI)
qed

lemma delimiter_frame:
  assumes "cm_cur_frame s = None" "pbi_is_annexb s = 0" "first_free (frame_bufs (cm_pool s)) = 0" "frame_bufs (cm_pool s) \<noteq> []"
    "fb_data (raw_frame_buffer (frame_bufs (cm_pool s) ! 0)) = 0"
  shows "\<exists>s'. av1_receive_compressed_data cbs env te [18, 0] s = Some (0, 2, s')"
proof -
  obtain p where new: "assign_cur_frame_new_fb (set_pbi_error AOM_CODEC_OK s) = (True, (set_pbi_error AOM_CODEC_OK s)\<lparr>cm_cur_frame := Some 0, cm_pool := p\<rparr>)"
    "fb_data (raw_frame_buffer (frame_bufs p ! 0)) = 0" "frame_bufs p \<noteq> []"
    using assms by (auto simp: assign_cur_frame_new_fb_def set_pbi_error_def get_free_fb_def Let_def INVALID_IDX_def)
  define s1 where "s1 = (set_pbi_error AOM_CODEC_OK s)\<lparr>cm_cur_frame := Some 0, cm_pool := p\<rparr>"
  have s1: "pbi_is_annexb s1 = 0" "cm_cur_frame s1 = Some 0" "cm_pool s1 = p" "ds_error (pbi_ds s1) = AOM_CODEC_OK"
    using assms(2) by (simp_all add: s1_def set_pbi_error_def)
  have "decrease_ref_count cbs (Some 0) p = Some (add_ref (-1) 0 p)"
    using new(2,3) by (simp add: decrease_ref_count_def add_ref_def Let_def nth_list_update)
  then show ?thesis using delimiter_obus [OF s1(1), of cbs env te] new(1) s1(2-4)
    by (auto simp: av1_receive_compressed_data_def update_frame_buffers_def drop_frame_def simp flip: s1_def)
qed

lemma bare_decode: "\<exists>reach ctx. decode_one bare_callbacks bare_env bare_tiles [18, 0] bare_context = Some (AOM_CODEC_OK, reach, ctx)"
proof -
  obtain w where w: "ap_worker bare_context = Some w" "cm_cur_frame (fw_pbi w) = None"
    "frame_bufs (cm_pool (fw_pbi w)) = replicate FRAME_BUFFERS zero_ref_cnt_buffer" "si_h (ap_si bare_context) = 16" "ap_is_annexb bare_context = 0"
    by (auto simp: bare_context_def init_decoder_def Let_def decoder_init_def init_buffer_callbacks_def av1_decoder_create_def)
  have fb: "replicate FRAME_BUFFERS zero_ref_cnt_buffer = zero_ref_cnt_buffer # replicate 15 zero_ref_cnt_buffer"
    by (simp only: replicate_Suc [symmetric]) (simp add: FRAME_BUFFERS_def REF_FRAMES_def INTER_REFS_PER_FRAME_def)
  have "first_free (frame_bufs (cm_pool (fw_pbi w))) = 0" "frame_bufs (cm_pool (fw_pbi w)) \<noteq> []"
    "fb_data (raw_frame_buffer (frame_bufs (cm_pool (fw_pbi w)) ! 0)) = 0"
    unfolding w(3) fb by (simp_all add: zero_ref_cnt_buffer_def null_fb_def)
  then have "\<exists>s'. av1_receive_compressed_data bare_callbacks bare_env bare_tiles [18, 0] ((fw_pbi w)\<lparr>tl_large_scale := ap_tile_mode bare_context,
      pbi_ext_tile_debug := ap_ext_tile_debug bare_context, pbi_is_annexb := ap_is_annexb bare_context\<rparr>) = Some (0, 2, s')"
    using w(2,5) by (intro delimiter_frame) simp_all
  then show ?thesis using w(1,4) by (auto simp: decode_one_def frame_worker_hook_def)
qed

section \<open>Instances of the properties\<close>


theorem get_frame_returns_witness:
  "\<exists>img i' ctx'. decoder_get_frame internal_callbacks \<lparr>ge_pick = 262144, ge_synth = \<lambda>_ img. Some img, ge_crop = \<lambda>_ img. Some img, ge_tile_list = zero_frame\<rparr>
     0 sample_context = Some (img, i', ctx') \<and> i' = (if img = None then 0 else Suc 0) \<and> ap_num_grain_fbs ctx' \<le> length (ap_grain_fbs ctx')"
  by (rule get_frame_returns [OF sample_session])

theorem session_counts_witness:
  "\<exists>w. ap_worker sample_context = Some w \<and> ref_count (frame_bufs (cm_pool (fw_pbi w)) ! 3) = int (count (owners (fw_pbi w)) 3)"
  using session_counts [OF sample_session, of _ 3] sample_decode by (auto simp: FRAME_BUFFERS_def REF_FRAMES_def)

theorem session_blocks_witness:
  "\<exists>w h l. ap_worker sample_context = Some w \<and> cb_priv (cm_pool (fw_pbi w)) = (h, Some l) \<and>
     {n. n < length (int_fb l) \<and> in_use (int_fb l ! n) \<noteq> 0} =
       blocks_out {} (frame_block (cm_pool (fw_pbi w))) \<union> set (grain_handles (take (ap_num_grain_fbs sample_context) (ap_grain_fbs sample_context)))"
proof -
  obtain w where w: "ap_worker sample_context = Some w" using sample_decode by blast
  have "\<exists>h l. cb_priv (cm_pool (fw_pbi w)) = (h, Some l)"
    by (rule session_cases [OF sample_session w])
      (auto simp: int_fb.pinv_def no_fb.pinv_def int_ok_def none_ok_def split: prod.splits option.splits)
  then show ?thesis using session_blocks [OF sample_session w] w by blast
qed

theorem destroy_returns_buffers_witness:
  "\<exists>h l. decoder_destroy internal_callbacks internal_free sample_context = Some (Some (h, l)) \<and> allocated h = {}"
  using destroy_returns_buffers [OF sample_session] sample_decode by blast

theorem decode_one_reports_errors_witness:
  "header_errs bare_env \<and> tile_errs bare_tiles \<and>
   (\<exists>reach ctx' w. decode_one bare_callbacks bare_env bare_tiles [18, 0] bare_context = Some (AOM_CODEC_OK, reach, ctx') \<and>
     ap_worker ctx' = Some w \<and> \<not> fw_had_error w)"
proof -
  have "header_errs bare_env" "tile_errs bare_tiles" by (simp_all add: header_errs_def tile_errs_def bare_env_def bare_tiles_def)
  then show ?thesis using bare_decode decode_one_reports_errors [of bare_env bare_tiles bare_callbacks "[18, 0]" bare_context] by blast
qed

section \<open>The references of a frame\<close>

text \<open>
  C12. The short signalling of references: from the slots of the last and the golden frame,
  \<open>av1_set_frame_refs\<close> finds all seven references. When both slots hold an earlier frame it succeeds: every
  reference is a slot with a frame, the last and golden references are the slots given, and when a frame
  does not come before the current one in time the alternate reference is the latest of all. Otherwise the frame is refused and nothing
  has changed.
\<close>

theorem frame_refs_derived:
  assumes "hints_on s" "lst < REF_FRAMES" "gld < REF_FRAMES"
  shows "if hinted s lst \<and> ref_distance s lst < 0 \<and> hinted s gld \<and> ref_distance s gld < 0
    then \<exists>xs. av1_set_frame_refs lst gld (s, rb) = Some (Inr (), s\<lparr>cm_remapped_ref_idx := xs\<rparr>, rb) \<and> length xs = INTER_REFS_PER_FRAME \<and>
      (\<forall>i < INTER_REFS_PER_FRAME. \<exists>m. xs ! i = int m \<and> hinted s m) \<and> xs ! 0 = int lst \<and> xs ! 3 = int gld \<and>
      ((\<exists>m. hinted s m \<and> 0 \<le> ref_distance s m) \<longrightarrow> (\<forall>m. hinted s m \<longrightarrow> ref_distance s m \<le> ref_distance s (nat (xs ! 6))))
    else av1_set_frame_refs lst gld (s, rb) = Some (Inl AOM_CODEC_CORRUPT_FRAME, s, rb)"
proof (cases "hinted s lst \<and> ref_distance s lst < 0 \<and> hinted s gld \<and> ref_distance s gld < 0")
  case True
  then have "hinted s lst \<and> ref_distance s lst < 0" "hinted s gld \<and> ref_distance s gld < 0" by simp_all
  from set_frame_refs_result [OF assms this] True show ?thesis by simp
next
  case False
  from set_frame_refs_refused [OF assms False] False show ?thesis by (simp only: if_False)
qed

text \<open>The current frame has hint 5, slot 0 a frame with hint 3 and slot 1 one with hint 8.\<close>

definition refs_decoder :: "unit AV1Decoder" where
  "refs_decoder =
     (let s = av1_decoder_create \<lparr>frame_bufs = [zero_ref_cnt_buffer\<lparr>rc_order_hint := 3\<rparr>, zero_ref_cnt_buffer\<lparr>rc_order_hint := 8\<rparr>], cb_priv = ()\<rparr>;
          seq = ds_seq_params (pbi_ds s) in
      s\<lparr>pbi_ds := (pbi_ds s)\<lparr>ds_seq_params := seq\<lparr>order_hint_info := (order_hint_info seq)\<lparr>enable_order_hint := 1, order_hint_bits_minus_1 := 6\<rparr>\<rparr>\<rparr>,
        cm_ref_frame_map := [Some 0, Some 1, None, None, None, None, None, None], cf_order_hint := 5\<rparr>)"

theorem frame_refs_derived_witness:
  "hints_on refs_decoder \<and> hinted refs_decoder 0 \<and> ref_distance refs_decoder 0 = -2 \<and>
   (\<exists>xs. av1_set_frame_refs 0 0 (refs_decoder, obu_payload_reader []) = Some (Inr (), refs_decoder\<lparr>cm_remapped_ref_idx := xs\<rparr>, obu_payload_reader []) \<and> xs ! 0 = 0 \<and> xs ! 3 = 0) \<and>
   av1_set_frame_refs 1 0 (refs_decoder, obu_payload_reader []) = Some (Inl AOM_CODEC_CORRUPT_FRAME, refs_decoder, obu_payload_reader [])"
proof -
  have a: "hints_on refs_decoder" by (simp add: hints_on_def refs_decoder_def Let_def cm_seq_def)
  have h: "hinted refs_decoder 0" "ref_distance refs_decoder 0 = -2" "ref_distance refs_decoder 1 = 3"
    by (simp_all add: hinted_def has_ref_def ref_distance_def refs_decoder_def Let_def cm_seq_def av1_decoder_create_def pool_frame_def
      get_relative_dist_def REF_FRAMES_def s32_def shl_def)
  show ?thesis using frame_refs_derived [OF a, of 0 0 "obu_payload_reader []"] frame_refs_derived [OF a, of 1 0 "obu_payload_reader []"] a h by (auto simp: REF_FRAMES_def)
qed

end
